(* ===== verification/Fractal_Prelude.thy ===== *)
theory Fractal_Prelude
  imports Main "HOL-Library.Word"
begin

text \<open>
  Shared vocabulary of the development.

  The machine integers of the Rust sources are words of their width, so \<open>+\<close>, \<open>-\<close> and \<open>*\<close>
  wrap around as they do in a release build (the workspace sets no \<open>overflow-checks\<close>), and
  the saturating and checked operations of the standard library are defined on top of them.
  Fixed-size byte arrays are words too: \<open>[u8; 20]\<close> is a \<open>160 word\<close> read in big-endian order,
  \<open>[u8; 32]\<close> a \<open>256 word\<close>; the derived lexicographic \<open>Ord\<close> of such an array is then the
  unsigned order of the word.  A method on \<open>&mut self\<close> that returns a \<open>Result\<close> is a function
  that returns the new state together with a value of a sum type, because the Rust method
  keeps the writes it made before the error.
\<close>

section \<open>Types\<close>

type_synonym u8 = "8 word"
type_synonym u16 = "16 word"
type_synonym u32 = "32 word"
type_synonym u64 = "64 word"
type_synonym u128 = "128 word"
type_synonym bytes = "8 word list"
type_synonym address = "160 word"
type_synonym hash256 = "256 word"
type_synonym pubkey32 = "256 word"
type_synonym sig64 = "512 word"
type_synonym bls_pubkey = "384 word"
type_synonym bls_signature = "768 word"

text \<open>The result of a fallible method on \<open>&mut self\<close>: the state it leaves and its \<open>Result\<close>.\<close>

type_synonym ('s, 'e, 'a) exec = "'s \<times> ('e + 'a)"

named_theorems unat_ops \<open>the unsigned value of the Rust integer operations\<close>
named_theorems exec_simps \<open>evaluation of the result combinators\<close>

section \<open>Definitions\<close>

definition sat_add :: "'a::len word \<Rightarrow> 'a word \<Rightarrow> 'a word" where
  "sat_add a b = (if unat a + unat b < 2 ^ LENGTH('a) then a + b else - 1)"

definition sat_sub :: "'a::len word \<Rightarrow> 'a word \<Rightarrow> 'a word" where
  "sat_sub a b = (if b \<le> a then a - b else 0)"

definition sat_mul :: "'a::len word \<Rightarrow> 'a word \<Rightarrow> 'a word" where
  "sat_mul a b = (if unat a * unat b < 2 ^ LENGTH('a) then a * b else - 1)"

definition checked_add :: "'a::len word \<Rightarrow> 'a word \<Rightarrow> 'a word option" where
  "checked_add a b = (if unat a + unat b < 2 ^ LENGTH('a) then Some (a + b) else None)"

definition checked_mul :: "'a::len word \<Rightarrow> 'a word \<Rightarrow> 'a word option" where
  "checked_mul a b = (if unat a * unat b < 2 ^ LENGTH('a) then Some (a * b) else None)"

text \<open>\<open>iter().sum()\<close> on machine integers: a left fold of the wrapping addition.\<close>

definition word_sum :: "'a::len word list \<Rightarrow> 'a word" where
  "word_sum ws = fold (\<lambda>w acc. acc + w) ws 0"

text \<open>The bytes of a fixed-size array of \<open>n\<close> bytes, most significant byte first.\<close>

definition be_bytes :: "nat \<Rightarrow> 'a::len word \<Rightarrow> bytes" where
  "be_bytes n w = map (\<lambda>i. ucast (drop_bit (8 * (n - 1 - i)) w)) [0..<n]"

text \<open>\<open>from_le_bytes\<close>: the first byte is the least significant one.\<close>

definition le_word :: "bytes \<Rightarrow> 'a::len word" where
  "le_word bs = foldr (\<lambda>b acc. ucast b + 256 * acc) bs 0"

text \<open>A byte-string literal \<open>b"..."\<close>, whose characters are ASCII.\<close>

definition ascii :: "string \<Rightarrow> bytes" where
  "ascii cs = map of_char cs"

definition unwrap_or :: "'a option \<Rightarrow> 'a \<Rightarrow> 'a" where
  "unwrap_or v d = (case v of None \<Rightarrow> d | Some x \<Rightarrow> x)"

text \<open>The question-mark operator: an error ends the method and keeps the state reached.\<close>

definition and_then :: "('s, 'e, 'a) exec \<Rightarrow> ('s \<Rightarrow> 'a \<Rightarrow> ('s, 'e, 'b) exec) \<Rightarrow> ('s, 'e, 'b) exec" where
  "and_then r f = (case r of (s, Inl e) \<Rightarrow> (s, Inl e) | (s, Inr a) \<Rightarrow> f s a)"

definition is_ok :: "('e + 'a) \<Rightarrow> bool" where
  "is_ok r = (case r of Inl _ \<Rightarrow> False | Inr _ \<Rightarrow> True)"

text \<open>A loop over a list that stops at the first error.\<close>

fun run_all :: "('s \<Rightarrow> 'x \<Rightarrow> ('s, 'e, 'a) exec) \<Rightarrow> 's \<Rightarrow> 'x list \<Rightarrow> ('s, 'e, unit) exec" where
  "run_all step s [] = (s, Inr ())"
| "run_all step s (x # xs) = and_then (step s x) (\<lambda>s' _. run_all step s' xs)"

text \<open>\<open>Vec::dedup\<close>: of each run of equal neighbours, the first is kept.\<close>

fun dedup_by :: "('a \<Rightarrow> 'k) \<Rightarrow> 'a list \<Rightarrow> 'a list" where
  "dedup_by f [] = []"
| "dedup_by f [x] = [x]"
| "dedup_by f (x # y # xs) = (if f x = f y then dedup_by f (x # xs) else x # dedup_by f (y # xs))"

abbreviation dedup :: "'a list \<Rightarrow> 'a list" where
  "dedup \<equiv> dedup_by (\<lambda>x. x)"

section \<open>Evaluation on integers\<close>

text \<open>The overflow tests read as comparisons of integers, which evaluate in binary.\<close>

lemma nat_less_power_int: "n < 2 ^ k \<longleftrightarrow> int n < 2 ^ k"
  using of_nat_less_iff [of n "2 ^ k", where 'a = int] by simp

lemma unat_add_fits: "unat a + unat b < 2 ^ LENGTH('a) \<longleftrightarrow> uint a + uint b < 2 ^ LENGTH('a)"
  for a b :: "'a::len word"
  unfolding nat_less_power_int by simp

lemma unat_mult_fits: "unat a * unat b < 2 ^ LENGTH('a) \<longleftrightarrow> uint a * uint b < 2 ^ LENGTH('a)"
  for a b :: "'a::len word"
  unfolding nat_less_power_int by simp

lemma sat_add_code [code]:
  "sat_add a b = (if uint a + uint b < 2 ^ LENGTH('a) then a + b else - 1)" for a b :: "'a::len word"
  by (simp add: sat_add_def unat_add_fits)

lemma sat_mul_code [code]:
  "sat_mul a b = (if uint a * uint b < 2 ^ LENGTH('a) then a * b else - 1)" for a b :: "'a::len word"
  by (simp add: sat_mul_def unat_mult_fits)

lemma checked_add_code [code]:
  "checked_add a b = (if uint a + uint b < 2 ^ LENGTH('a) then Some (a + b) else None)"
  for a b :: "'a::len word"
  by (simp add: checked_add_def unat_add_fits)

lemma checked_mul_code [code]:
  "checked_mul a b = (if uint a * uint b < 2 ^ LENGTH('a) then Some (a * b) else None)"
  for a b :: "'a::len word"
  by (simp add: checked_mul_def unat_mult_fits)

section \<open>Unsigned values\<close>

lemma unat_max_word [unat_ops]: "unat (- 1 :: 'a::len word) = 2 ^ LENGTH('a) - 1"
  by (simp add: unsigned_minus_1_eq_mask mask_eq_exp_minus_1)

lemma unat_add_no_wrap:
  "unat (a::'a::len word) + unat b < 2 ^ LENGTH('a) \<Longrightarrow> unat (a + b) = unat a + unat b"
  by (simp add: unat_word_ariths)

lemma unat_mult_no_wrap:
  "unat (a::'a::len word) * unat b < 2 ^ LENGTH('a) \<Longrightarrow> unat (a * b) = unat a * unat b"
  by (simp add: unat_word_ariths)

lemma unat_less_size [simp]: "unat (a::'a::len word) < 2 ^ LENGTH('a)"
  by (rule unsigned_less)

lemma unat_u128_less: "unat (w::u128) < 340282366920938463463374607431768211456"
  using unat_less_size [of w] by simp

lemma unat_u64_less: "unat (w::u64) < 18446744073709551616"
  using unat_less_size [of w] by simp

lemma unat_u32_less: "unat (w::u32) < 4294967296"
  using unat_less_size [of w] by simp

lemma unat_u16_less: "unat (w::u16) < 65536"
  using unat_less_size [of w] by simp

text \<open>The quotients of two numbers sum to at most the quotient of their sum.\<close>

lemma add_div_le: "(a::nat) div d + b div d \<le> (a + b) div d"
  unfolding div_add1_eq [of a b d] by (rule le_add1)

lemma unat_of_nat_small: "n < 2 ^ LENGTH('a) \<Longrightarrow> unat (of_nat n :: 'a::len word) = n"
  by (simp add: unat_of_nat)

lemma unat_sat_add [unat_ops]:
  "unat (sat_add a b) = min (unat a + unat b) (2 ^ LENGTH('a) - 1)" for a b :: "'a::len word"
  by (auto simp: sat_add_def unat_add_no_wrap unat_max_word)

lemma unat_sat_sub [unat_ops]: "unat (sat_sub a b) = unat a - unat b" for a b :: "'a::len word"
  by (auto simp: sat_sub_def unat_sub word_le_nat_alt)

lemma unat_sat_mul [unat_ops]:
  "unat (sat_mul a b) = min (unat a * unat b) (2 ^ LENGTH('a) - 1)" for a b :: "'a::len word"
  by (auto simp: sat_mul_def unat_mult_no_wrap unat_max_word)

lemma sat_add_ge: "x \<le> sat_add x y" for x y :: "'a::len word"
proof -
  have "unat x \<le> 2 ^ LENGTH('a) - 1" using unat_less_size [of x] by linarith
  then show ?thesis by (simp add: word_le_nat_alt unat_sat_add)
qed

lemma not_max_word_less: "x \<noteq> - 1 \<Longrightarrow> unat x + 1 < 2 ^ LENGTH('a)" for x :: "'a::len word"
proof -
  assume "x \<noteq> - 1"
  then have "unat x \<noteq> 2 ^ LENGTH('a) - 1" using unat_max_word by (metis word_unat_eq_iff)
  with unat_less_size [of x] show ?thesis by linarith
qed

lemma sat_add_1_neq: "x \<noteq> - 1 \<Longrightarrow> sat_add x 1 = x + 1" for x :: "'a::len word"
  using not_max_word_less [of x] by (simp add: sat_add_def unat_1)

lemma less_sat_add_1: "x \<noteq> - 1 \<Longrightarrow> x < sat_add x 1" for x :: "'a::len word"
  using not_max_word_less [of x] by (simp add: word_less_nat_alt unat_sat_add unat_1)

lemma unat_ucast_widen [unat_ops]:
  "LENGTH('a) \<le> LENGTH('b) \<Longrightarrow> unat (ucast (w::'a::len word) :: 'b::len word) = unat w"
proof -
  assume "LENGTH('a) \<le> LENGTH('b)"
  then have "(2::nat) ^ LENGTH('a) \<le> 2 ^ LENGTH('b)" by simp
  then have "unat w < 2 ^ LENGTH('b)" using unat_less_size [of w] by linarith
  then show ?thesis by (simp add: unsigned_ucast_eq take_bit_eq_mod)
qed

lemma checked_add_Some_iff:
  "checked_add a b = Some c \<longleftrightarrow> unat a + unat b < 2 ^ LENGTH('a) \<and> c = a + b"
  for a b :: "'a::len word"
  by (auto simp: checked_add_def)

lemma checked_add_unat: "checked_add a b = Some c \<Longrightarrow> unat c = unat a + unat b"
  for a b :: "'a::len word"
  by (auto simp: checked_add_def unat_add_no_wrap split: if_splits)

lemma checked_mul_unat: "checked_mul a b = Some c \<Longrightarrow> unat c = unat a * unat b"
  for a b :: "'a::len word"
  by (auto simp: checked_mul_def unat_mult_no_wrap split: if_splits)

lemma word_sum_Nil [simp]: "word_sum [] = 0"
  by (simp add: word_sum_def)

lemma fold_add_acc: "fold (\<lambda>w acc. acc + w) ws a = a + fold (\<lambda>w acc. acc + w) ws 0"
  for a :: "'a::len word"
proof (induction ws arbitrary: a)
  case Nil
  then show ?case by simp
next
  case (Cons w ws)
  show ?case using Cons.IH [of "a + w"] Cons.IH [of w] by (simp add: add.assoc)
qed

lemma word_sum_Cons [simp]: "word_sum (w # ws) = w + word_sum ws"
  using fold_add_acc [of ws w] by (simp add: word_sum_def)

lemma word_sum_append [simp]: "word_sum (xs @ ys) = word_sum xs + word_sum ys"
  by (induction xs) (simp_all add: add.assoc)

lemma word_sum_eq_sum_list: "word_sum ws = sum_list ws"
  by (induction ws) simp_all

text \<open>A sum that fits its width is the sum of the values.\<close>

lemma unat_word_sum:
  "sum_list (map unat ws) < 2 ^ LENGTH('a) \<Longrightarrow> unat (word_sum ws) = sum_list (map unat ws)"
  for ws :: "'a::len word list"
proof (induction ws)
  case Nil
  then show ?case by simp
next
  case (Cons w ws)
  then have "unat (word_sum ws) = sum_list (map unat ws)" by simp
  with Cons.prems show ?case by (simp add: unat_add_no_wrap)
qed

section \<open>Result combinators\<close>

lemma and_then_Inl [simp, exec_simps]: "and_then (s, Inl e) f = (s, Inl e)"
  by (simp add: and_then_def)

lemma and_then_Inr [simp, exec_simps]: "and_then (s, Inr a) f = f s a"
  by (simp add: and_then_def)

lemma and_then_Ok_iff:
  "and_then r f = (s', Inr b) \<longleftrightarrow> (\<exists>s a. r = (s, Inr a) \<and> f s a = (s', Inr b))"
  by (auto simp: and_then_def split: prod.splits sum.splits)

lemma and_then_OkE:
  assumes "and_then r f = (s', Inr b)"
  obtains s a where "r = (s, Inr a)" and "f s a = (s', Inr b)"
  using assms by (auto simp: and_then_Ok_iff)

lemma is_ok_simps [simp]: "is_ok (Inl e) = False" "is_ok (Inr a) = True"
  by (simp_all add: is_ok_def)

lemma unwrap_or_simps [simp]: "unwrap_or None d = d" "unwrap_or (Some x) d = x"
  by (simp_all add: unwrap_or_def)

lemma run_all_append:
  "run_all step s (xs @ ys) = and_then (run_all step s xs) (\<lambda>s' _. run_all step s' ys)"
proof (induction xs arbitrary: s)
  case Nil
  then show ?case by simp
next
  case (Cons x xs)
  then show ?case by (cases "step s x") (auto simp: and_then_def split: sum.splits)
qed

text \<open>
  A machine whose steps may fail.  What every successful step keeps, every successful run
  keeps; what every step keeps whatever its result, every run keeps whatever its result.
\<close>

locale fallible_machine =
  fixes step :: "'s \<Rightarrow> 'x \<Rightarrow> ('s, 'e, 'a) exec"
    and ok_inv :: "'s \<Rightarrow> 's \<Rightarrow> bool"
  assumes ok_refl: "ok_inv s s"
    and ok_trans: "ok_inv s t \<Longrightarrow> ok_inv t u \<Longrightarrow> ok_inv s u"
    and ok_step: "step s x = (t, r) \<Longrightarrow> ok_inv s t"
begin

lemma run_keeps: "run_all step s xs = (t, r) \<Longrightarrow> ok_inv s t"
proof (induction xs arbitrary: s)
  case Nil
  then show ?case by (simp add: ok_refl)
next
  case (Cons x xs)
  obtain s1 r1 where st: "step s x = (s1, r1)" by fastforce
  have first: "ok_inv s s1" by (rule ok_step [OF st])
  show ?case
  proof (cases r1)
    case (Inl e)
    then show ?thesis using Cons.prems st first by simp
  next
    case (Inr a)
    then have "run_all step s1 xs = (t, r)" using Cons.prems st by simp
    then show ?thesis using Cons.IH first ok_trans by blast
  qed
qed

end

section \<open>Deduplication\<close>

lemma set_dedup_by: "set (dedup_by f xs) \<subseteq> set xs"
  by (induction f xs rule: dedup_by.induct) auto

lemma set_dedup [simp]: "set (dedup xs) = set xs"
  by (induction "\<lambda>x::'a. x" xs rule: dedup_by.induct) auto

lemma dedup_by_keys: "f ` set (dedup_by f xs) = f ` set xs"
  by (induction f xs rule: dedup_by.induct) auto

lemma sorted_dedup_by:
  fixes f :: "'a \<Rightarrow> 'k::linorder"
  shows "sorted (map f xs) \<Longrightarrow> sorted_wrt (<) (map f (dedup_by f xs))"
proof (induction f xs rule: dedup_by.induct)
  case (3 f x y xs)
  show ?case
  proof (cases "f x = f y")
    case True
    with 3 show ?thesis by simp
  next
    case False
    have hd_le: "\<forall>z \<in> set (y # xs). f y \<le> f z" using "3.prems" by auto
    have "\<forall>k \<in> set (map f (dedup_by f (y # xs))). f x < k"
    proof
      fix k assume "k \<in> set (map f (dedup_by f (y # xs)))"
      then obtain z where z: "z \<in> set (dedup_by f (y # xs))" and k: "k = f z"
        unfolding set_map by (rule imageE)
      have "z \<in> set (y # xs)" by (rule subsetD [OF set_dedup_by z])
      then have "f y \<le> k" using hd_le k by blast
      moreover have "f x < f y" using False "3.prems" by auto
      ultimately show "f x < k" by simp
    qed
    with False 3 show ?thesis by simp
  qed
qed simp_all

lemma dedup_by_distinct_id:
  "distinct (map f xs) \<Longrightarrow> dedup_by f xs = xs"
  by (induction f xs rule: dedup_by.induct) auto

lemma length_dedup_by: "length (dedup_by f xs) \<le> length xs"
  by (induction f xs rule: dedup_by.induct) auto

section \<open>Totals of maps\<close>

definition map_total :: "('v \<Rightarrow> nat) \<Rightarrow> ('k \<rightharpoonup> 'v) \<Rightarrow> nat" where
  "map_total f m = (\<Sum>k\<in>dom m. f (the (m k)))"

definition old_value :: "('v \<Rightarrow> nat) \<Rightarrow> 'v option \<Rightarrow> nat" where
  "old_value f v = (case v of None \<Rightarrow> 0 | Some w \<Rightarrow> f w)"

lemma old_value_simps [simp]: "old_value f None = 0" "old_value f (Some w) = f w"
  by (simp_all add: old_value_def)

lemma map_total_empty [simp]: "map_total f Map.empty = 0"
  by (simp add: map_total_def)

lemma map_total_delete:
  assumes "finite (dom m)"
  shows "map_total f (m(k := None)) + old_value f (m k) = map_total f m"
proof (cases "m k")
  case None
  then have "m(k := None) = m" by auto
  then show ?thesis using None by simp
next
  case (Some w)
  have "(\<Sum>j\<in>dom m - {k}. f (the ((m(k := None)) j))) = (\<Sum>j\<in>dom m - {k}. f (the (m j)))"
    by (rule sum.cong) auto
  moreover have "(\<Sum>j\<in>dom m. f (the (m j))) = f w + (\<Sum>j\<in>dom m - {k}. f (the (m j)))"
    using Some assms by (subst sum.remove [of _ k]) auto
  ultimately show ?thesis using Some by (simp add: map_total_def)
qed

lemma map_total_update:
  assumes "finite (dom m)"
  shows "map_total f (m(k \<mapsto> v)) + old_value f (m k) = map_total f m + f v"
proof -
  have fin: "finite (dom (m(k \<mapsto> v)))" using assms by simp
  have "(m(k \<mapsto> v))(k := None) = m(k := None)" by auto
  then have "map_total f (m(k := None)) + f v = map_total f (m(k \<mapsto> v))"
    using map_total_delete [OF fin, of f k] by simp
  then show ?thesis using map_total_delete [OF assms, of f k] by simp
qed

lemma map_total_ge:
  assumes "finite (dom m)"
  shows "old_value f (m k) \<le> map_total f m"
  using map_total_delete [OF assms, of f k] by simp

section \<open>Bytes of fixed-size arrays\<close>

lemma length_be_bytes [simp]: "length (be_bytes n w) = n"
  by (simp add: be_bytes_def)

text \<open>The byte string determines the array.\<close>

lemma be_bytes_inject:
  fixes a b :: "'a::len word"
  assumes len: "LENGTH('a) \<le> 8 * n" and eq: "be_bytes n a = be_bytes n b"
  shows "a = b"
proof (rule bit_word_eqI)
  fix i assume i: "i < LENGTH('a)"
  then have q: "i div 8 < n" using len by linarith
  define k where "k = n - 1 - i div 8"
  have k: "k < n" "n - 1 - k = i div 8" using q by (auto simp: k_def)
  have "be_bytes n a ! k = be_bytes n b ! k" using eq by simp
  then have "(ucast (drop_bit (8 * (i div 8)) a) :: u8) = ucast (drop_bit (8 * (i div 8)) b)"
    using k by (simp add: be_bytes_def)
  then have "bit (ucast (drop_bit (8 * (i div 8)) a) :: u8) (i mod 8)
    = bit (ucast (drop_bit (8 * (i div 8)) b) :: u8) (i mod 8)" by simp
  moreover have "i div 8 * 8 + i mod 8 = i" by simp
  ultimately show "bit a i = bit b i"
    by (simp add: bit_ucast_iff bit_drop_bit_eq mult.commute)
qed

text \<open>Little-endian numbers of a fixed length are read injectively.\<close>

abbreviation le_digits :: "bytes \<Rightarrow> nat" where
  "le_digits bs \<equiv> foldr (\<lambda>b n. unat b + 256 * n) bs 0"

lemma le_word_of_nat: "le_word bs = word_of_nat (le_digits bs)"
  by (induction bs) (simp_all add: le_word_def)

lemma le_digits_less: "le_digits bs < 256 ^ length bs"
proof (induction bs)
  case (Cons b bs)
  have "unat b < 256" using unat_less_size [of b] by simp
  with Cons show ?case by simp
qed simp

lemma le_digits_inject: "length xs = length ys \<Longrightarrow> le_digits xs = le_digits ys \<Longrightarrow> xs = ys"
proof (induction xs ys rule: list_induct2)
  case (Cons x xs y ys)
  have "unat x < 256" "unat y < 256" using unat_less_size [of x] unat_less_size [of y] by simp_all
  then have "(unat x + 256 * le_digits xs) mod 256 = unat x" "(unat x + 256 * le_digits xs) div 256 = le_digits xs"
    "(unat y + 256 * le_digits ys) mod 256 = unat y" "(unat y + 256 * le_digits ys) div 256 = le_digits ys"
    by simp_all
  moreover have "unat x + 256 * le_digits xs = unat y + 256 * le_digits ys" using Cons.prems by simp
  ultimately have "unat x = unat y" "le_digits xs = le_digits ys" by metis+
  then show ?case using Cons.IH by (simp add: word_unat_eq_iff)
qed simp

lemma le_word_inject:
  assumes "length xs = length ys" and "8 * length xs \<le> LENGTH('a::len)" and "(le_word xs :: 'a word) = le_word ys"
  shows "xs = ys"
proof -
  have "(256::nat) ^ length xs = 2 ^ (8 * length xs)" by (simp add: power_mult)
  then have "(256::nat) ^ length xs \<le> 2 ^ LENGTH('a)" using assms(2) by simp
  then have "le_digits xs < 2 ^ LENGTH('a)" "le_digits ys < 2 ^ LENGTH('a)"
    using le_digits_less [of xs] le_digits_less [of ys] assms(1) by simp_all
  then have "le_digits xs = le_digits ys"
    using assms(3) unat_of_nat_small unfolding le_word_of_nat by metis
  with assms(1) show ?thesis by (rule le_digits_inject)
qed

text \<open>The bytes by repeated division, which evaluates faster than the shifts.\<close>

fun be_digits :: "nat \<Rightarrow> int \<Rightarrow> bytes \<Rightarrow> bytes" where
  "be_digits 0 v acc = acc"
| "be_digits (Suc n) v acc = be_digits n (v div 256) (word_of_int (v mod 256) # acc)"

lemma be_digits_eq: "be_digits n v acc = map (\<lambda>i. word_of_int (v div 2 ^ (8 * (n - 1 - i)))) [0..<n] @ acc"
proof (induction n arbitrary: v acc)
  case (Suc n)
  have "map (\<lambda>i. word_of_int (v div 256 div 2 ^ (8 * (n - 1 - i))) :: u8) [0..<n]
      = map (\<lambda>i. word_of_int (v div 2 ^ (8 * (n - i)))) [0..<n]"
  proof (rule map_cong [OF refl])
    fix i assume "i \<in> set [0..<n]"
    then have "8 * (n - i) = 8 + 8 * (n - 1 - i)" by auto
    then show "(word_of_int (v div 256 div 2 ^ (8 * (n - 1 - i))) :: u8) = word_of_int (v div 2 ^ (8 * (n - i)))"
      by (simp add: power_add div_mult2_eq zdiv_zmult2_eq)
  qed
  moreover have "(word_of_int (v mod 256) :: u8) = word_of_int v"
    by (simp add: word_of_int_eq_iff take_bit_eq_mod)
  ultimately show ?case by (simp add: Suc.IH)
qed simp

lemma ucast_drop_bit: "(ucast (drop_bit k w) :: u8) = word_of_int (uint w div 2 ^ k)"
proof -
  have "take_bit LENGTH('a) (uint w) = uint w" for w :: "'a::len word"
    by (rule take_bit_int_eq_self) (simp_all add: unsigned_less)
  then have "uint (drop_bit k w) = uint w div 2 ^ k"
    by (subst unsigned_drop_bit_eq) (simp add: drop_bit_eq_div)
  then show ?thesis by (simp only: ucast_eq)
qed

lemma be_bytes_code [code]: "be_bytes n w = be_digits n (uint w) []"
  unfolding be_digits_eq be_bytes_def ucast_drop_bit by simp

end
