(* ===== verification/Chain_Economics.thy ===== *)
theory Chain_Economics
  imports Fractal_Prelude
begin

text \<open>
  The economics profile of the chain, \<open>crates/core/src/chain_economics.rs\<close>: the parameter
  records and their built-in profiles, the validation of emission parameters, the emission
  schedule (quarter budgets by decay weights, split over blocks and then over the three
  pools) and the prover and sequencer reward formulas.  The lemmas show that a schedule
  emits its pool exactly, quarter by quarter and block by block, that the pool split loses
  nothing, and how the reward formulas behave; the last section records what the saturating
  product does to the built-in mainnet schedule.
\<close>

section \<open>Parameters\<close>

definition WEI_PER_FRAC :: u128 where
  "WEI_PER_FRAC = 1000000000000000000"

definition MAX_SUPPLY_WEI :: u128 where
  "MAX_SUPPLY_WEI = 23000000 * WEI_PER_FRAC"

definition TESTNET_MIN_VALIDATOR_STAKE_WEI :: u128 where
  "TESTNET_MIN_VALIDATOR_STAKE_WEI = 1000000 * WEI_PER_FRAC"

definition MAINNET_MIN_VALIDATOR_STAKE_WEI :: u128 where
  "MAINNET_MIN_VALIDATOR_STAKE_WEI = 5000000 * WEI_PER_FRAC"

definition TESTNET_UNBONDING_PERIOD_MS :: u64 where
  "TESTNET_UNBONDING_PERIOD_MS = 7 * 24 * 60 * 60 * 1000"

definition MAINNET_UNBONDING_PERIOD_MS :: u64 where
  "MAINNET_UNBONDING_PERIOD_MS = 21 * 24 * 60 * 60 * 1000"

record emission_params =
  em_enabled :: bool
  em_total_pool_wei :: u128
  em_quarter_count :: u64
  em_decay_bps :: u32
  em_blocks_per_quarter :: u64
  em_provider_pool_bps :: u16
  em_consensus_pool_bps :: u16
  em_intelligence_pool_bps :: u16
  em_provider_storage_bps :: u16
  em_provider_compute_bps :: u16
  em_provider_tx_count_bps :: u16
  em_intelligence_frontier_bps :: u16
  em_intelligence_accessible_bps :: u16
  em_intelligence_efficient_bps :: u16
  em_lens_frontier_bps :: u16
  em_lens_accessible_bps :: u16
  em_lens_efficient_bps :: u16
  em_royalty_hops_bps :: "u16 list"
  em_min_effect_bps :: u16
  em_vesting_epochs :: u64
  em_provenance_bond_wei :: u128

record emission_block =
  eb_quarter :: u64
  eb_total_wei :: u128
  eb_provider_pool_wei :: u128
  eb_consensus_pool_wei :: u128
  eb_intelligence_pool_wei :: u128

record protocol_phase_config =
  ph_owned_object_certificates :: bool
  ph_da_sampling :: bool
  ph_proof_final_settlement :: bool
  ph_execution_zones :: bool
  ph_forced_inclusion :: bool
  ph_prover_rewards :: bool
  ph_sequencer_rewards :: bool

record prover_reward_params =
  pr_enabled :: bool
  pr_treasury :: address
  pr_base_reward_per_block_wei :: u128
  pr_lag_half_life_seconds :: u32

record sequencer_reward_params =
  sr_enabled :: bool
  sr_treasury :: address
  sr_base_reward_per_zone_block_wei :: u128
  sr_da_byte_reward_wei :: u128
  sr_forced_inclusion_penalty_wei :: u128
  sr_late_forced_inclusion_penalty_per_block_wei :: u128

record prover_work_receipt =
  pw_covered_blocks :: u64
  pw_lag_seconds :: u32

record sequencer_work_receipt =
  sw_zone_blocks :: u64
  sw_da_bytes :: u64

record chain_economics_params =
  ce_version :: u8
  ce_min_validator_stake_wei :: u128
  ce_unbonding_period_ms :: u64
  ce_permissionless_validator_entry :: bool
  ce_evm_base_fee_burn :: bool
  ce_phase_config :: protocol_phase_config
  ce_prover_rewards :: prover_reward_params
  ce_sequencer_rewards :: sequencer_reward_params
  ce_emission :: emission_params

record validator_registry_entry =
  vr_operator :: address
  vr_bls_pubkey :: bls_pubkey

section \<open>Built-in profiles\<close>

definition emission_disabled :: emission_params where
  "emission_disabled = \<lparr>
     em_enabled = False,
     em_total_pool_wei = 0,
     em_quarter_count = 0,
     em_decay_bps = 0,
     em_blocks_per_quarter = 0,
     em_provider_pool_bps = 0,
     em_consensus_pool_bps = 0,
     em_intelligence_pool_bps = 0,
     em_provider_storage_bps = 0,
     em_provider_compute_bps = 0,
     em_provider_tx_count_bps = 0,
     em_intelligence_frontier_bps = 0,
     em_intelligence_accessible_bps = 0,
     em_intelligence_efficient_bps = 0,
     em_lens_frontier_bps = 0,
     em_lens_accessible_bps = 0,
     em_lens_efficient_bps = 0,
     em_royalty_hops_bps = [],
     em_min_effect_bps = 0,
     em_vesting_epochs = 0,
     em_provenance_bond_wei = 0\<rparr>"

definition fractal_emission_v3 :: emission_params where
  "fractal_emission_v3 = \<lparr>
     em_enabled = True,
     em_total_pool_wei = MAX_SUPPLY_WEI,
     em_quarter_count = 40,
     em_decay_bps = 9400,
     em_blocks_per_quarter = 90 * 24 * 60,
     em_provider_pool_bps = 5500,
     em_consensus_pool_bps = 2000,
     em_intelligence_pool_bps = 2500,
     em_provider_storage_bps = 4000,
     em_provider_compute_bps = 4000,
     em_provider_tx_count_bps = 2000,
     em_intelligence_frontier_bps = 4000,
     em_intelligence_accessible_bps = 4000,
     em_intelligence_efficient_bps = 2000,
     em_lens_frontier_bps = 4000,
     em_lens_accessible_bps = 3000,
     em_lens_efficient_bps = 3000,
     em_royalty_hops_bps = [1000, 100, 10],
     em_min_effect_bps = 50,
     em_vesting_epochs = 168,
     em_provenance_bond_wei = 50 * WEI_PER_FRAC\<rparr>"

definition phase_testnet :: protocol_phase_config where
  "phase_testnet = \<lparr>
     ph_owned_object_certificates = True,
     ph_da_sampling = True,
     ph_proof_final_settlement = False,
     ph_execution_zones = False,
     ph_forced_inclusion = False,
     ph_prover_rewards = False,
     ph_sequencer_rewards = False\<rparr>"

definition phase_mainnet :: protocol_phase_config where
  "phase_mainnet = \<lparr>
     ph_owned_object_certificates = True,
     ph_da_sampling = True,
     ph_proof_final_settlement = True,
     ph_execution_zones = True,
     ph_forced_inclusion = True,
     ph_prover_rewards = True,
     ph_sequencer_rewards = True\<rparr>"

definition prover_rewards_disabled :: prover_reward_params where
  "prover_rewards_disabled = \<lparr>
     pr_enabled = False,
     pr_treasury = 0,
     pr_base_reward_per_block_wei = 0,
     pr_lag_half_life_seconds = 1\<rparr>"

definition prover_rewards_mainnet :: "address \<Rightarrow> prover_reward_params" where
  "prover_rewards_mainnet treasury = \<lparr>
     pr_enabled = True,
     pr_treasury = treasury,
     pr_base_reward_per_block_wei = WEI_PER_FRAC div 100,
     pr_lag_half_life_seconds = 60\<rparr>"

definition sequencer_rewards_disabled :: sequencer_reward_params where
  "sequencer_rewards_disabled = \<lparr>
     sr_enabled = False,
     sr_treasury = 0,
     sr_base_reward_per_zone_block_wei = 0,
     sr_da_byte_reward_wei = 0,
     sr_forced_inclusion_penalty_wei = 0,
     sr_late_forced_inclusion_penalty_per_block_wei = 0\<rparr>"

definition sequencer_rewards_mainnet :: "address \<Rightarrow> sequencer_reward_params" where
  "sequencer_rewards_mainnet treasury = \<lparr>
     sr_enabled = True,
     sr_treasury = treasury,
     sr_base_reward_per_zone_block_wei = WEI_PER_FRAC div 1000,
     sr_da_byte_reward_wei = 1000000000,
     sr_forced_inclusion_penalty_wei = WEI_PER_FRAC div 10,
     sr_late_forced_inclusion_penalty_per_block_wei = WEI_PER_FRAC div 100\<rparr>"

definition CHAIN_ECONOMICS_VERSION :: u8 where
  "CHAIN_ECONOMICS_VERSION = 1"

definition chain_economics_testnet :: chain_economics_params where
  "chain_economics_testnet = \<lparr>
     ce_version = CHAIN_ECONOMICS_VERSION,
     ce_min_validator_stake_wei = TESTNET_MIN_VALIDATOR_STAKE_WEI,
     ce_unbonding_period_ms = TESTNET_UNBONDING_PERIOD_MS,
     ce_permissionless_validator_entry = False,
     ce_evm_base_fee_burn = False,
     ce_phase_config = phase_testnet,
     ce_prover_rewards = prover_rewards_disabled,
     ce_sequencer_rewards = sequencer_rewards_disabled,
     ce_emission = emission_disabled\<rparr>"

definition chain_economics_mainnet :: chain_economics_params where
  "chain_economics_mainnet = \<lparr>
     ce_version = CHAIN_ECONOMICS_VERSION,
     ce_min_validator_stake_wei = MAINNET_MIN_VALIDATOR_STAKE_WEI,
     ce_unbonding_period_ms = MAINNET_UNBONDING_PERIOD_MS,
     ce_permissionless_validator_entry = True,
     ce_evm_base_fee_burn = True,
     ce_phase_config = phase_mainnet,
     ce_prover_rewards = prover_rewards_mainnet 0,
     ce_sequencer_rewards = sequencer_rewards_mainnet 0,
     ce_emission = fractal_emission_v3\<rparr>"

section \<open>Validation and loading\<close>

definition require_bps_sum :: "u16 \<Rightarrow> u16 \<Rightarrow> u16 \<Rightarrow> string \<Rightarrow> string + unit" where
  "require_bps_sum a b c nm =
     (if (ucast a :: u32) + ucast b + ucast c \<noteq> 10000 then Inl nm else Inr ())"

definition emission_validate :: "emission_params \<Rightarrow> string + unit" where
  "emission_validate p =
     (if \<not> em_enabled p then Inr ()
      else if em_total_pool_wei p = 0 then Inl ''emission total pool must be non-zero''
      else if em_quarter_count p = 0 \<or> em_blocks_per_quarter p = 0
        then Inl ''emission quarter and block counts must be non-zero''
      else if em_decay_bps p > 10000 then Inl ''emission decay bps must be <= 10000''
      else case require_bps_sum (em_provider_pool_bps p) (em_consensus_pool_bps p)
                  (em_intelligence_pool_bps p) ''emission pool split'' of
        Inl e \<Rightarrow> Inl e
      | Inr _ \<Rightarrow> (case require_bps_sum (em_provider_storage_bps p) (em_provider_compute_bps p)
                  (em_provider_tx_count_bps p) ''provider work split'' of
        Inl e \<Rightarrow> Inl e
      | Inr _ \<Rightarrow> (case require_bps_sum (em_intelligence_frontier_bps p)
                  (em_intelligence_accessible_bps p) (em_intelligence_efficient_bps p)
                  ''intelligence split'' of
        Inl e \<Rightarrow> Inl e
      | Inr _ \<Rightarrow> (case require_bps_sum (em_lens_frontier_bps p) (em_lens_accessible_bps p)
                  (em_lens_efficient_bps p) ''lens split'' of
        Inl e \<Rightarrow> Inl e
      | Inr _ \<Rightarrow> Inr ()))))"

record pool_split_json =
  js_provider :: "u16 option"
  js_consensus :: "u16 option"
  js_intelligence :: "u16 option"
  js_storage :: "u16 option"
  js_compute :: "u16 option"
  js_tx_count :: "u16 option"
  js_frontier :: "u16 option"
  js_accessible :: "u16 option"
  js_efficient :: "u16 option"

record emission_params_json =
  ej_total_pool_frac :: "u128 option"
  ej_total_pool_wei :: "u128 option"
  ej_quarter_count :: u64
  ej_decay_bps :: u32
  ej_blocks_per_quarter :: u64
  ej_splits_bps :: pool_split_json
  ej_provider_work_weights_bps :: pool_split_json
  ej_intelligence_weights_bps :: pool_split_json
  ej_lens_split_bps :: pool_split_json
  ej_royalty_hops_bps :: "u16 list"
  ej_min_effect_bps :: u16
  ej_vesting_epochs :: u64
  ej_provenance_bond_frac :: "u128 option"
  ej_provenance_bond_wei :: "u128 option"

text \<open>
  The argument is what \<open>serde_json\<close> parsed from the file: the \<open>emission\<close> section, if any.
  Reading the file and parsing it are not modelled.
\<close>

definition load_emission_params_from_life_genesis ::
    "emission_params_json option \<Rightarrow> string + emission_params" where
  "load_emission_params_from_life_genesis parsed =
     (case parsed of
        None \<Rightarrow> Inr emission_disabled
      | Some e \<Rightarrow>
          (let params = \<lparr>
             em_enabled = True,
             em_total_pool_wei = (case ej_total_pool_wei e of Some w \<Rightarrow> w
               | None \<Rightarrow> sat_mul (unwrap_or (ej_total_pool_frac e) 0) WEI_PER_FRAC),
             em_quarter_count = ej_quarter_count e,
             em_decay_bps = ej_decay_bps e,
             em_blocks_per_quarter = ej_blocks_per_quarter e,
             em_provider_pool_bps = unwrap_or (js_provider (ej_splits_bps e)) 0,
             em_consensus_pool_bps = unwrap_or (js_consensus (ej_splits_bps e)) 0,
             em_intelligence_pool_bps = unwrap_or (js_intelligence (ej_splits_bps e)) 0,
             em_provider_storage_bps = unwrap_or (js_storage (ej_provider_work_weights_bps e)) 0,
             em_provider_compute_bps = unwrap_or (js_compute (ej_provider_work_weights_bps e)) 0,
             em_provider_tx_count_bps = unwrap_or (js_tx_count (ej_provider_work_weights_bps e)) 0,
             em_intelligence_frontier_bps =
               unwrap_or (js_frontier (ej_intelligence_weights_bps e)) 0,
             em_intelligence_accessible_bps =
               unwrap_or (js_accessible (ej_intelligence_weights_bps e)) 0,
             em_intelligence_efficient_bps =
               unwrap_or (js_efficient (ej_intelligence_weights_bps e)) 0,
             em_lens_frontier_bps = unwrap_or (js_frontier (ej_lens_split_bps e)) 0,
             em_lens_accessible_bps = unwrap_or (js_accessible (ej_lens_split_bps e)) 0,
             em_lens_efficient_bps = unwrap_or (js_efficient (ej_lens_split_bps e)) 0,
             em_royalty_hops_bps = ej_royalty_hops_bps e,
             em_min_effect_bps = ej_min_effect_bps e,
             em_vesting_epochs = ej_vesting_epochs e,
             em_provenance_bond_wei = (case ej_provenance_bond_wei e of Some w \<Rightarrow> w
               | None \<Rightarrow> sat_mul (unwrap_or (ej_provenance_bond_frac e) 0) WEI_PER_FRAC)\<rparr>
           in case emission_validate params of Inl err \<Rightarrow> Inl err | Inr _ \<Rightarrow> Inr params))"

section \<open>The emission schedule\<close>

definition quarter_of :: "u64 \<Rightarrow> emission_params \<Rightarrow> u64 option" where
  "quarter_of height p =
     (if \<not> em_enabled p \<or> em_blocks_per_quarter p = 0 then None
      else let q = height div em_blocks_per_quarter p
           in if q < em_quarter_count p then Some q else None)"

fun decay_weights_loop :: "nat \<Rightarrow> u32 \<Rightarrow> u128 \<Rightarrow> u128 list" where
  "decay_weights_loop 0 bps w = []"
| "decay_weights_loop (Suc n) bps w = w # decay_weights_loop n bps (sat_mul w (ucast bps) div 10000)"

definition decay_weights :: "emission_params \<Rightarrow> u128 list" where
  "decay_weights p =
     decay_weights_loop (unat (em_quarter_count p)) (em_decay_bps p) 1000000000000000000"

definition emission_budget_for_quarter :: "emission_params \<Rightarrow> u64 \<Rightarrow> u128" where
  "emission_budget_for_quarter p quarter =
     (if \<not> em_enabled p \<or> em_quarter_count p \<le> quarter then 0
      else
        let weights = decay_weights p;
            denominator = word_sum weights
        in if denominator = 0 then 0
           else
             let allocated_before = word_sum (map (\<lambda>w. sat_mul (em_total_pool_wei p) w div denominator)
                   (take (unat quarter) weights))
             in if quarter + 1 = em_quarter_count p
                then sat_sub (em_total_pool_wei p) allocated_before
                else sat_mul (em_total_pool_wei p) (weights ! unat quarter) div denominator)"

definition projected_emission_total :: "emission_params \<Rightarrow> u128" where
  "projected_emission_total p =
     word_sum (map (\<lambda>q. emission_budget_for_quarter p (of_nat q)) [0..<unat (em_quarter_count p)])"

definition split_emission_block :: "u64 \<Rightarrow> u128 \<Rightarrow> emission_params \<Rightarrow> emission_block" where
  "split_emission_block quarter total_wei p =
     (let provider_pool_wei = sat_mul total_wei (ucast (em_provider_pool_bps p)) div 10000;
          consensus_pool_wei = sat_mul total_wei (ucast (em_consensus_pool_bps p)) div 10000;
          intelligence_pool_wei = sat_sub (sat_sub total_wei provider_pool_wei) consensus_pool_wei
      in \<lparr>eb_quarter = quarter,
          eb_total_wei = total_wei,
          eb_provider_pool_wei = provider_pool_wei,
          eb_consensus_pool_wei = consensus_pool_wei,
          eb_intelligence_pool_wei = intelligence_pool_wei\<rparr>)"

definition emission_for_block :: "u64 \<Rightarrow> emission_params \<Rightarrow> emission_block" where
  "emission_for_block height p =
     (case quarter_of height p of
        None \<Rightarrow> \<lparr>eb_quarter = em_quarter_count p,
                 eb_total_wei = 0,
                 eb_provider_pool_wei = 0,
                 eb_consensus_pool_wei = 0,
                 eb_intelligence_pool_wei = 0\<rparr>
      | Some quarter \<Rightarrow>
          (let budget = emission_budget_for_quarter p quarter;
               offset = height mod em_blocks_per_quarter p;
               base = budget div ucast (em_blocks_per_quarter p);
               remainder = budget mod ucast (em_blocks_per_quarter p);
               total_wei = base + (if ucast offset < remainder then 1 else 0)
           in split_emission_block quarter total_wei p))"

section \<open>Rewards\<close>

definition prover_reward_wei :: "prover_reward_params \<Rightarrow> prover_work_receipt \<Rightarrow> u128" where
  "prover_reward_wei p work =
     (if \<not> pr_enabled p \<or> pr_base_reward_per_block_wei p = 0 \<or> pw_covered_blocks work = 0 then 0
      else
        let range_reward = sat_mul (pr_base_reward_per_block_wei p) (ucast (pw_covered_blocks work));
            half_life = (ucast (max (pr_lag_half_life_seconds p) 1) :: u128);
            denominator = sat_add (ucast (pw_lag_seconds work)) half_life
        in sat_mul range_reward half_life div denominator)"

definition sequencer_reward_wei :: "sequencer_reward_params \<Rightarrow> sequencer_work_receipt \<Rightarrow> u128" where
  "sequencer_reward_wei p work =
     (if \<not> sr_enabled p then 0
      else sat_add (sat_mul (sr_base_reward_per_zone_block_wei p) (ucast (sw_zone_blocks work)))
             (sat_mul (sr_da_byte_reward_wei p) (ucast (sw_da_bytes work))))"

definition forced_inclusion_penalty_wei :: "sequencer_reward_params \<Rightarrow> u64 \<Rightarrow> u128" where
  "forced_inclusion_penalty_wei p late_by_blocks =
     (if \<not> sr_enabled p then 0
      else sat_add (sr_forced_inclusion_penalty_wei p)
             (sat_mul (sr_late_forced_inclusion_penalty_per_block_wei p) (ucast late_by_blocks)))"

section \<open>Validated parameters\<close>

lemma require_bps_sum_ok:
  "require_bps_sum a b c nm = Inr u \<Longrightarrow> unat a + unat b + unat c = 10000"
proof -
  assume "require_bps_sum a b c nm = Inr u"
  then have eq: "(ucast a :: u32) + ucast b + ucast c = 10000"
    by (simp add: require_bps_sum_def split: if_splits)
  have small: "unat a < 65536" "unat b < 65536" "unat c < 65536"
    using unat_less_size [of a] unat_less_size [of b] unat_less_size [of c] by simp_all
  have "unat ((ucast a :: u32) + ucast b + ucast c) = unat a + unat b + unat c"
    using small by (simp add: unat_add_no_wrap unat_ucast_widen)
  with eq show ?thesis by simp
qed

text \<open>What a validated enabled profile guarantees to the schedule.\<close>

definition schedule_ok :: "emission_params \<Rightarrow> bool" where
  "schedule_ok p \<longleftrightarrow> em_enabled p \<and> em_quarter_count p \<noteq> 0 \<and> em_blocks_per_quarter p \<noteq> 0
     \<and> em_decay_bps p \<le> 10000
     \<and> unat (em_provider_pool_bps p) + unat (em_consensus_pool_bps p)
         + unat (em_intelligence_pool_bps p) = 10000"

lemma emission_validate_schedule_ok:
  "emission_validate p = Inr u \<Longrightarrow> em_enabled p \<Longrightarrow> schedule_ok p"
  by (auto simp: emission_validate_def schedule_ok_def not_less
      split: if_splits sum.splits dest: require_bps_sum_ok)

section \<open>Decay weights\<close>

lemma length_decay_weights_loop [simp]: "length (decay_weights_loop n bps w) = n"
  by (induction n bps w rule: decay_weights_loop.induct) simp_all

lemma length_decay_weights [simp]: "length (decay_weights p) = unat (em_quarter_count p)"
  by (simp add: decay_weights_def)

text \<open>One decay step does not increase the weight when the factor is at most 100 percent.\<close>

lemma decay_step_le:
  fixes bps :: u32
  assumes "bps \<le> 10000"
  shows "unat (sat_mul w (ucast bps) div 10000 :: u128) \<le> unat w"
proof -
  have b: "unat bps \<le> 10000" using assms by (simp add: word_le_nat_alt)
  have "unat (sat_mul w (ucast bps) :: u128) \<le> unat w * unat bps"
    by (simp add: unat_sat_mul unat_ucast_widen)
  also have "\<dots> \<le> unat w * 10000" using b by simp
  finally have "unat (sat_mul w (ucast bps) :: u128) div 10000 \<le> unat w * 10000 div 10000"
    by (rule div_le_mono)
  then show ?thesis by (simp add: unat_div)
qed

lemma decay_weights_loop_le:
  "bps \<le> 10000 \<Longrightarrow> v \<in> set (decay_weights_loop n bps w) \<Longrightarrow> unat v \<le> unat w"
proof (induction n bps w rule: decay_weights_loop.induct)
  case (2 n bps w)
  show ?case
  proof (cases "v = w")
    case False
    then have "unat v \<le> unat (sat_mul w (ucast bps) div 10000 :: u128)"
      using 2 by simp
    then show ?thesis using decay_step_le [OF "2.prems"(1)] le_trans by blast
  qed simp
qed simp

text \<open>The weights never grow from one quarter to the next.\<close>

lemma decay_weights_loop_sorted:
  "bps \<le> 10000 \<Longrightarrow> sorted_wrt (\<ge>) (map unat (decay_weights_loop n bps w))"
proof (induction n bps w rule: decay_weights_loop.induct)
  case (2 n bps w)
  have "unat v \<le> unat w" if "v \<in> set (decay_weights_loop n bps (sat_mul w (ucast bps) div 10000))" for v
    using decay_weights_loop_le [OF "2.prems" that] decay_step_le [OF "2.prems"] le_trans by blast
  then show ?case using 2 by simp
qed simp

lemma sum_list_le_length_mult: "\<forall>v \<in> set xs. f v \<le> (b::nat) \<Longrightarrow> sum_list (map f xs) \<le> length xs * b"
  by (induction xs) auto

lemma decay_weights_sum:
  assumes "em_decay_bps p \<le> 10000"
  shows "unat (word_sum (decay_weights p)) = sum_list (map unat (decay_weights p))"
proof -
  have each: "\<forall>v \<in> set (decay_weights p). unat v \<le> 1000000000000000000"
    using decay_weights_loop_le [OF assms] by (fastforce simp: decay_weights_def)
  have q: "unat (em_quarter_count p) \<le> 2 ^ 64"
    using unat_less_size [of "em_quarter_count p"] by simp
  have "sum_list (map unat (decay_weights p)) \<le> unat (em_quarter_count p) * 1000000000000000000"
    using sum_list_le_length_mult [OF each] by simp
  also have "\<dots> \<le> 2 ^ 64 * 1000000000000000000" using q by (rule mult_le_mono1)
  also have "\<dots> < 2 ^ 128" by simp
  finally show ?thesis by (intro unat_word_sum) simp
qed

lemma decay_weights_sum_pos:
  assumes "em_decay_bps p \<le> 10000" and "em_quarter_count p \<noteq> 0"
  shows "0 < sum_list (map unat (decay_weights p))"
proof -
  obtain n where "unat (em_quarter_count p) = Suc n"
    using assms(2) by (metis not0_implies_Suc unat_eq_zero)
  then show ?thesis by (simp add: decay_weights_def)
qed

section \<open>Quarter budgets\<close>

abbreviation quarter_share :: "emission_params \<Rightarrow> u128 \<Rightarrow> u128" where
  "quarter_share p w \<equiv> sat_mul (em_total_pool_wei p) w div word_sum (decay_weights p)"

text \<open>Rounding down shares of a whole never allots more than the whole.\<close>

lemma sum_div_le:
  fixes d :: nat
  shows "sum_list (map (\<lambda>w. f w div d) ws) \<le> sum_list (map f ws) div d"
proof (induction ws)
  case (Cons w ws)
  have "f w div d + sum_list (map f ws) div d \<le> (f w + sum_list (map f ws)) div d"
    by (rule add_div_le)
  with Cons show ?case by simp
qed simp

lemma sum_list_take_le: "sum_list (take k xs) \<le> sum_list (xs :: nat list)"
  by (metis append_take_drop_id le_add1 sum_list.append)

lemma quarter_shares_le_pool:
  assumes ok: "em_decay_bps p \<le> 10000" "em_quarter_count p \<noteq> 0"
  shows "sum_list (map (\<lambda>w. unat (quarter_share p w)) (take k (decay_weights p)))
    \<le> unat (em_total_pool_wei p)"
proof -
  let ?T = "unat (em_total_pool_wei p)" and ?ws = "decay_weights p"
  let ?D = "sum_list (map unat ?ws)"
  have D: "unat (word_sum ?ws) = ?D" "0 < ?D"
    using decay_weights_sum [OF ok(1)] decay_weights_sum_pos [OF ok] by simp_all
  have each: "unat (quarter_share p w) \<le> ?T * unat w div ?D" for w
    by (simp add: unat_div D unat_sat_mul div_le_mono)
  have "sum_list (map (\<lambda>w. unat (quarter_share p w)) (take k ?ws))
      \<le> sum_list (map (\<lambda>w. ?T * unat w div ?D) (take k ?ws))"
    by (rule sum_list_mono) (rule each)
  also have "\<dots> \<le> sum_list (map (\<lambda>w. ?T * unat w) (take k ?ws)) div ?D" by (rule sum_div_le)
  also have "\<dots> \<le> ?T * ?D div ?D"
    by (rule div_le_mono)
      (use sum_list_take_le [of k "map unat ?ws"] in \<open>simp add: sum_list_const_mult take_map\<close>)
  also have "\<dots> = ?T" using D by simp
  finally show ?thesis .
qed

lemma allocated_before_eq:
  assumes "em_decay_bps p \<le> 10000" "em_quarter_count p \<noteq> 0"
  shows "unat (word_sum (map (quarter_share p) (take k (decay_weights p))))
    = sum_list (map (\<lambda>w. unat (quarter_share p w)) (take k (decay_weights p)))"
proof -
  have "sum_list (map unat (map (quarter_share p) (take k (decay_weights p)))) < 2 ^ LENGTH(128)"
    using quarter_shares_le_pool [OF assms, of k] unat_less_size [of "em_total_pool_wei p"]
    by (simp add: comp_def)
  from unat_word_sum [OF this] show ?thesis by (simp add: comp_def)
qed

text \<open>The budget of a quarter, as a natural number: a share, or the rest in the last quarter.\<close>

lemma budget_before_last:
  assumes "schedule_ok p" and "Suc q < unat (em_quarter_count p)"
  shows "emission_budget_for_quarter p (of_nat q) = quarter_share p (decay_weights p ! q)"
proof -
  let ?q = "of_nat q :: u64"
  have small: "unat (em_quarter_count p) < 2 ^ 64" using unat_less_size [of "em_quarter_count p"] by simp
  have uq: "unat ?q = q" using assms(2) small by (simp add: unat_of_nat)
  have lt: "\<not> em_quarter_count p \<le> ?q" using assms(2) uq by (simp add: word_le_nat_alt)
  have ne: "?q + 1 \<noteq> em_quarter_count p"
  proof
    assume "?q + 1 = em_quarter_count p"
    then have "unat (?q + 1) = unat (em_quarter_count p)" by simp
    moreover have "unat (?q + 1) = Suc q"
      using uq assms(2) small by (subst unat_add_no_wrap) simp_all
    ultimately show False using assms(2) by simp
  qed
  have "unat (word_sum (decay_weights p)) \<noteq> 0"
    using assms(1) decay_weights_sum decay_weights_sum_pos by (fastforce simp: schedule_ok_def)
  then show ?thesis
    using assms(1) lt ne uq
    by (simp add: emission_budget_for_quarter_def schedule_ok_def Let_def unat_eq_zero)
qed

lemma budget_last:
  assumes "schedule_ok p" and "Suc q = unat (em_quarter_count p)"
  shows "unat (emission_budget_for_quarter p (of_nat q))
    = unat (em_total_pool_wei p) - sum_list (map (\<lambda>w. unat (quarter_share p w)) (take q (decay_weights p)))"
proof -
  let ?q = "of_nat q :: u64"
  have small: "unat (em_quarter_count p) < 2 ^ 64" using unat_less_size [of "em_quarter_count p"] by simp
  have uq: "unat ?q = q" using assms(2) small by (simp add: unat_of_nat)
  have lt: "\<not> em_quarter_count p \<le> ?q" using assms(2) uq by (simp add: word_le_nat_alt)
  have eq: "?q + 1 = em_quarter_count p"
    using arg_cong [OF assms(2), of "of_nat :: nat \<Rightarrow> u64"] by (simp add: add.commute)
  have "unat (word_sum (decay_weights p)) \<noteq> 0"
    using assms(1) decay_weights_sum decay_weights_sum_pos by (fastforce simp: schedule_ok_def)
  then show ?thesis
    using assms(1) lt eq uq allocated_before_eq [of p q]
    by (simp add: emission_budget_for_quarter_def schedule_ok_def Let_def unat_eq_zero unat_sat_sub)
qed

lemma budgets_sum_nat:
  assumes "schedule_ok p"
  shows "(\<Sum>q<unat (em_quarter_count p). unat (emission_budget_for_quarter p (of_nat q)))
    = unat (em_total_pool_wei p)"
proof -
  have ok: "em_decay_bps p \<le> 10000" "em_quarter_count p \<noteq> 0"
    using assms by (auto simp: schedule_ok_def)
  obtain n where n: "unat (em_quarter_count p) = Suc n"
    using ok(2) by (metis not0_implies_Suc unat_eq_zero)
  let ?sh = "\<lambda>w. unat (quarter_share p w)"
  have "(\<Sum>q<n. unat (emission_budget_for_quarter p (of_nat q))) = (\<Sum>q<n. ?sh (decay_weights p ! q))"
    by (rule sum.cong) (auto simp: budget_before_last [OF assms] n)
  also have "\<dots> = sum_list (map ?sh (take n (decay_weights p)))"
    by (simp add: sum_list_sum_nth n min_def atLeast0LessThan)
  finally have "(\<Sum>q<n. unat (emission_budget_for_quarter p (of_nat q)))
    = sum_list (map ?sh (take n (decay_weights p)))" .
  then show ?thesis
    using budget_last [OF assms, of n] quarter_shares_le_pool [OF ok, of n] n by simp
qed

section \<open>Blocks\<close>

text \<open>Spreading a budget over \<open>n\<close> blocks, one unit more for the first ones, uses it up.\<close>

lemma spread_sum:
  fixes b n :: nat
  assumes "0 < n"
  shows "(\<Sum>i<n. b div n + (if i < b mod n then 1 else 0)) = b"
proof -
  have "(\<Sum>i<n. if i < b mod n then 1 else 0) = card {i. i < n \<and> i < b mod n}"
    by (simp add: sum.If_cases Int_def)
  also have "{i. i < n \<and> i < b mod n} = {..<b mod n}"
    using assms mod_less_divisor [of n b] by (auto intro: less_trans)
  finally show ?thesis by (simp add: sum.distrib)
qed

lemma unat_block_total:
  assumes "schedule_ok p" and q: "q < unat (em_quarter_count p)"
    and i: "i < unat (em_blocks_per_quarter p)"
    and fits: "unat (em_quarter_count p) * unat (em_blocks_per_quarter p) < 2 ^ 64"
  shows "unat (eb_total_wei (emission_for_block (of_nat (q * unat (em_blocks_per_quarter p) + i)) p))
    = unat (emission_budget_for_quarter p (of_nat q)) div unat (em_blocks_per_quarter p)
      + (if i < unat (emission_budget_for_quarter p (of_nat q)) mod unat (em_blocks_per_quarter p)
         then 1 else 0)"
proof -
  let ?n = "unat (em_blocks_per_quarter p)" and ?Q = "unat (em_quarter_count p)"
  define h :: u64 where "h = of_nat (q * ?n + i)"
  let ?B = "emission_budget_for_quarter p (of_nat q)"
  have n: "0 < ?n" using i by simp
  have "q * ?n + i < Suc q * ?n" using i by simp
  also have "\<dots> \<le> ?Q * ?n" using q by (intro mult_le_mono1) simp
  finally have "q * ?n + i < 2 ^ LENGTH(64)" using fits by simp
  then have uh: "unat h = q * ?n + i" unfolding h_def by (rule unat_of_nat_small)
  have qsmall: "q < 2 ^ 64" using q unat_less_size [of "em_quarter_count p"] by simp
  have "unat (h div em_blocks_per_quarter p) = q" using uh i by (simp add: unat_div)
  then have quarter: "h div em_blocks_per_quarter p = of_nat q" using qsmall by (simp add: word_unat_eq_iff unat_of_nat)
  have lt: "(of_nat q :: u64) < em_quarter_count p"
    using q qsmall by (simp add: word_less_nat_alt unat_of_nat)
  have qo: "quarter_of h p = Some (of_nat q)"
    using assms(1) lt quarter by (simp add: quarter_of_def schedule_ok_def Let_def)
  have off: "unat (h mod em_blocks_per_quarter p) = i" using uh i by (simp add: unat_mod)
  have bn: "unat (ucast (em_blocks_per_quarter p) :: u128) = ?n" by (simp add: unat_ucast_widen)
  have less: "(ucast (h mod em_blocks_per_quarter p) :: u128) < ?B mod ucast (em_blocks_per_quarter p)
      \<longleftrightarrow> i < unat ?B mod ?n"
    using off bn by (simp add: word_less_nat_alt unat_mod unat_ucast_widen)
  have no_wrap: "unat ?B div ?n + (if i < unat ?B mod ?n then 1 else 0) < 2 ^ 128"
  proof (cases "i < unat ?B mod ?n")
    case True
    then have "?n \<noteq> 1" by auto
    then have "2 \<le> ?n" using n by simp
    then have "unat ?B div ?n \<le> unat ?B div 2" by (rule div_le_mono2 [rotated]) simp
    then show ?thesis using True unat_less_size [of ?B] by simp
  next
    case False
    have "unat ?B div ?n < 2 ^ 128"
      by (rule le_less_trans [OF div_le_dividend]) (use unat_less_size [of ?B] in simp)
    then show ?thesis using False by simp
  qed
  show ?thesis
    using no_wrap less qo bn unfolding h_def [symmetric]
    by (cases "i < unat ?B mod ?n")
      (simp_all add: emission_for_block_def split_emission_block_def Let_def unat_div
        unat_add_no_wrap [of _ 1])
qed

lemma sum_quarter_blocks:
  assumes "schedule_ok p" and "q < unat (em_quarter_count p)"
    and "unat (em_quarter_count p) * unat (em_blocks_per_quarter p) < 2 ^ 64"
  shows "(\<Sum>i<unat (em_blocks_per_quarter p).
      unat (eb_total_wei (emission_for_block (of_nat (q * unat (em_blocks_per_quarter p) + i)) p)))
    = unat (emission_budget_for_quarter p (of_nat q))"
proof -
  let ?n = "unat (em_blocks_per_quarter p)" and ?B = "unat (emission_budget_for_quarter p (of_nat q))"
  have n: "0 < ?n" using assms(1) by (simp add: schedule_ok_def unat_gt_0)
  have "(\<Sum>i<?n. unat (eb_total_wei (emission_for_block (of_nat (q * ?n + i)) p)))
      = (\<Sum>i<?n. ?B div ?n + (if i < ?B mod ?n then 1 else 0))"
    by (rule sum.cong [OF refl]) (rule unat_block_total [OF assms(1,2) _ assms(3)], simp)
  then show ?thesis using spread_sum [OF n, of ?B] by (rule trans)
qed

lemma sum_nested: "(\<Sum>h<(Q::nat) * n. f h) = (\<Sum>q<Q. \<Sum>i<n. f (q * n + i))"
  for f :: "nat \<Rightarrow> nat"
proof -
  have "(\<Sum>h\<in>{q * n..<q * n + n}. f h) = (\<Sum>i<n. f (q * n + i))" for q
    using sum.shift_bounds_nat_ivl [of f 0 "q * n" n] by (simp add: add.commute lessThan_atLeast0)
  then show ?thesis using sum.nat_group [of f n Q] by simp
qed

lemma split_parts:
  assumes "unat (em_provider_pool_bps p) + unat (em_consensus_pool_bps p) \<le> 10000"
  shows "unat (eb_provider_pool_wei (split_emission_block q t p))
       + unat (eb_consensus_pool_wei (split_emission_block q t p))
       + unat (eb_intelligence_pool_wei (split_emission_block q t p)) = unat t"
proof -
  let ?a = "unat (em_provider_pool_bps p)" and ?b = "unat (em_consensus_pool_bps p)"
  let ?T = "unat t"
  define M :: nat where "M = 2 ^ 128 - 1"
  have "min (?T * ?a) M div 10000 + min (?T * ?b) M div 10000
      \<le> ?T * ?a div 10000 + ?T * ?b div 10000"
    by (intro add_mono div_le_mono) simp_all
  also have "\<dots> \<le> (?T * ?a + ?T * ?b) div 10000"
    by (rule add_div_le)
  also have "\<dots> \<le> ?T * 10000 div 10000"
    by (rule div_le_mono) (use assms in \<open>simp flip: distrib_left\<close>)
  also have "\<dots> = ?T" by simp
  finally show ?thesis
    by (simp add: split_emission_block_def Let_def unat_div unat_sat_mul unat_sat_sub unat_ucast_widen
        M_def)
qed

lemma block_parts_sum:
  assumes "emission_validate p = Inr ()"
  shows "unat (eb_provider_pool_wei (emission_for_block height p))
       + unat (eb_consensus_pool_wei (emission_for_block height p))
       + unat (eb_intelligence_pool_wei (emission_for_block height p))
       = unat (eb_total_wei (emission_for_block height p))"
proof (cases "quarter_of height p")
  case None
  then show ?thesis by (simp add: emission_for_block_def)
next
  case (Some q)
  then have "em_enabled p" by (simp add: quarter_of_def split: if_splits)
  with assms have "schedule_ok p" by (rule emission_validate_schedule_ok)
  then have bps: "unat (em_provider_pool_bps p) + unat (em_consensus_pool_bps p) \<le> 10000"
    by (simp add: schedule_ok_def)
  show ?thesis using split_parts [OF bps] Some
    by (simp add: emission_for_block_def Let_def) (simp add: split_emission_block_def Let_def)
qed

section \<open>Rewards\<close>

lemma unat_prover_reward:
  assumes "pr_enabled p" "pr_base_reward_per_block_wei p \<noteq> 0" "pw_covered_blocks w \<noteq> 0"
  shows "unat (prover_reward_wei p w)
    = min (min (unat (pr_base_reward_per_block_wei p) * unat (pw_covered_blocks w)) (2 ^ 128 - 1)
            * unat (max (pr_lag_half_life_seconds p) 1)) (2 ^ 128 - 1)
      div (unat (pw_lag_seconds w) + unat (max (pr_lag_half_life_seconds p) 1))"
proof -
  have "unat (pw_lag_seconds w) + unat (max (pr_lag_half_life_seconds p) 1) < 2 ^ 128"
    using unat_less_size [of "pw_lag_seconds w"] unat_less_size [of "max (pr_lag_half_life_seconds p) 1"]
    by simp
  then show ?thesis
    using assms
    by (simp add: prover_reward_wei_def Let_def unat_div unat_sat_mul unat_sat_add unat_ucast_widen)
qed

lemma half_life_pos: "0 < unat (max (v::u32) 1)"
  by (cases "v = 0") (auto simp: max_def unat_gt_0)

section \<open>The built-in mainnet schedule\<close>

lemma mainnet_schedule_ok: "schedule_ok fractal_emission_v3"
  by code_simp

lemma mainnet_quarters: "unat (em_quarter_count fractal_emission_v3) = 40"
  by (simp add: fractal_emission_v3_def)

lemma mainnet_pool: "unat (em_total_pool_wei fractal_emission_v3) = 23000000000000000000000000"
  by (simp add: fractal_emission_v3_def MAX_SUPPLY_WEI_def WEI_PER_FRAC_def)

lemma mainnet_shares_evaluated:
  "list_all (\<lambda>w. quarter_share fractal_emission_v3 w = 22293171709705608111) (decay_weights fractal_emission_v3)"
  by code_simp

lemma mainnet_quarter_share:
  "q < 40 \<Longrightarrow> quarter_share fractal_emission_v3 (decay_weights fractal_emission_v3 ! q) = 22293171709705608111"
  using mainnet_shares_evaluated by (simp add: list_all_length mainnet_quarters)

lemma mainnet_shares_sum:
  "sum_list (map (\<lambda>w. unat (quarter_share fractal_emission_v3 w)) (take 39 (decay_weights fractal_emission_v3)))
    = 39 * 22293171709705608111"
proof -
  have "map (\<lambda>w. unat (quarter_share fractal_emission_v3 w)) (take 39 (decay_weights fractal_emission_v3))
      = replicate 39 22293171709705608111"
    by (rule nth_equalityI) (simp_all add: mainnet_quarters mainnet_quarter_share)
  then show ?thesis by (simp add: sum_list_replicate)
qed

section \<open>Properties\<close>

text \<open>
  C31.  A profile that the genesis loader accepts emits exactly its configured pool: the
  budgets of its quarters, summed in the arithmetic of the code, are \<open>total_pool_wei\<close>,
  however the decay weights round and wherever the products saturate.
\<close>
theorem loaded_emission_total_exact:
  assumes "load_emission_params_from_life_genesis parsed = Inr p"
  shows "projected_emission_total p = em_total_pool_wei p"
proof (cases "em_enabled p")
  case True
  have "emission_validate p = Inr ()"
    using assms True
    by (auto simp: load_emission_params_from_life_genesis_def emission_disabled_def Let_def
        split: option.splits sum.splits)
  then have ok: "schedule_ok p" using True by (rule emission_validate_schedule_ok)
  let ?bs = "map (\<lambda>q. emission_budget_for_quarter p (of_nat q)) [0..<unat (em_quarter_count p)]"
  have "sum_list (map unat ?bs) = unat (em_total_pool_wei p)"
    using budgets_sum_nat [OF ok] by (simp add: comp_def interv_sum_list_conv_sum_set_nat atLeast0LessThan)
  then have "unat (word_sum ?bs) = unat (em_total_pool_wei p)"
    using unat_word_sum [of ?bs] unat_u128_less by simp
  then show ?thesis unfolding projected_emission_total_def word_unat_eq_iff .
next
  case False
  then have "p = emission_disabled"
    using assms
    by (auto simp: load_emission_params_from_life_genesis_def Let_def split: option.splits sum.splits)
  then show ?thesis by (simp add: projected_emission_total_def emission_disabled_def)
qed

text \<open>A genesis section for the witnesses: two quarters of three blocks, decay to one half.\<close>

definition sample_emission_json :: emission_params_json where
  "sample_emission_json = \<lparr>
     ej_total_pool_frac = None,
     ej_total_pool_wei = Some 1000,
     ej_quarter_count = 2,
     ej_decay_bps = 5000,
     ej_blocks_per_quarter = 3,
     ej_splits_bps = \<lparr>js_provider = Some 5500, js_consensus = Some 2000, js_intelligence = Some 2500,
       js_storage = None, js_compute = None, js_tx_count = None,
       js_frontier = None, js_accessible = None, js_efficient = None\<rparr>,
     ej_provider_work_weights_bps = \<lparr>js_provider = None, js_consensus = None, js_intelligence = None,
       js_storage = Some 4000, js_compute = Some 4000, js_tx_count = Some 2000,
       js_frontier = None, js_accessible = None, js_efficient = None\<rparr>,
     ej_intelligence_weights_bps = \<lparr>js_provider = None, js_consensus = None, js_intelligence = None,
       js_storage = None, js_compute = None, js_tx_count = None,
       js_frontier = Some 4000, js_accessible = Some 4000, js_efficient = Some 2000\<rparr>,
     ej_lens_split_bps = \<lparr>js_provider = None, js_consensus = None, js_intelligence = None,
       js_storage = None, js_compute = None, js_tx_count = None,
       js_frontier = Some 4000, js_accessible = Some 3000, js_efficient = Some 3000\<rparr>,
     ej_royalty_hops_bps = [1000],
     ej_min_effect_bps = 50,
     ej_vesting_epochs = 2,
     ej_provenance_bond_frac = None,
     ej_provenance_bond_wei = Some 5\<rparr>"

definition sample_emission :: emission_params where
  "sample_emission = \<lparr>
     em_enabled = True, em_total_pool_wei = 1000, em_quarter_count = 2, em_decay_bps = 5000,
     em_blocks_per_quarter = 3, em_provider_pool_bps = 5500, em_consensus_pool_bps = 2000,
     em_intelligence_pool_bps = 2500, em_provider_storage_bps = 4000, em_provider_compute_bps = 4000,
     em_provider_tx_count_bps = 2000, em_intelligence_frontier_bps = 4000,
     em_intelligence_accessible_bps = 4000, em_intelligence_efficient_bps = 2000,
     em_lens_frontier_bps = 4000, em_lens_accessible_bps = 3000, em_lens_efficient_bps = 3000,
     em_royalty_hops_bps = [1000], em_min_effect_bps = 50, em_vesting_epochs = 2,
     em_provenance_bond_wei = 5\<rparr>"

lemma sample_emission_valid: "emission_validate sample_emission = Inr ()"
  by code_simp

theorem loaded_emission_total_exact_witness:
  "load_emission_params_from_life_genesis (Some sample_emission_json) = Inr sample_emission
   \<and> projected_emission_total sample_emission = 1000"
proof -
  have load: "load_emission_params_from_life_genesis (Some sample_emission_json) = Inr sample_emission"
    by code_simp
  show ?thesis
    using load loaded_emission_total_exact [OF load] by (simp add: sample_emission_def)
qed

text \<open>
  Block by block, a validated schedule pays out its whole pool and then stops: the totals
  of the first \<open>quarter_count * blocks_per_quarter\<close> blocks add up to \<open>total_pool_wei\<close>, and
  every later block emits nothing.  The number of blocks of the schedule has to fit \<open>u64\<close>,
  the type of a height.
\<close>
theorem emission_schedule_exact:
  assumes valid: "emission_validate p = Inr ()" and en: "em_enabled p"
    and fits: "unat (em_quarter_count p) * unat (em_blocks_per_quarter p) < 2 ^ 64"
  shows "(\<Sum>h<unat (em_quarter_count p) * unat (em_blocks_per_quarter p).
            unat (eb_total_wei (emission_for_block (of_nat h) p))) = unat (em_total_pool_wei p)
    \<and> (\<forall>height. unat (em_quarter_count p) * unat (em_blocks_per_quarter p) \<le> unat height
          \<longrightarrow> eb_total_wei (emission_for_block height p) = 0)"
proof
  let ?Q = "unat (em_quarter_count p)" and ?n = "unat (em_blocks_per_quarter p)"
  have ok: "schedule_ok p" by (rule emission_validate_schedule_ok [OF valid en])
  have "(\<Sum>h<?Q * ?n. unat (eb_total_wei (emission_for_block (of_nat h) p)))
      = (\<Sum>q<?Q. unat (emission_budget_for_quarter p (of_nat q)))"
    unfolding sum_nested by (rule sum.cong [OF refl]) (rule sum_quarter_blocks [OF ok _ fits], simp)
  then show "(\<Sum>h<?Q * ?n. unat (eb_total_wei (emission_for_block (of_nat h) p)))
      = unat (em_total_pool_wei p)"
    using budgets_sum_nat [OF ok] by (rule trans)
  show "\<forall>height. ?Q * ?n \<le> unat height \<longrightarrow> eb_total_wei (emission_for_block height p) = 0"
  proof (intro allI impI)
    fix height :: u64 assume late: "?Q * ?n \<le> unat height"
    have "0 < ?n" using ok by (simp add: schedule_ok_def unat_gt_0)
    then have "?Q \<le> unat height div ?n" using late by (simp add: less_eq_div_iff_mult_less_eq)
    then have "quarter_of height p = None"
      by (simp add: quarter_of_def Let_def word_less_nat_alt unat_div not_less)
    then show "eb_total_wei (emission_for_block height p) = 0" by (simp add: emission_for_block_def)
  qed
qed

theorem emission_schedule_exact_witness:
  "unat (em_quarter_count sample_emission) * unat (em_blocks_per_quarter sample_emission) = 6
   \<and> (\<Sum>h<6. unat (eb_total_wei (emission_for_block (of_nat h) sample_emission))) = 1000
   \<and> eb_total_wei (emission_for_block 6 sample_emission) = 0"
proof -
  have n: "unat (em_quarter_count sample_emission) * unat (em_blocks_per_quarter sample_emission) = 6"
    and en: "em_enabled sample_emission" and T: "unat (em_total_pool_wei sample_emission) = 1000"
    by (simp_all add: sample_emission_def)
  show ?thesis
    using emission_schedule_exact [OF sample_emission_valid en, unfolded n T] n by simp
qed

text \<open>
  The three pools of a block of a validated profile add up to the block's emission:
  rounding goes to the intelligence pool and nothing is lost, even where the products
  saturate.
\<close>
theorem emission_block_split_exact:
  assumes "emission_validate p = Inr ()"
  shows "unat (eb_provider_pool_wei (emission_for_block height p))
       + unat (eb_consensus_pool_wei (emission_for_block height p))
       + unat (eb_intelligence_pool_wei (emission_for_block height p))
       = unat (eb_total_wei (emission_for_block height p))"
  using assms by (rule block_parts_sum)

theorem emission_block_split_exact_witness:
  "eb_total_wei (emission_for_block 0 sample_emission) = 222
   \<and> unat (eb_provider_pool_wei (emission_for_block 0 sample_emission))
     + unat (eb_consensus_pool_wei (emission_for_block 0 sample_emission))
     + unat (eb_intelligence_pool_wei (emission_for_block 0 sample_emission)) = 222"
proof -
  have t: "eb_total_wei (emission_for_block 0 sample_emission) = 222" by code_simp
  show ?thesis using emission_block_split_exact [OF sample_emission_valid, of 0] t by simp
qed

text \<open>
  On the built-in mainnet profile the product \<open>total_pool_wei * weight\<close> leaves \<open>u128\<close> in
  every quarter and saturates, so the schedule does not decay: quarters 0 to 38 get the same
  22.29 FRAC each and the last quarter gets the remaining 22999130.57 of the 23000000 FRAC.
\<close>
theorem mainnet_emission_flat:
  "(\<forall>q. q < 39 \<longrightarrow> emission_budget_for_quarter fractal_emission_v3 (of_nat q) = 22293171709705608111)
   \<and> emission_budget_for_quarter fractal_emission_v3 39 = 22999130566303321481283671"
proof
  show "\<forall>q. q < 39 \<longrightarrow> emission_budget_for_quarter fractal_emission_v3 (of_nat q) = 22293171709705608111"
    using budget_before_last [OF mainnet_schedule_ok] mainnet_quarter_share
    by (simp add: mainnet_quarters)
  have "unat (emission_budget_for_quarter fractal_emission_v3 (of_nat 39))
      = unat (22999130566303321481283671 :: u128)"
    by (subst budget_last [OF mainnet_schedule_ok])
      (simp_all add: mainnet_quarters mainnet_shares_sum mainnet_pool)
  then show "emission_budget_for_quarter fractal_emission_v3 39 = 22999130566303321481283671"
    unfolding word_unat_eq_iff by simp
qed

theorem mainnet_emission_flat_witness:
  "emission_budget_for_quarter fractal_emission_v3 0 = 22293171709705608111
   \<and> emission_budget_for_quarter fractal_emission_v3 38 = 22293171709705608111"
  using conjunct1 [OF mainnet_emission_flat, rule_format, of 0]
    conjunct1 [OF mainnet_emission_flat, rule_format, of 38] by simp

text \<open>
  The prover reward never exceeds the base reward times the covered blocks and does not
  grow with the lag.
\<close>
theorem prover_reward_bounds:
  assumes "lag1 \<le> lag2"
  shows "unat (prover_reward_wei p \<lparr>pw_covered_blocks = n, pw_lag_seconds = lag1\<rparr>)
      \<le> unat (pr_base_reward_per_block_wei p) * unat n
    \<and> prover_reward_wei p \<lparr>pw_covered_blocks = n, pw_lag_seconds = lag2\<rparr>
      \<le> prover_reward_wei p \<lparr>pw_covered_blocks = n, pw_lag_seconds = lag1\<rparr>"
proof (cases "pr_enabled p \<and> pr_base_reward_per_block_wei p \<noteq> 0 \<and> n \<noteq> 0")
  case False
  then show ?thesis by (auto simp: prover_reward_wei_def)
next
  case True
  let ?h = "unat (max (pr_lag_half_life_seconds p) 1)"
  let ?r = "min (unat (pr_base_reward_per_block_wei p) * unat n) (2 ^ 128 - 1)"
  have h: "0 < ?h" by (rule half_life_pos)
  have reward: "unat (prover_reward_wei p \<lparr>pw_covered_blocks = n, pw_lag_seconds = l\<rparr>)
      = min (?r * ?h) (2 ^ 128 - 1) div (unat l + ?h)" for l
    using True by (subst unat_prover_reward) simp_all
  have "min (?r * ?h) (2 ^ 128 - 1) div (unat lag1 + ?h) \<le> ?r * ?h div (unat lag1 + ?h)"
    by (rule div_le_mono) (rule min.cobounded1)
  also have "\<dots> \<le> ?r * ?h div ?h" using h by (intro div_le_mono2) simp_all
  finally have "min (?r * ?h) (2 ^ 128 - 1) div (unat lag1 + ?h) \<le> ?r * ?h div ?h" .
  then have "unat (prover_reward_wei p \<lparr>pw_covered_blocks = n, pw_lag_seconds = lag1\<rparr>) \<le> ?r"
    unfolding reward using h by simp
  moreover have "min (?r * ?h) (2 ^ 128 - 1) div (unat lag2 + ?h)
      \<le> min (?r * ?h) (2 ^ 128 - 1) div (unat lag1 + ?h)"
    using assms h by (intro div_le_mono2) (simp_all add: word_le_nat_alt)
  ultimately show ?thesis unfolding word_le_nat_alt reward by simp
qed

theorem prover_reward_bounds_witness:
  "unat (prover_reward_wei (prover_rewards_mainnet 1) \<lparr>pw_covered_blocks = 5, pw_lag_seconds = 10\<rparr>)
     \<le> 10000000000000000 * 5
   \<and> prover_reward_wei (prover_rewards_mainnet 1) \<lparr>pw_covered_blocks = 5, pw_lag_seconds = 60\<rparr>
     \<le> prover_reward_wei (prover_rewards_mainnet 1) \<lparr>pw_covered_blocks = 5, pw_lag_seconds = 10\<rparr>"
proof -
  have base: "unat (pr_base_reward_per_block_wei (prover_rewards_mainnet 1)) = 10000000000000000"
    by (simp add: prover_rewards_mainnet_def WEI_PER_FRAC_def unat_div)
  have "(10::u32) \<le> 60" by simp
  from prover_reward_bounds [OF this, of "prover_rewards_mainnet 1" 5, unfolded base]
  show ?thesis by simp
qed

end
