(* ===== verification/Tx_Types.thy ===== *)
theory Tx_Types
  imports Chain_Economics "HOL-Library.Product_Lexorder"
begin

text \<open>
  The transaction format of the ledger: \<open>crates/core/src/tx.rs\<close>, \<open>native_types.rs\<close>,
  \<open>error.rs\<close> and \<open>native_gas.rs\<close>.  The data types are those of the sources; the owned-object
  ids carry the derived \<open>Ord\<close> of the code as an instance of \<open>linorder\<close>.  The operations are the
  execution scope of a transaction (which objects it owns and which lane it takes) and its
  gas.  What the ledger calls in third-party crates (Keccak, Borsh, Ed25519) is the record
  \<open>ext\<close> of functions, an argument of every operation that uses one of them.
\<close>

section \<open>Native records\<close>

type_synonym i128 = "128 word"

record on_chain_task_receipt =
  rc_receipt_id :: hash256
  rc_job_id :: hash256
  rc_requester :: address
  rc_worker :: u64
  rc_verifier :: u64
  rc_artifact_root :: hash256
  rc_output_hash :: hash256
  rc_score :: u8
  rc_payout_amount :: u128
  rc_verifier_fee :: u128
  rc_protocol_fee :: u128
  rc_final_status :: u8
  rc_finalized_at :: u64
  rc_schema_version :: u16

record payout_entry =
  pe_index :: u32
  pe_account :: address
  pe_amount :: u128

record settle_batch_payload =
  sb_batch_id :: hash256
  sb_operator :: address
  sb_receipts :: "on_chain_task_receipt list"
  sb_payout_entries :: "payout_entry list"
  sb_submitted_at :: u64
  sb_operator_sig :: sig64

record agent_record =
  ag_agent_id :: u64
  ag_address :: address
  ag_operator :: address
  ag_pubkey :: pubkey32
  ag_kind :: u8
  ag_metadata_uri :: string
  ag_reputation_score :: u32
  ag_completed_jobs :: u32
  ag_status :: u8
  ag_registered_at :: u64
  ag_schema_version :: u16

record stored_batch =
  bt_operator :: address
  bt_receipt_root :: hash256
  bt_payout_root :: hash256
  bt_receipt_count :: u32
  bt_payout_count :: u32
  bt_total_payout :: u128
  bt_submitted_at :: u64

record dispute_record =
  dp_receipt_id :: hash256
  dp_filer :: address
  dp_reason_code :: u32
  dp_evidence_hash :: hash256
  dp_status :: u8

section \<open>Transactions\<close>

datatype vm_kind = VmNative | VmEvm

datatype life_command_kind =
    BirthGrant
  | BirthSpawn
  | BirthPlayerFunded
  | RentCharge
  | LoanOpen
  | LoanAccept
  | LoanRepay
  | ExtensionPurchase
  | WillRegister
  | WillUpdate
  | OwnerTopUp
  | WithdrawalRequest
  | WithdrawalSettlement
  | SiiCommit
  | LadderCommit
  | BenchmarkFreeze
  | IntelligencePayout
  | ProvenanceBond
  | FeedbackArtifact
  | SealedSale
  | ReaperEpoch

record life_command_v1 =
  lc_command_id :: hash256
  lc_kind :: life_command_kind
  lc_soul_id_hash :: hash256
  lc_counterparty_hash :: "hash256 option"
  lc_epoch :: u64
  lc_amount_micro_credits :: u128
  lc_payload_hash :: hash256

datatype native_call =
    RegisterAgent address pubkey32 u8 string
  | UpdateAgent u64 string "pubkey32 option"
  | SuspendAgent u64 string
  | SettleReceipt on_chain_task_receipt
  | SettleBatch settle_batch_payload
  | ClaimPayout hash256 address u128 u32 "hash256 list"
  | FileDispute hash256 u32 hash256
  | ResolveDispute u64 u8 i128
  | Stake u128
  | Unstake u128
  | Slash address hash256
  | Delegate address u128
  | WithdrawRewards address
  | NoOp
  | SetChainEconomics chain_economics_params
  | WalletTaskReceiptAnchorV1 hash256 bytes
  | ProofCommitmentV1 hash256
  | LifeCommandV1 life_command_v1

datatype tx_body =
    Transfer address u128
  | Native native_call
  | EvmCall address u128 bytes u64
  | EvmCreate u128 bytes u64

record transaction =
  tx_signer :: address
  tx_nonce :: u64
  tx_vm :: vm_kind
  tx_body :: tx_body

datatype owned_object_id =
    AccountNonce address
  | Agent u64
  | Receipt hash256
  | WalletTaskReceipt hash256
  | ProofCommitment hash256
  | LifeCommand hash256

datatype tx_execution_scope =
    Consensus
  | Mixed address "owned_object_id list"
  | Owned address "owned_object_id list"

datatype owned_object_version = OwnedObjectVersion (object_id: owned_object_id) (version: u64)

datatype exec_error =
    UnknownSigner
  | BadNonce u64 u64
  | InsufficientBalance
  | InvalidShape
  | GasLimitExceeded
  | NotAuthorized
  | NotFound
  | InvalidProof
  | AgentIdCollision
  | DuplicateReceipt
  | BadPayoutOrdering
  | AlreadyClaimed
  | BatchNotFound
  | GasOverflow
  | BadSignature
  | EvmFailed
  | EvmRevert bytes
  | WalletFeatureDisabled
  | WalletCommitmentMismatch
  | DuplicateWalletAnchor
  | DuplicateProofCommitment
  | DuplicateLifeCommand
  | PermissionlessEntryDisabled
  | ValidatorAlreadyRegistered
  | BelowMinValidatorStake
  | SupplyCapExceeded
  | InsufficientIntelligencePool
  | BelowProvenanceBond
  | DuplicateLifeArtifact

datatype life_payout_kind = PrimaryPayout | RoyaltyPayout | BurnPayout

section \<open>The order of owned objects\<close>

text \<open>The derived \<open>Ord\<close> compares the variant first and then its payload.\<close>

fun object_key :: "owned_object_id \<Rightarrow> nat \<times> int" where
  "object_key (AccountNonce a) = (0, uint a)"
| "object_key (Agent i) = (1, uint i)"
| "object_key (Receipt h) = (2, uint h)"
| "object_key (WalletTaskReceipt h) = (3, uint h)"
| "object_key (ProofCommitment h) = (4, uint h)"
| "object_key (LifeCommand h) = (5, uint h)"

lemma object_key_inject [simp]: "object_key a = object_key b \<longleftrightarrow> a = b"
  by (cases a; cases b) (auto simp: word_uint_eq_iff)

instantiation owned_object_id :: linorder
begin

definition less_eq_owned_object_id :: "owned_object_id \<Rightarrow> owned_object_id \<Rightarrow> bool" where
  "less_eq_owned_object_id a b \<longleftrightarrow> object_key a \<le> object_key b"

definition less_owned_object_id :: "owned_object_id \<Rightarrow> owned_object_id \<Rightarrow> bool" where
  "less_owned_object_id a b \<longleftrightarrow> object_key a < object_key b"

instance
proof
  fix a b c :: owned_object_id
  show "a < b \<longleftrightarrow> a \<le> b \<and> \<not> b \<le> a"
    by (simp add: less_eq_owned_object_id_def less_owned_object_id_def less_le_not_le)
  show "a \<le> a" by (simp add: less_eq_owned_object_id_def)
  show "a \<le> c" if "a \<le> b" "b \<le> c"
    using that order_trans [of "object_key a" "object_key b" "object_key c"]
    unfolding less_eq_owned_object_id_def by blast
  show "a = b" if "a \<le> b" "b \<le> a"
    using that order_antisym [of "object_key a" "object_key b"]
    unfolding less_eq_owned_object_id_def by simp
  show "a \<le> b \<or> b \<le> a"
    unfolding less_eq_owned_object_id_def by (rule linear)
qed

end

instantiation owned_object_version :: linorder
begin

definition less_eq_owned_object_version :: "owned_object_version \<Rightarrow> owned_object_version \<Rightarrow> bool" where
  "less_eq_owned_object_version a b \<longleftrightarrow> (object_id a, version a) \<le> (object_id b, version b)"

definition less_owned_object_version :: "owned_object_version \<Rightarrow> owned_object_version \<Rightarrow> bool" where
  "less_owned_object_version a b \<longleftrightarrow> (object_id a, version a) < (object_id b, version b)"

instance
proof
  fix a b c :: owned_object_version
  show "a < b \<longleftrightarrow> a \<le> b \<and> \<not> b \<le> a"
    by (simp add: less_eq_owned_object_version_def less_owned_object_version_def less_le_not_le)
  show "a \<le> a" by (simp add: less_eq_owned_object_version_def)
  show "a \<le> c" if "a \<le> b" "b \<le> c"
    using that unfolding less_eq_owned_object_version_def by (rule order_trans)
  show "a = b" if "a \<le> b" "b \<le> a"
    using order_antisym [OF that [unfolded less_eq_owned_object_version_def]]
    by (cases a; cases b) simp
  show "a \<le> b \<or> b \<le> a"
    unfolding less_eq_owned_object_version_def by (rule linear)
qed

end

section \<open>External functions\<close>

text \<open>
  The third-party code the ledger calls: the Keccak hash, the Ed25519 check of
  \<open>fractal_crypto::verify_message\<close> and the Borsh encoders, one per type that is encoded.  An
  encoder whose error the code handles returns an option; where the code calls \<open>expect\<close> the
  encoder is total.  \<open>ext_wallet_feature\<close> is the build feature \<open>wallet\<close>, and
  \<open>ext_task_receipt_reencode\<close> parses a \<open>TaskReceipt\<close> and encodes it again, which is what
  \<open>try_from_slice\<close> followed by \<open>task_receipt_commitment\<close> hashes.
\<close>

record ext =
  ext_keccak256 :: "bytes \<Rightarrow> hash256"
  ext_verify_message :: "pubkey32 \<Rightarrow> bytes \<Rightarrow> sig64 \<Rightarrow> bool"
  ext_borsh_receipt :: "on_chain_task_receipt \<Rightarrow> bytes"
  ext_borsh_payout_entry :: "payout_entry \<Rightarrow> bytes"
  ext_borsh_native_call :: "native_call \<Rightarrow> bytes option"
  ext_borsh_transaction :: "transaction \<Rightarrow> bytes option"
  ext_borsh_provider_reward :: "u64 \<Rightarrow> hash256 \<Rightarrow> u64 \<Rightarrow> u128 \<Rightarrow> u128 \<Rightarrow> u128 \<Rightarrow> bytes option"
  ext_borsh_life_event :: "u64 \<Rightarrow> life_command_v1 \<Rightarrow> bytes option"
  ext_borsh_life_payout :: "hash256 \<Rightarrow> u64 \<Rightarrow> life_payout_kind \<Rightarrow> hash256 \<Rightarrow> u128 \<Rightarrow> u64 \<Rightarrow> bytes option"
  ext_wallet_feature :: bool
  ext_task_receipt_reencode :: "bytes \<Rightarrow> bytes option"

section \<open>Execution scope\<close>

definition normalize_objects :: "address \<Rightarrow> owned_object_id list \<Rightarrow> owned_object_id list" where
  "normalize_objects signer objects = dedup (sort (AccountNonce signer # objects))"

definition execution_scope :: "transaction \<Rightarrow> tx_execution_scope" where
  "execution_scope tx =
     (let owned = (\<lambda>objects. Owned (tx_signer tx) (normalize_objects (tx_signer tx) objects));
          mixed = (\<lambda>objects. Mixed (tx_signer tx) (normalize_objects (tx_signer tx) objects))
      in case tx_vm tx of
           VmEvm \<Rightarrow> Consensus
         | VmNative \<Rightarrow>
             (case tx_body tx of
                Native call \<Rightarrow>
                  (case call of
                     SuspendAgent agent_id _ \<Rightarrow> mixed [Agent agent_id]
                   | UpdateAgent agent_id _ _ \<Rightarrow> owned [Agent agent_id]
                   | SettleReceipt receipt \<Rightarrow> owned [Receipt (rc_receipt_id receipt)]
                   | SettleBatch payload \<Rightarrow>
                       mixed (map (\<lambda>r. Receipt (rc_receipt_id r)) (sb_receipts payload))
                   | FileDispute receipt_id _ _ \<Rightarrow> mixed [Receipt receipt_id]
                   | WalletTaskReceiptAnchorV1 commitment _ \<Rightarrow> owned [WalletTaskReceipt commitment]
                   | ProofCommitmentV1 proof_hash \<Rightarrow> owned [ProofCommitment proof_hash]
                   | LifeCommandV1 command \<Rightarrow> mixed [LifeCommand (lc_command_id command)]
                   | NoOp \<Rightarrow> owned []
                   | _ \<Rightarrow> Consensus)
              | _ \<Rightarrow> Consensus))"

definition is_owned_object_tx :: "transaction \<Rightarrow> bool" where
  "is_owned_object_tx tx = (case execution_scope tx of Owned _ _ \<Rightarrow> True | _ \<Rightarrow> False)"

definition is_mixed_object_tx :: "transaction \<Rightarrow> bool" where
  "is_mixed_object_tx tx = (case execution_scope tx of Mixed _ _ \<Rightarrow> True | _ \<Rightarrow> False)"

section \<open>Gas\<close>

definition PER_BYTE :: u64 where "PER_BYTE = 4"
definition TRANSFER_GAS :: u64 where "TRANSFER_GAS = 21000"
definition EVM_CALL_BASE_GAS :: u64 where "EVM_CALL_BASE_GAS = 21000"

fun native_base_gas :: "native_call \<Rightarrow> u64" where
  "native_base_gas (RegisterAgent _ _ _ _) = 5000"
| "native_base_gas (UpdateAgent _ _ _) = 5000"
| "native_base_gas (SuspendAgent _ _) = 5000"
| "native_base_gas (SettleReceipt _) = 8000"
| "native_base_gas (SettleBatch p) =
     sat_add 15000 (sat_mul 200 (of_nat (length (sb_receipts p))))"
| "native_base_gas (ClaimPayout _ _ _ _ _) = 12000"
| "native_base_gas (FileDispute _ _ _) = 10000"
| "native_base_gas (ResolveDispute _ _ _) = 12000"
| "native_base_gas (Stake _) = 8000"
| "native_base_gas (Unstake _) = 8000"
| "native_base_gas (Slash _ _) = 10000"
| "native_base_gas (Delegate _ _) = 8000"
| "native_base_gas (WithdrawRewards _) = 8000"
| "native_base_gas (WalletTaskReceiptAnchorV1 _ _) = 6000"
| "native_base_gas (ProofCommitmentV1 _) = 6000"
| "native_base_gas (LifeCommandV1 _) = 9000"
| "native_base_gas NoOp = 100"
| "native_base_gas (SetChainEconomics _) = 10000"

definition intrinsic_gas :: "ext \<Rightarrow> transaction \<Rightarrow> exec_error + u64" where
  "intrinsic_gas E tx =
     (case (tx_vm tx, tx_body tx) of
        (VmNative, Native c) \<Rightarrow>
          (case ext_borsh_native_call E c of
             None \<Rightarrow> Inl InvalidShape
           | Some native_payload \<Rightarrow>
               (let base = native_base_gas c;
                    extra = sat_mul PER_BYTE (of_nat (length native_payload))
                in Inr (sat_add base extra)))
      | (VmEvm, Transfer _ _) \<Rightarrow> Inr TRANSFER_GAS
      | (VmEvm, EvmCall _ _ calldata _) \<Rightarrow>
          Inr (sat_add EVM_CALL_BASE_GAS (sat_mul PER_BYTE (of_nat (length calldata))))
      | (VmEvm, EvmCreate _ init_code _) \<Rightarrow>
          Inr (sat_add EVM_CALL_BASE_GAS (sat_mul PER_BYTE (of_nat (length init_code))))
      | _ \<Rightarrow> Inl InvalidShape)"

definition tx_gas_limit :: "ext \<Rightarrow> transaction \<Rightarrow> exec_error + u64" where
  "tx_gas_limit E tx =
     (case (tx_vm tx, tx_body tx) of
        (VmEvm, EvmCall _ _ _ gas_limit) \<Rightarrow> Inr gas_limit
      | (VmEvm, EvmCreate _ _ gas_limit) \<Rightarrow> Inr gas_limit
      | _ \<Rightarrow> intrinsic_gas E tx)"

text \<open>The first two bytes of an address select a native precompile.\<close>

abbreviation addr_byte :: "nat \<Rightarrow> address \<Rightarrow> u8" where
  "addr_byte i a \<equiv> ucast (drop_bit (8 * (19 - i)) a)"

definition OP_RANGE :: "u8 \<times> u8" where "OP_RANGE = (0x01, 0x0e)"

definition is_native_precompile_address :: "address \<Rightarrow> bool" where
  "is_native_precompile_address addr \<longleftrightarrow>
     addr_byte 0 addr = 0xfc \<and> fst OP_RANGE \<le> addr_byte 1 addr \<and> addr_byte 1 addr \<le> snd OP_RANGE"

definition native_opcode_from_precompile_address :: "address \<Rightarrow> u8 option" where
  "native_opcode_from_precompile_address addr =
     (if addr_byte 0 addr \<noteq> 0xfc then None
      else let op = addr_byte 1 addr
           in if fst OP_RANGE \<le> op \<and> op \<le> snd OP_RANGE then Some op else None)"

section \<open>Lemmas\<close>

lemma set_normalize_objects [simp]:
  "set (normalize_objects a os) = insert (AccountNonce a) (set os)"
  by (simp add: normalize_objects_def del: sort_key_simps)

lemma normalize_objects_sorted: "sorted_wrt (<) (normalize_objects a os)"
  using sorted_dedup_by [of "\<lambda>x. x" "sort (AccountNonce a # os)"]
  by (simp add: normalize_objects_def del: sort_key_simps)

lemma sorted_wrt_less_distinct: "sorted_wrt (<) (xs :: 'a::linorder list) \<Longrightarrow> distinct xs"
  by (induction xs) auto

lemma normalize_objects_distinct [simp]: "distinct (normalize_objects a os)"
  by (rule sorted_wrt_less_distinct [OF normalize_objects_sorted])

text \<open>The objects a scope names, whatever its lane.\<close>

fun scope_objects :: "tx_execution_scope \<Rightarrow> owned_object_id list" where
  "scope_objects (Owned _ objects) = objects"
| "scope_objects (Mixed _ owned_objects) = owned_objects"
| "scope_objects Consensus = []"

lemma execution_scope_cases:
  obtains "execution_scope tx = Consensus"
  | os where "tx_vm tx = VmNative" "execution_scope tx = Owned (tx_signer tx) (normalize_objects (tx_signer tx) os)"
  | os where "tx_vm tx = VmNative" "execution_scope tx = Mixed (tx_signer tx) (normalize_objects (tx_signer tx) os)"
  by (cases "tx_vm tx"; cases "tx_body tx")
    (fastforce simp: execution_scope_def split: native_call.splits)+

end
