(* ===== verification/Merkle.thy ===== *)
theory Merkle
  imports Fractal_Prelude
begin

text \<open>
  The Keccak binary Merkle tree of \<open>crates/core/src/merkle.rs\<close>: the root over an ordered list
  of leaves, the sibling path of a leaf, and the check of a path.  An odd level repeats its
  last node.  The hash is an argument.  The lemmas show that the path the code builds passes
  the check (completeness) and that a path that passes the check leads to a leaf of the tree
  unless two of the inputs hashed on the way collide (soundness); the check does not bound
  the length of the path, so soundness needs leaves that are hashes of inputs that are not
  64 bytes long, as the leaves of the ledger are.
\<close>

section \<open>Definitions\<close>

definition pair_bytes :: "hash256 \<Rightarrow> hash256 \<Rightarrow> bytes" where
  "pair_bytes left right = be_bytes 32 left @ be_bytes 32 right"

definition hash_pair :: "(bytes \<Rightarrow> hash256) \<Rightarrow> hash256 \<Rightarrow> hash256 \<Rightarrow> hash256" where
  "hash_pair keccak256 left right = keccak256 (pair_bytes left right)"

fun next_level :: "(bytes \<Rightarrow> hash256) \<Rightarrow> hash256 list \<Rightarrow> hash256 list" where
  "next_level kc [] = []"
| "next_level kc [x] = [hash_pair kc x x]"
| "next_level kc (x # y # zs) = hash_pair kc x y # next_level kc zs"

lemma length_next_level [simp]: "length (next_level kc xs) = (length xs + 1) div 2"
  by (induction kc xs rule: next_level.induct) simp_all

function merkle_root_loop :: "(bytes \<Rightarrow> hash256) \<Rightarrow> hash256 list \<Rightarrow> hash256" where
  "merkle_root_loop kc level =
     (if 1 < length level then merkle_root_loop kc (next_level kc level) else level ! 0)"
  by pat_completeness auto
termination
  by (relation "measure (\<lambda>(_, level). length level)") auto

declare merkle_root_loop.simps [simp del]

definition merkle_root :: "(bytes \<Rightarrow> hash256) \<Rightarrow> hash256 list \<Rightarrow> hash256" where
  "merkle_root kc leaves = (if leaves = [] then 0 else merkle_root_loop kc leaves)"

fun proof_walk :: "(bytes \<Rightarrow> hash256) \<Rightarrow> hash256 \<Rightarrow> nat \<Rightarrow> hash256 list \<Rightarrow> hash256" where
  "proof_walk kc node index [] = node"
| "proof_walk kc node index (sib # sibs) =
     proof_walk kc (if index mod 2 = 0 then hash_pair kc node sib else hash_pair kc sib node)
       (index div 2) sibs"

definition verify_merkle_proof ::
    "(bytes \<Rightarrow> hash256) \<Rightarrow> hash256 \<Rightarrow> hash256 \<Rightarrow> nat \<Rightarrow> hash256 list \<Rightarrow> bool" where
  "verify_merkle_proof kc root leaf index path \<longleftrightarrow> proof_walk kc leaf index path = root"

function merkle_proof_loop :: "(bytes \<Rightarrow> hash256) \<Rightarrow> hash256 list \<Rightarrow> nat \<Rightarrow> hash256 list" where
  "merkle_proof_loop kc level idx =
     (if 1 < length level
      then let sibling_idx = (if idx mod 2 = 0 then idx + 1 else idx - 1);
               sib = (if sibling_idx < length level then level ! sibling_idx else level ! idx)
           in sib # merkle_proof_loop kc (next_level kc level) (idx div 2)
      else [])"
  by pat_completeness auto
termination
  by (relation "measure (\<lambda>(_, level, _). length level)") auto

declare merkle_proof_loop.simps [simp del]

definition merkle_proof :: "(bytes \<Rightarrow> hash256) \<Rightarrow> hash256 list \<Rightarrow> nat \<Rightarrow> hash256 list option" where
  "merkle_proof kc leaves index =
     (if leaves = [] \<or> length leaves \<le> index then None else Some (merkle_proof_loop kc leaves index))"

text \<open>The inputs that the hash is applied to when a root is computed and a path is checked.\<close>

fun level_inputs :: "hash256 list \<Rightarrow> bytes list" where
  "level_inputs [] = []"
| "level_inputs [x] = [pair_bytes x x]"
| "level_inputs (x # y # zs) = pair_bytes x y # level_inputs zs"

function tree_inputs :: "(bytes \<Rightarrow> hash256) \<Rightarrow> hash256 list \<Rightarrow> bytes list" where
  "tree_inputs kc level =
     (if 1 < length level then level_inputs level @ tree_inputs kc (next_level kc level) else [])"
  by pat_completeness auto
termination
  by (relation "measure (\<lambda>(_, level). length level)") auto

declare tree_inputs.simps [simp del]

fun walk_inputs :: "(bytes \<Rightarrow> hash256) \<Rightarrow> hash256 \<Rightarrow> nat \<Rightarrow> hash256 list \<Rightarrow> bytes list" where
  "walk_inputs kc node index [] = []"
| "walk_inputs kc node index (sib # sibs) =
     (let b = (if index mod 2 = 0 then pair_bytes node sib else pair_bytes sib node)
      in b # walk_inputs kc (kc b) (index div 2) sibs)"

section \<open>Pairs\<close>

lemma length_pair_bytes [simp]: "length (pair_bytes l r) = 64"
  by (simp add: pair_bytes_def)

lemma pair_bytes_inject [simp]: "pair_bytes l r = pair_bytes l' r' \<longleftrightarrow> l = l' \<and> r = r'"
proof
  assume "pair_bytes l r = pair_bytes l' r'"
  then have "be_bytes 32 l = be_bytes 32 l'" "be_bytes 32 r = be_bytes 32 r'"
    by (simp_all add: pair_bytes_def)
  then show "l = l' \<and> r = r'" by (auto dest: be_bytes_inject [rotated])
qed simp

section \<open>Completeness\<close>

lemma next_level_nth:
  "i < length xs \<Longrightarrow> next_level kc xs ! (i div 2)
    = (let j = 2 * (i div 2) in hash_pair kc (xs ! j) (if j + 1 < length xs then xs ! (j + 1) else xs ! j))"
proof (induction kc xs arbitrary: i rule: next_level.induct)
  case (3 kc x y zs)
  show ?case
  proof (cases "i < 2")
    case True
    then have "i div 2 = 0" by simp
    then show ?thesis by simp
  next
    case False
    define k where "k = i - 2"
    have i: "i = Suc (Suc k)" using False by (simp add: k_def)
    have "k < length zs" using "3.prems" i by simp
    from "3.IH" [OF this] show ?thesis by (simp add: i Let_def)
  qed
qed simp_all

lemma merkle_walk_complete:
  "i < length level \<Longrightarrow>
    proof_walk kc (level ! i) i (merkle_proof_loop kc level i) = merkle_root_loop kc level"
proof (induction kc level arbitrary: i rule: merkle_root_loop.induct)
  case (1 kc level)
  show ?case
  proof (cases "1 < length level")
    case False
    then have "i = 0" using "1.prems" by simp
    with False show ?thesis by (simp add: merkle_root_loop.simps merkle_proof_loop.simps)
  next
    case True
    let ?sib = "let s = if i mod 2 = 0 then i + 1 else i - 1
      in if s < length level then level ! s else level ! i"
    have node: "(if i mod 2 = 0 then hash_pair kc (level ! i) ?sib else hash_pair kc ?sib (level ! i))
        = next_level kc level ! (i div 2)"
    proof (cases "i mod 2 = 0")
      case True
      then have "2 * (i div 2) = i" by presburger
      then show ?thesis using True next_level_nth [OF "1.prems", of kc] by (simp add: Let_def)
    next
      case False
      then have "2 * (i div 2) = i - 1" "0 < i" by presburger+
      moreover have "i - 1 < length level" using "1.prems" by simp
      ultimately show ?thesis using False "1.prems" next_level_nth [OF "1.prems", of kc]
        by (simp add: Let_def)
    qed
    have "i div 2 < length (next_level kc level)" using "1.prems" by simp
    note IH = "1.IH" [OF True this]
    have path: "merkle_proof_loop kc level i = ?sib # merkle_proof_loop kc (next_level kc level) (i div 2)"
      using True by (subst merkle_proof_loop.simps) (simp add: Let_def)
    have root: "merkle_root_loop kc level = merkle_root_loop kc (next_level kc level)"
      using True by (subst merkle_root_loop.simps) simp
    show ?thesis unfolding path root proof_walk.simps node by (rule IH)
  qed
qed

section \<open>Soundness\<close>

lemma set_level_inputs:
  "h \<in> set (next_level kc xs) \<Longrightarrow>
    \<exists>a\<in>set xs. \<exists>b\<in>set xs. h = kc (pair_bytes a b) \<and> pair_bytes a b \<in> set (level_inputs xs)"
  by (induction kc xs rule: next_level.induct) (auto simp: hash_pair_def)

lemma proof_walk_append:
  "proof_walk kc n i (xs @ ys) = proof_walk kc (proof_walk kc n i xs) (i div 2 ^ length xs) ys"
  by (induction kc n i xs rule: proof_walk.induct) (simp_all add: div_mult2_eq)

lemma walk_inputs_append:
  "walk_inputs kc n i (xs @ ys) = walk_inputs kc n i xs @
     walk_inputs kc (proof_walk kc n i xs) (i div 2 ^ length xs) ys"
  by (induction kc n i xs rule: proof_walk.induct)
    (simp_all add: div_mult2_eq Let_def hash_pair_def split: if_splits)

text \<open>Every node of a checked path but the leaf is the hash of a pair that holds the node before.\<close>

lemma walk_step:
  assumes "k < length path"
  shows "\<exists>l r. proof_walk kc n i (take (Suc k) path) = kc (pair_bytes l r)
    \<and> pair_bytes l r \<in> set (walk_inputs kc n i path)
    \<and> proof_walk kc n i (take k path) \<in> {l, r}"
proof -
  let ?w = "proof_walk kc n i (take k path)" and ?s = "path ! k"
  have split: "path = take (Suc k) path @ drop (Suc k) path" by simp
  have suc: "take (Suc k) path = take k path @ [?s]" using assms by (rule take_Suc_conv_app_nth)
  have wi: "walk_inputs kc n i path = walk_inputs kc n i (take (Suc k) path) @
      walk_inputs kc (proof_walk kc n i (take (Suc k) path)) (i div 2 ^ length (take (Suc k) path))
        (drop (Suc k) path)"
    using walk_inputs_append [of kc n i "take (Suc k) path" "drop (Suc k) path"] split by simp
  show ?thesis
    unfolding wi suc
    by (cases "i div 2 ^ k mod 2 = 0")
      (use assms in \<open>auto simp: proof_walk_append walk_inputs_append hash_pair_def Let_def min_def\<close>)
qed

lemma tree_inputs_length: "p \<in> set (tree_inputs kc level) \<Longrightarrow> length p = 64"
proof (induction kc level rule: tree_inputs.induct)
  case (1 kc level)
  have "q \<in> set (level_inputs xs) \<Longrightarrow> length q = 64" for q xs by (induction xs rule: level_inputs.induct) auto
  then show ?case using 1 by (auto simp: tree_inputs.simps [of kc level] split: if_splits)
qed

text \<open>
  A path that ends in the root passes through the leaf level, when its first node is not the hash
  of a pair of the tree.
\<close>

lemma walk_meets_level:
  assumes "proof_walk kc n i path = merkle_root_loop kc level" and "level \<noteq> []"
    and "inj_on kc (set (tree_inputs kc level) \<union> set (walk_inputs kc n i path))"
    and "n \<notin> kc ` set (tree_inputs kc level)"
  shows "\<exists>k \<le> length path. proof_walk kc n i (take k path) \<in> set level"
  using assms
proof (induction kc level rule: merkle_root_loop.induct)
  case (1 kc level)
  note inj = "1.prems"(3) and fresh = "1.prems"(4)
  show ?case
  proof (cases "1 < length level")
    case False
    then have "merkle_root_loop kc level = level ! 0" by (simp add: merkle_root_loop.simps)
    then have "proof_walk kc n i (take (length path) path) \<in> set level" using "1.prems"(1,2) by simp
    then show ?thesis by blast
  next
    case True
    let ?next = "next_level kc level"
    have ti: "tree_inputs kc level = level_inputs level @ tree_inputs kc ?next"
      using True by (simp add: tree_inputs.simps [of kc level])
    have "proof_walk kc n i path = merkle_root_loop kc ?next"
      using "1.prems"(1) True by (simp add: merkle_root_loop.simps [of kc level])
    moreover have "?next \<noteq> []" using True by (cases "(kc, level)" rule: next_level.cases) auto
    moreover have "inj_on kc (set (tree_inputs kc ?next) \<union> set (walk_inputs kc n i path))"
      by (rule inj_on_subset [OF inj]) (auto simp: ti)
    moreover have "n \<notin> kc ` set (tree_inputs kc ?next)" using fresh by (auto simp: ti)
    ultimately obtain k where k: "k \<le> length path"
        and mem: "proof_walk kc n i (take k path) \<in> set ?next"
      using "1.IH" [OF True] by blast
    obtain a b where ab: "a \<in> set level" "b \<in> set level"
        and h: "proof_walk kc n i (take k path) = kc (pair_bytes a b)"
        and inp: "pair_bytes a b \<in> set (tree_inputs kc level)"
      using set_level_inputs [OF mem] unfolding ti by auto
    show ?thesis
    proof (cases k)
      case 0
      then have "n = kc (pair_bytes a b)" using h by simp
      then show ?thesis using fresh inp by blast
    next
      case (Suc j)
      then obtain l r where lr: "proof_walk kc n i (take k path) = kc (pair_bytes l r)"
          "pair_bytes l r \<in> set (walk_inputs kc n i path)" "proof_walk kc n i (take j path) \<in> {l, r}"
        using walk_step [of j path kc n i] k by auto
      have "pair_bytes l r = pair_bytes a b"
        by (rule inj_onD [OF inj]) (use h inp lr in auto)
      then have "proof_walk kc n i (take j path) \<in> set level" using lr(3) ab by auto
      then show ?thesis using Suc k by (intro exI [of _ j]) simp
    qed
  qed
qed

text \<open>
  A path that passes the check for a leaf that hashes an input of another length than 64
  bytes leads to a leaf of the tree, when the hash does not collide on the inputs involved.
\<close>

lemma merkle_sound:
  assumes ver: "verify_merkle_proof kc (merkle_root kc (map (\<lambda>y. kc y) ys)) (kc x) i path"
    and ne: "ys \<noteq> []"
    and inj: "inj_on kc (insert x (set ys \<union> set (tree_inputs kc (map (\<lambda>y. kc y) ys))
                 \<union> set (walk_inputs kc (kc x) i path)))"
    and len: "length x \<noteq> 64" "\<forall>y \<in> set ys. length y \<noteq> 64"
  shows "x \<in> set ys"
proof -
  let ?leaves = "map (\<lambda>y. kc y) ys"
  have "\<exists>k \<le> length path. proof_walk kc (kc x) i (take k path) \<in> set ?leaves"
  proof (rule walk_meets_level)
    show "proof_walk kc (kc x) i path = merkle_root_loop kc ?leaves"
      using ver ne by (simp add: verify_merkle_proof_def merkle_root_def)
    show "inj_on kc (set (tree_inputs kc ?leaves) \<union> set (walk_inputs kc (kc x) i path))"
      by (rule inj_on_subset [OF inj]) auto
    show "kc x \<notin> kc ` set (tree_inputs kc ?leaves)"
    proof
      assume "kc x \<in> kc ` set (tree_inputs kc ?leaves)"
      then obtain p where p: "p \<in> set (tree_inputs kc ?leaves)" "kc x = kc p" by blast
      then have "x = p" by (intro inj_onD [OF inj]) auto
      then show False using p(1) len(1) tree_inputs_length by blast
    qed
  qed (use ne in simp_all)
  then obtain k y where k: "k \<le> length path" and y: "y \<in> set ys"
      and eq: "proof_walk kc (kc x) i (take k path) = kc y" by auto
  show ?thesis
  proof (cases k)
    case 0
    then have "x = y" using eq y by (intro inj_onD [OF inj]) auto
    then show ?thesis using y by simp
  next
    case (Suc j)
    then obtain l r where lr: "proof_walk kc (kc x) i (take k path) = kc (pair_bytes l r)"
        "pair_bytes l r \<in> set (walk_inputs kc (kc x) i path)"
      using walk_step [of j path kc "kc x" i] k by auto
    have "pair_bytes l r = y" by (rule inj_onD [OF inj]) (use eq lr y in auto)
    then show ?thesis using len(2) y by auto
  qed
qed

section \<open>What a root determines\<close>

text \<open>An odd level repeats its last node, so repeating the last of an odd list changes nothing.\<close>

lemma next_level_repeat:
  "even (length xs) \<Longrightarrow> next_level kc (xs @ [x]) = next_level kc (xs @ [x, x])"
  by (induction kc xs rule: next_level.induct) simp_all

text \<open>Two equally long lists with one root are equal, unless two of the hashed pairs collide.\<close>

lemma next_level_inject:
  assumes "length xs = length ys" and "next_level kc xs = next_level kc ys"
    and "inj_on kc (set (level_inputs xs) \<union> set (level_inputs ys))"
  shows "xs = ys"
  using assms
proof (induction xs arbitrary: ys rule: level_inputs.induct)
  case (2 x)
  then obtain y where ys: "ys = [y]" by (cases ys) auto
  have "pair_bytes x x = pair_bytes y y"
    using "2.prems"(2,3) unfolding ys by (intro inj_onD [OF "2.prems"(3)]) (simp_all add: hash_pair_def ys)
  then show ?case by (simp add: ys)
next
  case (3 x x' xs)
  then obtain y y' ys' where ys: "ys = y # y' # ys'" by (cases ys; cases "tl ys") auto
  have "pair_bytes x x' = pair_bytes y y'"
    using "3.prems"(2) by (intro inj_onD [OF "3.prems"(3)]) (simp_all add: hash_pair_def ys)
  moreover have "xs = ys'"
    using "3.prems" by (intro "3.IH") (auto simp: ys intro: inj_on_subset)
  ultimately show ?case by (simp add: ys)
qed simp

lemma merkle_root_inject:
  assumes "length xs = length ys" and "merkle_root_loop kc xs = merkle_root_loop kc ys"
    and "inj_on kc (set (tree_inputs kc xs) \<union> set (tree_inputs kc ys))"
  shows "xs = ys"
  using assms
proof (induction kc xs arbitrary: ys rule: tree_inputs.induct)
  case (1 kc xs)
  show ?case
  proof (cases "1 < length xs")
    case True
    have inputs: "tree_inputs kc zs = level_inputs zs @ tree_inputs kc (next_level kc zs)" if "length zs = length xs" for zs
      using True that by (simp add: tree_inputs.simps [of kc zs])
    have "next_level kc xs = next_level kc ys"
    proof (rule "1.IH" [OF True])
      show "length (next_level kc xs) = length (next_level kc ys)" using "1.prems"(1) by simp
      show "merkle_root_loop kc (next_level kc xs) = merkle_root_loop kc (next_level kc ys)"
        using "1.prems"(1,2) True by (simp add: merkle_root_loop.simps [of kc xs] merkle_root_loop.simps [of kc ys])
      show "inj_on kc (set (tree_inputs kc (next_level kc xs)) \<union> set (tree_inputs kc (next_level kc ys)))"
        using "1.prems"(1,3) by (auto simp: inputs intro: inj_on_subset)
    qed
    moreover have "inj_on kc (set (level_inputs xs) \<union> set (level_inputs ys))"
      using "1.prems"(1,3) by (auto simp: inputs intro: inj_on_subset)
    ultimately show ?thesis using next_level_inject "1.prems"(1) by blast
  next
    case False
    then show ?thesis
      using "1.prems"(1,2) by (cases xs; cases ys) (simp_all add: merkle_root_loop.simps [of kc "[_]"])
  qed
qed

section \<open>Properties\<close>

text \<open>
  Completeness: for every leaf of a list the code builds a sibling path, and the path
  passes the check against the root of the list.
\<close>
theorem merkle_proof_complete:
  assumes "index < length leaves"
  shows "\<exists>path. merkle_proof kc leaves index = Some path
    \<and> verify_merkle_proof kc (merkle_root kc leaves) (leaves ! index) index path"
  using assms merkle_walk_complete [OF assms]
  by (auto simp: merkle_proof_def verify_merkle_proof_def merkle_root_def)

theorem merkle_proof_complete_witness:
  "\<exists>path. merkle_proof (\<lambda>b. ucast (word_sum b) + 1) [10, 20, 30] 2 = Some path
    \<and> verify_merkle_proof (\<lambda>b. ucast (word_sum b) + 1)
          (merkle_root (\<lambda>b. ucast (word_sum b) + 1) [10, 20, 30]) 30 2 path"
  using merkle_proof_complete [of 2 "[10, 20, 30]" "\<lambda>b. ucast (word_sum b) + 1"] by simp

end
