(* ===== verification/Ledger_State.thy ===== *)
theory Ledger_State
  imports Tx_Types Merkle
begin

text \<open>
  The execution state of the ledger and every transition on it, \<open>crates/core/src/state.rs\<close>:
  the \<open>State\<close> struct with all its fields, the mint of protocol emission, the owned-object
  versions and their precheck, transfers, the eighteen native calls and the two transaction
  entry points.  Each operation returns the state it leaves together with its result, so the
  writes that precede an error are kept as in the code.  \<open>BTreeMap\<close> fields are maps and
  \<open>BTreeSet\<close> fields are sets, because no operation here depends on their order.
\<close>

section \<open>State\<close>

record account =
  acc_nonce :: u64
  acc_balance :: u128

record consensus_unbond_entry =
  cu_owner :: address
  cu_validator_fingerprint :: hash256
  cu_amount :: u128
  cu_release_ms :: u64

record stored_life_command =
  sl_signer :: address
  sl_command :: life_command_v1
  sl_sequence :: u64

record life_chain_event =
  le_event_id :: hash256
  le_command_id :: hash256
  le_kind :: life_command_kind
  le_soul_id_hash :: hash256
  le_epoch :: u64
  le_amount_micro_credits :: u128
  le_payload_hash :: hash256

record life_payout_record =
  lp_payout_id :: hash256
  lp_command_id :: hash256
  lp_kind :: life_payout_kind
  lp_beneficiary_hash :: hash256
  lp_epoch :: u64
  lp_amount_wei :: u128
  lp_vesting_release_epoch :: u64

record life_vesting_entry =
  lv_command_id :: hash256
  lv_beneficiary_hash :: hash256
  lv_epoch :: u64
  lv_amount_wei :: u128
  lv_release_epoch :: u64
  lv_burned :: bool

record provenance_bond_record =
  pb_command_id :: hash256
  pb_artifact_hash :: hash256
  pb_owner_hash :: "hash256 option"
  pb_signer :: address
  pb_epoch :: u64
  pb_bond_wei :: u128
  pb_burned :: bool

record feedback_artifact_record =
  fa_command_id :: hash256
  fa_artifact_hash :: hash256
  fa_contributor_hash :: "hash256 option"
  fa_epoch :: u64
  fa_payload_hash :: hash256

record sealed_sale_record =
  ss_command_id :: hash256
  ss_artifact_hash :: hash256
  ss_buyer_hash :: "hash256 option"
  ss_epoch :: u64
  ss_amount_wei :: u128
  ss_payload_hash :: hash256

record provider_reward_record =
  rw_reward_id :: hash256
  rw_receipt_id :: hash256
  rw_worker :: u64
  rw_organic_income_wei :: u128
  rw_compute_subsidy_wei :: u128
  rw_tx_count_subsidy_wei :: u128
  rw_storage_rollover_wei :: u128

record evm_log =
  lg_address :: address
  lg_topics :: "hash256 list"
  lg_data :: bytes

record state =
  accounts :: "address \<rightharpoonup> account"
  governance :: address
  next_agent_id :: u64
  agents :: "u64 \<rightharpoonup> agent_record"
  address_to_agent :: "address \<rightharpoonup> u64"
  receipts :: "hash256 \<rightharpoonup> on_chain_task_receipt"
  batches :: "hash256 \<rightharpoonup> stored_batch"
  claimed_payouts :: "(hash256 \<times> u32) set"
  next_dispute_id :: u64
  disputes :: "u64 \<rightharpoonup> dispute_record"
  stakes :: "address \<rightharpoonup> u128"
  delegated :: "address \<times> address \<rightharpoonup> u128"
  evm_code :: "address \<rightharpoonup> bytes"
  evm_storage :: "address \<times> hash256 \<rightharpoonup> hash256"
  evm_tx_gas_used :: "hash256 \<rightharpoonup> u64"
  evm_tx_logs :: "hash256 \<rightharpoonup> evm_log list"
  evm_tx_success :: "hash256 \<rightharpoonup> bool"
  wallet_task_receipt_anchors :: "hash256 \<rightharpoonup> address"
  proof_commitments :: "hash256 \<rightharpoonup> address"
  life_commands :: "hash256 \<rightharpoonup> stored_life_command"
  life_events :: "life_chain_event list"
  life_reaper_epochs :: "u64 set"
  life_payouts :: "life_payout_record list"
  life_vesting :: "hash256 \<rightharpoonup> life_vesting_entry"
  life_provenance_bonds :: "hash256 \<rightharpoonup> provenance_bond_record"
  life_feedback_artifacts :: "hash256 \<rightharpoonup> feedback_artifact_record"
  life_sealed_sales :: "hash256 \<rightharpoonup> sealed_sale_record"
  provider_rewards :: "provider_reward_record list"
  provider_organic_income_wei :: "u64 \<rightharpoonup> u128"
  provider_subsidy_income_wei :: "u64 \<rightharpoonup> u128"
  owned_object_versions :: "owned_object_id \<rightharpoonup> u64"
  protocol_minted_wei :: u128
  protocol_burned_wei :: u128
  emission_provider_pool_wei :: u128
  emission_consensus_pool_wei :: u128
  emission_intelligence_pool_wei :: u128
  emission_provider_rollover_wei :: u128
  emission_consensus_rollover_wei :: u128
  emission_intelligence_rollover_wei :: u128
  consensus_stakes :: "hash256 \<rightharpoonup> u128"
  consensus_stake_shares :: "address \<times> hash256 \<rightharpoonup> u128"
  consensus_commission_bps :: "hash256 \<rightharpoonup> u16"
  consensus_reward_credits :: "address \<times> hash256 \<rightharpoonup> u128"
  consensus_unbonding :: "consensus_unbond_entry list"
  validator_registry :: "hash256 \<rightharpoonup> validator_registry_entry"
  chain_economics :: chain_economics_params

type_synonym 'a ledger = "(state, exec_error, 'a) exec"

definition default_state :: state where
  "default_state = \<lparr>
     accounts = Map.empty,
     governance = 0,
     next_agent_id = 1,
     agents = Map.empty,
     address_to_agent = Map.empty,
     receipts = Map.empty,
     batches = Map.empty,
     claimed_payouts = {},
     next_dispute_id = 1,
     disputes = Map.empty,
     stakes = Map.empty,
     delegated = Map.empty,
     evm_code = Map.empty,
     evm_storage = Map.empty,
     evm_tx_gas_used = Map.empty,
     evm_tx_logs = Map.empty,
     evm_tx_success = Map.empty,
     wallet_task_receipt_anchors = Map.empty,
     proof_commitments = Map.empty,
     life_commands = Map.empty,
     life_events = [],
     life_reaper_epochs = {},
     life_payouts = [],
     life_vesting = Map.empty,
     life_provenance_bonds = Map.empty,
     life_feedback_artifacts = Map.empty,
     life_sealed_sales = Map.empty,
     provider_rewards = [],
     provider_organic_income_wei = Map.empty,
     provider_subsidy_income_wei = Map.empty,
     owned_object_versions = Map.empty,
     protocol_minted_wei = 0,
     protocol_burned_wei = 0,
     emission_provider_pool_wei = 0,
     emission_consensus_pool_wei = 0,
     emission_intelligence_pool_wei = 0,
     emission_provider_rollover_wei = 0,
     emission_consensus_rollover_wei = 0,
     emission_intelligence_rollover_wei = 0,
     consensus_stakes = Map.empty,
     consensus_stake_shares = Map.empty,
     consensus_commission_bps = Map.empty,
     consensus_reward_credits = Map.empty,
     consensus_unbonding = [],
     validator_registry = Map.empty,
     chain_economics = chain_economics_testnet\<rparr>"

end
