(* ===== verification/Ledger_Ops.thy ===== *)
theory Ledger_Ops
  imports Ledger_State
begin

text \<open>
  The operations of the ledger state, \<open>crates/core/src/state.rs\<close>, one definition per method.
  Native calls are the equations of \<open>apply_native_impl\<close>; the two entry points
  \<open>apply_transaction\<close> and \<open>apply_transaction_with_evm\<close> check the account and its nonce,
  dispatch, and bump the versions of the owned objects on success.  The EVM is the record
  \<open>evm_engine\<close> of the trait's methods.
\<close>

section \<open>Supply and emission\<close>

definition circulating_supply_wei :: "state \<Rightarrow> u128" where
  "circulating_supply_wei s = sat_sub (protocol_minted_wei s) (protocol_burned_wei s)"

definition consensus_stake_total_for_fingerprint :: "state \<Rightarrow> hash256 \<Rightarrow> u128" where
  "consensus_stake_total_for_fingerprint s fingerprint = unwrap_or (consensus_stakes s fingerprint) 0"

definition mint_protocol_emission_for_block :: "state \<Rightarrow> u64 \<Rightarrow> u128 ledger" where
  "mint_protocol_emission_for_block s height =
     (let emission = emission_for_block height (ce_emission (chain_economics s))
      in if eb_total_wei emission = 0 then (s, Inr 0)
         else case checked_add (protocol_minted_wei s) (eb_total_wei emission) of
           None \<Rightarrow> (s, Inl SupplyCapExceeded)
         | Some new_minted \<Rightarrow>
             if new_minted > MAX_SUPPLY_WEI then (s, Inl SupplyCapExceeded)
             else (s\<lparr>protocol_minted_wei := new_minted,
                     emission_provider_pool_wei :=
                       sat_add (emission_provider_pool_wei s) (eb_provider_pool_wei emission),
                     emission_consensus_pool_wei :=
                       sat_add (emission_consensus_pool_wei s) (eb_consensus_pool_wei emission),
                     emission_intelligence_pool_wei :=
                       sat_add (emission_intelligence_pool_wei s) (eb_intelligence_pool_wei emission)\<rparr>,
                   Inr (eb_total_wei emission)))"

section \<open>Owned objects\<close>

definition owned_object_version :: "state \<Rightarrow> owned_object_id \<Rightarrow> u64" where
  "owned_object_version s obj =
     (case obj of
        AccountNonce address \<Rightarrow> (case accounts s address of Some a \<Rightarrow> acc_nonce a | None \<Rightarrow> 0)
      | _ \<Rightarrow> unwrap_or (owned_object_versions s obj) 0)"

definition owned_object_versions_for_transaction ::
    "state \<Rightarrow> transaction \<Rightarrow> owned_object_version list option" where
  "owned_object_versions_for_transaction s tx =
     (case execution_scope tx of
        Owned _ objects \<Rightarrow>
          Some (map (\<lambda>obj. OwnedObjectVersion obj (owned_object_version s obj)) objects)
      | _ \<Rightarrow> None)"

datatype owned_object_precheck_error =
    PreNotOwnedObject
  | PreOwner
  | PreUnknownSigner
  | PreBadNonce u64 u64
  | PreObjectVersionSet
  | PreObjectVersion owned_object_id u64 u64
  | PreGasLimit u64 u64
  | PreFeeBelowBase u128 u128
  | PreInsufficientFeeBalance u128 u128
  | PreFeeOverflow
  | PreEncode
  | PreInvalidShape

record owned_object_precheck =
  op_tx_hash :: hash256
  op_owner :: address
  op_signer_nonce :: u64
  op_object_versions :: "owned_object_version list"
  op_tx_gas :: u64
  op_max_fee_per_gas :: u128
  op_base_fee_per_gas :: u128

text \<open>The first supplied version that is not the current one, if any.\<close>

fun check_versions :: "state \<Rightarrow> owned_object_version list \<Rightarrow> owned_object_precheck_error + unit" where
  "check_versions s [] = Inr ()"
| "check_versions s (supplied # rest) =
     (let expected = owned_object_version s (object_id supplied)
      in if version supplied \<noteq> expected
         then Inl (PreObjectVersion (object_id supplied) expected (version supplied))
         else check_versions s rest)"

definition precheck_owned_transaction ::
    "ext \<Rightarrow> state \<Rightarrow> transaction \<Rightarrow> owned_object_version list \<Rightarrow> u64 \<Rightarrow> u128 \<Rightarrow> u128
     \<Rightarrow> owned_object_precheck_error + owned_object_precheck" where
  "precheck_owned_transaction E s tx supplied gas_limit max_fee_per_gas base_fee_per_gas =
     (case execution_scope tx of
        Owned owner objects \<Rightarrow>
          if owner \<noteq> tx_signer tx then Inl PreOwner
          else (case accounts s (tx_signer tx) of
            None \<Rightarrow> Inl PreUnknownSigner
          | Some account \<Rightarrow>
              if acc_nonce account \<noteq> tx_nonce tx
              then Inl (PreBadNonce (acc_nonce account) (tx_nonce tx))
              else
                (let supplied_versions = dedup (sort supplied)
                 in if map object_id supplied_versions \<noteq> objects then Inl PreObjectVersionSet
                    else (case check_versions s supplied_versions of
                      Inl e \<Rightarrow> Inl e
                    | Inr _ \<Rightarrow>
                      (case tx_gas_limit E tx of
                        Inl _ \<Rightarrow> Inl PreInvalidShape
                      | Inr tx_gas \<Rightarrow>
                          if tx_gas > gas_limit then Inl (PreGasLimit tx_gas gas_limit)
                          else if max_fee_per_gas < base_fee_per_gas
                            then Inl (PreFeeBelowBase max_fee_per_gas base_fee_per_gas)
                          else (case checked_mul (ucast tx_gas) max_fee_per_gas of
                            None \<Rightarrow> Inl PreFeeOverflow
                          | Some required \<Rightarrow>
                              if acc_balance account < required
                              then Inl (PreInsufficientFeeBalance (acc_balance account) required)
                              else (case ext_borsh_transaction E tx of
                                None \<Rightarrow> Inl PreEncode
                              | Some raw \<Rightarrow>
                                  Inr \<lparr>op_tx_hash = ext_keccak256 E raw,
                                       op_owner = owner,
                                       op_signer_nonce = tx_nonce tx,
                                       op_object_versions = supplied_versions,
                                       op_tx_gas = tx_gas,
                                       op_max_fee_per_gas = max_fee_per_gas,
                                       op_base_fee_per_gas = base_fee_per_gas\<rparr>))))))
      | _ \<Rightarrow> Inl PreNotOwnedObject)"

definition bump_object :: "(owned_object_id \<rightharpoonup> u64) \<Rightarrow> owned_object_id \<Rightarrow> (owned_object_id \<rightharpoonup> u64)" where
  "bump_object m obj =
     (case obj of
        AccountNonce _ \<Rightarrow> m
      | _ \<Rightarrow> m(obj \<mapsto> sat_add (unwrap_or (m obj) 0) 1))"

definition bump_owned_object_versions_for_scope :: "state \<Rightarrow> tx_execution_scope \<Rightarrow> state" where
  "bump_owned_object_versions_for_scope s scope =
     (case scope of
        Consensus \<Rightarrow> s
      | Owned _ objects \<Rightarrow>
          s\<lparr>owned_object_versions := foldl bump_object (owned_object_versions s) objects\<rparr>
      | Mixed _ objects \<Rightarrow>
          s\<lparr>owned_object_versions := foldl bump_object (owned_object_versions s) objects\<rparr>)"

section \<open>Accounts\<close>

definition bump_nonce :: "state \<Rightarrow> address \<Rightarrow> unit ledger" where
  "bump_nonce s signer =
     (case accounts s signer of
        None \<Rightarrow> (s, Inl UnknownSigner)
      | Some a \<Rightarrow>
          (s\<lparr>accounts := (accounts s)(signer \<mapsto> a\<lparr>acc_nonce := sat_add (acc_nonce a) 1\<rparr>)\<rparr>, Inr ()))"

text \<open>The tail of the native calls: the nonce is bumped unless the call is an EVM syscall.\<close>

definition finish_call :: "state \<Rightarrow> address \<Rightarrow> bool \<Rightarrow> unit ledger" where
  "finish_call s signer bump = (if bump then bump_nonce s signer else (s, Inr ()))"

text \<open>\<open>entry(a).or_insert(Account \<dots>).balance += v\<close>: the account is created on demand.\<close>

definition credit :: "(address \<rightharpoonup> account) \<Rightarrow> address \<Rightarrow> u128 \<Rightarrow> (address \<rightharpoonup> account)" where
  "credit accs a v =
     (let acc = unwrap_or (accs a) \<lparr>acc_nonce = 0, acc_balance = 0\<rparr>
      in accs(a \<mapsto> acc\<lparr>acc_balance := acc_balance acc + v\<rparr>))"

text \<open>\<open>entry(k).or_insert(0) += v\<close> on a map of amounts.\<close>

definition add_amount :: "('k \<rightharpoonup> u128) \<Rightarrow> 'k \<Rightarrow> u128 \<Rightarrow> ('k \<rightharpoonup> u128)" where
  "add_amount m k v = m(k \<mapsto> unwrap_or (m k) 0 + v)"

definition require_governance :: "state \<Rightarrow> address \<Rightarrow> exec_error + unit" where
  "require_governance s signer =
     (if governance s = 0 then Inr ()
      else if signer \<noteq> governance s then Inl NotAuthorized
      else Inr ())"

definition apply_transfer :: "state \<Rightarrow> address \<Rightarrow> address \<Rightarrow> u128 \<Rightarrow> unit ledger" where
  "apply_transfer s from to amount =
     (case accounts s from of
        None \<Rightarrow> (s, Inl UnknownSigner)
      | Some from_acc \<Rightarrow>
          if acc_balance from_acc < amount then (s, Inl InsufficientBalance)
          else
            let debited = (accounts s)(from \<mapsto> from_acc\<lparr>acc_balance := acc_balance from_acc - amount\<rparr>)
            in bump_nonce (s\<lparr>accounts := credit debited to amount\<rparr>) from)"

section \<open>Receipts, batches and payouts\<close>

definition hash_receipt :: "ext \<Rightarrow> on_chain_task_receipt \<Rightarrow> hash256" where
  "hash_receipt E r = ext_keccak256 E (ext_borsh_receipt E r)"

definition hash_payout_entry :: "ext \<Rightarrow> payout_entry \<Rightarrow> hash256" where
  "hash_payout_entry E e = ext_keccak256 E (ext_borsh_payout_entry E e)"

definition receipt_weight :: "on_chain_task_receipt \<Rightarrow> u128" where
  "receipt_weight r = ucast (max (rc_score r) 1)"

record provider_budget =
  bg_storage :: u128
  bg_compute :: u128
  bg_tx :: u128
  bg_total_score :: u128
  bg_count :: nat

text \<open>The loop over the receipts: \<open>idx\<close> receipts are done and the two sums are paid so far.\<close>

fun provider_reward_loop ::
    "ext \<Rightarrow> provider_budget \<Rightarrow> nat \<Rightarrow> u128 \<Rightarrow> u128 \<Rightarrow> state \<Rightarrow> on_chain_task_receipt list \<Rightarrow> unit ledger" where
  "provider_reward_loop E b idx paid_compute paid_tx s [] = (s, Inr ())"
| "provider_reward_loop E b idx paid_compute paid_tx s (receipt # rest) =
     (let is_last = (idx + 1 = bg_count b);
          compute = (if is_last then sat_sub (bg_compute b) paid_compute
                     else sat_mul (bg_compute b) (receipt_weight receipt) div bg_total_score b);
          tx_count = (if is_last then sat_sub (bg_tx b) paid_tx
                      else bg_tx b div of_nat (bg_count b));
          subsidy = sat_add compute tx_count;
          s1 = (if subsidy > 0
                then s\<lparr>provider_subsidy_income_wei := (provider_subsidy_income_wei s)
                         (rc_worker receipt \<mapsto>
                            sat_add (unwrap_or (provider_subsidy_income_wei s (rc_worker receipt)) 0) subsidy)\<rparr>
                else s)
      in case ext_borsh_provider_reward E (of_nat (length (provider_rewards s1))) (rc_receipt_id receipt)
                (rc_worker receipt) compute tx_count (bg_storage b) of
           None \<Rightarrow> (s1, Inl InvalidShape)
         | Some raw \<Rightarrow>
             let reward = \<lparr>rw_reward_id = ext_keccak256 E raw,
                           rw_receipt_id = rc_receipt_id receipt,
                           rw_worker = rc_worker receipt,
                           rw_organic_income_wei = rc_payout_amount receipt,
                           rw_compute_subsidy_wei = compute,
                           rw_tx_count_subsidy_wei = tx_count,
                           rw_storage_rollover_wei = (if idx = 0 then bg_storage b else 0)\<rparr>
             in provider_reward_loop E b (idx + 1) (sat_add paid_compute compute) (sat_add paid_tx tx_count)
                  (s1\<lparr>provider_rewards := provider_rewards s1 @ [reward]\<rparr>) rest)"

definition record_organic_income :: "(u64 \<rightharpoonup> u128) \<Rightarrow> on_chain_task_receipt \<Rightarrow> (u64 \<rightharpoonup> u128)" where
  "record_organic_income m r =
     m(rc_worker r \<mapsto> sat_add (unwrap_or (m (rc_worker r)) 0) (rc_payout_amount r))"

definition distribute_provider_pool_for_receipts ::
    "ext \<Rightarrow> state \<Rightarrow> on_chain_task_receipt list \<Rightarrow> unit ledger" where
  "distribute_provider_pool_for_receipts E s rs =
     (if rs = [] then (s, Inr ())
      else
        let s1 = s\<lparr>provider_organic_income_wei := foldl record_organic_income (provider_organic_income_wei s) rs\<rparr>;
            pool = emission_provider_pool_wei s1
        in if pool = 0 then (s1, Inr ())
           else
             let params = ce_emission (chain_economics s1);
                 storage_budget = sat_mul pool (ucast (em_provider_storage_bps params)) div 10000;
                 compute_budget = sat_mul pool (ucast (em_provider_compute_bps params)) div 10000;
                 tx_budget = sat_sub (sat_sub pool storage_budget) compute_budget;
                 s2 = s1\<lparr>emission_provider_pool_wei := 0,
                         emission_provider_rollover_wei :=
                           sat_add (emission_provider_rollover_wei s1) storage_budget\<rparr>
             in provider_reward_loop E
                  \<lparr>bg_storage = storage_budget, bg_compute = compute_budget, bg_tx = tx_budget,
                   bg_total_score = word_sum (map receipt_weight rs), bg_count = length rs\<rparr>
                  0 0 0 s2 rs)"

definition payouts_indexed :: "payout_entry list \<Rightarrow> bool" where
  "payouts_indexed es \<longleftrightarrow> list_all (\<lambda>(i, e). pe_index e = of_nat i) (List.enumerate 0 es)"

definition insert_receipts ::
    "(hash256 \<rightharpoonup> on_chain_task_receipt) \<Rightarrow> on_chain_task_receipt list \<Rightarrow> (hash256 \<rightharpoonup> on_chain_task_receipt)" where
  "insert_receipts m rs = foldl (\<lambda>m r. m(rc_receipt_id r \<mapsto> r)) m rs"

text \<open>The signature check of a batch, after the operator has been debited.\<close>

definition check_operator_sig ::
    "ext \<Rightarrow> state \<Rightarrow> settle_batch_payload \<Rightarrow> hash256 \<Rightarrow> hash256 \<Rightarrow> exec_error + unit" where
  "check_operator_sig E s p receipt_root payout_root =
     (if sb_operator_sig p \<noteq> 0
      then (case address_to_agent s (sb_operator p) of
              None \<Rightarrow> Inr ()
            | Some aid \<Rightarrow>
                (case agents s aid of
                   None \<Rightarrow> Inl NotFound
                 | Some ag \<Rightarrow>
                     (let msg = be_bytes 32 (sb_batch_id p) @ be_bytes 32 receipt_root @ be_bytes 32 payout_root
                      in if ext_verify_message E (ag_pubkey ag) msg (sb_operator_sig p) then Inr ()
                         else Inl BadSignature)))
      else Inr ())"

definition apply_settle_batch ::
    "ext \<Rightarrow> state \<Rightarrow> address \<Rightarrow> settle_batch_payload \<Rightarrow> bool \<Rightarrow> unit ledger" where
  "apply_settle_batch E s signer p bump =
     (if signer \<noteq> sb_operator p then (s, Inl NotAuthorized)
      else if \<not> payouts_indexed (sb_payout_entries p) then (s, Inl BadPayoutOrdering)
      else if list_ex (\<lambda>r. receipts s (rc_receipt_id r) \<noteq> None) (sb_receipts p)
        then (s, Inl DuplicateReceipt)
      else
        let receipt_root = merkle_root (ext_keccak256 E) (map (hash_receipt E) (sb_receipts p));
            payout_root = merkle_root (ext_keccak256 E) (map (hash_payout_entry E) (sb_payout_entries p));
            total = word_sum (map pe_amount (sb_payout_entries p))
        in case accounts s (sb_operator p) of
             None \<Rightarrow> (s, Inl UnknownSigner)
           | Some op_acc \<Rightarrow>
               if acc_balance op_acc < total then (s, Inl InsufficientBalance)
               else
                 let s1 = s\<lparr>accounts := (accounts s)
                              (sb_operator p \<mapsto> op_acc\<lparr>acc_balance := acc_balance op_acc - total\<rparr>)\<rparr>
                 in case check_operator_sig E s1 p receipt_root payout_root of
                      Inl e \<Rightarrow> (s1, Inl e)
                    | Inr _ \<Rightarrow>
                        let stored = \<lparr>bt_operator = sb_operator p,
                                      bt_receipt_root = receipt_root,
                                      bt_payout_root = payout_root,
                                      bt_receipt_count = of_nat (length (sb_receipts p)),
                                      bt_payout_count = of_nat (length (sb_payout_entries p)),
                                      bt_total_payout = total,
                                      bt_submitted_at = sb_submitted_at p\<rparr>;
                            s2 = s1\<lparr>batches := (batches s1)(sb_batch_id p \<mapsto> stored),
                                    receipts := insert_receipts (receipts s1) (sb_receipts p)\<rparr>
                        in and_then (distribute_provider_pool_for_receipts E s2 (sb_receipts p))
                             (\<lambda>s3 _. finish_call s3 signer bump))"

definition apply_claim_payout ::
    "ext \<Rightarrow> state \<Rightarrow> address \<Rightarrow> hash256 \<Rightarrow> address \<Rightarrow> u128 \<Rightarrow> u32 \<Rightarrow> hash256 list \<Rightarrow> bool \<Rightarrow> unit ledger" where
  "apply_claim_payout E s signer batch_id account amount leaf_index path bump =
     (if (batch_id, leaf_index) \<in> claimed_payouts s then (s, Inl AlreadyClaimed)
      else
        let entry = \<lparr>pe_index = leaf_index, pe_account = account, pe_amount = amount\<rparr>;
            leaf = hash_payout_entry E entry
        in case batches s batch_id of
             None \<Rightarrow> (s, Inl BatchNotFound)
           | Some batch \<Rightarrow>
               if \<not> verify_merkle_proof (ext_keccak256 E) (bt_payout_root batch) leaf (unat leaf_index) path
               then (s, Inl InvalidProof)
               else finish_call
                      (s\<lparr>claimed_payouts := insert (batch_id, leaf_index) (claimed_payouts s),
                         accounts := credit (accounts s) account amount\<rparr>) signer bump)"

section \<open>Life commands\<close>

definition insert_life_payout ::
    "ext \<Rightarrow> state \<Rightarrow> life_command_v1 \<Rightarrow> life_payout_kind \<Rightarrow> hash256 \<Rightarrow> u128 \<Rightarrow> u64 \<Rightarrow> unit ledger" where
  "insert_life_payout E s command kind beneficiary amount_wei release_epoch =
     (case ext_borsh_life_payout E (lc_command_id command) (of_nat (length (life_payouts s))) kind
             beneficiary amount_wei release_epoch of
        None \<Rightarrow> (s, Inl InvalidShape)
      | Some raw \<Rightarrow>
          let payout_id = ext_keccak256 E raw
          in (s\<lparr>life_payouts := life_payouts s @
                  [\<lparr>lp_payout_id = payout_id, lp_command_id = lc_command_id command, lp_kind = kind,
                    lp_beneficiary_hash = beneficiary, lp_epoch = lc_epoch command,
                    lp_amount_wei = amount_wei, lp_vesting_release_epoch = release_epoch\<rparr>],
                life_vesting := (life_vesting s)(payout_id \<mapsto>
                  \<lparr>lv_command_id = lc_command_id command, lv_beneficiary_hash = beneficiary,
                   lv_epoch = lc_epoch command, lv_amount_wei = amount_wei,
                   lv_release_epoch = release_epoch, lv_burned = False\<rparr>)\<rparr>, Inr ()))"

definition first_hop_bps :: "state \<Rightarrow> u16" where
  "first_hop_bps s =
     (case em_royalty_hops_bps (ce_emission (chain_economics s)) of [] \<Rightarrow> 0 | b # _ \<Rightarrow> b)"

definition apply_intelligence_payout :: "ext \<Rightarrow> state \<Rightarrow> life_command_v1 \<Rightarrow> unit ledger" where
  "apply_intelligence_payout E s command =
     (let gross = lc_amount_micro_credits command
      in if gross = 0 then (s, Inr ())
         else if gross > emission_intelligence_pool_wei s then (s, Inl InsufficientIntelligencePool)
         else
           let s1 = s\<lparr>emission_intelligence_pool_wei := emission_intelligence_pool_wei s - gross\<rparr>;
               royalty = (case lc_counterparty_hash command of
                   None \<Rightarrow> 0
                 | Some _ \<Rightarrow> sat_mul gross (ucast (first_hop_bps s1)) div 10000);
               primary = sat_sub gross royalty;
               release_epoch = sat_add (lc_epoch command)
                 (em_vesting_epochs (ce_emission (chain_economics s1)))
           in and_then
                (if primary > 0
                 then insert_life_payout E s1 command PrimaryPayout (lc_soul_id_hash command) primary release_epoch
                 else (s1, Inr ()))
                (\<lambda>s2 _. case lc_counterparty_hash command of
                    None \<Rightarrow> (s2, Inr ())
                  | Some beneficiary \<Rightarrow>
                      if royalty > 0
                      then insert_life_payout E s2 command RoyaltyPayout beneficiary royalty release_epoch
                      else (s2, Inr ())))"

definition apply_provenance_bond :: "state \<Rightarrow> address \<Rightarrow> life_command_v1 \<Rightarrow> unit ledger" where
  "apply_provenance_bond s signer command =
     (let bond_wei = lc_amount_micro_credits command;
          minimum = em_provenance_bond_wei (ce_emission (chain_economics s))
      in if bond_wei < minimum then (s, Inl BelowProvenanceBond)
         else case accounts s signer of
           None \<Rightarrow> (s, Inl UnknownSigner)
         | Some account \<Rightarrow>
             if acc_balance account < bond_wei then (s, Inl InsufficientBalance)
             else if life_provenance_bonds s (lc_soul_id_hash command) \<noteq> None
               then (s, Inl DuplicateLifeArtifact)
             else (s\<lparr>accounts := (accounts s)
                       (signer \<mapsto> account\<lparr>acc_balance := acc_balance account - bond_wei\<rparr>),
                     life_provenance_bonds := (life_provenance_bonds s)(lc_soul_id_hash command \<mapsto>
                       \<lparr>pb_command_id = lc_command_id command, pb_artifact_hash = lc_soul_id_hash command,
                        pb_owner_hash = lc_counterparty_hash command, pb_signer = signer,
                        pb_epoch = lc_epoch command, pb_bond_wei = bond_wei, pb_burned = False\<rparr>)\<rparr>, Inr ()))"

definition apply_life_command_economics :: "ext \<Rightarrow> state \<Rightarrow> address \<Rightarrow> life_command_v1 \<Rightarrow> unit ledger" where
  "apply_life_command_economics E s signer command =
     (case lc_kind command of
        IntelligencePayout \<Rightarrow> apply_intelligence_payout E s command
      | ProvenanceBond \<Rightarrow> apply_provenance_bond s signer command
      | FeedbackArtifact \<Rightarrow>
          if life_feedback_artifacts s (lc_payload_hash command) \<noteq> None
          then (s, Inl DuplicateLifeArtifact)
          else (s\<lparr>life_feedback_artifacts := (life_feedback_artifacts s)(lc_payload_hash command \<mapsto>
                   \<lparr>fa_command_id = lc_command_id command, fa_artifact_hash = lc_payload_hash command,
                    fa_contributor_hash = lc_counterparty_hash command, fa_epoch = lc_epoch command,
                    fa_payload_hash = lc_payload_hash command\<rparr>)\<rparr>, Inr ())
      | SealedSale \<Rightarrow>
          if life_sealed_sales s (lc_payload_hash command) \<noteq> None
          then (s, Inl DuplicateLifeArtifact)
          else (s\<lparr>life_sealed_sales := (life_sealed_sales s)(lc_payload_hash command \<mapsto>
                   \<lparr>ss_command_id = lc_command_id command, ss_artifact_hash = lc_soul_id_hash command,
                    ss_buyer_hash = lc_counterparty_hash command, ss_epoch = lc_epoch command,
                    ss_amount_wei = lc_amount_micro_credits command,
                    ss_payload_hash = lc_payload_hash command\<rparr>)\<rparr>, Inr ())
      | _ \<Rightarrow> (s, Inr ()))"

definition governed_life_kind :: "life_command_kind \<Rightarrow> bool" where
  "governed_life_kind k \<longleftrightarrow>
     k \<in> {WithdrawalSettlement, SiiCommit, LadderCommit, BenchmarkFreeze, IntelligencePayout, ReaperEpoch}"

definition apply_life_command :: "ext \<Rightarrow> state \<Rightarrow> address \<Rightarrow> life_command_v1 \<Rightarrow> bool \<Rightarrow> unit ledger" where
  "apply_life_command E s signer command bump =
     (if life_commands s (lc_command_id command) \<noteq> None then (s, Inl DuplicateLifeCommand)
      else case (if governed_life_kind (lc_kind command) then require_governance s signer else Inr ()) of
        Inl e \<Rightarrow> (s, Inl e)
      | Inr _ \<Rightarrow>
          and_then (apply_life_command_economics E s signer command)
            (\<lambda>s1 _.
               let sequence = of_nat (length (life_events s1))
               in case ext_borsh_life_event E sequence command of
                    None \<Rightarrow> (s1, Inl InvalidShape)
                  | Some raw \<Rightarrow>
                      finish_call
                        (s1\<lparr>life_commands := (life_commands s1)(lc_command_id command \<mapsto>
                              \<lparr>sl_signer = signer, sl_command = command, sl_sequence = sequence\<rparr>),
                            life_events := life_events s1 @
                              [\<lparr>le_event_id = ext_keccak256 E raw, le_command_id = lc_command_id command,
                                le_kind = lc_kind command, le_soul_id_hash = lc_soul_id_hash command,
                                le_epoch = lc_epoch command,
                                le_amount_micro_credits = lc_amount_micro_credits command,
                                le_payload_hash = lc_payload_hash command\<rparr>]\<rparr>) signer bump))"

section \<open>Native calls\<close>

text \<open>The witness check of a wallet anchor, which depends on the build feature \<open>wallet\<close>.\<close>

definition check_receipt_witness :: "ext \<Rightarrow> hash256 \<Rightarrow> bytes \<Rightarrow> exec_error + unit" where
  "check_receipt_witness E commitment receipt_witness =
     (if receipt_witness = [] then Inr ()
      else if ext_wallet_feature E
      then (case ext_task_receipt_reencode E receipt_witness of
              None \<Rightarrow> Inl InvalidShape
            | Some raw \<Rightarrow>
                if ext_keccak256 E raw \<noteq> commitment then Inl WalletCommitmentMismatch else Inr ())
      else Inl WalletFeatureDisabled)"

fun apply_native_impl :: "ext \<Rightarrow> state \<Rightarrow> address \<Rightarrow> native_call \<Rightarrow> bool \<Rightarrow> unit ledger" where
  "apply_native_impl E s signer (RegisterAgent operator pubkey kind metadata_uri) bump =
     (let id = next_agent_id s;
          s1 = s\<lparr>next_agent_id := sat_add (next_agent_id s) 1\<rparr>
      in if address_to_agent s1 signer \<noteq> None then (s1, Inl AgentIdCollision)
         else finish_call
           (s1\<lparr>agents := (agents s1)(id \<mapsto>
                 \<lparr>ag_agent_id = id, ag_address = signer, ag_operator = operator, ag_pubkey = pubkey,
                  ag_kind = kind, ag_metadata_uri = metadata_uri, ag_reputation_score = 0,
                  ag_completed_jobs = 0, ag_status = 0, ag_registered_at = 0, ag_schema_version = 1\<rparr>),
               address_to_agent := (address_to_agent s1)(signer \<mapsto> id)\<rparr>) signer bump)"
| "apply_native_impl E s signer (UpdateAgent agent_id new_metadata_uri new_pubkey) bump =
     (case agents s agent_id of
        None \<Rightarrow> (s, Inl NotFound)
      | Some ag \<Rightarrow>
          if ag_address ag \<noteq> signer then (s, Inl NotAuthorized)
          else finish_call
            (s\<lparr>agents := (agents s)(agent_id \<mapsto>
                 ag\<lparr>ag_metadata_uri := new_metadata_uri,
                    ag_pubkey := (case new_pubkey of Some pk \<Rightarrow> pk | None \<Rightarrow> ag_pubkey ag)\<rparr>)\<rparr>) signer bump)"
| "apply_native_impl E s signer (SuspendAgent agent_id reason) bump =
     (case require_governance s signer of
        Inl e \<Rightarrow> (s, Inl e)
      | Inr _ \<Rightarrow>
          (case agents s agent_id of
             None \<Rightarrow> (s, Inl NotFound)
           | Some ag \<Rightarrow>
               finish_call (s\<lparr>agents := (agents s)(agent_id \<mapsto> ag\<lparr>ag_status := 1\<rparr>)\<rparr>) signer bump))"
| "apply_native_impl E s signer (SettleReceipt r) bump =
     (if receipts s (rc_receipt_id r) \<noteq> None then (s, Inl DuplicateReceipt)
      else and_then
        (distribute_provider_pool_for_receipts E
           (s\<lparr>receipts := (receipts s)(rc_receipt_id r \<mapsto> r)\<rparr>) [r])
        (\<lambda>s1 _. finish_call s1 signer bump))"
| "apply_native_impl E s signer (SettleBatch p) bump = apply_settle_batch E s signer p bump"
| "apply_native_impl E s signer (ClaimPayout batch_id account amount leaf_index path) bump =
     apply_claim_payout E s signer batch_id account amount leaf_index path bump"
| "apply_native_impl E s signer (FileDispute receipt_id reason_code evidence_hash) bump =
     finish_call
       (s\<lparr>next_dispute_id := sat_add (next_dispute_id s) 1,
          disputes := (disputes s)(next_dispute_id s \<mapsto>
            \<lparr>dp_receipt_id = receipt_id, dp_filer = signer, dp_reason_code = reason_code,
             dp_evidence_hash = evidence_hash, dp_status = 0\<rparr>)\<rparr>) signer bump"
| "apply_native_impl E s signer (ResolveDispute dispute_id resolution payouts_diff) bump =
     (case require_governance s signer of
        Inl e \<Rightarrow> (s, Inl e)
      | Inr _ \<Rightarrow>
          (case disputes s dispute_id of
             None \<Rightarrow> (s, Inl NotFound)
           | Some d \<Rightarrow>
               finish_call (s\<lparr>disputes := (disputes s)(dispute_id \<mapsto> d\<lparr>dp_status := resolution\<rparr>)\<rparr>)
                 signer bump))"
| "apply_native_impl E s signer (Stake amount) bump =
     (case accounts s signer of
        None \<Rightarrow> (s, Inl UnknownSigner)
      | Some acc \<Rightarrow>
          if acc_balance acc < amount then (s, Inl InsufficientBalance)
          else finish_call
            (s\<lparr>accounts := (accounts s)(signer \<mapsto> acc\<lparr>acc_balance := acc_balance acc - amount\<rparr>),
               stakes := add_amount (stakes s) signer amount\<rparr>) signer bump)"
| "apply_native_impl E s signer (Unstake amount) bump =
     (case stakes s signer of
        None \<Rightarrow> (s, Inl NotFound)
      | Some st \<Rightarrow>
          if st < amount then (s, Inl InsufficientBalance)
          else finish_call
            (s\<lparr>stakes := (stakes s)(signer \<mapsto> st - amount),
               accounts := credit (accounts s) signer amount\<rparr>) signer bump)"
| "apply_native_impl E s signer (Slash validator_id evidence_hash) bump =
     (case require_governance s signer of
        Inl e \<Rightarrow> (s, Inl e)
      | Inr _ \<Rightarrow> finish_call (s\<lparr>stakes := (stakes s)(validator_id := None)\<rparr>) signer bump)"
| "apply_native_impl E s signer (Delegate validator amount) bump =
     (case accounts s signer of
        None \<Rightarrow> (s, Inl UnknownSigner)
      | Some acc \<Rightarrow>
          if acc_balance acc < amount then (s, Inl InsufficientBalance)
          else finish_call
            (s\<lparr>accounts := (accounts s)(signer \<mapsto> acc\<lparr>acc_balance := acc_balance acc - amount\<rparr>),
               delegated := add_amount (delegated s) (signer, validator) amount\<rparr>) signer bump)"
| "apply_native_impl E s signer (WithdrawRewards validator) bump =
     finish_call (s\<lparr>accounts := credit (accounts s) signer 0\<rparr>) signer bump"
| "apply_native_impl E s signer (WalletTaskReceiptAnchorV1 commitment receipt_witness) bump =
     (case check_receipt_witness E commitment receipt_witness of
        Inl e \<Rightarrow> (s, Inl e)
      | Inr _ \<Rightarrow>
          if wallet_task_receipt_anchors s commitment \<noteq> None then (s, Inl DuplicateWalletAnchor)
          else finish_call
            (s\<lparr>wallet_task_receipt_anchors := (wallet_task_receipt_anchors s)(commitment \<mapsto> signer)\<rparr>)
            signer bump)"
| "apply_native_impl E s signer (ProofCommitmentV1 proof_hash) bump =
     (if proof_commitments s proof_hash \<noteq> None then (s, Inl DuplicateProofCommitment)
      else finish_call
        (s\<lparr>proof_commitments := (proof_commitments s)(proof_hash \<mapsto> signer)\<rparr>) signer bump)"
| "apply_native_impl E s signer (LifeCommandV1 command) bump = apply_life_command E s signer command bump"
| "apply_native_impl E s signer NoOp bump = finish_call s signer bump"
| "apply_native_impl E s signer (SetChainEconomics params) bump =
     (case require_governance s signer of
        Inl e \<Rightarrow> (s, Inl e)
      | Inr _ \<Rightarrow> finish_call (s\<lparr>chain_economics := params\<rparr>) signer bump)"

definition apply_native :: "ext \<Rightarrow> state \<Rightarrow> address \<Rightarrow> native_call \<Rightarrow> unit ledger" where
  "apply_native E s signer call = apply_native_impl E s signer call True"

definition apply_native_syscall :: "ext \<Rightarrow> state \<Rightarrow> address \<Rightarrow> native_call \<Rightarrow> unit ledger" where
  "apply_native_syscall E s signer call = apply_native_impl E s signer call False"

section \<open>Transactions\<close>

record evm_call_outcome =
  oc_gas_used :: u64
  oc_return_data :: bytes
  oc_logs :: "evm_log list"

text \<open>
  The methods of the trait \<open>EvmEngine\<close> that the ledger calls.  Its only implementation has no
  state of its own, so the engine is a pair of functions on the ledger state.
\<close>

record evm_engine =
  ev_execute_call :: "state \<Rightarrow> address \<Rightarrow> address \<Rightarrow> u128 \<Rightarrow> bytes \<Rightarrow> u64 \<Rightarrow> evm_call_outcome ledger"
  ev_execute_create :: "state \<Rightarrow> address \<Rightarrow> u128 \<Rightarrow> bytes \<Rightarrow> u64 \<Rightarrow> evm_call_outcome ledger"

definition on_success :: "unit ledger \<Rightarrow> tx_execution_scope \<Rightarrow> unit ledger" where
  "on_success res scope =
     (case res of
        (s, Inl e) \<Rightarrow> (s, Inl e)
      | (s, Inr u) \<Rightarrow> (bump_owned_object_versions_for_scope s scope, Inr u))"

definition apply_transaction :: "ext \<Rightarrow> state \<Rightarrow> transaction \<Rightarrow> unit ledger" where
  "apply_transaction E s tx =
     (case accounts s (tx_signer tx) of
        None \<Rightarrow> (s, Inl UnknownSigner)
      | Some account \<Rightarrow>
          if acc_nonce account \<noteq> tx_nonce tx then (s, Inl (BadNonce (acc_nonce account) (tx_nonce tx)))
          else on_success
            (case (tx_vm tx, tx_body tx) of
               (VmNative, Native call) \<Rightarrow> apply_native E s (tx_signer tx) call
             | (VmEvm, Transfer to amount) \<Rightarrow> apply_transfer s (tx_signer tx) to amount
             | _ \<Rightarrow> (s, Inl InvalidShape))
            (execution_scope tx))"

text \<open>The gas, the logs and the status of an EVM transaction, stored under its hash.\<close>

definition record_evm_outcome :: "ext \<Rightarrow> transaction \<Rightarrow> evm_call_outcome \<Rightarrow> state \<Rightarrow> state" where
  "record_evm_outcome E tx outcome s =
     (case ext_borsh_transaction E tx of
        None \<Rightarrow> s
      | Some raw \<Rightarrow>
          let h = ext_keccak256 E raw
          in s\<lparr>evm_tx_gas_used := (evm_tx_gas_used s)(h \<mapsto> oc_gas_used outcome),
               evm_tx_logs := (evm_tx_logs s)(h \<mapsto> oc_logs outcome),
               evm_tx_success := (evm_tx_success s)(h \<mapsto> True)\<rparr>)"

definition apply_transaction_with_evm :: "ext \<Rightarrow> evm_engine \<Rightarrow> state \<Rightarrow> transaction \<Rightarrow> unit ledger" where
  "apply_transaction_with_evm E evm s tx =
     (case accounts s (tx_signer tx) of
        None \<Rightarrow> (s, Inl UnknownSigner)
      | Some account \<Rightarrow>
          if acc_nonce account \<noteq> tx_nonce tx then (s, Inl (BadNonce (acc_nonce account) (tx_nonce tx)))
          else on_success
            (case (tx_vm tx, tx_body tx) of
               (VmNative, Native call) \<Rightarrow> apply_native E s (tx_signer tx) call
             | (VmEvm, Transfer to amount) \<Rightarrow> apply_transfer s (tx_signer tx) to amount
             | (VmEvm, EvmCall to value calldata gas_limit) \<Rightarrow>
                 if value \<noteq> 0 then (s, Inl InvalidShape)
                 else and_then (ev_execute_call evm s (tx_signer tx) to value calldata gas_limit)
                   (\<lambda>s1 outcome. bump_nonce (record_evm_outcome E tx outcome s1) (tx_signer tx))
             | (VmEvm, EvmCreate value init_code gas_limit) \<Rightarrow>
                 if value \<noteq> 0 then (s, Inl InvalidShape)
                 else and_then (ev_execute_create evm s (tx_signer tx) value init_code gas_limit)
                   (\<lambda>s1 outcome. (record_evm_outcome E tx outcome s1, Inr ()))
             | _ \<Rightarrow> (s, Inl InvalidShape))
            (execution_scope tx))"

section \<open>Blocks of transactions\<close>

text \<open>The loops of \<open>apply_block\<close> and \<open>apply_block_with_evm\<close>, with the gas summed so far.\<close>

fun apply_block_loop :: "ext \<Rightarrow> state \<Rightarrow> u64 \<Rightarrow> transaction list \<Rightarrow> u64 ledger" where
  "apply_block_loop E s acc [] = (s, Inr acc)"
| "apply_block_loop E s acc (tx # txs) =
     (case intrinsic_gas E tx of
        Inl e \<Rightarrow> (s, Inl e)
      | Inr g \<Rightarrow>
          (case checked_add acc g of
             None \<Rightarrow> (s, Inl GasOverflow)
           | Some acc' \<Rightarrow>
               and_then (apply_transaction E s tx) (\<lambda>s1 _. apply_block_loop E s1 acc' txs)))"

definition apply_block :: "ext \<Rightarrow> state \<Rightarrow> transaction list \<Rightarrow> u64 ledger" where
  "apply_block E s txs = apply_block_loop E s 0 txs"

definition gas_used_after_apply :: "ext \<Rightarrow> state \<Rightarrow> transaction \<Rightarrow> exec_error + u64" where
  "gas_used_after_apply E s tx =
     (case ext_borsh_transaction E tx of
        None \<Rightarrow> Inl InvalidShape
      | Some raw \<Rightarrow>
          (case evm_tx_gas_used s (ext_keccak256 E raw) of
             Some g \<Rightarrow> Inr g
           | None \<Rightarrow> intrinsic_gas E tx))"

fun apply_block_with_evm_loop ::
    "ext \<Rightarrow> evm_engine \<Rightarrow> state \<Rightarrow> u64 \<Rightarrow> transaction list \<Rightarrow> u64 ledger" where
  "apply_block_with_evm_loop E evm s acc [] = (s, Inr acc)"
| "apply_block_with_evm_loop E evm s acc (tx # txs) =
     and_then (apply_transaction_with_evm E evm s tx)
       (\<lambda>s1 _. case gas_used_after_apply E s1 tx of
          Inl e \<Rightarrow> (s1, Inl e)
        | Inr g \<Rightarrow>
            (case checked_add acc g of
               None \<Rightarrow> (s1, Inl GasOverflow)
             | Some acc' \<Rightarrow> apply_block_with_evm_loop E evm s1 acc' txs))"

definition apply_block_with_evm :: "ext \<Rightarrow> evm_engine \<Rightarrow> state \<Rightarrow> transaction list \<Rightarrow> u64 ledger" where
  "apply_block_with_evm E evm s txs = apply_block_with_evm_loop E evm s 0 txs"

end
