(* ===== verification/Ledger_Frames.thy ===== *)
theory Ledger_Frames
  imports Ledger_Ops
begin

text \<open>
  What the operations of the ledger leave alone.  For each group of operations an erasure
  blanks the fields the group may change, and a frame lemma says that the operation does not
  change the erased state; the later theories read off from it that every other field is
  kept.  The second part is the nonce discipline: the nonces of all accounts as one function,
  and what each operation does to it.
\<close>

section \<open>Frames\<close>

definition erase_rewards :: "state \<Rightarrow> state" where
  "erase_rewards s = s\<lparr>provider_rewards := [], provider_organic_income_wei := Map.empty,
     provider_subsidy_income_wei := Map.empty, emission_provider_pool_wei := 0,
     emission_provider_rollover_wei := 0\<rparr>"

lemma erase_rewards_updates [simp]:
  "erase_rewards (s\<lparr>provider_rewards := a\<rparr>) = erase_rewards s"
  "erase_rewards (s\<lparr>provider_organic_income_wei := b\<rparr>) = erase_rewards s"
  "erase_rewards (s\<lparr>provider_subsidy_income_wei := c\<rparr>) = erase_rewards s"
  "erase_rewards (s\<lparr>emission_provider_pool_wei := d\<rparr>) = erase_rewards s"
  "erase_rewards (s\<lparr>emission_provider_rollover_wei := e\<rparr>) = erase_rewards s"
  by (simp_all add: erase_rewards_def)

lemma provider_reward_loop_erase:
  "provider_reward_loop E b idx pc pt s rs = (s', r) \<Longrightarrow> erase_rewards s' = erase_rewards s"
proof (induction rs arbitrary: idx pc pt s)
  case (Cons receipt rest)
  then show ?case by (auto simp: Let_def split: option.splits if_splits dest!: Cons.IH)
qed simp

lemma distribute_erase:
  "distribute_provider_pool_for_receipts E s rs = (s', r) \<Longrightarrow> erase_rewards s' = erase_rewards s"
  by (auto simp: distribute_provider_pool_for_receipts_def Let_def split: if_splits
      dest!: provider_reward_loop_erase)

lemma erase_rewards_fields:
  assumes "erase_rewards s' = erase_rewards s"
  shows "accounts s' = accounts s" "stakes s' = stakes s" "delegated s' = delegated s"
    "life_provenance_bonds s' = life_provenance_bonds s" "batches s' = batches s"
    "claimed_payouts s' = claimed_payouts s" "receipts s' = receipts s"
    "owned_object_versions s' = owned_object_versions s" "agents s' = agents s"
    "protocol_minted_wei s' = protocol_minted_wei s" "governance s' = governance s"
    "life_payouts s' = life_payouts s" "chain_economics s' = chain_economics s"
  using arg_cong [OF assms, of accounts] arg_cong [OF assms, of stakes]
    arg_cong [OF assms, of delegated] arg_cong [OF assms, of life_provenance_bonds]
    arg_cong [OF assms, of batches] arg_cong [OF assms, of claimed_payouts]
    arg_cong [OF assms, of receipts] arg_cong [OF assms, of owned_object_versions]
    arg_cong [OF assms, of agents] arg_cong [OF assms, of protocol_minted_wei]
    arg_cong [OF assms, of governance] arg_cong [OF assms, of life_payouts]
    arg_cong [OF assms, of chain_economics]
  by (simp_all add: erase_rewards_def)

lemmas distribute_keeps = erase_rewards_fields [OF distribute_erase]

definition erase_life :: "state \<Rightarrow> state" where
  "erase_life s = s\<lparr>life_payouts := [], life_vesting := Map.empty,
     emission_intelligence_pool_wei := 0, life_feedback_artifacts := Map.empty,
     life_sealed_sales := Map.empty, life_commands := Map.empty, life_events := []\<rparr>"

lemma erase_life_updates [simp]:
  "erase_life (s\<lparr>life_payouts := a\<rparr>) = erase_life s"
  "erase_life (s\<lparr>life_vesting := b\<rparr>) = erase_life s"
  "erase_life (s\<lparr>emission_intelligence_pool_wei := c\<rparr>) = erase_life s"
  "erase_life (s\<lparr>life_feedback_artifacts := d\<rparr>) = erase_life s"
  "erase_life (s\<lparr>life_sealed_sales := e\<rparr>) = erase_life s"
  "erase_life (s\<lparr>life_commands := f\<rparr>) = erase_life s"
  "erase_life (s\<lparr>life_events := g\<rparr>) = erase_life s"
  by (simp_all add: erase_life_def)

lemma insert_life_payout_erase:
  "insert_life_payout E s c k b a e = (s', r) \<Longrightarrow> erase_life s' = erase_life s"
  by (auto simp: insert_life_payout_def Let_def split: option.splits)

lemma intelligence_payout_erase:
  "apply_intelligence_payout E s c = (s', r) \<Longrightarrow> erase_life s' = erase_life s"
  by (auto simp: apply_intelligence_payout_def Let_def and_then_def
      split: option.splits if_splits prod.splits sum.splits dest!: insert_life_payout_erase)

lemma erase_life_fields:
  assumes "erase_life s' = erase_life s"
  shows "accounts s' = accounts s" "stakes s' = stakes s" "delegated s' = delegated s"
    "life_provenance_bonds s' = life_provenance_bonds s" "batches s' = batches s"
    "claimed_payouts s' = claimed_payouts s" "receipts s' = receipts s"
    "owned_object_versions s' = owned_object_versions s" "agents s' = agents s"
    "protocol_minted_wei s' = protocol_minted_wei s" "governance s' = governance s"
  using arg_cong [OF assms, of accounts] arg_cong [OF assms, of stakes]
    arg_cong [OF assms, of delegated] arg_cong [OF assms, of life_provenance_bonds]
    arg_cong [OF assms, of batches] arg_cong [OF assms, of claimed_payouts]
    arg_cong [OF assms, of receipts] arg_cong [OF assms, of owned_object_versions]
    arg_cong [OF assms, of agents] arg_cong [OF assms, of protocol_minted_wei]
    arg_cong [OF assms, of governance]
  by (simp_all add: erase_life_def)

text \<open>A life command that is not a provenance bond changes only the life fields before the nonce.\<close>

lemma life_economics_erase:
  assumes "apply_life_command_economics E s signer c = (s', r)" "lc_kind c \<noteq> ProvenanceBond"
  shows "erase_life s' = erase_life s"
  using assms
  by (auto simp: apply_life_command_economics_def split: life_command_kind.splits if_splits
      dest: intelligence_payout_erase)

section \<open>Nonces\<close>

definition nonces :: "(address \<rightharpoonup> account) \<Rightarrow> address \<Rightarrow> u64" where
  "nonces accs a = (case accs a of Some acc \<Rightarrow> acc_nonce acc | None \<Rightarrow> 0)"

text \<open>The nonces after an operation: the signer's is one more if it is bumped and all goes well.\<close>

definition nonces_after :: "bool \<Rightarrow> address \<Rightarrow> (address \<Rightarrow> u64) \<Rightarrow> (address \<Rightarrow> u64)" where
  "nonces_after bumped signer n = (if bumped then n(signer := sat_add (n signer) 1) else n)"

lemma nonces_credit [simp]: "nonces (credit accs a v) = nonces accs"
  by (auto simp: nonces_def credit_def Let_def fun_eq_iff split: option.splits)

lemma nonces_set_balance [simp]:
  "accs a = Some acc \<Longrightarrow> nonces (accs(a \<mapsto> acc\<lparr>acc_balance := v\<rparr>)) = nonces accs"
  by (auto simp: nonces_def fun_eq_iff)

lemma nonces_after_simps [simp]:
  "nonces_after False signer n = n"
  "nonces_after True signer n = n(signer := sat_add (n signer) 1)"
  by (simp_all add: nonces_after_def)

lemma bump_nonce_nonces:
  "bump_nonce s signer = (s', r) \<Longrightarrow>
    nonces (accounts s') = nonces_after (is_ok r) signer (nonces (accounts s))"
  by (auto simp: bump_nonce_def nonces_def nonces_after_def fun_eq_iff split: option.splits)

lemma finish_call_nonces:
  "finish_call s signer bump = (s', r) \<Longrightarrow>
    nonces (accounts s') = nonces_after (bump \<and> is_ok r) signer (nonces (accounts s))"
  by (auto simp: finish_call_def bump_nonce_nonces split: if_splits)

lemma settle_batch_nonces:
  assumes "apply_settle_batch E s signer p bump = (s', r)"
  shows "nonces (accounts s') = nonces_after (bump \<and> is_ok r) signer (nonces (accounts s))"
  using assms
  by (auto simp: apply_settle_batch_def check_operator_sig_def Let_def and_then_def distribute_keeps
      split: option.splits if_splits sum.splits prod.splits dest!: finish_call_nonces)

lemma claim_payout_nonces:
  assumes "apply_claim_payout E s signer b a v i path bump = (s', r)"
  shows "nonces (accounts s') = nonces_after (bump \<and> is_ok r) signer (nonces (accounts s))"
  using assms
  by (auto simp: apply_claim_payout_def Let_def split: option.splits if_splits dest!: finish_call_nonces)

lemma life_economics_nonces:
  assumes "apply_life_command_economics E s signer c = (s', r)"
  shows "nonces (accounts s') = nonces (accounts s)"
proof (cases "lc_kind c = ProvenanceBond")
  case True
  with assms show ?thesis
    by (auto simp: apply_life_command_economics_def apply_provenance_bond_def Let_def
        split: option.splits if_splits)
next
  case False
  then show ?thesis using erase_life_fields(1) [OF life_economics_erase [OF assms]] by simp
qed

lemma life_command_nonces:
  assumes "apply_life_command E s signer c bump = (s', r)"
  shows "nonces (accounts s') = nonces_after (bump \<and> is_ok r) signer (nonces (accounts s))"
  using assms
  by (auto simp: apply_life_command_def require_governance_def Let_def and_then_def life_economics_nonces
      split: option.splits if_splits sum.splits prod.splits dest!: finish_call_nonces)

lemma native_nonces:
  assumes "apply_native_impl E s signer call bump = (s', r)"
  shows "nonces (accounts s') = nonces_after (bump \<and> is_ok r) signer (nonces (accounts s))"
  using assms
  by (cases call)
    (auto simp: Let_def and_then_def distribute_keeps settle_batch_nonces claim_payout_nonces
      life_command_nonces require_governance_def check_receipt_witness_def
      split: option.splits if_splits sum.splits prod.splits dest!: finish_call_nonces)

lemma bump_versions_keeps [simp]:
  "accounts (bump_owned_object_versions_for_scope s scope) = accounts s"
  "stakes (bump_owned_object_versions_for_scope s scope) = stakes s"
  "delegated (bump_owned_object_versions_for_scope s scope) = delegated s"
  "life_provenance_bonds (bump_owned_object_versions_for_scope s scope) = life_provenance_bonds s"
  "batches (bump_owned_object_versions_for_scope s scope) = batches s"
  "claimed_payouts (bump_owned_object_versions_for_scope s scope) = claimed_payouts s"
  "receipts (bump_owned_object_versions_for_scope s scope) = receipts s"
  "protocol_minted_wei (bump_owned_object_versions_for_scope s scope) = protocol_minted_wei s"
  "governance (bump_owned_object_versions_for_scope s scope) = governance s"
  by (simp_all add: bump_owned_object_versions_for_scope_def split: tx_execution_scope.splits)

lemma transfer_nonces:
  "apply_transfer s from to v = (s', r) \<Longrightarrow>
    nonces (accounts s') = nonces_after (is_ok r) from (nonces (accounts s))"
  by (auto simp: apply_transfer_def Let_def split: option.splits if_splits dest!: bump_nonce_nonces)

lemma on_success_iff:
  "on_success res scope = (s', r) \<longleftrightarrow>
    (\<exists>s1. res = (s1, r) \<and> s' = (if is_ok r then bump_owned_object_versions_for_scope s1 scope else s1))"
  by (auto simp: on_success_def split: prod.splits sum.splits)

text \<open>A transaction bumps the nonce of its signer exactly when it succeeds, and no other nonce.\<close>

lemma transaction_nonces:
  assumes "apply_transaction E s tx = (s', r)"
  shows "nonces (accounts s') = nonces_after (is_ok r) (tx_signer tx) (nonces (accounts s))"
  using assms
  by (auto simp: apply_transaction_def on_success_iff apply_native_def native_nonces transfer_nonces
      split: option.splits if_splits vm_kind.splits tx_body.splits)

lemma transaction_ok_nonce:
  assumes "apply_transaction E s tx = (s', Inr u)"
  shows "\<exists>acc. accounts s (tx_signer tx) = Some acc \<and> acc_nonce acc = tx_nonce tx"
  using assms by (auto simp: apply_transaction_def split: option.splits if_splits)

end
