(* ===== verification/Ledger_Funds.thy ===== *)
theory Ledger_Funds
  imports Ledger_Frames
begin

text \<open>
  Conservation of value.  The funds of a state are the balances, the stakes, the delegated
  amounts and the provenance bonds.  Every successful transaction keeps them, with three
  exceptions that are stated exactly: a settled batch moves its total out of the operator's
  balance, a claimed payout puts its amount into a balance, and slashing removes a stake.
  A transaction that fails keeps them too, except a settlement that fails after the debit of
  its operator: the code debits first, then checks the signature and shares out the pool, and
  takes nothing back.
  The additions of the code wrap, so the funds have to fit \<open>u128\<close>; then none of them does.
\<close>

section \<open>Balances\<close>

abbreviation balances :: "(address \<rightharpoonup> account) \<Rightarrow> nat" where
  "balances accs \<equiv> map_total (\<lambda>acc. unat (acc_balance acc)) accs"

lemma balances_credit:
  assumes "finite (dom accs)" and "balances accs + unat v < 2 ^ 128"
  shows "balances (credit accs a v) = balances accs + unat v"
proof -
  let ?old = "unwrap_or (accs a) \<lparr>acc_nonce = 0, acc_balance = 0\<rparr>"
  have old: "old_value (\<lambda>acc. unat (acc_balance acc)) (accs a) = unat (acc_balance ?old)"
    by (cases "accs a") simp_all
  then have "unat (acc_balance ?old) + unat v < 2 ^ LENGTH(128)"
    using map_total_ge [OF assms(1), of "\<lambda>acc. unat (acc_balance acc)" a] assms(2) by simp
  then have "unat (acc_balance ?old + v) = unat (acc_balance ?old) + unat v"
    by (rule unat_add_no_wrap)
  then show ?thesis
    using map_total_update [OF assms(1), of "\<lambda>acc. unat (acc_balance acc)" a
        "?old\<lparr>acc_balance := acc_balance ?old + v\<rparr>"] old
    by (simp add: credit_def Let_def)
qed

lemma balances_debit:
  assumes "finite (dom accs)" and "accs a = Some acc" and "\<not> acc_balance acc < v"
  shows "balances (accs(a \<mapsto> acc\<lparr>acc_balance := acc_balance acc - v\<rparr>)) + unat v = balances accs"
proof -
  have "unat (acc_balance acc - v) = unat (acc_balance acc) - unat v" "unat v \<le> unat (acc_balance acc)"
    using assms(3) by (simp_all add: unat_sub word_le_nat_alt not_less)
  then show ?thesis
    using map_total_update [OF assms(1), of "\<lambda>acc. unat (acc_balance acc)" a
        "acc\<lparr>acc_balance := acc_balance acc - v\<rparr>"] assms(2) by simp
qed

lemma balances_set_nonce:
  assumes "finite (dom accs)" and "accs a = Some acc"
  shows "balances (accs(a \<mapsto> acc\<lparr>acc_nonce := n\<rparr>)) = balances accs"
  using map_total_update [OF assms(1), of "\<lambda>acc. unat (acc_balance acc)" a "acc\<lparr>acc_nonce := n\<rparr>"]
    assms(2) by simp

lemma total_add_amount:
  assumes "finite (dom m)" and "map_total unat m + unat v < 2 ^ 128"
  shows "map_total unat (add_amount m k v) = map_total unat m + unat v"
proof -
  have old: "old_value unat (m k) = unat (unwrap_or (m k) 0)" by (cases "m k") simp_all
  then have "unat (unwrap_or (m k) 0) + unat v < 2 ^ LENGTH(128)"
    using map_total_ge [OF assms(1), of unat k] assms(2) by simp
  then have "unat (unwrap_or (m k) 0 + v) = unat (unwrap_or (m k) 0) + unat v"
    by (rule unat_add_no_wrap)
  then show ?thesis
    using map_total_update [OF assms(1), of unat k "unwrap_or (m k) 0 + v"] old
    by (simp add: add_amount_def)
qed

lemma finite_dom_credit [simp]: "finite (dom (credit accs a v)) \<longleftrightarrow> finite (dom accs)"
  by (simp add: credit_def Let_def)

lemma finite_dom_add_amount [simp]: "finite (dom (add_amount m k v)) \<longleftrightarrow> finite (dom m)"
  by (simp add: add_amount_def)

section \<open>Funds\<close>

definition finite_ledger :: "state \<Rightarrow> bool" where
  "finite_ledger s \<longleftrightarrow> finite (dom (accounts s)) \<and> finite (dom (stakes s))
     \<and> finite (dom (delegated s)) \<and> finite (dom (life_provenance_bonds s))"

definition funds :: "state \<Rightarrow> nat" where
  "funds s = balances (accounts s) + map_total unat (stakes s) + map_total unat (delegated s)
     + map_total (\<lambda>b. unat (pb_bond_wei b)) (life_provenance_bonds s)"

fun call_inflow :: "native_call \<Rightarrow> nat" where
  "call_inflow (ClaimPayout _ _ amount _ _) = unat amount"
| "call_inflow _ = 0"

fun call_outflow :: "state \<Rightarrow> native_call \<Rightarrow> nat" where
  "call_outflow s (SettleBatch p) = unat (word_sum (map pe_amount (sb_payout_entries p)))"
| "call_outflow s (Slash validator_id _) = old_value unat (stakes s validator_id)"
| "call_outflow s _ = 0"

lemma bump_nonce_funds:
  assumes "bump_nonce s signer = (s', r)" and "finite_ledger s"
  shows "finite_ledger s' \<and> funds s' = funds s"
  using assms
  by (auto simp: bump_nonce_def finite_ledger_def funds_def balances_set_nonce split: option.splits)

lemma finish_call_funds:
  assumes "finish_call s signer bump = (s', r)" and "finite_ledger s"
  shows "finite_ledger s' \<and> funds s' = funds s"
  using assms bump_nonce_funds by (auto simp: finish_call_def split: if_splits)

text \<open>What a call does to the funds: the contract of every native operation.\<close>

definition moves_funds :: "state \<Rightarrow> unit ledger \<Rightarrow> nat \<Rightarrow> nat \<Rightarrow> bool" where
  "moves_funds s res inflow outflow \<longleftrightarrow>
     (case res of (s', r) \<Rightarrow> finite_ledger s' \<and>
        (funds s' + outflow = funds s + inflow \<or> \<not> is_ok r \<and> funds s' = funds s))"

lemma moves_funds_error [simp]:
  "moves_funds s (s', Inl e) i out
     \<longleftrightarrow> finite_ledger s' \<and> (funds s' + out = funds s + i \<or> funds s' = funds s)"
  by (simp add: moves_funds_def)

lemma moves_funds_finish:
  assumes "finite_ledger s1" and "funds s1 + out = funds s + i"
  shows "moves_funds s (finish_call s1 signer bump) i out"
proof -
  obtain s' r where fc: "finish_call s1 signer bump = (s', r)" by fastforce
  then show ?thesis using finish_call_funds [OF fc assms(1)] assms(2) by (simp add: moves_funds_def)
qed

lemma moves_funds_bump:
  assumes "finite_ledger s1" and "funds s1 + out = funds s + i"
  shows "moves_funds s (bump_nonce s1 signer) i out"
  using moves_funds_finish [OF assms, of signer True] by (simp add: finish_call_def)

lemma funds_fields:
  assumes "accounts s' = accounts s" "stakes s' = stakes s" "delegated s' = delegated s"
    "life_provenance_bonds s' = life_provenance_bonds s"
  shows "funds s' = funds s" "finite_ledger s' = finite_ledger s"
  using assms by (simp_all add: funds_def finite_ledger_def)

lemma transfer_funds:
  assumes "finite_ledger s" and "funds s < 2 ^ 128"
  shows "moves_funds s (apply_transfer s from to v) 0 0"
proof (cases "accounts s from")
  case (Some acc)
  show ?thesis
  proof (cases "acc_balance acc < v")
    case False
    let ?d = "(accounts s)(from \<mapsto> acc\<lparr>acc_balance := acc_balance acc - v\<rparr>)"
    have fin: "finite (dom (accounts s))" using assms(1) by (simp add: finite_ledger_def)
    have d: "balances ?d + unat v = balances (accounts s)"
      by (rule balances_debit [OF fin Some False])
    have "balances ?d + unat v < 2 ^ 128" using d assms(2) by (simp add: funds_def)
    then have "balances (credit ?d to v) = balances (accounts s)"
      using balances_credit [of ?d v to] fin d by simp
    then have "moves_funds s (bump_nonce (s\<lparr>accounts := credit ?d to v\<rparr>) from) 0 0"
      using assms(1) by (intro moves_funds_bump) (simp_all add: finite_ledger_def funds_def)
    then show ?thesis using Some False by (simp add: apply_transfer_def Let_def)
  qed (use Some assms(1) in \<open>simp add: apply_transfer_def\<close>)
qed (use assms(1) in \<open>simp add: apply_transfer_def\<close>)

section \<open>Native calls\<close>

lemma stake_funds:
  assumes "finite_ledger s" and "funds s < 2 ^ 128"
  shows "moves_funds s (apply_native_impl E s signer (Stake v) bump) 0 0"
proof (cases "accounts s signer")
  case (Some acc)
  show ?thesis
  proof (cases "acc_balance acc < v")
    case False
    let ?d = "(accounts s)(signer \<mapsto> acc\<lparr>acc_balance := acc_balance acc - v\<rparr>)"
    have fin: "finite (dom (accounts s))" "finite (dom (stakes s))"
      using assms(1) by (simp_all add: finite_ledger_def)
    have d: "balances ?d + unat v = balances (accounts s)"
      by (rule balances_debit [OF fin(1) Some False])
    have "map_total unat (add_amount (stakes s) signer v) = map_total unat (stakes s) + unat v"
      using d assms(2) by (intro total_add_amount [OF fin(2)]) (simp add: funds_def)
    then have "moves_funds s (finish_call (s\<lparr>accounts := ?d,
        stakes := add_amount (stakes s) signer v\<rparr>) signer bump) 0 0"
      using assms(1) d by (intro moves_funds_finish) (simp_all add: finite_ledger_def funds_def)
    then show ?thesis using Some False by simp
  qed (use Some assms(1) in simp)
qed (use assms(1) in simp)

lemma delegate_funds:
  assumes "finite_ledger s" and "funds s < 2 ^ 128"
  shows "moves_funds s (apply_native_impl E s signer (Delegate validator v) bump) 0 0"
proof (cases "accounts s signer")
  case (Some acc)
  show ?thesis
  proof (cases "acc_balance acc < v")
    case False
    let ?d = "(accounts s)(signer \<mapsto> acc\<lparr>acc_balance := acc_balance acc - v\<rparr>)"
    have fin: "finite (dom (accounts s))" "finite (dom (delegated s))"
      using assms(1) by (simp_all add: finite_ledger_def)
    have d: "balances ?d + unat v = balances (accounts s)"
      by (rule balances_debit [OF fin(1) Some False])
    have "map_total unat (add_amount (delegated s) (signer, validator) v)
        = map_total unat (delegated s) + unat v"
      using d assms(2) by (intro total_add_amount [OF fin(2)]) (simp add: funds_def)
    then have "moves_funds s (finish_call (s\<lparr>accounts := ?d,
        delegated := add_amount (delegated s) (signer, validator) v\<rparr>) signer bump) 0 0"
      using assms(1) d by (intro moves_funds_finish) (simp_all add: finite_ledger_def funds_def)
    then show ?thesis using Some False by simp
  qed (use Some assms(1) in simp)
qed (use assms(1) in simp)

lemma unstake_funds:
  assumes "finite_ledger s" and "funds s < 2 ^ 128"
  shows "moves_funds s (apply_native_impl E s signer (Unstake v) bump) 0 0"
proof (cases "stakes s signer")
  case (Some st)
  show ?thesis
  proof (cases "st < v")
    case False
    have fin: "finite (dom (accounts s))" "finite (dom (stakes s))"
      using assms(1) by (simp_all add: finite_ledger_def)
    have "unat (st - v) = unat st - unat v" "unat v \<le> unat st"
      using False by (simp_all add: unat_sub word_le_nat_alt not_less)
    then have d: "map_total unat ((stakes s)(signer \<mapsto> st - v)) + unat v = map_total unat (stakes s)"
      using map_total_update [OF fin(2), of unat signer "st - v"] Some by simp
    have "balances (credit (accounts s) signer v) = balances (accounts s) + unat v"
      using d assms(2) by (intro balances_credit [OF fin(1)]) (simp add: funds_def)
    then have "moves_funds s (finish_call (s\<lparr>stakes := (stakes s)(signer \<mapsto> st - v),
        accounts := credit (accounts s) signer v\<rparr>) signer bump) 0 0"
      using assms(1) d by (intro moves_funds_finish) (simp_all add: finite_ledger_def funds_def)
    then show ?thesis using Some False by simp
  qed (use Some assms(1) in simp)
qed (use assms(1) in simp)

lemma slash_funds:
  assumes "finite_ledger s"
  shows "moves_funds s (apply_native_impl E s signer (Slash v h) bump) 0 (old_value unat (stakes s v))"
proof -
  have "map_total unat ((stakes s)(v := None)) + old_value unat (stakes s v) = map_total unat (stakes s)"
    using assms by (intro map_total_delete) (simp add: finite_ledger_def)
  then have "moves_funds s (finish_call (s\<lparr>stakes := (stakes s)(v := None)\<rparr>) signer bump) 0
      (old_value unat (stakes s v))"
    using assms by (intro moves_funds_finish) (simp_all add: finite_ledger_def funds_def)
  then show ?thesis using assms by (simp split: sum.splits)
qed

lemma claim_funds:
  assumes "finite_ledger s" and "funds s + unat v < 2 ^ 128"
  shows "moves_funds s (apply_claim_payout E s signer b a v i path bump) (unat v) 0"
proof -
  have "balances (credit (accounts s) a v) = balances (accounts s) + unat v"
    using assms by (intro balances_credit) (simp_all add: finite_ledger_def funds_def)
  then have "moves_funds s (finish_call (s\<lparr>claimed_payouts := insert (b, i) (claimed_payouts s),
      accounts := credit (accounts s) a v\<rparr>) signer bump) (unat v) 0"
    using assms by (intro moves_funds_finish) (simp_all add: finite_ledger_def funds_def)
  then show ?thesis
    using assms(1) by (simp add: apply_claim_payout_def Let_def split: option.splits)
qed

lemma settle_batch_funds:
  assumes "finite_ledger s"
  shows "moves_funds s (apply_settle_batch E s signer p bump) 0
    (unat (word_sum (map pe_amount (sb_payout_entries p))))"
proof (cases "accounts s (sb_operator p)")
  case (Some acc)
  let ?v = "word_sum (map pe_amount (sb_payout_entries p))"
  let ?d = "(accounts s)(sb_operator p \<mapsto> acc\<lparr>acc_balance := acc_balance acc - ?v\<rparr>)"
  show ?thesis
  proof (cases "acc_balance acc < ?v")
    case False
    have fin: "finite (dom (accounts s))" using assms by (simp add: finite_ledger_def)
    have d: "balances ?d + unat ?v = balances (accounts s)" by (rule balances_debit [OF fin Some False])
    have fin1: "finite_ledger (s\<lparr>accounts := ?d\<rparr>)" "funds (s\<lparr>accounts := ?d\<rparr>) + unat ?v = funds s"
      using assms d by (simp_all add: finite_ledger_def funds_def)
    have "moves_funds s (and_then (distribute_provider_pool_for_receipts E
        (s\<lparr>accounts := ?d, batches := bs, receipts := rs\<rparr>) (sb_receipts p))
        (\<lambda>s3 _. finish_call s3 signer bump)) 0 (unat ?v)" for bs rs
    proof -
      obtain s3 r where dist: "distribute_provider_pool_for_receipts E
          (s\<lparr>accounts := ?d, batches := bs, receipts := rs\<rparr>) (sb_receipts p) = (s3, r)" by fastforce
      note keeps = distribute_keeps [OF dist]
      have "finite_ledger s3" "funds s3 + unat ?v = funds s"
        using fin1(1) d keeps by (simp_all add: finite_ledger_def funds_def)
      then show ?thesis using dist by (cases r) (simp_all add: moves_funds_finish)
    qed
    then show ?thesis using Some False assms fin1
      by (cases "signer = sb_operator p") (simp_all add: apply_settle_batch_def Let_def split: sum.splits)
  qed (use Some assms in \<open>simp add: apply_settle_batch_def Let_def\<close>)
qed (use assms in \<open>simp add: apply_settle_batch_def Let_def\<close>)

lemma provenance_bond_funds:
  assumes "finite_ledger s"
  shows "moves_funds s (apply_provenance_bond s signer c) 0 0"
proof (cases "accounts s signer")
  case (Some acc)
  let ?v = "lc_amount_micro_credits c"
  let ?d = "(accounts s)(signer \<mapsto> acc\<lparr>acc_balance := acc_balance acc - ?v\<rparr>)"
  let ?k = "lc_soul_id_hash c"
  have fin: "finite (dom (accounts s))" "finite (dom (life_provenance_bonds s))"
    using assms by (simp_all add: finite_ledger_def)
  show ?thesis
  proof (cases "acc_balance acc < ?v \<or> life_provenance_bonds s ?k \<noteq> None")
    case False
    have d: "balances ?d + unat ?v = balances (accounts s)"
      using balances_debit [OF fin(1) Some] False by blast
    have b: "map_total (\<lambda>b. unat (pb_bond_wei b)) ((life_provenance_bonds s)(?k \<mapsto> rec))
        = map_total (\<lambda>b. unat (pb_bond_wei b)) (life_provenance_bonds s) + unat (pb_bond_wei rec)" for rec
      using map_total_update [OF fin(2), of "\<lambda>b. unat (pb_bond_wei b)" ?k rec] False by simp
    show ?thesis using Some False assms d b
      by (simp add: apply_provenance_bond_def Let_def moves_funds_def finite_ledger_def funds_def)
  qed (use Some assms in \<open>auto simp: apply_provenance_bond_def Let_def\<close>)
qed (use assms in \<open>simp add: apply_provenance_bond_def Let_def\<close>)

lemma life_economics_funds:
  assumes "finite_ledger s"
  shows "moves_funds s (apply_life_command_economics E s signer c) 0 0"
proof (cases "lc_kind c = ProvenanceBond")
  case True
  then show ?thesis using provenance_bond_funds [OF assms] by (simp add: apply_life_command_economics_def)
next
  case False
  obtain s' r where res: "apply_life_command_economics E s signer c = (s', r)" by fastforce
  show ?thesis
    using funds_fields [OF erase_life_fields(1-4) [OF life_economics_erase [OF res False]]] res assms
    by (simp add: moves_funds_def)
qed

lemma life_command_funds:
  assumes "finite_ledger s"
  shows "moves_funds s (apply_life_command E s signer c bump) 0 0"
proof -
  obtain s1 r where res: "apply_life_command_economics E s signer c = (s1, r)" by fastforce
  have eco: "finite_ledger s1" "funds s1 = funds s"
    using life_economics_funds [OF assms, of E signer c] res by (auto simp: moves_funds_def)
  show ?thesis
  proof (cases r)
    case (Inl e)
    then show ?thesis using res eco assms
      by (simp add: apply_life_command_def split: sum.splits)
  next
    case (Inr u)
    have fin: "moves_funds s (finish_call (s1\<lparr>life_commands := cs, life_events := es\<rparr>) signer bump) 0 0" for cs es
      using eco Inr by (intro moves_funds_finish) (simp_all add: finite_ledger_def funds_def)
    show ?thesis using res eco assms Inr fin
      by (simp add: apply_life_command_def Let_def split: sum.splits option.splits)
  qed
qed

lemma settle_receipt_funds:
  assumes "finite_ledger s"
  shows "moves_funds s (apply_native_impl E s signer (SettleReceipt rc) bump) 0 0"
proof -
  obtain s1 r where dist: "distribute_provider_pool_for_receipts E
      (s\<lparr>receipts := (receipts s)(rc_receipt_id rc \<mapsto> rc)\<rparr>) [rc] = (s1, r)" by fastforce
  have "finite_ledger s1" "funds s1 = funds s"
    using distribute_keeps [OF dist] assms by (simp_all add: finite_ledger_def funds_def)
  then show ?thesis using dist assms by (cases r) (simp_all add: moves_funds_finish)
qed

text \<open>Every native call obeys its contract; the calls not above touch none of the four maps.\<close>

lemma native_funds:
  assumes "finite_ledger s" and "funds s + call_inflow call < 2 ^ 128"
  shows "moves_funds s (apply_native_impl E s signer call bump) (call_inflow call) (call_outflow s call)"
proof -
  have bal0: "balances (credit (accounts s) signer 0) = balances (accounts s)"
    using assms balances_credit [of "accounts s" 0 signer] by (simp add: finite_ledger_def funds_def)
  have fin: "moves_funds s (finish_call s1 signer bump) 0 0"
    if "accounts s1 = accounts s" "stakes s1 = stakes s" "delegated s1 = delegated s"
      "life_provenance_bonds s1 = life_provenance_bonds s" for s1
    using funds_fields [OF that] assms(1) by (intro moves_funds_finish) simp_all
  have withdraw: "moves_funds s (finish_call (s\<lparr>accounts := credit (accounts s) signer 0\<rparr>) signer bump) 0 0"
    using assms(1) bal0 by (intro moves_funds_finish) (simp_all add: finite_ledger_def funds_def)
  show ?thesis
  proof (cases call)
    case (RegisterAgent op pk k uri)
    then show ?thesis using assms fin by (simp add: Let_def finite_ledger_def funds_def)
  next
    case (WithdrawRewards v)
    then show ?thesis using withdraw by simp
  qed (use assms fin stake_funds unstake_funds delegate_funds slash_funds claim_funds settle_batch_funds
      life_command_funds settle_receipt_funds in \<open>auto split: sum.splits option.splits\<close>)
qed

section \<open>Transactions\<close>

definition tx_inflow :: "transaction \<Rightarrow> nat" where
  "tx_inflow tx = (case tx_body tx of Native call \<Rightarrow> call_inflow call | _ \<Rightarrow> 0)"

definition tx_outflow :: "state \<Rightarrow> transaction \<Rightarrow> nat" where
  "tx_outflow s tx = (case tx_body tx of Native call \<Rightarrow> call_outflow s call | _ \<Rightarrow> 0)"

lemma moves_funds_on_success:
  assumes "moves_funds s res i out"
  shows "moves_funds s (on_success res scope) i out"
  using assms
  by (auto simp: moves_funds_def on_success_def funds_def finite_ledger_def split: prod.splits sum.splits)

lemma transaction_funds:
  assumes "finite_ledger s" and "funds s + tx_inflow tx < 2 ^ 128"
  shows "moves_funds s (apply_transaction E s tx) (tx_inflow tx) (tx_outflow s tx)"
  using assms native_funds [OF assms(1), of _ E "tx_signer tx" True] transfer_funds [OF assms(1)]
  by (auto simp: apply_transaction_def apply_native_def tx_inflow_def tx_outflow_def
      intro!: moves_funds_on_success split: option.splits vm_kind.splits tx_body.splits)

section \<open>Properties\<close>

text \<open>
  Concrete external functions for the witnesses: a polynomial hash and fixed-width encoders.
\<close>

definition sample_keccak :: "bytes \<Rightarrow> hash256" where
  "sample_keccak bs = foldl (\<lambda>h b. (h * 31 + ucast b + 1) mod 65521) 7 bs"

definition sample_ext :: ext where
  "sample_ext = \<lparr>
     ext_keccak256 = sample_keccak,
     ext_verify_message = (\<lambda>_ _ _. True),
     ext_borsh_receipt = (\<lambda>r. be_bytes 32 (rc_receipt_id r) @ be_bytes 16 (rc_payout_amount r)),
     ext_borsh_payout_entry =
       (\<lambda>e. be_bytes 4 (pe_index e) @ be_bytes 20 (pe_account e) @ be_bytes 16 (pe_amount e)),
     ext_borsh_native_call = (\<lambda>_. Some [0]),
     ext_borsh_transaction = (\<lambda>tx. Some (be_bytes 20 (tx_signer tx) @ be_bytes 8 (tx_nonce tx))),
     ext_borsh_provider_reward = (\<lambda>n rid w c t b. Some (be_bytes 8 n)),
     ext_borsh_life_event = (\<lambda>n c. Some (be_bytes 8 n)),
     ext_borsh_life_payout = (\<lambda>cid n k h a e. Some (be_bytes 8 n)),
     ext_wallet_feature = False,
     ext_task_receipt_reencode = (\<lambda>_. None)\<rparr>"

definition sample_state :: state where
  "sample_state = default_state\<lparr>accounts :=
     [1 \<mapsto> \<lparr>acc_nonce = 0, acc_balance = 100\<rparr>, 2 \<mapsto> \<lparr>acc_nonce = 7, acc_balance = 5\<rparr>]\<rparr>"

definition sample_transfer :: transaction where
  "sample_transfer = \<lparr>tx_signer = 1, tx_nonce = 0, tx_vm = VmEvm, tx_body = Transfer 3 40\<rparr>"

lemma sample_state_funds: "finite_ledger sample_state" "funds sample_state = 105"
proof -
  show "finite_ledger sample_state"
    by (simp add: finite_ledger_def sample_state_def default_state_def)
  show "funds sample_state = 105"
    by (simp add: funds_def sample_state_def default_state_def map_total_def insert_commute)
qed

text \<open>
  The calls that move value in or out of the ledger, other than a settlement, either succeed
  or change nothing: the nonce bump at their end finds the account of the signer.
\<close>

lemma finish_call_ok:
  assumes "accounts s signer \<noteq> None"
  shows "is_ok (snd (finish_call s signer bump))"
  using assms by (auto simp: finish_call_def bump_nonce_def)

lemma credit_keeps_account: "accs x \<noteq> None \<Longrightarrow> credit accs a v x \<noteq> None"
  by (simp add: credit_def Let_def)

lemma claim_error_unchanged:
  assumes "apply_claim_payout E s signer b a v i path bump = (s', Inl e)" and "accounts s signer \<noteq> None"
  shows "s' = s"
proof -
  have "is_ok (snd (finish_call (s\<lparr>claimed_payouts := cs, accounts := credit (accounts s) a v\<rparr>) signer bump))" for cs
    by (rule finish_call_ok) (use assms(2) in \<open>simp add: credit_keeps_account\<close>)
  from this [of "insert (b, i) (claimed_payouts s)"] show ?thesis
    using assms(1) by (auto simp: apply_claim_payout_def Let_def split: if_splits option.splits)
qed

lemma slash_error_unchanged:
  assumes "apply_native_impl E s signer (Slash v h) bump = (s', Inl e)" and "accounts s signer \<noteq> None"
  shows "s' = s"
  using assms finish_call_ok [of "s\<lparr>stakes := (stakes s)(v := None)\<rparr>" signer bump]
  by (auto split: sum.splits)

lemma native_error_keeps_funds:
  assumes "apply_native_impl E s signer call bump = (s', Inl e)" and "finite_ledger s"
    and "funds s + call_inflow call < 2 ^ 128" and "accounts s signer \<noteq> None"
    and "\<And>p. call \<noteq> SettleBatch p"
  shows "funds s' = funds s"
proof (cases "(\<exists>b a v i path. call = ClaimPayout b a v i path) \<or> (\<exists>v h. call = Slash v h)")
  case True
  then show ?thesis
    using assms(1,4) claim_error_unchanged slash_error_unchanged by fastforce
next
  case False
  then have "call_inflow call = 0" "call_outflow s call = 0" using assms(5) by (cases call; simp)+
  then show ?thesis using native_funds [OF assms(2,3), of E signer bump] assms(1) by simp
qed

lemma transaction_error_keeps_funds:
  assumes "apply_transaction E s tx = (s', Inl e)" and "finite_ledger s"
    and "funds s + tx_inflow tx < 2 ^ 128" and "\<And>p. tx_body tx \<noteq> Native (SettleBatch p)"
  shows "funds s' = funds s"
proof -
  have native: "funds s1 = funds s"
    if "apply_native_impl E s (tx_signer tx) call True = (s1, Inl e1)" "tx_body tx = Native call"
      "accounts s (tx_signer tx) = Some acc" for call s1 e1 acc
    using native_error_keeps_funds [OF that(1) assms(2)] assms(3,4) that
    by (simp add: tx_inflow_def)
  have transfer: "funds s1 = funds s"
    if "apply_transfer s (tx_signer tx) to v = (s1, Inl e1)" for to v s1 e1
    using transfer_funds [OF assms(2), of "tx_signer tx" to v] assms(3) that by simp
  show ?thesis
    using assms(1)
    by (auto simp: apply_transaction_def apply_native_def on_success_def
        split: option.splits if_splits vm_kind.splits tx_body.splits prod.splits sum.splits
        dest: native transfer)
qed

text \<open>
  A settlement with a signature that does not verify: the operator is the agent 9, and the
  signature verifier of this instance refuses everything.
\<close>

definition refusing_ext :: ext where
  "refusing_ext = sample_ext\<lparr>ext_verify_message := (\<lambda>_ _ _. False)\<rparr>"

definition operator_state :: state where
  "operator_state = sample_state\<lparr>address_to_agent := [1 \<mapsto> 9],
     agents := [9 \<mapsto> \<lparr>ag_agent_id = 9, ag_address = 1, ag_operator = 1, ag_pubkey = 0, ag_kind = 0,
       ag_metadata_uri = [], ag_reputation_score = 0, ag_completed_jobs = 0, ag_status = 0,
       ag_registered_at = 0, ag_schema_version = 0\<rparr>]\<rparr>"

definition unsigned_settlement :: transaction where
  "unsigned_settlement = \<lparr>tx_signer = 1, tx_nonce = 0, tx_vm = VmNative, tx_body = Native (SettleBatch
     \<lparr>sb_batch_id = 77, sb_operator = 1, sb_receipts = [],
      sb_payout_entries = [\<lparr>pe_index = 0, pe_account = 2, pe_amount = 10\<rparr>,
                           \<lparr>pe_index = 1, pe_account = 3, pe_amount = 20\<rparr>],
      sb_submitted_at = 5, sb_operator_sig = 6\<rparr>)\<rparr>"

lemma operator_state_funds: "finite_ledger operator_state" "funds operator_state = 105"
  using sample_state_funds by (simp_all add: operator_state_def finite_ledger_def funds_def)

lemma unsigned_settlement_debits:
  "apply_transaction refusing_ext operator_state unsigned_settlement
     = (operator_state\<lparr>accounts :=
          [1 \<mapsto> \<lparr>acc_nonce = 0, acc_balance = 70\<rparr>, 2 \<mapsto> \<lparr>acc_nonce = 7, acc_balance = 5\<rparr>]\<rparr>, Inl BadSignature)"
  by (simp add: apply_transaction_def apply_native_def on_success_def apply_settle_batch_def check_operator_sig_def
      operator_state_def sample_state_def unsigned_settlement_def refusing_ext_def payouts_indexed_def
      default_state_def Let_def fun_upd_twist)

text \<open>
  C1.  Conservation, for every outcome of a transaction.  A successful transaction changes the
  funds of the ledger (balances, stakes, delegations and provenance bonds together) only by the
  amount of a claimed payout, by the total of a settled batch and by a slashed stake.  A failed
  transaction leaves the funds as they were, with one exception that the code has: a
  \<open>SettleBatch\<close> that fails may already have debited its operator by exactly the total of the
  batch (the debit comes before the signature check and the reward distribution), and that total
  is then in no balance and in no stored batch.  The funds and the claimed amount have to fit
  \<open>u128\<close>.
\<close>
theorem transaction_conserves_funds:
  assumes "apply_transaction E s tx = (s', r)" and "finite_ledger s"
    and "funds s + tx_inflow tx < 2 ^ 128"
  shows "finite_ledger s' \<and>
    (case r of
       Inr _ \<Rightarrow> funds s' + tx_outflow s tx = funds s + tx_inflow tx
     | Inl e \<Rightarrow> funds s' = funds s
         \<or> (\<exists>p. tx_body tx = Native (SettleBatch p)
              \<and> funds s' + unat (word_sum (map pe_amount (sb_payout_entries p))) = funds s))"
proof (cases r)
  case (Inl e)
  show ?thesis
  proof (cases "\<exists>p. tx_body tx = Native (SettleBatch p)")
    case True
    then show ?thesis using transaction_funds [OF assms(2,3), of E] assms(1) Inl
      by (auto simp: tx_inflow_def tx_outflow_def)
  next
    case False
    then show ?thesis
      using transaction_error_keeps_funds [OF _ assms(2,3)] transaction_funds [OF assms(2,3), of E] assms(1) Inl
      by auto
  qed
qed (use transaction_funds [OF assms(2,3), of E] assms(1) in \<open>simp add: moves_funds_def\<close>)

theorem transaction_conserves_funds_witness:
  "snd (apply_transaction sample_ext sample_state sample_transfer) = Inr ()
   \<and> funds (fst (apply_transaction sample_ext sample_state sample_transfer)) = 105
   \<and> snd (apply_transaction refusing_ext operator_state unsigned_settlement) = Inl BadSignature
   \<and> funds (fst (apply_transaction refusing_ext operator_state unsigned_settlement)) = 75"
proof -
  let ?r = "apply_transaction sample_ext sample_state sample_transfer"
  have ok: "snd ?r = Inr ()" by code_simp
  then have step: "?r = (fst ?r, Inr ())" by (metis prod.collapse)
  have flow: "tx_inflow sample_transfer = 0" "tx_outflow sample_state sample_transfer = 0"
    by (simp_all add: tx_inflow_def tx_outflow_def sample_transfer_def)
  have "funds sample_state + tx_inflow sample_transfer < 2 ^ 128" by (simp add: sample_state_funds flow)
  note good = transaction_conserves_funds [OF step sample_state_funds(1) this]
  have "funds operator_state + tx_inflow unsigned_settlement < 2 ^ 128"
    by (simp add: operator_state_funds tx_inflow_def unsigned_settlement_def)
  note bad = transaction_conserves_funds [OF unsigned_settlement_debits operator_state_funds(1) this]
  let ?s = "fst (apply_transaction refusing_ext operator_state unsigned_settlement)"
  have body: "tx_body unsigned_settlement = Native (SettleBatch p)
      \<Longrightarrow> unat (word_sum (map pe_amount (sb_payout_entries p))) = 30" for p
    by (auto simp: unsigned_settlement_def)
  have "funds ?s \<noteq> funds operator_state"
    by (simp add: unsigned_settlement_debits operator_state_funds(2) funds_def)
       (simp add: operator_state_def sample_state_def default_state_def map_total_def insert_commute)
  then have "funds ?s + 30 = 105"
    using bad body by (auto simp: unsigned_settlement_debits operator_state_funds(2))
  then show ?thesis
    using ok sample_state_funds flow good by (simp add: unsigned_settlement_debits)
qed

end
