(* ===== verification/Ledger_History.thy ===== *)
theory Ledger_History
  imports Ledger_Funds
begin

text \<open>
  What holds along whole histories of transactions.  The relation \<open>ledger_grows\<close> collects what
  no transaction undoes, successful or not: nonces and object versions never decrease,
  accounts, receipts and claims are never forgotten, and neither the governance address nor
  the minted supply changes.  The ledger is an instance of the
  fallible machine of the prelude with this relation, so it holds along every run; replay
  protection, claim-once and the staleness of certified object versions follow.
\<close>

section \<open>Growth\<close>

definition ledger_grows :: "state \<Rightarrow> state \<Rightarrow> bool" where
  "ledger_grows s t \<longleftrightarrow>
     (\<forall>obj. owned_object_version s obj \<le> owned_object_version t obj)
     \<and> dom (accounts s) \<subseteq> dom (accounts t)
     \<and> dom (receipts s) \<subseteq> dom (receipts t)
     \<and> claimed_payouts s \<subseteq> claimed_payouts t
     \<and> governance t = governance s \<and> protocol_minted_wei t = protocol_minted_wei s"

lemma ledger_grows_refl: "ledger_grows s s"
  by (simp add: ledger_grows_def)

lemma ledger_grows_trans: "ledger_grows s t \<Longrightarrow> ledger_grows t u \<Longrightarrow> ledger_grows s u"
  unfolding ledger_grows_def by (metis (no_types, lifting) order_trans)

text \<open>Growth of everything but the nonces, which the versions of native calls do not touch.\<close>

definition records_grow :: "state \<Rightarrow> state \<Rightarrow> bool" where
  "records_grow s t \<longleftrightarrow> owned_object_versions t = owned_object_versions s
     \<and> dom (accounts s) \<subseteq> dom (accounts t) \<and> dom (receipts s) \<subseteq> dom (receipts t)
     \<and> claimed_payouts s \<subseteq> claimed_payouts t
     \<and> governance t = governance s \<and> protocol_minted_wei t = protocol_minted_wei s"

lemma records_grow_refl [simp]: "records_grow s s"
  by (simp add: records_grow_def)

lemma records_grow_trans: "records_grow s t \<Longrightarrow> records_grow t u \<Longrightarrow> records_grow s u"
  unfolding records_grow_def by (metis (no_types, lifting) subset_trans)

lemma records_grow_fields:
  assumes "owned_object_versions t = owned_object_versions s" "accounts t = accounts s"
    "receipts t = receipts s" "claimed_payouts t = claimed_payouts s"
    "governance t = governance s" "protocol_minted_wei t = protocol_minted_wei s"
  shows "records_grow s t"
  using assms by (simp add: records_grow_def)

lemma dom_credit: "dom (credit accs a v) = insert a (dom accs)"
  by (simp add: credit_def Let_def)

lemma dom_credit_mono: "dom accs \<subseteq> dom (credit accs a v)"
  unfolding dom_credit by (rule subset_insertI)

lemma insert_receipts_dom: "dom m \<subseteq> dom (insert_receipts m rs)"
proof (induction rs arbitrary: m)
  case (Cons r rs)
  have "dom m \<subseteq> dom (m(rc_receipt_id r \<mapsto> r))" by auto
  also have "\<dots> \<subseteq> dom (insert_receipts (m(rc_receipt_id r \<mapsto> r)) rs)" by (rule Cons.IH)
  finally show ?case by (simp add: insert_receipts_def)
qed (simp add: insert_receipts_def)

lemma bump_nonce_records: "bump_nonce s signer = (s', r) \<Longrightarrow> records_grow s s'"
  by (auto simp: bump_nonce_def records_grow_def split: option.splits)

lemma finish_call_records: "finish_call s signer bump = (s', r) \<Longrightarrow> records_grow s s'"
  by (auto simp: finish_call_def bump_nonce_records split: if_splits)

lemma distribute_records:
  "distribute_provider_pool_for_receipts E s rs = (s', r) \<Longrightarrow> records_grow s s'"
  by (rule records_grow_fields) (simp_all add: distribute_keeps)

text \<open>An operation that ends in \<open>finish_call\<close> grows the records if the state before it did.\<close>

lemma records_finish:
  "finish_call s1 signer bump = (s', r) \<Longrightarrow> records_grow s s1 \<Longrightarrow> records_grow s s'"
  using finish_call_records records_grow_trans by blast

lemma settle_batch_records:
  assumes "apply_settle_batch E s signer p bump = (s', r)"
  shows "records_grow s s'"
proof -
  let ?v = "word_sum (map pe_amount (sb_payout_entries p))"
  have step: "records_grow s s'"
    if "and_then (distribute_provider_pool_for_receipts E
          (s\<lparr>accounts := (accounts s)(sb_operator p \<mapsto> acc), batches := bs,
             receipts := insert_receipts (receipts s) (sb_receipts p)\<rparr>) (sb_receipts p))
          (\<lambda>s3 _. finish_call s3 signer bump) = (s', r)" for acc bs
  proof -
    let ?s2 = "s\<lparr>accounts := (accounts s)(sb_operator p \<mapsto> acc), batches := bs,
             receipts := insert_receipts (receipts s) (sb_receipts p)\<rparr>"
    obtain s3 r3 where d: "distribute_provider_pool_for_receipts E ?s2 (sb_receipts p) = (s3, r3)"
      by fastforce
    have "records_grow s ?s2" using insert_receipts_dom by (auto simp: records_grow_def)
    then have "records_grow s s3" using distribute_records [OF d] records_grow_trans by blast
    then show ?thesis using that d records_finish [of s3 signer bump s' r s] by (cases r3) auto
  qed
  have base: "records_grow s s" "records_grow s (s\<lparr>accounts := (accounts s)(a \<mapsto> acc)\<rparr>)" for a acc
    by (auto simp: records_grow_def)
  show ?thesis using assms step base
    by (auto simp: apply_settle_batch_def Let_def split: if_splits option.splits sum.splits)
qed

lemma claim_records:
  assumes "apply_claim_payout E s signer b a v i path bump = (s', r)"
  shows "records_grow s s'"
proof -
  have "records_grow s (s\<lparr>claimed_payouts := insert (b, i) (claimed_payouts s),
      accounts := credit (accounts s) a v\<rparr>)"
    by (auto simp: records_grow_def dom_credit)
  then show ?thesis using assms
    by (auto simp: apply_claim_payout_def Let_def split: if_splits option.splits dest: records_finish)
qed

lemma life_command_records:
  assumes "apply_life_command E s signer c bump = (s', r)"
  shows "records_grow s s'"
proof -
  obtain s1 r1 where eco: "apply_life_command_economics E s signer c = (s1, r1)" by fastforce
  have g: "records_grow s s1"
  proof (cases "lc_kind c = ProvenanceBond")
    case True
    then show ?thesis using eco
      by (auto simp: apply_life_command_economics_def apply_provenance_bond_def Let_def records_grow_def
          split: option.splits if_splits)
  next
    case False
    show ?thesis
      by (rule records_grow_fields) (simp_all add: erase_life_fields [OF life_economics_erase [OF eco False]])
  qed
  have "records_grow s (s1\<lparr>life_commands := cs, life_events := es\<rparr>)" for cs es
    using g by (simp add: records_grow_def)
  then show ?thesis using assms eco g
    by (cases r1) (auto simp: apply_life_command_def Let_def
        split: if_splits sum.splits option.splits dest: records_finish)
qed

lemma native_records:
  assumes "apply_native_impl E s signer call bump = (s', r)"
  shows "records_grow s s'"
proof -
  have fin: "records_grow s s'"
    if "finish_call s1 signer bump = (s', r)" "owned_object_versions s1 = owned_object_versions s"
      "dom (accounts s) \<subseteq> dom (accounts s1)" "dom (receipts s) \<subseteq> dom (receipts s1)"
      "claimed_payouts s1 = claimed_payouts s" "governance s1 = governance s"
      "protocol_minted_wei s1 = protocol_minted_wei s" for s1
    by (rule records_finish [OF that(1)]) (use that(2-) in \<open>simp add: records_grow_def\<close>)
  show ?thesis
  proof (cases call)
    case (SettleReceipt rc)
    let ?s1 = "s\<lparr>receipts := (receipts s)(rc_receipt_id rc \<mapsto> rc)\<rparr>"
    obtain s2 r2 where d: "distribute_provider_pool_for_receipts E ?s1 [rc] = (s2, r2)" by fastforce
    have "records_grow s ?s1" by (auto simp: records_grow_def)
    then have g: "records_grow s s2" using distribute_records [OF d] by (rule records_grow_trans)
    show ?thesis using assms SettleReceipt d g
      by (cases r2) (auto split: if_splits dest: records_finish)
  next
    case (RegisterAgent op pk k uri)
    have "records_grow s (s\<lparr>next_agent_id := n\<rparr>)" for n by (simp add: records_grow_def)
    then show ?thesis using assms RegisterAgent
      by (auto simp: Let_def split: if_splits intro: fin)
  next
    case (Unstake v)
    have "records_grow s (s\<lparr>stakes := m, accounts := credit (accounts s) signer v\<rparr>)" for m
      by (simp add: records_grow_def dom_credit_mono)
    then show ?thesis using assms Unstake
      by (auto split: if_splits option.splits dest: records_finish)
  next
    case (WithdrawRewards v)
    have "records_grow s (s\<lparr>accounts := credit (accounts s) signer 0\<rparr>)"
      by (simp add: records_grow_def dom_credit_mono)
    then show ?thesis using assms WithdrawRewards by (auto dest: records_finish)
  qed (use assms settle_batch_records claim_records life_command_records in
      \<open>auto split: if_splits sum.splits option.splits intro: fin\<close>)
qed

section \<open>Object versions\<close>

lemma bump_object_other: "obj' \<noteq> obj \<Longrightarrow> bump_object m obj obj' = m obj'"
  by (cases obj) (auto simp: bump_object_def)

lemma bump_object_nonce [simp]: "bump_object m (AccountNonce a) = m"
  by (simp add: bump_object_def)

lemma fold_bump_objects:
  assumes "distinct objs" and "\<And>a. obj \<noteq> AccountNonce a"
  shows "unwrap_or (foldl bump_object m objs obj) 0
    = (if obj \<in> set objs then sat_add (unwrap_or (m obj) 0) 1 else unwrap_or (m obj) 0)"
  using assms(1)
proof (induction objs arbitrary: m)
  case (Cons o1 os)
  have own: "unwrap_or (bump_object m obj obj) 0 = sat_add (unwrap_or (m obj) 0) 1"
    using assms(2) by (cases obj) (auto simp: bump_object_def)
  show ?case
  proof (cases "o1 = obj")
    case True
    then show ?thesis using Cons own by simp
  next
    case False
    then have "bump_object m o1 obj = m obj" by (simp add: bump_object_other)
    then show ?thesis using Cons False by simp
  qed
qed simp

text \<open>The version of an object after a successful transaction, through its scope.\<close>

lemma scope_objects_distinct: "distinct (scope_objects (execution_scope tx))"
  by (cases rule: execution_scope_cases [of tx]) simp_all

lemma version_after_bump:
  assumes "\<And>a. obj \<noteq> AccountNonce a"
  shows "owned_object_version (bump_owned_object_versions_for_scope s (execution_scope tx)) obj
    = (if obj \<in> set (scope_objects (execution_scope tx)) then sat_add (owned_object_version s obj) 1
       else owned_object_version s obj)"
proof -
  have ver: "owned_object_version t obj = unwrap_or (owned_object_versions t obj) 0" for t
    using assms by (cases obj) (auto simp: owned_object_version_def)
  show ?thesis
    using fold_bump_objects [OF scope_objects_distinct assms, where m = "owned_object_versions s", of tx]
    by (cases "execution_scope tx") (simp_all add: ver bump_owned_object_versions_for_scope_def)
qed

lemma version_AccountNonce [simp]: "owned_object_version s (AccountNonce a) = nonces (accounts s) a"
  by (simp add: owned_object_version_def nonces_def)

lemma version_records:
  assumes "records_grow s t" and "\<And>a. obj \<noteq> AccountNonce a"
  shows "owned_object_version t obj = owned_object_version s obj"
  using assms by (cases obj) (auto simp: owned_object_version_def records_grow_def)

lemma transfer_records: "apply_transfer s from to v = (s', r) \<Longrightarrow> records_grow s s'"
proof -
  assume tr: "apply_transfer s from to v = (s', r)"
  have g: "records_grow s (s\<lparr>accounts := credit ((accounts s)(from \<mapsto> acc)) to v\<rparr>)" for acc
    by (auto simp: records_grow_def dom_credit)
  show ?thesis using tr g
    by (auto simp: apply_transfer_def Let_def split: option.splits if_splits
        dest!: bump_nonce_records intro: records_grow_trans)
qed

text \<open>
  The version of every object after a transaction: those in the scope of a successful one are
  bumped, and so is the nonce of its signer; no other version changes.
\<close>

definition touched :: "transaction \<Rightarrow> owned_object_id set" where
  "touched tx = insert (AccountNonce (tx_signer tx)) (set (scope_objects (execution_scope tx)))"

lemma touched_nonce_iff: "AccountNonce a \<in> touched tx \<longleftrightarrow> a = tx_signer tx"
  by (auto simp: touched_def execution_scope_def split: vm_kind.splits tx_body.splits native_call.splits)

lemma transaction_body:
  assumes "apply_transaction E s tx = (s', r)"
  obtains s1 where "records_grow s s1"
    and "s' = (if is_ok r then bump_owned_object_versions_for_scope s1 (execution_scope tx) else s1)"
proof -
  define res where "res = (case (tx_vm tx, tx_body tx) of
      (VmNative, Native call) \<Rightarrow> apply_native E s (tx_signer tx) call
    | (VmEvm, Transfer to amount) \<Rightarrow> apply_transfer s (tx_signer tx) to amount
    | _ \<Rightarrow> (s, Inl InvalidShape))"
  have res: "records_grow s s1" if "res = (s1, r1)" for s1 r1
    using that native_records transfer_records
    by (auto simp: res_def apply_native_def split: vm_kind.splits tx_body.splits)
  consider "s' = s" "\<not> is_ok r" | "on_success res (execution_scope tx) = (s', r)"
    using assms by (auto simp: apply_transaction_def res_def split: option.splits if_splits)
  then show ?thesis
  proof cases
    case 1
    then show ?thesis using that [of s] by simp
  next
    case 2
    then obtain s1 where "res = (s1, r)"
        "s' = (if is_ok r then bump_owned_object_versions_for_scope s1 (execution_scope tx) else s1)"
      by (auto simp: on_success_iff)
    then show ?thesis using that res by blast
  qed
qed

lemma transaction_version:
  assumes "apply_transaction E s tx = (s', r)"
  shows "owned_object_version s' obj
    = (if is_ok r \<and> obj \<in> touched tx then sat_add (owned_object_version s obj) 1
       else owned_object_version s obj)"
proof (cases "\<exists>a. obj = AccountNonce a")
  case True
  then show ?thesis
    using transaction_nonces [OF assms] by (auto simp: touched_nonce_iff nonces_after_def)
next
  case False
  then have nn: "\<And>a. obj \<noteq> AccountNonce a" by blast
  obtain s1 where s1: "records_grow s s1"
      "s' = (if is_ok r then bump_owned_object_versions_for_scope s1 (execution_scope tx) else s1)"
    by (rule transaction_body [OF assms])
  show ?thesis
    using version_after_bump [OF nn, of s1 tx] version_records [OF s1(1) nn] s1(2) nn
    by (simp add: touched_def)
qed

lemma transaction_grows:
  assumes "apply_transaction E s tx = (s', r)"
  shows "ledger_grows s s'"
proof -
  obtain s1 where s1: "records_grow s s1"
      "s' = (if is_ok r then bump_owned_object_versions_for_scope s1 (execution_scope tx) else s1)"
    by (rule transaction_body [OF assms])
  have "owned_object_version s obj \<le> owned_object_version s' obj" for obj
    by (simp add: transaction_version [OF assms] sat_add_ge)
  then show ?thesis using s1 by (simp add: ledger_grows_def records_grow_def)
qed

text \<open>The ledger as a fallible machine: what every transaction keeps, every run keeps.\<close>

interpretation ledger: fallible_machine "apply_transaction E" ledger_grows for E
  by unfold_locales (fact ledger_grows_refl, fact ledger_grows_trans, fact transaction_grows)

section \<open>Properties\<close>

text \<open>
  C2.  Replay protection: once a transaction has been applied, it is rejected for a bad nonce
  in every later state of the ledger, whatever transactions were applied or tried in between.
  (The nonce saturates at \<open>u64::MAX\<close>, so the last nonce is excluded.)
\<close>
theorem replay_rejected:
  assumes "apply_transaction E s tx = (s1, Inr ())" and "tx_nonce tx \<noteq> - 1"
    and "run_all (apply_transaction E) s1 txs = (s2, r)"
  shows "\<exists>expected. expected \<noteq> tx_nonce tx
    \<and> apply_transaction E s2 tx = (s2, Inl (BadNonce expected (tx_nonce tx)))"
proof -
  let ?a = "tx_signer tx"
  have before: "nonces (accounts s) ?a = tx_nonce tx"
    using transaction_ok_nonce [OF assms(1)] by (auto simp: nonces_def)
  have "tx_nonce tx < nonces (accounts s1) ?a"
    using transaction_nonces [OF assms(1)] before less_sat_add_1 [OF assms(2)] by simp
  also have "\<dots> \<le> nonces (accounts s2) ?a"
    using ledger.run_keeps [OF assms(3)] version_AccountNonce by (metis ledger_grows_def)
  finally have gt: "tx_nonce tx < nonces (accounts s2) ?a" .
  then obtain acc where acc: "accounts s2 ?a = Some acc"
    by (auto simp: nonces_def split: option.splits)
  have "acc_nonce acc \<noteq> tx_nonce tx" using gt acc by (auto simp: nonces_def)
  then show ?thesis using acc by (simp add: apply_transaction_def)
qed

theorem replay_rejected_witness:
  "snd (apply_transaction sample_ext sample_state sample_transfer) = Inr ()
   \<and> (\<exists>expected. expected \<noteq> 0
        \<and> snd (apply_transaction sample_ext
             (fst (apply_transaction sample_ext sample_state sample_transfer)) sample_transfer)
          = Inl (BadNonce expected 0))"
proof -
  let ?r = "apply_transaction sample_ext sample_state sample_transfer"
  have ok: "snd ?r = Inr ()" by code_simp
  then have step: "?r = (fst ?r, Inr ())" by (metis prod.collapse)
  have n: "tx_nonce sample_transfer = 0" by (simp add: sample_transfer_def)
  have run: "run_all (apply_transaction sample_ext) (fst ?r) [] = (fst ?r, Inr ())" by simp
  show ?thesis using replay_rejected [OF step _ run] ok n by auto
qed

text \<open>
  C3.  A payout is claimed at most once: after a successful claim of leaf \<open>i\<close> of a batch, every
  later claim of that leaf is rejected and leaves the ledger as it is, whatever happens in
  between, whoever claims and whatever account, amount and path the claim gives.
\<close>
theorem claim_at_most_once:
  assumes "apply_transaction E s tx = (s1, Inr ())"
    and "tx_body tx = Native (ClaimPayout b a v i path)"
    and "run_all (apply_transaction E) s1 txs = (s2, r)"
    and "tx_body tx' = Native (ClaimPayout b a' v' i path')"
  shows "\<exists>e. apply_transaction E s2 tx' = (s2, Inl e)"
proof -
  have "(b, i) \<in> claimed_payouts s1"
    using assms(1,2) finish_call_records
    by (fastforce simp: apply_transaction_def on_success_iff apply_native_def apply_claim_payout_def
        Let_def records_grow_def split: option.splits if_splits vm_kind.splits)
  then have "(b, i) \<in> claimed_payouts s2"
    using ledger.run_keeps [OF assms(3)] by (auto simp: ledger_grows_def)
  then show ?thesis
    using assms(4)
    by (auto simp: apply_transaction_def on_success_def apply_native_def apply_claim_payout_def
        split: option.splits vm_kind.splits)
qed

text \<open>A batch of two payouts, settled by account 1, and claims on it for the witnesses.\<close>

definition sample_batch :: settle_batch_payload where
  "sample_batch = \<lparr>
     sb_batch_id = 77, sb_operator = 1, sb_receipts = [],
     sb_payout_entries = [\<lparr>pe_index = 0, pe_account = 2, pe_amount = 10\<rparr>,
                          \<lparr>pe_index = 1, pe_account = 3, pe_amount = 20\<rparr>],
     sb_submitted_at = 5, sb_operator_sig = 0\<rparr>"

definition sample_path :: "hash256 list" where
  "sample_path = [hash_payout_entry sample_ext \<lparr>pe_index = 1, pe_account = 3, pe_amount = 20\<rparr>]"

definition settled_state :: state where
  "settled_state = fst (apply_settle_batch sample_ext sample_state 1 sample_batch True)"

definition sample_claim :: transaction where
  "sample_claim = \<lparr>tx_signer = 2, tx_nonce = 7, tx_vm = VmNative,
     tx_body = Native (ClaimPayout 77 2 10 0 sample_path)\<rparr>"

lemma sample_settles: "apply_settle_batch sample_ext sample_state 1 sample_batch True = (settled_state, Inr ())"
proof -
  have "snd (apply_settle_batch sample_ext sample_state 1 sample_batch True) = Inr ()" by code_simp
  then show ?thesis unfolding settled_state_def by (metis prod.collapse)
qed

theorem claim_at_most_once_witness:
  "snd (apply_transaction sample_ext settled_state sample_claim) = Inr ()
   \<and> (\<exists>e. snd (apply_transaction sample_ext
          (fst (apply_transaction sample_ext settled_state sample_claim))
          (sample_claim\<lparr>tx_nonce := 8\<rparr>)) = Inl e)"
proof -
  let ?r = "apply_transaction sample_ext settled_state sample_claim"
  have ok: "snd ?r = Inr ()" by code_simp
  then have step: "?r = (fst ?r, Inr ())" by (metis prod.collapse)
  have body: "tx_body sample_claim = Native (ClaimPayout 77 2 10 0 sample_path)"
    "tx_body (sample_claim\<lparr>tx_nonce := 8\<rparr>) = Native (ClaimPayout 77 2 10 0 sample_path)"
    by (simp_all add: sample_claim_def)
  have run: "run_all (apply_transaction sample_ext) (fst ?r) [] = (fst ?r, Inr ())" by simp
  show ?thesis using claim_at_most_once [OF step body(1) run body(2)] ok by auto
qed

text \<open>The inputs hashed for the payout tree of a batch and for the check of a claim.\<close>

definition claim_inputs :: "ext \<Rightarrow> payout_entry list \<Rightarrow> payout_entry \<Rightarrow> nat \<Rightarrow> hash256 list \<Rightarrow> bytes set" where
  "claim_inputs E es e i path =
     set (ext_borsh_payout_entry E e # map (ext_borsh_payout_entry E) es
          @ tree_inputs (ext_keccak256 E) (map (hash_payout_entry E) es)
          @ walk_inputs (ext_keccak256 E) (hash_payout_entry E e) i path)"

lemma settle_batch_root:
  assumes "apply_settle_batch E s signer p bump = (s', Inr u)"
  shows "\<exists>batch. batches s' (sb_batch_id p) = Some batch
    \<and> bt_payout_root batch = merkle_root (ext_keccak256 E) (map (hash_payout_entry E) (sb_payout_entries p))"
proof -
  have fin: "batches t = batches s1" if "finish_call s1 signer bump = (t, r)" for s1 t r
    using that by (auto simp: finish_call_def bump_nonce_def split: if_splits option.splits)
  show ?thesis using assms
    by (auto simp: apply_settle_batch_def Let_def and_then_def fin distribute_keeps
        split: if_splits option.splits sum.splits prod.splits)
qed

text \<open>
  C4.  Only listed payouts are paid: a claim on a batch that was just settled pays an entry of
  that batch, with its index, account and amount.  Borsh is taken to encode an entry
  injectively in 40 bytes (its three fields have fixed width) and Keccak not to collide on
  the inputs hashed for this batch and this claim.
\<close>
theorem claim_pays_listed_entry:
  assumes settle: "apply_settle_batch E s signer p bump = (s1, Inr ())"
    and claim: "apply_claim_payout E s1 claimer (sb_batch_id p) a v i path bump' = (s2, Inr ())"
    and nonempty: "sb_payout_entries p \<noteq> []"
    and borsh_inj: "inj (ext_borsh_payout_entry E)"
    and borsh_length: "\<And>e. length (ext_borsh_payout_entry E e) = 40"
    and no_collision: "inj_on (ext_keccak256 E)
      (claim_inputs E (sb_payout_entries p) \<lparr>pe_index = i, pe_account = a, pe_amount = v\<rparr> (unat i) path)"
  shows "\<lparr>pe_index = i, pe_account = a, pe_amount = v\<rparr> \<in> set (sb_payout_entries p)"
proof -
  let ?kc = "ext_keccak256 E" and ?enc = "ext_borsh_payout_entry E" and ?es = "sb_payout_entries p"
  let ?e = "\<lparr>pe_index = i, pe_account = a, pe_amount = v\<rparr>"
  have leaves: "map (hash_payout_entry E) ?es = map (\<lambda>y. ?kc y) (map ?enc ?es)"
    by (simp add: hash_payout_entry_def)
  have "verify_merkle_proof ?kc (merkle_root ?kc (map (hash_payout_entry E) ?es))
      (hash_payout_entry E ?e) (unat i) path"
    using claim settle_batch_root [OF settle]
    by (auto simp: apply_claim_payout_def Let_def split: if_splits)
  then have ver: "verify_merkle_proof ?kc (merkle_root ?kc (map (\<lambda>y. ?kc y) (map ?enc ?es)))
      (?kc (?enc ?e)) (unat i) path"
    unfolding leaves by (simp add: hash_payout_entry_def)
  have "?enc ?e \<in> set (map ?enc ?es)"
    using ver
  proof (rule merkle_sound)
    show "inj_on ?kc (insert (?enc ?e) (set (map ?enc ?es)
        \<union> set (tree_inputs ?kc (map (\<lambda>y. ?kc y) (map ?enc ?es)))
        \<union> set (walk_inputs ?kc (?kc (?enc ?e)) (unat i) path)))"
      by (rule inj_on_subset [OF no_collision])
        (auto simp: claim_inputs_def leaves hash_payout_entry_def comp_def)
  qed (use nonempty borsh_length in auto)
  then show ?thesis using borsh_inj by (auto dest: injD)
qed

lemma distinct_remdups_inj_on: "distinct (map f (remdups xs)) \<Longrightarrow> inj_on f (set xs)"
  unfolding distinct_map set_remdups by (rule conjunct2)

lemma sample_borsh_payout:
  "inj (ext_borsh_payout_entry sample_ext)" "length (ext_borsh_payout_entry sample_ext e) = 40"
proof -
  have "x = y" if "ext_borsh_payout_entry sample_ext x = ext_borsh_payout_entry sample_ext y" for x y
  proof -
    have "be_bytes 4 (pe_index x) = be_bytes 4 (pe_index y)"
      "be_bytes 20 (pe_account x) = be_bytes 20 (pe_account y)"
      "be_bytes 16 (pe_amount x) = be_bytes 16 (pe_amount y)"
      using that by (simp_all add: sample_ext_def)
    then have "pe_index x = pe_index y" "pe_account x = pe_account y" "pe_amount x = pe_amount y"
      by (auto dest: be_bytes_inject [rotated])
    then show ?thesis by (cases x; cases y) simp
  qed
  then show "inj (ext_borsh_payout_entry sample_ext)" by (rule injI)
  show "length (ext_borsh_payout_entry sample_ext e) = 40" by (simp add: sample_ext_def)
qed

theorem claim_pays_listed_entry_witness:
  "snd (apply_claim_payout sample_ext settled_state 2 77 2 10 0 sample_path True) = Inr ()
   \<and> \<lparr>pe_index = 0, pe_account = 2, pe_amount = 10\<rparr> \<in> set (sb_payout_entries sample_batch)"
proof -
  let ?r = "apply_claim_payout sample_ext settled_state 2 (sb_batch_id sample_batch) 2 10 0 sample_path True"
  let ?e = "\<lparr>pe_index = 0, pe_account = 2, pe_amount = 10\<rparr>"
  have id: "sb_batch_id sample_batch = 77" by (simp add: sample_batch_def)
  have ok: "snd ?r = Inr ()" by code_simp
  then have step: "?r = (fst ?r, Inr ())" by (metis prod.collapse)
  have "distinct (map sample_keccak (remdups
      (ext_borsh_payout_entry sample_ext ?e # map (ext_borsh_payout_entry sample_ext) (sb_payout_entries sample_batch)
       @ tree_inputs sample_keccak (map (hash_payout_entry sample_ext) (sb_payout_entries sample_batch))
       @ walk_inputs sample_keccak (hash_payout_entry sample_ext ?e) 0 sample_path)))"
    by code_simp
  moreover have "ext_keccak256 sample_ext = sample_keccak" by (simp add: sample_ext_def)
  ultimately have "inj_on (ext_keccak256 sample_ext)
      (claim_inputs sample_ext (sb_payout_entries sample_batch) ?e (unat (0 :: u32)) sample_path)"
    unfolding claim_inputs_def unat_0 by (intro distinct_remdups_inj_on) simp
  moreover have "sb_payout_entries sample_batch \<noteq> []" by (simp add: sample_batch_def)
  ultimately show ?thesis
    using claim_pays_listed_entry [OF sample_settles step _ sample_borsh_payout] ok id by simp
qed

end
