(* ===== verification/Ledger_Policy.thy ===== *)
theory Ledger_Policy
  imports Ledger_History
begin

text \<open>
  The rules the ledger enforces on its privileged and pooled operations: governance-only
  calls, the supply cap of protocol emission, the distribution of the provider pool over a
  batch of receipts, the split of an intelligence payout, and the staleness of certified
  object versions.  The last property records that the total of a batch wraps.
\<close>

section \<open>Governance\<close>

fun governed_call :: "native_call \<Rightarrow> bool" where
  "governed_call (SuspendAgent _ _) = True"
| "governed_call (ResolveDispute _ _ _) = True"
| "governed_call (Slash _ _) = True"
| "governed_call (SetChainEconomics _) = True"
| "governed_call (LifeCommandV1 c) = governed_life_kind (lc_kind c)"
| "governed_call _ = False"

lemma governed_call_rejected:
  assumes "governed_call call" and "governance s \<noteq> 0" and "signer \<noteq> governance s"
  shows "\<exists>e. apply_native_impl E s signer call bump = (s, Inl e)"
  using assms
  by (cases call) (auto simp: require_governance_def apply_life_command_def)

text \<open>
  Once a governance address is set, a governed call (suspension, dispute resolution,
  slashing, a change of the economics, a governed life command) signed by anyone else is
  rejected without effect in every state the ledger can reach by transactions.
\<close>
theorem governed_calls_need_governance:
  assumes "governance s \<noteq> 0" and "tx_signer tx \<noteq> governance s"
    and "tx_body tx = Native call" and "governed_call call"
    and "run_all (apply_transaction E) s txs = (s', r)"
  shows "\<exists>e. apply_transaction E s' tx = (s', Inl e)"
proof -
  have g: "governance s' = governance s"
    using ledger.run_keeps [OF assms(5)] by (simp add: ledger_grows_def)
  have "\<exists>e. apply_native_impl E s' (tx_signer tx) call True = (s', Inl e)"
    using assms(1,2) by (intro governed_call_rejected [OF assms(4)]) (simp_all add: g)
  then show ?thesis using assms(3)
    by (auto simp: apply_transaction_def apply_native_def on_success_def
        split: option.splits vm_kind.splits)
qed

theorem governed_calls_need_governance_witness:
  "\<exists>e. apply_transaction sample_ext (sample_state\<lparr>governance := 9\<rparr>)
         \<lparr>tx_signer = 1, tx_nonce = 0, tx_vm = VmNative, tx_body = Native (Slash 2 0)\<rparr>
       = (sample_state\<lparr>governance := 9\<rparr>, Inl e)"
proof -
  let ?s = "sample_state\<lparr>governance := 9\<rparr>"
  let ?tx = "\<lparr>tx_signer = 1, tx_nonce = 0, tx_vm = VmNative, tx_body = Native (Slash 2 0)\<rparr>"
  have run: "run_all (apply_transaction sample_ext) ?s [] = (?s, Inr ())" by simp
  show ?thesis
    by (rule governed_calls_need_governance [OF _ _ _ _ run, of ?tx "Slash 2 0"]) simp_all
qed

section \<open>Supply\<close>

definition emission_pools :: "state \<Rightarrow> nat" where
  "emission_pools s = unat (emission_provider_pool_wei s) + unat (emission_consensus_pool_wei s)
     + unat (emission_intelligence_pool_wei s)"

lemma unat_MAX_SUPPLY: "unat MAX_SUPPLY_WEI = 23000000000000000000000000"
  by (simp add: MAX_SUPPLY_WEI_def WEI_PER_FRAC_def)

text \<open>
  Emission respects the cap: minting for a block keeps the minted supply at or below
  \<open>MAX_SUPPLY_WEI\<close> and the pools covered by it; a successful mint adds what it returns to the
  minted supply and, split over the three pools, to the pools, and a failed one changes
  nothing.
\<close>
theorem mint_respects_cap:
  assumes "mint_protocol_emission_for_block s height = (s', r)"
    and valid: "emission_validate (ce_emission (chain_economics s)) = Inr ()"
    and pools: "emission_pools s \<le> unat (protocol_minted_wei s)"
    and cap: "protocol_minted_wei s \<le> MAX_SUPPLY_WEI"
  shows "protocol_minted_wei s' \<le> MAX_SUPPLY_WEI
    \<and> emission_pools s' \<le> unat (protocol_minted_wei s')
    \<and> (case r of Inl _ \<Rightarrow> s' = s
       | Inr e \<Rightarrow> unat (protocol_minted_wei s') = unat (protocol_minted_wei s) + unat e
            \<and> emission_pools s' = emission_pools s + unat e)"
proof -
  define em where "em = emission_for_block height (ce_emission (chain_economics s))"
  have parts: "unat (eb_provider_pool_wei em) + unat (eb_consensus_pool_wei em)
      + unat (eb_intelligence_pool_wei em) = unat (eb_total_wei em)"
    unfolding em_def by (rule block_parts_sum [OF valid])
  note res = assms(1) [unfolded mint_protocol_emission_for_block_def Let_def em_def [symmetric]]
  show ?thesis
  proof (cases "eb_total_wei em = 0")
    case True
    then show ?thesis using res pools cap by auto
  next
    case False
    show ?thesis
    proof (cases "checked_add (protocol_minted_wei s) (eb_total_wei em)")
      case None
      then show ?thesis using res False pools cap by auto
    next
      case (Some new)
      have new: "unat new = unat (protocol_minted_wei s) + unat (eb_total_wei em)"
        by (rule checked_add_unat [OF Some])
      then have "emission_pools s + unat (eb_total_wei em) < 2 ^ 128"
        using pools unat_u128_less [of new] by simp
      then show ?thesis
        using res False Some parts new pools cap
        by (auto simp: emission_pools_def unat_sat_add split: if_splits)
    qed
  qed
qed

theorem mint_respects_cap_witness:
  "let s = sample_state\<lparr>chain_economics := chain_economics_mainnet\<lparr>ce_emission := sample_emission\<rparr>\<rparr>;
       s' = fst (mint_protocol_emission_for_block s 0)
   in snd (mint_protocol_emission_for_block s 0) = Inr 222
      \<and> unat (protocol_minted_wei s') = 222 \<and> emission_pools s' = 222"
proof -
  let ?s = "sample_state\<lparr>chain_economics := chain_economics_mainnet\<lparr>ce_emission := sample_emission\<rparr>\<rparr>"
  have ok: "snd (mint_protocol_emission_for_block ?s 0) = Inr 222" by code_simp
  then have step: "mint_protocol_emission_for_block ?s 0 = (fst (mint_protocol_emission_for_block ?s 0), Inr 222)"
    by (metis prod.collapse)
  have "emission_pools ?s = 0" "protocol_minted_wei ?s = 0"
    by (simp_all add: emission_pools_def sample_state_def default_state_def)
  then show ?thesis
    using mint_respects_cap [OF step] sample_emission_valid ok
    by (simp add: Let_def)
qed

section \<open>The provider pool\<close>

abbreviation compute_share :: "provider_budget \<Rightarrow> on_chain_task_receipt \<Rightarrow> u128" where
  "compute_share b r \<equiv> sat_mul (bg_compute b) (receipt_weight r) div bg_total_score b"

abbreviation tx_share :: "provider_budget \<Rightarrow> u128" where
  "tx_share b \<equiv> bg_tx b div of_nat (bg_count b)"

abbreviation compute_part :: "provider_budget \<Rightarrow> nat \<Rightarrow> u128 \<Rightarrow> on_chain_task_receipt \<Rightarrow> u128" where
  "compute_part b idx pc r \<equiv>
     (if Suc idx = bg_count b then sat_sub (bg_compute b) pc else compute_share b r)"

abbreviation tx_part :: "provider_budget \<Rightarrow> nat \<Rightarrow> u128 \<Rightarrow> u128" where
  "tx_part b idx pt \<equiv> (if Suc idx = bg_count b then sat_sub (bg_tx b) pt else tx_share b)"

lemma provider_reward_loop_step:
  assumes "provider_reward_loop E b idx pc pt s (r # rs) = (s', Inr ())"
  shows "\<exists>s2 rw. provider_rewards s2 = provider_rewards s @ [rw]
    \<and> rw_worker rw = rc_worker r \<and> rw_receipt_id rw = rc_receipt_id r
    \<and> rw_compute_subsidy_wei rw = compute_part b idx pc r
    \<and> rw_tx_count_subsidy_wei rw = tx_part b idx pt
    \<and> rw_storage_rollover_wei rw = (if idx = 0 then bg_storage b else 0)
    \<and> provider_reward_loop E b (Suc idx) (sat_add pc (compute_part b idx pc r))
         (sat_add pt (tx_part b idx pt)) s2 rs = (s', Inr ())"
proof -
  define c where "c = compute_part b idx pc r"
  define t where "t = tx_part b idx pt"
  define s1 where "s1 = (if sat_add c t > 0
    then s\<lparr>provider_subsidy_income_wei := (provider_subsidy_income_wei s)(rc_worker r \<mapsto>
      sat_add (unwrap_or (provider_subsidy_income_wei s (rc_worker r)) 0) (sat_add c t))\<rparr> else s)"
  define rw where "rw raw = \<lparr>rw_reward_id = ext_keccak256 E raw, rw_receipt_id = rc_receipt_id r,
      rw_worker = rc_worker r, rw_organic_income_wei = rc_payout_amount r,
      rw_compute_subsidy_wei = c, rw_tx_count_subsidy_wei = t,
      rw_storage_rollover_wei = (if idx = 0 then bg_storage b else 0)\<rparr>" for raw
  have keeps: "provider_rewards s1 = provider_rewards s" by (simp add: s1_def)
  have "provider_reward_loop E b idx pc pt s (r # rs) =
      (case ext_borsh_provider_reward E (of_nat (length (provider_rewards s1))) (rc_receipt_id r)
          (rc_worker r) c t (bg_storage b) of
        None \<Rightarrow> (s1, Inl InvalidShape)
      | Some raw \<Rightarrow> provider_reward_loop E b (Suc idx) (sat_add pc c) (sat_add pt t)
          (s1\<lparr>provider_rewards := provider_rewards s1 @ [rw raw]\<rparr>) rs)"
    unfolding provider_reward_loop.simps Let_def s1_def rw_def c_def t_def Suc_eq_plus1 by (rule refl)
  then obtain raw where "provider_reward_loop E b (Suc idx) (sat_add pc c) (sat_add pt t)
      (s1\<lparr>provider_rewards := provider_rewards s1 @ [rw raw]\<rparr>) rs = (s', Inr ())"
    using assms by (auto split: option.splits)
  then show ?thesis
    unfolding c_def [symmetric] t_def [symmetric]
    by (intro exI [of _ "s1\<lparr>provider_rewards := provider_rewards s1 @ [rw raw]\<rparr>"] exI [of _ "rw raw"])
      (simp add: keeps rw_def)
qed

text \<open>
  The loop pays out both budgets exactly: what was paid before, the shares still to come
  before the last receipt and the rest for the last one add up to the budget.
\<close>

lemma provider_reward_loop_exact:
  assumes "provider_reward_loop E b idx pc pt s rs = (s', Inr ())" and "rs \<noteq> []"
    and "idx + length rs = bg_count b"
    and "unat pc + sum_list (map (\<lambda>r. unat (compute_share b r)) (butlast rs)) \<le> unat (bg_compute b)"
    and "unat pt + length (butlast rs) * unat (tx_share b) \<le> unat (bg_tx b)"
  shows "\<exists>new. provider_rewards s' = provider_rewards s @ new
    \<and> map rw_worker new = map rc_worker rs \<and> map rw_receipt_id new = map rc_receipt_id rs
    \<and> sum_list (map (\<lambda>r. unat (rw_compute_subsidy_wei r)) new) + unat pc = unat (bg_compute b)
    \<and> sum_list (map (\<lambda>r. unat (rw_tx_count_subsidy_wei r)) new) + unat pt = unat (bg_tx b)
    \<and> sum_list (map (\<lambda>r. unat (rw_storage_rollover_wei r)) new) = (if idx = 0 then unat (bg_storage b) else 0)"
  using assms
proof (induction rs arbitrary: idx pc pt s)
  case (Cons r rs)
  obtain s2 rw where step: "provider_rewards s2 = provider_rewards s @ [rw]"
      "rw_worker rw = rc_worker r" "rw_receipt_id rw = rc_receipt_id r"
      "rw_compute_subsidy_wei rw = compute_part b idx pc r"
      "rw_tx_count_subsidy_wei rw = tx_part b idx pt"
      "rw_storage_rollover_wei rw = (if idx = 0 then bg_storage b else 0)"
      "provider_reward_loop E b (Suc idx) (sat_add pc (compute_part b idx pc r))
         (sat_add pt (tx_part b idx pt)) s2 rs = (s', Inr ())"
    using provider_reward_loop_step [OF Cons.prems(1)] by blast
  show ?case
  proof (cases "rs = []")
    case True
    then have last: "Suc idx = bg_count b" using Cons.prems(3) by simp
    have "s' = s2" using step(7) True by simp
    then show ?thesis
      using step last True Cons.prems(4,5)
      by (intro exI [of _ "[rw]"]) (simp add: unat_sat_sub)
  next
    case False
    then have not_last: "Suc idx \<noteq> bg_count b" using Cons.prems(3) by (cases rs) auto
    have pc: "unat (sat_add pc (compute_share b r)) = unat pc + unat (compute_share b r)"
      using Cons.prems(4) False unat_u128_less [of "bg_compute b"] by (simp add: unat_sat_add)
    have pt: "unat (sat_add pt (tx_share b)) = unat pt + unat (tx_share b)"
    proof -
      have "unat pt + unat (tx_share b) \<le> unat (bg_tx b)"
        using Cons.prems(5) False by (cases rs) simp_all
      then show ?thesis using unat_u128_less [of "bg_tx b"] by (simp add: unat_sat_add)
    qed
    have "\<exists>new. provider_rewards s' = provider_rewards s2 @ new
        \<and> map rw_worker new = map rc_worker rs \<and> map rw_receipt_id new = map rc_receipt_id rs
        \<and> sum_list (map (\<lambda>r. unat (rw_compute_subsidy_wei r)) new) + unat (sat_add pc (compute_share b r))
            = unat (bg_compute b)
        \<and> sum_list (map (\<lambda>r. unat (rw_tx_count_subsidy_wei r)) new) + unat (sat_add pt (tx_share b))
            = unat (bg_tx b)
        \<and> sum_list (map (\<lambda>r. unat (rw_storage_rollover_wei r)) new)
            = (if Suc idx = 0 then unat (bg_storage b) else 0)"
    proof (rule Cons.IH)
      show "provider_reward_loop E b (Suc idx) (sat_add pc (compute_share b r))
          (sat_add pt (tx_share b)) s2 rs = (s', Inr ())" using step(7) not_last by simp
      show "unat (sat_add pt (tx_share b)) + length (butlast rs) * unat (tx_share b) \<le> unat (bg_tx b)"
        using Cons.prems(5) False unfolding pt by (cases rs) simp_all
    qed (use False Cons.prems pc in simp_all)
    then obtain new where new: "provider_rewards s' = provider_rewards s2 @ new"
        "map rw_worker new = map rc_worker rs" "map rw_receipt_id new = map rc_receipt_id rs"
        "sum_list (map (\<lambda>r. unat (rw_compute_subsidy_wei r)) new) + (unat pc + unat (compute_share b r))
            = unat (bg_compute b)"
        "sum_list (map (\<lambda>r. unat (rw_tx_count_subsidy_wei r)) new) + (unat pt + unat (tx_share b))
            = unat (bg_tx b)"
        "sum_list (map (\<lambda>r. unat (rw_storage_rollover_wei r)) new) = 0"
      unfolding pc pt by auto
    show ?thesis
      using step(1-6) not_last new by (intro exI [of _ "rw # new"]) simp
  qed
qed simp

lemma provider_reward_loop_pool:
  "provider_reward_loop E b idx pc pt s rs = (s', r) \<Longrightarrow>
    emission_provider_pool_wei s' = emission_provider_pool_wei s"
proof (induction rs arbitrary: idx pc pt s)
  case (Cons receipt rest)
  then show ?case by (auto simp: Let_def split: option.splits if_splits dest!: Cons.IH)
qed simp

lemma receipt_weight_bounds: "0 < unat (receipt_weight r)" "unat (receipt_weight r) \<le> 255"
proof -
  have w: "unat (receipt_weight r) = unat (max (rc_score r) 1)"
    by (simp add: receipt_weight_def unat_ucast_widen)
  show "0 < unat (receipt_weight r)" unfolding w by (cases "rc_score r = 0") (auto simp: max_def unat_gt_0)
  show "unat (receipt_weight r) \<le> 255" unfolding w using unat_less_size [of "max (rc_score r) 1"] by simp
qed

lemma total_score_eq:
  assumes "length rs < 2 ^ 64"
  shows "unat (word_sum (map receipt_weight rs)) = sum_list (map (\<lambda>r. unat (receipt_weight r)) rs)"
proof -
  have "sum_list (map (\<lambda>r. unat (receipt_weight r)) rs) \<le> length rs * 255"
    using receipt_weight_bounds(2) by (intro sum_list_le_length_mult) simp
  also have "\<dots> < 2 ^ 128" using assms by simp
  finally show ?thesis using unat_word_sum [of "map receipt_weight rs"] by (simp add: comp_def)
qed

text \<open>The shares of all receipts but the last leave something for the last one.\<close>

lemma compute_shares_le:
  assumes "length rs < 2 ^ 64" and "bg_total_score b = word_sum (map receipt_weight rs)"
  shows "sum_list (map (\<lambda>r. unat (compute_share b r)) (butlast rs)) \<le> unat (bg_compute b)"
proof -
  let ?C = "unat (bg_compute b)" and ?w = "\<lambda>r. unat (receipt_weight r)"
  let ?D = "sum_list (map ?w rs)"
  have D: "unat (bg_total_score b) = ?D" using total_score_eq [OF assms(1)] assms(2) by simp
  have each: "unat (compute_share b r) \<le> ?C * ?w r div ?D" for r
    by (simp add: unat_div D unat_sat_mul div_le_mono)
  have "sum_list (map (\<lambda>r. unat (compute_share b r)) (butlast rs))
      \<le> sum_list (map (\<lambda>r. ?C * ?w r div ?D) (butlast rs))"
    by (rule sum_list_mono) (rule each)
  also have "\<dots> \<le> sum_list (map (\<lambda>r. ?C * ?w r) (butlast rs)) div ?D" by (rule sum_div_le)
  also have "\<dots> \<le> ?C * ?D div ?D"
    by (rule div_le_mono)
      (use sum_list_take_le [of "length rs - 1" "map ?w rs"] in
        \<open>simp add: sum_list_const_mult take_map butlast_conv_take\<close>)
  also have "\<dots> \<le> ?C" by simp
  finally show ?thesis .
qed

lemma tx_shares_le:
  assumes "bg_count b = length rs" and "length rs < 2 ^ 64"
  shows "length (butlast rs) * unat (tx_share b) \<le> unat (bg_tx b)"
proof -
  have n: "unat (of_nat (length rs) :: u128) = length rs"
    using assms(2) by (intro unat_of_nat_small) simp
  have "length (butlast rs) * (unat (bg_tx b) div length rs) \<le> length rs * (unat (bg_tx b) div length rs)"
    by simp
  also have "\<dots> \<le> unat (bg_tx b)" by simp
  finally show ?thesis using assms(1) n by (simp add: unat_div)
qed

lemma two_parts_le:
  assumes "a + b \<le> 10000"
  shows "min (T * a) M div 10000 + min (T * b) M div 10000 \<le> (T :: nat)"
proof -
  have "min (T * a) M div 10000 + min (T * b) M div 10000 \<le> T * a div 10000 + T * b div 10000"
    by (intro add_mono div_le_mono) simp_all
  also have "\<dots> \<le> (T * a + T * b) div 10000" by (rule add_div_le)
  also have "\<dots> \<le> T * 10000 div 10000"
    by (rule div_le_mono) (use assms in \<open>simp flip: distrib_left\<close>)
  finally show ?thesis by simp
qed

text \<open>
  The provider pool is distributed exactly: settling receipts empties the pool into one
  reward record per receipt, in the order of the receipts, and the compute and transaction
  subsidies of the records together with the storage rollover add up to what was in the pool.
\<close>
theorem provider_pool_distributed_exactly:
  assumes dist: "distribute_provider_pool_for_receipts E s rs = (s', Inr ())"
    and ne: "rs \<noteq> []" "emission_provider_pool_wei s \<noteq> 0"
    and bps: "unat (em_provider_storage_bps (ce_emission (chain_economics s)))
            + unat (em_provider_compute_bps (ce_emission (chain_economics s))) \<le> 10000"
    and len: "length rs < 2 ^ 64"
  shows "emission_provider_pool_wei s' = 0 \<and> (\<exists>new. provider_rewards s' = provider_rewards s @ new
    \<and> map rw_receipt_id new = map rc_receipt_id rs \<and> map rw_worker new = map rc_worker rs
    \<and> sum_list (map (\<lambda>r. unat (rw_compute_subsidy_wei r)) new)
      + sum_list (map (\<lambda>r. unat (rw_tx_count_subsidy_wei r)) new)
      + sum_list (map (\<lambda>r. unat (rw_storage_rollover_wei r)) new) = unat (emission_provider_pool_wei s))"
proof -
  let ?p = "ce_emission (chain_economics s)" and ?pool = "emission_provider_pool_wei s"
  define st where "st = sat_mul ?pool (ucast (em_provider_storage_bps ?p)) div 10000"
  define co where "co = sat_mul ?pool (ucast (em_provider_compute_bps ?p)) div 10000"
  define b where "b = \<lparr>bg_storage = st, bg_compute = co, bg_tx = sat_sub (sat_sub ?pool st) co,
     bg_total_score = word_sum (map receipt_weight rs), bg_count = length rs\<rparr>"
  define s2 where "s2 = s\<lparr>provider_organic_income_wei :=
       foldl record_organic_income (provider_organic_income_wei s) rs,
     emission_provider_pool_wei := 0,
     emission_provider_rollover_wei := sat_add (emission_provider_rollover_wei s) st\<rparr>"
  have loop: "provider_reward_loop E b 0 0 0 s2 rs = (s', Inr ())"
    using dist ne
    by (simp add: distribute_provider_pool_for_receipts_def Let_def b_def st_def co_def s2_def)
  have rewards: "provider_rewards s2 = provider_rewards s" by (simp add: s2_def)
  have pool: "emission_provider_pool_wei s' = 0"
    using provider_reward_loop_pool [OF loop] by (simp add: s2_def)
  have parts: "unat st + unat co \<le> unat ?pool"
    using two_parts_le [OF bps, of "unat ?pool" "2 ^ 128 - 1"]
    by (simp add: st_def co_def unat_div unat_sat_mul unat_ucast_widen)
  have tx: "unat (bg_tx b) + unat co + unat st = unat ?pool"
    using parts by (simp add: b_def unat_sat_sub)
  have "\<exists>new. provider_rewards s' = provider_rewards s2 @ new
    \<and> map rw_worker new = map rc_worker rs \<and> map rw_receipt_id new = map rc_receipt_id rs
    \<and> sum_list (map (\<lambda>r. unat (rw_compute_subsidy_wei r)) new) + unat (0 :: u128) = unat (bg_compute b)
    \<and> sum_list (map (\<lambda>r. unat (rw_tx_count_subsidy_wei r)) new) + unat (0 :: u128) = unat (bg_tx b)
    \<and> sum_list (map (\<lambda>r. unat (rw_storage_rollover_wei r)) new)
        = (if (0 :: nat) = 0 then unat (bg_storage b) else 0)"
    using compute_shares_le [OF len, of b] tx_shares_le [of b rs] len ne
    by (intro provider_reward_loop_exact [OF loop]) (simp_all add: b_def)
  then show ?thesis using tx rewards pool by (auto simp: b_def)
qed

definition sample_receipt :: "hash256 \<Rightarrow> u64 \<Rightarrow> u8 \<Rightarrow> on_chain_task_receipt" where
  "sample_receipt i w sc = \<lparr>rc_receipt_id = i, rc_job_id = 0, rc_requester = 0, rc_worker = w,
     rc_verifier = 0, rc_artifact_root = 0, rc_output_hash = 0, rc_score = sc, rc_payout_amount = 3,
     rc_verifier_fee = 0, rc_protocol_fee = 0, rc_final_status = 0, rc_finalized_at = 0,
     rc_schema_version = 1\<rparr>"

theorem provider_pool_distributed_exactly_witness:
  "let s = sample_state\<lparr>emission_provider_pool_wei := 101,
             chain_economics := chain_economics_mainnet\<lparr>ce_emission := sample_emission\<rparr>\<rparr>;
       s' = fst (distribute_provider_pool_for_receipts sample_ext s [sample_receipt 1 5 3, sample_receipt 2 6 4])
   in emission_provider_pool_wei s' = 0 \<and> length (provider_rewards s') = 2"
proof -
  let ?s = "sample_state\<lparr>emission_provider_pool_wei := 101,
             chain_economics := chain_economics_mainnet\<lparr>ce_emission := sample_emission\<rparr>\<rparr>"
  let ?rs = "[sample_receipt 1 5 3, sample_receipt 2 6 4]"
  let ?r = "distribute_provider_pool_for_receipts sample_ext ?s ?rs"
  have "snd ?r = Inr ()" by code_simp
  then have step: "?r = (fst ?r, Inr ())" by (metis prod.collapse)
  have bps: "unat (em_provider_storage_bps (ce_emission (chain_economics ?s)))
      + unat (em_provider_compute_bps (ce_emission (chain_economics ?s))) \<le> 10000"
    by (simp add: sample_emission_def)
  have old: "provider_rewards ?s = []" by (simp add: sample_state_def default_state_def)
  from provider_pool_distributed_exactly [OF step _ _ bps]
  have "emission_provider_pool_wei (fst ?r) = 0 \<and> (\<exists>new. provider_rewards (fst ?r) = new
      \<and> map rw_receipt_id new = map rc_receipt_id ?rs)" using old by auto
  then show ?thesis using map_eq_imp_length_eq by (fastforce simp: Let_def)
qed

section \<open>Intelligence payouts\<close>

lemma positive_payout:
  "(if a > 0 then insert_life_payout E s c k b a e else (s, Inr ())) = (s', Inr ()) \<Longrightarrow>
    emission_intelligence_pool_wei s' = emission_intelligence_pool_wei s
    \<and> (\<exists>new. life_payouts s' = life_payouts s @ new
         \<and> sum_list (map (\<lambda>p. unat (lp_amount_wei p)) new) = unat a)"
  by (auto simp: insert_life_payout_def Let_def word_gt_0 split: option.splits if_splits)

text \<open>
  An intelligence payout takes its gross amount out of the intelligence pool and records
  payouts that add up to exactly that amount (the primary share and, with a counterparty, the
  royalty), provided the first royalty hop is at most 100 percent.  A payout beyond the pool
  is refused.
\<close>
theorem intelligence_payout_exact:
  assumes "apply_intelligence_payout E s c = (s', Inr ())"
    and hop: "unat (first_hop_bps s) \<le> 10000"
  shows "unat (emission_intelligence_pool_wei s') + unat (lc_amount_micro_credits c)
      = unat (emission_intelligence_pool_wei s)
    \<and> (\<exists>new. life_payouts s' = life_payouts s @ new
         \<and> sum_list (map (\<lambda>p. unat (lp_amount_wei p)) new) = unat (lc_amount_micro_credits c))"
proof -
  let ?gross = "lc_amount_micro_credits c"
  define s1 where "s1 = s\<lparr>emission_intelligence_pool_wei := emission_intelligence_pool_wei s - ?gross\<rparr>"
  define royalty where "royalty = (case lc_counterparty_hash c of None \<Rightarrow> 0
      | Some _ \<Rightarrow> sat_mul ?gross (ucast (first_hop_bps s1)) div 10000)"
  have hop1: "first_hop_bps s1 = first_hop_bps s" by (simp add: first_hop_bps_def s1_def)
  have "unat (sat_mul ?gross (ucast (first_hop_bps s1)) div 10000) \<le> unat ?gross"
    using two_parts_le [of "unat (first_hop_bps s1)" 0 "unat ?gross" "2 ^ 128 - 1"] hop hop1
    by (simp add: unat_div unat_sat_mul unat_ucast_widen)
  then have royalty_le: "unat royalty \<le> unat ?gross"
    by (simp add: royalty_def split: option.splits)
  have primary: "unat (sat_sub ?gross royalty) + unat royalty = unat ?gross"
    using royalty_le by (simp add: unat_sat_sub)
  show ?thesis
  proof (cases "?gross = 0")
    case True
    then show ?thesis using assms(1) by (simp add: apply_intelligence_payout_def)
  next
    case False
    have le: "\<not> ?gross > emission_intelligence_pool_wei s"
      using assms(1) False by (auto simp: apply_intelligence_payout_def Let_def)
    have pool: "unat (emission_intelligence_pool_wei s1) + unat ?gross = unat (emission_intelligence_pool_wei s)"
      using le by (simp add: s1_def unat_sub word_le_nat_alt not_less)
    define release where
      "release = sat_add (lc_epoch c) (em_vesting_epochs (ce_emission (chain_economics s1)))"
    have "and_then
        (if sat_sub ?gross royalty > 0
         then insert_life_payout E s1 c PrimaryPayout (lc_soul_id_hash c) (sat_sub ?gross royalty) release
         else (s1, Inr ()))
        (\<lambda>s2 _. case lc_counterparty_hash c of None \<Rightarrow> (s2, Inr ())
          | Some h \<Rightarrow> if royalty > 0 then insert_life_payout E s2 c RoyaltyPayout h royalty release
              else (s2, Inr ())) = (s', Inr ())"
      using assms(1) False le
      unfolding release_def royalty_def s1_def apply_intelligence_payout_def Let_def by presburger
    then obtain s2 where first: "(if sat_sub ?gross royalty > 0
         then insert_life_payout E s1 c PrimaryPayout (lc_soul_id_hash c) (sat_sub ?gross royalty) release
         else (s1, Inr ())) = (s2, Inr ())"
        and second: "(case lc_counterparty_hash c of None \<Rightarrow> (s2, Inr ())
          | Some h \<Rightarrow> if royalty > 0 then insert_life_payout E s2 c RoyaltyPayout h royalty release
              else (s2, Inr ())) = (s', Inr ())"
      by (elim and_then_OkE) simp
    obtain new1 where n1: "life_payouts s2 = life_payouts s1 @ new1"
        "sum_list (map (\<lambda>p. unat (lp_amount_wei p)) new1) = unat (sat_sub ?gross royalty)"
        "emission_intelligence_pool_wei s2 = emission_intelligence_pool_wei s1"
      using positive_payout [OF first] by blast
    obtain new2 where n2: "life_payouts s' = life_payouts s2 @ new2"
        "sum_list (map (\<lambda>p. unat (lp_amount_wei p)) new2) = unat royalty"
        "emission_intelligence_pool_wei s' = emission_intelligence_pool_wei s2"
    proof (cases "lc_counterparty_hash c")
      case None
      then show thesis using second that [of "[]"] by (simp add: royalty_def)
    next
      case (Some h)
      then show thesis using positive_payout [of royalty E s2 c RoyaltyPayout h release s'] second that
        by auto
    qed
    have "life_payouts s1 = life_payouts s" by (simp add: s1_def)
    then show ?thesis using n1 n2 pool primary by auto
  qed
qed

theorem intelligence_payout_exact_witness:
  "let s = sample_state\<lparr>emission_intelligence_pool_wei := 500,
             chain_economics := chain_economics_mainnet\<lparr>ce_emission := sample_emission\<rparr>\<rparr>;
       c = \<lparr>lc_command_id = 1, lc_kind = IntelligencePayout, lc_soul_id_hash = 2,
            lc_counterparty_hash = Some 3, lc_epoch = 4, lc_amount_micro_credits = 200, lc_payload_hash = 5\<rparr>;
       s' = fst (apply_intelligence_payout sample_ext s c)
   in unat (emission_intelligence_pool_wei s') = 300
      \<and> sum_list (map (\<lambda>p. unat (lp_amount_wei p)) (life_payouts s')) = 200"
proof -
  let ?s = "sample_state\<lparr>emission_intelligence_pool_wei := 500,
             chain_economics := chain_economics_mainnet\<lparr>ce_emission := sample_emission\<rparr>\<rparr>"
  let ?c = "\<lparr>lc_command_id = 1, lc_kind = IntelligencePayout, lc_soul_id_hash = 2,
            lc_counterparty_hash = Some 3, lc_epoch = 4, lc_amount_micro_credits = 200, lc_payload_hash = 5\<rparr>"
  let ?r = "apply_intelligence_payout sample_ext ?s ?c"
  have "snd ?r = Inr ()" by code_simp
  then have step: "?r = (fst ?r, Inr ())" by (metis prod.collapse)
  have hop: "unat (first_hop_bps ?s) \<le> 10000" by (simp add: first_hop_bps_def sample_emission_def)
  have old: "life_payouts ?s = []" by (simp add: sample_state_def default_state_def)
  show ?thesis using intelligence_payout_exact [OF step hop] old by (auto simp: Let_def)
qed

section \<open>Stale object versions\<close>

lemma check_versions_ok:
  "check_versions s vs = Inr u \<Longrightarrow> v \<in> set vs \<Longrightarrow> version v = owned_object_version s (object_id v)"
  by (induction s vs rule: check_versions.induct) (auto simp: Let_def split: if_splits)

lemma precheck_ok:
  assumes "precheck_owned_transaction E s tx vs gas_limit max_fee base_fee = Inr pc"
  shows "\<exists>owner objects acc. execution_scope tx = Owned owner objects
    \<and> accounts s (tx_signer tx) = Some acc \<and> acc_nonce acc = tx_nonce tx
    \<and> object_id ` set vs = set objects
    \<and> (\<forall>v \<in> set vs. version v = owned_object_version s (object_id v))
    \<and> op_object_versions pc = dedup (sort vs)
    \<and> op_tx_gas pc \<le> gas_limit \<and> base_fee \<le> max_fee
    \<and> unat (op_tx_gas pc) * unat max_fee \<le> unat (acc_balance acc)"
proof (cases "execution_scope tx")
  case (Owned owner objects)
  obtain acc where acc: "accounts s (tx_signer tx) = Some acc" "acc_nonce acc = tx_nonce tx"
    using assms Owned by (auto simp: precheck_owned_transaction_def split: if_splits option.splits)
  have "map object_id (dedup (sort vs)) = objects"
    using assms Owned acc by (auto simp: precheck_owned_transaction_def Let_def split: if_splits)
  then have objs: "object_id ` set vs = set objects"
    by (metis list.set_map set_dedup set_sort)
  have "check_versions s (dedup (sort vs)) = Inr ()"
    using assms Owned acc
    by (auto simp: precheck_owned_transaction_def Let_def split: if_splits sum.splits)
  then have vers: "\<forall>v \<in> set vs. version v = owned_object_version s (object_id v)"
    using check_versions_ok [of s "dedup (sort vs)"] by simp
  obtain req where req: "checked_mul (ucast (op_tx_gas pc)) max_fee = Some req" "req \<le> acc_balance acc"
      and rest: "op_object_versions pc = dedup (sort vs)" "op_tx_gas pc \<le> gas_limit" "base_fee \<le> max_fee"
    using assms Owned acc
    by (auto simp: precheck_owned_transaction_def Let_def not_less
        split: if_splits sum.splits option.splits)
  have "unat (op_tx_gas pc) * unat max_fee \<le> unat (acc_balance acc)"
    using checked_mul_unat [OF req(1)] req(2) by (simp add: unat_ucast_widen word_le_nat_alt)
  then show ?thesis using Owned acc objs vers rest by blast
qed (use assms in \<open>simp_all add: precheck_owned_transaction_def\<close>)

text \<open>
  Certified versions go stale: object versions that passed the precheck of an owned
  transaction do not pass it again in any later state once a transaction that shares an object
  with it has succeeded, whatever else was applied; so two transactions on a common owned
  object can not both be admitted on the same versions.
\<close>
theorem stale_versions_rejected:
  assumes pre: "precheck_owned_transaction E s tx vs gas_limit max_fee base_fee = Inr pc"
    and step: "apply_transaction E s tx' = (s1, Inr ())"
    and shared: "obj \<in> set (scope_objects (execution_scope tx))" "obj \<in> touched tx'"
    and unsaturated: "owned_object_version s obj \<noteq> - 1"
    and run: "run_all (apply_transaction E) s1 txs = (s2, r)"
  shows "\<exists>e. precheck_owned_transaction E s2 tx vs gas_limit' max_fee' base_fee' = Inl e"
proof (cases "precheck_owned_transaction E s2 tx vs gas_limit' max_fee' base_fee'")
  case (Inr pc')
  have "obj \<in> object_id ` set vs" using precheck_ok [OF pre] shared(1) by auto
  then obtain v where v: "v \<in> set vs" "object_id v = obj" by blast
  have "version v = owned_object_version s obj" using precheck_ok [OF pre] v by blast
  moreover have "version v = owned_object_version s2 obj" using precheck_ok [OF Inr] v by blast
  moreover have "owned_object_version s obj < owned_object_version s1 obj"
    using transaction_version [OF step, of obj] shared(2) less_sat_add_1 [OF unsaturated] by simp
  moreover have "owned_object_version s1 obj \<le> owned_object_version s2 obj"
    using ledger.run_keeps [OF run] by (simp add: ledger_grows_def)
  ultimately show ?thesis by simp
qed simp

theorem stale_versions_rejected_witness:
  "let tx = \<lparr>tx_signer = 1, tx_nonce = 0, tx_vm = VmNative, tx_body = Native (ProofCommitmentV1 4)\<rparr>;
       vs = [OwnedObjectVersion (AccountNonce 1) 0, OwnedObjectVersion (ProofCommitment 4) 0];
       s1 = fst (apply_transaction sample_ext sample_state tx)
   in is_ok (precheck_owned_transaction sample_ext sample_state tx vs 10000 0 0)
      \<and> (\<exists>e. precheck_owned_transaction sample_ext s1 tx vs 10000 0 0 = Inl e)"
proof -
  let ?tx = "\<lparr>tx_signer = 1, tx_nonce = 0, tx_vm = VmNative, tx_body = Native (ProofCommitmentV1 4)\<rparr>"
  let ?vs = "[OwnedObjectVersion (AccountNonce 1) 0, OwnedObjectVersion (ProofCommitment 4) 0]"
  let ?r = "apply_transaction sample_ext sample_state ?tx"
  have pre: "is_ok (precheck_owned_transaction sample_ext sample_state ?tx ?vs 10000 0 0)" by code_simp
  then obtain pc where pc: "precheck_owned_transaction sample_ext sample_state ?tx ?vs 10000 0 0 = Inr pc"
    by (auto simp: is_ok_def split: sum.splits)
  have "snd ?r = Inr ()" by code_simp
  then have step: "?r = (fst ?r, Inr ())" by (metis prod.collapse)
  have run: "run_all (apply_transaction sample_ext) (fst ?r) [] = (fst ?r, Inr ())" by simp
  have "AccountNonce 1 \<in> set (scope_objects (execution_scope ?tx))" by (simp add: execution_scope_def)
  moreover have "AccountNonce 1 \<in> touched ?tx" by (simp add: touched_def)
  moreover have "owned_object_version sample_state (AccountNonce 1) \<noteq> - 1" by code_simp
  ultimately show ?thesis
    using stale_versions_rejected [OF pc step _ _ _ run, of "AccountNonce 1" 10000 0 0] pre
    by (auto simp: Let_def)
qed

section \<open>The total of a batch wraps\<close>

definition wrap_batch :: settle_batch_payload where
  "wrap_batch = \<lparr>
     sb_batch_id = 78, sb_operator = 2, sb_receipts = [],
     sb_payout_entries = [\<lparr>pe_index = 0, pe_account = 2, pe_amount = 2 ^ 127\<rparr>,
                          \<lparr>pe_index = 1, pe_account = 2, pe_amount = 2 ^ 127\<rparr>],
     sb_submitted_at = 5, sb_operator_sig = 0\<rparr>"

definition wrap_path :: "hash256 list" where
  "wrap_path = [hash_payout_entry sample_ext \<lparr>pe_index = 1, pe_account = 2, pe_amount = 2 ^ 127\<rparr>]"

text \<open>
  The total of a batch is a wrapping sum in a release build: account 2 with balance 5
  settles a batch of two payouts of \<open>2 ^ 127\<close> each, is charged nothing, and then claims one
  of them, so its balance is \<open>2 ^ 127 + 5\<close>.
\<close>
theorem settle_batch_total_wraps:
  "(let r1 = apply_settle_batch sample_ext sample_state 2 wrap_batch True;
        r2 = apply_claim_payout sample_ext (fst r1) 2 78 2 (2 ^ 127) 0 wrap_path True
    in snd r1 = Inr () \<and> snd r2 = Inr ()
       \<and> map_option acc_balance (accounts (fst r1) 2) = Some 5
       \<and> map_option acc_balance (accounts (fst r2) 2) = Some (2 ^ 127 + 5))"
  by code_simp

end
