(* ===== verification/Quorum.thy ===== *)
theory Quorum
  imports Fractal_Prelude
begin

text \<open>
  Threshold quorums.  Certificates and votes both count distinct validators against a
  threshold; the two locales state what such counting gives: two quorums share at least
  \<open>2 k - n\<close> members, and where the threshold leaves a margin over the number of faults, they
  share more members than there are faults.
\<close>

locale threshold_quorum =
  fixes members :: "'v set" and threshold :: nat
  assumes finite_members: "finite members"
begin

definition quorum :: "'v set \<Rightarrow> bool" where
  "quorum A \<longleftrightarrow> A \<subseteq> members \<and> threshold \<le> card A"

lemma quorum_intersection:
  assumes "quorum A" and "quorum B"
  shows "2 * threshold \<le> card (A \<inter> B) + card members"
proof -
  have sub: "A \<subseteq> members" "B \<subseteq> members" and size: "threshold \<le> card A" "threshold \<le> card B"
    using assms by (simp_all add: quorum_def)
  have fin: "finite A" "finite B" using sub finite_members finite_subset by blast+
  have "card (A \<union> B) \<le> card members" using sub finite_members by (intro card_mono) auto
  then show ?thesis using card_Un_Int [OF fin] size by linarith
qed

end

locale bft_quorum = threshold_quorum +
  fixes faults :: nat
  assumes margin: "card members + faults < 2 * threshold"
begin

lemma quorums_share_honest:
  assumes "quorum A" and "quorum B" and "Byz \<subseteq> members" and "card Byz \<le> faults"
  shows "\<exists>v. v \<in> A \<and> v \<in> B \<and> v \<notin> Byz"
proof (rule ccontr)
  assume "\<not> ?thesis"
  then have sub: "A \<inter> B \<subseteq> Byz" by blast
  have "finite Byz" using assms(3) finite_members finite_subset by blast
  then have "card (A \<inter> B) \<le> faults" using card_mono [OF _ sub] assms(4) by linarith
  then show False using quorum_intersection [OF assms(1,2)] margin by linarith
qed

end

end
