(* ===== verification/Certificates.thy ===== *)
theory Certificates
  imports Ledger_Funds Quorum
begin

text \<open>
  Owned-object certificates, the second half of \<open>crates/core/src/tx.rs\<close>: countersigning,
  aggregation, verification against a validator set, and the evidence that two certificates
  conflict.  BLS and the Borsh encoders of the certificate types are the record \<open>cert_ext\<close>.
\<close>

section \<open>Data\<close>

record owned_object_validator_signature =
  vs_validator_index :: u32
  vs_signature :: bls_signature

record owned_object_certificate_sign_body =
  sg_tx_hash :: hash256
  sg_owner :: address
  sg_signer_nonce :: u64
  sg_object_versions :: "owned_object_version list"

record owned_object_certificate =
  ct_tx_hash :: hash256
  ct_owner :: address
  ct_signer_nonce :: u64
  ct_object_versions :: "owned_object_version list"
  ct_signer_indices :: "u32 list"
  ct_validator_signatures :: "owned_object_validator_signature list"

record conflicting_certificate_evidence =
  ce_certificate_a :: owned_object_certificate
  ce_certificate_b :: owned_object_certificate

record conflicting_certificate_finding =
  fi_evidence_hash :: hash256
  fi_conflicting_object_versions :: "owned_object_version list"
  fi_slashable_validator_indices :: "u32 list"

datatype certificate_error =
    CertNotOwnedObject
  | CertObjectVersionSet
  | CertSignerSet
  | CertValidatorIndex u32
  | CertInsufficientSignatures nat nat
  | CertBadSignature
  | CertEncode

datatype evidence_error =
    EvCertificateA certificate_error
  | EvCertificateB certificate_error
  | EvSameCertificate
  | EvNoObjectVersionConflict
  | EvNoSlashableSigner
  | EvEncode

record 'sk cert_ext =
  cx_bls_sign :: "'sk \<Rightarrow> bytes \<Rightarrow> bls_signature"
  cx_bls_verify :: "bls_signature \<Rightarrow> bytes \<Rightarrow> bls_pubkey \<Rightarrow> bool"
  cx_borsh_sign_body :: "owned_object_certificate_sign_body \<Rightarrow> bytes option"
  cx_borsh_certificate :: "owned_object_certificate \<Rightarrow> bytes option"
  cx_borsh_evidence :: "conflicting_certificate_evidence \<Rightarrow> bytes option"

section \<open>Operations\<close>

definition sign_bytes ::
    "'sk cert_ext \<Rightarrow> owned_object_certificate_sign_body \<Rightarrow> certificate_error + bytes" where
  "sign_bytes X body = (case cx_borsh_sign_body X body of None \<Rightarrow> Inl CertEncode | Some b \<Rightarrow> Inr b)"

definition canonical_bytes :: "'sk cert_ext \<Rightarrow> owned_object_certificate \<Rightarrow> certificate_error + bytes" where
  "canonical_bytes X cert = (case cx_borsh_certificate X cert of None \<Rightarrow> Inl CertEncode | Some b \<Rightarrow> Inr b)"

definition certificate_hash ::
    "ext \<Rightarrow> 'sk cert_ext \<Rightarrow> owned_object_certificate \<Rightarrow> certificate_error + hash256" where
  "certificate_hash E X cert =
     (case canonical_bytes X cert of Inl e \<Rightarrow> Inl e | Inr b \<Rightarrow> Inr (ext_keccak256 E b))"

definition sign_body :: "owned_object_certificate \<Rightarrow> owned_object_certificate_sign_body" where
  "sign_body cert = \<lparr>sg_tx_hash = ct_tx_hash cert, sg_owner = ct_owner cert,
     sg_signer_nonce = ct_signer_nonce cert, sg_object_versions = ct_object_versions cert\<rparr>"

definition countersign ::
    "'sk cert_ext \<Rightarrow> owned_object_certificate_sign_body \<Rightarrow> u32 \<Rightarrow> 'sk
     \<Rightarrow> certificate_error + owned_object_validator_signature" where
  "countersign X body validator_index secret =
     (case sign_bytes X body of
        Inl e \<Rightarrow> Inl e
      | Inr bytes \<Rightarrow> Inr \<lparr>vs_validator_index = validator_index, vs_signature = cx_bls_sign X secret bytes\<rparr>)"

definition from_owned_transaction ::
    "ext \<Rightarrow> transaction \<Rightarrow> owned_object_version list \<Rightarrow> owned_object_validator_signature list
     \<Rightarrow> certificate_error + owned_object_certificate" where
  "from_owned_transaction E tx object_versions validator_signatures =
     (case execution_scope tx of
        Owned owner objects \<Rightarrow>
          (let versions = dedup (sort object_versions)
           in if map object_id versions \<noteq> objects then Inl CertObjectVersionSet
              else
                let sigs = dedup_by vs_validator_index (sort_key vs_validator_index validator_signatures);
                    signer_indices = map vs_validator_index sigs
                in case ext_borsh_transaction E tx of
                     None \<Rightarrow> Inl CertEncode
                   | Some raw \<Rightarrow>
                       Inr \<lparr>ct_tx_hash = ext_keccak256 E raw, ct_owner = owner,
                            ct_signer_nonce = tx_nonce tx, ct_object_versions = versions,
                            ct_signer_indices = signer_indices, ct_validator_signatures = sigs\<rparr>)
      | _ \<Rightarrow> Inl CertNotOwnedObject)"

definition aggregate ::
    "ext \<Rightarrow> transaction \<Rightarrow> owned_object_version list \<Rightarrow> owned_object_validator_signature list \<Rightarrow> nat
     \<Rightarrow> certificate_error + owned_object_certificate" where
  "aggregate E tx object_versions validator_signatures quorum_threshold =
     (case from_owned_transaction E tx object_versions validator_signatures of
        Inl e \<Rightarrow> Inl e
      | Inr cert \<Rightarrow>
          if length (ct_validator_signatures cert) < quorum_threshold
          then Inl (CertInsufficientSignatures (length (ct_validator_signatures cert)) quorum_threshold)
          else Inr cert)"

text \<open>\<open>windows(2).any(|w| w[0] >= w[1])\<close>\<close>

fun any_descent :: "'a::linorder list \<Rightarrow> bool" where
  "any_descent (x # y # zs) \<longleftrightarrow> y \<le> x \<or> any_descent (y # zs)"
| "any_descent _ \<longleftrightarrow> False"

fun verify_signatures ::
    "'sk cert_ext \<Rightarrow> bls_pubkey list \<Rightarrow> bytes \<Rightarrow> owned_object_validator_signature list
     \<Rightarrow> certificate_error + unit" where
  "verify_signatures X pks bytes [] = Inr ()"
| "verify_signatures X pks bytes (sig # sigs) =
     (if length pks \<le> unat (vs_validator_index sig)
      then Inl (CertValidatorIndex (vs_validator_index sig))
      else if \<not> cx_bls_verify X (vs_signature sig) bytes (pks ! unat (vs_validator_index sig))
      then Inl CertBadSignature
      else verify_signatures X pks bytes sigs)"

definition certificate_verify ::
    "'sk cert_ext \<Rightarrow> owned_object_certificate \<Rightarrow> bls_pubkey list \<Rightarrow> nat \<Rightarrow> certificate_error + unit" where
  "certificate_verify X cert validator_pubkeys quorum_threshold =
     (if length (ct_validator_signatures cert) < quorum_threshold
      then Inl (CertInsufficientSignatures (length (ct_validator_signatures cert)) quorum_threshold)
      else
        let signer_indices = map vs_validator_index (ct_validator_signatures cert)
        in if signer_indices \<noteq> ct_signer_indices cert then Inl CertSignerSet
           else if any_descent signer_indices then Inl CertSignerSet
           else case sign_bytes X (sign_body cert) of
             Inl e \<Rightarrow> Inl e
           | Inr bytes \<Rightarrow> verify_signatures X validator_pubkeys bytes (ct_validator_signatures cert))"

text \<open>A \<open>BTreeSet\<close> collected from a list, and the intersection of two, in ascending order.\<close>

definition btree_set :: "'a::linorder list \<Rightarrow> 'a list" where
  "btree_set xs = sort (remdups xs)"

definition btree_intersection :: "'a::linorder list \<Rightarrow> 'a list \<Rightarrow> 'a list" where
  "btree_intersection xs ys = filter (\<lambda>x. x \<in> set ys) xs"

definition evidence_hash ::
    "ext \<Rightarrow> 'sk cert_ext \<Rightarrow> conflicting_certificate_evidence \<Rightarrow> evidence_error + hash256" where
  "evidence_hash E X ev =
     (case cx_borsh_evidence X ev of None \<Rightarrow> Inl EvEncode | Some b \<Rightarrow> Inr (ext_keccak256 E b))"

definition evidence_verify ::
    "ext \<Rightarrow> 'sk cert_ext \<Rightarrow> conflicting_certificate_evidence \<Rightarrow> bls_pubkey list \<Rightarrow> nat
     \<Rightarrow> evidence_error + conflicting_certificate_finding" where
  "evidence_verify E X ev validator_pubkeys quorum_threshold =
     (let a = ce_certificate_a ev; b = ce_certificate_b ev
      in case certificate_verify X a validator_pubkeys quorum_threshold of
           Inl e \<Rightarrow> Inl (EvCertificateA e)
         | Inr _ \<Rightarrow>
         (case certificate_verify X b validator_pubkeys quorum_threshold of
           Inl e \<Rightarrow> Inl (EvCertificateB e)
         | Inr _ \<Rightarrow>
         (case certificate_hash E X a of
           Inl e \<Rightarrow> Inl (EvCertificateA e)
         | Inr ha \<Rightarrow>
         (case certificate_hash E X b of
           Inl e \<Rightarrow> Inl (EvCertificateB e)
         | Inr hb \<Rightarrow>
             if ha = hb then Inl EvSameCertificate
             else if sign_body a = sign_body b then Inl EvSameCertificate
             else
               let conflicting = btree_intersection (btree_set (ct_object_versions a))
                     (btree_set (ct_object_versions b))
               in if conflicting = [] then Inl EvNoObjectVersionConflict
                  else
                    let slashable = btree_intersection (btree_set (ct_signer_indices a))
                          (btree_set (ct_signer_indices b))
                    in if slashable = [] then Inl EvNoSlashableSigner
                       else case evidence_hash E X ev of
                         Inl e \<Rightarrow> Inl e
                       | Inr h \<Rightarrow>
                           Inr \<lparr>fi_evidence_hash = h, fi_conflicting_object_versions = conflicting,
                                fi_slashable_validator_indices = slashable\<rparr>))))"

section \<open>Signers\<close>

lemma any_descent_iff: "\<not> any_descent xs \<longleftrightarrow> sorted_wrt (<) xs"
  by (induction xs rule: any_descent.induct) (auto simp: not_le intro: less_trans)

lemma verify_signatures_ok_iff:
  "verify_signatures X pks bytes sigs = Inr u \<longleftrightarrow>
    (\<forall>sig \<in> set sigs. unat (vs_validator_index sig) < length pks
       \<and> cx_bls_verify X (vs_signature sig) bytes (pks ! unat (vs_validator_index sig)))"
  by (induction X pks bytes sigs rule: verify_signatures.induct) (auto simp: not_le)

text \<open>What a verified certificate shows: a threshold of distinct validators signed its body.\<close>

lemma certificate_verify_ok:
  assumes "certificate_verify X cert pks k = Inr u"
  shows "\<exists>bytes. sign_bytes X (sign_body cert) = Inr bytes
    \<and> sorted_wrt (<) (ct_signer_indices cert) \<and> k \<le> length (ct_signer_indices cert)
    \<and> ct_signer_indices cert = map vs_validator_index (ct_validator_signatures cert)
    \<and> (\<forall>sig \<in> set (ct_validator_signatures cert). unat (vs_validator_index sig) < length pks
         \<and> cx_bls_verify X (vs_signature sig) bytes (pks ! unat (vs_validator_index sig)))"
proof -
  have len: "k \<le> length (ct_validator_signatures cert)"
    and idx: "map vs_validator_index (ct_validator_signatures cert) = ct_signer_indices cert"
    and asc: "\<not> any_descent (ct_signer_indices cert)"
    using assms by (auto simp: certificate_verify_def Let_def split: if_splits)
  obtain bytes where bytes: "sign_bytes X (sign_body cert) = Inr bytes"
      "verify_signatures X pks bytes (ct_validator_signatures cert) = Inr ()"
    using assms by (auto simp: certificate_verify_def Let_def split: if_splits sum.splits)
  show ?thesis
    using len idx asc bytes any_descent_iff [of "ct_signer_indices cert"]
      verify_signatures_ok_iff [of X pks bytes "ct_validator_signatures cert"]
    by (metis length_map)
qed

lemma certificate_signer:
  assumes "certificate_verify X cert pks k = Inr u" and "i \<in> set (ct_signer_indices cert)"
  shows "\<exists>bytes sig. sign_bytes X (sign_body cert) = Inr bytes \<and> unat i < length pks
    \<and> sig \<in> set (ct_validator_signatures cert) \<and> vs_validator_index sig = i
    \<and> cx_bls_verify X (vs_signature sig) bytes (pks ! unat i)"
  using certificate_verify_ok [OF assms(1)] assms(2) by auto blast

text \<open>The validators of a set of \<open>n\<close> keys, and the signers of a certificate as a quorum of them.\<close>

definition validator_indices :: "bls_pubkey list \<Rightarrow> u32 set" where
  "validator_indices pks = {i. unat i < length pks}"

interpretation certq: threshold_quorum "validator_indices pks" k for pks k
  by unfold_locales simp

lemma card_validator_indices: "card (validator_indices pks) \<le> length pks"
proof -
  have "unat ` validator_indices pks \<subseteq> {..<length pks}" by (auto simp: validator_indices_def)
  then have "card (unat ` validator_indices pks) \<le> length pks"
    using card_mono [of "{..<length pks}"] by fastforce
  moreover have "inj_on (unat :: u32 \<Rightarrow> nat) (validator_indices pks)"
    by (auto simp: inj_on_def word_unat_eq_iff)
  ultimately show ?thesis by (simp add: card_image)
qed

lemma certificate_quorum:
  assumes "certificate_verify X cert pks k = Inr u"
  shows "certq.quorum pks k (set (ct_signer_indices cert))"
proof -
  note ok = certificate_verify_ok [OF assms]
  have "distinct (ct_signer_indices cert)" using ok sorted_wrt_less_distinct by blast
  then have "k \<le> card (set (ct_signer_indices cert))" using ok by (auto simp: distinct_card)
  moreover have "set (ct_signer_indices cert) \<subseteq> validator_indices pks"
    using ok by (auto simp: validator_indices_def)
  ultimately show ?thesis by (simp add: certq.quorum_def)
qed

lemma set_btree_set [simp]: "set (btree_set xs) = set xs"
  by (simp add: btree_set_def)

lemma btree_intersection_props:
  "set (btree_intersection (btree_set xs) (btree_set ys)) = set xs \<inter> set ys"
  "sorted_wrt (<) (btree_intersection (btree_set xs) (btree_set ys))"
proof -
  show "set (btree_intersection (btree_set xs) (btree_set ys)) = set xs \<inter> set ys"
    by (auto simp: btree_intersection_def)
  have "sorted_wrt (<) (btree_set xs)"
    by (simp add: btree_set_def strict_sorted_iff)
  then show "sorted_wrt (<) (btree_intersection (btree_set xs) (btree_set ys))"
    unfolding btree_intersection_def by (rule sorted_wrt_filter)
qed

section \<open>Properties\<close>

text \<open>Concrete signatures for the witnesses: the secret and the public key are the same number.\<close>

definition sample_cert_ext :: "bls_pubkey cert_ext" where
  "sample_cert_ext = \<lparr>
     cx_bls_sign = (\<lambda>sk m. ucast sk + of_nat (length m)),
     cx_bls_verify = (\<lambda>sig m pk. sig = ucast pk + of_nat (length m)),
     cx_borsh_sign_body = (\<lambda>b. Some (be_bytes 32 (sg_tx_hash b) @ be_bytes 8 (sg_signer_nonce b))),
     cx_borsh_certificate = (\<lambda>c. Some (be_bytes 32 (ct_tx_hash c))),
     cx_borsh_evidence = (\<lambda>e. Some (be_bytes 32 (ct_tx_hash (ce_certificate_a e))))\<rparr>"

definition sample_cert :: "hash256 \<Rightarrow> owned_object_certificate" where
  "sample_cert h = \<lparr>ct_tx_hash = h, ct_owner = 1, ct_signer_nonce = 0,
     ct_object_versions = [OwnedObjectVersion (AccountNonce 1) 0],
     ct_signer_indices = [0, 1, 2],
     ct_validator_signatures = [\<lparr>vs_validator_index = 0, vs_signature = 50\<rparr>,
       \<lparr>vs_validator_index = 1, vs_signature = 51\<rparr>, \<lparr>vs_validator_index = 2, vs_signature = 52\<rparr>]\<rparr>"

definition sample_pks :: "bls_pubkey list" where
  "sample_pks = [10, 11, 12, 13]"

text \<open>
  C25.  Accountability: when two conflicting certificates pass as evidence against \<open>n\<close>
  validators with threshold \<open>k\<close>, the finding names at least \<open>2 k - n\<close> validators, in
  ascending order and each once; each of them has a valid signature under both certificates,
  over different bodies, and the two bodies share an object version.
\<close>
theorem conflicting_certificates_accountable:
  assumes "evidence_verify E X ev pks k = Inr fi"
  shows "2 * k \<le> length (fi_slashable_validator_indices fi) + length pks
    \<and> sorted_wrt (<) (fi_slashable_validator_indices fi)
    \<and> sign_body (ce_certificate_a ev) \<noteq> sign_body (ce_certificate_b ev)
    \<and> (\<exists>v. v \<in> set (ct_object_versions (ce_certificate_a ev)) \<inter> set (ct_object_versions (ce_certificate_b ev)))
    \<and> (\<forall>i \<in> set (fi_slashable_validator_indices fi).
         \<exists>ba bb sa sb. sign_bytes X (sign_body (ce_certificate_a ev)) = Inr ba
           \<and> sign_bytes X (sign_body (ce_certificate_b ev)) = Inr bb
           \<and> unat i < length pks \<and> vs_validator_index sa = i \<and> vs_validator_index sb = i
           \<and> sa \<in> set (ct_validator_signatures (ce_certificate_a ev))
           \<and> sb \<in> set (ct_validator_signatures (ce_certificate_b ev))
           \<and> cx_bls_verify X (vs_signature sa) ba (pks ! unat i)
           \<and> cx_bls_verify X (vs_signature sb) bb (pks ! unat i))"
proof -
  let ?a = "ce_certificate_a ev" and ?b = "ce_certificate_b ev"
  let ?S = "fi_slashable_validator_indices fi"
  let ?sl = "btree_intersection (btree_set (ct_signer_indices ?a)) (btree_set (ct_signer_indices ?b))"
  let ?co = "btree_intersection (btree_set (ct_object_versions ?a)) (btree_set (ct_object_versions ?b))"
  obtain ua ub where va: "certificate_verify X ?a pks k = Inr ua" and vb: "certificate_verify X ?b pks k = Inr ub"
    using assms by (auto simp: evidence_verify_def Let_def split: sum.splits)
  have ne: "sign_body ?a \<noteq> sign_body ?b" "?co \<noteq> []" "?S = ?sl"
    using assms by (auto simp: evidence_verify_def Let_def split: sum.splits if_splits)
  have S: "set ?S = set (ct_signer_indices ?a) \<inter> set (ct_signer_indices ?b)" "sorted_wrt (<) ?S"
    using ne(3) btree_intersection_props [of "ct_signer_indices ?a" "ct_signer_indices ?b"] by simp_all
  have "2 * k \<le> card (set ?S) + card (validator_indices pks)"
    using certq.quorum_intersection [OF certificate_quorum [OF va] certificate_quorum [OF vb]] S(1) by simp
  moreover have "card (set ?S) = length ?S"
    using S(2) by (intro distinct_card sorted_wrt_less_distinct)
  ultimately have count: "2 * k \<le> length ?S + length pks"
    using card_validator_indices [of pks] by linarith
  have "set ?co \<noteq> {}" using ne(2) by simp
  then have shared: "\<exists>v. v \<in> set (ct_object_versions ?a) \<inter> set (ct_object_versions ?b)"
    unfolding btree_intersection_props(1) by blast
  have both: "\<exists>ba bb sa sb. sign_bytes X (sign_body ?a) = Inr ba \<and> sign_bytes X (sign_body ?b) = Inr bb
      \<and> unat i < length pks \<and> vs_validator_index sa = i \<and> vs_validator_index sb = i
      \<and> sa \<in> set (ct_validator_signatures ?a) \<and> sb \<in> set (ct_validator_signatures ?b)
      \<and> cx_bls_verify X (vs_signature sa) ba (pks ! unat i) \<and> cx_bls_verify X (vs_signature sb) bb (pks ! unat i)"
    if "i \<in> set ?S" for i
  proof -
    have "i \<in> set (ct_signer_indices ?a)" "i \<in> set (ct_signer_indices ?b)" using that S(1) by auto
    then show ?thesis using certificate_signer [OF va] certificate_signer [OF vb] by meson
  qed
  show ?thesis using count S(2) ne(1) shared both by blast
qed

theorem conflicting_certificates_accountable_witness:
  "\<exists>fi. evidence_verify sample_ext sample_cert_ext
       \<lparr>ce_certificate_a = sample_cert 1, ce_certificate_b = sample_cert 2\<rparr> sample_pks 3 = Inr fi
     \<and> 2 \<le> length (fi_slashable_validator_indices fi)"
proof -
  let ?v = "evidence_verify sample_ext sample_cert_ext
       \<lparr>ce_certificate_a = sample_cert 1, ce_certificate_b = sample_cert 2\<rparr> sample_pks 3"
  have "is_ok ?v" by code_simp
  then obtain fi where fi: "?v = Inr fi" by (auto simp: is_ok_def split: sum.splits)
  have "length sample_pks = 4" by (simp add: sample_pks_def)
  then show ?thesis using conflicting_certificates_accountable [OF fi] fi by auto
qed

lemma dedup_by_sorted_index:
  "sorted_wrt (<) (map vs_validator_index (dedup_by vs_validator_index (sort_key vs_validator_index sigs)))"
  by (rule sorted_dedup_by) (rule sorted_sort_key)

text \<open>
  Round trip of certification: countersignatures of the certificate's own body by the
  holders of validator keys, in any order and with repetitions, aggregate to a certificate
  that verifies against those validators at the same threshold.  BLS is taken to accept what
  the holder of a key signed.
\<close>
theorem aggregated_certificate_verifies:
  assumes agg: "aggregate E tx versions sigs k = Inr cert" and pos: "0 < k"
    and bls_correct: "\<And>sk m. cx_bls_verify X (cx_bls_sign X sk m) m (pub sk)"
    and signed: "\<And>sig. sig \<in> set sigs \<Longrightarrow> \<exists>sk. unat (vs_validator_index sig) < length pks
        \<and> pks ! unat (vs_validator_index sig) = pub sk
        \<and> countersign X (sign_body cert) (vs_validator_index sig) sk = Inr sig"
  shows "certificate_verify X cert pks k = Inr ()"
proof -
  let ?ds = "dedup_by vs_validator_index (sort_key vs_validator_index sigs)"
  have ct: "ct_validator_signatures cert = ?ds" "ct_signer_indices cert = map vs_validator_index ?ds"
      "k \<le> length ?ds"
    using agg
    by (auto simp: aggregate_def from_owned_transaction_def Let_def
        split: sum.splits if_splits tx_execution_scope.splits option.splits)
  have sub: "set ?ds \<subseteq> set sigs" using set_dedup_by [of vs_validator_index "sort_key vs_validator_index sigs"] by simp
  have "?ds \<noteq> []" using ct(3) pos by auto
  then obtain sig where "sig \<in> set ?ds" by (meson list.set_sel(1))
  then have "sig \<in> set sigs" using sub by blast
  then obtain bytes where bytes: "sign_bytes X (sign_body cert) = Inr bytes"
    using signed [of sig] by (cases "sign_bytes X (sign_body cert)") (auto simp: countersign_def)
  have "verify_signatures X pks bytes ?ds = Inr ()"
    unfolding verify_signatures_ok_iff
  proof
    fix sig assume "sig \<in> set ?ds"
    then have "sig \<in> set sigs" using sub by blast
    then obtain sk where in_range: "unat (vs_validator_index sig) < length pks"
        and key: "pks ! unat (vs_validator_index sig) = pub sk"
        and cs: "countersign X (sign_body cert) (vs_validator_index sig) sk = Inr sig"
      using signed by blast
    from cs have "vs_signature sig = cx_bls_sign X sk bytes"
      unfolding countersign_def bytes by (cases sig) simp
    with in_range key show "unat (vs_validator_index sig) < length pks
        \<and> cx_bls_verify X (vs_signature sig) bytes (pks ! unat (vs_validator_index sig))"
      using bls_correct by simp
  qed
  then show ?thesis
    using ct bytes any_descent_iff [THEN iffD2, OF dedup_by_sorted_index [of sigs]]
    by (simp add: certificate_verify_def Let_def)
qed

theorem aggregated_certificate_verifies_witness:
  "let tx = \<lparr>tx_signer = 1, tx_nonce = 0, tx_vm = VmNative, tx_body = Native NoOp\<rparr>;
       sigs = [\<lparr>vs_validator_index = 2, vs_signature = 52\<rparr>, \<lparr>vs_validator_index = 0, vs_signature = 50\<rparr>,
               \<lparr>vs_validator_index = 2, vs_signature = 52\<rparr>];
       cert = sample_cert (sample_keccak (be_bytes 20 (1 :: address) @ be_bytes 8 (0 :: u64)))
         \<lparr>ct_signer_indices := [0, 2], ct_validator_signatures :=
            [\<lparr>vs_validator_index = 0, vs_signature = 50\<rparr>, \<lparr>vs_validator_index = 2, vs_signature = 52\<rparr>]\<rparr>
   in aggregate sample_ext tx [OwnedObjectVersion (AccountNonce 1) 0] sigs 2 = Inr cert
      \<and> certificate_verify sample_cert_ext cert sample_pks 2 = Inr ()"
proof -
  let ?tx = "\<lparr>tx_signer = 1, tx_nonce = 0, tx_vm = VmNative, tx_body = Native NoOp\<rparr>"
  let ?sigs = "[\<lparr>vs_validator_index = 2, vs_signature = 52\<rparr>, \<lparr>vs_validator_index = 0, vs_signature = 50\<rparr>,
               \<lparr>vs_validator_index = 2, vs_signature = 52\<rparr>]"
  let ?cert = "sample_cert (sample_keccak (be_bytes 20 (1 :: address) @ be_bytes 8 (0 :: u64)))
         \<lparr>ct_signer_indices := [0, 2], ct_validator_signatures :=
            [\<lparr>vs_validator_index = 0, vs_signature = 50\<rparr>, \<lparr>vs_validator_index = 2, vs_signature = 52\<rparr>]\<rparr>"
  have agg: "aggregate sample_ext ?tx [OwnedObjectVersion (AccountNonce 1) 0] ?sigs 2 = Inr ?cert" by code_simp
  have bls: "cx_bls_verify sample_cert_ext (cx_bls_sign sample_cert_ext sk m) m (id sk)" for sk m
    by (simp add: sample_cert_ext_def)
  have signed: "\<exists>sk. unat (vs_validator_index sig) < length sample_pks
      \<and> sample_pks ! unat (vs_validator_index sig) = id sk
      \<and> countersign sample_cert_ext (sign_body ?cert) (vs_validator_index sig) sk = Inr sig"
    if "sig \<in> set ?sigs" for sig
    using that by (auto simp: sample_pks_def countersign_def sign_bytes_def sample_cert_ext_def)
  have "certificate_verify sample_cert_ext ?cert sample_pks 2 = Inr ()"
    by (rule aggregated_certificate_verifies [OF agg _ bls signed]) simp
  with agg show ?thesis by (simp add: Let_def)
qed

end
