(* ===== verification/Mempool.thy ===== *)
theory Mempool
  imports Certificates "HOL-Library.Multiset"
begin

text \<open>
  The transaction mempool and the base fee, \<open>crates/mempool/src/lib.rs\<close>: insertion, lane
  metrics, draining under a gas budget or a count, the certificate mempool with its locks on
  object versions, and the base-fee update.  The \<open>BTreeSet\<close>s here are only tested for
  membership, so they are sets; the stable sorts are \<open>sort_key\<close> on the key that the code
  compares (owned transactions first, then descending priority fee).
\<close>

section \<open>Data\<close>

record pooled_tx =
  pt_tx :: transaction
  pt_max_priority_fee_per_gas :: u128
  pt_max_fee_per_gas :: u128
  pt_eth_signed_raw :: "bytes option"

record mempool =
  mp_pending :: "pooled_tx list"

record pooled_certificate =
  pc_certificate :: owned_object_certificate
  pc_max_priority_fee_per_gas :: u128

record certificate_mempool =
  cm_pending :: "pooled_certificate list"
  cm_locked_object_versions :: "owned_object_version set"

datatype certificate_mempool_error = ObjectVersionConflict owned_object_version

record mempool_lane_metrics =
  lm_pending_total :: nat
  lm_pending_owned :: nat
  lm_pending_mixed :: nat
  lm_pending_consensus :: nat
  lm_pending_consensus_lane :: nat
  lm_pending_certificates :: nat

section \<open>Certificate mempool\<close>

definition cm_len :: "certificate_mempool \<Rightarrow> nat" where
  "cm_len m = length (cm_pending m)"

definition cm_insert ::
    "certificate_mempool \<Rightarrow> pooled_certificate
     \<Rightarrow> (certificate_mempool, certificate_mempool_error, unit) exec" where
  "cm_insert m cert =
     (case List.find (\<lambda>ov. ov \<in> cm_locked_object_versions m) (ct_object_versions (pc_certificate cert)) of
        Some ov \<Rightarrow> (m, Inl (ObjectVersionConflict ov))
      | None \<Rightarrow>
          (m\<lparr>cm_locked_object_versions :=
               cm_locked_object_versions m \<union> set (ct_object_versions (pc_certificate cert)),
             cm_pending := cm_pending m @ [cert]\<rparr>, Inr ()))"

definition rebuild_locks :: "certificate_mempool \<Rightarrow> certificate_mempool" where
  "rebuild_locks m = m\<lparr>cm_locked_object_versions :=
     foldl (\<lambda>acc p. acc \<union> set (ct_object_versions (pc_certificate p))) {} (cm_pending m)\<rparr>"

definition cm_drain_ready ::
    "certificate_mempool \<Rightarrow> nat \<Rightarrow> certificate_mempool \<times> owned_object_certificate list" where
  "cm_drain_ready m max_certs =
     (let sorted = sort_key (\<lambda>p. - uint (pc_max_priority_fee_per_gas p)) (cm_pending m);
          drain_count = min (length sorted) max_certs
      in (rebuild_locks (m\<lparr>cm_pending := drop drain_count sorted\<rparr>),
          map pc_certificate (take drain_count sorted)))"

section \<open>Transaction mempool\<close>

definition mp_len :: "mempool \<Rightarrow> nat" where
  "mp_len m = length (mp_pending m)"

definition mp_insert :: "mempool \<Rightarrow> pooled_tx \<Rightarrow> mempool" where
  "mp_insert m p = m\<lparr>mp_pending := mp_pending m @ [p]\<rparr>"

definition count_lane :: "mempool_lane_metrics \<Rightarrow> pooled_tx \<Rightarrow> mempool_lane_metrics" where
  "count_lane lm p =
     (case execution_scope (pt_tx p) of
        Owned _ _ \<Rightarrow> lm\<lparr>lm_pending_owned := lm_pending_owned lm + 1\<rparr>
      | Mixed _ _ \<Rightarrow> lm\<lparr>lm_pending_mixed := lm_pending_mixed lm + 1\<rparr>
      | Consensus \<Rightarrow> lm\<lparr>lm_pending_consensus := lm_pending_consensus lm + 1\<rparr>)"

definition lane_metrics :: "mempool \<Rightarrow> mempool_lane_metrics" where
  "lane_metrics m =
     (let lm = foldl count_lane \<lparr>lm_pending_total = length (mp_pending m), lm_pending_owned = 0,
            lm_pending_mixed = 0, lm_pending_consensus = 0, lm_pending_consensus_lane = 0,
            lm_pending_certificates = 0\<rparr> (mp_pending m)
      in lm\<lparr>lm_pending_consensus_lane := lm_pending_mixed lm + lm_pending_consensus lm\<rparr>)"

definition lane_metrics_with_certificates :: "mempool \<Rightarrow> certificate_mempool \<Rightarrow> mempool_lane_metrics" where
  "lane_metrics_with_certificates m cert_pool =
     (lane_metrics m)\<lparr>lm_pending_certificates := cm_len cert_pool\<rparr>"

definition drain_key :: "pooled_tx \<Rightarrow> nat \<times> int" where
  "drain_key p =
     (if is_owned_object_tx (pt_tx p) then 0 else 1, - uint (pt_max_priority_fee_per_gas p))"

definition owned_objects_of :: "pooled_tx \<Rightarrow> owned_object_id list" where
  "owned_objects_of p = (case execution_scope (pt_tx p) of Owned _ objects \<Rightarrow> objects | _ \<Rightarrow> [])"

text \<open>
  One pass over the sorted transactions.  The accumulators are the owned objects and the gas
  of the transactions taken so far; the result is what is taken and what stays.
\<close>

fun drain_gas_loop ::
    "ext \<Rightarrow> u64 \<Rightarrow> u128 \<Rightarrow> (transaction \<Rightarrow> bool) \<Rightarrow> owned_object_id set \<Rightarrow> u64 \<Rightarrow> pooled_tx list
     \<Rightarrow> pooled_tx list \<times> pooled_tx list" where
  "drain_gas_loop E max_gas base_fee include owned used [] = ([], [])"
| "drain_gas_loop E max_gas base_fee include owned used (p # ps) =
     (let keep = (case drain_gas_loop E max_gas base_fee include owned used ps of
                    (taken, rest) \<Rightarrow> (taken, p # rest))
      in if \<not> include (pt_tx p) then keep
         else if pt_max_fee_per_gas p < base_fee then keep
         else case tx_gas_limit E (pt_tx p) of
           Inl _ \<Rightarrow> keep
         | Inr g \<Rightarrow>
             if sat_add used g \<le> max_gas
             then if list_ex (\<lambda>obj. obj \<in> owned) (owned_objects_of p) then keep
                  else (case drain_gas_loop E max_gas base_fee include
                               (owned \<union> set (owned_objects_of p)) (sat_add used g) ps of
                          (taken, rest) \<Rightarrow> (p # taken, rest))
             else keep)"

definition drain_ready_gas_budget_filtered ::
    "ext \<Rightarrow> mempool \<Rightarrow> u64 \<Rightarrow> u128 \<Rightarrow> (transaction \<Rightarrow> bool) \<Rightarrow> mempool \<times> pooled_tx list" where
  "drain_ready_gas_budget_filtered E m max_gas base_fee include =
     (case drain_gas_loop E max_gas base_fee include {} 0 (sort_key drain_key (mp_pending m)) of
        (taken, rest) \<Rightarrow> (m\<lparr>mp_pending := rest\<rparr>, taken))"

definition drain_ready_gas_budget :: "ext \<Rightarrow> mempool \<Rightarrow> u64 \<Rightarrow> u128 \<Rightarrow> mempool \<times> pooled_tx list" where
  "drain_ready_gas_budget E m max_gas base_fee =
     drain_ready_gas_budget_filtered E m max_gas base_fee (\<lambda>_. True)"

fun drain_count_loop ::
    "nat \<Rightarrow> u128 \<Rightarrow> owned_object_id set \<Rightarrow> nat \<Rightarrow> pooled_tx list \<Rightarrow> transaction list \<times> pooled_tx list" where
  "drain_count_loop max_txs base_fee owned n [] = ([], [])"
| "drain_count_loop max_txs base_fee owned n (p # ps) =
     (let keep = (case drain_count_loop max_txs base_fee owned n ps of (taken, rest) \<Rightarrow> (taken, p # rest))
      in if n < max_txs \<and> base_fee \<le> pt_max_fee_per_gas p
         then if list_ex (\<lambda>obj. obj \<in> owned) (owned_objects_of p) then keep
              else (case drain_count_loop max_txs base_fee (owned \<union> set (owned_objects_of p)) (n + 1) ps of
                      (taken, rest) \<Rightarrow> (pt_tx p # taken, rest))
         else keep)"

definition drain_ready :: "mempool \<Rightarrow> nat \<Rightarrow> u128 \<Rightarrow> mempool \<times> transaction list" where
  "drain_ready m max_txs base_fee =
     (case drain_count_loop max_txs base_fee {} 0 (sort_key drain_key (mp_pending m)) of
        (taken, rest) \<Rightarrow> (m\<lparr>mp_pending := rest\<rparr>, taken))"

section \<open>Base fee\<close>

record base_fee_params =
  bf_min_base_fee :: u128
  bf_target_gas_per_block :: u64
  bf_denominator :: u64

definition default_base_fee_params :: base_fee_params where
  "default_base_fee_params = \<lparr>bf_min_base_fee = 1, bf_target_gas_per_block = 30000000, bf_denominator = 8\<rparr>"

text \<open>The division by the denominator panics when it is zero: no result.\<close>

definition next_base_fee :: "u128 \<Rightarrow> u64 \<Rightarrow> base_fee_params \<Rightarrow> u128 option" where
  "next_base_fee parent_base_fee parent_gas_used p =
     (let bf = max parent_base_fee (bf_min_base_fee p);
          target = (ucast (bf_target_gas_per_block p) :: u128);
          used = (ucast parent_gas_used :: u128);
          den = (ucast (bf_denominator p) :: u128)
      in if target = 0 then Some bf
         else if used = target then Some bf
         else if den = 0 then None
         else if used > target
         then let delta = max (sat_mul bf (used - target) div target div den) 1
              in Some (max (sat_add bf delta) (bf_min_base_fee p))
         else let delta = sat_mul bf (target - used) div target div den
              in Some (max (sat_sub bf delta) (bf_min_base_fee p)))"

section \<open>Draining\<close>

definition takeable ::
    "ext \<Rightarrow> u64 \<Rightarrow> u128 \<Rightarrow> (transaction \<Rightarrow> bool) \<Rightarrow> owned_object_id set \<Rightarrow> u64 \<Rightarrow> pooled_tx \<Rightarrow> bool" where
  "takeable E max_gas base_fee include owned used p \<longleftrightarrow>
     include (pt_tx p) \<and> base_fee \<le> pt_max_fee_per_gas p
     \<and> (\<exists>g. tx_gas_limit E (pt_tx p) = Inr g \<and> sat_add used g \<le> max_gas)
     \<and> set (owned_objects_of p) \<inter> owned = {}"

lemma drain_gas_loop_Cons:
  assumes "drain_gas_loop E mg bf inc owned used (p # ps) = (taken, rest)"
  obtains (kept) rest' where "rest = p # rest'" "\<not> takeable E mg bf inc owned used p"
      "drain_gas_loop E mg bf inc owned used ps = (taken, rest')"
  | (took) taken' g where "taken = p # taken'" "takeable E mg bf inc owned used p"
      "tx_gas_limit E (pt_tx p) = Inr g" "sat_add used g \<le> mg"
      "drain_gas_loop E mg bf inc (owned \<union> set (owned_objects_of p)) (sat_add used g) ps = (taken', rest)"
proof (cases "takeable E mg bf inc owned used p")
  case True
  then obtain g where g: "tx_gas_limit E (pt_tx p) = Inr g" "sat_add used g \<le> mg"
    by (auto simp: takeable_def)
  have paid: "\<not> pt_max_fee_per_gas p < bf" using True by (simp add: takeable_def not_less)
  have "\<not> list_ex (\<lambda>obj. obj \<in> owned) (owned_objects_of p)"
    using True by (auto simp: takeable_def list_ex_iff)
  then have "\<exists>taken'. taken = p # taken' \<and> drain_gas_loop E mg bf inc
      (owned \<union> set (owned_objects_of p)) (sat_add used g) ps = (taken', rest)"
    using assms g True paid by (auto simp: takeable_def Let_def split: prod.splits)
  then show ?thesis using took True g by blast
next
  case False
  then have "\<exists>rest'. rest = p # rest' \<and> drain_gas_loop E mg bf inc owned used ps = (taken, rest')"
    using assms by (auto simp: takeable_def Let_def list_ex_iff not_less disjoint_iff
        split: prod.splits if_splits sum.splits)
  then show ?thesis using kept False by blast
qed

lemma drain_gas_loop_mset:
  "drain_gas_loop E mg bf inc owned used ps = (taken, rest) \<Longrightarrow> mset taken + mset rest = mset ps"
proof (induction ps arbitrary: owned used taken rest)
  case (Cons p ps)
  from Cons.prems show ?case by (cases rule: drain_gas_loop_Cons) (auto dest: Cons.IH)
qed simp

lemma drain_gas_loop_members:
  assumes "drain_gas_loop E mg bf inc owned used ps = (taken, rest)"
  shows "set taken \<subseteq> set ps" "set rest \<subseteq> set ps"
  using drain_gas_loop_mset [OF assms] by (metis mset_eq_setD mset_append set_append Un_upper1 Un_upper2)+

lemma drain_gas_loop_sorted:
  "drain_gas_loop E mg bf inc owned used ps = (taken, rest) \<Longrightarrow> sorted (map drain_key ps) \<Longrightarrow>
    sorted (map drain_key taken) \<and> sorted (map drain_key rest)"
proof (induction ps arbitrary: owned used taken rest)
  case (Cons p ps)
  have tail: "sorted (map drain_key ps)" "\<forall>q \<in> set ps. drain_key p \<le> drain_key q"
    using Cons.prems(2) by auto
  from Cons.prems(1) show ?case
  proof (cases rule: drain_gas_loop_Cons)
    case (kept rest')
    then show ?thesis using Cons.IH [OF kept(3) tail(1)] drain_gas_loop_members(2) [OF kept(3)] tail(2)
      by auto
  next
    case (took taken' g)
    then show ?thesis using Cons.IH [OF took(5) tail(1)] drain_gas_loop_members(1) [OF took(5)] tail(2)
      by auto
  qed
qed simp

definition gas_of :: "ext \<Rightarrow> pooled_tx \<Rightarrow> nat" where
  "gas_of E p = (case tx_gas_limit E (pt_tx p) of Inr g \<Rightarrow> unat g | Inl _ \<Rightarrow> 0)"

lemma sat_add_le_unat:
  fixes used :: u64
  assumes "sat_add used g \<le> mg" and "mg \<noteq> - 1"
  shows "unat (sat_add used g) = unat used + unat g"
proof -
  have "unat (sat_add used g) < 2 ^ 64 - 1"
    using assms(1) not_max_word_less [OF assms(2)] by (simp add: word_le_nat_alt)
  then show ?thesis by (simp add: unat_sat_add split: if_splits)
qed

lemma drain_gas_loop_gas:
  "drain_gas_loop E mg bf inc owned used ps = (taken, rest) \<Longrightarrow> mg \<noteq> - 1 \<Longrightarrow> used \<le> mg \<Longrightarrow>
    unat used + sum_list (map (gas_of E) taken) \<le> unat mg"
proof (induction ps arbitrary: owned used taken rest)
  case (Cons p ps)
  from Cons.prems(1) show ?case
  proof (cases rule: drain_gas_loop_Cons)
    case (kept rest')
    then show ?thesis using Cons by blast
  next
    case (took taken' g)
    then show ?thesis
      using Cons.IH [OF took(5) Cons.prems(2) took(4)] sat_add_le_unat [OF took(4) Cons.prems(2)]
      by (simp add: gas_of_def)
  qed
qed (simp add: word_le_nat_alt)

lemma drain_gas_loop_eligible:
  "drain_gas_loop E mg bf inc owned used ps = (taken, rest) \<Longrightarrow> p \<in> set taken \<Longrightarrow>
    inc (pt_tx p) \<and> bf \<le> pt_max_fee_per_gas p \<and> is_ok (tx_gas_limit E (pt_tx p))"
proof (induction ps arbitrary: owned used taken rest)
  case (Cons q ps)
  from Cons.prems(1) show ?case
    by (cases rule: drain_gas_loop_Cons) (use Cons in \<open>auto simp: takeable_def\<close>)
qed simp

lemma owned_objects_distinct: "distinct (owned_objects_of p)"
  by (cases rule: execution_scope_cases [of "pt_tx p"]) (simp_all add: owned_objects_of_def)

lemma drain_gas_loop_disjoint:
  "drain_gas_loop E mg bf inc owned used ps = (taken, rest) \<Longrightarrow>
    distinct (concat (map owned_objects_of taken)) \<and> set (concat (map owned_objects_of taken)) \<inter> owned = {}"
proof (induction ps arbitrary: owned used taken rest)
  case (Cons p ps)
  from Cons.prems show ?case
  proof (cases rule: drain_gas_loop_Cons)
    case (took taken' g)
    then show ?thesis using Cons.IH [OF took(5)] owned_objects_distinct [of p]
      by (auto simp: takeable_def)
  qed (use Cons.IH in auto)
qed simp

text \<open>What stays behind and is eligible does not fit the budget or conflicts with what was taken.\<close>

lemma drain_gas_loop_complete:
  "drain_gas_loop E mg bf inc owned used ps = (taken, rest) \<Longrightarrow> mg \<noteq> - 1 \<Longrightarrow> used \<le> mg \<Longrightarrow>
    p \<in> set rest \<Longrightarrow> inc (pt_tx p) \<Longrightarrow> bf \<le> pt_max_fee_per_gas p \<Longrightarrow> tx_gas_limit E (pt_tx p) = Inr g \<Longrightarrow>
    unat mg < unat used + sum_list (map (gas_of E) taken) + unat g
    \<or> set (owned_objects_of p) \<inter> (owned \<union> set (concat (map owned_objects_of taken))) \<noteq> {}"
proof (induction ps arbitrary: owned used taken rest)
  case (Cons q ps)
  from Cons.prems(1) show ?case
  proof (cases rule: drain_gas_loop_Cons)
    case (kept rest')
    show ?thesis
    proof (cases "p = q")
      case True
      then consider "mg < sat_add used g" | "set (owned_objects_of p) \<inter> owned \<noteq> {}"
        using kept(2) Cons.prems(5-7) by (auto simp: takeable_def not_le)
      then show ?thesis
      proof cases
        case 1
        then have "unat mg < unat used + unat g" by (simp add: word_less_nat_alt unat_sat_add)
        then show ?thesis by simp
      qed auto
    next
      case False
      then show ?thesis using Cons.IH [OF kept(3) Cons.prems(2,3) _ Cons.prems(5-7)] Cons.prems(4) kept(1)
        by simp
    qed
  next
    case (took taken' g')
    have "unat mg < unat (sat_add used g') + sum_list (map (gas_of E) taken') + unat g
        \<or> set (owned_objects_of p)
            \<inter> (owned \<union> set (owned_objects_of q) \<union> set (concat (map owned_objects_of taken'))) \<noteq> {}"
      by (rule Cons.IH [OF took(5) Cons.prems(2) took(4) Cons.prems(4-7)])
    moreover have "gas_of E q = unat g'" by (simp add: gas_of_def took(3))
    ultimately show ?thesis
      using took(1) sat_add_le_unat [OF took(4) Cons.prems(2)] by auto
  qed
qed simp

section \<open>Properties\<close>

text \<open>
  C26.  Draining under a gas budget selects soundly and completely.  Nothing is lost or
  duplicated; what is taken is admitted by the filter, pays the base fee, fits the gas budget
  together, comes in the order of the lanes and priorities, and no two taken owned
  transactions share an object; what stays behind although it is admitted and pays the base
  fee either does not fit the remaining budget or shares an object with a taken transaction.
  The budget has to be below \<open>u64::MAX\<close>, where the saturating sum of gas is exact.
\<close>
theorem drain_gas_budget_correct:
  assumes drain: "drain_ready_gas_budget_filtered E m max_gas base_fee include = (m', taken)"
    and budget: "max_gas \<noteq> - 1"
  shows "mset taken + mset (mp_pending m') = mset (mp_pending m)
    \<and> sum_list (map (gas_of E) taken) \<le> unat max_gas
    \<and> sorted (map drain_key taken)
    \<and> distinct (concat (map owned_objects_of taken))
    \<and> (\<forall>p \<in> set taken. include (pt_tx p) \<and> base_fee \<le> pt_max_fee_per_gas p
         \<and> is_ok (tx_gas_limit E (pt_tx p)))
    \<and> (\<forall>p \<in> set (mp_pending m'). \<forall>g. include (pt_tx p) \<longrightarrow> base_fee \<le> pt_max_fee_per_gas p
         \<longrightarrow> tx_gas_limit E (pt_tx p) = Inr g
         \<longrightarrow> unat max_gas < sum_list (map (gas_of E) taken) + unat g
           \<or> set (owned_objects_of p) \<inter> set (concat (map owned_objects_of taken)) \<noteq> {})"
proof -
  let ?ps = "sort_key drain_key (mp_pending m)"
  have loop: "drain_gas_loop E max_gas base_fee include {} 0 ?ps = (taken, mp_pending m')"
    using drain by (auto simp: drain_ready_gas_budget_filtered_def split: prod.splits)
  have zero: "(0 :: u64) \<le> max_gas" by simp
  show ?thesis
  proof (intro conjI ballI allI impI)
    show "mset taken + mset (mp_pending m') = mset (mp_pending m)"
      using drain_gas_loop_mset [OF loop] by simp
    show "sum_list (map (gas_of E) taken) \<le> unat max_gas"
      using drain_gas_loop_gas [OF loop budget zero] by simp
    show "sorted (map drain_key taken)" using drain_gas_loop_sorted [OF loop] by simp
    show "distinct (concat (map owned_objects_of taken))" using drain_gas_loop_disjoint [OF loop] by simp
  next
    fix p assume "p \<in> set taken"
    then show "include (pt_tx p)" "base_fee \<le> pt_max_fee_per_gas p" "is_ok (tx_gas_limit E (pt_tx p))"
      using drain_gas_loop_eligible [OF loop] by simp_all
  next
    fix p g assume "p \<in> set (mp_pending m')" "include (pt_tx p)" "base_fee \<le> pt_max_fee_per_gas p"
        "tx_gas_limit E (pt_tx p) = Inr g"
    then show "unat max_gas < sum_list (map (gas_of E) taken) + unat g
        \<or> set (owned_objects_of p) \<inter> set (concat (map owned_objects_of taken)) \<noteq> {}"
      using drain_gas_loop_complete [OF loop budget zero] by simp
  qed
qed

definition sample_pool :: mempool where
  "sample_pool = \<lparr>mp_pending = [
     \<lparr>pt_tx = sample_transfer, pt_max_priority_fee_per_gas = 9, pt_max_fee_per_gas = 20, pt_eth_signed_raw = None\<rparr>,
     \<lparr>pt_tx = \<lparr>tx_signer = 2, tx_nonce = 7, tx_vm = VmNative, tx_body = Native NoOp\<rparr>,
      pt_max_priority_fee_per_gas = 1, pt_max_fee_per_gas = 20, pt_eth_signed_raw = None\<rparr>]\<rparr>"

theorem drain_gas_budget_correct_witness:
  "let r = drain_ready_gas_budget_filtered sample_ext sample_pool 21050 5 (\<lambda>_. True)
   in map (tx_signer \<circ> pt_tx) (snd r) = [2] \<and> length (mp_pending (fst r)) = 1
      \<and> sum_list (map (gas_of sample_ext) (snd r)) \<le> 21050"
proof -
  let ?r = "drain_ready_gas_budget_filtered sample_ext sample_pool 21050 5 (\<lambda>_. True)"
  have vals: "map (tx_signer \<circ> pt_tx) (snd ?r) = [2] \<and> length (mp_pending (fst ?r)) = 1" by code_simp
  have r: "?r = (fst ?r, snd ?r)" by simp
  have "(21050 :: u64) \<noteq> - 1" by simp
  from drain_gas_budget_correct [OF r this] show ?thesis using vals by (simp add: Let_def)
qed

section \<open>Base fee\<close>

lemma div_div_le_mult:
  assumes "d \<le> (t::nat)" and "0 < t"
  shows "min (b * d) M div t div den \<le> b div den"
proof -
  have "min (b * d) M div t \<le> b * t div t"
    using assms(1) by (intro div_le_mono) (simp add: min.coboundedI1)
  then show ?thesis using assms(2) by (intro div_le_mono) simp
qed

lemma unat_max: "unat (max a b) = max (unat a) (unat b)" for a b :: "'a::len word"
  by (simp add: max_def word_le_nat_alt)

text \<open>
  The base fee with a non-zero denominator: the update always has a result, never below
  the minimum; it keeps the fee at the target, raises it above the target (unless the fee is
  already the largest \<open>u128\<close>) and does not raise it below; and for blocks of at most twice
  the target it moves the fee by at most one part in \<open>denominator\<close>, or by one unit.
\<close>
theorem next_base_fee_step:
  assumes den: "bf_denominator p \<noteq> 0"
  shows "\<exists>new. next_base_fee parent used p = Some new
    \<and> bf_min_base_fee p \<le> new
    \<and> (used = bf_target_gas_per_block p \<longrightarrow> new = max parent (bf_min_base_fee p))
    \<and> (bf_target_gas_per_block p \<noteq> 0 \<longrightarrow> bf_target_gas_per_block p < used
         \<longrightarrow> max parent (bf_min_base_fee p) < new \<or> new = - 1)
    \<and> (used < bf_target_gas_per_block p \<longrightarrow> new \<le> max parent (bf_min_base_fee p))
    \<and> (unat used \<le> 2 * unat (bf_target_gas_per_block p) \<longrightarrow>
         unat new \<le> unat (max parent (bf_min_base_fee p))
           + max 1 (unat (max parent (bf_min_base_fee p)) div unat (bf_denominator p))
         \<and> unat (max parent (bf_min_base_fee p))
           \<le> unat new + unat (max parent (bf_min_base_fee p)) div unat (bf_denominator p))"
proof -
  define bf where "bf = max parent (bf_min_base_fee p)"
  define t where "t = (ucast (bf_target_gas_per_block p) :: u128)"
  define u where "u = (ucast used :: u128)"
  define d where "d = (ucast (bf_denominator p) :: u128)"
  have vals: "unat t = unat (bf_target_gas_per_block p)" "unat u = unat used"
      "unat d = unat (bf_denominator p)"
    by (simp_all add: t_def u_def d_def unat_ucast_widen)
  have d0: "d \<noteq> 0" using den vals(3) by (metis unat_eq_zero)
  have bf_min: "bf_min_base_fee p \<le> bf" by (simp add: bf_def)
  have t0: "t = 0 \<longleftrightarrow> bf_target_gas_per_block p = 0" using vals(1) by (metis unat_eq_zero)
  have ut: "u = t \<longleftrightarrow> used = bf_target_gas_per_block p" "t < u \<longleftrightarrow> bf_target_gas_per_block p < used"
    using vals by (simp_all add: word_unat_eq_iff word_less_nat_alt)
  have nbf: "next_base_fee parent used p = (if t = 0 then Some bf else if u = t then Some bf
      else if u > t then Some (max (sat_add bf (max (sat_mul bf (u - t) div t div d) 1)) (bf_min_base_fee p))
      else Some (max (sat_sub bf (sat_mul bf (t - u) div t div d)) (bf_min_base_fee p)))"
    using d0 by (simp add: next_base_fee_def Let_def bf_def t_def u_def d_def)
  consider (same) "t = 0 \<or> u = t" | (up) "t \<noteq> 0" "t < u" | (down) "t \<noteq> 0" "u < t"
    by (metis linorder_neqE)
  then show ?thesis
  proof cases
    case same
    then have "next_base_fee parent used p = Some bf" using nbf by auto
    then show ?thesis
      unfolding bf_def [symmetric] using bf_min same t0 ut vals by (auto simp: word_less_nat_alt)
  next
    case up
    define delta where "delta = max (sat_mul bf (u - t) div t div d) 1"
    define new where "new = sat_add bf delta"
    have "bf \<le> new" by (simp add: new_def sat_add_ge)
    then have absorb: "max new (bf_min_base_fee p) = new"
      using order_trans [OF bf_min] by (intro max_absorb1) blast
    have "u \<noteq> t" using up(2) by simp
    then have res: "next_base_fee parent used p = Some new"
      using nbf up absorb unfolding new_def delta_def by simp
    have pos: "1 \<le> unat delta" by (simp add: delta_def unat_max)
    have raise: "bf < new \<or> new = - 1"
    proof (cases "unat bf + unat delta < 2 ^ 128")
      case True
      then show ?thesis using pos by (simp add: new_def word_less_nat_alt unat_sat_add)
    next
      case False
      then show ?thesis by (simp add: new_def sat_add_def)
    qed
    have bound: "unat new \<le> unat bf + max 1 (unat bf div unat (bf_denominator p))"
      if "unat used \<le> 2 * unat (bf_target_gas_per_block p)"
    proof -
      have "unat (u - t) = unat used - unat (bf_target_gas_per_block p)"
        using up(2) vals by (simp add: unat_sub word_less_nat_alt word_le_nat_alt)
      then have small: "unat (u - t) \<le> unat t" using that vals(1) by simp
      have "0 < unat t" using up(1) by (simp add: unat_gt_0)
      from div_div_le_mult [OF small this, of "unat bf" "2 ^ 128 - 1" "unat d"]
      have "unat (sat_mul bf (u - t) div t div d) \<le> unat bf div unat (bf_denominator p)"
        by (simp add: unat_div unat_sat_mul vals(3))
      then have "unat delta \<le> max 1 (unat bf div unat (bf_denominator p))"
        unfolding delta_def unat_max by auto
      then show ?thesis by (simp add: new_def unat_sat_add)
    qed
    show ?thesis
      unfolding bf_def [symmetric]
      using res raise bound \<open>bf \<le> new\<close> bf_min up t0 ut
      by (auto simp: word_le_nat_alt)
  next
    case down
    define delta where "delta = sat_mul bf (t - u) div t div d"
    define new where "new = max (sat_sub bf delta) (bf_min_base_fee p)"
    have res: "next_base_fee parent used p = Some new"
      using nbf down by (auto simp: new_def delta_def)
    have le: "new \<le> bf" using bf_min by (simp add: new_def word_le_nat_alt unat_max unat_sat_sub)
    have small: "unat (t - u) \<le> unat t"
      using down(2) by (simp add: unat_sub word_le_nat_alt word_less_nat_alt)
    have "0 < unat t" using down(1) by (simp add: unat_gt_0)
    from div_div_le_mult [OF small this, of "unat bf" "2 ^ 128 - 1" "unat d"]
    have "unat delta \<le> unat bf div unat (bf_denominator p)"
      by (simp add: delta_def unat_div unat_sat_mul vals(3))
    then have drop: "unat bf \<le> unat new + unat bf div unat (bf_denominator p)"
      by (simp add: new_def unat_max unat_sat_sub)
    have "bf_min_base_fee p \<le> new" by (simp add: new_def)
    then show ?thesis
      unfolding bf_def [symmetric]
      using res le drop down t0 ut vals by (auto simp: word_le_nat_alt word_less_nat_alt)
  qed
qed

theorem next_base_fee_step_witness:
  "\<exists>new. next_base_fee 1000 45000000 default_base_fee_params = Some new
     \<and> 1 \<le> new \<and> (1000 < new \<or> new = - 1) \<and> unat new \<le> 1125"
proof -
  have d: "bf_denominator default_base_fee_params \<noteq> 0" by (simp add: default_base_fee_params_def)
  have m: "max (1000 :: u128) 1 = 1000" by simp
  show ?thesis
    using next_base_fee_step [OF d, of 1000 45000000] m by (auto simp: default_base_fee_params_def)
qed

section \<open>Exclusivity of the certificate mempool\<close>

definition cert_versions :: "pooled_certificate \<Rightarrow> owned_object_version set" where
  "cert_versions p = set (ct_object_versions (pc_certificate p))"

text \<open>The locks are the versions of the pending certificates, and no version is in two of them.\<close>

definition cm_invar :: "certificate_mempool \<Rightarrow> bool" where
  "cm_invar m \<longleftrightarrow>
     cm_locked_object_versions m = (\<Union>p \<in> set (cm_pending m). cert_versions p)
     \<and> (\<forall>v. length (filter (\<lambda>p. v \<in> cert_versions p) (cm_pending m)) \<le> 1)"

lemma rebuild_locks_eq:
  "rebuild_locks m = m\<lparr>cm_locked_object_versions := (\<Union>p \<in> set (cm_pending m). cert_versions p)\<rparr>"
proof -
  have "foldl (\<lambda>acc p. acc \<union> set (ct_object_versions (pc_certificate p))) A ps
      = A \<union> (\<Union>p \<in> set ps. cert_versions p)" for A ps
    by (induction ps arbitrary: A) (auto simp: cert_versions_def)
  then show ?thesis by (simp add: rebuild_locks_def)
qed

lemma length_filter_drop_sort: "length (filter P (drop n (sort_key f xs))) \<le> length (filter P xs)"
proof -
  have "length (filter P (drop n (sort_key f xs))) \<le> length (filter P (sort_key f xs))"
    by (metis append_take_drop_id filter_append length_append le_add2)
  also have "\<dots> = length (filter P xs)"
    by (metis mset_filter mset_sort size_mset)
  finally show ?thesis .
qed

lemma cm_insert_cases:
  "cm_insert m c = (if cert_versions c \<inter> cm_locked_object_versions m = {}
     then (m\<lparr>cm_locked_object_versions := cm_locked_object_versions m \<union> cert_versions c,
             cm_pending := cm_pending m @ [c]\<rparr>, Inr ())
     else (m, Inl (ObjectVersionConflict
       (the (List.find (\<lambda>ov. ov \<in> cm_locked_object_versions m) (ct_object_versions (pc_certificate c)))))))"
proof (cases "List.find (\<lambda>ov. ov \<in> cm_locked_object_versions m) (ct_object_versions (pc_certificate c))")
  case None
  then have "cert_versions c \<inter> cm_locked_object_versions m = {}"
    by (auto simp: find_None_iff cert_versions_def)
  then show ?thesis using None by (simp add: cm_insert_def cert_versions_def)
next
  case (Some ov)
  then have "cert_versions c \<inter> cm_locked_object_versions m \<noteq> {}"
    unfolding find_Some_iff cert_versions_def by (metis disjoint_iff nth_mem)
  then show ?thesis using Some by (simp add: cm_insert_def)
qed

text \<open>
  The certificate mempool never holds two certificates for one object version: insertion
  and draining keep the invariant, a certificate is accepted exactly when none of its versions
  is in a pending one, and draining hands out a part of the pending certificates and keeps the
  others.
\<close>
theorem certificate_mempool_exclusive:
  assumes "cm_invar m"
  shows "cm_invar (fst (cm_insert m c))
    \<and> (is_ok (snd (cm_insert m c)) \<longleftrightarrow> (\<forall>p \<in> set (cm_pending m). cert_versions c \<inter> cert_versions p = {}))
    \<and> cm_invar (fst (cm_drain_ready m n))
    \<and> mset (snd (cm_drain_ready m n)) + mset (map pc_certificate (cm_pending (fst (cm_drain_ready m n))))
        = mset (map pc_certificate (cm_pending m))"
proof (intro conjI)
  have locked: "cm_locked_object_versions m = (\<Union>p \<in> set (cm_pending m). cert_versions p)"
    and once: "\<And>v. length (filter (\<lambda>p. v \<in> cert_versions p) (cm_pending m)) \<le> 1"
    using assms by (simp_all add: cm_invar_def)
  show "is_ok (snd (cm_insert m c)) \<longleftrightarrow> (\<forall>p \<in> set (cm_pending m). cert_versions c \<inter> cert_versions p = {})"
    unfolding cm_insert_cases locked by auto
  show "cm_invar (fst (cm_insert m c))"
  proof (cases "cert_versions c \<inter> cm_locked_object_versions m = {}")
    case True
    have "length (filter (\<lambda>p. v \<in> cert_versions p) (cm_pending m @ [c])) \<le> 1" for v
    proof (cases "v \<in> cert_versions c")
      case v: True
      then have "filter (\<lambda>p. v \<in> cert_versions p) (cm_pending m) = []"
        using True unfolding locked by (auto simp: filter_empty_conv)
      then show ?thesis by simp
    next
      case False
      then show ?thesis using once [of v] by simp
    qed
    then show ?thesis using True locked by (auto simp: cm_insert_cases cm_invar_def)
  qed (use assms in \<open>simp add: cm_insert_cases\<close>)
  let ?sorted = "sort_key (\<lambda>p. - uint (pc_max_priority_fee_per_gas p)) (cm_pending m)"
  have "length (filter (\<lambda>p. v \<in> cert_versions p) (drop k ?sorted)) \<le> 1" for v k
    using length_filter_drop_sort [of "\<lambda>p. v \<in> cert_versions p" k] once [of v] by (rule le_trans)
  then show "cm_invar (fst (cm_drain_ready m n))"
    by (simp add: cm_drain_ready_def Let_def rebuild_locks_eq cm_invar_def)
  have "mset (take k ?sorted) + mset (drop k ?sorted) = mset (cm_pending m)" for k
    by (metis append_take_drop_id mset_append mset_sort)
  then have "image_mset pc_certificate (mset (take k ?sorted)) + image_mset pc_certificate (mset (drop k ?sorted))
      = image_mset pc_certificate (mset (cm_pending m))" for k
    by (metis image_mset_union)
  then show "mset (snd (cm_drain_ready m n)) + mset (map pc_certificate (cm_pending (fst (cm_drain_ready m n))))
      = mset (map pc_certificate (cm_pending m))"
    by (simp add: cm_drain_ready_def Let_def rebuild_locks_eq)
qed

theorem certificate_mempool_exclusive_witness:
  "let m = \<lparr>cm_pending = [\<lparr>pc_certificate = sample_cert 1, pc_max_priority_fee_per_gas = 3\<rparr>],
            cm_locked_object_versions = {OwnedObjectVersion (AccountNonce 1) 0}\<rparr>
   in cm_invar m \<and> \<not> is_ok (snd (cm_insert m \<lparr>pc_certificate = sample_cert 2, pc_max_priority_fee_per_gas = 9\<rparr>))"
proof -
  let ?m = "\<lparr>cm_pending = [\<lparr>pc_certificate = sample_cert 1, pc_max_priority_fee_per_gas = 3\<rparr>],
            cm_locked_object_versions = {OwnedObjectVersion (AccountNonce 1) 0}\<rparr>"
  let ?c = "\<lparr>pc_certificate = sample_cert 2, pc_max_priority_fee_per_gas = 9\<rparr>"
  have inv: "cm_invar ?m" by (simp add: cm_invar_def cert_versions_def sample_cert_def)
  have "\<not> (\<forall>p \<in> set (cm_pending ?m). cert_versions ?c \<inter> cert_versions p = {})"
    by (simp add: cert_versions_def sample_cert_def)
  then show ?thesis using certificate_mempool_exclusive [OF inv, of ?c] inv by (simp add: Let_def)
qed

end
