(* ===== verification/Block_Types.thy ===== *)
theory Block_Types
  imports Tx_Types
begin

text \<open>
  The block format of \<open>crates/consensus/src/lib.rs\<close>: headers, data-availability sidecars and
  receipts, blocks, execution features and circuit versions, and the fee policy of
  \<open>fees.rs\<close>.  Eight-byte namespaces are words read in big-endian order.
\<close>

unbundle bit_operations_syntax

section \<open>Features and circuits\<close>

datatype circuit_version = DevMixedV1 | NativeStateTransitionV1 | MixedStateTransitionV1

record execution_feature_set =
  fs_bits :: u64

definition FEATURE_NATIVE_TX :: u64 where "FEATURE_NATIVE_TX = push_bit 0 1"
definition FEATURE_NATIVE_SHARED_STATE :: u64 where "FEATURE_NATIVE_SHARED_STATE = push_bit 1 1"
definition FEATURE_EVM_TRANSFER :: u64 where "FEATURE_EVM_TRANSFER = push_bit 2 1"
definition FEATURE_EVM_CALL :: u64 where "FEATURE_EVM_CALL = push_bit 3 1"
definition FEATURE_EVM_CREATE :: u64 where "FEATURE_EVM_CREATE = push_bit 4 1"
definition FEATURE_EVM_TO_NATIVE_PRECOMPILE :: u64 where "FEATURE_EVM_TO_NATIVE_PRECOMPILE = push_bit 5 1"

definition features_empty :: execution_feature_set where
  "features_empty = \<lparr>fs_bits = 0\<rparr>"

definition features_all_known :: execution_feature_set where
  "features_all_known = \<lparr>fs_bits = FEATURE_NATIVE_TX OR FEATURE_NATIVE_SHARED_STATE OR
     FEATURE_EVM_TRANSFER OR FEATURE_EVM_CALL OR FEATURE_EVM_CREATE OR FEATURE_EVM_TO_NATIVE_PRECOMPILE\<rparr>"

definition features_insert :: "u64 \<Rightarrow> execution_feature_set \<Rightarrow> execution_feature_set" where
  "features_insert b fs = fs\<lparr>fs_bits := fs_bits fs OR b\<rparr>"

definition contains_only :: "execution_feature_set \<Rightarrow> execution_feature_set \<Rightarrow> bool" where
  "contains_only fs coverage \<longleftrightarrow> fs_bits fs AND NOT (fs_bits coverage) = 0"

record coverage_manifest =
  cm_version :: u16
  cm_circuit_version :: circuit_version
  cm_covered_features :: execution_feature_set

definition coverage_manifest_for_circuit_version :: "circuit_version \<Rightarrow> coverage_manifest" where
  "coverage_manifest_for_circuit_version v =
     \<lparr>cm_version = 1, cm_circuit_version = v,
      cm_covered_features = (case v of
          NativeStateTransitionV1 \<Rightarrow> \<lparr>fs_bits = FEATURE_NATIVE_TX OR FEATURE_NATIVE_SHARED_STATE\<rparr>
        | _ \<Rightarrow> features_all_known)\<rparr>"

definition tx_feature_set :: "transaction \<Rightarrow> execution_feature_set" where
  "tx_feature_set tx =
     (case tx_vm tx of
        VmNative \<Rightarrow> (case tx_body tx of
            Native _ \<Rightarrow>
              let fs = features_insert FEATURE_NATIVE_TX features_empty
              in if is_owned_object_tx tx then fs else features_insert FEATURE_NATIVE_SHARED_STATE fs
          | _ \<Rightarrow> features_empty)
      | VmEvm \<Rightarrow> (case tx_body tx of
            Transfer _ _ \<Rightarrow> features_insert FEATURE_EVM_TRANSFER features_empty
          | EvmCreate _ _ _ \<Rightarrow> features_insert FEATURE_EVM_CREATE features_empty
          | EvmCall to _ _ _ \<Rightarrow>
              let fs = features_insert FEATURE_EVM_CALL features_empty
              in if is_native_precompile_address to
                 then features_insert FEATURE_NATIVE_TX (features_insert FEATURE_EVM_TO_NATIVE_PRECOMPILE fs)
                 else fs
          | _ \<Rightarrow> features_empty))"

definition block_feature_set :: "transaction list \<Rightarrow> execution_feature_set" where
  "block_feature_set txs = foldl (\<lambda>fs tx. fs\<lparr>fs_bits := fs_bits fs OR fs_bits (tx_feature_set tx)\<rparr>)
     features_empty txs"

datatype proof_eligibility_error =
    EligCircuitCoverage
  | EvmTxInNativeCircuit nat
  | PrecompileDispatchInNativeCircuit nat
  | UnsupportedEvmValue nat
  | UnsupportedEvmCallTarget nat

text \<open>The loop over the transactions, with the index of the first one.\<close>

fun eligibility_loop :: "circuit_version \<Rightarrow> nat \<Rightarrow> transaction list \<Rightarrow> proof_eligibility_error option" where
  "eligibility_loop v idx [] = None"
| "eligibility_loop v idx (tx # txs) =
     (case tx_vm tx of
        VmNative \<Rightarrow> eligibility_loop v (idx + 1) txs
      | VmEvm \<Rightarrow>
          if v = NativeStateTransitionV1
          then (case tx_body tx of
                  EvmCall to _ _ _ \<Rightarrow>
                    if is_native_precompile_address to then Some (PrecompileDispatchInNativeCircuit idx)
                    else Some (EvmTxInNativeCircuit idx)
                | _ \<Rightarrow> Some (EvmTxInNativeCircuit idx))
          else (case tx_body tx of
                  EvmCall to val _ _ \<Rightarrow>
                    if val \<noteq> 0 then Some (UnsupportedEvmValue idx)
                    else if addr_byte 0 to = 0xfc \<and> \<not> is_native_precompile_address to
                    then Some (UnsupportedEvmCallTarget idx)
                    else eligibility_loop v (idx + 1) txs
                | EvmCreate val _ _ \<Rightarrow>
                    if val \<noteq> 0 then Some (UnsupportedEvmValue idx)
                    else eligibility_loop v (idx + 1) txs
                | _ \<Rightarrow> eligibility_loop v (idx + 1) txs))"

definition verify_transactions_eligible_for_circuit ::
    "transaction list \<Rightarrow> circuit_version \<Rightarrow> proof_eligibility_error + unit" where
  "verify_transactions_eligible_for_circuit txs v =
     (case eligibility_loop v 0 txs of
        Some e \<Rightarrow> Inl e
      | None \<Rightarrow>
          if \<not> contains_only (block_feature_set txs)
                 (cm_covered_features (coverage_manifest_for_circuit_version v))
          then Inl EligCircuitCoverage else Inr ())"

section \<open>Data availability\<close>

type_synonym da_namespace = u64

record da_share =
  sh_namespace :: da_namespace
  sh_index :: u32
  sh_is_parity :: bool
  sh_data :: bytes
  sh_commitment :: hash256

record da_sidecar =
  sc_namespace :: da_namespace
  sc_original_len :: u64
  sc_share_size :: u32
  sc_data_share_count :: u32
  sc_parity_share_count :: u32
  sc_shares :: "da_share list"

record da_sampling_receipt_sample =
  sp_index :: u32
  sp_is_parity :: bool
  sp_commitment :: hash256
  sp_merkle_path :: "hash256 list"

record da_sampling_receipt =
  sr_namespace :: da_namespace
  sr_da_root :: hash256
  sr_share_count :: u32
  sr_seed :: u64
  sr_sample_count :: u32
  sr_samples :: "da_sampling_receipt_sample list"

record da_sampling_params =
  dp_seed :: u64
  dp_sample_count :: u32
  dp_min_samples :: u32

record zone_blob_da =
  zb_namespace :: da_namespace
  zb_payload :: bytes
  zb_share_size :: u32
  zb_sampling :: da_sampling_params

record zone_blob_da_commitment =
  zc_namespace :: da_namespace
  zc_da_root :: hash256
  zc_byte_count :: u64
  zc_share_count :: u32
  zc_share_size :: u32
  zc_sampling :: da_sampling_params

datatype da_verify_error =
    DaNamespace | DaOriginalLen | DaShareCount | DaRoot | DaShareIndex | DaShareCommitment
  | DaSampleMissing | DaInsufficientSamples | DaErasureCoding | DaInsufficientShares

section \<open>Blocks\<close>

record block_header =
  hd_version :: u16
  hd_chain_id :: u64
  hd_height :: u64
  hd_view :: u64
  hd_parent_hash :: hash256
  hd_parent_qc_hash :: hash256
  hd_proposer :: hash256
  hd_timestamp_ms :: u64
  hd_parent_state_root :: hash256
  hd_state_root :: hash256
  hd_tx_root :: hash256
  hd_receipt_root :: hash256
  hd_native_event_root :: hash256
  hd_evm_log_root :: hash256
  hd_zone_namespace :: da_namespace
  hd_da_root :: hash256
  hd_da_bytes :: u64
  hd_da_share_count :: u32
  hd_da_gas_used :: u64
  hd_da_fee_paid :: u128
  hd_gas_used :: u64
  hd_gas_limit :: u64
  hd_feature_set :: execution_feature_set
  hd_extra :: hash256

record block =
  bk_header :: block_header
  bk_transactions :: "transaction list"
  bk_eth_signed_raw :: "bytes option list"
  bk_da_sidecar :: da_sidecar

section \<open>Fees\<close>

datatype fee_cost_category = FeeDaBytes | FeeProofVerify | FeeSharedStateExecution

record fee_policy =
  fp_da_fee_per_byte :: u128
  fp_proof_verify_base_fee :: u128
  fp_proof_verify_fee_per_byte :: u128
  fp_shared_state_gas_price :: u128

definition DEFAULT_DA_FEE_PER_GAS :: u128 where "DEFAULT_DA_FEE_PER_GAS = 1"
definition DEFAULT_DA_GAS_PER_BYTE :: u64 where "DEFAULT_DA_GAS_PER_BYTE = 1"
definition DEFAULT_DA_SHARE_SIZE :: u32 where "DEFAULT_DA_SHARE_SIZE = 512"

definition cost_categories :: "fee_cost_category list" where
  "cost_categories = [FeeDaBytes, FeeProofVerify, FeeSharedStateExecution]"

definition da_bytes_fee :: "fee_policy \<Rightarrow> u64 \<Rightarrow> u128" where
  "da_bytes_fee p encoded_bytes = sat_mul (ucast encoded_bytes) (fp_da_fee_per_byte p)"

definition da_gas_fee :: "fee_policy \<Rightarrow> u64 \<Rightarrow> u128" where
  "da_gas_fee p da_gas_used = da_bytes_fee p da_gas_used"

definition proof_verify_fee :: "fee_policy \<Rightarrow> nat \<Rightarrow> u128" where
  "proof_verify_fee p proof_bytes =
     sat_add (fp_proof_verify_base_fee p) (sat_mul (of_nat proof_bytes) (fp_proof_verify_fee_per_byte p))"

definition shared_state_execution_fee :: "fee_policy \<Rightarrow> u64 \<Rightarrow> u128" where
  "shared_state_execution_fee p execution_gas = sat_mul (ucast execution_gas) (fp_shared_state_gas_price p)"

definition default_fee_policy :: fee_policy where
  "default_fee_policy = \<lparr>fp_da_fee_per_byte = DEFAULT_DA_FEE_PER_GAS, fp_proof_verify_base_fee = 10000,
     fp_proof_verify_fee_per_byte = 1, fp_shared_state_gas_price = 1\<rparr>"

end
