(* ===== verification/BTree_Map.thy ===== *)
theory BTree_Map
  imports Fractal_Prelude
begin

text \<open>
  \<open>BTreeMap\<close> where the iteration order of the standard library matters: an association list in
  strictly ascending order of its keys.  The locale states the contract its clients rely on,
  and the interpretation shows that the list operations meet it.
\<close>

section \<open>Contract\<close>

locale ordered_map =
  fixes get :: "'m \<Rightarrow> 'k::linorder \<Rightarrow> 'v option"
    and put :: "'k \<Rightarrow> 'v \<Rightarrow> 'm \<Rightarrow> 'm"
    and del :: "'k \<Rightarrow> 'm \<Rightarrow> 'm"
    and entries :: "'m \<Rightarrow> ('k \<times> 'v) list"
    and ok :: "'m \<Rightarrow> bool"
  assumes put_ok: "ok m \<Longrightarrow> ok (put k v m)"
    and get_put: "ok m \<Longrightarrow> get (put k v m) = (get m)(k \<mapsto> v)"
    and del_ok: "ok m \<Longrightarrow> ok (del k m)"
    and get_del: "ok m \<Longrightarrow> get (del k m) = (get m)(k := None)"
    and entries_get: "ok m \<Longrightarrow> (k, v) \<in> set (entries m) \<longleftrightarrow> get m k = Some v"
    and entries_sorted: "ok m \<Longrightarrow> sorted_wrt (<) (map fst (entries m))"
begin

text \<open>Inserting under a list of fresh or repeated keys: the last insertion of a key wins.\<close>

definition put_all :: "('k \<times> 'v) list \<Rightarrow> 'm \<Rightarrow> 'm" where
  "put_all kvs m = foldl (\<lambda>m kv. put (fst kv) (snd kv) m) m kvs"

lemma put_all_ok: "ok m \<Longrightarrow> ok (put_all kvs m)"
  by (induction kvs arbitrary: m) (simp_all add: put_all_def put_ok)

lemma get_put_all_same:
  "ok m \<Longrightarrow> get (put_all (map (\<lambda>k. (k, v)) ks) m) k = (if k \<in> set ks then Some v else get m k)"
proof (induction ks arbitrary: m)
  case (Cons k' ks)
  then show ?case using put_ok get_put by (simp add: put_all_def)
qed (simp add: put_all_def)

lemma entries_distinct: "ok m \<Longrightarrow> distinct (map fst (entries m))"
  using entries_sorted strict_sorted_iff by blast

lemma entries_put:
  assumes "ok m"
  shows "(k', v') \<in> set (entries (put k v m)) \<longleftrightarrow> (if k' = k then v' = v else (k', v') \<in> set (entries m))"
  using entries_get [OF put_ok [OF assms]] entries_get [OF assms] get_put [OF assms]
  by (auto simp: fun_upd_def)

lemma entries_values_keyed:
  assumes "ok m" and "v \<in> set (map snd (entries m))"
  shows "\<exists>k. get m k = Some v"
  using assms entries_get by fastforce

end

section \<open>Sorted association lists\<close>

type_synonym ('k, 'v) btree = "('k \<times> 'v) list"

definition bt_ok :: "('k::linorder, 'v) btree \<Rightarrow> bool" where
  "bt_ok m \<longleftrightarrow> sorted_wrt (<) (map fst m)"

fun bt_insert :: "'k::linorder \<Rightarrow> 'v \<Rightarrow> ('k, 'v) btree \<Rightarrow> ('k, 'v) btree" where
  "bt_insert k v [] = [(k, v)]"
| "bt_insert k v ((k', v') # m) =
     (if k < k' then (k, v) # (k', v') # m
      else if k = k' then (k, v) # m
      else (k', v') # bt_insert k v m)"

definition bt_remove :: "'k \<Rightarrow> ('k, 'v) btree \<Rightarrow> ('k, 'v) btree" where
  "bt_remove k m = filter (\<lambda>kv. fst kv \<noteq> k) m"

abbreviation bt_get :: "('k, 'v) btree \<Rightarrow> 'k \<Rightarrow> 'v option" where
  "bt_get \<equiv> map_of"

abbreviation bt_values :: "('k, 'v) btree \<Rightarrow> 'v list" where
  "bt_values m \<equiv> map snd m"

lemma bt_ok_Nil [simp]: "bt_ok []"
  by (simp add: bt_ok_def)

lemma set_bt_insert: "fst ` set (bt_insert k v m) = insert k (fst ` set m)"
  by (induction k v m rule: bt_insert.induct) auto

lemma bt_insert_ok: "bt_ok m \<Longrightarrow> bt_ok (bt_insert k v m)"
proof (induction k v m rule: bt_insert.induct)
  case (2 k v k' v' m)
  have tail: "bt_ok m" "\<forall>x \<in> fst ` set m. k' < x" using "2.prems" by (auto simp: bt_ok_def)
  show ?case
  proof (cases "k < k'")
    case True
    then show ?thesis using "2.prems" tail by (auto simp: bt_ok_def)
  next
    case False
    show ?thesis
    proof (cases "k = k'")
      case True
      then show ?thesis using "2.prems" by (simp add: bt_ok_def)
    next
      case ne: False
      have "bt_ok (bt_insert k v m)" using "2.IH" [OF False ne tail(1)] .
      moreover have "\<forall>x \<in> fst ` set (bt_insert k v m). k' < x"
        using tail(2) False ne unfolding set_bt_insert by auto
      ultimately show ?thesis using False ne by (simp add: bt_ok_def)
    qed
  qed
qed (simp add: bt_ok_def)

lemma bt_get_insert: "bt_ok m \<Longrightarrow> bt_get (bt_insert k v m) = (bt_get m)(k \<mapsto> v)"
proof (induction k v m rule: bt_insert.induct)
  case (2 k v k' v' m)
  have tail: "bt_ok m" using "2.prems" by (simp add: bt_ok_def)
  show ?case using 2 tail by (auto simp: fun_eq_iff)
qed simp

lemma bt_remove_ok: "bt_ok m \<Longrightarrow> bt_ok (bt_remove k m)"
proof (induction m)
  case (Cons kv m)
  then show ?case by (auto simp: bt_ok_def bt_remove_def)
qed (simp add: bt_remove_def)

lemma bt_get_remove: "bt_get (bt_remove k m) = (bt_get m)(k := None)"
  by (induction m) (auto simp: bt_remove_def fun_eq_iff)

interpretation bt: ordered_map map_of bt_insert bt_remove "\<lambda>m. m" bt_ok
proof (unfold_locales, goal_cases)
  case 1 then show ?case by (rule bt_insert_ok)
next
  case 2 then show ?case by (rule bt_get_insert)
next
  case 3 then show ?case by (rule bt_remove_ok)
next
  case 4 show ?case by (rule bt_get_remove)
next
  case (5 m k v)
  then have "distinct (map fst m)" unfolding bt_ok_def using strict_sorted_iff by blast
  then show ?case by simp
next
  case 6 then show ?case by (simp add: bt_ok_def)
qed

lemma length_bt_remove: "length (bt_remove k m) \<le> length m"
  by (simp add: bt_remove_def)

lemma length_bt_insert:
  "bt_ok m \<Longrightarrow> bt_get m k = None \<Longrightarrow> length (bt_insert k v m) = Suc (length m)"
  by (induction k v m rule: bt_insert.induct) (auto simp: bt_ok_def split: if_splits)

lemma length_bt_remove_present:
  assumes "bt_ok m" and "bt_get m k = Some v"
  shows "length (bt_remove k m) + 1 = length m"
proof -
  have "distinct (map fst m)" by (rule bt.entries_distinct [OF assms(1)])
  then have "filter (\<lambda>kv. fst kv = k) m = [(k, v)]"
    using assms(2) by (induction m) (auto simp: filter_empty_conv rev_image_eqI split: if_splits)
  moreover have "length (filter (\<lambda>kv. fst kv = k) m) + length (filter (\<lambda>kv. fst kv \<noteq> k) m) = length m"
    by (rule sum_length_filter_compl)
  ultimately show ?thesis by (simp add: bt_remove_def)
qed

end
