(* ===== verification/Lane_Pools.thy ===== *)
theory Lane_Pools
  imports Certificates Block_Types BTree_Map "HOL-Library.Product_Lexorder" "HOL-Library.Multiset"
begin

text \<open>
  The pools of the certificate lane and of the proof lane: \<open>certificate_pool.rs\<close> and
  \<open>proof_pool.rs\<close> of \<open>crates/mempool/src\<close>.  Both keep the first holder of a key; the locale
  \<open>exclusive_pool\<close> states that contract and what follows of it for runs of insertions.
\<close>

section \<open>First holder wins\<close>

text \<open>
  \<open>claims x k v\<close>: inserting \<open>x\<close> may put \<open>v\<close> under the key \<open>k\<close>.
\<close>

locale exclusive_pool =
  fixes held :: "'s \<Rightarrow> 'k \<Rightarrow> 'v option"
    and put :: "'s \<Rightarrow> 'x \<Rightarrow> 's \<times> ('e + 'r)"
    and claims :: "'x \<Rightarrow> 'k \<Rightarrow> 'v \<Rightarrow> bool"
    and inv :: "'s \<Rightarrow> bool"
  assumes put_inv: "inv s \<Longrightarrow> inv (fst (put s x))"
    and put_keeps: "inv s \<Longrightarrow> held s k = Some v \<Longrightarrow> held (fst (put s x)) k = Some v"
    and put_origin: "inv s \<Longrightarrow> held (fst (put s x)) k = Some v \<Longrightarrow> held s k \<noteq> Some v \<Longrightarrow>
      claims x k v \<and> is_ok (snd (put s x))"
begin

definition put_run :: "'s \<Rightarrow> 'x list \<Rightarrow> 's" where
  "put_run s xs = foldl (\<lambda>s x. fst (put s x)) s xs"

lemma put_run_simps [simp]:
  "put_run s [] = s" "put_run s (x # xs) = put_run (fst (put s x)) xs"
  "put_run s (xs @ ys) = put_run (put_run s xs) ys"
  by (simp_all add: put_run_def)

lemma put_run_inv: "inv s \<Longrightarrow> inv (put_run s xs)"
  by (induction xs arbitrary: s) (simp_all add: put_inv)

lemma put_run_keeps: "inv s \<Longrightarrow> held s k = Some v \<Longrightarrow> held (put_run s xs) k = Some v"
  by (induction xs arbitrary: s) (simp_all add: put_inv put_keeps)

lemma put_run_origin:
  assumes "inv s" and "held s k = None" and "held (put_run s xs) k = Some v"
  shows "\<exists>x \<in> set xs. claims x k v"
  using assms
proof (induction xs arbitrary: s)
  case (Cons x xs)
  show ?case
  proof (cases "held (fst (put s x)) k")
    case None
    then show ?thesis using Cons.IH [OF put_inv [OF Cons.prems(1)] None] Cons.prems(3) by auto
  next
    case (Some w)
    then have "held (put_run s (x # xs)) k = Some w"
      using put_run_keeps [OF put_inv [OF Cons.prems(1)] Some] by simp
    then show ?thesis using put_origin [OF Cons.prems(1) Some] Cons.prems(2,3) by auto
  qed
qed simp

end

section \<open>The certificate pool\<close>

record certificate_finality_record =
  fr_certificate_hash :: hash256
  fr_certificate :: owned_object_certificate

record certificate_conflict_record =
  cf_evidence :: conflicting_certificate_evidence
  cf_finding :: conflicting_certificate_finding

datatype certificate_pool_error =
    InvalidCertificate certificate_error
  | InvalidConflictEvidence evidence_error
  | PoolObjectVersionConflict owned_object_version certificate_conflict_record

record certificate_pool =
  cp_by_object_version :: "(owned_object_version, certificate_finality_record) btree"
  cp_conflicts :: "certificate_conflict_record list"

definition cp_empty :: certificate_pool where
  "cp_empty = \<lparr>cp_by_object_version = [], cp_conflicts = []\<rparr>"

definition cp_len :: "certificate_pool \<Rightarrow> nat" where
  "cp_len pool = length (cp_by_object_version pool)"

definition conflict_count :: "certificate_pool \<Rightarrow> nat" where
  "conflict_count pool = length (cp_conflicts pool)"

definition finality_for_object_version ::
    "certificate_pool \<Rightarrow> owned_object_version \<Rightarrow> certificate_finality_record option" where
  "finality_for_object_version pool ov = bt_get (cp_by_object_version pool) ov"

definition accepted_certificates :: "certificate_pool \<Rightarrow> owned_object_certificate list" where
  "accepted_certificates pool =
     bt_values (foldl (\<lambda>out r. if bt_get out (fr_certificate_hash r) = None
         then bt_insert (fr_certificate_hash r) (fr_certificate r) out else out)
       [] (bt_values (cp_by_object_version pool)))"

text \<open>
  The first loop of \<open>insert\<close>: the first version that is taken decides, and no result means that
  every version is free.
\<close>

fun cp_scan ::
    "ext \<Rightarrow> 'sk cert_ext \<Rightarrow> certificate_pool \<Rightarrow> owned_object_certificate \<Rightarrow> hash256 \<Rightarrow> bls_pubkey list
     \<Rightarrow> nat \<Rightarrow> owned_object_version list
     \<Rightarrow> (certificate_pool \<times> (certificate_pool_error + hash256)) option" where
  "cp_scan E X pool cert h pks k [] = None"
| "cp_scan E X pool cert h pks k (ov # ovs) =
     (case bt_get (cp_by_object_version pool) ov of
        None \<Rightarrow> cp_scan E X pool cert h pks k ovs
      | Some existing \<Rightarrow> Some (
          if fr_certificate_hash existing = h then (pool, Inr h)
          else
            let evidence = \<lparr>ce_certificate_a = fr_certificate existing, ce_certificate_b = cert\<rparr>
            in case evidence_verify E X evidence pks k of
                 Inl e \<Rightarrow> (pool, Inl (InvalidConflictEvidence e))
               | Inr finding \<Rightarrow>
                   let conflict = \<lparr>cf_evidence = evidence, cf_finding = finding\<rparr>
                   in (pool\<lparr>cp_conflicts := cp_conflicts pool @ [conflict]\<rparr>,
                       Inl (PoolObjectVersionConflict ov conflict))))"

definition cp_insert ::
    "ext \<Rightarrow> 'sk cert_ext \<Rightarrow> bls_pubkey list \<Rightarrow> nat \<Rightarrow> certificate_pool \<Rightarrow> owned_object_certificate
     \<Rightarrow> certificate_pool \<times> (certificate_pool_error + hash256)" where
  "cp_insert E X validator_pubkeys quorum_threshold pool cert =
     (case certificate_verify X cert validator_pubkeys quorum_threshold of
        Inl e \<Rightarrow> (pool, Inl (InvalidCertificate e))
      | Inr _ \<Rightarrow>
      (case certificate_hash E X cert of
        Inl e \<Rightarrow> (pool, Inl (InvalidCertificate e))
      | Inr h \<Rightarrow>
      (case cp_scan E X pool cert h validator_pubkeys quorum_threshold (ct_object_versions cert) of
        Some result \<Rightarrow> result
      | None \<Rightarrow>
          (pool\<lparr>cp_by_object_version := foldl (\<lambda>m ov. bt_insert ov
                \<lparr>fr_certificate_hash = h, fr_certificate = cert\<rparr> m)
              (cp_by_object_version pool) (ct_object_versions cert)\<rparr>, Inr h))))"

section \<open>The proof pool\<close>

record zone_proof_update =
  zu_zone_id :: u64
  zu_height :: u64
  zu_parent_root :: hash256
  zu_new_root :: hash256
  zu_tx_root :: hash256
  zu_da_root :: hash256
  zu_message_root :: hash256
  zu_forced_inclusion_root :: hash256
  zu_circuit_version :: circuit_version
  zu_feature_set :: execution_feature_set
  zu_proof_digest :: hash256

text \<open>The derived order of the key compares the zone first and the height second.\<close>

type_synonym proof_update_key = "u64 \<times> u64"

definition proof_update_key :: "zone_proof_update \<Rightarrow> proof_update_key" where
  "proof_update_key u = (zu_zone_id u, zu_height u)"

record pooled_proof_update =
  pu_update :: zone_proof_update
  pu_max_priority_fee :: u128

datatype conflict_policy = Reject | RetainEvidence

record proof_update_conflict =
  px_key :: proof_update_key
  px_existing_digest :: hash256
  px_conflicting_digest :: hash256
  px_existing :: zone_proof_update
  px_conflicting :: zone_proof_update

record proof_pool_metrics =
  pm_pending_total :: nat
  pm_inserted_total :: u64
  pm_evicted_total :: u64
  pm_drained_total :: u64
  pm_conflict_total :: u64
  pm_retained_conflicts :: nat

datatype proof_pool_error = ProofConflict proof_update_key

record proof_pool =
  pp_pending :: "(proof_update_key, pooled_proof_update) btree"
  pp_conflicts :: "proof_update_conflict list"
  pp_metrics :: proof_pool_metrics
  pp_conflict_policy :: conflict_policy

definition default_metrics :: proof_pool_metrics where
  "default_metrics = \<lparr>pm_pending_total = 0, pm_inserted_total = 0, pm_evicted_total = 0,
     pm_drained_total = 0, pm_conflict_total = 0, pm_retained_conflicts = 0\<rparr>"

definition pp_new :: "conflict_policy \<Rightarrow> proof_pool" where
  "pp_new policy = \<lparr>pp_pending = [], pp_conflicts = [], pp_metrics = default_metrics,
     pp_conflict_policy = policy\<rparr>"

definition pp_len :: "proof_pool \<Rightarrow> nat" where
  "pp_len pool = length (pp_pending pool)"

definition metrics :: "proof_pool \<Rightarrow> proof_pool_metrics" where
  "metrics pool = (pp_metrics pool)\<lparr>pm_pending_total := length (pp_pending pool),
     pm_retained_conflicts := length (pp_conflicts pool)\<rparr>"

definition pp_get :: "proof_pool \<Rightarrow> proof_update_key \<Rightarrow> pooled_proof_update option" where
  "pp_get pool key = bt_get (pp_pending pool) key"

definition pp_insert :: "proof_pool \<Rightarrow> pooled_proof_update \<Rightarrow> proof_pool \<times> (proof_pool_error + unit)" where
  "pp_insert pool update =
     (let key = proof_update_key (pu_update update); m = pp_metrics pool
      in case bt_get (pp_pending pool) key of
           Some existing \<Rightarrow>
             if pu_update existing = pu_update update then (pool, Inr ())
             else
               let pool' = pool\<lparr>pp_metrics := m\<lparr>pm_conflict_total := sat_add (pm_conflict_total m) 1\<rparr>\<rparr>;
                   pool'' = (if pp_conflict_policy pool = RetainEvidence
                     then pool'\<lparr>pp_conflicts := pp_conflicts pool @
                       [\<lparr>px_key = key, px_existing_digest = zu_proof_digest (pu_update existing),
                         px_conflicting_digest = zu_proof_digest (pu_update update),
                         px_existing = pu_update existing, px_conflicting = pu_update update\<rparr>]\<rparr>
                     else pool')
               in (pool'', Inl (ProofConflict key))
         | None \<Rightarrow>
             (pool\<lparr>pp_pending := bt_insert key update (pp_pending pool),
                   pp_metrics := m\<lparr>pm_inserted_total := sat_add (pm_inserted_total m) 1\<rparr>\<rparr>, Inr ()))"

definition pp_remove :: "proof_pool \<Rightarrow> proof_update_key \<Rightarrow> proof_pool \<times> pooled_proof_update option" where
  "pp_remove pool key =
     (let removed = bt_get (pp_pending pool) key; m = pp_metrics pool;
          pool' = pool\<lparr>pp_pending := bt_remove key (pp_pending pool)\<rparr>
      in (if removed \<noteq> None
          then pool'\<lparr>pp_metrics := m\<lparr>pm_evicted_total := sat_add (pm_evicted_total m) 1\<rparr>\<rparr>
          else pool', removed))"

text \<open>The order of draining: the larger fee first, then the smaller key; the sort is stable.\<close>

definition ready_key :: "pooled_proof_update \<Rightarrow> int \<times> proof_update_key" where
  "ready_key p = (- uint (pu_max_priority_fee p), proof_update_key (pu_update p))"

fun drain_keys ::
    "proof_update_key list \<Rightarrow> (proof_update_key, pooled_proof_update) btree
     \<Rightarrow> (proof_update_key, pooled_proof_update) btree \<times> zone_proof_update list" where
  "drain_keys [] pending = (pending, [])"
| "drain_keys (key # keys) pending =
     (case bt_get pending key of
        None \<Rightarrow> drain_keys keys (bt_remove key pending)
      | Some p \<Rightarrow>
          (let (pending', drained) = drain_keys keys (bt_remove key pending)
           in (pending', pu_update p # drained)))"

definition pp_drain_ready :: "proof_pool \<Rightarrow> nat \<Rightarrow> proof_pool \<times> zone_proof_update list" where
  "pp_drain_ready pool max_updates =
     (let ready = sort_key ready_key (bt_values (pp_pending pool));
          keys = map (\<lambda>p. proof_update_key (pu_update p)) (take max_updates ready);
          (pending', drained) = drain_keys keys (pp_pending pool);
          m = pp_metrics pool
      in (pool\<lparr>pp_pending := pending',
               pp_metrics := m\<lparr>pm_drained_total := sat_add (pm_drained_total m) (of_nat (length drained))\<rparr>\<rparr>,
          drained))"

section \<open>The certificate pool keeps its first holders\<close>

definition final_record ::
    "ext \<Rightarrow> 'sk cert_ext \<Rightarrow> bls_pubkey list \<Rightarrow> nat \<Rightarrow> owned_object_certificate \<Rightarrow> owned_object_version
     \<Rightarrow> certificate_finality_record \<Rightarrow> bool" where
  "final_record E X pks k cert ov r \<longleftrightarrow>
     fr_certificate r = cert \<and> certificate_hash E X cert = Inr (fr_certificate_hash r) \<and>
     ov \<in> set (ct_object_versions cert) \<and> certificate_verify X cert pks k = Inr ()"

definition cp_inv :: "ext \<Rightarrow> 'sk cert_ext \<Rightarrow> bls_pubkey list \<Rightarrow> nat \<Rightarrow> certificate_pool \<Rightarrow> bool" where
  "cp_inv E X pks k pool \<longleftrightarrow> bt_ok (cp_by_object_version pool) \<and>
     (\<forall>ov r. finality_for_object_version pool ov = Some r \<longrightarrow>
        final_record E X pks k (fr_certificate r) ov r \<and>
        (\<forall>ov' \<in> set (ct_object_versions (fr_certificate r)). finality_for_object_version pool ov' = Some r)) \<and>
     list_all (\<lambda>c. evidence_verify E X (cf_evidence c) pks k = Inr (cf_finding c)) (cp_conflicts pool)"

lemma cp_scan_None_iff:
  "cp_scan E X pool cert h pks k ovs = None \<longleftrightarrow> (\<forall>ov \<in> set ovs. finality_for_object_version pool ov = None)"
  by (induction ovs) (auto simp: finality_for_object_version_def split: option.splits)

text \<open>
  The first holder found decides.  The pool keeps its holders, gains at most verified evidence,
  and the answer is positive exactly when that holder has the hash of the certificate.
\<close>

lemma cp_scan_find:
  "cp_scan E X pool cert h pks k ovs =
     (case List.find (\<lambda>ov. finality_for_object_version pool ov \<noteq> None) ovs of
        None \<Rightarrow> None | Some ov \<Rightarrow> cp_scan E X pool cert h pks k [ov])"
  by (induction ovs) (auto simp: finality_for_object_version_def)

lemma cp_scan_one:
  assumes "finality_for_object_version pool ov = Some r"
  shows "\<exists>cs res. cp_scan E X pool cert h pks k [ov] = Some (pool\<lparr>cp_conflicts := cp_conflicts pool @ cs\<rparr>, res) \<and>
    list_all (\<lambda>c. evidence_verify E X (cf_evidence c) pks k = Inr (cf_finding c)) cs \<and>
    (is_ok res \<longleftrightarrow> fr_certificate_hash r = h)"
proof (cases "evidence_verify E X \<lparr>ce_certificate_a = fr_certificate r, ce_certificate_b = cert\<rparr> pks k")
  case (Inl e)
  then show ?thesis using assms by (auto simp: finality_for_object_version_def intro!: exI [of _ "[]"])
next
  case (Inr fi)
  let ?c = "\<lparr>cf_evidence = \<lparr>ce_certificate_a = fr_certificate r, ce_certificate_b = cert\<rparr>, cf_finding = fi\<rparr>"
  show ?thesis
    using Inr assms
    by (intro exI [of _ "if fr_certificate_hash r = h then [] else [?c]"])
      (auto simp: finality_for_object_version_def Let_def)
qed

lemma cp_scan_Some:
  assumes "cp_scan E X pool cert h pks k ovs = Some (pool', res)"
  shows "\<exists>cs ov r. pool' = pool\<lparr>cp_conflicts := cp_conflicts pool @ cs\<rparr> \<and>
    list_all (\<lambda>c. evidence_verify E X (cf_evidence c) pks k = Inr (cf_finding c)) cs \<and>
    ov \<in> set ovs \<and> finality_for_object_version pool ov = Some r \<and> (is_ok res \<longleftrightarrow> fr_certificate_hash r = h)"
proof -
  obtain ov where found: "List.find (\<lambda>ov. finality_for_object_version pool ov \<noteq> None) ovs = Some ov"
    and scan: "cp_scan E X pool cert h pks k [ov] = Some (pool', res)"
    using assms cp_scan_find [of E X pool cert h pks k ovs] by (auto split: option.splits)
  obtain r where "finality_for_object_version pool ov = Some r" "ov \<in> set ovs"
    using found by (auto simp: find_Some_iff)
  then show ?thesis using cp_scan_one [of pool ov r E X cert h pks k] scan by auto
qed

lemma foldl_bt_insert:
  "foldl (\<lambda>m k. bt_insert k v m) m ks = bt.put_all (map (\<lambda>k. (k, v)) ks) m"
  by (induction ks arbitrary: m) (simp_all add: bt.put_all_def)

text \<open>The three ways an insertion ends.\<close>

lemma cp_insert_cases [consumes 0, case_names refused scanned stored]:
  assumes "\<And>e. cp_insert E X pks k pool cert = (pool, Inl e) \<Longrightarrow>
      \<not> (\<exists>h. certificate_verify X cert pks k = Inr () \<and> certificate_hash E X cert = Inr h) \<Longrightarrow> P"
    and "\<And>h cs ov r res. certificate_verify X cert pks k = Inr () \<Longrightarrow> certificate_hash E X cert = Inr h \<Longrightarrow>
      cp_insert E X pks k pool cert = (pool\<lparr>cp_conflicts := cp_conflicts pool @ cs\<rparr>, res) \<Longrightarrow>
      list_all (\<lambda>c. evidence_verify E X (cf_evidence c) pks k = Inr (cf_finding c)) cs \<Longrightarrow>
      ov \<in> set (ct_object_versions cert) \<Longrightarrow> finality_for_object_version pool ov = Some r \<Longrightarrow>
      (is_ok res \<longleftrightarrow> fr_certificate_hash r = h) \<Longrightarrow> P"
    and "\<And>h. certificate_verify X cert pks k = Inr () \<Longrightarrow> certificate_hash E X cert = Inr h \<Longrightarrow>
      \<forall>ov \<in> set (ct_object_versions cert). finality_for_object_version pool ov = None \<Longrightarrow>
      cp_insert E X pks k pool cert = (pool\<lparr>cp_by_object_version :=
        bt.put_all (map (\<lambda>ov. (ov, \<lparr>fr_certificate_hash = h, fr_certificate = cert\<rparr>)) (ct_object_versions cert))
          (cp_by_object_version pool)\<rparr>, Inr h) \<Longrightarrow> P"
  shows P
proof (cases "certificate_verify X cert pks k")
  case (Inl e)
  then show ?thesis by (intro assms(1)) (simp_all add: cp_insert_def)
next
  case verified: (Inr u)
  show ?thesis
  proof (cases "certificate_hash E X cert")
    case (Inl e)
    then show ?thesis using verified by (intro assms(1)) (simp_all add: cp_insert_def)
  next
    case hash: (Inr h)
    show ?thesis
    proof (cases "cp_scan E X pool cert h pks k (ct_object_versions cert)")
      case None
      then have "cp_insert E X pks k pool cert = (pool\<lparr>cp_by_object_version :=
        bt.put_all (map (\<lambda>ov. (ov, \<lparr>fr_certificate_hash = h, fr_certificate = cert\<rparr>)) (ct_object_versions cert))
          (cp_by_object_version pool)\<rparr>, Inr h)"
        using verified hash by (simp add: cp_insert_def foldl_bt_insert)
      then show ?thesis using assms(3) verified hash None unfolding cp_scan_None_iff by simp
    next
      case (Some pr)
      then obtain pool' res where scan: "cp_scan E X pool cert h pks k (ct_object_versions cert) = Some (pool', res)"
        by (cases pr) auto
      from cp_scan_Some [OF this] show ?thesis
        using assms(2) verified hash scan by (auto simp: cp_insert_def)
    qed
  qed
qed

lemma cp_invD:
  assumes "cp_inv E X pks k pool"
  shows "bt_ok (cp_by_object_version pool)"
    and "finality_for_object_version pool ov = Some r \<Longrightarrow> final_record E X pks k (fr_certificate r) ov r"
    and "finality_for_object_version pool ov = Some r \<Longrightarrow> ov' \<in> set (ct_object_versions (fr_certificate r)) \<Longrightarrow>
      finality_for_object_version pool ov' = Some r"
    and "list_all (\<lambda>c. evidence_verify E X (cf_evidence c) pks k = Inr (cf_finding c)) (cp_conflicts pool)"
  using assms unfolding cp_inv_def by blast+

lemma cp_invI:
  assumes "bt_ok (cp_by_object_version pool)"
    and "\<And>ov r. finality_for_object_version pool ov = Some r \<Longrightarrow> final_record E X pks k (fr_certificate r) ov r \<and>
      (\<forall>ov' \<in> set (ct_object_versions (fr_certificate r)). finality_for_object_version pool ov' = Some r)"
    and "list_all (\<lambda>c. evidence_verify E X (cf_evidence c) pks k = Inr (cf_finding c)) (cp_conflicts pool)"
  shows "cp_inv E X pks k pool"
  using assms unfolding cp_inv_def by blast

lemma cp_inv_conflicts:
  assumes "cp_inv E X pks k pool"
    and "list_all (\<lambda>c. evidence_verify E X (cf_evidence c) pks k = Inr (cf_finding c)) cs"
  shows "cp_inv E X pks k (pool\<lparr>cp_conflicts := cp_conflicts pool @ cs\<rparr>)"
proof -
  have same: "finality_for_object_version (pool\<lparr>cp_conflicts := cs'\<rparr>) = finality_for_object_version pool" for cs'
    by (simp add: finality_for_object_version_def fun_eq_iff)
  show ?thesis
  proof (rule cp_invI, unfold same)
    show "bt_ok (cp_by_object_version (pool\<lparr>cp_conflicts := cp_conflicts pool @ cs\<rparr>))"
      using cp_invD(1) [OF assms(1)] by simp
    show "list_all (\<lambda>c. evidence_verify E X (cf_evidence c) pks k = Inr (cf_finding c))
        (cp_conflicts (pool\<lparr>cp_conflicts := cp_conflicts pool @ cs\<rparr>))"
      using cp_invD(4) [OF assms(1)] assms(2) by simp
  qed (use cp_invD(2,3) [OF assms(1)] in blast)
qed

lemma cp_inv_empty [simp]: "cp_inv E X pks k cp_empty"
  by (simp add: cp_inv_def cp_empty_def finality_for_object_version_def)

lemma cp_insert_inv: "cp_inv E X pks k pool \<Longrightarrow> cp_inv E X pks k (fst (cp_insert E X pks k pool cert))"
proof (cases rule: cp_insert_cases [of E X pks k pool cert])
  case (scanned h cs ov r res)
  assume "cp_inv E X pks k pool"
  then show ?thesis unfolding scanned(3) fst_conv using scanned(4) by (rule cp_inv_conflicts)
next
  case (stored h)
  assume inv: "cp_inv E X pks k pool"
  note ok = cp_invD(1) [OF inv]
  let ?new = "\<lparr>fr_certificate_hash = h, fr_certificate = cert\<rparr>"
  have held: "finality_for_object_version (fst (cp_insert E X pks k pool cert)) ov =
      (if ov \<in> set (ct_object_versions cert) then Some ?new else finality_for_object_version pool ov)" for ov
    using bt.get_put_all_same [OF ok] stored(4) by (simp add: finality_for_object_version_def)
  have "final_record E X pks k (fr_certificate r) ov r \<and> (\<forall>ov' \<in> set (ct_object_versions (fr_certificate r)).
      finality_for_object_version (fst (cp_insert E X pks k pool cert)) ov' = Some r)"
    if "finality_for_object_version (fst (cp_insert E X pks k pool cert)) ov = Some r" for ov r
  proof (cases "ov \<in> set (ct_object_versions cert)")
    case True
    then show ?thesis using that stored(1,2) by (auto simp: held final_record_def)
  next
    case False
    then have "finality_for_object_version pool ov = Some r" using that by (simp add: held)
    then have r: "final_record E X pks k (fr_certificate r) ov r"
        "\<And>ov'. ov' \<in> set (ct_object_versions (fr_certificate r)) \<Longrightarrow> finality_for_object_version pool ov' = Some r"
      by (rule cp_invD [OF inv])+
    moreover have "ov' \<notin> set (ct_object_versions cert)"
      if "ov' \<in> set (ct_object_versions (fr_certificate r))" for ov'
      using r(2) [OF that] stored(3) by auto
    ultimately show ?thesis by (simp add: held)
  qed
  note records = this
  have "bt_ok (cp_by_object_version (fst (cp_insert E X pks k pool cert)))"
      "cp_conflicts (fst (cp_insert E X pks k pool cert)) = cp_conflicts pool"
    using bt.put_all_ok [OF ok] stored(4) by simp_all
  from cp_invI [OF this(1) records] this(2) cp_invD(4) [OF inv] show ?thesis by simp
qed auto

interpretation cpool: exclusive_pool finality_for_object_version "cp_insert E X pks k"
    "final_record E X pks k" "cp_inv E X pks k"
    for E :: ext and X :: "'sk cert_ext" and pks :: "bls_pubkey list" and k :: nat
proof (unfold_locales, goal_cases)
  case (1 pool cert)
  then show ?case by (rule cp_insert_inv)
next
  case (2 pool ov r cert)
  note ok = cp_invD(1) [OF 2(1)]
  show ?case
  proof (cases rule: cp_insert_cases [of E X pks k pool cert])
    case (stored h)
    then show ?thesis
      using 2 bt.get_put_all_same [OF ok] by (auto simp: finality_for_object_version_def)
  qed (use 2 in \<open>simp_all add: finality_for_object_version_def\<close>)
next
  case (3 pool cert ov r)
  note ok = cp_invD(1) [OF 3(1)]
  show ?case
  proof (cases rule: cp_insert_cases [of E X pks k pool cert])
    case (stored h)
    then show ?thesis
      using 3 bt.get_put_all_same [OF ok]
      by (auto simp: finality_for_object_version_def final_record_def split: if_splits)
  qed (use 3 in \<open>simp_all add: finality_for_object_version_def\<close>)
qed

definition cp_run ::
    "ext \<Rightarrow> 'sk cert_ext \<Rightarrow> bls_pubkey list \<Rightarrow> nat \<Rightarrow> owned_object_certificate list \<Rightarrow> certificate_pool" where
  "cp_run E X pks k certs = foldl (\<lambda>pool cert. fst (cp_insert E X pks k pool cert)) cp_empty certs"

lemma cp_run_put_run: "cp_run E X pks k certs = exclusive_pool.put_run (cp_insert E X pks k) cp_empty certs"
  by (simp add: cp_run_def cpool.put_run_def)

lemma cp_run_inv: "cp_inv E X pks k (cp_run E X pks k certs)"
  unfolding cp_run_put_run by (rule cpool.put_run_inv) simp

lemma finality_empty [simp]: "finality_for_object_version cp_empty ov = None"
  by (simp add: finality_for_object_version_def cp_empty_def)

section \<open>The proof pool keeps its first holders\<close>

definition pp_inv :: "proof_pool \<Rightarrow> bool" where
  "pp_inv pool \<longleftrightarrow> bt_ok (pp_pending pool) \<and>
     (\<forall>(key, p) \<in> set (pp_pending pool). proof_update_key (pu_update p) = key)"

lemma pp_insert_taken:
  "pp_get pool (proof_update_key (pu_update u)) \<noteq> None \<Longrightarrow> pp_pending (fst (pp_insert pool u)) = pp_pending pool"
  by (auto simp: pp_insert_def pp_get_def Let_def)

lemma pp_insert_free:
  "pp_get pool (proof_update_key (pu_update u)) = None \<Longrightarrow>
     pp_insert pool u = (pool\<lparr>pp_pending := bt_insert (proof_update_key (pu_update u)) u (pp_pending pool),
       pp_metrics := (pp_metrics pool)\<lparr>pm_inserted_total := sat_add (pm_inserted_total (pp_metrics pool)) 1\<rparr>\<rparr>, Inr ())"
  by (simp add: pp_insert_def pp_get_def Let_def)

lemma pp_insert_inv: "pp_inv pool \<Longrightarrow> pp_inv (fst (pp_insert pool u))"
proof (cases "pp_get pool (proof_update_key (pu_update u))")
  case None
  assume "pp_inv pool"
  then have ok: "bt_ok (pp_pending pool)" and keyed: "\<forall>(key, p) \<in> set (pp_pending pool). proof_update_key (pu_update p) = key"
    by (simp_all add: pp_inv_def)
  have "proof_update_key (pu_update p) = key"
    if "(key, p) \<in> set (bt_insert (proof_update_key (pu_update u)) u (pp_pending pool))" for key p
    using that keyed unfolding bt.entries_put [OF ok] by (auto split: if_splits)
  then show ?thesis using bt_insert_ok [OF ok] by (auto simp: pp_insert_free [OF None] pp_inv_def)
qed (simp add: pp_inv_def pp_insert_taken)

interpretation ppool: exclusive_pool pp_get pp_insert
    "\<lambda>u key p. p = u \<and> key = proof_update_key (pu_update u)" pp_inv
proof (unfold_locales, goal_cases)
  case (1 pool u)
  then show ?case by (rule pp_insert_inv)
next
  case (2 pool key p u)
  then show ?case
    by (cases "pp_get pool (proof_update_key (pu_update u))")
      (auto simp: pp_insert_free pp_insert_taken pp_get_def pp_inv_def bt_get_insert)
next
  case (3 pool u key p)
  then show ?case
    by (cases "pp_get pool (proof_update_key (pu_update u))")
      (auto simp: pp_insert_free pp_insert_taken pp_get_def pp_inv_def bt_get_insert split: if_splits)
qed

section \<open>Draining and accounting\<close>

lemma drain_keys_eq:
  assumes "list_all (\<lambda>p. bt_get pending (key p) = Some p) ps" and "distinct (map key ps)"
  shows "drain_keys (map key ps) pending =
    (filter (\<lambda>kv. fst kv \<notin> key ` set ps) pending, map pu_update ps)"
  using assms
proof (induction ps arbitrary: pending)
  case (Cons p ps)
  have "bt_get (bt_remove (key p) pending) (key q) = Some q" if "q \<in> set ps" for q
  proof -
    have "bt_get pending (key q) = Some q" using Cons.prems(1) that by (simp only: list_all_iff list.set) blast
    moreover have "key q \<noteq> key p" using Cons.prems(2) that by (metis distinct.simps(2) image_eqI list.set_map list.simps(9))
    ultimately show ?thesis by (simp add: bt_get_remove)
  qed
  then have "list_all (\<lambda>q. bt_get (bt_remove (key p) pending) (key q) = Some q) ps"
    unfolding list_all_iff by blast
  then have rest: "drain_keys (map key ps) (bt_remove (key p) pending) =
      (filter (\<lambda>kv. fst kv \<notin> key ` set ps) (bt_remove (key p) pending), map pu_update ps)"
    using Cons.prems(2) by (intro Cons.IH) simp_all
  have "bt_get pending (key p) = Some p" using Cons.prems(1) by simp
  then have "drain_keys (map key (p # ps)) pending =
      (filter (\<lambda>kv. fst kv \<notin> key ` set ps) (bt_remove (key p) pending), map pu_update (p # ps))"
    by (simp add: rest)
  also have "filter (\<lambda>kv. fst kv \<notin> key ` set ps) (bt_remove (key p) pending) =
      filter (\<lambda>kv. fst kv \<notin> key ` set (p # ps)) pending"
    by (simp add: bt_remove_def)
  finally show ?case .
qed simp

lemma filter_not_take:
  assumes "distinct (map f xs)"
  shows "filter (\<lambda>x. f x \<notin> f ` set (take n xs)) xs = drop n xs"
proof -
  let ?P = "\<lambda>x. f x \<notin> f ` set (take n xs)"
  have "distinct (map f (take n xs) @ map f (drop n xs))"
    using assms by (simp flip: map_append)
  then have "?P x" if "x \<in> set (drop n xs)" for x using that by auto
  then have "filter ?P (drop n xs) = drop n xs" by (simp add: filter_id_conv)
  moreover have "filter ?P (take n xs) = []" by (auto simp: filter_empty_conv)
  moreover have "filter ?P xs = filter ?P (take n xs) @ filter ?P (drop n xs)"
    by (metis append_take_drop_id filter_append)
  ultimately show ?thesis by simp
qed

abbreviation key_of :: "pooled_proof_update \<Rightarrow> proof_update_key" where
  "key_of p \<equiv> proof_update_key (pu_update p)"

lemma pp_values:
  assumes "pp_inv pool"
  shows "map key_of (bt_values (pp_pending pool)) = map fst (pp_pending pool)"
    and "distinct (map key_of (bt_values (pp_pending pool)))"
    and "p \<in> set (bt_values (pp_pending pool)) \<Longrightarrow> bt_get (pp_pending pool) (key_of p) = Some p"
proof -
  show keys: "map key_of (bt_values (pp_pending pool)) = map fst (pp_pending pool)"
    using assms by (auto simp: pp_inv_def)
  show "distinct (map key_of (bt_values (pp_pending pool)))"
    unfolding keys using assms bt.entries_distinct [of "pp_pending pool"] by (simp only: pp_inv_def)
  show "bt_get (pp_pending pool) (key_of p) = Some p" if "p \<in> set (bt_values (pp_pending pool))"
    using that assms bt.entries_get [of "pp_pending pool"] by (fastforce simp: pp_inv_def)
qed

lemma pp_drain_ready_eq:
  assumes "pp_inv pool"
  defines "ready \<equiv> sort_key ready_key (bt_values (pp_pending pool))"
  shows "snd (pp_drain_ready pool n) = map pu_update (take n ready)"
    and "pp_pending (fst (pp_drain_ready pool n)) =
      filter (\<lambda>kv. fst kv \<notin> key_of ` set (take n ready)) (pp_pending pool)"
    and "mset (bt_values (pp_pending (fst (pp_drain_ready pool n)))) = mset (drop n ready)"
    and "pp_metrics (fst (pp_drain_ready pool n)) = (pp_metrics pool)\<lparr>pm_drained_total :=
      sat_add (pm_drained_total (pp_metrics pool)) (of_nat (length (take n ready)))\<rparr>"
    and "distinct (map key_of ready)"
proof -
  have perm: "mset ready = mset (bt_values (pp_pending pool))" by (simp add: ready_def)
  show dist: "distinct (map key_of ready)"
    using pp_values(2) [OF assms(1)] perm by (metis mset_eq_imp_distinct_iff mset_map)
  have "list_all (\<lambda>p. bt_get (pp_pending pool) (key_of p) = Some p) (take n ready)"
    using pp_values(3) [OF assms(1)] perm by (auto simp: list_all_iff ready_def dest: in_set_takeD)
  moreover have "distinct (map key_of (take n ready))" using dist by (simp add: take_map [symmetric])
  ultimately have drain: "drain_keys (map key_of (take n ready)) (pp_pending pool) =
      (filter (\<lambda>kv. fst kv \<notin> key_of ` set (take n ready)) (pp_pending pool), map pu_update (take n ready))"
    by (rule drain_keys_eq)
  show "snd (pp_drain_ready pool n) = map pu_update (take n ready)"
    and pending: "pp_pending (fst (pp_drain_ready pool n)) =
      filter (\<lambda>kv. fst kv \<notin> key_of ` set (take n ready)) (pp_pending pool)"
    and "pp_metrics (fst (pp_drain_ready pool n)) = (pp_metrics pool)\<lparr>pm_drained_total :=
      sat_add (pm_drained_total (pp_metrics pool)) (of_nat (length (take n ready)))\<rparr>"
    using drain by (simp_all add: pp_drain_ready_def Let_def flip: ready_def)
  have "bt_values (filter (\<lambda>kv. fst kv \<notin> K) (pp_pending pool)) =
      filter (\<lambda>p. key_of p \<notin> K) (bt_values (pp_pending pool))" for K
    using assms(1) by (auto simp: pp_inv_def filter_map comp_def intro!: arg_cong [of _ _ "map snd"] filter_cong)
  then have "mset (bt_values (pp_pending (fst (pp_drain_ready pool n)))) =
      mset (filter (\<lambda>p. key_of p \<notin> key_of ` set (take n ready)) ready)"
    unfolding pending mset_filter perm by (simp only: mset_filter)
  then show "mset (bt_values (pp_pending (fst (pp_drain_ready pool n)))) = mset (drop n ready)"
    by (simp add: filter_not_take [OF dist])
qed

datatype proof_op = Insert_Update pooled_proof_update | Remove_Update proof_update_key | Drain_Ready nat

fun pp_step :: "proof_pool \<Rightarrow> proof_op \<Rightarrow> proof_pool" where
  "pp_step pool (Insert_Update u) = fst (pp_insert pool u)"
| "pp_step pool (Remove_Update key) = fst (pp_remove pool key)"
| "pp_step pool (Drain_Ready n) = fst (pp_drain_ready pool n)"

definition pp_run :: "conflict_policy \<Rightarrow> proof_op list \<Rightarrow> proof_pool" where
  "pp_run policy ops = foldl pp_step (pp_new policy) ops"

lemma pp_inv_filter:
  "pp_inv pool \<Longrightarrow> pp_inv (pool\<lparr>pp_pending := filter P (pp_pending pool)\<rparr>)"
  by (auto simp: pp_inv_def bt_ok_def sorted_wrt_map sorted_wrt_filter)

lemma pp_inv_pending: "pp_pending pool' = pp_pending pool \<Longrightarrow> pp_inv pool' = pp_inv pool"
  by (simp add: pp_inv_def)

lemma pp_step_inv: "pp_inv pool \<Longrightarrow> pp_inv (pp_step pool op)"
proof (cases op)
  case (Remove_Update key)
  assume "pp_inv pool"
  then have "pp_inv (pool\<lparr>pp_pending := bt_remove key (pp_pending pool)\<rparr>)"
    unfolding bt_remove_def by (rule pp_inv_filter)
  then show ?thesis
    using Remove_Update pp_inv_pending [of "pp_step pool op" "pool\<lparr>pp_pending := bt_remove key (pp_pending pool)\<rparr>"]
    by (simp add: pp_remove_def Let_def)
next
  case (Drain_Ready n)
  assume inv: "pp_inv pool"
  show ?thesis
    using pp_inv_filter [OF inv] pp_drain_ready_eq(2) [OF inv, of n] Drain_Ready
    by (simp add: pp_inv_def)
qed (simp add: pp_insert_inv)

lemma pp_run_inv: "pp_inv (pp_run policy ops)"
proof -
  have "pp_inv pool \<Longrightarrow> pp_inv (foldl pp_step pool ops)" for pool
    by (induction ops arbitrary: pool) (simp_all add: pp_step_inv)
  from this [of "pp_new policy"] show ?thesis by (simp add: pp_run_def pp_new_def pp_inv_def)
qed

text \<open>The books after \<open>n\<close> operations: what came in is pending, evicted or drained.\<close>

definition pp_books :: "nat \<Rightarrow> proof_pool \<Rightarrow> bool" where
  "pp_books n pool \<longleftrightarrow> unat (pm_inserted_total (pp_metrics pool)) \<le> n \<and>
     unat (pm_inserted_total (pp_metrics pool)) =
       pp_len pool + unat (pm_evicted_total (pp_metrics pool)) + unat (pm_drained_total (pp_metrics pool))"

lemma unat_sat_add_small: "unat a + m < 2 ^ 64 \<Longrightarrow> unat (sat_add a (of_nat m)) = unat a + m" for a :: u64
  by (simp add: unat_sat_add unat_of_nat_small)

lemma pp_step_books:
  assumes inv: "pp_inv pool" and books: "pp_books n pool" and small: "Suc n < 2 ^ 64"
  shows "pp_books (Suc n) (pp_step pool op)"
proof (cases op)
  case (Insert_Update u)
  have ok: "bt_ok (pp_pending pool)" using inv by (simp add: pp_inv_def)
  show ?thesis
  proof (cases "pp_get pool (key_of u)")
    case None
    then show ?thesis
      using books small Insert_Update unat_sat_add_small [of "pm_inserted_total (pp_metrics pool)" 1]
      by (simp add: pp_books_def pp_insert_free pp_len_def pp_get_def length_bt_insert [OF ok])
  next
    case (Some v)
    then show ?thesis using books Insert_Update
      by (auto simp: pp_books_def pp_insert_def pp_get_def pp_len_def Let_def)
  qed
next
  case (Remove_Update key)
  have ok: "bt_ok (pp_pending pool)" using inv by (simp add: pp_inv_def)
  show ?thesis
  proof (cases "bt_get (pp_pending pool) key")
    case None
    then have "bt_remove key (pp_pending pool) = pp_pending pool"
      by (auto simp: bt_remove_def filter_id_conv map_of_eq_None_iff rev_image_eqI)
    then show ?thesis using books None Remove_Update by (simp add: pp_books_def pp_remove_def pp_len_def)
  next
    case (Some v)
    then show ?thesis
      using books small Remove_Update length_bt_remove_present [OF ok Some]
        unat_sat_add_small [of "pm_evicted_total (pp_metrics pool)" 1]
      by (simp add: pp_books_def pp_remove_def pp_len_def Let_def)
  qed
next
  case (Drain_Ready m)
  let ?ready = "sort_key ready_key (bt_values (pp_pending pool))"
  have len: "length (pp_pending (fst (pp_drain_ready pool m))) = length (pp_pending pool) - m"
    using arg_cong [OF pp_drain_ready_eq(3) [OF inv, of m], of size] by simp
  have "unat (pm_drained_total (pp_metrics pool)) + length (take m ?ready) < 2 ^ 64"
    using books small by (simp add: pp_books_def pp_len_def min_def)
  then show ?thesis
    using books Drain_Ready len unat_sat_add_small
    by (simp add: pp_books_def pp_len_def pp_drain_ready_eq(4) [OF inv] min_def)
qed

lemma pp_run_books:
  assumes "length ops < 2 ^ 64" shows "pp_books (length ops) (pp_run policy ops)"
  using assms
proof (induction ops rule: rev_induct)
  case Nil
  then show ?case by (simp add: pp_books_def pp_run_def pp_new_def default_metrics_def pp_len_def)
next
  case (snoc op ops)
  then have "pp_books (Suc (length ops)) (pp_step (pp_run policy ops) op)"
    by (intro pp_step_books pp_run_inv) simp_all
  then show ?case by (simp add: pp_run_def)
qed

section \<open>Properties\<close>

text \<open>
  C24.  Certificate finality is permanent: once the pool names a certificate as the final one
  of an object version, no later insertion changes it.  The certificate is one that was
  inserted, it verifies, it is filed under its own hash, it covers that version, and it is the
  final one of every version it covers.
\<close>

theorem certificate_finality_permanent:
  assumes "finality_for_object_version (cp_run E X pks k certs) ov = Some r"
  shows "finality_for_object_version (cp_run E X pks k (certs @ later)) ov = Some r \<and>
    fr_certificate r \<in> set certs \<and>
    certificate_verify X (fr_certificate r) pks k = Inr () \<and>
    certificate_hash E X (fr_certificate r) = Inr (fr_certificate_hash r) \<and>
    ov \<in> set (ct_object_versions (fr_certificate r)) \<and>
    (\<forall>ov' \<in> set (ct_object_versions (fr_certificate r)).
       finality_for_object_version (cp_run E X pks k certs) ov' = Some r)"
proof -
  note inv = cp_run_inv [of E X pks k certs]
  have "finality_for_object_version (cp_run E X pks k (certs @ later)) ov = Some r"
    using cpool.put_run_keeps [OF inv assms, of later] by (simp add: cp_run_def cpool.put_run_def)
  moreover have "\<exists>cert \<in> set certs. final_record E X pks k cert ov r"
    using cpool.put_run_origin [OF cp_inv_empty finality_empty] assms unfolding cp_run_put_run by blast
  then have "fr_certificate r \<in> set certs" by (auto simp: final_record_def)
  ultimately show ?thesis
    using cp_invD(2,3) [OF inv assms] unfolding final_record_def by blast
qed

text \<open>
  A certificate that verifies, and whose hash no other inserted certificate has, is
  accepted exactly when each of its object versions is free or already its own; after that it
  is the final certificate of all of them.
\<close>

theorem certificate_accepted_iff_unclaimed:
  assumes verified: "certificate_verify X cert pks k = Inr ()" and hash: "certificate_hash E X cert = Inr h"
    and no_collision: "\<forall>c \<in> set certs. certificate_hash E X c = Inr h \<longrightarrow> c = cert"
  shows "(is_ok (snd (cp_insert E X pks k (cp_run E X pks k certs) cert)) \<longleftrightarrow>
      (\<forall>ov \<in> set (ct_object_versions cert).
         finality_for_object_version (cp_run E X pks k certs) ov \<in> {None, Some \<lparr>fr_certificate_hash = h, fr_certificate = cert\<rparr>})) \<and>
    (is_ok (snd (cp_insert E X pks k (cp_run E X pks k certs) cert)) \<longrightarrow>
      (\<forall>ov \<in> set (ct_object_versions cert).
         finality_for_object_version (cp_run E X pks k (certs @ [cert])) ov = Some \<lparr>fr_certificate_hash = h, fr_certificate = cert\<rparr>))"
proof -
  let ?own = "\<lparr>fr_certificate_hash = h, fr_certificate = cert\<rparr>"
  let ?pool = "cp_run E X pks k certs" and ?next = "cp_run E X pks k (certs @ [cert])"
  note inv = cp_run_inv [of E X pks k certs]
  have after: "?next = fst (cp_insert E X pks k ?pool cert)" by (simp add: cp_run_def)
  have own: "r = ?own" if held: "finality_for_object_version ?pool ov = Some r" and "fr_certificate_hash r = h" for ov r
  proof -
    have "\<exists>c \<in> set certs. final_record E X pks k c ov r"
      using cpool.put_run_origin [OF cp_inv_empty finality_empty] held unfolding cp_run_put_run by blast
    then have "fr_certificate r = cert" using that(2) no_collision by (auto simp: final_record_def)
    then show ?thesis using that(2) by simp
  qed
  show ?thesis
  proof (cases rule: cp_insert_cases [of E X pks k ?pool cert])
    case (refused e)
    then show ?thesis using verified hash by blast
  next
    case (scanned h' cs ov r res)
    have ok: "is_ok (snd (cp_insert E X pks k ?pool cert)) \<longleftrightarrow> fr_certificate_hash r = h"
      using scanned hash by simp
    have keeps: "finality_for_object_version ?next = finality_for_object_version ?pool"
      using scanned(3) by (simp add: after finality_for_object_version_def fun_eq_iff)
    show ?thesis
    proof (cases "fr_certificate_hash r = h")
      case True
      then have "r = ?own" using own scanned(6) by blast
      then have "finality_for_object_version ?pool ov' = Some ?own" if "ov' \<in> set (ct_object_versions cert)" for ov'
        using cp_invD(3) [OF inv scanned(6)] that by simp
      then show ?thesis using ok True keeps by simp
    next
      case False
      then have "finality_for_object_version ?pool ov \<notin> {None, Some ?own}"
        using scanned(6) by auto
      then show ?thesis using ok False scanned(5) by blast
    qed
  next
    case (stored h')
    have "finality_for_object_version ?next ov = Some ?own" if "ov \<in> set (ct_object_versions cert)" for ov
      using bt.get_put_all_same [OF cp_invD(1) [OF inv]] stored that hash
      by (simp add: after finality_for_object_version_def)
    then show ?thesis using stored(3,4) by simp
  qed
qed

text \<open>
  Every conflict the pool has recorded carries evidence that passes verification, with the
  finding that the verification gives, and an insertion adds a conflict exactly when it is
  answered with an object-version conflict.
\<close>

theorem recorded_conflicts_verified:
  "list_all (\<lambda>c. evidence_verify E X (cf_evidence c) pks k = Inr (cf_finding c))
     (cp_conflicts (cp_run E X pks k certs)) \<and>
   conflict_count (fst (cp_insert E X pks k (cp_run E X pks k certs) cert)) =
     conflict_count (cp_run E X pks k certs) +
     (case snd (cp_insert E X pks k (cp_run E X pks k certs) cert) of
        Inl (PoolObjectVersionConflict _ _) \<Rightarrow> 1 | _ \<Rightarrow> 0)"
proof
  show "list_all (\<lambda>c. evidence_verify E X (cf_evidence c) pks k = Inr (cf_finding c))
     (cp_conflicts (cp_run E X pks k certs))"
    by (rule cp_invD(4) [OF cp_run_inv])
  let ?pool = "cp_run E X pks k certs"
  have scan: "conflict_count pool' = conflict_count ?pool +
      (case res of Inl (PoolObjectVersionConflict _ _) \<Rightarrow> 1 | _ \<Rightarrow> 0)"
    if "cp_scan E X ?pool cert h pks k ovs = Some (pool', res)" for h ovs pool' res
    using that by (induction ovs) (auto simp: conflict_count_def Let_def split: option.splits if_splits sum.splits)
  then show "conflict_count (fst (cp_insert E X pks k ?pool cert)) = conflict_count ?pool +
     (case snd (cp_insert E X pks k ?pool cert) of Inl (PoolObjectVersionConflict _ _) \<Rightarrow> 1 | _ \<Rightarrow> 0)"
    by (auto simp: cp_insert_def conflict_count_def split: sum.splits option.splits)
qed

text \<open>
  Draining hands out the updates with the greatest fees first, and among equal fees the
  smaller zone and height first: as many as asked for, in that order; every update that stays
  comes after every one handed out, and nothing is lost or handed out twice.
\<close>

theorem proof_pool_drains_best_first:
  "\<exists>taken. snd (pp_drain_ready (pp_run policy ops) n) = map pu_update taken \<and>
     length taken = min n (pp_len (pp_run policy ops)) \<and>
     sorted_wrt (\<lambda>p q. ready_key p < ready_key q) taken \<and>
     mset taken + mset (bt_values (pp_pending (pp_run policy (ops @ [Drain_Ready n])))) =
       mset (bt_values (pp_pending (pp_run policy ops))) \<and>
     list_all (\<lambda>p. list_all (\<lambda>q. ready_key p < ready_key q)
       (bt_values (pp_pending (pp_run policy (ops @ [Drain_Ready n]))))) taken"
proof -
  let ?pool = "pp_run policy ops"
  let ?ready = "sort_key ready_key (bt_values (pp_pending ?pool))"
  note eqs = pp_drain_ready_eq(1-4) [OF pp_run_inv [of policy ops], of n]
  have after: "pp_run policy (ops @ [Drain_Ready n]) = fst (pp_drain_ready ?pool n)" by (simp add: pp_run_def)
  have "distinct (map ready_key ?ready)"
    using pp_drain_ready_eq(5) [OF pp_run_inv [of policy ops]] by (auto simp: distinct_map inj_on_def ready_key_def)
  then have strict: "sorted_wrt (\<lambda>p q. ready_key p < ready_key q) ?ready"
    using sorted_sort_key [of ready_key] unfolding sorted_wrt_map [symmetric]
    by (simp add: strict_sorted_iff flip: sorted_wrt_map)
  have split: "sorted_wrt (\<lambda>p q. ready_key p < ready_key q) (take n ?ready @ drop n ?ready)"
    using strict by simp
  show ?thesis
  proof (intro exI [of _ "take n ?ready"] conjI)
    show "sorted_wrt (\<lambda>p q. ready_key p < ready_key q) (take n ?ready)"
      using split unfolding sorted_wrt_append by blast
    have "set (bt_values (pp_pending (fst (pp_drain_ready ?pool n)))) = set (drop n ?ready)"
      using eqs(3) by (metis set_mset_mset)
    then show "list_all (\<lambda>p. list_all (\<lambda>q. ready_key p < ready_key q)
        (bt_values (pp_pending (pp_run policy (ops @ [Drain_Ready n]))))) (take n ?ready)"
      using split unfolding sorted_wrt_append after list_all_iff by simp
    have "mset (take n ?ready) + mset (drop n ?ready) = mset (bt_values (pp_pending ?pool))"
      by (metis append_take_drop_id mset_append mset_sort)
    then show "mset (take n ?ready) + mset (bt_values (pp_pending (pp_run policy (ops @ [Drain_Ready n])))) =
       mset (bt_values (pp_pending ?pool))" unfolding after eqs(3) .
  qed (use eqs(1) in \<open>simp_all add: pp_len_def min.commute\<close>)
qed

text \<open>
  The books of the proof pool balance: after fewer than \<open>2 ^ 64\<close> operations, the updates
  inserted are those pending, those evicted and those drained; an accepted update is held until
  it is evicted or drained, and a pending update is never replaced by an insertion.
\<close>

theorem proof_pool_books_balance:
  assumes "length ops < 2 ^ 64"
  shows "unat (pm_inserted_total (metrics (pp_run policy ops))) =
      pm_pending_total (metrics (pp_run policy ops)) +
      unat (pm_evicted_total (metrics (pp_run policy ops))) + unat (pm_drained_total (metrics (pp_run policy ops))) \<and>
    (pp_get (pp_run policy ops) key = Some p \<longrightarrow> pp_get (pp_run policy (ops @ [Insert_Update u])) key = Some p) \<and>
    (is_ok (snd (pp_insert (pp_run policy ops) u)) \<longleftrightarrow>
       (case pp_get (pp_run policy ops) (proof_update_key (pu_update u)) of
          None \<Rightarrow> True | Some q \<Rightarrow> pu_update q = pu_update u))"
proof (intro conjI impI)
  show "unat (pm_inserted_total (metrics (pp_run policy ops))) =
      pm_pending_total (metrics (pp_run policy ops)) +
      unat (pm_evicted_total (metrics (pp_run policy ops))) + unat (pm_drained_total (metrics (pp_run policy ops)))"
    using pp_run_books [OF assms, of policy] by (simp add: pp_books_def metrics_def pp_len_def)
  show "pp_get (pp_run policy (ops @ [Insert_Update u])) key = Some p"
    if "pp_get (pp_run policy ops) key = Some p"
    using ppool.put_keeps [OF pp_run_inv that, of u] by (simp add: pp_run_def)
  show "is_ok (snd (pp_insert (pp_run policy ops) u)) \<longleftrightarrow>
       (case pp_get (pp_run policy ops) (proof_update_key (pu_update u)) of
          None \<Rightarrow> True | Some q \<Rightarrow> pu_update q = pu_update u)"
    by (auto simp: pp_insert_def pp_get_def Let_def split: option.splits)
qed

section \<open>Concrete instances\<close>

lemma sample_held:
  "finality_for_object_version (cp_run sample_ext sample_cert_ext sample_pks 3 [sample_cert 1])
     (OwnedObjectVersion (AccountNonce 1) 0) \<noteq> None"
  by code_simp

theorem certificate_finality_permanent_witness:
  "\<exists>r. finality_for_object_version (cp_run sample_ext sample_cert_ext sample_pks 3 [sample_cert 1])
       (OwnedObjectVersion (AccountNonce 1) 0) = Some r \<and>
     finality_for_object_version (cp_run sample_ext sample_cert_ext sample_pks 3 [sample_cert 1, sample_cert 2])
       (OwnedObjectVersion (AccountNonce 1) 0) = Some r"
proof -
  obtain r where r: "finality_for_object_version (cp_run sample_ext sample_cert_ext sample_pks 3 [sample_cert 1])
       (OwnedObjectVersion (AccountNonce 1) 0) = Some r" using sample_held by blast
  from certificate_finality_permanent [OF this, of "[sample_cert 2]"] r show ?thesis by auto
qed

theorem certificate_accepted_iff_unclaimed_witness:
  "is_ok (snd (cp_insert sample_ext sample_cert_ext sample_pks 3
      (cp_run sample_ext sample_cert_ext sample_pks 3 []) (sample_cert 1)))"
proof -
  have v: "certificate_verify sample_cert_ext (sample_cert 1) sample_pks 3 = Inr ()" by code_simp
  have "is_ok (certificate_hash sample_ext sample_cert_ext (sample_cert 1))" by code_simp
  then obtain h where h: "certificate_hash sample_ext sample_cert_ext (sample_cert 1) = Inr h"
    by (auto simp: is_ok_def split: sum.splits)
  show ?thesis using certificate_accepted_iff_unclaimed [OF v h, of "[]"] by (simp add: cp_run_def)
qed

definition sample_update :: "u64 \<Rightarrow> u128 \<Rightarrow> pooled_proof_update" where
  "sample_update zone fee = \<lparr>pu_update = \<lparr>zu_zone_id = zone, zu_height = 1, zu_parent_root = 0, zu_new_root = 1,
     zu_tx_root = 2, zu_da_root = 3, zu_message_root = 4, zu_forced_inclusion_root = 5,
     zu_circuit_version = NativeStateTransitionV1, zu_feature_set = \<lparr>fs_bits = 1\<rparr>, zu_proof_digest = 6\<rparr>,
     pu_max_priority_fee = fee\<rparr>"

theorem proof_pool_books_balance_witness:
  "unat (pm_inserted_total (metrics (pp_run Reject
      [Insert_Update (sample_update 1 5), Insert_Update (sample_update 2 9), Drain_Ready 1]))) =
   pm_pending_total (metrics (pp_run Reject
      [Insert_Update (sample_update 1 5), Insert_Update (sample_update 2 9), Drain_Ready 1])) +
   unat (pm_evicted_total (metrics (pp_run Reject
      [Insert_Update (sample_update 1 5), Insert_Update (sample_update 2 9), Drain_Ready 1]))) +
   unat (pm_drained_total (metrics (pp_run Reject
      [Insert_Update (sample_update 1 5), Insert_Update (sample_update 2 9), Drain_Ready 1])))"
proof -
  have "length [Insert_Update (sample_update 1 5), Insert_Update (sample_update 2 9), Drain_Ready 1] < 2 ^ 64"
    by simp
  from proof_pool_books_balance [OF this, of Reject] show ?thesis by blast
qed

end
