(* ===== verification/Consensus_Votes.thy ===== *)
theory Consensus_Votes
  imports BTree_Map Quorum Merkle "HOL-Library.Product_Lexorder"
begin

text \<open>
  Validator sets, quorum certificates and the vote pool: \<open>validators.rs\<close>, \<open>qc.rs\<close> and \<open>vote.rs\<close>
  of \<open>crates/consensus/src\<close>.  BLS, Keccak and Borsh are the record \<open>bls_ext\<close>.  The pool is a
  map of maps in key order, so the signer lists and the aggregates are those of the code.
\<close>

section \<open>Validators\<close>

type_synonym validator_id = hash256
type_synonym aggregate_signature = "768 word"

record validator_entry =
  ve_fingerprint :: validator_id
  ve_bls_pubkey :: bls_pubkey

type_synonym validator_set = "validator_entry list"

record vote_sign_body =
  vb_view :: u64
  vb_height :: u64
  vb_header_hash :: hash256

record quorum_certificate =
  qc_view :: u64
  qc_block_height :: u64
  qc_block_header_hash :: hash256
  qc_aggregate_sig :: aggregate_signature

text \<open>
  \<open>vx_secret_from_ikm\<close> is \<open>BlsSecretKey::from_ikm\<close> on a 32-byte input, which the code unwraps.
\<close>

record 'sk bls_ext =
  vx_keccak256 :: "bytes \<Rightarrow> hash256"
  vx_secret_from_ikm :: "hash256 \<Rightarrow> 'sk"
  vx_public_key :: "'sk \<Rightarrow> bls_pubkey"
  vx_sign :: "'sk \<Rightarrow> bytes \<Rightarrow> bls_signature"
  vx_verify :: "bls_signature \<Rightarrow> bytes \<Rightarrow> bls_pubkey \<Rightarrow> bool"
  vx_aggregate :: "bls_signature list \<Rightarrow> aggregate_signature option"
  vx_aggregate_verify :: "aggregate_signature \<Rightarrow> bytes \<Rightarrow> bls_pubkey list \<Rightarrow> bool"
  vx_borsh_vote_body :: "vote_sign_body \<Rightarrow> bytes"
  vx_borsh_qc :: "quorum_certificate \<Rightarrow> bytes option"

definition SINGLETON_SEED :: bytes where
  "SINGLETON_SEED = map of_char ''FC_PHASE1_SINGLETON_V0''"

definition BFT7_SEED_PREFIX :: bytes where
  "BFT7_SEED_PREFIX = map of_char ''FRACTALCHAIN_BFT7_V0____________''"

definition bft7_seed :: "u8 \<Rightarrow> bytes" where
  "bft7_seed idx = BFT7_SEED_PREFIX[31 := idx]"

definition dev_secret_from_seed :: "'sk bls_ext \<Rightarrow> bytes \<Rightarrow> 'sk" where
  "dev_secret_from_seed V seed = vx_secret_from_ikm V (vx_keccak256 V seed)"

definition dev_entry_from_seed :: "'sk bls_ext \<Rightarrow> bytes \<Rightarrow> validator_entry" where
  "dev_entry_from_seed V seed =
     \<lparr>ve_fingerprint = vx_keccak256 V seed,
      ve_bls_pubkey = vx_public_key V (dev_secret_from_seed V seed)\<rparr>"

definition phase1_singleton :: "'sk bls_ext \<Rightarrow> validator_set" where
  "phase1_singleton V = [dev_entry_from_seed V SINGLETON_SEED]"

definition phase2_bft7_fixture :: "'sk bls_ext \<Rightarrow> validator_set" where
  "phase2_bft7_fixture V = map (\<lambda>i. dev_entry_from_seed V (bft7_seed (of_nat i))) [0..<7]"

definition leader_index :: "validator_set \<Rightarrow> u64 \<Rightarrow> nat" where
  "leader_index vs view = unat view mod max (length vs) 1"

text \<open>Indexing the entries panics on an empty set: no result.\<close>

definition expected_proposer :: "validator_set \<Rightarrow> u64 \<Rightarrow> validator_id option" where
  "expected_proposer vs view =
     (if leader_index vs view < length vs then Some (ve_fingerprint (vs ! leader_index vs view)) else None)"

definition is_proposer_for_view :: "validator_set \<Rightarrow> u64 \<Rightarrow> nat \<Rightarrow> bool" where
  "is_proposer_for_view vs view my_index \<longleftrightarrow> leader_index vs view = my_index"

definition quorum_threshold :: "validator_set \<Rightarrow> nat" where
  "quorum_threshold vs = (let n = length vs; f = (n - 1) div 3 in max (2 * f + 1) 1)"

definition set_bls_pubkey :: "validator_set \<Rightarrow> nat \<Rightarrow> bls_pubkey option" where
  "set_bls_pubkey vs idx = (if idx < length vs then Some (ve_bls_pubkey (vs ! idx)) else None)"

definition set_entry :: "validator_set \<Rightarrow> nat \<Rightarrow> validator_entry option" where
  "set_entry vs idx = (if idx < length vs then Some (vs ! idx) else None)"

definition validator_ids :: "validator_set \<Rightarrow> validator_id list" where
  "validator_ids vs = map ve_fingerprint vs"

definition dev_bls_secret :: "'sk bls_ext \<Rightarrow> validator_set \<Rightarrow> nat \<Rightarrow> 'sk option" where
  "dev_bls_secret V vs idx =
     (let n = length vs
      in if n \<le> idx then None
         else if n = 1 then Some (dev_secret_from_seed V SINGLETON_SEED)
         else if n = 7 then Some (dev_secret_from_seed V (bft7_seed (of_nat idx)))
         else None)"

section \<open>Quorum certificates\<close>

definition hash_qc :: "'sk bls_ext \<Rightarrow> quorum_certificate \<Rightarrow> hash256 option" where
  "hash_qc V qc = map_option (vx_keccak256 V) (vx_borsh_qc V qc)"

definition genesis_parent_qc :: quorum_certificate where
  "genesis_parent_qc = \<lparr>qc_view = 0, qc_block_height = 0, qc_block_header_hash = 0, qc_aggregate_sig = 0\<rparr>"

definition singleton_qc_certifying :: "hash256 \<Rightarrow> u64 \<Rightarrow> u64 \<Rightarrow> quorum_certificate" where
  "singleton_qc_certifying header_hash block_height view =
     \<lparr>qc_view = view, qc_block_height = block_height, qc_block_header_hash = header_hash,
      qc_aggregate_sig = 0\<rparr>"

section \<open>Votes\<close>

record vote =
  vt_view :: u64
  vt_height :: u64
  vt_header_hash :: hash256
  vt_validator_index :: u32
  vt_signature :: bls_signature

datatype vote_error =
    ValidatorIndexOutOfRange u32 nat
  | NoPublicKey u32
  | InsufficientSigners nat nat
  | DuplicateSignerIndex u32
  | Bls

datatype record_vote_outcome =
    Accepted | ReachedQuorum | DuplicateValidator | OutOfRange | BadVoteSignature

record formed_qc =
  fq_qc :: quorum_certificate
  fq_signer_indices :: "u32 list"

definition vote_sign :: "'sk bls_ext \<Rightarrow> vote_sign_body \<Rightarrow> u32 \<Rightarrow> 'sk \<Rightarrow> vote" where
  "vote_sign V body validator_index sk =
     \<lparr>vt_view = vb_view body, vt_height = vb_height body, vt_header_hash = vb_header_hash body,
      vt_validator_index = validator_index, vt_signature = vx_sign V sk (vx_borsh_vote_body V body)\<rparr>"

definition vote_body :: "vote \<Rightarrow> vote_sign_body" where
  "vote_body v = \<lparr>vb_view = vt_view v, vb_height = vt_height v, vb_header_hash = vt_header_hash v\<rparr>"

definition vote_verify :: "'sk bls_ext \<Rightarrow> vote \<Rightarrow> bls_pubkey \<Rightarrow> vote_error + unit" where
  "vote_verify V v pubkey =
     (if vx_verify V (vt_signature v) (vx_borsh_vote_body V (vote_body v)) pubkey
      then Inr () else Inl Bls)"

definition verify_against_validator_set :: "'sk bls_ext \<Rightarrow> vote \<Rightarrow> validator_set \<Rightarrow> vote_error + unit" where
  "verify_against_validator_set V v vs =
     (if length vs \<le> unat (vt_validator_index v)
      then Inl (ValidatorIndexOutOfRange (vt_validator_index v) (length vs))
      else case set_bls_pubkey vs (unat (vt_validator_index v)) of
        None \<Rightarrow> Inl (NoPublicKey (vt_validator_index v))
      | Some pk \<Rightarrow> vote_verify V v pk)"

section \<open>The vote pool\<close>

type_synonym vote_slot = "(u32, vote) btree"
type_synonym vote_pool = "(u64 \<times> hash256, vote_slot) btree"

definition vp_record ::
    "'sk bls_ext \<Rightarrow> vote_pool \<Rightarrow> vote \<Rightarrow> validator_set \<Rightarrow> vote_pool \<times> record_vote_outcome" where
  "vp_record V pool vote vs =
     (if length vs \<le> unat (vt_validator_index vote) then (pool, OutOfRange)
      else case set_bls_pubkey vs (unat (vt_validator_index vote)) of
        None \<Rightarrow> (pool, OutOfRange)
      | Some pk \<Rightarrow>
          if \<not> is_ok (vote_verify V vote pk) then (pool, BadVoteSignature)
          else
            let key = (vt_view vote, vt_header_hash vote);
                slot = unwrap_or (bt_get pool key) []
            in if bt_get slot (vt_validator_index vote) \<noteq> None
               then (bt_insert key slot pool, DuplicateValidator)
               else
                 let threshold = quorum_threshold vs;
                     prev_count = length slot;
                     slot' = bt_insert (vt_validator_index vote) vote slot;
                     new_count = length slot'
                 in (bt_insert key slot' pool,
                     if prev_count < threshold \<and> threshold \<le> new_count then ReachedQuorum else Accepted))"

definition vp_count :: "vote_pool \<Rightarrow> u64 \<Rightarrow> hash256 \<Rightarrow> nat" where
  "vp_count pool view hh = (case bt_get pool (view, hh) of None \<Rightarrow> 0 | Some slot \<Rightarrow> length slot)"

definition vp_votes :: "vote_pool \<Rightarrow> u64 \<Rightarrow> hash256 \<Rightarrow> vote list" where
  "vp_votes pool view hh = (case bt_get pool (view, hh) of None \<Rightarrow> [] | Some slot \<Rightarrow> bt_values slot)"

definition vp_signer_indices :: "vote_pool \<Rightarrow> u64 \<Rightarrow> hash256 \<Rightarrow> u32 list" where
  "vp_signer_indices pool view hh = (case bt_get pool (view, hh) of None \<Rightarrow> [] | Some slot \<Rightarrow> map fst slot)"

text \<open>\<open>max_by_key\<close>: the last of the elements with the greatest key.\<close>

definition max_by_key :: "('a \<Rightarrow> 'k::linorder) \<Rightarrow> 'a list \<Rightarrow> 'a option" where
  "max_by_key key xs = foldl (\<lambda>best x. case best of None \<Rightarrow> Some x
      | Some b \<Rightarrow> if key b \<le> key x then Some x else Some b) None xs"

definition best_slot_for_height :: "vote_pool \<Rightarrow> u64 \<Rightarrow> (u64 \<times> hash256 \<times> nat \<times> u32 list) option" where
  "best_slot_for_height pool height =
     max_by_key (\<lambda>(view, hh, count, _). (count, view, hh))
       (List.map_filter (\<lambda>((view, hh), slot). case bt_values slot of
            [] \<Rightarrow> None
          | first # _ \<Rightarrow>
              if vt_height first = height then Some (view, hh, length slot, map fst slot) else None) pool)"

definition try_form_qc ::
    "'sk bls_ext \<Rightarrow> vote_pool \<Rightarrow> u64 \<Rightarrow> u64 \<Rightarrow> hash256 \<Rightarrow> validator_set \<Rightarrow> formed_qc option" where
  "try_form_qc V pool view block_height header_hash vs =
     (case bt_get pool (view, header_hash) of
        None \<Rightarrow> None
      | Some slot \<Rightarrow>
          if length slot < quorum_threshold vs then None
          else case vx_aggregate V (map vt_signature (bt_values slot)) of
            None \<Rightarrow> None
          | Some agg \<Rightarrow>
              Some \<lparr>fq_qc = \<lparr>qc_view = view, qc_block_height = block_height,
                              qc_block_header_hash = header_hash, qc_aggregate_sig = agg\<rparr>,
                    fq_signer_indices = map fst slot\<rparr>)"

definition prune_below_height :: "vote_pool \<Rightarrow> u64 \<Rightarrow> vote_pool" where
  "prune_below_height pool min_height =
     (let stale = List.map_filter (\<lambda>(k, slot).
            let lowest = (case bt_values slot of [] \<Rightarrow> - 1 | v # _ \<Rightarrow> vt_height v)
            in if lowest < min_height then Some k else None) pool
      in foldl (\<lambda>m k. bt_remove k m) pool stale)"

definition slots_len :: "vote_pool \<Rightarrow> nat" where
  "slots_len pool = length pool"

text \<open>The loop over the signer indices: seen so far and the keys collected.\<close>

fun collect_pubkeys ::
    "validator_set \<Rightarrow> u32 set \<Rightarrow> u32 list \<Rightarrow> vote_error + bls_pubkey list" where
  "collect_pubkeys vs seen [] = Inr []"
| "collect_pubkeys vs seen (idx # rest) =
     (if idx \<in> seen then Inl (DuplicateSignerIndex idx)
      else if length vs \<le> unat idx then Inl (ValidatorIndexOutOfRange idx (length vs))
      else case set_bls_pubkey vs (unat idx) of
        None \<Rightarrow> Inl (NoPublicKey idx)
      | Some pk \<Rightarrow>
          (case collect_pubkeys vs (insert idx seen) rest of
             Inl e \<Rightarrow> Inl e
           | Inr pks \<Rightarrow> Inr (pk # pks)))"

definition verify_formed_qc :: "'sk bls_ext \<Rightarrow> formed_qc \<Rightarrow> validator_set \<Rightarrow> vote_error + unit" where
  "verify_formed_qc V formed vs =
     (let threshold = quorum_threshold vs
      in if length (fq_signer_indices formed) < threshold
         then Inl (InsufficientSigners (length (fq_signer_indices formed)) threshold)
         else case collect_pubkeys vs {} (fq_signer_indices formed) of
           Inl e \<Rightarrow> Inl e
         | Inr pks \<Rightarrow>
             let msg = vx_borsh_vote_body V \<lparr>vb_view = qc_view (fq_qc formed),
                   vb_height = qc_block_height (fq_qc formed),
                   vb_header_hash = qc_block_header_hash (fq_qc formed)\<rparr>
             in if vx_aggregate_verify V (qc_aggregate_sig (fq_qc formed)) msg pks then Inr () else Inl Bls)"

section \<open>The pool invariant\<close>

text \<open>
  A slot holds, in key order, votes filed under their own index, for the view and the header
  hash of the slot, each in range and carrying a signature of the validator it names.
\<close>

definition vote_valid :: "'sk bls_ext \<Rightarrow> validator_set \<Rightarrow> vote \<Rightarrow> bool" where
  "vote_valid V vs v \<longleftrightarrow> unat (vt_validator_index v) < length vs \<and>
     vx_verify V (vt_signature v) (vx_borsh_vote_body V (vote_body v))
       (ve_bls_pubkey (vs ! unat (vt_validator_index v)))"

definition slot_ok :: "'sk bls_ext \<Rightarrow> validator_set \<Rightarrow> u64 \<times> hash256 \<Rightarrow> vote_slot \<Rightarrow> bool" where
  "slot_ok V vs key slot \<longleftrightarrow> bt_ok slot \<and>
     (\<forall>(i, v) \<in> set slot. vt_validator_index v = i \<and> (vt_view v, vt_header_hash v) = key \<and> vote_valid V vs v)"

definition vp_ok :: "'sk bls_ext \<Rightarrow> validator_set \<Rightarrow> vote_pool \<Rightarrow> bool" where
  "vp_ok V vs pool \<longleftrightarrow> bt_ok pool \<and> (\<forall>(key, slot) \<in> set pool. slot_ok V vs key slot)"

lemma verify_against_iff:
  "verify_against_validator_set V v vs = Inr () \<longleftrightarrow> vote_valid V vs v"
  by (simp add: verify_against_validator_set_def vote_valid_def set_bls_pubkey_def vote_verify_def
        not_le [symmetric])

lemma slot_of_ok:
  assumes "vp_ok V vs pool" shows "slot_ok V vs key (unwrap_or (bt_get pool key) [])"
proof (cases "bt_get pool key")
  case None
  then show ?thesis by (simp add: slot_ok_def)
next
  case (Some slot)
  then have "(key, slot) \<in> set pool" by (rule map_of_SomeD)
  then show ?thesis using assms Some by (auto simp: vp_ok_def)
qed

lemma vp_ok_insert:
  assumes "vp_ok V vs pool" and "slot_ok V vs key slot"
  shows "vp_ok V vs (bt_insert key slot pool)"
proof -
  have ok: "bt_ok pool" using assms(1) by (simp add: vp_ok_def)
  have "slot_ok V vs k s" if "(k, s) \<in> set (bt_insert key slot pool)" for k s
    using that assms unfolding bt.entries_put [OF ok] by (cases "k = key") (auto simp: vp_ok_def)
  then show ?thesis using bt_insert_ok [OF ok] by (auto simp: vp_ok_def)
qed

lemma slot_ok_insert:
  assumes "slot_ok V vs key slot" and "vote_valid V vs v"
    and "key = (vt_view v, vt_header_hash v)"
  shows "slot_ok V vs key (bt_insert (vt_validator_index v) v slot)"
proof -
  have ok: "bt_ok slot" using assms(1) by (simp add: slot_ok_def)
  have "vt_validator_index w = i \<and> (vt_view w, vt_header_hash w) = key \<and> vote_valid V vs w"
    if "(i, w) \<in> set (bt_insert (vt_validator_index v) v slot)" for i w
    using that assms unfolding bt.entries_put [OF ok]
    by (cases "i = vt_validator_index v") (auto simp: slot_ok_def)
  then show ?thesis using bt_insert_ok [OF ok] by (auto simp: slot_ok_def)
qed

text \<open>What recording a vote does, by the validity of the vote and the slot it falls into.\<close>

lemma vp_record_invalid:
  assumes "\<not> vote_valid V vs v"
  shows "fst (vp_record V pool v vs) = pool \<and> snd (vp_record V pool v vs) \<in> {OutOfRange, BadVoteSignature}"
  using assms by (auto simp: vp_record_def vote_valid_def set_bls_pubkey_def vote_verify_def)

lemma vp_record_valid:
  assumes "vote_valid V vs v"
  shows "vp_record V pool v vs =
    (let key = (vt_view v, vt_header_hash v); slot = unwrap_or (bt_get pool key) [];
         slot' = bt_insert (vt_validator_index v) v slot
     in if bt_get slot (vt_validator_index v) \<noteq> None then (bt_insert key slot pool, DuplicateValidator)
        else (bt_insert key slot' pool,
              if length slot < quorum_threshold vs \<and> quorum_threshold vs \<le> length slot'
              then ReachedQuorum else Accepted))"
  using assms by (simp add: vp_record_def vote_valid_def set_bls_pubkey_def vote_verify_def Let_def)

lemma vp_record_ok: "vp_ok V vs pool \<Longrightarrow> vp_ok V vs (fst (vp_record V pool v vs))"
proof (cases "vote_valid V vs v")
  case True
  assume "vp_ok V vs pool"
  then show ?thesis
    unfolding vp_record_valid [OF True] Let_def
    by (auto intro: vp_ok_insert slot_ok_insert [OF _ True] slot_of_ok)
qed (use vp_record_invalid [of V vs v pool] in simp)

lemma foldl_bt_remove: "foldl (\<lambda>m k. bt_remove k m) m ks = filter (\<lambda>kv. fst kv \<notin> set ks) m"
proof (induction ks arbitrary: m)
  case (Cons k ks)
  then show ?case by (auto simp: bt_remove_def intro!: filter_cong)
qed simp

text \<open>Pruning keeps exactly the slots whose first vote is not below the given height.\<close>

definition slot_height :: "vote_slot \<Rightarrow> u64" where
  "slot_height slot = (case slot of [] \<Rightarrow> - 1 | (_, v) # _ \<Rightarrow> vt_height v)"

lemma prune_eq_filter:
  assumes "bt_ok pool"
  shows "prune_below_height pool h = filter (\<lambda>(k, slot). h \<le> slot_height slot) pool"
proof -
  have height: "(case bt_values slot of [] \<Rightarrow> - 1 | v # _ \<Rightarrow> vt_height v) = slot_height slot" for slot
    by (cases slot) (auto simp: slot_height_def)
  define stale where "stale = List.map_filter (\<lambda>(k, slot).
    if slot_height slot < h then Some k else None) pool"
  have stale: "set stale = {k. \<exists>slot. (k, slot) \<in> set pool \<and> slot_height slot < h}"
    unfolding stale_def by (induction pool) (auto simp: List.map_filter_simps split: if_splits)
  have "filter (\<lambda>kv. fst kv \<notin> set stale) pool = filter (\<lambda>(k, slot). h \<le> slot_height slot) pool"
  proof (rule filter_cong [OF refl])
    fix kv assume "kv \<in> set pool"
    then have "bt_get pool (fst kv) = Some (snd kv)" using bt.entries_get [OF assms, of "fst kv" "snd kv"] by simp
    then have "(fst kv \<in> set stale) = (slot_height (snd kv) < h)"
      unfolding stale mem_Collect_eq bt.entries_get [OF assms] by simp
    then show "(fst kv \<notin> set stale) = (case kv of (k, slot) \<Rightarrow> h \<le> slot_height slot)"
      by (auto simp: not_less split: prod.splits)
  qed
  then show ?thesis
    by (simp add: prune_below_height_def height Let_def foldl_bt_remove stale_def)
qed

lemma bt_ok_filter: "bt_ok m \<Longrightarrow> bt_ok (filter P m)"
  by (induction m) (auto simp: bt_ok_def)

lemma prune_ok: "vp_ok V vs pool \<Longrightarrow> vp_ok V vs (prune_below_height pool h)"
  by (auto simp: vp_ok_def prune_eq_filter bt_ok_filter)

datatype pool_op = Record_Vote vote | Prune_Below u64

fun pool_step :: "'sk bls_ext \<Rightarrow> validator_set \<Rightarrow> vote_pool \<Rightarrow> pool_op \<Rightarrow> vote_pool" where
  "pool_step V vs pool (Record_Vote v) = fst (vp_record V pool v vs)"
| "pool_step V vs pool (Prune_Below h) = prune_below_height pool h"

definition pool_run :: "'sk bls_ext \<Rightarrow> validator_set \<Rightarrow> pool_op list \<Rightarrow> vote_pool" where
  "pool_run V vs ops = foldl (pool_step V vs) [] ops"

lemma pool_run_ok: "vp_ok V vs (pool_run V vs ops)"
proof -
  have step: "vp_ok V vs pool \<Longrightarrow> vp_ok V vs (pool_step V vs pool op)" for pool op
    by (cases op) (simp_all add: vp_record_ok prune_ok)
  have "vp_ok V vs pool \<Longrightarrow> vp_ok V vs (foldl (pool_step V vs) pool ops)" for pool
    by (induction ops arbitrary: pool) (simp_all add: step)
  from this [of "[]"] show ?thesis by (simp add: pool_run_def vp_ok_def)
qed

section \<open>Forming and checking certificates\<close>

lemma collect_pubkeys_iff:
  "collect_pubkeys vs seen idxs = Inr pks \<longleftrightarrow>
     distinct idxs \<and> set idxs \<inter> seen = {} \<and> list_all (\<lambda>i. unat i < length vs) idxs \<and>
     pks = map (\<lambda>i. ve_bls_pubkey (vs ! unat i)) idxs"
  by (induction vs seen idxs arbitrary: pks rule: collect_pubkeys.induct)
     (auto simp: set_bls_pubkey_def split: sum.splits, blast)

lemma verified_qc_quorum:
  assumes "verify_formed_qc V f vs = Inr ()"
  shows "distinct (fq_signer_indices f) \<and> list_all (\<lambda>i. unat i < length vs) (fq_signer_indices f) \<and>
    quorum_threshold vs \<le> length (fq_signer_indices f)"
  using assms
  by (auto simp: verify_formed_qc_def Let_def collect_pubkeys_iff split: if_splits sum.splits)

lemma slot_facts:
  assumes "slot_ok V vs key slot"
  shows "sorted_wrt (<) (map fst slot)" and "map vt_validator_index (bt_values slot) = map fst slot"
    and "list_all (\<lambda>v. (vt_view v, vt_header_hash v) = key \<and> vote_valid V vs v) (bt_values slot)"
    and "distinct (map fst slot)" and "list_all (\<lambda>i. unat i < length vs) (map fst slot)"
proof -
  show sorted: "sorted_wrt (<) (map fst slot)" using assms by (simp add: slot_ok_def bt_ok_def)
  then show "distinct (map fst slot)" using strict_sorted_iff by blast
  show "map vt_validator_index (bt_values slot) = map fst slot"
    and "list_all (\<lambda>v. (vt_view v, vt_header_hash v) = key \<and> vote_valid V vs v) (bt_values slot)"
    and "list_all (\<lambda>i. unat i < length vs) (map fst slot)"
    using assms by (fastforce simp: slot_ok_def list_all_iff vote_valid_def)+
qed

lemma pool_slot_ok:
  "bt_get (pool_run V vs ops) key = Some slot \<Longrightarrow> slot_ok V vs key slot"
  using slot_of_ok [OF pool_run_ok, of V vs key ops] by simp

text \<open>
  What the BLS library promises of an aggregate: when every signature of the list verifies the
  message under the key at its position, the aggregate verifies the message under those keys.
\<close>

definition bls_aggregation_sound :: "'sk bls_ext \<Rightarrow> bool" where
  "bls_aggregation_sound V \<longleftrightarrow> (\<forall>sigs agg msg pks. vx_aggregate V sigs = Some agg \<longrightarrow>
     list_all2 (\<lambda>sig pk. vx_verify V sig msg pk) sigs pks \<longrightarrow> vx_aggregate_verify V agg msg pks)"

lemma slot_signatures_verify:
  assumes "slot_ok V vs (view, hh) slot" and "list_all (\<lambda>v. vt_height v = h) (bt_values slot)"
  shows "list_all2 (\<lambda>sig pk. vx_verify V sig
      (vx_borsh_vote_body V \<lparr>vb_view = view, vb_height = h, vb_header_hash = hh\<rparr>) pk)
    (map vt_signature (bt_values slot)) (map (\<lambda>i. ve_bls_pubkey (vs ! unat i)) (map fst slot))"
proof -
  have "vx_verify V (vt_signature v)
      (vx_borsh_vote_body V \<lparr>vb_view = view, vb_height = h, vb_header_hash = hh\<rparr>)
      (ve_bls_pubkey (vs ! unat i))" if "(i, v) \<in> set slot" for i v
  proof -
    have *: "vote_valid V vs v" "vt_validator_index v = i" "vt_view v = view" "vt_header_hash v = hh"
      using assms(1) that by (auto simp: slot_ok_def)
    have "vt_height v = h" using assms(2) that by (auto simp: list_all_iff)
    then show ?thesis using * by (simp add: vote_valid_def vote_body_def)
  qed
  then show ?thesis by (auto simp: list_all2_conv_all_nth)
qed

lemma vp_count_insert:
  "bt_ok pool \<Longrightarrow> vp_count (bt_insert (view, hh) slot pool) view' hh' =
     (if (view', hh') = (view, hh) then length slot else vp_count pool view' hh')"
  by (simp add: vp_count_def bt_get_insert)

lemma unwrap_slot_length: "length (unwrap_or (bt_get pool (view, hh)) []) = vp_count pool view hh"
  by (simp add: vp_count_def split: option.splits)

lemma unwrap_slot_keys:
  "map fst (unwrap_or (bt_get pool (view, hh)) []) = vp_signer_indices pool view hh"
  by (simp add: vp_signer_indices_def split: option.splits)

lemma voted_iff:
  "(bt_get (unwrap_or (bt_get pool (view, hh)) []) i \<noteq> None) = (i \<in> set (vp_signer_indices pool view hh))"
  by (metis domIff dom_map_of_conv_image_fst list.set_map unwrap_slot_keys)

lemma quorum_threshold_pos: "0 < quorum_threshold vs"
  by (simp add: quorum_threshold_def Let_def)

section \<open>Quorums of validator indices\<close>

definition signer_universe :: "validator_set \<Rightarrow> u32 set" where
  "signer_universe vs = {i. unat i < length vs}"

lemma signer_universe_card: "length vs \<le> 2 ^ 32 \<Longrightarrow> card (signer_universe vs) = length vs"
proof -
  assume small: "length vs \<le> 2 ^ 32"
  have "bij_betw unat (signer_universe vs) {..<length vs}"
    unfolding signer_universe_def bij_betw_def
  proof (intro conjI subset_antisym subsetI)
    show "inj_on unat {i::u32. unat i < length vs}" by (rule inj_onI) (simp add: word_unat_eq_iff)
  next
    fix n assume "n \<in> {..<length vs}"
    moreover from this have "unat (of_nat n :: u32) = n" using small by (intro unat_of_nat_small) simp
    ultimately show "n \<in> unat ` {i::u32. unat i < length vs}" by (intro image_eqI [of _ _ "of_nat n"]) auto
  qed auto
  then show ?thesis using bij_betw_same_card by fastforce
qed

interpretation voteq: threshold_quorum "signer_universe vs" "quorum_threshold vs" for vs :: validator_set
  by unfold_locales simp

lemma quorum_margin:
  assumes "length vs = 3 * f + 1" and "length vs \<le> 2 ^ 32"
  shows "bft_quorum (signer_universe vs) (quorum_threshold vs) f"
  using assms by unfold_locales (simp add: signer_universe_card quorum_threshold_def Let_def)

lemma length_bft7 [simp]: "length (phase2_bft7_fixture V) = 7"
  by (simp add: phase2_bft7_fixture_def)

interpretation bft7: bft_quorum "signer_universe (phase2_bft7_fixture V)"
    "quorum_threshold (phase2_bft7_fixture V)" 2 for V :: "'sk bls_ext"
  by (rule quorum_margin) simp_all

lemma verified_qc_is_quorum:
  "verify_formed_qc V f vs = Inr () \<Longrightarrow> voteq.quorum vs (set (fq_signer_indices f))"
  using verified_qc_quorum [of V f vs]
  unfolding voteq.quorum_def by (auto simp: signer_universe_def list_all_iff distinct_card)

section \<open>Properties\<close>

text \<open>
  C23.  Whatever votes have been recorded and whatever has been pruned, the pool lists for a
  view and a header hash votes for that view and that hash only, one per validator in ascending
  order of the validator indices, and every one of them verifies against the validator set.
\<close>

theorem vote_pool_holds_valid_votes:
  "list_all (\<lambda>v. vt_view v = view \<and> vt_header_hash v = hh \<and>
           verify_against_validator_set V v vs = Inr ()) (vp_votes (pool_run V vs ops) view hh) \<and>
         map vt_validator_index (vp_votes (pool_run V vs ops) view hh) = vp_signer_indices (pool_run V vs ops) view hh \<and>
         sorted_wrt (<) (vp_signer_indices (pool_run V vs ops) view hh) \<and>
         vp_count (pool_run V vs ops) view hh = length (vp_signer_indices (pool_run V vs ops) view hh)"
proof (cases "bt_get (pool_run V vs ops) (view, hh)")
  case None
  then show ?thesis by (simp add: vp_votes_def vp_signer_indices_def vp_count_def)
next
  case (Some slot)
  then have ok: "slot_ok V vs (view, hh) slot" by (rule pool_slot_ok)
  show ?thesis
    using slot_facts(1-3) [OF ok] Some
    by (simp add: vp_votes_def vp_signer_indices_def vp_count_def verify_against_iff list_all_iff)
qed

text \<open>
  C6.  When the votes collected for a block all carry the block's height, the certificate that
  \<open>try_form_qc\<close> builds from them passes \<open>verify_formed_qc\<close>, and it names as signers exactly
  the validators whose votes the pool holds.
\<close>

theorem formed_qc_verifies:
  assumes bls: "bls_aggregation_sound V"
    and formed: "try_form_qc V (pool_run V vs ops) view h hh vs = Some f"
    and heights: "list_all (\<lambda>v. vt_height v = h) (vp_votes (pool_run V vs ops) view hh)"
  shows "verify_formed_qc V f vs = Inr () \<and>
         fq_signer_indices f = vp_signer_indices (pool_run V vs ops) view hh"
proof -
  obtain slot agg where slot: "bt_get (pool_run V vs ops) (view, hh) = Some slot"
    and size: "\<not> length slot < quorum_threshold vs"
    and agg: "vx_aggregate V (map vt_signature (bt_values slot)) = Some agg"
    and f: "f = \<lparr>fq_qc = \<lparr>qc_view = view, qc_block_height = h, qc_block_header_hash = hh,
              qc_aggregate_sig = agg\<rparr>, fq_signer_indices = map fst slot\<rparr>"
    using formed by (auto simp: try_form_qc_def split: option.splits if_splits)
  have ok: "slot_ok V vs (view, hh) slot" using slot by (rule pool_slot_ok)
  have hs: "list_all (\<lambda>v. vt_height v = h) (bt_values slot)" using heights slot by (simp add: vp_votes_def)
  have keys: "collect_pubkeys vs {} (map fst slot) = Inr (map (\<lambda>i. ve_bls_pubkey (vs ! unat i)) (map fst slot))"
    using slot_facts(4,5) [OF ok] by (simp add: collect_pubkeys_iff)
  have "vx_aggregate_verify V agg
      (vx_borsh_vote_body V \<lparr>vb_view = view, vb_height = h, vb_header_hash = hh\<rparr>)
      (map (\<lambda>i. ve_bls_pubkey (vs ! unat i)) (map fst slot))"
    using bls agg slot_signatures_verify [OF ok hs] unfolding bls_aggregation_sound_def by blast
  then show ?thesis using size keys slot by (simp add: f verify_formed_qc_def Let_def vp_signer_indices_def)
qed

text \<open>
  A vote is answered \<open>ReachedQuorum\<close> exactly when it verifies, its validator has not yet
  voted for the block, and it is the vote that brings the tally to the threshold; whatever the
  answer, the tallies of the other blocks stay as they were.  A certificate is refused exactly
  below the threshold, or when the collected signatures do not aggregate.
\<close>

theorem reached_quorum_iff_threshold:
  "(snd (vp_record V (pool_run V vs ops) v vs) = ReachedQuorum \<longleftrightarrow>
            verify_against_validator_set V v vs = Inr () \<and>
            vt_validator_index v \<notin> set (vp_signer_indices (pool_run V vs ops) (vt_view v) (vt_header_hash v)) \<and>
            vp_count (pool_run V vs ops) (vt_view v) (vt_header_hash v) + 1 = quorum_threshold vs) \<and>
         vp_count (fst (vp_record V (pool_run V vs ops) v vs)) view hh =
           vp_count (pool_run V vs ops) view hh +
             (if (view, hh) = (vt_view v, vt_header_hash v) \<and>
                 snd (vp_record V (pool_run V vs ops) v vs) \<in> {Accepted, ReachedQuorum} then 1 else 0) \<and>
         (try_form_qc V (pool_run V vs ops) view h hh vs = None \<longleftrightarrow>
            vp_count (pool_run V vs ops) view hh < quorum_threshold vs \<or>
            vx_aggregate V (map vt_signature (vp_votes (pool_run V vs ops) view hh)) = None)"
proof (intro conjI)
  let ?key = "(vt_view v, vt_header_hash v)" and ?p = "pool_run V vs ops"
  let ?slot = "unwrap_or (bt_get ?p ?key) []"
  have ok: "bt_ok ?p" and sok: "bt_ok ?slot"
    using pool_run_ok [of V vs ops] slot_of_ok [OF pool_run_ok, of V vs ?key ops]
    by (simp_all add: vp_ok_def slot_ok_def)
  have len: "vt_validator_index v \<notin> set (vp_signer_indices ?p (vt_view v) (vt_header_hash v)) \<Longrightarrow>
      length (bt_insert (vt_validator_index v) v ?slot) = Suc (vp_count ?p (vt_view v) (vt_header_hash v))"
    using length_bt_insert [OF sok] voted_iff [of ?p "vt_view v" "vt_header_hash v" "vt_validator_index v"]
    by (simp add: unwrap_slot_length)
  note valid = vp_record_valid [of V vs v ?p, unfolded Let_def voted_iff unwrap_slot_length]
  show "snd (vp_record V ?p v vs) = ReachedQuorum \<longleftrightarrow> verify_against_validator_set V v vs = Inr () \<and>
      vt_validator_index v \<notin> set (vp_signer_indices ?p (vt_view v) (vt_header_hash v)) \<and>
      vp_count ?p (vt_view v) (vt_header_hash v) + 1 = quorum_threshold vs"
    using vp_record_invalid [of V vs v ?p] valid len
    by (cases "vote_valid V vs v") (auto simp: verify_against_iff)
  show "vp_count (fst (vp_record V ?p v vs)) view hh = vp_count ?p view hh +
      (if (view, hh) = ?key \<and> snd (vp_record V ?p v vs) \<in> {Accepted, ReachedQuorum} then 1 else 0)"
    using vp_record_invalid [of V vs v ?p] valid len
    by (cases "vote_valid V vs v") (auto simp: vp_count_insert [OF ok] unwrap_slot_length)
  show "try_form_qc V ?p view h hh vs = None \<longleftrightarrow> vp_count ?p view hh < quorum_threshold vs \<or>
      vx_aggregate V (map vt_signature (vp_votes ?p view hh)) = None"
    using quorum_threshold_pos [of vs]
    by (auto simp: try_form_qc_def vp_count_def vp_votes_def split: option.splits)
qed

text \<open>
  C5.  In a validator set of size \<open>3 f + 1\<close>, any two certificates that pass the check have a
  signer in common outside every set of at most \<open>f\<close> faulty validators, so two conflicting
  certificates need an honest validator that signed both.
\<close>

theorem verified_qcs_share_honest_signer:
  assumes size: "length vs = 3 * f + 1" "length vs \<le> 2 ^ 32"
    and verified: "verify_formed_qc V q1 vs = Inr ()" "verify_formed_qc V q2 vs = Inr ()"
    and faulty: "Byz \<subseteq> signer_universe vs" "card Byz \<le> f"
  shows "\<exists>i. i \<in> set (fq_signer_indices q1) \<and> i \<in> set (fq_signer_indices q2) \<and> i \<notin> Byz"
  using bft_quorum.quorums_share_honest [OF quorum_margin [OF size]
      verified_qc_is_quorum [OF verified(1)] verified_qc_is_quorum [OF verified(2)] faulty] .

text \<open>
  C32.  The threshold leaves the margin that makes quorums intersect in an honest validator
  exactly for the sizes \<open>3 f + 1\<close>.  For every other size two quorums may share only faulty
  validators, and for 2, 3 and 6 validators they may even be disjoint.
\<close>

theorem quorum_margin_exactly_3f1:
  assumes "vs \<noteq> []"
  shows "(length vs + (length vs - 1) div 3 < 2 * quorum_threshold vs \<longleftrightarrow> length vs mod 3 = 1) \<and>
         (2 * quorum_threshold vs \<le> length vs \<longleftrightarrow> length vs \<in> {2, 3, 6})"
proof -
  define n where "n = length vs - 1"
  have n: "length vs = Suc n" using assms by (simp add: n_def)
  have thr: "quorum_threshold vs = 2 * (n div 3) + 1" by (simp add: quorum_threshold_def n)
  define q r where "q = n div 3" and "r = n mod 3"
  have nq: "n = 3 * q + r" and r: "r = 0 \<or> r = 1 \<or> r = 2" by (auto simp: q_def r_def)
  have "Suc n + q < 2 * (2 * q + 1) \<longleftrightarrow> Suc n mod 3 = 1"
    using r by (elim disjE) (simp_all add: nq, presburger)
  moreover have "2 * (2 * q + 1) \<le> Suc n \<longleftrightarrow> Suc n = 2 \<or> Suc n = 3 \<or> Suc n = 6"
    using r by (elim disjE) (simp_all add: nq, arith+)
  ultimately show ?thesis by (simp add: thr n q_def)
qed

text \<open>
  Leadership rotates fairly: over any run of consecutive views as long as the validator
  set, which does not pass the last 64-bit view, every validator is the expected proposer of
  exactly one view.
\<close>

theorem leader_rotation_fair:
  assumes "unat view + length vs \<le> 2 ^ 64" and "i < length vs"
  shows "\<exists>!k. k < length vs \<and> is_proposer_for_view vs (view + of_nat k) i \<and>
    expected_proposer vs (view + of_nat k) = Some (ve_fingerprint (vs ! i))"
proof -
  let ?n = "length vs"
  have n: "0 < ?n" using assms(2) by linarith
  have view: "unat (view + of_nat k) = unat view + k" if "k < ?n" for k
    using that assms(1) by (simp add: unat_add_lem [THEN iffD1] unat_of_nat_small)
  have idx: "leader_index vs (view + of_nat k) = (unat view + k) mod ?n" if "k < ?n" for k
  proof -
    have "max ?n 1 = ?n" using n by linarith
    then show ?thesis using view [OF that] by (simp only: leader_index_def)
  qed
  have one: "\<exists>!k. k < ?n \<and> (unat view + k) mod ?n = i"
  proof (rule ex1I [of _ "(i + (?n - unat view mod ?n)) mod ?n"])
    have "(unat view + (i + (?n - unat view mod ?n))) mod ?n = (unat view mod ?n + (i + (?n - unat view mod ?n))) mod ?n"
      by (simp add: mod_add_left_eq)
    also have "unat view mod ?n + (i + (?n - unat view mod ?n)) = i + ?n"
      using mod_less_divisor [OF n, of "unat view"] by linarith
    finally show "(i + (?n - unat view mod ?n)) mod ?n < ?n \<and>
        (unat view + (i + (?n - unat view mod ?n)) mod ?n) mod ?n = i"
      using assms(2) n by (simp add: mod_add_right_eq)
  next
    fix k assume k: "k < ?n \<and> (unat view + k) mod ?n = i"
    have "(i + (?n - unat view mod ?n)) mod ?n = (unat view + k + (?n - unat view mod ?n)) mod ?n"
      using k by (metis mod_add_left_eq)
    also have "unat view + k + (?n - unat view mod ?n) = k + ?n * (unat view div ?n + 1)"
    proof -
      have "?n * (unat view div ?n) + unat view mod ?n = unat view" by (rule mult_div_mod_eq)
      moreover have "unat view mod ?n < ?n" by (rule mod_less_divisor [OF n])
      ultimately show ?thesis unfolding distrib_left mult_1_right by linarith
    qed
    finally show "k = (i + (?n - unat view mod ?n)) mod ?n"
      using k by (simp only: mod_mult_self2 mod_less)
  qed
  have eq: "is_proposer_for_view vs (view + of_nat k) i \<and>
      expected_proposer vs (view + of_nat k) = Some (ve_fingerprint (vs ! i)) \<longleftrightarrow> (unat view + k) mod ?n = i"
    if "k < ?n" for k
    using idx [OF that] assms(2) by (auto simp: is_proposer_for_view_def expected_proposer_def)
  show ?thesis using one eq by (metis (no_types, lifting))
qed

text \<open>
  For the two built-in validator sets the development secrets are the ones the listed
  public keys belong to, for every index and for no index out of range.
\<close>

theorem dev_secrets_match_public_keys:
  "map_option (vx_public_key V) (dev_bls_secret V (phase1_singleton V) i) = set_bls_pubkey (phase1_singleton V) i \<and>
   map_option (vx_public_key V) (dev_bls_secret V (phase2_bft7_fixture V) i) = set_bls_pubkey (phase2_bft7_fixture V) i"
  by (auto simp: dev_bls_secret_def set_bls_pubkey_def phase1_singleton_def phase2_bft7_fixture_def
        dev_entry_from_seed_def less_Suc_eq)

section \<open>Concrete instances\<close>

text \<open>
  A stand-in for BLS that is linear as BLS is: a signature is the key times a number read off
  the message, an aggregate is the sum, and the check of an aggregate recomputes that sum.
\<close>

definition sample_weight :: "bytes \<Rightarrow> 768 word" where
  "sample_weight msg = foldl (\<lambda>a b. a * 256 + ucast b) 1 msg"

definition sample_sig :: "bls_pubkey \<Rightarrow> bytes \<Rightarrow> bls_signature" where
  "sample_sig pk msg = (ucast pk + 1) * sample_weight msg"

definition sample_bls :: "8 word bls_ext" where
  "sample_bls = \<lparr>
     vx_keccak256 = (\<lambda>bs. ucast (last bs)),
     vx_secret_from_ikm = ucast,
     vx_public_key = ucast,
     vx_sign = (\<lambda>sk msg. sample_sig (ucast sk) msg),
     vx_verify = (\<lambda>sig msg pk. sig = sample_sig pk msg),
     vx_aggregate = (\<lambda>sigs. if sigs = [] then None else Some (sum_list sigs)),
     vx_aggregate_verify = (\<lambda>agg msg pks. agg = sum_list (map (\<lambda>pk. sample_sig pk msg) pks)),
     vx_borsh_vote_body = (\<lambda>b. [ucast (vb_view b), ucast (vb_height b), ucast (vb_header_hash b)]),
     vx_borsh_qc = (\<lambda>q. Some [ucast (qc_view q), ucast (qc_block_height q)])\<rparr>"

abbreviation sample_set :: validator_set where
  "sample_set \<equiv> phase2_bft7_fixture sample_bls"

definition sample_vote :: "u64 \<Rightarrow> u32 \<Rightarrow> vote" where
  "sample_vote height idx =
     vote_sign sample_bls \<lparr>vb_view = 3, vb_height = height, vb_header_hash = 77\<rparr> idx (ucast idx)"

definition sample_ops :: "pool_op list" where
  "sample_ops = map (\<lambda>i. Record_Vote (sample_vote 10 i)) [4, 0, 2, 1, 3]"

definition poisoned_ops :: "pool_op list" where
  "poisoned_ops = Record_Vote (sample_vote 11 4) # map (\<lambda>i. Record_Vote (sample_vote 10 i)) [0, 1, 2, 3]"

lemma sample_bls_sound: "bls_aggregation_sound sample_bls"
proof -
  have "list_all2 (\<lambda>sig pk. sig = sample_sig pk msg) sigs pks \<Longrightarrow>
      sum_list sigs = sum_list (map (\<lambda>pk. sample_sig pk msg) pks)" for sigs msg pks
    by (induction rule: list_all2_induct) simp_all
  then show ?thesis by (auto simp: bls_aggregation_sound_def sample_bls_def split: if_splits)
qed

definition sample_formed :: formed_qc where
  "sample_formed = (case try_form_qc sample_bls (pool_run sample_bls sample_set sample_ops) 3 10 77 sample_set of
     Some f \<Rightarrow> f | None \<Rightarrow> \<lparr>fq_qc = genesis_parent_qc, fq_signer_indices = []\<rparr>)"

lemma sample_formed_eq:
  "try_form_qc sample_bls (pool_run sample_bls sample_set sample_ops) 3 10 77 sample_set = Some sample_formed"
  by code_simp

lemma sample_heights:
  "list_all (\<lambda>v. vt_height v = 10) (vp_votes (pool_run sample_bls sample_set sample_ops) 3 77)"
  by code_simp

theorem formed_qc_verifies_witness:
  "verify_formed_qc sample_bls sample_formed sample_set = Inr () \<and>
   fq_signer_indices sample_formed = vp_signer_indices (pool_run sample_bls sample_set sample_ops) 3 77"
  by (rule formed_qc_verifies [OF sample_bls_sound sample_formed_eq sample_heights])

lemma sample_formed_verifies: "verify_formed_qc sample_bls sample_formed sample_set = Inr ()"
  by code_simp

theorem verified_qcs_share_honest_signer_witness:
  "\<exists>i. i \<in> set (fq_signer_indices sample_formed) \<and> i \<in> set (fq_signer_indices sample_formed) \<and>
     i \<notin> {0, 1 :: u32}"
  by (rule verified_qcs_share_honest_signer [of sample_set 2 sample_bls])
     (simp_all add: sample_formed_verifies signer_universe_def)

theorem quorum_margin_exactly_3f1_witness:
  "(length sample_set + (length sample_set - 1) div 3 < 2 * quorum_threshold sample_set
      \<longleftrightarrow> length sample_set mod 3 = 1) \<and>
   (2 * quorum_threshold sample_set \<le> length sample_set \<longleftrightarrow> length sample_set \<in> {2, 3, 6})"
proof -
  have "sample_set \<noteq> []" by (simp add: phase2_bft7_fixture_def)
  then show ?thesis by (rule quorum_margin_exactly_3f1)
qed

theorem leader_rotation_fair_witness:
  "\<exists>!k. k < length sample_set \<and> is_proposer_for_view sample_set (1000 + of_nat k) 5 \<and>
     expected_proposer sample_set (1000 + of_nat k) = Some (ve_fingerprint (sample_set ! 5))"
  by (rule leader_rotation_fair) simp_all

text \<open>
  The pool files votes by view and header hash and not by height, so one valid vote of a
  single faulty validator that names another height for the same hash joins the tally of the
  honest votes: the certificate formed at the threshold names all five signers and fails the
  check, although four honest validators and the height of the block were right.  Where that
  validator has the lowest index, pruning goes by its height.
\<close>

theorem mixed_height_vote_spoils_qc:
  "(case try_form_qc sample_bls (pool_run sample_bls sample_set poisoned_ops) 3 10 77 sample_set of
      None \<Rightarrow> False
    | Some f \<Rightarrow> fq_signer_indices f = [0, 1, 2, 3, 4] \<and> verify_formed_qc sample_bls f sample_set = Inl Bls) \<and>
   vp_votes (pool_run sample_bls sample_set
     [Record_Vote (sample_vote 1 0), Record_Vote (sample_vote 10 1), Prune_Below 5]) 3 77 = []"
  by code_simp

end
