(* ===== verification/Data_Availability.thy ===== *)
theory Data_Availability
  imports Block_Types Merkle
begin

text \<open>
  Data availability of \<open>crates/consensus/src/lib.rs\<close>: a payload is cut into shares, extended by
  Reed-Solomon parity and committed by a Merkle root; a receipt samples shares with their
  Merkle paths; enough shares give the payload back.  The Reed-Solomon codec, Keccak and Borsh
  are the record \<open>da_ext\<close>.
\<close>

section \<open>External functions\<close>

record da_ext =
  dx_keccak256 :: "bytes \<Rightarrow> hash256"
  dx_borsh_share :: "da_namespace \<Rightarrow> u32 \<Rightarrow> bool \<Rightarrow> bytes \<Rightarrow> bytes option"
  dx_borsh_zone_commitment :: "zone_blob_da_commitment \<Rightarrow> bytes option"
  dx_borsh_extra_v1 :: "hash256 \<Rightarrow> hash256 \<Rightarrow> bytes option"
  dx_borsh_extra_v2 :: "hash256 \<Rightarrow> hash256 \<Rightarrow> hash256 \<Rightarrow> bytes option"
  dx_rs_new :: "nat \<Rightarrow> nat \<Rightarrow> bool"
  dx_rs_encode :: "nat \<Rightarrow> nat \<Rightarrow> bytes list \<Rightarrow> bytes list option"
  dx_rs_reconstruct :: "nat \<Rightarrow> nat \<Rightarrow> bytes option list \<Rightarrow> bytes option list option"

section \<open>Commitments\<close>

definition merkle_root_from_hashes :: "(bytes \<Rightarrow> hash256) \<Rightarrow> hash256 list \<Rightarrow> hash256" where
  "merkle_root_from_hashes kc hashes = (if hashes = [] then 0 else merkle_root_loop kc hashes)"

function merkle_path_loop :: "(bytes \<Rightarrow> hash256) \<Rightarrow> nat \<Rightarrow> hash256 list \<Rightarrow> hash256 list" where
  "merkle_path_loop kc idx level =
     (if 1 < length level
      then let sibling = (if idx mod 2 = 0
                          then (if idx + 1 < length level then level ! (idx + 1) else level ! idx)
                          else level ! (idx - 1))
           in sibling # merkle_path_loop kc (idx div 2) (next_level kc level)
      else [])"
  by pat_completeness auto
termination
  by (relation "measure (\<lambda>(_, _, level). length level)") auto

declare merkle_path_loop.simps [simp del]

definition merkle_path_from_hashes :: "(bytes \<Rightarrow> hash256) \<Rightarrow> hash256 list \<Rightarrow> nat \<Rightarrow> hash256 list" where
  "merkle_path_from_hashes kc hashes index =
     (if hashes = [] \<or> length hashes \<le> index then [] else merkle_path_loop kc index hashes)"

function merkle_path_len_for_leaf_count :: "nat \<Rightarrow> nat" where
  "merkle_path_len_for_leaf_count n = (if 1 < n then Suc (merkle_path_len_for_leaf_count ((n + 1) div 2)) else 0)"
  by pat_completeness auto
termination
  by (relation "measure id") auto

declare merkle_path_len_for_leaf_count.simps [simp del]

definition verify_merkle_path ::
    "(bytes \<Rightarrow> hash256) \<Rightarrow> hash256 \<Rightarrow> u32 \<Rightarrow> u32 \<Rightarrow> hash256 list \<Rightarrow> hash256 \<Rightarrow> bool" where
  "verify_merkle_path kc leaf index leaf_count path expected_root =
     (if leaf_count = 0 \<or> leaf_count \<le> index then False
      else if length path \<noteq> merkle_path_len_for_leaf_count (unat leaf_count) then False
      else proof_walk kc leaf (unat index) path = expected_root)"

definition da_share_commitment :: "da_ext \<Rightarrow> da_namespace \<Rightarrow> u32 \<Rightarrow> bool \<Rightarrow> bytes \<Rightarrow> hash256" where
  "da_share_commitment D namespace index is_parity data =
     dx_keccak256 D (unwrap_or (dx_borsh_share D namespace index is_parity data) [])"

definition da_root :: "da_ext \<Rightarrow> da_sidecar \<Rightarrow> hash256" where
  "da_root D sidecar = merkle_root_from_hashes (dx_keccak256 D) (map sh_commitment (sc_shares sidecar))"

section \<open>Sampling\<close>

definition rng_next :: "u64 \<Rightarrow> u64" where
  "rng_next s = s * 6364136223846793005 + 1442695040888963407"

fun rng_stream :: "u64 \<Rightarrow> nat \<Rightarrow> u64 list" where
  "rng_stream s 0 = []"
| "rng_stream s (Suc n) = rng_next s # rng_stream (rng_next s) n"

definition deterministic_da_sample_indexes :: "u64 \<Rightarrow> u32 \<Rightarrow> u32 \<Rightarrow> u32 list" where
  "deterministic_da_sample_indexes seed share_count sample_count =
     (if share_count = 0 \<or> sample_count = 0 then []
      else map (\<lambda>r. ucast r mod share_count) (rng_stream seed (unat sample_count)))"

fun build_samples :: "da_ext \<Rightarrow> da_sidecar \<Rightarrow> u32 list \<Rightarrow> da_verify_error + da_sampling_receipt_sample list" where
  "build_samples D sidecar [] = Inr []"
| "build_samples D sidecar (index # rest) =
     (if length (sc_shares sidecar) \<le> unat index then Inl DaSampleMissing
      else let share = sc_shares sidecar ! unat index
           in if sh_index share \<noteq> index then Inl DaShareIndex
              else case build_samples D sidecar rest of
                Inl e \<Rightarrow> Inl e
              | Inr samples \<Rightarrow>
                  Inr (\<lparr>sp_index = index, sp_is_parity = sh_is_parity share,
                        sp_commitment = sh_commitment share,
                        sp_merkle_path = merkle_path_from_hashes (dx_keccak256 D)
                          (map sh_commitment (sc_shares sidecar)) (unat index)\<rparr> # samples))"

definition build_da_sampling_receipt ::
    "da_ext \<Rightarrow> da_sidecar \<Rightarrow> hash256 \<Rightarrow> u64 \<Rightarrow> u32 \<Rightarrow> da_verify_error + da_sampling_receipt" where
  "build_da_sampling_receipt D sidecar expected_root seed sample_count =
     (if da_root D sidecar \<noteq> expected_root then Inl DaRoot
      else if 2 ^ 32 \<le> length (sc_shares sidecar) then Inl DaShareCount
      else let share_count = of_nat (length (sc_shares sidecar))
           in case build_samples D sidecar (deterministic_da_sample_indexes seed share_count sample_count) of
                Inl e \<Rightarrow> Inl e
              | Inr samples \<Rightarrow>
                  Inr \<lparr>sr_namespace = sc_namespace sidecar, sr_da_root = expected_root,
                       sr_share_count = share_count, sr_seed = seed, sr_sample_count = sample_count,
                       sr_samples = samples\<rparr>)"

fun check_samples ::
    "da_ext \<Rightarrow> da_sampling_receipt \<Rightarrow> (da_sampling_receipt_sample \<times> u32) list \<Rightarrow> da_verify_error + unit" where
  "check_samples D receipt [] = Inr ()"
| "check_samples D receipt ((sample, expected_index) # rest) =
     (if sp_index sample \<noteq> expected_index \<or> sr_share_count receipt \<le> sp_index sample then Inl DaShareIndex
      else if \<not> verify_merkle_path (dx_keccak256 D) (sp_commitment sample) (sp_index sample)
                  (sr_share_count receipt) (sp_merkle_path sample) (sr_da_root receipt)
      then Inl DaShareCommitment
      else check_samples D receipt rest)"

definition verify_da_sampling_receipt ::
    "da_ext \<Rightarrow> da_sampling_receipt \<Rightarrow> hash256 \<Rightarrow> da_namespace \<Rightarrow> u32 \<Rightarrow> da_verify_error + unit" where
  "verify_da_sampling_receipt D receipt expected_root expected_namespace min_samples =
     (if sr_namespace receipt \<noteq> expected_namespace then Inl DaNamespace
      else if sr_da_root receipt \<noteq> expected_root then Inl DaRoot
      else if sr_sample_count receipt < min_samples \<or> length (sr_samples receipt) < unat min_samples
      then Inl DaInsufficientSamples
      else if length (sr_samples receipt) \<noteq> unat (sr_sample_count receipt) then Inl DaSampleMissing
      else if sr_share_count receipt = 0
      then (if sr_sample_count receipt = 0 then Inr () else Inl DaShareCount)
      else check_samples D receipt (zip (sr_samples receipt)
             (deterministic_da_sample_indexes (sr_seed receipt) (sr_share_count receipt) (sr_sample_count receipt))))"

section \<open>Building a sidecar\<close>

definition da_encoded_bytes :: "da_sidecar \<Rightarrow> u64" where
  "da_encoded_bytes sidecar = word_sum (map (\<lambda>s. of_nat (length (sh_data s))) (sc_shares sidecar))"

definition da_gas_for_sidecar :: "da_sidecar \<Rightarrow> u64" where
  "da_gas_for_sidecar sidecar = sat_mul (da_encoded_bytes sidecar) DEFAULT_DA_GAS_PER_BYTE"

definition da_fee_for_gas :: "u64 \<Rightarrow> u128" where
  "da_fee_for_gas da_gas_used = da_gas_fee default_fee_policy da_gas_used"

text \<open>\<open>div_ceil\<close> of the standard library, on words and on \<open>usize\<close>.\<close>

definition word_div_ceil :: "'a::len word \<Rightarrow> 'a word \<Rightarrow> 'a word" where
  "word_div_ceil a b = (if 0 < a mod b then a div b + 1 else a div b)"

definition nat_div_ceil :: "nat \<Rightarrow> nat \<Rightarrow> nat" where
  "nat_div_ceil a b = (if 0 < a mod b then a div b + 1 else a div b)"

definition DEFAULT_DA_PARITY_RATIO_NUMERATOR :: u32 where "DEFAULT_DA_PARITY_RATIO_NUMERATOR = 1"
definition DEFAULT_DA_PARITY_RATIO_DENOMINATOR :: u32 where "DEFAULT_DA_PARITY_RATIO_DENOMINATOR = 1"

definition default_parity_share_count :: "u32 \<Rightarrow> u32" where
  "default_parity_share_count data_share_count =
     max (word_div_ceil (sat_mul data_share_count DEFAULT_DA_PARITY_RATIO_NUMERATOR)
            DEFAULT_DA_PARITY_RATIO_DENOMINATOR) 1"

definition required_data_share_count :: "u64 \<Rightarrow> u32 \<Rightarrow> da_verify_error + u32" where
  "required_data_share_count original_len share_size =
     (if original_len = 0 then Inr 0
      else let count = word_div_ceil original_len (ucast (max share_size 1))
           in if count < 2 ^ 32 then Inr (ucast count) else Inl DaShareCount)"

text \<open>Share \<open>i\<close> of the payload, padded with zeros to the share size.\<close>

definition data_shard :: "bytes \<Rightarrow> nat \<Rightarrow> nat \<Rightarrow> bytes" where
  "data_shard payload share_size i =
     (let start = i * share_size; stop = min (start + share_size) (length payload)
      in take (stop - start) (drop start payload) @ replicate (share_size - (stop - start)) 0)"

definition share_of_shard :: "da_ext \<Rightarrow> da_namespace \<Rightarrow> nat \<Rightarrow> nat \<Rightarrow> bytes \<Rightarrow> da_share" where
  "share_of_shard D namespace data_share_count i data =
     (let index = of_nat i; is_parity = (data_share_count \<le> i)
      in \<lparr>sh_namespace = namespace, sh_index = index, sh_is_parity = is_parity, sh_data = data,
          sh_commitment = da_share_commitment D namespace index is_parity data\<rparr>)"

definition build_da_sidecar :: "da_ext \<Rightarrow> bytes \<Rightarrow> da_namespace \<Rightarrow> u32 \<Rightarrow> da_verify_error + da_sidecar" where
  "build_da_sidecar D payload namespace share_size =
     (let size = unat (max share_size 1)
      in if payload = [] then
           Inr \<lparr>sc_namespace = namespace, sc_original_len = 0, sc_share_size = of_nat size,
                sc_data_share_count = 0, sc_parity_share_count = 0, sc_shares = []\<rparr>
         else
           let data_count = nat_div_ceil (length payload) size;
               parity_count = unat (default_parity_share_count (of_nat data_count))
           in if \<not> dx_rs_new D data_count parity_count then Inl DaErasureCoding
              else
                let shards = map (data_shard payload size) [0..<data_count] @
                             replicate parity_count (replicate size 0)
                in case dx_rs_encode D data_count parity_count shards of
                     None \<Rightarrow> Inl DaErasureCoding
                   | Some encoded \<Rightarrow>
                       Inr \<lparr>sc_namespace = namespace, sc_original_len = of_nat (length payload),
                            sc_share_size = of_nat size, sc_data_share_count = of_nat data_count,
                            sc_parity_share_count = of_nat parity_count,
                            sc_shares = map (\<lambda>(i, data). share_of_shard D namespace data_count i data)
                              (List.enumerate 0 encoded)\<rparr>)"

section \<open>Checking and reconstructing\<close>

definition verify_da_layout :: "da_sidecar \<Rightarrow> da_verify_error + unit" where
  "verify_da_layout sidecar =
     (let share_size = max (sc_share_size sidecar) 1
      in if sc_share_size sidecar = 0 then Inl DaOriginalLen
         else case required_data_share_count (sc_original_len sidecar) share_size of
           Inl e \<Rightarrow> Inl e
         | Inr required \<Rightarrow>
             if sc_data_share_count sidecar \<noteq> required then Inl DaShareCount
             else if sc_original_len sidecar = 0
             then (if sc_data_share_count sidecar \<noteq> 0 \<or> sc_parity_share_count sidecar \<noteq> 0 \<or> sc_shares sidecar \<noteq> []
                   then Inl DaShareCount else Inr ())
             else if sc_parity_share_count sidecar = 0 then Inl DaShareCount
             else case checked_add (sc_data_share_count sidecar) (sc_parity_share_count sidecar) of
               None \<Rightarrow> Inl DaShareCount
             | Some share_total \<Rightarrow>
                 if length (sc_shares sidecar) \<noteq> unat share_total then Inl DaShareCount else Inr ())"

fun check_shares :: "da_ext \<Rightarrow> block_header \<Rightarrow> da_sidecar \<Rightarrow> nat \<Rightarrow> da_share list \<Rightarrow> da_verify_error + unit" where
  "check_shares D header sidecar i [] = Inr ()"
| "check_shares D header sidecar i (share # rest) =
     (if sh_index share \<noteq> of_nat i then Inl DaShareIndex
      else if sh_is_parity share \<noteq> (unat (sc_data_share_count sidecar) \<le> i) then Inl DaShareIndex
      else if sh_namespace share \<noteq> hd_zone_namespace header \<or> sh_namespace share \<noteq> sc_namespace sidecar
      then Inl DaNamespace
      else if length (sh_data share) \<noteq> unat (sc_share_size sidecar) then Inl DaOriginalLen
      else if sh_commitment share \<noteq>
                da_share_commitment D (sh_namespace share) (sh_index share) (sh_is_parity share) (sh_data share)
      then Inl DaShareCommitment
      else check_shares D header sidecar (i + 1) rest)"

definition verify_da_sidecar :: "da_ext \<Rightarrow> block_header \<Rightarrow> da_sidecar \<Rightarrow> da_verify_error + unit" where
  "verify_da_sidecar D header sidecar =
     (if sc_namespace sidecar \<noteq> hd_zone_namespace header then Inl DaNamespace
      else if sc_original_len sidecar \<noteq> hd_da_bytes header then Inl DaOriginalLen
      else if length (sc_shares sidecar) \<noteq> unat (hd_da_share_count header) then Inl DaShareCount
      else if hd_da_gas_used header \<noteq> da_gas_for_sidecar sidecar then Inl DaOriginalLen
      else if hd_da_fee_paid header \<noteq> da_fee_for_gas (hd_da_gas_used header) then Inl DaOriginalLen
      else case verify_da_layout sidecar of
        Inl e \<Rightarrow> Inl e
      | Inr _ \<Rightarrow>
          (case check_shares D header sidecar 0 (sc_shares sidecar) of
             Inl e \<Rightarrow> Inl e
           | Inr _ \<Rightarrow> if da_root D sidecar \<noteq> hd_da_root header then Inl DaRoot else Inr ()))"

fun place_shares ::
    "da_ext \<Rightarrow> da_sidecar \<Rightarrow> bytes option list \<Rightarrow> da_share list \<Rightarrow> da_verify_error + bytes option list" where
  "place_shares D sidecar shards [] = Inr shards"
| "place_shares D sidecar shards (share # rest) =
     (if sh_namespace share \<noteq> sc_namespace sidecar then Inl DaNamespace
      else if unat (sc_data_share_count sidecar) + unat (sc_parity_share_count sidecar) \<le> unat (sh_index share)
      then Inl DaShareIndex
      else if sh_is_parity share \<noteq> (unat (sc_data_share_count sidecar) \<le> unat (sh_index share))
      then Inl DaShareIndex
      else if length (sh_data share) \<noteq> unat (sc_share_size sidecar) then Inl DaOriginalLen
      else if sh_commitment share \<noteq>
                da_share_commitment D (sh_namespace share) (sh_index share) (sh_is_parity share) (sh_data share)
      then Inl DaShareCommitment
      else place_shares D sidecar (shards[unat (sh_index share) := Some (sh_data share)]) rest)"

text \<open>The loop over the data shards: a shard that is still missing is an error.\<close>

fun join_shards :: "bytes option list \<Rightarrow> da_verify_error + bytes" where
  "join_shards [] = Inr []"
| "join_shards (None # rest) = Inl DaErasureCoding"
| "join_shards (Some shard # rest) =
     (case join_shards rest of Inl e \<Rightarrow> Inl e | Inr out \<Rightarrow> Inr (shard @ out))"

definition reconstruct_da_payload_from_shares ::
    "da_ext \<Rightarrow> da_sidecar \<Rightarrow> da_share list \<Rightarrow> da_verify_error + bytes" where
  "reconstruct_da_payload_from_shares D sidecar shares =
     (case verify_da_layout sidecar of
        Inl e \<Rightarrow> Inl e
      | Inr _ \<Rightarrow>
          if sc_original_len sidecar = 0 then Inr []
          else
            let data_count = unat (sc_data_share_count sidecar);
                parity_count = unat (sc_parity_share_count sidecar);
                total_count = data_count + parity_count
            in case place_shares D sidecar (replicate total_count None) shares of
                 Inl e \<Rightarrow> Inl e
               | Inr shards \<Rightarrow>
                   if length (filter (\<lambda>s. s \<noteq> None) shards) < data_count then Inl DaInsufficientShares
                   else if \<not> dx_rs_new D data_count parity_count then Inl DaErasureCoding
                   else case dx_rs_reconstruct D data_count parity_count shards of
                     None \<Rightarrow> Inl DaErasureCoding
                   | Some shards' \<Rightarrow>
                       (case join_shards (take data_count shards') of
                          Inl e \<Rightarrow> Inl e
                        | Inr out \<Rightarrow> Inr (take (unat (sc_original_len sidecar)) out)))"

definition reconstruct_da_payload :: "da_ext \<Rightarrow> da_sidecar \<Rightarrow> da_verify_error + bytes" where
  "reconstruct_da_payload D sidecar = reconstruct_da_payload_from_shares D sidecar (sc_shares sidecar)"

fun check_sampled_shares ::
    "da_ext \<Rightarrow> da_sidecar \<Rightarrow> da_namespace \<Rightarrow> u64 list \<Rightarrow> da_verify_error + unit" where
  "check_sampled_shares D sidecar ns [] = Inr ()"
| "check_sampled_shares D sidecar ns (r # rs) =
     (let idx = unat r mod length (sc_shares sidecar)
      in if length (sc_shares sidecar) \<le> idx then Inl DaSampleMissing
         else let share = sc_shares sidecar ! idx
              in if sh_namespace share \<noteq> ns then Inl DaNamespace
                 else if sh_commitment share \<noteq>
                   da_share_commitment D (sh_namespace share) (sh_index share) (sh_is_parity share) (sh_data share)
                 then Inl DaShareCommitment
                 else check_sampled_shares D sidecar ns rs)"

definition verify_da_samples ::
    "da_ext \<Rightarrow> da_sidecar \<Rightarrow> hash256 \<Rightarrow> da_namespace \<Rightarrow> u64 \<Rightarrow> nat \<Rightarrow> da_verify_error + unit" where
  "verify_da_samples D sidecar expected_root expected_namespace seed sample_count =
     (if sc_namespace sidecar \<noteq> expected_namespace then Inl DaNamespace
      else if da_root D sidecar \<noteq> expected_root then Inl DaRoot
      else if sc_shares sidecar = [] then Inr ()
      else check_sampled_shares D sidecar expected_namespace (rng_stream seed sample_count))"

section \<open>Zone blobs and header extensions\<close>

definition build_zone_blob_da_sidecar ::
    "da_ext \<Rightarrow> zone_blob_da \<Rightarrow> da_verify_error + da_sidecar \<times> zone_blob_da_commitment" where
  "build_zone_blob_da_sidecar D blob =
     (case build_da_sidecar D (zb_payload blob) (zb_namespace blob) (zb_share_size blob) of
        Inl e \<Rightarrow> Inl e
      | Inr sidecar \<Rightarrow>
          Inr (sidecar, \<lparr>zc_namespace = zb_namespace blob, zc_da_root = da_root D sidecar,
            zc_byte_count = sc_original_len sidecar, zc_share_count = of_nat (length (sc_shares sidecar)),
            zc_share_size = sc_share_size sidecar, zc_sampling = zb_sampling blob\<rparr>))"

definition zone_blob_da_commitment_hash :: "da_ext \<Rightarrow> zone_blob_da_commitment \<Rightarrow> hash256 option" where
  "zone_blob_da_commitment_hash D commitment =
     map_option (\<lambda>b. dx_keccak256 D (ascii ''fractal:zone-blob-da:v1'' @ b)) (dx_borsh_zone_commitment D commitment)"

definition proof_ingestion_header_extra ::
    "da_ext \<Rightarrow> hash256 \<Rightarrow> zone_blob_da_commitment \<Rightarrow> hash256 option" where
  "proof_ingestion_header_extra D payload_root commitment =
     (case zone_blob_da_commitment_hash D commitment of
        None \<Rightarrow> None
      | Some h \<Rightarrow> map_option (\<lambda>b. dx_keccak256 D (ascii ''fractal:block-extra:proof-ingestion:v1'' @ b))
                   (dx_borsh_extra_v1 D payload_root h))"

definition rlvr_leaf_of_proof_hash :: "da_ext \<Rightarrow> hash256 \<Rightarrow> hash256" where
  "rlvr_leaf_of_proof_hash D h = dx_keccak256 D (ascii ''fractal:rlvr-proof-leaf:v1'' @ be_bytes 32 h)"

definition rlvr_proof_root :: "da_ext \<Rightarrow> hash256 list \<Rightarrow> hash256" where
  "rlvr_proof_root D hs = merkle_root_from_hashes (dx_keccak256 D) (map (rlvr_leaf_of_proof_hash D) hs)"

definition proof_ingestion_header_extra_with_rlvr ::
    "da_ext \<Rightarrow> hash256 \<Rightarrow> zone_blob_da_commitment \<Rightarrow> hash256 \<Rightarrow> hash256 option" where
  "proof_ingestion_header_extra_with_rlvr D payload_root commitment rlvr_root =
     (case zone_blob_da_commitment_hash D commitment of
        None \<Rightarrow> None
      | Some h \<Rightarrow> map_option (\<lambda>b. dx_keccak256 D (ascii ''fractal:block-extra:proof-ingestion:v2'' @ b))
                   (dx_borsh_extra_v2 D payload_root h rlvr_root))"

definition verify_zone_blob_da_header ::
    "da_ext \<Rightarrow> block_header \<Rightarrow> da_sidecar \<Rightarrow> zone_blob_da_commitment \<Rightarrow> hash256 \<Rightarrow> da_verify_error + unit" where
  "verify_zone_blob_da_header D header sidecar commitment payload_root =
     (if zc_namespace commitment \<noteq> hd_zone_namespace header then Inl DaNamespace
      else if zc_da_root commitment \<noteq> hd_da_root header then Inl DaRoot
      else if zc_byte_count commitment \<noteq> hd_da_bytes header then Inl DaOriginalLen
      else if zc_share_count commitment \<noteq> hd_da_share_count header then Inl DaShareCount
      else if zc_share_size commitment \<noteq> sc_share_size sidecar then Inl DaOriginalLen
      else case verify_da_sidecar D header sidecar of
        Inl e \<Rightarrow> Inl e
      | Inr _ \<Rightarrow>
          (case proof_ingestion_header_extra D payload_root commitment of
             None \<Rightarrow> Inl DaShareCommitment
           | Some extra \<Rightarrow>
               if hd_extra header \<noteq> extra then Inl DaRoot
               else if dp_sample_count (zc_sampling commitment) < dp_min_samples (zc_sampling commitment)
               then Inl DaInsufficientSamples
               else Inr ()))"

end
