(* ===== verification/DA_Correctness.thy ===== *)
theory DA_Correctness
  imports Data_Availability
begin

text \<open>
  What the data-availability code promises: the Merkle paths of the consensus crate are those
  of the core crate, sampling receipts of a sidecar verify, a built sidecar passes the check
  of a header that commits to it, and any data-count many distinct shares of it give the
  payload back.
\<close>

section \<open>Merkle paths\<close>

lemma merkle_path_loop_eq:
  "i < length level \<Longrightarrow> merkle_path_loop kc i level = merkle_proof_loop kc level i"
proof (induction kc i level rule: merkle_path_loop.induct)
  case (1 kc i level)
  show ?case
  proof (cases "1 < length level")
    case True
    have sib: "(if i mod 2 = 0 then (if i + 1 < length level then level ! (i + 1) else level ! i) else level ! (i - 1))
        = (let s = if i mod 2 = 0 then i + 1 else i - 1 in if s < length level then level ! s else level ! i)"
      using "1.prems" by (auto simp: Let_def)
    have "merkle_path_loop kc (i div 2) (next_level kc level) = merkle_proof_loop kc (next_level kc level) (i div 2)"
      using "1.prems" True by (intro "1.IH" [OF True refl]) simp
    then show ?thesis
      using True sib by (simp add: merkle_path_loop.simps [of kc i level] merkle_proof_loop.simps [of kc level i] Let_def)
  qed (simp add: merkle_path_loop.simps merkle_proof_loop.simps)
qed

lemma merkle_path_from_hashes_eq:
  "merkle_path_from_hashes kc hs i = unwrap_or (merkle_proof kc hs i) []"
  by (auto simp: merkle_path_from_hashes_def merkle_proof_def merkle_path_loop_eq unwrap_or_def)

lemma merkle_root_from_hashes_eq: "merkle_root_from_hashes kc hs = merkle_root kc hs"
  by (simp add: merkle_root_from_hashes_def merkle_root_def)

lemma length_merkle_proof_loop:
  "length (merkle_proof_loop kc level i) = merkle_path_len_for_leaf_count (length level)"
proof (induction kc level i rule: merkle_proof_loop.induct)
  case (1 kc level i)
  show ?case
  proof (cases "1 < length level")
    case True
    then have "length (merkle_proof_loop kc level i) = Suc (merkle_path_len_for_leaf_count (length (next_level kc level)))"
      using "1.IH" by (simp add: merkle_proof_loop.simps [of kc level i] Let_def)
    also have "\<dots> = merkle_path_len_for_leaf_count (length level)"
      using True by (simp add: merkle_path_len_for_leaf_count.simps [of "length level"])
    finally show ?thesis .
  qed (simp add: merkle_proof_loop.simps merkle_path_len_for_leaf_count.simps)
qed

lemma built_path_verifies:
  assumes "i < length hs" and "length hs < 2 ^ 32"
  shows "verify_merkle_path kc (hs ! i) (of_nat i) (of_nat (length hs))
    (merkle_path_from_hashes kc hs i) (merkle_root_from_hashes kc hs)"
proof -
  have u: "unat (of_nat i :: u32) = i" "unat (of_nat (length hs) :: u32) = length hs"
    using assms by (simp_all add: unat_of_nat_small)
  have ne: "hs \<noteq> []" using assms(1) by auto
  have "(of_nat (length hs) :: u32) \<noteq> 0" using u(2) ne by (metis length_0_conv unat_0)
  moreover have "\<not> (of_nat (length hs) :: u32) \<le> of_nat i" using u assms(1) by (simp add: word_le_nat_alt)
  moreover have "merkle_path_from_hashes kc hs i = merkle_proof_loop kc hs i"
    using assms(1) ne by (simp add: merkle_path_from_hashes_def merkle_path_loop_eq)
  ultimately show ?thesis
    using merkle_walk_complete [OF assms(1), of kc] ne
    by (simp add: verify_merkle_path_def u length_merkle_proof_loop merkle_root_from_hashes_def)
qed

section \<open>Sampling\<close>

lemma length_rng_stream [simp]: "length (rng_stream s n) = n"
  by (induction s n rule: rng_stream.induct) simp_all

lemma sample_indexes_in_range:
  assumes "i \<in> set (deterministic_da_sample_indexes seed share_count n)"
  shows "i < share_count"
proof -
  obtain r :: u64 where "i = ucast r mod share_count" "share_count \<noteq> 0"
    using assms by (auto simp: deterministic_da_sample_indexes_def split: if_splits)
  then show ?thesis by (simp add: word_gt_0 word_mod_less_divisor)
qed

lemma build_samples_verify:
  assumes "build_samples D sc idxs = Inr samples" and "list_all (\<lambda>i. i < of_nat (length (sc_shares sc))) idxs"
    and "length (sc_shares sc) < 2 ^ 32"
    and "sr_share_count r = of_nat (length (sc_shares sc))" and "sr_da_root r = da_root D sc"
  shows "length samples = length idxs \<and> check_samples D r (zip samples idxs) = Inr ()"
  using assms(1,2)
proof (induction idxs arbitrary: samples)
  case (Cons i idxs)
  let ?hs = "map sh_commitment (sc_shares sc)"
  have len: "unat (of_nat (length (sc_shares sc)) :: u32) = length (sc_shares sc)"
    using assms(3) by (simp add: unat_of_nat_small)
  have i: "i < of_nat (length (sc_shares sc))" using Cons.prems(2) by simp
  then have iu: "unat i < length ?hs" using len by (simp add: word_less_nat_alt)
  obtain rest where rest: "build_samples D sc idxs = Inr rest"
    and samples: "samples = \<lparr>sp_index = i, sp_is_parity = sh_is_parity (sc_shares sc ! unat i),
        sp_commitment = sh_commitment (sc_shares sc ! unat i),
        sp_merkle_path = merkle_path_from_hashes (dx_keccak256 D) ?hs (unat i)\<rparr> # rest"
    using Cons.prems(1) by (auto simp: Let_def split: if_splits sum.splits)
  have "verify_merkle_path (dx_keccak256 D) (?hs ! unat i) (of_nat (unat i)) (of_nat (length ?hs))
      (merkle_path_from_hashes (dx_keccak256 D) ?hs (unat i)) (da_root D sc)"
    unfolding da_root_def using iu assms(3) by (intro built_path_verifies) simp_all
  then show ?case
    using Cons.IH [OF rest] Cons.prems(2) samples i iu assms(4,5) by (simp add: not_le)
qed simp

section \<open>The codec\<close>

text \<open>
  What the Reed-Solomon codec over the field of 256 elements promises: it exists for at most
  256 shards in all; encoding shards of one length keeps that length and the data shards; and
  every selection of at least as many encoded shards as there are data shards determines all.
\<close>

definition codec_limit :: "da_ext \<Rightarrow> bool" where
  "codec_limit D \<longleftrightarrow> (\<forall>k p. dx_rs_new D k p \<longrightarrow> 0 < k \<and> 0 < p \<and> k + p \<le> 256)"

definition codec_sound :: "da_ext \<Rightarrow> bool" where
  "codec_sound D \<longleftrightarrow> (\<forall>k p n shards enc. dx_rs_new D k p \<longrightarrow> length shards = k + p \<longrightarrow>
     list_all (\<lambda>x. length x = n) shards \<longrightarrow> dx_rs_encode D k p shards = Some enc \<longrightarrow>
     length enc = k + p \<and> list_all (\<lambda>x. length x = n) enc \<and> take k enc = take k shards \<and>
     (\<forall>part. list_all2 (\<lambda>x y. x = None \<or> x = Some y) part enc \<longrightarrow>
        k \<le> length (filter (\<lambda>x. x \<noteq> None) part) \<longrightarrow> dx_rs_reconstruct D k p part = Some (map Some enc)))"

lemma nat_div_ceil_ge: "0 < b \<Longrightarrow> a \<le> nat_div_ceil a b * b"
proof (cases "0 < a mod b")
  case True
  assume "0 < b"
  then have "a mod b < b" by (rule mod_less_divisor)
  moreover have "a = a div b * b + a mod b" by simp
  ultimately have "a \<le> a div b * b + b" by linarith
  then show ?thesis using True by (simp add: nat_div_ceil_def)
qed (auto simp: nat_div_ceil_def)

lemma nat_div_ceil_pos: "0 < b \<Longrightarrow> 0 < a \<Longrightarrow> 0 < nat_div_ceil a b"
  using nat_div_ceil_ge [of b a] by (cases "nat_div_ceil a b") auto

lemma nat_div_ceil_le: "0 < b \<Longrightarrow> nat_div_ceil a b \<le> a"
proof (cases "b = 1")
  case False
  assume "0 < b"
  then have "2 \<le> b" using False by simp
  then have "a div b < a" if "0 < a mod b"
    using that by (metis div_less_dividend less_le_trans mod_0 neq0_conv one_less_numeral_iff semiring_norm(76))
  then show ?thesis using div_le_dividend [of a b] by (auto simp: nat_div_ceil_def)
qed (simp add: nat_div_ceil_def)

lemma unat_word_div_ceil:
  "b \<noteq> 0 \<Longrightarrow> unat (word_div_ceil a b) = nat_div_ceil (unat a) (unat b)" for a b :: "'a::len word"
proof -
  assume "b \<noteq> 0"
  then have b: "0 < unat b" by (simp add: unat_gt_0)
  have pos: "0 < a mod b \<longleftrightarrow> 0 < unat a mod unat b" by (simp add: word_gt_0 unat_gt_0 flip: unat_mod)
  have "unat (a div b + 1) = unat a div unat b + 1" if "0 < unat a mod unat b"
  proof -
    have "unat a div unat b + 1 \<le> unat a"
      using nat_div_ceil_le [OF b, of "unat a"] that by (simp add: nat_div_ceil_def)
    then have "unat (a div b) + unat (1::'a word) < 2 ^ LENGTH('a)"
      using unat_less_size [of a] unfolding unat_div unat_1 by linarith
    then show ?thesis using unat_add_no_wrap [of "a div b" 1] by (simp add: unat_div)
  qed
  then show ?thesis using pos by (simp add: word_div_ceil_def nat_div_ceil_def unat_div)
qed

lemma default_parity_eq: "d \<noteq> 0 \<Longrightarrow> default_parity_share_count d = d"
proof -
  assume "d \<noteq> 0"
  then have "1 \<le> d" by (simp add: word_le_nat_alt unat_gt_0 Suc_leI)
  moreover have "word_div_ceil d 1 = d" by (simp add: word_div_ceil_def)
  moreover have "sat_mul d 1 = d" using unat_u32_less [of d] by (simp add: sat_mul_def)
  ultimately show ?thesis
    by (simp add: default_parity_share_count_def DEFAULT_DA_PARITY_RATIO_NUMERATOR_def
        DEFAULT_DA_PARITY_RATIO_DENOMINATOR_def max_def)
qed

section \<open>Shards\<close>

lemma length_data_shard: "length (data_shard payload sz i) = sz"
  by (simp add: data_shard_def Let_def)

text \<open>The data shards in order are the payload and the padding of the last one.\<close>

lemma data_shards_prefix:
  assumes "n * sz \<le> length payload"
  shows "concat (map (data_shard payload sz) [0..<n]) = take (n * sz) payload"
  using assms
proof (induction n)
  case (Suc n)
  have full: "data_shard payload sz n = take sz (drop (n * sz) payload)"
    using Suc.prems by (simp add: data_shard_def Let_def min_def)
  have "take (Suc n * sz) payload = take (n * sz) payload @ take sz (drop (n * sz) payload)"
    by (metis add.commute mult_Suc take_add)
  then show ?case using Suc full by simp
qed simp

lemma data_shards_join:
  assumes "0 < sz" and "n = nat_div_ceil (length payload) sz"
  shows "take (length payload) (concat (map (data_shard payload sz) [0..<n])) = payload"
proof -
  let ?q = "length payload div sz"
  have q: "concat (map (data_shard payload sz) [0..<?q]) = take (?q * sz) payload"
    by (rule data_shards_prefix) simp
  show ?thesis
  proof (cases "0 < length payload mod sz")
    case False
    then have "?q * sz = length payload" "n = ?q" using assms(2) by (auto simp: nat_div_ceil_def)
    then show ?thesis using q by simp
  next
    case True
    then have n: "n = Suc ?q" using assms(2) by (simp add: nat_div_ceil_def)
    let ?rest = "drop (?q * sz) payload"
    have "length payload < ?q * sz + sz"
      using mod_less_divisor [OF assms(1), of "length payload"] by (metis add_less_cancel_left div_mult_mod_eq)
    then have last: "data_shard payload sz ?q = ?rest @ replicate (sz - length ?rest) 0"
      by (simp add: data_shard_def Let_def min_def)
    have "take (length payload) (take (?q * sz) payload @ (?rest @ replicate (sz - length ?rest) 0)) = payload"
      by (metis append.assoc append_take_drop_id append_eq_conv_conj)
    then show ?thesis unfolding n by (simp add: q last)
  qed
qed

lemma join_shards_Some: "join_shards (map Some xs) = Inr (concat xs)"
  by (induction xs) simp_all

section \<open>Built sidecars\<close>

definition sidecar_of :: "da_ext \<Rightarrow> bytes \<Rightarrow> da_namespace \<Rightarrow> u32 \<Rightarrow> nat \<Rightarrow> bytes list \<Rightarrow> da_sidecar" where
  "sidecar_of D payload ns sz d enc =
     \<lparr>sc_namespace = ns, sc_original_len = of_nat (length payload), sc_share_size = sz,
      sc_data_share_count = of_nat d, sc_parity_share_count = of_nat d,
      sc_shares = map (\<lambda>(i, data). share_of_shard D ns d i data) (List.enumerate 0 enc)\<rparr>"

text \<open>What a sidecar is after a successful build of a payload that is not empty.\<close>

lemma build_da_sidecar_ok:
  assumes codec: "codec_limit D" "codec_sound D" and build: "build_da_sidecar D payload ns ss = Inr sc"
    and ne: "payload \<noteq> []"
  obtains sz d enc where "sz = max ss 1" and "0 < unat sz" and "d = nat_div_ceil (length payload) (unat sz)"
    and "0 < d" and "d \<le> 128" and "dx_rs_new D d d" and "sc = sidecar_of D payload ns sz d enc"
    and "length enc = d + d" and "list_all (\<lambda>x. length x = unat sz) enc"
    and "take d enc = map (data_shard payload (unat sz)) [0..<d]"
    and "\<forall>part. list_all2 (\<lambda>x y. x = None \<or> x = Some y) part enc \<longrightarrow>
      d \<le> length (filter (\<lambda>x. x \<noteq> None) part) \<longrightarrow> dx_rs_reconstruct D d d part = Some (map Some enc)"
proof -
  define sz where "sz = max ss 1"
  define d where "d = nat_div_ceil (length payload) (unat sz)"
  define p where "p = unat (default_parity_share_count (of_nat d))"
  define shards where "shards = map (data_shard payload (unat sz)) [0..<d] @ replicate p (replicate (unat sz) 0)"
  have "1 \<le> sz" by (simp add: sz_def)
  then have sz: "0 < unat sz" by (simp add: word_le_nat_alt)
  have new: "dx_rs_new D d p" and enc: "\<exists>enc. dx_rs_encode D d p shards = Some enc \<and>
      sc = \<lparr>sc_namespace = ns, sc_original_len = of_nat (length payload), sc_share_size = sz,
        sc_data_share_count = of_nat d, sc_parity_share_count = of_nat p,
        sc_shares = map (\<lambda>(i, data). share_of_shard D ns d i data) (List.enumerate 0 enc)\<rparr>"
    using build ne by (auto simp: build_da_sidecar_def Let_def sz_def [symmetric] d_def [symmetric] p_def [symmetric]
        shards_def [symmetric] split: if_splits option.splits)
  have lim: "0 < d" "d + p \<le> 256" using codec(1) new by (auto simp: codec_limit_def)
  have "unat (of_nat d :: u32) = d" using lim by (intro unat_of_nat_small) simp
  then have "(of_nat d :: u32) \<noteq> 0" using lim(1) by (metis less_irrefl unat_0)
  then have p: "p = d" using lim by (simp add: p_def default_parity_eq unat_of_nat_small)
  obtain enc where e: "dx_rs_encode D d d shards = Some enc" "sc = sidecar_of D payload ns sz d enc"
    using enc p by (auto simp: sidecar_of_def)
  have shape: "length shards = d + d" "list_all (\<lambda>x. length x = unat sz) shards"
      "take d shards = map (data_shard payload (unat sz)) [0..<d]"
    using p by (auto simp: shards_def list_all_iff length_data_shard)
  have "length enc = d + d \<and> list_all (\<lambda>x. length x = unat sz) enc \<and> take d enc = take d shards \<and>
     (\<forall>part. list_all2 (\<lambda>x y. x = None \<or> x = Some y) part enc \<longrightarrow>
        d \<le> length (filter (\<lambda>x. x \<noteq> None) part) \<longrightarrow> dx_rs_reconstruct D d d part = Some (map Some enc))"
    using codec(2) new shape(1,2) e(1) unfolding codec_sound_def p by blast
  then show thesis using that sz_def sz d_def lim new e(2) shape(3) p by auto
qed

lemma share_nth:
  "i < length enc \<Longrightarrow> sc_shares (sidecar_of D payload ns sz d enc) ! i = share_of_shard D ns d i (enc ! i)"
  by (simp add: sidecar_of_def nth_enumerate_eq)

lemma length_shares: "length (sc_shares (sidecar_of D payload ns sz d enc)) = length enc"
  by (simp add: sidecar_of_def)

lemma share_of_shard_simps [simp]:
  "sh_namespace (share_of_shard D ns d i x) = ns" "sh_index (share_of_shard D ns d i x) = of_nat i"
  "sh_is_parity (share_of_shard D ns d i x) = (d \<le> i)" "sh_data (share_of_shard D ns d i x) = x"
  "sh_commitment (share_of_shard D ns d i x) = da_share_commitment D ns (of_nat i) (d \<le> i) x"
  by (simp_all add: share_of_shard_def Let_def)

lemma layout_of_built:
  assumes "0 < unat sz" and "d = nat_div_ceil (length payload) (unat sz)" and "0 < d" "d \<le> 128"
    and "length enc = d + d"
  shows "verify_da_layout (sidecar_of D payload ns sz d enc) = Inr ()"
    and "unat (of_nat (length payload) :: u64) = length payload" and "payload \<noteq> []"
proof -
  have "length payload \<le> d * unat sz" using nat_div_ceil_ge [OF assms(1)] assms(2) by simp
  also have "\<dots> \<le> 128 * 4294967296" using assms(4) unat_u32_less [of sz] by (intro mult_mono) auto
  finally show len: "unat (of_nat (length payload) :: u64) = length payload" by (simp add: unat_of_nat_small)
  show ne: "payload \<noteq> []" using assms(2,3) by (auto simp: nat_div_ceil_def)
  have "1 \<le> sz" using assms(1) by (simp add: word_le_nat_alt Suc_leI)
  then have sz: "max sz 1 = sz" "sz \<noteq> 0" by auto
  have up: "unat (ucast sz :: u64) = unat sz"
    by (simp add: unat_ucast_widen)
  have du: "unat (of_nat d :: u32) = d" using assms(4) by (simp add: unat_of_nat_small)
  have len0: "(of_nat (length payload) :: u64) \<noteq> 0" using len ne by (metis length_0_conv unat_0)
  have ucast: "(ucast sz :: u64) \<noteq> 0" using assms(1) up by (metis unat_0 less_irrefl)
  have "unat (word_div_ceil (of_nat (length payload)) (ucast sz) :: u64) = d"
    using assms(2) unat_word_div_ceil [OF ucast] len by (simp add: up)
  then have count: "(word_div_ceil (of_nat (length payload)) (ucast sz) :: u64) = of_nat d"
    by (metis of_nat_unat ucast_id)
  have "unat (of_nat d :: u64) = d" using assms(4) by (simp add: unat_of_nat_small)
  then have down: "ucast (of_nat d :: u64) = (of_nat d :: u32)" by (metis of_nat_unat)
  have "required_data_share_count (of_nat (length payload)) sz = Inr (of_nat d)"
    using len0 sz count assms(4) down by (simp add: required_data_share_count_def word_less_nat_alt unat_of_nat_small)
  moreover have "checked_add (of_nat d :: u32) (of_nat d) = Some (of_nat (d + d))"
    using du assms(4) by (simp add: checked_add_def)
  moreover have "unat (of_nat (d + d) :: u32) = d + d" using assms(4) by (intro unat_of_nat_small) simp
  moreover have "(of_nat d :: u32) \<noteq> 0" using du assms(3) by (metis less_irrefl unat_0)
  ultimately show "verify_da_layout (sidecar_of D payload ns sz d enc) = Inr ()"
    using sz len0 assms(5) by (simp add: verify_da_layout_def sidecar_of_def)
qed

section \<open>Reconstruction\<close>

text \<open>
  Shares of an encoded vector fill the places they name with their own shard and leave the
  others as they were.
\<close>

lemma place_shares_ok:
  assumes sc: "sc_namespace sc = ns" "unat (sc_data_share_count sc) = d" "unat (sc_parity_share_count sc) = d"
      "unat (sc_share_size sc) = n"
    and enc: "length enc = d + d" "list_all (\<lambda>x. length x = n) enc" "d \<le> 128"
    and picked: "\<forall>s \<in> set picked. \<exists>i < length enc. s = share_of_shard D ns d i (enc ! i)"
    and part: "list_all2 (\<lambda>x y. x = None \<or> x = Some y) part enc"
  shows "\<exists>part'. place_shares D sc part picked = Inr part' \<and>
    list_all2 (\<lambda>x y. x = None \<or> x = Some y) part' enc \<and>
    {i. i < length part' \<and> part' ! i \<noteq> None} = {i. i < length part \<and> part ! i \<noteq> None} \<union> (\<lambda>s. unat (sh_index s)) ` set picked"
  using picked part
proof (induction picked arbitrary: part)
  case (Cons s picked)
  obtain i where i: "i < length enc" "s = share_of_shard D ns d i (enc ! i)" using Cons.prems(1) by auto
  have iu: "unat (of_nat i :: u32) = i" using i(1) enc by (simp add: unat_of_nat_small)
  let ?part = "part[i := Some (enc ! i)]"
  have len: "length part = length enc" using Cons.prems(2) by (rule list_all2_lengthD)
  have upd: "list_all2 (\<lambda>x y. x = None \<or> x = Some y) ?part enc"
    using Cons.prems(2) i(1) by (simp add: list_all2_conv_all_nth nth_list_update)
  have step: "place_shares D sc part (s # picked) = place_shares D sc ?part picked"
    using i iu sc enc(1,2) by (simp add: list_all_length)
  have filled: "{j. j < length ?part \<and> ?part ! j \<noteq> None} = insert i {j. j < length part \<and> part ! j \<noteq> None}"
    using i(1) len by (auto simp: nth_list_update)
  obtain part' where "place_shares D sc ?part picked = Inr part'"
    "list_all2 (\<lambda>x y. x = None \<or> x = Some y) part' enc"
    "{j. j < length part' \<and> part' ! j \<noteq> None} = {j. j < length ?part \<and> ?part ! j \<noteq> None} \<union> (\<lambda>s. unat (sh_index s)) ` set picked"
    using Cons.IH [OF _ upd] Cons.prems(1) by auto
  then show ?case using step filled i(2) iu by auto
qed simp

lemma filled_count: "length (filter (\<lambda>x. x \<noteq> None) part) = card {i. i < length part \<and> part ! i \<noteq> None}"
  by (simp add: length_filter_conv_card)

section \<open>Properties\<close>

lemma shares_reconstruct:
  assumes codec: "codec_limit D" "codec_sound D"
    and build: "build_da_sidecar D payload ns ss = Inr sc"
    and picked: "set picked \<subseteq> set (sc_shares sc)"
    and enough: "unat (sc_data_share_count sc) \<le> card (sh_index ` set picked)"
  shows "reconstruct_da_payload_from_shares D sc picked = Inr payload"
proof (cases "payload = []")
  case True
  then have sc: "sc = \<lparr>sc_namespace = ns, sc_original_len = 0, sc_share_size = max ss 1,
      sc_data_share_count = 0, sc_parity_share_count = 0, sc_shares = []\<rparr>"
    using build by (simp add: build_da_sidecar_def Let_def)
  have "max ss 1 \<noteq> 0" by (metis max.cobounded2 word_le_0_iff zero_neq_one)
  then show ?thesis
    using True sc by (simp add: reconstruct_da_payload_from_shares_def verify_da_layout_def required_data_share_count_def)
next
  case False
  obtain sz d enc where "sz = max ss 1" and size: "0 < unat sz" "d = nat_div_ceil (length payload) (unat sz)" "0 < d" "d \<le> 128"
    and new: "dx_rs_new D d d" and sc: "sc = sidecar_of D payload ns sz d enc"
    and enc: "length enc = d + d" "list_all (\<lambda>x. length x = unat sz) enc"
    and data: "take d enc = map (data_shard payload (unat sz)) [0..<d]"
    and rec: "\<forall>part. list_all2 (\<lambda>x y. x = None \<or> x = Some y) part enc \<longrightarrow>
      d \<le> length (filter (\<lambda>x. x \<noteq> None) part) \<longrightarrow> dx_rs_reconstruct D d d part = Some (map Some enc)"
    by (rule build_da_sidecar_ok [OF codec build False])
  note layout = layout_of_built(1) [OF size enc(1), of D ns] layout_of_built(2) [OF size enc(1)]
  have du: "unat (of_nat d :: u32) = d" using size(4) by (simp add: unat_of_nat_small)
  have fields: "sc_namespace sc = ns" "unat (sc_data_share_count sc) = d" "unat (sc_parity_share_count sc) = d"
      "unat (sc_share_size sc) = unat sz" "unat (sc_original_len sc) = length payload"
    using du layout(2) by (simp_all add: sc sidecar_of_def)
  have "\<forall>s \<in> set picked. \<exists>i < length enc. s = share_of_shard D ns d i (enc ! i)"
    using picked share_nth [of _ enc D payload ns sz d] length_shares [of D payload ns sz d enc]
    unfolding sc by (metis in_set_conv_nth subsetD)
  moreover have "list_all2 (\<lambda>x y. x = None \<or> x = Some y) (replicate (d + d) None) enc"
    using enc(1) by (simp add: list_all2_conv_all_nth)
  ultimately obtain part where part: "place_shares D sc (replicate (d + d) None) picked = Inr part"
      "list_all2 (\<lambda>x y. x = None \<or> x = Some y) part enc"
      and fill: "{i. i < length part \<and> part ! i \<noteq> None} =
        {i. i < length (replicate (d + d) (None :: bytes option)) \<and> replicate (d + d) (None :: bytes option) ! i \<noteq> None}
        \<union> (\<lambda>s. unat (sh_index s)) ` set picked"
    using place_shares_ok [OF fields(1-4) enc size(4)] by blast
  have "{i. i < length (replicate (d + d) (None :: bytes option)) \<and> replicate (d + d) (None :: bytes option) ! i \<noteq> None} = {}"
    by auto
  then have filled: "{i. i < length part \<and> part ! i \<noteq> None} = (\<lambda>s. unat (sh_index s)) ` set picked"
    using fill by (simp only: Un_empty_left)
  have "card ((\<lambda>s. unat (sh_index s)) ` set picked) = card (sh_index ` set picked)"
    by (simp add: image_image [symmetric] card_image inj_on_def word_unat_eq_iff)
  then have count: "d \<le> length (filter (\<lambda>x. x \<noteq> None) part)"
    unfolding filled_count filled using enough fields(2) by (metis (no_types, lifting))
  have "sc_original_len sc \<noteq> 0" using fields(5) False by (metis length_0_conv unat_0)
  moreover have "verify_da_layout sc = Inr ()" using layout(1) by (simp add: sc)
  moreover have "join_shards (take d (map Some enc)) = Inr (concat (map (data_shard payload (unat sz)) [0..<d]))"
    using data by (metis join_shards_Some take_map)
  ultimately show ?thesis
    using part(1) count new rec [rule_format, OF part(2) count] fields data_shards_join [OF size(1,2)]
    by (simp add: reconstruct_da_payload_from_shares_def)
qed

text \<open>
  C36.  Any selection of shares of a built sidecar that names at least as many distinct indices
  as there are data shares gives the payload back, whatever the order and however often a
  share is repeated.
\<close>

theorem enough_shares_reconstruct_payload:
  assumes codec: "codec_limit D" "codec_sound D"
    and build: "build_da_sidecar D payload ns ss = Inr sc"
    and picked: "set picked \<subseteq> set (sc_shares sc)"
    and enough: "unat (sc_data_share_count sc) \<le> card (sh_index ` set picked)"
  shows "reconstruct_da_payload_from_shares D sc picked = Inr payload"
  by (rule shares_reconstruct [OF assms])

lemma inj_on_of_nat: "n \<le> 2 ^ LENGTH('a) \<Longrightarrow> inj_on (of_nat :: nat \<Rightarrow> 'a::len word) {0..<n}"
  by (rule inj_onI) (metis atLeastLessThan_iff order_less_le_trans unat_of_nat_small)

lemma full_sidecar_reconstructs:
  assumes codec: "codec_limit D" "codec_sound D" and build: "build_da_sidecar D payload ns ss = Inr sc"
  shows "reconstruct_da_payload D sc = Inr payload"
proof -
  have "unat (sc_data_share_count sc) \<le> card (sh_index ` set (sc_shares sc))"
  proof (cases "payload = []")
    case True
    then show ?thesis using build by (auto simp: build_da_sidecar_def Let_def)
  next
    case False
    obtain sz d enc where "sz = max ss 1" and "d \<le> 128" and sc: "sc = sidecar_of D payload ns sz d enc"
      and enc: "length enc = d + d"
      by (rule build_da_sidecar_ok [OF codec build False])
    have "map sh_index (sc_shares sc) = map of_nat [0..<d + d]"
      using share_nth [of _ enc D payload ns sz d] enc
      by (intro nth_equalityI) (simp_all add: sc length_shares)
    then have "sh_index ` set (sc_shares sc) = of_nat ` {0..<d + d}" by (metis image_set set_upt)
    moreover have "inj_on (of_nat :: nat \<Rightarrow> u32) {0..<d + d}"
      using \<open>d \<le> 128\<close> by (intro inj_on_of_nat) simp
    ultimately have "card (sh_index ` set (sc_shares sc)) = d + d" by (simp add: card_image)
    moreover have "unat (sc_data_share_count sc) = d"
      using \<open>d \<le> 128\<close> by (simp add: sc sidecar_of_def unat_of_nat_small)
    ultimately show ?thesis by simp
  qed
  then show ?thesis
    unfolding reconstruct_da_payload_def by (intro shares_reconstruct [OF codec build]) simp_all
qed

lemma build_samples_total:
  assumes "list_all (\<lambda>i. unat i < length (sc_shares sc)) idxs"
    and "\<And>i. i < length (sc_shares sc) \<Longrightarrow> sh_index (sc_shares sc ! i) = of_nat i"
  shows "\<exists>samples. build_samples D sc idxs = Inr samples"
  using assms(1) by (induction idxs) (auto simp: assms(2) Let_def)

lemma built_receipt_verifies:
  assumes "build_da_sampling_receipt D sc root seed n = Inr r" and "sc_shares sc \<noteq> []" and "m \<le> n"
  shows "verify_da_sampling_receipt D r root (sc_namespace sc) m = Inr ()"
proof -
  let ?k = "of_nat (length (sc_shares sc)) :: u32"
  let ?idxs = "deterministic_da_sample_indexes seed ?k n"
  obtain samples where samples: "build_samples D sc ?idxs = Inr samples"
    and r: "r = \<lparr>sr_namespace = sc_namespace sc, sr_da_root = root, sr_share_count = ?k, sr_seed = seed,
      sr_sample_count = n, sr_samples = samples\<rparr>"
    and root: "da_root D sc = root" and small: "length (sc_shares sc) < 2 ^ 32"
    using assms(1) by (auto simp: build_da_sampling_receipt_def Let_def split: if_splits sum.splits)
  have "unat ?k = length (sc_shares sc)" using small by (intro unat_of_nat_small) simp
  then have k: "?k \<noteq> 0" using assms(2) by (metis length_0_conv unat_0)
  have len: "length ?idxs = unat n" using k by (simp add: deterministic_da_sample_indexes_def)
  have "length samples = length ?idxs \<and> check_samples D r (zip samples ?idxs) = Inr ()"
    using samples small root
    by (intro build_samples_verify) (auto simp: r list_all_iff dest: sample_indexes_in_range)
  then show ?thesis
    using assms(3) k len by (simp add: verify_da_sampling_receipt_def r word_le_nat_alt word_less_nat_alt)
qed

text \<open>
  For every sidecar built from a payload with at least one byte, every seed and every number
  of samples, a sampling receipt is built against the root of the sidecar, and it verifies against
  that root and the namespace, for every minimum up to the number of samples.
\<close>

theorem sampling_receipt_verifies:
  assumes codec: "codec_limit D" "codec_sound D" and build: "build_da_sidecar D payload ns ss = Inr sc"
    and "payload \<noteq> []" and "m \<le> n"
  shows "\<exists>r. build_da_sampling_receipt D sc (da_root D sc) seed n = Inr r \<and>
    verify_da_sampling_receipt D r (da_root D sc) ns m = Inr ()"
proof -
  obtain sz d enc where "sz = max ss 1" and size: "0 < unat sz" "d = nat_div_ceil (length payload) (unat sz)" "0 < d" "d \<le> 128"
    and "dx_rs_new D d d" and sc: "sc = sidecar_of D payload ns sz d enc" and enc: "length enc = d + d"
    by (rule build_da_sidecar_ok [OF codec build \<open>payload \<noteq> []\<close>])
  have len: "length (sc_shares sc) = d + d" using enc by (simp add: sc length_shares)
  then have ne: "sc_shares sc \<noteq> []" using size(3) by auto
  have "sh_index (sc_shares sc ! i) = of_nat i" if "i < length (sc_shares sc)" for i
    using that len enc share_nth [of i enc D payload ns sz d] by (simp add: sc)
  moreover have "unat (of_nat (length (sc_shares sc)) :: u32) = length (sc_shares sc)"
    using len size(4) by (intro unat_of_nat_small) simp
  then have "list_all (\<lambda>i. unat i < length (sc_shares sc))
      (deterministic_da_sample_indexes seed (of_nat (length (sc_shares sc))) n)"
    using sample_indexes_in_range [of _ seed "of_nat (length (sc_shares sc))" n]
    by (simp add: list_all_iff word_less_nat_alt)
  ultimately obtain samples where "build_samples D sc
      (deterministic_da_sample_indexes seed (of_nat (length (sc_shares sc))) n) = Inr samples"
    using build_samples_total by blast
  then obtain r where r: "build_da_sampling_receipt D sc (da_root D sc) seed n = Inr r"
    using len size(4) by (simp add: build_da_sampling_receipt_def)
  moreover have "sc_namespace sc = ns" by (simp add: sc sidecar_of_def)
  ultimately show ?thesis using built_receipt_verifies [OF r ne \<open>m \<le> n\<close>] by blast
qed

lemma check_shares_built:
  assumes "hd_zone_namespace header = ns" "sc_namespace sc = ns" "unat (sc_data_share_count sc) = d"
    and "list_all (\<lambda>x. length x = unat (sc_share_size sc)) xs"
  shows "check_shares D header sc k (map (\<lambda>(i, data). share_of_shard D ns d i data) (List.enumerate k xs)) = Inr ()"
  using assms(4) by (induction xs arbitrary: k) (simp_all add: assms(1-3))

lemma built_sidecar_verifies:
  assumes codec: "codec_limit D" "codec_sound D" and build: "build_da_sidecar D payload ns ss = Inr sc"
    and header: "hd_zone_namespace header = ns" "hd_da_bytes header = sc_original_len sc"
      "hd_da_share_count header = of_nat (length (sc_shares sc))"
      "hd_da_gas_used header = da_gas_for_sidecar sc"
      "hd_da_fee_paid header = da_fee_for_gas (hd_da_gas_used header)" "hd_da_root header = da_root D sc"
  shows "verify_da_sidecar D header sc = Inr ()"
proof (cases "payload = []")
  case True
  then have sc: "sc = \<lparr>sc_namespace = ns, sc_original_len = 0, sc_share_size = max ss 1,
      sc_data_share_count = 0, sc_parity_share_count = 0, sc_shares = []\<rparr>"
    using build by (simp add: build_da_sidecar_def Let_def)
  have "max ss 1 \<noteq> 0" by (metis max.cobounded2 word_le_0_iff zero_neq_one)
  then have "verify_da_layout sc = Inr ()" by (simp add: sc verify_da_layout_def required_data_share_count_def)
  then show ?thesis using header by (simp add: verify_da_sidecar_def sc)
next
  case False
  obtain sz d enc where "sz = max ss 1" and size: "0 < unat sz" "d = nat_div_ceil (length payload) (unat sz)" "0 < d" "d \<le> 128"
    and "dx_rs_new D d d" and sc: "sc = sidecar_of D payload ns sz d enc"
    and enc: "length enc = d + d" "list_all (\<lambda>x. length x = unat sz) enc"
    and "take d enc = map (data_shard payload (unat sz)) [0..<d]"
    and "\<forall>part. list_all2 (\<lambda>x y. x = None \<or> x = Some y) part enc \<longrightarrow>
      d \<le> length (filter (\<lambda>x. x \<noteq> None) part) \<longrightarrow> dx_rs_reconstruct D d d part = Some (map Some enc)"
    by (rule build_da_sidecar_ok [OF codec build False])
  have du: "unat (of_nat d :: u32) = d" using size(4) by (intro unat_of_nat_small) simp
  have dd: "unat (of_nat (d + d) :: u32) = d + d" using size(4) by (intro unat_of_nat_small) simp
  have "check_shares D header sc 0 (sc_shares sc) = Inr ()"
    using header(1) du enc(2) check_shares_built [of header ns sc d enc D 0] by (simp add: sc sidecar_of_def)
  moreover have "length (sc_shares sc) = d + d" using enc(1) by (simp add: sc length_shares)
  moreover have "sc_namespace sc = ns" by (simp add: sc sidecar_of_def)
  ultimately show ?thesis
    using header dd layout_of_built(1) [OF size enc(1), of D ns]
    by (simp add: verify_da_sidecar_def flip: sc)
qed

text \<open>
  A sidecar built for a payload passes the check of every header that commits to its
  namespace, length, number of shares, gas, fee and root.
\<close>

theorem built_sidecar_passes_header_check:
  assumes codec: "codec_limit D" "codec_sound D" and build: "build_da_sidecar D payload ns ss = Inr sc"
    and header: "hd_zone_namespace header = ns" "hd_da_bytes header = sc_original_len sc"
      "hd_da_share_count header = of_nat (length (sc_shares sc))"
      "hd_da_gas_used header = da_gas_for_sidecar sc"
      "hd_da_fee_paid header = da_fee_for_gas (hd_da_gas_used header)" "hd_da_root header = da_root D sc"
  shows "verify_da_sidecar D header sc = Inr ()"
  by (rule built_sidecar_verifies [OF assms])

text \<open>The documented domain of the codec, on which encoding always succeeds.\<close>

definition codec_exact :: "da_ext \<Rightarrow> bool" where
  "codec_exact D \<longleftrightarrow> (\<forall>k p. dx_rs_new D k p \<longleftrightarrow> 0 < k \<and> 0 < p \<and> k + p \<le> 256) \<and>
     (\<forall>k p n shards. dx_rs_new D k p \<longrightarrow> length shards = k + p \<longrightarrow> list_all (\<lambda>x. length x = n) shards \<longrightarrow>
        dx_rs_encode D k p shards \<noteq> None)"

lemma ceil_512: "nat_div_ceil n 512 \<le> 128 \<longleftrightarrow> n \<le> 65536"
proof -
  define q r where "q = n div 512" and "r = n mod 512"
  have "n = 512 * q + r" "r < 512" by (simp_all add: q_def r_def)
  then show ?thesis by (auto simp: nat_div_ceil_def simp flip: q_def r_def)
qed

text \<open>
  The codec works in a field of 256 elements, and the parity doubles the shares: with the
  default share size of 512 bytes a sidecar is built exactly for payloads of at most 65,536
  bytes, and every longer one is refused.
\<close>

theorem default_sidecar_limit_64k:
  assumes codec: "codec_exact D"
  shows "is_ok (build_da_sidecar D payload ns DEFAULT_DA_SHARE_SIZE) \<longleftrightarrow> length payload \<le> 65536"
proof (cases "payload = []")
  case False
  define d where "d = nat_div_ceil (length payload) 512"
  define p where "p = unat (default_parity_share_count (of_nat d))"
  define shards where "shards = map (data_shard payload 512) [0..<d] @ replicate p (replicate 512 0)"
  have pos: "0 < d" using False by (simp add: d_def nat_div_ceil_pos)
  have "list_all (\<lambda>x. length x = 512) shards" by (auto simp: shards_def list_all_iff length_data_shard)
  then have enc: "dx_rs_encode D d p shards \<noteq> None" if "dx_rs_new D d p"
  proof -
    have "length shards = d + p" by (simp add: shards_def)
    with codec that \<open>list_all (\<lambda>x. length x = 512) shards\<close> show ?thesis unfolding codec_exact_def by blast
  qed
  have parity: "p = d" if "d < 2 ^ 32"
  proof -
    have "unat (of_nat d :: u32) = d" using that by (intro unat_of_nat_small) simp
    moreover from this have "(of_nat d :: u32) \<noteq> 0" using pos by (metis less_irrefl unat_0)
    ultimately show ?thesis by (simp add: p_def default_parity_eq)
  qed
  have "dx_rs_new D d p \<longleftrightarrow> 0 < p \<and> d + p \<le> 256" using codec pos by (simp add: codec_exact_def)
  also have "\<dots> \<longleftrightarrow> d \<le> 128"
  proof (cases "d < 2 ^ 32")
    case True
    then show ?thesis using parity pos by auto
  qed auto
  also have "\<dots> \<longleftrightarrow> length payload \<le> 65536" unfolding d_def by (rule ceil_512)
  finally have new: "dx_rs_new D d p \<longleftrightarrow> length payload \<le> 65536" .
  have "unat (max DEFAULT_DA_SHARE_SIZE 1) = 512" by (simp add: DEFAULT_DA_SHARE_SIZE_def max_def word_le_nat_alt)
  then have "is_ok (build_da_sidecar D payload ns DEFAULT_DA_SHARE_SIZE) \<longleftrightarrow> dx_rs_new D d p"
    using False enc by (auto simp: build_da_sidecar_def Let_def is_ok_def simp flip: d_def p_def shards_def
        split: option.splits)
  then show ?thesis using new by simp
qed (simp add: build_da_sidecar_def is_ok_def)

text \<open>
  A receipt names its own number of shares and nothing compares that number with the
  header: for every root and namespace, a receipt that claims a single share, offers the root
  itself as its commitment and an empty path passes the check, without a byte of the data.
\<close>

theorem single_share_receipt_passes:
  "verify_da_sampling_receipt D
     \<lparr>sr_namespace = ns, sr_da_root = root, sr_share_count = 1, sr_seed = seed, sr_sample_count = n,
      sr_samples = replicate (unat n) \<lparr>sp_index = 0, sp_is_parity = False, sp_commitment = root, sp_merkle_path = []\<rparr>\<rparr>
     root ns n = Inr ()"
proof -
  let ?s = "\<lparr>sp_index = 0, sp_is_parity = False, sp_commitment = root, sp_merkle_path = []\<rparr>"
  let ?r = "\<lparr>sr_namespace = ns, sr_da_root = root, sr_share_count = 1, sr_seed = seed, sr_sample_count = n,
      sr_samples = replicate (unat n) ?s\<rparr>"
  have one: "verify_merkle_path kc root 0 1 [] root" for kc
    by (simp add: verify_merkle_path_def merkle_path_len_for_leaf_count.simps)
  have "check_samples D ?r (zip (replicate k ?s) (map (\<lambda>r. ucast (r :: u64) mod 1) rs)) = Inr ()" for k rs
  proof (induction k arbitrary: rs)
    case (Suc k)
    then show ?case by (cases rs) (simp_all add: one)
  qed simp
  then show ?thesis
    by (simp add: verify_da_sampling_receipt_def deterministic_da_sample_indexes_def)
qed

section \<open>Concrete instances\<close>

text \<open>A codec for one data share and one parity share: the parity is a copy.\<close>

definition sample_da :: da_ext where
  "sample_da = \<lparr>
     dx_keccak256 = (\<lambda>bs. ucast (word_sum bs) + 1),
     dx_borsh_share = (\<lambda>ns i par data. Some (be_bytes 8 ns @ be_bytes 4 i @ [if par then 1 else 0] @ data)),
     dx_borsh_zone_commitment = (\<lambda>c. Some (be_bytes 32 (zc_da_root c))),
     dx_borsh_extra_v1 = (\<lambda>a b. Some (be_bytes 32 a @ be_bytes 32 b)),
     dx_borsh_extra_v2 = (\<lambda>a b c. Some (be_bytes 32 a @ be_bytes 32 b @ be_bytes 32 c)),
     dx_rs_new = (\<lambda>k p. k = 1 \<and> p = 1),
     dx_rs_encode = (\<lambda>k p shards. Some (replicate 2 (shards ! 0))),
     dx_rs_reconstruct = (\<lambda>k p part. Some (replicate 2 (if part ! 0 \<noteq> None then part ! 0 else part ! 1)))\<rparr>"

lemma sample_codec: "codec_limit sample_da" "codec_sound sample_da"
proof -
  show "codec_limit sample_da" by (simp add: codec_limit_def sample_da_def)
  have rec: "dx_rs_reconstruct sample_da 1 1 part = Some [Some x, Some x]"
    if "list_all2 (\<lambda>a b. a = None \<or> a = Some b) part [x, x]" "1 \<le> length (filter (\<lambda>a. a \<noteq> None) part)" for part x
    using that by (auto simp: sample_da_def list_all2_Cons2 numeral_2_eq_2 split: if_splits)
  show "codec_sound sample_da"
    unfolding codec_sound_def
  proof (intro allI impI)
    fix k p n shards enc
    assume *: "dx_rs_new sample_da k p" "length shards = k + p" "list_all (\<lambda>x. length x = n) shards"
      "dx_rs_encode sample_da k p shards = Some enc"
    then have kp: "k = 1" "p = 1" by (simp_all add: sample_da_def)
    obtain x y where xy: "shards = [x, y]" using *(2) kp by (auto simp: length_Suc_conv numeral_2_eq_2)
    have enc: "enc = [x, x]" using *(4) xy by (simp add: sample_da_def numeral_2_eq_2)
    show "length enc = k + p \<and> list_all (\<lambda>x. length x = n) enc \<and> take k enc = take k shards \<and>
     (\<forall>part. list_all2 (\<lambda>x y. x = None \<or> x = Some y) part enc \<longrightarrow>
        k \<le> length (filter (\<lambda>x. x \<noteq> None) part) \<longrightarrow> dx_rs_reconstruct sample_da k p part = Some (map Some enc))"
      using *(3) kp xy enc rec by simp
  qed
qed

definition sample_payload :: bytes where
  "sample_payload = [1, 2, 3, 4, 5]"

definition sample_sidecar :: da_sidecar where
  "sample_sidecar = (case build_da_sidecar sample_da sample_payload 7 8 of Inr sc \<Rightarrow> sc
     | Inl _ \<Rightarrow> \<lparr>sc_namespace = 0, sc_original_len = 0, sc_share_size = 0, sc_data_share_count = 0,
         sc_parity_share_count = 0, sc_shares = []\<rparr>)"

lemma sample_built: "build_da_sidecar sample_da sample_payload 7 8 = Inr sample_sidecar"
  by code_simp

theorem enough_shares_reconstruct_payload_witness:
  "reconstruct_da_payload_from_shares sample_da sample_sidecar [sc_shares sample_sidecar ! 1] = Inr sample_payload"
proof (rule enough_shares_reconstruct_payload [OF sample_codec sample_built])
  show "set [sc_shares sample_sidecar ! 1] \<subseteq> set (sc_shares sample_sidecar)"
  proof -
    have "1 < length (sc_shares sample_sidecar)" by code_simp
    then show ?thesis by simp
  qed
  have "unat (sc_data_share_count sample_sidecar) = 1" by code_simp
  then show "unat (sc_data_share_count sample_sidecar) \<le> card (sh_index ` set [sc_shares sample_sidecar ! 1])" by simp
qed

theorem sampling_receipt_verifies_witness:
  "\<exists>r. build_da_sampling_receipt sample_da sample_sidecar (da_root sample_da sample_sidecar) 9 3 = Inr r \<and>
     verify_da_sampling_receipt sample_da r (da_root sample_da sample_sidecar) 7 2 = Inr ()"
  by (rule sampling_receipt_verifies [OF sample_codec sample_built]) (simp_all add: sample_payload_def word_le_nat_alt)

definition sample_header :: "da_sidecar \<Rightarrow> block_header" where
  "sample_header sc = \<lparr>hd_version = 1, hd_chain_id = 1, hd_height = 1, hd_view = 1, hd_parent_hash = 0,
     hd_parent_qc_hash = 0, hd_proposer = 0, hd_timestamp_ms = 0, hd_parent_state_root = 0, hd_state_root = 0,
     hd_tx_root = 0, hd_receipt_root = 0, hd_native_event_root = 0, hd_evm_log_root = 0,
     hd_zone_namespace = sc_namespace sc, hd_da_root = da_root sample_da sc, hd_da_bytes = sc_original_len sc,
     hd_da_share_count = of_nat (length (sc_shares sc)), hd_da_gas_used = da_gas_for_sidecar sc,
     hd_da_fee_paid = da_fee_for_gas (da_gas_for_sidecar sc), hd_gas_used = 0, hd_gas_limit = 0,
     hd_feature_set = features_empty, hd_extra = 0\<rparr>"

theorem built_sidecar_passes_header_check_witness:
  "verify_da_sidecar sample_da (sample_header sample_sidecar) sample_sidecar = Inr ()"
proof -
  have "sc_namespace sample_sidecar = 7" by code_simp
  then show ?thesis
    by (intro built_sidecar_passes_header_check [OF sample_codec sample_built]) (simp_all add: sample_header_def)
qed

definition sample_exact :: da_ext where
  "sample_exact = sample_da\<lparr>dx_rs_new := (\<lambda>k p. 0 < k \<and> 0 < p \<and> k + p \<le> 256),
     dx_rs_encode := (\<lambda>k p shards. Some shards)\<rparr>"

theorem default_sidecar_limit_64k_witness:
  "\<not> is_ok (build_da_sidecar sample_exact (replicate 65537 0) 7 DEFAULT_DA_SHARE_SIZE)"
proof -
  have "codec_exact sample_exact" by (simp add: codec_exact_def sample_exact_def)
  from default_sidecar_limit_64k [OF this] show ?thesis by simp
qed

end
