(* ===== verification/Block_Build.thy ===== *)
theory Block_Build
  imports Ledger_Ops DA_Correctness
begin

text \<open>
  Building a block, \<open>crates/consensus/src/lib.rs\<close>: the roots over transactions, receipts and
  EVM logs, the receipts themselves, and \<open>execute_and_build_zone_block\<close>, which executes a list
  of transactions on the ledger, mints the emission of the block, commits the payload to data
  availability and assembles the header.  The Borsh encoders of the consensus types, the EVM
  and the codec are the record \<open>block_ext\<close>; an encoder returns an option because the code
  hands its input-output error on.
\<close>

section \<open>Results\<close>

definition ok_or :: "'e \<Rightarrow> 'a option \<Rightarrow> 'e + 'a" where
  "ok_or e v = (case v of None \<Rightarrow> Inl e | Some x \<Rightarrow> Inr x)"

definition attempt :: "'e + 'a \<Rightarrow> ('a \<Rightarrow> 'e + 'b) \<Rightarrow> 'e + 'b" where
  "attempt r f = (case r of Inl e \<Rightarrow> Inl e | Inr a \<Rightarrow> f a)"

lemma ok_or_Inr [simp]: "ok_or e v = Inr x \<longleftrightarrow> v = Some x"
  by (simp add: ok_or_def split: option.splits)

lemma attempt_Inr: "attempt r f = Inr y \<longleftrightarrow> (\<exists>x. r = Inr x \<and> f x = Inr y)"
  by (simp add: attempt_def split: sum.splits)

lemma case_sum_Inr:
  "(case r of Inl e \<Rightarrow> Inl (f e) | Inr x \<Rightarrow> g x) = Inr y \<longleftrightarrow> (\<exists>x. r = Inr x \<and> g x = Inr y)"
  by (simp split: sum.splits)

lemma attempt_simps [simp]: "attempt (Inl e) f = Inl e" "attempt (Inr x) f = f x"
  by (simp_all add: attempt_def)

lemma ok_or_simps [simp]: "ok_or e None = Inl e" "ok_or e (Some x) = Inr x"
  by (simp_all add: ok_or_def)

lemma those_eq_Some: "those xs = Some ys \<longleftrightarrow> xs = map Some ys"
proof (induction xs arbitrary: ys)
  case Nil
  show ?case by auto
next
  case (Cons x xs)
  show ?case by (cases x; cases ys) (auto simp: Cons.IH split: option.splits)
qed

lemma those_map_nth:
  assumes "those (map f xs) = Some ys"
  shows "length ys = length xs" and "\<And>i. i < length xs \<Longrightarrow> f (xs ! i) = Some (ys ! i)"
proof -
  have *: "map f xs = map Some ys" using assms by (simp add: those_eq_Some)
  then show len: "length ys = length xs" by (metis length_map)
  show "f (xs ! i) = Some (ys ! i)" if "i < length xs" for i using that len * by (metis nth_map)
qed

section \<open>Types\<close>

record mixed_execution_tx_receipt =
  mr_tx_hash :: hash256
  mr_success :: bool
  mr_gas_used :: u64
  mr_evm_log_root :: hash256

record block_ext =
  bx_ledger :: ext
  bx_da :: da_ext
  bx_evm :: evm_engine
  bx_borsh_state :: "state \<Rightarrow> bytes option"
  bx_borsh_header :: "block_header \<Rightarrow> bytes option"
  bx_borsh_tx_list :: "transaction list \<Rightarrow> bytes option"
  bx_borsh_tx_receipt :: "mixed_execution_tx_receipt \<Rightarrow> bytes option"
  bx_borsh_evm_log :: "evm_log \<Rightarrow> bytes option"

abbreviation keccak256 :: "block_ext \<Rightarrow> bytes \<Rightarrow> hash256" where
  "keccak256 B \<equiv> ext_keccak256 (bx_ledger B)"

datatype build_block_error =
    BuildIo
  | BuildExec exec_error
  | EthRawLenMismatch nat nat
  | BuildDataAvailability
  | BuildDa da_verify_error

section \<open>Hashes and roots\<close>

definition tx_hash :: "block_ext \<Rightarrow> transaction \<Rightarrow> hash256 option" where
  "tx_hash B tx = map_option (keccak256 B) (ext_borsh_transaction (bx_ledger B) tx)"

definition state_root :: "block_ext \<Rightarrow> state \<Rightarrow> hash256 option" where
  "state_root B s = map_option (keccak256 B) (bx_borsh_state B s)"

definition header_hash :: "block_ext \<Rightarrow> block_header \<Rightarrow> hash256 option" where
  "header_hash B header = map_option (keccak256 B) (bx_borsh_header B header)"

definition evm_log_root :: "block_ext \<Rightarrow> evm_log list \<Rightarrow> hash256 option" where
  "evm_log_root B logs =
     map_option (merkle_root_from_hashes (keccak256 B))
       (those (map (\<lambda>log. map_option (keccak256 B) (bx_borsh_evm_log B log)) logs))"

definition ordered_tx_root :: "block_ext \<Rightarrow> transaction list \<Rightarrow> hash256 option" where
  "ordered_tx_root B txs =
     (if txs = [] then Some 0
      else map_option (merkle_root_from_hashes (keccak256 B)) (those (map (tx_hash B) txs)))"

definition tx_receipt_root :: "block_ext \<Rightarrow> mixed_execution_tx_receipt list \<Rightarrow> hash256 option" where
  "tx_receipt_root B rcpts =
     map_option (merkle_root_from_hashes (keccak256 B))
       (those (map (\<lambda>r. map_option (keccak256 B) (bx_borsh_tx_receipt B r)) rcpts))"

text \<open>The hashes of the logs of one transaction, in order.\<close>

definition tx_log_hashes :: "block_ext \<Rightarrow> state \<Rightarrow> transaction \<Rightarrow> hash256 list option" where
  "tx_log_hashes B s tx =
     (case tx_hash B tx of
        None \<Rightarrow> None
      | Some h \<Rightarrow>
          (case evm_tx_logs s h of
             None \<Rightarrow> Some []
           | Some logs \<Rightarrow> those (map (\<lambda>log. map_option (keccak256 B) (bx_borsh_evm_log B log)) logs)))"

definition block_evm_log_root :: "block_ext \<Rightarrow> state \<Rightarrow> transaction list \<Rightarrow> hash256 option" where
  "block_evm_log_root B s txs =
     map_option (\<lambda>hs. merkle_root_from_hashes (keccak256 B) (concat hs)) (those (map (tx_log_hashes B s) txs))"

definition mixed_execution_tx_receipt_of :: "block_ext \<Rightarrow> state \<Rightarrow> transaction \<Rightarrow> mixed_execution_tx_receipt option" where
  "mixed_execution_tx_receipt_of B s tx =
     (case tx_hash B tx of
        None \<Rightarrow> None
      | Some h \<Rightarrow>
          let logs = unwrap_or (evm_tx_logs s h) []
          in case gas_used_after_apply (bx_ledger B) s tx of
               Inl _ \<Rightarrow> None
             | Inr gas_used \<Rightarrow>
                 map_option (\<lambda>root. \<lparr>mr_tx_hash = h, mr_success = unwrap_or (evm_tx_success s h) True,
                     mr_gas_used = gas_used, mr_evm_log_root = root\<rparr>)
                   (evm_log_root B logs))"

definition mixed_execution_tx_receipts ::
    "block_ext \<Rightarrow> state \<Rightarrow> transaction list \<Rightarrow> mixed_execution_tx_receipt list option" where
  "mixed_execution_tx_receipts B s txs = those (map (mixed_execution_tx_receipt_of B s) txs)"

section \<open>Building a block\<close>

definition MASTERCHAIN_ZONE_NAMESPACE :: da_namespace where
  "MASTERCHAIN_ZONE_NAMESPACE = 0x6672616362617365"

definition eth_signed_raws_for_txs :: "nat \<Rightarrow> bytes option list" where
  "eth_signed_raws_for_txs n = replicate n None"

fun budget_loop :: "ext \<Rightarrow> u64 \<Rightarrow> transaction list \<Rightarrow> exec_error + u64" where
  "budget_loop E acc [] = Inr acc"
| "budget_loop E acc (tx # txs) =
     (case tx_gas_limit E tx of
        Inl e \<Rightarrow> Inl e
      | Inr g \<Rightarrow>
          (case checked_add acc g of
             None \<Rightarrow> Inl GasOverflow
           | Some acc' \<Rightarrow> budget_loop E acc' txs))"

text \<open>
  What the code does after the transactions and the mint have changed the state: the roots, the
  sidecar and the header.
\<close>

definition assemble_block ::
    "block_ext \<Rightarrow> u64 \<Rightarrow> u64 \<Rightarrow> u64 \<Rightarrow> hash256 \<Rightarrow> hash256 \<Rightarrow> hash256 \<Rightarrow> u64 \<Rightarrow> u64 \<Rightarrow> da_namespace \<Rightarrow>
     hash256 \<Rightarrow> state \<Rightarrow> u64 \<Rightarrow> transaction list \<Rightarrow> bytes option list \<Rightarrow> build_block_error + block" where
  "assemble_block B chain_id height view parent_hash parent_qc_hash proposer timestamp_ms gas_limit
      zone_namespace parent_state_root s gas_used txs eth_signed_raw =
     attempt (ok_or BuildIo (state_root B s)) (\<lambda>sr.
     attempt (ok_or BuildIo (ordered_tx_root B txs)) (\<lambda>tx_root.
     attempt (ok_or BuildIo (mixed_execution_tx_receipts B s txs)) (\<lambda>tx_receipts.
     attempt (ok_or BuildIo (tx_receipt_root B tx_receipts)) (\<lambda>receipt_root.
     attempt (ok_or BuildIo (block_evm_log_root B s txs)) (\<lambda>log_root.
     attempt (ok_or BuildIo (bx_borsh_tx_list B txs)) (\<lambda>da_payload.
     (case build_da_sidecar (bx_da B) da_payload zone_namespace DEFAULT_DA_SHARE_SIZE of
        Inl e \<Rightarrow> Inl (BuildDa e)
      | Inr sidecar \<Rightarrow>
          let da_gas_used = da_gas_for_sidecar sidecar
          in Inr \<lparr>bk_header =
               \<lparr>hd_version = 1, hd_chain_id = chain_id, hd_height = height, hd_view = view,
                hd_parent_hash = parent_hash, hd_parent_qc_hash = parent_qc_hash, hd_proposer = proposer,
                hd_timestamp_ms = timestamp_ms, hd_parent_state_root = parent_state_root,
                hd_state_root = sr, hd_tx_root = tx_root, hd_receipt_root = receipt_root,
                hd_native_event_root = 0, hd_evm_log_root = log_root, hd_zone_namespace = zone_namespace,
                hd_da_root = da_root (bx_da B) sidecar, hd_da_bytes = sc_original_len sidecar,
                hd_da_share_count = of_nat (length (sc_shares sidecar)), hd_da_gas_used = da_gas_used,
                hd_da_fee_paid = da_fee_for_gas da_gas_used, hd_gas_used = gas_used,
                hd_gas_limit = gas_limit, hd_feature_set = block_feature_set txs, hd_extra = 0\<rparr>,
              bk_transactions = txs, bk_eth_signed_raw = eth_signed_raw, bk_da_sidecar = sidecar\<rparr>)))))))"

definition execute_and_build_zone_block ::
    "block_ext \<Rightarrow> u64 \<Rightarrow> u64 \<Rightarrow> u64 \<Rightarrow> hash256 \<Rightarrow> hash256 \<Rightarrow> hash256 \<Rightarrow> u64 \<Rightarrow> u64 \<Rightarrow> state \<Rightarrow>
     transaction list \<Rightarrow> bytes option list \<Rightarrow> da_namespace \<Rightarrow> (state, build_block_error, block) exec" where
  "execute_and_build_zone_block B chain_id height view parent_hash parent_qc_hash proposer timestamp_ms
      gas_limit s txs eth_signed_raw zone_namespace =
     (if length eth_signed_raw \<noteq> length txs
      then (s, Inl (EthRawLenMismatch (length txs) (length eth_signed_raw)))
      else case budget_loop (bx_ledger B) 0 txs of
        Inl e \<Rightarrow> (s, Inl (BuildExec e))
      | Inr budget_sum \<Rightarrow>
          if gas_limit < budget_sum then (s, Inl (BuildExec GasLimitExceeded))
          else case state_root B s of
            None \<Rightarrow> (s, Inl BuildIo)
          | Some parent_state_root \<Rightarrow>
              (case apply_block_with_evm (bx_ledger B) (bx_evm B) s txs of
                 (s1, Inl e) \<Rightarrow> (s1, Inl (BuildExec e))
               | (s1, Inr gas_used) \<Rightarrow>
                   (case mint_protocol_emission_for_block s1 (sat_sub height 1) of
                      (s2, Inl e) \<Rightarrow> (s2, Inl (BuildExec e))
                    | (s2, Inr _) \<Rightarrow>
                        (s2, assemble_block B chain_id height view parent_hash parent_qc_hash proposer
                               timestamp_ms gas_limit zone_namespace parent_state_root s2 gas_used txs
                               eth_signed_raw))))"

definition execute_and_build_block ::
    "block_ext \<Rightarrow> u64 \<Rightarrow> u64 \<Rightarrow> u64 \<Rightarrow> hash256 \<Rightarrow> hash256 \<Rightarrow> hash256 \<Rightarrow> u64 \<Rightarrow> u64 \<Rightarrow> state \<Rightarrow>
     transaction list \<Rightarrow> bytes option list \<Rightarrow> (state, build_block_error, block) exec" where
  "execute_and_build_block B chain_id height view parent_hash parent_qc_hash proposer timestamp_ms
      gas_limit s txs eth_signed_raw =
     execute_and_build_zone_block B chain_id height view parent_hash parent_qc_hash proposer timestamp_ms
       gas_limit s txs eth_signed_raw MASTERCHAIN_ZONE_NAMESPACE"

section \<open>Lemmas\<close>

lemma assemble_blockE:
  assumes "assemble_block B chain_id height view parent_hash parent_qc_hash proposer timestamp_ms gas_limit
      ns psr s gas_used txs raws = Inr block"
  obtains sr tx_root rcpts receipt_root log_root payload sidecar where
    "state_root B s = Some sr" "ordered_tx_root B txs = Some tx_root"
    "mixed_execution_tx_receipts B s txs = Some rcpts" "tx_receipt_root B rcpts = Some receipt_root"
    "block_evm_log_root B s txs = Some log_root" "bx_borsh_tx_list B txs = Some payload"
    "build_da_sidecar (bx_da B) payload ns DEFAULT_DA_SHARE_SIZE = Inr sidecar"
    "block = \<lparr>bk_header =
       \<lparr>hd_version = 1, hd_chain_id = chain_id, hd_height = height, hd_view = view,
        hd_parent_hash = parent_hash, hd_parent_qc_hash = parent_qc_hash, hd_proposer = proposer,
        hd_timestamp_ms = timestamp_ms, hd_parent_state_root = psr,
        hd_state_root = sr, hd_tx_root = tx_root, hd_receipt_root = receipt_root,
        hd_native_event_root = 0, hd_evm_log_root = log_root, hd_zone_namespace = ns,
        hd_da_root = da_root (bx_da B) sidecar, hd_da_bytes = sc_original_len sidecar,
        hd_da_share_count = of_nat (length (sc_shares sidecar)), hd_da_gas_used = da_gas_for_sidecar sidecar,
        hd_da_fee_paid = da_fee_for_gas (da_gas_for_sidecar sidecar), hd_gas_used = gas_used,
        hd_gas_limit = gas_limit, hd_feature_set = block_feature_set txs, hd_extra = 0\<rparr>,
      bk_transactions = txs, bk_eth_signed_raw = raws, bk_da_sidecar = sidecar\<rparr>"
  using assms by (auto simp: assemble_block_def attempt_Inr Let_def case_sum_Inr)

lemma build_blockE:
  assumes "execute_and_build_zone_block B chain_id height view parent_hash parent_qc_hash proposer timestamp_ms
      gas_limit s txs raws ns = (s2, Inr block)"
  obtains budget psr s1 gas_used minted where
    "length raws = length txs" "budget_loop (bx_ledger B) 0 txs = Inr budget" "budget \<le> gas_limit"
    "state_root B s = Some psr" "apply_block_with_evm (bx_ledger B) (bx_evm B) s txs = (s1, Inr gas_used)"
    "mint_protocol_emission_for_block s1 (sat_sub height 1) = (s2, Inr minted)"
    "assemble_block B chain_id height view parent_hash parent_qc_hash proposer timestamp_ms gas_limit ns psr s2
       gas_used txs raws = Inr block"
  using assms
  by (auto simp: execute_and_build_zone_block_def not_less split: if_splits sum.splits option.splits prod.splits)

end
