(* ===== verification/State_Commitment.thy ===== *)
theory State_Commitment
  imports Block_Build BTree_Map "HOL-Library.List_Lexorder" "HOL-Library.Multiset"
begin

text \<open>
  The state commitment of the execution witness, \<open>crates/consensus/src/lib.rs\<close>: the leaves of
  the ledger state by namespace, sorted, their roots, and the access rows that compare the
  leaves before and after a block and carry a Merkle path for each.  The iteration over a
  \<open>BTreeMap\<close> is \<open>map_entries\<close>, in ascending order of the keys.  The Borsh encoder of every
  type that is hashed is a field of \<open>commit_ext\<close>.
\<close>

section \<open>Types\<close>

datatype commitment_scheme = FractalSnarkSmtV1

datatype state_commitment_namespace = NsAccounts | NsNative | NsEvm

fun namespace_rank :: "state_commitment_namespace \<Rightarrow> nat" where
  "namespace_rank NsAccounts = 0"
| "namespace_rank NsNative = 1"
| "namespace_rank NsEvm = 2"

lemma namespace_rank_inject: "namespace_rank a = namespace_rank b \<longleftrightarrow> a = b"
  by (cases a; cases b) simp_all

instantiation state_commitment_namespace :: linorder
begin

definition less_eq_state_commitment_namespace :: "state_commitment_namespace \<Rightarrow> state_commitment_namespace \<Rightarrow> bool" where
  "a \<le> b \<longleftrightarrow> namespace_rank a \<le> namespace_rank b"

definition less_state_commitment_namespace :: "state_commitment_namespace \<Rightarrow> state_commitment_namespace \<Rightarrow> bool" where
  "a < b \<longleftrightarrow> namespace_rank a < namespace_rank b"

instance
  by standard (auto simp: less_eq_state_commitment_namespace_def less_state_commitment_namespace_def
      namespace_rank_inject [symmetric])

end

datatype state_access_kind = AccessRead | AccessWrite | AccessReadWrite

record state_commitment =
  sm_scheme :: commitment_scheme
  sm_native_root :: hash256
  sm_evm_root :: hash256
  sm_unified_root :: hash256

record state_commitment_leaf =
  lf_namespace :: state_commitment_namespace
  lf_key :: bytes
  lf_value_hash :: hash256

record state_merkle_access_witness =
  aw_kind :: state_access_kind
  aw_namespace :: state_commitment_namespace
  aw_key :: bytes
  aw_pre_value_hash :: "hash256 option"
  aw_post_value_hash :: "hash256 option"
  aw_pre_state_path :: "hash256 list"
  aw_post_state_path :: "hash256 list"

record commit_ext =
  ke_keccak256 :: "bytes \<Rightarrow> hash256"
  ke_unit :: "bytes option"
  ke_bool :: "bool \<Rightarrow> bytes option"
  ke_u64 :: "u64 \<Rightarrow> bytes option"
  ke_u128 :: "u128 \<Rightarrow> bytes option"
  ke_address :: "address \<Rightarrow> bytes option"
  ke_hash :: "hash256 \<Rightarrow> bytes option"
  ke_bytes :: "bytes \<Rightarrow> bytes option"
  ke_claim :: "hash256 \<times> u32 \<Rightarrow> bytes option"
  ke_delegation :: "address \<times> address \<Rightarrow> bytes option"
  ke_slot :: "address \<times> hash256 \<Rightarrow> bytes option"
  ke_object :: "owned_object_id \<Rightarrow> bytes option"
  ke_account :: "account \<Rightarrow> bytes option"
  ke_agent :: "agent_record \<Rightarrow> bytes option"
  ke_receipt :: "on_chain_task_receipt \<Rightarrow> bytes option"
  ke_batch :: "stored_batch \<Rightarrow> bytes option"
  ke_dispute :: "dispute_record \<Rightarrow> bytes option"
  ke_economics :: "chain_economics_params \<Rightarrow> bytes option"
  ke_leaf :: "state_commitment_leaf \<Rightarrow> bytes option"

section \<open>Leaves\<close>

definition map_entries :: "('k::linorder \<rightharpoonup> 'v) \<Rightarrow> ('k \<times> 'v) list" where
  "map_entries m = map (\<lambda>k. (k, the (m k))) (sorted_list_of_set (dom m))"

definition state_leaf_hash :: "commit_ext \<Rightarrow> state_commitment_leaf \<Rightarrow> hash256 option" where
  "state_leaf_hash K leaf = map_option (ke_keccak256 K) (ke_leaf K leaf)"

definition state_commitment_root :: "commit_ext \<Rightarrow> state_commitment_leaf list \<Rightarrow> hash256 option" where
  "state_commitment_root K leaves =
     map_option (merkle_root_from_hashes (ke_keccak256 K)) (those (map (state_leaf_hash K) leaves))"

definition state_key :: "string \<Rightarrow> bytes option \<Rightarrow> bytes option" where
  "state_key tag key = map_option (\<lambda>k. ascii tag @ [0] @ k) key"

text \<open>\<open>push_leaf\<close>, on the encodings of the key and of the value.\<close>

definition push_leaf ::
    "commit_ext \<Rightarrow> state_commitment_namespace \<Rightarrow> string \<Rightarrow> bytes option \<Rightarrow> bytes option \<Rightarrow> state_commitment_leaf option" where
  "push_leaf K ns tag key val =
     (case state_key tag key of
        None \<Rightarrow> None
      | Some k \<Rightarrow> map_option (\<lambda>v. \<lparr>lf_namespace = ns, lf_key = k, lf_value_hash = ke_keccak256 K v\<rparr>) val)"

definition push_leaves ::
    "commit_ext \<Rightarrow> state_commitment_namespace \<Rightarrow> string \<Rightarrow> ('k \<Rightarrow> bytes option) \<Rightarrow> ('v \<Rightarrow> bytes option) \<Rightarrow>
     ('k \<times> 'v) list \<Rightarrow> state_commitment_leaf option list" where
  "push_leaves K ns tag ek ev kvs = map (\<lambda>(k, v). push_leaf K ns tag (ek k) (ev v)) kvs"

definition account_leaves :: "commit_ext \<Rightarrow> state \<Rightarrow> state_commitment_leaf option list" where
  "account_leaves K s = push_leaves K NsAccounts ''account'' (ke_address K) (ke_account K) (map_entries (accounts s))"

definition native_leaves :: "commit_ext \<Rightarrow> state \<Rightarrow> state_commitment_leaf option list" where
  "native_leaves K s =
     [push_leaf K NsNative ''governance'' (ke_unit K) (ke_address K (governance s)),
      push_leaf K NsNative ''next_agent_id'' (ke_unit K) (ke_u64 K (next_agent_id s))]
     @ push_leaves K NsNative ''agent'' (ke_u64 K) (ke_agent K) (map_entries (agents s))
     @ push_leaves K NsNative ''address_to_agent'' (ke_address K) (ke_u64 K) (map_entries (address_to_agent s))
     @ push_leaves K NsNative ''receipt'' (ke_hash K) (ke_receipt K) (map_entries (receipts s))
     @ push_leaves K NsNative ''batch'' (ke_hash K) (ke_batch K) (map_entries (batches s))
     @ push_leaves K NsNative ''claimed_payout'' (ke_claim K) (ke_bool K)
         (map (\<lambda>c. (c, True)) (sorted_list_of_set (claimed_payouts s)))
     @ [push_leaf K NsNative ''next_dispute_id'' (ke_unit K) (ke_u64 K (next_dispute_id s))]
     @ push_leaves K NsNative ''dispute'' (ke_u64 K) (ke_dispute K) (map_entries (disputes s))
     @ push_leaves K NsNative ''stake'' (ke_address K) (ke_u128 K) (map_entries (stakes s))
     @ push_leaves K NsNative ''delegated'' (ke_delegation K) (ke_u128 K) (map_entries (delegated s))
     @ push_leaves K NsNative ''wallet_task_receipt_anchor'' (ke_hash K) (ke_address K)
         (map_entries (wallet_task_receipt_anchors s))
     @ push_leaves K NsNative ''owned_object_version'' (ke_object K) (ke_u64 K) (map_entries (owned_object_versions s))
     @ [push_leaf K NsNative ''chain_economics'' (ke_unit K) (ke_economics K (chain_economics s))]"

definition evm_leaves :: "commit_ext \<Rightarrow> state \<Rightarrow> state_commitment_leaf option list" where
  "evm_leaves K s =
     push_leaves K NsEvm ''evm_code'' (ke_address K) (ke_bytes K) (map_entries (evm_code s))
     @ push_leaves K NsEvm ''evm_storage'' (ke_slot K) (ke_hash K) (map_entries (evm_storage s))"

definition leaf_order :: "state_commitment_leaf \<Rightarrow> state_commitment_namespace \<times> bytes \<times> hash256" where
  "leaf_order l = (lf_namespace l, lf_key l, lf_value_hash l)"

definition state_commitment_leaves ::
    "commit_ext \<Rightarrow> state \<Rightarrow> state_commitment_namespace option \<Rightarrow> state_commitment_leaf list option" where
  "state_commitment_leaves K s namespace_filter =
     (let want = (\<lambda>ns. case namespace_filter of Some f \<Rightarrow> f = ns | None \<Rightarrow> True)
      in map_option (sort_key leaf_order)
           (those ((if want NsAccounts then account_leaves K s else [])
                   @ (if want NsNative then native_leaves K s else [])
                   @ (if want NsEvm then evm_leaves K s else []))))"

definition state_commitment_v1 :: "commit_ext \<Rightarrow> state \<Rightarrow> state_commitment option" where
  "state_commitment_v1 K s =
     (case state_commitment_leaves K s (Some NsNative) of None \<Rightarrow> None | Some native \<Rightarrow>
     (case state_commitment_leaves K s (Some NsEvm) of None \<Rightarrow> None | Some evm \<Rightarrow>
     (case state_commitment_leaves K s None of None \<Rightarrow> None | Some all \<Rightarrow>
     (case state_commitment_root K native of None \<Rightarrow> None | Some native_root \<Rightarrow>
     (case state_commitment_root K evm of None \<Rightarrow> None | Some evm_root \<Rightarrow>
     (case state_commitment_root K all of None \<Rightarrow> None | Some unified_root \<Rightarrow>
        Some \<lparr>sm_scheme = FractalSnarkSmtV1, sm_native_root = native_root, sm_evm_root = evm_root,
              sm_unified_root = unified_root\<rparr>))))))"

section \<open>Access rows\<close>

type_synonym access_rows = "(state_commitment_namespace \<times> bytes, state_merkle_access_witness) btree"

fun pre_rows ::
    "(bytes \<Rightarrow> hash256) \<Rightarrow> hash256 list \<Rightarrow> nat \<Rightarrow> state_commitment_leaf list \<Rightarrow> access_rows \<Rightarrow> access_rows" where
  "pre_rows kc hashes index [] rows = rows"
| "pre_rows kc hashes index (leaf # leaves) rows =
     pre_rows kc hashes (Suc index) leaves
       (bt_insert (lf_namespace leaf, lf_key leaf)
         \<lparr>aw_kind = AccessRead, aw_namespace = lf_namespace leaf, aw_key = lf_key leaf,
          aw_pre_value_hash = Some (lf_value_hash leaf), aw_post_value_hash = None,
          aw_pre_state_path = merkle_path_from_hashes kc hashes index, aw_post_state_path = []\<rparr> rows)"

fun post_rows ::
    "(bytes \<Rightarrow> hash256) \<Rightarrow> hash256 list \<Rightarrow> nat \<Rightarrow> state_commitment_leaf list \<Rightarrow> access_rows \<Rightarrow> access_rows" where
  "post_rows kc hashes index [] rows = rows"
| "post_rows kc hashes index (leaf # leaves) rows =
     (let key = (lf_namespace leaf, lf_key leaf); path = merkle_path_from_hashes kc hashes index
      in post_rows kc hashes (Suc index) leaves
           (bt_insert key
             (case bt_get rows key of
                Some row \<Rightarrow>
                  row\<lparr>aw_kind := (if aw_pre_value_hash row = Some (lf_value_hash leaf) then AccessRead
                                   else AccessReadWrite),
                      aw_post_value_hash := Some (lf_value_hash leaf), aw_post_state_path := path\<rparr>
              | None \<Rightarrow>
                  \<lparr>aw_kind = AccessWrite, aw_namespace = lf_namespace leaf, aw_key = lf_key leaf,
                   aw_pre_value_hash = None, aw_post_value_hash = Some (lf_value_hash leaf),
                   aw_pre_state_path = [], aw_post_state_path = path\<rparr>) rows))"

definition state_access_witnesses_v1 ::
    "commit_ext \<Rightarrow> state \<Rightarrow> state \<Rightarrow> state_merkle_access_witness list option" where
  "state_access_witnesses_v1 K pre_state post_state =
     (case state_commitment_leaves K pre_state None of None \<Rightarrow> None | Some pre_leaves \<Rightarrow>
     (case state_commitment_leaves K post_state None of None \<Rightarrow> None | Some post_leaves \<Rightarrow>
     (case those (map (state_leaf_hash K) pre_leaves) of None \<Rightarrow> None | Some pre_hashes \<Rightarrow>
     (case those (map (state_leaf_hash K) post_leaves) of None \<Rightarrow> None | Some post_hashes \<Rightarrow>
        Some (bt_values (post_rows (ke_keccak256 K) post_hashes 0 post_leaves
               (pre_rows (ke_keccak256 K) pre_hashes 0 pre_leaves [])))))))"

section \<open>Rows\<close>

text \<open>A leaf at a position of the list whose path leads from its hash to the root.\<close>

definition authenticated ::
    "commit_ext \<Rightarrow> state_commitment_leaf list \<Rightarrow> hash256 \<Rightarrow> state_commitment_namespace \<Rightarrow> bytes \<Rightarrow> hash256 \<Rightarrow> hash256 list \<Rightarrow> bool" where
  "authenticated K leaves root ns key val path \<longleftrightarrow>
     (\<exists>i < length leaves. leaves ! i = \<lparr>lf_namespace = ns, lf_key = key, lf_value_hash = val\<rparr>
        \<and> (\<exists>h. state_leaf_hash K (leaves ! i) = Some h \<and> verify_merkle_proof (ke_keccak256 K) root h i path))"

definition leaf_keys :: "state_commitment_leaf list \<Rightarrow> (state_commitment_namespace \<times> bytes) set" where
  "leaf_keys leaves = (\<lambda>l. (lf_namespace l, lf_key l)) ` set leaves"

definition side_ok ::
    "commit_ext \<Rightarrow> state_commitment_leaf list \<Rightarrow> hash256 \<Rightarrow> state_commitment_namespace \<times> bytes \<Rightarrow> hash256 option \<Rightarrow> hash256 list \<Rightarrow> bool" where
  "side_ok K leaves root k val path =
     (case val of None \<Rightarrow> path = [] | Some v \<Rightarrow> authenticated K leaves root (fst k) (snd k) v path)"

definition access_kind :: "hash256 option \<Rightarrow> hash256 option \<Rightarrow> state_access_kind" where
  "access_kind pre post =
     (case post of None \<Rightarrow> AccessRead
      | Some v \<Rightarrow> if pre = None then AccessWrite else if pre = Some v then AccessRead else AccessReadWrite)"

definition row_ok ::
    "commit_ext \<Rightarrow> state_commitment_leaf list \<Rightarrow> hash256 \<Rightarrow> state_commitment_leaf list \<Rightarrow> hash256 \<Rightarrow>
     state_commitment_namespace \<times> bytes \<Rightarrow> state_merkle_access_witness \<Rightarrow> bool" where
  "row_ok K pre pre_root post post_root k row \<longleftrightarrow>
     (aw_namespace row, aw_key row) = k
     \<and> side_ok K pre pre_root k (aw_pre_value_hash row) (aw_pre_state_path row)
     \<and> side_ok K post post_root k (aw_post_value_hash row) (aw_post_state_path row)
     \<and> aw_kind row = access_kind (aw_pre_value_hash row) (aw_post_value_hash row)
     \<and> (aw_pre_value_hash row \<noteq> None \<or> aw_post_value_hash row \<noteq> None)"

lemma leaf_keys_Cons [simp]:
  "leaf_keys (l # ls) = insert (lf_namespace l, lf_key l) (leaf_keys ls)" "leaf_keys [] = {}"
  by (simp_all add: leaf_keys_def)

lemma built_leaf_authenticated:
  assumes hashes: "those (map (state_leaf_hash K) leaves) = Some hs" and "i < length leaves"
    and root: "root = merkle_root_from_hashes (ke_keccak256 K) hs" and "leaves ! i = l"
  shows "authenticated K leaves root (lf_namespace l) (lf_key l) (lf_value_hash l)
    (merkle_path_from_hashes (ke_keccak256 K) hs i)"
proof -
  note nth = those_map_nth [OF hashes]
  have i: "i < length hs" using nth(1) assms(2) by simp
  obtain path where path: "merkle_proof (ke_keccak256 K) hs i = Some path"
      "verify_merkle_proof (ke_keccak256 K) (merkle_root (ke_keccak256 K) hs) (hs ! i) i path"
    using merkle_walk_complete [OF i, of "ke_keccak256 K"] i that
    by (cases "hs = []") (simp_all add: merkle_proof_def verify_merkle_proof_def merkle_root_def)
  have "merkle_path_from_hashes (ke_keccak256 K) hs i = path"
    by (simp add: merkle_path_from_hashes_eq path(1) unwrap_or_def)
  then show ?thesis
    using path(2) assms(2,4) nth(2) [of i] root
    by (auto simp: authenticated_def merkle_root_from_hashes_eq intro!: exI [of _ i])
qed

lemma pre_rows_ok:
  assumes hashes: "those (map (state_leaf_hash K) leaves) = Some hs"
    and root: "root = merkle_root_from_hashes (ke_keccak256 K) hs"
    and "rest = drop i leaves" and "bt_ok rows"
    and "\<forall>(k, row) \<in> set rows. row_ok K leaves root post post_root k row"
  shows "bt_ok (pre_rows (ke_keccak256 K) hs i rest rows)
    \<and> fst ` set (pre_rows (ke_keccak256 K) hs i rest rows) = fst ` set rows \<union> leaf_keys rest
    \<and> (\<forall>(k, row) \<in> set (pre_rows (ke_keccak256 K) hs i rest rows). row_ok K leaves root post post_root k row)"
  using assms(3-)
proof (induction rest arbitrary: i rows)
  case (Cons leaf rest)
  have i: "i < length leaves" using Cons.prems(1) by (metis drop_eq_Nil not_less list.distinct(1))
  have leaf: "leaves ! i = leaf" using Cons.prems(1) by (metis i nth_via_drop)
  have rest: "rest = drop (Suc i) leaves" using Cons.prems(1) by (metis drop_Suc list.sel(3) tl_drop)
  let ?row = "\<lparr>aw_kind = AccessRead, aw_namespace = lf_namespace leaf, aw_key = lf_key leaf,
          aw_pre_value_hash = Some (lf_value_hash leaf), aw_post_value_hash = None,
          aw_pre_state_path = merkle_path_from_hashes (ke_keccak256 K) hs i, aw_post_state_path = []\<rparr>"
  let ?rows = "bt_insert (lf_namespace leaf, lf_key leaf) ?row rows"
  have "row_ok K leaves root post post_root (lf_namespace leaf, lf_key leaf) ?row"
    using built_leaf_authenticated [OF hashes i root leaf] by (simp add: row_ok_def side_ok_def access_kind_def)
  then have "\<forall>(k, row) \<in> set ?rows. row_ok K leaves root post post_root k row"
    using Cons.prems(3) bt.entries_put [OF Cons.prems(2)] by (auto split: if_splits)
  then show ?case
    using Cons.IH [OF rest bt_insert_ok [OF Cons.prems(2)]] by (simp add: set_bt_insert)
qed simp

lemma post_rows_ok:
  assumes hashes: "those (map (state_leaf_hash K) leaves) = Some hs"
    and root: "root = merkle_root_from_hashes (ke_keccak256 K) hs"
    and "rest = drop i leaves" and "bt_ok rows"
    and "\<forall>(k, row) \<in> set rows. row_ok K pre pre_root leaves root k row"
    and "distinct (map (\<lambda>l. (lf_namespace l, lf_key l)) rest)"
    and "\<forall>(k, row) \<in> set rows. k \<in> leaf_keys rest \<longrightarrow> aw_post_value_hash row = None"
  shows "bt_ok (post_rows (ke_keccak256 K) hs i rest rows)
    \<and> fst ` set (post_rows (ke_keccak256 K) hs i rest rows) = fst ` set rows \<union> leaf_keys rest
    \<and> (\<forall>(k, row) \<in> set (post_rows (ke_keccak256 K) hs i rest rows). row_ok K pre pre_root leaves root k row)"
  using assms(3-)
proof (induction rest arbitrary: i rows)
  case (Cons leaf rest)
  have i: "i < length leaves" using Cons.prems(1) by (metis drop_eq_Nil not_less list.distinct(1))
  have leaf: "leaves ! i = leaf" using Cons.prems(1) by (metis i nth_via_drop)
  have rest: "rest = drop (Suc i) leaves" using Cons.prems(1) by (metis drop_Suc list.sel(3) tl_drop)
  let ?k = "(lf_namespace leaf, lf_key leaf)"
  let ?path = "merkle_path_from_hashes (ke_keccak256 K) hs i"
  let ?row = "case bt_get rows ?k of
      Some row \<Rightarrow> row\<lparr>aw_kind := (if aw_pre_value_hash row = Some (lf_value_hash leaf) then AccessRead
                       else AccessReadWrite), aw_post_value_hash := Some (lf_value_hash leaf), aw_post_state_path := ?path\<rparr>
    | None \<Rightarrow> \<lparr>aw_kind = AccessWrite, aw_namespace = lf_namespace leaf, aw_key = lf_key leaf,
        aw_pre_value_hash = None, aw_post_value_hash = Some (lf_value_hash leaf), aw_pre_state_path = [],
        aw_post_state_path = ?path\<rparr>"
  have auth: "authenticated K leaves root (lf_namespace leaf) (lf_key leaf) (lf_value_hash leaf) ?path"
    by (rule built_leaf_authenticated [OF hashes i root leaf])
  have "row_ok K pre pre_root leaves root ?k ?row"
  proof (cases "bt_get rows ?k")
    case None
    then show ?thesis using auth by (simp add: row_ok_def side_ok_def access_kind_def)
  next
    case (Some row)
    then have row: "(?k, row) \<in> set rows" by (rule map_of_SomeD)
    have "row_ok K pre pre_root leaves root ?k row" using row Cons.prems(3) by blast
    moreover have "aw_post_value_hash row = None" using row Cons.prems(5) by auto
    ultimately show ?thesis using Some auth by (auto simp: row_ok_def side_ok_def access_kind_def)
  qed
  then have rows: "\<forall>(k, row) \<in> set (bt_insert ?k ?row rows). row_ok K pre pre_root leaves root k row"
    using Cons.prems(3) bt.entries_put [OF Cons.prems(2)] by (auto split: if_splits)
  have "?k \<notin> leaf_keys rest" using Cons.prems(4) by (auto simp: leaf_keys_def)
  then have fresh: "\<forall>(k, row) \<in> set (bt_insert ?k ?row rows). k \<in> leaf_keys rest \<longrightarrow> aw_post_value_hash row = None"
    using Cons.prems(5) bt.entries_put [OF Cons.prems(2)] by (fastforce split: if_splits)
  have "distinct (map (\<lambda>l. (lf_namespace l, lf_key l)) rest)" using Cons.prems(4) by simp
  then show ?case
    using Cons.IH [OF rest bt_insert_ok [OF Cons.prems(2)] rows _ fresh] by (simp add: set_bt_insert Let_def)
qed simp

lemma pre_rows_post_None:
  assumes "bt_ok rows" and "\<forall>(k, row) \<in> set rows. aw_post_value_hash row = None"
  shows "\<forall>(k, row) \<in> set (pre_rows kc hs i leaves rows). aw_post_value_hash row = None"
  using assms
proof (induction leaves arbitrary: i rows)
  case (Cons leaf leaves)
  let ?row = "\<lparr>aw_kind = AccessRead, aw_namespace = lf_namespace leaf, aw_key = lf_key leaf,
          aw_pre_value_hash = Some (lf_value_hash leaf), aw_post_value_hash = None,
          aw_pre_state_path = merkle_path_from_hashes kc hs i, aw_post_state_path = []\<rparr>"
  have "\<forall>(k, row) \<in> set (bt_insert (lf_namespace leaf, lf_key leaf) ?row rows). aw_post_value_hash row = None"
    using Cons.prems(2) bt.entries_put [OF Cons.prems(1)] by (auto split: if_splits)
  then show ?case using Cons.IH [OF bt_insert_ok [OF Cons.prems(1)]] by simp
qed simp

lemma unified_root_of:
  assumes "state_commitment_v1 K s = Some c" and "state_commitment_leaves K s None = Some leaves"
    and "those (map (state_leaf_hash K) leaves) = Some hs"
  shows "sm_unified_root c = merkle_root_from_hashes (ke_keccak256 K) hs"
  using assms by (auto simp: state_commitment_v1_def state_commitment_root_def split: option.splits)

text \<open>Encoders that never fail, as those of Borsh on in-memory values.\<close>

definition total_encoders :: "commit_ext \<Rightarrow> bool" where
  "total_encoders K \<longleftrightarrow> ke_unit K \<noteq> None \<and> (\<forall>x. ke_bool K x \<noteq> None) \<and> (\<forall>x. ke_u64 K x \<noteq> None)
     \<and> (\<forall>x. ke_u128 K x \<noteq> None) \<and> (\<forall>x. ke_address K x \<noteq> None) \<and> (\<forall>x. ke_hash K x \<noteq> None)
     \<and> (\<forall>x. ke_bytes K x \<noteq> None) \<and> (\<forall>x. ke_claim K x \<noteq> None) \<and> (\<forall>x. ke_delegation K x \<noteq> None)
     \<and> (\<forall>x. ke_slot K x \<noteq> None) \<and> (\<forall>x. ke_object K x \<noteq> None) \<and> (\<forall>x. ke_account K x \<noteq> None)
     \<and> (\<forall>x. ke_agent K x \<noteq> None) \<and> (\<forall>x. ke_receipt K x \<noteq> None) \<and> (\<forall>x. ke_batch K x \<noteq> None)
     \<and> (\<forall>x. ke_dispute K x \<noteq> None) \<and> (\<forall>x. ke_economics K x \<noteq> None) \<and> (\<forall>x. ke_leaf K x \<noteq> None)"

lemma those_total: "None \<notin> set xs \<Longrightarrow> \<exists>ys. those xs = Some ys"
proof (induction xs)
  case (Cons x xs)
  then show ?case by (cases x) (auto split: option.splits)
qed simp

lemma none_free:
  "None \<notin> set (xs @ ys) \<longleftrightarrow> None \<notin> set xs \<and> None \<notin> set ys"
  "None \<notin> set (x # xs) \<longleftrightarrow> x \<noteq> None \<and> None \<notin> set xs" "None \<notin> set [] \<longleftrightarrow> True"
  by (simp_all add: eq_commute [of None] del: not_None_eq)

lemma push_leaf_total: "key \<noteq> None \<Longrightarrow> val \<noteq> None \<Longrightarrow> push_leaf K ns tag key val \<noteq> None"
  by (auto simp: push_leaf_def state_key_def)

lemma push_leaves_total:
  "(\<And>x. ek x \<noteq> None) \<Longrightarrow> (\<And>x. ev x \<noteq> None) \<Longrightarrow> None \<notin> set (push_leaves K ns tag ek ev kvs)"
proof (induction kvs)
  case (Cons kv kvs)
  then show ?case using push_leaf_total [of "ek (fst kv)" "ev (snd kv)" K ns tag] none_free(2)
    by (simp add: push_leaves_def case_prod_beta del: not_None_eq)
qed (simp add: push_leaves_def)

lemma leaves_total:
  assumes "total_encoders K"
  shows "\<exists>leaves. state_commitment_leaves K s f = Some leaves"
proof -
  note total = assms [unfolded total_encoders_def]
  have "None \<notin> set (account_leaves K s)"
    unfolding account_leaves_def using total by (intro push_leaves_total; blast)
  moreover have "None \<notin> set (evm_leaves K s)"
    unfolding evm_leaves_def none_free using total by (intro conjI push_leaves_total; blast)
  moreover have "None \<notin> set (native_leaves K s)"
    unfolding native_leaves_def none_free using total
    by (intro conjI TrueI push_leaves_total push_leaf_total; blast)
  ultimately show ?thesis
    by (simp add: state_commitment_leaves_def Let_def those_total)
qed

lemma leaf_hashes_total:
  assumes "total_encoders K"
  shows "\<exists>hs. those (map (state_leaf_hash K) leaves) = Some hs"
proof (rule those_total)
  have "state_leaf_hash K l \<noteq> None" for l using assms by (simp add: total_encoders_def state_leaf_hash_def)
  then show "None \<notin> set (map (state_leaf_hash K) leaves)" by (metis ex_map_conv imageE list.set_map)
qed

lemma commitment_total:
  assumes "total_encoders K"
  shows "\<exists>c. state_commitment_v1 K s = Some c"
proof -
  have "\<exists>r. state_commitment_root K leaves = Some r" for leaves
    using leaf_hashes_total [OF assms, of leaves] by (auto simp: state_commitment_root_def)
  then show ?thesis
    using leaves_total [OF assms, of s] unfolding state_commitment_v1_def
    by (metis (no_types, lifting) option.simps(5))
qed

lemma access_rows_total:
  assumes "total_encoders K"
  shows "\<exists>rows. state_access_witnesses_v1 K pre post = Some rows"
proof -
  obtain L M where "state_commitment_leaves K pre None = Some L" "state_commitment_leaves K post None = Some M"
    using leaves_total [OF assms] by meson
  moreover obtain hs hs' where "those (map (state_leaf_hash K) L) = Some hs" "those (map (state_leaf_hash K) M) = Some hs'"
    using leaf_hashes_total [OF assms] by meson
  ultimately show ?thesis by (simp add: state_access_witnesses_v1_def)
qed

section \<open>Properties\<close>

text \<open>
  When the keys of the leaves are distinct, the access rows of a block list every leaf of
  the state before and after it, once and in order of namespace and key; every value a row
  names sits in the corresponding list and its path leads to the corresponding root; and the
  kind tells a write of a new key, a change and an unchanged value apart.
\<close>

theorem access_rows_authenticated:
  assumes "state_access_witnesses_v1 K pre post = Some rows"
    and "state_commitment_leaves K pre None = Some L" and "state_commitment_leaves K post None = Some M"
    and "state_commitment_v1 K pre = Some c" and "state_commitment_v1 K post = Some d"
    and "distinct (map (\<lambda>l. (lf_namespace l, lf_key l)) M)"
  shows "list_all (\<lambda>row. row_ok K L (sm_unified_root c) M (sm_unified_root d) (aw_namespace row, aw_key row) row) rows
    \<and> sorted_wrt (<) (map (\<lambda>row. (aw_namespace row, aw_key row)) rows)
    \<and> (\<lambda>row. (aw_namespace row, aw_key row)) ` set rows = leaf_keys L \<union> leaf_keys M"
proof -
  let ?kc = "ke_keccak256 K"
  obtain hs hs' where hs: "those (map (state_leaf_hash K) L) = Some hs"
    and hs': "those (map (state_leaf_hash K) M) = Some hs'"
    and rows: "rows = bt_values (post_rows ?kc hs' 0 M (pre_rows ?kc hs 0 L []))"
    using assms(1-3) by (auto simp: state_access_witnesses_v1_def split: option.splits)
  note roots = unified_root_of [OF assms(4,2) hs] unified_root_of [OF assms(5,3) hs']
  have pre: "bt_ok (pre_rows ?kc hs 0 L [])" "fst ` set (pre_rows ?kc hs 0 L []) = leaf_keys L"
    "\<forall>(k, row) \<in> set (pre_rows ?kc hs 0 L []). row_ok K L (sm_unified_root c) M (sm_unified_root d) k row"
    using pre_rows_ok [OF hs roots(1), of L 0 "[]"] by simp_all
  have "\<forall>(k, row) \<in> set (pre_rows ?kc hs 0 L []). k \<in> leaf_keys M \<longrightarrow> aw_post_value_hash row = None"
    using pre_rows_post_None [of "[]" ?kc hs 0 L] by auto
  then have post: "bt_ok (post_rows ?kc hs' 0 M (pre_rows ?kc hs 0 L []))"
    "fst ` set (post_rows ?kc hs' 0 M (pre_rows ?kc hs 0 L [])) = leaf_keys L \<union> leaf_keys M"
    "\<forall>(k, row) \<in> set (post_rows ?kc hs' 0 M (pre_rows ?kc hs 0 L [])).
       row_ok K L (sm_unified_root c) M (sm_unified_root d) k row"
    using post_rows_ok [OF hs' roots(2) _ pre(1,3) assms(6), of 0] pre(2) by simp_all
  have key: "(aw_namespace row, aw_key row) = k" if "(k, row) \<in> set (post_rows ?kc hs' 0 M (pre_rows ?kc hs 0 L []))"
    for k row
    using post(3) that by (auto simp: row_ok_def)
  then have keys: "map (\<lambda>row. (aw_namespace row, aw_key row)) rows
      = map fst (post_rows ?kc hs' 0 M (pre_rows ?kc hs 0 L []))"
    unfolding rows by (auto simp: map_eq_conv)
  have "list_all (\<lambda>row. row_ok K L (sm_unified_root c) M (sm_unified_root d) (aw_namespace row, aw_key row) row) rows"
    using post(3) key by (fastforce simp: rows list_all_iff)
  moreover have "sorted_wrt (<) (map (\<lambda>row. (aw_namespace row, aw_key row)) rows)"
    unfolding keys using post(1) by (simp add: bt_ok_def)
  moreover have "(\<lambda>row. (aw_namespace row, aw_key row)) ` set rows = leaf_keys L \<union> leaf_keys M"
    using keys post(2) by (metis list.set_map)
  ultimately show ?thesis by blast
qed

text \<open>
  The emission of a block is outside the commitment: minting changes the minted total and
  the three pools of the state and leaves every root of the state commitment as it was.
\<close>

theorem mint_outside_state_commitment:
  "state_commitment_v1 K (fst (mint_protocol_emission_for_block s h)) = state_commitment_v1 K s"
proof -
  have "state_commitment_leaves K (fst (mint_protocol_emission_for_block s h)) f = state_commitment_leaves K s f" for f
    by (auto simp: mint_protocol_emission_for_block_def Let_def state_commitment_leaves_def account_leaves_def
        native_leaves_def evm_leaves_def split: option.splits)
  then show ?thesis by (simp add: state_commitment_v1_def cong: option.case_cong)
qed

section \<open>A concrete instance\<close>

definition sample_commit :: commit_ext where
  "sample_commit = \<lparr>
     ke_keccak256 = (\<lambda>bs. ucast (word_sum bs) + 1), ke_unit = Some [], ke_bool = (\<lambda>b. Some [if b then 1 else 0]),
     ke_u64 = (\<lambda>x. Some (be_bytes 8 x)), ke_u128 = (\<lambda>x. Some (be_bytes 16 x)),
     ke_address = (\<lambda>x. Some (be_bytes 20 x)), ke_hash = (\<lambda>x. Some (be_bytes 32 x)), ke_bytes = Some,
     ke_claim = (\<lambda>c. Some (be_bytes 32 (fst c) @ be_bytes 4 (snd c))),
     ke_delegation = (\<lambda>c. Some (be_bytes 20 (fst c) @ be_bytes 20 (snd c))),
     ke_slot = (\<lambda>c. Some (be_bytes 20 (fst c) @ be_bytes 32 (snd c))),
     ke_object = (\<lambda>_. Some []), ke_account = (\<lambda>a. Some (be_bytes 8 (acc_nonce a) @ be_bytes 16 (acc_balance a))),
     ke_agent = (\<lambda>_. Some []), ke_receipt = (\<lambda>_. Some []), ke_batch = (\<lambda>_. Some []),
     ke_dispute = (\<lambda>_. Some []), ke_economics = (\<lambda>_. Some []),
     ke_leaf = (\<lambda>l. Some (lf_key l @ be_bytes 32 (lf_value_hash l)))\<rparr>"

definition sample_post_state :: state where
  "sample_post_state = default_state\<lparr>accounts := [7 \<mapsto> \<lparr>acc_nonce = 1, acc_balance = 10\<rparr>]\<rparr>"

lemma sample_commit_total: "total_encoders sample_commit"
  by (simp add: total_encoders_def sample_commit_def)

lemma map_entries_simps: "map_entries Map.empty = []" "map_entries [k \<mapsto> v] = [(k, v)]"
  by (simp_all add: map_entries_def)

lemma distinct_sort_map: "distinct (map f (sort_key g xs)) \<longleftrightarrow> distinct (map f xs)"
  by (intro mset_eq_imp_distinct_iff) (simp add: mset_map)

lemma sample_leaves:
  "account_leaves sample_commit sample_post_state @ native_leaves sample_commit sample_post_state
     @ evm_leaves sample_commit sample_post_state =
   map (\<lambda>(ns, key, v). Some \<lparr>lf_namespace = ns, lf_key = key, lf_value_hash = ke_keccak256 sample_commit v\<rparr>)
     [(NsAccounts, ascii ''account'' @ [0] @ be_bytes 20 (7 :: address), be_bytes 8 (1 :: u64) @ be_bytes 16 (10 :: u128)),
      (NsNative, ascii ''governance'' @ [0], be_bytes 20 (0 :: address)),
      (NsNative, ascii ''next_agent_id'' @ [0], be_bytes 8 (1 :: u64)),
      (NsNative, ascii ''next_dispute_id'' @ [0], be_bytes 8 (1 :: u64)),
      (NsNative, ascii ''chain_economics'' @ [0], [])]"
  by (simp add: account_leaves_def native_leaves_def evm_leaves_def sample_post_state_def default_state_def
      map_entries_simps push_leaves_def push_leaf_def state_key_def sample_commit_def)

lemma sample_keys_distinct:
  assumes "state_commitment_leaves sample_commit sample_post_state None = Some M"
  shows "distinct (map (\<lambda>l. (lf_namespace l, lf_key l)) M)"
proof -
  obtain M' where "M = sort_key leaf_order M'"
    and "those (account_leaves sample_commit sample_post_state @ native_leaves sample_commit sample_post_state
           @ evm_leaves sample_commit sample_post_state) = Some M'"
    using assms by (auto simp: state_commitment_leaves_def)
  moreover from this(2) have "map (\<lambda>l. (lf_namespace l, lf_key l)) M' =
      [(NsAccounts, ascii ''account'' @ [0] @ be_bytes 20 (7 :: address)), (NsNative, ascii ''governance'' @ [0]),
       (NsNative, ascii ''next_agent_id'' @ [0]), (NsNative, ascii ''next_dispute_id'' @ [0]),
       (NsNative, ascii ''chain_economics'' @ [0])]"
    unfolding sample_leaves by auto
  moreover have "distinct (map ascii [''governance'', ''next_agent_id'', ''next_dispute_id'', ''chain_economics''])"
    by code_simp
  ultimately show ?thesis by (simp add: distinct_sort_map)
qed

theorem access_rows_authenticated_witness:
  "\<exists>rows L M c d. state_access_witnesses_v1 sample_commit default_state sample_post_state = Some rows
     \<and> state_commitment_leaves sample_commit sample_post_state None = Some M
     \<and> list_all (\<lambda>row. row_ok sample_commit L c M d (aw_namespace row, aw_key row) row) rows
     \<and> leaf_keys M \<subseteq> (\<lambda>row. (aw_namespace row, aw_key row)) ` set rows"
proof -
  let ?K = sample_commit
  obtain L M where LM: "state_commitment_leaves ?K default_state None = Some L"
      "state_commitment_leaves ?K sample_post_state None = Some M"
    using leaves_total [OF sample_commit_total] by meson
  obtain c d where cd: "state_commitment_v1 ?K default_state = Some c" "state_commitment_v1 ?K sample_post_state = Some d"
    using commitment_total [OF sample_commit_total] by meson
  obtain rows where rows: "state_access_witnesses_v1 ?K default_state sample_post_state = Some rows"
    using access_rows_total [OF sample_commit_total] by meson
  note authentic = access_rows_authenticated [OF rows LM cd sample_keys_distinct [OF LM(2)]]
  have "leaf_keys M \<subseteq> (\<lambda>row. (aw_namespace row, aw_key row)) ` set rows"
    unfolding authentic [THEN conjunct2, THEN conjunct2] by simp
  with rows LM(2) authentic [THEN conjunct1] show ?thesis by (intro exI conjI)
qed

end
