(* ===== verification/Exec_Witness.thy ===== *)
theory Exec_Witness
  imports State_Commitment
begin

text \<open>
  The execution witness of a block, \<open>crates/consensus/src/lib.rs\<close>: the trace rows of native
  calls, precompile dispatches and EVM transactions, the public inputs, the witness that
  gathers them with the state commitments, and its replay, which executes the block again and
  compares the result with the header.
\<close>

section \<open>Types\<close>

datatype native_trace_kind = TopLevelNative | EvmPrecompileDispatch

record native_execution_trace_row =
  nt_tx_index :: u32
  nt_tx_hash :: hash256
  nt_kind :: native_trace_kind
  nt_signer :: address
  nt_nonce :: u64
  nt_call :: native_call
  nt_gas_used :: u64
  nt_native_event_root :: hash256
  nt_native_event_start :: u32
  nt_native_event_count :: u32
  nt_signer_pre_nonce :: u64
  nt_signer_post_nonce :: u64
  nt_signer_pre_balance :: u128
  nt_signer_post_balance :: u128
  nt_state_access_indices :: "u32 list"

record native_precompile_dispatch_trace_row =
  pd_tx_index :: u32
  pd_tx_hash :: hash256
  pd_caller :: address
  pd_precompile_address :: address
  pd_native_opcode :: u8
  pd_decoded_call :: native_call
  pd_calldata_hash :: hash256
  pd_gas_used :: u64

datatype evm_trace_kind = TraceTransfer | TraceCall | TraceCreate

record evm_execution_trace_row =
  er_tx_index :: u32
  er_tx_hash :: hash256
  er_kind :: evm_trace_kind
  er_caller :: address
  er_to :: "address option"
  er_value :: u128
  er_input_hash :: hash256
  er_gas_limit :: u64
  er_gas_used :: u64
  er_success :: bool
  er_log_root :: hash256
  er_pre_evm_root :: hash256
  er_post_evm_root :: hash256

datatype zkvm_choice = RiscZeroRevmTransitionV1

record evm_zkvm_surface =
  zs_version :: u16
  zs_zkvm_choice :: zkvm_choice
  zs_zkvm_target :: string
  zs_revm_crate_version :: string
  zs_covered_features :: execution_feature_set
  zs_uncovered_features :: execution_feature_set

datatype mixed_proof_batching_mode = PerBlockPreferred | BatchedFallback

record evm_mixed_proving_budget =
  mb_version :: u16
  mb_zkvm_choice :: zkvm_choice
  mb_native_block_latency_target_ms :: u64
  mb_mixed_block_latency_target_ms :: u64
  mb_sustained_throughput_blocks_per_minute :: u32
  mb_max_proof_final_lag_ms :: u64
  mb_batching_mode :: mixed_proof_batching_mode

record mixed_execution_public_inputs =
  pi_version :: u16
  pi_chain_id :: u64
  pi_height :: u64
  pi_block_hash :: hash256
  pi_timestamp_ms :: u64
  pi_parent_state_root :: hash256
  pi_post_state_root :: hash256
  pi_tx_root :: hash256
  pi_receipt_root :: hash256
  pi_native_event_root :: hash256
  pi_evm_log_root :: hash256
  pi_gas_used :: u64
  pi_zone_namespace :: da_namespace
  pi_da_root :: hash256
  pi_circuit_version :: circuit_version
  pi_coverage_manifest_digest :: hash256
  pi_feature_set :: execution_feature_set

record mixed_execution_witness =
  mw_version :: u16
  mw_public_inputs :: mixed_execution_public_inputs
  mw_pre_state_commitment :: state_commitment
  mw_post_state_commitment :: state_commitment
  mw_state_accesses :: "state_merkle_access_witness list"
  mw_native_trace_rows :: "native_execution_trace_row list"
  mw_precompile_dispatch_rows :: "native_precompile_dispatch_trace_row list"
  mw_evm_trace_rows :: "evm_execution_trace_row list"
  mw_evm_zkvm_surface :: evm_zkvm_surface
  mw_gas_sum :: u64
  mw_transactions :: "transaction list"
  mw_eth_signed_raw :: "bytes option list"
  mw_tx_receipts :: "mixed_execution_tx_receipt list"

datatype witness_retention_policy = MetadataOnly | UntilProofFinal | Archive

record mixed_execution_witness_metadata =
  md_version :: u16
  md_block_hash :: hash256
  md_height :: u64
  md_witness_digest :: hash256
  md_public_input_digest :: hash256
  md_circuit_version :: circuit_version
  md_coverage_manifest_digest :: hash256
  md_feature_set :: execution_feature_set
  md_retention_policy :: witness_retention_policy

datatype mixed_witness_error =
    WitIo
  | WitExec exec_error
  | WitGasUsedMismatch u64 u64
  | WitStateRoot
  | WitTxRoot
  | WitReceiptRoot
  | WitEvmLogRoot
  | WitFeatureSet
  | WitGasSumMismatch u64 u64
  | WitUnsupportedFeature

record witness_ext =
  wx_block :: block_ext
  wx_commit :: commit_ext
  wx_decode_native_call :: "bytes \<Rightarrow> native_call option"
  wx_borsh_manifest :: "coverage_manifest \<Rightarrow> bytes option"
  wx_borsh_public_inputs :: "mixed_execution_public_inputs \<Rightarrow> bytes option"
  wx_borsh_witness :: "mixed_execution_witness \<Rightarrow> bytes option"

abbreviation wx_keccak256 :: "witness_ext \<Rightarrow> bytes \<Rightarrow> hash256" where
  "wx_keccak256 W \<equiv> keccak256 (wx_block W)"

abbreviation wx_ledger :: "witness_ext \<Rightarrow> ext" where
  "wx_ledger W \<equiv> bx_ledger (wx_block W)"

section \<open>Proving surface\<close>

definition coverage_manifest_digest :: "witness_ext \<Rightarrow> coverage_manifest \<Rightarrow> hash256 option" where
  "coverage_manifest_digest W manifest = map_option (wx_keccak256 W) (wx_borsh_manifest W manifest)"

unbundle bit_operations_syntax

definition evm_zkvm_surface_v1 :: evm_zkvm_surface where
  "evm_zkvm_surface_v1 = \<lparr>zs_version = 1, zs_zkvm_choice = RiscZeroRevmTransitionV1,
     zs_zkvm_target = ''risc0-fractal-revm-transition-v1'', zs_revm_crate_version = ''38.0.0'',
     zs_covered_features = \<lparr>fs_bits = FEATURE_EVM_TRANSFER OR FEATURE_EVM_CALL OR FEATURE_EVM_CREATE
       OR FEATURE_EVM_TO_NATIVE_PRECOMPILE\<rparr>,
     zs_uncovered_features = features_empty\<rparr>"

definition evm_mixed_proving_budget_v1 :: evm_mixed_proving_budget where
  "evm_mixed_proving_budget_v1 = \<lparr>mb_version = 1, mb_zkvm_choice = RiscZeroRevmTransitionV1,
     mb_native_block_latency_target_ms = 120000, mb_mixed_block_latency_target_ms = 900000,
     mb_sustained_throughput_blocks_per_minute = 4, mb_max_proof_final_lag_ms = 1800000,
     mb_batching_mode = BatchedFallback\<rparr>"

definition verify_block_eligible_for_circuit :: "block \<Rightarrow> circuit_version \<Rightarrow> proof_eligibility_error + unit" where
  "verify_block_eligible_for_circuit block v = verify_transactions_eligible_for_circuit (bk_transactions block) v"

section \<open>Trace rows\<close>

definition account_nonce_balance :: "state \<Rightarrow> address \<Rightarrow> u64 \<times> u128" where
  "account_nonce_balance s a = (case accounts s a of None \<Rightarrow> (0, 0) | Some acc \<Rightarrow> (acc_nonce acc, acc_balance acc))"

definition state_access_indices_for_namespace ::
    "state_merkle_access_witness list \<Rightarrow> state_commitment_namespace list \<Rightarrow> u32 list" where
  "state_access_indices_for_namespace accesses namespaces =
     map (\<lambda>(idx, _). of_nat idx)
       (filter (\<lambda>(idx, _). idx < 2 ^ 32)
         (filter (\<lambda>(_, row). aw_namespace row \<in> set namespaces) (List.enumerate 0 accesses)))"

definition native_trace_row ::
    "witness_ext \<Rightarrow> state \<Rightarrow> state \<Rightarrow> u32 list \<Rightarrow> hash256 \<Rightarrow> nat \<Rightarrow> transaction \<Rightarrow> native_call \<Rightarrow> native_execution_trace_row option" where
  "native_trace_row W pre_state post_state indices native_event_root idx tx call =
     (case tx_hash (wx_block W) tx of
        None \<Rightarrow> None
      | Some h \<Rightarrow>
          (case gas_used_after_apply (wx_ledger W) post_state tx of
             Inl _ \<Rightarrow> None
           | Inr gas_used \<Rightarrow>
               let (pre_nonce, pre_balance) = account_nonce_balance pre_state (tx_signer tx);
                   (post_nonce, post_balance) = account_nonce_balance post_state (tx_signer tx)
               in Some \<lparr>nt_tx_index = of_nat idx, nt_tx_hash = h, nt_kind = TopLevelNative, nt_signer = tx_signer tx,
                    nt_nonce = tx_nonce tx, nt_call = call, nt_gas_used = gas_used,
                    nt_native_event_root = native_event_root, nt_native_event_start = 0, nt_native_event_count = 0,
                    nt_signer_pre_nonce = pre_nonce, nt_signer_post_nonce = post_nonce,
                    nt_signer_pre_balance = pre_balance, nt_signer_post_balance = post_balance,
                    nt_state_access_indices = indices\<rparr>))"

text \<open>The loops push a row for the transactions they select and end at the first error.\<close>

fun native_trace_loop ::
    "witness_ext \<Rightarrow> state \<Rightarrow> state \<Rightarrow> u32 list \<Rightarrow> hash256 \<Rightarrow> nat \<Rightarrow> transaction list \<Rightarrow> native_execution_trace_row list option" where
  "native_trace_loop W pre_state post_state indices root idx [] = Some []"
| "native_trace_loop W pre_state post_state indices root idx (tx # txs) =
     (case (tx_vm tx, tx_body tx) of
        (VmNative, Native call) \<Rightarrow>
          (case native_trace_row W pre_state post_state indices root idx tx call of
             None \<Rightarrow> None
           | Some row \<Rightarrow> map_option ((#) row) (native_trace_loop W pre_state post_state indices root (idx + 1) txs))
      | _ \<Rightarrow> native_trace_loop W pre_state post_state indices root (idx + 1) txs)"

definition native_execution_trace_rows_v1 ::
    "witness_ext \<Rightarrow> state \<Rightarrow> state \<Rightarrow> transaction list \<Rightarrow> state_merkle_access_witness list \<Rightarrow> hash256 \<Rightarrow>
     native_execution_trace_row list option" where
  "native_execution_trace_rows_v1 W pre_state post_state txs state_accesses native_event_root =
     native_trace_loop W pre_state post_state
       (state_access_indices_for_namespace state_accesses [NsAccounts, NsNative]) native_event_root 0 txs"

fun precompile_trace_loop ::
    "witness_ext \<Rightarrow> state \<Rightarrow> nat \<Rightarrow> transaction list \<Rightarrow> native_precompile_dispatch_trace_row list option" where
  "precompile_trace_loop W post_state idx [] = Some []"
| "precompile_trace_loop W post_state idx (tx # txs) =
     (case tx_body tx of
        EvmCall to _ calldata _ \<Rightarrow>
          if \<not> is_native_precompile_address to then precompile_trace_loop W post_state (idx + 1) txs
          else (case (wx_decode_native_call W calldata, tx_hash (wx_block W) tx,
                      gas_used_after_apply (wx_ledger W) post_state tx) of
                  (Some decoded, Some h, Inr gas_used) \<Rightarrow>
                    map_option ((#) \<lparr>pd_tx_index = of_nat idx, pd_tx_hash = h, pd_caller = tx_signer tx,
                        pd_precompile_address = to,
                        pd_native_opcode = unwrap_or (native_opcode_from_precompile_address to) 0,
                        pd_decoded_call = decoded, pd_calldata_hash = wx_keccak256 W calldata,
                        pd_gas_used = gas_used\<rparr>)
                      (precompile_trace_loop W post_state (idx + 1) txs)
                | _ \<Rightarrow> None)
      | _ \<Rightarrow> precompile_trace_loop W post_state (idx + 1) txs)"

definition native_precompile_dispatch_trace_rows_v1 ::
    "witness_ext \<Rightarrow> state \<Rightarrow> transaction list \<Rightarrow> native_precompile_dispatch_trace_row list option" where
  "native_precompile_dispatch_trace_rows_v1 W post_state txs = precompile_trace_loop W post_state 0 txs"

text \<open>The kind, the target, the value, the hash of the input and the gas limit of an EVM transaction.\<close>

definition evm_trace_header ::
    "witness_ext \<Rightarrow> transaction \<Rightarrow> (evm_trace_kind \<times> address option \<times> u128 \<times> hash256 \<times> u64) option" where
  "evm_trace_header W tx =
     (case (tx_vm tx, tx_body tx) of
        (VmEvm, Transfer to amount) \<Rightarrow> Some (TraceTransfer, Some to, amount, wx_keccak256 W [], TRANSFER_GAS)
      | (VmEvm, EvmCall to val calldata gas_limit) \<Rightarrow>
          Some (TraceCall, Some to, val, wx_keccak256 W calldata, gas_limit)
      | (VmEvm, EvmCreate val init_code gas_limit) \<Rightarrow>
          Some (TraceCreate, None, val, wx_keccak256 W init_code, gas_limit)
      | _ \<Rightarrow> None)"

fun evm_trace_loop ::
    "witness_ext \<Rightarrow> hash256 \<Rightarrow> hash256 \<Rightarrow> state \<Rightarrow> nat \<Rightarrow> transaction list \<Rightarrow> evm_execution_trace_row list option" where
  "evm_trace_loop W pre_evm_root post_evm_root post_state idx [] = Some []"
| "evm_trace_loop W pre_evm_root post_evm_root post_state idx (tx # txs) =
     (case evm_trace_header W tx of
        None \<Rightarrow> evm_trace_loop W pre_evm_root post_evm_root post_state (idx + 1) txs
      | Some (kind, to, val, input_hash, gas_limit) \<Rightarrow>
          (case tx_hash (wx_block W) tx of
             None \<Rightarrow> None
           | Some h \<Rightarrow>
               let logs = unwrap_or (evm_tx_logs post_state h) []
               in case (gas_used_after_apply (wx_ledger W) post_state tx, evm_log_root (wx_block W) logs) of
                    (Inr gas_used, Some log_root) \<Rightarrow>
                      map_option ((#) \<lparr>er_tx_index = of_nat idx, er_tx_hash = h, er_kind = kind,
                          er_caller = tx_signer tx, er_to = to, er_value = val, er_input_hash = input_hash,
                          er_gas_limit = gas_limit, er_gas_used = gas_used,
                          er_success = unwrap_or (evm_tx_success post_state h) True, er_log_root = log_root,
                          er_pre_evm_root = pre_evm_root, er_post_evm_root = post_evm_root\<rparr>)
                        (evm_trace_loop W pre_evm_root post_evm_root post_state (idx + 1) txs)
                  | _ \<Rightarrow> None))"

definition evm_execution_trace_rows_v1 ::
    "witness_ext \<Rightarrow> state \<Rightarrow> state \<Rightarrow> transaction list \<Rightarrow> evm_execution_trace_row list option" where
  "evm_execution_trace_rows_v1 W pre_state post_state txs =
     (case (state_commitment_v1 (wx_commit W) pre_state, state_commitment_v1 (wx_commit W) post_state) of
        (Some pre, Some post) \<Rightarrow> evm_trace_loop W (sm_evm_root pre) (sm_evm_root post) post_state 0 txs
      | _ \<Rightarrow> None)"

section \<open>Witness\<close>

text \<open>The checked sum of the receipts, which gives the sum before the one that overflows.\<close>

fun gas_sum_loop :: "u64 \<Rightarrow> mixed_execution_tx_receipt list \<Rightarrow> u64 + u64" where
  "gas_sum_loop acc [] = Inr acc"
| "gas_sum_loop acc (r # rs) =
     (case checked_add acc (mr_gas_used r) of None \<Rightarrow> Inl acc | Some acc' \<Rightarrow> gas_sum_loop acc' rs)"

definition witness_gas_sum :: "mixed_execution_tx_receipt list \<Rightarrow> mixed_witness_error + u64" where
  "witness_gas_sum rs =
     (case gas_sum_loop 0 rs of Inl acc \<Rightarrow> Inl (WitGasSumMismatch (- 1) acc) | Inr g \<Rightarrow> Inr g)"

definition mixed_execution_public_inputs_from_block ::
    "witness_ext \<Rightarrow> block \<Rightarrow> mixed_execution_public_inputs option" where
  "mixed_execution_public_inputs_from_block W block =
     (let h = bk_header block
      in case (header_hash (wx_block W) h,
               coverage_manifest_digest W (coverage_manifest_for_circuit_version DevMixedV1)) of
           (Some hh, Some digest) \<Rightarrow>
             Some \<lparr>pi_version = 1, pi_chain_id = hd_chain_id h, pi_height = hd_height h, pi_block_hash = hh,
                   pi_timestamp_ms = hd_timestamp_ms h, pi_parent_state_root = hd_parent_state_root h,
                   pi_post_state_root = hd_state_root h, pi_tx_root = hd_tx_root h,
                   pi_receipt_root = hd_receipt_root h, pi_native_event_root = hd_native_event_root h,
                   pi_evm_log_root = hd_evm_log_root h, pi_gas_used = hd_gas_used h,
                   pi_zone_namespace = hd_zone_namespace h, pi_da_root = hd_da_root h,
                   pi_circuit_version = DevMixedV1, pi_coverage_manifest_digest = digest,
                   pi_feature_set = hd_feature_set h\<rparr>
         | _ \<Rightarrow> None)"

definition mixed_execution_witness_from_state_transition ::
    "witness_ext \<Rightarrow> block \<Rightarrow> state \<Rightarrow> state \<Rightarrow> mixed_execution_witness option" where
  "mixed_execution_witness_from_state_transition W block pre_state post_state =
     (case state_access_witnesses_v1 (wx_commit W) pre_state post_state of None \<Rightarrow> None | Some accesses \<Rightarrow>
     (case mixed_execution_tx_receipts (wx_block W) post_state (bk_transactions block) of None \<Rightarrow> None | Some rs \<Rightarrow>
     (case gas_sum_loop 0 rs of Inl _ \<Rightarrow> None | Inr gas_sum \<Rightarrow>
      if gas_sum \<noteq> hd_gas_used (bk_header block) then None
      else
     (case mixed_execution_public_inputs_from_block W block of None \<Rightarrow> None | Some inputs \<Rightarrow>
     (case state_commitment_v1 (wx_commit W) pre_state of None \<Rightarrow> None | Some pre_commitment \<Rightarrow>
     (case state_commitment_v1 (wx_commit W) post_state of None \<Rightarrow> None | Some post_commitment \<Rightarrow>
     (case native_execution_trace_rows_v1 W pre_state post_state (bk_transactions block) accesses
             (hd_native_event_root (bk_header block)) of None \<Rightarrow> None | Some native_rows \<Rightarrow>
     (case native_precompile_dispatch_trace_rows_v1 W post_state (bk_transactions block) of
        None \<Rightarrow> None | Some dispatch_rows \<Rightarrow>
     (case evm_execution_trace_rows_v1 W pre_state post_state (bk_transactions block) of
        None \<Rightarrow> None | Some evm_rows \<Rightarrow>
        Some \<lparr>mw_version = 1, mw_public_inputs = inputs, mw_pre_state_commitment = pre_commitment,
              mw_post_state_commitment = post_commitment, mw_state_accesses = accesses,
              mw_native_trace_rows = native_rows, mw_precompile_dispatch_rows = dispatch_rows,
              mw_evm_trace_rows = evm_rows, mw_evm_zkvm_surface = evm_zkvm_surface_v1, mw_gas_sum = gas_sum,
              mw_transactions = bk_transactions block, mw_eth_signed_raw = bk_eth_signed_raw block,
              mw_tx_receipts = rs\<rparr>)))))))))"

definition mixed_execution_witness_digest :: "witness_ext \<Rightarrow> mixed_execution_witness \<Rightarrow> hash256 option" where
  "mixed_execution_witness_digest W w = map_option (wx_keccak256 W) (wx_borsh_witness W w)"

definition public_inputs_digest :: "witness_ext \<Rightarrow> mixed_execution_public_inputs \<Rightarrow> hash256 option" where
  "public_inputs_digest W inputs = map_option (wx_keccak256 W) (wx_borsh_public_inputs W inputs)"

definition mixed_execution_witness_metadata_of ::
    "witness_ext \<Rightarrow> mixed_execution_witness \<Rightarrow> witness_retention_policy \<Rightarrow> mixed_execution_witness_metadata option" where
  "mixed_execution_witness_metadata_of W w policy =
     (let inputs = mw_public_inputs w
      in case (mixed_execution_witness_digest W w, public_inputs_digest W inputs) of
           (Some wd, Some pid) \<Rightarrow>
             Some \<lparr>md_version = 1, md_block_hash = pi_block_hash inputs, md_height = pi_height inputs,
                   md_witness_digest = wd, md_public_input_digest = pid,
                   md_circuit_version = pi_circuit_version inputs,
                   md_coverage_manifest_digest = pi_coverage_manifest_digest inputs,
                   md_feature_set = pi_feature_set inputs, md_retention_policy = policy\<rparr>
         | _ \<Rightarrow> None)"

definition mixed_execution_witness_from_replay ::
    "witness_ext \<Rightarrow> block \<Rightarrow> state \<Rightarrow> mixed_witness_error + mixed_execution_witness" where
  "mixed_execution_witness_from_replay W block pre_state =
     (let B = wx_block W; header = bk_header block; txs = bk_transactions block
      in case apply_block_with_evm (bx_ledger B) (bx_evm B) pre_state txs of
           (_, Inl e) \<Rightarrow> Inl (WitExec e)
         | (replayed, Inr gas_used) \<Rightarrow>
             if gas_used \<noteq> hd_gas_used header then Inl (WitGasUsedMismatch (hd_gas_used header) gas_used)
             else
             attempt (ok_or WitIo (state_root B replayed)) (\<lambda>sr.
             if sr \<noteq> hd_state_root header then Inl WitStateRoot
             else
             attempt (ok_or WitIo (ordered_tx_root B txs)) (\<lambda>tx_root.
             if tx_root \<noteq> hd_tx_root header then Inl WitTxRoot
             else
             attempt (ok_or WitIo (mixed_execution_tx_receipts B replayed txs)) (\<lambda>rs.
             attempt (witness_gas_sum rs) (\<lambda>receipt_gas_sum.
             if receipt_gas_sum \<noteq> hd_gas_used header
             then Inl (WitGasSumMismatch (hd_gas_used header) receipt_gas_sum)
             else
             attempt (ok_or WitIo (tx_receipt_root B rs)) (\<lambda>receipt_root.
             if receipt_root \<noteq> hd_receipt_root header then Inl WitReceiptRoot
             else
             attempt (ok_or WitIo (block_evm_log_root B replayed txs)) (\<lambda>log_root.
             if log_root \<noteq> hd_evm_log_root header then Inl WitEvmLogRoot
             else if block_feature_set txs \<noteq> hd_feature_set header then Inl WitFeatureSet
             else ok_or WitIo (mixed_execution_witness_from_state_transition W block pre_state replayed))))))))"

definition mixed_execution_witness_from_executed_block ::
    "witness_ext \<Rightarrow> block \<Rightarrow> state \<Rightarrow> mixed_execution_witness option" where
  "mixed_execution_witness_from_executed_block W block executed_state =
     mixed_execution_witness_from_state_transition W block executed_state executed_state"

end
