(* ===== verification/Proof_System.thy ===== *)
theory Proof_System
  imports Exec_Witness
begin

text \<open>
  Validity proofs of blocks, \<open>crates/consensus/src/proof.rs\<close> and the proof check of
  \<open>crates/consensus/src/lib.rs\<close>: the statements and fixtures built from a witness, the proof
  envelope and its verification, and the check of a proof against a block.  The Borsh encoders
  and the decoder of the envelope, the Plonky2 verifier and the process environment are the
  record \<open>proof_ext\<close>; \<open>'v\<close> is decoded verifier data and \<open>'p\<close> a decoded proof.  \<open>AirPanic\<close> is the
  abort of the \<open>expect\<close> on the encoding of the coverage manifest.
\<close>

section \<open>Types\<close>

datatype validity_proof_system = DevDigest | StwoPlonky2

record block_validity_proof =
  bp_chain_id :: u64
  bp_height :: u64
  bp_block_hash :: hash256
  bp_timestamp_ms :: u64
  bp_parent_state_root :: hash256
  bp_state_root :: hash256
  bp_tx_root :: hash256
  bp_receipt_root :: hash256
  bp_native_event_root :: hash256
  bp_evm_log_root :: hash256
  bp_gas_used :: u64
  bp_zone_namespace :: da_namespace
  bp_da_root :: hash256
  bp_circuit_version :: circuit_version
  bp_coverage_manifest_digest :: hash256
  bp_feature_set :: execution_feature_set
  bp_proof_system :: validity_proof_system
  bp_proof_bytes :: bytes

datatype native_air_error =
    UnsupportedWitnessVersion | AirCircuitVersion | AirCoverageManifest | EvmExecutionPresent
  | PrecompileDispatchPresent | AirCoverage | AirGas | AirReceiptRoot | AirNativeEventRoot | FixedGas u32
  | TraceTx u32 | NativeSubtrieWitness | FixtureDigest | AirEncode
  | AirPanic

datatype production_proof_error =
    MalformedEnvelope | UnsupportedVersion | StwoAdapterUnavailable | StwoAirAdapter | RecursiveFixture
  | PublicInputDigest | Plonky2VerifierData | Plonky2Proof | Plonky2Rejected | NativeRecursiveFixture
  | NativeCircuitVersion | NativeInterBlockChain | EvmZkVmFixture | MixedCircuitVersion | MixedAggregateFixture

datatype proof_verify_error =
    PvChainId | PvHeight | PvBlockHash | PvTimestamp | PvStateRoot | PvParentStateRoot | PvTxRoot | PvReceiptRoot
  | PvNativeEventRoot | PvEvmLogRoot | PvDaRoot | PvZoneNamespace | PvFeatureSet | PvCoverageManifest
  | PvCircuitCoverage | PvEmptyProof | PvProduction production_proof_error | PvBadDevDigest | PvDevDigestDisabled
  | PvDataAvailability | PvIo

record stwo_execution_air_adapter =
  sx_version :: u16
  sx_air_id :: hash256
  sx_chain_id :: u64
  sx_height :: u64
  sx_block_hash :: hash256
  sx_timestamp_ms :: u64
  sx_parent_state_root :: hash256
  sx_state_root :: hash256
  sx_tx_root :: hash256
  sx_receipt_root :: hash256
  sx_native_event_root :: hash256
  sx_evm_log_root :: hash256
  sx_gas_used :: u64
  sx_zone_namespace :: da_namespace
  sx_da_root :: hash256
  sx_circuit_version :: circuit_version
  sx_coverage_manifest_digest :: hash256
  sx_feature_set :: execution_feature_set
  sx_public_input_digest :: hash256
  sx_public_input_limbs :: "u64 list"

record trace_column_row =
  tc_tx_index :: u32
  tc_columns :: "u64 list"

record native_state_transition_air =
  na_version :: u16
  na_air_id :: hash256
  na_trace_column_count :: u16
  na_state_commitment_scheme :: commitment_scheme
  na_circuit_version :: circuit_version
  na_coverage_manifest_digest :: hash256

record native_statement =
  ns_version :: u16
  ns_air_id :: hash256
  ns_public_input_digest :: hash256
  ns_witness_digest :: hash256
  ns_fiat_shamir_transcript_digest :: hash256
  ns_trace_root :: hash256
  ns_native_subtrie_access_digest :: hash256
  ns_constraint_digest :: hash256
  ns_gas_used :: u64
  ns_native_event_root :: hash256
  ns_receipt_root :: hash256
  ns_feature_set :: execution_feature_set
  ns_trace_rows :: u32

record native_proof_fixture =
  nf_version :: u16
  nf_air :: native_state_transition_air
  nf_statement :: native_statement
  nf_proof_digest :: hash256

record native_recursive_wrap_fixture =
  wf_version :: u16
  wf_fixture_id :: hash256
  wf_native_statement_digest :: hash256
  wf_public_input_digest :: hash256
  wf_public_input_limbs :: "u64 list"
  wf_circuit_version :: circuit_version
  wf_coverage_manifest_digest :: hash256

record compressed_plonky2_fixture =
  zf_version :: u16
  zf_verifier_id :: hash256
  zf_recursive_fixture_digest :: hash256
  zf_public_input_digest :: hash256
  zf_public_input_limbs :: "u64 list"
  zf_proof_digest :: hash256
  zf_compressed :: bool

record evm_zkvm_statement =
  es_version :: u16
  es_zkvm_choice :: zkvm_choice
  es_zkvm_target_id :: hash256
  es_revm_subset_digest :: hash256
  es_public_input_digest :: hash256
  es_witness_digest :: hash256
  es_evm_trace_root :: hash256
  es_evm_state_access_digest :: hash256
  es_pre_evm_root :: hash256
  es_post_evm_root :: hash256
  es_unified_post_state_root :: hash256
  es_evm_log_root :: hash256
  es_gas_used :: u64
  es_feature_set :: execution_feature_set
  es_covered_features :: execution_feature_set
  es_evm_trace_rows :: u32

record evm_zkvm_fixture =
  ef_version :: u16
  ef_statement :: evm_zkvm_statement
  ef_coverage_manifest_digest :: hash256
  ef_proof_digest :: hash256

record native_mixed_component_statement =
  nm_version :: u16
  nm_component_id :: hash256
  nm_public_input_digest :: hash256
  nm_witness_digest :: hash256
  nm_native_trace_root :: hash256
  nm_precompile_dispatch_root :: hash256
  nm_native_state_access_digest :: hash256
  nm_native_event_root :: hash256
  nm_receipt_root :: hash256
  nm_gas_used :: u64
  nm_feature_set :: execution_feature_set
  nm_native_trace_rows :: u32
  nm_precompile_dispatch_rows :: u32

record mixed_aggregate_fixture =
  mf_version :: u16
  mf_public_input_digest :: hash256
  mf_witness_digest :: hash256
  mf_circuit_version :: circuit_version
  mf_coverage_manifest_digest :: hash256
  mf_native_component_statement :: native_mixed_component_statement
  mf_evm_zkvm_fixture :: evm_zkvm_fixture
  mf_native_component_digest :: hash256
  mf_evm_component_digest :: hash256
  mf_aggregate_proof_digest :: hash256
  mf_compressed :: bool

record canonical_recursive_fixture =
  kf_version :: u16
  kf_fixture_id :: hash256
  kf_stwo_air_adapter_digest :: hash256
  kf_plonky2_verifier_id :: hash256
  kf_public_input_digest :: hash256
  kf_public_input_limbs :: "u64 list"

datatype proof_envelope =
    Plonky2PoseidonGoldilocksV1 bytes bytes bool
  | StwoV1 stwo_execution_air_adapter canonical_recursive_fixture bytes
  | NativeRecursiveFixtureV1 native_statement native_recursive_wrap_fixture compressed_plonky2_fixture
  | EvmZkVmFixtureV1 evm_zkvm_fixture
  | MixedIntraBlockAggregateFixtureV1 mixed_aggregate_fixture

text \<open>
  One encoder for each type and tuple that is hashed.  \<open>pv_plonky2_proof\<close> gives the proof and its
  public inputs as canonical integers; the first boolean of the Plonky2 functions says whether
  the proof is compressed.
\<close>

record ('v, 'p) proof_ext =
  pv_witness :: witness_ext
  pv_env_network :: "string option"
  pv_env_environment :: "string option"
  pv_enc_adapter :: "stwo_execution_air_adapter \<Rightarrow> bytes option"
  pv_enc_columns :: "trace_column_row list \<Rightarrow> bytes option"
  pv_enc_accesses :: "state_merkle_access_witness list \<Rightarrow> bytes option"
  pv_enc_constraint :: "trace_column_row list \<times> u64 \<times> hash256 \<times> hash256 \<times> execution_feature_set \<times> hash256 \<Rightarrow> bytes option"
  pv_enc_transcript :: "bytes \<times> hash256 \<times> hash256 \<times> hash256 \<times> hash256 \<times> hash256 \<Rightarrow> bytes option"
  pv_enc_native_fixture :: "bytes \<times> native_state_transition_air \<times> native_statement \<Rightarrow> bytes option"
  pv_enc_native_statement :: "native_statement \<Rightarrow> bytes option"
  pv_enc_evm_rows :: "evm_execution_trace_row list \<Rightarrow> bytes option"
  pv_enc_surface :: "evm_zkvm_surface \<Rightarrow> bytes option"
  pv_enc_dispatch_rows :: "native_precompile_dispatch_trace_row list \<Rightarrow> bytes option"
  pv_enc_component :: "native_mixed_component_statement \<Rightarrow> bytes option"
  pv_enc_evm_fixture_body :: "bytes \<times> bytes \<times> evm_zkvm_statement \<times> hash256 \<Rightarrow> bytes option"
  pv_enc_evm_fixture :: "evm_zkvm_fixture \<Rightarrow> bytes option"
  pv_enc_aggregate :: "bytes \<times> hash256 \<times> hash256 \<times> hash256 \<times> hash256 \<times> hash256 \<times> bool \<Rightarrow> bytes option"
  pv_enc_wrap_body :: "bytes \<times> hash256 \<times> hash256 \<times> u64 list \<times> circuit_version \<times> hash256 \<Rightarrow> bytes option"
  pv_enc_wrap_fixture :: "native_recursive_wrap_fixture \<Rightarrow> bytes option"
  pv_enc_compressed_body :: "bytes \<times> hash256 \<times> hash256 \<times> hash256 \<times> u64 list \<times> bool \<Rightarrow> bytes option"
  pv_enc_canonical_body :: "bytes \<times> hash256 \<times> hash256 \<times> hash256 \<times> u64 list \<Rightarrow> bytes option"
  pv_decode_envelope :: "bytes \<Rightarrow> proof_envelope option"
  pv_plonky2_data :: "bytes \<Rightarrow> 'v option"
  pv_plonky2_proof :: "'v \<Rightarrow> bool \<Rightarrow> bytes \<Rightarrow> ('p \<times> u64 list) option"
  pv_plonky2_verify :: "'v \<Rightarrow> bool \<Rightarrow> 'p \<Rightarrow> bool"

abbreviation pv_kc :: "('v, 'p) proof_ext \<Rightarrow> bytes \<Rightarrow> hash256" where
  "pv_kc P \<equiv> wx_keccak256 (pv_witness P)"

abbreviation pv_digest :: "('v, 'p) proof_ext \<Rightarrow> ('a \<Rightarrow> bytes option) \<Rightarrow> 'a \<Rightarrow> hash256 option" where
  "pv_digest P enc x \<equiv> map_option (pv_kc P) (enc x)"

definition STWO_EXECUTION_AIR_ADAPTER_V1_TAG :: bytes where
  "STWO_EXECUTION_AIR_ADAPTER_V1_TAG = ascii ''FRACTAL_STWO_EXECUTION_AIR_ADAPTER_V1''"
definition STWO_RECURSIVE_FIXTURE_V1_TAG :: bytes where
  "STWO_RECURSIVE_FIXTURE_V1_TAG = ascii ''FRACTAL_STWO_RECURSIVE_FIXTURE_V1''"
definition NATIVE_STATE_TRANSITION_AIR_V1_TAG :: bytes where
  "NATIVE_STATE_TRANSITION_AIR_V1_TAG = ascii ''FRACTAL_NATIVE_STATE_TRANSITION_AIR_V1''"
definition NATIVE_STATE_TRANSITION_FS_V1_TAG :: bytes where
  "NATIVE_STATE_TRANSITION_FS_V1_TAG = ascii ''FRACTAL_NATIVE_STATE_TRANSITION_FS_V1''"
definition NATIVE_STATE_TRANSITION_FIXTURE_V1_TAG :: bytes where
  "NATIVE_STATE_TRANSITION_FIXTURE_V1_TAG = ascii ''FRACTAL_NATIVE_STATE_TRANSITION_FIXTURE_V1''"
definition NATIVE_RECURSIVE_WRAP_FIXTURE_V1_TAG :: bytes where
  "NATIVE_RECURSIVE_WRAP_FIXTURE_V1_TAG = ascii ''FRACTAL_NATIVE_RECURSIVE_WRAP_FIXTURE_V1''"
definition NATIVE_COMPRESSED_PLONKY2_FIXTURE_V1_TAG :: bytes where
  "NATIVE_COMPRESSED_PLONKY2_FIXTURE_V1_TAG = ascii ''FRACTAL_NATIVE_COMPRESSED_PLONKY2_FIXTURE_V1''"
definition EVM_ZKVM_TRANSITION_STATEMENT_V1_TAG :: bytes where
  "EVM_ZKVM_TRANSITION_STATEMENT_V1_TAG = ascii ''FRACTAL_EVM_ZKVM_TRANSITION_STATEMENT_V1''"
definition EVM_ZKVM_FIXTURE_V1_TAG :: bytes where
  "EVM_ZKVM_FIXTURE_V1_TAG = ascii ''FRACTAL_EVM_ZKVM_FIXTURE_V1''"
definition NATIVE_MIXED_COMPONENT_STATEMENT_V1_TAG :: bytes where
  "NATIVE_MIXED_COMPONENT_STATEMENT_V1_TAG = ascii ''FRACTAL_NATIVE_MIXED_COMPONENT_STATEMENT_V1''"
definition MIXED_INTRABLOCK_AGGREGATE_FIXTURE_V1_TAG :: bytes where
  "MIXED_INTRABLOCK_AGGREGATE_FIXTURE_V1_TAG = ascii ''FRACTAL_MIXED_INTRABLOCK_AGGREGATE_FIXTURE_V1''"

section \<open>Public inputs\<close>

text \<open>The integer whose bytes are given, the least significant first.\<close>

definition stwo_plonky2_public_input_limbs :: "hash256 \<Rightarrow> u64 list" where
  "stwo_plonky2_public_input_limbs digest = map (\<lambda>i. le_word (take 4 (drop (4 * i) (be_bytes 32 digest)))) [0..<8]"

definition low_u64 :: "hash256 \<Rightarrow> nat \<Rightarrow> u64" where
  "low_u64 h offset = le_word (take 8 (drop offset (be_bytes 32 h)))"

definition validity_proof_public_inputs :: "block_validity_proof \<Rightarrow> mixed_execution_public_inputs" where
  "validity_proof_public_inputs p =
     \<lparr>pi_version = 1, pi_chain_id = bp_chain_id p, pi_height = bp_height p, pi_block_hash = bp_block_hash p,
      pi_timestamp_ms = bp_timestamp_ms p, pi_parent_state_root = bp_parent_state_root p,
      pi_post_state_root = bp_state_root p, pi_tx_root = bp_tx_root p, pi_receipt_root = bp_receipt_root p,
      pi_native_event_root = bp_native_event_root p, pi_evm_log_root = bp_evm_log_root p,
      pi_gas_used = bp_gas_used p, pi_zone_namespace = bp_zone_namespace p, pi_da_root = bp_da_root p,
      pi_circuit_version = bp_circuit_version p, pi_coverage_manifest_digest = bp_coverage_manifest_digest p,
      pi_feature_set = bp_feature_set p\<rparr>"

definition validity_proof_public_input_digest :: "('v, 'p) proof_ext \<Rightarrow> block_validity_proof \<Rightarrow> hash256 option" where
  "validity_proof_public_input_digest P p = public_inputs_digest (pv_witness P) (validity_proof_public_inputs p)"

definition stwo_execution_air_id :: "('v, 'p) proof_ext \<Rightarrow> hash256" where
  "stwo_execution_air_id P = pv_kc P STWO_EXECUTION_AIR_ADAPTER_V1_TAG"

definition stwo_execution_air_adapter_v1 ::
    "('v, 'p) proof_ext \<Rightarrow> block_validity_proof \<Rightarrow> stwo_execution_air_adapter option" where
  "stwo_execution_air_adapter_v1 P p =
     map_option (\<lambda>digest. \<lparr>sx_version = 1, sx_air_id = stwo_execution_air_id P, sx_chain_id = bp_chain_id p,
        sx_height = bp_height p, sx_block_hash = bp_block_hash p, sx_timestamp_ms = bp_timestamp_ms p,
        sx_parent_state_root = bp_parent_state_root p, sx_state_root = bp_state_root p, sx_tx_root = bp_tx_root p,
        sx_receipt_root = bp_receipt_root p, sx_native_event_root = bp_native_event_root p,
        sx_evm_log_root = bp_evm_log_root p, sx_gas_used = bp_gas_used p, sx_zone_namespace = bp_zone_namespace p,
        sx_da_root = bp_da_root p, sx_circuit_version = bp_circuit_version p,
        sx_coverage_manifest_digest = bp_coverage_manifest_digest p, sx_feature_set = bp_feature_set p,
        sx_public_input_digest = digest, sx_public_input_limbs = stwo_plonky2_public_input_limbs digest\<rparr>)
       (validity_proof_public_input_digest P p)"

definition stwo_execution_air_adapter_digest ::
    "('v, 'p) proof_ext \<Rightarrow> stwo_execution_air_adapter \<Rightarrow> hash256 option" where
  "stwo_execution_air_adapter_digest P a = pv_digest P (pv_enc_adapter P) a"

definition stwo_plonky2_verifier_id :: "('v, 'p) proof_ext \<Rightarrow> bytes \<Rightarrow> hash256" where
  "stwo_plonky2_verifier_id P data = pv_kc P data"

section \<open>The native transition\<close>

definition native_state_transition_air_id :: "('v, 'p) proof_ext \<Rightarrow> hash256" where
  "native_state_transition_air_id P = pv_kc P NATIVE_STATE_TRANSITION_AIR_V1_TAG"

definition native_state_transition_air_v1 :: "('v, 'p) proof_ext \<Rightarrow> native_air_error + native_state_transition_air" where
  "native_state_transition_air_v1 P =
     attempt (ok_or AirPanic (coverage_manifest_digest (pv_witness P)
         (coverage_manifest_for_circuit_version NativeStateTransitionV1))) (\<lambda>digest.
       Inr \<lparr>na_version = 1, na_air_id = native_state_transition_air_id P, na_trace_column_count = 16,
            na_state_commitment_scheme = FractalSnarkSmtV1, na_circuit_version = NativeStateTransitionV1,
            na_coverage_manifest_digest = digest\<rparr>)"

fun native_call_opcode :: "native_call \<Rightarrow> u8" where
  "native_call_opcode (RegisterAgent _ _ _ _) = 0x01"
| "native_call_opcode (UpdateAgent _ _ _) = 0x02"
| "native_call_opcode (SuspendAgent _ _) = 0x03"
| "native_call_opcode (SettleReceipt _) = 0x04"
| "native_call_opcode (SettleBatch _) = 0x05"
| "native_call_opcode (ClaimPayout _ _ _ _ _) = 0x06"
| "native_call_opcode (FileDispute _ _ _) = 0x07"
| "native_call_opcode (ResolveDispute _ _ _) = 0x08"
| "native_call_opcode (Stake _) = 0x09"
| "native_call_opcode (Unstake _) = 0x0a"
| "native_call_opcode (Slash _ _) = 0x0b"
| "native_call_opcode (Delegate _ _) = 0x0c"
| "native_call_opcode (WithdrawRewards _) = 0x0d"
| "native_call_opcode (WalletTaskReceiptAnchorV1 _ _) = 0x0e"
| "native_call_opcode NoOp = 0x00"
| "native_call_opcode (SetChainEconomics _) = 0x0f"
| "native_call_opcode (ProofCommitmentV1 _) = 0x10"
| "native_call_opcode (LifeCommandV1 _) = 0x11"

fun collect_results :: "('e + 'a) list \<Rightarrow> 'e + 'a list" where
  "collect_results [] = Inr []"
| "collect_results (r # rs) = attempt r (\<lambda>x. attempt (collect_results rs) (\<lambda>xs. Inr (x # xs)))"

definition trace_column_row_of ::
    "('v, 'p) proof_ext \<Rightarrow> mixed_execution_witness \<Rightarrow> native_execution_trace_row \<Rightarrow> native_air_error + trace_column_row" where
  "trace_column_row_of P w row =
     (if length (mw_transactions w) \<le> unat (nt_tx_index row) then Inl (TraceTx (nt_tx_index row))
      else
      attempt (ok_or AirEncode (tx_hash (wx_block (pv_witness P)) (mw_transactions w ! unat (nt_tx_index row)))) (\<lambda>h.
      if nt_tx_hash row \<noteq> h then Inl (TraceTx (nt_tx_index row))
      else
      attempt (ok_or AirEncode (pv_digest P (ext_borsh_native_call (wx_ledger (pv_witness P))) (nt_call row))) (\<lambda>payload_hash.
      let signer_hash = pv_kc P (be_bytes 20 (nt_signer row))
      in Inr \<lparr>tc_tx_index = nt_tx_index row,
           tc_columns = [ucast (nt_tx_index row), ucast (native_call_opcode (nt_call row)), nt_nonce row,
             nt_gas_used row, nt_signer_pre_nonce row, nt_signer_post_nonce row,
             ucast (nt_signer_pre_balance row), ucast (nt_signer_post_balance row),
             of_nat (length (nt_state_access_indices row)), low_u64 (nt_tx_hash row) 0, low_u64 (nt_tx_hash row) 8,
             low_u64 payload_hash 0, low_u64 payload_hash 8, low_u64 signer_hash 0,
             ucast (nt_native_event_start row), ucast (nt_native_event_count row)]\<rparr>)))"

definition native_state_transition_trace_columns_v1 ::
    "('v, 'p) proof_ext \<Rightarrow> mixed_execution_witness \<Rightarrow> native_air_error + trace_column_row list" where
  "native_state_transition_trace_columns_v1 P w =
     collect_results (map (trace_column_row_of P w) (mw_native_trace_rows w))"

definition access_lacks_path :: "state_merkle_access_witness \<Rightarrow> bool" where
  "access_lacks_path row \<longleftrightarrow>
     (let needs_pre = (aw_kind row = AccessRead \<or> aw_kind row = AccessReadWrite);
          needs_post = (aw_kind row = AccessWrite \<or> aw_kind row = AccessReadWrite)
      in needs_pre \<and> aw_pre_value_hash row \<noteq> None \<and> aw_pre_state_path row = []
         \<or> needs_post \<and> aw_post_value_hash row \<noteq> None \<and> aw_post_state_path row = [])"

definition accesses_in :: "state_commitment_namespace list \<Rightarrow> mixed_execution_witness \<Rightarrow> state_merkle_access_witness list" where
  "accesses_in nss w = filter (\<lambda>row. aw_namespace row \<in> set nss) (mw_state_accesses w)"

definition native_subtrie_access_digest ::
    "('v, 'p) proof_ext \<Rightarrow> mixed_execution_witness \<Rightarrow> native_air_error + hash256" where
  "native_subtrie_access_digest P w =
     (let native_rows = accesses_in [NsNative, NsAccounts] w
      in if list_ex access_lacks_path native_rows then Inl NativeSubtrieWitness
         else ok_or AirEncode (pv_digest P (pv_enc_accesses P) native_rows))"

fun check_native_rows ::
    "('v, 'p) proof_ext \<Rightarrow> mixed_execution_witness \<Rightarrow> native_execution_trace_row list \<Rightarrow> native_air_error option" where
  "check_native_rows P w [] = None"
| "check_native_rows P w (row # rows) =
     (if length (mw_transactions w) \<le> unat (nt_tx_index row) then Some (TraceTx (nt_tx_index row))
      else if nt_native_event_root row \<noteq> pi_native_event_root (mw_public_inputs w) then Some AirNativeEventRoot
      else case intrinsic_gas (wx_ledger (pv_witness P)) (mw_transactions w ! unat (nt_tx_index row)) of
        Inl _ \<Rightarrow> Some (FixedGas (nt_tx_index row))
      | Inr fixed_gas \<Rightarrow>
          if nt_gas_used row \<noteq> fixed_gas then Some (FixedGas (nt_tx_index row)) else check_native_rows P w rows)"

text \<open>The digests and the statement, once the checks have passed.\<close>

definition native_statement_of ::
    "('v, 'p) proof_ext \<Rightarrow> mixed_execution_witness \<Rightarrow> native_state_transition_air \<Rightarrow> native_air_error + native_statement" where
  "native_statement_of P w air =
     (let inputs = mw_public_inputs w
      in
      attempt (native_state_transition_trace_columns_v1 P w) (\<lambda>columns.
      attempt (ok_or AirEncode (public_inputs_digest (pv_witness P) inputs)) (\<lambda>pid.
      attempt (ok_or AirEncode (mixed_execution_witness_digest (pv_witness P) w)) (\<lambda>wd.
      attempt (ok_or AirEncode (pv_digest P (pv_enc_columns P) columns)) (\<lambda>trace_root.
      attempt (native_subtrie_access_digest P w) (\<lambda>access_digest.
      attempt (ok_or AirEncode (pv_digest P (pv_enc_constraint P)
          (columns, pi_gas_used inputs, pi_receipt_root inputs, pi_native_event_root inputs,
           pi_feature_set inputs, access_digest))) (\<lambda>constraint_digest.
      attempt (ok_or AirEncode (pv_digest P (pv_enc_transcript P)
          (NATIVE_STATE_TRANSITION_FS_V1_TAG, pid, wd, trace_root, access_digest, constraint_digest))) (\<lambda>transcript.
      Inr \<lparr>ns_version = 1, ns_air_id = na_air_id air, ns_public_input_digest = pid, ns_witness_digest = wd,
           ns_fiat_shamir_transcript_digest = transcript, ns_trace_root = trace_root,
           ns_native_subtrie_access_digest = access_digest, ns_constraint_digest = constraint_digest,
           ns_gas_used = pi_gas_used inputs, ns_native_event_root = pi_native_event_root inputs,
           ns_receipt_root = pi_receipt_root inputs, ns_feature_set = pi_feature_set inputs,
           ns_trace_rows = of_nat (length columns)\<rparr>))))))))"

definition native_state_transition_statement_v1 ::
    "('v, 'p) proof_ext \<Rightarrow> mixed_execution_witness \<Rightarrow> native_air_error + native_statement" where
  "native_state_transition_statement_v1 P w =
     (let inputs = mw_public_inputs w
      in
      if mw_version w \<noteq> 1 then Inl UnsupportedWitnessVersion
      else if pi_circuit_version inputs \<noteq> NativeStateTransitionV1 then Inl AirCircuitVersion
      else
      attempt (native_state_transition_air_v1 P) (\<lambda>air.
      if pi_coverage_manifest_digest inputs \<noteq> na_coverage_manifest_digest air then Inl AirCoverageManifest
      else if mw_evm_trace_rows w \<noteq> [] then Inl EvmExecutionPresent
      else if mw_precompile_dispatch_rows w \<noteq> [] then Inl PrecompileDispatchPresent
      else if \<not> contains_only (pi_feature_set inputs)
                (cm_covered_features (coverage_manifest_for_circuit_version (na_circuit_version air)))
      then Inl AirCoverage
      else if mw_gas_sum w \<noteq> pi_gas_used inputs then Inl AirGas
      else
      attempt (ok_or AirEncode (tx_receipt_root (wx_block (pv_witness P)) (mw_tx_receipts w))) (\<lambda>receipt_root.
      if receipt_root \<noteq> pi_receipt_root inputs then Inl AirReceiptRoot
      else case gas_sum_loop 0 (mw_tx_receipts w) of
        Inl _ \<Rightarrow> Inl AirGas
      | Inr tx_gas_sum \<Rightarrow>
          if tx_gas_sum \<noteq> pi_gas_used inputs then Inl AirGas
          else case check_native_rows P w (mw_native_trace_rows w) of
            Some e \<Rightarrow> Inl e
          | None \<Rightarrow> native_statement_of P w air)))"

definition prove_native_state_transition_fixture_v1 ::
    "('v, 'p) proof_ext \<Rightarrow> mixed_execution_witness \<Rightarrow> native_air_error + native_proof_fixture" where
  "prove_native_state_transition_fixture_v1 P w =
     attempt (native_state_transition_air_v1 P) (\<lambda>air.
     attempt (native_state_transition_statement_v1 P w) (\<lambda>statement.
     attempt (ok_or AirEncode (pv_digest P (pv_enc_native_fixture P)
         (NATIVE_STATE_TRANSITION_FIXTURE_V1_TAG, air, statement))) (\<lambda>proof_digest.
     Inr \<lparr>nf_version = 1, nf_air = air, nf_statement = statement, nf_proof_digest = proof_digest\<rparr>)))"

definition verify_native_state_transition_fixture_v1 ::
    "('v, 'p) proof_ext \<Rightarrow> native_proof_fixture \<Rightarrow> mixed_execution_witness \<Rightarrow> native_air_error + unit" where
  "verify_native_state_transition_fixture_v1 P fixture w =
     (if nf_version fixture \<noteq> 1 then Inl AirCircuitVersion
      else
      attempt (native_state_transition_air_v1 P) (\<lambda>air.
      if nf_air fixture \<noteq> air then Inl AirCircuitVersion
      else
      attempt (native_state_transition_statement_v1 P w) (\<lambda>expected_statement.
      if nf_statement fixture \<noteq> expected_statement then Inl FixtureDigest
      else
      attempt (ok_or AirEncode (pv_digest P (pv_enc_native_fixture P)
          (NATIVE_STATE_TRANSITION_FIXTURE_V1_TAG, nf_air fixture, nf_statement fixture))) (\<lambda>expected_digest.
      if nf_proof_digest fixture \<noteq> expected_digest then Inl FixtureDigest else Inr ()))))"

definition native_state_transition_statement_digest_v1 ::
    "('v, 'p) proof_ext \<Rightarrow> native_statement \<Rightarrow> hash256 option" where
  "native_state_transition_statement_digest_v1 P statement = pv_digest P (pv_enc_native_statement P) statement"

section \<open>The mixed transition\<close>

text \<open>A checked sum over a list, as the \<open>try_fold\<close> of the code; \<open>None\<close> is its overflow error.\<close>

fun checked_sum :: "u64 \<Rightarrow> u64 list \<Rightarrow> u64 option" where
  "checked_sum acc [] = Some acc"
| "checked_sum acc (g # gs) = (case checked_add acc g of None \<Rightarrow> None | Some acc' \<Rightarrow> checked_sum acc' gs)"

text \<open>The functions of this section report every failure as an input-output error, here \<open>None\<close>.\<close>

definition mixed_coverage_ok :: "('v, 'p) proof_ext \<Rightarrow> mixed_execution_public_inputs \<Rightarrow> bool" where
  "mixed_coverage_ok P inputs \<longleftrightarrow>
     (let manifest = coverage_manifest_for_circuit_version MixedStateTransitionV1
      in coverage_manifest_digest (pv_witness P) manifest = Some (pi_coverage_manifest_digest inputs)
         \<and> contains_only (pi_feature_set inputs) (cm_covered_features manifest))"

definition evm_zkvm_transition_statement_v1 ::
    "('v, 'p) proof_ext \<Rightarrow> mixed_execution_witness \<Rightarrow> evm_zkvm_statement option" where
  "evm_zkvm_transition_statement_v1 P w =
     (let inputs = mw_public_inputs w; surface = mw_evm_zkvm_surface w
      in
      if pi_circuit_version inputs \<noteq> MixedStateTransitionV1 then None
      else if surface \<noteq> evm_zkvm_surface_v1 then None
      else if \<not> is_ok (verify_transactions_eligible_for_circuit (mw_transactions w) MixedStateTransitionV1) then None
      else if \<not> mixed_coverage_ok P inputs then None
      else
      (case (checked_sum 0 (map er_gas_used (mw_evm_trace_rows w)),
             checked_sum 0 (map (\<lambda>(r, _). mr_gas_used r)
               (filter (\<lambda>(_, tx). tx_vm tx = VmEvm) (zip (mw_tx_receipts w) (mw_transactions w))))) of
         (Some evm_trace_gas, Some evm_receipt_gas) \<Rightarrow>
           if evm_trace_gas \<noteq> evm_receipt_gas then None
           else
           let pre_evm_root = (if mw_evm_trace_rows w = [] then sm_evm_root (mw_pre_state_commitment w)
                               else er_pre_evm_root (hd (mw_evm_trace_rows w)));
               post_evm_root = (if mw_evm_trace_rows w = [] then sm_evm_root (mw_post_state_commitment w)
                                else er_post_evm_root (last (mw_evm_trace_rows w)))
           in
           if pre_evm_root \<noteq> sm_evm_root (mw_pre_state_commitment w)
              \<or> post_evm_root \<noteq> sm_evm_root (mw_post_state_commitment w) then None
           else
           (case (public_inputs_digest (pv_witness P) inputs, mixed_execution_witness_digest (pv_witness P) w,
                  pv_digest P (pv_enc_evm_rows P) (mw_evm_trace_rows w),
                  pv_digest P (pv_enc_accesses P) (accesses_in [NsAccounts, NsEvm] w),
                  pv_digest P (pv_enc_surface P) surface) of
              (Some pid, Some wd, Some trace_root, Some access_digest, Some subset_digest) \<Rightarrow>
                Some \<lparr>es_version = 1, es_zkvm_choice = zs_zkvm_choice surface,
                      es_zkvm_target_id = pv_kc P (ascii (zs_zkvm_target surface)),
                      es_revm_subset_digest = subset_digest, es_public_input_digest = pid, es_witness_digest = wd,
                      es_evm_trace_root = trace_root, es_evm_state_access_digest = access_digest,
                      es_pre_evm_root = pre_evm_root, es_post_evm_root = post_evm_root,
                      es_unified_post_state_root = pi_post_state_root inputs, es_evm_log_root = pi_evm_log_root inputs,
                      es_gas_used = evm_trace_gas, es_feature_set = pi_feature_set inputs,
                      es_covered_features = zs_covered_features surface,
                      es_evm_trace_rows = of_nat (length (mw_evm_trace_rows w))\<rparr>
            | _ \<Rightarrow> None)
       | _ \<Rightarrow> None))"

definition component_native_row_ok :: "('v, 'p) proof_ext \<Rightarrow> mixed_execution_witness \<Rightarrow> native_execution_trace_row \<Rightarrow> bool" where
  "component_native_row_ok P w row \<longleftrightarrow>
     unat (nt_tx_index row) < length (mw_transactions w)
     \<and> intrinsic_gas (wx_ledger (pv_witness P)) (mw_transactions w ! unat (nt_tx_index row)) = Inr (nt_gas_used row)
     \<and> nt_native_event_root row = pi_native_event_root (mw_public_inputs w)"

definition component_dispatch_row_ok ::
    "('v, 'p) proof_ext \<Rightarrow> mixed_execution_witness \<Rightarrow> native_precompile_dispatch_trace_row \<Rightarrow> bool" where
  "component_dispatch_row_ok P w row \<longleftrightarrow>
     unat (pd_tx_index row) < length (mw_transactions w)
     \<and> (case tx_body (mw_transactions w ! unat (pd_tx_index row)) of
          EvmCall to _ calldata _ \<Rightarrow>
            is_native_precompile_address to \<and> to = pd_precompile_address row
            \<and> pv_kc P calldata = pd_calldata_hash row
        | _ \<Rightarrow> False)"

definition native_mixed_component_statement_v1 ::
    "('v, 'p) proof_ext \<Rightarrow> mixed_execution_witness \<Rightarrow> native_mixed_component_statement option" where
  "native_mixed_component_statement_v1 P w =
     (let inputs = mw_public_inputs w
      in
      if pi_circuit_version inputs \<noteq> MixedStateTransitionV1 then None
      else if \<not> mixed_coverage_ok P inputs then None
      else
      (case native_state_transition_trace_columns_v1 P w of
         Inl _ \<Rightarrow> None
       | Inr columns \<Rightarrow>
           if \<not> list_all (component_native_row_ok P w) (mw_native_trace_rows w) then None
           else if \<not> list_all (component_dispatch_row_ok P w) (mw_precompile_dispatch_rows w) then None
           else if tx_receipt_root (wx_block (pv_witness P)) (mw_tx_receipts w) \<noteq> Some (pi_receipt_root inputs) then None
           else
           (case (checked_sum 0 (map nt_gas_used (mw_native_trace_rows w)),
                  public_inputs_digest (pv_witness P) inputs, mixed_execution_witness_digest (pv_witness P) w,
                  pv_digest P (pv_enc_columns P) columns,
                  pv_digest P (pv_enc_dispatch_rows P) (mw_precompile_dispatch_rows w),
                  pv_digest P (pv_enc_accesses P) (accesses_in [NsAccounts, NsNative] w)) of
              (Some gas_used, Some pid, Some wd, Some trace_root, Some dispatch_root, Some access_digest) \<Rightarrow>
                Some \<lparr>nm_version = 1, nm_component_id = pv_kc P NATIVE_MIXED_COMPONENT_STATEMENT_V1_TAG,
                      nm_public_input_digest = pid, nm_witness_digest = wd, nm_native_trace_root = trace_root,
                      nm_precompile_dispatch_root = dispatch_root, nm_native_state_access_digest = access_digest,
                      nm_native_event_root = pi_native_event_root inputs, nm_receipt_root = pi_receipt_root inputs,
                      nm_gas_used = gas_used, nm_feature_set = pi_feature_set inputs,
                      nm_native_trace_rows = of_nat (length (mw_native_trace_rows w)),
                      nm_precompile_dispatch_rows = of_nat (length (mw_precompile_dispatch_rows w))\<rparr>
            | _ \<Rightarrow> None)))"

end
