(* ===== verification/Shard_Routing.thy ===== *)
theory Shard_Routing
  imports Tx_Types
begin

text \<open>
  Routing of transactions to execution shards, \<open>crates/shard/src/lib.rs\<close>: the topology, the
  route key of an execution scope, the home shard of a key, the admission checks of a node and
  the diagnostics it returns.  The hash and the hexadecimal encoder are third-party code and
  parameters; the process environment is an argument.

  The property says that every transaction has one home: among the shards of a topology exactly
  one accepts it, and every other names that shard in its error.
\<close>

section \<open>Types\<close>

type_synonym shard_id = u32

definition DEFAULT_SHARD_ID :: shard_id where "DEFAULT_SHARD_ID = 0"

record shard_topology =
  shard_count :: u32

record routing_diagnostics =
  rd_source_shard :: shard_id
  rd_expected_shard :: shard_id
  rd_shard_count :: u32
  rd_route_key :: string
  rd_accepted :: bool

datatype shard_routing_error =
    InvalidShardId shard_id u32
  | WrongShard shard_id shard_id

datatype scope_route_key =
    RkSigner address
  | RkAgent u64
  | RkReceipt hash256
  | RkWalletTaskReceipt hash256
  | RkProofCommitment hash256

section \<open>Topology\<close>

text \<open>
  \<open>str::trim\<close> and \<open>str::parse\<close> for unsigned integers.  A Rust string is its UTF-8 bytes; the
  characters with the Unicode property \<open>White_Space\<close> are dropped at both ends, an optional plus
  sign is followed by at least one digit, and a value out of range is an error.
\<close>

definition WHITE_SPACE :: "string list" where
  "WHITE_SPACE =
     [[CHR 0x09], [CHR 0x0A], [CHR 0x0B], [CHR 0x0C], [CHR 0x0D], [CHR 0x20], [CHR 0xC2, CHR 0x85], [CHR 0xC2, CHR 0xA0],
      [CHR 0xE1, CHR 0x9A, CHR 0x80],
      [CHR 0xE2, CHR 0x80, CHR 0x80], [CHR 0xE2, CHR 0x80, CHR 0x81], [CHR 0xE2, CHR 0x80, CHR 0x82],
      [CHR 0xE2, CHR 0x80, CHR 0x83], [CHR 0xE2, CHR 0x80, CHR 0x84], [CHR 0xE2, CHR 0x80, CHR 0x85],
      [CHR 0xE2, CHR 0x80, CHR 0x86], [CHR 0xE2, CHR 0x80, CHR 0x87], [CHR 0xE2, CHR 0x80, CHR 0x88],
      [CHR 0xE2, CHR 0x80, CHR 0x89], [CHR 0xE2, CHR 0x80, CHR 0x8A], [CHR 0xE2, CHR 0x80, CHR 0xA8],
      [CHR 0xE2, CHR 0x80, CHR 0xA9], [CHR 0xE2, CHR 0x80, CHR 0xAF], [CHR 0xE2, CHR 0x81, CHR 0x9F],
      [CHR 0xE3, CHR 0x80, CHR 0x80]]"

function drop_prefixes :: "string list \<Rightarrow> string \<Rightarrow> string" where
  "drop_prefixes ws s =
     (case find (\<lambda>w. w \<noteq> [] \<and> take (length w) s = w) ws of
        None \<Rightarrow> s
      | Some w \<Rightarrow> drop_prefixes ws (drop (length w) s))"
  by pat_completeness auto
termination
proof (relation "measure (\<lambda>(ws, s). length s)")
  fix ws and s w :: string
  assume "find (\<lambda>w. w \<noteq> [] \<and> take (length w) s = w) ws = Some w"
  then have "w \<noteq> []" "take (length w) s = w" by (auto simp: find_Some_iff)
  then have "0 < length w" "0 < length s" by (auto intro: gr0I)
  then show "((ws, drop (length w) s), ws, s) \<in> measure (\<lambda>(ws, s). length s)" by simp
qed simp

declare drop_prefixes.simps [simp del]

definition str_trim :: "string \<Rightarrow> string" where
  "str_trim s = rev (drop_prefixes (map rev WHITE_SPACE) (rev (drop_prefixes WHITE_SPACE s)))"

text \<open>What is left starts and ends with no white space.\<close>

lemma drop_prefixes_done: "w \<in> set ws \<Longrightarrow> w \<noteq> [] \<Longrightarrow> take (length w) (drop_prefixes ws s) \<noteq> w"
proof (induction ws s rule: drop_prefixes.induct)
  case (1 ws s)
  then show ?case by (subst drop_prefixes.simps) (auto simp: find_None_iff split: option.splits)
qed

fun parse_digits :: "nat \<Rightarrow> string \<Rightarrow> nat option" where
  "parse_digits acc [] = Some acc"
| "parse_digits acc (c # cs) =
     (let d = of_char c :: nat in if 48 \<le> d \<and> d \<le> 57 then parse_digits (10 * acc + (d - 48)) cs else None)"

definition parse_unsigned :: "string \<Rightarrow> 'a::len word option" where
  "parse_unsigned s =
     (let digits = (case s of CHR ''+'' # cs \<Rightarrow> cs | _ \<Rightarrow> s)
      in if digits = [] then None
         else case parse_digits 0 digits of
             None \<Rightarrow> None
           | Some n \<Rightarrow> if n < 2 ^ LENGTH('a) then Some (of_nat n) else None)"

definition from_env :: "string option \<Rightarrow> shard_topology" where
  "from_env v = \<lparr>shard_count =
     (case Option.bind v (\<lambda>s. parse_unsigned (str_trim s)) of
        Some n \<Rightarrow> if 1 \<le> n then n else 1
      | None \<Rightarrow> 1)\<rparr>"

definition node_shard_id_from_env :: "shard_topology \<Rightarrow> string option \<Rightarrow> shard_id" where
  "node_shard_id_from_env t v =
     min (unwrap_or (Option.bind v (\<lambda>s. parse_unsigned (str_trim s))) DEFAULT_SHARD_ID)
         (sat_sub (shard_count t) 1)"

definition is_monolith :: "shard_topology \<Rightarrow> bool" where
  "is_monolith t \<longleftrightarrow> shard_count t \<le> 1"

section \<open>Route keys\<close>

fun stable_bytes :: "scope_route_key \<Rightarrow> bytes" where
  "stable_bytes (RkSigner addr) = be_bytes 20 addr"
| "stable_bytes (RkAgent agent_id) = ascii ''agent:'' @ be_bytes 8 agent_id"
| "stable_bytes (RkReceipt receipt_id) = ascii ''receipt:'' @ be_bytes 32 receipt_id"
| "stable_bytes (RkWalletTaskReceipt commitment) = ascii ''wallet-task-receipt:'' @ be_bytes 32 commitment"
| "stable_bytes (RkProofCommitment proof_hash) = ascii ''proof-commitment:'' @ be_bytes 32 proof_hash"

text \<open>The \<open>Display\<close> of an unsigned integer.\<close>

fun decimal :: "nat \<Rightarrow> string" where
  "decimal n = (if n < 10 then [char_of (48 + n)] else decimal (n div 10) @ [char_of (48 + n mod 10)])"

declare decimal.simps [simp del]

definition signer_route_key :: "(bytes \<Rightarrow> string) \<Rightarrow> address \<Rightarrow> string" where
  "signer_route_key hex signer = ''signer:0x'' @ hex (be_bytes 20 signer)"

fun display_key :: "(bytes \<Rightarrow> string) \<Rightarrow> scope_route_key \<Rightarrow> string" where
  "display_key hex (RkSigner addr) = ''signer:0x'' @ hex (be_bytes 20 addr)"
| "display_key hex (RkAgent agent_id) = ''agent:'' @ decimal (unat agent_id)"
| "display_key hex (RkReceipt receipt_id) = ''receipt:0x'' @ hex (be_bytes 32 receipt_id)"
| "display_key hex (RkWalletTaskReceipt commitment) = ''wallet-task-receipt:0x'' @ hex (be_bytes 32 commitment)"
| "display_key hex (RkProofCommitment proof_hash) = ''proof-commitment:0x'' @ hex (be_bytes 32 proof_hash)"

text \<open>\<open>Iterator::find_map\<close>.\<close>

fun find_map :: "('a \<Rightarrow> 'b option) \<Rightarrow> 'a list \<Rightarrow> 'b option" where
  "find_map f [] = None"
| "find_map f (x # xs) = (case f x of None \<Rightarrow> find_map f xs | Some y \<Rightarrow> Some y)"

definition or_else :: "'a option \<Rightarrow> 'a option \<Rightarrow> 'a option" where
  "or_else v w = (case v of None \<Rightarrow> w | Some x \<Rightarrow> Some x)"

definition route_key_for_owned_objects :: "owned_object_id list \<Rightarrow> address \<Rightarrow> scope_route_key" where
  "route_key_for_owned_objects objects signer =
     unwrap_or
       (or_else (find_map (\<lambda>obj. case obj of Agent agent_id \<Rightarrow> Some (RkAgent agent_id) | _ \<Rightarrow> None) objects)
       (or_else (find_map (\<lambda>obj. case obj of Receipt receipt_id \<Rightarrow> Some (RkReceipt receipt_id) | _ \<Rightarrow> None) objects)
       (or_else (find_map (\<lambda>obj. case obj of WalletTaskReceipt commitment \<Rightarrow> Some (RkWalletTaskReceipt commitment)
                                            | _ \<Rightarrow> None) objects)
         (find_map (\<lambda>obj. case obj of ProofCommitment proof_hash \<Rightarrow> Some (RkProofCommitment proof_hash)
                                            | _ \<Rightarrow> None) objects))))
       (RkSigner signer)"

fun route_key_for_execution_scope :: "tx_execution_scope \<Rightarrow> address \<Rightarrow> scope_route_key" where
  "route_key_for_execution_scope (Owned _ objects) signer = route_key_for_owned_objects objects signer"
| "route_key_for_execution_scope (Mixed _ _) signer = RkSigner signer"
| "route_key_for_execution_scope Consensus signer = RkSigner signer"

definition route_key_for_transaction :: "transaction \<Rightarrow> scope_route_key" where
  "route_key_for_transaction tx = route_key_for_execution_scope (execution_scope tx) (tx_signer tx)"

section \<open>Home shards\<close>

text \<open>The first four bytes of the hash, read in big-endian order, are its top 32 bits.\<close>

definition home_shard_for_bytes :: "(bytes \<Rightarrow> hash256) \<Rightarrow> bytes \<Rightarrow> u32 \<Rightarrow> shard_id" where
  "home_shard_for_bytes kc key count =
     (if count \<le> 1 then DEFAULT_SHARD_ID else ucast (drop_bit 224 (kc key)) mod count)"

definition home_shard_for_address :: "(bytes \<Rightarrow> hash256) \<Rightarrow> address \<Rightarrow> u32 \<Rightarrow> shard_id" where
  "home_shard_for_address kc signer count = home_shard_for_bytes kc (be_bytes 20 signer) count"

definition home_shard_for_agent_id :: "(bytes \<Rightarrow> hash256) \<Rightarrow> hash256 \<Rightarrow> u32 \<Rightarrow> shard_id" where
  "home_shard_for_agent_id kc agent_id count = home_shard_for_bytes kc (be_bytes 32 agent_id) count"

definition home_shard_for_signer :: "(bytes \<Rightarrow> hash256) \<Rightarrow> address \<Rightarrow> u32 \<Rightarrow> shard_id" where
  "home_shard_for_signer kc signer count = home_shard_for_address kc signer count"

fun home_shard_for_route_key :: "(bytes \<Rightarrow> hash256) \<Rightarrow> scope_route_key \<Rightarrow> u32 \<Rightarrow> shard_id" where
  "home_shard_for_route_key kc (RkSigner addr) count = home_shard_for_address kc addr count"
| "home_shard_for_route_key kc other count = home_shard_for_bytes kc (stable_bytes other) count"

definition home_shard_for_transaction :: "(bytes \<Rightarrow> hash256) \<Rightarrow> transaction \<Rightarrow> u32 \<Rightarrow> shard_id" where
  "home_shard_for_transaction kc tx count = home_shard_for_route_key kc (route_key_for_transaction tx) count"

section \<open>Admission\<close>

definition accepts_transaction :: "(bytes \<Rightarrow> hash256) \<Rightarrow> address \<Rightarrow> shard_id \<Rightarrow> shard_topology \<Rightarrow> bool" where
  "accepts_transaction kc signer node t =
     (if is_monolith t then node = DEFAULT_SHARD_ID
      else home_shard_for_signer kc signer (shard_count t) = node)"

definition accepts_scoped_transaction ::
    "(bytes \<Rightarrow> hash256) \<Rightarrow> transaction \<Rightarrow> shard_id \<Rightarrow> shard_topology \<Rightarrow> bool" where
  "accepts_scoped_transaction kc tx node t =
     (if is_monolith t then node = DEFAULT_SHARD_ID
      else home_shard_for_transaction kc tx (shard_count t) = node)"

definition routing_diagnostics_for_signer ::
    "(bytes \<Rightarrow> hash256) \<Rightarrow> (bytes \<Rightarrow> string) \<Rightarrow> address \<Rightarrow> shard_id \<Rightarrow> shard_topology \<Rightarrow> routing_diagnostics" where
  "routing_diagnostics_for_signer kc hex signer node t =
     \<lparr>rd_source_shard = node,
      rd_expected_shard = home_shard_for_signer kc signer (shard_count t),
      rd_shard_count = shard_count t,
      rd_route_key = signer_route_key hex signer,
      rd_accepted = accepts_transaction kc signer node t\<rparr>"

definition routing_diagnostics_for_transaction ::
    "(bytes \<Rightarrow> hash256) \<Rightarrow> (bytes \<Rightarrow> string) \<Rightarrow> transaction \<Rightarrow> shard_id \<Rightarrow> shard_topology \<Rightarrow> routing_diagnostics" where
  "routing_diagnostics_for_transaction kc hex tx node t =
     (let route_key = route_key_for_transaction tx
      in \<lparr>rd_source_shard = node,
          rd_expected_shard = home_shard_for_route_key kc route_key (shard_count t),
          rd_shard_count = shard_count t,
          rd_route_key = display_key hex route_key,
          rd_accepted = accepts_scoped_transaction kc tx node t\<rparr>)"

definition validate_block_shard :: "shard_id \<Rightarrow> shard_id \<Rightarrow> shard_topology \<Rightarrow> shard_routing_error + unit" where
  "validate_block_shard header node t =
     (if shard_count t \<le> header then Inl (InvalidShardId header (shard_count t))
      else if is_monolith t then
        (if header \<noteq> DEFAULT_SHARD_ID then Inl (InvalidShardId header 1) else Inr ())
      else if header \<noteq> node then Inl (WrongShard header node)
      else Inr ())"

definition check_accepts_transaction ::
    "(bytes \<Rightarrow> hash256) \<Rightarrow> address \<Rightarrow> shard_id \<Rightarrow> shard_topology \<Rightarrow> shard_routing_error + unit" where
  "check_accepts_transaction kc signer node t =
     (if accepts_transaction kc signer node t then Inr ()
      else Inl (WrongShard (home_shard_for_signer kc signer (shard_count t)) node))"

definition check_accepts_scoped_transaction ::
    "(bytes \<Rightarrow> hash256) \<Rightarrow> transaction \<Rightarrow> shard_id \<Rightarrow> shard_topology \<Rightarrow> shard_routing_error + unit" where
  "check_accepts_scoped_transaction kc tx node t =
     (if accepts_scoped_transaction kc tx node t then Inr ()
      else Inl (WrongShard (home_shard_for_transaction kc tx (shard_count t)) node))"

definition check_accepts_transaction_with_diagnostics ::
    "(bytes \<Rightarrow> hash256) \<Rightarrow> (bytes \<Rightarrow> string) \<Rightarrow> address \<Rightarrow> shard_id \<Rightarrow> shard_topology \<Rightarrow>
     (shard_routing_error \<times> routing_diagnostics) + routing_diagnostics" where
  "check_accepts_transaction_with_diagnostics kc hex signer node t =
     (let diagnostics = routing_diagnostics_for_signer kc hex signer node t
      in if rd_accepted diagnostics then Inr diagnostics
         else Inl (WrongShard (rd_expected_shard diagnostics) (rd_source_shard diagnostics), diagnostics))"

section \<open>Every transaction has one home\<close>

lemma home_shard_in_range: "1 \<le> count \<Longrightarrow> home_shard_for_bytes kc key count < count"
  by (auto simp: home_shard_for_bytes_def DEFAULT_SHARD_ID_def word_less_nat_alt word_le_nat_alt unat_mod)

lemma home_of_transaction:
  "home_shard_for_transaction kc tx count = home_shard_for_bytes kc (stable_bytes (route_key_for_transaction tx)) count"
  by (cases "route_key_for_transaction tx") (simp_all add: home_shard_for_transaction_def home_shard_for_address_def)

lemma from_env_count: "1 \<le> shard_count (from_env v)"
  by (simp add: from_env_def split: option.split)

lemma node_shard_in_range: "1 \<le> shard_count t \<Longrightarrow> node_shard_id_from_env t v < shard_count t"
  by (auto simp: node_shard_id_from_env_def min_def word_le_nat_alt word_less_nat_alt unat_sat_sub)

lemma accepts_iff_home:
  "accepts_scoped_transaction kc tx node t \<longleftrightarrow> node = home_shard_for_transaction kc tx (shard_count t)"
  by (auto simp: accepts_scoped_transaction_def is_monolith_def home_of_transaction home_shard_for_bytes_def)

text \<open>
  Under every environment a node serves a shard of the topology, and every transaction has one
  home among these shards: the node of that shard admits it, every other node refuses it and names
  the home in its error, and a block tagged with the home is valid on exactly the nodes that admit
  the transaction, or on every node when there is a single shard.
\<close>

theorem transaction_has_one_home:
  fixes t v w defines "t \<equiv> from_env v"
  shows "\<exists>home < shard_count t. \<forall>node.
      check_accepts_scoped_transaction kc tx node t = (if node = home then Inr () else Inl (WrongShard home node))
    \<and> (validate_block_shard home node t = Inr () \<longleftrightarrow> node = home \<or> is_monolith t)
    \<and> rd_accepted (routing_diagnostics_for_transaction kc hex tx node t) = (node = home)
    \<and> rd_expected_shard (routing_diagnostics_for_transaction kc hex tx node t) = home
    \<and> node_shard_id_from_env t w < shard_count t"
proof (intro exI conjI allI)
  let ?home = "home_shard_for_transaction kc tx (shard_count t)"
  note count = from_env_count [of v, folded t_def]
  show range: "?home < shard_count t"
    unfolding home_of_transaction by (rule home_shard_in_range [OF count])
  fix node
  show "check_accepts_scoped_transaction kc tx node t = (if node = ?home then Inr () else Inl (WrongShard ?home node))"
    by (simp add: check_accepts_scoped_transaction_def accepts_iff_home)
  have "?home = DEFAULT_SHARD_ID" if "is_monolith t"
    using that by (simp add: is_monolith_def home_of_transaction home_shard_for_bytes_def)
  then show "validate_block_shard ?home node t = Inr () \<longleftrightarrow> node = ?home \<or> is_monolith t"
    using range by (auto simp: validate_block_shard_def not_le)
  show "rd_accepted (routing_diagnostics_for_transaction kc hex tx node t) = (node = ?home)"
    by (simp add: routing_diagnostics_for_transaction_def Let_def accepts_iff_home)
  show "rd_expected_shard (routing_diagnostics_for_transaction kc hex tx node t) = ?home"
    by (simp add: routing_diagnostics_for_transaction_def Let_def home_shard_for_transaction_def)
  show "node_shard_id_from_env t w < shard_count t" by (rule node_shard_in_range [OF count])
qed

text \<open>
  The transactions that update one agent share a shard, whoever signs them, because the agent is
  their route key.
\<close>

lemma update_agent_route:
  assumes "tx_vm tx = VmNative" and "tx_body tx = Native (UpdateAgent agent_id m c)"
  shows "route_key_for_transaction tx = RkAgent agent_id"
proof -
  let ?objects = "normalize_objects (tx_signer tx) [Agent agent_id]"
  have objs: "set ?objects = {AccountNonce (tx_signer tx), Agent agent_id}" by (auto simp: set_normalize_objects)
  have "find_map (\<lambda>obj. case obj of Agent a \<Rightarrow> Some (RkAgent a) | _ \<Rightarrow> None) xs = Some (RkAgent agent_id)"
    if "set xs \<subseteq> {AccountNonce (tx_signer tx), Agent agent_id}" "Agent agent_id \<in> set xs" for xs
    using that by (induction xs) auto
  then show ?thesis using objs assms
    by (simp add: route_key_for_transaction_def execution_scope_def route_key_for_owned_objects_def or_else_def unwrap_or_def)
qed

end
