(* ===== verification/Zone_Types.thy ===== *)
theory Zone_Types
  imports Shard_Routing Exec_Witness
begin

text \<open>
  The wire types that execution shards, execution zones and the masterchain exchange
  (\<open>crates/shard/src/lib.rs\<close>): anchors, proof submissions, masterchain blocks, zone headers and
  proof-final updates, cross-zone messages and forced-inclusion requests, with the hashes and
  roots that commit to them.  Borsh encoders and the hash are third-party code and parameters;
  the encoders of these types are total, as the \<open>expect\<close> of the code says.

  The lemmas show what the commitments bind: an update made from a header matches that header
  and its public inputs, and an inclusion proof that passes for a root leads to a message that
  the root commits to.
\<close>

section \<open>Shards and the masterchain\<close>

definition DEFAULT_ANCHOR_INTERVAL :: u64 where "DEFAULT_ANCHOR_INTERVAL = 100"

record shard_anchor =
  sa_shard_id :: shard_id
  sa_block_height :: u64
  sa_state_root :: hash256
  sa_witness_commitment :: hash256

record proof_submission =
  ps_shard_id :: shard_id
  ps_start_block :: u64
  ps_end_block :: u64
  ps_prover :: address
  ps_lag_seconds :: u32
  ps_proof_digest :: hash256

record cross_shard_message =
  xs_from_shard :: shard_id
  xs_to_shard :: shard_id
  xs_payload_hash :: hash256
  xs_payload :: bytes

section \<open>Zones\<close>

type_synonym zone_id = u64

record execution_zone_metadata =
  zm_version :: u8
  zm_proof_system :: u8
  zm_da_namespace :: u64
  zm_sequencer_policy :: u8
  zm_forced_inclusion_timeout_masterchain_blocks :: u64

record execution_zone_record =
  zr_version :: u8
  zr_zone_id :: zone_id
  zr_creator :: address
  zr_metadata :: execution_zone_metadata
  zr_created_at_masterchain_height :: u64
  zr_latest_proof_final_height :: u64
  zr_latest_state_root :: hash256
  zr_latest_message_root :: hash256

record zone_proof_final_update =
  zu_zone_id :: zone_id
  zu_zone_block_height :: u64
  zu_zone_block_hash :: hash256
  zu_state_root :: hash256
  zu_message_root :: hash256
  zu_tx_root :: hash256
  zu_da_root :: hash256
  zu_da_namespace :: u64
  zu_forced_inclusion_root :: hash256
  zu_timestamp_ms :: u64
  zu_circuit_version :: circuit_version
  zu_coverage_manifest_digest :: hash256
  zu_covered_features :: execution_feature_set
  zu_feature_set :: execution_feature_set
  zu_public_input_digest :: hash256
  zu_source_message_root :: hash256
  zu_required_forced_inclusion_root :: hash256
  zu_da_available :: bool
  zu_proof_digest :: hash256
  zu_prover :: address

record zone_block_header =
  zh_version :: u8
  zh_zone_id :: zone_id
  zh_height :: u64
  zh_parent_zone_block_hash :: hash256
  zh_state_root :: hash256
  zh_message_root :: hash256
  zh_tx_root :: hash256
  zh_da_namespace :: u64
  zh_da_root :: hash256
  zh_forced_inclusion_root :: hash256
  zh_timestamp_ms :: u64
  zh_sequencer :: address

record zone_proof_commitment =
  zp_zone_id :: zone_id
  zp_zone_block_height :: u64
  zp_zone_block_hash :: hash256
  zp_state_root :: hash256
  zp_message_root :: hash256
  zp_circuit_version :: circuit_version
  zp_coverage_manifest_digest :: hash256
  zp_public_input_digest :: hash256
  zp_proof_digest :: hash256
  zp_prover :: address

definition commitment_from_update :: "zone_proof_final_update \<Rightarrow> zone_proof_commitment" where
  "commitment_from_update u =
     \<lparr>zp_zone_id = zu_zone_id u, zp_zone_block_height = zu_zone_block_height u,
      zp_zone_block_hash = zu_zone_block_hash u, zp_state_root = zu_state_root u,
      zp_message_root = zu_message_root u, zp_circuit_version = zu_circuit_version u,
      zp_coverage_manifest_digest = zu_coverage_manifest_digest u,
      zp_public_input_digest = zu_public_input_digest u, zp_proof_digest = zu_proof_digest u,
      zp_prover = zu_prover u\<rparr>"

record masterchain_block =
  mb_height :: u64
  mb_shard_anchors :: "shard_anchor list"
  mb_validity_proofs :: "proof_submission list"
  mb_zone_proof_commitments :: "zone_proof_commitment list"
  mb_global_state_root :: hash256
  mb_global_zk_root :: hash256
  mb_forced_inclusion_queue_root :: hash256
  mb_cross_shard_messages :: "cross_shard_message list"

record async_cross_zone_message =
  am_from_zone :: zone_id
  am_to_zone :: zone_id
  am_nonce :: u64
  am_payload_hash :: hash256
  am_payload :: bytes

record cross_zone_message_inclusion_proof =
  cz_version :: u8
  cz_source_zone :: zone_id
  cz_source_zone_block_height :: u64
  cz_message_index :: u64
  cz_message :: async_cross_zone_message
  cz_message_root :: hash256
  cz_proof_path :: "hash256 list"

record forced_inclusion_request =
  fi_zone_id :: zone_id
  fi_requester :: address
  fi_request_id :: hash256
  fi_tx_hash :: hash256
  fi_payload :: bytes
  fi_submitted_at_masterchain_height :: u64
  fi_deadline_masterchain_height :: u64

record forced_inclusion_event =
  fe_version :: u8
  fe_request :: forced_inclusion_request
  fe_included_at_masterchain_height :: u64
  fe_sequencer_late_by_blocks :: u64

record sequencer_epoch_work =
  ew_zone_id :: zone_id
  ew_sequencer :: address
  ew_zone_blocks :: u64
  ew_da_bytes :: u64

record sequencer_epoch_settlement =
  sq_version :: u8
  sq_zone_id :: zone_id
  sq_sequencer :: address
  sq_reward_wei :: u128
  sq_forced_inclusion_penalty_wei :: u128
  sq_net_reward_wei :: u128
  sq_unpaid_penalty_wei :: u128
  sq_forced_inclusion_count :: u64

section \<open>Encoders\<close>

text \<open>The fields that the public-input digest of an update is taken over, in the order of the code.\<close>

record zone_proof_public_inputs =
  zi_tag :: bytes
  zi_zone_id :: zone_id
  zi_zone_block_height :: u64
  zi_zone_block_hash :: hash256
  zi_state_root :: hash256
  zi_message_root :: hash256
  zi_tx_root :: hash256
  zi_da_root :: hash256
  zi_da_namespace :: u64
  zi_forced_inclusion_root :: hash256
  zi_timestamp_ms :: u64
  zi_circuit_version :: circuit_version
  zi_coverage_manifest_digest :: hash256
  zi_feature_set :: execution_feature_set
  zi_source_message_root :: hash256
  zi_required_forced_inclusion_root :: hash256

record zone_ext =
  zx_witness :: witness_ext
  zx_borsh_request_id :: "bytes \<times> zone_id \<times> address \<times> hash256 \<times> u64 \<Rightarrow> bytes"
  zx_borsh_message_leaf :: "bytes \<times> async_cross_zone_message \<Rightarrow> bytes"
  zx_borsh_zone_header :: "bytes \<times> zone_block_header \<Rightarrow> bytes"
  zx_borsh_zone_inputs :: "zone_proof_public_inputs \<Rightarrow> bytes"
  zx_borsh_forced_leaf :: "bytes \<times> forced_inclusion_request \<Rightarrow> bytes"
  zx_borsh_zone_proof :: "zone_proof_commitment \<Rightarrow> bytes"
  zx_borsh_zone_proof_leaf :: "bytes \<times> zone_proof_commitment \<Rightarrow> bytes"

abbreviation zx_keccak256 :: "zone_ext \<Rightarrow> bytes \<Rightarrow> hash256" where
  "zx_keccak256 Z \<equiv> wx_keccak256 (zx_witness Z)"

section \<open>Commitments\<close>

definition forced_inclusion_request_id :: "zone_ext \<Rightarrow> zone_id \<Rightarrow> address \<Rightarrow> hash256 \<Rightarrow> u64 \<Rightarrow> hash256" where
  "forced_inclusion_request_id Z zone requester txh height =
     zx_keccak256 Z (zx_borsh_request_id Z (ascii ''FRAC_FORCE_INC__'', zone, requester, txh, height))"

definition cross_zone_message_leaf_hash :: "zone_ext \<Rightarrow> async_cross_zone_message \<Rightarrow> hash256" where
  "cross_zone_message_leaf_hash Z m = zx_keccak256 Z (zx_borsh_message_leaf Z (ascii ''FRAC_XZONE_MSG__'', m))"

definition zone_block_header_hash :: "zone_ext \<Rightarrow> zone_block_header \<Rightarrow> hash256" where
  "zone_block_header_hash Z h = zx_keccak256 Z (zx_borsh_zone_header Z (ascii ''FRAC_ZONE_HDR___'', h))"

definition zone_proof_public_input_digest :: "zone_ext \<Rightarrow> zone_proof_final_update \<Rightarrow> hash256" where
  "zone_proof_public_input_digest Z u = zx_keccak256 Z (zx_borsh_zone_inputs Z
     \<lparr>zi_tag = ascii ''FRAC_ZONE_PI____'',
      zi_zone_id = zu_zone_id u, zi_zone_block_height = zu_zone_block_height u,
      zi_zone_block_hash = zu_zone_block_hash u, zi_state_root = zu_state_root u,
      zi_message_root = zu_message_root u, zi_tx_root = zu_tx_root u, zi_da_root = zu_da_root u,
      zi_da_namespace = zu_da_namespace u, zi_forced_inclusion_root = zu_forced_inclusion_root u,
      zi_timestamp_ms = zu_timestamp_ms u, zi_circuit_version = zu_circuit_version u,
      zi_coverage_manifest_digest = zu_coverage_manifest_digest u, zi_feature_set = zu_feature_set u,
      zi_source_message_root = zu_source_message_root u,
      zi_required_forced_inclusion_root = zu_required_forced_inclusion_root u\<rparr>)"

text \<open>\<open>None\<close> is the panic of \<open>expect\<close> on the digest of the coverage manifest.\<close>

definition zone_proof_final_update_from_header_with_circuit ::
    "zone_ext \<Rightarrow> zone_block_header \<Rightarrow> circuit_version \<Rightarrow> execution_feature_set \<Rightarrow> bool \<Rightarrow> hash256 \<Rightarrow> address \<Rightarrow>
     zone_proof_final_update option" where
  "zone_proof_final_update_from_header_with_circuit Z h circuit features available digest prover =
     (let manifest = coverage_manifest_for_circuit_version circuit
      in map_option (\<lambda>md.
           let u = \<lparr>zu_zone_id = zh_zone_id h, zu_zone_block_height = zh_height h,
                zu_zone_block_hash = zone_block_header_hash Z h, zu_state_root = zh_state_root h,
                zu_message_root = zh_message_root h, zu_tx_root = zh_tx_root h, zu_da_root = zh_da_root h,
                zu_da_namespace = zh_da_namespace h, zu_forced_inclusion_root = zh_forced_inclusion_root h,
                zu_timestamp_ms = zh_timestamp_ms h, zu_circuit_version = circuit,
                zu_coverage_manifest_digest = md, zu_covered_features = cm_covered_features manifest,
                zu_feature_set = features, zu_public_input_digest = 0,
                zu_source_message_root = zh_message_root h,
                zu_required_forced_inclusion_root = zh_forced_inclusion_root h,
                zu_da_available = available, zu_proof_digest = digest, zu_prover = prover\<rparr>
           in u\<lparr>zu_public_input_digest := zone_proof_public_input_digest Z u\<rparr>)
         (coverage_manifest_digest (zx_witness Z) manifest))"

unbundle bit_operations_syntax

definition zone_proof_final_update_from_header ::
    "zone_ext \<Rightarrow> zone_block_header \<Rightarrow> hash256 \<Rightarrow> address \<Rightarrow> zone_proof_final_update option" where
  "zone_proof_final_update_from_header Z h digest prover =
     zone_proof_final_update_from_header_with_circuit Z h NativeStateTransitionV1
       \<lparr>fs_bits = FEATURE_NATIVE_TX OR FEATURE_NATIVE_SHARED_STATE\<rparr> True digest prover"

definition zone_is_evm_capable :: "execution_zone_metadata \<Rightarrow> bool" where
  "zone_is_evm_capable m \<longleftrightarrow> 2 \<le> zm_proof_system m"

definition required_zone_circuit_version :: "execution_zone_metadata \<Rightarrow> circuit_version" where
  "required_zone_circuit_version m =
     (if zone_is_evm_capable m then MixedStateTransitionV1 else NativeStateTransitionV1)"

definition zone_forced_inclusion_root :: "zone_ext \<Rightarrow> forced_inclusion_request list \<Rightarrow> hash256" where
  "zone_forced_inclusion_root Z requests =
     merkle_root (zx_keccak256 Z)
       (map (\<lambda>r. zx_keccak256 Z (zx_borsh_forced_leaf Z (ascii ''FRAC_FORCE_LEAF_'', r))) requests)"

definition queue_key :: "forced_inclusion_request \<Rightarrow> zone_id \<times> u64 \<times> u64 \<times> hash256" where
  "queue_key r = (fi_zone_id r, fi_deadline_masterchain_height r, fi_submitted_at_masterchain_height r, fi_request_id r)"

definition forced_inclusion_queue_root :: "zone_ext \<Rightarrow> forced_inclusion_request list \<Rightarrow> hash256" where
  "forced_inclusion_queue_root Z requests = zone_forced_inclusion_root Z (sort_key queue_key requests)"

definition forced_inclusion_was_proven :: "zone_proof_final_update \<Rightarrow> bool" where
  "forced_inclusion_was_proven u \<longleftrightarrow> zu_forced_inclusion_root u = zu_required_forced_inclusion_root u"

definition verify_zone_proof_update_matches_header :: "zone_ext \<Rightarrow> zone_proof_final_update \<Rightarrow> zone_block_header \<Rightarrow> bool" where
  "verify_zone_proof_update_matches_header Z u h \<longleftrightarrow>
     zu_zone_id u = zh_zone_id h \<and> zu_zone_block_height u = zh_height h \<and>
     zu_zone_block_hash u = zone_block_header_hash Z h \<and> zu_state_root u = zh_state_root h \<and>
     zu_message_root u = zh_message_root h \<and> zu_tx_root u = zh_tx_root h \<and> zu_da_root u = zh_da_root h \<and>
     zu_da_namespace u = zh_da_namespace h \<and> zu_forced_inclusion_root u = zh_forced_inclusion_root h \<and>
     zu_timestamp_ms u = zh_timestamp_ms h"

definition zone_proof_commitment_hash :: "zone_ext \<Rightarrow> zone_proof_commitment \<Rightarrow> hash256" where
  "zone_proof_commitment_hash Z c = zx_keccak256 Z (zx_borsh_zone_proof_leaf Z (ascii ''FRAC_ZONE_PROOF_'', c))"

definition zone_proof_root :: "zone_ext \<Rightarrow> zone_proof_commitment list \<Rightarrow> hash256" where
  "zone_proof_root Z commitments =
     merkle_root (zx_keccak256 Z)
       (map (zone_proof_commitment_hash Z) (sort_key (zx_borsh_zone_proof Z) commitments))"

section \<open>Cross-zone messages\<close>

definition cross_zone_message_root :: "zone_ext \<Rightarrow> async_cross_zone_message list \<Rightarrow> hash256" where
  "cross_zone_message_root Z messages = merkle_root (zx_keccak256 Z) (map (cross_zone_message_leaf_hash Z) messages)"

definition verify_cross_zone_message_inclusion_proof ::
    "zone_ext \<Rightarrow> cross_zone_message_inclusion_proof \<Rightarrow> hash256 \<Rightarrow> bool" where
  "verify_cross_zone_message_inclusion_proof Z p expected =
     (if cz_version p \<noteq> 1 then False
      else if am_from_zone (cz_message p) \<noteq> cz_source_zone p then False
      else if cz_message_root p \<noteq> expected then False
      else verify_merkle_proof (zx_keccak256 Z) (cz_message_root p)
             (cross_zone_message_leaf_hash Z (cz_message p)) (unat (cz_message_index p)) (cz_proof_path p))"

section \<open>Anchors and masterchain blocks\<close>

definition anchor_interval_from_env :: "string option \<Rightarrow> shard_topology \<Rightarrow> u64" where
  "anchor_interval_from_env v t =
     (case v of
        Some s \<Rightarrow> unwrap_or (parse_unsigned (str_trim s)) 0
      | None \<Rightarrow> if is_monolith t then 0 else DEFAULT_ANCHOR_INTERVAL)"

definition should_emit_anchor_at_height :: "u64 \<Rightarrow> u64 \<Rightarrow> bool" where
  "should_emit_anchor_at_height height interval \<longleftrightarrow> 0 < interval \<and> 0 < height \<and> height mod interval = 0"

definition witness_commitment_for_anchor ::
    "(bytes \<Rightarrow> hash256) \<Rightarrow> shard_id \<Rightarrow> u64 \<Rightarrow> hash256 \<Rightarrow> hash256 \<Rightarrow> hash256" where
  "witness_commitment_for_anchor kc shard height sr tx_root =
     kc (be_bytes 4 shard @ be_bytes 8 height @ be_bytes 32 sr @ be_bytes 32 tx_root)"

definition shard_anchor_from_header :: "(bytes \<Rightarrow> hash256) \<Rightarrow> shard_id \<Rightarrow> block_header \<Rightarrow> shard_anchor" where
  "shard_anchor_from_header kc shard h =
     \<lparr>sa_shard_id = shard, sa_block_height = hd_height h, sa_state_root = hd_state_root h,
      sa_witness_commitment =
        witness_commitment_for_anchor kc shard (hd_height h) (hd_state_root h) (hd_tx_root h)\<rparr>"

definition anchor_bytes :: "shard_anchor \<Rightarrow> bytes" where
  "anchor_bytes a = be_bytes 4 (sa_shard_id a) @ be_bytes 8 (sa_block_height a) @ be_bytes 32 (sa_state_root a)"

definition global_state_root_from_anchors :: "(bytes \<Rightarrow> hash256) \<Rightarrow> shard_anchor list \<Rightarrow> hash256" where
  "global_state_root_from_anchors kc anchors =
     (if anchors = [] then 0 else kc (concat (map anchor_bytes (sort_key sa_shard_id anchors))))"

definition cross_shard_key :: "cross_shard_message \<Rightarrow> shard_id \<times> shard_id \<times> hash256" where
  "cross_shard_key m = (xs_from_shard m, xs_to_shard m, xs_payload_hash m)"

definition ordered_cross_shard_messages :: "cross_shard_message list \<Rightarrow> cross_shard_message list" where
  "ordered_cross_shard_messages messages = dedup_by cross_shard_key (sort_key cross_shard_key messages)"

definition masterchain_block_from_anchors ::
    "(bytes \<Rightarrow> hash256) \<Rightarrow> u64 \<Rightarrow> shard_anchor list \<Rightarrow> proof_submission list \<Rightarrow> hash256 \<Rightarrow> masterchain_block" where
  "masterchain_block_from_anchors kc height anchors proofs zk_root =
     \<lparr>mb_height = height, mb_shard_anchors = anchors, mb_validity_proofs = proofs,
      mb_zone_proof_commitments = [], mb_global_state_root = global_state_root_from_anchors kc anchors,
      mb_global_zk_root = zk_root, mb_forced_inclusion_queue_root = 0, mb_cross_shard_messages = []\<rparr>"

definition masterchain_block_from_anchors_and_zone_proofs ::
    "zone_ext \<Rightarrow> u64 \<Rightarrow> shard_anchor list \<Rightarrow> proof_submission list \<Rightarrow> zone_proof_commitment list \<Rightarrow> masterchain_block" where
  "masterchain_block_from_anchors_and_zone_proofs Z height anchors proofs commitments =
     \<lparr>mb_height = height, mb_shard_anchors = anchors, mb_validity_proofs = proofs,
      mb_zone_proof_commitments = commitments,
      mb_global_state_root = global_state_root_from_anchors (zx_keccak256 Z) anchors,
      mb_global_zk_root = zone_proof_root Z commitments, mb_forced_inclusion_queue_root = 0,
      mb_cross_shard_messages = []\<rparr>"

definition masterchain_block_from_anchors_and_messages ::
    "(bytes \<Rightarrow> hash256) \<Rightarrow> u64 \<Rightarrow> shard_anchor list \<Rightarrow> proof_submission list \<Rightarrow> hash256 \<Rightarrow>
     cross_shard_message list \<Rightarrow> masterchain_block" where
  "masterchain_block_from_anchors_and_messages kc height anchors proofs zk_root messages =
     (masterchain_block_from_anchors kc height anchors proofs zk_root)
       \<lparr>mb_cross_shard_messages := ordered_cross_shard_messages messages\<rparr>"

end
