(* ===== verification/Sample_Instances.thy ===== *)
theory Sample_Instances
  imports Zone_Types Ledger_Funds
begin

text \<open>
  Concrete external code for the evaluated examples of the block and zone theories: an engine that
  rejects every call, encoders that write a few fields, and the toy hash of the ledger examples.
\<close>

definition sample_engine :: evm_engine where
  "sample_engine = \<lparr>ev_execute_call = (\<lambda>s _ _ _ _ _. (s, Inl InvalidShape)),
     ev_execute_create = (\<lambda>s _ _ _ _. (s, Inl InvalidShape))\<rparr>"

definition sample_block_ext :: block_ext where
  "sample_block_ext = \<lparr>bx_ledger = sample_ext, bx_da = sample_da, bx_evm = sample_engine,
     bx_borsh_state = (\<lambda>s. Some (be_bytes 16 (protocol_minted_wei s))),
     bx_borsh_header = (\<lambda>h. Some (be_bytes 32 (hd_tx_root h))), bx_borsh_tx_list = (\<lambda>_. Some [1, 2, 3]),
     bx_borsh_tx_receipt = (\<lambda>r. Some (be_bytes 32 (mr_tx_hash r))), bx_borsh_evm_log = (\<lambda>l. Some (lg_data l))\<rparr>"

definition sample_witness_ext :: witness_ext where
  "sample_witness_ext = \<lparr>wx_block = sample_block_ext, wx_commit = sample_commit, wx_decode_native_call = (\<lambda>_. None),
     wx_borsh_manifest = (\<lambda>_. Some [1]), wx_borsh_public_inputs = (\<lambda>i. Some (be_bytes 32 (pi_block_hash i))),
     wx_borsh_witness = (\<lambda>_. Some [2])\<rparr>"

definition borsh_message :: "async_cross_zone_message \<Rightarrow> bytes" where
  "borsh_message m = be_bytes 8 (am_from_zone m) @ be_bytes 8 (am_to_zone m) @ be_bytes 8 (am_nonce m) @
     be_bytes 32 (am_payload_hash m) @ am_payload m"

definition sample_zone_ext :: zone_ext where
  "sample_zone_ext = \<lparr>zx_witness = sample_witness_ext,
     zx_borsh_request_id = (\<lambda>(tag, z, a, h, n). tag @ be_bytes 8 z @ be_bytes 20 a @ be_bytes 32 h @ be_bytes 8 n),
     zx_borsh_message_leaf = (\<lambda>(tag, m). tag @ borsh_message m),
     zx_borsh_zone_header = (\<lambda>(tag, h). tag @ be_bytes 8 (zh_height h)),
     zx_borsh_zone_inputs = (\<lambda>i. zi_tag i @ be_bytes 8 (zi_zone_block_height i) @ be_bytes 32 (zi_state_root i)),
     zx_borsh_forced_leaf = (\<lambda>(tag, r). tag @ be_bytes 32 (fi_request_id r)),
     zx_borsh_zone_proof = (\<lambda>c. be_bytes 8 (zp_zone_id c)),
     zx_borsh_zone_proof_leaf = (\<lambda>(tag, c). tag @ be_bytes 8 (zp_zone_id c))\<rparr>"

end
