(* ===== verification/Block_Correctness.thy ===== *)
theory Block_Correctness
  imports Sample_Instances
begin

text \<open>
  What building and replaying a block promise: the header of a built block commits to the block,
  its payload is recoverable from the sidecar, and a replay on the same parent state gives the
  witness, except for a block that mints.
\<close>

section \<open>The EVM records of the ledger\<close>

text \<open>The per-transaction gas, logs and status, at one transaction hash.\<close>

definition evm_record :: "state \<Rightarrow> hash256 \<Rightarrow> u64 option \<times> evm_log list option \<times> bool option" where
  "evm_record s h = (evm_tx_gas_used s h, evm_tx_logs s h, evm_tx_success s h)"

lemma evm_record_cong:
  assumes "evm_tx_gas_used s' = evm_tx_gas_used s" "evm_tx_logs s' = evm_tx_logs s" "evm_tx_success s' = evm_tx_success s"
  shows "evm_record s' = evm_record s"
  using assms by (simp add: evm_record_def fun_eq_iff)

lemma erased_evm_record:
  "erase_rewards s' = erase_rewards s \<Longrightarrow> evm_record s' = evm_record s"
  "erase_life s' = erase_life s \<Longrightarrow> evm_record s' = evm_record s"
proof -
  assume *: "erase_rewards s' = erase_rewards s"
  show "evm_record s' = evm_record s"
    using arg_cong [OF *, of evm_tx_gas_used] arg_cong [OF *, of evm_tx_logs] arg_cong [OF *, of evm_tx_success]
    by (intro evm_record_cong) (simp_all add: erase_rewards_def)
next
  assume *: "erase_life s' = erase_life s"
  show "evm_record s' = evm_record s"
    using arg_cong [OF *, of evm_tx_gas_used] arg_cong [OF *, of evm_tx_logs] arg_cong [OF *, of evm_tx_success]
    by (intro evm_record_cong) (simp_all add: erase_life_def)
qed

lemma evm_record_updates [simp]:
  "evm_record (s\<lparr>accounts := a\<rparr>) = evm_record s" "evm_record (s\<lparr>next_agent_id := b\<rparr>) = evm_record s"
  "evm_record (s\<lparr>agents := c\<rparr>) = evm_record s" "evm_record (s\<lparr>address_to_agent := d\<rparr>) = evm_record s"
  "evm_record (s\<lparr>receipts := e\<rparr>) = evm_record s" "evm_record (s\<lparr>batches := f\<rparr>) = evm_record s"
  "evm_record (s\<lparr>claimed_payouts := g\<rparr>) = evm_record s" "evm_record (s\<lparr>next_dispute_id := h\<rparr>) = evm_record s"
  "evm_record (s\<lparr>disputes := i\<rparr>) = evm_record s" "evm_record (s\<lparr>stakes := j\<rparr>) = evm_record s"
  "evm_record (s\<lparr>delegated := k\<rparr>) = evm_record s" "evm_record (s\<lparr>wallet_task_receipt_anchors := l\<rparr>) = evm_record s"
  "evm_record (s\<lparr>proof_commitments := m\<rparr>) = evm_record s" "evm_record (s\<lparr>life_commands := n\<rparr>) = evm_record s"
  "evm_record (s\<lparr>life_events := p\<rparr>) = evm_record s" "evm_record (s\<lparr>life_reaper_epochs := q\<rparr>) = evm_record s"
  "evm_record (s\<lparr>life_provenance_bonds := r\<rparr>) = evm_record s" "evm_record (s\<lparr>chain_economics := t\<rparr>) = evm_record s"
  "evm_record (s\<lparr>owned_object_versions := u\<rparr>) = evm_record s" "evm_record (s\<lparr>protocol_burned_wei := v\<rparr>) = evm_record s"
  "evm_record (s\<lparr>governance := w\<rparr>) = evm_record s"
  by (intro evm_record_cong; simp)+

lemma bump_nonce_evm: "bump_nonce s signer = (s', r) \<Longrightarrow> evm_record s' = evm_record s"
  by (auto simp: bump_nonce_def split: option.splits)

lemma finish_call_evm: "finish_call s signer bump = (s', r) \<Longrightarrow> evm_record s' = evm_record s"
  by (auto simp: finish_call_def bump_nonce_evm split: if_splits)

lemma settle_batch_evm: "apply_settle_batch E s signer p bump = (s', r) \<Longrightarrow> evm_record s' = evm_record s"
  by (auto simp: apply_settle_batch_def check_operator_sig_def Let_def and_then_def
      split: option.splits if_splits sum.splits prod.splits
      dest!: finish_call_evm distribute_erase [THEN erased_evm_record(1)])

lemma claim_payout_evm: "apply_claim_payout E s signer b a v i path bump = (s', r) \<Longrightarrow> evm_record s' = evm_record s"
  by (auto simp: apply_claim_payout_def Let_def split: option.splits if_splits dest!: finish_call_evm)

lemma life_economics_evm:
  assumes "apply_life_command_economics E s signer c = (s', r)"
  shows "evm_record s' = evm_record s"
proof (cases "lc_kind c = ProvenanceBond")
  case True
  with assms show ?thesis
    by (auto simp: apply_life_command_economics_def apply_provenance_bond_def Let_def
        split: option.splits if_splits)
next
  case False
  then show ?thesis by (rule erased_evm_record(2) [OF life_economics_erase [OF assms]])
qed

lemma life_command_evm: "apply_life_command E s signer c bump = (s', r) \<Longrightarrow> evm_record s' = evm_record s"
  by (auto simp: apply_life_command_def require_governance_def Let_def and_then_def
      split: option.splits if_splits sum.splits prod.splits dest!: finish_call_evm life_economics_evm)

lemma native_evm:
  assumes "apply_native_impl E s signer call bump = (s', r)"
  shows "evm_record s' = evm_record s"
  using assms
  by (cases call)
    (auto simp: Let_def and_then_def settle_batch_evm claim_payout_evm
      life_command_evm require_governance_def check_receipt_witness_def
      split: option.splits if_splits sum.splits prod.splits
      dest!: finish_call_evm distribute_erase [THEN erased_evm_record(1)])

lemma transfer_evm: "apply_transfer s from to v = (s', r) \<Longrightarrow> evm_record s' = evm_record s"
  by (auto simp: apply_transfer_def Let_def split: option.splits if_splits dest!: bump_nonce_evm)

lemma bump_versions_evm [simp]: "evm_record (bump_owned_object_versions_for_scope s scope) = evm_record s"
  by (simp add: bump_owned_object_versions_for_scope_def split: tx_execution_scope.splits)

text \<open>
  The engine writes accounts, code and storage; the per-transaction records are written by the
  ledger after it returns.
\<close>

definition engine_frame :: "evm_engine \<Rightarrow> bool" where
  "engine_frame ev \<longleftrightarrow>
     (\<forall>s a b v d g s' r. ev_execute_call ev s a b v d g = (s', r) \<longrightarrow> evm_record s' = evm_record s) \<and>
     (\<forall>s a v d g s' r. ev_execute_create ev s a v d g = (s', r) \<longrightarrow> evm_record s' = evm_record s)"

lemma record_outcome_evm:
  assumes "map_option (ext_keccak256 E) (ext_borsh_transaction E tx) = Some h" and "h' \<noteq> h"
  shows "evm_record (record_evm_outcome E tx outcome s) h' = evm_record s h'"
  using assms by (auto simp: record_evm_outcome_def evm_record_def Let_def split: option.splits)

lemma transaction_evm:
  assumes "engine_frame ev" and "apply_transaction_with_evm E ev s tx = (s', Inr u)"
    and "map_option (ext_keccak256 E) (ext_borsh_transaction E tx) = Some h" and "h' \<noteq> h"
  shows "evm_record s' h' = evm_record s h'"
proof -
  have call: "evm_record s1 = evm_record s" if "ev_execute_call ev s a b v d g = (s1, r)" for a b v d g s1 r
    using assms(1) that unfolding engine_frame_def by blast
  have create: "evm_record s1 = evm_record s" if "ev_execute_create ev s a v d g = (s1, r)" for a v d g s1 r
    using assms(1) that unfolding engine_frame_def by blast
  show ?thesis
    using assms(2) record_outcome_evm [OF assms(3,4)]
    by (auto simp: apply_transaction_with_evm_def on_success_iff apply_native_def and_then_def is_ok_def
        split: option.splits if_splits vm_kind.splits tx_body.splits prod.splits sum.splits
        dest!: native_evm transfer_evm call create bump_nonce_evm)
qed

section \<open>Gas of a block\<close>

lemma gas_after_cong:
  assumes "map_option (ext_keccak256 E) (ext_borsh_transaction E tx) = Some h" and "evm_record s' h = evm_record s h"
  shows "gas_used_after_apply E s' tx = gas_used_after_apply E s tx"
  using assms by (auto simp: gas_used_after_apply_def evm_record_def split: option.splits)

lemma block_loop_evm:
  assumes "engine_frame ev" and "apply_block_with_evm_loop E ev s acc txs = (s', Inr g)"
    and "map (\<lambda>tx. map_option (ext_keccak256 E) (ext_borsh_transaction E tx)) txs = map Some hs" and "h \<notin> set hs"
  shows "evm_record s' h = evm_record s h"
  using assms(2-)
proof (induction txs arbitrary: s acc hs)
  case (Cons tx txs)
  obtain h1 hs' where hs: "hs = h1 # hs'" using Cons.prems(2) by (cases hs) auto
  obtain s1 acc' where s1: "apply_transaction_with_evm E ev s tx = (s1, Inr ())"
    and rest: "apply_block_with_evm_loop E ev s1 acc' txs = (s', Inr g)"
    using Cons.prems(1) by (auto simp: and_then_def split: prod.splits sum.splits option.splits)
  have "evm_record s1 h = evm_record s h"
    using Cons.prems(2,3) hs by (intro transaction_evm [OF assms(1) s1, of h1]) simp_all
  moreover have "evm_record s' h = evm_record s1 h" using Cons.IH [OF rest, of hs'] Cons.prems(2,3) hs by simp
  ultimately show ?case by simp
qed simp

text \<open>The receipts of the final state list the gas that the loop summed, when the hashes differ.\<close>

lemma block_loop_gas:
  assumes "engine_frame ev" and "apply_block_with_evm_loop E ev s acc txs = (s', Inr g)"
    and "map (\<lambda>tx. map_option (ext_keccak256 E) (ext_borsh_transaction E tx)) txs = map Some hs" and "distinct hs"
    and "map (\<lambda>tx. gas_used_after_apply E s' tx) txs = map (\<lambda>r. Inr (mr_gas_used r)) rs"
  shows "gas_sum_loop acc rs = Inr g"
  using assms(2-)
proof (induction txs arbitrary: s acc hs rs)
  case (Cons tx txs)
  obtain h1 hs' where hs: "hs = h1 # hs'" using Cons.prems(2) by (cases hs) auto
  obtain r rs' where rs: "rs = r # rs'" using Cons.prems(4) by (cases rs) auto
  have h1: "map_option (ext_keccak256 E) (ext_borsh_transaction E tx) = Some h1" using Cons.prems(2) hs by simp
  obtain s1 g1 acc' where "apply_transaction_with_evm E ev s tx = (s1, Inr ())"
    and g1: "gas_used_after_apply E s1 tx = Inr g1" and acc': "checked_add acc g1 = Some acc'"
    and rest: "apply_block_with_evm_loop E ev s1 acc' txs = (s', Inr g)"
    using Cons.prems(1) by (auto simp: and_then_def split: prod.splits sum.splits option.splits)
  have "evm_record s' h1 = evm_record s1 h1"
    using Cons.prems(2,3) hs by (intro block_loop_evm [OF assms(1) rest, of hs']) simp_all
  then have "gas_used_after_apply E s' tx = Inr g1" using gas_after_cong [OF h1, of s' s1] g1 by metis
  then have "mr_gas_used r = g1" using Cons.prems(4) rs by simp
  then show ?case using Cons.IH [OF rest, of hs' rs'] Cons.prems(2-4) hs rs acc' by simp
qed simp

lemma receipts_gas:
  assumes "mixed_execution_tx_receipts B s txs = Some rs"
  shows "map (\<lambda>tx. gas_used_after_apply (bx_ledger B) s tx) txs = map (\<lambda>r. Inr (mr_gas_used r)) rs"
proof (rule nth_equalityI)
  note nth = those_map_nth [OF assms [unfolded mixed_execution_tx_receipts_def]]
  show "length (map (\<lambda>tx. gas_used_after_apply (bx_ledger B) s tx) txs) = length (map (\<lambda>r. Inr (mr_gas_used r)) rs)"
    using nth(1) by simp
  show "map (\<lambda>tx. gas_used_after_apply (bx_ledger B) s tx) txs ! i = map (\<lambda>r. Inr (mr_gas_used r)) rs ! i"
    if "i < length (map (\<lambda>tx. gas_used_after_apply (bx_ledger B) s tx) txs)" for i
    using that nth(1) nth(2) [of i]
    by (auto simp: mixed_execution_tx_receipt_of_def Let_def split: option.splits sum.splits dest!: sym [of _ "rs ! i"])
qed

section \<open>Roots\<close>

lemma merkle_root_repeat:
  assumes "even (length xs)" and "xs \<noteq> []"
  shows "merkle_root_from_hashes kc (xs @ [x]) = merkle_root_from_hashes kc (xs @ [x, x])"
  using assms next_level_repeat [OF assms(1), of kc x]
  by (simp add: merkle_root_from_hashes_def merkle_root_loop.simps [of kc "xs @ _"])

section \<open>Properties\<close>

text \<open>
  C34.  Replaying a built block on its parent state, with an engine that leaves the
  per-transaction records to the ledger and transactions with distinct hashes: when the emission
  of the height is zero every comparison with the header succeeds and the answer is the witness
  of the transition; when it is not, the replay, which does not mint, ends in a state-root error,
  because the header committed to the state after the mint.
\<close>

theorem replay_of_built_block:
  assumes build: "execute_and_build_zone_block (wx_block W) chain_id height view parent_hash parent_qc_hash proposer
      timestamp_ms gas_limit s txs raws ns = (s2, Inr block)"
    and engine: "engine_frame (bx_evm (wx_block W))"
    and hashes: "those (map (tx_hash (wx_block W)) txs) = Some hs" "distinct hs"
    and exec: "apply_block_with_evm (bx_ledger (wx_block W)) (bx_evm (wx_block W)) s txs = (s1, Inr gas)"
    and root: "state_root (wx_block W) s1 = state_root (wx_block W) s2 \<Longrightarrow> s1 = s2"
    and encodes: "state_root (wx_block W) s1 \<noteq> None"
  shows "mixed_execution_witness_from_replay W block s =
    (if eb_total_wei (emission_for_block (sat_sub height 1) (ce_emission (chain_economics s1))) = 0
     then ok_or WitIo (mixed_execution_witness_from_state_transition W block s s2)
     else Inl WitStateRoot)"
proof -
  let ?B = "wx_block W"
  obtain psr minted where mint: "mint_protocol_emission_for_block s1 (sat_sub height 1) = (s2, Inr minted)"
    and asm: "assemble_block ?B chain_id height view parent_hash parent_qc_hash proposer timestamp_ms gas_limit ns psr s2
       gas txs raws = Inr block"
    by (rule build_blockE [OF build]) (use exec in auto)
  obtain sr tx_root rs receipt_root log_root payload sidecar where
    parts: "state_root ?B s2 = Some sr" "ordered_tx_root ?B txs = Some tx_root"
      "mixed_execution_tx_receipts ?B s2 txs = Some rs" "tx_receipt_root ?B rs = Some receipt_root"
      "block_evm_log_root ?B s2 txs = Some log_root"
    and header: "hd_state_root (bk_header block) = sr" "hd_tx_root (bk_header block) = tx_root"
      "hd_receipt_root (bk_header block) = receipt_root" "hd_evm_log_root (bk_header block) = log_root"
      "hd_feature_set (bk_header block) = block_feature_set txs" "hd_gas_used (bk_header block) = gas"
      "bk_transactions block = txs"
    by (rule assemble_blockE [OF asm]) auto
  show ?thesis
  proof (cases "eb_total_wei (emission_for_block (sat_sub height 1) (ce_emission (chain_economics s1))) = 0")
    case True
    then have s2: "s2 = s1" using mint by (simp add: mint_protocol_emission_for_block_def Let_def)
    have "map (\<lambda>tx. map_option (ext_keccak256 (bx_ledger ?B)) (ext_borsh_transaction (bx_ledger ?B) tx)) txs = map Some hs"
      using hashes(1) by (simp add: those_eq_Some tx_hash_def [abs_def])
    then have "gas_sum_loop 0 rs = Inr gas"
      using block_loop_gas [OF engine exec [unfolded apply_block_with_evm_def]] hashes(2)
        receipts_gas [OF parts(3)] s2 by blast
    then show ?thesis
      using True parts header exec s2
      by (simp add: mixed_execution_witness_from_replay_def witness_gas_sum_def)
  next
    case False
    then have "protocol_minted_wei s2 \<noteq> protocol_minted_wei s1"
      using mint by (auto simp: mint_protocol_emission_for_block_def Let_def checked_add_def split: if_splits)
    then have "state_root ?B s1 \<noteq> state_root ?B s2" using root by blast
    then show ?thesis
      using False encodes parts(1) header exec
      by (auto simp: mixed_execution_witness_from_replay_def)
  qed
qed

text \<open>
  C33.  A built block is the block its header commits to: the header carries the root of the
  parent state and of the state left behind, the root of the transactions and their features,
  its data-availability sidecar passes the check against the header, and the Borsh encoding of
  the transactions is recovered from the sidecar; the summed gas limits fit the block.
\<close>

theorem built_block_commits:
  assumes codec: "codec_limit (bx_da B)" "codec_sound (bx_da B)"
    and build: "execute_and_build_zone_block B chain_id height view parent_hash parent_qc_hash proposer
      timestamp_ms gas_limit s txs raws ns = (s2, Inr block)"
  shows "state_root B s = Some (hd_parent_state_root (bk_header block))
    \<and> state_root B s2 = Some (hd_state_root (bk_header block))
    \<and> bk_transactions block = txs
    \<and> ordered_tx_root B txs = Some (hd_tx_root (bk_header block))
    \<and> hd_feature_set (bk_header block) = block_feature_set txs
    \<and> verify_da_sidecar (bx_da B) (bk_header block) (bk_da_sidecar block) = Inr ()
    \<and> (\<exists>payload. bx_borsh_tx_list B txs = Some payload
         \<and> reconstruct_da_payload (bx_da B) (bk_da_sidecar block) = Inr payload)
    \<and> (\<exists>budget. budget_loop (bx_ledger B) 0 txs = Inr budget \<and> budget \<le> gas_limit)"
proof -
  obtain psr budget gas where budget: "budget_loop (bx_ledger B) 0 txs = Inr budget" "budget \<le> gas_limit"
    and psr: "state_root B s = Some psr"
    and asm: "assemble_block B chain_id height view parent_hash parent_qc_hash proposer timestamp_ms gas_limit ns psr s2
       gas txs raws = Inr block"
    by (rule build_blockE [OF build])
  show ?thesis
  proof (rule assemble_blockE [OF asm])
    fix sr tx_root rcpts receipt_root log_root payload sidecar
    assume parts: "state_root B s2 = Some sr" "ordered_tx_root B txs = Some tx_root"
      "bx_borsh_tx_list B txs = Some payload"
      and sidecar: "build_da_sidecar (bx_da B) payload ns DEFAULT_DA_SHARE_SIZE = Inr sidecar"
      and block: "block = \<lparr>bk_header =
       \<lparr>hd_version = 1, hd_chain_id = chain_id, hd_height = height, hd_view = view,
        hd_parent_hash = parent_hash, hd_parent_qc_hash = parent_qc_hash, hd_proposer = proposer,
        hd_timestamp_ms = timestamp_ms, hd_parent_state_root = psr,
        hd_state_root = sr, hd_tx_root = tx_root, hd_receipt_root = receipt_root,
        hd_native_event_root = 0, hd_evm_log_root = log_root, hd_zone_namespace = ns,
        hd_da_root = da_root (bx_da B) sidecar, hd_da_bytes = sc_original_len sidecar,
        hd_da_share_count = of_nat (length (sc_shares sidecar)), hd_da_gas_used = da_gas_for_sidecar sidecar,
        hd_da_fee_paid = da_fee_for_gas (da_gas_for_sidecar sidecar), hd_gas_used = gas,
        hd_gas_limit = gas_limit, hd_feature_set = block_feature_set txs, hd_extra = 0\<rparr>,
      bk_transactions = txs, bk_eth_signed_raw = raws, bk_da_sidecar = sidecar\<rparr>"
    have "verify_da_sidecar (bx_da B) (bk_header block) sidecar = Inr ()"
      by (rule built_sidecar_verifies [OF codec sidecar]) (simp_all add: block)
    moreover have "reconstruct_da_payload (bx_da B) sidecar = Inr payload"
      by (rule full_sidecar_reconstructs [OF codec sidecar])
    moreover have "bk_da_sidecar block = sidecar" by (simp add: block)
    ultimately show ?thesis using parts psr budget by (simp add: block)
  qed
qed

text \<open>
  The transaction root binds the transactions: two lists of the same length with the same
  root are equal, unless two of the inputs that the hash is applied to collide, given that the
  encoder tells their transactions apart.
\<close>

theorem tx_root_binds_transactions:
  assumes root: "ordered_tx_root B txs = ordered_tx_root B txs'" and len: "length txs = length txs'"
    and raws: "map (ext_borsh_transaction (bx_ledger B)) txs = map Some rs"
      "map (ext_borsh_transaction (bx_ledger B)) txs' = map Some rs'"
    and no_collision: "inj_on (keccak256 B) (set rs \<union> set rs' \<union>
      set (tree_inputs (keccak256 B) (map (keccak256 B) rs)) \<union> set (tree_inputs (keccak256 B) (map (keccak256 B) rs')))"
    and encoder: "inj_on (ext_borsh_transaction (bx_ledger B)) (set txs \<union> set txs')"
  shows "txs = txs'"
proof -
  let ?kc = "keccak256 B"
  have hashes: "those (map (tx_hash B) txs) = Some (map ?kc rs)" "those (map (tx_hash B) txs') = Some (map ?kc rs')"
    using arg_cong [OF raws(1), of "map (map_option ?kc)"] arg_cong [OF raws(2), of "map (map_option ?kc)"]
    by (simp_all add: those_eq_Some tx_hash_def [abs_def] comp_def)
  have lens: "length rs = length txs" "length rs' = length txs'"
    using raws by (metis length_map)+
  show ?thesis
  proof (cases "txs = []")
    case False
    then have "txs' \<noteq> []" "rs \<noteq> []" "rs' \<noteq> []" using len lens by auto
    then have "merkle_root_loop ?kc (map ?kc rs) = merkle_root_loop ?kc (map ?kc rs')"
      using root False hashes by (simp add: ordered_tx_root_def merkle_root_from_hashes_def)
    then have "map ?kc rs = map ?kc rs'"
      using no_collision len lens by (intro merkle_root_inject) (auto intro: inj_on_subset)
    moreover have "inj_on ?kc (set rs \<union> set rs')" using no_collision by (auto intro: inj_on_subset)
    ultimately have "rs = rs'" by (metis inj_on_map_eq_map)
    then have "map (ext_borsh_transaction (bx_ledger B)) txs = map (ext_borsh_transaction (bx_ledger B)) txs'"
      using raws by simp
    then show ?thesis using encoder by (metis inj_on_map_eq_map)
  qed (use len in simp)
qed

text \<open>
  The number of leaves is not part of a root: repeating the last of an odd number, at least
  three, of included proofs gives the same root.
\<close>

theorem rlvr_root_ignores_repeated_tail:
  assumes "even (length hs)" and "hs \<noteq> []"
  shows "rlvr_proof_root D (hs @ [h]) = rlvr_proof_root D (hs @ [h, h])"
  using assms merkle_root_repeat [of "map (rlvr_leaf_of_proof_hash D) hs"] by (simp add: rlvr_proof_root_def)

theorem rlvr_root_ignores_repeated_tail_witness:
  "rlvr_proof_root sample_da ([1, 2] @ [3]) = rlvr_proof_root sample_da ([1, 2] @ [3, 3])"
  by (rule rlvr_root_ignores_repeated_tail) simp_all

section \<open>Concrete instances\<close>

abbreviation sample_build :: "(state, build_block_error, block) exec" where
  "sample_build \<equiv> execute_and_build_zone_block sample_block_ext 1 1 1 0 0 0 1000 60000000 sample_state
     [sample_transfer] [None] 7"

lemma sample_build_ok: "is_ok (snd sample_build)"
  by code_simp

lemma sample_engine_frame: "engine_frame sample_engine"
  by (simp add: engine_frame_def sample_engine_def)

theorem built_block_commits_witness:
  "\<exists>s2 block. sample_build = (s2, Inr block)
     \<and> verify_da_sidecar sample_da (bk_header block) (bk_da_sidecar block) = Inr ()
     \<and> reconstruct_da_payload sample_da (bk_da_sidecar block) = Inr [1, 2, 3]"
proof -
  obtain s2 block where build: "sample_build = (s2, Inr block)"
    using sample_build_ok by (cases sample_build) (auto simp: is_ok_def split: sum.splits)
  have "bx_da sample_block_ext = sample_da" "bx_borsh_tx_list sample_block_ext [sample_transfer] = Some [1, 2, 3]"
    by (simp_all add: sample_block_ext_def)
  then show ?thesis
    using built_block_commits [OF _ _ build] sample_codec build by auto
qed

lemma sample_emission_zero:
  "eb_total_wei (emission_for_block (sat_sub 1 1) (ce_emission (chain_economics
     (fst (apply_block_with_evm sample_ext sample_engine sample_state [sample_transfer]))))) = 0"
  by code_simp

lemma sample_block_runs: "is_ok (snd (apply_block_with_evm sample_ext sample_engine sample_state [sample_transfer]))"
  by code_simp

lemma sample_hash: "tx_hash sample_block_ext sample_transfer = Some (sample_keccak (be_bytes 20 (1 :: address) @ be_bytes 8 (0 :: u64)))"
  by (simp add: tx_hash_def sample_block_ext_def sample_ext_def sample_transfer_def)

theorem replay_of_built_block_witness:
  "\<exists>s2 block. sample_build = (s2, Inr block)
     \<and> mixed_execution_witness_from_replay sample_witness_ext block sample_state
       = ok_or WitIo (mixed_execution_witness_from_state_transition sample_witness_ext block sample_state s2)"
proof -
  let ?W = sample_witness_ext
  have W: "wx_block ?W = sample_block_ext" "bx_ledger sample_block_ext = sample_ext" "bx_evm sample_block_ext = sample_engine"
    by (simp_all add: sample_witness_ext_def sample_block_ext_def)
  obtain s2 block where build: "sample_build = (s2, Inr block)"
    using sample_build_ok by (cases sample_build) (auto simp: is_ok_def split: sum.splits)
  obtain s1 gas where exec: "apply_block_with_evm sample_ext sample_engine sample_state [sample_transfer] = (s1, Inr gas)"
    using sample_block_runs
    by (cases "apply_block_with_evm sample_ext sample_engine sample_state [sample_transfer]") (auto simp: is_ok_def split: sum.splits)
  have zero: "eb_total_wei (emission_for_block (sat_sub 1 1) (ce_emission (chain_economics s1))) = 0"
    using sample_emission_zero exec by simp
  have s2: "s2 = s1"
    using build exec zero
    by (auto simp: execute_and_build_zone_block_def W mint_protocol_emission_for_block_def Let_def split: if_splits sum.splits option.splits)
  have "state_root sample_block_ext s1 \<noteq> None" by (simp add: state_root_def sample_block_ext_def)
  then show ?thesis
    using replay_of_built_block [of ?W 1 1 1 0 0 0 1000 60000000 sample_state "[sample_transfer]" "[None]" 7 s2 block
        "[sample_keccak (be_bytes 20 (1 :: address) @ be_bytes 8 (0 :: u64))]" s1 gas]
      build exec s2 zero sample_engine_frame sample_hash
    by (simp add: W)
qed

theorem tx_root_binds_transactions_witness:
  "ordered_tx_root sample_block_ext [sample_transfer, sample_transfer\<lparr>tx_nonce := 1\<rparr>]
     \<noteq> ordered_tx_root sample_block_ext [sample_transfer\<lparr>tx_nonce := 1\<rparr>, sample_transfer]"
proof
  let ?B = sample_block_ext and ?t = sample_transfer and ?u = "sample_transfer\<lparr>tx_nonce := 1\<rparr>"
  let ?r = "be_bytes 20 (1 :: address) @ be_bytes 8 (0 :: u64)" and ?q = "be_bytes 20 (1 :: address) @ be_bytes 8 (1 :: u64)"
  assume root: "ordered_tx_root ?B [?t, ?u] = ordered_tx_root ?B [?u, ?t]"
  have enc: "ext_borsh_transaction (bx_ledger ?B) ?t = Some ?r" "ext_borsh_transaction (bx_ledger ?B) ?u = Some ?q"
    by (simp_all add: sample_block_ext_def sample_ext_def sample_transfer_def)
  have kc: "keccak256 ?B = sample_keccak" by (simp add: sample_block_ext_def sample_ext_def)
  have "distinct (map sample_keccak (remdups ([?r, ?q] @ [?q, ?r] @ tree_inputs sample_keccak (map sample_keccak [?r, ?q])
      @ tree_inputs sample_keccak (map sample_keccak [?q, ?r]))))"
    by code_simp
  then have inj: "inj_on sample_keccak (set ([?r, ?q] @ [?q, ?r] @ tree_inputs sample_keccak (map sample_keccak [?r, ?q])
      @ tree_inputs sample_keccak (map sample_keccak [?q, ?r])))"
    by (metis distinct_map set_remdups)
  have ne: "?r \<noteq> ?q" by code_simp
  have "[?t, ?u] = [?u, ?t]"
  proof (rule tx_root_binds_transactions [OF root])
    show "map (ext_borsh_transaction (bx_ledger ?B)) [?t, ?u] = map Some [?r, ?q]"
      "map (ext_borsh_transaction (bx_ledger ?B)) [?u, ?t] = map Some [?q, ?r]" using enc by simp_all
    show "inj_on (ext_borsh_transaction (bx_ledger ?B)) (set [?t, ?u] \<union> set [?u, ?t])"
      using enc ne by (auto simp: inj_on_def)
    show "inj_on (keccak256 ?B) (set [?r, ?q] \<union> set [?q, ?r] \<union> set (tree_inputs (keccak256 ?B) (map (keccak256 ?B) [?r, ?q]))
       \<union> set (tree_inputs (keccak256 ?B) (map (keccak256 ?B) [?q, ?r])))"
      unfolding kc using inj by (simp only: set_append Un_assoc)
  qed simp
  then show False by (simp add: sample_transfer_def)
qed

end
