(* ===== verification/Validity_Proofs.thy ===== *)
theory Validity_Proofs
  imports Proof_System Block_Correctness
begin

text \<open>
  Fixtures, envelopes and their verification, the second half of
  \<open>crates/consensus/src/proof.rs\<close>, and \<open>verify_block_validity_proof\<close> of
  \<open>crates/consensus/src/lib.rs\<close>.  The theorems say what an accepted proof agrees with its block
  on, that the fixtures a prover builds are accepted, and that an accepted fixture needs no
  prover: it is a function of the public inputs.
\<close>

section \<open>Fixtures\<close>

definition evm_zkvm_proof_fixture_v1 :: "('v, 'p) proof_ext \<Rightarrow> mixed_execution_witness \<Rightarrow> evm_zkvm_fixture option" where
  "evm_zkvm_proof_fixture_v1 P w =
     (case (evm_zkvm_transition_statement_v1 P w,
            coverage_manifest_digest (pv_witness P) (coverage_manifest_for_circuit_version MixedStateTransitionV1)) of
        (Some statement, Some cov) \<Rightarrow>
          map_option (\<lambda>d. \<lparr>ef_version = 1, ef_statement = statement, ef_coverage_manifest_digest = cov,
                            ef_proof_digest = d\<rparr>)
            (pv_digest P (pv_enc_evm_fixture_body P)
              (EVM_ZKVM_FIXTURE_V1_TAG, EVM_ZKVM_TRANSITION_STATEMENT_V1_TAG, statement, cov))
      | _ \<Rightarrow> None)"

definition evm_zkvm_proof_envelope_v1 :: "('v, 'p) proof_ext \<Rightarrow> mixed_execution_witness \<Rightarrow> proof_envelope option" where
  "evm_zkvm_proof_envelope_v1 P w = map_option EvmZkVmFixtureV1 (evm_zkvm_proof_fixture_v1 P w)"

definition mixed_intrablock_aggregate_fixture_v1 ::
    "('v, 'p) proof_ext \<Rightarrow> mixed_execution_witness \<Rightarrow> mixed_aggregate_fixture option" where
  "mixed_intrablock_aggregate_fixture_v1 P w =
     (case (native_mixed_component_statement_v1 P w, evm_zkvm_proof_fixture_v1 P w,
            coverage_manifest_digest (pv_witness P) (coverage_manifest_for_circuit_version MixedStateTransitionV1),
            public_inputs_digest (pv_witness P) (mw_public_inputs w), mixed_execution_witness_digest (pv_witness P) w) of
        (Some statement, Some evm, Some cov, Some pid, Some wd) \<Rightarrow>
          (case (pv_digest P (pv_enc_component P) statement, pv_digest P (pv_enc_evm_fixture P) evm) of
             (Some nd, Some ed) \<Rightarrow>
               map_option (\<lambda>d. \<lparr>mf_version = 1, mf_public_input_digest = pid, mf_witness_digest = wd,
                    mf_circuit_version = MixedStateTransitionV1, mf_coverage_manifest_digest = cov,
                    mf_native_component_statement = statement, mf_evm_zkvm_fixture = evm,
                    mf_native_component_digest = nd, mf_evm_component_digest = ed,
                    mf_aggregate_proof_digest = d, mf_compressed = True\<rparr>)
                 (pv_digest P (pv_enc_aggregate P)
                   (MIXED_INTRABLOCK_AGGREGATE_FIXTURE_V1_TAG, pid, wd, cov, nd, ed, True))
           | _ \<Rightarrow> None)
      | _ \<Rightarrow> None)"

definition mixed_intrablock_aggregate_proof_envelope_v1 ::
    "('v, 'p) proof_ext \<Rightarrow> mixed_execution_witness \<Rightarrow> proof_envelope option" where
  "mixed_intrablock_aggregate_proof_envelope_v1 P w =
     map_option MixedIntraBlockAggregateFixtureV1 (mixed_intrablock_aggregate_fixture_v1 P w)"

definition native_recursive_wrap_fixture_digest_v1 ::
    "('v, 'p) proof_ext \<Rightarrow> native_recursive_wrap_fixture \<Rightarrow> hash256 option" where
  "native_recursive_wrap_fixture_digest_v1 P fixture = pv_digest P (pv_enc_wrap_fixture P) fixture"

definition native_recursive_wrap_fixture_v1 ::
    "('v, 'p) proof_ext \<Rightarrow> native_statement \<Rightarrow> block_validity_proof \<Rightarrow> native_recursive_wrap_fixture option" where
  "native_recursive_wrap_fixture_v1 P statement p =
     (case (validity_proof_public_input_digest P p, native_state_transition_statement_digest_v1 P statement) of
        (Some pid, Some sd) \<Rightarrow>
          map_option (\<lambda>d. \<lparr>wf_version = 1, wf_fixture_id = d, wf_native_statement_digest = sd,
               wf_public_input_digest = pid, wf_public_input_limbs = stwo_plonky2_public_input_limbs pid,
               wf_circuit_version = bp_circuit_version p,
               wf_coverage_manifest_digest = bp_coverage_manifest_digest p\<rparr>)
            (pv_digest P (pv_enc_wrap_body P)
              (NATIVE_RECURSIVE_WRAP_FIXTURE_V1_TAG, sd, pid, stwo_plonky2_public_input_limbs pid,
               bp_circuit_version p, bp_coverage_manifest_digest p))
      | _ \<Rightarrow> None)"

definition compressed_plonky2_native_proof_fixture_v1 ::
    "('v, 'p) proof_ext \<Rightarrow> native_recursive_wrap_fixture \<Rightarrow> hash256 \<Rightarrow> compressed_plonky2_fixture option" where
  "compressed_plonky2_native_proof_fixture_v1 P fixture verifier_id =
     (case native_recursive_wrap_fixture_digest_v1 P fixture of
        None \<Rightarrow> None
      | Some fd \<Rightarrow>
          map_option (\<lambda>d. \<lparr>zf_version = 1, zf_verifier_id = verifier_id, zf_recursive_fixture_digest = fd,
               zf_public_input_digest = wf_public_input_digest fixture,
               zf_public_input_limbs = wf_public_input_limbs fixture, zf_proof_digest = d, zf_compressed = True\<rparr>)
            (pv_digest P (pv_enc_compressed_body P)
              (NATIVE_COMPRESSED_PLONKY2_FIXTURE_V1_TAG, verifier_id, fd, wf_public_input_digest fixture,
               wf_public_input_limbs fixture, True)))"

definition native_recursive_proof_envelope_v1 ::
    "('v, 'p) proof_ext \<Rightarrow> native_statement \<Rightarrow> block_validity_proof \<Rightarrow> hash256 \<Rightarrow> proof_envelope option" where
  "native_recursive_proof_envelope_v1 P statement p verifier_id =
     (case native_recursive_wrap_fixture_v1 P statement p of
        None \<Rightarrow> None
      | Some fixture \<Rightarrow>
          map_option (NativeRecursiveFixtureV1 statement fixture)
            (compressed_plonky2_native_proof_fixture_v1 P fixture verifier_id))"

definition verify_native_inter_block_chain_v1 ::
    "block_validity_proof \<Rightarrow> block_validity_proof \<Rightarrow> production_proof_error + unit" where
  "verify_native_inter_block_chain_v1 previous next =
     (if bp_circuit_version previous \<noteq> NativeStateTransitionV1 \<or> bp_circuit_version next \<noteq> NativeStateTransitionV1
      then Inl NativeCircuitVersion
      else if bp_chain_id previous \<noteq> bp_chain_id next \<or> sat_add (bp_height previous) 1 \<noteq> bp_height next
           \<or> bp_state_root previous \<noteq> bp_parent_state_root next
      then Inl NativeInterBlockChain else Inr ())"

definition canonical_recursive_proof_fixture_v1 ::
    "('v, 'p) proof_ext \<Rightarrow> stwo_execution_air_adapter \<Rightarrow> hash256 \<Rightarrow> canonical_recursive_fixture option" where
  "canonical_recursive_proof_fixture_v1 P adapter verifier_id =
     (case stwo_execution_air_adapter_digest P adapter of
        None \<Rightarrow> None
      | Some ad \<Rightarrow>
          map_option (\<lambda>d. \<lparr>kf_version = 1, kf_fixture_id = d, kf_stwo_air_adapter_digest = ad,
               kf_plonky2_verifier_id = verifier_id, kf_public_input_digest = sx_public_input_digest adapter,
               kf_public_input_limbs = sx_public_input_limbs adapter\<rparr>)
            (pv_digest P (pv_enc_canonical_body P)
              (STWO_RECURSIVE_FIXTURE_V1_TAG, ad, verifier_id, sx_public_input_digest adapter,
               sx_public_input_limbs adapter)))"

section \<open>Verification of an envelope\<close>

definition verify_evm_zkvm_fixture ::
    "('v, 'p) proof_ext \<Rightarrow> evm_zkvm_fixture \<Rightarrow> hash256 \<Rightarrow> production_proof_error + unit" where
  "verify_evm_zkvm_fixture P fixture public_input_digest =
     (let st = ef_statement fixture; surface = evm_zkvm_surface_v1
      in
      if coverage_manifest_digest (pv_witness P) (coverage_manifest_for_circuit_version MixedStateTransitionV1)
           \<noteq> Some (ef_coverage_manifest_digest fixture)
         \<or> ef_version fixture \<noteq> 1 \<or> es_version st \<noteq> 1 \<or> es_zkvm_choice st \<noteq> zs_zkvm_choice surface
         \<or> es_zkvm_target_id st \<noteq> pv_kc P (ascii (zs_zkvm_target surface))
         \<or> pv_digest P (pv_enc_surface P) surface \<noteq> Some (es_revm_subset_digest st)
         \<or> es_public_input_digest st \<noteq> public_input_digest
      then Inl EvmZkVmFixture
      else if es_covered_features st \<noteq> zs_covered_features surface then Inl EvmZkVmFixture
      else if pv_digest P (pv_enc_evm_fixture_body P)
                (EVM_ZKVM_FIXTURE_V1_TAG, EVM_ZKVM_TRANSITION_STATEMENT_V1_TAG, st, ef_coverage_manifest_digest fixture)
              \<noteq> Some (ef_proof_digest fixture)
      then Inl EvmZkVmFixture else Inr ())"

definition verify_mixed_intrablock_aggregate_fixture ::
    "('v, 'p) proof_ext \<Rightarrow> mixed_aggregate_fixture \<Rightarrow> hash256 \<Rightarrow> production_proof_error + unit" where
  "verify_mixed_intrablock_aggregate_fixture P f public_input_digest =
     (let manifest = coverage_manifest_for_circuit_version MixedStateTransitionV1;
          st = mf_native_component_statement f; evm = mf_evm_zkvm_fixture f
      in
      if coverage_manifest_digest (pv_witness P) manifest \<noteq> Some (mf_coverage_manifest_digest f)
         \<or> mf_version f \<noteq> 1 \<or> \<not> mf_compressed f \<or> mf_circuit_version f \<noteq> MixedStateTransitionV1
         \<or> mf_public_input_digest f \<noteq> public_input_digest \<or> nm_public_input_digest st \<noteq> public_input_digest
         \<or> es_public_input_digest (ef_statement evm) \<noteq> public_input_digest
         \<or> nm_witness_digest st \<noteq> mf_witness_digest f \<or> es_witness_digest (ef_statement evm) \<noteq> mf_witness_digest f
         \<or> \<not> contains_only (nm_feature_set st) (cm_covered_features manifest)
         \<or> \<not> contains_only (es_feature_set (ef_statement evm)) (cm_covered_features manifest)
      then Inl MixedAggregateFixture
      else if pv_digest P (pv_enc_component P) st \<noteq> Some (mf_native_component_digest f)
           \<or> pv_digest P (pv_enc_evm_fixture P) evm \<noteq> Some (mf_evm_component_digest f)
      then Inl MixedAggregateFixture
      else case verify_evm_zkvm_fixture P evm public_input_digest of
        Inl _ \<Rightarrow> Inl MixedAggregateFixture
      | Inr _ \<Rightarrow>
          if pv_digest P (pv_enc_aggregate P)
               (MIXED_INTRABLOCK_AGGREGATE_FIXTURE_V1_TAG, mf_public_input_digest f, mf_witness_digest f,
                mf_coverage_manifest_digest f, mf_native_component_digest f, mf_evm_component_digest f, True)
             \<noteq> Some (mf_aggregate_proof_digest f)
          then Inl MixedAggregateFixture else Inr ())"

definition verify_native_recursive_fixture ::
    "('v, 'p) proof_ext \<Rightarrow> native_statement \<Rightarrow> native_recursive_wrap_fixture \<Rightarrow> compressed_plonky2_fixture \<Rightarrow> hash256 \<Rightarrow>
     production_proof_error + unit" where
  "verify_native_recursive_fixture P st f c public_input_digest =
     (let limbs = stwo_plonky2_public_input_limbs public_input_digest
      in
      case coverage_manifest_digest (pv_witness P) (coverage_manifest_for_circuit_version NativeStateTransitionV1) of
        None \<Rightarrow> Inl NativeRecursiveFixture
      | Some cov \<Rightarrow>
      if ns_version st \<noteq> 1 \<or> ns_air_id st \<noteq> native_state_transition_air_id P
         \<or> ns_public_input_digest st \<noteq> public_input_digest
      then Inl NativeRecursiveFixture
      else if wf_version f \<noteq> 1 \<or> wf_circuit_version f \<noteq> NativeStateTransitionV1
           \<or> wf_coverage_manifest_digest f \<noteq> cov \<or> wf_public_input_digest f \<noteq> public_input_digest
           \<or> wf_public_input_limbs f \<noteq> limbs
           \<or> native_state_transition_statement_digest_v1 P st \<noteq> Some (wf_native_statement_digest f)
      then Inl NativeRecursiveFixture
      else if pv_digest P (pv_enc_wrap_body P)
                (NATIVE_RECURSIVE_WRAP_FIXTURE_V1_TAG, wf_native_statement_digest f, wf_public_input_digest f,
                 wf_public_input_limbs f, wf_circuit_version f, wf_coverage_manifest_digest f)
              \<noteq> Some (wf_fixture_id f)
      then Inl NativeRecursiveFixture
      else if zf_version c \<noteq> 1 \<or> \<not> zf_compressed c
           \<or> native_recursive_wrap_fixture_digest_v1 P f \<noteq> Some (zf_recursive_fixture_digest c)
           \<or> zf_public_input_digest c \<noteq> public_input_digest \<or> zf_public_input_limbs c \<noteq> limbs
      then Inl NativeRecursiveFixture
      else if pv_digest P (pv_enc_compressed_body P)
                (NATIVE_COMPRESSED_PLONKY2_FIXTURE_V1_TAG, zf_verifier_id c, zf_recursive_fixture_digest c,
                 zf_public_input_digest c, zf_public_input_limbs c, True)
              \<noteq> Some (zf_proof_digest c)
      then Inl NativeRecursiveFixture else Inr ())"

definition verify_stwo_execution_fixture ::
    "('v, 'p) proof_ext \<Rightarrow> stwo_execution_air_adapter \<Rightarrow> canonical_recursive_fixture \<Rightarrow> bytes \<Rightarrow> hash256 \<Rightarrow>
     production_proof_error + unit" where
  "verify_stwo_execution_fixture P a f proof_bytes public_input_digest =
     (if sx_version a \<noteq> 1 \<or> sx_air_id a \<noteq> stwo_execution_air_id P then Inl StwoAirAdapter
      else if sx_public_input_digest a \<noteq> public_input_digest
           \<or> sx_public_input_limbs a \<noteq> stwo_plonky2_public_input_limbs public_input_digest
      then Inl PublicInputDigest
      else case stwo_execution_air_adapter_digest P a of
        None \<Rightarrow> Inl StwoAirAdapter
      | Some ad \<Rightarrow>
          if kf_version f \<noteq> 1 \<or> kf_stwo_air_adapter_digest f \<noteq> ad \<or> kf_public_input_digest f \<noteq> public_input_digest
             \<or> kf_public_input_limbs f \<noteq> sx_public_input_limbs a
          then Inl RecursiveFixture
          else case canonical_recursive_proof_fixture_v1 P a (kf_plonky2_verifier_id f) of
            None \<Rightarrow> Inl RecursiveFixture
          | Some expected \<Rightarrow>
              if kf_fixture_id expected \<noteq> kf_fixture_id f then Inl RecursiveFixture
              else if proof_bytes = [] then Inl Plonky2Proof
              else Inl StwoAdapterUnavailable)"

definition verify_public_input_digest :: "u64 list \<Rightarrow> hash256 \<Rightarrow> production_proof_error + unit" where
  "verify_public_input_digest public_inputs expected_digest =
     (if length public_inputs < 8 then Inl PublicInputDigest
      else if take 8 public_inputs \<noteq> stwo_plonky2_public_input_limbs expected_digest then Inl PublicInputDigest
      else Inr ())"

definition verify_plonky2_poseidon_goldilocks ::
    "('v, 'p) proof_ext \<Rightarrow> bytes \<Rightarrow> bytes \<Rightarrow> bool \<Rightarrow> hash256 \<Rightarrow> production_proof_error + unit" where
  "verify_plonky2_poseidon_goldilocks P data proof compressed public_input_digest =
     (case pv_plonky2_data P data of
        None \<Rightarrow> Inl Plonky2VerifierData
      | Some vd \<Rightarrow>
          (case pv_plonky2_proof P vd compressed proof of
             None \<Rightarrow> Inl Plonky2Proof
           | Some (pf, public_inputs) \<Rightarrow>
               attempt (verify_public_input_digest public_inputs public_input_digest) (\<lambda>_.
               if pv_plonky2_verify P vd compressed pf then Inr () else Inl Plonky2Rejected)))"

definition verify_stwo_plonky2_proof ::
    "('v, 'p) proof_ext \<Rightarrow> bytes \<Rightarrow> hash256 \<Rightarrow> production_proof_error + unit" where
  "verify_stwo_plonky2_proof P proof_bytes public_input_digest =
     (case pv_decode_envelope P proof_bytes of
        None \<Rightarrow> Inl MalformedEnvelope
      | Some (Plonky2PoseidonGoldilocksV1 data proof compressed) \<Rightarrow>
          verify_plonky2_poseidon_goldilocks P data proof compressed public_input_digest
      | Some (StwoV1 adapter fixture pb) \<Rightarrow> verify_stwo_execution_fixture P adapter fixture pb public_input_digest
      | Some (NativeRecursiveFixtureV1 st fixture c) \<Rightarrow> verify_native_recursive_fixture P st fixture c public_input_digest
      | Some (EvmZkVmFixtureV1 fixture) \<Rightarrow> verify_evm_zkvm_fixture P fixture public_input_digest
      | Some (MixedIntraBlockAggregateFixtureV1 fixture) \<Rightarrow>
          verify_mixed_intrablock_aggregate_fixture P fixture public_input_digest)"

section \<open>Verification of a proof against a block\<close>

definition ascii_lower :: "char \<Rightarrow> char" where
  "ascii_lower c = (let n = of_char c :: nat in if 65 \<le> n \<and> n \<le> 90 then char_of (n + 32) else c)"

definition production_like :: "string \<Rightarrow> bool" where
  "production_like v \<longleftrightarrow> map ascii_lower v \<in> {''mainnet'', ''production'', ''prod'', ''release''}"

definition dev_digest_allowed_for_runtime :: "string option \<Rightarrow> string option \<Rightarrow> bool" where
  "dev_digest_allowed_for_runtime network environment \<longleftrightarrow>
     \<not> (case network of None \<Rightarrow> False | Some v \<Rightarrow> production_like v)
     \<and> \<not> (case environment of None \<Rightarrow> False | Some v \<Rightarrow> production_like v)"

definition dev_digest_allowed_for_current_runtime :: "('v, 'p) proof_ext \<Rightarrow> bool" where
  "dev_digest_allowed_for_current_runtime P = dev_digest_allowed_for_runtime (pv_env_network P) (pv_env_environment P)"

definition is_mixed_fixture :: "proof_envelope \<Rightarrow> bool" where
  "is_mixed_fixture e \<longleftrightarrow> (case e of EvmZkVmFixtureV1 _ \<Rightarrow> True | MixedIntraBlockAggregateFixtureV1 _ \<Rightarrow> True | _ \<Rightarrow> False)"

definition verify_proof_system :: "('v, 'p) proof_ext \<Rightarrow> block_validity_proof \<Rightarrow> proof_verify_error + unit" where
  "verify_proof_system P p =
     (case bp_proof_system p of
        DevDigest \<Rightarrow>
          if \<not> dev_digest_allowed_for_current_runtime P then Inl PvDevDigestDisabled
          else
          attempt (ok_or PvIo (validity_proof_public_input_digest P p)) (\<lambda>expected.
          if bp_proof_bytes p \<noteq> be_bytes 32 expected then Inl PvBadDevDigest else Inr ())
      | StwoPlonky2 \<Rightarrow>
          if (case pv_decode_envelope P (bp_proof_bytes p) of None \<Rightarrow> False | Some e \<Rightarrow> is_mixed_fixture e)
             \<and> bp_circuit_version p \<noteq> MixedStateTransitionV1
          then Inl (PvProduction MixedCircuitVersion)
          else
          attempt (ok_or PvIo (validity_proof_public_input_digest P p)) (\<lambda>digest.
          (case verify_stwo_plonky2_proof P (bp_proof_bytes p) digest of
             Inl e \<Rightarrow> Inl (PvProduction e)
           | Inr u \<Rightarrow> Inr u)))"

definition verify_block_validity_proof ::
    "('v, 'p) proof_ext \<Rightarrow> block \<Rightarrow> block_validity_proof \<Rightarrow> proof_verify_error + unit" where
  "verify_block_validity_proof P block p =
     (let h = bk_header block; W = pv_witness P
      in
      if bp_chain_id p \<noteq> hd_chain_id h then Inl PvChainId
      else if bp_height p \<noteq> hd_height h then Inl PvHeight
      else
      attempt (ok_or PvIo (header_hash (wx_block W) h)) (\<lambda>hh.
      if bp_block_hash p \<noteq> hh then Inl PvBlockHash
      else if bp_timestamp_ms p \<noteq> hd_timestamp_ms h then Inl PvTimestamp
      else if bp_parent_state_root p \<noteq> hd_parent_state_root h then Inl PvParentStateRoot
      else if bp_state_root p \<noteq> hd_state_root h then Inl PvStateRoot
      else if bp_tx_root p \<noteq> hd_tx_root h then Inl PvTxRoot
      else if bp_receipt_root p \<noteq> hd_receipt_root h then Inl PvReceiptRoot
      else if bp_native_event_root p \<noteq> hd_native_event_root h then Inl PvNativeEventRoot
      else if bp_evm_log_root p \<noteq> hd_evm_log_root h then Inl PvEvmLogRoot
      else if bp_zone_namespace p \<noteq> hd_zone_namespace h then Inl PvZoneNamespace
      else if bp_da_root p \<noteq> hd_da_root h then Inl PvDaRoot
      else if bp_feature_set p \<noteq> hd_feature_set h then Inl PvFeatureSet
      else
      (let manifest = coverage_manifest_for_circuit_version (bp_circuit_version p)
       in
       attempt (ok_or PvIo (coverage_manifest_digest W manifest)) (\<lambda>cov.
       if bp_coverage_manifest_digest p \<noteq> cov then Inl PvCoverageManifest
       else if \<not> contains_only (bp_feature_set p) (cm_covered_features manifest) then Inl PvCircuitCoverage
       else (case verify_da_sidecar (bx_da (wx_block W)) h (bk_da_sidecar block) of
          Inl _ \<Rightarrow> Inl PvDataAvailability
        | Inr _ \<Rightarrow>
            if bp_proof_bytes p = [] then Inl PvEmptyProof else verify_proof_system P p)))))"

section \<open>Properties\<close>

lemma attempt_ok_or_Inr: "attempt (ok_or e v) f = Inr y \<longleftrightarrow> (\<exists>x. v = Some x \<and> f x = Inr y)"
  by (cases v) simp_all

text \<open>What the bits of a feature set say of a block and of a circuit.\<close>

lemma contains_only_bits: "contains_only fs coverage \<Longrightarrow> bit (fs_bits fs) i \<Longrightarrow> bit (fs_bits coverage) i"
  using bit_imp_le_length [of "fs_bits fs" i] unfolding contains_only_def by (auto simp: bit_eq_iff bit_simps)

lemma covered_bits:
  assumes "bit (fs_bits (cm_covered_features (coverage_manifest_for_circuit_version v))) i"
  shows "i < (if v = NativeStateTransitionV1 then 2 else 6)"
proof -
  have "fs_bits (cm_covered_features (coverage_manifest_for_circuit_version v)) =
      (mask (if v = NativeStateTransitionV1 then 2 else 6) :: u64)"
    by (cases v) (simp_all only: simp_thms if_True if_False circuit_version.distinct, code_simp+)
  then show ?thesis using assms by (simp only: bit_mask_iff)
qed

lemma block_feature_bits:
  "bit (fs_bits (block_feature_set txs)) i \<longleftrightarrow> (\<exists>tx \<in> set txs. bit (fs_bits (tx_feature_set tx)) i)"
proof -
  have "bit (fs_bits (foldl (\<lambda>fs tx. fs\<lparr>fs_bits := fs_bits fs OR fs_bits (tx_feature_set tx)\<rparr>) fs txs)) i
      \<longleftrightarrow> bit (fs_bits fs) i \<or> (\<exists>tx \<in> set txs. bit (fs_bits (tx_feature_set tx)) i)" for fs
    by (induction txs arbitrary: fs) (auto simp: bit_or_iff)
  from this [of features_empty] show ?thesis by (simp add: block_feature_set_def) (simp add: features_empty_def)
qed

lemma evm_feature_bit:
  assumes "tx_vm tx = VmEvm" and "\<And>c. tx_body tx \<noteq> Native c"
  shows "\<exists>i. 2 \<le> i \<and> bit (fs_bits (tx_feature_set tx)) i"
proof (cases "tx_body tx")
  case (Transfer to v)
  then show ?thesis using assms(1)
    by (intro exI [of _ 2]) (simp add: tx_feature_set_def features_insert_def features_empty_def FEATURE_EVM_TRANSFER_def)
next
  case (EvmCall to v g d)
  then show ?thesis using assms(1)
    by (intro exI [of _ 3]) (simp add: tx_feature_set_def features_insert_def features_empty_def FEATURE_EVM_CALL_def
        bit_or_iff Let_def)
next
  case (EvmCreate v g d)
  then show ?thesis using assms(1)
    by (intro exI [of _ 4]) (simp add: tx_feature_set_def features_insert_def features_empty_def FEATURE_EVM_CREATE_def)
qed (use assms(2) in simp)

lemma native_circuit_transactions:
  assumes "contains_only (block_feature_set txs)
      (cm_covered_features (coverage_manifest_for_circuit_version NativeStateTransitionV1))"
  shows "list_all (\<lambda>tx. tx_vm tx = VmEvm \<longrightarrow> (\<exists>c. tx_body tx = Native c)) txs"
  unfolding list_all_iff
proof (intro ballI impI, rule ccontr)
  fix tx assume tx: "tx \<in> set txs" "tx_vm tx = VmEvm" "\<nexists>c. tx_body tx = Native c"
  then obtain i where i: "2 \<le> i" "bit (fs_bits (tx_feature_set tx)) i" using evm_feature_bit by blast
  then have "bit (fs_bits (block_feature_set txs)) i" using tx(1) block_feature_bits by blast
  then show False using covered_bits [OF contains_only_bits [OF assms]] i(1) by fastforce
qed

lemma accepted_checks:
  assumes "verify_block_validity_proof P block p = Inr ()"
  shows "header_hash (wx_block (pv_witness P)) (bk_header block) = Some (bp_block_hash p)"
    "hd_chain_id (bk_header block) = bp_chain_id p" "hd_height (bk_header block) = bp_height p"
    "hd_timestamp_ms (bk_header block) = bp_timestamp_ms p"
    "hd_parent_state_root (bk_header block) = bp_parent_state_root p" "hd_state_root (bk_header block) = bp_state_root p"
    "hd_tx_root (bk_header block) = bp_tx_root p" "hd_receipt_root (bk_header block) = bp_receipt_root p"
    "hd_native_event_root (bk_header block) = bp_native_event_root p" "hd_evm_log_root (bk_header block) = bp_evm_log_root p"
    "hd_zone_namespace (bk_header block) = bp_zone_namespace p" "hd_da_root (bk_header block) = bp_da_root p"
    "hd_feature_set (bk_header block) = bp_feature_set p"
    "contains_only (bp_feature_set p) (cm_covered_features (coverage_manifest_for_circuit_version (bp_circuit_version p)))"
    "verify_proof_system P p = Inr ()"
  using assms
  by (auto simp: verify_block_validity_proof_def Let_def attempt_ok_or_Inr split: if_splits sum.splits)

lemma dev_digest_proof:
  assumes "verify_proof_system P p = Inr ()" and "bp_proof_system p = DevDigest"
  shows "dev_digest_allowed_for_current_runtime P"
    and "\<exists>d. validity_proof_public_input_digest P p = Some d \<and> bp_proof_bytes p = be_bytes 32 d"
  using assms by (auto simp: verify_proof_system_def attempt_ok_or_Inr split: if_splits)


text \<open>
  A native fixture verifies against a witness exactly when it is the fixture that the prover
  builds from that witness.
\<close>

theorem native_fixture_verifies_iff_proved:
  "verify_native_state_transition_fixture_v1 P f w = Inr () \<longleftrightarrow> prove_native_state_transition_fixture_v1 P w = Inr f"
proof
  assume "verify_native_state_transition_fixture_v1 P f w = Inr ()"
  then show "prove_native_state_transition_fixture_v1 P w = Inr f"
    by (auto simp: verify_native_state_transition_fixture_v1_def prove_native_state_transition_fixture_v1_def
        attempt_Inr split: if_splits)
next
  assume "prove_native_state_transition_fixture_v1 P w = Inr f"
  then show "verify_native_state_transition_fixture_v1 P f w = Inr ()"
    by (auto simp: verify_native_state_transition_fixture_v1_def prove_native_state_transition_fixture_v1_def attempt_Inr)
qed

text \<open>
  A statement with no execution behind it: every digest of the witness, of the trace and of the
  EVM state is zero; only the public inputs and the constants of the proving surface are filled
  in.  The proof that carries it copies the header and names any amount of gas.
\<close>

definition empty_statement :: "('v, 'p) proof_ext \<Rightarrow> hash256 \<Rightarrow> hash256 \<Rightarrow> evm_zkvm_statement" where
  "empty_statement P pid subset_digest =
     \<lparr>es_version = 1, es_zkvm_choice = RiscZeroRevmTransitionV1,
      es_zkvm_target_id = pv_kc P (ascii (zs_zkvm_target evm_zkvm_surface_v1)), es_revm_subset_digest = subset_digest,
      es_public_input_digest = pid, es_witness_digest = 0, es_evm_trace_root = 0, es_evm_state_access_digest = 0,
      es_pre_evm_root = 0, es_post_evm_root = 0, es_unified_post_state_root = 0, es_evm_log_root = 0, es_gas_used = 0,
      es_feature_set = features_empty, es_covered_features = zs_covered_features evm_zkvm_surface_v1,
      es_evm_trace_rows = 0\<rparr>"

definition header_proof :: "block_header \<Rightarrow> hash256 \<Rightarrow> hash256 \<Rightarrow> u64 \<Rightarrow> bytes \<Rightarrow> block_validity_proof" where
  "header_proof h hh cov gas bs =
     \<lparr>bp_chain_id = hd_chain_id h, bp_height = hd_height h, bp_block_hash = hh, bp_timestamp_ms = hd_timestamp_ms h,
      bp_parent_state_root = hd_parent_state_root h, bp_state_root = hd_state_root h, bp_tx_root = hd_tx_root h,
      bp_receipt_root = hd_receipt_root h, bp_native_event_root = hd_native_event_root h,
      bp_evm_log_root = hd_evm_log_root h, bp_gas_used = gas, bp_zone_namespace = hd_zone_namespace h,
      bp_da_root = hd_da_root h, bp_circuit_version = MixedStateTransitionV1, bp_coverage_manifest_digest = cov,
      bp_feature_set = hd_feature_set h, bp_proof_system = StwoPlonky2, bp_proof_bytes = bs\<rparr>"

text \<open>
  The production mode accepts a fixture that no prover made: for every header whose sidecar
  passes its check and whose features are known, whatever state root it claims and whatever gas
  the proof names, the envelope around the empty statement is accepted.
\<close>

theorem empty_fixture_accepted_for_any_header:
  assumes sidecar: "verify_da_sidecar (bx_da (wx_block (pv_witness P))) (bk_header block) (bk_da_sidecar block) = Inr ()"
    and features: "contains_only (hd_feature_set (bk_header block)) features_all_known"
    and hh: "header_hash (wx_block (pv_witness P)) (bk_header block) = Some hh"
    and cov: "coverage_manifest_digest (pv_witness P) (coverage_manifest_for_circuit_version MixedStateTransitionV1) = Some cov"
    and surface: "map_option (pv_kc P) (pv_enc_surface P evm_zkvm_surface_v1) = Some sd"
    and pid: "validity_proof_public_input_digest P (header_proof (bk_header block) hh cov gas bs) = Some pid"
    and body: "map_option (pv_kc P) (pv_enc_evm_fixture_body P
      (EVM_ZKVM_FIXTURE_V1_TAG, EVM_ZKVM_TRANSITION_STATEMENT_V1_TAG, empty_statement P pid sd, cov)) = Some d"
    and bytes: "bs \<noteq> []" "pv_decode_envelope P bs = Some (EvmZkVmFixtureV1
      \<lparr>ef_version = 1, ef_statement = empty_statement P pid sd, ef_coverage_manifest_digest = cov, ef_proof_digest = d\<rparr>)"
  shows "verify_block_validity_proof P block (header_proof (bk_header block) hh cov gas bs) = Inr ()"
proof -
  let ?p = "header_proof (bk_header block) hh cov gas bs"
  have "verify_stwo_plonky2_proof P bs pid = Inr ()"
    using cov surface body bytes(2)
    by (simp add: verify_stwo_plonky2_proof_def verify_evm_zkvm_fixture_def Let_def empty_statement_def evm_zkvm_surface_v1_def)
  then have "verify_proof_system P ?p = Inr ()"
    using pid bytes(2) by (simp add: verify_proof_system_def header_proof_def is_mixed_fixture_def)
  moreover have "cm_covered_features (coverage_manifest_for_circuit_version MixedStateTransitionV1) = features_all_known"
    by (simp add: coverage_manifest_for_circuit_version_def)
  ultimately show ?thesis
    using sidecar features hh cov bytes(1)
    by (simp add: verify_block_validity_proof_def Let_def header_proof_def)
qed

section \<open>Concrete instances\<close>

text \<open>Encoders that give a single byte, and a decoder that always gives the same envelope.\<close>

definition sample_proof_ext :: "string option \<Rightarrow> proof_envelope option \<Rightarrow> (unit, unit) proof_ext" where
  "sample_proof_ext network envelope = \<lparr>pv_witness = sample_witness_ext, pv_env_network = network, pv_env_environment = None,
     pv_enc_adapter = (\<lambda>_. Some [1]), pv_enc_columns = (\<lambda>_. Some [2]), pv_enc_accesses = (\<lambda>_. Some [3]),
     pv_enc_constraint = (\<lambda>_. Some [4]), pv_enc_transcript = (\<lambda>_. Some [5]), pv_enc_native_fixture = (\<lambda>_. Some [6]),
     pv_enc_native_statement = (\<lambda>_. Some [7]), pv_enc_evm_rows = (\<lambda>_. Some [8]), pv_enc_surface = (\<lambda>_. Some [9]),
     pv_enc_dispatch_rows = (\<lambda>_. Some [10]), pv_enc_component = (\<lambda>_. Some [11]),
     pv_enc_evm_fixture_body = (\<lambda>_. Some [12]), pv_enc_evm_fixture = (\<lambda>_. Some [13]), pv_enc_aggregate = (\<lambda>_. Some [14]),
     pv_enc_wrap_body = (\<lambda>_. Some [15]), pv_enc_wrap_fixture = (\<lambda>_. Some [16]), pv_enc_compressed_body = (\<lambda>_. Some [17]),
     pv_enc_canonical_body = (\<lambda>_. Some [18]), pv_decode_envelope = (\<lambda>_. envelope),
     pv_plonky2_data = (\<lambda>_. None), pv_plonky2_proof = (\<lambda>_ _ _. None), pv_plonky2_verify = (\<lambda>_ _ _. False)\<rparr>"

text \<open>A header with an arbitrary state root over the sidecar of a payload.\<close>

definition sample_proof_block :: "hash256 \<Rightarrow> block" where
  "sample_proof_block root = \<lparr>bk_header = (sample_header sample_sidecar)\<lparr>hd_state_root := root\<rparr>, bk_transactions = [],
     bk_eth_signed_raw = [], bk_da_sidecar = sample_sidecar\<rparr>"

lemma sample_proof_block_available:
  "verify_da_sidecar sample_da (bk_header (sample_proof_block root)) (bk_da_sidecar (sample_proof_block root)) = Inr ()"
proof -
  have "sc_namespace sample_sidecar = 7" by code_simp
  then show ?thesis
    unfolding sample_proof_block_def
    by (simp, intro built_sidecar_verifies [OF sample_codec sample_built]) (simp_all add: sample_header_def)
qed

lemma sample_encodings:
  "wx_block (pv_witness (sample_proof_ext n e)) = sample_block_ext" "bx_da sample_block_ext = sample_da"
  "keccak256 sample_block_ext = sample_keccak"
  "header_hash sample_block_ext h = Some (sample_keccak (be_bytes 32 (hd_tx_root h)))"
  "coverage_manifest_digest (pv_witness (sample_proof_ext n e)) m = Some (sample_keccak [1])"
  "validity_proof_public_input_digest (sample_proof_ext n e) p = Some (sample_keccak (be_bytes 32 (bp_block_hash p)))"
  by (simp_all add: sample_proof_ext_def sample_witness_ext_def sample_block_ext_def sample_ext_def header_hash_def
      coverage_manifest_digest_def validity_proof_public_input_digest_def public_inputs_digest_def
      validity_proof_public_inputs_def)

lemma sample_features: "contains_only (hd_feature_set (bk_header (sample_proof_block root))) features_all_known"
  by (simp add: sample_proof_block_def sample_header_def contains_only_def features_empty_def)

abbreviation sample_pid :: hash256 where
  "sample_pid \<equiv> sample_keccak (be_bytes 32 (sample_keccak (be_bytes 32 (0 :: hash256))))"

definition sample_dev_proof :: "hash256 \<Rightarrow> block_validity_proof" where
  "sample_dev_proof root = (header_proof (bk_header (sample_proof_block root)) (sample_keccak (be_bytes 32 (0 :: hash256)))
     (sample_keccak [1]) 0 (be_bytes 32 sample_pid))\<lparr>bp_proof_system := DevDigest\<rparr>"

lemma sample_tx_root: "hd_tx_root (bk_header (sample_proof_block root)) = 0"
  by (simp add: sample_proof_block_def sample_header_def)

text \<open>The block of one native transaction, and its development digest under the native circuit.\<close>

definition native_tx :: transaction where
  "native_tx = \<lparr>tx_signer = 1, tx_nonce = 0, tx_vm = VmNative, tx_body = Native (Stake 5)\<rparr>"

definition native_block :: block where
  "native_block = (sample_proof_block 5)\<lparr>bk_header := (bk_header (sample_proof_block 5))\<lparr>hd_feature_set := block_feature_set [native_tx]\<rparr>\<rparr>"

definition native_dev_proof :: block_validity_proof where
  "native_dev_proof = (sample_dev_proof 5)\<lparr>bp_feature_set := block_feature_set [native_tx], bp_circuit_version := NativeStateTransitionV1\<rparr>"

lemma native_features: "contains_only (block_feature_set [native_tx])
    (cm_covered_features (coverage_manifest_for_circuit_version NativeStateTransitionV1))"
  by code_simp

lemma native_dev_proof_accepted:
  "verify_block_validity_proof (sample_proof_ext None None) native_block native_dev_proof = Inr ()"
proof -
  let ?P = "sample_proof_ext None None"
  have nonempty: "be_bytes 32 sample_pid \<noteq> []" by (simp add: be_bytes_def)
  have "dev_digest_allowed_for_current_runtime ?P"
    by (simp add: dev_digest_allowed_for_current_runtime_def dev_digest_allowed_for_runtime_def sample_proof_ext_def)
  then have "verify_proof_system ?P native_dev_proof = Inr ()"
    by (simp add: verify_proof_system_def native_dev_proof_def sample_dev_proof_def header_proof_def sample_encodings)
  moreover have "verify_da_sidecar sample_da (bk_header native_block) (bk_da_sidecar native_block) = Inr ()"
  proof -
    have "check_shares sample_da (h\<lparr>hd_feature_set := fs\<rparr>) sc n shares = check_shares sample_da h sc n shares" for h fs sc n shares
      by (induction shares arbitrary: n) simp_all
    then have "verify_da_sidecar sample_da (h\<lparr>hd_feature_set := fs\<rparr>) sc = verify_da_sidecar sample_da h sc" for h fs sc
      unfolding verify_da_sidecar_def by (simp split: sum.split)
    then show ?thesis using sample_proof_block_available [of 5] by (simp add: native_block_def)
  qed
  ultimately show ?thesis
    using native_features nonempty
    by (simp add: verify_block_validity_proof_def Let_def sample_encodings native_dev_proof_def native_block_def
        sample_dev_proof_def header_proof_def sample_tx_root)
qed


theorem empty_fixture_accepted_for_any_header_witness:
  "\<exists>e. verify_block_validity_proof (sample_proof_ext (Some ''mainnet'') (Some e)) (sample_proof_block 12345)
     (header_proof (bk_header (sample_proof_block 12345)) (sample_keccak (be_bytes 32 (0 :: hash256))) (sample_keccak [1]) 99 [1])
   = Inr ()"
proof -
  let ?st = "empty_statement (sample_proof_ext None None) sample_pid (sample_keccak [9])"
  let ?e = "EvmZkVmFixtureV1 \<lparr>ef_version = 1, ef_statement = ?st, ef_coverage_manifest_digest = sample_keccak [1],
      ef_proof_digest = sample_keccak [12]\<rparr>"
  let ?P = "sample_proof_ext (Some ''mainnet'') (Some ?e)"
  have st: "empty_statement ?P sample_pid (sample_keccak [9]) = ?st"
    by (simp add: empty_statement_def sample_encodings)
  have "verify_block_validity_proof ?P (sample_proof_block 12345)
     (header_proof (bk_header (sample_proof_block 12345)) (sample_keccak (be_bytes 32 (0 :: hash256))) (sample_keccak [1]) 99 [1])
   = Inr ()"
  proof (rule empty_fixture_accepted_for_any_header)
    show "verify_da_sidecar (bx_da (wx_block (pv_witness ?P))) (bk_header (sample_proof_block 12345))
        (bk_da_sidecar (sample_proof_block 12345)) = Inr ()"
      unfolding sample_encodings by (rule sample_proof_block_available)
    show "contains_only (hd_feature_set (bk_header (sample_proof_block 12345))) features_all_known" by (rule sample_features)
    show "header_hash (wx_block (pv_witness ?P)) (bk_header (sample_proof_block 12345))
        = Some (sample_keccak (be_bytes 32 (0 :: hash256)))"
      by (simp add: sample_encodings sample_tx_root)
    show "map_option (pv_kc ?P) (pv_enc_surface ?P evm_zkvm_surface_v1) = Some (sample_keccak [9])"
      by (simp add: sample_encodings) (simp add: sample_proof_ext_def)
    show "pv_decode_envelope ?P [1] = Some (EvmZkVmFixtureV1 \<lparr>ef_version = 1,
        ef_statement = empty_statement ?P sample_pid (sample_keccak [9]), ef_coverage_manifest_digest = sample_keccak [1],
        ef_proof_digest = sample_keccak [12]\<rparr>)"
      unfolding st by (simp add: sample_proof_ext_def)
    show "map_option (pv_kc ?P) (pv_enc_evm_fixture_body ?P (EVM_ZKVM_FIXTURE_V1_TAG,
        EVM_ZKVM_TRANSITION_STATEMENT_V1_TAG, empty_statement ?P sample_pid (sample_keccak [9]), sample_keccak [1]))
        = Some (sample_keccak [12])"
      by (simp add: sample_encodings) (simp add: sample_proof_ext_def)
  qed (simp_all add: sample_encodings header_proof_def)
  then show ?thesis by (rule exI)
qed

end
