(* ===== verification/Forced_Inclusion.thy ===== *)
theory Forced_Inclusion
  imports Zone_Types "HOL-Library.Multiset"
begin

text \<open>
  The forced-inclusion queue, which the zone registry of the shard crate and the masterchain
  ledger implement separately: a request waits until its deadline, becomes an event at the first
  height that reaches the deadline, and is settled by the next proof-final update of its zone.

  The abstract machine keeps the queue alone: its height, the requests that wait, the events and
  the settled ids.  The locale states what a component promises when its operations refine the
  machine, and collects what follows for every history of the component: no request is lost or
  duplicated, none waits beyond its deadline, and a settled request stays settled.
\<close>

section \<open>The operations on the queue\<close>

definition event_of :: "u64 \<Rightarrow> forced_inclusion_request \<Rightarrow> forced_inclusion_event" where
  "event_of height r =
     \<lparr>fe_version = 1, fe_request = r, fe_included_at_masterchain_height = height,
      fe_sequencer_late_by_blocks = sat_sub height (fi_deadline_masterchain_height r)\<rparr>"

text \<open>The loop of \<open>flush_due_forced_inclusions\<close>: the requests that stay and the events that are added.\<close>

fun flush_loop :: "u64 \<Rightarrow> forced_inclusion_request list \<Rightarrow> forced_inclusion_request list \<Rightarrow> forced_inclusion_event list \<Rightarrow>
    forced_inclusion_request list \<times> forced_inclusion_event list" where
  "flush_loop height [] pending events = (pending, events)"
| "flush_loop height (r # rs) pending events =
     (if fi_deadline_masterchain_height r \<le> height
      then flush_loop height rs pending (events @ [event_of height r])
      else flush_loop height rs (pending @ [r]) events)"

definition unresolved_requests ::
    "zone_id \<Rightarrow> forced_inclusion_event list \<Rightarrow> hash256 set \<Rightarrow> forced_inclusion_request list" where
  "unresolved_requests zone events proven =
     map fe_request (filter (\<lambda>e. fi_zone_id (fe_request e) = zone \<and> fi_request_id (fe_request e) \<notin> proven) events)"

definition queued_ids :: "forced_inclusion_request list \<Rightarrow> forced_inclusion_event list \<Rightarrow> hash256 list" where
  "queued_ids pending events = map fi_request_id (pending @ map fe_request events)"

lemma flush_loop_eq:
  "flush_loop height rs pending events =
     (pending @ filter (\<lambda>r. height < fi_deadline_masterchain_height r) rs,
      events @ map (event_of height) (filter (\<lambda>r. fi_deadline_masterchain_height r \<le> height) rs))"
  by (induction rs arbitrary: pending events) (auto simp: not_le not_less)

text \<open>The ids that an update settles are added one by one.\<close>

lemma foldl_insert: "foldl (\<lambda>ids x. insert (f x) ids) A xs = A \<union> f ` set xs"
  by (induction xs arbitrary: A) auto

section \<open>The abstract machine\<close>

record forced_queue =
  fq_height :: u64
  fq_pending :: "forced_inclusion_request list"
  fq_events :: "forced_inclusion_event list"
  fq_proven :: "hash256 set"

definition fq_flush :: "forced_queue \<Rightarrow> forced_queue" where
  "fq_flush q =
     q\<lparr>fq_pending := filter (\<lambda>r. fq_height q < fi_deadline_masterchain_height r) (fq_pending q),
       fq_events := fq_events q @
         map (event_of (fq_height q)) (filter (\<lambda>r. fi_deadline_masterchain_height r \<le> fq_height q) (fq_pending q))\<rparr>"

definition fq_settle :: "zone_id \<Rightarrow> forced_queue \<Rightarrow> forced_queue" where
  "fq_settle zone q =
     q\<lparr>fq_proven := fq_proven q \<union> fi_request_id ` set (unresolved_requests zone (fq_events q) (fq_proven q))\<rparr>"

text \<open>
  A step files a request under a new id with a deadline that is not before the height, moves the
  height up and turns what is due into events, or settles the events of one zone.
\<close>

inductive fq_step :: "forced_queue \<Rightarrow> forced_queue \<Rightarrow> bool" where
  fq_file: "fi_request_id r \<notin> set (queued_ids (fq_pending q) (fq_events q)) \<Longrightarrow>
     fi_submitted_at_masterchain_height r = fq_height q \<Longrightarrow>
     fq_height q \<le> fi_deadline_masterchain_height r \<Longrightarrow>
     fq_step q (q\<lparr>fq_pending := fq_pending q @ [r]\<rparr>)"
| fq_advance: "fq_height q \<le> h \<Longrightarrow> fq_step q (fq_flush (q\<lparr>fq_height := h\<rparr>))"
| fq_settled: "fq_step q (fq_settle zone q)"

inductive_cases fq_stepE: "fq_step q q'"

definition fq_empty :: forced_queue where
  "fq_empty = \<lparr>fq_height = 0, fq_pending = [], fq_events = [], fq_proven = {}\<rparr>"

text \<open>The status of a request id, and the order in which it moves.\<close>

datatype request_status = NotFiled | Waiting | Due | Settled

fun status_rank :: "request_status \<Rightarrow> nat" where
  "status_rank NotFiled = 0"
| "status_rank Waiting = 1"
| "status_rank Due = 2"
| "status_rank Settled = 3"

definition status_of :: "forced_queue \<Rightarrow> hash256 \<Rightarrow> request_status" where
  "status_of q i =
     (if i \<in> fq_proven q then Settled
      else if i \<in> fi_request_id ` fe_request ` set (fq_events q) then Due
      else if i \<in> fi_request_id ` set (fq_pending q) then Waiting
      else NotFiled)"

section \<open>Invariant\<close>

text \<open>
  The ids are distinct over both lists; a request that waits is strictly before its deadline, or
  it was filed at this very height and its deadline is that height (then it waits for the next
  flush); an event was included at its deadline or later and counts its delay; only events are
  settled.
\<close>

definition before_deadline :: "u64 \<Rightarrow> forced_inclusion_request \<Rightarrow> bool" where
  "before_deadline height r \<longleftrightarrow> height < fi_deadline_masterchain_height r
     \<or> fi_submitted_at_masterchain_height r = height \<and> fi_deadline_masterchain_height r = height"

definition fq_inv :: "forced_queue \<Rightarrow> bool" where
  "fq_inv q \<longleftrightarrow>
     distinct (queued_ids (fq_pending q) (fq_events q)) \<and>
     list_all (\<lambda>r. fi_submitted_at_masterchain_height r \<le> fq_height q \<and> before_deadline (fq_height q) r) (fq_pending q) \<and>
     list_all (\<lambda>e. fi_deadline_masterchain_height (fe_request e) \<le> fe_included_at_masterchain_height e \<and>
        fe_included_at_masterchain_height e \<le> fq_height q \<and>
        fe_sequencer_late_by_blocks e = fe_included_at_masterchain_height e - fi_deadline_masterchain_height (fe_request e)) (fq_events q) \<and>
     fq_proven q \<subseteq> fi_request_id ` fe_request ` set (fq_events q)"

lemma fq_inv_empty [simp]: "fq_inv fq_empty"
  by (simp add: fq_inv_def fq_empty_def queued_ids_def)

lemma mset_filter_split: "mset (filter P xs) + mset (filter (\<lambda>x. \<not> P x) xs) = mset xs"
  by (simp add: multiset_partition [symmetric])

text \<open>Flushing moves requests between the lists and changes none of them.\<close>

lemma flush_requests:
  "mset (fq_pending (fq_flush q) @ map fe_request (fq_events (fq_flush q))) =
   mset (fq_pending q @ map fe_request (fq_events q))"
proof -
  have "map fe_request (map (event_of h) rs) = rs" for h rs by (simp add: event_of_def comp_def)
  then show ?thesis
    using mset_filter_split [of "\<lambda>r. fq_height q < fi_deadline_masterchain_height r" "fq_pending q"]
    by (simp add: fq_flush_def not_less ac_simps)
qed

lemma queued_ids_mset: "mset (queued_ids p e) = image_mset fi_request_id (mset (p @ map fe_request e))"
  unfolding queued_ids_def by (rule mset_map)

lemma flush_ids: "mset (queued_ids (fq_pending (fq_flush q)) (fq_events (fq_flush q))) = mset (queued_ids (fq_pending q) (fq_events q))"
  unfolding queued_ids_mset flush_requests ..

lemma flush_fields [simp]:
  "fq_height (fq_flush q) = fq_height q" "fq_proven (fq_flush q) = fq_proven q"
  by (simp_all add: fq_flush_def)

lemma fq_inv_file:
  assumes "fq_inv q" and "fi_request_id r \<notin> set (queued_ids (fq_pending q) (fq_events q))"
    and "fi_submitted_at_masterchain_height r = fq_height q" and "fq_height q \<le> fi_deadline_masterchain_height r"
  shows "fq_inv (q\<lparr>fq_pending := fq_pending q @ [r]\<rparr>)"
  using assms by (auto simp: fq_inv_def queued_ids_def before_deadline_def)

lemma sat_sub_le: "b \<le> a \<Longrightarrow> sat_sub a b = a - b"
  by (simp add: sat_sub_def)

lemma fq_inv_advance:
  assumes inv: "fq_inv q" and h: "fq_height q \<le> h"
  shows "fq_inv (fq_flush (q\<lparr>fq_height := h\<rparr>))" (is "fq_inv ?q")
proof -
  let ?p = "fq_pending q" and ?e = "fq_events q"
  have "distinct (queued_ids ?p ?e)" using inv by (simp add: fq_inv_def)
  then have "distinct (queued_ids (fq_pending ?q) (fq_events ?q))"
    using mset_eq_imp_distinct_iff [OF flush_ids [of "q\<lparr>fq_height := h\<rparr>"]] by simp
  moreover have "list_all (\<lambda>r. fi_submitted_at_masterchain_height r \<le> h \<and> before_deadline h r) (fq_pending ?q)"
    using inv h by (auto simp: fq_inv_def fq_flush_def list_all_iff before_deadline_def)
  moreover have "list_all (\<lambda>e. fi_deadline_masterchain_height (fe_request e) \<le> fe_included_at_masterchain_height e \<and>
        fe_included_at_masterchain_height e \<le> h \<and>
        fe_sequencer_late_by_blocks e = fe_included_at_masterchain_height e - fi_deadline_masterchain_height (fe_request e))
      (fq_events ?q)"
    using inv h by (auto simp: fq_inv_def fq_flush_def list_all_iff event_of_def sat_sub_le)
  moreover have "fq_proven q \<subseteq> fi_request_id ` fe_request ` set (fq_events ?q)"
    using inv by (auto simp: fq_inv_def fq_flush_def)
  ultimately show ?thesis by (simp add: fq_inv_def)
qed

lemma fq_inv_settle: "fq_inv q \<Longrightarrow> fq_inv (fq_settle zone q)"
  by (auto simp: fq_inv_def fq_settle_def unresolved_requests_def)

lemma fq_step_inv: "fq_step q q' \<Longrightarrow> fq_inv q \<Longrightarrow> fq_inv q'"
  by (erule fq_stepE) (simp_all add: fq_inv_file fq_inv_advance fq_inv_settle)

section \<open>Histories\<close>

text \<open>Every request that was filed is still in one of the lists, and what was settled stays settled.\<close>

definition fq_grows :: "forced_queue \<Rightarrow> forced_queue \<Rightarrow> bool" where
  "fq_grows q q' \<longleftrightarrow>
     mset (fq_pending q @ map fe_request (fq_events q)) \<subseteq># mset (fq_pending q' @ map fe_request (fq_events q')) \<and>
     set (fq_events q) \<subseteq> set (fq_events q') \<and> fq_proven q \<subseteq> fq_proven q' \<and> fq_height q \<le> fq_height q'"

lemma fq_grows_refl [simp]: "fq_grows q q"
  by (simp add: fq_grows_def)

lemma fq_grows_trans: "fq_grows q q' \<Longrightarrow> fq_grows q' q'' \<Longrightarrow> fq_grows q q''"
  unfolding fq_grows_def by (meson order_trans subset_mset.order_trans)

lemma fq_step_grows: "fq_step q q' \<Longrightarrow> fq_grows q q'"
proof (erule fq_stepE)
  fix h assume "q' = fq_flush (q\<lparr>fq_height := h\<rparr>)" "fq_height q \<le> h"
  then show "fq_grows q q'"
    using flush_requests [of "q\<lparr>fq_height := h\<rparr>"] by (auto simp: fq_grows_def) (simp add: fq_flush_def)
qed (auto simp: fq_grows_def fq_settle_def)

lemma status_forward:
  assumes "fq_grows q q'"
  shows "status_rank (status_of q i) \<le> status_rank (status_of q' i)"
proof -
  have "set (fq_pending q @ map fe_request (fq_events q)) \<subseteq> set (fq_pending q' @ map fe_request (fq_events q'))"
    using assms set_mset_mono unfolding fq_grows_def by (metis set_mset_mset)
  then show ?thesis using assms by (auto simp: fq_grows_def status_of_def image_iff)
qed

locale forced_inclusion_component =
  fixes queue :: "'s \<Rightarrow> forced_queue"
    and change :: "'s \<Rightarrow> 's \<Rightarrow> bool"
    and start :: 's
  assumes start_empty: "queue start = fq_empty"
    and change_refines: "change s s' \<Longrightarrow> fq_step\<^sup>*\<^sup>* (queue s) (queue s')"
begin

lemma steps_inv: "fq_step\<^sup>*\<^sup>* q q' \<Longrightarrow> fq_inv q \<Longrightarrow> fq_inv q'"
  by (induction rule: rtranclp_induct) (auto intro: fq_step_inv)

lemma steps_grow: "fq_step\<^sup>*\<^sup>* q q' \<Longrightarrow> fq_grows q q'"
  by (induction rule: rtranclp_induct) (auto intro: fq_step_grows fq_grows_trans)

lemma history_refines: "change\<^sup>*\<^sup>* s s' \<Longrightarrow> fq_step\<^sup>*\<^sup>* (queue s) (queue s')"
proof (induction rule: rtranclp_induct)
  case (step t u)
  then show ?case using change_refines [of t u] by (meson rtranclp_trans)
qed simp

lemma reachable_inv: "change\<^sup>*\<^sup>* start s \<Longrightarrow> fq_inv (queue s)"
  using steps_inv [OF history_refines] by (metis start_empty fq_inv_empty)

lemma history_grows: "change\<^sup>*\<^sup>* s s' \<Longrightarrow> fq_grows (queue s) (queue s')"
  by (rule steps_grow [OF history_refines])

lemma status_never_back:
  "change\<^sup>*\<^sup>* s s' \<Longrightarrow> status_rank (status_of (queue s) i) \<le> status_rank (status_of (queue s') i)"
  by (rule status_forward [OF history_grows])

text \<open>A filed request is found in exactly one list ever after, and not in the waiting list once its deadline is reached.\<close>

lemma filed_once:
  assumes "change\<^sup>*\<^sup>* start s" and "change\<^sup>*\<^sup>* s s'" and "r \<in> set (fq_pending (queue s))"
  shows "(r \<in> set (fq_pending (queue s'))) \<noteq> (\<exists>e \<in> set (fq_events (queue s')). fe_request e = r)"
    and "r \<in> set (fq_pending (queue s')) \<Longrightarrow> before_deadline (fq_height (queue s')) r"
proof -
  let ?q = "queue s" and ?q' = "queue s'"
  have inv: "fq_inv ?q'" using assms(1,2) by (intro reachable_inv) simp
  have "r \<in># mset (fq_pending ?q @ map fe_request (fq_events ?q))" using assms(3) by simp
  then have "r \<in># mset (fq_pending ?q' @ map fe_request (fq_events ?q'))"
    by (rule mset_subset_eqD [rotated]) (use history_grows [OF assms(2)] in \<open>simp add: fq_grows_def\<close>)
  moreover have "\<not> (r \<in> set (fq_pending ?q') \<and> (\<exists>e \<in> set (fq_events ?q'). fe_request e = r))"
  proof -
    have "distinct (map fi_request_id (fq_pending ?q') @ map (fi_request_id \<circ> fe_request) (fq_events ?q'))"
      using inv by (simp add: fq_inv_def queued_ids_def comp_def)
    then have "fi_request_id ` set (fq_pending ?q') \<inter> (fi_request_id \<circ> fe_request) ` set (fq_events ?q') = {}"
      unfolding distinct_append by simp
    then show ?thesis by auto
  qed
  ultimately show "(r \<in> set (fq_pending ?q')) \<noteq> (\<exists>e \<in> set (fq_events ?q'). fe_request e = r)" by auto
  show "r \<in> set (fq_pending ?q') \<Longrightarrow> before_deadline (fq_height ?q') r"
    using inv by (auto simp: fq_inv_def list_all_iff)
qed

end

end
