(* ===== verification/Zone_Registry.thy ===== *)
theory Zone_Registry
  imports Forced_Inclusion Sample_Instances
begin

text \<open>
  The registry of execution zones, \<open>ExecutionZoneRegistryV1\<close> of \<open>crates/shard/src/lib.rs\<close>: zone
  creation, proof-final updates and their checks, cross-zone messages with inclusion proofs, forced
  inclusion, and the settlement of a sequencer epoch.  The \<open>BTreeMap\<close> of zones is only looked up,
  so it is a map.

  The registry refines the forced-inclusion machine; a zone moves to a greater proof-final height
  only with a proof that commits to all its due requests; a message is consumed at most once and
  only from the root that its source zone made final.
\<close>

section \<open>State\<close>

datatype execution_zone_error =
    ZoneAlreadyExists
  | UnknownZone zone_id
  | StaleZoneUpdate u64 u64
  | EmptyZoneProofDigest
  | InvalidForcedInclusionTimeout
  | ForcedInclusionAlreadyExists
  | MessageProofIndexOutOfRange
  | ZoneProofNotCommitted
  | MasterchainZkRootMismatch
  | ZoneCoverageManifest
  | ZoneCircuitCoverage
  | ZoneDaUnavailable
  | ZonePublicInputs
  | ForcedInclusionRootMismatch
  | SourceMessageRootMismatch
  | InvalidCrossZoneMessageProof
  | CrossZoneMessageDestinationMismatch zone_id zone_id
  | CrossZoneMessageAlreadyConsumed

record execution_zone_registry =
  zg_masterchain_height :: u64
  zg_zones :: "zone_id \<rightharpoonup> execution_zone_record"
  zg_pending_cross_zone_messages :: "async_cross_zone_message list"
  zg_consumed_cross_zone_messages :: "hash256 set"
  zg_pending_forced_inclusions :: "forced_inclusion_request list"
  zg_forced_inclusion_events :: "forced_inclusion_event list"
  zg_proven_forced_inclusion_request_ids :: "hash256 set"

type_synonym 'a zone_exec = "(execution_zone_registry, execution_zone_error, 'a) exec"

definition default_registry :: execution_zone_registry where
  "default_registry =
     \<lparr>zg_masterchain_height = 0, zg_zones = Map.empty, zg_pending_cross_zone_messages = [],
      zg_consumed_cross_zone_messages = {}, zg_pending_forced_inclusions = [],
      zg_forced_inclusion_events = [], zg_proven_forced_inclusion_request_ids = {}\<rparr>"

section \<open>Zones and proof-final updates\<close>

definition create_zone ::
    "execution_zone_registry \<Rightarrow> zone_id \<Rightarrow> address \<Rightarrow> execution_zone_metadata \<Rightarrow> execution_zone_record zone_exec" where
  "create_zone s zone creator metadata =
     (if zm_forced_inclusion_timeout_masterchain_blocks metadata = 0 then (s, Inl InvalidForcedInclusionTimeout)
      else if zg_zones s zone \<noteq> None then (s, Inl ZoneAlreadyExists)
      else let rec = \<lparr>zr_version = 1, zr_zone_id = zone, zr_creator = creator, zr_metadata = metadata,
                 zr_created_at_masterchain_height = zg_masterchain_height s, zr_latest_proof_final_height = 0,
                 zr_latest_state_root = 0, zr_latest_message_root = 0\<rparr>
           in (s\<lparr>zg_zones := (zg_zones s)(zone \<mapsto> rec)\<rparr>, Inr rec))"

definition unresolved_forced_inclusion_requests_for_zone ::
    "execution_zone_registry \<Rightarrow> zone_id \<Rightarrow> forced_inclusion_request list" where
  "unresolved_forced_inclusion_requests_for_zone s zone =
     unresolved_requests zone (zg_forced_inclusion_events s) (zg_proven_forced_inclusion_request_ids s)"

definition required_forced_inclusion_root_for_zone :: "zone_ext \<Rightarrow> execution_zone_registry \<Rightarrow> zone_id \<Rightarrow> hash256" where
  "required_forced_inclusion_root_for_zone Z s zone =
     forced_inclusion_queue_root Z (unresolved_forced_inclusion_requests_for_zone s zone)"

definition registry_queue_root :: "zone_ext \<Rightarrow> execution_zone_registry \<Rightarrow> hash256" where
  "registry_queue_root Z s =
     forced_inclusion_queue_root Z (zg_pending_forced_inclusions s @
       map fe_request (filter (\<lambda>e. fi_request_id (fe_request e) \<notin> zg_proven_forced_inclusion_request_ids s)
         (zg_forced_inclusion_events s)))"

definition verify_zone_update_coverage ::
    "zone_ext \<Rightarrow> zone_proof_final_update \<Rightarrow> execution_zone_metadata \<Rightarrow> execution_zone_error + unit" where
  "verify_zone_update_coverage Z u metadata =
     (if zu_circuit_version u \<noteq> required_zone_circuit_version metadata then Inl ZoneCircuitCoverage
      else let manifest = coverage_manifest_for_circuit_version (zu_circuit_version u)
           in case coverage_manifest_digest (zx_witness Z) manifest of
                None \<Rightarrow> Inl ZoneCoverageManifest
              | Some digest \<Rightarrow>
                  if zu_coverage_manifest_digest u \<noteq> digest \<or> zu_covered_features u \<noteq> cm_covered_features manifest
                  then Inl ZoneCoverageManifest
                  else if \<not> contains_only (zu_feature_set u) (cm_covered_features manifest) then Inl ZoneCircuitCoverage
                  else Inr ())"

definition verify_zone_update_public_inputs ::
    "zone_ext \<Rightarrow> zone_proof_final_update \<Rightarrow> execution_zone_error + unit" where
  "verify_zone_update_public_inputs Z u =
     (if zu_public_input_digest u \<noteq> zone_proof_public_input_digest Z u then Inl ZonePublicInputs
      else if zu_source_message_root u \<noteq> zu_message_root u then Inl SourceMessageRootMismatch
      else if \<not> forced_inclusion_was_proven u then Inl ForcedInclusionRootMismatch
      else if \<not> zu_da_available u then Inl ZoneDaUnavailable
      else Inr ())"

definition submit_proof_final_update ::
    "zone_ext \<Rightarrow> execution_zone_registry \<Rightarrow> zone_proof_final_update \<Rightarrow> execution_zone_record zone_exec" where
  "submit_proof_final_update Z s u =
     (if zu_proof_digest u = 0 then (s, Inl EmptyZoneProofDigest)
      else let required = unresolved_forced_inclusion_requests_for_zone s (zu_zone_id u)
      in if zu_required_forced_inclusion_root u \<noteq> forced_inclusion_queue_root Z required
         then (s, Inl ForcedInclusionRootMismatch)
      else case zg_zones s (zu_zone_id u) of
          None \<Rightarrow> (s, Inl (UnknownZone (zu_zone_id u)))
        | Some zone \<Rightarrow>
            (case verify_zone_update_coverage Z u (zr_metadata zone) of
               Inl e \<Rightarrow> (s, Inl e)
             | Inr _ \<Rightarrow>
                 (case verify_zone_update_public_inputs Z u of
                    Inl e \<Rightarrow> (s, Inl e)
                  | Inr _ \<Rightarrow>
                      if zu_zone_block_height u \<le> zr_latest_proof_final_height zone
                      then (s, Inl (StaleZoneUpdate (zu_zone_block_height u) (zr_latest_proof_final_height zone)))
                      else let updated = zone\<lparr>zr_latest_proof_final_height := zu_zone_block_height u,
                                 zr_latest_state_root := zu_state_root u, zr_latest_message_root := zu_message_root u\<rparr>
                           in (s\<lparr>zg_zones := (zg_zones s)(zu_zone_id u \<mapsto> updated),
                                 zg_proven_forced_inclusion_request_ids :=
                                   foldl (\<lambda>ids r. insert (fi_request_id r) ids)
                                     (zg_proven_forced_inclusion_request_ids s) required\<rparr>, Inr updated))))"

definition verify_zone_proof_update_against_masterchain ::
    "zone_ext \<Rightarrow> zone_proof_final_update \<Rightarrow> masterchain_block \<Rightarrow> execution_zone_error + unit" where
  "verify_zone_proof_update_against_masterchain Z u block =
     (if zu_proof_digest u = 0 then Inl EmptyZoneProofDigest
      else if mb_global_zk_root block \<noteq> zone_proof_root Z (mb_zone_proof_commitments block)
      then Inl MasterchainZkRootMismatch
      else if commitment_from_update u \<notin> set (mb_zone_proof_commitments block) then Inl ZoneProofNotCommitted
      else Inr ())"

definition submit_verified_proof_final_update ::
    "zone_ext \<Rightarrow> execution_zone_registry \<Rightarrow> zone_proof_final_update \<Rightarrow> masterchain_block \<Rightarrow> execution_zone_record zone_exec" where
  "submit_verified_proof_final_update Z s u block =
     (case verify_zone_proof_update_against_masterchain Z u block of
        Inl e \<Rightarrow> (s, Inl e)
      | Inr _ \<Rightarrow> submit_proof_final_update Z s u)"

section \<open>Cross-zone messages\<close>

definition message_key :: "async_cross_zone_message \<Rightarrow> zone_id \<times> zone_id \<times> u64 \<times> hash256 \<times> bytes" where
  "message_key m = (am_from_zone m, am_to_zone m, am_nonce m, am_payload_hash m, am_payload m)"

definition build_cross_zone_message_inclusion_proof ::
    "zone_ext \<Rightarrow> zone_id \<Rightarrow> u64 \<Rightarrow> async_cross_zone_message list \<Rightarrow> nat \<Rightarrow>
     execution_zone_error + cross_zone_message_inclusion_proof" where
  "build_cross_zone_message_inclusion_proof Z source height messages index =
     (if length messages \<le> index then Inl MessageProofIndexOutOfRange
      else let m = messages ! index
      in if am_from_zone m \<noteq> source then Inl (UnknownZone source)
         else let leaves = map (cross_zone_message_leaf_hash Z) messages
              in case merkle_proof (zx_keccak256 Z) leaves index of
                   None \<Rightarrow> Inl MessageProofIndexOutOfRange
                 | Some path \<Rightarrow> Inr \<lparr>cz_version = 1, cz_source_zone = source, cz_source_zone_block_height = height,
                     cz_message_index = of_nat index, cz_message = m,
                     cz_message_root = merkle_root (zx_keccak256 Z) leaves, cz_proof_path = path\<rparr>)"

definition submit_cross_zone_message :: "execution_zone_registry \<Rightarrow> async_cross_zone_message \<Rightarrow> unit zone_exec" where
  "submit_cross_zone_message s m =
     (if zg_zones s (am_from_zone m) = None then (s, Inl (UnknownZone (am_from_zone m)))
      else if zg_zones s (am_to_zone m) = None then (s, Inl (UnknownZone (am_to_zone m)))
      else (s\<lparr>zg_pending_cross_zone_messages := zg_pending_cross_zone_messages s @ [m]\<rparr>, Inr ()))"

definition outbound_cross_zone_messages_for ::
    "execution_zone_registry \<Rightarrow> zone_id \<Rightarrow> execution_zone_error + async_cross_zone_message list" where
  "outbound_cross_zone_messages_for s from =
     (if zg_zones s from = None then Inl (UnknownZone from)
      else Inr (dedup (sort_key message_key (filter (\<lambda>m. am_from_zone m = from) (zg_pending_cross_zone_messages s)))))"

definition drain_cross_zone_messages_for ::
    "execution_zone_registry \<Rightarrow> zone_id \<Rightarrow> async_cross_zone_message list zone_exec" where
  "drain_cross_zone_messages_for s to =
     (if zg_zones s to = None then (s, Inl (UnknownZone to))
      else let queue = dedup (sort_key message_key (zg_pending_cross_zone_messages s))
           in (s\<lparr>zg_pending_cross_zone_messages := filter (\<lambda>m. am_to_zone m \<noteq> to) queue\<rparr>,
               Inr (filter (\<lambda>m. am_to_zone m = to) queue)))"

definition consume_cross_zone_message ::
    "zone_ext \<Rightarrow> execution_zone_registry \<Rightarrow> zone_id \<Rightarrow> cross_zone_message_inclusion_proof \<Rightarrow> hash256 \<Rightarrow>
     async_cross_zone_message zone_exec" where
  "consume_cross_zone_message Z s to p expected =
     (if zg_zones s to = None then (s, Inl (UnknownZone to))
      else if zg_zones s (cz_source_zone p) = None then (s, Inl (UnknownZone (cz_source_zone p)))
      else if am_to_zone (cz_message p) \<noteq> to
      then (s, Inl (CrossZoneMessageDestinationMismatch (am_to_zone (cz_message p)) to))
      else if \<not> verify_cross_zone_message_inclusion_proof Z p expected then (s, Inl InvalidCrossZoneMessageProof)
      else let mid = cross_zone_message_leaf_hash Z (cz_message p)
           in if mid \<in> zg_consumed_cross_zone_messages s then (s, Inl CrossZoneMessageAlreadyConsumed)
              else (s\<lparr>zg_consumed_cross_zone_messages := insert mid (zg_consumed_cross_zone_messages s)\<rparr>,
                    Inr (cz_message p)))"

definition consume_cross_zone_message_from_latest_source ::
    "zone_ext \<Rightarrow> execution_zone_registry \<Rightarrow> zone_id \<Rightarrow> cross_zone_message_inclusion_proof \<Rightarrow> async_cross_zone_message zone_exec" where
  "consume_cross_zone_message_from_latest_source Z s to p =
     (case zg_zones s (cz_source_zone p) of
        None \<Rightarrow> (s, Inl (UnknownZone (cz_source_zone p)))
      | Some source \<Rightarrow> consume_cross_zone_message Z s to p (zr_latest_message_root source))"

section \<open>Forced inclusion and sequencer epochs\<close>

definition submit_forced_inclusion ::
    "zone_ext \<Rightarrow> execution_zone_registry \<Rightarrow> zone_id \<Rightarrow> address \<Rightarrow> hash256 \<Rightarrow> bytes \<Rightarrow> forced_inclusion_request zone_exec" where
  "submit_forced_inclusion Z s zone requester txh payload =
     (case zg_zones s zone of
        None \<Rightarrow> (s, Inl (UnknownZone zone))
      | Some z \<Rightarrow>
          let rid = forced_inclusion_request_id Z zone requester txh (zg_masterchain_height s)
          in if rid \<in> set (queued_ids (zg_pending_forced_inclusions s) (zg_forced_inclusion_events s))
             then (s, Inl ForcedInclusionAlreadyExists)
             else let r = \<lparr>fi_zone_id = zone, fi_requester = requester, fi_request_id = rid, fi_tx_hash = txh,
                        fi_payload = payload, fi_submitted_at_masterchain_height = zg_masterchain_height s,
                        fi_deadline_masterchain_height = sat_add (zg_masterchain_height s)
                          (zm_forced_inclusion_timeout_masterchain_blocks (zr_metadata z))\<rparr>
                  in (s\<lparr>zg_pending_forced_inclusions := zg_pending_forced_inclusions s @ [r]\<rparr>, Inr r))"

definition flush_due_forced_inclusions :: "execution_zone_registry \<Rightarrow> execution_zone_registry" where
  "flush_due_forced_inclusions s =
     (let (pending, events) = flush_loop (zg_masterchain_height s) (zg_pending_forced_inclusions s) []
        (zg_forced_inclusion_events s)
      in s\<lparr>zg_pending_forced_inclusions := pending, zg_forced_inclusion_events := events\<rparr>)"

definition advance_masterchain_height :: "execution_zone_registry \<Rightarrow> u64 \<Rightarrow> execution_zone_registry" where
  "advance_masterchain_height s height =
     flush_due_forced_inclusions (s\<lparr>zg_masterchain_height := max (zg_masterchain_height s) height\<rparr>)"

definition settle_sequencer_epoch ::
    "execution_zone_registry \<Rightarrow> sequencer_reward_params \<Rightarrow> sequencer_epoch_work \<Rightarrow> sequencer_epoch_settlement" where
  "settle_sequencer_epoch s params work =
     (let reward = sequencer_reward_wei params \<lparr>sw_zone_blocks = ew_zone_blocks work, sw_da_bytes = ew_da_bytes work\<rparr>;
          events = filter (\<lambda>e. fi_zone_id (fe_request e) = ew_zone_id work) (zg_forced_inclusion_events s);
          penalty = foldl sat_add 0 (map (\<lambda>e. forced_inclusion_penalty_wei params (fe_sequencer_late_by_blocks e)) events)
      in \<lparr>sq_version = 1, sq_zone_id = ew_zone_id work, sq_sequencer = ew_sequencer work,
          sq_reward_wei = reward, sq_forced_inclusion_penalty_wei = penalty,
          sq_net_reward_wei = sat_sub reward penalty, sq_unpaid_penalty_wei = sat_sub penalty reward,
          sq_forced_inclusion_count = foldl (\<lambda>n _. sat_add n 1) 0 events\<rparr>)"

section \<open>Histories of the registry\<close>

inductive zone_change :: "zone_ext \<Rightarrow> execution_zone_registry \<Rightarrow> execution_zone_registry \<Rightarrow> bool" for Z where
  ch_create: "zone_change Z s (fst (create_zone s zone creator metadata))"
| ch_update: "zone_change Z s (fst (submit_proof_final_update Z s u))"
| ch_verified: "zone_change Z s (fst (submit_verified_proof_final_update Z s u block))"
| ch_send: "zone_change Z s (fst (submit_cross_zone_message s m))"
| ch_drain: "zone_change Z s (fst (drain_cross_zone_messages_for s to))"
| ch_consume: "zone_change Z s (fst (consume_cross_zone_message Z s to p expected))"
| ch_consume_latest: "zone_change Z s (fst (consume_cross_zone_message_from_latest_source Z s to p))"
| ch_file: "zone_change Z s (fst (submit_forced_inclusion Z s zone requester txh payload))"
| ch_advance: "zone_change Z s (advance_masterchain_height s height)"

inductive_cases zone_changeE: "zone_change Z s s'"

definition zone_queue :: "execution_zone_registry \<Rightarrow> forced_queue" where
  "zone_queue s = \<lparr>fq_height = zg_masterchain_height s, fq_pending = zg_pending_forced_inclusions s,
     fq_events = zg_forced_inclusion_events s, fq_proven = zg_proven_forced_inclusion_request_ids s\<rparr>"

text \<open>An accepted update passed every check, and it changes the zone and settles its due requests.\<close>

lemma submit_update_OkE:
  assumes "submit_proof_final_update Z s u = (s', Inr rec)"
  obtains zone where "zu_proof_digest u \<noteq> 0"
    and "zu_required_forced_inclusion_root u =
      forced_inclusion_queue_root Z (unresolved_forced_inclusion_requests_for_zone s (zu_zone_id u))"
    and "zg_zones s (zu_zone_id u) = Some zone"
    and "verify_zone_update_coverage Z u (zr_metadata zone) = Inr ()"
    and "verify_zone_update_public_inputs Z u = Inr ()"
    and "zr_latest_proof_final_height zone < zu_zone_block_height u"
    and "rec = zone\<lparr>zr_latest_proof_final_height := zu_zone_block_height u,
      zr_latest_state_root := zu_state_root u, zr_latest_message_root := zu_message_root u\<rparr>"
    and "s' = s\<lparr>zg_zones := (zg_zones s)(zu_zone_id u \<mapsto> rec),
      zg_proven_forced_inclusion_request_ids := zg_proven_forced_inclusion_request_ids s \<union>
        fi_request_id ` set (unresolved_forced_inclusion_requests_for_zone s (zu_zone_id u))\<rparr>"
  using assms
  by (auto simp: submit_proof_final_update_def Let_def foldl_insert not_le split: if_splits option.splits sum.splits)

lemma submit_update_error: "submit_proof_final_update Z s u = (s', Inl e) \<Longrightarrow> s' = s"
  by (auto simp: submit_proof_final_update_def Let_def split: if_splits option.splits sum.splits)

lemma submit_update_queue:
  "zone_queue (fst (submit_proof_final_update Z s u)) \<in> {zone_queue s, fq_settle (zu_zone_id u) (zone_queue s)}"
proof (cases "submit_proof_final_update Z s u")
  case (Pair s' r)
  then show ?thesis
    by (cases r) (auto dest: submit_update_error elim!: submit_update_OkE
        simp: zone_queue_def fq_settle_def unresolved_forced_inclusion_requests_for_zone_def)
qed

lemma update_refines: "fq_step\<^sup>*\<^sup>* (zone_queue s) (zone_queue (fst (submit_proof_final_update Z s u)))"
  using submit_update_queue [of Z s u] fq_settled [of "zone_queue s" "zu_zone_id u"] by auto

lemma file_queue:
  "zone_queue (fst (submit_forced_inclusion Z s zone requester txh payload)) = zone_queue s \<or>
   fq_step (zone_queue s) (zone_queue (fst (submit_forced_inclusion Z s zone requester txh payload)))"
proof (cases "fst (submit_forced_inclusion Z s zone requester txh payload) = s")
  case False
  then obtain r where r: "fst (submit_forced_inclusion Z s zone requester txh payload) =
      s\<lparr>zg_pending_forced_inclusions := zg_pending_forced_inclusions s @ [r]\<rparr>"
    and new: "fi_request_id r \<notin> set (queued_ids (zg_pending_forced_inclusions s) (zg_forced_inclusion_events s))"
    and height: "fi_submitted_at_masterchain_height r = zg_masterchain_height s"
      "zg_masterchain_height s \<le> fi_deadline_masterchain_height r"
    by (fastforce simp: submit_forced_inclusion_def Let_def sat_add_ge split: option.splits if_splits)
  then have "fq_step (zone_queue s) ((zone_queue s)\<lparr>fq_pending := fq_pending (zone_queue s) @ [r]\<rparr>)"
    by (intro fq_file) (simp_all add: zone_queue_def)
  then show ?thesis using r by (simp add: zone_queue_def)
qed simp

lemma advance_queue:
  "zone_queue (advance_masterchain_height s height) =
   fq_flush ((zone_queue s)\<lparr>fq_height := max (zg_masterchain_height s) height\<rparr>)"
  by (simp add: advance_masterchain_height_def flush_due_forced_inclusions_def flush_loop_eq zone_queue_def fq_flush_def)

lemma other_queue:
  "zone_queue (fst (create_zone s zone creator metadata)) = zone_queue s"
  "zone_queue (fst (submit_cross_zone_message s m)) = zone_queue s"
  "zone_queue (fst (drain_cross_zone_messages_for s to)) = zone_queue s"
  "zone_queue (fst (consume_cross_zone_message Z s to p expected)) = zone_queue s"
  "zone_queue (fst (consume_cross_zone_message_from_latest_source Z s to p)) = zone_queue s"
  by (simp_all add: create_zone_def submit_cross_zone_message_def drain_cross_zone_messages_for_def
      consume_cross_zone_message_def consume_cross_zone_message_from_latest_source_def zone_queue_def Let_def
      split: option.split)

lemma zone_change_refines: "zone_change Z s s' \<Longrightarrow> fq_step\<^sup>*\<^sup>* (zone_queue s) (zone_queue s')"
proof (erule zone_changeE)
  fix u block assume "s' = fst (submit_verified_proof_final_update Z s u block)"
  then show ?thesis
    using update_refines [of s Z u]
    by (auto simp: submit_verified_proof_final_update_def split: sum.split)
next
  fix u assume "s' = fst (submit_proof_final_update Z s u)"
  then show ?thesis using update_refines by simp
next
  fix zone requester txh payload assume "s' = fst (submit_forced_inclusion Z s zone requester txh payload)"
  then show ?thesis using file_queue [of Z s zone requester txh payload] by auto
next
  fix height assume "s' = advance_masterchain_height s height"
  then have "fq_step (zone_queue s) (zone_queue s')"
    using fq_advance [of "zone_queue s" "max (zg_masterchain_height s) height"]
    by (simp add: advance_queue) (simp add: zone_queue_def)
  then show ?thesis by (rule r_into_rtranclp)
qed (simp_all add: other_queue)

interpretation zones: forced_inclusion_component zone_queue "zone_change Z" default_registry for Z
  by unfold_locales (simp_all add: zone_change_refines, simp add: zone_queue_def default_registry_def fq_empty_def)

text \<open>
  A zone is created with a positive timeout and keeps it, so the deadline of a request that waits
  is after its submission, unless the addition saturated at \<open>u64::MAX\<close>.
\<close>

definition zone_timeouts :: "execution_zone_registry \<Rightarrow> bool" where
  "zone_timeouts s \<longleftrightarrow>
     (\<forall>zone rec. zg_zones s zone = Some rec \<longrightarrow> zm_forced_inclusion_timeout_masterchain_blocks (zr_metadata rec) \<noteq> 0) \<and>
     (\<forall>r \<in> set (zg_pending_forced_inclusions s).
        fi_submitted_at_masterchain_height r < fi_deadline_masterchain_height r \<or> fi_deadline_masterchain_height r = - 1)"

lemma sat_add_after: "t \<noteq> 0 \<Longrightarrow> h < sat_add h t \<or> sat_add h t = - 1" for h t :: "'a::len word"
  by (auto simp: sat_add_def word_less_nat_alt unat_add_no_wrap unat_gt_0)

lemma update_timeouts: "zone_timeouts s \<Longrightarrow> zone_timeouts (fst (submit_proof_final_update Z s u))"
proof (cases "submit_proof_final_update Z s u")
  case (Pair s' r)
  then show "zone_timeouts s \<Longrightarrow> ?thesis"
    by (cases r) (auto dest: submit_update_error elim!: submit_update_OkE simp: zone_timeouts_def split: if_splits)
qed

lemma zone_change_timeouts: "zone_change Z s s' \<Longrightarrow> zone_timeouts s \<Longrightarrow> zone_timeouts s'"
proof (erule zone_changeE)
  fix u assume "s' = fst (submit_proof_final_update Z s u)" "zone_timeouts s"
  then show "zone_timeouts s'" using update_timeouts by simp
next
  fix u block assume "s' = fst (submit_verified_proof_final_update Z s u block)" "zone_timeouts s"
  then show "zone_timeouts s'"
    using update_timeouts [of s Z u] by (auto simp: submit_verified_proof_final_update_def split: sum.split)
next
  fix zone requester txh payload
  assume "s' = fst (submit_forced_inclusion Z s zone requester txh payload)" "zone_timeouts s"
  then show "zone_timeouts s'"
    by (auto simp: submit_forced_inclusion_def zone_timeouts_def Let_def sat_add_after split: option.split)
next
  fix height assume "s' = advance_masterchain_height s height" "zone_timeouts s"
  then show "zone_timeouts s'"
    by (auto simp: advance_masterchain_height_def flush_due_forced_inclusions_def flush_loop_eq zone_timeouts_def)
qed (auto simp: zone_timeouts_def create_zone_def submit_cross_zone_message_def
    drain_cross_zone_messages_for_def consume_cross_zone_message_def
    consume_cross_zone_message_from_latest_source_def Let_def split: option.splits if_splits)

lemma default_timeouts: "zone_timeouts default_registry"
  by (simp add: zone_timeouts_def default_registry_def)

lemma reachable_timeouts: "(zone_change Z)\<^sup>*\<^sup>* default_registry s \<Longrightarrow> zone_timeouts s"
  by (induction rule: rtranclp_induct) (auto intro: zone_change_timeouts default_timeouts)

section \<open>Consumed messages\<close>

lemma consume_Ok:
  assumes "consume_cross_zone_message Z s to p expected = (s', Inr m)"
  shows "m = cz_message p \<and> am_to_zone m = to \<and> verify_cross_zone_message_inclusion_proof Z p expected \<and>
    cross_zone_message_leaf_hash Z m \<notin> zg_consumed_cross_zone_messages s \<and>
    zg_consumed_cross_zone_messages s' = insert (cross_zone_message_leaf_hash Z m) (zg_consumed_cross_zone_messages s)"
  using assms by (auto simp: consume_cross_zone_message_def Let_def split: if_splits)

lemma update_consumed:
  "zg_consumed_cross_zone_messages (fst (submit_proof_final_update Z s u)) = zg_consumed_cross_zone_messages s"
  by (simp add: submit_proof_final_update_def Let_def split: option.split sum.split)

lemma zone_change_consumed:
  "zone_change Z s s' \<Longrightarrow> zg_consumed_cross_zone_messages s \<subseteq> zg_consumed_cross_zone_messages s'"
  by (erule zone_changeE)
    (auto simp: create_zone_def submit_verified_proof_final_update_def update_consumed submit_cross_zone_message_def
      drain_cross_zone_messages_for_def consume_cross_zone_message_def consume_cross_zone_message_from_latest_source_def
      submit_forced_inclusion_def advance_masterchain_height_def flush_due_forced_inclusions_def Let_def
      split: option.splits sum.splits prod.splits if_splits)

lemma history_consumed:
  "(zone_change Z)\<^sup>*\<^sup>* s s' \<Longrightarrow> zg_consumed_cross_zone_messages s \<subseteq> zg_consumed_cross_zone_messages s'"
  by (induction rule: rtranclp_induct) (auto dest: zone_change_consumed)


section \<open>Properties\<close>

text \<open>
  C12.  Refinement: the registry starts as the empty forced-inclusion machine, and every operation,
  whether it succeeds or fails, is a sequence of steps of that machine on the height, the waiting
  requests, the events and the settled ids.
\<close>

theorem registry_refines_forced_queue:
  "zone_queue default_registry = fq_empty \<and>
   (\<forall>s s'. zone_change Z s s' \<longrightarrow> fq_step\<^sup>*\<^sup>* (zone_queue s) (zone_queue s'))"
  using zones.start_empty zones.change_refines by blast

text \<open>
  C13.  No forced inclusion is lost or late: after every history of the registry a request that was
  waiting is either still waiting, strictly before its deadline, or it is an event, and never both.
  (At the last height \<open>u64::MAX\<close>, where deadlines saturate, a request may wait with its deadline
  reached; nowhere else.)  Its status only moves from waiting over due to settled; an event was
  included at its deadline or later and records how late.
\<close>

theorem forced_inclusion_never_lost:
  assumes "(zone_change Z)\<^sup>*\<^sup>* default_registry s" and "(zone_change Z)\<^sup>*\<^sup>* s s'"
    and "r \<in> set (zg_pending_forced_inclusions s)"
  shows "((r \<in> set (zg_pending_forced_inclusions s')) \<noteq> (\<exists>e \<in> set (zg_forced_inclusion_events s'). fe_request e = r))
    \<and> (r \<in> set (zg_pending_forced_inclusions s') \<longrightarrow>
         zg_masterchain_height s' < fi_deadline_masterchain_height r
         \<or> zg_masterchain_height s' = - 1 \<and> fi_deadline_masterchain_height r = - 1)
    \<and> status_rank (status_of (zone_queue s) i) \<le> status_rank (status_of (zone_queue s') i)
    \<and> list_all (\<lambda>e. fi_deadline_masterchain_height (fe_request e) \<le> fe_included_at_masterchain_height e
        \<and> fe_sequencer_late_by_blocks e =
           fe_included_at_masterchain_height e - fi_deadline_masterchain_height (fe_request e)) (zg_forced_inclusion_events s')"
proof (intro conjI)
  have reach: "(zone_change Z)\<^sup>*\<^sup>* default_registry s'" using assms(1,2) by (rule rtranclp_trans)
  have "fi_submitted_at_masterchain_height r < fi_deadline_masterchain_height r \<or> fi_deadline_masterchain_height r = - 1"
    if "r \<in> set (zg_pending_forced_inclusions s')"
    using reachable_timeouts [OF reach] that by (simp add: zone_timeouts_def)
  then show "r \<in> set (zg_pending_forced_inclusions s') \<longrightarrow>
      zg_masterchain_height s' < fi_deadline_masterchain_height r
      \<or> zg_masterchain_height s' = - 1 \<and> fi_deadline_masterchain_height r = - 1"
    using zones.filed_once(2) [OF assms(1,2), of r] assms(3) by (auto simp: zone_queue_def before_deadline_def)
  show "(r \<in> set (zg_pending_forced_inclusions s')) \<noteq> (\<exists>e \<in> set (zg_forced_inclusion_events s'). fe_request e = r)"
    using zones.filed_once(1) [OF assms(1,2), of r] assms(3) by (simp add: zone_queue_def)
  show "status_rank (status_of (zone_queue s) i) \<le> status_rank (status_of (zone_queue s') i)"
    by (rule zones.status_never_back [OF assms(2)])
  have "fq_inv (zone_queue s')" by (rule zones.reachable_inv [OF reach])
  then show "list_all (\<lambda>e. fi_deadline_masterchain_height (fe_request e) \<le> fe_included_at_masterchain_height e
        \<and> fe_sequencer_late_by_blocks e =
           fe_included_at_masterchain_height e - fi_deadline_masterchain_height (fe_request e)) (zg_forced_inclusion_events s')"
    by (auto simp: fq_inv_def zone_queue_def list_all_iff)
qed

text \<open>
  C14.  A zone becomes final only together with its due requests: an accepted update is newer than the
  proof-final height, names the root of all due and unsettled requests of its zone as the one that
  was proven, covers its features with the circuit that the zone needs, and its data is available;
  afterwards no due request of the zone is open, and the requests of other zones are as before.
\<close>

theorem final_update_settles_due_requests:
  assumes "submit_proof_final_update Z s u = (s', Inr rec)"
  shows "\<exists>zone. zg_zones s (zu_zone_id u) = Some zone
    \<and> zr_latest_proof_final_height zone < zr_latest_proof_final_height rec
    \<and> zg_zones s' = (zg_zones s)(zu_zone_id u \<mapsto> rec)
    \<and> zr_latest_state_root rec = zu_state_root u \<and> zr_latest_message_root rec = zu_message_root u
    \<and> zu_forced_inclusion_root u = required_forced_inclusion_root_for_zone Z s (zu_zone_id u)
    \<and> zu_circuit_version u = required_zone_circuit_version (zr_metadata zone)
    \<and> contains_only (zu_feature_set u) (cm_covered_features (coverage_manifest_for_circuit_version (zu_circuit_version u)))
    \<and> zu_da_available u
    \<and> (\<forall>z. unresolved_forced_inclusion_requests_for_zone s' z =
         (if z = zu_zone_id u then [] else
            filter (\<lambda>r. fi_request_id r \<notin> fi_request_id ` set (unresolved_forced_inclusion_requests_for_zone s (zu_zone_id u)))
              (unresolved_forced_inclusion_requests_for_zone s z)))"
  using assms
proof (rule submit_update_OkE)
  fix zone
  assume cov: "verify_zone_update_coverage Z u (zr_metadata zone) = Inr ()"
    and inputs: "verify_zone_update_public_inputs Z u = Inr ()"
    and root: "zu_required_forced_inclusion_root u =
      forced_inclusion_queue_root Z (unresolved_forced_inclusion_requests_for_zone s (zu_zone_id u))"
    and s': "s' = s\<lparr>zg_zones := (zg_zones s)(zu_zone_id u \<mapsto> rec),
      zg_proven_forced_inclusion_request_ids := zg_proven_forced_inclusion_request_ids s \<union>
        fi_request_id ` set (unresolved_forced_inclusion_requests_for_zone s (zu_zone_id u))\<rparr>"
    and zone: "zg_zones s (zu_zone_id u) = Some zone"
      "zr_latest_proof_final_height zone < zu_zone_block_height u"
      "rec = zone\<lparr>zr_latest_proof_final_height := zu_zone_block_height u,
        zr_latest_state_root := zu_state_root u, zr_latest_message_root := zu_message_root u\<rparr>"
  let ?ids = "fi_request_id ` set (unresolved_forced_inclusion_requests_for_zone s (zu_zone_id u))"
  have "unresolved_requests z es (P \<union> A) = filter (\<lambda>r. fi_request_id r \<notin> A) (unresolved_requests z es P)" for z es P A
    by (simp add: unresolved_requests_def filter_map comp_def conj_ac)
  then have "unresolved_forced_inclusion_requests_for_zone s' z =
      filter (\<lambda>r. fi_request_id r \<notin> ?ids) (unresolved_forced_inclusion_requests_for_zone s z)" for z
    by (simp add: s' unresolved_forced_inclusion_requests_for_zone_def)
  then have "\<forall>z. unresolved_forced_inclusion_requests_for_zone s' z =
         (if z = zu_zone_id u then [] else filter (\<lambda>r. fi_request_id r \<notin> ?ids) (unresolved_forced_inclusion_requests_for_zone s z))"
    by (auto simp: filter_empty_conv)
  then show ?thesis
    using zone cov inputs root s'
    by (auto simp: verify_zone_update_coverage_def verify_zone_update_public_inputs_def Let_def forced_inclusion_was_proven_def
        required_forced_inclusion_root_for_zone_def split: if_splits option.splits)
qed

text \<open>
  C15.  A cross-zone message is consumed at most once: whatever happens in between, with whatever proof
  and expected root, a second consumption does not return the message again.
\<close>

theorem message_consumed_at_most_once:
  assumes "consume_cross_zone_message Z s to p expected = (s1, Inr m)"
    and "(zone_change Z)\<^sup>*\<^sup>* s1 s2"
    and "consume_cross_zone_message Z s2 to' p' expected' = (s3, Inr m')"
  shows "m' \<noteq> m"
  using consume_Ok [OF assms(1)] consume_Ok [OF assms(3)] history_consumed [OF assms(2)] by auto

text \<open>
  A message of a source zone can be consumed from the final root of that zone: when the zone
  committed to a list of messages, a proof is built for every message of the list that it sent, and
  the destination consumes the message with that proof unless it was consumed before.
\<close>

theorem committed_message_consumable:
  assumes "i < length messages" and "i < 2 ^ 64" and "am_from_zone (messages ! i) = source"
    and "zg_zones s source = Some zone" and "zr_latest_message_root zone = cross_zone_message_root Z messages"
    and "zg_zones s (am_to_zone (messages ! i)) = Some dest"
    and "cross_zone_message_leaf_hash Z (messages ! i) \<notin> zg_consumed_cross_zone_messages s"
  shows "\<exists>p. build_cross_zone_message_inclusion_proof Z source height messages i = Inr p
    \<and> snd (consume_cross_zone_message_from_latest_source Z s (am_to_zone (messages ! i)) p) = Inr (messages ! i)"
proof -
  let ?leaves = "map (cross_zone_message_leaf_hash Z) messages"
  have i: "i < length ?leaves" using assms(1) by simp
  define path where "path = merkle_proof_loop (zx_keccak256 Z) ?leaves i"
  have path: "merkle_proof (zx_keccak256 Z) ?leaves i = Some path"
    using i by (auto simp: merkle_proof_def path_def)
  have walk: "verify_merkle_proof (zx_keccak256 Z) (merkle_root (zx_keccak256 Z) ?leaves) (?leaves ! i) i path"
    using merkle_walk_complete [OF i] i by (auto simp: verify_merkle_proof_def merkle_root_def path_def)
  have "unat (of_nat i :: u64) = i" using assms(2) by (intro unat_of_nat_small) simp
  then show ?thesis
    using assms path walk
    by (simp add: build_cross_zone_message_inclusion_proof_def consume_cross_zone_message_from_latest_source_def
        consume_cross_zone_message_def verify_cross_zone_message_inclusion_proof_def cross_zone_message_root_def Let_def)
qed


text \<open>
  Only committed messages are consumed: a message that a zone consumes from the final root of its
  source is in the list of messages that the root was made from, when the hash does not collide on
  the inputs involved and the encoder is injective and writes no leaf of 64 bytes.
\<close>

theorem consumed_message_was_committed:
  assumes consumed: "consume_cross_zone_message_from_latest_source Z s to p = (s', Inr m)"
    and source: "zg_zones s (cz_source_zone p) = Some zone"
      "zr_latest_message_root zone = cross_zone_message_root Z messages" "messages \<noteq> []"
    and encoder: "inj (\<lambda>x. zx_borsh_message_leaf Z (ascii ''FRAC_XZONE_MSG__'', x))"
      "\<And>x. length (zx_borsh_message_leaf Z (ascii ''FRAC_XZONE_MSG__'', x)) \<noteq> 64"
    and hash: "inj_on (zx_keccak256 Z)
      (insert (zx_borsh_message_leaf Z (ascii ''FRAC_XZONE_MSG__'', m))
        ((\<lambda>x. zx_borsh_message_leaf Z (ascii ''FRAC_XZONE_MSG__'', x)) ` set messages
         \<union> set (tree_inputs (zx_keccak256 Z) (map (cross_zone_message_leaf_hash Z) messages))
         \<union> set (walk_inputs (zx_keccak256 Z) (cross_zone_message_leaf_hash Z m) (unat (cz_message_index p)) (cz_proof_path p))))"
  shows "m \<in> set messages"
proof -
  let ?kc = "zx_keccak256 Z" and ?leaf = "\<lambda>x. zx_borsh_message_leaf Z (ascii ''FRAC_XZONE_MSG__'', x)"
  let ?ys = "map ?leaf messages"
  have eq: "map (cross_zone_message_leaf_hash Z) messages = map (\<lambda>y. ?kc y) ?ys"
    by (simp add: cross_zone_message_leaf_hash_def comp_def)
  have m: "m = cz_message p" "verify_cross_zone_message_inclusion_proof Z p (cross_zone_message_root Z messages)"
    using consumed source consume_Ok [of Z s to p "cross_zone_message_root Z messages" s' m]
    by (simp_all add: consume_cross_zone_message_from_latest_source_def)
  then have walk: "verify_merkle_proof ?kc (merkle_root ?kc (map (\<lambda>y. ?kc y) ?ys)) (?kc (?leaf m))
      (unat (cz_message_index p)) (cz_proof_path p)"
    unfolding cross_zone_message_root_def eq
    by (simp add: verify_cross_zone_message_inclusion_proof_def cross_zone_message_leaf_hash_def comp_def split: if_splits)
  have "?leaf m \<in> set ?ys"
  proof (rule merkle_sound [OF walk])
    show "inj_on ?kc (insert (?leaf m) (set ?ys \<union> set (tree_inputs ?kc (map (\<lambda>y. ?kc y) ?ys))
        \<union> set (walk_inputs ?kc (?kc (?leaf m)) (unat (cz_message_index p)) (cz_proof_path p))))"
      using hash unfolding eq by (simp add: cross_zone_message_leaf_hash_def comp_def)
  qed (use source(3) encoder(2) in auto)
  then show ?thesis using encoder(1) by (auto dest: injD)
qed

section \<open>Concrete instance\<close>

definition sample_metadata :: execution_zone_metadata where
  "sample_metadata = \<lparr>zm_version = 1, zm_proof_system = 1, zm_da_namespace = 7, zm_sequencer_policy = 0,
     zm_forced_inclusion_timeout_masterchain_blocks = 3\<rparr>"

text \<open>Two zones, a request filed at height 0, and the height at its deadline and past it.\<close>

definition sample_zones :: execution_zone_registry where
  "sample_zones = fst (create_zone (fst (create_zone default_registry 1 11 sample_metadata)) 2 12 sample_metadata)"

definition sample_filed :: execution_zone_registry where
  "sample_filed = fst (submit_forced_inclusion sample_zone_ext sample_zones 1 99 1234 [5, 6])"

definition sample_due :: execution_zone_registry where
  "sample_due = advance_masterchain_height sample_filed 5"

definition sample_request :: forced_inclusion_request where
  "sample_request = \<lparr>fi_zone_id = 1, fi_requester = 99,
     fi_request_id = forced_inclusion_request_id sample_zone_ext 1 99 1234 0, fi_tx_hash = 1234, fi_payload = [5, 6],
     fi_submitted_at_masterchain_height = 0, fi_deadline_masterchain_height = 3\<rparr>"

lemma sample_zones_eq [simp]:
  "zg_masterchain_height sample_zones = 0" "zg_pending_forced_inclusions sample_zones = []"
  "zg_forced_inclusion_events sample_zones = []" "zg_proven_forced_inclusion_request_ids sample_zones = {}"
  "zg_consumed_cross_zone_messages sample_zones = {}"
  "dom (zg_zones sample_zones) = {1, 2}" "zr_metadata (the (zg_zones sample_zones 1)) = sample_metadata"
  by (auto simp: sample_zones_def create_zone_def default_registry_def sample_metadata_def Let_def)

lemma sample_zone_known:
  "\<exists>z. zg_zones sample_zones 1 = Some z \<and> zr_metadata z = sample_metadata \<and> zr_latest_proof_final_height z = 0"
  "\<exists>z. zg_zones sample_zones 2 = Some z"
  by (simp_all add: sample_zones_def create_zone_def default_registry_def sample_metadata_def Let_def)

lemma sample_filed_eq: "sample_filed = sample_zones\<lparr>zg_pending_forced_inclusions := [sample_request]\<rparr>"
proof -
  obtain z where "zg_zones sample_zones 1 = Some z" "zr_metadata z = sample_metadata" using sample_zone_known(1) by blast
  then show ?thesis
    by (simp add: sample_filed_def submit_forced_inclusion_def sample_request_def queued_ids_def Let_def
        sat_add_def sample_metadata_def)
qed

lemma sample_due_eq:
  "sample_due = sample_zones\<lparr>zg_masterchain_height := 5, zg_forced_inclusion_events := [event_of 5 sample_request]\<rparr>"
  by (simp add: sample_due_def sample_filed_eq advance_masterchain_height_def flush_due_forced_inclusions_def
      sample_request_def max_def word_le_nat_alt)

lemma sample_unresolved: "unresolved_forced_inclusion_requests_for_zone sample_due 1 = [sample_request]"
  by (simp add: sample_due_eq unresolved_forced_inclusion_requests_for_zone_def unresolved_requests_def event_of_def
      sample_request_def)

lemma sample_history:
  "(zone_change sample_zone_ext)\<^sup>*\<^sup>* default_registry sample_zones"
  "(zone_change sample_zone_ext)\<^sup>*\<^sup>* default_registry sample_filed"
  "(zone_change sample_zone_ext)\<^sup>*\<^sup>* sample_filed sample_due"
proof -
  show zones: "(zone_change sample_zone_ext)\<^sup>*\<^sup>* default_registry sample_zones"
    unfolding sample_zones_def by (meson ch_create rtranclp.rtrancl_into_rtrancl r_into_rtranclp)
  show "(zone_change sample_zone_ext)\<^sup>*\<^sup>* sample_filed sample_due"
    unfolding sample_due_def by (meson ch_advance r_into_rtranclp)
  show "(zone_change sample_zone_ext)\<^sup>*\<^sup>* default_registry sample_filed"
    using zones ch_file [of sample_zone_ext sample_zones 1 99 1234 "[5, 6]"] unfolding sample_filed_def by simp
qed

theorem registry_refines_forced_queue_witness:
  "fq_step\<^sup>*\<^sup>* (zone_queue sample_zones) (zone_queue sample_filed) \<and> fq_pending (zone_queue sample_filed) = [sample_request]"
proof
  have "zone_change sample_zone_ext sample_zones sample_filed" unfolding sample_filed_def by (rule ch_file)
  then show "fq_step\<^sup>*\<^sup>* (zone_queue sample_zones) (zone_queue sample_filed)"
    using registry_refines_forced_queue [of sample_zone_ext] by blast
qed (simp add: zone_queue_def sample_filed_eq)

theorem forced_inclusion_never_lost_witness:
  "(\<exists>e \<in> set (zg_forced_inclusion_events sample_due). fe_request e = sample_request \<and> fe_sequencer_late_by_blocks e = 2)
   \<and> zg_masterchain_height sample_filed < fi_deadline_masterchain_height sample_request"
proof
  show "\<exists>e \<in> set (zg_forced_inclusion_events sample_due). fe_request e = sample_request \<and> fe_sequencer_late_by_blocks e = 2"
    using forced_inclusion_never_lost [OF sample_history(2,3), of sample_request 0]
    by (simp add: sample_filed_eq sample_due_eq event_of_def sample_request_def)
  show "zg_masterchain_height sample_filed < fi_deadline_masterchain_height sample_request"
    using forced_inclusion_never_lost [OF sample_history(2) rtranclp.rtrancl_refl, of sample_request 0]
    by (simp add: sample_filed_eq sample_request_def)
qed

definition sample_zone_header :: zone_block_header where
  "sample_zone_header = \<lparr>zh_version = 1, zh_zone_id = 1, zh_height = 4, zh_parent_zone_block_hash = 0,
     zh_state_root = 21, zh_message_root = 22, zh_tx_root = 23, zh_da_namespace = 7, zh_da_root = 24,
     zh_forced_inclusion_root = required_forced_inclusion_root_for_zone sample_zone_ext sample_due 1,
     zh_timestamp_ms = 1000, zh_sequencer = 77\<rparr>"

lemma sample_update_accepted:
  "map_option (\<lambda>u. is_ok (snd (submit_proof_final_update sample_zone_ext sample_due u)))
     (zone_proof_final_update_from_header sample_zone_ext sample_zone_header 55 66) = Some True"
proof -
  obtain z where "zg_zones sample_due 1 = Some z" "zr_metadata z = sample_metadata" "zr_latest_proof_final_height z = 0"
    using sample_zone_known(1) by (auto simp: sample_due_eq)
  moreover have "coverage_manifest_digest sample_witness_ext m = Some (sample_keccak [1])" for m
    by (simp add: coverage_manifest_digest_def sample_witness_ext_def sample_block_ext_def sample_ext_def)
  moreover have "zx_witness sample_zone_ext = sample_witness_ext" by (simp add: sample_zone_ext_def)
  moreover have "contains_only \<lparr>fs_bits = FEATURE_NATIVE_TX OR FEATURE_NATIVE_SHARED_STATE\<rparr>
      (cm_covered_features (coverage_manifest_for_circuit_version NativeStateTransitionV1))"
    by (simp add: contains_only_def coverage_manifest_for_circuit_version_def FEATURE_NATIVE_TX_def
        FEATURE_NATIVE_SHARED_STATE_def)
  ultimately show ?thesis
    by (simp add: zone_proof_final_update_from_header_def zone_proof_final_update_from_header_with_circuit_def Let_def
        submit_proof_final_update_def sample_zone_header_def required_forced_inclusion_root_for_zone_def
        verify_zone_update_coverage_def verify_zone_update_public_inputs_def forced_inclusion_was_proven_def
        required_zone_circuit_version_def zone_is_evm_capable_def sample_metadata_def
        zone_proof_public_input_digest_def word_le_nat_alt is_ok_def)
qed

theorem final_update_settles_due_requests_witness:
  "\<exists>u s' rec. zone_proof_final_update_from_header sample_zone_ext sample_zone_header 55 66 = Some u
     \<and> submit_proof_final_update sample_zone_ext sample_due u = (s', Inr rec)
     \<and> unresolved_forced_inclusion_requests_for_zone sample_due 1 = [sample_request]
     \<and> unresolved_forced_inclusion_requests_for_zone s' 1 = []"
proof -
  obtain u where u: "zone_proof_final_update_from_header sample_zone_ext sample_zone_header 55 66 = Some u"
    and ok: "is_ok (snd (submit_proof_final_update sample_zone_ext sample_due u))"
    using sample_update_accepted by auto
  then obtain s' rec where sub: "submit_proof_final_update sample_zone_ext sample_due u = (s', Inr rec)"
    by (cases "submit_proof_final_update sample_zone_ext sample_due u") (auto simp: is_ok_def split: sum.splits)
  have "zu_zone_id u = 1"
    using u by (auto simp: zone_proof_final_update_from_header_def zone_proof_final_update_from_header_with_circuit_def
        Let_def sample_zone_header_def)
  then show ?thesis using u sub sample_unresolved final_update_settles_due_requests [OF sub] by auto
qed

definition sample_message :: async_cross_zone_message where
  "sample_message = \<lparr>am_from_zone = 1, am_to_zone = 2, am_nonce = 1, am_payload_hash = 5, am_payload = [1, 2]\<rparr>"

text \<open>The state in which zone 1 has made a root of the message final.\<close>

definition sample_final :: execution_zone_registry where
  "sample_final = sample_zones\<lparr>zg_zones := (zg_zones sample_zones)(1 \<mapsto>
     (the (zg_zones sample_zones 1))\<lparr>zr_latest_message_root := cross_zone_message_root sample_zone_ext [sample_message]\<rparr>)\<rparr>"

definition sample_message_proof :: cross_zone_message_inclusion_proof where
  "sample_message_proof = \<lparr>cz_version = 1, cz_source_zone = 1, cz_source_zone_block_height = 4, cz_message_index = 0,
     cz_message = sample_message, cz_message_root = cross_zone_message_root sample_zone_ext [sample_message],
     cz_proof_path = []\<rparr>"

abbreviation sample_root :: hash256 where
  "sample_root \<equiv> cross_zone_message_root sample_zone_ext [sample_message]"

lemma sample_consumed:
  "\<exists>s1. consume_cross_zone_message sample_zone_ext sample_final 2 sample_message_proof sample_root = (s1, Inr sample_message)
     \<and> consume_cross_zone_message_from_latest_source sample_zone_ext sample_final 2 sample_message_proof = (s1, Inr sample_message)"
proof -
  have "cross_zone_message_leaf_hash sample_zone_ext sample_message = sample_root"
    by (simp add: cross_zone_message_root_def merkle_root_def merkle_root_loop.simps)
  then have "snd (consume_cross_zone_message sample_zone_ext sample_final 2 sample_message_proof sample_root) = Inr sample_message"
    using sample_zone_known
    by (auto simp: consume_cross_zone_message_def sample_final_def sample_message_proof_def sample_message_def Let_def
        verify_cross_zone_message_inclusion_proof_def verify_merkle_proof_def)
  moreover have "consume_cross_zone_message_from_latest_source sample_zone_ext sample_final 2 sample_message_proof =
      consume_cross_zone_message sample_zone_ext sample_final 2 sample_message_proof sample_root"
    by (simp add: consume_cross_zone_message_from_latest_source_def sample_final_def sample_message_proof_def)
  ultimately show ?thesis by (metis prod.collapse)
qed

theorem message_consumed_at_most_once_witness:
  "\<exists>s1. consume_cross_zone_message sample_zone_ext sample_final 2 sample_message_proof sample_root = (s1, Inr sample_message)
     \<and> (\<forall>s3 m'. consume_cross_zone_message sample_zone_ext (advance_masterchain_height s1 9) 2 sample_message_proof sample_root
          = (s3, Inr m') \<longrightarrow> m' \<noteq> sample_message)"
proof -
  obtain s1 where s1: "consume_cross_zone_message sample_zone_ext sample_final 2 sample_message_proof sample_root = (s1, Inr sample_message)"
    using sample_consumed by auto
  have "(zone_change sample_zone_ext)\<^sup>*\<^sup>* s1 (advance_masterchain_height s1 9)" by (meson ch_advance r_into_rtranclp)
  then show ?thesis using message_consumed_at_most_once [OF s1] s1 by blast
qed

theorem committed_message_consumable_witness:
  "\<exists>p. build_cross_zone_message_inclusion_proof sample_zone_ext 1 4 [sample_message] 0 = Inr p
    \<and> snd (consume_cross_zone_message_from_latest_source sample_zone_ext sample_final 2 p) = Inr sample_message"
proof -
  obtain dest where dest: "zg_zones sample_final 2 = Some dest" using sample_zone_known(2) by (auto simp: sample_final_def)
  have "\<exists>p. build_cross_zone_message_inclusion_proof sample_zone_ext 1 4 [sample_message] 0 = Inr p
    \<and> snd (consume_cross_zone_message_from_latest_source sample_zone_ext sample_final (am_to_zone ([sample_message] ! 0)) p)
      = Inr ([sample_message] ! 0)"
    by (rule committed_message_consumable [where zone = "(the (zg_zones sample_zones 1))\<lparr>zr_latest_message_root := sample_root\<rparr>"
          and dest = dest])
      (use dest in \<open>simp_all add: sample_final_def sample_message_def\<close>)
  then show ?thesis by (simp add: sample_message_def)
qed

lemma borsh_message_inject: "borsh_message m = borsh_message m' \<Longrightarrow> m = m'"
  by (cases m; cases m') (auto simp: borsh_message_def dest!: be_bytes_inject [rotated])

lemma sample_leaf_encoder:
  "inj (\<lambda>x. zx_borsh_message_leaf sample_zone_ext (tag, x))"
  "length (zx_borsh_message_leaf sample_zone_ext (ascii ''FRAC_XZONE_MSG__'', x)) \<noteq> 64"
  by (auto simp: sample_zone_ext_def ascii_def intro: injI dest: borsh_message_inject) (simp add: borsh_message_def)

theorem consumed_message_was_committed_witness:
  "\<exists>s1. consume_cross_zone_message_from_latest_source sample_zone_ext sample_final 2 sample_message_proof = (s1, Inr sample_message)
     \<and> sample_message \<in> set [sample_message]"
proof -
  let ?zone = "(the (zg_zones sample_zones 1))\<lparr>zr_latest_message_root := sample_root\<rparr>"
  obtain s1 where s1: "consume_cross_zone_message_from_latest_source sample_zone_ext sample_final 2 sample_message_proof = (s1, Inr sample_message)"
    using sample_consumed by auto
  have "sample_message \<in> set [sample_message]"
    by (rule consumed_message_was_committed [OF s1 _ _ _ sample_leaf_encoder, where zone = ?zone])
      (simp_all add: sample_message_proof_def sample_final_def tree_inputs.simps)
  then show ?thesis using s1 by blast
qed

end
