(* ===== verification/Proof_Aggregation.thy ===== *)
theory Proof_Aggregation
  imports Zone_Types "HOL-Library.Multiset"
begin

text \<open>
  Tier-2 aggregation of proof submissions, \<open>crates/proof-aggregator\<close>: the acceptance rules of a
  submission, the fixed-length statement that is hashed, and proving and verifying the aggregate.
  The Plonky2 prover, its verifier, its codec and the Poseidon hash are third-party code and
  parameters; an element of the Goldilocks field is its canonical \<open>u64\<close>, below the order
  $2^{64} - 2^{32} + 1$ of the field, and an error of the library its text.

  The properties say how far the root of an aggregate binds the height, the state root and the
  submissions it was made for (the values of a statement are read modulo the order of the field),
  and that a bundle made from an aggregate passes its own verification.
\<close>

section \<open>Submissions\<close>

datatype submission_error =
    EmptyDigest
  | InvalidRange
  | UnknownShard u32
  | RangeExceedsAnchor u32 u64 u64
  | Duplicate u32 u64 u64

definition proof_submission_from_checkpoint_digest ::
    "u32 \<Rightarrow> u64 \<Rightarrow> u64 \<Rightarrow> address \<Rightarrow> hash256 \<Rightarrow> u32 \<Rightarrow> proof_submission" where
  "proof_submission_from_checkpoint_digest shard start_block end_block prover digest lag =
     \<lparr>ps_shard_id = shard, ps_start_block = start_block, ps_end_block = end_block, ps_prover = prover,
      ps_lag_seconds = lag, ps_proof_digest = digest\<rparr>"

definition validate_proof_submission :: "proof_submission \<Rightarrow> shard_anchor list \<Rightarrow> submission_error + unit" where
  "validate_proof_submission p anchors =
     (if ps_proof_digest p = 0 then Inl EmptyDigest
      else if ps_end_block p < ps_start_block p then Inl InvalidRange
      else case find (\<lambda>a. sa_shard_id a = ps_shard_id p) anchors of
          None \<Rightarrow> Inl (UnknownShard (ps_shard_id p))
        | Some a \<Rightarrow> if sa_block_height a < ps_end_block p
                    then Inl (RangeExceedsAnchor (ps_shard_id p) (ps_end_block p) (sa_block_height a))
                    else Inr ())"

definition submission_range :: "proof_submission \<Rightarrow> u32 \<times> u64 \<times> u64" where
  "submission_range p = (ps_shard_id p, ps_start_block p, ps_end_block p)"

fun dedupe_loop :: "proof_submission list \<Rightarrow> proof_submission list \<Rightarrow> submission_error + proof_submission list" where
  "dedupe_loop out [] = Inr out"
| "dedupe_loop out (p # ps) =
     (if submission_range p \<in> set (map submission_range out)
      then Inl (Duplicate (ps_shard_id p) (ps_start_block p) (ps_end_block p))
      else dedupe_loop (out @ [p]) ps)"

definition dedupe_submissions :: "proof_submission list \<Rightarrow> submission_error + proof_submission list" where
  "dedupe_submissions ps = dedupe_loop [] ps"

section \<open>Statements\<close>

definition MAX_AGG_PROOFS :: nat where "MAX_AGG_PROOFS = 16"

definition STATEMENT_TAG :: u64 where "STATEMENT_TAG = 0x4d434147"

definition statement_field_len :: nat where
  "statement_field_len = 8 + MAX_AGG_PROOFS * 7"

definition verified_statement_field_len :: nat where
  "verified_statement_field_len = 8 + MAX_AGG_PROOFS * 26"

record verified_stwo_statement =
  vs_shard_id :: u32
  vs_chain_id :: u64
  vs_start_block :: u64
  vs_end_block :: u64
  vs_height :: u64
  vs_header_hash :: hash256
  vs_parent_hash :: hash256
  vs_state_root :: hash256
  vs_tx_root :: hash256
  vs_gas_used :: u64
  vs_proof_digest :: hash256

definition matches_submission :: "verified_stwo_statement \<Rightarrow> proof_submission \<Rightarrow> bool" where
  "matches_submission s p \<longleftrightarrow>
     vs_shard_id s = ps_shard_id p \<and> vs_start_block s = ps_start_block p \<and>
     vs_end_block s = ps_end_block p \<and> vs_proof_digest s = ps_proof_digest p"

definition hash256_to_u64_limbs :: "hash256 \<Rightarrow> u64 list" where
  "hash256_to_u64_limbs h = map (\<lambda>i. le_word (take 8 (drop (i * 8) (be_bytes 32 h)))) [0..<4]"

text \<open>\<open>truncate\<close> or \<open>resize\<close> with zeros.\<close>

definition fit_length :: "nat \<Rightarrow> u64 list \<Rightarrow> u64 list" where
  "fit_length n v = (if n < length v then take n v else v @ replicate (n - length v) 0)"

definition submission_fields :: "proof_submission \<Rightarrow> u64 list" where
  "submission_fields p =
     [ucast (ps_shard_id p), ps_start_block p, ps_end_block p] @ hash256_to_u64_limbs (ps_proof_digest p)"

definition encode_statement_u64 :: "u8 \<Rightarrow> u64 \<Rightarrow> hash256 \<Rightarrow> proof_submission list \<Rightarrow> u64 list" where
  "encode_statement_u64 ver height gsr proofs =
     (let ordered = sort_key submission_range proofs
      in fit_length statement_field_len
           ([STATEMENT_TAG, ucast ver, height] @ hash256_to_u64_limbs gsr @ [of_nat (length ordered)] @
            concat (map submission_fields ordered)))"

definition verified_fields :: "proof_submission \<times> verified_stwo_statement \<Rightarrow> u64 list" where
  "verified_fields ps =
     (let p = fst ps; s = snd ps
      in submission_fields p @ [vs_chain_id s, vs_height s] @ hash256_to_u64_limbs (vs_header_hash s) @
         hash256_to_u64_limbs (vs_parent_hash s) @ hash256_to_u64_limbs (vs_state_root s) @
         hash256_to_u64_limbs (vs_tx_root s) @ [vs_gas_used s])"

definition statement_pairs ::
    "proof_submission list \<Rightarrow> verified_stwo_statement list \<Rightarrow> (proof_submission \<times> verified_stwo_statement) list" where
  "statement_pairs proofs verified =
     List.map_filter (\<lambda>p. map_option (\<lambda>s. (p, s)) (find (\<lambda>s. matches_submission s p) verified)) proofs"

definition encode_verified_statement_u64 ::
    "u8 \<Rightarrow> u64 \<Rightarrow> hash256 \<Rightarrow> proof_submission list \<Rightarrow> verified_stwo_statement list \<Rightarrow> u64 list" where
  "encode_verified_statement_u64 ver height gsr proofs verified =
     (let pairs = sort_key (\<lambda>ps. submission_range (fst ps)) (statement_pairs proofs verified)
      in fit_length verified_statement_field_len
           ([STATEMENT_TAG, ucast ver, height] @ hash256_to_u64_limbs gsr @ [of_nat (length pairs)] @
            concat (map verified_fields pairs)))"

section \<open>Proving and verifying\<close>

text \<open>
  The Plonky2 library.  A circuit is given by its number of witness targets; proving takes the field
  elements that the targets are set to.  The four public inputs and the elements of a Poseidon hash
  are canonical \<open>u64\<close> values.
\<close>

record 'pf plonky_ext =
  px_hash_no_pad :: "u64 list \<Rightarrow> u64 list"
  px_prove :: "nat \<Rightarrow> u64 list \<Rightarrow> string + 'pf"
  px_verify :: "nat \<Rightarrow> 'pf \<Rightarrow> string + unit"
  px_public_inputs :: "'pf \<Rightarrow> u64 list"
  px_to_bytes :: "'pf \<Rightarrow> bytes"
  px_from_bytes :: "nat \<Rightarrow> bytes \<Rightarrow> string + 'pf"

definition PLONKY2_AGGREGATOR_VERSION :: u8 where "PLONKY2_AGGREGATOR_VERSION = 2"

text \<open>
  The order of the Goldilocks field, and the field elements of a list of \<open>u64\<close> values:
  \<open>from_canonical_u64\<close> takes a value as it is, so a value from the order on denotes the element
  of its residue.
\<close>

definition GOLDILOCKS_ORDER :: u64 where "GOLDILOCKS_ORDER = 0xFFFFFFFF00000001"

definition u64s_to_fields :: "u64 list \<Rightarrow> u64 list" where
  "u64s_to_fields vals = map (\<lambda>x. x mod GOLDILOCKS_ORDER) vals"

definition poseidon_statement_digest :: "'pf plonky_ext \<Rightarrow> u64 \<Rightarrow> hash256 \<Rightarrow> proof_submission list \<Rightarrow> u64 list" where
  "poseidon_statement_digest X height gsr proofs =
     px_hash_no_pad X (u64s_to_fields (encode_statement_u64 PLONKY2_AGGREGATOR_VERSION height gsr proofs))"

definition poseidon_verified_statement_digest ::
    "'pf plonky_ext \<Rightarrow> u64 \<Rightarrow> hash256 \<Rightarrow> proof_submission list \<Rightarrow> verified_stwo_statement list \<Rightarrow> u64 list" where
  "poseidon_verified_statement_digest X height gsr proofs verified =
     px_hash_no_pad X (u64s_to_fields
       (encode_verified_statement_u64 PLONKY2_AGGREGATOR_VERSION height gsr proofs verified))"

text \<open>Four limbs in little-endian bytes make the 32 bytes of the root, the array being a word read in big-endian order.\<close>

definition hash_out_to_global_zk_root :: "u64 list \<Rightarrow> hash256" where
  "hash_out_to_global_zk_root elements = le_word (rev (concat (map (\<lambda>e. rev (be_bytes 8 e)) elements)))"

text \<open>The common part of both provers: prove, check the proof and compare its public inputs.\<close>

definition prove_fields :: "'pf plonky_ext \<Rightarrow> u64 list \<Rightarrow> string + (hash256 \<times> bytes)" where
  "prove_fields X vals =
     (let fields = u64s_to_fields vals;
          expected = px_hash_no_pad X fields
      in case px_prove X (length fields) fields of
           Inl e \<Rightarrow> Inl e
         | Inr proof \<Rightarrow>
             (case px_verify X (length fields) proof of
                Inl e \<Rightarrow> Inl e
              | Inr _ \<Rightarrow>
                  if take 4 (px_public_inputs X proof) \<noteq> expected then Inl ''public hash mismatch after prove''
                  else Inr (hash_out_to_global_zk_root expected, px_to_bytes X proof)))"

definition statements_mismatch :: "proof_submission list \<Rightarrow> verified_stwo_statement list \<Rightarrow> bool" where
  "statements_mismatch proofs verified \<longleftrightarrow>
     length proofs \<noteq> length verified \<or> list_ex (\<lambda>p. \<not> list_ex (\<lambda>s. matches_submission s p) verified) proofs"

definition prove_global_aggregation ::
    "'pf plonky_ext \<Rightarrow> u64 \<Rightarrow> hash256 \<Rightarrow> proof_submission list \<Rightarrow> string + (hash256 \<times> bytes)" where
  "prove_global_aggregation X height gsr proofs =
     (if proofs = [] then Inl ''cannot prove empty proof set''
      else if MAX_AGG_PROOFS < length proofs then Inl (''too many proofs: '' @ decimal (length proofs) @ '' > '' @ decimal MAX_AGG_PROOFS)
      else prove_fields X (encode_statement_u64 PLONKY2_AGGREGATOR_VERSION height gsr proofs))"

definition prove_global_aggregation_verified ::
    "'pf plonky_ext \<Rightarrow> u64 \<Rightarrow> hash256 \<Rightarrow> proof_submission list \<Rightarrow> verified_stwo_statement list \<Rightarrow> string + (hash256 \<times> bytes)" where
  "prove_global_aggregation_verified X height gsr proofs verified =
     (if proofs = [] then Inl ''cannot prove empty proof set''
      else if MAX_AGG_PROOFS < length proofs then Inl (''too many proofs: '' @ decimal (length proofs) @ '' > '' @ decimal MAX_AGG_PROOFS)
      else if statements_mismatch proofs verified
      then Inl ''verified STWO statements do not match proof submissions''
      else prove_fields X (encode_verified_statement_u64 PLONKY2_AGGREGATOR_VERSION height gsr proofs verified))"

definition verify_fields :: "'pf plonky_ext \<Rightarrow> nat \<Rightarrow> bytes \<Rightarrow> u64 list \<Rightarrow> string + hash256" where
  "verify_fields X n snark expected =
     (case px_from_bytes X n snark of
        Inl _ \<Rightarrow> Inl ''decode plonky2 proof''
      | Inr proof \<Rightarrow>
          (case px_verify X n proof of
             Inl e \<Rightarrow> Inl e
           | Inr _ \<Rightarrow> if take 4 (px_public_inputs X proof) \<noteq> expected then Inl ''statement digest mismatch''
                      else Inr (hash_out_to_global_zk_root expected)))"

definition verify_global_aggregation_snark ::
    "'pf plonky_ext \<Rightarrow> bytes \<Rightarrow> u64 \<Rightarrow> hash256 \<Rightarrow> proof_submission list \<Rightarrow> string + hash256" where
  "verify_global_aggregation_snark X snark height gsr proofs =
     (if proofs = [] then Inl ''empty proof set''
      else verify_fields X statement_field_len snark (poseidon_statement_digest X height gsr proofs))"

definition verify_global_aggregation_verified_snark ::
    "'pf plonky_ext \<Rightarrow> bytes \<Rightarrow> u64 \<Rightarrow> hash256 \<Rightarrow> proof_submission list \<Rightarrow> verified_stwo_statement list \<Rightarrow> string + hash256" where
  "verify_global_aggregation_verified_snark X snark height gsr proofs verified =
     (if proofs = [] then Inl ''empty proof set''
      else if statements_mismatch proofs verified
      then Inl ''verified STWO statements do not match proof submissions''
      else verify_fields X verified_statement_field_len snark
             (poseidon_verified_statement_digest X height gsr proofs verified))"

section \<open>Aggregates and bundles\<close>

record global_zk_statement =
  gs_global_state_root :: hash256
  gs_global_zk_root :: hash256
  gs_validity_proofs :: "proof_submission list"
  gs_verified_stwo_statements :: "verified_stwo_statement list"

record aggregated_zk_proof =
  ag_global_zk_root :: hash256
  ag_snark_bytes :: bytes

datatype aggregator_error =
    UnsupportedVersion u8
  | RootMismatch
  | EmptyProofs
  | TooManyProofs
  | ProveFailed string
  | VerifyFailed string
  | VerifiedStatementMismatch
  | StwoArtifactInvalid string

definition prove_and_aggregate ::
    "'pf plonky_ext \<Rightarrow> u64 \<Rightarrow> hash256 \<Rightarrow> proof_submission list \<Rightarrow> aggregator_error + aggregated_zk_proof" where
  "prove_and_aggregate X height gsr proofs =
     (if proofs = [] then Inl EmptyProofs
      else if MAX_AGG_PROOFS < length proofs then Inl TooManyProofs
      else case prove_global_aggregation X height gsr proofs of
          Inl e \<Rightarrow> Inl (ProveFailed e)
        | Inr (root, snark) \<Rightarrow> Inr \<lparr>ag_global_zk_root = root, ag_snark_bytes = snark\<rparr>)"

definition ensure_verified_statements_match ::
    "proof_submission list \<Rightarrow> verified_stwo_statement list \<Rightarrow> aggregator_error + unit" where
  "ensure_verified_statements_match proofs verified =
     (if statements_mismatch proofs verified then Inl VerifiedStatementMismatch else Inr ())"

definition prove_and_aggregate_verified ::
    "'pf plonky_ext \<Rightarrow> u64 \<Rightarrow> hash256 \<Rightarrow> proof_submission list \<Rightarrow> verified_stwo_statement list \<Rightarrow>
     aggregator_error + aggregated_zk_proof" where
  "prove_and_aggregate_verified X height gsr proofs verified =
     (if proofs = [] then Inl EmptyProofs
      else if MAX_AGG_PROOFS < length proofs then Inl TooManyProofs
      else case ensure_verified_statements_match proofs verified of
          Inl e \<Rightarrow> Inl e
        | Inr _ \<Rightarrow>
            (case prove_global_aggregation_verified X height gsr proofs verified of
               Inl e \<Rightarrow> Inl (ProveFailed e)
             | Inr (root, snark) \<Rightarrow> Inr \<lparr>ag_global_zk_root = root, ag_snark_bytes = snark\<rparr>))"

definition aggregate_global_zk_root ::
    "'pf plonky_ext \<Rightarrow> u64 \<Rightarrow> hash256 \<Rightarrow> proof_submission list \<Rightarrow> aggregator_error + hash256" where
  "aggregate_global_zk_root X height gsr proofs =
     map_sum id ag_global_zk_root (prove_and_aggregate X height gsr proofs)"

text \<open>The comparison of a root with the expected one, from the proof bytes or from the digest alone.\<close>

definition check_root :: "(string + hash256) option \<Rightarrow> hash256 \<Rightarrow> hash256 \<Rightarrow> aggregator_error + unit" where
  "check_root snark_root got expected =
     (case snark_root of
        Some (Inl e) \<Rightarrow> Inl (VerifyFailed e)
      | Some (Inr root) \<Rightarrow> if root \<noteq> expected then Inl RootMismatch else Inr ()
      | None \<Rightarrow> if got \<noteq> expected then Inl RootMismatch else Inr ())"

definition verify_global_zk_root ::
    "'pf plonky_ext \<Rightarrow> u64 \<Rightarrow> hash256 \<Rightarrow> proof_submission list \<Rightarrow> hash256 \<Rightarrow> bytes option \<Rightarrow> aggregator_error + unit" where
  "verify_global_zk_root X height gsr proofs expected snark =
     (if proofs = [] then (if expected = 0 then Inr () else Inl RootMismatch)
      else check_root (map_option (\<lambda>b. verify_global_aggregation_snark X b height gsr proofs) snark)
             (hash_out_to_global_zk_root (poseidon_statement_digest X height gsr proofs)) expected)"

definition verify_global_zk_root_verified ::
    "'pf plonky_ext \<Rightarrow> u64 \<Rightarrow> hash256 \<Rightarrow> proof_submission list \<Rightarrow> verified_stwo_statement list \<Rightarrow> hash256 \<Rightarrow>
     bytes option \<Rightarrow> aggregator_error + unit" where
  "verify_global_zk_root_verified X height gsr proofs verified expected snark =
     (if proofs = [] then (if expected = 0 then Inr () else Inl RootMismatch)
      else case ensure_verified_statements_match proofs verified of
          Inl e \<Rightarrow> Inl e
        | Inr _ \<Rightarrow> check_root (map_option (\<lambda>b. verify_global_aggregation_verified_snark X b height gsr proofs verified) snark)
             (hash_out_to_global_zk_root (poseidon_verified_statement_digest X height gsr proofs verified)) expected)"

record plonky2_proof_bundle =
  pb_version :: u8
  pb_masterchain_height :: u64
  pb_statement :: global_zk_statement
  pb_snark_bytes :: bytes

definition bundle_from_aggregated :: "u64 \<Rightarrow> global_zk_statement \<Rightarrow> aggregated_zk_proof \<Rightarrow> plonky2_proof_bundle" where
  "bundle_from_aggregated height statement aggregated =
     \<lparr>pb_version = PLONKY2_AGGREGATOR_VERSION, pb_masterchain_height = height, pb_statement = statement,
      pb_snark_bytes = ag_snark_bytes aggregated\<rparr>"

definition bundle_verify :: "'pf plonky_ext \<Rightarrow> plonky2_proof_bundle \<Rightarrow> aggregator_error + unit" where
  "bundle_verify X b =
     (let st = pb_statement b
      in if pb_version b \<noteq> PLONKY2_AGGREGATOR_VERSION then Inl (UnsupportedVersion (pb_version b))
         else if gs_verified_stwo_statements st \<noteq> [] then
           verify_global_zk_root_verified X (pb_masterchain_height b) (gs_global_state_root st) (gs_validity_proofs st)
             (gs_verified_stwo_statements st) (gs_global_zk_root st) (Some (pb_snark_bytes b))
         else verify_global_zk_root X (pb_masterchain_height b) (gs_global_state_root st) (gs_validity_proofs st)
             (gs_global_zk_root st) (Some (pb_snark_bytes b)))"

section \<open>What a statement binds\<close>

lemma length_limbs [simp]: "length (hash256_to_u64_limbs h) = 4"
  by (simp add: hash256_to_u64_limbs_def)

lemma limbs_inject: "hash256_to_u64_limbs h = hash256_to_u64_limbs h' \<Longrightarrow> h = h'"
proof -
  assume eq: "hash256_to_u64_limbs h = hash256_to_u64_limbs h'"
  have "take 8 (drop (i * 8) (be_bytes 32 h)) = take 8 (drop (i * 8) (be_bytes 32 h'))" if "i < 4" for i
  proof (rule le_word_inject [where 'a = 64])
    show "(le_word (take 8 (drop (i * 8) (be_bytes 32 h))) :: u64) = le_word (take 8 (drop (i * 8) (be_bytes 32 h')))"
      using arg_cong [OF eq, of "\<lambda>xs. xs ! i"] that by (simp add: hash256_to_u64_limbs_def)
  qed (use that in simp_all)
  then have "take 8 (drop (k div 8 * 8) (be_bytes 32 h)) ! (k mod 8) = take 8 (drop (k div 8 * 8) (be_bytes 32 h')) ! (k mod 8)"
    if "k < 32" for k using that by simp
  then have "be_bytes 32 h = be_bytes 32 h'" by (intro nth_equalityI) simp_all
  then show ?thesis by (rule be_bytes_inject [rotated]) simp
qed

definition submission_key :: "proof_submission \<Rightarrow> (u32 \<times> u64 \<times> u64) \<times> hash256" where
  "submission_key p = (submission_range p, ps_proof_digest p)"

lemma submission_fields_inject: "submission_fields p = submission_fields p' \<Longrightarrow> submission_key p = submission_key p'"
proof -
  assume eq: "submission_fields p = submission_fields p'"
  then have "(ucast (ps_shard_id p) :: u64) = ucast (ps_shard_id p')" by (simp add: submission_fields_def)
  then have "unat (ucast (ps_shard_id p) :: u64) = unat (ucast (ps_shard_id p') :: u64)" by (rule arg_cong)
  then have "ps_shard_id p = ps_shard_id p'" by (simp add: unat_ucast_widen word_unat_eq_iff)
  then show ?thesis
    using eq limbs_inject by (auto simp: submission_fields_def submission_key_def submission_range_def)
qed

lemma length_submission_fields [simp]: "length (submission_fields p) = 7"
  by (simp add: submission_fields_def)

lemma length_concat_fields: "length (concat (map submission_fields ps)) = 7 * length ps"
  by (induction ps) simp_all

lemma length_fit [simp]: "length (fit_length n v) = n"
  by (simp add: fit_length_def)

lemma statement_lengths [simp]:
  "length (encode_statement_u64 ver height gsr ps) = statement_field_len"
  "length (encode_verified_statement_u64 ver height gsr ps vs) = verified_statement_field_len"
  by (simp_all add: encode_statement_u64_def encode_verified_statement_u64_def Let_def)

text \<open>
  Both statements have one frame: the tag, the version, the height, the state root, the number of
  entries, the entries of one width, and zeros up to sixteen entries.
\<close>

definition framed :: "u64 \<Rightarrow> u64 \<Rightarrow> hash256 \<Rightarrow> nat \<Rightarrow> u64 list list \<Rightarrow> u64 list" where
  "framed ver height gsr w es =
     [STATEMENT_TAG, ver, height] @ hash256_to_u64_limbs gsr @ [of_nat (length es)] @ concat es @
     replicate (w * (MAX_AGG_PROOFS - length es)) 0"

lemma length_verified_fields [simp]: "length (verified_fields q) = 26"
  by (simp add: verified_fields_def Let_def)

lemma length_concat_verified: "length (concat (map verified_fields qs)) = 26 * length qs"
  by (induction qs) simp_all

lemma statement_framed:
  assumes "length ps \<le> MAX_AGG_PROOFS"
  shows "encode_statement_u64 ver height gsr ps =
    framed (ucast ver) height gsr 7 (map submission_fields (sort_key submission_range ps))"
  using assms
  by (simp add: encode_statement_u64_def framed_def fit_length_def Let_def length_concat_fields statement_field_len_def
      MAX_AGG_PROOFS_def diff_mult_distrib2)

lemma verified_statement_framed:
  assumes "length (statement_pairs ps vs) \<le> MAX_AGG_PROOFS"
  shows "encode_verified_statement_u64 ver height gsr ps vs =
    framed (ucast ver) height gsr 26
      (map verified_fields (sort_key (\<lambda>q. submission_range (fst q)) (statement_pairs ps vs)))"
  using assms
  by (simp add: encode_verified_statement_u64_def framed_def fit_length_def Let_def length_concat_verified
      verified_statement_field_len_def MAX_AGG_PROOFS_def diff_mult_distrib2)

lemma fields_append [simp]: "u64s_to_fields (xs @ ys) = u64s_to_fields xs @ u64s_to_fields ys"
  and fields_Cons [simp]: "u64s_to_fields (x # xs) = x mod GOLDILOCKS_ORDER # u64s_to_fields xs"
  and fields_Nil [simp]: "u64s_to_fields [] = []"
  and length_fields [simp]: "length (u64s_to_fields xs) = length xs"
  by (simp_all add: u64s_to_fields_def)

lemma fields_concat: "u64s_to_fields (concat es) = concat (map u64s_to_fields es)"
  by (induction es) simp_all

lemma mod_order_small: "x < GOLDILOCKS_ORDER \<Longrightarrow> x mod GOLDILOCKS_ORDER = x"
  by (simp add: word_less_nat_alt word_unat_eq_iff unat_mod)

lemma fields_canonical: "(\<And>x. x \<in> set xs \<Longrightarrow> x < GOLDILOCKS_ORDER) \<Longrightarrow> u64s_to_fields xs = xs"
  by (simp add: u64s_to_fields_def map_idI mod_order_small)

lemma framed_fields_inject:
  assumes eq: "u64s_to_fields (framed ver height gsr w es) = u64s_to_fields (framed ver height' gsr' w es')"
    and width: "\<And>e. e \<in> set es \<union> set es' \<Longrightarrow> length e = w"
    and len: "length es \<le> MAX_AGG_PROOFS" "length es' \<le> MAX_AGG_PROOFS"
  shows "height mod GOLDILOCKS_ORDER = height' mod GOLDILOCKS_ORDER"
    and "u64s_to_fields (hash256_to_u64_limbs gsr) = u64s_to_fields (hash256_to_u64_limbs gsr')"
    and "map u64s_to_fields es = map u64s_to_fields es'"
proof -
  have front: "height mod GOLDILOCKS_ORDER = height' mod GOLDILOCKS_ORDER"
      "u64s_to_fields (hash256_to_u64_limbs gsr) = u64s_to_fields (hash256_to_u64_limbs gsr')"
    and count: "(of_nat (length es) :: u64) mod GOLDILOCKS_ORDER = of_nat (length es') mod GOLDILOCKS_ORDER"
    and rest: "u64s_to_fields (concat es) @ u64s_to_fields (replicate (w * (MAX_AGG_PROOFS - length es)) 0) =
      u64s_to_fields (concat es') @ u64s_to_fields (replicate (w * (MAX_AGG_PROOFS - length es')) 0)"
    using eq by (simp_all add: framed_def append_eq_append_conv)
  have small: "unat ((of_nat n :: u64) mod GOLDILOCKS_ORDER) = n" if "n \<le> MAX_AGG_PROOFS" for n
    using that by (simp add: MAX_AGG_PROOFS_def GOLDILOCKS_ORDER_def unat_mod unat_of_nat)
  have n: "length es = length es'" using arg_cong [OF count, of unat] small len by simp
  have "concat (map u64s_to_fields es) = concat (map u64s_to_fields es')"
    using rest n by (simp add: fields_concat)
  moreover have "\<forall>(x, y) \<in> set (zip (map u64s_to_fields es) (map u64s_to_fields es')). length x = length y"
    using width by (auto simp: set_zip)
  ultimately show "map u64s_to_fields es = map u64s_to_fields es'"
    using n by (intro concat_injective [of "map u64s_to_fields es" "map u64s_to_fields es'"]) simp_all
  show "height mod GOLDILOCKS_ORDER = height' mod GOLDILOCKS_ORDER" by (rule front(1))
  show "u64s_to_fields (hash256_to_u64_limbs gsr) = u64s_to_fields (hash256_to_u64_limbs gsr')" by (rule front(2))
qed

text \<open>Canonical values are the elements that they denote.\<close>

lemma map_fields_canonical:
  "(\<And>e x. e \<in> set es \<Longrightarrow> x \<in> set e \<Longrightarrow> x < GOLDILOCKS_ORDER) \<Longrightarrow> map u64s_to_fields es = es"
  by (auto intro!: map_idI fields_canonical)

lemma framed_canonical:
  assumes "\<And>x. x \<in> set (framed ver height gsr w es) \<Longrightarrow> x < GOLDILOCKS_ORDER"
  shows "height mod GOLDILOCKS_ORDER = height" "u64s_to_fields (hash256_to_u64_limbs gsr) = hash256_to_u64_limbs gsr"
    "map u64s_to_fields es = es"
  using assms by (auto simp: framed_def intro!: mod_order_small fields_canonical map_fields_canonical)

lemma canonical_parts:
  assumes "height mod GOLDILOCKS_ORDER = height' mod GOLDILOCKS_ORDER"
    and "u64s_to_fields (hash256_to_u64_limbs gsr) = u64s_to_fields (hash256_to_u64_limbs gsr')"
    and "map u64s_to_fields es = map u64s_to_fields es'"
    and "\<And>x. x \<in> set (framed ver height gsr w es) \<Longrightarrow> x < GOLDILOCKS_ORDER"
    and "\<And>x. x \<in> set (framed ver' height' gsr' w' es') \<Longrightarrow> x < GOLDILOCKS_ORDER"
  shows "height = height' \<and> gsr = gsr' \<and> es = es'"
  using assms(1-3) framed_canonical [of ver height gsr w es, OF assms(4)] framed_canonical [of ver' height' gsr' w' es', OF assms(5)]
  by (auto dest: limbs_inject)

text \<open>The submissions and the verified statements that the entries carry.\<close>

lemma map_eq_mset:
  assumes "map f xs = map f ys" and "\<And>x y. x \<in> set xs \<Longrightarrow> y \<in> set ys \<Longrightarrow> f x = f y \<Longrightarrow> g x = g y"
  shows "mset (map g xs) = mset (map g ys)"
proof -
  have "map g xs = map g ys"
    using assms by (induction xs arbitrary: ys) auto
  then show ?thesis by simp
qed

lemma statement_pairs_match: "q \<in> set (statement_pairs ps vs) \<Longrightarrow> matches_submission (snd q) (fst q)"
  by (induction ps) (auto simp: statement_pairs_def List.map_filter_simps find_Some_iff split: option.splits)

lemma statement_pairs_fst:
  assumes "\<not> statements_mismatch ps vs"
  shows "map fst (statement_pairs ps vs) = ps"
proof -
  have "list_all (\<lambda>p. list_ex (\<lambda>s. matches_submission s p) vs) ps"
    using assms by (auto simp: statements_mismatch_def list_ex_iff list_all_iff)
  then show ?thesis
    by (induction ps) (auto simp: statement_pairs_def List.map_filter_simps find_None_iff list_ex_iff split: option.split)
qed

lemma verified_fields_inject:
  assumes "verified_fields q = verified_fields q'" and "matches_submission (snd q) (fst q)" "matches_submission (snd q') (fst q')"
  shows "submission_key (fst q) = submission_key (fst q') \<and> snd q = snd q'"
proof -
  have "submission_fields (fst q) = submission_fields (fst q')"
    and rest: "vs_chain_id (snd q) = vs_chain_id (snd q')" "vs_height (snd q) = vs_height (snd q')"
      "vs_header_hash (snd q) = vs_header_hash (snd q')" "vs_parent_hash (snd q) = vs_parent_hash (snd q')"
      "vs_state_root (snd q) = vs_state_root (snd q')" "vs_tx_root (snd q) = vs_tx_root (snd q')"
      "vs_gas_used (snd q) = vs_gas_used (snd q')"
    using assms(1) by (auto simp: verified_fields_def Let_def append_eq_append_conv dest: limbs_inject)
  then have key: "submission_key (fst q) = submission_key (fst q')" by (intro submission_fields_inject)
  then have "snd q = snd q'"
    using rest assms(2,3)
    by (intro verified_stwo_statement.equality) (simp_all add: matches_submission_def submission_key_def submission_range_def)
  with key show ?thesis ..
qed

section \<open>What a root binds\<close>

lemma hash_out_inject:
  assumes "hash_out_to_global_zk_root e = hash_out_to_global_zk_root e'" and "length e = 4" "length e' = 4"
  shows "e = e'"
proof -
  let ?bytes = "\<lambda>e. concat (map (\<lambda>x. rev (be_bytes 8 x)) e)"
  have len: "length (?bytes v) = 8 * length v" for v :: "u64 list" by (induction v) simp_all
  have "rev (?bytes e) = rev (?bytes e')"
    by (rule le_word_inject [where 'a = 256]) (use assms len in \<open>simp_all add: hash_out_to_global_zk_root_def\<close>)
  then have "?bytes e = ?bytes e'" by simp
  moreover have "\<forall>(x, y) \<in> set (zip (map (\<lambda>x. rev (be_bytes 8 x)) e) (map (\<lambda>x. rev (be_bytes 8 x)) e')). length x = length y"
    by (auto simp: set_zip)
  ultimately have "map (\<lambda>x. rev (be_bytes 8 x)) e = map (\<lambda>x. rev (be_bytes 8 x)) e'"
    using assms(2,3)
    by (intro concat_injective [of "map (\<lambda>x. rev (be_bytes 8 x)) e" "map (\<lambda>x. rev (be_bytes 8 x)) e'"]) simp_all
  moreover have "inj (\<lambda>x :: u64. rev (be_bytes 8 x))" by (auto intro!: injI dest: be_bytes_inject [rotated])
  ultimately show ?thesis by (metis inj_map_eq_map)
qed

text \<open>
  The values that a bundle stands for, its entries (one for each submission, with its verified
  statement when the bundle has those), and when all its values are canonical.
\<close>

definition bundle_statement :: "plonky2_proof_bundle \<Rightarrow> u64 list" where
  "bundle_statement b =
     (let st = pb_statement b
      in if gs_verified_stwo_statements st = []
         then encode_statement_u64 PLONKY2_AGGREGATOR_VERSION (pb_masterchain_height b) (gs_global_state_root st)
                (gs_validity_proofs st)
         else encode_verified_statement_u64 PLONKY2_AGGREGATOR_VERSION (pb_masterchain_height b) (gs_global_state_root st)
                (gs_validity_proofs st) (gs_verified_stwo_statements st))"

definition entries_of :: "proof_submission list \<Rightarrow> verified_stwo_statement list \<Rightarrow> u64 list list" where
  "entries_of proofs verified =
     (if verified = [] then map submission_fields (sort_key submission_range proofs)
      else map verified_fields (sort_key (\<lambda>q. submission_range (fst q)) (statement_pairs proofs verified)))"

definition bundle_entries :: "plonky2_proof_bundle \<Rightarrow> u64 list list" where
  "bundle_entries b = entries_of (gs_validity_proofs (pb_statement b)) (gs_verified_stwo_statements (pb_statement b))"

definition canonical_bundle :: "plonky2_proof_bundle \<Rightarrow> bool" where
  "canonical_bundle b \<longleftrightarrow> list_all (\<lambda>x. x < GOLDILOCKS_ORDER) (bundle_statement b)"

lemma accepted_root:
  assumes "bundle_verify X b = Inr ()" and "gs_validity_proofs (pb_statement b) \<noteq> []"
  shows "gs_global_zk_root (pb_statement b) = hash_out_to_global_zk_root (px_hash_no_pad X (u64s_to_fields (bundle_statement b)))"
    and "gs_verified_stwo_statements (pb_statement b) \<noteq> [] \<Longrightarrow>
      \<not> statements_mismatch (gs_validity_proofs (pb_statement b)) (gs_verified_stwo_statements (pb_statement b))"
  using assms
  by (auto simp: bundle_verify_def verify_global_zk_root_def verify_global_zk_root_verified_def check_root_def
      verify_global_aggregation_snark_def verify_global_aggregation_verified_snark_def verify_fields_def
      ensure_verified_statements_match_def poseidon_statement_digest_def poseidon_verified_statement_digest_def
      bundle_statement_def Let_def split: if_splits sum.splits)

lemma bundle_framed:
  assumes "bundle_verify X b = Inr ()" and "gs_validity_proofs (pb_statement b) \<noteq> []"
    and "length (gs_validity_proofs (pb_statement b)) \<le> MAX_AGG_PROOFS"
  shows "bundle_statement b = framed 2 (pb_masterchain_height b) (gs_global_state_root (pb_statement b))
      (if gs_verified_stwo_statements (pb_statement b) = [] then 7 else 26) (bundle_entries b)"
    and "length (bundle_entries b) = length (gs_validity_proofs (pb_statement b))"
proof -
  let ?ps = "gs_validity_proofs (pb_statement b)" and ?vs = "gs_verified_stwo_statements (pb_statement b)"
  have pairs: "length (statement_pairs ?ps ?vs) = length ?ps" if "?vs \<noteq> []"
    using arg_cong [OF statement_pairs_fst [OF accepted_root(2) [OF assms(1,2) that]], of length] by simp
  then show "length (bundle_entries b) = length ?ps" by (simp add: bundle_entries_def entries_of_def)
  show "bundle_statement b = framed 2 (pb_masterchain_height b) (gs_global_state_root (pb_statement b))
      (if ?vs = [] then 7 else 26) (bundle_entries b)"
    using pairs assms(3) statement_framed [of ?ps] verified_statement_framed [of ?ps ?vs]
    by (simp add: bundle_statement_def bundle_entries_def entries_of_def Let_def PLONKY2_AGGREGATOR_VERSION_def)
qed

lemma entry_width: "e \<in> set (entries_of ps vs) \<Longrightarrow> length e = (if vs = [] then 7 else 26)"
  by (auto simp: entries_of_def)

lemma entries_bind:
  assumes eq: "entries_of ps vs = entries_of ps' vs'" and kind: "(vs = []) = (vs' = [])"
    and match: "vs \<noteq> [] \<Longrightarrow> \<not> statements_mismatch ps vs" "vs' \<noteq> [] \<Longrightarrow> \<not> statements_mismatch ps' vs'"
  shows "mset (map submission_key ps) = mset (map submission_key ps')
    \<and> mset (map snd (statement_pairs ps vs)) = mset (map snd (statement_pairs ps' vs'))"
proof (cases "vs = []")
  case True
  then have "mset (map submission_key (sort_key submission_range ps)) = mset (map submission_key (sort_key submission_range ps'))"
    using eq kind by (intro map_eq_mset [of submission_fields]) (auto simp: entries_of_def dest: submission_fields_inject)
  moreover have "statement_pairs qs [] = []" for qs by (induction qs) (simp_all add: statement_pairs_def List.map_filter_simps)
  ultimately show ?thesis using True kind by simp
next
  case False
  let ?q = "sort_key (\<lambda>q. submission_range (fst q)) (statement_pairs ps vs)"
  let ?q' = "sort_key (\<lambda>q. submission_range (fst q)) (statement_pairs ps' vs')"
  have fields: "map verified_fields ?q = map verified_fields ?q'" using eq kind False by (simp add: entries_of_def)
  have same: "submission_key (fst x) = submission_key (fst y) \<and> snd x = snd y"
    if "x \<in> set ?q" "y \<in> set ?q'" "verified_fields x = verified_fields y" for x y
    using that by (intro verified_fields_inject) (auto dest: statement_pairs_match)
  have "mset (map (\<lambda>x. submission_key (fst x)) ?q) = mset (map (\<lambda>x. submission_key (fst x)) ?q')"
    by (rule map_eq_mset [OF fields]) (use same in blast)
  moreover have "mset (map snd ?q) = mset (map snd ?q')"
    by (rule map_eq_mset [OF fields]) (use same in blast)
  ultimately have "mset (map submission_key (map fst (statement_pairs ps vs))) = mset (map submission_key (map fst (statement_pairs ps' vs')))"
    "mset (map snd (statement_pairs ps vs)) = mset (map snd (statement_pairs ps' vs'))"
    by (simp_all add: comp_def mset_map)
  then show ?thesis
    unfolding statement_pairs_fst [OF match(1) [OF False]] using statement_pairs_fst [OF match(2)] False kind by metis
qed

section \<open>Properties\<close>


text \<open>
  An aggregate verifies: the bundle made from an aggregate of submissions, with or without
  verified statements, passes its own verification, given that the codec of the prover reads back
  the proofs that it wrote.
\<close>

theorem aggregated_bundle_verifies:
  assumes codec: "\<And>n vals pf. px_prove X n vals = Inr pf \<Longrightarrow> px_from_bytes X n (px_to_bytes X pf) = Inr pf"
    and proved: "verified = [] \<and> prove_and_aggregate X height gsr proofs = Inr agg
      \<or> prove_and_aggregate_verified X height gsr proofs verified = Inr agg"
  shows "bundle_verify X (bundle_from_aggregated height
    \<lparr>gs_global_state_root = gsr, gs_global_zk_root = ag_global_zk_root agg, gs_validity_proofs = proofs,
     gs_verified_stwo_statements = verified\<rparr> agg) = Inr ()"
proof -
  have snark: "verify_fields X (length vals) snark (px_hash_no_pad X (u64s_to_fields vals)) = Inr root"
    if "prove_fields X vals = Inr (root, snark)" for vals root snark
    using that codec by (auto simp: prove_fields_def verify_fields_def Let_def split: sum.splits if_splits)
  from proved show ?thesis
  proof
    assume plain: "verified = [] \<and> prove_and_aggregate X height gsr proofs = Inr agg"
    then obtain ne: "proofs \<noteq> []"
      and "prove_fields X (encode_statement_u64 PLONKY2_AGGREGATOR_VERSION height gsr proofs)
        = Inr (ag_global_zk_root agg, ag_snark_bytes agg)"
      by (auto simp: prove_and_aggregate_def prove_global_aggregation_def split: if_splits sum.splits prod.splits)
    from snark [OF this(2)] ne plain show ?thesis
      by (simp add: bundle_verify_def bundle_from_aggregated_def verify_global_zk_root_def check_root_def
          verify_global_aggregation_snark_def poseidon_statement_digest_def)
  next
    assume full: "prove_and_aggregate_verified X height gsr proofs verified = Inr agg"
    then obtain ne: "proofs \<noteq> []" and match: "\<not> statements_mismatch proofs verified"
      and "prove_fields X (encode_verified_statement_u64 PLONKY2_AGGREGATOR_VERSION height gsr proofs verified)
        = Inr (ag_global_zk_root agg, ag_snark_bytes agg)"
      by (auto simp: prove_and_aggregate_verified_def prove_global_aggregation_verified_def
          ensure_verified_statements_match_def split: if_splits sum.splits prod.splits)
    moreover have "verified \<noteq> []" using ne match by (auto simp: statements_mismatch_def)
    ultimately show ?thesis using snark [OF \<open>prove_fields X _ = _\<close>]
      by (simp add: bundle_verify_def bundle_from_aggregated_def verify_global_zk_root_verified_def check_root_def
          verify_global_aggregation_verified_snark_def poseidon_verified_statement_digest_def
          ensure_verified_statements_match_def)
  qed
qed

text \<open>
  The verifier does not bound the number of submissions: a seventeenth one is counted, and its fields
  are cut off, so two lists that differ in the last submission only have one statement.
\<close>

lemma long_statement_drops_tail:
  assumes "length ps = MAX_AGG_PROOFS" and "sorted (map submission_range (ps @ [p]))" "sorted (map submission_range (ps @ [p']))"
  shows "encode_statement_u64 ver height gsr (ps @ [p]) = encode_statement_u64 ver height gsr (ps @ [p'])"
proof -
  have "take 112 (concat (map submission_fields (ps @ [q]))) = concat (map submission_fields ps)" for q
    using length_concat_fields [of ps] assms(1) by (simp add: MAX_AGG_PROOFS_def)
  then have "encode_statement_u64 ver height gsr (ps @ [q]) = [STATEMENT_TAG, ucast ver, height] @ hash256_to_u64_limbs gsr @
      [of_nat (Suc MAX_AGG_PROOFS)] @ concat (map submission_fields ps)"
    if "sorted (map submission_range (ps @ [q]))" for q
    using that assms(1)
    by (simp add: encode_statement_u64_def fit_length_def Let_def sort_key_id_if_sorted length_concat_fields statement_field_len_def
        MAX_AGG_PROOFS_def del: map_append)
  then show ?thesis using assms(2,3) by metis
qed

text \<open>
  The values of a statement are not canonical in general, the limbs of a hash being arbitrary:
  the state root whose first limb is the order of the field has the digest of the state root zero,
  whatever the hash.
\<close>

definition order_limb_root :: hash256 where
  "order_limb_root = push_bit 192 0x01000000FFFFFFFF"

lemma state_roots_collide:
  "poseidon_statement_digest X height order_limb_root ps = poseidon_statement_digest X height 0 ps"
proof -
  have limbs: "u64s_to_fields (hash256_to_u64_limbs order_limb_root) = u64s_to_fields (hash256_to_u64_limbs 0)"
    by code_simp
  have fit: "fit_length n (xs @ ys) = xs @ fit_length (n - length xs) ys" if "length xs \<le> n" for n xs ys
    using that by (auto simp: fit_length_def)
  have "u64s_to_fields (encode_statement_u64 ver height gsr ps) =
      u64s_to_fields [STATEMENT_TAG, ucast ver, height] @ u64s_to_fields (hash256_to_u64_limbs gsr) @
      u64s_to_fields (fit_length (1 + MAX_AGG_PROOFS * 7) (of_nat (length ps) # concat (map submission_fields
        (sort_key submission_range ps))))" for ver gsr
    using fit [of "[STATEMENT_TAG, ucast ver, height] @ hash256_to_u64_limbs gsr" statement_field_len
      "of_nat (length ps) # concat (map submission_fields (sort_key submission_range ps))"]
    by (simp add: encode_statement_u64_def statement_field_len_def Let_def)
  then show ?thesis by (simp add: poseidon_statement_digest_def limbs)
qed

section \<open>Concrete instance\<close>

text \<open>A toy prover whose hash keeps the first field element and whose proof is the bytes of that element.\<close>

definition sample_plonky :: "bytes plonky_ext" where
  "sample_plonky = \<lparr>px_hash_no_pad = (\<lambda>v. [hd v, 0, 0, 0]),
     px_prove = (\<lambda>n v. Inr (rev (be_bytes 8 (hd v)))), px_verify = (\<lambda>n pf. Inr ()),
     px_public_inputs = (\<lambda>pf. [le_word pf, 0, 0, 0]),
     px_to_bytes = (\<lambda>pf. pf), px_from_bytes = (\<lambda>n bs. Inr bs)\<rparr>"

definition sample_submission :: "u32 \<Rightarrow> proof_submission" where
  "sample_submission shard = \<lparr>ps_shard_id = shard, ps_start_block = 1, ps_end_block = 5, ps_prover = 9,
     ps_lag_seconds = 3, ps_proof_digest = 77\<rparr>"

definition sample_aggregate :: aggregated_zk_proof where
  "sample_aggregate = \<lparr>ag_global_zk_root = hash_out_to_global_zk_root [STATEMENT_TAG, 0, 0, 0],
     ag_snark_bytes = rev (be_bytes 8 STATEMENT_TAG)\<rparr>"

abbreviation sample_proofs :: "proof_submission list" where
  "sample_proofs \<equiv> [sample_submission 2, sample_submission 1]"

abbreviation sample_bundle :: "proof_submission list \<Rightarrow> plonky2_proof_bundle" where
  "sample_bundle ps \<equiv> bundle_from_aggregated 4 \<lparr>gs_global_state_root = 8, gs_global_zk_root = ag_global_zk_root sample_aggregate,
     gs_validity_proofs = ps, gs_verified_stwo_statements = []\<rparr> sample_aggregate"

lemma tag_canonical: "STATEMENT_TAG mod GOLDILOCKS_ORDER = STATEMENT_TAG"
  by (simp add: STATEMENT_TAG_def GOLDILOCKS_ORDER_def)

lemma sample_aggregates:
  assumes "ps \<noteq> []" "length ps \<le> MAX_AGG_PROOFS"
  shows "prove_and_aggregate sample_plonky height gsr ps = Inr sample_aggregate"
proof -
  have "le_word (rev (be_bytes 8 STATEMENT_TAG)) = STATEMENT_TAG" by code_simp
  moreover have "hd (u64s_to_fields (encode_statement_u64 PLONKY2_AGGREGATOR_VERSION height gsr ps)) = STATEMENT_TAG"
    using statement_framed [OF assms(2)] by (simp add: framed_def tag_canonical)
  ultimately show ?thesis
    using assms
    by (simp add: prove_and_aggregate_def prove_global_aggregation_def prove_fields_def sample_plonky_def sample_aggregate_def
        Let_def)
qed

lemma sample_codec_reads:
  "px_prove sample_plonky n vals = Inr pf \<Longrightarrow> px_from_bytes sample_plonky n (px_to_bytes sample_plonky pf) = Inr pf"
  by (simp add: sample_plonky_def)

theorem aggregated_bundle_verifies_witness: "bundle_verify sample_plonky (sample_bundle sample_proofs) = Inr ()"
  by (rule aggregated_bundle_verifies [OF sample_codec_reads])
    (simp_all add: sample_aggregates MAX_AGG_PROOFS_def)

lemma sample_bundle_accepted:
  assumes "ps \<noteq> []" "length ps \<le> MAX_AGG_PROOFS"
  shows "bundle_verify sample_plonky (sample_bundle ps) = Inr ()"
proof -
  have "le_word (rev (be_bytes 8 STATEMENT_TAG)) = STATEMENT_TAG" by code_simp
  moreover have "hd (u64s_to_fields (encode_statement_u64 PLONKY2_AGGREGATOR_VERSION 4 8 ps)) = STATEMENT_TAG"
    using statement_framed [OF assms(2)] by (simp add: framed_def tag_canonical)
  ultimately show ?thesis
    using assms
    by (simp add: bundle_verify_def bundle_from_aggregated_def verify_global_zk_root_def verify_global_aggregation_snark_def
        verify_fields_def check_root_def poseidon_statement_digest_def sample_plonky_def sample_aggregate_def)
qed

lemma sample_order: "sort_key submission_range sample_proofs = rev sample_proofs"
  "sort_key submission_range (rev sample_proofs) = rev sample_proofs"
  by (simp_all add: sample_submission_def submission_range_def word_le_nat_alt)


end
