(* ===== verification/Masterchain.thy ===== *)
theory Masterchain
  imports Forced_Inclusion Proof_Aggregation BTree_Map Sample_Instances
begin

text \<open>
  The masterchain ledger, \<open>crates/masterchain/src/ledger.rs\<close>: shard anchors, validity-proof
  submissions with the prover market, slashing and rewards, its own copy of the zone operations, and
  the sealing of a masterchain block.  Maps that the code iterates are ordered association lists,
  maps that it only looks up are maps.  The structs of zones, messages, requests and events are
  field for field those of the shard crate, so their records are shared; the proof-final update of
  this crate is a shorter struct of its own.
\<close>

section \<open>Types\<close>

record mc_zone_update =
  mu_zone_id :: zone_id
  mu_zone_block_height :: u64
  mu_state_root :: hash256
  mu_message_root :: hash256
  mu_forced_inclusion_root :: hash256
  mu_required_forced_inclusion_root :: hash256
  mu_proof_digest :: hash256
  mu_prover :: address

record proof_slashing_policy =
  sp_enabled :: bool
  sp_require_verified_stwo :: bool
  sp_slash_amount_wei :: u128

definition default_slashing_policy :: proof_slashing_policy where
  "default_slashing_policy = \<lparr>sp_enabled = False, sp_require_verified_stwo = False, sp_slash_amount_wei = 0\<rparr>"

record invalid_proof_slash_event =
  ie_version :: u8
  ie_masterchain_height :: u64
  ie_prover :: address
  ie_shard_id :: u32
  ie_start_block :: u64
  ie_end_block :: u64
  ie_proof_digest :: hash256
  ie_reason_code :: u8
  ie_evidence_hash :: hash256
  ie_slash_amount_wei :: u128
  ie_executed :: bool
  ie_burned_bond_wei :: u128
  ie_bond_before_wei :: u128
  ie_bond_after_wei :: u128
  ie_prover_active_after :: bool

definition INVALID_PROOF_EMPTY_DIGEST :: u8 where "INVALID_PROOF_EMPTY_DIGEST = 1"
definition INVALID_PROOF_BAD_RANGE :: u8 where "INVALID_PROOF_BAD_RANGE = 2"
definition INVALID_PROOF_UNKNOWN_SHARD :: u8 where "INVALID_PROOF_UNKNOWN_SHARD = 3"
definition INVALID_PROOF_RANGE_EXCEEDS_ANCHOR :: u8 where "INVALID_PROOF_RANGE_EXCEEDS_ANCHOR = 4"
definition INVALID_PROOF_DUPLICATE :: u8 where "INVALID_PROOF_DUPLICATE = 5"
definition INVALID_PROOF_MISSING_VERIFIED_STWO :: u8 where "INVALID_PROOF_MISSING_VERIFIED_STWO = 6"
definition INVALID_PROOF_AGGREGATOR_REJECTED :: u8 where "INVALID_PROOF_AGGREGATOR_REJECTED = 7"

record prover_market_params =
  pm_version :: u8
  pm_enabled :: bool
  pm_require_registered_identity :: bool
  pm_min_identity_bond_wei :: u128
  pm_max_pending_submissions_per_prover :: u32
  pm_max_range_blocks :: u64

definition market_disabled :: prover_market_params where
  "market_disabled = \<lparr>pm_version = 1, pm_enabled = False, pm_require_registered_identity = False,
     pm_min_identity_bond_wei = 0, pm_max_pending_submissions_per_prover = - 1, pm_max_range_blocks = - 1\<rparr>"

definition market_devnet :: "u128 \<Rightarrow> prover_market_params" where
  "market_devnet bond = \<lparr>pm_version = 1, pm_enabled = True, pm_require_registered_identity = True,
     pm_min_identity_bond_wei = bond, pm_max_pending_submissions_per_prover = 8, pm_max_range_blocks = 10000\<rparr>"

record prover_identity_rec =
  id_version :: u8
  id_prover :: address
  id_bond_wei :: u128
  id_registered_at_masterchain_height :: u64
  id_active :: bool

record prover_economics_params =
  pe_params_version :: u8
  pe_enabled :: bool
  pe_treasury :: address
  pe_base_reward_per_block_wei :: u128
  pe_lag_half_life_seconds :: u32

definition prover_economics_disabled :: prover_economics_params where
  "prover_economics_disabled = \<lparr>pe_params_version = 1, pe_enabled = False, pe_treasury = 0,
     pe_base_reward_per_block_wei = 0, pe_lag_half_life_seconds = 1\<rparr>"

definition prover_economics_devnet :: "address \<Rightarrow> prover_economics_params" where
  "prover_economics_devnet treasury = \<lparr>pe_params_version = 1, pe_enabled = True, pe_treasury = treasury,
     pe_base_reward_per_block_wei = 1000000000000, pe_lag_half_life_seconds = 60\<rparr>"

record prover_reward_event =
  re_version :: u8
  re_masterchain_height :: u64
  re_prover :: address
  re_shard_id :: u32
  re_start_block :: u64
  re_end_block :: u64
  re_lag_seconds :: u32
  re_covered_blocks :: u64
  re_reward_wei :: u128
  re_treasury :: address
  re_treasury_balance_after_wei :: u128

record masterchain_ledger =
  mc_height :: u64
  mc_blocks :: "masterchain_block list"
  mc_latest_anchors :: "(u32, shard_anchor) btree"
  mc_pending_validity_proofs :: "proof_submission list"
  mc_pending_cross_shard_messages :: "cross_shard_message list"
  mc_pending_stwo_by_height :: "(u64, hash256) btree"
  mc_pending_stwo_ranges :: "(u64 \<times> u64, hash256) btree"
  mc_pending_verified_stwo_statements :: "u32 \<times> u64 \<times> u64 \<times> hash256 \<rightharpoonup> verified_stwo_statement"
  mc_last_plonky2_bundle :: "plonky2_proof_bundle option"
  mc_proof_slashing_policy :: proof_slashing_policy
  mc_invalid_proof_slash_events :: "invalid_proof_slash_event list"
  mc_prover_market :: prover_market_params
  mc_prover_identities :: "address \<rightharpoonup> prover_identity_rec"
  mc_prover_economics :: prover_economics_params
  mc_prover_reward_credits_wei :: "address \<rightharpoonup> u128"
  mc_prover_reward_events :: "prover_reward_event list"
  mc_treasury_balance_wei :: u128
  mc_execution_zones :: "zone_id \<rightharpoonup> execution_zone_record"
  mc_pending_cross_zone_messages :: "async_cross_zone_message list"
  mc_pending_forced_inclusions :: "forced_inclusion_request list"
  mc_forced_inclusion_events :: "forced_inclusion_event list"
  mc_proven_forced_inclusion_request_ids :: "hash256 set"
  mc_pending_anchor_updates :: bool

datatype masterchain_error =
    McSubmission submission_error
  | McAggregator aggregator_error
  | McStaleAnchor u32 u64 u64
  | McNothingToSeal
  | McMissingVerifiedStwo u32 u64 u64
  | McProverAlreadyRegistered
  | McProverIdentityRequired
  | McProverBondTooLow u128 u128
  | McProverPendingLimit
  | McProofRangeTooLarge u64 u64
  | McZoneAlreadyExists
  | McUnknownZone zone_id
  | McStaleZoneUpdate u64 u64
  | McEmptyZoneProofDigest
  | McInvalidForcedInclusionTimeout
  | McForcedInclusionAlreadyExists
  | McForcedInclusionRootMismatch

type_synonym 'a mc_exec = "(masterchain_ledger, masterchain_error, 'a) exec"

definition MAX_BLOCKS :: nat where "MAX_BLOCKS = 256"

definition default_ledger :: masterchain_ledger where
  "default_ledger = \<lparr>mc_height = 0, mc_blocks = [], mc_latest_anchors = [], mc_pending_validity_proofs = [],
     mc_pending_cross_shard_messages = [], mc_pending_stwo_by_height = [], mc_pending_stwo_ranges = [],
     mc_pending_verified_stwo_statements = Map.empty, mc_last_plonky2_bundle = None,
     mc_proof_slashing_policy = default_slashing_policy, mc_invalid_proof_slash_events = [],
     mc_prover_market = market_disabled, mc_prover_identities = Map.empty,
     mc_prover_economics = prover_economics_disabled, mc_prover_reward_credits_wei = Map.empty,
     mc_prover_reward_events = [], mc_treasury_balance_wei = 0, mc_execution_zones = Map.empty,
     mc_pending_cross_zone_messages = [], mc_pending_forced_inclusions = [], mc_forced_inclusion_events = [],
     mc_proven_forced_inclusion_request_ids = {}, mc_pending_anchor_updates = False\<rparr>"

text \<open>The external code: encoders and hash of the zones, the prover, and the encoder of slashing evidence.\<close>

record 'pf mc_ext =
  mx_zone :: zone_ext
  mx_plonky :: "'pf plonky_ext"
  mx_borsh_evidence :: "bytes \<times> u64 \<times> proof_submission \<times> u8 \<times> u128 \<Rightarrow> bytes"

abbreviation mx_keccak256 :: "'pf mc_ext \<Rightarrow> bytes \<Rightarrow> hash256" where
  "mx_keccak256 M \<equiv> zx_keccak256 (mx_zone M)"

section \<open>Parameters, provers and treasury\<close>

definition set_proof_slashing_policy :: "masterchain_ledger \<Rightarrow> proof_slashing_policy \<Rightarrow> masterchain_ledger" where
  "set_proof_slashing_policy L policy = L\<lparr>mc_proof_slashing_policy := policy\<rparr>"

definition set_prover_market :: "masterchain_ledger \<Rightarrow> prover_market_params \<Rightarrow> masterchain_ledger" where
  "set_prover_market L params = L\<lparr>mc_prover_market := params\<rparr>"

definition register_prover_identity :: "masterchain_ledger \<Rightarrow> address \<Rightarrow> u128 \<Rightarrow> prover_identity_rec mc_exec" where
  "register_prover_identity L prover bond =
     (if mc_prover_identities L prover \<noteq> None then (L, Inl McProverAlreadyRegistered)
      else if bond < pm_min_identity_bond_wei (mc_prover_market L)
      then (L, Inl (McProverBondTooLow bond (pm_min_identity_bond_wei (mc_prover_market L))))
      else let i = \<lparr>id_version = 1, id_prover = prover, id_bond_wei = bond,
                 id_registered_at_masterchain_height = mc_height L, id_active = True\<rparr>
           in (L\<lparr>mc_prover_identities := (mc_prover_identities L)(prover \<mapsto> i)\<rparr>, Inr i))"

definition top_up_prover_bond :: "masterchain_ledger \<Rightarrow> address \<Rightarrow> u128 \<Rightarrow> prover_identity_rec mc_exec" where
  "top_up_prover_bond L prover amount =
     (case mc_prover_identities L prover of
        None \<Rightarrow> (L, Inl McProverIdentityRequired)
      | Some i \<Rightarrow> let i' = i\<lparr>id_bond_wei := sat_add (id_bond_wei i) amount\<rparr>
                  in (L\<lparr>mc_prover_identities := (mc_prover_identities L)(prover \<mapsto> i')\<rparr>, Inr i'))"

definition set_prover_economics :: "masterchain_ledger \<Rightarrow> prover_economics_params \<Rightarrow> masterchain_ledger" where
  "set_prover_economics L params = L\<lparr>mc_prover_economics := params\<rparr>"

definition fund_prover_treasury :: "masterchain_ledger \<Rightarrow> u128 \<Rightarrow> masterchain_ledger" where
  "fund_prover_treasury L amount = L\<lparr>mc_treasury_balance_wei := sat_add (mc_treasury_balance_wei L) amount\<rparr>"

definition prover_reward_credit :: "masterchain_ledger \<Rightarrow> address \<Rightarrow> u128" where
  "prover_reward_credit L prover = unwrap_or (mc_prover_reward_credits_wei L prover) 0"

section \<open>Slashing\<close>

record slash_execution_outcome =
  so_executed :: bool
  so_burned_bond_wei :: u128
  so_bond_before_wei :: u128
  so_bond_after_wei :: u128
  so_prover_active_after :: bool

fun submission_reason_code :: "submission_error \<Rightarrow> u8" where
  "submission_reason_code EmptyDigest = INVALID_PROOF_EMPTY_DIGEST"
| "submission_reason_code InvalidRange = INVALID_PROOF_BAD_RANGE"
| "submission_reason_code (UnknownShard _) = INVALID_PROOF_UNKNOWN_SHARD"
| "submission_reason_code (RangeExceedsAnchor _ _ _) = INVALID_PROOF_RANGE_EXCEEDS_ANCHOR"
| "submission_reason_code (Duplicate _ _ _) = INVALID_PROOF_DUPLICATE"

definition invalid_proof_evidence_hash :: "'pf mc_ext \<Rightarrow> u64 \<Rightarrow> proof_submission \<Rightarrow> u8 \<Rightarrow> u128 \<Rightarrow> hash256" where
  "invalid_proof_evidence_hash M height p reason amount =
     mx_keccak256 M (mx_borsh_evidence M (ascii ''FRAC_BAD_PROOF__'', height, p, reason, amount))"

definition execute_invalid_proof_slash ::
    "masterchain_ledger \<Rightarrow> address \<Rightarrow> masterchain_ledger \<times> slash_execution_outcome" where
  "execute_invalid_proof_slash L prover =
     (case mc_prover_identities L prover of
        None \<Rightarrow> (L, \<lparr>so_executed = False, so_burned_bond_wei = 0, so_bond_before_wei = 0, so_bond_after_wei = 0,
                     so_prover_active_after = False\<rparr>)
      | Some i \<Rightarrow>
          if \<not> id_active i
          then (L, \<lparr>so_executed = False, so_burned_bond_wei = 0, so_bond_before_wei = id_bond_wei i,
                    so_bond_after_wei = id_bond_wei i, so_prover_active_after = False\<rparr>)
          else let before = id_bond_wei i;
                   burned = min before (sp_slash_amount_wei (mc_proof_slashing_policy L));
                   after = sat_sub before burned;
                   active = (if after < pm_min_identity_bond_wei (mc_prover_market L) then False else id_active i)
               in (L\<lparr>mc_prover_identities := (mc_prover_identities L)
                       (prover \<mapsto> i\<lparr>id_bond_wei := after, id_active := active\<rparr>)\<rparr>,
                   \<lparr>so_executed = True, so_burned_bond_wei = burned, so_bond_before_wei = before,
                    so_bond_after_wei = after, so_prover_active_after = active\<rparr>))"

definition record_invalid_submission ::
    "'pf mc_ext \<Rightarrow> masterchain_ledger \<Rightarrow> proof_submission \<Rightarrow> u8 \<Rightarrow> masterchain_ledger" where
  "record_invalid_submission M L p reason =
     (if \<not> sp_enabled (mc_proof_slashing_policy L) then L
      else let amount = sp_slash_amount_wei (mc_proof_slashing_policy L);
               evidence = invalid_proof_evidence_hash M (mc_height L) p reason amount
      in if evidence \<in> ie_evidence_hash ` set (mc_invalid_proof_slash_events L) then L
         else let (L', out) = execute_invalid_proof_slash L (ps_prover p)
              in L'\<lparr>mc_invalid_proof_slash_events := mc_invalid_proof_slash_events L' @
                   [\<lparr>ie_version = 1, ie_masterchain_height = mc_height L', ie_prover = ps_prover p,
                     ie_shard_id = ps_shard_id p, ie_start_block = ps_start_block p, ie_end_block = ps_end_block p,
                     ie_proof_digest = ps_proof_digest p, ie_reason_code = reason, ie_evidence_hash = evidence,
                     ie_slash_amount_wei = amount, ie_executed = so_executed out,
                     ie_burned_bond_wei = so_burned_bond_wei out, ie_bond_before_wei = so_bond_before_wei out,
                     ie_bond_after_wei = so_bond_after_wei out,
                     ie_prover_active_after = so_prover_active_after out\<rparr>]\<rparr>)"

section \<open>Submissions\<close>

definition proof_range_len :: "proof_submission \<Rightarrow> u64" where
  "proof_range_len p = sat_add (sat_sub (ps_end_block p) (ps_start_block p)) 1"

definition validate_prover_market_submission :: "masterchain_ledger \<Rightarrow> proof_submission \<Rightarrow> masterchain_error + unit" where
  "validate_prover_market_submission L p =
     (let market = mc_prover_market L;
          range = proof_range_len p;
          identity_check =
            (if pm_require_registered_identity market then
               (case mc_prover_identities L (ps_prover p) of
                  None \<Rightarrow> Inl McProverIdentityRequired
                | Some i \<Rightarrow>
                    if \<not> id_active i then Inl McProverIdentityRequired
                    else if id_bond_wei i < pm_min_identity_bond_wei market
                    then Inl (McProverBondTooLow (id_bond_wei i) (pm_min_identity_bond_wei market))
                    else Inr ())
             else Inr ());
          pending = of_nat (length (filter (\<lambda>q. ps_prover q = ps_prover p) (mc_pending_validity_proofs L))) :: u32
      in if \<not> pm_enabled market then Inr ()
         else if pm_max_range_blocks market < range then Inl (McProofRangeTooLarge range (pm_max_range_blocks market))
         else case identity_check of
             Inl e \<Rightarrow> Inl e
           | Inr _ \<Rightarrow>
               if pm_max_pending_submissions_per_prover market \<noteq> - 1
                  \<and> pm_max_pending_submissions_per_prover market \<le> pending
               then Inl McProverPendingLimit
               else Inr ())"

definition submit_validity_proof :: "'pf mc_ext \<Rightarrow> masterchain_ledger \<Rightarrow> proof_submission \<Rightarrow> unit mc_exec" where
  "submit_validity_proof M L p =
     (case validate_prover_market_submission L p of
        Inl e \<Rightarrow> (L, Inl e)
      | Inr _ \<Rightarrow>
          let anchors = bt_values (mc_latest_anchors L);
              check = (if anchors = [] then
                         (if ps_proof_digest p = 0 then Inl EmptyDigest
                          else if ps_end_block p < ps_start_block p then Inl InvalidRange
                          else Inr ())
                       else validate_proof_submission p anchors)
          in case check of
               Inl err \<Rightarrow> (record_invalid_submission M L p (submission_reason_code err), Inl (McSubmission err))
             | Inr _ \<Rightarrow> (L\<lparr>mc_pending_validity_proofs := mc_pending_validity_proofs L @ [p]\<rparr>, Inr ()))"

definition record_stwo_digest_range :: "masterchain_ledger \<Rightarrow> u64 \<Rightarrow> u64 \<Rightarrow> hash256 \<Rightarrow> unit mc_exec" where
  "record_stwo_digest_range L start_block end_block digest =
     (if digest = 0 then (L, Inl (McSubmission EmptyDigest))
      else if end_block < start_block then (L, Inl (McSubmission InvalidRange))
      else if start_block = end_block
      then (L\<lparr>mc_pending_stwo_by_height := bt_insert end_block digest (mc_pending_stwo_by_height L)\<rparr>, Inr ())
      else (L\<lparr>mc_pending_stwo_ranges := bt_insert (start_block, end_block) digest (mc_pending_stwo_ranges L)\<rparr>, Inr ()))"

definition record_stwo_digest :: "masterchain_ledger \<Rightarrow> u64 \<Rightarrow> hash256 \<Rightarrow> unit mc_exec" where
  "record_stwo_digest L height digest = record_stwo_digest_range L height height digest"

definition record_verified_stwo_statement :: "masterchain_ledger \<Rightarrow> verified_stwo_statement \<Rightarrow> unit mc_exec" where
  "record_verified_stwo_statement L st =
     and_then (record_stwo_digest_range L (vs_start_block st) (vs_end_block st) (vs_proof_digest st)) (\<lambda>L' _.
       (L'\<lparr>mc_pending_verified_stwo_statements := (mc_pending_verified_stwo_statements L')
            ((vs_shard_id st, vs_start_block st, vs_end_block st, vs_proof_digest st) \<mapsto> st)\<rparr>, Inr ()))"

definition submit_cross_shard_message :: "masterchain_ledger \<Rightarrow> cross_shard_message \<Rightarrow> masterchain_ledger" where
  "submit_cross_shard_message L m =
     L\<lparr>mc_pending_cross_shard_messages := mc_pending_cross_shard_messages L @ [m], mc_pending_anchor_updates := True\<rparr>"

section \<open>Zones\<close>

definition create_execution_zone ::
    "masterchain_ledger \<Rightarrow> zone_id \<Rightarrow> address \<Rightarrow> execution_zone_metadata \<Rightarrow> execution_zone_record mc_exec" where
  "create_execution_zone L zone creator metadata =
     (if zm_forced_inclusion_timeout_masterchain_blocks metadata = 0 then (L, Inl McInvalidForcedInclusionTimeout)
      else if mc_execution_zones L zone \<noteq> None then (L, Inl McZoneAlreadyExists)
      else let rec = \<lparr>zr_version = 1, zr_zone_id = zone, zr_creator = creator, zr_metadata = metadata,
                 zr_created_at_masterchain_height = mc_height L, zr_latest_proof_final_height = 0,
                 zr_latest_state_root = 0, zr_latest_message_root = 0\<rparr>
           in (L\<lparr>mc_execution_zones := (mc_execution_zones L)(zone \<mapsto> rec), mc_pending_anchor_updates := True\<rparr>, Inr rec))"

definition mc_unresolved_for_zone :: "masterchain_ledger \<Rightarrow> zone_id \<Rightarrow> forced_inclusion_request list" where
  "mc_unresolved_for_zone L zone =
     unresolved_requests zone (mc_forced_inclusion_events L) (mc_proven_forced_inclusion_request_ids L)"

definition mc_forced_inclusion_queue_root :: "'pf mc_ext \<Rightarrow> forced_inclusion_request list \<Rightarrow> hash256" where
  "mc_forced_inclusion_queue_root M requests =
     (let ordered = sort_key (\<lambda>r. (fi_zone_id r, fi_deadline_masterchain_height r, fi_submitted_at_masterchain_height r,
            fi_request_id r)) requests;
          leaves = map (\<lambda>r. mx_keccak256 M (zx_borsh_forced_leaf (mx_zone M) (ascii ''FRAC_FORCE_LEAF_'', r))) ordered
      in merkle_root (mx_keccak256 M) leaves)"

definition mc_required_root_for_zone :: "'pf mc_ext \<Rightarrow> masterchain_ledger \<Rightarrow> zone_id \<Rightarrow> hash256" where
  "mc_required_root_for_zone M L zone = mc_forced_inclusion_queue_root M (mc_unresolved_for_zone L zone)"

definition mc_forced_inclusion_request_id :: "'pf mc_ext \<Rightarrow> zone_id \<Rightarrow> address \<Rightarrow> hash256 \<Rightarrow> u64 \<Rightarrow> hash256" where
  "mc_forced_inclusion_request_id M zone requester txh height =
     mx_keccak256 M (zx_borsh_request_id (mx_zone M) (ascii ''FRAC_FORCE_INC__'', zone, requester, txh, height))"

definition submit_zone_proof_final_update ::
    "'pf mc_ext \<Rightarrow> masterchain_ledger \<Rightarrow> mc_zone_update \<Rightarrow> execution_zone_record mc_exec" where
  "submit_zone_proof_final_update M L u =
     (if mu_proof_digest u = 0 then (L, Inl McEmptyZoneProofDigest)
      else let required = mc_unresolved_for_zone L (mu_zone_id u);
               root = mc_forced_inclusion_queue_root M required
      in if mu_required_forced_inclusion_root u \<noteq> root
            \<or> mu_forced_inclusion_root u \<noteq> mu_required_forced_inclusion_root u
         then (L, Inl McForcedInclusionRootMismatch)
         else case mc_execution_zones L (mu_zone_id u) of
             None \<Rightarrow> (L, Inl (McUnknownZone (mu_zone_id u)))
           | Some zone \<Rightarrow>
               if mu_zone_block_height u \<le> zr_latest_proof_final_height zone
               then (L, Inl (McStaleZoneUpdate (mu_zone_block_height u) (zr_latest_proof_final_height zone)))
               else let updated = zone\<lparr>zr_latest_proof_final_height := mu_zone_block_height u,
                          zr_latest_state_root := mu_state_root u, zr_latest_message_root := mu_message_root u\<rparr>
                    in (L\<lparr>mc_execution_zones := (mc_execution_zones L)(mu_zone_id u \<mapsto> updated),
                          mc_proven_forced_inclusion_request_ids :=
                            foldl (\<lambda>ids r. insert (fi_request_id r) ids)
                              (mc_proven_forced_inclusion_request_ids L) required,
                          mc_pending_anchor_updates := True\<rparr>, Inr updated))"

definition mc_submit_cross_zone_message :: "masterchain_ledger \<Rightarrow> async_cross_zone_message \<Rightarrow> unit mc_exec" where
  "mc_submit_cross_zone_message L m =
     (if mc_execution_zones L (am_from_zone m) = None then (L, Inl (McUnknownZone (am_from_zone m)))
      else if mc_execution_zones L (am_to_zone m) = None then (L, Inl (McUnknownZone (am_to_zone m)))
      else (L\<lparr>mc_pending_cross_zone_messages := mc_pending_cross_zone_messages L @ [m],
              mc_pending_anchor_updates := True\<rparr>, Inr ()))"

definition mc_message_key :: "async_cross_zone_message \<Rightarrow> zone_id \<times> zone_id \<times> u64 \<times> hash256 \<times> bytes" where
  "mc_message_key m = (am_from_zone m, am_to_zone m, am_nonce m, am_payload_hash m, am_payload m)"

definition mc_drain_cross_zone_messages_for ::
    "masterchain_ledger \<Rightarrow> zone_id \<Rightarrow> async_cross_zone_message list mc_exec" where
  "mc_drain_cross_zone_messages_for L to =
     (if mc_execution_zones L to = None then (L, Inl (McUnknownZone to))
      else let queue = dedup (sort_key mc_message_key (mc_pending_cross_zone_messages L))
           in (L\<lparr>mc_pending_cross_zone_messages := filter (\<lambda>m. am_to_zone m \<noteq> to) queue\<rparr>,
               Inr (filter (\<lambda>m. am_to_zone m = to) queue)))"

definition mc_submit_forced_inclusion ::
    "'pf mc_ext \<Rightarrow> masterchain_ledger \<Rightarrow> zone_id \<Rightarrow> address \<Rightarrow> hash256 \<Rightarrow> bytes \<Rightarrow> forced_inclusion_request mc_exec" where
  "mc_submit_forced_inclusion M L zone requester txh payload =
     (case mc_execution_zones L zone of
        None \<Rightarrow> (L, Inl (McUnknownZone zone))
      | Some z \<Rightarrow>
          let rid = mc_forced_inclusion_request_id M zone requester txh (mc_height L)
          in if rid \<in> set (queued_ids (mc_pending_forced_inclusions L) (mc_forced_inclusion_events L))
             then (L, Inl McForcedInclusionAlreadyExists)
             else let r = \<lparr>fi_zone_id = zone, fi_requester = requester, fi_request_id = rid, fi_tx_hash = txh,
                        fi_payload = payload, fi_submitted_at_masterchain_height = mc_height L,
                        fi_deadline_masterchain_height = sat_add (mc_height L)
                          (zm_forced_inclusion_timeout_masterchain_blocks (zr_metadata z))\<rparr>
                  in (L\<lparr>mc_pending_forced_inclusions := mc_pending_forced_inclusions L @ [r],
                        mc_pending_anchor_updates := True\<rparr>, Inr r))"

section \<open>Sealing\<close>

text \<open>
  One digest of \<open>flush_stwo_digests_for_anchor\<close>: it leaves its pending map and becomes a submission
  unless the range is pending for the shard.
\<close>

definition push_unless_pending :: "masterchain_ledger \<Rightarrow> proof_submission \<Rightarrow> masterchain_ledger" where
  "push_unless_pending L p =
     (if submission_range p \<in> set (map submission_range (mc_pending_validity_proofs L)) then L
      else L\<lparr>mc_pending_validity_proofs := mc_pending_validity_proofs L @ [p]\<rparr>)"

definition flush_height :: "u32 \<Rightarrow> address \<Rightarrow> masterchain_ledger \<Rightarrow> u64 \<Rightarrow> masterchain_ledger" where
  "flush_height shard prover L h =
     (case bt_get (mc_pending_stwo_by_height L) h of
        None \<Rightarrow> L
      | Some digest \<Rightarrow>
          push_unless_pending (L\<lparr>mc_pending_stwo_by_height := bt_remove h (mc_pending_stwo_by_height L)\<rparr>)
            (proof_submission_from_checkpoint_digest shard h h prover digest 0))"

definition flush_range :: "u32 \<Rightarrow> address \<Rightarrow> masterchain_ledger \<Rightarrow> u64 \<times> u64 \<Rightarrow> masterchain_ledger" where
  "flush_range shard prover L rg =
     (case bt_get (mc_pending_stwo_ranges L) rg of
        None \<Rightarrow> L
      | Some digest \<Rightarrow>
          push_unless_pending (L\<lparr>mc_pending_stwo_ranges := bt_remove rg (mc_pending_stwo_ranges L)\<rparr>)
            (proof_submission_from_checkpoint_digest shard (fst rg) (snd rg) prover digest 0))"

definition flush_stwo_digests_for_anchor ::
    "masterchain_ledger \<Rightarrow> u32 \<Rightarrow> u64 \<Rightarrow> address \<Rightarrow> masterchain_ledger" where
  "flush_stwo_digests_for_anchor L shard anchor_height prover =
     (let heights = filter (\<lambda>h. h \<le> anchor_height) (map fst (mc_pending_stwo_by_height L));
          L1 = foldl (flush_height shard prover) L heights;
          ranges = filter (\<lambda>r. snd r \<le> anchor_height) (map fst (mc_pending_stwo_ranges L1))
      in foldl (flush_range shard prover) L1 ranges)"

definition ingest_shard_anchor :: "masterchain_ledger \<Rightarrow> shard_anchor \<Rightarrow> unit mc_exec" where
  "ingest_shard_anchor L a =
     (let insert = (L\<lparr>mc_latest_anchors := bt_insert (sa_shard_id a) a (mc_latest_anchors L),
            mc_pending_anchor_updates := True\<rparr>, Inr ())
      in case bt_get (mc_latest_anchors L) (sa_shard_id a) of
           None \<Rightarrow> insert
         | Some prev \<Rightarrow>
             if sa_block_height a < sa_block_height prev
             then (L, Inl (McStaleAnchor (sa_shard_id a) (sa_block_height a) (sa_block_height prev)))
             else if sa_block_height a = sa_block_height prev \<and> sa_state_root a = sa_state_root prev
                \<and> sa_witness_commitment a = sa_witness_commitment prev
             then (L, Inr ())
             else insert)"

definition mc_flush_due_forced_inclusions :: "masterchain_ledger \<Rightarrow> masterchain_ledger" where
  "mc_flush_due_forced_inclusions L =
     (let (pending, events) = flush_loop (mc_height L) (mc_pending_forced_inclusions L) [] (mc_forced_inclusion_events L)
      in L\<lparr>mc_pending_forced_inclusions := pending, mc_forced_inclusion_events := events\<rparr>)"

definition mc_queue_root :: "'pf mc_ext \<Rightarrow> masterchain_ledger \<Rightarrow> hash256" where
  "mc_queue_root M L =
     mc_forced_inclusion_queue_root M (mc_pending_forced_inclusions L @
       map fe_request (filter (\<lambda>e. fi_request_id (fe_request e) \<notin> mc_proven_forced_inclusion_request_ids L)
         (mc_forced_inclusion_events L)))"

definition mc_prover_reward_wei :: "prover_economics_params \<Rightarrow> proof_submission \<Rightarrow> u128" where
  "mc_prover_reward_wei params p =
     (if \<not> pe_enabled params \<or> pe_base_reward_per_block_wei params = 0 \<or> ps_end_block p < ps_start_block p then 0
      else let range_reward = sat_mul (pe_base_reward_per_block_wei params) (ucast (proof_range_len p));
               half_life = ucast (max (pe_lag_half_life_seconds params) 1) :: u128;
               denominator = sat_add (ucast (ps_lag_seconds p)) half_life
           in sat_mul range_reward half_life div denominator)"

definition credit_proof :: "masterchain_ledger \<Rightarrow> proof_submission \<Rightarrow> masterchain_ledger" where
  "credit_proof L p =
     (let reward = mc_prover_reward_wei (mc_prover_economics L) p
      in if reward = 0 \<or> mc_treasury_balance_wei L = 0 then L
         else let paid = min reward (mc_treasury_balance_wei L);
                  left = mc_treasury_balance_wei L - paid
              in L\<lparr>mc_treasury_balance_wei := left,
                   mc_prover_reward_credits_wei := (mc_prover_reward_credits_wei L)
                     (ps_prover p \<mapsto> sat_add (unwrap_or (mc_prover_reward_credits_wei L (ps_prover p)) 0) paid),
                   mc_prover_reward_events := mc_prover_reward_events L @
                     [\<lparr>re_version = 1, re_masterchain_height = mc_height L, re_prover = ps_prover p,
                       re_shard_id = ps_shard_id p, re_start_block = ps_start_block p, re_end_block = ps_end_block p,
                       re_lag_seconds = ps_lag_seconds p, re_covered_blocks = proof_range_len p, re_reward_wei = paid,
                       re_treasury = pe_treasury (mc_prover_economics L), re_treasury_balance_after_wei = left\<rparr>]\<rparr>)"

definition credit_accepted_proofs :: "masterchain_ledger \<Rightarrow> proof_submission list \<Rightarrow> masterchain_ledger" where
  "credit_accepted_proofs L proofs =
     (if \<not> pe_enabled (mc_prover_economics L) \<or> pe_base_reward_per_block_wei (mc_prover_economics L) = 0 then L
      else foldl credit_proof L proofs)"

definition record_all_invalid ::
    "'pf mc_ext \<Rightarrow> masterchain_ledger \<Rightarrow> proof_submission list \<Rightarrow> u8 \<Rightarrow> masterchain_ledger" where
  "record_all_invalid M L proofs reason = foldl (\<lambda>L p. record_invalid_submission M L p reason) L proofs"

text \<open>The first submission that fails against the anchors, with its error.\<close>

definition first_invalid :: "shard_anchor list \<Rightarrow> proof_submission list \<Rightarrow> (proof_submission \<times> submission_error) option" where
  "first_invalid anchors proofs =
     find_map (\<lambda>p. case validate_proof_submission p anchors of Inl e \<Rightarrow> Some (p, e) | Inr _ \<Rightarrow> None) proofs"

text \<open>The verified statements of the batch, taken out of the pending map.\<close>

fun take_statements ::
    "masterchain_ledger \<Rightarrow> verified_stwo_statement list \<Rightarrow> proof_submission list \<Rightarrow> masterchain_ledger \<times> verified_stwo_statement list" where
  "take_statements L acc [] = (L, acc)"
| "take_statements L acc (p # ps) =
     (let key = (ps_shard_id p, ps_start_block p, ps_end_block p, ps_proof_digest p)
      in case mc_pending_verified_stwo_statements L key of
           None \<Rightarrow> take_statements L acc ps
         | Some st \<Rightarrow> take_statements
             (L\<lparr>mc_pending_verified_stwo_statements := (mc_pending_verified_stwo_statements L)(key := None)\<rparr>)
             (acc @ [st]) ps)"

definition aggregate_batch ::
    "'pf mc_ext \<Rightarrow> u64 \<Rightarrow> hash256 \<Rightarrow> proof_submission list \<Rightarrow> verified_stwo_statement list \<Rightarrow>
     aggregator_error + hash256 \<times> aggregated_zk_proof option" where
  "aggregate_batch M height gsr proofs statements =
     (if proofs = [] then Inr (0, None)
      else map_sum id (\<lambda>agg. (ag_global_zk_root agg, Some agg))
        (if length statements = length proofs
         then prove_and_aggregate_verified (mx_plonky M) height gsr proofs statements
         else prove_and_aggregate (mx_plonky M) height gsr proofs))"

text \<open>The last part of \<open>seal_round\<close>: aggregate, build the block, pay the provers and append it to the ring.\<close>

definition finish_round ::
    "'pf mc_ext \<Rightarrow> masterchain_ledger \<Rightarrow> shard_anchor list \<Rightarrow> proof_submission list \<Rightarrow> cross_shard_message list \<Rightarrow>
     verified_stwo_statement list \<Rightarrow> masterchain_block option mc_exec" where
  "finish_round M L anchors proofs messages statements =
     (let gsr = global_state_root_from_anchors (mx_keccak256 M) anchors
      in case aggregate_batch M (mc_height L) gsr proofs statements of
           Inl err \<Rightarrow> (record_all_invalid M L proofs INVALID_PROOF_AGGREGATOR_REJECTED, Inl (McAggregator err))
         | Inr (zk_root, aggregated) \<Rightarrow>
             let mc = (masterchain_block_from_anchors_and_messages (mx_keccak256 M) (mc_height L) anchors proofs zk_root
                        messages)\<lparr>mb_forced_inclusion_queue_root := mc_queue_root M L\<rparr>;
                 L1 = credit_accepted_proofs L proofs;
                 bundle = map_option (bundle_from_aggregated (mc_height L1)
                     \<lparr>gs_global_state_root = gsr, gs_global_zk_root = zk_root, gs_validity_proofs = proofs,
                      gs_verified_stwo_statements = statements\<rparr>) aggregated;
                 blocks = mc_blocks L1 @ [mc]
             in (L1\<lparr>mc_last_plonky2_bundle := bundle, mc_blocks := drop (length blocks - MAX_BLOCKS) blocks,
                    mc_pending_anchor_updates := False\<rparr>, Inr (Some mc)))"

text \<open>The batch of a round: duplicates, ranges and verified statements are checked, then the round is finished.\<close>

definition seal_batch ::
    "'pf mc_ext \<Rightarrow> masterchain_ledger \<Rightarrow> shard_anchor list \<Rightarrow> proof_submission list \<Rightarrow> cross_shard_message list \<Rightarrow>
     masterchain_block option mc_exec" where
  "seal_batch M L anchors taken messages =
     (case dedupe_submissions taken of
        Inl err \<Rightarrow> (record_all_invalid M L taken (submission_reason_code err), Inl (McSubmission err))
      | Inr proofs \<Rightarrow>
          (case first_invalid anchors proofs of
             Some (p, err) \<Rightarrow> (record_invalid_submission M L p (submission_reason_code err), Inl (McSubmission err))
           | None \<Rightarrow>
               let (L1, statements) = take_statements L [] proofs;
                   policy = mc_proof_slashing_policy L1
               in if sp_enabled policy \<and> sp_require_verified_stwo policy \<and> length statements \<noteq> length proofs
                  then (case find (\<lambda>p. \<not> list_ex (\<lambda>st. matches_submission st p) statements) proofs of
                          Some p \<Rightarrow> (record_invalid_submission M L1 p INVALID_PROOF_MISSING_VERIFIED_STWO,
                              Inl (McMissingVerifiedStwo (ps_shard_id p) (ps_start_block p) (ps_end_block p)))
                        | None \<Rightarrow> finish_round M L1 anchors proofs messages statements)
                  else finish_round M L1 anchors proofs messages
                         (if length statements \<noteq> length proofs then [] else statements)))"

definition nothing_pending :: "masterchain_ledger \<Rightarrow> bool" where
  "nothing_pending L \<longleftrightarrow> \<not> mc_pending_anchor_updates L \<and> mc_pending_validity_proofs L = [] \<and>
     mc_pending_cross_shard_messages L = [] \<and> mc_pending_cross_zone_messages L = [] \<and> mc_pending_forced_inclusions L = []"

text \<open>The state in which the batch of a round is taken: digests flushed, height raised, due requests turned into events.\<close>

definition open_round :: "masterchain_ledger \<Rightarrow> address \<Rightarrow> masterchain_ledger" where
  "open_round L prover =
     (let L1 = foldl (\<lambda>L a. flush_stwo_digests_for_anchor L (sa_shard_id a) (sa_block_height a) prover) L
            (bt_values (mc_latest_anchors L))
      in mc_flush_due_forced_inclusions (L1\<lparr>mc_height := sat_add (mc_height L1) 1\<rparr>))"

definition seal_round :: "'pf mc_ext \<Rightarrow> masterchain_ledger \<Rightarrow> address \<Rightarrow> masterchain_block option mc_exec" where
  "seal_round M L prover =
     (if mc_latest_anchors L = [] then (L, Inr None)
      else if nothing_pending L then (L, Inr None)
      else let L1 = open_round L prover
           in seal_batch M (L1\<lparr>mc_pending_validity_proofs := [], mc_pending_cross_shard_messages := []\<rparr>)
                (bt_values (mc_latest_anchors L1)) (mc_pending_validity_proofs L1) (mc_pending_cross_shard_messages L1))"

definition seal_anchor :: "'pf mc_ext \<Rightarrow> masterchain_ledger \<Rightarrow> shard_anchor \<Rightarrow> address \<Rightarrow> masterchain_block mc_exec" where
  "seal_anchor M L a prover =
     and_then (ingest_shard_anchor L a) (\<lambda>L1 _.
       and_then (seal_round M L1 prover) (\<lambda>L2 sealed.
         case sealed of None \<Rightarrow> (L2, Inl McNothingToSeal) | Some mc \<Rightarrow> (L2, Inr mc)))"

definition mc_head :: "masterchain_ledger \<Rightarrow> masterchain_block option" where
  "mc_head L = (if mc_blocks L = [] then None else Some (last (mc_blocks L)))"

definition mc_global_zk_root :: "masterchain_ledger \<Rightarrow> hash256 option" where
  "mc_global_zk_root L = map_option mb_global_zk_root (mc_head L)"

definition anchor_for_shard :: "masterchain_ledger \<Rightarrow> u32 \<Rightarrow> shard_anchor option" where
  "anchor_for_shard L shard = bt_get (mc_latest_anchors L) shard"

definition anchor_from_block_header :: "'pf mc_ext \<Rightarrow> block_header \<Rightarrow> shard_anchor" where
  "anchor_from_block_header M h = shard_anchor_from_header (mx_keccak256 M) 0 h"

end
