(* ===== verification/Masterchain_Safety.thy ===== *)
theory Masterchain_Safety
  imports Masterchain
begin

text \<open>
  What the masterchain ledger guarantees: it refines the forced-inclusion machine, a sealed block
  carries what it must, the treasury and the credits are conserved, evidence is slashed once and
  within the bond, and how a duplicate submission voids a round.
\<close>

section \<open>The books\<close>

text \<open>
  The books balance at \<open>n\<close> and \<open>b\<close>: what was paid in is in the treasury or credited, the reward events
  account for the credits, what was bonded is bonded or burned; evidence is used once, and an event
  burns at most the slash amount, out of the bond it names, and nothing when it was not executed.
\<close>

definition slash_event_ok :: "invalid_proof_slash_event \<Rightarrow> bool" where
  "slash_event_ok e \<longleftrightarrow> unat (ie_burned_bond_wei e) \<le> unat (ie_slash_amount_wei e)
     \<and> unat (ie_bond_before_wei e) = unat (ie_bond_after_wei e) + unat (ie_burned_bond_wei e)
     \<and> (\<not> ie_executed e \<longrightarrow> ie_burned_bond_wei e = 0)"

definition books :: "nat \<Rightarrow> nat \<Rightarrow> masterchain_ledger \<Rightarrow> bool" where
  "books n b L \<longleftrightarrow>
     finite (dom (mc_prover_reward_credits_wei L)) \<and> finite (dom (mc_prover_identities L))
     \<and> unat (mc_treasury_balance_wei L) + map_total unat (mc_prover_reward_credits_wei L) = n
     \<and> sum_list (map (\<lambda>e. unat (re_reward_wei e)) (mc_prover_reward_events L)) = map_total unat (mc_prover_reward_credits_wei L)
     \<and> map_total (\<lambda>i. unat (id_bond_wei i)) (mc_prover_identities L)
         + sum_list (map (\<lambda>e. unat (ie_burned_bond_wei e)) (mc_invalid_proof_slash_events L)) = b
     \<and> distinct (map ie_evidence_hash (mc_invalid_proof_slash_events L))
     \<and> list_all slash_event_ok (mc_invalid_proof_slash_events L)"

abbreviation mc_money where
  "mc_money L \<equiv> (mc_treasury_balance_wei L, mc_prover_reward_credits_wei L, mc_prover_reward_events L,
     mc_prover_identities L, mc_invalid_proof_slash_events L)"

lemma books_money: "mc_money L' = mc_money L \<Longrightarrow> books n b L' = books n b L"
  by (simp add: books_def)

lemma unat_bond_split: "before = unat (sat_sub w (min w a)) + unat (min w a)" if "before = unat w" for w a :: u128
  using that by (simp add: unat_sat_sub min_def word_le_nat_alt split: if_splits)

lemma execute_slash_active:
  assumes "mc_prover_identities L prover = Some i" and "id_active i"
    and "w = id_bond_wei i" and "a = min w (sp_slash_amount_wei (mc_proof_slashing_policy L))"
  obtains act where "execute_invalid_proof_slash L prover =
      (L\<lparr>mc_prover_identities := (mc_prover_identities L)(prover \<mapsto> i\<lparr>id_bond_wei := sat_sub w a, id_active := act\<rparr>)\<rparr>,
       \<lparr>so_executed = True, so_burned_bond_wei = a, so_bond_before_wei = w, so_bond_after_wei = sat_sub w a,
        so_prover_active_after = act\<rparr>)"
  using assms by (simp add: execute_invalid_proof_slash_def Let_def)

lemma execute_slash_idle:
  assumes "case mc_prover_identities L prover of None \<Rightarrow> True | Some i \<Rightarrow> \<not> id_active i"
  obtains w where "execute_invalid_proof_slash L prover =
      (L, \<lparr>so_executed = False, so_burned_bond_wei = 0, so_bond_before_wei = w, so_bond_after_wei = w, so_prover_active_after = False\<rparr>)"
  using assms by (auto simp: execute_invalid_proof_slash_def split: option.splits)

lemma execute_slash_outcome:
  assumes ex: "execute_invalid_proof_slash L prover = (L', out)" and fin: "finite (dom (mc_prover_identities L))"
  shows "finite (dom (mc_prover_identities L'))
    \<and> map_total (\<lambda>i. unat (id_bond_wei i)) (mc_prover_identities L') + unat (so_burned_bond_wei out)
        = map_total (\<lambda>i. unat (id_bond_wei i)) (mc_prover_identities L)
    \<and> unat (so_burned_bond_wei out) \<le> unat (sp_slash_amount_wei (mc_proof_slashing_policy L))
    \<and> unat (so_bond_before_wei out) = unat (so_bond_after_wei out) + unat (so_burned_bond_wei out)
    \<and> (\<not> so_executed out \<longrightarrow> so_burned_bond_wei out = 0)"
proof (cases "case mc_prover_identities L prover of None \<Rightarrow> True | Some i \<Rightarrow> \<not> id_active i")
  case True
  then show ?thesis by (rule execute_slash_idle) (use ex fin in simp)
next
  case False
  then obtain i where i: "mc_prover_identities L prover = Some i" "id_active i" by (auto split: option.splits)
  define w a where "w = id_bond_wei i" and "a = min w (sp_slash_amount_wei (mc_proof_slashing_policy L))"
  have split: "unat w = unat (sat_sub w a) + unat a" unfolding a_def by (rule unat_bond_split) simp
  have le: "unat a \<le> unat (sp_slash_amount_wei (mc_proof_slashing_policy L))"
    unfolding a_def by (simp add: word_le_nat_alt [symmetric])
  show ?thesis
  proof (rule execute_slash_active [OF i w_def a_def])
    fix act
    let ?j = "i\<lparr>id_bond_wei := sat_sub w a, id_active := act\<rparr>"
    assume "execute_invalid_proof_slash L prover =
      (L\<lparr>mc_prover_identities := (mc_prover_identities L)(prover \<mapsto> ?j)\<rparr>,
       \<lparr>so_executed = True, so_burned_bond_wei = a, so_bond_before_wei = w, so_bond_after_wei = sat_sub w a,
        so_prover_active_after = act\<rparr>)"
    then show ?thesis
      using ex fin split le i(1) map_total_update [OF fin, of "\<lambda>i. unat (id_bond_wei i)" prover ?j]
      by (auto simp: w_def [symmetric])
  qed
qed

lemma execute_slash_frame: "\<exists>ids. fst (execute_invalid_proof_slash L prover) = L\<lparr>mc_prover_identities := ids\<rparr>"
  by (auto simp: execute_invalid_proof_slash_def Let_def split: option.split intro: exI [of _ "mc_prover_identities L"])

lemma record_books: "books n b L \<Longrightarrow> books n b (record_invalid_submission M L p reason)"
proof -
  assume books: "books n b L"
  obtain L' out where ex: "execute_invalid_proof_slash L (ps_prover p) = (L', out)" by fastforce
  have fin: "finite (dom (mc_prover_identities L))" using books by (simp add: books_def)
  obtain ids where L': "L' = L\<lparr>mc_prover_identities := ids\<rparr>" using execute_slash_frame [of L "ps_prover p"] ex by auto
  show ?thesis
    using books execute_slash_outcome [OF ex fin] ex
    by (auto simp: record_invalid_submission_def Let_def books_def slash_event_ok_def L' image_iff)
qed

lemma unat_min_le: "unat (min r t) \<le> unat t" for r t :: "'a::len word"
  by (simp add: word_le_nat_alt [symmetric])

lemma credit_proof_books:
  assumes "books n b L" and "n < 2 ^ 128"
  shows "books n b (credit_proof L p)"
proof (cases "mc_prover_reward_wei (mc_prover_economics L) p = 0 \<or> mc_treasury_balance_wei L = 0")
  case False
  let ?t = "mc_treasury_balance_wei L" and ?c = "mc_prover_reward_credits_wei L" and ?k = "ps_prover p"
  define paid where "paid = min (mc_prover_reward_wei (mc_prover_economics L) p) ?t"
  define credit where "credit = sat_add (unwrap_or (?c ?k) 0) paid"
  have fin: "finite (dom ?c)" and small: "unat ?t + map_total unat ?c < 2 ^ 128"
    using assms by (simp_all add: books_def)
  have le: "unat paid \<le> unat ?t" unfolding paid_def by (rule unat_min_le)
  have old: "unat (unwrap_or (?c ?k) 0) = old_value unat (?c ?k)" by (cases "?c ?k") (simp_all add: unwrap_or_def)
  have "old_value unat (?c ?k) \<le> map_total unat ?c" by (rule map_total_ge [OF fin])
  then have "unat credit = old_value unat (?c ?k) + unat paid"
    unfolding credit_def unat_sat_add old using le small by simp
  then have "map_total unat (?c(?k \<mapsto> credit)) = map_total unat ?c + unat paid"
    using map_total_update [OF fin, of unat ?k credit] by simp
  moreover have "unat (?t - paid) = unat ?t - unat paid" using le by (simp add: unat_sub word_le_nat_alt)
  ultimately show ?thesis
    using False le assms(1) by (simp add: credit_proof_def Let_def books_def paid_def [symmetric] credit_def [symmetric])
qed (use assms in \<open>simp add: credit_proof_def\<close>)

lemma fund_books:
  assumes "books n b L" and "n + unat a < 2 ^ 128"
  shows "books (n + unat a) b (fund_prover_treasury L a)"
  using assms by (simp add: books_def fund_prover_treasury_def unat_sat_add)

lemma register_books:
  assumes "books n b L" and "register_prover_identity L prover bond = (L', Inr i)"
  shows "books n (b + unat bond) L'"
  using assms map_total_update [of "mc_prover_identities L" "\<lambda>i. unat (id_bond_wei i)" prover i]
  by (auto simp: books_def register_prover_identity_def Let_def split: if_splits)

lemma top_up_books:
  assumes "books n b L" and "b + unat amount < 2 ^ 128" and "top_up_prover_bond L prover amount = (L', Inr i)"
  shows "books n (b + unat amount) L'"
proof -
  obtain j where j: "mc_prover_identities L prover = Some j" "i = j\<lparr>id_bond_wei := sat_add (id_bond_wei j) amount\<rparr>"
    and L': "L' = L\<lparr>mc_prover_identities := (mc_prover_identities L)(prover \<mapsto> i)\<rparr>"
    using assms(3) by (auto simp: top_up_prover_bond_def Let_def split: option.splits)
  have fin: "finite (dom (mc_prover_identities L))" using assms(1) by (simp add: books_def)
  have "unat (id_bond_wei j) \<le> b"
    using map_total_ge [OF fin, of "\<lambda>i. unat (id_bond_wei i)" prover] j(1) assms(1) by (simp add: books_def)
  then have "unat (id_bond_wei i) = unat (id_bond_wei j) + unat amount" using assms(2) j(2) by (simp add: unat_sat_add)
  then show ?thesis
    using assms(1) j(1) L' map_total_update [OF fin, of "\<lambda>i. unat (id_bond_wei i)" prover i] by (simp add: books_def)
qed

section \<open>What the parts of a round change\<close>

text \<open>Flushing digests appends submissions and changes the digest maps, and nothing else.\<close>

definition flushes :: "masterchain_ledger \<Rightarrow> masterchain_ledger \<Rightarrow> bool" where
  "flushes L L' \<longleftrightarrow> (\<exists>ps hs rs. L' = L\<lparr>mc_pending_validity_proofs := mc_pending_validity_proofs L @ ps,
     mc_pending_stwo_by_height := hs, mc_pending_stwo_ranges := rs\<rparr>)"

lemma flushes_refl: "flushes L L"
  unfolding flushes_def
  by (intro exI [of _ "[]"] exI [of _ "mc_pending_stwo_by_height L"] exI [of _ "mc_pending_stwo_ranges L"]) simp

lemma flushes_trans: "flushes L L' \<Longrightarrow> flushes L' L'' \<Longrightarrow> flushes L L''"
  unfolding flushes_def by (elim exE) (simp, blast)

lemma flushes_foldl: "(\<And>L x. flushes L (f L x)) \<Longrightarrow> flushes L (foldl f L xs)"
  by (induction xs arbitrary: L) (auto intro: flushes_refl flushes_trans)

lemma push_flushes: "flushes L (push_unless_pending L p)"
  by (auto simp: push_unless_pending_def flushes_refl)
    (auto simp: flushes_def intro!: exI [of _ "mc_pending_stwo_by_height L"] exI [of _ "mc_pending_stwo_ranges L"])

lemma remove_flushes:
  "flushes L (L\<lparr>mc_pending_stwo_by_height := hs\<rparr>)" "flushes L (L\<lparr>mc_pending_stwo_ranges := rs\<rparr>)"
  unfolding flushes_def
  by (rule exI [of _ "[]"], rule exI [of _ hs], rule exI [of _ "mc_pending_stwo_ranges L"], simp)
    (rule exI [of _ "[]"], rule exI [of _ "mc_pending_stwo_by_height L"], rule exI [of _ rs], simp)

lemma flush_anchor_flushes: "flushes L (flush_stwo_digests_for_anchor L shard h prover)"
proof -
  have "flushes L (flush_height shard prover L x)" for L x
    by (auto simp: flush_height_def flushes_refl split: option.split intro: flushes_trans [OF remove_flushes(1) push_flushes])
  moreover have "flushes L (flush_range shard prover L x)" for L x
    by (auto simp: flush_range_def flushes_refl split: option.split intro: flushes_trans [OF remove_flushes(2) push_flushes])
  ultimately show ?thesis
    unfolding flush_stwo_digests_for_anchor_def Let_def by (intro flushes_trans [OF flushes_foldl flushes_foldl])
qed

text \<open>Slashing touches the identities and the slash events alone.\<close>

definition slashes :: "masterchain_ledger \<Rightarrow> masterchain_ledger \<Rightarrow> bool" where
  "slashes L L' \<longleftrightarrow> (\<exists>ids evs. L' = L\<lparr>mc_prover_identities := ids, mc_invalid_proof_slash_events := evs\<rparr>)
     \<and> (\<forall>n b. books n b L \<longrightarrow> books n b L')"

lemma slashes_refl: "slashes L L"
  unfolding slashes_def
  by (intro conjI exI [of _ "mc_prover_identities L"] exI [of _ "mc_invalid_proof_slash_events L"]) simp_all

lemma slashes_trans: "slashes L L' \<Longrightarrow> slashes L' L'' \<Longrightarrow> slashes L L''"
  unfolding slashes_def by (elim exE conjE) (simp, blast)

lemma record_slashes: "slashes L (record_invalid_submission M L p reason)"
proof -
  have "record_invalid_submission M L p reason = L \<or>
      (\<exists>ids evs. record_invalid_submission M L p reason = L\<lparr>mc_prover_identities := ids, mc_invalid_proof_slash_events := evs\<rparr>)"
    using execute_slash_frame [of L "ps_prover p"]
    by (auto simp: record_invalid_submission_def Let_def split: prod.split) (metis fst_conv)+
  then show ?thesis
  proof
    assume "\<exists>ids evs. record_invalid_submission M L p reason = L\<lparr>mc_prover_identities := ids, mc_invalid_proof_slash_events := evs\<rparr>"
    then show ?thesis unfolding slashes_def using record_books by blast
  qed (simp add: slashes_refl)
qed

lemma record_all_slashes: "slashes L (record_all_invalid M L ps reason)"
  unfolding record_all_invalid_def
  by (induction ps arbitrary: L) (auto intro: slashes_refl slashes_trans [OF record_slashes])

lemma take_statements_frame: "\<exists>m. fst (take_statements L acc ps) = L\<lparr>mc_pending_verified_stwo_statements := m\<rparr>"
proof (induction L acc ps rule: take_statements.induct)
  case (1 L acc)
  then show ?case by (auto intro: exI [of _ "mc_pending_verified_stwo_statements L"])
next
  case (2 L acc p ps)
  then show ?case by (auto simp: Let_def split: option.split)
qed

text \<open>Paying provers touches the treasury, the credits and the reward events alone.\<close>

definition pays :: "masterchain_ledger \<Rightarrow> masterchain_ledger \<Rightarrow> bool" where
  "pays L L' \<longleftrightarrow> (\<exists>t c evs. L' = L\<lparr>mc_treasury_balance_wei := t, mc_prover_reward_credits_wei := c,
     mc_prover_reward_events := evs\<rparr>) \<and> (\<forall>n b. n < 2 ^ 128 \<longrightarrow> books n b L \<longrightarrow> books n b L')"

lemma pays_refl: "pays L L"
  unfolding pays_def
  by (intro conjI exI [of _ "mc_treasury_balance_wei L"] exI [of _ "mc_prover_reward_credits_wei L"]
      exI [of _ "mc_prover_reward_events L"]) simp_all

lemma pays_trans: "pays L L' \<Longrightarrow> pays L' L'' \<Longrightarrow> pays L L''"
  unfolding pays_def by (elim exE conjE) (simp, blast)

lemma credit_pays: "pays L (credit_accepted_proofs L ps)"
proof -
  have one: "pays L (credit_proof L p)" for L p
  proof (cases "mc_prover_reward_wei (mc_prover_economics L) p = 0 \<or> mc_treasury_balance_wei L = 0")
    case False
    have "\<exists>t c evs. credit_proof L p = L\<lparr>mc_treasury_balance_wei := t, mc_prover_reward_credits_wei := c,
        mc_prover_reward_events := evs\<rparr>"
      unfolding credit_proof_def Let_def if_not_P [OF False] by (intro exI) (rule refl)
    then show ?thesis unfolding pays_def using credit_proof_books by blast
  qed (simp add: credit_proof_def pays_refl)
  have "pays L (foldl credit_proof L ps)"
    by (induction ps arbitrary: L) (auto intro: pays_refl pays_trans [OF one])
  then show ?thesis by (simp add: credit_accepted_proofs_def pays_refl)
qed

section \<open>The forced-inclusion queue\<close>

definition mc_queue :: "masterchain_ledger \<Rightarrow> forced_queue" where
  "mc_queue L = \<lparr>fq_height = mc_height L, fq_pending = mc_pending_forced_inclusions L,
     fq_events = mc_forced_inclusion_events L, fq_proven = mc_proven_forced_inclusion_request_ids L\<rparr>"

lemma mc_queue_frames:
  "flushes L L' \<Longrightarrow> mc_queue L' = mc_queue L" "slashes L L' \<Longrightarrow> mc_queue L' = mc_queue L"
  "pays L L' \<Longrightarrow> mc_queue L' = mc_queue L"
  by (auto simp: flushes_def slashes_def pays_def mc_queue_def)

lemma open_round_flushes:
  obtains L1 where "flushes L L1"
    and "open_round L prover = mc_flush_due_forced_inclusions (L1\<lparr>mc_height := sat_add (mc_height L) 1\<rparr>)"
proof
  let ?L1 = "foldl (\<lambda>L a. flush_stwo_digests_for_anchor L (sa_shard_id a) (sa_block_height a) prover) L
      (bt_values (mc_latest_anchors L))"
  show f: "flushes L ?L1" by (rule flushes_foldl) (rule flush_anchor_flushes)
  then have "mc_height ?L1 = mc_height L" by (auto simp: flushes_def)
  then show "open_round L prover = mc_flush_due_forced_inclusions (?L1\<lparr>mc_height := sat_add (mc_height L) 1\<rparr>)"
    by (simp add: open_round_def Let_def)
qed

lemma open_round_queue:
  "mc_queue (open_round L prover) = fq_flush ((mc_queue L)\<lparr>fq_height := sat_add (mc_height L) 1\<rparr>)"
proof (rule open_round_flushes [of L prover])
  fix L1 assume f: "flushes L L1"
    and eq: "open_round L prover = mc_flush_due_forced_inclusions (L1\<lparr>mc_height := sat_add (mc_height L) 1\<rparr>)"
  have "mc_queue (L1\<lparr>mc_height := sat_add (mc_height L) 1\<rparr>) = (mc_queue L)\<lparr>fq_height := sat_add (mc_height L) 1\<rparr>"
    using f by (auto simp: flushes_def mc_queue_def)
  then show ?thesis
    by (simp add: eq mc_queue_def mc_flush_due_forced_inclusions_def flush_loop_eq fq_flush_def)
qed

text \<open>
  A batch fails after slashing, or it passes every check and finishes the round; at most the pending
  statements are taken in between.
\<close>

abbreviation with_statements :: "masterchain_ledger \<Rightarrow> (u32 \<times> u64 \<times> u64 \<times> hash256 \<rightharpoonup> verified_stwo_statement) \<Rightarrow> masterchain_ledger" where
  "with_statements L m \<equiv> L\<lparr>mc_pending_verified_stwo_statements := m\<rparr>"

lemma take_statementsE:
  obtains m sts where "take_statements L [] ps = (with_statements L m, sts)"
  using take_statements_frame [of L "[]" ps] by (metis prod.collapse)

lemma finish_round_error: "finish_round M L anchors ps ms sts = (L', Inl e) \<Longrightarrow> slashes L L'"
  by (auto simp: finish_round_def Let_def record_all_slashes split: sum.splits prod.splits)

lemma seal_batch_error:
  assumes "seal_batch M L anchors taken ms = (L', Inl e)"
  shows "\<exists>m. slashes (with_statements L m) L'"
proof (cases "dedupe_submissions taken")
  case (Inl err)
  then have "slashes L L'" using assms record_all_slashes [of L M] by (auto simp: seal_batch_def)
  then show ?thesis by (intro exI [of _ "mc_pending_verified_stwo_statements L"]) simp
next
  case (Inr ps)
  show ?thesis
  proof (cases "first_invalid anchors ps")
    case (Some pe)
    then have "slashes L L'" using Inr assms record_slashes [of L M] by (cases pe) (auto simp: seal_batch_def)
    then show ?thesis by (intro exI [of _ "mc_pending_verified_stwo_statements L"]) simp
  next
    case None
    obtain m sts where ts: "take_statements L [] ps = (with_statements L m, sts)" by (rule take_statementsE)
    have "slashes (with_statements L m) L'"
      using assms Inr None ts
      by (auto simp: seal_batch_def Let_def record_slashes split: if_splits option.splits dest: finish_round_error)
    then show ?thesis by blast
  qed
qed

lemma seal_batch_Ok:
  assumes "seal_batch M L anchors taken ms = (L', Inr r)"
  obtains ps m sts where "dedupe_submissions taken = Inr ps" and "first_invalid anchors ps = None"
    and "finish_round M (with_statements L m) anchors ps ms sts = (L', Inr r)"
proof (cases "dedupe_submissions taken")
  case (Inr ps)
  then have none: "first_invalid anchors ps = None"
    using assms by (auto simp: seal_batch_def split: option.splits)
  obtain m sts where ts: "take_statements L [] ps = (with_statements L m, sts)" by (rule take_statementsE)
  then have "\<exists>sts. finish_round M (with_statements L m) anchors ps ms sts = (L', Inr r)"
    using assms Inr none by (auto simp: seal_batch_def Let_def split: if_splits option.splits)
  then show ?thesis using that Inr none by blast
qed (use assms in \<open>simp add: seal_batch_def\<close>)

text \<open>The block of a round, and the ledger after it.\<close>

definition round_block ::
    "'pf mc_ext \<Rightarrow> masterchain_ledger \<Rightarrow> shard_anchor list \<Rightarrow> proof_submission list \<Rightarrow> cross_shard_message list \<Rightarrow> hash256 \<Rightarrow>
     masterchain_block" where
  "round_block M L anchors ps ms zk_root =
     (masterchain_block_from_anchors_and_messages (mx_keccak256 M) (mc_height L) anchors ps zk_root ms)
       \<lparr>mb_forced_inclusion_queue_root := mc_queue_root M L\<rparr>"

lemma finish_round_Ok:
  assumes "finish_round M L anchors ps ms sts = (L', Inr r)"
  obtains zk_root agg bd where
    "aggregate_batch M (mc_height L) (global_state_root_from_anchors (mx_keccak256 M) anchors) ps sts = Inr (zk_root, agg)"
    and "r = Some (round_block M L anchors ps ms zk_root)"
    and "L' = (credit_accepted_proofs L ps)\<lparr>mc_last_plonky2_bundle := bd,
      mc_blocks := (let bs = mc_blocks L @ [round_block M L anchors ps ms zk_root] in drop (length bs - MAX_BLOCKS) bs),
      mc_pending_anchor_updates := False\<rparr>"
proof -
  have "mc_blocks (credit_accepted_proofs L ps) = mc_blocks L" using credit_pays [of L ps] by (auto simp: pays_def)
  then show ?thesis using assms that
    by (auto simp: finish_round_def Let_def round_block_def split: sum.splits prod.splits)
qed

text \<open>The state a batch starts from: the round is open and its submissions and messages are taken.\<close>

definition taken_round :: "masterchain_ledger \<Rightarrow> address \<Rightarrow> masterchain_ledger" where
  "taken_round L prover =
     (open_round L prover)\<lparr>mc_pending_validity_proofs := [], mc_pending_cross_shard_messages := []\<rparr>"

lemma seal_round_batch:
  assumes "mc_latest_anchors L \<noteq> []" and "\<not> nothing_pending L"
  shows "seal_round M L prover = seal_batch M (taken_round L prover) (bt_values (mc_latest_anchors L))
    (mc_pending_validity_proofs (open_round L prover)) (mc_pending_cross_shard_messages L)"
proof (rule open_round_flushes [of L prover])
  fix L1 assume "flushes L L1"
    and "open_round L prover = mc_flush_due_forced_inclusions (L1\<lparr>mc_height := sat_add (mc_height L) 1\<rparr>)"
  then have "mc_latest_anchors (open_round L prover) = mc_latest_anchors L"
    "mc_pending_cross_shard_messages (open_round L prover) = mc_pending_cross_shard_messages L"
    by (auto simp: flushes_def mc_flush_due_forced_inclusions_def split: prod.split)
  then show ?thesis using assms by (simp add: seal_round_def Let_def taken_round_def)
qed

lemma seal_round_idle:
  "mc_latest_anchors L = [] \<or> nothing_pending L \<Longrightarrow> seal_round M L prover = (L, Inr None)"
  by (auto simp: seal_round_def)

lemma taken_round_queue: "mc_queue (with_statements (taken_round L prover) m) = mc_queue (open_round L prover)"
  by (simp add: taken_round_def mc_queue_def)

lemma seal_round_queue:
  "mc_queue (fst (seal_round M L prover)) \<in> {mc_queue L, mc_queue (open_round L prover)}"
proof (cases "mc_latest_anchors L = [] \<or> nothing_pending L")
  case False
  obtain L' r where seal: "seal_round M L prover = (L', r)" by fastforce
  then have batch: "seal_batch M (taken_round L prover) (bt_values (mc_latest_anchors L))
      (mc_pending_validity_proofs (open_round L prover)) (mc_pending_cross_shard_messages L) = (L', r)"
    using False by (simp add: seal_round_batch)
  have "mc_queue L' = mc_queue (open_round L prover)"
  proof (cases r)
    case (Inl e)
    then obtain m where "slashes (with_statements (taken_round L prover) m) L'"
      using seal_batch_error [OF batch [unfolded Inl]] by (elim exE)
    from mc_queue_frames(2) [OF this] show ?thesis by (simp add: taken_round_queue)
  next
    case (Inr b)
    from batch [unfolded Inr] show ?thesis
    proof (rule seal_batch_Ok)
      fix ps m sts
      assume "finish_round M (with_statements (taken_round L prover) m) (bt_values (mc_latest_anchors L)) ps
        (mc_pending_cross_shard_messages L) sts = (L', Inr b)"
      then show ?thesis
      proof (rule finish_round_Ok)
        fix zk_root bd
        let ?L = "with_statements (taken_round L prover) m"
        assume "L' = (credit_accepted_proofs ?L ps)\<lparr>mc_last_plonky2_bundle := bd,
          mc_blocks := (let bs = mc_blocks ?L @ [round_block M ?L (bt_values (mc_latest_anchors L)) ps
              (mc_pending_cross_shard_messages L) zk_root] in drop (length bs - MAX_BLOCKS) bs),
          mc_pending_anchor_updates := False\<rparr>"
        then have "mc_queue L' = mc_queue (credit_accepted_proofs ?L ps)" by (simp add: mc_queue_def)
        also have "\<dots> = mc_queue ?L" by (rule mc_queue_frames(3) [OF credit_pays])
        finally show ?thesis by (simp only: taken_round_queue)
      qed
    qed
  qed
  then show ?thesis using seal by simp
qed (simp add: seal_round_idle)

section \<open>Histories of the ledger\<close>

inductive mc_op :: "'pf mc_ext \<Rightarrow> masterchain_ledger \<Rightarrow> masterchain_ledger \<Rightarrow> bool" for M where
  mco_policy: "mc_op M L (set_proof_slashing_policy L policy)"
| mco_market: "mc_op M L (set_prover_market L market)"
| mco_economics: "mc_op M L (set_prover_economics L params)"
| mco_submit: "mc_op M L (fst (submit_validity_proof M L p))"
| mco_digest: "mc_op M L (fst (record_stwo_digest L height digest))"
| mco_digests: "mc_op M L (fst (record_stwo_digest_range L start_block end_block digest))"
| mco_statement: "mc_op M L (fst (record_verified_stwo_statement L st))"
| mco_message: "mc_op M L (submit_cross_shard_message L msg)"
| mco_zone: "mc_op M L (fst (create_execution_zone L zone creator metadata))"
| mco_update: "mc_op M L (fst (submit_zone_proof_final_update M L u))"
| mco_send: "mc_op M L (fst (mc_submit_cross_zone_message L m))"
| mco_drain: "mc_op M L (fst (mc_drain_cross_zone_messages_for L to))"
| mco_file: "mc_op M L (fst (mc_submit_forced_inclusion M L zone requester txh payload))"
| mco_anchor: "mc_op M L (fst (ingest_shard_anchor L a))"
| mco_seal: "mc_op M L (fst (seal_round M L prover))"
| mco_seal_anchor: "mc_op M L (fst (seal_anchor M L a prover))"

inductive mc_change :: "'pf mc_ext \<Rightarrow> masterchain_ledger \<Rightarrow> masterchain_ledger \<Rightarrow> bool" for M where
  mch_op: "mc_op M L L' \<Longrightarrow> mc_change M L L'"
| mch_fund: "mc_change M L (fund_prover_treasury L amount)"
| mch_register: "mc_change M L (fst (register_prover_identity L prover bond))"
| mch_top_up: "mc_change M L (fst (top_up_prover_bond L prover amount))"

inductive_cases mc_opE: "mc_op M L L'"
inductive_cases mc_changeE: "mc_change M L L'"

text \<open>A history with what it paid into the treasury and what it took in bonds.\<close>

inductive mc_run :: "'pf mc_ext \<Rightarrow> nat \<Rightarrow> nat \<Rightarrow> masterchain_ledger \<Rightarrow> bool" for M where
  run_start: "mc_run M 0 0 default_ledger"
| run_op: "mc_run M n b L \<Longrightarrow> mc_op M L L' \<Longrightarrow> mc_run M n b L'"
| run_fund: "mc_run M n b L \<Longrightarrow> mc_run M (n + unat a) b (fund_prover_treasury L a)"
| run_register: "mc_run M n b L \<Longrightarrow> register_prover_identity L prover bond = (L', Inr i) \<Longrightarrow> mc_run M n (b + unat bond) L'"
| run_top_up: "mc_run M n b L \<Longrightarrow> top_up_prover_bond L prover amount = (L', Inr i) \<Longrightarrow> mc_run M n (b + unat amount) L'"

text \<open>The operations that leave the queue and the funds as they are.\<close>

lemma slashes_books: "slashes L L' \<Longrightarrow> books n b L \<Longrightarrow> books n b L'"
  by (simp add: slashes_def)

lemma submit_frame: "mc_queue (fst (submit_validity_proof M L p)) = mc_queue L"
  using mc_queue_frames(2) [OF record_slashes [of L M p]]
  by (auto simp: submit_validity_proof_def mc_queue_def Let_def split: sum.split)

lemma submit_books: "books n b L \<Longrightarrow> books n b (fst (submit_validity_proof M L p))"
  by (simp add: submit_validity_proof_def Let_def slashes_books [OF record_slashes] split: sum.split) (simp add: books_def)

lemma digest_frame:
  "mc_queue (fst (record_stwo_digest_range L a b d)) = mc_queue L" "mc_money (fst (record_stwo_digest_range L a b d)) = mc_money L"
  "mc_queue (fst (record_verified_stwo_statement L st)) = mc_queue L" "mc_money (fst (record_verified_stwo_statement L st)) = mc_money L"
  by (simp_all add: record_stwo_digest_range_def record_verified_stwo_statement_def and_then_def mc_queue_def)

lemma anchor_frame:
  "mc_queue (fst (ingest_shard_anchor L a)) = mc_queue L" "mc_money (fst (ingest_shard_anchor L a)) = mc_money L"
  by (simp_all add: ingest_shard_anchor_def mc_queue_def Let_def split: option.split)

lemma simple_frame:
  "mc_queue (set_proof_slashing_policy L policy) = mc_queue L" "mc_queue (set_prover_market L market) = mc_queue L"
  "mc_queue (set_prover_economics L params) = mc_queue L" "mc_queue (fund_prover_treasury L amount) = mc_queue L"
  "mc_queue (submit_cross_shard_message L msg) = mc_queue L"
  "mc_queue (fst (register_prover_identity L prover bond)) = mc_queue L"
  "mc_queue (fst (top_up_prover_bond L prover amount)) = mc_queue L"
  "mc_queue (fst (create_execution_zone L zone creator metadata)) = mc_queue L"
  "mc_queue (fst (mc_submit_cross_zone_message L m)) = mc_queue L"
  "mc_queue (fst (mc_drain_cross_zone_messages_for L to)) = mc_queue L"
  by (simp_all add: set_proof_slashing_policy_def set_prover_market_def set_prover_economics_def fund_prover_treasury_def
      submit_cross_shard_message_def register_prover_identity_def top_up_prover_bond_def create_execution_zone_def
      mc_submit_cross_zone_message_def mc_drain_cross_zone_messages_for_def mc_queue_def Let_def split: option.split)

lemma simple_money_frame:
  "mc_money (set_proof_slashing_policy L policy) = mc_money L" "mc_money (set_prover_market L market) = mc_money L"
  "mc_money (set_prover_economics L params) = mc_money L"
  "mc_money (submit_cross_shard_message L msg) = mc_money L"
  "mc_money (fst (create_execution_zone L zone creator metadata)) = mc_money L"
  "mc_money (fst (submit_zone_proof_final_update M L u)) = mc_money L"
  "mc_money (fst (mc_submit_cross_zone_message L m)) = mc_money L"
  "mc_money (fst (mc_drain_cross_zone_messages_for L to)) = mc_money L"
  "mc_money (fst (mc_submit_forced_inclusion M L zone requester txh payload)) = mc_money L"
  by (simp_all add: set_proof_slashing_policy_def set_prover_market_def set_prover_economics_def
      submit_cross_shard_message_def create_execution_zone_def
      submit_zone_proof_final_update_def mc_submit_cross_zone_message_def mc_drain_cross_zone_messages_for_def
      mc_submit_forced_inclusion_def Let_def split: option.split)

lemma mc_update_queue:
  "mc_queue (fst (submit_zone_proof_final_update M L u)) \<in> {mc_queue L, fq_settle (mu_zone_id u) (mc_queue L)}"
  by (auto simp: submit_zone_proof_final_update_def Let_def mc_queue_def fq_settle_def mc_unresolved_for_zone_def foldl_insert
      split: option.split)

lemma mc_file_queue:
  "mc_queue (fst (mc_submit_forced_inclusion M L zone requester txh payload)) = mc_queue L \<or>
   fq_step (mc_queue L) (mc_queue (fst (mc_submit_forced_inclusion M L zone requester txh payload)))"
proof (cases "fst (mc_submit_forced_inclusion M L zone requester txh payload) = L")
  case False
  then obtain r where r: "fst (mc_submit_forced_inclusion M L zone requester txh payload) =
      L\<lparr>mc_pending_forced_inclusions := mc_pending_forced_inclusions L @ [r], mc_pending_anchor_updates := True\<rparr>"
    and new: "fi_request_id r \<notin> set (queued_ids (mc_pending_forced_inclusions L) (mc_forced_inclusion_events L))"
    and height: "fi_submitted_at_masterchain_height r = mc_height L" "mc_height L \<le> fi_deadline_masterchain_height r"
    by (fastforce simp: mc_submit_forced_inclusion_def Let_def sat_add_ge split: option.splits if_splits)
  then have "fq_step (mc_queue L) ((mc_queue L)\<lparr>fq_pending := fq_pending (mc_queue L) @ [r]\<rparr>)"
    by (intro fq_file) (simp_all add: mc_queue_def)
  then show ?thesis using r by (simp add: mc_queue_def)
qed simp

lemma open_round_step: "fq_step (mc_queue L) (mc_queue (open_round L prover))"
  unfolding open_round_queue by (rule fq_advance) (simp add: mc_queue_def sat_add_ge)

lemma seal_round_refines: "fq_step\<^sup>*\<^sup>* (mc_queue L) (mc_queue (fst (seal_round M L prover)))"
  using seal_round_queue [of M L prover] open_round_step [of L prover] by auto

lemma seal_anchor_fst:
  "fst (seal_anchor M L a prover) \<in> {fst (ingest_shard_anchor L a), fst (seal_round M (fst (ingest_shard_anchor L a)) prover)}"
  by (auto simp: seal_anchor_def and_then_def split: prod.splits sum.splits option.splits)

lemma mc_op_refines: "mc_op M L L' \<Longrightarrow> fq_step\<^sup>*\<^sup>* (mc_queue L) (mc_queue L')"
proof (erule mc_opE)
  fix u assume "L' = fst (submit_zone_proof_final_update M L u)"
  then show ?thesis using mc_update_queue [of M L u] fq_settled [of "mc_queue L" "mu_zone_id u"] by auto
next
  fix zone requester txh payload assume "L' = fst (mc_submit_forced_inclusion M L zone requester txh payload)"
  then show ?thesis using mc_file_queue [of M L zone requester txh payload] by auto
next
  fix prover assume "L' = fst (seal_round M L prover)"
  then show ?thesis using seal_round_refines by simp
next
  fix a prover assume "L' = fst (seal_anchor M L a prover)"
  then show ?thesis
    using seal_anchor_fst [of M L a prover] seal_round_refines [of "fst (ingest_shard_anchor L a)" M prover]
    by (auto simp: anchor_frame)
qed (simp_all add: simple_frame submit_frame digest_frame anchor_frame record_stwo_digest_def)

lemma mc_change_refines: "mc_change M L L' \<Longrightarrow> fq_step\<^sup>*\<^sup>* (mc_queue L) (mc_queue L')"
  by (erule mc_changeE) (simp_all add: mc_op_refines simple_frame)

interpretation masterchain: forced_inclusion_component mc_queue "mc_change M" default_ledger for M :: "'pf mc_ext"
  by unfold_locales (simp_all add: mc_change_refines, simp add: mc_queue_def default_ledger_def fq_empty_def)

section \<open>The submissions of a round\<close>

lemma dedupe_loop_Inr: "dedupe_loop out ps = Inr qs \<Longrightarrow> distinct (map submission_range out) \<Longrightarrow>
    qs = out @ ps \<and> distinct (map submission_range (out @ ps))"
  by (induction out ps rule: dedupe_loop.induct) (auto split: if_splits)

lemma dedupe_Inr: "dedupe_submissions ps = Inr qs \<Longrightarrow> qs = ps \<and> distinct (map submission_range ps)"
  using dedupe_loop_Inr [of "[]" ps qs] by (simp add: dedupe_submissions_def)

lemma dedupe_duplicate: "\<not> distinct (map submission_range ps) \<Longrightarrow> \<exists>e. dedupe_submissions ps = Inl e"
  using dedupe_Inr [of ps] by (cases "dedupe_submissions ps") auto

lemma first_invalid_None:
  "first_invalid anchors ps = None \<longleftrightarrow> list_all (\<lambda>p. validate_proof_submission p anchors = Inr ()) ps"
  by (induction ps) (auto simp: first_invalid_def split: sum.splits option.splits)

lemma aggregate_batch_length: "aggregate_batch M height gsr ps sts = Inr r \<Longrightarrow> length ps \<le> MAX_AGG_PROOFS"
  by (auto simp: aggregate_batch_def prove_and_aggregate_def prove_and_aggregate_verified_def split: if_splits)

lemma open_round_pending:
  obtains qs where "mc_pending_validity_proofs (open_round L prover) = mc_pending_validity_proofs L @ qs"
    and "mc_height (open_round L prover) = sat_add (mc_height L) 1" and "mc_blocks (open_round L prover) = mc_blocks L"
proof (rule open_round_flushes [of L prover])
  fix L1 assume "flushes L L1"
    and "open_round L prover = mc_flush_due_forced_inclusions (L1\<lparr>mc_height := sat_add (mc_height L) 1\<rparr>)"
  then show thesis
    using that by (auto simp: flushes_def mc_flush_due_forced_inclusions_def split: prod.splits)
qed

section \<open>The books over a history\<close>

lemma taken_round_money: "mc_money (with_statements (taken_round L prover) m) = mc_money L"
proof (rule open_round_flushes [of L prover])
  fix L1 assume "flushes L L1"
    and "open_round L prover = mc_flush_due_forced_inclusions (L1\<lparr>mc_height := sat_add (mc_height L) 1\<rparr>)"
  then show ?thesis
    by (auto simp: flushes_def taken_round_def mc_flush_due_forced_inclusions_def split: prod.split)
qed

lemma seal_round_books:
  assumes "books n b L" and "n < 2 ^ 128"
  shows "books n b (fst (seal_round M L prover))"
proof (cases "mc_latest_anchors L = [] \<or> nothing_pending L")
  case False
  obtain L' r where seal: "seal_round M L prover = (L', r)" by fastforce
  then have batch: "seal_batch M (taken_round L prover) (bt_values (mc_latest_anchors L))
      (mc_pending_validity_proofs (open_round L prover)) (mc_pending_cross_shard_messages L) = (L', r)"
    using False by (simp add: seal_round_batch)
  have T: "books n b (with_statements (taken_round L prover) m)" for m
    using books_money [OF taken_round_money] assms(1) by blast
  have "books n b L'"
  proof (cases r)
    case (Inl e)
    then obtain m where "slashes (with_statements (taken_round L prover) m) L'"
      using seal_batch_error [OF batch [unfolded Inl]] by (elim exE)
    then show ?thesis using T by (rule slashes_books)
  next
    case (Inr r')
    from batch [unfolded Inr] show ?thesis
    proof (rule seal_batch_Ok)
      fix ps m sts
      assume "finish_round M (with_statements (taken_round L prover) m) (bt_values (mc_latest_anchors L)) ps
        (mc_pending_cross_shard_messages L) sts = (L', Inr r')"
      moreover have "books n b (credit_accepted_proofs (with_statements (taken_round L prover) m) ps)"
        using credit_pays T assms(2) unfolding pays_def by blast
      ultimately show ?thesis by (elim finish_round_Ok) (simp add: books_def)
    qed
  qed
  then show ?thesis using seal by simp
qed (use assms in \<open>simp add: seal_round_idle\<close>)

lemma mc_op_money:
  "mc_op M L L' \<Longrightarrow> mc_money L' = mc_money L \<or> (\<exists>p. L' = fst (submit_validity_proof M L p))
     \<or> (\<exists>prover. L' = fst (seal_round M L prover)) \<or> (\<exists>a prover. L' = fst (seal_anchor M L a prover))"
proof (erule mc_opE)
  fix p assume "L' = fst (submit_validity_proof M L p)"
  then show ?thesis by blast
next
  fix prover assume "L' = fst (seal_round M L prover)"
  then show ?thesis by blast
next
  fix a prover assume "L' = fst (seal_anchor M L a prover)"
  then show ?thesis by blast
qed (simp_all only: simple_money_frame digest_frame anchor_frame record_stwo_digest_def simp_thms)

lemma mc_op_books:
  assumes "mc_op M L L'" and "books n b L" and "n < 2 ^ 128"
  shows "books n b L'"
  using mc_op_money [OF assms(1)]
proof (elim disjE exE)
  fix a prover assume "L' = fst (seal_anchor M L a prover)"
  moreover have "books n b (fst (ingest_shard_anchor L a))" using books_money [OF anchor_frame(2)] assms(2) by blast
  ultimately show ?thesis
    using seal_anchor_fst [of M L a prover] seal_round_books [of n b "fst (ingest_shard_anchor L a)" M prover] assms(3) by auto
qed (use assms(2,3) books_money [of L' L] submit_books seal_round_books in auto)

lemma mc_run_books: "mc_run M n b L \<Longrightarrow> n < 2 ^ 128 \<Longrightarrow> b < 2 ^ 128 \<Longrightarrow> books n b L"
proof (induction rule: mc_run.induct)
  case run_start
  then show ?case by (simp add: books_def default_ledger_def)
qed (auto intro: mc_op_books fund_books register_books top_up_books)

lemma register_top_up_error:
  "register_prover_identity L prover bond = (L', Inl e) \<Longrightarrow> L' = L"
  "top_up_prover_bond L prover amount = (L', Inl e) \<Longrightarrow> L' = L"
  by (auto simp: register_prover_identity_def top_up_prover_bond_def Let_def split: if_splits option.splits)

text \<open>Every history of the ledger is such a run.\<close>

lemma mc_change_run: "(mc_change M)\<^sup>*\<^sup>* default_ledger L \<Longrightarrow> \<exists>n b. mc_run M n b L"
proof (induction rule: rtranclp_induct)
  case base
  then show ?case using run_start by blast
next
  case (step L L')
  then obtain n b where run: "mc_run M n b L" by blast
  from step(2) show ?case
  proof (cases rule: mc_change.cases)
    case (mch_register prover bond)
    then show ?thesis using run
      by (cases "register_prover_identity L prover bond"; cases "snd (register_prover_identity L prover bond)")
        (auto dest: register_top_up_error intro: run_register)
  next
    case (mch_top_up prover amount)
    then show ?thesis using run
      by (cases "top_up_prover_bond L prover amount"; cases "snd (top_up_prover_bond L prover amount)")
        (auto dest: register_top_up_error intro: run_top_up)
  qed (use run in \<open>auto intro: run_op run_fund\<close>)
qed

section \<open>Properties\<close>

text \<open>
  C9.  A sealed block is complete: it is one higher than the ledger was, lists every anchor, contains
  every submission that was pending, at most sixteen in all, no range twice, each valid against the
  anchors; its messages are the pending ones without repetition, in strictly ascending order; it
  commits to the forced-inclusion queue of the new state; the pending lists are empty, and the ring
  ends with the block and holds at most 256 blocks.
\<close>

theorem sealed_block_complete:
  assumes "seal_round M L prover = (L', Inr (Some b))"
  shows "mb_height b = sat_add (mc_height L) 1 \<and> mc_height L' = mb_height b
    \<and> mb_shard_anchors b = bt_values (mc_latest_anchors L)
    \<and> (\<exists>qs. mb_validity_proofs b = mc_pending_validity_proofs L @ qs)
    \<and> length (mb_validity_proofs b) \<le> MAX_AGG_PROOFS
    \<and> distinct (map submission_range (mb_validity_proofs b))
    \<and> list_all (\<lambda>p. validate_proof_submission p (mb_shard_anchors b) = Inr ()) (mb_validity_proofs b)
    \<and> cross_shard_key ` set (mb_cross_shard_messages b) = cross_shard_key ` set (mc_pending_cross_shard_messages L)
    \<and> sorted_wrt (<) (map cross_shard_key (mb_cross_shard_messages b))
    \<and> mb_forced_inclusion_queue_root b = mc_queue_root M L'
    \<and> mc_pending_validity_proofs L' = [] \<and> mc_pending_cross_shard_messages L' = []
    \<and> mc_head L' = Some b \<and> length (mc_blocks L') \<le> 256"
proof -
  have busy: "mc_latest_anchors L \<noteq> []" "\<not> nothing_pending L" using assms seal_round_idle [of L M prover] by auto
  obtain qs where op: "mc_pending_validity_proofs (open_round L prover) = mc_pending_validity_proofs L @ qs"
    "mc_height (open_round L prover) = sat_add (mc_height L) 1" "mc_blocks (open_round L prover) = mc_blocks L"
    by (rule open_round_pending)
  obtain ps m sts where dd: "dedupe_submissions (mc_pending_validity_proofs L @ qs) = Inr ps"
    and valid: "first_invalid (bt_values (mc_latest_anchors L)) ps = None"
    and fin: "finish_round M (with_statements (taken_round L prover) m) (bt_values (mc_latest_anchors L)) ps
      (mc_pending_cross_shard_messages L) sts = (L', Inr (Some b))"
    using assms [unfolded seal_round_batch [OF busy] op] by (rule seal_batch_Ok)
  let ?T = "with_statements (taken_round L prover) m"
  from fin show ?thesis
  proof (rule finish_round_Ok)
    fix zk_root agg bd
    assume agg: "aggregate_batch M (mc_height ?T) (global_state_root_from_anchors (mx_keccak256 M) (bt_values (mc_latest_anchors L))) ps
        sts = Inr (zk_root, agg)"
      and b: "Some b = Some (round_block M ?T (bt_values (mc_latest_anchors L)) ps (mc_pending_cross_shard_messages L) zk_root)"
      and L': "L' = (credit_accepted_proofs ?T ps)\<lparr>mc_last_plonky2_bundle := bd,
        mc_blocks := (let bs = mc_blocks ?T @ [round_block M ?T (bt_values (mc_latest_anchors L)) ps
            (mc_pending_cross_shard_messages L) zk_root] in drop (length bs - MAX_BLOCKS) bs),
        mc_pending_anchor_updates := False\<rparr>"
    obtain t c evs where credit: "credit_accepted_proofs ?T ps =
        ?T\<lparr>mc_treasury_balance_wei := t, mc_prover_reward_credits_wei := c, mc_prover_reward_events := evs\<rparr>"
      using credit_pays [of ?T ps] by (auto simp: pays_def)
    have T: "mc_height ?T = sat_add (mc_height L) 1" "mc_pending_validity_proofs ?T = []" "mc_pending_cross_shard_messages ?T = []"
      using op by (simp_all add: taken_round_def)
    have root: "mc_queue_root M L' = mc_queue_root M ?T" by (simp add: L' credit mc_queue_root_def)
    let ?ms = "ordered_cross_shard_messages (mc_pending_cross_shard_messages L)"
    have msgs: "cross_shard_key ` set ?ms = cross_shard_key ` set (mc_pending_cross_shard_messages L)"
      "sorted_wrt (<) (map cross_shard_key ?ms)"
      by (simp_all add: ordered_cross_shard_messages_def dedup_by_keys sorted_dedup_by)
    have b': "mb_height b = mc_height ?T" "mb_shard_anchors b = bt_values (mc_latest_anchors L)" "mb_validity_proofs b = ps"
      "mb_cross_shard_messages b = ?ms" "mb_forced_inclusion_queue_root b = mc_queue_root M ?T"
      using b by (simp_all add: round_block_def masterchain_block_from_anchors_and_messages_def masterchain_block_from_anchors_def)
    have "mc_blocks L' = drop (length (mc_blocks ?T @ [b]) - 256) (mc_blocks ?T @ [b])"
      using b by (simp add: L' MAX_BLOCKS_def Let_def)
    then have ring: "mc_head L' = Some b" "length (mc_blocks L') \<le> 256" by (auto simp: mc_head_def)
    have kept: "mc_height L' = mc_height ?T" "mc_pending_validity_proofs L' = []" "mc_pending_cross_shard_messages L' = []"
      using T by (simp_all add: L' credit)
    have "ps = mc_pending_validity_proofs L @ qs" "distinct (map submission_range ps)" using dedupe_Inr [OF dd] by auto
    then show ?thesis
      using T(1) b' ring kept root msgs valid aggregate_batch_length [OF agg] unfolding first_invalid_None by metis
  qed
qed

text \<open>
  One duplicate voids a round: nothing keeps a submission from being filed twice, and the next
  round then ends in an error that raises the height and drops every pending submission and every
  pending cross-shard message without a block, whatever else was pending.
\<close>

theorem duplicate_submission_voids_round:
  assumes market: "\<not> pm_enabled (mc_prover_market L)" and anchors: "mc_latest_anchors L \<noteq> []"
    and first: "submit_validity_proof M L p = (L1, Inr ())"
  shows "\<exists>L2 L3 e. submit_validity_proof M L1 p = (L2, Inr ())
    \<and> seal_round M L2 prover = (L3, Inl (McSubmission e))
    \<and> mc_pending_validity_proofs L3 = [] \<and> mc_pending_cross_shard_messages L3 = []
    \<and> mc_blocks L3 = mc_blocks L \<and> mc_height L3 = sat_add (mc_height L) 1"
proof -
  have L1: "L1 = L\<lparr>mc_pending_validity_proofs := mc_pending_validity_proofs L @ [p]\<rparr>"
    and ok: "validate_proof_submission p (bt_values (mc_latest_anchors L)) = Inr ()"
    using first market anchors
    by (auto simp: submit_validity_proof_def validate_prover_market_submission_def Let_def split: sum.splits if_splits)
  define L2 where "L2 = L1\<lparr>mc_pending_validity_proofs := mc_pending_validity_proofs L1 @ [p]\<rparr>"
  have second: "submit_validity_proof M L1 p = (L2, Inr ())"
    using ok market anchors
    by (simp add: L2_def L1 submit_validity_proof_def validate_prover_market_submission_def Let_def)
  obtain qs where op: "mc_pending_validity_proofs (open_round L2 prover) = mc_pending_validity_proofs L2 @ qs"
    "mc_height (open_round L2 prover) = sat_add (mc_height L2) 1" "mc_blocks (open_round L2 prover) = mc_blocks L2"
    by (rule open_round_pending)
  obtain e where e: "dedupe_submissions (mc_pending_validity_proofs L2 @ qs) = Inl e"
    using dedupe_duplicate [of "mc_pending_validity_proofs L2 @ qs"] by (auto simp: L2_def L1)
  let ?L3 = "record_all_invalid M (taken_round L2 prover) (mc_pending_validity_proofs L2 @ qs) (submission_reason_code e)"
  have "seal_round M L2 prover = (?L3, Inl (McSubmission e))"
  proof -
    have "mc_latest_anchors L2 \<noteq> []" "\<not> nothing_pending L2" using anchors by (auto simp: L2_def L1 nothing_pending_def)
    then show ?thesis using e by (simp add: seal_round_batch op seal_batch_def)
  qed
  moreover have "slashes (taken_round L2 prover) ?L3" by (rule record_all_slashes)
  then have "mc_pending_validity_proofs ?L3 = [] \<and> mc_pending_cross_shard_messages ?L3 = []
    \<and> mc_blocks ?L3 = mc_blocks L \<and> mc_height ?L3 = sat_add (mc_height L) 1"
    using op by (auto simp: slashes_def taken_round_def L2_def L1)
  ultimately show ?thesis using second by blast
qed

text \<open>
  C27.  Refinement: the ledger starts as the empty forced-inclusion machine, and every operation of it,
  sealing a round included, whether it succeeds or fails, is a sequence of steps of that machine on
  the height, the waiting requests, the events and the settled ids.
\<close>

theorem masterchain_refines_forced_queue:
  "mc_queue default_ledger = fq_empty \<and>
   (\<forall>L L'. mc_change M L L' \<longrightarrow> fq_step\<^sup>*\<^sup>* (mc_queue L) (mc_queue L'))"
  using masterchain.start_empty masterchain.change_refines by blast

text \<open>
  C28.  The money of the provers is accounted for: after every history in which the amounts paid in and
  the bonds each stay below \<open>2\<^sup>1\<^sup>2\<^sup>8\<close>, the treasury and the credits sum to what was paid in, the reward
  events to the credits, the bonds and what was burned to what was bonded; no evidence is slashed
  twice, and an event burns at most the slash amount out of the bond it names.
\<close>

theorem prover_money_accounted:
  assumes "mc_run M n b L" and "n < 2 ^ 128" and "b < 2 ^ 128"
  shows "unat (mc_treasury_balance_wei L) + map_total unat (mc_prover_reward_credits_wei L) = n
    \<and> sum_list (map (\<lambda>e. unat (re_reward_wei e)) (mc_prover_reward_events L)) = map_total unat (mc_prover_reward_credits_wei L)
    \<and> map_total (\<lambda>i. unat (id_bond_wei i)) (mc_prover_identities L)
        + sum_list (map (\<lambda>e. unat (ie_burned_bond_wei e)) (mc_invalid_proof_slash_events L)) = b
    \<and> distinct (map ie_evidence_hash (mc_invalid_proof_slash_events L))
    \<and> list_all slash_event_ok (mc_invalid_proof_slash_events L)"
  using mc_run_books [OF assms] by (simp add: books_def)

section \<open>Concrete instance\<close>

definition sample_mc :: "bytes mc_ext" where
  "sample_mc = \<lparr>mx_zone = sample_zone_ext, mx_plonky = sample_plonky,
     mx_borsh_evidence = (\<lambda>(tag, h, p, reason, amount). tag @ be_bytes 8 h @ be_bytes 32 (ps_proof_digest p) @ [reason])\<rparr>"

definition sample_anchor :: shard_anchor where
  "sample_anchor = \<lparr>sa_shard_id = 1, sa_block_height = 9, sa_state_root = 5, sa_witness_commitment = 6\<rparr>"

definition anchored :: masterchain_ledger where
  "anchored = fst (ingest_shard_anchor default_ledger sample_anchor)"

lemma anchored_eq: "anchored = default_ledger\<lparr>mc_latest_anchors := [(1, sample_anchor)], mc_pending_anchor_updates := True\<rparr>"
  by (simp add: anchored_def ingest_shard_anchor_def default_ledger_def sample_anchor_def Let_def)

lemma sample_submission_valid: "validate_proof_submission (sample_submission 1) [sample_anchor] = Inr ()"
  by (simp add: validate_proof_submission_def sample_submission_def sample_anchor_def word_less_nat_alt)

lemma sample_submitted:
  "submit_validity_proof sample_mc anchored (sample_submission 1) =
     (anchored\<lparr>mc_pending_validity_proofs := [sample_submission 1]\<rparr>, Inr ())"
  by (simp add: submit_validity_proof_def validate_prover_market_submission_def anchored_eq default_ledger_def
      market_disabled_def Let_def sample_submission_valid)

lemma anchored_fields:
  "\<not> pm_enabled (mc_prover_market anchored)" "mc_latest_anchors anchored \<noteq> []" "mc_blocks anchored = []" "mc_height anchored = 0"
  by (simp_all add: anchored_eq default_ledger_def market_disabled_def)

theorem duplicate_submission_voids_round_witness:
  "\<exists>L2 L3 e. submit_validity_proof sample_mc (fst (submit_validity_proof sample_mc anchored (sample_submission 1))) (sample_submission 1) = (L2, Inr ())
    \<and> seal_round sample_mc L2 7 = (L3, Inl (McSubmission e)) \<and> mc_pending_validity_proofs L3 = []
    \<and> mc_blocks L3 = [] \<and> mc_height L3 = 1"
proof -
  have "sat_add 0 1 = (1 :: u64)" by (simp add: sat_add_def)
  then show ?thesis
    using duplicate_submission_voids_round [OF anchored_fields(1,2) sample_submitted, of 7]
    unfolding anchored_fields(3,4) sample_submitted fst_conv by metis
qed

text \<open>A round with one anchor and one submission is sealed.\<close>

lemma sample_round_sealed:
  "\<exists>L' b. seal_round sample_mc (fst (submit_validity_proof sample_mc anchored (sample_submission 1))) 7 = (L', Inr (Some b))"
proof -
  let ?L = "anchored\<lparr>mc_pending_validity_proofs := [sample_submission 1]\<rparr>"
  have "open_round ?L 7 = ?L\<lparr>mc_height := 1\<rparr>"
    by (simp add: open_round_def anchored_eq default_ledger_def flush_stwo_digests_for_anchor_def
        mc_flush_due_forced_inclusions_def Let_def sat_add_def)
  moreover have "mc_latest_anchors ?L = [(1, sample_anchor)]" "\<not> nothing_pending ?L"
    by (simp_all add: anchored_eq nothing_pending_def)
  moreover have "mc_pending_verified_stwo_statements anchored = Map.empty" "\<not> sp_enabled (mc_proof_slashing_policy anchored)"
    by (simp_all add: anchored_eq default_ledger_def default_slashing_policy_def)
  ultimately have "\<exists>L' b. seal_round sample_mc ?L 7 = (L', Inr (Some b))"
    by (simp add: seal_round_def seal_batch_def dedupe_submissions_def first_invalid_def sample_submission_valid finish_round_def
        aggregate_batch_def sample_aggregates sample_mc_def MAX_AGG_PROOFS_def Let_def)
  then show ?thesis unfolding sample_submitted fst_conv .
qed

theorem sealed_block_complete_witness:
  "\<exists>L' b. seal_round sample_mc (fst (submit_validity_proof sample_mc anchored (sample_submission 1))) 7 = (L', Inr (Some b))
     \<and> mb_height b = 1 \<and> mb_shard_anchors b = [sample_anchor] \<and> sample_submission 1 \<in> set (mb_validity_proofs b)
     \<and> mc_head L' = Some b"
proof -
  obtain L' b where seal: "seal_round sample_mc (fst (submit_validity_proof sample_mc anchored (sample_submission 1))) 7 = (L', Inr (Some b))"
    using sample_round_sealed by blast
  have "mc_height (fst (submit_validity_proof sample_mc anchored (sample_submission 1))) = 0"
    "mc_latest_anchors (fst (submit_validity_proof sample_mc anchored (sample_submission 1))) = [(1, sample_anchor)]"
    "mc_pending_validity_proofs (fst (submit_validity_proof sample_mc anchored (sample_submission 1))) = [sample_submission 1]"
    unfolding sample_submitted by (simp_all add: anchored_eq default_ledger_def)
  then show ?thesis using seal sealed_block_complete [OF seal] by (auto simp: sat_add_def)
qed

definition sample_zone_metadata :: execution_zone_metadata where
  "sample_zone_metadata = \<lparr>zm_version = 1, zm_proof_system = 1, zm_da_namespace = 7, zm_sequencer_policy = 0,
     zm_forced_inclusion_timeout_masterchain_blocks = 3\<rparr>"

definition zoned :: masterchain_ledger where
  "zoned = fst (create_execution_zone default_ledger 1 11 sample_zone_metadata)"

theorem masterchain_refines_forced_queue_witness:
  "\<exists>L' r. mc_submit_forced_inclusion sample_mc zoned 1 99 1234 [5] = (L', Inr r)
     \<and> fq_step\<^sup>*\<^sup>* (mc_queue zoned) (mc_queue L') \<and> fq_pending (mc_queue L') = [r]"
proof -
  have "\<exists>L' r. mc_submit_forced_inclusion sample_mc zoned 1 99 1234 [5] = (L', Inr r) \<and> fq_pending (mc_queue L') = [r]"
    by (simp add: mc_submit_forced_inclusion_def zoned_def create_execution_zone_def sample_zone_metadata_def default_ledger_def
        queued_ids_def Let_def mc_queue_def)
  then obtain L' r where sub: "mc_submit_forced_inclusion sample_mc zoned 1 99 1234 [5] = (L', Inr r)" "fq_pending (mc_queue L') = [r]"
    by blast
  have "mc_op sample_mc zoned L'" using mco_file [of sample_mc zoned 1 99 1234 "[5]"] by (simp add: sub)
  then show ?thesis using sub masterchain_refines_forced_queue [of sample_mc] mch_op by blast
qed

text \<open>A prover bonds 50, the treasury holds 100, and a submission without a digest costs 20 of the bond.\<close>

definition slashing_ledger :: masterchain_ledger where
  "slashing_ledger = set_proof_slashing_policy
     (fst (register_prover_identity (fund_prover_treasury default_ledger 100) 9 50))
     \<lparr>sp_enabled = True, sp_require_verified_stwo = False, sp_slash_amount_wei = 20\<rparr>"

definition slashed_ledger :: masterchain_ledger where
  "slashed_ledger = fst (submit_validity_proof sample_mc slashing_ledger ((sample_submission 1)\<lparr>ps_proof_digest := 0\<rparr>))"

lemma slashed_run: "mc_run sample_mc (0 + unat (100 :: u128)) (0 + unat (50 :: u128)) slashed_ledger"
  unfolding slashed_ledger_def slashing_ledger_def
proof (intro run_op [OF _ mco_submit] run_op [OF _ mco_policy])
  let ?F = "fund_prover_treasury default_ledger 100"
  have "\<exists>i. register_prover_identity ?F 9 50 = (fst (register_prover_identity ?F 9 50), Inr i)"
    by (simp add: register_prover_identity_def fund_prover_treasury_def default_ledger_def market_disabled_def Let_def)
  then show "mc_run sample_mc (0 + unat (100 :: u128)) (0 + unat (50 :: u128)) (fst (register_prover_identity ?F 9 50))"
    using run_register [OF run_fund [OF run_start]] by blast
qed

lemma slashed_events: "map ie_burned_bond_wei (mc_invalid_proof_slash_events slashed_ledger) = [20]"
  by (simp add: slashed_ledger_def slashing_ledger_def submit_validity_proof_def validate_prover_market_submission_def
      set_proof_slashing_policy_def register_prover_identity_def fund_prover_treasury_def default_ledger_def market_disabled_def
      record_invalid_submission_def execute_invalid_proof_slash_def sample_submission_def Let_def min_def word_le_nat_alt)

theorem prover_money_accounted_witness:
  "unat (mc_treasury_balance_wei slashed_ledger) + map_total unat (mc_prover_reward_credits_wei slashed_ledger) = 100
   \<and> map_total (\<lambda>i. unat (id_bond_wei i)) (mc_prover_identities slashed_ledger) = 30"
proof -
  have "map (\<lambda>e. unat (ie_burned_bond_wei e)) (mc_invalid_proof_slash_events slashed_ledger) =
      map unat (map ie_burned_bond_wei (mc_invalid_proof_slash_events slashed_ledger))" by simp
  then show ?thesis using prover_money_accounted [OF slashed_run] by (simp add: slashed_events)
qed

end
