(* ===== verification/Wallet_Capabilities.thy ===== *)
theory Wallet_Capabilities
  imports Fractal_Prelude
begin

text \<open>
  The capabilities of the agent wallet (\<open>crates/wallet/src\<close>: \<open>types.rs\<close>, \<open>caveat.rs\<close>,
  \<open>capability.rs\<close>, \<open>emergency.rs\<close>, \<open>lib.rs\<close>): tool classes, scopes, caveats, signed capability
  tokens, the attenuation check for delegated tokens, and the emergency stop.

  The meaning of a capability is stated as a predicate on histories of tool uses, after the
  restriction vocabulary of \<open>docs/wallet.md\<close> 4.3 and 4.4.  The lemmas show that each check of the
  code is sound for that meaning, so that a chain of attenuated tokens never allows more than its
  root does, and that an emergency rule that stops a scope stops every scope below it.
\<close>

unbundle bit_operations_syntax

section \<open>Identifiers and tool classes\<close>

type_synonym amount = u128
type_synonym timestamp_ms = u64
type_synonym workspace_id = u64
type_synonym task_id = u64
type_synonym provider_id = hash256
type_synonym signing_key = hash256

datatype tool_class = Browser | LlmInference | TestRunner | FileStorage | WebScrape | GithubRead | GithubWrite
  | Embedding | GpuJob | DatabaseQuery | EmailSend | VectorSearch | Ocr | CodeExecution

fun tool_discriminant :: "tool_class \<Rightarrow> nat" where
  "tool_discriminant Browser = 0"
| "tool_discriminant LlmInference = 1"
| "tool_discriminant TestRunner = 2"
| "tool_discriminant FileStorage = 3"
| "tool_discriminant WebScrape = 4"
| "tool_discriminant GithubRead = 5"
| "tool_discriminant GithubWrite = 6"
| "tool_discriminant Embedding = 7"
| "tool_discriminant GpuJob = 8"
| "tool_discriminant DatabaseQuery = 9"
| "tool_discriminant EmailSend = 10"
| "tool_discriminant VectorSearch = 11"
| "tool_discriminant Ocr = 12"
| "tool_discriminant CodeExecution = 13"

definition TOOL_COUNT :: nat where "TOOL_COUNT = 14"

definition VARIANTS :: "tool_class list" where
  "VARIANTS = [Browser, LlmInference, TestRunner, FileStorage, WebScrape, GithubRead, GithubWrite, Embedding, GpuJob,
     DatabaseQuery, EmailSend, VectorSearch, Ocr, CodeExecution]"

definition tool_bit :: "tool_class \<Rightarrow> u64" where
  "tool_bit c = push_bit (tool_discriminant c) 1"

definition from_bit :: "u32 \<Rightarrow> tool_class option" where
  "from_bit b =
     (if b = 0 then Some Browser else if b = 1 then Some LlmInference else if b = 2 then Some TestRunner
      else if b = 3 then Some FileStorage else if b = 4 then Some WebScrape else if b = 5 then Some GithubRead
      else if b = 6 then Some GithubWrite else if b = 7 then Some Embedding else if b = 8 then Some GpuJob
      else if b = 9 then Some DatabaseQuery else if b = 10 then Some EmailSend else if b = 11 then Some VectorSearch
      else if b = 12 then Some Ocr else if b = 13 then Some CodeExecution else None)"

definition from_discriminant :: "u8 \<Rightarrow> tool_class option" where
  "from_discriminant d = from_bit (ucast d)"

definition all_phase1_mask :: u64 where
  "all_phase1_mask = tool_bit Browser OR tool_bit LlmInference OR tool_bit TestRunner OR tool_bit FileStorage"

definition phase2_tool_class_mask :: u64 where
  "phase2_tool_class_mask = tool_bit GithubRead OR tool_bit GithubWrite OR tool_bit DatabaseQuery OR tool_bit CodeExecution"

definition all_v2_catalog_mask :: u64 where
  "all_v2_catalog_mask = push_bit TOOL_COUNT 1 - 1"

datatype verification_tier = Trusted | Optimistic | Attested | Replicated | Proven

fun default_verification_tier :: "tool_class \<Rightarrow> verification_tier" where
  "default_verification_tier GithubRead = Trusted"
| "default_verification_tier GithubWrite = Attested"
| "default_verification_tier GpuJob = Attested"
| "default_verification_tier DatabaseQuery = Attested"
| "default_verification_tier EmailSend = Attested"
| "default_verification_tier CodeExecution = Attested"
| "default_verification_tier _ = Optimistic"

datatype tee_type = IntelTdx | AmdSevSnp | AwsNitro

text \<open>The derived order of tool classes is the order of the discriminants.\<close>

lemma tool_discriminant_inject [simp]: "tool_discriminant c = tool_discriminant d \<longleftrightarrow> c = d"
  by (cases c; cases d) simp_all

instantiation tool_class :: linorder
begin

definition less_eq_tool_class :: "tool_class \<Rightarrow> tool_class \<Rightarrow> bool" where
  "less_eq_tool_class c d \<longleftrightarrow> tool_discriminant c \<le> tool_discriminant d"

definition less_tool_class :: "tool_class \<Rightarrow> tool_class \<Rightarrow> bool" where
  "less_tool_class c d \<longleftrightarrow> tool_discriminant c < tool_discriminant d"

instance
  by standard (auto simp: less_eq_tool_class_def less_tool_class_def)

end

section \<open>Scopes\<close>

record scope =
  so_workspace_id :: "workspace_id option"
  so_project_id :: "u64 option"
  so_task_id :: "task_id option"
  so_tool_class_mask :: u64
  so_providers :: "provider_id set option"

definition mask_subset :: "u64 \<Rightarrow> u64 \<Rightarrow> bool" where
  "mask_subset child parent \<longleftrightarrow> child AND parent = child"

fun opt_id_subset :: "u64 option \<Rightarrow> u64 option \<Rightarrow> bool" where
  "opt_id_subset _ None = True"
| "opt_id_subset None (Some _) = False"
| "opt_id_subset (Some c) (Some p) = (c = p)"

fun providers_subset :: "provider_id set option \<Rightarrow> provider_id set option \<Rightarrow> bool" where
  "providers_subset _ None = True"
| "providers_subset None (Some _) = False"
| "providers_subset (Some cs) (Some ps) = (cs \<subseteq> ps)"

definition is_subset_of :: "scope \<Rightarrow> scope \<Rightarrow> bool" where
  "is_subset_of s parent =
     (if \<not> mask_subset (so_tool_class_mask s) (so_tool_class_mask parent) then False
      else if \<not> opt_id_subset (so_workspace_id s) (so_workspace_id parent) then False
      else if \<not> opt_id_subset (so_project_id s) (so_project_id parent) then False
      else if \<not> opt_id_subset (so_task_id s) (so_task_id parent) then False
      else providers_subset (so_providers s) (so_providers parent))"

section \<open>Caveats\<close>

datatype caveat =
    MaxTotalSpend amount
  | MaxPerCallSpend tool_class amount
  | RateLimit tool_class u32 u32
  | RequireApprovalAbove amount
  | OutputCommitmentRequired tool_class
  | TeeAttestationRequired tool_class tee_type

fun is_stricter_or_equal :: "caveat \<Rightarrow> caveat \<Rightarrow> bool" where
  "is_stricter_or_equal (MaxTotalSpend a) (MaxTotalSpend b) = (a \<le> b)"
| "is_stricter_or_equal (MaxPerCallSpend c1 m1) (MaxPerCallSpend c2 m2) = (c1 = c2 \<and> m1 \<le> m2)"
| "is_stricter_or_equal (RateLimit c1 n1 w1) (RateLimit c2 n2 w2) = (c1 = c2 \<and> n1 \<le> n2 \<and> w1 = w2)"
| "is_stricter_or_equal (RequireApprovalAbove a) (RequireApprovalAbove b) = (a \<le> b)"
| "is_stricter_or_equal (OutputCommitmentRequired c1) (OutputCommitmentRequired c2) = (c1 = c2)"
| "is_stricter_or_equal (TeeAttestationRequired c1 t1) (TeeAttestationRequired c2 t2) = (c1 = c2 \<and> t1 = t2)"
| "is_stricter_or_equal _ _ = False"

fun caveats_attenuate_parent :: "caveat list \<Rightarrow> caveat list \<Rightarrow> bool" where
  "caveats_attenuate_parent [] child = True"
| "caveats_attenuate_parent (p # ps) child =
     (if \<not> list_ex (\<lambda>c. is_stricter_or_equal c p) child then False else caveats_attenuate_parent ps child)"

section \<open>Capability tokens\<close>

record capability_sign_body =
  cb_version :: u16
  cb_cap_id :: hash256
  cb_chain_id :: u32
  cb_issuer :: pubkey32
  cb_subject :: pubkey32
  cb_parent_cap_id :: "hash256 option"
  cb_scope :: scope
  cb_caveats :: "caveat list"
  cb_budget_account :: u64
  cb_not_before :: timestamp_ms
  cb_not_after :: timestamp_ms
  cb_nonce :: u64

record capability_token =
  cap_body :: capability_sign_body
  cap_signature :: sig64

datatype capability_verify_error = CapBadSignature | CapOutsideValidity | CapEmptyToolMask | CapBadIssuerKey

text \<open>The signature scheme and the hash of the wallet are third-party code.\<close>

record wallet_crypto =
  wc_key_ok :: "pubkey32 \<Rightarrow> bool"
  wc_verify :: "pubkey32 \<Rightarrow> bytes \<Rightarrow> sig64 \<Rightarrow> bool"
  wc_public :: "signing_key \<Rightarrow> pubkey32"
  wc_sign :: "signing_key \<Rightarrow> bytes \<Rightarrow> sig64"
  wc_blake3 :: "bytes \<Rightarrow> hash256"

definition capability_sign ::
    "wallet_crypto \<Rightarrow> (capability_sign_body \<Rightarrow> bytes option) \<Rightarrow> capability_sign_body \<Rightarrow> signing_key \<Rightarrow> capability_token option" where
  "capability_sign W enc body issuer =
     map_option (\<lambda>msg. \<lparr>cap_body = body, cap_signature = wc_sign W issuer msg\<rparr>) (enc body)"

definition capability_verify ::
    "wallet_crypto \<Rightarrow> (capability_sign_body \<Rightarrow> bytes option) \<Rightarrow> capability_token \<Rightarrow> capability_verify_error + unit" where
  "capability_verify W enc t =
     (if \<not> wc_key_ok W (cb_issuer (cap_body t)) then Inl CapBadIssuerKey
      else case enc (cap_body t) of
          None \<Rightarrow> Inl CapBadSignature
        | Some msg \<Rightarrow> if wc_verify W (cb_issuer (cap_body t)) msg (cap_signature t) then Inr () else Inl CapBadSignature)"

definition verify_time ::
    "wallet_crypto \<Rightarrow> (capability_sign_body \<Rightarrow> bytes option) \<Rightarrow> capability_token \<Rightarrow> timestamp_ms \<Rightarrow>
     capability_verify_error + unit" where
  "verify_time W enc t now =
     (case capability_verify W enc t of
        Inl e \<Rightarrow> Inl e
      | Inr _ \<Rightarrow> if now < cb_not_before (cap_body t) \<or> cb_not_after (cap_body t) < now then Inl CapOutsideValidity else Inr ())"

definition verify_autonomous_tool_mask :: "capability_token \<Rightarrow> capability_verify_error + unit" where
  "verify_autonomous_tool_mask t =
     (if so_tool_class_mask (cb_scope (cap_body t)) = 0 then Inl CapEmptyToolMask else Inr ())"

definition verify_attenuation_from_parent :: "capability_sign_body \<Rightarrow> capability_sign_body \<Rightarrow> bool" where
  "verify_attenuation_from_parent child parent =
     (if cb_parent_cap_id child \<noteq> Some (cb_cap_id parent) then False
      else if cb_chain_id child \<noteq> cb_chain_id parent then False
      else if cb_not_before child < cb_not_before parent then False
      else if cb_not_after parent < cb_not_after child then False
      else if \<not> is_subset_of (cb_scope child) (cb_scope parent) then False
      else caveats_attenuate_parent (cb_caveats parent) (cb_caveats child))"

definition derive_cap_id :: "wallet_crypto \<Rightarrow> bytes \<Rightarrow> u64 \<Rightarrow> hash256" where
  "derive_cap_id W root_secret serial = wc_blake3 W (root_secret @ rev (be_bytes 8 serial))"

definition verify_capability_with_revocation ::
    "wallet_crypto \<Rightarrow> (capability_sign_body \<Rightarrow> bytes option) \<Rightarrow> capability_token \<Rightarrow> timestamp_ms \<Rightarrow>
     hash256 \<Rightarrow> hash256 list \<Rightarrow> hash256 list \<Rightarrow> capability_verify_error + unit" where
  "verify_capability_with_revocation W enc t now revocation_root ancestor_chain path =
     (case verify_time W enc t now of Inl e \<Rightarrow> Inl e | Inr _ \<Rightarrow> verify_autonomous_tool_mask t)"

section \<open>Emergency stop\<close>

datatype emergency_level =
    Global
  | Workspace workspace_id
  | Project workspace_id u64
  | Task workspace_id u64 task_id

record emergency_registry =
  er_rules :: "emergency_level list"

definition activate :: "emergency_registry \<Rightarrow> emergency_level \<Rightarrow> emergency_registry" where
  "activate r level = r\<lparr>er_rules := er_rules r @ [level]\<rparr>"

definition clear_rules :: "emergency_registry \<Rightarrow> emergency_registry" where
  "clear_rules r = r\<lparr>er_rules := []\<rparr>"

fun rule_covers :: "emergency_level \<Rightarrow> scope \<Rightarrow> bool" where
  "rule_covers Global cap = True"
| "rule_covers (Workspace w) cap = (so_workspace_id cap = Some w)"
| "rule_covers (Project w p) cap = (so_workspace_id cap = Some w \<and> so_project_id cap = Some p)"
| "rule_covers (Task w p t) cap = (so_workspace_id cap = Some w \<and> so_project_id cap = Some p \<and> so_task_id cap = Some t)"

definition emergency_blocks :: "emergency_registry \<Rightarrow> scope \<Rightarrow> bool" where
  "emergency_blocks r cap = list_ex (\<lambda>rule. rule_covers rule cap) (er_rules r)"

section \<open>What a capability allows\<close>

record tool_use =
  tu_workspace :: workspace_id
  tu_project :: u64
  tu_task :: task_id
  tu_class :: tool_class
  tu_provider :: provider_id
  tu_time :: timestamp_ms
  tu_amount :: amount
  tu_approved :: bool
  tu_output :: hash256
  tu_tee :: "tee_type option"

definition id_allows :: "u64 option \<Rightarrow> u64 \<Rightarrow> bool" where
  "id_allows restriction x \<longleftrightarrow> (case restriction of None \<Rightarrow> True | Some p \<Rightarrow> x = p)"

definition provider_allows :: "provider_id set option \<Rightarrow> provider_id \<Rightarrow> bool" where
  "provider_allows restriction x \<longleftrightarrow> (case restriction of None \<Rightarrow> True | Some ps \<Rightarrow> x \<in> ps)"

definition scope_permits :: "scope \<Rightarrow> tool_use \<Rightarrow> bool" where
  "scope_permits s u \<longleftrightarrow> id_allows (so_workspace_id s) (tu_workspace u) \<and> id_allows (so_project_id s) (tu_project u)
     \<and> id_allows (so_task_id s) (tu_task u) \<and> bit (so_tool_class_mask s) (tool_discriminant (tu_class u))
     \<and> provider_allows (so_providers s) (tu_provider u)"

text \<open>A rate limit bounds the uses in every window; the windows that start at a use are the decisive ones.\<close>

definition uses_in_window :: "tool_class \<Rightarrow> u32 \<Rightarrow> tool_use list \<Rightarrow> tool_use \<Rightarrow> tool_use list" where
  "uses_in_window c w h v =
     filter (\<lambda>u. tu_class u = c \<and> tu_time v \<le> tu_time u \<and> unat (tu_time u) < unat (tu_time v) + 1000 * unat w) h"

fun caveat_holds :: "caveat \<Rightarrow> tool_use list \<Rightarrow> bool" where
  "caveat_holds (MaxTotalSpend a) h = (sum_list (map (\<lambda>u. unat (tu_amount u)) h) \<le> unat a)"
| "caveat_holds (MaxPerCallSpend c m) h = list_all (\<lambda>u. tu_class u = c \<longrightarrow> tu_amount u \<le> m) h"
| "caveat_holds (RateLimit c n w) h = list_all (\<lambda>v. length (uses_in_window c w h v) \<le> unat n) h"
| "caveat_holds (RequireApprovalAbove a) h = list_all (\<lambda>u. a < tu_amount u \<longrightarrow> tu_approved u) h"
| "caveat_holds (OutputCommitmentRequired c) h = list_all (\<lambda>u. tu_class u = c \<longrightarrow> tu_output u \<noteq> 0) h"
| "caveat_holds (TeeAttestationRequired c t) h = list_all (\<lambda>u. tu_class u = c \<longrightarrow> tu_tee u = Some t) h"

definition authorises :: "capability_sign_body \<Rightarrow> tool_use list \<Rightarrow> bool" where
  "authorises b h \<longleftrightarrow>
     list_all (\<lambda>u. cb_not_before b \<le> tu_time u \<and> tu_time u \<le> cb_not_after b \<and> scope_permits (cb_scope b) u) h
     \<and> list_all (\<lambda>c. caveat_holds c h) (cb_caveats b)"

section \<open>Attenuation is sound\<close>

lemma stricter_holds: "is_stricter_or_equal c p \<Longrightarrow> caveat_holds c h \<Longrightarrow> caveat_holds p h"
  by (cases "(c, p)" rule: is_stricter_or_equal.cases) (auto simp: word_le_nat_alt word_less_nat_alt list_all_iff)

lemma caveats_attenuate_iff:
  "caveats_attenuate_parent ps cs \<longleftrightarrow> list_all (\<lambda>p. list_ex (\<lambda>c. is_stricter_or_equal c p) cs) ps"
  by (induction ps) auto

lemma mask_subset_bits: "mask_subset c p \<longleftrightarrow> (\<forall>i. bit c i \<longrightarrow> bit p i)"
proof
  assume "mask_subset c p"
  then have "bit c i = (bit c i \<and> bit p i)" for i unfolding mask_subset_def by (metis bit_and_iff)
  then show "\<forall>i. bit c i \<longrightarrow> bit p i" by blast
qed (auto simp: mask_subset_def bit_and_iff intro!: bit_eqI)

lemma opt_id_subset_allows: "opt_id_subset c p \<Longrightarrow> id_allows c x \<Longrightarrow> id_allows p x"
  by (cases "(c, p)" rule: opt_id_subset.cases) (auto simp: id_allows_def)

lemma providers_subset_allows: "providers_subset c p \<Longrightarrow> provider_allows c x \<Longrightarrow> provider_allows p x"
  by (cases "(c, p)" rule: providers_subset.cases) (auto simp: provider_allows_def)

lemma subset_permits: "is_subset_of s p \<Longrightarrow> scope_permits s u \<Longrightarrow> scope_permits p u"
  unfolding is_subset_of_def scope_permits_def mask_subset_bits
  by (auto split: if_splits intro: opt_id_subset_allows providers_subset_allows)

lemma attenuation_sound:
  assumes "verify_attenuation_from_parent c p" and "authorises c h"
  shows "authorises p h"
proof -
  have att: "cb_not_before p \<le> cb_not_before c" "cb_not_after c \<le> cb_not_after p"
    "is_subset_of (cb_scope c) (cb_scope p)"
    "list_all (\<lambda>q. list_ex (\<lambda>c. is_stricter_or_equal c q) (cb_caveats c)) (cb_caveats p)"
    using assms(1) by (auto simp: verify_attenuation_from_parent_def caveats_attenuate_iff not_less split: if_splits)
  have "list_all (\<lambda>q. caveat_holds q h) (cb_caveats p)"
    using att(4) assms(2) by (auto simp: authorises_def list_all_iff list_ex_iff) (meson stricter_holds)
  then show ?thesis
    using att(1-3) assms(2) by (auto simp: authorises_def list_all_iff intro: order_trans subset_permits)
qed

lemma attenuation_chain: "verify_attenuation_from_parent c p \<Longrightarrow> cb_chain_id c = cb_chain_id p"
  by (auto simp: verify_attenuation_from_parent_def split: if_splits)

lemma of_discriminant:
  assumes "i < 14"
  obtains c where "tool_discriminant c = i"
proof -
  have "\<forall>i < length VARIANTS. tool_discriminant (VARIANTS ! i) = i" by (simp add: VARIANTS_def All_less_Suc)
  moreover have "length VARIANTS = 14" by (simp add: VARIANTS_def)
  ultimately show thesis using assms that by metis
qed

section \<open>Emergency rules reach down\<close>

lemma opt_id_subset_Some: "opt_id_subset c (Some p) \<Longrightarrow> c = Some p"
  by (cases c) auto

lemma rule_covers_subset: "is_subset_of s p \<Longrightarrow> rule_covers r p \<Longrightarrow> rule_covers r s"
  by (cases r) (auto simp: is_subset_of_def split: if_splits dest: opt_id_subset_Some)

section \<open>Properties\<close>

text \<open>
  C16.  Delegation never widens authority: along a chain of capability bodies of which each passes the
  attenuation check against the one before, every history of tool uses that the last one allows
  (times, scope and all caveats) the first one allows too, on the same chain; and an emergency rule
  that stops the first one stops the last one.
\<close>

theorem delegation_never_widens:
  assumes "successively (\<lambda>p c. verify_attenuation_from_parent c p) bodies" and "bodies \<noteq> []"
    and "authorises (last bodies) h"
  shows "authorises (hd bodies) h \<and> cb_chain_id (last bodies) = cb_chain_id (hd bodies)
    \<and> (emergency_blocks reg (cb_scope (hd bodies)) \<longrightarrow> emergency_blocks reg (cb_scope (last bodies)))"
  using assms
proof (induction bodies)
  case (Cons b bodies)
  show ?case
  proof (cases bodies)
    case (Cons c rest)
    have step: "verify_attenuation_from_parent c b" using Cons.prems(1) Cons by simp
    have IH: "authorises c h" "cb_chain_id (last bodies) = cb_chain_id c"
      "emergency_blocks reg (cb_scope c) \<longrightarrow> emergency_blocks reg (cb_scope (last bodies))"
      using Cons.IH Cons.prems Cons by (auto simp: successively_Cons)
    have "is_subset_of (cb_scope c) (cb_scope b)"
      using step by (auto simp: verify_attenuation_from_parent_def split: if_splits)
    then have "emergency_blocks reg (cb_scope b) \<longrightarrow> emergency_blocks reg (cb_scope c)"
      by (auto simp: emergency_blocks_def list_ex_iff intro: rule_covers_subset)
    then show ?thesis
      using IH attenuation_sound [OF step] attenuation_chain [OF step] Cons by auto
  qed (use Cons.prems in simp)
qed simp

text \<open>
  The scope check is exact: for a scope that permits some use, with a mask of known classes, it
  passes precisely when every use that the scope permits is permitted by the parent, a parent list
  of all providers there could be apart.
\<close>

theorem scope_check_exact:
  assumes some: "scope_permits s u" and known: "so_tool_class_mask s AND all_v2_catalog_mask = so_tool_class_mask s"
    and proper: "so_providers p \<noteq> Some UNIV"
  shows "is_subset_of s p \<longleftrightarrow> (\<forall>v. scope_permits s v \<longrightarrow> scope_permits p v)"
proof
  assume incl: "\<forall>v. scope_permits s v \<longrightarrow> scope_permits p v"
  have upd: "scope_permits p (f u)" if "scope_permits s (f u)" for f using incl that by blast
  have id: "opt_id_subset a b" if "id_allows a x" "\<And>y. id_allows a y \<Longrightarrow> id_allows b y" for a b x
    using that(1) that(2) [of x] that(2) [of "x + 1"] by (cases a; cases b) (auto simp: id_allows_def)
  have "opt_id_subset (so_workspace_id s) (so_workspace_id p)"
    using some upd [of "\<lambda>u. u\<lparr>tu_workspace := y\<rparr>" for y] by (intro id [of _ "tu_workspace u"]) (auto simp: scope_permits_def)
  moreover have "opt_id_subset (so_project_id s) (so_project_id p)"
    using some upd [of "\<lambda>u. u\<lparr>tu_project := y\<rparr>" for y] by (intro id [of _ "tu_project u"]) (auto simp: scope_permits_def)
  moreover have "opt_id_subset (so_task_id s) (so_task_id p)"
    using some upd [of "\<lambda>u. u\<lparr>tu_task := y\<rparr>" for y] by (intro id [of _ "tu_task u"]) (auto simp: scope_permits_def)
  moreover have "mask_subset (so_tool_class_mask s) (so_tool_class_mask p)"
    unfolding mask_subset_bits
  proof (intro allI impI)
    fix i assume i: "bit (so_tool_class_mask s) i"
    then have "bit all_v2_catalog_mask i" using known by (metis bit_and_iff)
    moreover have "all_v2_catalog_mask = mask 14"
      by (simp add: all_v2_catalog_mask_def TOOL_COUNT_def mask_eq_exp_minus_1 push_bit_eq_mult)
    ultimately have "i < 14" by (metis bit_mask_iff)
    then obtain c where c: "tool_discriminant c = i" by (rule of_discriminant)
    show "bit (so_tool_class_mask p) i"
      using some i c upd [of "\<lambda>u. u\<lparr>tu_class := c\<rparr>"] by (auto simp: scope_permits_def)
  qed
  moreover have "providers_subset (so_providers s) (so_providers p)"
  proof (cases "so_providers p")
    case (Some ps)
    then obtain y where y: "y \<notin> ps" using proper by auto
    have upd: "provider_allows (so_providers s) x \<Longrightarrow> x \<in> ps" for x
      using some Some upd [of "\<lambda>u. u\<lparr>tu_provider := x\<rparr>"] by (simp add: scope_permits_def provider_allows_def)
    show ?thesis
    proof (cases "so_providers s")
      case None
      then show ?thesis using upd [of y] y by (simp add: provider_allows_def)
    qed (use Some upd in \<open>auto simp: provider_allows_def\<close>)
  qed simp
  ultimately show "is_subset_of s p" by (simp add: is_subset_of_def)
qed (use subset_permits in blast)

text \<open>
  A token signed by its issuer verifies at every time of its validity, when the signature scheme
  accepts its own signatures: the wallet's check passes whenever the mask is not empty.
\<close>

theorem signed_capability_verifies:
  assumes "\<And>sk msg. wc_verify W (wc_public W sk) msg (wc_sign W sk msg)" and "\<And>sk. wc_key_ok W (wc_public W sk)"
    and "capability_sign W enc body sk = Some t" and "cb_issuer body = wc_public W sk"
    and "cb_not_before body \<le> now" and "now \<le> cb_not_after body" and "so_tool_class_mask (cb_scope body) \<noteq> 0"
  shows "verify_capability_with_revocation W enc t now root chain path = Inr ()"
  using assms
  by (auto simp: capability_sign_def verify_capability_with_revocation_def verify_time_def capability_verify_def
      verify_autonomous_tool_mask_def)

text \<open>The root, the ancestors and the path of the revocation set are not looked at.\<close>

lemma revocation_not_checked:
  "verify_capability_with_revocation W enc t now root chain path =
   verify_capability_with_revocation W enc t now root' chain' path'"
  by (simp add: verify_capability_with_revocation_def)

section \<open>Concrete instance\<close>

definition sample_wallet :: wallet_crypto where
  "sample_wallet = \<lparr>wc_key_ok = (\<lambda>_. True), wc_verify = (\<lambda>pk msg s. s = ucast pk + of_nat (length msg)),
     wc_public = (\<lambda>sk. sk + 1), wc_sign = (\<lambda>sk msg. ucast (sk + 1) + of_nat (length msg)), wc_blake3 = (\<lambda>bs. ucast (word_sum bs))\<rparr>"

definition sample_body :: "hash256 \<Rightarrow> hash256 option \<Rightarrow> u64 \<Rightarrow> amount \<Rightarrow> capability_sign_body" where
  "sample_body i parent m cap =
     \<lparr>cb_version = 1, cb_cap_id = i, cb_chain_id = 41, cb_issuer = 8, cb_subject = 9, cb_parent_cap_id = parent,
      cb_scope = \<lparr>so_workspace_id = Some 7, so_project_id = None, so_task_id = None, so_tool_class_mask = m, so_providers = None\<rparr>,
      cb_caveats = [MaxTotalSpend cap], cb_budget_account = 1, cb_not_before = 10, cb_not_after = 500, cb_nonce = 1\<rparr>"

definition sample_use :: tool_use where
  "sample_use = \<lparr>tu_workspace = 7, tu_project = 1, tu_task = 2, tu_class = Browser, tu_provider = 3, tu_time = 20,
     tu_amount = 5, tu_approved = False, tu_output = 1, tu_tee = None\<rparr>"

abbreviation sample_chain :: "capability_sign_body list" where
  "sample_chain \<equiv> [sample_body 1 None 15 100, sample_body 2 (Some 1) 3 50, sample_body 3 (Some 2) 1 20]"

theorem delegation_never_widens_witness:
  "authorises (sample_body 3 (Some 2) 1 20) [sample_use] \<and> authorises (sample_body 1 None 15 100) [sample_use]"
proof -
  have chain: "successively (\<lambda>p c. verify_attenuation_from_parent c p) sample_chain"
    by (simp add: verify_attenuation_from_parent_def sample_body_def is_subset_of_def mask_subset_def word_le_nat_alt)
  have use: "authorises (sample_body 3 (Some 2) 1 20) [sample_use]"
    by (simp add: authorises_def sample_body_def sample_use_def scope_permits_def id_allows_def provider_allows_def word_le_nat_alt)
  then show ?thesis using delegation_never_widens [OF chain, of "[sample_use]"] by simp
qed

theorem scope_check_exact_witness:
  "is_subset_of (cb_scope (sample_body 3 (Some 2) 1 20)) (cb_scope (sample_body 1 None 15 100)) \<longleftrightarrow>
   (\<forall>v. scope_permits (cb_scope (sample_body 3 (Some 2) 1 20)) v \<longrightarrow> scope_permits (cb_scope (sample_body 1 None 15 100)) v)"
  by (rule scope_check_exact [of _ sample_use])
    (simp_all add: sample_body_def sample_use_def scope_permits_def id_allows_def provider_allows_def all_v2_catalog_mask_def
      TOOL_COUNT_def push_bit_eq_mult)

theorem signed_capability_verifies_witness:
  "\<exists>t. capability_sign sample_wallet (\<lambda>b. Some [1, 2]) (sample_body 3 None 1 20) 7 = Some t
     \<and> verify_capability_with_revocation sample_wallet (\<lambda>b. Some [1, 2]) t 20 0 [] [] = Inr ()"
proof -
  obtain t where t: "capability_sign sample_wallet (\<lambda>b. Some [1, 2]) (sample_body 3 None 1 20) 7 = Some t"
    by (simp add: capability_sign_def)
  have "verify_capability_with_revocation sample_wallet (\<lambda>b. Some [1, 2]) t 20 0 [] [] = Inr ()"
    by (rule signed_capability_verifies [OF _ _ t])
      (simp_all add: sample_wallet_def sample_body_def word_le_nat_alt)
  then show ?thesis using t by blast
qed

end
