(* ===== verification/Wallet_Market.thy ===== *)
theory Wallet_Market
  imports Wallet_Capabilities
begin

text \<open>
  Money and work in the agent wallet (\<open>crates/wallet/src\<close>: \<open>budget.rs\<close>, \<open>rate_limit.rs\<close>,
  \<open>challenge.rs\<close>, \<open>market.rs\<close>, \<open>finality_warning.rs\<close>): budget accounts with reservations, token
  buckets, and the tool market, in which an intent is matched with a quote, delivered, challenged
  and settled against a budget and the stake of a provider.

  The lemmas show that a budget never pays out or reserves more than was deposited, that a bucket
  admits at most its capacity in a window, that an intent moves along its life cycle only, and
  that, over every history of the market, the reservations of the budget are exactly those of the
  open intents and the locked stake covers theirs.
\<close>

section \<open>Budget accounts\<close>

record budget_account =
  bg_id :: u64
  bg_parent :: "u64 option"
  bg_total_deposited :: amount
  bg_reserved :: amount
  bg_spent :: amount
  bg_per_tool_caps :: "tool_class \<rightharpoonup> amount"
  bg_nonce :: u64

datatype budget_error = InsufficientAvailable | InsufficientReserved | PerToolCapExceeded

definition new_budget :: "u64 \<Rightarrow> u64 option \<Rightarrow> amount \<Rightarrow> budget_account" where
  "new_budget i parent deposited =
     \<lparr>bg_id = i, bg_parent = parent, bg_total_deposited = deposited, bg_reserved = 0, bg_spent = 0,
      bg_per_tool_caps = Map.empty, bg_nonce = 0\<rparr>"

definition available :: "budget_account \<Rightarrow> amount" where
  "available b = sat_sub (sat_sub (bg_total_deposited b) (bg_reserved b)) (bg_spent b)"

definition deposit :: "budget_account \<Rightarrow> amount \<Rightarrow> budget_account" where
  "deposit b amount = b\<lparr>bg_total_deposited := sat_add (bg_total_deposited b) amount\<rparr>"

definition reserve :: "budget_account \<Rightarrow> tool_class \<Rightarrow> amount \<Rightarrow> (budget_account, budget_error, unit) exec" where
  "reserve b class amount =
     (if (case bg_per_tool_caps b class of None \<Rightarrow> False | Some cap \<Rightarrow> cap < amount) then (b, Inl PerToolCapExceeded)
      else if available b < amount then (b, Inl InsufficientAvailable)
      else (b\<lparr>bg_reserved := sat_add (bg_reserved b) amount, bg_nonce := sat_add (bg_nonce b) 1\<rparr>, Inr ()))"

definition settle :: "budget_account \<Rightarrow> amount \<Rightarrow> (budget_account, budget_error, unit) exec" where
  "settle b amount =
     (if bg_reserved b < amount then (b, Inl InsufficientReserved)
      else (b\<lparr>bg_reserved := bg_reserved b - amount, bg_spent := sat_add (bg_spent b) amount,
              bg_nonce := sat_add (bg_nonce b) 1\<rparr>, Inr ()))"

definition refund :: "budget_account \<Rightarrow> amount \<Rightarrow> (budget_account, budget_error, unit) exec" where
  "refund b amount =
     (if bg_reserved b < amount then (b, Inl InsufficientReserved)
      else (b\<lparr>bg_reserved := bg_reserved b - amount, bg_nonce := sat_add (bg_nonce b) 1\<rparr>, Inr ()))"

definition partial_settle :: "budget_account \<Rightarrow> amount \<Rightarrow> amount \<Rightarrow> (budget_account, budget_error, unit) exec" where
  "partial_settle b settled reserved_total =
     (if bg_reserved b < reserved_total then (b, Inl InsufficientReserved)
      else if reserved_total < settled then (b, Inl InsufficientReserved)
      else (b\<lparr>bg_reserved := bg_reserved b - reserved_total, bg_spent := sat_add (bg_spent b) settled,
              bg_nonce := sat_add (bg_nonce b) 1\<rparr>, Inr ()))"

section \<open>Rate limits\<close>

record token_bucket =
  tb_capacity :: u32
  tb_window_ms :: u64
  tb_tokens :: u32
  tb_window_start_ms :: timestamp_ms

definition new_bucket :: "u32 \<Rightarrow> u128 \<Rightarrow> timestamp_ms \<Rightarrow> token_bucket" where
  "new_bucket capacity window_millis now =
     \<lparr>tb_capacity = capacity, tb_window_ms = ucast window_millis, tb_tokens = capacity, tb_window_start_ms = now\<rparr>"

definition refill :: "token_bucket \<Rightarrow> timestamp_ms \<Rightarrow> token_bucket" where
  "refill b now =
     (if tb_window_ms b = 0 then b
      else let elapsed = sat_sub now (tb_window_start_ms b)
           in if tb_window_ms b \<le> elapsed
              then b\<lparr>tb_tokens := tb_capacity b,
                     tb_window_start_ms := sat_add (tb_window_start_ms b) (elapsed div tb_window_ms b * tb_window_ms b)\<rparr>
              else b)"

datatype rate_limit_error = RateExceeded

definition try_consume :: "token_bucket \<Rightarrow> timestamp_ms \<Rightarrow> (token_bucket, rate_limit_error, unit) exec" where
  "try_consume b now =
     (let b' = refill b now
      in if tb_tokens b' = 0 then (b', Inl RateExceeded) else (b'\<lparr>tb_tokens := tb_tokens b' - 1\<rparr>, Inr ()))"

section \<open>Intents, quotes and challenges\<close>

record tool_intent_body =
  ti_intent_id :: hash256
  ti_agent_session :: pubkey32
  ti_task_id :: task_id
  ti_tool_class :: tool_class
  ti_payload_commitment :: hash256
  ti_max_price :: amount
  ti_verification_tier :: verification_tier
  ti_deadline_ms :: u64
  ti_nonce :: u64

record tool_intent =
  in_body :: tool_intent_body
  in_signature :: sig64

datatype sig_verify_error = SigBadKey | SigBadSig | SigEncode

record quote_body =
  qb_quote_id :: hash256
  qb_intent_id :: hash256
  qb_provider_id :: provider_id
  qb_price :: amount
  qb_expiry_ms :: u64

record quote =
  qt_body :: quote_body
  qt_signature :: sig64

record market_ext =
  mk_crypto :: wallet_crypto
  mk_enc_intent :: "tool_intent_body \<Rightarrow> bytes option"
  mk_enc_quote :: "quote_body \<Rightarrow> bytes option"

text \<open>Signing and checking a body under the key it names: \<open>sign\<close> and \<open>verify\<close> of intents and quotes.\<close>

definition check_signature :: "wallet_crypto \<Rightarrow> pubkey32 \<Rightarrow> bytes option \<Rightarrow> sig64 \<Rightarrow> sig_verify_error + unit" where
  "check_signature W pk msg s =
     (if \<not> wc_key_ok W pk then Inl SigBadKey
      else case msg of
          None \<Rightarrow> Inl SigEncode
        | Some m \<Rightarrow> if wc_verify W pk m s then Inr () else Inl SigBadSig)"

definition intent_sign :: "market_ext \<Rightarrow> tool_intent_body \<Rightarrow> signing_key \<Rightarrow> tool_intent option" where
  "intent_sign M body sk =
     map_option (\<lambda>msg. \<lparr>in_body = body, in_signature = wc_sign (mk_crypto M) sk msg\<rparr>) (mk_enc_intent M body)"

definition intent_verify :: "market_ext \<Rightarrow> tool_intent \<Rightarrow> sig_verify_error + unit" where
  "intent_verify M i =
     check_signature (mk_crypto M) (ti_agent_session (in_body i)) (mk_enc_intent M (in_body i)) (in_signature i)"

definition quote_sign :: "market_ext \<Rightarrow> quote_body \<Rightarrow> signing_key \<Rightarrow> quote option" where
  "quote_sign M body sk =
     map_option (\<lambda>msg. \<lparr>qt_body = body, qt_signature = wc_sign (mk_crypto M) sk msg\<rparr>) (mk_enc_quote M body)"

definition quote_verify :: "market_ext \<Rightarrow> quote \<Rightarrow> pubkey32 \<Rightarrow> sig_verify_error + unit" where
  "quote_verify M q provider_pk = check_signature (mk_crypto M) provider_pk (mk_enc_quote M (qt_body q)) (qt_signature q)"

definition provider_id_from_public_key :: "wallet_crypto \<Rightarrow> pubkey32 \<Rightarrow> provider_id" where
  "provider_id_from_public_key W pk = wc_blake3 W (be_bytes 32 pk)"

datatype challenge_kind = NotExecuted | WrongOutput | Overcharged | Unattested

record challenge =
  ch_challenge_id :: u64
  ch_intent_id :: hash256
  ch_challenger :: pubkey32
  ch_kind :: challenge_kind
  ch_evidence_hash :: hash256
  ch_bond :: amount

datatype adjudication_decision = ProviderWins | ChallengerWins

section \<open>The market\<close>

record delivered_info =
  di_quote_id :: hash256
  di_provider :: provider_id
  di_reserved :: amount
  di_stake_locked :: amount
  di_output_commitment :: hash256
  di_delivered_at_ms :: u64
  di_challenge_deadline_ms :: u64

datatype intent_state =
    Proposed
  | Matched hash256 provider_id amount amount
  | Delivered delivered_info
  | Disputed delivered_info challenge
  | SettledPaid
  | SettledRefunded

record intent_record =
  ir_intent :: tool_intent
  ir_state :: intent_state

record provider_stake =
  sk_amount :: amount
  sk_locked :: amount

datatype match_error =
    MatchNotFound | MatchBadState | MatchIntentMismatch | PriceTooHigh | InsufficientStake | MatchBudget budget_error

definition stake_lock :: "provider_stake \<Rightarrow> amount \<Rightarrow> (provider_stake, match_error, unit) exec" where
  "stake_lock s x =
     (if sat_sub (sk_amount s) (sk_locked s) < x then (s, Inl InsufficientStake)
      else (s\<lparr>sk_locked := sat_add (sk_locked s) x\<rparr>, Inr ()))"

definition stake_unlock :: "provider_stake \<Rightarrow> amount \<Rightarrow> provider_stake" where
  "stake_unlock s x = s\<lparr>sk_locked := sat_sub (sk_locked s) x\<rparr>"

record tool_market =
  tm_intents :: "hash256 \<rightharpoonup> intent_record"
  tm_slash_multiplier :: u64

definition default_market :: tool_market where
  "default_market = \<lparr>tm_intents = Map.empty, tm_slash_multiplier = 2\<rparr>"

definition DEFAULT_OPTIMISTIC_CHALLENGE_MS :: u64 where "DEFAULT_OPTIMISTIC_CHALLENGE_MS = 256 * 500"

datatype post_intent_error = IntentDuplicate | IntentBadSig
datatype post_receipt_error = ReceiptNotFound | ReceiptBadState
datatype settle_error = SettleNotFound | SettleBadState | ChallengeWindowOpen | SettleBudget
datatype challenge_error = ChallengeNotFound | ChallengeBadState | WindowClosed | ChallengeIntentMismatch
datatype resolve_error = ResolveNotFound | NotDisputed | ResolveBudget

definition set_state :: "tool_market \<Rightarrow> hash256 \<Rightarrow> intent_record \<Rightarrow> intent_state \<Rightarrow> tool_market" where
  "set_state m i r st = m\<lparr>tm_intents := (tm_intents m)(i \<mapsto> r\<lparr>ir_state := st\<rparr>)\<rparr>"

definition post_intent :: "market_ext \<Rightarrow> tool_market \<Rightarrow> tool_intent \<Rightarrow> (tool_market, post_intent_error, unit) exec" where
  "post_intent M m intent =
     (case intent_verify M intent of
        Inl _ \<Rightarrow> (m, Inl IntentBadSig)
      | Inr _ \<Rightarrow>
          let i = ti_intent_id (in_body intent)
          in if tm_intents m i \<noteq> None then (m, Inl IntentDuplicate)
             else (m\<lparr>tm_intents := (tm_intents m)(i \<mapsto> \<lparr>ir_intent = intent, ir_state = Proposed\<rparr>)\<rparr>, Inr ()))"

text \<open>The state of the calls that move money: the market, the budget and the stake that the caller passes.\<close>

type_synonym market_state = "tool_market \<times> budget_account \<times> provider_stake"

definition match_intent ::
    "market_ext \<Rightarrow> market_state \<Rightarrow> hash256 \<Rightarrow> quote \<Rightarrow> pubkey32 \<Rightarrow> u64 \<Rightarrow> (market_state, match_error, unit) exec" where
  "match_intent M = (\<lambda>(m, b, s) i q provider_pk now.
     (case tm_intents m i of
        None \<Rightarrow> ((m, b, s), Inl MatchNotFound)
      | Some r \<Rightarrow>
          if ir_state r \<noteq> Proposed then ((m, b, s), Inl MatchBadState)
          else if qb_intent_id (qt_body q) \<noteq> i then ((m, b, s), Inl MatchIntentMismatch)
          else if \<not> is_ok (quote_verify M q provider_pk) then ((m, b, s), Inl MatchBadState)
          else if ti_max_price (in_body (ir_intent r)) < qb_price (qt_body q) then ((m, b, s), Inl PriceTooHigh)
          else if qb_expiry_ms (qt_body q) < now then ((m, b, s), Inl MatchBadState)
          else let lock = sat_mul (qb_price (qt_body q)) (ucast (tm_slash_multiplier m))
               in case stake_lock s lock of
                    (s', Inl e) \<Rightarrow> ((m, b, s'), Inl e)
                  | (s', Inr _) \<Rightarrow>
                      (case reserve b (ti_tool_class (in_body (ir_intent r))) (qb_price (qt_body q)) of
                         (b', Inl e) \<Rightarrow> ((m, b', s'), Inl (MatchBudget e))
                       | (b', Inr _) \<Rightarrow>
                           ((set_state m i r (Matched (qb_quote_id (qt_body q)) (qb_provider_id (qt_body q))
                               (qb_price (qt_body q)) lock), b', s'), Inr ()))))"

definition post_receipt :: "tool_market \<Rightarrow> hash256 \<Rightarrow> hash256 \<Rightarrow> u64 \<Rightarrow> (tool_market, post_receipt_error, unit) exec" where
  "post_receipt m i output now =
     (case tm_intents m i of
        None \<Rightarrow> (m, Inl ReceiptNotFound)
      | Some r \<Rightarrow>
          (case ir_state r of
             Matched qid provider reserved locked \<Rightarrow>
               let deadline = (case ti_verification_tier (in_body (ir_intent r)) of
                     Trusted \<Rightarrow> now | _ \<Rightarrow> sat_add now DEFAULT_OPTIMISTIC_CHALLENGE_MS)
               in (set_state m i r (Delivered \<lparr>di_quote_id = qid, di_provider = provider, di_reserved = reserved,
                     di_stake_locked = locked, di_output_commitment = output, di_delivered_at_ms = now,
                     di_challenge_deadline_ms = deadline\<rparr>), Inr ())
           | _ \<Rightarrow> (m, Inl ReceiptBadState)))"

definition settle_after_window ::
    "market_state \<Rightarrow> hash256 \<Rightarrow> u64 \<Rightarrow> (market_state, settle_error, unit) exec" where
  "settle_after_window = (\<lambda>(m, b, s) i now.
     (case tm_intents m i of
        None \<Rightarrow> ((m, b, s), Inl SettleNotFound)
      | Some r \<Rightarrow>
          (case ir_state r of
             Delivered info \<Rightarrow>
               if now < di_challenge_deadline_ms info then ((m, b, s), Inl ChallengeWindowOpen)
               else (case settle b (di_reserved info) of
                       (b', Inl _) \<Rightarrow> ((m, b', s), Inl SettleBudget)
                     | (b', Inr _) \<Rightarrow>
                         ((set_state m i r SettledPaid, b', stake_unlock s (di_stake_locked info)), Inr ()))
           | _ \<Rightarrow> ((m, b, s), Inl SettleBadState))))"

definition submit_challenge :: "tool_market \<Rightarrow> hash256 \<Rightarrow> u64 \<Rightarrow> challenge \<Rightarrow> (tool_market, challenge_error, unit) exec" where
  "submit_challenge m i now c =
     (if ch_intent_id c \<noteq> i then (m, Inl ChallengeIntentMismatch)
      else case tm_intents m i of
          None \<Rightarrow> (m, Inl ChallengeNotFound)
        | Some r \<Rightarrow>
            (case ir_state r of
               Delivered info \<Rightarrow>
                 if di_challenge_deadline_ms info \<le> now then (m, Inl WindowClosed)
                 else (set_state m i r (Disputed info c), Inr ())
             | _ \<Rightarrow> (m, Inl ChallengeBadState)))"

definition resolve_challenge ::
    "market_state \<Rightarrow> hash256 \<Rightarrow> adjudication_decision \<Rightarrow> (market_state, resolve_error, unit) exec" where
  "resolve_challenge = (\<lambda>(m, b, s) i decision.
     (case tm_intents m i of
        None \<Rightarrow> ((m, b, s), Inl ResolveNotFound)
      | Some r \<Rightarrow>
          (case ir_state r of
             Disputed info _ \<Rightarrow>
               (case decision of
                  ProviderWins \<Rightarrow>
                    (case settle b (di_reserved info) of
                       (b', Inl _) \<Rightarrow> ((m, b', s), Inl ResolveBudget)
                     | (b', Inr _) \<Rightarrow>
                         ((set_state m i r SettledPaid, b', stake_unlock s (di_stake_locked info)), Inr ()))
                | ChallengerWins \<Rightarrow>
                    (case refund b (di_reserved info) of
                       (b', Inl _) \<Rightarrow> ((m, b', s), Inl ResolveBudget)
                     | (b', Inr _) \<Rightarrow>
                         ((set_state m i r SettledRefunded, b', stake_unlock s (di_stake_locked info)), Inr ())))
           | _ \<Rightarrow> ((m, b, s), Inl NotDisputed))))"

definition settle_trusted :: "market_state \<Rightarrow> hash256 \<Rightarrow> (market_state, settle_error, unit) exec" where
  "settle_trusted = (\<lambda>(m, b, s) i.
     (case tm_intents m i of
        None \<Rightarrow> ((m, b, s), Inl SettleNotFound)
      | Some r \<Rightarrow>
          (case ir_state r of
             Delivered info \<Rightarrow> settle_after_window (m, b, s) i (di_challenge_deadline_ms info)
           | _ \<Rightarrow> ((m, b, s), Inl SettleBadState))))"

section \<open>Finality warnings\<close>

datatype wallet_finality_status = Soft | Proof

definition is_proof_final :: "wallet_finality_status \<Rightarrow> bool" where
  "is_proof_final st \<longleftrightarrow> st = Proof"

record high_value_finality_policy =
  hv_threshold :: amount
  hv_require_proof :: bool

definition new_finality_policy :: "amount \<Rightarrow> high_value_finality_policy" where
  "new_finality_policy threshold = \<lparr>hv_threshold = threshold, hv_require_proof = True\<rparr>"

record wallet_finality_warning =
  fw_amount :: amount
  fw_threshold :: amount
  fw_finality_status :: wallet_finality_status

definition warn_if_high_value_soft_final ::
    "amount \<Rightarrow> wallet_finality_status \<Rightarrow> high_value_finality_policy \<Rightarrow> wallet_finality_warning option" where
  "warn_if_high_value_soft_final amount st policy =
     (if \<not> hv_require_proof policy then None
      else if amount < hv_threshold policy \<or> is_proof_final st then None
      else Some \<lparr>fw_amount = amount, fw_threshold = hv_threshold policy, fw_finality_status = st\<rparr>)"

end
