(* ===== verification/Wallet_Market_Safety.thy ===== *)
theory Wallet_Market_Safety
  imports Wallet_Market
begin

text \<open>
  What the budgets, the buckets and the tool market of the wallet guarantee.  A budget and a stake
  are both escrows: the locale states what holding and releasing an amount means, and carries the
  bookkeeping of open holds once for both.
\<close>

section \<open>Budgets\<close>

definition budget_ok :: "budget_account \<Rightarrow> bool" where
  "budget_ok b \<longleftrightarrow> unat (bg_reserved b) + unat (bg_spent b) \<le> unat (bg_total_deposited b)"

lemma unat_available: "unat (available b) = unat (bg_total_deposited b) - unat (bg_reserved b) - unat (bg_spent b)"
  by (simp add: available_def unat_sat_sub)

lemma unat_amount_le: "unat (w :: amount) \<le> 2 ^ 128 - 1"
  using unat_u128_less [of w] by simp

lemma reserve_Ok:
  assumes "reserve b class amount = (b', Inr ())" and "budget_ok b"
  shows "budget_ok b' \<and> unat (bg_reserved b') = unat (bg_reserved b) + unat amount \<and> bg_spent b' = bg_spent b
    \<and> bg_total_deposited b' = bg_total_deposited b"
proof -
  have le: "unat amount \<le> unat (available b)"
    and b': "b' = b\<lparr>bg_reserved := sat_add (bg_reserved b) amount, bg_nonce := sat_add (bg_nonce b) 1\<rparr>"
    using assms(1) by (auto simp: reserve_def not_less word_le_nat_alt split: if_splits)
  then have "unat (bg_reserved b) + unat amount + unat (bg_spent b) \<le> unat (bg_total_deposited b)"
    using assms(2) by (simp add: unat_available budget_ok_def)
  moreover have "unat (bg_reserved b) + unat amount \<le> 2 ^ 128 - 1"
    using calculation unat_amount_le [of "bg_total_deposited b"] by linarith
  ultimately show ?thesis by (simp add: b' budget_ok_def unat_sat_add)
qed

lemma release_no_wrap:
  assumes "unat (r :: amount) + unat (s :: amount) \<le> unat (t :: amount)" and "x \<le> r" and "y \<le> x"
  shows "unat (r - x) + unat (sat_add s y) \<le> unat t \<and> unat (r - x) = unat r - unat x \<and> unat (sat_add s y) = unat s + unat y"
proof -
  have "unat y \<le> unat x" "unat x \<le> unat r" using assms(2,3) by (simp_all add: word_le_nat_alt)
  moreover from this have "unat s + unat y \<le> 2 ^ 128 - 1" using assms(1) unat_amount_le [of t] by linarith
  ultimately show ?thesis using assms(1) by (simp add: unat_sub assms(2) unat_sat_add)
qed

lemma settle_Ok:
  assumes "settle b amount = (b', Inr ())" and "budget_ok b"
  shows "budget_ok b' \<and> unat (bg_reserved b') + unat amount = unat (bg_reserved b)
    \<and> unat (bg_spent b') = unat (bg_spent b) + unat amount"
  using assms release_no_wrap [of "bg_reserved b" "bg_spent b" "bg_total_deposited b" amount amount]
  by (auto simp: settle_def budget_ok_def not_less word_le_nat_alt split: if_splits)

lemma settle_enough:
  assumes "x \<le> bg_reserved b"
  shows "\<exists>b'. settle b x = (b', Inr ()) \<and> unat (bg_reserved b') + unat x = unat (bg_reserved b)"
proof -
  have "unat (bg_reserved b - x) + unat x = unat (bg_reserved b)" using assms by (simp add: unat_sub word_le_nat_alt)
  then show ?thesis using assms by (simp add: settle_def not_less [symmetric])
qed

lemma refund_Ok:
  assumes "refund b amount = (b', Inr ())" and "budget_ok b"
  shows "budget_ok b' \<and> unat (bg_reserved b') + unat amount = unat (bg_reserved b) \<and> bg_spent b' = bg_spent b"
  using assms release_no_wrap [of "bg_reserved b" "bg_spent b" "bg_total_deposited b" amount 0]
  by (auto simp: refund_def budget_ok_def not_less word_le_nat_alt split: if_splits)

lemma partial_settle_Ok:
  assumes "partial_settle b x amount = (b', Inr ())" and "budget_ok b"
  shows "budget_ok b' \<and> unat (bg_spent b') = unat (bg_spent b) + unat x"
  using assms release_no_wrap [of "bg_reserved b" "bg_spent b" "bg_total_deposited b" amount x]
  by (auto simp: partial_settle_def budget_ok_def not_less word_le_nat_alt split: if_splits)

lemma deposit_ok: "budget_ok b \<Longrightarrow> budget_ok (deposit b amount)"
proof -
  assume "budget_ok b"
  moreover have "unat (bg_total_deposited b) \<le> unat (bg_total_deposited (deposit b amount))"
    using sat_add_ge [of "bg_total_deposited b" amount] by (simp add: deposit_def word_le_nat_alt)
  ultimately show ?thesis by (simp add: budget_ok_def deposit_def)
qed

lemma budget_errors:
  "reserve b class x = (b', Inl e) \<Longrightarrow> b' = b" "settle b x = (b', Inl e) \<Longrightarrow> b' = b"
  "refund b x = (b', Inl e) \<Longrightarrow> b' = b" "partial_settle b x y = (b', Inl e) \<Longrightarrow> b' = b"
  by (auto simp: reserve_def settle_def refund_def partial_settle_def split: if_splits)

inductive budget_op :: "budget_account \<Rightarrow> budget_account \<Rightarrow> bool" where
  bo_deposit: "budget_op b (deposit b x)"
| bo_reserve: "budget_op b (fst (reserve b class x))"
| bo_settle: "budget_op b (fst (settle b x))"
| bo_refund: "budget_op b (fst (refund b x))"
| bo_partial: "budget_op b (fst (partial_settle b x y))"

lemma exec_cases:
  fixes r :: "('s, 'e, unit) exec"
  obtains (Ok) s where "r = (s, Inr ())" | (Err) s e where "r = (s, Inl e)"
proof (cases r)
  case (Pair s v)
  then show thesis using that by (cases v) simp_all
qed

lemma budget_op_ok: "budget_op b b' \<Longrightarrow> budget_ok b \<Longrightarrow> budget_ok b' \<and> unat (bg_spent b) \<le> unat (bg_spent b')"
proof (induction rule: budget_op.induct)
  case (bo_deposit b x)
  then show ?case using deposit_ok by (simp add: deposit_def)
next
  case (bo_reserve b cls x)
  then show ?case by (cases "reserve b cls x" rule: exec_cases) (auto dest: reserve_Ok budget_errors)
next
  case (bo_settle b x)
  then show ?case by (cases "settle b x" rule: exec_cases) (auto dest: settle_Ok budget_errors)
next
  case (bo_refund b x)
  then show ?case by (cases "refund b x" rule: exec_cases) (auto dest: refund_Ok budget_errors)
next
  case (bo_partial b x y)
  then show ?case by (cases "partial_settle b x y" rule: exec_cases) (auto dest: partial_settle_Ok budget_errors)
qed

lemma budget_ops_ok: "budget_op\<^sup>*\<^sup>* b b' \<Longrightarrow> budget_ok b \<Longrightarrow> budget_ok b' \<and> unat (bg_spent b) \<le> unat (bg_spent b')"
  by (induction rule: rtranclp_induct) (auto dest: budget_op_ok)

section \<open>Buckets\<close>

text \<open>The calls that a bucket admits, and the window of a call counted from the start of the bucket.\<close>

fun admitted :: "token_bucket \<Rightarrow> timestamp_ms list \<Rightarrow> timestamp_ms list" where
  "admitted b [] = []"
| "admitted b (t # ts) = (case try_consume b t of
     (b', Inl _) \<Rightarrow> admitted b' ts
   | (b', Inr _) \<Rightarrow> t # admitted b' ts)"

definition window_of :: "token_bucket \<Rightarrow> timestamp_ms \<Rightarrow> nat" where
  "window_of b t = (unat t - unat (tb_window_start_ms b)) div unat (tb_window_ms b)"

lemma refill_eq:
  assumes "tb_window_ms b \<noteq> 0" and "tb_window_start_ms b \<le> t"
  shows "unat (tb_window_start_ms (refill b t)) = unat (tb_window_start_ms b) + window_of b t * unat (tb_window_ms b)"
    and "unat (tb_window_start_ms (refill b t)) \<le> unat t"
    and "tb_tokens (refill b t) = (if window_of b t = 0 then tb_tokens b else tb_capacity b)"
    and "tb_window_ms (refill b t) = tb_window_ms b" and "tb_capacity (refill b t) = tb_capacity b"
proof -
  let ?s = "unat (tb_window_start_ms b)" and ?w = "unat (tb_window_ms b)"
  have w: "0 < ?w" using assms(1) by (simp add: unat_gt_0)
  have le: "?s \<le> unat t" using assms(2) by (simp add: word_le_nat_alt)
  have el: "unat (sat_sub t (tb_window_start_ms b)) = unat t - ?s" by (simp add: unat_sat_sub)
  have qw: "window_of b t * ?w \<le> unat t - ?s" unfolding window_of_def by simp
  have fits: "(unat t - ?s) div ?w * ?w < 18446744073709551616"
    using qw unat_u64_less [of t] unfolding window_of_def by linarith
  then have prod: "unat (sat_sub t (tb_window_start_ms b) div tb_window_ms b * tb_window_ms b) = window_of b t * ?w"
    by (simp add: window_of_def unat_mult_no_wrap unat_div el)
  have sum: "?s + window_of b t * ?w \<le> unat t" using qw le by linarith
  have zero: "tb_window_ms b \<le> sat_sub t (tb_window_start_ms b) \<longleftrightarrow> window_of b t \<noteq> 0"
    using w by (simp add: word_le_nat_alt el window_of_def div_eq_0_iff not_less)
  show start: "unat (tb_window_start_ms (refill b t)) = ?s + window_of b t * ?w"
    using assms(1) zero sum unat_u64_less [of t] by (auto simp: refill_def Let_def unat_sat_add prod)
  then show "unat (tb_window_start_ms (refill b t)) \<le> unat t" using sum by simp
  show "tb_tokens (refill b t) = (if window_of b t = 0 then tb_tokens b else tb_capacity b)"
    using assms(1) zero by (simp add: refill_def Let_def)
qed (auto simp: refill_def Let_def)

lemma set_admitted: "set (admitted b ts) \<subseteq> set ts"
proof (induction ts arbitrary: b)
  case (Cons t ts)
  show ?case using Cons.IH [of "fst (try_consume b t)"] by (cases "try_consume b t" rule: exec_cases) auto
qed simp

text \<open>Counted from any state of the bucket: the current window has its tokens left, later ones the capacity.\<close>

lemma admitted_bound:
  assumes "tb_window_ms b \<noteq> 0" and "sorted ts" and "\<forall>t \<in> set ts. tb_window_start_ms b \<le> t" and "tb_tokens b \<le> tb_capacity b"
  shows "length (filter (\<lambda>t. window_of b t = k) (admitted b ts)) \<le> unat (if k = 0 then tb_tokens b else tb_capacity b)"
  using assms
proof (induction ts arbitrary: b k)
  case (Cons t ts)
  let ?r = "refill b t" and ?q = "window_of b t"
  have start: "tb_window_start_ms b \<le> t" using Cons.prems(3) by simp
  note r = refill_eq [OF Cons.prems(1) start]
  define c where "c = (if tb_tokens ?r = 0 then ?r else ?r\<lparr>tb_tokens := tb_tokens ?r - 1\<rparr>)"
  have cf: "tb_window_ms c = tb_window_ms b" "tb_capacity c = tb_capacity b" "tb_window_start_ms c = tb_window_start_ms ?r"
    using r by (simp_all add: c_def)
  have shift: "window_of b x = ?q + window_of c x" if "x \<in> set ts" for x
  proof -
    have "unat t \<le> unat x" using Cons.prems(2) that by (simp add: word_le_nat_alt)
    then have "unat x - unat (tb_window_start_ms b) = (unat x - unat (tb_window_start_ms c)) + ?q * unat (tb_window_ms b)"
      using r(1,2) cf by simp
    then show ?thesis using Cons.prems(1) cf by (simp add: window_of_def unat_gt_0)
  qed
  have tok: "tb_tokens ?r \<le> tb_capacity b" using r(3) Cons.prems(4) by simp
  have dec: "unat (tb_tokens ?r - 1) = unat (tb_tokens ?r) - 1" if "tb_tokens ?r \<noteq> 0"
    using that by (simp add: unat_minus_one)
  have le1: "unat (tb_tokens ?r) \<le> unat (if ?q = 0 then tb_tokens b else tb_capacity b)" using r(3) by simp
  have "tb_tokens c \<le> tb_capacity c" using tok cf dec by (auto simp: c_def word_le_nat_alt)
  then have IH: "length (filter (\<lambda>x. window_of c x = j) (admitted c ts)) \<le> unat (if j = 0 then tb_tokens c else tb_capacity c)" for j
    by (intro Cons.IH) (use Cons.prems(1,2) cf r(2) in \<open>auto simp: word_le_nat_alt\<close>)
  have filt: "filter (\<lambda>x. window_of b x = k) (admitted c ts) =
      (if k < ?q then [] else filter (\<lambda>x. window_of c x = k - ?q) (admitted c ts))"
    using shift set_admitted [of c ts] by (auto simp: filter_empty_conv intro!: filter_cong)
  have adm: "admitted b (t # ts) = (if tb_tokens ?r = 0 then admitted c ts else t # admitted c ts)"
    by (simp add: try_consume_def Let_def c_def)
  have len: "length (filter (\<lambda>x. window_of b x = k) (admitted b (t # ts))) =
      (if tb_tokens ?r \<noteq> 0 \<and> ?q = k then 1 else 0) + length (filter (\<lambda>x. window_of b x = k) (admitted c ts))"
    unfolding adm by simp
  have "unat (tb_tokens c) + (if tb_tokens ?r \<noteq> 0 then 1 else 0) = unat (tb_tokens ?r)"
    using dec unat_gt_0 [of "tb_tokens ?r"] by (simp add: c_def)
  then show ?case
    using IH [of "k - ?q"] le1 cf unfolding len filt by (cases "k < ?q"; cases "k = ?q") (auto split: if_splits)
qed simp

section \<open>Escrows\<close>

locale escrow =
  fixes held :: "'a \<Rightarrow> nat"
    and ok :: "'a \<Rightarrow> bool"
    and holds :: "nat \<Rightarrow> 'a \<Rightarrow> 'a \<Rightarrow> bool"
    and releases :: "nat \<Rightarrow> 'a \<Rightarrow> 'a \<Rightarrow> bool"
  assumes hold_adds: "ok a \<Longrightarrow> holds n a a' \<Longrightarrow> ok a' \<and> held a' = held a + n"
    and release_takes: "ok a \<Longrightarrow> releases n a a' \<Longrightarrow> ok a' \<and> held a' + n = held a"
begin

text \<open>The account covers the open holds, given by key; \<open>exact\<close> when it holds nothing else.\<close>

definition covers :: "'a \<Rightarrow> ('k \<rightharpoonup> nat) \<Rightarrow> bool" where
  "covers a H \<longleftrightarrow> ok a \<and> finite (dom H) \<and> map_total (\<lambda>n. n) H \<le> held a"

definition exact :: "'a \<Rightarrow> ('k \<rightharpoonup> nat) \<Rightarrow> bool" where
  "exact a H \<longleftrightarrow> covers a H \<and> map_total (\<lambda>n. n) H = held a"

lemma covers_ge: "covers a H \<Longrightarrow> H k = Some n \<Longrightarrow> n \<le> held a"
  using map_total_ge [of H "\<lambda>n. n" k] by (simp add: covers_def)

lemma covers_hold: "covers a H \<Longrightarrow> H k = None \<Longrightarrow> holds n a a' \<Longrightarrow> covers a' (H(k \<mapsto> n))"
  using map_total_update [of H "\<lambda>n. n" k n] hold_adds [of a n a'] by (simp add: covers_def)

lemma covers_surplus: "covers a H \<Longrightarrow> holds n a a' \<Longrightarrow> covers a' H"
  using hold_adds [of a n a'] by (simp add: covers_def)

lemma covers_release: "covers a H \<Longrightarrow> H k = Some n \<Longrightarrow> releases n a a' \<Longrightarrow> covers a' (H(k := None))"
  using map_total_delete [of H "\<lambda>n. n" k] release_takes [of a n a'] by (simp add: covers_def)

lemma exact_hold: "exact a H \<Longrightarrow> H k = None \<Longrightarrow> holds n a a' \<Longrightarrow> exact a' (H(k \<mapsto> n))"
  using covers_hold [of a H k n a'] map_total_update [of H "\<lambda>n. n" k n] hold_adds [of a n a']
  by (simp add: exact_def covers_def)

lemma exact_release: "exact a H \<Longrightarrow> H k = Some n \<Longrightarrow> releases n a a' \<Longrightarrow> exact a' (H(k := None))"
  using covers_release [of a H k n a'] map_total_delete [of H "\<lambda>n. n" k] release_takes [of a n a']
  by (simp add: exact_def covers_def)

end

definition budget_holds :: "nat \<Rightarrow> budget_account \<Rightarrow> budget_account \<Rightarrow> bool" where
  "budget_holds n b b' \<longleftrightarrow> (\<exists>class x. reserve b class x = (b', Inr ()) \<and> n = unat x)"

definition budget_releases :: "nat \<Rightarrow> budget_account \<Rightarrow> budget_account \<Rightarrow> bool" where
  "budget_releases n b b' \<longleftrightarrow> (\<exists>x. n = unat x \<and> (settle b x = (b', Inr ()) \<or> refund b x = (b', Inr ())))"

interpretation budget: escrow "\<lambda>b. unat (bg_reserved b)" budget_ok budget_holds budget_releases
  by unfold_locales (auto simp: budget_holds_def budget_releases_def dest: reserve_Ok settle_Ok refund_Ok)

definition stake_ok :: "provider_stake \<Rightarrow> bool" where
  "stake_ok s \<longleftrightarrow> unat (sk_locked s) \<le> unat (sk_amount s)"

definition stake_holds :: "nat \<Rightarrow> provider_stake \<Rightarrow> provider_stake \<Rightarrow> bool" where
  "stake_holds n s s' \<longleftrightarrow> (\<exists>x. stake_lock s x = (s', Inr ()) \<and> n = unat x)"

definition stake_releases :: "nat \<Rightarrow> provider_stake \<Rightarrow> provider_stake \<Rightarrow> bool" where
  "stake_releases n s s' \<longleftrightarrow> (\<exists>x. n = unat x \<and> n \<le> unat (sk_locked s) \<and> s' = stake_unlock s x)"

lemma stake_lock_Ok:
  assumes "stake_lock s x = (s', Inr ())" and "stake_ok s"
  shows "stake_ok s' \<and> unat (sk_locked s') = unat (sk_locked s) + unat x \<and> sk_amount s' = sk_amount s"
proof -
  have "unat x \<le> unat (sk_amount s) - unat (sk_locked s)" "s' = s\<lparr>sk_locked := sat_add (sk_locked s) x\<rparr>"
    using assms(1) by (auto simp: stake_lock_def not_less word_le_nat_alt unat_sat_sub split: if_splits)
  moreover from this have "unat (sk_locked s) + unat x \<le> unat (sk_amount s)" using assms(2) by (simp add: stake_ok_def)
  moreover from this have "unat (sk_locked s) + unat x \<le> 2 ^ 128 - 1" using unat_amount_le [of "sk_amount s"] by linarith
  ultimately show ?thesis by (simp add: stake_ok_def unat_sat_add)
qed

interpretation stake: escrow "\<lambda>s. unat (sk_locked s)" stake_ok stake_holds stake_releases
  by unfold_locales
    (auto simp: stake_holds_def stake_releases_def stake_ok_def stake_unlock_def unat_sat_sub
      dest: stake_lock_Ok [unfolded stake_ok_def])

section \<open>The life cycle of an intent\<close>

inductive intent_step :: "intent_state \<Rightarrow> intent_state \<Rightarrow> bool" where
  is_match: "intent_step Proposed (Matched qid provider reserved locked)"
| is_deliver: "di_reserved info = reserved \<Longrightarrow> di_stake_locked info = locked \<Longrightarrow> di_provider info = provider \<Longrightarrow>
    di_quote_id info = qid \<Longrightarrow> di_delivered_at_ms info \<le> di_challenge_deadline_ms info \<Longrightarrow>
    intent_step (Matched qid provider reserved locked) (Delivered info)"
| is_settle: "intent_step (Delivered info) SettledPaid"
| is_dispute: "intent_step (Delivered info) (Disputed info c)"
| is_provider_wins: "intent_step (Disputed info c) SettledPaid"
| is_challenger_wins: "intent_step (Disputed info c) SettledRefunded"

fun reserved_of :: "intent_state \<Rightarrow> nat option" where
  "reserved_of (Matched _ _ reserved _) = Some (unat reserved)"
| "reserved_of (Delivered info) = Some (unat (di_reserved info))"
| "reserved_of (Disputed info _) = Some (unat (di_reserved info))"
| "reserved_of _ = None"

fun locked_of :: "intent_state \<Rightarrow> nat option" where
  "locked_of (Matched _ _ _ locked) = Some (unat locked)"
| "locked_of (Delivered info) = Some (unat (di_stake_locked info))"
| "locked_of (Disputed info _) = Some (unat (di_stake_locked info))"
| "locked_of _ = None"

text \<open>The open holds of a market, by intent.\<close>

definition open_holds :: "(intent_state \<Rightarrow> nat option) \<Rightarrow> tool_market \<Rightarrow> hash256 \<rightharpoonup> nat" where
  "open_holds f m i = (case tm_intents m i of None \<Rightarrow> None | Some r \<Rightarrow> f (ir_state r))"

lemma open_holds_set [simp]: "open_holds f (set_state m i r st) = (open_holds f m)(i := f st)"
  by (auto simp: open_holds_def set_state_def)

lemma open_holds_at: "tm_intents m i = Some r \<Longrightarrow> open_holds f m i = f (ir_state r)"
  by (simp add: open_holds_def)

text \<open>The operations on a market with one budget and one stake.\<close>

inductive market_change :: "market_ext \<Rightarrow> market_state \<Rightarrow> market_state \<Rightarrow> bool" for M where
  mk_post: "market_change M (m, b, s) (fst (post_intent M m intent), b, s)"
| mk_match: "market_change M st (fst (match_intent M st i q pk now))"
| mk_receipt: "market_change M (m, b, s) (fst (post_receipt m i output now), b, s)"
| mk_settle: "market_change M st (fst (settle_after_window st i now))"
| mk_challenge: "market_change M (m, b, s) (fst (submit_challenge m i now c), b, s)"
| mk_resolve: "market_change M st (fst (resolve_challenge st i decision))"
| mk_trusted: "market_change M st (fst (settle_trusted st i))"
| mk_deposit: "market_change M (m, b, s) (m, deposit b x, s)"

inductive_cases market_changeE: "market_change M st st'"

section \<open>What an operation can do\<close>

text \<open>
  The effects of the market: nothing, a deposit, a new intent, a match that holds price and stake,
  stake that stays locked when the budget refuses, a step that keeps the holds, and a settlement
  that releases them.
\<close>

inductive market_effect :: "market_state \<Rightarrow> market_state \<Rightarrow> bool" where
  me_none: "market_effect st st"
| me_deposit: "market_effect (m, b, s) (m, deposit b x, s)"
| me_post: "tm_intents m i = None \<Longrightarrow> ir_state r = Proposed \<Longrightarrow>
    market_effect (m, b, s) (m\<lparr>tm_intents := (tm_intents m)(i \<mapsto> r)\<rparr>, b, s)"
| me_leak: "stake_holds n s s' \<Longrightarrow> market_effect (m, b, s) (m, b, s')"
| me_match: "tm_intents m i = Some r \<Longrightarrow> ir_state r = Proposed \<Longrightarrow> budget_holds (unat price) b b' \<Longrightarrow>
    stake_holds (unat lock) s s' \<Longrightarrow>
    market_effect (m, b, s) (set_state m i r (Matched qid provider price lock), b', s')"
| me_move: "tm_intents m i = Some r \<Longrightarrow> intent_step (ir_state r) st \<Longrightarrow> reserved_of st = reserved_of (ir_state r) \<Longrightarrow>
    locked_of st = locked_of (ir_state r) \<Longrightarrow> market_effect (m, b, s) (set_state m i r st, b, s)"
| me_close: "tm_intents m i = Some r \<Longrightarrow> intent_step (ir_state r) st \<Longrightarrow> reserved_of (ir_state r) = Some n \<Longrightarrow>
    locked_of (ir_state r) = Some (unat y) \<Longrightarrow> budget_releases n b b' \<Longrightarrow> reserved_of st = None \<Longrightarrow> locked_of st = None \<Longrightarrow>
    market_effect (m, b, s) (set_state m i r st, b', stake_unlock s y)"

lemma post_effect: "market_effect (m, b, s) (fst (post_intent M m intent), b, s)"
  by (auto simp: post_intent_def Let_def split: sum.split intro: me_none me_post)

lemma stake_lock_error: "stake_lock s x = (s', Inl e) \<Longrightarrow> s' = s"
  by (auto simp: stake_lock_def split: if_splits)

lemma match_effect: "market_effect (m, b, s) (fst (match_intent M (m, b, s) i q pk now))"
proof (cases "fst (match_intent M (m, b, s) i q pk now) = (m, b, s)")
  case False
  let ?lock = "sat_mul (qb_price (qt_body q)) (ucast (tm_slash_multiplier m))"
  from False obtain r where r: "tm_intents m i = Some r" "ir_state r = Proposed"
    and eq: "fst (match_intent M (m, b, s) i q pk now) =
      fst (case stake_lock s ?lock of
             (s', Inl e) \<Rightarrow> ((m, b, s'), Inl e)
           | (s', Inr _) \<Rightarrow>
               (case reserve b (ti_tool_class (in_body (ir_intent r))) (qb_price (qt_body q)) of
                  (b', Inl e) \<Rightarrow> ((m, b', s'), Inl (MatchBudget e))
                | (b', Inr _) \<Rightarrow>
                    ((set_state m i r (Matched (qb_quote_id (qt_body q)) (qb_provider_id (qt_body q))
                        (qb_price (qt_body q)) ?lock), b', s'), Inr ())))"
    by (auto simp: match_intent_def Let_def split: option.splits if_splits)
  show ?thesis
  proof (cases "stake_lock s ?lock" rule: exec_cases)
    case (Ok s')
    then have s': "stake_holds (unat ?lock) s s'" by (auto simp: stake_holds_def)
    show ?thesis
    proof (cases "reserve b (ti_tool_class (in_body (ir_intent r))) (qb_price (qt_body q))" rule: exec_cases)
      case inner: (Ok b')
      then have "budget_holds (unat (qb_price (qt_body q))) b b'" by (auto simp: budget_holds_def)
      then show ?thesis unfolding eq using Ok inner me_match [OF r _ s'] by simp
    next
      case (Err b' e)
      then have "b' = b" by (rule budget_errors)
      then show ?thesis unfolding eq using Ok Err me_leak [OF s'] by simp
    qed
  next
    case (Err s' e)
    then have "s' = s" by (rule stake_lock_error)
    then show ?thesis unfolding eq using Err me_none by simp
  qed
qed (simp add: me_none)

lemma receipt_effect: "market_effect (m, b, s) (fst (post_receipt m i output now), b, s)"
proof (cases "\<exists>r qid provider reserved locked. tm_intents m i = Some r \<and> ir_state r = Matched qid provider reserved locked")
  case True
  then obtain r qid provider reserved locked where r: "tm_intents m i = Some r" "ir_state r = Matched qid provider reserved locked"
    by blast
  have "now \<le> (case ti_verification_tier (in_body (ir_intent r)) of Trusted \<Rightarrow> now | _ \<Rightarrow> sat_add now DEFAULT_OPTIMISTIC_CHALLENGE_MS)"
    by (simp add: sat_add_ge split: verification_tier.split)
  then show ?thesis using r by (auto simp: post_receipt_def Let_def intro!: me_move [OF r(1)] is_deliver)
qed (auto simp: post_receipt_def split: option.split intent_state.split intro: me_none)

lemma challenge_effect: "market_effect (m, b, s) (fst (submit_challenge m i now c), b, s)"
  by (auto simp: submit_challenge_def split: option.split intent_state.split intro: me_none intro!: me_move is_dispute)

lemma close_effect:
  assumes "tm_intents m i = Some r" and "intent_step (ir_state r) st" and "ir_state r \<in> {Delivered info, Disputed info c}"
    and "settle b (di_reserved info) = (b', Inr ()) \<or> refund b (di_reserved info) = (b', Inr ())"
    and "st = SettledPaid \<or> st = SettledRefunded"
  shows "market_effect (m, b, s) (set_state m i r st, b', stake_unlock s (di_stake_locked info))"
  by (rule me_close [OF assms(1,2), of "unat (di_reserved info)"]) (use assms(3-5) in \<open>auto simp: budget_releases_def\<close>)

lemma settle_effect: "market_effect (m, b, s) (fst (settle_after_window (m, b, s) i now))"
proof (cases "\<exists>r info b'. tm_intents m i = Some r \<and> ir_state r = Delivered info \<and> \<not> now < di_challenge_deadline_ms info
    \<and> settle b (di_reserved info) = (b', Inr ())")
  case True
  then obtain r info b' where r: "tm_intents m i = Some r" "ir_state r = Delivered info" "\<not> now < di_challenge_deadline_ms info"
    "settle b (di_reserved info) = (b', Inr ())" by blast
  then show ?thesis
    using close_effect [OF r(1), of SettledPaid info] by (simp add: settle_after_window_def is_settle)
next
  case False
  then have "fst (settle_after_window (m, b, s) i now) = (m, b, s)"
    by (auto simp: settle_after_window_def split: option.split intent_state.split prod.split sum.split dest: budget_errors)
  then show ?thesis by (simp add: me_none)
qed

lemma resolve_effect: "market_effect (m, b, s) (fst (resolve_challenge (m, b, s) i decision))"
proof (cases "\<exists>r info c b'. tm_intents m i = Some r \<and> ir_state r = Disputed info c
    \<and> (if decision = ProviderWins then settle b (di_reserved info) else refund b (di_reserved info)) = (b', Inr ())")
  case True
  then obtain r info c b' where r: "tm_intents m i = Some r" "ir_state r = Disputed info c"
    "(if decision = ProviderWins then settle b (di_reserved info) else refund b (di_reserved info)) = (b', Inr ())" by blast
  show ?thesis
  proof (cases decision)
    case ProviderWins
    then show ?thesis
      using r close_effect [OF r(1), of SettledPaid info c] by (simp add: resolve_challenge_def is_provider_wins)
  next
    case ChallengerWins
    then show ?thesis
      using r close_effect [OF r(1), of SettledRefunded info c] by (simp add: resolve_challenge_def is_challenger_wins)
  qed
next
  case False
  then have "fst (resolve_challenge (m, b, s) i decision) = (m, b, s)"
    by (cases decision)
      (auto simp: resolve_challenge_def split: option.split intent_state.split prod.split sum.split dest: budget_errors)
  then show ?thesis by (simp add: me_none)
qed

lemma trusted_effect: "market_effect (m, b, s) (fst (settle_trusted (m, b, s) i))"
  by (auto simp: settle_trusted_def settle_effect me_none split: option.split intent_state.split)

lemma market_change_effect: "market_change M st st' \<Longrightarrow> market_effect st st'"
  by (erule market_changeE; cases st)
    (auto simp: post_effect match_effect receipt_effect challenge_effect settle_effect resolve_effect trusted_effect me_deposit)

section \<open>Holds over a history\<close>

fun backed :: "market_state \<Rightarrow> bool" where
  "backed (m, b, s) \<longleftrightarrow> budget.exact b (open_holds reserved_of m) \<and> stake.covers s (open_holds locked_of m)"

lemma open_holds_post: "tm_intents m i = None \<Longrightarrow> f (ir_state r) = None \<Longrightarrow>
    open_holds f (m\<lparr>tm_intents := (tm_intents m)(i \<mapsto> r)\<rparr>) = open_holds f m"
  by (auto simp: open_holds_def fun_eq_iff)

lemma effect_backed: "market_effect st st' \<Longrightarrow> backed st \<Longrightarrow> backed st'"
proof (induction rule: market_effect.induct)
  case (me_deposit m b s x)
  then show ?case
    using deposit_ok [of b x] by (simp add: budget.exact_def budget.covers_def) (simp add: deposit_def)
next
  case (me_post m i r b s)
  then show ?case by (simp add: open_holds_post)
next
  case (me_leak n s s' m b)
  then show ?case by (auto intro: stake.covers_surplus)
next
  case (me_match m i r price b b' lock s s' qid provider)
  then show ?case using open_holds_at [OF me_match(1)] by (auto intro: budget.exact_hold stake.covers_hold)
next
  case (me_move m i r st b s)
  have "(open_holds f m)(i := f st) = open_holds f m" if "f st = f (ir_state r)" for f
    using open_holds_at [OF me_move(1)] that by (auto simp: fun_eq_iff)
  then show ?case using me_move by simp
next
  case (me_close m i r st n y b b' s)
  have locked: "open_holds locked_of m i = Some (unat y)" using open_holds_at [OF me_close(1)] me_close(4) by simp
  moreover have "unat y \<le> unat (sk_locked s)" using stake.covers_ge [of s "open_holds locked_of m" i] locked me_close(8) by simp
  then have "stake_releases (unat y) s (stake_unlock s y)" by (auto simp: stake_releases_def)
  ultimately show ?case
    using me_close open_holds_at [OF me_close(1)] by (auto intro: budget.exact_release stake.covers_release)
qed simp

lemma backed_start: "backed (default_market\<lparr>tm_slash_multiplier := k\<rparr>, new_budget i parent d, \<lparr>sk_amount = a, sk_locked = 0\<rparr>)"
proof -
  have "open_holds f (default_market\<lparr>tm_slash_multiplier := k\<rparr>) = Map.empty" for f
    by (simp add: open_holds_def default_market_def fun_eq_iff)
  then show ?thesis
    by (simp add: budget.exact_def budget.covers_def stake.covers_def new_budget_def budget_ok_def stake_ok_def)
qed

lemma history_backed: "(market_change M)\<^sup>*\<^sup>* st st' \<Longrightarrow> backed st \<Longrightarrow> backed st'"
  by (induction rule: rtranclp_induct) (auto dest: market_change_effect effect_backed)

text \<open>What an effect does to one intent.\<close>

definition intent_moves :: "intent_record option \<Rightarrow> intent_record option \<Rightarrow> bool" where
  "intent_moves x y \<longleftrightarrow> (case x of
     None \<Rightarrow> (case y of None \<Rightarrow> True | Some r \<Rightarrow> intent_step\<^sup>*\<^sup>* Proposed (ir_state r))
   | Some r \<Rightarrow> (case y of None \<Rightarrow> False | Some r' \<Rightarrow> ir_intent r' = ir_intent r \<and> intent_step\<^sup>*\<^sup>* (ir_state r) (ir_state r')))"

lemma effect_moves: "market_effect (m, b, s) (m', b', s') \<Longrightarrow> intent_moves (tm_intents m i) (tm_intents m' i)"
  by (erule market_effect.cases) (auto simp: intent_moves_def set_state_def is_match split: option.split)

lemma intent_moves_trans: "intent_moves x y \<Longrightarrow> intent_moves y z \<Longrightarrow> intent_moves x z"
  by (auto simp: intent_moves_def split: option.splits)

lemma history_moves: "(market_change M)\<^sup>*\<^sup>* st st' \<Longrightarrow> intent_moves (tm_intents (fst st) i) (tm_intents (fst st') i)"
proof (induction rule: rtranclp_induct)
  case base
  then show ?case by (simp add: intent_moves_def split: option.split)
next
  case (step t u)
  then show ?case
    using effect_moves [of "fst t" "fst (snd t)" "snd (snd t)" "fst u" "fst (snd u)" "snd (snd u)"] market_change_effect [of M t u]
    by (auto intro: intent_moves_trans)
qed

lemma settled_final: "intent_step\<^sup>*\<^sup>* st st' \<Longrightarrow> st = SettledPaid \<or> st = SettledRefunded \<Longrightarrow> st' = st"
  by (induction rule: rtranclp_induct) (auto elim: intent_step.cases)

section \<open>Properties\<close>

text \<open>
  A budget is never overdrawn: after every history of deposits, reservations, settlements,
  refunds and partial settlements what is reserved, spent and available sums exactly to what was
  deposited, and what was spent never shrinks.
\<close>

theorem budget_never_overdrawn:
  assumes "budget_op\<^sup>*\<^sup>* (new_budget i parent d) b" and "budget_op\<^sup>*\<^sup>* b b'"
  shows "unat (bg_reserved b') + unat (bg_spent b') + unat (available b') = unat (bg_total_deposited b')
    \<and> bg_spent b \<le> bg_spent b'"
proof -
  have "budget_ok (new_budget i parent d)" by (simp add: budget_ok_def new_budget_def)
  then have "budget_ok b" using budget_ops_ok assms(1) by blast
  then have "budget_ok b'" "unat (bg_spent b) \<le> unat (bg_spent b')" using budget_ops_ok assms(2) by blast+
  then show ?thesis by (simp add: unat_available budget_ok_def word_le_nat_alt)
qed

text \<open>
  A bucket admits at most its capacity in each window: of calls at non-decreasing times, at most
  \<open>capacity\<close> are admitted in every window of the given length, counted from the start of the bucket.
\<close>

theorem bucket_admits_capacity:
  assumes "ucast window_millis \<noteq> (0 :: u64)" and "sorted ts" and "list_all (\<lambda>t. start \<le> t) ts"
  shows "length (filter (\<lambda>t. (unat t - unat start) div unat (ucast window_millis :: u64) = k)
      (admitted (new_bucket capacity window_millis start) ts)) \<le> unat capacity"
  using admitted_bound [of "new_bucket capacity window_millis start" ts k] assms
  by (auto simp: new_bucket_def window_of_def list_all_iff split: if_splits)

text \<open>
  C17.  The market is backed: after every history of a market with one budget and one stake, the
  budget reserves exactly what the open intents reserved, the locked stake covers what they locked,
  neither exceeds its account, and so every delivered intent can be settled once its window is over
  and every dispute can be resolved either way.
\<close>

theorem market_reservations_backed:
  assumes "(market_change M)\<^sup>*\<^sup>*
      (default_market\<lparr>tm_slash_multiplier := k\<rparr>, new_budget i parent d, \<lparr>sk_amount = a, sk_locked = 0\<rparr>) (m, b, s)"
  shows "map_total (\<lambda>n. n) (open_holds reserved_of m) = unat (bg_reserved b)
    \<and> unat (bg_reserved b) + unat (bg_spent b) \<le> unat (bg_total_deposited b)
    \<and> map_total (\<lambda>n. n) (open_holds locked_of m) \<le> unat (sk_locked s) \<and> sk_locked s \<le> sk_amount s
    \<and> (tm_intents m j = Some r \<and> ir_state r = Delivered info \<and> di_challenge_deadline_ms info \<le> now \<longrightarrow>
         is_ok (snd (settle_after_window (m, b, s) j now)))
    \<and> (tm_intents m j = Some r \<and> ir_state r = Disputed info c \<longrightarrow>
         is_ok (snd (resolve_challenge (m, b, s) j decision)))"
proof -
  have backed: "budget.exact b (open_holds reserved_of m)" "stake.covers s (open_holds locked_of m)"
    using history_backed [OF assms backed_start] by simp_all
  have enough: "di_reserved info \<le> bg_reserved b" if "tm_intents m j = Some r" "reserved_of (ir_state r) = Some (unat (di_reserved info))"
    using budget.covers_ge [of b "open_holds reserved_of m" j] backed(1) open_holds_at [OF that(1)] that(2)
    by (simp add: budget.exact_def word_le_nat_alt)
  have "is_ok (snd (settle_after_window (m, b, s) j now))"
    if "tm_intents m j = Some r" "ir_state r = Delivered info" "di_challenge_deadline_ms info \<le> now"
    using that enough by (simp add: settle_after_window_def settle_def not_less)
  moreover have "is_ok (snd (resolve_challenge (m, b, s) j decision))"
    if "tm_intents m j = Some r" "ir_state r = Disputed info c"
    using that enough by (cases decision) (simp_all add: resolve_challenge_def settle_def refund_def not_less)
  ultimately show ?thesis
    using backed by (auto simp: budget.exact_def budget.covers_def stake.covers_def budget_ok_def stake_ok_def word_le_nat_alt)
qed

text \<open>
  An intent moves along its life cycle only: over every history an intent keeps its signed body
  and its state follows proposed, matched, delivered, perhaps disputed, settled; a settled intent
  never changes again, so it is paid or refunded once.
\<close>

theorem intent_life_cycle:
  assumes "(market_change M)\<^sup>*\<^sup>* (m, b, s) (m', b', s')" and "tm_intents m i = Some r"
  shows "\<exists>r'. tm_intents m' i = Some r' \<and> ir_intent r' = ir_intent r \<and> intent_step\<^sup>*\<^sup>* (ir_state r) (ir_state r')
    \<and> (ir_state r = SettledPaid \<or> ir_state r = SettledRefunded \<longrightarrow> ir_state r' = ir_state r)"
  using history_moves [OF assms(1), of i] assms(2)
  by (auto simp: intent_moves_def split: option.splits intro: settled_final)

text \<open>
  The trusted settlement skips the challenge window: a delivered intent of any tier whose
  reservation the budget holds is settled at once, whatever its deadline, and the window in which
  it could be challenged is gone.
\<close>

theorem trusted_settlement_skips_window:
  assumes "tm_intents m i = Some r" and "ir_state r = Delivered info" and "di_reserved info \<le> bg_reserved b"
  shows "\<exists>m' b' s'. settle_trusted (m, b, s) i = ((m', b', s'), Inr ())
    \<and> submit_challenge m' i now c \<in> {(m', Inl ChallengeBadState), (m', Inl ChallengeIntentMismatch)}
    \<and> unat (bg_reserved b') + unat (di_reserved info) = unat (bg_reserved b)"
proof -
  obtain b' where "settle b (di_reserved info) = (b', Inr ())" "unat (bg_reserved b') + unat (di_reserved info) = unat (bg_reserved b)"
    using settle_enough [OF assms(3)] by blast
  then show ?thesis
    using assms(1,2) by (auto simp: settle_trusted_def settle_after_window_def set_state_def submit_challenge_def)
qed

text \<open>
  Stake leaks: when the stake suffices and the budget refuses the price, the call fails and the
  stake it locked stays locked, while the intent is as it was and no settlement will release it.
\<close>

theorem refused_match_leaks_stake:
  assumes "tm_intents m i = Some r" and "ir_state r = Proposed" and "qb_intent_id (qt_body q) = i"
    and "quote_verify M q pk = Inr ()" and "qb_price (qt_body q) \<le> ti_max_price (in_body (ir_intent r))"
    and "now \<le> qb_expiry_ms (qt_body q)" and "bg_per_tool_caps b = Map.empty" and "available b < qb_price (qt_body q)"
    and "stake_lock s (sat_mul (qb_price (qt_body q)) (ucast (tm_slash_multiplier m))) = (s', Inr ())"
  shows "match_intent M (m, b, s) i q pk now = ((m, b, s'), Inl (MatchBudget InsufficientAvailable))"
  using assms by (simp add: match_intent_def reserve_def not_less [symmetric])

section \<open>Concrete instance\<close>

definition sample_market_ext :: market_ext where
  "sample_market_ext = \<lparr>mk_crypto = sample_wallet, mk_enc_intent = (\<lambda>_. Some [1, 2]), mk_enc_quote = (\<lambda>_. Some [3])\<rparr>"

definition sample_intent :: tool_intent where
  "sample_intent = \<lparr>in_body = \<lparr>ti_intent_id = 5, ti_agent_session = 8, ti_task_id = 1, ti_tool_class = Browser,
     ti_payload_commitment = 4, ti_max_price = 150, ti_verification_tier = Optimistic, ti_deadline_ms = 9000, ti_nonce = 0\<rparr>,
     in_signature = 10\<rparr>"

definition sample_quote :: quote where
  "sample_quote = \<lparr>qt_body = \<lparr>qb_quote_id = 6, qb_intent_id = 5, qb_provider_id = 3, qb_price = 100, qb_expiry_ms = 5000\<rparr>,
     qt_signature = 21\<rparr>"

abbreviation sample_budget :: "amount \<Rightarrow> budget_account" where
  "sample_budget d \<equiv> new_budget 1 None d"

abbreviation sample_stake :: provider_stake where
  "sample_stake \<equiv> \<lparr>sk_amount = 1000, sk_locked = 0\<rparr>"

abbreviation sample_start :: market_state where
  "sample_start \<equiv> (default_market\<lparr>tm_slash_multiplier := 2\<rparr>, sample_budget 500, sample_stake)"

abbreviation sample_record :: "intent_state \<Rightarrow> intent_record" where
  "sample_record st \<equiv> \<lparr>ir_intent = sample_intent, ir_state = st\<rparr>"

definition sample_info :: delivered_info where
  "sample_info = \<lparr>di_quote_id = 6, di_provider = 3, di_reserved = 100, di_stake_locked = 200, di_output_commitment = 77,
     di_delivered_at_ms = 2000, di_challenge_deadline_ms = 130000\<rparr>"

definition posted :: tool_market where
  "posted = \<lparr>tm_intents = [5 \<mapsto> sample_record Proposed], tm_slash_multiplier = 2\<rparr>"

definition delivered :: tool_market where
  "delivered = \<lparr>tm_intents = [5 \<mapsto> sample_record (Delivered sample_info)], tm_slash_multiplier = 2\<rparr>"

abbreviation sample_reserved :: budget_account where
  "sample_reserved \<equiv> (sample_budget 500)\<lparr>bg_reserved := 100, bg_nonce := 1\<rparr>"

abbreviation sample_locked :: provider_stake where
  "sample_locked \<equiv> \<lparr>sk_amount = 1000, sk_locked = 200\<rparr>"

lemma sample_posted: "post_intent sample_market_ext (default_market\<lparr>tm_slash_multiplier := 2\<rparr>) sample_intent = (posted, Inr ())"
  by (simp add: post_intent_def intent_verify_def check_signature_def sample_market_ext_def sample_wallet_def sample_intent_def
      default_market_def posted_def)

lemma sample_quote_ok: "quote_verify sample_market_ext sample_quote 20 = Inr ()"
  by (simp add: quote_verify_def check_signature_def sample_market_ext_def sample_wallet_def sample_quote_def)

lemma sample_lock: "stake_lock sample_stake (sat_mul (qb_price (qt_body sample_quote)) (ucast (tm_slash_multiplier posted))) = (sample_locked, Inr ())"
  by (simp add: stake_lock_def sample_quote_def posted_def sat_mul_def sat_sub_def sat_add_def word_less_nat_alt)

lemma sample_matched:
  "fst (match_intent sample_market_ext (posted, sample_budget 500, sample_stake) 5 sample_quote 20 1000) =
     (posted\<lparr>tm_intents := [5 \<mapsto> sample_record (Matched 6 3 100 200)]\<rparr>, sample_reserved, sample_locked)"
proof -
  have "sat_mul (100 :: amount) (ucast (2 :: u64)) = 200" by (simp add: sat_mul_def)
  then show ?thesis
    using sample_lock sample_quote_ok
    by (simp add: match_intent_def posted_def sample_quote_def sample_intent_def reserve_def new_budget_def available_def
        set_state_def sat_sub_def sat_add_def word_less_nat_alt)
qed

lemma sample_delivered:
  "fst (post_receipt (posted\<lparr>tm_intents := [5 \<mapsto> sample_record (Matched 6 3 100 200)]\<rparr>) 5 77 2000) = delivered"
  by (simp add: post_receipt_def posted_def delivered_def sample_intent_def sample_info_def set_state_def
      DEFAULT_OPTIMISTIC_CHALLENGE_MS_def sat_add_def)

lemma sample_run:
  "(market_change sample_market_ext)\<^sup>*\<^sup>* sample_start (posted, sample_budget 500, sample_stake)"
  "(market_change sample_market_ext)\<^sup>*\<^sup>* (posted, sample_budget 500, sample_stake) (delivered, sample_reserved, sample_locked)"
proof -
  show "(market_change sample_market_ext)\<^sup>*\<^sup>* sample_start (posted, sample_budget 500, sample_stake)"
    using mk_post [of sample_market_ext "default_market\<lparr>tm_slash_multiplier := 2\<rparr>" "sample_budget 500" sample_stake sample_intent]
    by (simp add: sample_posted)
  show "(market_change sample_market_ext)\<^sup>*\<^sup>* (posted, sample_budget 500, sample_stake) (delivered, sample_reserved, sample_locked)"
    using mk_match [of sample_market_ext "(posted, sample_budget 500, sample_stake)" 5 sample_quote 20 1000]
      mk_receipt [of sample_market_ext "posted\<lparr>tm_intents := [5 \<mapsto> sample_record (Matched 6 3 100 200)]\<rparr>" sample_reserved sample_locked 5 77 2000]
    unfolding sample_matched sample_delivered by (meson r_into_rtranclp rtranclp.rtrancl_into_rtrancl)
qed

definition sample_challenge :: challenge where
  "sample_challenge = \<lparr>ch_challenge_id = 1, ch_intent_id = 5, ch_challenger = 30, ch_kind = WrongOutput, ch_evidence_hash = 2, ch_bond = 10\<rparr>"

theorem market_reservations_backed_witness:
  "is_ok (snd (settle_after_window (delivered, sample_reserved, sample_locked) 5 130000))
   \<and> map_total (\<lambda>n. n) (open_holds reserved_of delivered) = 100"
  using market_reservations_backed [OF rtranclp_trans [OF sample_run], of 5 "sample_record (Delivered sample_info)" sample_info 130000]
  by (simp add: delivered_def sample_info_def)

theorem intent_life_cycle_witness:
  "\<exists>r'. tm_intents delivered 5 = Some r' \<and> intent_step\<^sup>*\<^sup>* Proposed (ir_state r') \<and> ir_state r' = Delivered sample_info"
  using intent_life_cycle [OF sample_run(2), of 5 "sample_record Proposed"] by (auto simp: posted_def delivered_def)

theorem trusted_settlement_skips_window_witness:
  "ti_verification_tier (in_body sample_intent) = Optimistic \<and> 2000 < di_challenge_deadline_ms sample_info
   \<and> (\<exists>st. settle_trusted (delivered, sample_reserved, sample_locked) 5 = (st, Inr ()))"
proof -
  have "tm_intents delivered 5 = Some (sample_record (Delivered sample_info))" "di_reserved sample_info \<le> bg_reserved sample_reserved"
    by (simp_all add: delivered_def sample_info_def)
  from trusted_settlement_skips_window [OF this(1) _ this(2), of sample_locked 2000 sample_challenge] show ?thesis
    by (auto simp: sample_info_def sample_intent_def word_less_nat_alt)
qed

theorem refused_match_leaks_stake_witness:
  "match_intent sample_market_ext (posted, sample_budget 50, sample_stake) 5 sample_quote 20 1000 =
     ((posted, sample_budget 50, sample_locked), Inl (MatchBudget InsufficientAvailable))"
  by (rule refused_match_leaks_stake [OF _ _ _ sample_quote_ok _ _ _ _ sample_lock, of 5 "sample_record Proposed"])
    (simp_all add: posted_def sample_quote_def sample_intent_def new_budget_def available_def sat_sub_def word_le_nat_alt word_less_nat_alt)

theorem budget_never_overdrawn_witness:
  "unat (available (fst (settle (fst (reserve (sample_budget 500) Browser 120)) 120))) = 380"
proof -
  let ?r = "fst (reserve (sample_budget 500) Browser 120)"
  have "budget_op\<^sup>*\<^sup>* (sample_budget 500) ?r" "budget_op\<^sup>*\<^sup>* ?r (fst (settle ?r 120))"
    by (simp_all add: bo_reserve bo_settle r_into_rtranclp)
  from budget_never_overdrawn [OF this] show ?thesis
    by (simp add: reserve_def settle_def new_budget_def available_def sat_sub_def sat_add_def word_less_nat_alt)
qed

theorem bucket_admits_capacity_witness:
  "admitted (new_bucket 2 1000 0) [0, 10, 20, 1500] = [0, 10, 1500]
   \<and> length (filter (\<lambda>t. (unat t - unat (0 :: u64)) div unat (ucast (1000 :: u128) :: u64) = 0) (admitted (new_bucket 2 1000 0) [0, 10, 20, 1500])) \<le> 2"
proof
  show "admitted (new_bucket 2 1000 0) [0, 10, 20, 1500] = [0, 10, 1500]"
    by (simp add: new_bucket_def try_consume_def refill_def Let_def sat_sub_def sat_add_def word_le_nat_alt)
qed (use bucket_admits_capacity [of 1000 "[0, 10, 20, 1500]" 0 0 2] in \<open>simp add: word_le_nat_alt\<close>)

end
