(* ===== verification/Wallet_Receipts.thy ===== *)
theory Wallet_Receipts
  imports Wallet_Market Merkle BTree_Map "HOL-Library.Multiset"
begin

text \<open>
  Commitments of the agent wallet (\<open>crates/wallet/src\<close>: \<open>merkle.rs\<close>, \<open>revocation.rs\<close>,
  \<open>task_receipt.rs\<close>): the sorted-leaf Merkle tree, the set of revoked capabilities with its root and
  proofs, and the receipts that providers and agents sign for tool calls and tasks.

  The tree is the one of the core crate with a node hash that prefixes its input, so completeness
  and soundness of its paths come from there; the prefixes of leaves and nodes differ, so a path of
  any length leads to a leaf unless the hash collides.
\<close>

section \<open>The sorted-leaf tree\<close>

definition node_hash :: "(bytes \<Rightarrow> hash256) \<Rightarrow> bytes \<Rightarrow> hash256" where
  "node_hash blake3 bs = blake3 (ascii ''node'' @ bs)"

definition hash_leaf :: "(bytes \<Rightarrow> hash256) \<Rightarrow> hash256 \<Rightarrow> hash256" where
  "hash_leaf blake3 data = blake3 (ascii ''leaf'' @ be_bytes 32 data)"

definition EMPTY_ROOT :: hash256 where "EMPTY_ROOT = 0"

definition root_from_sorted_commitments :: "(bytes \<Rightarrow> hash256) \<Rightarrow> hash256 list \<Rightarrow> hash256" where
  "root_from_sorted_commitments blake3 hs =
     (if hs = [] then EMPTY_ROOT else merkle_root_loop (node_hash blake3) hs)"

definition root_from_sorted_leaves :: "(bytes \<Rightarrow> hash256) \<Rightarrow> hash256 list \<Rightarrow> hash256" where
  "root_from_sorted_leaves blake3 leaves =
     (if leaves = [] then EMPTY_ROOT else merkle_root_loop (node_hash blake3) (map (hash_leaf blake3) leaves))"

text \<open>\<open>slice::binary_search\<close> on the sorted keys of a map, which occur once.\<close>

fun binary_search :: "'a list \<Rightarrow> 'a \<Rightarrow> nat option" where
  "binary_search [] x = None"
| "binary_search (y # ys) x = (if x = y then Some 0 else map_option Suc (binary_search ys x))"

definition leaf_proof :: "(bytes \<Rightarrow> hash256) \<Rightarrow> hash256 list \<Rightarrow> hash256 \<Rightarrow> (nat \<times> hash256 list) option" where
  "leaf_proof blake3 leaves leaf =
     (case binary_search leaves leaf of
        None \<Rightarrow> None
      | Some idx \<Rightarrow> Some (idx, merkle_proof_loop (node_hash blake3) (map (hash_leaf blake3) leaves) idx))"

definition verify_membership :: "(bytes \<Rightarrow> hash256) \<Rightarrow> hash256 \<Rightarrow> hash256 \<Rightarrow> nat \<Rightarrow> hash256 list \<Rightarrow> bool" where
  "verify_membership blake3 root leaf idx path =
     (if root = EMPTY_ROOT then False else proof_walk (node_hash blake3) (hash_leaf blake3 leaf) idx path = root)"

section \<open>Revocation\<close>

record revocation_entry =
  rv_revoked_at_ms :: u64
  rv_reason_code :: u8
  rv_cascade :: bool

record revocation_set =
  rv_inner :: "(hash256, revocation_entry) btree"

datatype revocation_error = RevocationDuplicate

definition revoke :: "revocation_set \<Rightarrow> hash256 \<Rightarrow> revocation_entry \<Rightarrow> (revocation_set, revocation_error, unit) exec" where
  "revoke s cap entry =
     (if bt_get (rv_inner s) cap \<noteq> None then (s, Inl RevocationDuplicate)
      else (s\<lparr>rv_inner := bt_insert cap entry (rv_inner s)\<rparr>, Inr ()))"

definition revocation_get :: "revocation_set \<Rightarrow> hash256 \<Rightarrow> revocation_entry option" where
  "revocation_get s cap = bt_get (rv_inner s) cap"

definition revocation_root :: "(bytes \<Rightarrow> hash256) \<Rightarrow> revocation_set \<Rightarrow> hash256" where
  "revocation_root blake3 s = root_from_sorted_leaves blake3 (map fst (rv_inner s))"

definition proof_for :: "(bytes \<Rightarrow> hash256) \<Rightarrow> revocation_set \<Rightarrow> hash256 \<Rightarrow> hash256 list option" where
  "proof_for blake3 s cap = map_option snd (leaf_proof blake3 (map fst (rv_inner s)) cap)"

definition build_verify_proof ::
    "(bytes \<Rightarrow> hash256) \<Rightarrow> revocation_set \<Rightarrow> hash256 \<Rightarrow> hash256 list \<Rightarrow> revocation_error + hash256 list" where
  "build_verify_proof blake3 s cap ancestors =
     Inr (foldl (\<lambda>path a. case proof_for blake3 s a of None \<Rightarrow> path | Some p \<Rightarrow> path @ p)
        (unwrap_or (proof_for blake3 s cap) []) ancestors)"

fun ancestor_cascades :: "revocation_set \<Rightarrow> hash256 list \<Rightarrow> bool" where
  "ancestor_cascades s [] = False"
| "ancestor_cascades s (a # ancestors) =
     (case bt_get (rv_inner s) a of
        Some e \<Rightarrow> if rv_cascade e then True else ancestor_cascades s ancestors
      | None \<Rightarrow> ancestor_cascades s ancestors)"

definition is_revoked :: "revocation_set \<Rightarrow> hash256 \<Rightarrow> hash256 list \<Rightarrow> bool" where
  "is_revoked s cap ancestors = (if bt_get (rv_inner s) cap \<noteq> None then True else ancestor_cascades s ancestors)"

section \<open>Receipts\<close>

record metering_record =
  mt_input_tokens :: u64
  mt_output_tokens :: u64
  mt_wall_duration_ms :: u64
  mt_bytes_metered :: u64

record tee_attestation =
  ta_tee_type :: tee_type
  ta_quote :: bytes

record tool_receipt_body =
  rb_intent_id :: hash256
  rb_task_id :: task_id
  rb_agent_session :: pubkey32
  rb_provider_id :: provider_id
  rb_tool_class :: tool_class
  rb_payload_commitment :: hash256
  rb_output_commitment :: hash256
  rb_output_pointer :: string
  rb_metering :: metering_record
  rb_cost :: amount
  rb_started_at :: timestamp_ms
  rb_completed_at :: timestamp_ms
  rb_attestation :: "tee_attestation option"

record tool_receipt_ack =
  ak_receipt_id :: hash256
  ak_intent_id :: hash256
  ak_task_id :: task_id
  ak_output_commitment :: hash256
  ak_cost :: amount

record tool_receipt =
  tr_receipt_id :: hash256
  tr_body :: tool_receipt_body
  tr_provider_sig :: sig64
  tr_agent_ack_sig :: "sig64 option"

datatype tool_receipt_verify_error =
    BadProviderKey | ProviderIdMismatch | BadProviderSig | TrEncode | ReceiptIdMismatch | BadAgentKey | MissingAgentAck | BadAgentAckSig

record receipt_ext =
  rx_crypto :: wallet_crypto
  rx_enc_body :: "tool_receipt_body \<Rightarrow> bytes option"
  rx_enc_ack :: "tool_receipt_ack \<Rightarrow> bytes option"
  rx_enc_receipt :: "tool_receipt \<Rightarrow> bytes"

definition derive_tool_receipt_id :: "wallet_crypto \<Rightarrow> hash256 \<Rightarrow> sig64 \<Rightarrow> hash256" where
  "derive_tool_receipt_id W intent_id s = wc_blake3 W (be_bytes 32 intent_id @ be_bytes 64 s)"

definition sign_new :: "receipt_ext \<Rightarrow> tool_receipt_body \<Rightarrow> signing_key \<Rightarrow> tool_receipt option" where
  "sign_new X body sk =
     map_option (\<lambda>msg. let s = wc_sign (rx_crypto X) sk msg
        in \<lparr>tr_receipt_id = derive_tool_receipt_id (rx_crypto X) (rb_intent_id body) s, tr_body = body,
            tr_provider_sig = s, tr_agent_ack_sig = None\<rparr>) (rx_enc_body X body)"

definition verify_provider :: "receipt_ext \<Rightarrow> tool_receipt \<Rightarrow> pubkey32 \<Rightarrow> tool_receipt_verify_error + unit" where
  "verify_provider X r provider_pk =
     (if provider_id_from_public_key (rx_crypto X) provider_pk \<noteq> rb_provider_id (tr_body r) then Inl ProviderIdMismatch
      else if \<not> wc_key_ok (rx_crypto X) provider_pk then Inl BadProviderKey
      else case rx_enc_body X (tr_body r) of
          None \<Rightarrow> Inl TrEncode
        | Some msg \<Rightarrow>
            if \<not> wc_verify (rx_crypto X) provider_pk msg (tr_provider_sig r) then Inl BadProviderSig
            else if derive_tool_receipt_id (rx_crypto X) (rb_intent_id (tr_body r)) (tr_provider_sig r) \<noteq> tr_receipt_id r
            then Inl ReceiptIdMismatch
            else Inr ())"

definition ack_of :: "tool_receipt \<Rightarrow> tool_receipt_ack" where
  "ack_of r = \<lparr>ak_receipt_id = tr_receipt_id r, ak_intent_id = rb_intent_id (tr_body r), ak_task_id = rb_task_id (tr_body r),
     ak_output_commitment = rb_output_commitment (tr_body r), ak_cost = rb_cost (tr_body r)\<rparr>"

definition sign_agent_ack :: "receipt_ext \<Rightarrow> tool_receipt \<Rightarrow> signing_key \<Rightarrow> sig64 option" where
  "sign_agent_ack X r sk = map_option (wc_sign (rx_crypto X) sk) (rx_enc_ack X (ack_of r))"

definition with_agent_ack :: "tool_receipt \<Rightarrow> sig64 \<Rightarrow> tool_receipt" where
  "with_agent_ack r s = r\<lparr>tr_agent_ack_sig := Some s\<rparr>"

definition verify_agent_ack :: "receipt_ext \<Rightarrow> tool_receipt \<Rightarrow> tool_receipt_verify_error + unit" where
  "verify_agent_ack X r =
     (case tr_agent_ack_sig r of
        None \<Rightarrow> Inl MissingAgentAck
      | Some s \<Rightarrow>
          if \<not> wc_key_ok (rx_crypto X) (rb_agent_session (tr_body r)) then Inl BadAgentKey
          else case rx_enc_ack X (ack_of r) of
              None \<Rightarrow> Inl TrEncode
            | Some msg \<Rightarrow> if wc_verify (rx_crypto X) (rb_agent_session (tr_body r)) msg s then Inr () else Inl BadAgentAckSig)"

definition tool_receipt_leaf_commitment :: "receipt_ext \<Rightarrow> tool_receipt \<Rightarrow> hash256" where
  "tool_receipt_leaf_commitment X r = wc_blake3 (rx_crypto X) (rx_enc_receipt X r)"

definition tool_receipt_root :: "receipt_ext \<Rightarrow> tool_receipt list \<Rightarrow> hash256" where
  "tool_receipt_root X receipts =
     root_from_sorted_commitments (wc_blake3 (rx_crypto X)) (sort (map (tool_receipt_leaf_commitment X) receipts))"

definition verify_tool_receipt_costs :: "tool_receipt list \<Rightarrow> amount \<Rightarrow> bool" where
  "verify_tool_receipt_costs receipts expected \<longleftrightarrow> word_sum (map (\<lambda>r. rb_cost (tr_body r)) receipts) = expected"

record task_receipt =
  kr_task_id :: task_id
  kr_agent_session :: pubkey32
  kr_artifact_commitment :: hash256
  kr_artifact_pointer :: string
  kr_tool_receipt_root :: hash256
  kr_total_tool_cost :: amount

datatype task_receipt_build_error = CostMismatch | RootMismatch | TaskIdMismatch | AgentSessionMismatch

fun check_receipts :: "task_id \<Rightarrow> pubkey32 \<Rightarrow> tool_receipt list \<Rightarrow> task_receipt_build_error option" where
  "check_receipts task agent [] = None"
| "check_receipts task agent (r # rs) =
     (if rb_task_id (tr_body r) \<noteq> task then Some TaskIdMismatch
      else if rb_agent_session (tr_body r) \<noteq> agent then Some AgentSessionMismatch
      else check_receipts task agent rs)"

definition build_task_receipt ::
    "receipt_ext \<Rightarrow> task_id \<Rightarrow> pubkey32 \<Rightarrow> hash256 \<Rightarrow> string \<Rightarrow> tool_receipt list \<Rightarrow> amount \<Rightarrow> hash256 \<Rightarrow>
     task_receipt_build_error + task_receipt" where
  "build_task_receipt X task agent artifact pointer receipts expected claimed_root =
     (case check_receipts task agent receipts of
        Some e \<Rightarrow> Inl e
      | None \<Rightarrow>
          if \<not> verify_tool_receipt_costs receipts expected then Inl CostMismatch
          else let root = tool_receipt_root X receipts
               in if root \<noteq> claimed_root then Inl RootMismatch
                  else Inr \<lparr>kr_task_id = task, kr_agent_session = agent, kr_artifact_commitment = artifact,
                     kr_artifact_pointer = pointer, kr_tool_receipt_root = root, kr_total_tool_cost = expected\<rparr>)"

section \<open>Paths of the tree\<close>

abbreviation leaf_input :: "hash256 \<Rightarrow> bytes" where "leaf_input d \<equiv> ascii ''leaf'' @ be_bytes 32 d"
abbreviation node_input :: "bytes \<Rightarrow> bytes" where "node_input bs \<equiv> ascii ''node'' @ bs"

lemma tags_differ [simp]: "leaf_input d \<noteq> node_input bs" "node_input bs \<noteq> leaf_input d"
  by (simp_all add: ascii_def)

lemma hash_bytes_inject [simp]: "be_bytes 32 (c :: hash256) = be_bytes 32 d \<longleftrightarrow> c = d"
  by (auto dest: be_bytes_inject [rotated])

text \<open>What is hashed for the root of the leaves and for a path from a leaf.\<close>

definition membership_inputs :: "(bytes \<Rightarrow> hash256) \<Rightarrow> hash256 list \<Rightarrow> hash256 \<Rightarrow> nat \<Rightarrow> hash256 list \<Rightarrow> bytes set" where
  "membership_inputs B leaves leaf idx path =
     leaf_input ` insert leaf (set leaves) \<union>
     node_input ` (set (tree_inputs (node_hash B) (map (hash_leaf B) leaves)) \<union> set (walk_inputs (node_hash B) (hash_leaf B leaf) idx path))"

lemma membership_sound:
  assumes ver: "verify_membership B (root_from_sorted_leaves B leaves) leaf idx path"
    and inj: "inj_on B (membership_inputs B leaves leaf idx path)"
  shows "leaf \<in> set leaves"
proof -
  let ?kc = "node_hash B" and ?level = "map (hash_leaf B) leaves" and ?n = "hash_leaf B leaf"
  have ne: "leaves \<noteq> []" and walk: "proof_walk ?kc ?n idx path = merkle_root_loop ?kc ?level"
    using ver by (auto simp: verify_membership_def root_from_sorted_leaves_def split: if_splits)
  have leaf_node: "hash_leaf B d \<noteq> ?kc p" if "d \<in> insert leaf (set leaves)"
    "p \<in> set (tree_inputs ?kc ?level) \<union> set (walk_inputs ?kc ?n idx path)" for d p
  proof
    assume "hash_leaf B d = ?kc p"
    then have "leaf_input d = node_input p"
      using that by (intro inj_onD [OF inj]) (auto simp: hash_leaf_def node_hash_def membership_inputs_def)
    then show False by simp
  qed
  have "inj_on ?kc (set (tree_inputs ?kc ?level) \<union> set (walk_inputs ?kc ?n idx path))"
  proof (rule inj_onI)
    fix x y assume "x \<in> set (tree_inputs ?kc ?level) \<union> set (walk_inputs ?kc ?n idx path)"
      "y \<in> set (tree_inputs ?kc ?level) \<union> set (walk_inputs ?kc ?n idx path)" "?kc x = ?kc y"
    then have "node_input x = node_input y"
      by (intro inj_onD [OF inj]) (auto simp: node_hash_def membership_inputs_def)
    then show "x = y" by simp
  qed
  moreover have "?n \<notin> ?kc ` set (tree_inputs ?kc ?level)" using leaf_node [of leaf] by auto
  ultimately have "\<exists>k \<le> length path. proof_walk ?kc ?n idx (take k path) \<in> set ?level"
    using walk ne by (intro walk_meets_level) simp_all
  then obtain k y where k: "k \<le> length path" and y: "y \<in> set leaves"
    and eq: "proof_walk ?kc ?n idx (take k path) = hash_leaf B y" by auto
  show ?thesis
  proof (cases k)
    case 0
    then have "leaf_input leaf = leaf_input y"
      using eq y by (intro inj_onD [OF inj]) (auto simp: hash_leaf_def membership_inputs_def)
    then show ?thesis using y by simp
  next
    case (Suc j)
    then obtain l r where "proof_walk ?kc ?n idx (take k path) = ?kc (pair_bytes l r)"
        "pair_bytes l r \<in> set (walk_inputs ?kc ?n idx path)"
      using walk_step [of j path ?kc ?n idx] k by auto
    then show ?thesis using leaf_node [of y "pair_bytes l r"] eq y by auto
  qed
qed

lemma binary_search_Some: "binary_search xs x = Some i \<Longrightarrow> i < length xs \<and> xs ! i = x"
  by (induction xs arbitrary: i) (auto split: if_splits)

lemma binary_search_found: "x \<in> set xs \<Longrightarrow> \<exists>i. binary_search xs x = Some i"
  by (induction xs) auto

lemma membership_complete:
  assumes "leaf \<in> set leaves" and "root_from_sorted_leaves B leaves \<noteq> EMPTY_ROOT"
  shows "\<exists>idx path. leaf_proof B leaves leaf = Some (idx, path)
    \<and> verify_membership B (root_from_sorted_leaves B leaves) leaf idx path"
proof -
  obtain i where i: "binary_search leaves leaf = Some i" "i < length leaves" "leaves ! i = leaf"
    using binary_search_found [OF assms(1)] binary_search_Some by metis
  then show ?thesis
    using assms merkle_walk_complete [of i "map (hash_leaf B) leaves" "node_hash B"]
    by (auto simp: leaf_proof_def verify_membership_def root_from_sorted_leaves_def)
qed

section \<open>Revocation over time\<close>

definition empty_revocations :: revocation_set where "empty_revocations = \<lparr>rv_inner = []\<rparr>"

definition revoke_all :: "revocation_set \<Rightarrow> (hash256 \<times> revocation_entry) list \<Rightarrow> revocation_set" where
  "revoke_all s rs = foldl (\<lambda>s (cap, e). fst (revoke s cap e)) s rs"

lemma revoke_ok: "bt_ok (rv_inner s) \<Longrightarrow> bt_ok (rv_inner (fst (revoke s cap e)))"
  by (simp add: revoke_def bt.put_ok)

lemma revoke_keeps:
  "bt_ok (rv_inner s) \<Longrightarrow> revocation_get s c = Some e \<Longrightarrow> revocation_get (fst (revoke s cap e')) c = Some e"
  by (auto simp: revoke_def revocation_get_def bt.get_put)

lemma revoke_all_keeps:
  "bt_ok (rv_inner s) \<Longrightarrow> bt_ok (rv_inner (revoke_all s rs)) \<and>
     (revocation_get s c = Some e \<longrightarrow> revocation_get (revoke_all s rs) c = Some e)"
proof (induction rs arbitrary: s)
  case (Cons r rs)
  obtain cap e' where r: "r = (cap, e')" by (cases r)
  have step: "revoke_all s (r # rs) = revoke_all (fst (revoke s cap e')) rs"
    by (simp add: r revoke_all_def)
  show ?case unfolding step
    using Cons.IH [OF revoke_ok [OF Cons.prems]] revoke_keeps [OF Cons.prems] by blast
qed (simp add: revoke_all_def)

lemma ancestor_cascades_iff:
  "ancestor_cascades s ancestors \<longleftrightarrow> (\<exists>a e. a \<in> set ancestors \<and> revocation_get s a = Some e \<and> rv_cascade e)"
  by (induction ancestors) (auto simp: revocation_get_def split: option.split)

section \<open>Properties\<close>

text \<open>
  C22.  The revocation root is exact: a proof exists and verifies for every revoked capability, and a
  path of any length that verifies shows that the capability is revoked, unless two of the hashed
  inputs collide.
\<close>

theorem revocation_proofs_exact:
  assumes "revocation_root B s \<noteq> EMPTY_ROOT" and "inj_on B (membership_inputs B (map fst (rv_inner s)) cap idx path)"
  shows "(revocation_get s cap \<noteq> None \<longrightarrow>
      (\<exists>i p. leaf_proof B (map fst (rv_inner s)) cap = Some (i, p) \<and> proof_for B s cap = Some p
        \<and> verify_membership B (revocation_root B s) cap i p))
    \<and> (verify_membership B (revocation_root B s) cap idx path \<longrightarrow> revocation_get s cap \<noteq> None)"
proof -
  have "revocation_get s cap \<noteq> None \<longleftrightarrow> cap \<in> set (map fst (rv_inner s))"
    by (simp add: revocation_get_def map_of_eq_None_iff)
  then show ?thesis
    using membership_complete [of cap "map fst (rv_inner s)" B] membership_sound [OF _ assms(2)] assms(1)
    by (auto simp: revocation_root_def proof_for_def)
qed

text \<open>
  Revocation is permanent and reaches descendants: whatever is revoked afterwards, a revoked
  capability stays revoked with the entry it got first, a capability is revoked exactly when it or
  an ancestor with the cascade flag is, and then so for good.
\<close>

theorem revocation_permanent:
  assumes "s = revoke_all empty_revocations rs"
  shows "(revocation_get s c = Some e \<longrightarrow> revocation_get (revoke_all s rs') c = Some e)
    \<and> (is_revoked s cap ancestors \<longleftrightarrow> revocation_get s cap \<noteq> None
        \<or> (\<exists>a e. a \<in> set ancestors \<and> revocation_get s a = Some e \<and> rv_cascade e))
    \<and> (is_revoked s cap ancestors \<longrightarrow> is_revoked (revoke_all s rs') cap ancestors)"
proof -
  have "bt_ok (rv_inner empty_revocations)" by (simp add: empty_revocations_def)
  then have ok: "bt_ok (rv_inner s)" unfolding assms using revoke_all_keeps by blast
  have keeps: "revocation_get s x = Some y \<Longrightarrow> revocation_get (revoke_all s rs') x = Some y" for x y
    using revoke_all_keeps [OF ok] by blast
  have iff: "is_revoked t cap ancestors \<longleftrightarrow> revocation_get t cap \<noteq> None
        \<or> (\<exists>a e. a \<in> set ancestors \<and> revocation_get t a = Some e \<and> rv_cascade e)" for t
    by (simp add: is_revoked_def ancestor_cascades_iff revocation_get_def)
  show ?thesis unfolding iff using keeps by blast
qed

text \<open>
  A receipt made for a provider and acknowledged by the agent verifies: when the signature scheme
  accepts its own signatures, both checks pass on the signed receipt.
\<close>

theorem receipt_round_trip:
  assumes "\<And>sk msg. wc_verify (rx_crypto X) (wc_public (rx_crypto X) sk) msg (wc_sign (rx_crypto X) sk msg)"
    and "\<And>sk. wc_key_ok (rx_crypto X) (wc_public (rx_crypto X) sk)"
    and "sign_new X body sk = Some r" and "rb_provider_id body = provider_id_from_public_key (rx_crypto X) (wc_public (rx_crypto X) sk)"
    and "sign_agent_ack X r agent_sk = Some a" and "rb_agent_session body = wc_public (rx_crypto X) agent_sk"
  shows "verify_provider X (with_agent_ack r a) (wc_public (rx_crypto X) sk) = Inr ()
    \<and> verify_agent_ack X (with_agent_ack r a) = Inr ()"
  using assms
  by (auto simp: sign_new_def verify_provider_def sign_agent_ack_def verify_agent_ack_def with_agent_ack_def ack_of_def Let_def)

text \<open>
  A task receipt binds its tool receipts: for two lists of the same length the roots agree
  exactly when the lists hold the same receipts, in whatever order, unless hashed inputs or encoded
  receipts collide.
\<close>

theorem task_receipt_binds_tool_receipts:
  assumes len: "length rs = length rs'"
    and enc: "inj_on (rx_enc_receipt X) (set rs \<union> set rs')"
    and no_collision: "inj_on (wc_blake3 (rx_crypto X))
      (rx_enc_receipt X ` (set rs \<union> set rs') \<union>
       node_input ` (set (tree_inputs (node_hash (wc_blake3 (rx_crypto X))) (sort (map (tool_receipt_leaf_commitment X) rs)))
         \<union> set (tree_inputs (node_hash (wc_blake3 (rx_crypto X))) (sort (map (tool_receipt_leaf_commitment X) rs')))))"
  shows "tool_receipt_root X rs = tool_receipt_root X rs' \<longleftrightarrow> mset rs = mset rs'"
proof
  let ?B = "wc_blake3 (rx_crypto X)" and ?c = "tool_receipt_leaf_commitment X"
  let ?xs = "sort (map ?c rs)" and ?ys = "sort (map ?c rs')"
  assume root: "tool_receipt_root X rs = tool_receipt_root X rs'"
  have "?xs = ?ys"
  proof (cases "rs = []")
    case False
    have "length ?xs = length rs" "length ?ys = length rs'" by simp_all
    then have "?xs \<noteq> []" "?ys \<noteq> []" using False len by (metis length_0_conv)+
    then have "merkle_root_loop (node_hash ?B) ?xs = merkle_root_loop (node_hash ?B) ?ys"
      using root by (simp add: tool_receipt_root_def root_from_sorted_commitments_def)
    moreover have "inj_on (node_hash ?B) (set (tree_inputs (node_hash ?B) ?xs) \<union> set (tree_inputs (node_hash ?B) ?ys))"
    proof (rule inj_onI)
      fix x y assume "x \<in> set (tree_inputs (node_hash ?B) ?xs) \<union> set (tree_inputs (node_hash ?B) ?ys)"
        "y \<in> set (tree_inputs (node_hash ?B) ?xs) \<union> set (tree_inputs (node_hash ?B) ?ys)" "node_hash ?B x = node_hash ?B y"
      then have "node_input x = node_input y" by (intro inj_onD [OF no_collision]) (auto simp: node_hash_def)
      then show "x = y" by simp
    qed
    ultimately show ?thesis using len by (intro merkle_root_inject) simp_all
  qed (use len in simp)
  then have "mset (map ?c rs) = mset (map ?c rs')" by (metis mset_sort)
  moreover have "inj_on ?c (set rs \<union> set rs')"
    using comp_inj_on [OF enc, of ?B] inj_on_subset [OF no_collision]
    by (auto simp: tool_receipt_leaf_commitment_def [abs_def] comp_def)
  ultimately show "mset rs = mset rs'"
    using image_mset_eq_image_mset_plusD [of ?c "mset rs" "mset rs'" "{#}"] by auto
next
  assume "mset rs = mset rs'"
  then have "mset (map (tool_receipt_leaf_commitment X) rs) = mset (map (tool_receipt_leaf_commitment X) rs')"
    by simp
  then have "sort (map (tool_receipt_leaf_commitment X) rs) = sort (map (tool_receipt_leaf_commitment X) rs')"
    by (metis mset_sort properties_for_sort sorted_sort)
  then show "tool_receipt_root X rs = tool_receipt_root X rs'" by (simp add: tool_receipt_root_def)
qed

text \<open>The sum of the costs wraps: two receipts of half the range of the amounts pass for a total of zero.\<close>

lemma receipt_costs_wrap:
  assumes "rb_cost (tr_body r) = 2 ^ 127" and "rb_cost (tr_body r') = 2 ^ 127"
  shows "verify_tool_receipt_costs [r, r'] 0"
  using assms by (simp add: verify_tool_receipt_costs_def)

section \<open>Witnesses\<close>

definition sample_entry :: revocation_entry where
  "sample_entry = \<lparr>rv_revoked_at_ms = 5, rv_reason_code = 1, rv_cascade = True\<rparr>"

definition sample_revoked :: revocation_set where
  "sample_revoked = revoke_all empty_revocations [(2, sample_entry), (1, sample_entry)]"

lemma sample_revoked_keys: "rv_inner sample_revoked = [(1, sample_entry), (2, sample_entry)]"
  by (simp add: sample_revoked_def revoke_all_def empty_revocations_def revoke_def)

lemma sample_leaf_hash: "hash_leaf (wc_blake3 sample_wallet) 1 = 153" "hash_leaf (wc_blake3 sample_wallet) 2 = 154"
  by code_simp+

lemma sample_root: "revocation_root (wc_blake3 sample_wallet) sample_revoked = 217"
  unfolding revocation_root_def sample_revoked_keys by code_simp

lemma tree_inputs_pair: "tree_inputs kc [a, b] = [pair_bytes a b]"
  by (simp add: tree_inputs.simps)

lemma sample_membership_inputs:
  "inj_on (wc_blake3 sample_wallet) (membership_inputs (wc_blake3 sample_wallet) [1, 2] 1 0 [154])"
proof -
  have "membership_inputs (wc_blake3 sample_wallet) [1, 2] 1 0 [154] =
      {leaf_input 1, leaf_input 2, node_input (pair_bytes 153 154)}"
    by (simp add: membership_inputs_def sample_leaf_hash tree_inputs_pair pair_bytes_def insert_commute)
  moreover have "wc_blake3 sample_wallet (leaf_input 1) = 153" "wc_blake3 sample_wallet (leaf_input 2) = 154"
      "wc_blake3 sample_wallet (node_input (pair_bytes 153 154)) = 217"
    by code_simp+
  ultimately show ?thesis by simp
qed

theorem revocation_proofs_exact_witness:
  "verify_membership (wc_blake3 sample_wallet) (revocation_root (wc_blake3 sample_wallet) sample_revoked) 1 0 [154]
   \<and> revocation_get sample_revoked 1 \<noteq> None"
proof -
  have "verify_membership (wc_blake3 sample_wallet) (revocation_root (wc_blake3 sample_wallet) sample_revoked) 1 0 [154]"
    unfolding sample_root by code_simp
  then show ?thesis
    using revocation_proofs_exact [of "wc_blake3 sample_wallet" sample_revoked 1 0 "[154]"] sample_membership_inputs
    by (simp add: sample_root sample_revoked_keys EMPTY_ROOT_def)
qed

theorem revocation_permanent_witness:
  "is_revoked sample_revoked 9 [4, 2] \<and> is_revoked (revoke_all sample_revoked [(9, sample_entry)]) 9 [4, 2]"
  using revocation_permanent [OF sample_revoked_def, of 2 sample_entry "[(9, sample_entry)]" 9 "[4, 2]"]
  by (simp add: revocation_get_def sample_revoked_keys sample_entry_def)

definition sample_receipt_ext :: receipt_ext where
  "sample_receipt_ext = \<lparr>rx_crypto = sample_wallet, rx_enc_body = (\<lambda>b. Some [1, 2]), rx_enc_ack = (\<lambda>a. Some [3]),
     rx_enc_receipt = (\<lambda>r. be_bytes 16 (rb_cost (tr_body r)))\<rparr>"

definition sample_receipt_body :: "amount \<Rightarrow> tool_receipt_body" where
  "sample_receipt_body cost = \<lparr>rb_intent_id = 5, rb_task_id = 6, rb_agent_session = 10,
     rb_provider_id = provider_id_from_public_key sample_wallet 8, rb_tool_class = Browser, rb_payload_commitment = 1,
     rb_output_commitment = 2, rb_output_pointer = [], rb_metering = \<lparr>mt_input_tokens = 1, mt_output_tokens = 1,
     mt_wall_duration_ms = 1, mt_bytes_metered = 1\<rparr>, rb_cost = cost, rb_started_at = 1, rb_completed_at = 2, rb_attestation = None\<rparr>"

definition sample_receipt :: "amount \<Rightarrow> tool_receipt" where
  "sample_receipt cost = \<lparr>tr_receipt_id = 1, tr_body = sample_receipt_body cost, tr_provider_sig = 1, tr_agent_ack_sig = None\<rparr>"

theorem receipt_round_trip_witness:
  "\<exists>r a. sign_new sample_receipt_ext (sample_receipt_body 3) 7 = Some r \<and> sign_agent_ack sample_receipt_ext r 9 = Some a
     \<and> verify_provider sample_receipt_ext (with_agent_ack r a) 8 = Inr () \<and> verify_agent_ack sample_receipt_ext (with_agent_ack r a) = Inr ()"
proof -
  obtain r a where r: "sign_new sample_receipt_ext (sample_receipt_body 3) 7 = Some r"
    and a: "sign_agent_ack sample_receipt_ext r 9 = Some a"
    by (simp add: sign_new_def sign_agent_ack_def sample_receipt_ext_def Let_def)
  have "wc_public (rx_crypto sample_receipt_ext) 7 = 8" by (simp add: sample_receipt_ext_def sample_wallet_def)
  moreover have "verify_provider sample_receipt_ext (with_agent_ack r a) (wc_public (rx_crypto sample_receipt_ext) 7) = Inr ()
      \<and> verify_agent_ack sample_receipt_ext (with_agent_ack r a) = Inr ()"
    by (rule receipt_round_trip [OF _ _ r _ a])
      (simp_all add: sample_receipt_ext_def sample_wallet_def sample_receipt_body_def)
  ultimately show ?thesis using r a by auto
qed

lemma sample_commitments: "tool_receipt_leaf_commitment sample_receipt_ext (sample_receipt 1) = 1"
    "tool_receipt_leaf_commitment sample_receipt_ext (sample_receipt 2) = 2"
    "wc_blake3 sample_wallet (node_input (pair_bytes 1 2)) = 169"
  by code_simp+

theorem task_receipt_binds_tool_receipts_witness:
  "tool_receipt_root sample_receipt_ext [sample_receipt 1, sample_receipt 2]
     = tool_receipt_root sample_receipt_ext [sample_receipt 2, sample_receipt 1]"
proof -
  let ?rs = "[sample_receipt 1, sample_receipt 2]" and ?rs' = "[sample_receipt 2, sample_receipt 1]"
  have enc: "rx_enc_receipt sample_receipt_ext (sample_receipt c) = be_bytes 16 c" for c
    by (simp add: sample_receipt_ext_def sample_receipt_def sample_receipt_body_def)
  have crypto: "rx_crypto sample_receipt_ext = sample_wallet" by (simp add: sample_receipt_ext_def)
  have sums: "wc_blake3 sample_wallet (be_bytes 16 (1 :: amount)) = 1" "wc_blake3 sample_wallet (be_bytes 16 (2 :: amount)) = 2"
    by code_simp+
  have "be_bytes 16 (1 :: amount) \<noteq> be_bytes 16 (2 :: amount)"
    using arg_cong [of _ _ "wc_blake3 sample_wallet"] sums by fastforce
  then have "tool_receipt_root sample_receipt_ext ?rs = tool_receipt_root sample_receipt_ext ?rs' \<longleftrightarrow> mset ?rs = mset ?rs'"
    by (intro task_receipt_binds_tool_receipts)
      (auto simp: enc crypto tree_inputs_pair sums sample_commitments word_le_nat_alt)
  then show ?thesis by (simp add: add_mset_commute)
qed

end
