(* ===== verification/Wallet_Policy.thy ===== *)
theory Wallet_Policy
  imports Wallet_Capabilities BTree_Map
begin

text \<open>
  Policy templates of the agent wallet (\<open>crates/wallet/src/policy.rs\<close>): the registry, registration
  with its walk along the inherited templates, the resolution of a template to its flattened policy,
  and the templates that ship with the protocol.

  Both walks follow \<open>inherits\<close> without a structural bound.  The one of the registration stops at a
  guard of its own, the one of the resolution at the set of templates it has seen; the theorem at
  the end shows that neither bound is ever what ends a walk of a registry that was built by
  registration.
\<close>

type_synonym template_id = u64

record sem_ver =
  sv_major :: u16
  sv_minor :: u16
  sv_patch :: u16

record budget_spec =
  bs_total_cap :: amount
  bs_per_tool :: "(tool_class, amount) btree"

record rate_limit_spec =
  rl_count :: u32
  rl_window_seconds :: u32

record policy_template =
  pt_template_id :: template_id
  pt_version :: sem_ver
  pt_name :: string
  pt_description :: string
  pt_inherits :: "template_id option"
  pt_base_caveats :: "caveat list"
  pt_required_attestations :: "(tool_class \<times> tee_type) set"
  pt_default_budget :: budget_spec
  pt_rate_limits :: "(tool_class, rate_limit_spec) btree"
  pt_publisher :: pubkey32
  pt_audit_record_uri :: "string option"

text \<open>The hash map of templates is never iterated; an entry is only inserted under a fresh key.\<close>

record policy_registry =
  pr_templates :: "(template_id \<times> policy_template) list"

definition empty_registry :: policy_registry where "empty_registry = \<lparr>pr_templates = []\<rparr>"

datatype policy_error = PolicyDuplicate | MissingParent | Cycle

section \<open>Registration\<close>

function would_cycle_loop :: "(template_id \<times> policy_template) list \<Rightarrow> template_id \<Rightarrow> template_id \<Rightarrow> nat \<Rightarrow> bool" where
  "would_cycle_loop existing new_id parent guard =
     (if parent = new_id then True
      else case map_of existing parent of
          None \<Rightarrow> False
        | Some p \<Rightarrow>
            (case pt_inherits p of
               None \<Rightarrow> False
             | Some next_id \<Rightarrow>
                 if length existing + 2 < guard + 1 then True
                 else would_cycle_loop existing new_id next_id (guard + 1)))"
  by pat_completeness auto
termination
  by (relation "measure (\<lambda>(existing, _, _, guard). length existing + 3 - guard)") auto

declare would_cycle_loop.simps [simp del]

definition would_cycle :: "(template_id \<times> policy_template) list \<Rightarrow> template_id \<Rightarrow> template_id \<Rightarrow> bool" where
  "would_cycle existing new_id parent = would_cycle_loop existing new_id parent 0"

definition insert_template :: "policy_registry \<Rightarrow> policy_template \<Rightarrow> policy_registry" where
  "insert_template r tpl = r\<lparr>pr_templates := (pt_template_id tpl, tpl) # pr_templates r\<rparr>"

definition policy_register :: "policy_registry \<Rightarrow> policy_template \<Rightarrow> (policy_registry, policy_error, unit) exec" where
  "policy_register r tpl =
     (if map_of (pr_templates r) (pt_template_id tpl) \<noteq> None then (r, Inl PolicyDuplicate)
      else case pt_inherits tpl of
          None \<Rightarrow> (insert_template r tpl, Inr ())
        | Some pid \<Rightarrow>
            if map_of (pr_templates r) pid = None then (r, Inl MissingParent)
            else if would_cycle (pr_templates r) (pt_template_id tpl) pid then (r, Inl Cycle)
            else (insert_template r tpl, Inr ()))"

definition policy_get :: "policy_registry \<Rightarrow> template_id \<Rightarrow> policy_template option" where
  "policy_get r tid = map_of (pr_templates r) tid"

section \<open>Resolution\<close>

lemma fewer_unseen: "map_of ts tid = Some t \<Longrightarrow> tid \<notin> seen \<Longrightarrow>
    card (fst ` set ts - insert tid seen) < card (fst ` set ts - seen)"
proof -
  assume "map_of ts tid = Some t" and "tid \<notin> seen"
  then have "tid \<in> fst ` set ts - seen" by (force dest: map_of_SomeD)
  then show ?thesis by (intro psubset_card_mono) auto
qed

function resolve_chain ::
    "(template_id \<times> policy_template) list \<Rightarrow> template_id option \<Rightarrow> template_id set \<Rightarrow> template_id list \<Rightarrow>
     policy_error + template_id list" where
  "resolve_chain ts None seen chain = Inr chain"
| "resolve_chain ts (Some tid) seen chain =
     (if tid \<in> seen then Inl Cycle
      else case map_of ts tid of
          None \<Rightarrow> Inl MissingParent
        | Some t \<Rightarrow> resolve_chain ts (pt_inherits t) (insert tid seen) (chain @ [tid]))"
  by pat_completeness auto

termination
  by (relation "measure (\<lambda>(ts, _, seen, _). card (fst ` set ts - seen))") (simp_all add: fewer_unseen)

declare resolve_chain.simps(2) [simp del]

record resolved_policy =
  rp_template_id :: template_id
  rp_caveats :: "caveat list"
  rp_rate_limits :: "(tool_class, rate_limit_spec) btree"
  rp_required_attestations :: "(tool_class \<times> tee_type) set"
  rp_default_budget :: budget_spec

text \<open>
  The loop over the chain, with the four accumulators in the record it returns; the optional budget
  is the default of \<open>unwrap_or\<close> until a template replaces it.
\<close>

definition merge_template :: "resolved_policy \<Rightarrow> policy_template \<Rightarrow> resolved_policy" where
  "merge_template p t = p\<lparr>rp_caveats := rp_caveats p @ pt_base_caveats t,
     rp_rate_limits := foldl (\<lambda>m (k, v). bt_insert k v m) (rp_rate_limits p) (pt_rate_limits t),
     rp_required_attestations := rp_required_attestations p \<union> pt_required_attestations t,
     rp_default_budget := pt_default_budget t\<rparr>"

definition new_resolved :: "template_id \<Rightarrow> resolved_policy" where
  "new_resolved tid = \<lparr>rp_template_id = tid, rp_caveats = [], rp_rate_limits = [], rp_required_attestations = {}, rp_default_budget = \<lparr>bs_total_cap = 0, bs_per_tool = []\<rparr>\<rparr>"

definition resolve :: "policy_registry \<Rightarrow> template_id \<Rightarrow> policy_error + resolved_policy" where
  "resolve r tid =
     (if map_of (pr_templates r) tid = None then Inl MissingParent
      else case resolve_chain (pr_templates r) (Some tid) {} [] of
          Inl e \<Rightarrow> Inl e
        | Inr chain \<Rightarrow>
            Inr (foldl (\<lambda>p a. merge_template p (the (map_of (pr_templates r) a))) (new_resolved tid) (rev chain)))"

section \<open>Templates of the protocol\<close>

definition RESEARCH_AGENT_V1_ID :: template_id where "RESEARCH_AGENT_V1_ID = 1"
definition CODING_AGENT_V1_ID :: template_id where "CODING_AGENT_V1_ID = 2"
definition VERIFIER_AGENT_V1_ID :: template_id where "VERIFIER_AGENT_V1_ID = 3"

definition FRAC :: amount where "FRAC = 1000000000000000000"

definition semver_1_0_0 :: sem_ver where "semver_1_0_0 = \<lparr>sv_major = 1, sv_minor = 0, sv_patch = 0\<rparr>"

definition research_agent_v1 :: policy_template where
  "research_agent_v1 = \<lparr>pt_template_id = RESEARCH_AGENT_V1_ID, pt_version = semver_1_0_0,
     pt_name = ''tpl:research-agent-v1'', pt_description = ''Browsing + LLM synthesis (Phase 1)'', pt_inherits = None,
     pt_base_caveats = [MaxTotalSpend (3 * FRAC), MaxPerCallSpend Browser FRAC, MaxPerCallSpend LlmInference (2 * FRAC)],
     pt_required_attestations = {},
     pt_default_budget = \<lparr>bs_total_cap = 3 * FRAC, bs_per_tool = [(Browser, FRAC), (LlmInference, 2 * FRAC)]\<rparr>,
     pt_rate_limits = [(Browser, \<lparr>rl_count = 50, rl_window_seconds = 3600\<rparr>), (LlmInference, \<lparr>rl_count = 100, rl_window_seconds = 3600\<rparr>)],
     pt_publisher = 0, pt_audit_record_uri = None\<rparr>"

definition coding_agent_v1 :: policy_template where
  "coding_agent_v1 = \<lparr>pt_template_id = CODING_AGENT_V1_ID, pt_version = semver_1_0_0,
     pt_name = ''tpl:coding-agent-v1'', pt_description = ''LLM + test runner + file storage (Phase 1)'', pt_inherits = None,
     pt_base_caveats = [MaxTotalSpend (10 * FRAC), MaxPerCallSpend TestRunner (2 * FRAC), MaxPerCallSpend LlmInference (5 * FRAC)],
     pt_required_attestations = {},
     pt_default_budget = \<lparr>bs_total_cap = 10 * FRAC, bs_per_tool = [(LlmInference, 5 * FRAC), (TestRunner, 2 * FRAC)]\<rparr>,
     pt_rate_limits = [(LlmInference, \<lparr>rl_count = 200, rl_window_seconds = 3600\<rparr>), (TestRunner, \<lparr>rl_count = 20, rl_window_seconds = 3600\<rparr>)],
     pt_publisher = 0, pt_audit_record_uri = None\<rparr>"

definition verifier_agent_v1 :: policy_template where
  "verifier_agent_v1 = \<lparr>pt_template_id = VERIFIER_AGENT_V1_ID, pt_version = semver_1_0_0,
     pt_name = ''tpl:verifier-agent-v1'', pt_description = ''Independent verification: file read + test + LLM (Phase 1)'', pt_inherits = None,
     pt_base_caveats = [MaxTotalSpend (2 * FRAC)],
     pt_required_attestations = {}, pt_default_budget = \<lparr>bs_total_cap = 2 * FRAC, bs_per_tool = []\<rparr>,
     pt_rate_limits = [], pt_publisher = 0, pt_audit_record_uri = None\<rparr>"

definition suggested_tool_class_mask :: "template_id \<Rightarrow> u64 option" where
  "suggested_tool_class_mask tid =
     (if tid = RESEARCH_AGENT_V1_ID then Some (or (or (tool_bit Browser) (tool_bit LlmInference)) (tool_bit FileStorage))
      else if tid = CODING_AGENT_V1_ID then Some (or (or (tool_bit LlmInference) (tool_bit TestRunner)) (tool_bit FileStorage))
      else if tid = VERIFIER_AGENT_V1_ID then Some (or (or (tool_bit FileStorage) (tool_bit TestRunner)) (tool_bit LlmInference))
      else None)"

definition register_builtins :: "policy_registry \<Rightarrow> (policy_registry, policy_error, unit) exec" where
  "register_builtins r =
     and_then (policy_register r research_agent_v1) (\<lambda>r _.
     and_then (policy_register r coding_agent_v1) (\<lambda>r _. policy_register r verifier_agent_v1))"

definition all_ids :: "(template_id \<times> string) list" where
  "all_ids = [(RESEARCH_AGENT_V1_ID, ''tpl:research-agent-v1''), (CODING_AGENT_V1_ID, ''tpl:coding-agent-v1''),
     (VERIFIER_AGENT_V1_ID, ''tpl:verifier-agent-v1'')]"

definition meta :: "template_id \<Rightarrow> (string \<times> string) option" where
  "meta tid =
     (if tid = RESEARCH_AGENT_V1_ID then Some (''tpl:research-agent-v1'', ''Browsing + LLM synthesis (Phase 1)'')
      else if tid = CODING_AGENT_V1_ID then Some (''tpl:coding-agent-v1'', ''LLM + test runner + file storage (Phase 1)'')
      else if tid = VERIFIER_AGENT_V1_ID
      then Some (''tpl:verifier-agent-v1'', ''Independent verification: file read + test + LLM (Phase 1)'')
      else None)"

section \<open>Registries built by registration\<close>

definition register_all :: "policy_template list \<Rightarrow> policy_registry" where
  "register_all tpls = foldl (\<lambda>r t. fst (policy_register r t)) empty_registry tpls"

text \<open>Each template was inserted after the one it inherits, so an entry only refers to later ones of the list.\<close>

fun layered :: "(template_id \<times> policy_template) list \<Rightarrow> bool" where
  "layered [] = True"
| "layered ((tid, t) # ts) \<longleftrightarrow> pt_template_id t = tid \<and> map_of ts tid = None
     \<and> (case pt_inherits t of None \<Rightarrow> True | Some p \<Rightarrow> map_of ts p \<noteq> None) \<and> layered ts"

fun rank :: "(template_id \<times> policy_template) list \<Rightarrow> template_id \<Rightarrow> nat" where
  "rank [] tid = 0"
| "rank ((k, t) # ts) tid = (if k = tid then Suc (length ts) else rank ts tid)"

definition inherits_from :: "policy_registry \<Rightarrow> template_id \<Rightarrow> template_id \<Rightarrow> bool" where
  "inherits_from r a b \<longleftrightarrow> (\<exists>t. policy_get r a = Some t \<and> pt_inherits t = Some b)"

lemma rank_le: "rank ts tid \<le> length ts"
  by (induction ts tid rule: rank.induct) auto

lemma parent_below:
  assumes "layered ts" and "map_of ts tid = Some t" and "pt_inherits t = Some p"
  shows "map_of ts p \<noteq> None \<and> rank ts p < rank ts tid"
  using assms
proof (induction ts tid rule: rank.induct)
  case (2 k t' ts tid)
  have "rank ts p \<le> length ts" by (rule rank_le)
  then show ?case using 2 by (cases "k = tid") (auto split: option.splits)
qed simp

lemma walk_ends:
  assumes "layered ts" and "map_of ts new_id = None" and "map_of ts parent \<noteq> None"
    and "guard + rank ts parent \<le> length ts"
  shows "\<not> would_cycle_loop ts new_id parent guard"
  using assms
proof (induction ts new_id parent guard rule: would_cycle_loop.induct)
  case (1 ts new_id parent guard)
  obtain p where p: "map_of ts parent = Some p" using "1.prems"(3) by blast
  have ne: "parent \<noteq> new_id" using "1.prems"(2,3) by auto
  show ?case
  proof (cases "pt_inherits p")
    case None
    then show ?thesis using p ne by (simp add: would_cycle_loop.simps)
  next
    case (Some q)
    have below: "map_of ts q \<noteq> None" "rank ts q < rank ts parent"
      using parent_below [OF "1.prems"(1) p Some] by auto
    have le: "\<not> length ts + 2 < guard + 1" using "1.prems"(4) by linarith
    have "\<not> would_cycle_loop ts new_id q (guard + 1)"
      using "1.IH" [OF ne p Some le "1.prems"(1,2) below(1)] below(2) "1.prems"(4) by linarith
    then show ?thesis using p ne Some le by (simp add: would_cycle_loop.simps [of ts new_id parent])
  qed
qed

lemma register_layered:
  assumes "layered (pr_templates r)"
  shows "layered (pr_templates (fst (policy_register r t))) \<and> snd (policy_register r t) \<noteq> Inl Cycle"
proof (cases "map_of (pr_templates r) (pt_template_id t) = None")
  case fresh: True
  have "\<not> would_cycle (pr_templates r) (pt_template_id t) pid" if "map_of (pr_templates r) pid \<noteq> None" for pid
    using walk_ends [OF assms fresh that, of 0] rank_le by (simp add: would_cycle_def)
  then show ?thesis using assms fresh
    by (auto simp: policy_register_def insert_template_def split: option.splits)
qed (use assms in \<open>auto simp: policy_register_def\<close>)

lemma register_all_inv:
  assumes "P empty_registry" and "\<And>r t. t \<in> set tpls \<Longrightarrow> P r \<Longrightarrow> P (fst (policy_register r t))"
  shows "P (register_all tpls)"
  unfolding register_all_def using assms
proof (induction tpls rule: rev_induct)
  case (snoc t tpls)
  then show ?case by simp
qed simp

lemma register_all_layered: "layered (pr_templates (register_all tpls))"
  by (rule register_all_inv) (simp_all add: empty_registry_def register_layered)

section \<open>Chains of templates\<close>

lemma inherits_from_iff: "map_of (pr_templates r) tid = Some t \<Longrightarrow>
    (inherits_from r)\<^sup>*\<^sup>* tid a \<longleftrightarrow> a = tid \<or> (\<exists>p. pt_inherits t = Some p \<and> (inherits_from r)\<^sup>*\<^sup>* p a)"
  by (auto simp: inherits_from_def policy_get_def intro: converse_rtranclp_into_rtranclp elim: converse_rtranclpE)

lemma chain_found:
  assumes "layered (pr_templates r)" and "map_of (pr_templates r) tid \<noteq> None"
    and "\<And>a. a \<in> seen \<Longrightarrow> rank (pr_templates r) tid < rank (pr_templates r) a"
  shows "\<exists>anc. resolve_chain (pr_templates r) (Some tid) seen chain = Inr (chain @ tid # anc)
     \<and> set (tid # anc) = {a. (inherits_from r)\<^sup>*\<^sup>* tid a}"
  using assms(2,3)
proof (induction "rank (pr_templates r) tid" arbitrary: tid seen chain rule: less_induct)
  case less
  obtain t where t: "map_of (pr_templates r) tid = Some t" using less.prems(1) by blast
  have new: "tid \<notin> seen" using less.prems(2) by blast
  note step = resolve_chain.simps(2) [of "pr_templates r" tid seen chain]
  show ?case
  proof (cases "pt_inherits t")
    case None
    then show ?thesis using t new inherits_from_iff [OF t] by (auto simp: step)
  next
    case (Some p)
    have below: "map_of (pr_templates r) p \<noteq> None" "rank (pr_templates r) p < rank (pr_templates r) tid"
      using parent_below [OF assms(1) t Some] by auto
    then obtain anc where "resolve_chain (pr_templates r) (Some p) (insert tid seen) (chain @ [tid]) = Inr ((chain @ [tid]) @ p # anc)"
        "set (p # anc) = {a. (inherits_from r)\<^sup>*\<^sup>* p a}"
      using less.hyps [of p "insert tid seen" "chain @ [tid]"] less.prems(2) less_trans by blast
    then show ?thesis using t new Some inherits_from_iff [OF t] by (auto simp: step intro!: exI [of _ "p # anc"])
  qed
qed

section \<open>Merging a chain\<close>

lemma merge_rate_limits:
  assumes "bt_ok m" and "bt_ok kvs"
  shows "bt_ok (foldl (\<lambda>m (k, v). bt_insert k v m) m kvs)
    \<and> bt_get (foldl (\<lambda>m (k, v). bt_insert k v m) m kvs) = bt_get m ++ bt_get kvs"
  using assms
proof (induction kvs arbitrary: m)
  case (Cons kv kvs)
  obtain k v where kv: "kv = (k, v)" by (cases kv)
  have "bt_ok kvs" "map_of kvs k = None" using Cons.prems(2) by (auto simp: kv bt_ok_def map_of_eq_None_iff)
  then show ?case
    using Cons.IH [OF bt_insert_ok [OF Cons.prems(1)]] bt_get_insert [OF Cons.prems(1)]
    by (auto simp: kv map_add_def fun_eq_iff split: option.splits)
qed simp

definition merge_all :: "policy_registry \<Rightarrow> resolved_policy \<Rightarrow> template_id list \<Rightarrow> resolved_policy" where
  "merge_all r = foldl (\<lambda>p tid. merge_template p (the (policy_get r tid)))"

lemma merge_all_grows:
  "set (rp_caveats p) \<subseteq> set (rp_caveats (merge_all r p ids)) \<and>
   rp_required_attestations p \<subseteq> rp_required_attestations (merge_all r p ids)"
proof (induction ids arbitrary: p)
  case (Cons a ids)
  then show ?case
    using Cons.IH [of "merge_template p (the (policy_get r a))"] by (auto simp: merge_all_def merge_template_def)
qed (simp add: merge_all_def)

lemma merge_all_contains:
  assumes "a \<in> set ids" and "policy_get r a = Some s"
  shows "set (pt_base_caveats s) \<subseteq> set (rp_caveats (merge_all r p ids))
    \<and> pt_required_attestations s \<subseteq> rp_required_attestations (merge_all r p ids)"
  using assms(1)
proof (induction ids arbitrary: p)
  case (Cons b ids)
  let ?q = "merge_template p (the (policy_get r b))"
  have split: "merge_all r p (b # ids) = merge_all r ?q ids" by (simp add: merge_all_def)
  show ?case
  proof (cases "a = b")
    case True
    then have "set (pt_base_caveats s) \<subseteq> set (rp_caveats ?q)" "pt_required_attestations s \<subseteq> rp_required_attestations ?q"
      using assms(2) by (simp_all add: merge_template_def)
    then show ?thesis unfolding split using merge_all_grows [of ?q r ids] by blast
  qed (use Cons split in auto)
qed simp

lemma merge_all_rates_ok:
  assumes "\<forall>a s. policy_get r a = Some s \<longrightarrow> bt_ok (pt_rate_limits s)"
    and "\<forall>a \<in> set ids. policy_get r a \<noteq> None" and "bt_ok (rp_rate_limits p)"
  shows "bt_ok (rp_rate_limits (merge_all r p ids))"
  using assms(2,3)
proof (induction ids arbitrary: p)
  case (Cons a ids)
  then obtain s where s: "policy_get r a = Some s" by auto
  show ?case
    using Cons merge_rate_limits [OF Cons.prems(2), of "pt_rate_limits s"] assms(1) s by (simp add: merge_all_def merge_template_def s)
qed (simp add: merge_all_def)

lemma stricter_refl: "is_stricter_or_equal c c"
  by (cases c) auto

lemma caveats_attenuate_superset: "set ps \<subseteq> set cs \<Longrightarrow> caveats_attenuate_parent ps cs"
  unfolding caveats_attenuate_iff list_all_iff list_ex_iff using stricter_refl by blast

lemma inherited_registered:
  assumes "layered (pr_templates r)" and "policy_get r tid \<noteq> None" and "(inherits_from r)\<^sup>*\<^sup>* tid a"
  shows "policy_get r a \<noteq> None"
  using assms(3)
proof (induction rule: rtranclp_induct)
  case (step b c)
  then obtain t where "map_of (pr_templates r) b = Some t" "pt_inherits t = Some c"
    by (auto simp: inherits_from_def policy_get_def)
  then show ?case using parent_below [OF assms(1)] by (simp add: policy_get_def)
qed (rule assms(2))

lemma register_all_rates:
  assumes "list_all (\<lambda>t. bt_ok (pt_rate_limits t)) tpls"
  shows "\<forall>a s. policy_get (register_all tpls) a = Some s \<longrightarrow> bt_ok (pt_rate_limits s)"
  by (rule register_all_inv)
    (use assms in \<open>auto simp: empty_registry_def policy_get_def policy_register_def insert_template_def list_all_iff split: option.splits if_splits\<close>)

text \<open>What a template resolves to, with its own entries merged last.\<close>

lemma resolve_registered:
  assumes lay: "layered (pr_templates r)" and t: "policy_get r tid = Some t"
    and rates: "\<forall>a s. policy_get r a = Some s \<longrightarrow> bt_ok (pt_rate_limits s)"
  shows "\<exists>p q. resolve r tid = Inr p \<and> p = merge_template q t \<and> bt_ok (rp_rate_limits q)
    \<and> (\<forall>a s. (inherits_from r)\<^sup>*\<^sup>* tid a \<and> policy_get r a = Some s \<longrightarrow>
         set (pt_base_caveats s) \<subseteq> set (rp_caveats p) \<and> pt_required_attestations s \<subseteq> rp_required_attestations p)"
proof -
  have "map_of (pr_templates r) tid \<noteq> None" using t by (simp add: policy_get_def)
  then obtain anc where anc: "resolve_chain (pr_templates r) (Some tid) {} [] = Inr (tid # anc)"
      "set (tid # anc) = {a. (inherits_from r)\<^sup>*\<^sup>* tid a}"
    using chain_found [OF lay, of tid "{}" "[]"] by auto
  let ?q = "merge_all r (new_resolved tid) (rev anc)"
  have "resolve r tid = Inr (merge_all r (new_resolved tid) (rev (tid # anc)))"
    using t anc(1) by (simp add: resolve_def policy_get_def merge_all_def)
  moreover have "merge_all r (new_resolved tid) (rev (tid # anc)) = merge_template ?q t"
    by (simp add: merge_all_def t)
  moreover have "bt_ok (rp_rate_limits ?q)"
  proof (rule merge_all_rates_ok [OF rates])
    show "\<forall>a \<in> set (rev anc). policy_get r a \<noteq> None"
      using anc(2) inherited_registered [OF lay, of tid] t by auto
  qed (simp add: new_resolved_def)
  moreover have "set (pt_base_caveats s) \<subseteq> set (rp_caveats (merge_all r (new_resolved tid) (rev (tid # anc))))
      \<and> pt_required_attestations s \<subseteq> rp_required_attestations (merge_all r (new_resolved tid) (rev (tid # anc)))"
    if "(inherits_from r)\<^sup>*\<^sup>* tid a" "policy_get r a = Some s" for a s
    by (rule merge_all_contains) (use anc(2) that in auto)
  ultimately show ?thesis by metis
qed

section \<open>Properties\<close>

text \<open>
  C18.  Inheritance is a well-founded, strictly additive order: in a registry built by any sequence of
  registrations no walk meets a cycle, so a registration never answers that one would arise and
  every registered template resolves; the resolved policy contains the caveats and attestations of
  every template it inherits, so that it attenuates each of them, and takes its budget and its own
  rate limits from the template itself.
\<close>

theorem policy_templates_resolve:
  assumes reg: "r = register_all tpls" and sorted: "list_all (\<lambda>t. bt_ok (pt_rate_limits t)) tpls"
  shows "snd (policy_register r tpl) \<noteq> Inl Cycle
    \<and> (policy_get r tid = None \<longleftrightarrow> resolve r tid = Inl MissingParent)
    \<and> (\<forall>t. policy_get r tid = Some t \<longrightarrow>
        (\<exists>p. resolve r tid = Inr p \<and> rp_default_budget p = pt_default_budget t
          \<and> (\<forall>k v. bt_get (pt_rate_limits t) k = Some v \<longrightarrow> bt_get (rp_rate_limits p) k = Some v)
          \<and> (\<forall>a s. (inherits_from r)\<^sup>*\<^sup>* tid a \<and> policy_get r a = Some s \<longrightarrow>
               caveats_attenuate_parent (pt_base_caveats s) (rp_caveats p)
               \<and> pt_required_attestations s \<subseteq> rp_required_attestations p)))"
proof -
  have lay: "layered (pr_templates r)" unfolding reg by (rule register_all_layered)
  have rates: "\<forall>a s. policy_get r a = Some s \<longrightarrow> bt_ok (pt_rate_limits s)"
    using register_all_rates [OF sorted] reg by blast
  have registered: "\<exists>p. resolve r tid = Inr p \<and> rp_default_budget p = pt_default_budget t
      \<and> (\<forall>k v. bt_get (pt_rate_limits t) k = Some v \<longrightarrow> bt_get (rp_rate_limits p) k = Some v)
      \<and> (\<forall>a s. (inherits_from r)\<^sup>*\<^sup>* tid a \<and> policy_get r a = Some s \<longrightarrow>
           caveats_attenuate_parent (pt_base_caveats s) (rp_caveats p)
           \<and> pt_required_attestations s \<subseteq> rp_required_attestations p)" if t: "policy_get r tid = Some t" for t
  proof -
    obtain p q where p: "resolve r tid = Inr p" "p = merge_template q t" "bt_ok (rp_rate_limits q)"
      and all: "\<And>a s. (inherits_from r)\<^sup>*\<^sup>* tid a \<and> policy_get r a = Some s \<Longrightarrow>
         set (pt_base_caveats s) \<subseteq> set (rp_caveats p) \<and> pt_required_attestations s \<subseteq> rp_required_attestations p"
      using resolve_registered [OF lay t rates] by blast
    have "bt_get (rp_rate_limits p) = bt_get (rp_rate_limits q) ++ bt_get (pt_rate_limits t)"
      using merge_rate_limits [OF p(3)] rates t by (simp add: p(2) merge_template_def)
    moreover have "rp_default_budget p = pt_default_budget t" by (simp add: p(2) merge_template_def)
    ultimately show ?thesis using p(1) all caveats_attenuate_superset by (auto simp: map_add_def)
  qed
  moreover have "resolve r tid = Inl MissingParent" if "policy_get r tid = None"
    using that by (simp add: resolve_def policy_get_def)
  ultimately show ?thesis using register_layered [OF lay] by fastforce
qed

section \<open>Witnesses\<close>

definition rust_agent :: policy_template where
  "rust_agent = coding_agent_v1\<lparr>pt_template_id := 9, pt_inherits := Some CODING_AGENT_V1_ID, pt_base_caveats := [MaxTotalSpend FRAC],
     pt_required_attestations := {(TestRunner, AwsNitro)}, pt_rate_limits := [(TestRunner, \<lparr>rl_count = 5, rl_window_seconds = 60\<rparr>)]\<rparr>"

definition sample_registry :: policy_registry where
  "sample_registry = register_all [coding_agent_v1, research_agent_v1, rust_agent]"

theorem policy_templates_resolve_witness:
  "\<exists>p. resolve sample_registry 9 = Inr p \<and> caveats_attenuate_parent (pt_base_caveats coding_agent_v1) (rp_caveats p)
     \<and> map_of (rp_rate_limits p) TestRunner = Some \<lparr>rl_count = 5, rl_window_seconds = 60\<rparr>"
proof -
  have get: "policy_get sample_registry 9 = Some rust_agent" "policy_get sample_registry 2 = Some coding_agent_v1"
    by (simp_all add: sample_registry_def register_all_def empty_registry_def policy_get_def policy_register_def insert_template_def
        rust_agent_def coding_agent_v1_def research_agent_v1_def CODING_AGENT_V1_ID_def RESEARCH_AGENT_V1_ID_def
        would_cycle_def would_cycle_loop.simps)
  have "inherits_from sample_registry 9 2" using get by (auto simp: inherits_from_def rust_agent_def CODING_AGENT_V1_ID_def)
  moreover have "list_all (\<lambda>t. bt_ok (pt_rate_limits t)) [coding_agent_v1, research_agent_v1, rust_agent]"
    by (simp add: bt_ok_def coding_agent_v1_def research_agent_v1_def rust_agent_def less_tool_class_def)
  moreover have "map_of (pt_rate_limits rust_agent) TestRunner = Some \<lparr>rl_count = 5, rl_window_seconds = 60\<rparr>"
    by (simp add: rust_agent_def)
  ultimately show ?thesis
    using policy_templates_resolve [OF sample_registry_def, of coding_agent_v1 9] get by (metis r_into_rtranclp)
qed

end
