(* ===== verification/Wallet_Reputation.thy ===== *)
theory Wallet_Reputation
  imports Wallet_Market "HOL-Library.Product_Lexorder"
begin

text \<open>
  Provider reputation of the agent wallet (\<open>crates/wallet/src/reputation.rs\<close>): the score derived from
  the settlement history, the stake multiplier for providers without one, and the choice among
  quotes.  All of it is saturating integer arithmetic at 64 and 128 bits; the one product that does
  not saturate is the one of the stake multiplier.
\<close>

section \<open>Data\<close>

type_synonym reputation_milli = u128

record settlement_event =
  se_settled_at_ms :: u64
  se_weight :: u128

record reputation_ledger_summary =
  rs_tool_class :: tool_class
  rs_successful :: "settlement_event list"
  rs_failed_settlements :: u64
  rs_slashing_events :: u64
  rs_first_seen_ms :: u64
  rs_now_ms :: u64
  rs_available_stake :: amount
  rs_distinct_client_count :: u32

record reputation_params =
  rq_success_weight_milli :: u64
  rq_recency_half_life_ms :: u64
  rq_fail_penalty_milli :: u64
  rq_slash_penalty_milli :: u64
  rq_age_bonus_per_day_milli :: u64
  rq_stake_log_weight_milli :: u64
  rq_diversity_bonus_milli :: u64
  rq_max_diversity_clients :: u32

definition default_reputation_params :: reputation_params where
  "default_reputation_params = \<lparr>rq_success_weight_milli = 1000, rq_recency_half_life_ms = 86400000 * 30,
     rq_fail_penalty_milli = 5000, rq_slash_penalty_milli = 500000, rq_age_bonus_per_day_milli = 50,
     rq_stake_log_weight_milli = 200, rq_diversity_bonus_milli = 2000, rq_max_diversity_clients = 64\<rparr>"

record bootstrap_stake_params =
  bp_zero_score_stake_bps :: u64
  bp_score_milli_full_trust :: u128

definition default_bootstrap_params :: bootstrap_stake_params where
  "default_bootstrap_params = \<lparr>bp_zero_score_stake_bps = 30000, bp_score_milli_full_trust = 500000\<rparr>"

datatype quote_selection_preference = Cheapest | Fastest | MostReputable

record quote_candidate =
  qc_quote :: quote
  qc_provider_id :: provider_id
  qc_tool_class :: tool_class
  qc_reputation_milli :: reputation_milli
  qc_available_stake :: amount
  qc_estimated_latency_ms :: u64

record quote_selection_gates =
  qg_min_reputation_stake_product :: u128
  qg_max_latency_ms :: u64

datatype quote_selection_error = NoCandidates

section \<open>Score\<close>

definition recency_factor_micro :: "u64 \<Rightarrow> u64 \<Rightarrow> u64 \<Rightarrow> u128" where
  "recency_factor_micro settled_at_ms now_ms half_life_ms =
     (if half_life_ms = 0 then 1000000
      else let dt = sat_sub now_ms settled_at_ms;
               hl = ucast half_life_ms;
               d = sat_add hl (ucast dt)
           in if d = 0 then 1000000 else sat_mul 1000000 hl div max d 1)"

definition leading_zeros :: "u128 \<Rightarrow> nat" where
  "leading_zeros x = length (takeWhile (\<lambda>i. \<not> bit x i) (rev [0..<128]))"

definition ilog2_u128 :: "u128 \<Rightarrow> u32" where
  "ilog2_u128 x = (if x \<le> 1 then 0 else 128 - of_nat (leading_zeros x) - 1)"

definition success_term :: "reputation_ledger_summary \<Rightarrow> reputation_params \<Rightarrow> settlement_event \<Rightarrow> u128" where
  "success_term s p ev =
     (let w = (if se_weight ev = 0 then 1 else se_weight ev);
          r = recency_factor_micro (se_settled_at_ms ev) (rs_now_ms s) (rq_recency_half_life_ms p)
      in sat_mul (sat_mul (ucast (rq_success_weight_milli p)) w) r div 1000000 div 1000)"

definition compute_reputation_score_milli :: "reputation_ledger_summary \<Rightarrow> reputation_params \<Rightarrow> reputation_milli" where
  "compute_reputation_score_milli s p =
     (let pos = foldl (\<lambda>pos ev. sat_add pos (success_term s p ev)) 0 (rs_successful s);
          days = sat_sub (rs_now_ms s) (rs_first_seen_ms s) div 86400000;
          pos = sat_add pos (sat_mul (ucast (rq_age_bonus_per_day_milli p)) (ucast days) div 1000);
          lg = ilog2_u128 (sat_add (rs_available_stake s) 1);
          pos = sat_add pos (sat_mul (ucast (rq_stake_log_weight_milli p)) (ucast lg) div 1000);
          dc = ucast (min (rs_distinct_client_count s) (rq_max_diversity_clients p));
          pos = sat_add pos (sat_mul (ucast (rq_diversity_bonus_milli p)) dc div 1000);
          fail_pen = sat_mul (ucast (rq_fail_penalty_milli p)) (ucast (rs_failed_settlements s)) div 1000;
          slash_pen = sat_mul (ucast (rq_slash_penalty_milli p)) (ucast (rs_slashing_events s)) div 1000
      in sat_sub (sat_sub pos fail_pen) slash_pen)"

definition bootstrap_stake_multiplier_bps :: "reputation_milli \<Rightarrow> bootstrap_stake_params \<Rightarrow> u64" where
  "bootstrap_stake_multiplier_bps score_milli p =
     (if bp_score_milli_full_trust p = 0 then 10000
      else let cap = max (bp_zero_score_stake_bps p) 10000
           in if bp_score_milli_full_trust p \<le> score_milli then 10000
              else let num = ucast (cap - 10000) * sat_sub (bp_score_milli_full_trust p) score_milli;
                       den = max (bp_score_milli_full_trust p) 1;
                       extra = ucast (num div den)
                   in sat_add 10000 extra)"

section \<open>Choice among quotes\<close>

definition reputation_stake_product :: "reputation_milli \<Rightarrow> amount \<Rightarrow> u128" where
  "reputation_stake_product reputation_milli stake = sat_mul reputation_milli stake div 1000"

definition rank_of :: "quote_selection_preference \<Rightarrow> quote_candidate \<Rightarrow> u128" where
  "rank_of preference c =
     (case preference of
        Cheapest \<Rightarrow> sat_sub (- 1) (qb_price (qt_body (qc_quote c)))
      | Fastest \<Rightarrow> sat_sub (- 1) (ucast (qc_estimated_latency_ms c))
      | MostReputable \<Rightarrow> qc_reputation_milli c)"

type_synonym best_quote = "nat \<times> u128 \<times> u128 \<times> u128"

definition consider_quote ::
    "quote_selection_gates \<Rightarrow> quote_selection_preference \<Rightarrow> best_quote option \<Rightarrow> nat \<times> quote_candidate \<Rightarrow> best_quote option" where
  "consider_quote gates preference best ic =
     (case ic of (i, c) \<Rightarrow>
        if qg_max_latency_ms gates < qc_estimated_latency_ms c then best
        else if reputation_stake_product (qc_reputation_milli c) (qc_available_stake c) < qg_min_reputation_stake_product gates then best
        else let price = qb_price (qt_body (qc_quote c));
                 rank = rank_of preference c;
                 tie1 = sat_sub (- 1) price;
                 tie2 = sat_sub (- 1) (ucast (qc_estimated_latency_ms c));
                 better = (case best of
                     None \<Rightarrow> True
                   | Some (_, r0, t10, t20) \<Rightarrow> (r0, t10, t20) < (rank, tie1, tie2))
             in if better then Some (i, rank, tie1, tie2) else best)"

definition select_quote ::
    "quote_candidate list \<Rightarrow> quote_selection_gates \<Rightarrow> quote_selection_preference \<Rightarrow> quote_selection_error + quote_candidate" where
  "select_quote candidates gates preference =
     (case foldl (consider_quote gates preference) None (List.enumerate 0 candidates) of
        None \<Rightarrow> Inl NoCandidates
      | Some (i, _) \<Rightarrow> Inr (candidates ! i))"

section \<open>The score\<close>

lemma recency_factor_le: "recency_factor_micro settled now hl \<le> 1000000"
proof (cases "hl = 0")
  case False
  let ?hl = "ucast hl :: u128" and ?dt = "ucast (sat_sub now settled) :: u128"
  have "unat hl < 2 ^ 64" using unsigned_less [of hl] by simp
  then have hl: "unat ?hl = unat hl" "unat (sat_mul 1000000 ?hl) = 1000000 * unat ?hl"
    by (simp_all add: unat_ucast_widen unat_sat_mul)
  have ge: "unat ?hl \<le> unat (sat_add ?hl ?dt)" using sat_add_ge word_le_nat_alt by blast
  moreover have "unat ?hl \<noteq> 0" using False hl(1) unat_eq_zero by metis
  ultimately have "sat_add ?hl ?dt \<noteq> 0" by (metis le_zero_eq unat_0)
  moreover have "1000000 * unat ?hl div unat (max (sat_add ?hl ?dt) 1) \<le> 1000000"
  proof -
    have "unat ?hl \<le> unat (max (sat_add ?hl ?dt) 1)" using ge by (simp add: max_def word_le_nat_alt)
    then have "1000000 * unat ?hl div unat (max (sat_add ?hl ?dt) 1) \<le> 1000000 * unat ?hl div unat ?hl"
      using \<open>unat ?hl \<noteq> 0\<close> by (intro div_le_mono2) simp_all
    then show ?thesis using \<open>unat ?hl \<noteq> 0\<close> by simp
  qed
  ultimately show ?thesis
    using False hl(2) by (simp add: recency_factor_micro_def Let_def word_le_nat_alt unat_div)
qed (simp add: recency_factor_micro_def)

text \<open>The logarithm is the position of the highest bit.\<close>

lemma takeWhile_rev_upt:
  "n \<noteq> 0 \<Longrightarrow> \<exists>i < n. P i \<Longrightarrow> \<exists>i < n. P i \<and> (\<forall>j. i < j \<and> j < n \<longrightarrow> \<not> P j) \<and>
     length (takeWhile (\<lambda>i. \<not> P i) (rev [0..<n])) = n - Suc i"
proof (induction n)
  case (Suc n)
  show ?case
  proof (cases "P n")
    case False
    then have "\<exists>i < n. P i" using Suc.prems(2) less_Suc_eq by auto
    then obtain i where i: "i < n" "P i" "\<forall>j. i < j \<and> j < n \<longrightarrow> \<not> P j" "length (takeWhile (\<lambda>i. \<not> P i) (rev [0..<n])) = n - Suc i"
      using Suc.IH by auto
    then show ?thesis using False by (intro exI [of _ i]) (auto simp: less_Suc_eq)
  qed auto
qed simp

lemma unat_bounds_of_top_bit:
  fixes x :: u128
  assumes "bit x i" and "\<forall>j. i < j \<and> j < 128 \<longrightarrow> \<not> bit x j"
  shows "2 ^ i \<le> unat x \<and> unat x < 2 ^ Suc i"
proof
  have "bit (unat x) i" using assms(1) by (simp add: bit_unsigned_iff)
  then show "2 ^ i \<le> unat x" by (metis bit_iff_odd div_less even_zero not_le)
  have "take_bit (Suc i) (unat x) = unat x"
  proof (rule bit_eqI)
    fix n
    show "bit (take_bit (Suc i) (unat x)) n = bit (unat x) n"
      using assms(2) bit_imp_le_length [of x n] by (auto simp: bit_take_bit_iff bit_unsigned_iff not_less Suc_le_eq)
  qed
  then show "unat x < 2 ^ Suc i" by (metis take_bit_nat_less_exp)
qed

lemma ilog2_exact:
  assumes "x \<noteq> 0"
  shows "2 ^ unat (ilog2_u128 x) \<le> unat x \<and> unat x < 2 ^ Suc (unat (ilog2_u128 x))"
proof (cases "x \<le> 1")
  case True
  then have "unat x = 1" using assms by (metis le_antisym less_one not_less unat_1 unat_eq_zero word_le_nat_alt)
  then show ?thesis using True by (simp add: ilog2_u128_def)
next
  case False
  have "\<exists>i < 128. bit x i"
  proof (rule ccontr)
    assume "\<not> (\<exists>i < 128. bit x i)"
    then have "x = 0" by (intro bit_word_eqI) simp
    then show False using assms by simp
  qed
  then obtain i where i: "i < 128" "bit x i" "\<forall>j. i < j \<and> j < 128 \<longrightarrow> \<not> bit x j" "leading_zeros x = 128 - Suc i"
    using takeWhile_rev_upt [of 128 "bit x"] unfolding leading_zeros_def by auto
  then have "ilog2_u128 x = of_nat i" using False by (simp add: ilog2_u128_def of_nat_diff)
  moreover have "unat (of_nat i :: u32) = i" using i(1) by (simp add: unsigned_of_nat take_bit_nat_eq_self_iff)
  ultimately show ?thesis using unat_bounds_of_top_bit [OF i(2,3)] by simp
qed

text \<open>One more failure or slash never raises the score.\<close>

lemma score_antimono:
  assumes "rs_failed_settlements s \<le> f" and "rs_slashing_events s \<le> g"
  shows "compute_reputation_score_milli (s\<lparr>rs_failed_settlements := f, rs_slashing_events := g\<rparr>) p \<le> compute_reputation_score_milli s p"
proof -
  have pen: "unat (sat_mul c (ucast a :: u128) div 1000) \<le> unat (sat_mul c (ucast b) div 1000)" if "a \<le> b" for a b :: u64 and c :: u128
  proof -
    have "unat (ucast a :: u128) \<le> unat (ucast b :: u128)"
      using that by (simp add: unat_ucast_widen word_le_nat_alt)
    then have "unat c * unat (ucast a :: u128) \<le> unat c * unat (ucast b :: u128)" by simp
    then have "unat (sat_mul c (ucast a)) \<le> unat (sat_mul c (ucast b :: u128))"
      unfolding unat_sat_mul by (intro min.mono) simp_all
    then show ?thesis by (simp add: unat_div div_le_mono)
  qed
  have same: "success_term (s\<lparr>rs_failed_settlements := f, rs_slashing_events := g\<rparr>) p = success_term s p"
    by (rule ext) (simp add: success_term_def)
  show ?thesis
    using pen [OF assms(1), of "ucast (rq_fail_penalty_milli p)"] pen [OF assms(2), of "ucast (rq_slash_penalty_milli p)"]
    by (simp add: compute_reputation_score_milli_def Let_def word_le_nat_alt unat_sat_sub same)
qed

text \<open>
  A settlement of unit weight, with the default weight of one thousand milli-points and at full
  recency, adds one and not one thousand: the factor of the milli-points is divided away.
\<close>

lemma unit_success_adds_one:
  assumes "rq_success_weight_milli p = 1000" and "rq_recency_half_life_ms p = 0" and "se_weight ev = 1"
  shows "success_term s p ev = 1"
proof -
  have "sat_mul (1000 :: u128) 1 = 1000" "sat_mul (1000 :: u128) 1000000 = 1000000000"
    by (simp_all add: sat_mul_def)
  then show ?thesis using assms by (simp add: success_term_def recency_factor_micro_def)
qed

lemma bootstrap_bounds:
  fixes p :: bootstrap_stake_params
  defines "cap \<equiv> max (bp_zero_score_stake_bps p) 10000"
  assumes fits: "unat (cap - 10000) * unat (bp_score_milli_full_trust p) < 2 ^ 128"
  shows "10000 \<le> bootstrap_stake_multiplier_bps score p \<and> bootstrap_stake_multiplier_bps score p \<le> cap"
proof (cases "score < bp_score_milli_full_trust p")
  case True
  let ?t = "bp_score_milli_full_trust p" and ?c = "ucast (cap - 10000) :: u128"
  let ?num = "?c * sat_sub ?t score" and ?extra = "ucast (?c * sat_sub ?t score div max ?t 1) :: u64"
  have c: "unat ?c = unat (cap - 10000)" by (simp add: unat_ucast_widen)
  have le: "unat ?c * unat (sat_sub ?t score) \<le> unat (cap - 10000) * unat ?t"
    unfolding c unat_sat_sub by (intro mult_le_mono) simp_all
  then have "unat ?c * unat (sat_sub ?t score) < 2 ^ LENGTH(128)" using fits by simp
  then have num: "unat ?num \<le> unat (cap - 10000) * unat ?t" using le unat_mult_no_wrap by metis
  have pos: "unat ?t \<noteq> 0" using True by (simp add: word_less_nat_alt)
  then have "1 \<le> ?t" by (simp add: word_le_nat_alt)
  then have t: "max ?t 1 = ?t" "unat ?t \<noteq> 0" using pos by (simp_all add: max_def)
  have "unat ?num div unat ?t \<le> unat (cap - 10000)" using div_le_mono [OF num, of "unat ?t"] t(2) by simp
  moreover have "unat ?extra \<le> unat ?num div unat ?t" by (simp add: t(1) unsigned_ucast_eq take_bit_eq_mod unat_div)
  ultimately have extra: "unat ?extra \<le> unat (cap - 10000)" by linarith
  have cap: "10000 \<le> cap" by (simp add: cap_def)
  then have "unat (10000 :: u64) + unat ?extra \<le> unat cap" using extra by (simp add: unat_sub word_le_nat_alt)
  moreover have "unat cap < 2 ^ 64" using unsigned_less [of cap] by simp
  ultimately have "10000 \<le> sat_add 10000 ?extra" "sat_add 10000 ?extra \<le> cap"
    by (simp_all add: word_le_nat_alt unat_sat_add)
  then show ?thesis
    using True t cap by (auto simp: bootstrap_stake_multiplier_bps_def Let_def cap_def [symmetric])
qed (auto simp: bootstrap_stake_multiplier_bps_def Let_def cap_def)

section \<open>The choice\<close>

definition passes :: "quote_selection_gates \<Rightarrow> quote_candidate \<Rightarrow> bool" where
  "passes g c \<longleftrightarrow> qc_estimated_latency_ms c \<le> qg_max_latency_ms g
     \<and> qg_min_reputation_stake_product g \<le> reputation_stake_product (qc_reputation_milli c) (qc_available_stake c)"

definition better_quote :: "quote_selection_preference \<Rightarrow> quote_candidate \<Rightarrow> quote_candidate \<Rightarrow> bool" where
  "better_quote preference a b \<longleftrightarrow>
     (let pa = qb_price (qt_body (qc_quote a)); pb = qb_price (qt_body (qc_quote b));
          la = qc_estimated_latency_ms a; lb = qc_estimated_latency_ms b;
          cheaper = (pa < pb \<or> pa = pb \<and> la < lb)
      in case preference of
          Cheapest \<Rightarrow> cheaper
        | Fastest \<Rightarrow> la < lb \<or> la = lb \<and> pa < pb
        | MostReputable \<Rightarrow> qc_reputation_milli b < qc_reputation_milli a \<or> qc_reputation_milli a = qc_reputation_milli b \<and> cheaper)"

definition key_of :: "quote_selection_preference \<Rightarrow> quote_candidate \<Rightarrow> u128 \<times> u128 \<times> u128" where
  "key_of preference c = (rank_of preference c, sat_sub (- 1) (qb_price (qt_body (qc_quote c))), sat_sub (- 1) (ucast (qc_estimated_latency_ms c)))"

lemma complement_less: "sat_sub (- 1) a < sat_sub (- 1) b \<longleftrightarrow> b < a" "sat_sub (- 1) a = sat_sub (- 1) b \<longleftrightarrow> a = b"
  for a b :: "'a::len word"
proof -
  have le: "unat x \<le> 2 ^ LENGTH('a) - 1" for x :: "'a word"
  proof -
    have "unat x < 2 ^ LENGTH('a)" by (rule unsigned_less)
    then show ?thesis by linarith
  qed
  have neg: "unat (sat_sub (- 1) x) = 2 ^ LENGTH('a) - 1 - unat x" for x :: "'a word"
    by (simp add: unat_sat_sub unat_max_word)
  show "sat_sub (- 1) a < sat_sub (- 1) b \<longleftrightarrow> b < a"
    unfolding word_less_nat_alt neg using le [of a] le [of b] by linarith
  show "sat_sub (- 1) a = sat_sub (- 1) b \<longleftrightarrow> a = b"
    unfolding word_unat_eq_iff neg using le [of a] le [of b] by linarith
qed

lemma ucast_latency: "(ucast a :: u128) < ucast b \<longleftrightarrow> a < b" "(ucast a :: u128) = ucast b \<longleftrightarrow> a = b" for a b :: u64
  by (simp_all add: word_less_nat_alt word_unat_eq_iff unat_ucast_widen)

lemma better_iff_key: "better_quote preference a b \<longleftrightarrow> key_of preference b < key_of preference a"
  by (cases preference) (auto simp: better_quote_def key_of_def rank_of_def Let_def less_prod_def' complement_less ucast_latency)

lemma consider_quote_key:
  "consider_quote g preference best (i, c) =
     (if passes g c \<and> (case best of None \<Rightarrow> True | Some (_, k) \<Rightarrow> k < key_of preference c) then Some (i, key_of preference c) else best)"
  by (auto simp: consider_quote_def passes_def key_of_def not_less Let_def split: option.splits prod.splits)

definition best_so_far :: "quote_selection_gates \<Rightarrow> quote_selection_preference \<Rightarrow> quote_candidate list \<Rightarrow> best_quote option \<Rightarrow> bool" where
  "best_so_far g preference cs best \<longleftrightarrow>
     (case best of
        None \<Rightarrow> \<forall>c \<in> set cs. \<not> passes g c
      | Some (i, k) \<Rightarrow> i < length cs \<and> passes g (cs ! i) \<and> k = key_of preference (cs ! i)
          \<and> (\<forall>j < length cs. passes g (cs ! j) \<longrightarrow> key_of preference (cs ! j) \<le> k \<and> (j < i \<longrightarrow> key_of preference (cs ! j) < k)))"

lemma select_fold: "best_so_far g preference cs (foldl (consider_quote g preference) None (List.enumerate 0 cs))"
proof (induction cs rule: rev_induct)
  case (snoc c cs)
  let ?best = "foldl (consider_quote g preference) None (List.enumerate 0 cs)"
  show ?case
    using snoc
    by (auto simp: enumerate_append_eq consider_quote_key best_so_far_def nth_append less_Suc_eq not_less
        split: option.splits prod.splits if_splits)
qed (simp add: best_so_far_def)

section \<open>Properties\<close>

text \<open>
  The choice among quotes is the best one: an error is answered exactly when no candidate passes
  the gates; otherwise the answer passes them, no other candidate that passes is better under the
  preference and its tie-breaks (lower price, then lower latency), and it is the first of the list
  with this property.
\<close>

theorem select_quote_optimal:
  "(select_quote cs g preference = Inl NoCandidates \<longleftrightarrow> list_all (\<lambda>c. \<not> passes g c) cs)
   \<and> (\<forall>c. select_quote cs g preference = Inr c \<longrightarrow>
        (\<exists>i < length cs. c = cs ! i \<and> passes g c
          \<and> (\<forall>j < length cs. passes g (cs ! j) \<longrightarrow>
               \<not> better_quote preference (cs ! j) c \<and> (j < i \<longrightarrow> better_quote preference c (cs ! j)))))"
  using select_fold [of g preference cs]
  by (auto simp: select_quote_def best_so_far_def better_iff_key not_less list_all_iff
      split: option.splits prod.splits intro: nth_mem)

section \<open>Witnesses\<close>

definition sample_candidate :: "amount \<Rightarrow> u64 \<Rightarrow> quote_candidate" where
  "sample_candidate price latency = \<lparr>qc_quote = \<lparr>qt_body = \<lparr>qb_quote_id = 1, qb_intent_id = 2, qb_provider_id = 3,
     qb_price = price, qb_expiry_ms = 1000\<rparr>, qt_signature = 0\<rparr>, qc_provider_id = 3, qc_tool_class = Browser,
     qc_reputation_milli = 500000, qc_available_stake = 1000, qc_estimated_latency_ms = latency\<rparr>"

definition sample_gates :: quote_selection_gates where
  "sample_gates = \<lparr>qg_min_reputation_stake_product = 5, qg_max_latency_ms = 200\<rparr>"

theorem select_quote_optimal_witness:
  "select_quote [sample_candidate 100 50, sample_candidate 80 100, sample_candidate 10 300] sample_gates Cheapest = Inr (sample_candidate 80 100)
   \<and> \<not> better_quote Cheapest (sample_candidate 100 50) (sample_candidate 80 100)"
proof -
  let ?cs = "[sample_candidate 100 50, sample_candidate 80 100, sample_candidate 10 300]"
  have sel: "select_quote ?cs sample_gates Cheapest = Inr (sample_candidate 80 100)" by code_simp
  have "passes sample_gates (sample_candidate 100 50)" by code_simp
  then show ?thesis
    using select_quote_optimal [of ?cs sample_gates Cheapest] sel by (metis length_greater_0_conv list.distinct(1) nth_Cons_0)
qed

end
