(* ===== verification/Bft_Wire.thy ===== *)
theory Bft_Wire
  imports Consensus_Votes
begin

text \<open>
  The stake-weighted voting library \<open>crates/bft-wire/src\<close> (\<open>quorum.rs\<close>, \<open>qc.rs\<close>, \<open>validators.rs\<close>,
  \<open>vote.rs\<close>, \<open>timeout.rs\<close>, \<open>misbehavior.rs\<close>): stake quorums, votes and certificates under stake weights,
  timeouts with their pool and certificates, and the evidence of misbehaviour that slashes a
  validator.

  Its validator sets, votes and certificates have the shape and the code of those of the consensus
  crate, so their types and the operations without weights are those of \<open>Consensus_Votes\<close>; what
  differs is defined here.
\<close>

section \<open>Stake quorums\<close>

definition ceil_div_u128 :: "u128 \<Rightarrow> u128 \<Rightarrow> u128" where
  "ceil_div_u128 a b = (if b = 0 then 0 else sat_add a (sat_sub b 1) div b)"

definition quorum_stake_threshold :: "u128 \<Rightarrow> nat \<Rightarrow> nat \<Rightarrow> u128" where
  "quorum_stake_threshold total_stake k n =
     (if total_stake = 0 \<or> n = 0 \<or> k = 0 then 0
      else max (ceil_div_u128 (sat_mul total_stake (of_nat k)) (of_nat n)) 1)"

section \<open>Validator sets and certificates\<close>

definition BFT21_SEED_PREFIX :: bytes where
  "BFT21_SEED_PREFIX = map of_char ''FRACTALCHAIN_BFT21_V0___________''"

definition bft21_seed :: "u8 \<Rightarrow> bytes" where
  "bft21_seed idx = BFT21_SEED_PREFIX[31 := idx]"

definition phase3_bft21_fixture :: "'sk bls_ext \<Rightarrow> validator_set" where
  "phase3_bft21_fixture V = map (\<lambda>i. dev_entry_from_seed V (bft21_seed (of_nat i))) [0..<21]"

definition wire_dev_bls_secret :: "'sk bls_ext \<Rightarrow> validator_set \<Rightarrow> nat \<Rightarrow> 'sk option" where
  "wire_dev_bls_secret V vs idx =
     (let n = length vs
      in if n \<le> idx then None
         else if n = 1 then Some (dev_secret_from_seed V SINGLETON_SEED)
         else if n = 7 then Some (dev_secret_from_seed V (bft7_seed (of_nat idx)))
         else if n = 21 then Some (dev_secret_from_seed V (bft21_seed (of_nat idx)))
         else None)"

definition is_genesis_parent_qc :: "quorum_certificate \<Rightarrow> bool" where
  "is_genesis_parent_qc qc \<longleftrightarrow> qc_view qc = 0 \<and> qc_block_height qc = 0 \<and> qc_block_header_hash qc = 0 \<and> qc_aggregate_sig qc = 0"

section \<open>Votes under stake weights\<close>

datatype wire_vote_error =
    WireIndexOutOfRange u32 nat
  | WireNoPublicKey u32
  | WireInsufficientSigners nat nat
  | InsufficientSigningStake u128 u128
  | WireDuplicateSigner u32
  | StakeWeightsLen nat nat
  | WireBls

datatype wire_vote_outcome =
    VoteAccepted | VoteReachedQuorum | VoteDuplicateValidator | StakeWeightsLenMismatch | VoteOutOfRange | VoteBadSignature

definition wire_vote_verify :: "'sk bls_ext \<Rightarrow> vote \<Rightarrow> bls_pubkey \<Rightarrow> wire_vote_error + unit" where
  "wire_vote_verify V v pubkey =
     (if vx_verify V (vt_signature v) (vx_borsh_vote_body V (vote_body v)) pubkey then Inr () else Inl WireBls)"

definition wire_verify_against_validator_set :: "'sk bls_ext \<Rightarrow> vote \<Rightarrow> validator_set \<Rightarrow> wire_vote_error + unit" where
  "wire_verify_against_validator_set V v vs =
     (if length vs \<le> unat (vt_validator_index v) then Inl (WireIndexOutOfRange (vt_validator_index v) (length vs))
      else case set_bls_pubkey vs (unat (vt_validator_index v)) of
        None \<Rightarrow> Inl (WireNoPublicKey (vt_validator_index v))
      | Some pk \<Rightarrow> wire_vote_verify V v pk)"

text \<open>The sum over the signers of a slot, in the order of its keys; \<open>None\<close> is the error of a length mismatch.\<close>

definition signing_stake :: "u128 list \<Rightarrow> nat \<Rightarrow> u32 list \<Rightarrow> u128" where
  "signing_stake w n idxs = foldl (\<lambda>sum idx. if unat idx < n then sat_add sum (w ! unat idx) else sum) 0 idxs"

definition slot_quorum_met :: "vote_slot \<Rightarrow> validator_set \<Rightarrow> u128 list option \<Rightarrow> bool option" where
  "slot_quorum_met slot vs stake_weights =
     (let n = length vs; k = quorum_threshold vs; count = length slot
      in case stake_weights of
          None \<Rightarrow> Some (k \<le> count)
        | Some w \<Rightarrow>
            if length w \<noteq> n then None
            else let total_stake = word_sum w
                 in if total_stake = 0 then Some (k \<le> count)
                    else let need = quorum_stake_threshold total_stake k n
                         in Some (need \<le> signing_stake w n (map fst slot)))"

definition wire_record ::
    "'sk bls_ext \<Rightarrow> vote_pool \<Rightarrow> vote \<Rightarrow> validator_set \<Rightarrow> u128 list option \<Rightarrow> vote_pool \<times> wire_vote_outcome" where
  "wire_record V pool vote vs stake_weights =
     (if length vs \<le> unat (vt_validator_index vote) then (pool, VoteOutOfRange)
      else case set_bls_pubkey vs (unat (vt_validator_index vote)) of
        None \<Rightarrow> (pool, VoteOutOfRange)
      | Some pk \<Rightarrow>
          if \<not> is_ok (wire_vote_verify V vote pk) then (pool, VoteBadSignature)
          else
            let key = (vt_view vote, vt_header_hash vote);
                slot = unwrap_or (bt_get pool key) []
            in if bt_get slot (vt_validator_index vote) \<noteq> None then (bt_insert key slot pool, VoteDuplicateValidator)
               else (case slot_quorum_met slot vs stake_weights of
                 None \<Rightarrow> (bt_insert key slot pool, StakeWeightsLenMismatch)
               | Some prev_met \<Rightarrow>
                   let slot' = bt_insert (vt_validator_index vote) vote slot
                   in (bt_insert key slot' pool,
                       case slot_quorum_met slot' vs stake_weights of
                         None \<Rightarrow> StakeWeightsLenMismatch
                       | Some new_met \<Rightarrow> if \<not> prev_met \<and> new_met then VoteReachedQuorum else VoteAccepted)))"

definition wire_try_form_qc ::
    "'sk bls_ext \<Rightarrow> vote_pool \<Rightarrow> u64 \<Rightarrow> u64 \<Rightarrow> hash256 \<Rightarrow> validator_set \<Rightarrow> u128 list option \<Rightarrow> formed_qc option" where
  "wire_try_form_qc V pool view block_height header_hash vs stake_weights =
     (case bt_get pool (view, header_hash) of
        None \<Rightarrow> None
      | Some slot \<Rightarrow>
          (case slot_quorum_met slot vs stake_weights of
             None \<Rightarrow> None
           | Some met \<Rightarrow>
               if \<not> met then None
               else (case vx_aggregate V (map vt_signature (bt_values slot)) of
                 None \<Rightarrow> None
               | Some agg \<Rightarrow>
                   Some \<lparr>fq_qc = \<lparr>qc_view = view, qc_block_height = block_height,
                                   qc_block_header_hash = header_hash, qc_aggregate_sig = agg\<rparr>,
                         fq_signer_indices = map fst slot\<rparr>)))"

text \<open>The loop over the signers: indices seen, keys collected and the stake summed up.\<close>

fun collect_signers ::
    "validator_set \<Rightarrow> u128 list option \<Rightarrow> u32 set \<Rightarrow> bls_pubkey list \<Rightarrow> u128 \<Rightarrow> u32 list \<Rightarrow>
     wire_vote_error + bls_pubkey list \<times> u128" where
  "collect_signers vs w seen pks stake [] = Inr (pks, stake)"
| "collect_signers vs w seen pks stake (idx # rest) =
     (if idx \<in> seen then Inl (WireDuplicateSigner idx)
      else if length vs \<le> unat idx then Inl (WireIndexOutOfRange idx (length vs))
      else case set_bls_pubkey vs (unat idx) of
        None \<Rightarrow> Inl (WireNoPublicKey idx)
      | Some pk \<Rightarrow>
          collect_signers vs w (insert idx seen) (pks @ [pk])
            (case w of None \<Rightarrow> stake | Some ws \<Rightarrow> sat_add stake (ws ! unat idx)) rest)"

definition check_quorum :: "validator_set \<Rightarrow> u128 list option \<Rightarrow> u32 list \<Rightarrow> u128 \<Rightarrow> wire_vote_error + unit" where
  "check_quorum vs stake_weights signers stake =
     (let threshold = quorum_threshold vs; n = length vs;
          by_count = (if length signers < threshold then Inl (WireInsufficientSigners (length signers) threshold) else Inr ())
      in case stake_weights of
          None \<Rightarrow> by_count
        | Some w \<Rightarrow>
            let total_stake = word_sum w
            in if total_stake = 0 then by_count
               else let need = quorum_stake_threshold total_stake threshold n
                    in if stake < need then Inl (InsufficientSigningStake stake need) else Inr ())"

definition wire_verify_formed_qc ::
    "'sk bls_ext \<Rightarrow> formed_qc \<Rightarrow> validator_set \<Rightarrow> u128 list option \<Rightarrow> wire_vote_error + unit" where
  "wire_verify_formed_qc V formed vs stake_weights =
     (if (case stake_weights of None \<Rightarrow> False | Some w \<Rightarrow> length w \<noteq> length vs)
      then Inl (StakeWeightsLen (length (the stake_weights)) (length vs))
      else case collect_signers vs stake_weights {} [] 0 (fq_signer_indices formed) of
        Inl e \<Rightarrow> Inl e
      | Inr (pks, stake) \<Rightarrow>
          (case check_quorum vs stake_weights (fq_signer_indices formed) stake of
             Inl e \<Rightarrow> Inl e
           | Inr _ \<Rightarrow>
               let msg = vx_borsh_vote_body V \<lparr>vb_view = qc_view (fq_qc formed),
                     vb_height = qc_block_height (fq_qc formed), vb_header_hash = qc_block_header_hash (fq_qc formed)\<rparr>
               in if vx_aggregate_verify V (qc_aggregate_sig (fq_qc formed)) msg pks then Inr () else Inl WireBls))"

section \<open>Timeouts\<close>

record timeout_sign_body =
  tb_view :: u64
  tb_high_qc :: quorum_certificate

record timeout =
  to_view :: u64
  to_high_qc :: quorum_certificate
  to_validator_index :: u32
  to_signature :: bls_signature

datatype timeout_error =
    TimeoutIndexOutOfRange u32 nat
  | TimeoutNoPublicKey u32
  | TimeoutInsufficientSigners nat nat
  | TimeoutDuplicateSigner u32
  | TimeoutBls

datatype record_timeout_outcome =
    TimeoutAccepted | TimeoutReachedQuorum | TimeoutDuplicateValidator | TimeoutOutOfRange | TimeoutBadSignature

record formed_timeout_cert =
  tc_view :: u64
  tc_high_qc :: quorum_certificate
  tc_aggregate_sig :: aggregate_signature
  tc_signer_indices :: "u32 list"

type_synonym timeout_slot = "(u32, timeout) btree"
type_synonym timeout_pool = "(u64 \<times> hash256, timeout_slot) btree"

datatype misbehavior_kind = DoubleVoteKind | ConflictingQcKind | TimeoutEquivocationKind

datatype misbehavior_evidence =
    DoubleVote validator_id vote vote
  | ConflictingQc validator_id formed_qc formed_qc
  | TimeoutEquivocation validator_id timeout timeout

text \<open>The encodings of the two further signed or hashed types.\<close>

record 'sk wire_ext =
  wx_bls :: "'sk bls_ext"
  wx_borsh_timeout_body :: "timeout_sign_body \<Rightarrow> bytes"
  wx_borsh_evidence :: "misbehavior_evidence \<Rightarrow> bytes option"

definition high_qc_rank :: "quorum_certificate \<Rightarrow> u64 \<times> u64" where
  "high_qc_rank qc = (qc_block_height qc, qc_view qc)"

definition timeout_sign :: "'sk wire_ext \<Rightarrow> timeout_sign_body \<Rightarrow> u32 \<Rightarrow> 'sk \<Rightarrow> timeout" where
  "timeout_sign X body validator_index sk =
     \<lparr>to_view = tb_view body, to_high_qc = tb_high_qc body, to_validator_index = validator_index,
      to_signature = vx_sign (wx_bls X) sk (wx_borsh_timeout_body X body)\<rparr>"

definition timeout_body :: "timeout \<Rightarrow> timeout_sign_body" where
  "timeout_body t = \<lparr>tb_view = to_view t, tb_high_qc = to_high_qc t\<rparr>"

definition timeout_verify :: "'sk wire_ext \<Rightarrow> timeout \<Rightarrow> bls_pubkey \<Rightarrow> timeout_error + unit" where
  "timeout_verify X t pubkey =
     (if vx_verify (wx_bls X) (to_signature t) (wx_borsh_timeout_body X (timeout_body t)) pubkey then Inr () else Inl TimeoutBls)"

definition timeout_verify_against_validator_set :: "'sk wire_ext \<Rightarrow> timeout \<Rightarrow> validator_set \<Rightarrow> timeout_error + unit" where
  "timeout_verify_against_validator_set X t vs =
     (if length vs \<le> unat (to_validator_index t) then Inl (TimeoutIndexOutOfRange (to_validator_index t) (length vs))
      else case set_bls_pubkey vs (unat (to_validator_index t)) of
        None \<Rightarrow> Inl (TimeoutNoPublicKey (to_validator_index t))
      | Some pk \<Rightarrow> timeout_verify X t pk)"

definition tp_record :: "'sk wire_ext \<Rightarrow> timeout_pool \<Rightarrow> timeout \<Rightarrow> validator_set \<Rightarrow> timeout_pool \<times> record_timeout_outcome" where
  "tp_record X pool t vs =
     (if length vs \<le> unat (to_validator_index t) then (pool, TimeoutOutOfRange)
      else case set_bls_pubkey vs (unat (to_validator_index t)) of
        None \<Rightarrow> (pool, TimeoutOutOfRange)
      | Some pk \<Rightarrow>
          if \<not> is_ok (timeout_verify X t pk) then (pool, TimeoutBadSignature)
          else (case hash_qc (wx_bls X) (to_high_qc t) of
            None \<Rightarrow> (pool, TimeoutBadSignature)
          | Some hqh \<Rightarrow>
              let key = (to_view t, hqh);
                  slot = unwrap_or (bt_get pool key) []
              in if bt_get slot (to_validator_index t) \<noteq> None then (bt_insert key slot pool, TimeoutDuplicateValidator)
                 else let threshold = quorum_threshold vs;
                          prev_count = length slot;
                          slot' = bt_insert (to_validator_index t) t slot;
                          new_count = length slot'
                      in (bt_insert key slot' pool,
                          if prev_count < threshold \<and> threshold \<le> new_count then TimeoutReachedQuorum else TimeoutAccepted)))"

definition tp_count :: "timeout_pool \<Rightarrow> u64 \<Rightarrow> hash256 \<Rightarrow> nat" where
  "tp_count pool view hqh = (case bt_get pool (view, hqh) of None \<Rightarrow> 0 | Some slot \<Rightarrow> length slot)"

definition try_form_timeout_cert ::
    "'sk wire_ext \<Rightarrow> timeout_pool \<Rightarrow> u64 \<Rightarrow> hash256 \<Rightarrow> validator_set \<Rightarrow> formed_timeout_cert option" where
  "try_form_timeout_cert X pool view hqh vs =
     (case bt_get pool (view, hqh) of
        None \<Rightarrow> None
      | Some slot \<Rightarrow>
          if length slot < quorum_threshold vs then None
          else (case bt_values slot of
            [] \<Rightarrow> None
          | first # others \<Rightarrow>
              if list_ex (\<lambda>t. to_high_qc t \<noteq> to_high_qc first) others then None
              else (case vx_aggregate (wx_bls X) (map to_signature (bt_values slot)) of
                None \<Rightarrow> None
              | Some agg \<Rightarrow> Some \<lparr>tc_view = view, tc_high_qc = to_high_qc first, tc_aggregate_sig = agg, tc_signer_indices = map fst slot\<rparr>)))"

fun collect_timeout_pubkeys ::
    "validator_set \<Rightarrow> u32 set \<Rightarrow> u32 list \<Rightarrow> timeout_error + bls_pubkey list" where
  "collect_timeout_pubkeys vs seen [] = Inr []"
| "collect_timeout_pubkeys vs seen (idx # rest) =
     (if idx \<in> seen then Inl (TimeoutDuplicateSigner idx)
      else if length vs \<le> unat idx then Inl (TimeoutIndexOutOfRange idx (length vs))
      else case set_bls_pubkey vs (unat idx) of
        None \<Rightarrow> Inl (TimeoutNoPublicKey idx)
      | Some pk \<Rightarrow>
          (case collect_timeout_pubkeys vs (insert idx seen) rest of
             Inl e \<Rightarrow> Inl e
           | Inr pks \<Rightarrow> Inr (pk # pks)))"

definition verify_formed_timeout_cert :: "'sk wire_ext \<Rightarrow> formed_timeout_cert \<Rightarrow> validator_set \<Rightarrow> timeout_error + unit" where
  "verify_formed_timeout_cert X formed vs =
     (if length (tc_signer_indices formed) < quorum_threshold vs
      then Inl (TimeoutInsufficientSigners (length (tc_signer_indices formed)) (quorum_threshold vs))
      else case collect_timeout_pubkeys vs {} (tc_signer_indices formed) of
        Inl e \<Rightarrow> Inl e
      | Inr pks \<Rightarrow>
          let msg = wx_borsh_timeout_body X \<lparr>tb_view = tc_view formed, tb_high_qc = tc_high_qc formed\<rparr>
          in if vx_aggregate_verify (wx_bls X) (tc_aggregate_sig formed) msg pks then Inr () else Inl TimeoutBls)"

definition better_cert ::
    "'sk wire_ext \<Rightarrow> timeout_pool \<Rightarrow> u64 \<Rightarrow> validator_set \<Rightarrow> (formed_timeout_cert \<times> hash256) option \<Rightarrow>
     (u64 \<times> hash256) \<times> timeout_slot \<Rightarrow> (formed_timeout_cert \<times> hash256) option" where
  "better_cert X pool view vs best entry =
     (case entry of ((v, hqh), slot) \<Rightarrow>
        if v \<noteq> view \<or> length slot < quorum_threshold vs then best
        else (case try_form_timeout_cert X pool view hqh vs of
          None \<Rightarrow> best
        | Some formed \<Rightarrow>
            if \<not> is_ok (verify_formed_timeout_cert X formed vs) then best
            else let rank = high_qc_rank (tc_high_qc formed);
                     replace = (case best of
                         None \<Rightarrow> True
                       | Some (b, bh) \<Rightarrow>
                           let br = high_qc_rank (tc_high_qc b) in br < rank \<or> (rank = br \<and> bh < hqh))
                 in if replace then Some (formed, hqh) else best))"

definition try_form_best_timeout_cert_for_view ::
    "'sk wire_ext \<Rightarrow> timeout_pool \<Rightarrow> u64 \<Rightarrow> validator_set \<Rightarrow> formed_timeout_cert option" where
  "try_form_best_timeout_cert_for_view X pool view vs = map_option fst (foldl (better_cert X pool view vs) None pool)"

definition prune_view :: "timeout_pool \<Rightarrow> u64 \<Rightarrow> timeout_pool" where
  "prune_view pool view = filter (\<lambda>((v, _), _). v \<noteq> view) pool"

definition prune_views_before :: "timeout_pool \<Rightarrow> u64 \<Rightarrow> timeout_pool" where
  "prune_views_before pool min_keep_view = filter (\<lambda>((v, _), _). min_keep_view \<le> v) pool"

section \<open>Evidence of misbehaviour\<close>

datatype misbehavior_error = FingerprintMismatch | InvalidEvidence | OffenderOutOfRange u32

fun evidence_kind :: "misbehavior_evidence \<Rightarrow> misbehavior_kind" where
  "evidence_kind (DoubleVote _ _ _) = DoubleVoteKind"
| "evidence_kind (ConflictingQc _ _ _) = ConflictingQcKind"
| "evidence_kind (TimeoutEquivocation _ _ _) = TimeoutEquivocationKind"

definition misbehavior_evidence_hash :: "'sk wire_ext \<Rightarrow> misbehavior_evidence \<Rightarrow> hash256 option" where
  "misbehavior_evidence_hash X e = map_option (vx_keccak256 (wx_bls X)) (wx_borsh_evidence X e)"

fun declared_offender_fingerprint :: "misbehavior_evidence \<Rightarrow> validator_id" where
  "declared_offender_fingerprint (DoubleVote fp _ _) = fp"
| "declared_offender_fingerprint (ConflictingQc fp _ _) = fp"
| "declared_offender_fingerprint (TimeoutEquivocation fp _ _) = fp"

fun position :: "('a \<Rightarrow> bool) \<Rightarrow> 'a list \<Rightarrow> nat option" where
  "position P [] = None"
| "position P (x # xs) = (if P x then Some 0 else map_option Suc (position P xs))"

definition offender_index :: "misbehavior_evidence \<Rightarrow> validator_set \<Rightarrow> misbehavior_error + u32" where
  "offender_index e vs =
     (case position (\<lambda>v. ve_fingerprint v = declared_offender_fingerprint e) vs of
        None \<Rightarrow> Inl InvalidEvidence
      | Some i \<Rightarrow> Inr (of_nat i))"

fun check_evidence ::
    "'sk wire_ext \<Rightarrow> misbehavior_evidence \<Rightarrow> u32 \<Rightarrow> validator_set \<Rightarrow> u128 list option \<Rightarrow> misbehavior_error + unit" where
  "check_evidence X (DoubleVote _ a b) offender vs w =
     (if vt_validator_index a \<noteq> offender \<or> vt_validator_index b \<noteq> offender then Inl InvalidEvidence
      else if vt_validator_index a \<noteq> vt_validator_index b then Inl InvalidEvidence
      else if vt_view a \<noteq> vt_view b \<or> vt_height a \<noteq> vt_height b then Inl InvalidEvidence
      else if vt_header_hash a = vt_header_hash b then Inl InvalidEvidence
      else if \<not> is_ok (wire_verify_against_validator_set (wx_bls X) a vs) then Inl InvalidEvidence
      else if \<not> is_ok (wire_verify_against_validator_set (wx_bls X) b vs) then Inl InvalidEvidence
      else Inr ())"
| "check_evidence X (ConflictingQc _ a b) offender vs w =
     (if qc_view (fq_qc a) \<noteq> qc_view (fq_qc b) \<or> qc_block_height (fq_qc a) \<noteq> qc_block_height (fq_qc b) then Inl InvalidEvidence
      else if qc_block_header_hash (fq_qc a) = qc_block_header_hash (fq_qc b) then Inl InvalidEvidence
      else if offender \<notin> set (fq_signer_indices a) \<or> offender \<notin> set (fq_signer_indices b) then Inl InvalidEvidence
      else if \<not> is_ok (wire_verify_formed_qc (wx_bls X) a vs w) then Inl InvalidEvidence
      else if \<not> is_ok (wire_verify_formed_qc (wx_bls X) b vs w) then Inl InvalidEvidence
      else Inr ())"
| "check_evidence X (TimeoutEquivocation _ a b) offender vs w =
     (if to_validator_index a \<noteq> offender \<or> to_validator_index b \<noteq> offender then Inl InvalidEvidence
      else if to_validator_index a \<noteq> to_validator_index b then Inl InvalidEvidence
      else if to_view a \<noteq> to_view b then Inl InvalidEvidence
      else if hash_qc (wx_bls X) (to_high_qc a) = hash_qc (wx_bls X) (to_high_qc b) then Inl InvalidEvidence
      else if \<not> is_ok (timeout_verify_against_validator_set X a vs) then Inl InvalidEvidence
      else if \<not> is_ok (timeout_verify_against_validator_set X b vs) then Inl InvalidEvidence
      else Inr ())"

definition verify_consensus_misbehavior_evidence ::
    "'sk wire_ext \<Rightarrow> misbehavior_evidence \<Rightarrow> validator_set \<Rightarrow> u128 list option \<Rightarrow> validator_id \<Rightarrow> misbehavior_error + hash256" where
  "verify_consensus_misbehavior_evidence X e vs w expected =
     (if declared_offender_fingerprint e \<noteq> expected then Inl FingerprintMismatch
      else case offender_index e vs of
        Inl err \<Rightarrow> Inl err
      | Inr offender \<Rightarrow>
          (case check_evidence X e offender vs w of
             Inl err \<Rightarrow> Inl err
           | Inr _ \<Rightarrow> (case misbehavior_evidence_hash X e of None \<Rightarrow> Inl InvalidEvidence | Some h \<Rightarrow> Inr h)))"

definition validator_set_from_registry :: "(validator_id \<times> bls_pubkey) list \<Rightarrow> misbehavior_error + validator_set" where
  "validator_set_from_registry rows =
     Inr (map (\<lambda>(fp, pk). \<lparr>ve_fingerprint = fp, ve_bls_pubkey = pk\<rparr>) rows)"

section \<open>Weighted quorums\<close>

text \<open>
  Sets that hold a share of the total weight.  Two sets that each hold at least \<open>share\<close> of \<open>parts\<close>
  parts of the weight overlap in the weight that both shares exceed the whole by.
\<close>

locale weighted_quorum =
  fixes members :: "'v set" and weight :: "'v \<Rightarrow> nat" and share parts :: nat
  assumes finite_members: "finite members"
begin

definition heavy :: "'v set \<Rightarrow> bool" where
  "heavy A \<longleftrightarrow> A \<subseteq> members \<and> share * sum weight members \<le> parts * sum weight A"

lemma heavy_intersection:
  assumes "heavy A" and "heavy B"
  shows "2 * share * sum weight members \<le> parts * (sum weight (A \<inter> B) + sum weight members)"
proof -
  have sub: "A \<subseteq> members" "B \<subseteq> members" and fin: "finite A" "finite B"
    using assms finite_members finite_subset by (auto simp: heavy_def)
  have "sum weight (A \<union> B) + sum weight (A \<inter> B) = sum weight A + sum weight B" by (rule sum.union_inter [OF fin])
  moreover have "sum weight (A \<union> B) \<le> sum weight members" using sub finite_members by (intro sum_mono2) auto
  ultimately have "sum weight A + sum weight B \<le> sum weight (A \<inter> B) + sum weight members" by linarith
  then have "parts * (sum weight A + sum weight B) \<le> parts * (sum weight (A \<inter> B) + sum weight members)" by simp
  moreover have "share * sum weight members \<le> parts * sum weight A" "share * sum weight members \<le> parts * sum weight B"
    using assms by (simp_all add: heavy_def)
  ultimately show ?thesis by (simp add: distrib_left)
qed

end

definition stake_of :: "u128 list \<Rightarrow> u32 set \<Rightarrow> nat" where
  "stake_of w A = (\<Sum>i \<in> A. unat (w ! unat i))"

interpretation stakeq: weighted_quorum "signer_universe vs" "\<lambda>i. unat (w ! unat i)" "quorum_threshold vs" "length vs"
  for vs :: validator_set and w :: "u128 list"
  by unfold_locales simp

lemma stake_universe:
  assumes "length w = length vs" and "length vs \<le> 2 ^ 32"
  shows "stake_of w (signer_universe vs) = sum_list (map unat w)"
proof -
  have "inj_on unat (signer_universe vs)" by (rule inj_onI) (simp add: word_unat_eq_iff)
  moreover have "unat ` signer_universe vs = {..<length vs}"
  proof (intro subset_antisym subsetI)
    fix n assume n: "n \<in> {..<length vs}"
    then have "unat (of_nat n :: u32) = n" using assms(2) by (intro unat_of_nat_small) simp
    then show "n \<in> unat ` signer_universe vs" using n by (intro image_eqI [of _ _ "of_nat n"]) (auto simp: signer_universe_def)
  qed (auto simp: signer_universe_def)
  ultimately have "stake_of w (signer_universe vs) = (\<Sum>n<length w. unat (w ! n))"
    unfolding stake_of_def using sum.reindex [of unat "signer_universe vs" "\<lambda>n. unat (w ! n)"] assms(1) by simp
  then show ?thesis by (simp add: sum_list_sum_nth atLeast0LessThan)
qed

section \<open>What a verified certificate shows\<close>

lemma unat_foldl_sat_add:
  "unat (foldl (\<lambda>s i. sat_add s (f i)) s xs) = min (unat s + sum_list (map (\<lambda>i. unat (f i)) xs)) (2 ^ 128 - 1)"
  for s :: u128
proof (induction xs arbitrary: s)
  case Nil
  have "unat s < 2 ^ 128" using unsigned_less [of s] by simp
  then show ?case by simp
next
  case (Cons x xs)
  then show ?case by (simp add: unat_sat_add min_def)
qed

lemma collect_signers_iff:
  "collect_signers vs w seen pks stake idxs = Inr (pks', stake') \<longleftrightarrow>
     distinct idxs \<and> set idxs \<inter> seen = {} \<and> list_all (\<lambda>i. unat i < length vs) idxs
     \<and> pks' = pks @ map (\<lambda>i. ve_bls_pubkey (vs ! unat i)) idxs
     \<and> stake' = (case w of None \<Rightarrow> stake | Some ws \<Rightarrow> foldl (\<lambda>s i. sat_add s (ws ! unat i)) stake idxs)"
  by (induction vs w seen pks stake idxs rule: collect_signers.induct)
    (auto simp: set_bls_pubkey_def split: option.splits)

lemma stake_threshold_share:
  assumes "unat T * k + n < 2 ^ 128" and "T \<noteq> 0" "0 < k" "0 < n"
  shows "unat T * k \<le> n * unat (quorum_stake_threshold T k n)"
proof -
  have t: "1 \<le> unat T" using assms(2) unat_eq_zero [of T] by linarith
  have "k \<le> unat T * k" using t by simp
  then have "k < 2 ^ 128" "n < 2 ^ 128" using assms(1) by linarith+
  then have k: "unat (of_nat k :: u128) = k" and n: "unat (of_nat n :: u128) = n"
    by (simp_all add: unat_of_nat_small)
  have prod: "unat (sat_mul T (of_nat k)) = unat T * k" using assms(1) by (simp add: unat_sat_mul k)
  have "unat (sat_add (sat_mul T (of_nat k)) (sat_sub (of_nat n) 1)) = unat T * k + (n - 1)"
    using assms(1) by (simp add: unat_sat_add unat_sat_sub prod n)
  then have "unat (ceil_div_u128 (sat_mul T (of_nat k)) (of_nat n)) = (unat T * k + (n - 1)) div n"
    using assms(4) n by (auto simp: ceil_div_u128_def unat_div)
  moreover have "unat T * k \<le> n * ((unat T * k + (n - 1)) div n)"
  proof -
    have "unat T * k + (n - 1) = n * ((unat T * k + (n - 1)) div n) + (unat T * k + (n - 1)) mod n" by simp
    moreover have "(unat T * k + (n - 1)) mod n \<le> n - 1" using mod_less_divisor [OF assms(4)] by (metis Suc_diff_1 assms(4) less_Suc_eq_le)
    ultimately show ?thesis by linarith
  qed
  moreover have "unat (ceil_div_u128 (sat_mul T (of_nat k)) (of_nat n)) \<le> unat (quorum_stake_threshold T k n)"
    using assms(2-4) by (simp add: quorum_stake_threshold_def word_le_nat_alt [symmetric])
  ultimately show ?thesis using order_trans mult_le_mono2 by metis
qed

lemma wire_verified_signers:
  assumes "wire_verify_formed_qc V q vs w = Inr ()"
  shows "distinct (fq_signer_indices q)" and "list_all (\<lambda>i. unat i < length vs) (fq_signer_indices q)"
    and "vx_aggregate_verify V (qc_aggregate_sig (fq_qc q)) (vx_borsh_vote_body V \<lparr>vb_view = qc_view (fq_qc q),
      vb_height = qc_block_height (fq_qc q), vb_header_hash = qc_block_header_hash (fq_qc q)\<rparr>)
      (map (\<lambda>i. ve_bls_pubkey (vs ! unat i)) (fq_signer_indices q))"
  using assms by (auto simp: wire_verify_formed_qc_def collect_signers_iff Let_def split: if_splits sum.splits)

lemma wire_verified_heavy:
  assumes ver: "wire_verify_formed_qc V q vs (Some w) = Inr ()"
    and fits: "sum_list (map unat w) * quorum_threshold vs + length vs < 2 ^ 128"
    and pos: "0 < sum_list (map unat w)" and small: "length vs \<le> 2 ^ 32"
  shows "stakeq.heavy vs w (set (fq_signer_indices q)) \<and> length w = length vs"
proof -
  let ?n = "length vs" and ?k = "quorum_threshold vs" and ?S = "fq_signer_indices q"
  let ?stake = "foldl (\<lambda>s i. sat_add s (w ! unat i)) 0 ?S"
  have len: "length w = ?n" using ver by (auto simp: wire_verify_formed_qc_def split: if_splits)
  have k: "0 < ?k" by (rule quorum_threshold_pos)
  have "sum_list (map unat w) \<le> sum_list (map unat w) * ?k" using k by simp
  then have "sum_list (map unat w) < 2 ^ 128" using fits by linarith
  then have total: "unat (word_sum w) = sum_list (map unat w)" by (simp add: unat_word_sum)
  then have nz: "word_sum w \<noteq> 0" using pos by (metis less_irrefl unat_0)
  have "?n \<noteq> 0" using pos len by (cases w) auto
  have need: "quorum_stake_threshold (word_sum w) ?k ?n \<le> ?stake"
    using ver nz by (auto simp: wire_verify_formed_qc_def check_quorum_def collect_signers_iff Let_def not_less split: if_splits sum.splits)
  have d: "distinct ?S" "set ?S \<subseteq> signer_universe vs"
    using wire_verified_signers [OF ver] by (auto simp: signer_universe_def list_all_iff)
  have "unat ?stake \<le> sum_list (map (\<lambda>i. unat (w ! unat i)) ?S)" by (simp add: unat_foldl_sat_add)
  also have "\<dots> = stake_of w (set ?S)" using d(1) by (simp add: stake_of_def sum_list_distinct_conv_sum_set)
  finally have "unat (quorum_stake_threshold (word_sum w) ?k ?n) \<le> stake_of w (set ?S)" using need by (simp add: word_le_nat_alt)
  then have "?n * unat (quorum_stake_threshold (word_sum w) ?k ?n) \<le> ?n * stake_of w (set ?S)" by (rule mult_le_mono2)
  moreover have "unat (word_sum w) * ?k \<le> ?n * unat (quorum_stake_threshold (word_sum w) ?k ?n)"
    using stake_threshold_share [of "word_sum w" ?k ?n] fits nz k \<open>?n \<noteq> 0\<close> by (simp add: total)
  ultimately have "unat (word_sum w) * ?k \<le> ?n * stake_of w (set ?S)" by (rule order_trans [rotated])
  then show ?thesis
    using d(2) len stake_universe [OF len small] total
    by (simp add: stakeq.heavy_def stake_of_def mult.commute)
qed

section \<open>Evidence\<close>

lemma is_ok_unit: "is_ok r \<longleftrightarrow> r = Inr ()" for r :: "'e + unit"
  by (cases r) simp_all

lemma position_nth: "distinct (map f xs) \<Longrightarrow> i < length xs \<Longrightarrow> position (\<lambda>x. f x = f (xs ! i)) xs = Some i"
proof (induction xs arbitrary: i)
  case (Cons x xs)
  then show ?case by (cases i) auto
qed simp

lemma offender_of_fingerprint:
  assumes "distinct (map ve_fingerprint vs)" and "unat i < length vs"
    and "declared_offender_fingerprint e = ve_fingerprint (vs ! unat i)"
  shows "offender_index e vs = Inr i"
  using position_nth [OF assms(1,2)] assms(3) by (simp add: offender_index_def)

lemma conflicting_qcs_accepted:
  assumes ver: "wire_verify_formed_qc (wx_bls X) a vs w = Inr ()" "wire_verify_formed_qc (wx_bls X) b vs w = Inr ()"
    and same: "qc_view (fq_qc a) = qc_view (fq_qc b)" "qc_block_height (fq_qc a) = qc_block_height (fq_qc b)"
    and differ: "qc_block_header_hash (fq_qc a) \<noteq> qc_block_header_hash (fq_qc b)"
    and i: "i \<in> set (fq_signer_indices a)" "i \<in> set (fq_signer_indices b)"
    and fps: "distinct (map ve_fingerprint vs)" and enc: "\<And>e. wx_borsh_evidence X e \<noteq> None"
  shows "\<exists>h. verify_consensus_misbehavior_evidence X (ConflictingQc (ve_fingerprint (vs ! unat i)) a b) vs w (ve_fingerprint (vs ! unat i)) = Inr h"
proof -
  have "unat i < length vs" using wire_verified_signers(2) [OF ver(1)] i(1) by (simp add: list_all_iff)
  then have "offender_index (ConflictingQc (ve_fingerprint (vs ! unat i)) a b) vs = Inr i"
    by (intro offender_of_fingerprint [OF fps]) simp_all
  moreover obtain bs where "wx_borsh_evidence X (ConflictingQc (ve_fingerprint (vs ! unat i)) a b) = Some bs" using enc by blast
  ultimately show ?thesis
    using ver same differ i by (simp add: verify_consensus_misbehavior_evidence_def misbehavior_evidence_hash_def)
qed

section \<open>The timeout pool\<close>

definition timeout_valid :: "'sk wire_ext \<Rightarrow> validator_set \<Rightarrow> timeout \<Rightarrow> bool" where
  "timeout_valid X vs t \<longleftrightarrow> unat (to_validator_index t) < length vs \<and>
     vx_verify (wx_bls X) (to_signature t) (wx_borsh_timeout_body X (timeout_body t))
       (ve_bls_pubkey (vs ! unat (to_validator_index t)))"

definition tslot_ok :: "'sk wire_ext \<Rightarrow> validator_set \<Rightarrow> u64 \<times> hash256 \<Rightarrow> timeout_slot \<Rightarrow> bool" where
  "tslot_ok X vs key slot \<longleftrightarrow> bt_ok slot \<and>
     (\<forall>(i, t) \<in> set slot. to_validator_index t = i \<and> to_view t = fst key
        \<and> hash_qc (wx_bls X) (to_high_qc t) = Some (snd key) \<and> timeout_valid X vs t)"

definition tp_ok :: "'sk wire_ext \<Rightarrow> validator_set \<Rightarrow> timeout_pool \<Rightarrow> bool" where
  "tp_ok X vs pool \<longleftrightarrow> bt_ok pool \<and> (\<forall>(key, slot) \<in> set pool. tslot_ok X vs key slot)"

datatype timeout_op = Record_Timeout timeout | Prune_View u64 | Prune_Views_Before u64

fun timeout_step :: "'sk wire_ext \<Rightarrow> validator_set \<Rightarrow> timeout_pool \<Rightarrow> timeout_op \<Rightarrow> timeout_pool" where
  "timeout_step X vs pool (Record_Timeout t) = fst (tp_record X pool t vs)"
| "timeout_step X vs pool (Prune_View v) = prune_view pool v"
| "timeout_step X vs pool (Prune_Views_Before v) = prune_views_before pool v"

definition timeout_run :: "'sk wire_ext \<Rightarrow> validator_set \<Rightarrow> timeout_op list \<Rightarrow> timeout_pool" where
  "timeout_run X vs ops = foldl (timeout_step X vs) [] ops"

lemma tslot_get:
  assumes "tp_ok X vs pool" shows "tslot_ok X vs key (unwrap_or (bt_get pool key) [])"
proof (cases "bt_get pool key")
  case None
  then show ?thesis by (simp add: tslot_ok_def)
next
  case (Some slot)
  then have "(key, slot) \<in> set pool" by (rule map_of_SomeD)
  then show ?thesis using assms Some by (auto simp: tp_ok_def)
qed

lemma tslot_insert:
  assumes "tslot_ok X vs key slot" and "timeout_valid X vs t" "to_view t = fst key" "hash_qc (wx_bls X) (to_high_qc t) = Some (snd key)"
  shows "tslot_ok X vs key (bt_insert (to_validator_index t) t slot)"
proof -
  have ok: "bt_ok slot" using assms(1) by (simp add: tslot_ok_def)
  show ?thesis
    using assms bt_insert_ok [OF ok] bt.entries_put [OF ok] by (auto simp: tslot_ok_def split: if_splits)
qed

lemma tp_insert:
  assumes "tp_ok X vs pool" and "tslot_ok X vs key slot"
  shows "tp_ok X vs (bt_insert key slot pool)"
proof -
  have ok: "bt_ok pool" using assms(1) by (simp add: tp_ok_def)
  have "tslot_ok X vs k s" if "(k, s) \<in> set (bt_insert key slot pool)" for k s
    using that assms unfolding bt.entries_put [OF ok] by (cases "k = key") (auto simp: tp_ok_def)
  then show ?thesis using bt_insert_ok [OF ok] by (auto simp: tp_ok_def)
qed

lemma tp_record_ok: "tp_ok X vs pool \<Longrightarrow> tp_ok X vs (fst (tp_record X pool t vs))"
proof (cases "timeout_valid X vs t \<and> hash_qc (wx_bls X) (to_high_qc t) \<noteq> None")
  case True
  then obtain h where h: "timeout_valid X vs t" "hash_qc (wx_bls X) (to_high_qc t) = Some h" by auto
  assume ok: "tp_ok X vs pool"
  show ?thesis
    using h tp_insert [OF ok tslot_get [OF ok]] tp_insert [OF ok tslot_insert [OF tslot_get [OF ok] h(1), of "(to_view t, h)"]]
    by (auto simp: tp_record_def timeout_valid_def timeout_verify_def set_bls_pubkey_def Let_def)
qed (auto simp: tp_record_def timeout_valid_def timeout_verify_def set_bls_pubkey_def split: if_splits option.splits)

lemma timeout_run_ok: "tp_ok X vs (timeout_run X vs ops)"
proof -
  have step: "tp_ok X vs pool \<Longrightarrow> tp_ok X vs (timeout_step X vs pool op)" for pool op
  proof (cases op)
    case (Record_Timeout t)
    then show "tp_ok X vs pool \<Longrightarrow> ?thesis" by (simp add: tp_record_ok)
  qed (auto simp: tp_ok_def prune_view_def prune_views_before_def bt_ok_filter)
  have "tp_ok X vs pool \<Longrightarrow> tp_ok X vs (foldl (timeout_step X vs) pool ops)" for pool
    by (induction ops arbitrary: pool) (simp_all add: step)
  from this [of "[]"] show ?thesis by (simp add: timeout_run_def tp_ok_def)
qed

lemma collect_timeout_pubkeys_iff:
  "collect_timeout_pubkeys vs seen idxs = Inr pks \<longleftrightarrow>
     distinct idxs \<and> set idxs \<inter> seen = {} \<and> list_all (\<lambda>i. unat i < length vs) idxs \<and>
     pks = map (\<lambda>i. ve_bls_pubkey (vs ! unat i)) idxs"
  by (induction vs seen idxs arbitrary: pks rule: collect_timeout_pubkeys.induct)
     (auto simp: set_bls_pubkey_def split: sum.splits, blast)

text \<open>A slot that has the quorum and one common certificate forms a certificate that verifies.\<close>

text \<open>
  \<open>AggregateSignature::from_signatures\<close> fails on an empty list and on a signature that does not
  decode to a point of the group; a signature that verifies does.
\<close>

definition bls_verified_aggregates :: "'sk bls_ext \<Rightarrow> bool" where
  "bls_verified_aggregates B \<longleftrightarrow>
     (\<forall>sigs. sigs \<noteq> [] \<and> (\<forall>sig \<in> set sigs. \<exists>msg pk. vx_verify B sig msg pk) \<longrightarrow> vx_aggregate B sigs \<noteq> None)"

lemma quorum_slot_forms:
  assumes bls: "bls_aggregation_sound (wx_bls X)" and total: "bls_verified_aggregates (wx_bls X)"
    and slot: "tslot_ok X vs (view, h) slot" "bt_get pool (view, h) = Some slot" "quorum_threshold vs \<le> length slot"
    and common: "\<forall>t \<in> set (bt_values slot). to_high_qc t = qc"
  shows "\<exists>f. try_form_timeout_cert X pool view h vs = Some f \<and> verify_formed_timeout_cert X f vs = Inr () \<and> tc_high_qc f = qc"
proof -
  have ne: "slot \<noteq> []" using slot(3) quorum_threshold_pos [of vs] by auto
  then obtain x xs where x: "slot = x # xs" by (cases slot) auto
  have "\<exists>msg pk. vx_verify (wx_bls X) (to_signature t) msg pk" if "t \<in> set (bt_values slot)" for t
    using slot(1) that by (fastforce simp: tslot_ok_def timeout_valid_def)
  then have "vx_aggregate (wx_bls X) (map to_signature (bt_values slot)) \<noteq> None"
    using total ne unfolding bls_verified_aggregates_def by simp
  then obtain agg where agg: "vx_aggregate (wx_bls X) (map to_signature (bt_values slot)) = Some agg" by blast
  let ?f = "\<lparr>tc_view = view, tc_high_qc = qc, tc_aggregate_sig = agg, tc_signer_indices = map fst slot\<rparr>"
  have "to_high_qc (snd x) = qc" "\<not> list_ex (\<lambda>t. to_high_qc t \<noteq> qc) (map snd xs)"
    using common by (auto simp: x list_ex_iff)
  then have formed: "try_form_timeout_cert X pool view h vs = Some ?f"
    using slot(2,3) agg by (simp add: try_form_timeout_cert_def x)
  have sigs: "list_all2 (\<lambda>sig pk. vx_verify (wx_bls X) sig (wx_borsh_timeout_body X \<lparr>tb_view = view, tb_high_qc = qc\<rparr>) pk)
      (map to_signature (bt_values slot)) (map (\<lambda>i. ve_bls_pubkey (vs ! unat i)) (map fst slot))"
  proof -
    have "vx_verify (wx_bls X) (to_signature t) (wx_borsh_timeout_body X \<lparr>tb_view = view, tb_high_qc = qc\<rparr>) (ve_bls_pubkey (vs ! unat i))"
      if it: "(i, t) \<in> set slot" for i t
    proof -
      have "to_validator_index t = i" "to_view t = view" "timeout_valid X vs t"
        using slot(1) it by (auto simp: tslot_ok_def)
      moreover have "to_high_qc t = qc" using common it by force
      ultimately show ?thesis by (auto simp: timeout_valid_def timeout_body_def)
    qed
    then show ?thesis by (auto simp: list_all2_conv_all_nth)
  qed
  have "collect_timeout_pubkeys vs {} (map fst slot) = Inr (map (\<lambda>i. ve_bls_pubkey (vs ! unat i)) (map fst slot))"
    using slot(1) bt.entries_distinct [of slot] by (auto simp: collect_timeout_pubkeys_iff tslot_ok_def timeout_valid_def list_all_iff)
  moreover have "vx_aggregate_verify (wx_bls X) agg (wx_borsh_timeout_body X \<lparr>tb_view = view, tb_high_qc = qc\<rparr>)
      (map (\<lambda>i. ve_bls_pubkey (vs ! unat i)) (map fst slot))"
    using bls agg sigs unfolding bls_aggregation_sound_def by blast
  ultimately have "verify_formed_timeout_cert X ?f vs = Inr ()" using slot(3) by (simp add: verify_formed_timeout_cert_def)
  then show ?thesis using formed by simp
qed

text \<open>The best of the candidates of a list, by a key.\<close>

definition best_step :: "('a \<Rightarrow> 'b option) \<Rightarrow> ('b \<Rightarrow> 'k::linorder) \<Rightarrow> 'b option \<Rightarrow> 'a \<Rightarrow> 'b option" where
  "best_step cand key best x =
     (case cand x of
        None \<Rightarrow> best
      | Some y \<Rightarrow> (case best of None \<Rightarrow> Some y | Some b \<Rightarrow> if key b < key y then Some y else Some b))"

definition best_timeout_so_far :: "('a \<Rightarrow> 'b option) \<Rightarrow> ('b \<Rightarrow> 'k::linorder) \<Rightarrow> 'a set \<Rightarrow> 'b option \<Rightarrow> bool" where
  "best_timeout_so_far cand key A r \<longleftrightarrow>
     (case r of
        None \<Rightarrow> \<forall>x \<in> A. cand x = None
      | Some b \<Rightarrow> (\<exists>x \<in> A. cand x = Some b) \<and> (\<forall>x \<in> A. \<forall>y. cand x = Some y \<longrightarrow> key y \<le> key b))"

lemma best_step_extends: "best_timeout_so_far cand key A r \<Longrightarrow> best_timeout_so_far cand key (insert x A) (best_step cand key r x)"
  by (cases r; cases "cand x") (fastforce simp: best_timeout_so_far_def best_step_def not_less)+

lemma best_step_fold: "best_timeout_so_far cand key (set xs) (foldl (best_step cand key) None xs)"
proof (induction xs rule: rev_induct)
  case (snoc x xs)
  from best_step_extends [OF this, of x] show ?case by simp
qed (simp add: best_timeout_so_far_def)

lemma lex_fst_le: "p \<le> q \<Longrightarrow> fst p \<le> fst q" for p q :: "'a::order \<times> 'b::order"
  by (auto simp: less_eq_prod_def)

definition cert_of :: "'sk wire_ext \<Rightarrow> timeout_pool \<Rightarrow> u64 \<Rightarrow> validator_set \<Rightarrow> (u64 \<times> hash256) \<times> timeout_slot \<Rightarrow> (formed_timeout_cert \<times> hash256) option" where
  "cert_of X pool view vs entry =
     (case entry of ((v, h), slot) \<Rightarrow>
        if v \<noteq> view \<or> length slot < quorum_threshold vs then None
        else (case try_form_timeout_cert X pool view h vs of
          None \<Rightarrow> None
        | Some f \<Rightarrow> if is_ok (verify_formed_timeout_cert X f vs) then Some (f, h) else None))"

lemma better_cert_step:
  "better_cert X pool view vs = best_step (cert_of X pool view vs) (\<lambda>(f, h). (high_qc_rank (tc_high_qc f), h))"
  by (intro ext)
    (auto simp: better_cert_def best_step_def cert_of_def Let_def less_prod_def' split: option.splits prod.splits)

lemma cert_of_formed:
  assumes "tp_ok X vs pool" and "try_form_timeout_cert X pool view h vs = Some f" and "verify_formed_timeout_cert X f vs = Inr ()"
  shows "\<exists>slot. ((view, h), slot) \<in> set pool \<and> cert_of X pool view vs ((view, h), slot) = Some (f, h)"
proof -
  obtain slot where "bt_get pool (view, h) = Some slot" "\<not> length slot < quorum_threshold vs"
    using assms(2) by (auto simp: try_form_timeout_cert_def split: option.splits if_splits)
  then show ?thesis using assms by (intro exI [of _ slot]) (auto simp: cert_of_def dest: map_of_SomeD)
qed

section \<open>Properties\<close>

text \<open>
  C7.  Conflicting certificates cost more than a third of the stake in a set of \<open>3 f + 1\<close>
  validators: when two certificates for one view and height and different headers pass the
  stake-weighted check of such a set, its total stake being positive and small enough that the
  threshold does not saturate, the validators that signed both hold more than a third of the total
  stake, and the evidence made of the two certificates is accepted against every one of them, given
  distinct fingerprints and an encoder that accepts the evidence.  For other sizes the count is
  lower: 21 validators have the threshold 13, and two quorums may share five.
\<close>

theorem conflicting_qcs_cost_third_of_stake:
  assumes n: "length vs = 3 * f + 1" "length vs \<le> 2 ^ 32"
    and ver: "wire_verify_formed_qc (wx_bls X) a vs (Some w) = Inr ()" "wire_verify_formed_qc (wx_bls X) b vs (Some w) = Inr ()"
    and conflict: "qc_view (fq_qc a) = qc_view (fq_qc b)" "qc_block_height (fq_qc a) = qc_block_height (fq_qc b)"
      "qc_block_header_hash (fq_qc a) \<noteq> qc_block_header_hash (fq_qc b)"
    and stake: "0 < sum_list (map unat w)" "sum_list (map unat w) * quorum_threshold vs + length vs < 2 ^ 128"
    and fps: "distinct (map ve_fingerprint vs)" and enc: "\<And>e. wx_borsh_evidence X e \<noteq> None"
  shows "sum_list (map unat w) < 3 * stake_of w (set (fq_signer_indices a) \<inter> set (fq_signer_indices b))
    \<and> list_all (\<lambda>i. i \<in> set (fq_signer_indices b) \<longrightarrow>
         is_ok (verify_consensus_misbehavior_evidence X (ConflictingQc (ve_fingerprint (vs ! unat i)) a b) vs (Some w)
           (ve_fingerprint (vs ! unat i)))) (fq_signer_indices a)"
proof
  let ?I = "set (fq_signer_indices a) \<inter> set (fq_signer_indices b)" and ?T = "sum_list (map unat w)"
  have h: "stakeq.heavy vs w (set (fq_signer_indices a))" "stakeq.heavy vs w (set (fq_signer_indices b))" "length w = length vs"
    using wire_verified_heavy [OF ver(1) stake(2,1) n(2)] wire_verified_heavy [OF ver(2) stake(2,1) n(2)] by auto
  have k: "quorum_threshold vs = 2 * f + 1" by (simp add: quorum_threshold_def n(1))
  have "2 * (2 * f + 1) * ?T \<le> (3 * f + 1) * (stake_of w ?I + ?T)"
    using stakeq.heavy_intersection [OF h(1,2)] stake_universe [OF h(3) n(2)] by (simp only: k n(1) stake_of_def)
  then have "(f + 1) * ?T \<le> (3 * f + 1) * stake_of w ?I" by (simp add: algebra_simps)
  moreover have "(3 * f + 1) * ?T < 3 * ((f + 1) * ?T)" using stake(1) by (simp add: algebra_simps)
  ultimately have "(3 * f + 1) * ?T < (3 * f + 1) * (3 * stake_of w ?I)" by (simp add: algebra_simps)
  then show "?T < 3 * stake_of w ?I" by (simp only: nat_mult_less_cancel1)
next
  show "list_all (\<lambda>i. i \<in> set (fq_signer_indices b) \<longrightarrow>
       is_ok (verify_consensus_misbehavior_evidence X (ConflictingQc (ve_fingerprint (vs ! unat i)) a b) vs (Some w)
         (ve_fingerprint (vs ! unat i)))) (fq_signer_indices a)"
    unfolding list_all_iff using conflicting_qcs_accepted [OF ver conflict _ _ fps enc] by fastforce
qed

text \<open>
  C8.  An honest validator is never slashed: when every signature and every aggregate that verifies
  under its key covers a message it has signed, and it has signed at most one vote for a view and
  height and at most one timeout for a view, no evidence against it is accepted.
\<close>

theorem honest_validator_never_slashed:
  fixes i :: u32
  assumes i: "unat i < length vs" and fps: "distinct (map ve_fingerprint vs)"
    and unforgeable: "\<And>sig msg. vx_verify (wx_bls X) sig msg (ve_bls_pubkey (vs ! unat i)) \<Longrightarrow> msg \<in> S"
    and unforgeable_agg: "\<And>agg msg pks. vx_aggregate_verify (wx_bls X) agg msg pks \<Longrightarrow> ve_bls_pubkey (vs ! unat i) \<in> set pks \<Longrightarrow> msg \<in> S"
    and votes_once: "\<And>b c. vx_borsh_vote_body (wx_bls X) b \<in> S \<Longrightarrow> vx_borsh_vote_body (wx_bls X) c \<in> S \<Longrightarrow>
        vb_view b = vb_view c \<Longrightarrow> vb_height b = vb_height c \<Longrightarrow> vb_header_hash b = vb_header_hash c"
    and timeouts_once: "\<And>b c. wx_borsh_timeout_body X b \<in> S \<Longrightarrow> wx_borsh_timeout_body X c \<in> S \<Longrightarrow>
        tb_view b = tb_view c \<Longrightarrow> tb_high_qc b = tb_high_qc c"
  shows "\<not> is_ok (verify_consensus_misbehavior_evidence X e vs w (ve_fingerprint (vs ! unat i)))"
proof
  assume ok: "is_ok (verify_consensus_misbehavior_evidence X e vs w (ve_fingerprint (vs ! unat i)))"
  then have fp: "declared_offender_fingerprint e = ve_fingerprint (vs ! unat i)"
    by (auto simp: verify_consensus_misbehavior_evidence_def split: if_splits)
  have idx: "offender_index e vs = Inr i" by (rule offender_of_fingerprint [OF fps i fp])
  have chk: "check_evidence X e i vs w = Inr ()"
    using ok by (auto simp: verify_consensus_misbehavior_evidence_def idx fp split: sum.splits)
  show False
  proof (cases e)
    case (DoubleVote p a b)
    then have "vx_borsh_vote_body (wx_bls X) (vote_body a) \<in> S" "vx_borsh_vote_body (wx_bls X) (vote_body b) \<in> S"
      using chk unforgeable
      by (auto simp: wire_verify_against_validator_set_def wire_vote_verify_def set_bls_pubkey_def split: if_splits)
    from votes_once [OF this] show False using chk DoubleVote by (auto simp: vote_body_def split: if_splits)
  next
    case (ConflictingQc p a b)
    have signed: "vx_borsh_vote_body (wx_bls X) \<lparr>vb_view = qc_view (fq_qc q), vb_height = qc_block_height (fq_qc q),
        vb_header_hash = qc_block_header_hash (fq_qc q)\<rparr> \<in> S"
      if "wire_verify_formed_qc (wx_bls X) q vs w = Inr ()" "i \<in> set (fq_signer_indices q)" for q
      using unforgeable_agg [OF wire_verified_signers(3) [OF that(1)]] that(2) by auto
    show False
      using votes_once [OF signed [of a] signed [of b]] chk ConflictingQc
      by (auto simp: is_ok_unit split: if_splits)
  next
    case (TimeoutEquivocation p a b)
    then have "wx_borsh_timeout_body X (timeout_body a) \<in> S" "wx_borsh_timeout_body X (timeout_body b) \<in> S"
      using chk unforgeable
      by (auto simp: timeout_verify_against_validator_set_def timeout_verify_def set_bls_pubkey_def split: if_splits)
    from timeouts_once [OF this] show False using chk TimeoutEquivocation by (auto simp: timeout_body_def split: if_splits)
  qed
qed

text \<open>
  C19.  A view that a quorum has timed out of can be left: when a quorum of validators has timed out
  in a view on the same certificate, a timeout certificate is formed and verifies; it carries a
  certificate of the highest rank among all that verify for the view, so at least that of the
  quorum.  Without a verifying certificate none is returned.  The BLS library is assumed to
  aggregate every non-empty list of signatures each of which verifies (the pool holds no others),
  and the aggregate of signatures of one message to verify under their keys.
\<close>

theorem best_timeout_certificate:
  assumes bls: "bls_aggregation_sound (wx_bls X)" and total: "bls_verified_aggregates (wx_bls X)"
    and pool: "pool = timeout_run X vs ops"
  shows "(bt_get pool (view, h) = Some slot \<and> quorum_threshold vs \<le> length slot \<and> list_all (\<lambda>t. to_high_qc t = qc) (bt_values slot) \<longrightarrow>
      (\<exists>f. try_form_best_timeout_cert_for_view X pool view vs = Some f \<and> high_qc_rank qc \<le> high_qc_rank (tc_high_qc f)))
    \<and> (\<forall>f. try_form_best_timeout_cert_for_view X pool view vs = Some f \<longrightarrow>
        verify_formed_timeout_cert X f vs = Inr () \<and>
        (\<forall>h' g. try_form_timeout_cert X pool view h' vs = Some g \<and> verify_formed_timeout_cert X g vs = Inr () \<longrightarrow>
           high_qc_rank (tc_high_qc g) \<le> high_qc_rank (tc_high_qc f)))"
proof -
  let ?cand = "cert_of X pool view vs" and ?key = "\<lambda>(f, h). (high_qc_rank (tc_high_qc f), h)"
  let ?best = "foldl (best_step ?cand ?key) None pool"
  have ok: "tp_ok X vs pool" unfolding pool by (rule timeout_run_ok)
  have best: "try_form_best_timeout_cert_for_view X pool view vs = map_option fst ?best"
    by (simp add: try_form_best_timeout_cert_for_view_def better_cert_step)
  have none: "?best = None \<longleftrightarrow> (\<forall>x \<in> set pool. ?cand x = None)"
    and some: "\<And>b. ?best = Some b \<Longrightarrow> (\<exists>x \<in> set pool. ?cand x = Some b) \<and> (\<forall>x \<in> set pool. \<forall>y. ?cand x = Some y \<longrightarrow> ?key y \<le> ?key b)"
    using best_step_fold [of ?cand ?key pool] by (auto simp: best_timeout_so_far_def split: option.splits)
  have above: "?best \<noteq> None \<and> (\<forall>b. ?best = Some b \<longrightarrow> high_qc_rank (tc_high_qc g) \<le> high_qc_rank (tc_high_qc (fst b)))"
    if g: "try_form_timeout_cert X pool view h' vs = Some g" "verify_formed_timeout_cert X g vs = Inr ()" for h' g
  proof -
    obtain x where x: "x \<in> set pool" "?cand x = Some (g, h')" using cert_of_formed [OF ok g] by blast
    have "?best \<noteq> None" using none x by auto
    moreover have "high_qc_rank (tc_high_qc g) \<le> high_qc_rank (tc_high_qc (fst b))" if "?best = Some b" for b
    proof -
      have "?key (g, h') \<le> ?key b" using some [OF that] x by blast
      from lex_fst_le [OF this] show ?thesis by (simp add: split_beta)
    qed
    ultimately show ?thesis by blast
  qed
  have first: "\<exists>f. try_form_best_timeout_cert_for_view X pool view vs = Some f \<and> high_qc_rank qc \<le> high_qc_rank (tc_high_qc f)"
    if sl: "bt_get pool (view, h) = Some slot" "quorum_threshold vs \<le> length slot" "list_all (\<lambda>t. to_high_qc t = qc) (bt_values slot)"
  proof -
    have "tslot_ok X vs (view, h) slot" using tslot_get [OF ok, of "(view, h)"] sl(1) by simp
    then obtain g where "try_form_timeout_cert X pool view h vs = Some g" "verify_formed_timeout_cert X g vs = Inr ()" "tc_high_qc g = qc"
      using quorum_slot_forms [OF bls total _ sl(1,2)] sl(3) by (auto simp: list_all_iff)
    then show ?thesis using above [of h g] by (auto simp: best)
  qed
  have "verify_formed_timeout_cert X f vs = Inr ()" if f: "try_form_best_timeout_cert_for_view X pool view vs = Some f" for f
  proof -
    obtain h' x where "?cand x = Some (f, h')" using f some by (auto simp: best)
    then show ?thesis by (auto simp: cert_of_def is_ok_unit split: if_splits option.splits prod.splits)
  qed
  then show ?thesis using first above best by fastforce
qed

section \<open>Samples\<close>

definition sample_wire :: "8 word wire_ext" where
  "sample_wire = \<lparr>wx_bls = sample_bls,
     wx_borsh_timeout_body = (\<lambda>b. [ucast (tb_view b), ucast (qc_view (tb_high_qc b)), ucast (qc_block_height (tb_high_qc b))]),
     wx_borsh_evidence = (\<lambda>e. Some [ucast (declared_offender_fingerprint e)])\<rparr>"

definition wire_set :: validator_set where
  "wire_set = map (\<lambda>i. \<lparr>ve_fingerprint = of_nat (10 + i), ve_bls_pubkey = of_nat i\<rparr>) [0..<4]"

definition wire_qc :: "hash256 \<Rightarrow> u32 list \<Rightarrow> formed_qc" where
  "wire_qc h idxs = \<lparr>fq_qc = \<lparr>qc_view = 3, qc_block_height = 10, qc_block_header_hash = h,
       qc_aggregate_sig = sum_list (map (\<lambda>i. sample_sig (ucast i) (vx_borsh_vote_body sample_bls \<lparr>vb_view = 3, vb_height = 10, vb_header_hash = h\<rparr>)) idxs)\<rparr>,
     fq_signer_indices = idxs\<rparr>"

lemma wire_qcs_verify:
  "wire_verify_formed_qc (wx_bls sample_wire) (wire_qc 7 [0, 1, 2]) wire_set (Some [5, 4, 6, 3]) = Inr ()"
  "wire_verify_formed_qc (wx_bls sample_wire) (wire_qc 8 [0, 2, 3]) wire_set (Some [5, 4, 6, 3]) = Inr ()"
  by code_simp+

theorem conflicting_qcs_cost_third_of_stake_witness:
  "sum_list (map unat [5, 4, 6, 3 :: u128]) < 3 * stake_of [5, 4, 6, 3] ({0, 1, 2} \<inter> {0, 2, 3})
   \<and> is_ok (verify_consensus_misbehavior_evidence sample_wire (ConflictingQc 12 (wire_qc 7 [0, 1, 2]) (wire_qc 8 [0, 2, 3]))
        wire_set (Some [5, 4, 6, 3]) 12)"
  using conflicting_qcs_cost_third_of_stake [of wire_set 1 sample_wire "wire_qc 7 [0, 1, 2]" "[5, 4, 6, 3]" "wire_qc 8 [0, 2, 3]"] wire_qcs_verify
  by (simp add: wire_qc_def wire_set_def sample_wire_def quorum_threshold_def upt_rec)

text \<open>A validator that signed one vote and one timeout.\<close>

definition once_wire :: "8 word wire_ext" where
  "once_wire = \<lparr>wx_bls = sample_bls\<lparr>
       vx_verify := (\<lambda>sig msg pk. msg = [1] \<or> msg = [2]),
       vx_aggregate_verify := (\<lambda>agg msg pks. msg = [1] \<or> msg = [2]),
       vx_borsh_vote_body := (\<lambda>b. [if b = \<lparr>vb_view = 3, vb_height = 10, vb_header_hash = 7\<rparr> then 1 else 0])\<rparr>,
     wx_borsh_timeout_body = (\<lambda>b. [if b = \<lparr>tb_view = 4, tb_high_qc = genesis_parent_qc\<rparr> then 2 else 0]),
     wx_borsh_evidence = (\<lambda>e. Some [])\<rparr>"

theorem honest_validator_never_slashed_witness:
  "\<not> is_ok (verify_consensus_misbehavior_evidence once_wire (DoubleVote 12
      \<lparr>vt_view = 3, vt_height = 10, vt_header_hash = 7, vt_validator_index = 2, vt_signature = 0\<rparr>
      \<lparr>vt_view = 3, vt_height = 10, vt_header_hash = 8, vt_validator_index = 2, vt_signature = 0\<rparr>) wire_set None 12)"
proof -
  have "ve_fingerprint (wire_set ! unat (2 :: u32)) = 12" by (simp add: wire_set_def upt_rec)
  then show ?thesis
    using honest_validator_never_slashed [where i = 2 and vs = wire_set and X = once_wire and S = "{[1], [2]}"]
    by (fastforce simp: wire_set_def once_wire_def upt_rec split: if_splits)
qed

definition wire_timeout :: "u64 \<Rightarrow> u32 \<Rightarrow> timeout" where
  "wire_timeout h i = timeout_sign sample_wire \<lparr>tb_view = 5, tb_high_qc = genesis_parent_qc\<lparr>qc_view := 4, qc_block_height := h\<rparr>\<rparr> i (ucast i)"

definition wire_timeouts :: timeout_pool where
  "wire_timeouts = timeout_run sample_wire wire_set [Record_Timeout (wire_timeout 9 2), Record_Timeout (wire_timeout 9 0),
     Record_Timeout (wire_timeout 8 1), Record_Timeout (wire_timeout 9 3)]"

lemma wire_timeouts_slot:
  "bt_get wire_timeouts (5, 9) = Some (map (\<lambda>i. (i, wire_timeout 9 i)) [0, 2, 3])"
  by code_simp

theorem best_timeout_certificate_witness:
  "\<exists>f. try_form_best_timeout_cert_for_view sample_wire wire_timeouts 5 wire_set = Some f
     \<and> (9, 4) \<le> high_qc_rank (tc_high_qc f) \<and> verify_formed_timeout_cert sample_wire f wire_set = Inr ()"
proof -
  have "bls_aggregation_sound (wx_bls sample_wire)" using sample_bls_sound by (simp add: sample_wire_def)
  moreover have "bls_verified_aggregates (wx_bls sample_wire)"
    by (simp add: bls_verified_aggregates_def sample_wire_def sample_bls_def)
  ultimately show ?thesis
    using best_timeout_certificate [OF _ _ wire_timeouts_def, of 5 9 "map (\<lambda>i. (i, wire_timeout 9 i)) [0, 2, 3]"
        "genesis_parent_qc\<lparr>qc_view := 4, qc_block_height := 9\<rparr>"] wire_timeouts_slot
    by (auto simp: wire_timeout_def timeout_sign_def high_qc_rank_def quorum_threshold_def wire_set_def)
qed

end
