(* ===== verification/Block_Payload.thy ===== *)
theory Block_Payload
  imports Lane_Pools Block_Build Shard_Routing
begin

text \<open>
  The versioned payload of a block, \<open>crates/consensus/src/payload.rs\<close>, and the view of a block as a
  payload (\<open>lib.rs\<close>): proof updates, certificate batches, commitments to RLVR proofs and mixed items, with the
  leaf hashes and roots that commit to them.

  The Borsh encoders are parameters.  The Merkle tree of the file repeats that of \<open>lib.rs\<close> and is
  the one of \<open>Data_Availability\<close>.

  The properties say what a root binds, and that the check of a batch for repeated object versions is
  exact.
\<close>

section \<open>Items\<close>

record certificate_batch =
  ob_certificates :: "owned_object_certificate list"

datatype rlvr_proof_type_tag = ProofOfRoute | ProofOfEval | ProofOfTraining

fun rlvr_as_str :: "rlvr_proof_type_tag \<Rightarrow> string" where
  "rlvr_as_str ProofOfRoute = ''proof_of_route''"
| "rlvr_as_str ProofOfEval = ''proof_of_eval''"
| "rlvr_as_str ProofOfTraining = ''proof_of_training''"

fun rlvr_tag :: "rlvr_proof_type_tag \<Rightarrow> u8" where
  "rlvr_tag ProofOfRoute = 0"
| "rlvr_tag ProofOfEval = 1"
| "rlvr_tag ProofOfTraining = 2"

definition ascii_lowercase :: "char \<Rightarrow> char" where
  "ascii_lowercase c = (let n = of_char c :: nat in if 65 \<le> n \<and> n \<le> 90 then char_of (n + 32) else c)"

definition rlvr_parse :: "string \<Rightarrow> rlvr_proof_type_tag option" where
  "rlvr_parse raw =
     (let s = map ascii_lowercase (str_trim raw)
      in if s = ''proof_of_route'' \<or> s = ''proof-of-route'' \<or> s = ''route'' then Some ProofOfRoute
         else if s = ''proof_of_eval'' \<or> s = ''proof-of-eval'' \<or> s = ''eval'' then Some ProofOfEval
         else if s = ''proof_of_training'' \<or> s = ''proof-of-training'' \<or> s = ''training'' then Some ProofOfTraining
         else None)"

record rlvr_proof_commitment =
  rp_proof_type :: rlvr_proof_type_tag
  rp_proof_hash :: hash256
  rp_trace_hash :: hash256
  rp_route_policy_hash :: hash256
  rp_reward_policy_hash :: hash256
  rp_model_id_hash :: hash256
  rp_adapter_hash :: hash256
  rp_eval_result_hash :: hash256
  rp_timestamp_unix :: u64

datatype block_payload_item =
    TransactionItem transaction "bytes option"
  | ProofUpdateItem zone_proof_update
  | CertificateBatchItem certificate_batch
  | RlvrProofItem rlvr_proof_commitment

datatype block_payload =
    FullTransactions "transaction list" "bytes option list"
  | ProofUpdates "zone_proof_update list"
  | CertificateBatches "certificate_batch list"
  | Mixed "block_payload_item list"

datatype block_payload_kind = FullTransactionsKind | ProofUpdatesKind | CertificateBatchesKind | MixedKind

fun payload_kind_as_str :: "block_payload_kind \<Rightarrow> string" where
  "payload_kind_as_str FullTransactionsKind = ''full_transactions''"
| "payload_kind_as_str ProofUpdatesKind = ''proof_updates''"
| "payload_kind_as_str CertificateBatchesKind = ''certificate_batches''"
| "payload_kind_as_str MixedKind = ''mixed''"

fun kind_tag :: "block_payload_kind \<Rightarrow> u8" where
  "kind_tag FullTransactionsKind = 0"
| "kind_tag ProofUpdatesKind = 1"
| "kind_tag CertificateBatchesKind = 2"
| "kind_tag MixedKind = 3"

fun payload_kind :: "block_payload \<Rightarrow> block_payload_kind" where
  "payload_kind (FullTransactions _ _) = FullTransactionsKind"
| "payload_kind (ProofUpdates _) = ProofUpdatesKind"
| "payload_kind (CertificateBatches _) = CertificateBatchesKind"
| "payload_kind (Mixed _) = MixedKind"

section \<open>Leaves\<close>

definition PAYLOAD_ROOT_DOMAIN :: bytes where "PAYLOAD_ROOT_DOMAIN = ascii ''fractal:block-payload-root:v1''"
definition PAYLOAD_LEAF_DOMAIN :: bytes where "PAYLOAD_LEAF_DOMAIN = ascii ''fractal:block-payload-leaf:v1''"
definition PROOF_UPDATE_LEAF_DOMAIN :: bytes where "PROOF_UPDATE_LEAF_DOMAIN = ascii ''fractal:proof-update-leaf:v1''"
definition CERTIFICATE_BATCH_LEAF_DOMAIN :: bytes where "CERTIFICATE_BATCH_LEAF_DOMAIN = ascii ''fractal:certificate-batch-leaf:v1''"
definition CERTIFICATE_BATCH_ROOT_DOMAIN :: bytes where "CERTIFICATE_BATCH_ROOT_DOMAIN = ascii ''fractal:certificate-batch-root:v1''"
definition RLVR_PROOF_LEAF_DOMAIN :: bytes where "RLVR_PROOF_LEAF_DOMAIN = ascii ''fractal:rlvr-proof-leaf:v1''"
definition RLVR_PROOFS_ROOT_DOMAIN :: bytes where "RLVR_PROOFS_ROOT_DOMAIN = ascii ''fractal:rlvr-proofs-root:v1''"
definition RLVR_PROOFS_ROOT_TAG :: u8 where "RLVR_PROOFS_ROOT_TAG = 4"

record proof_update_root_leaf =
  pl_zone_id :: u64
  pl_parent_root :: hash256
  pl_new_root :: hash256
  pl_da_root :: hash256
  pl_message_root :: hash256
  pl_forced_inclusion_root :: hash256
  pl_circuit_version :: circuit_version
  pl_proof_digest :: hash256

record certificate_batch_leaf =
  cb_certificate_hash :: hash256
  cb_object_versions :: "owned_object_version list"

record rlvr_proof_root_leaf =
  rl_proof_type :: u8
  rl_proof_hash :: hash256
  rl_trace_hash :: hash256
  rl_route_policy_hash :: hash256
  rl_reward_policy_hash :: hash256
  rl_model_id_hash :: hash256
  rl_adapter_hash :: hash256
  rl_eval_result_hash :: hash256
  rl_timestamp_unix :: u64

record 'sk payload_ext =
  py_ledger :: ext
  py_cert :: "'sk cert_ext"
  py_borsh_item :: "block_payload_item \<Rightarrow> bytes option"
  py_borsh_proof_update :: "proof_update_root_leaf \<Rightarrow> bytes option"
  py_borsh_batch_leaf :: "certificate_batch_leaf \<Rightarrow> bytes option"
  py_borsh_rlvr :: "rlvr_proof_root_leaf \<Rightarrow> bytes option"

abbreviation py_keccak :: "'sk payload_ext \<Rightarrow> bytes \<Rightarrow> hash256" where
  "py_keccak P \<equiv> ext_keccak256 (py_ledger P)"

definition proof_update_leaf :: "zone_proof_update \<Rightarrow> proof_update_root_leaf" where
  "proof_update_leaf u = \<lparr>pl_zone_id = zu_zone_id u, pl_parent_root = zu_parent_root u, pl_new_root = zu_new_root u,
     pl_da_root = zu_da_root u, pl_message_root = zu_message_root u, pl_forced_inclusion_root = zu_forced_inclusion_root u,
     pl_circuit_version = zu_circuit_version u, pl_proof_digest = zu_proof_digest u\<rparr>"

definition proof_update_leaf_hash :: "'sk payload_ext \<Rightarrow> zone_proof_update \<Rightarrow> hash256 option" where
  "proof_update_leaf_hash P u =
     map_option (\<lambda>b. py_keccak P (PROOF_UPDATE_LEAF_DOMAIN @ b)) (py_borsh_proof_update P (proof_update_leaf u))"

text \<open>The versions of the certificates in their order; \<open>True\<close> at the first one that was seen before.\<close>

fun first_repeat :: "owned_object_version set \<Rightarrow> owned_object_version list \<Rightarrow> bool" where
  "first_repeat seen [] = False"
| "first_repeat seen (v # vs) = (v \<in> seen \<or> first_repeat (insert v seen) vs)"

definition certificate_batch_conflicts :: "certificate_batch \<Rightarrow> bool" where
  "certificate_batch_conflicts batch = first_repeat {} (concat (map ct_object_versions (ob_certificates batch)))"

definition certificate_batch_leaf_hash :: "'sk payload_ext \<Rightarrow> owned_object_certificate \<Rightarrow> hash256 option" where
  "certificate_batch_leaf_hash P cert =
     (case certificate_hash (py_ledger P) (py_cert P) cert of
        Inl _ \<Rightarrow> None
      | Inr h \<Rightarrow> map_option (\<lambda>b. py_keccak P (CERTIFICATE_BATCH_LEAF_DOMAIN @ b))
          (py_borsh_batch_leaf P \<lparr>cb_certificate_hash = h, cb_object_versions = ct_object_versions cert\<rparr>))"

definition certificate_batch_root :: "'sk payload_ext \<Rightarrow> certificate_batch \<Rightarrow> hash256 option" where
  "certificate_batch_root P batch =
     (if certificate_batch_conflicts batch then None
      else map_option (\<lambda>leaves. py_keccak P (CERTIFICATE_BATCH_ROOT_DOMAIN @ be_bytes 32 (merkle_root_from_hashes (py_keccak P) leaves)))
        (those (map (certificate_batch_leaf_hash P) (ob_certificates batch))))"

definition rlvr_leaf :: "rlvr_proof_commitment \<Rightarrow> rlvr_proof_root_leaf" where
  "rlvr_leaf c = \<lparr>rl_proof_type = rlvr_tag (rp_proof_type c), rl_proof_hash = rp_proof_hash c, rl_trace_hash = rp_trace_hash c,
     rl_route_policy_hash = rp_route_policy_hash c, rl_reward_policy_hash = rp_reward_policy_hash c, rl_model_id_hash = rp_model_id_hash c,
     rl_adapter_hash = rp_adapter_hash c, rl_eval_result_hash = rp_eval_result_hash c, rl_timestamp_unix = rp_timestamp_unix c\<rparr>"

definition rlvr_proof_leaf_hash :: "'sk payload_ext \<Rightarrow> rlvr_proof_commitment \<Rightarrow> hash256 option" where
  "rlvr_proof_leaf_hash P c = map_option (\<lambda>b. py_keccak P (RLVR_PROOF_LEAF_DOMAIN @ b)) (py_borsh_rlvr P (rlvr_leaf c))"

fun payload_leaf_hash :: "'sk payload_ext \<Rightarrow> block_payload_item \<Rightarrow> hash256 option" where
  "payload_leaf_hash P (CertificateBatchItem batch) =
     map_option (\<lambda>root. py_keccak P (PAYLOAD_LEAF_DOMAIN @ ascii ''certificate_batch'' @ be_bytes 32 root)) (certificate_batch_root P batch)"
| "payload_leaf_hash P (RlvrProofItem c) = rlvr_proof_leaf_hash P c"
| "payload_leaf_hash P (TransactionItem tx raw) =
     map_option (\<lambda>b. py_keccak P (PAYLOAD_LEAF_DOMAIN @ b)) (py_borsh_item P (TransactionItem tx raw))"
| "payload_leaf_hash P (ProofUpdateItem u) =
     map_option (\<lambda>b. py_keccak P (PAYLOAD_LEAF_DOMAIN @ b)) (py_borsh_item P (ProofUpdateItem u))"

section \<open>Roots\<close>

definition versioned_payload_root :: "'sk payload_ext \<Rightarrow> block_payload_kind \<Rightarrow> hash256 list \<Rightarrow> hash256" where
  "versioned_payload_root P kind leaves =
     py_keccak P (PAYLOAD_ROOT_DOMAIN @ [kind_tag kind] @ be_bytes 32 (merkle_root_from_hashes (py_keccak P) leaves))"

definition proof_updates_root :: "'sk payload_ext \<Rightarrow> zone_proof_update list \<Rightarrow> hash256 option" where
  "proof_updates_root P updates =
     map_option (versioned_payload_root P ProofUpdatesKind) (those (map (proof_update_leaf_hash P) updates))"

definition certificate_batches_root :: "'sk payload_ext \<Rightarrow> certificate_batch list \<Rightarrow> hash256 option" where
  "certificate_batches_root P bs =
     map_option (versioned_payload_root P CertificateBatchesKind) (those (map (certificate_batch_root P) bs))"

definition rlvr_proofs_root :: "'sk payload_ext \<Rightarrow> rlvr_proof_commitment list \<Rightarrow> hash256 option" where
  "rlvr_proofs_root P commitments =
     map_option (\<lambda>leaves. py_keccak P (RLVR_PROOFS_ROOT_DOMAIN @ [RLVR_PROOFS_ROOT_TAG]
       @ be_bytes 32 (merkle_root_from_hashes (py_keccak P) leaves)))
       (those (map (rlvr_proof_leaf_hash P) commitments))"

definition raw_at :: "bytes option list \<Rightarrow> nat \<Rightarrow> bytes option" where
  "raw_at raws i = (if i < length raws then raws ! i else None)"

fun payload_root :: "'sk payload_ext \<Rightarrow> block_payload \<Rightarrow> hash256 option" where
  "payload_root P (FullTransactions txs raws) =
     map_option (versioned_payload_root P FullTransactionsKind)
       (those (map (\<lambda>(i, tx). payload_leaf_hash P (TransactionItem tx (raw_at raws i))) (List.enumerate 0 txs)))"
| "payload_root P (ProofUpdates updates) = proof_updates_root P updates"
| "payload_root P (CertificateBatches bs) = certificate_batches_root P bs"
| "payload_root P (Mixed items) =
     map_option (versioned_payload_root P MixedKind) (those (map (payload_leaf_hash P) items))"

definition block_payload_of :: "block \<Rightarrow> block_payload" where
  "block_payload_of b = FullTransactions (bk_transactions b) (bk_eth_signed_raw b)"

definition block_payload_kind_of :: "block \<Rightarrow> block_payload_kind" where
  "block_payload_kind_of b = payload_kind (block_payload_of b)"

section \<open>What a root binds\<close>

fun payload_leaves :: "'sk payload_ext \<Rightarrow> block_payload \<Rightarrow> hash256 list option" where
  "payload_leaves P (FullTransactions txs raws) =
     those (map (\<lambda>(i, tx). payload_leaf_hash P (TransactionItem tx (raw_at raws i))) (List.enumerate 0 txs))"
| "payload_leaves P (ProofUpdates updates) = those (map (proof_update_leaf_hash P) updates)"
| "payload_leaves P (CertificateBatches bs) = those (map (certificate_batch_root P) bs)"
| "payload_leaves P (Mixed items) = those (map (payload_leaf_hash P) items)"

lemma payload_root_leaves: "payload_root P p = map_option (versioned_payload_root P (payload_kind p)) (payload_leaves P p)"
  by (cases p) (simp_all add: proof_updates_root_def certificate_batches_root_def)

definition root_input :: "'sk payload_ext \<Rightarrow> block_payload_kind \<Rightarrow> hash256 list \<Rightarrow> bytes" where
  "root_input P kind leaves =
     PAYLOAD_ROOT_DOMAIN @ [kind_tag kind] @ be_bytes 32 (merkle_root_from_hashes (py_keccak P) leaves)"

text \<open>The byte strings that are hashed between the leaves and the root of a payload.\<close>

definition payload_inputs :: "'sk payload_ext \<Rightarrow> block_payload \<Rightarrow> bytes set" where
  "payload_inputs P p =
     (case payload_leaves P p of
        None \<Rightarrow> {}
      | Some hs \<Rightarrow> insert (root_input P (payload_kind p) hs) (set (tree_inputs (py_keccak P) hs)))"

lemma kind_tag_inject: "kind_tag k = kind_tag k' \<Longrightarrow> k = k'"
  by (cases k; cases k') simp_all

lemma root_input_inject:
  assumes "root_input P k hs = root_input P k' hs'"
  shows "k = k' \<and> merkle_root_from_hashes (py_keccak P) hs = merkle_root_from_hashes (py_keccak P) hs'"
  using assms by (auto simp: root_input_def intro: kind_tag_inject dest!: be_bytes_inject [rotated])

lemma payload_root_determines_leaves:
  assumes root: "payload_root P a = Some r" "payload_root P b = Some r"
    and leaves: "payload_leaves P a = Some hs" "payload_leaves P b = Some hs'" "length hs = length hs'"
    and inj: "inj_on (py_keccak P) (payload_inputs P a \<union> payload_inputs P b)"
  shows "payload_kind a = payload_kind b \<and> hs = hs'"
proof -
  have "py_keccak P (root_input P (payload_kind a) hs) = py_keccak P (root_input P (payload_kind b) hs')"
    using root leaves by (simp add: payload_root_leaves versioned_payload_root_def root_input_def)
  then have "root_input P (payload_kind a) hs = root_input P (payload_kind b) hs'"
    by (rule inj_onD [OF inj]) (simp_all add: payload_inputs_def leaves)
  note this [THEN root_input_inject]
  moreover have "hs = hs'" if "merkle_root_from_hashes (py_keccak P) hs = merkle_root_from_hashes (py_keccak P) hs'"
  proof (cases "hs = []")
    case False
    then have "hs' \<noteq> []" using leaves(3) by auto
    then have "merkle_root_loop (py_keccak P) hs = merkle_root_loop (py_keccak P) hs'"
      using that False by (simp add: merkle_root_from_hashes_def)
    then show ?thesis
      by (rule merkle_root_inject [OF leaves(3)]) (rule inj_on_subset [OF inj], auto simp: payload_inputs_def leaves)
  qed (use leaves(3) in simp)
  ultimately show ?thesis by blast
qed

lemma first_repeat_iff: "first_repeat seen vs \<longleftrightarrow> \<not> distinct vs \<or> set vs \<inter> seen \<noteq> {}"
  by (induction seen vs rule: first_repeat.induct) auto

lemma batch_conflicts_iff:
  "certificate_batch_conflicts b \<longleftrightarrow> \<not> distinct (concat (map ct_object_versions (ob_certificates b)))"
  by (simp add: certificate_batch_conflicts_def first_repeat_iff)

lemma those_None_iff: "those xs = None \<longleftrightarrow> None \<in> set xs"
  by (induction xs) (auto split: option.splits)

text \<open>The inputs of the leaves of proof updates.\<close>

definition update_leaf_inputs :: "'sk payload_ext \<Rightarrow> zone_proof_update list \<Rightarrow> bytes set" where
  "update_leaf_inputs P us = {PROOF_UPDATE_LEAF_DOMAIN @ b | b u. u \<in> set us \<and> py_borsh_proof_update P (proof_update_leaf u) = Some b}"

lemma update_leaf_determined:
  assumes "proof_update_leaf_hash P u = Some h" "proof_update_leaf_hash P v = Some h" and "u \<in> set us" "v \<in> set vs"
    and inj: "inj_on (py_keccak P) (update_leaf_inputs P us \<union> update_leaf_inputs P vs)"
      "inj_on (py_borsh_proof_update P) (proof_update_leaf ` (set us \<union> set vs))"
  shows "proof_update_leaf u = proof_update_leaf v"
proof -
  obtain b c where b: "py_borsh_proof_update P (proof_update_leaf u) = Some b" and c: "py_borsh_proof_update P (proof_update_leaf v) = Some c"
    and eq: "py_keccak P (PROOF_UPDATE_LEAF_DOMAIN @ b) = py_keccak P (PROOF_UPDATE_LEAF_DOMAIN @ c)"
    using assms(1,2) by (auto simp: proof_update_leaf_hash_def)
  have "PROOF_UPDATE_LEAF_DOMAIN @ b = PROOF_UPDATE_LEAF_DOMAIN @ c"
    by (rule inj_onD [OF inj(1) eq]) (use assms(3,4) b c in \<open>auto simp: update_leaf_inputs_def\<close>)
  then show ?thesis using b c assms(3,4) by (intro inj_onD [OF inj(2)]) auto
qed

section \<open>Properties\<close>

text \<open>
  C30.  A payload root binds the payload: two payloads with the same root and equally many leaves are of
  the same kind and have the same leaves in the same order, and when both carry proof updates, these
  agree on the zone, the roots, the circuit and the proof, unless hashed inputs collide or an encoder
  maps two leaves to the same bytes.
\<close>

theorem payload_root_binds_payload:
  assumes root: "payload_root P a = Some r" "payload_root P b = Some r"
    and len: "map_option length (payload_leaves P a) = map_option length (payload_leaves P b)"
    and inj: "inj_on (py_keccak P) (payload_inputs P a \<union> payload_inputs P b)"
  shows "payload_kind a = payload_kind b \<and> payload_leaves P a = payload_leaves P b
    \<and> (\<forall>us vs. a = ProofUpdates us \<and> b = ProofUpdates vs
        \<and> inj_on (py_keccak P) (update_leaf_inputs P us \<union> update_leaf_inputs P vs)
        \<and> inj_on (py_borsh_proof_update P) (proof_update_leaf ` (set us \<union> set vs))
        \<longrightarrow> map proof_update_leaf us = map proof_update_leaf vs)"
proof -
  obtain hs hs' where leaves: "payload_leaves P a = Some hs" "payload_leaves P b = Some hs'" "length hs = length hs'"
    using root len by (auto simp: payload_root_leaves)
  note same = payload_root_determines_leaves [OF root leaves inj]
  have "map proof_update_leaf us = map proof_update_leaf vs"
    if "a = ProofUpdates us" "b = ProofUpdates vs"
      and inj: "inj_on (py_keccak P) (update_leaf_inputs P us \<union> update_leaf_inputs P vs)"
        "inj_on (py_borsh_proof_update P) (proof_update_leaf ` (set us \<union> set vs))" for us vs
  proof -
    have h: "map (proof_update_leaf_hash P) us = map Some hs" "map (proof_update_leaf_hash P) vs = map Some hs"
      using leaves same that(1,2) by (simp_all add: those_eq_Some)
    have n: "length us = length hs" "length vs = length hs" using h by (metis length_map)+
    show ?thesis
    proof (rule nth_equalityI)
      fix i assume "i < length (map proof_update_leaf us)"
      then have i: "i < length us" "i < length vs" using n by simp_all
      have "proof_update_leaf_hash P (us ! i) = Some (hs ! i)" "proof_update_leaf_hash P (vs ! i) = Some (hs ! i)"
        using h n i by (metis nth_map)+
      from update_leaf_determined [OF this _ _ inj] i
      show "map proof_update_leaf us ! i = map proof_update_leaf vs ! i" by simp
    qed (use n in simp)
  qed
  then show ?thesis using same leaves by auto
qed

text \<open>
  A batch has a root exactly when no object version occurs twice in it and every certificate can be
  encoded; the check is for one batch, so two batches of one payload may share a version.
\<close>

lemma batch_root_exists_iff:
  "certificate_batch_root P b \<noteq> None \<longleftrightarrow>
     distinct (concat (map ct_object_versions (ob_certificates b)))
     \<and> list_all (\<lambda>c. certificate_batch_leaf_hash P c \<noteq> None) (ob_certificates b)"
proof -
  have "those (map f cs) \<noteq> None \<longleftrightarrow> list_all (\<lambda>c. f c \<noteq> None) cs" for f :: "owned_object_certificate \<Rightarrow> hash256 option" and cs
    unfolding those_None_iff list_all_iff by force
  then show ?thesis by (simp add: certificate_batch_root_def batch_conflicts_iff)
qed

lemma repeated_batch_has_root:
  "certificate_batch_root P b \<noteq> None \<Longrightarrow> certificate_batches_root P [b, b] \<noteq> None"
  by (auto simp: certificate_batches_root_def)

lemma rlvr_tag_round_trip: "rlvr_parse (rlvr_as_str t) = Some t"
proof -
  have "rlvr_parse (rlvr_as_str ProofOfRoute) = Some ProofOfRoute" "rlvr_parse (rlvr_as_str ProofOfEval) = Some ProofOfEval"
    "rlvr_parse (rlvr_as_str ProofOfTraining) = Some ProofOfTraining" by code_simp+
  then show ?thesis by (cases t) simp_all
qed

section \<open>Samples\<close>

definition sample_payload_ext :: "bls_pubkey payload_ext" where
  "sample_payload_ext = \<lparr>py_ledger = sample_ext, py_cert = sample_cert_ext, py_borsh_item = (\<lambda>_. None),
     py_borsh_proof_update = (\<lambda>l. Some [ucast (pl_zone_id l), ucast (pl_new_root l)]),
     py_borsh_batch_leaf = (\<lambda>_. None), py_borsh_rlvr = (\<lambda>_. None)\<rparr>"

text \<open>Two updates of different heights: the leaf does not have the height.\<close>

definition payload_update :: "u64 \<Rightarrow> zone_proof_update" where
  "payload_update h = \<lparr>zu_zone_id = 1, zu_height = h, zu_parent_root = 0, zu_new_root = 5, zu_tx_root = 0, zu_da_root = 0,
     zu_message_root = 0, zu_forced_inclusion_root = 0, zu_circuit_version = MixedStateTransitionV1, zu_feature_set = \<lparr>fs_bits = 0\<rparr>,
     zu_proof_digest = 0\<rparr>"

lemma payload_update_leaf: "proof_update_leaf (payload_update h) = proof_update_leaf (payload_update 0)"
  by (simp add: proof_update_leaf_def payload_update_def)

theorem payload_root_binds_payload_witness:
  "payload_leaves sample_payload_ext (ProofUpdates [payload_update 4]) = payload_leaves sample_payload_ext (ProofUpdates [payload_update 9])
   \<and> map proof_update_leaf [payload_update 4] = map proof_update_leaf [payload_update 9]"
proof -
  let ?P = sample_payload_ext and ?a = "ProofUpdates [payload_update 4]" and ?b = "ProofUpdates [payload_update 9]"
  have leaf: "proof_update_leaf_hash ?P (payload_update h) = proof_update_leaf_hash ?P (payload_update 0)" for h
    unfolding proof_update_leaf_hash_def payload_update_leaf [of h] ..
  obtain x where x: "proof_update_leaf_hash ?P (payload_update 0) = Some x"
    by (auto simp: proof_update_leaf_hash_def sample_payload_ext_def)
  have roots: "payload_root ?P ?a = payload_root ?P ?b" "payload_root ?P ?b \<noteq> None"
    using x by (simp_all add: proof_updates_root_def leaf [of 4] leaf [of 9])
  then obtain r where r: "payload_root ?P ?a = Some r" "payload_root ?P ?b = Some r" by auto
  have "inj_on (py_keccak ?P) (payload_inputs ?P ?a \<union> payload_inputs ?P ?b)"
    using x by (simp add: payload_inputs_def leaf [of 4] leaf [of 9] tree_inputs.simps)
  moreover have "inj_on (py_keccak ?P) (update_leaf_inputs ?P [payload_update 4] \<union> update_leaf_inputs ?P [payload_update 9])"
    by (auto simp: update_leaf_inputs_def payload_update_leaf [of 4] payload_update_leaf [of 9] sample_payload_ext_def inj_on_def)
  ultimately show ?thesis
    using payload_root_binds_payload [OF r] by (simp add: leaf [of 4] leaf [of 9] payload_update_leaf [of 4] payload_update_leaf [of 9])
qed

end
