(* ===== verification/Rust_Result.thy ===== *)
theory Rust_Result
  imports Fractal_Prelude
begin

text \<open>The operator \<open>?\<close> of a fallible expression without state, and a fallible map over a list.\<close>

definition try_ok :: "'e + 'a \<Rightarrow> ('a \<Rightarrow> 'e + 'b) \<Rightarrow> 'e + 'b" where
  "try_ok r f = (case r of Inl e \<Rightarrow> Inl e | Inr x \<Rightarrow> f x)"

fun try_map :: "('a \<Rightarrow> 'e + 'b) \<Rightarrow> 'a list \<Rightarrow> 'e + 'b list" where
  "try_map f [] = Inr []"
| "try_map f (x # xs) = try_ok (f x) (\<lambda>y. try_ok (try_map f xs) (\<lambda>ys. Inr (y # ys)))"

lemma try_ok_simps [simp, exec_simps]: "try_ok (Inl e) f = Inl e" "try_ok (Inr x) f = f x"
  by (simp_all add: try_ok_def)

lemma try_ok_Inr: "try_ok r f = Inr y \<longleftrightarrow> (\<exists>x. r = Inr x \<and> f x = Inr y)"
  by (cases r) simp_all

lemma try_okE: "try_ok r f = Inr y \<Longrightarrow> (\<And>x. r = Inr x \<Longrightarrow> f x = Inr y \<Longrightarrow> thesis) \<Longrightarrow> thesis"
  by (auto simp: try_ok_Inr)

end
