(* ===== verification/Light_Client.thy ===== *)
theory Light_Client
  imports Masterchain_Safety Rust_Result
begin

text \<open>
  The light client, \<open>crates/light-client/src\<close>: parsing of a head from the JSON of a node, its
  verification without executing a block, and the state roots it then vouches for.

  The HTTP client and the \<open>hex\<close> decoder are third-party code and parameters.  The error of a field
  carries its label; the rest of the text comes from those libraries and is left out.

  The properties connect it with the masterchain: what a round seals, a client accepts, and two heads
  with one state root agree on every shard.
\<close>

section \<open>Heads and errors\<close>

datatype light_client_error =
    GlobalStateRootMismatch
  | MasterchainHeightMismatch u64 u64
  | Plonky2StatementMismatch
  | MissingPlonky2Bundle
  | LcSubmission submission_error
  | LcAggregator aggregator_error
  | LcRpc string
  | LcJson string
  | LcHex string
  | LcUnknownShard u32

record light_client_head =
  lh_masterchain :: masterchain_block
  lh_plonky2 :: "plonky2_proof_bundle option"
  lh_execution_shard_id :: "u32 option"
  lh_execution_tip_height :: "u64 option"
  lh_execution_tip_state_root :: "hash256 option"

record verified_light_client_head =
  vh_masterchain_height :: u64
  vh_global_state_root :: hash256
  vh_global_zk_root :: hash256
  vh_shard_anchors :: "shard_anchor list"

definition vh_shard_anchor :: "verified_light_client_head \<Rightarrow> u32 \<Rightarrow> shard_anchor option" where
  "vh_shard_anchor h shard = find (\<lambda>a. sa_shard_id a = shard) (vh_shard_anchors h)"

definition vh_shard_state_root :: "verified_light_client_head \<Rightarrow> u32 \<Rightarrow> hash256 option" where
  "vh_shard_state_root h shard = map_option sa_state_root (vh_shard_anchor h shard)"

section \<open>Verification\<close>

fun validate_all :: "shard_anchor list \<Rightarrow> proof_submission list \<Rightarrow> light_client_error + unit" where
  "validate_all anchors [] = Inr ()"
| "validate_all anchors (p # ps) =
     (case validate_proof_submission p anchors of Inl e \<Rightarrow> Inl (LcSubmission e) | Inr _ \<Rightarrow> validate_all anchors ps)"

definition verify_plonky2 ::
    "'pf plonky_ext \<Rightarrow> masterchain_block \<Rightarrow> proof_submission list \<Rightarrow> plonky2_proof_bundle option \<Rightarrow> light_client_error + unit" where
  "verify_plonky2 X block proofs plonky2 =
     (case plonky2 of
        Some bundle \<Rightarrow>
          if pb_masterchain_height bundle \<noteq> mb_height block
          then Inl (MasterchainHeightMismatch (mb_height block) (pb_masterchain_height bundle))
          else if gs_global_state_root (pb_statement bundle) \<noteq> mb_global_state_root block
            \<or> gs_global_zk_root (pb_statement bundle) \<noteq> mb_global_zk_root block
            \<or> gs_validity_proofs (pb_statement bundle) \<noteq> proofs
          then Inl Plonky2StatementMismatch
          else map_sum LcAggregator id (bundle_verify X bundle)
      | None \<Rightarrow>
          if proofs \<noteq> [] then Inl MissingPlonky2Bundle
          else map_sum LcAggregator id
                 (verify_global_zk_root X (mb_height block) (mb_global_state_root block) proofs (mb_global_zk_root block) None))"

definition verify_masterchain_block ::
    "'pf mc_ext \<Rightarrow> masterchain_block \<Rightarrow> plonky2_proof_bundle option \<Rightarrow> light_client_error + verified_light_client_head" where
  "verify_masterchain_block M block plonky2 =
     (if global_state_root_from_anchors (mx_keccak256 M) (mb_shard_anchors block) \<noteq> mb_global_state_root block
      then Inl GlobalStateRootMismatch
      else try_ok (map_sum LcSubmission id (dedupe_submissions (mb_validity_proofs block))) (\<lambda>proofs.
        try_ok (validate_all (mb_shard_anchors block) proofs) (\<lambda>_.
        try_ok (verify_plonky2 (mx_plonky M) block proofs plonky2) (\<lambda>_.
          Inr \<lparr>vh_masterchain_height = mb_height block, vh_global_state_root = mb_global_state_root block,
               vh_global_zk_root = mb_global_zk_root block, vh_shard_anchors = mb_shard_anchors block\<rparr>))))"

definition verify_light_client_head :: "'pf mc_ext \<Rightarrow> light_client_head \<Rightarrow> light_client_error + verified_light_client_head" where
  "verify_light_client_head M head = verify_masterchain_block M (lh_masterchain head) (lh_plonky2 head)"

section \<open>JSON values\<close>

text \<open>Numbers are integers or not; only the former have a \<open>u64\<close>.\<close>

datatype json =
    JNull
  | JBool bool
  | JInt int
  | JFloat
  | JString string
  | JArray "json list"
  | JObject "(string \<times> json) list"

fun j_get :: "json \<Rightarrow> string \<Rightarrow> json option" where
  "j_get (JObject kvs) key = map_of kvs key"
| "j_get _ key = None"

fun as_str :: "json \<Rightarrow> string option" where
  "as_str (JString s) = Some s"
| "as_str _ = None"

fun as_u64 :: "json \<Rightarrow> u64 option" where
  "as_u64 (JInt n) = (if 0 \<le> n \<and> n < 2 ^ 64 then Some (word_of_int n) else None)"
| "as_u64 _ = None"

fun as_array :: "json \<Rightarrow> json list option" where
  "as_array (JArray vs) = Some vs"
| "as_array _ = None"

definition or_json :: "'a option \<Rightarrow> string \<Rightarrow> light_client_error + 'a" where
  "or_json x msg = (case x of None \<Rightarrow> Inl (LcJson msg) | Some y \<Rightarrow> Inr y)"

definition str_field :: "json \<Rightarrow> string \<Rightarrow> string \<Rightarrow> light_client_error + string" where
  "str_field v key msg = or_json (Option.bind (j_get v key) as_str) msg"

section \<open>Hexadecimal fields\<close>

definition strip_0x :: "string \<Rightarrow> string" where
  "strip_0x s = (if take 2 s = ''0x'' then drop 2 s else s)"

definition hex_digit :: "char \<Rightarrow> nat option" where
  "hex_digit c =
     (let n = of_char c :: nat
      in if 48 \<le> n \<and> n \<le> 57 then Some (n - 48)
         else if 97 \<le> n \<and> n \<le> 102 then Some (n - 87)
         else if 65 \<le> n \<and> n \<le> 70 then Some (n - 55)
         else None)"

text \<open>\<open>from_str_radix\<close> with radix 16 for an unsigned type below the given bound: an optional plus sign, then digits.\<close>

fun radix16 :: "nat \<Rightarrow> nat \<Rightarrow> string \<Rightarrow> nat option" where
  "radix16 bound acc [] = Some acc"
| "radix16 bound acc (c # cs) =
     (case hex_digit c of
        None \<Rightarrow> None
      | Some d \<Rightarrow> if bound \<le> acc * 16 + d then None else radix16 bound (acc * 16 + d) cs)"

definition from_str_radix16 :: "nat \<Rightarrow> string \<Rightarrow> nat option" where
  "from_str_radix16 bound s =
     (let digits = (if s \<noteq> [] \<and> hd s = CHR ''+'' then tl s else s)
      in if digits = [] then None else radix16 bound 0 digits)"

type_synonym hex_decode = "string \<Rightarrow> bytes option"

definition parse_hex_bytes :: "hex_decode \<Rightarrow> string \<Rightarrow> string \<Rightarrow> light_client_error + bytes" where
  "parse_hex_bytes hx s label = (case hx (strip_0x s) of None \<Rightarrow> Inl (LcHex label) | Some b \<Rightarrow> Inr b)"

definition parse_hash32 :: "hex_decode \<Rightarrow> string \<Rightarrow> string \<Rightarrow> light_client_error + hash256" where
  "parse_hash32 hx s label =
     try_ok (parse_hex_bytes hx s label) (\<lambda>b. if length b \<noteq> 32 then Inl (LcHex label) else Inr (le_word (rev b)))"

definition parse_address20 :: "hex_decode \<Rightarrow> string \<Rightarrow> string \<Rightarrow> light_client_error + address" where
  "parse_address20 hx s label =
     try_ok (parse_hex_bytes hx s label) (\<lambda>b. if length b \<noteq> 20 then Inl (LcHex label) else Inr (le_word (rev b)))"

definition parse_u64_hex :: "string \<Rightarrow> string \<Rightarrow> light_client_error + u64" where
  "parse_u64_hex s label =
     (case from_str_radix16 (2 ^ 64) (strip_0x s) of None \<Rightarrow> Inl (LcJson label) | Some n \<Rightarrow> Inr (of_nat n))"

definition parse_u32_hex :: "string \<Rightarrow> string \<Rightarrow> light_client_error + u32" where
  "parse_u32_hex s label =
     (case from_str_radix16 (2 ^ 32) (strip_0x s) of None \<Rightarrow> Inl (LcJson label) | Some n \<Rightarrow> Inr (of_nat n))"

section \<open>Parsing a head\<close>

definition parse_anchor_row :: "hex_decode \<Rightarrow> json \<Rightarrow> light_client_error + shard_anchor" where
  "parse_anchor_row hx row =
     try_ok (try_ok (str_field row ''shardId'' ''shardId missing'') (\<lambda>s. parse_u32_hex s ''shardId'')) (\<lambda>shard_id.
     try_ok (try_ok (str_field row ''blockHeight'' ''blockHeight missing'') (\<lambda>s. parse_u64_hex s ''blockHeight'')) (\<lambda>block_height.
     try_ok (try_ok (str_field row ''stateRoot'' ''stateRoot missing'') (\<lambda>s. parse_hash32 hx s ''stateRoot'')) (\<lambda>state_root.
     try_ok (try_ok (str_field row ''witnessCommitment'' ''witnessCommitment missing'') (\<lambda>s. parse_hash32 hx s ''witnessCommitment'')) (\<lambda>wc.
       Inr \<lparr>sa_shard_id = shard_id, sa_block_height = block_height, sa_state_root = state_root, sa_witness_commitment = wc\<rparr>))))"

definition parse_shard_anchors :: "hex_decode \<Rightarrow> json \<Rightarrow> light_client_error + shard_anchor list" where
  "parse_shard_anchors hx v = try_ok (or_json (as_array v) ''shardAnchors not array'') (try_map (parse_anchor_row hx))"

definition parse_submission_row :: "hex_decode \<Rightarrow> json \<Rightarrow> light_client_error + proof_submission" where
  "parse_submission_row hx row =
     try_ok (try_ok (str_field row ''shardId'' ''proof shardId missing'') (\<lambda>s. parse_u32_hex s ''proof.shardId'')) (\<lambda>shard_id.
     try_ok (try_ok (str_field row ''startBlock'' ''startBlock missing'') (\<lambda>s. parse_u64_hex s ''startBlock'')) (\<lambda>start_block.
     try_ok (try_ok (str_field row ''endBlock'' ''endBlock missing'') (\<lambda>s. parse_u64_hex s ''endBlock'')) (\<lambda>end_block.
     try_ok (try_ok (str_field row ''prover'' ''prover missing'') (\<lambda>s. parse_address20 hx s ''prover'')) (\<lambda>prover.
     try_ok (or_json (Option.bind (j_get row ''lagSeconds'') as_u64) ''lagSeconds missing'') (\<lambda>lag.
     try_ok (try_ok (str_field row ''proofDigest'' ''proofDigest missing'') (\<lambda>s. parse_hash32 hx s ''proofDigest'')) (\<lambda>digest.
       Inr \<lparr>ps_shard_id = shard_id, ps_start_block = start_block, ps_end_block = end_block, ps_prover = prover,
            ps_lag_seconds = ucast lag, ps_proof_digest = digest\<rparr>))))))"

definition parse_proof_submissions :: "hex_decode \<Rightarrow> json \<Rightarrow> light_client_error + proof_submission list" where
  "parse_proof_submissions hx v = try_ok (or_json (as_array v) ''validityProofs not array'') (try_map (parse_submission_row hx))"

definition parse_message_row :: "hex_decode \<Rightarrow> json \<Rightarrow> light_client_error + cross_shard_message" where
  "parse_message_row hx row =
     try_ok (try_ok (str_field row ''fromShard'' ''fromShard missing'') (\<lambda>s. parse_u32_hex s ''fromShard'')) (\<lambda>from_shard.
     try_ok (try_ok (str_field row ''toShard'' ''toShard missing'') (\<lambda>s. parse_u32_hex s ''toShard'')) (\<lambda>to_shard.
     try_ok (try_ok (str_field row ''payloadHash'' ''payloadHash missing'') (\<lambda>s. parse_hash32 hx s ''payloadHash'')) (\<lambda>payload_hash.
     try_ok (parse_hex_bytes hx (unwrap_or (Option.bind (j_get row ''payload'') as_str) ''0x'') ''payload'') (\<lambda>payload.
       Inr \<lparr>xs_from_shard = from_shard, xs_to_shard = to_shard, xs_payload_hash = payload_hash, xs_payload = payload\<rparr>))))"

definition parse_cross_shard_messages :: "hex_decode \<Rightarrow> json \<Rightarrow> light_client_error + cross_shard_message list" where
  "parse_cross_shard_messages hx v = try_ok (or_json (as_array v) ''crossShardMessages not array'') (try_map (parse_message_row hx))"

definition parse_plonky2_bundle :: "hex_decode \<Rightarrow> json \<Rightarrow> light_client_error + plonky2_proof_bundle" where
  "parse_plonky2_bundle hx v =
     try_ok (or_json (Option.bind (j_get v ''version'') as_u64) ''plonky2.version missing'') (\<lambda>ver64.
     let ver = ucast ver64 :: u8
     in if ver \<noteq> PLONKY2_AGGREGATOR_VERSION then Inl (LcAggregator (UnsupportedVersion ver))
        else
     try_ok (try_ok (str_field v ''masterchainHeight'' ''masterchainHeight missing'') (\<lambda>s. parse_u64_hex s ''masterchainHeight'')) (\<lambda>height.
     try_ok (try_ok (str_field v ''globalStateRoot'' ''plonky2.globalStateRoot missing'') (\<lambda>s. parse_hash32 hx s ''globalStateRoot'')) (\<lambda>gsr.
     try_ok (try_ok (str_field v ''globalZkRoot'' ''plonky2.globalZkRoot missing'') (\<lambda>s. parse_hash32 hx s ''globalZkRoot'')) (\<lambda>zk.
     try_ok (try_ok (or_json (j_get v ''validityProofs'') ''plonky2.validityProofs missing'') (parse_proof_submissions hx)) (\<lambda>proofs.
     try_ok (try_ok (str_field v ''snarkBytes'' ''snarkBytes missing'') (\<lambda>s. parse_hex_bytes hx s ''snarkBytes'')) (\<lambda>snark.
       Inr \<lparr>pb_version = ver, pb_masterchain_height = height,
            pb_statement = \<lparr>gs_global_state_root = gsr, gs_global_zk_root = zk, gs_validity_proofs = proofs, gs_verified_stwo_statements = []\<rparr>,
            pb_snark_bytes = snark\<rparr>))))))"

text \<open>\<open>map(f).transpose()\<close> of an optional field.\<close>

definition opt_field :: "'a option \<Rightarrow> ('a \<Rightarrow> light_client_error + 'b) \<Rightarrow> light_client_error + 'b option" where
  "opt_field x f = (case x of None \<Rightarrow> Inr None | Some y \<Rightarrow> map_sum id Some (f y))"

definition parse_light_client_head_json :: "hex_decode \<Rightarrow> json \<Rightarrow> light_client_error + light_client_head" where
  "parse_light_client_head_json hx v =
     try_ok (try_ok (str_field v ''height'' ''height missing'') (\<lambda>s. parse_u64_hex s ''height'')) (\<lambda>height.
     try_ok (try_ok (or_json (j_get v ''shardAnchors'') ''shardAnchors missing'') (parse_shard_anchors hx)) (\<lambda>anchors.
     try_ok (try_ok (or_json (j_get v ''validityProofs'') ''validityProofs missing'') (parse_proof_submissions hx)) (\<lambda>proofs.
     try_ok (try_ok (str_field v ''globalStateRoot'' ''globalStateRoot missing'') (\<lambda>s. parse_hash32 hx s ''globalStateRoot'')) (\<lambda>gsr.
     try_ok (try_ok (str_field v ''globalZkRoot'' ''globalZkRoot missing'') (\<lambda>s. parse_hash32 hx s ''globalZkRoot'')) (\<lambda>zk.
     try_ok (opt_field (Option.bind (j_get v ''forcedInclusionQueueRoot'') as_str) (\<lambda>s. parse_hash32 hx s ''forcedInclusionQueueRoot'')) (\<lambda>queue.
     try_ok (parse_cross_shard_messages hx (unwrap_or (j_get v ''crossShardMessages'') (JArray []))) (\<lambda>messages.
     try_ok (opt_field (j_get v ''plonky2'') (parse_plonky2_bundle hx)) (\<lambda>plonky2.
     try_ok (opt_field (Option.bind (j_get v ''executionShardId'') as_str) (\<lambda>s. parse_u32_hex s ''executionShardId'')) (\<lambda>shard.
     try_ok (opt_field (Option.bind (j_get v ''executionTipHeight'') as_str) (\<lambda>s. parse_u64_hex s ''executionTipHeight'')) (\<lambda>tip.
     try_ok (opt_field (Option.bind (j_get v ''executionTipStateRoot'') as_str) (\<lambda>s. parse_hash32 hx s ''executionTipStateRoot'')) (\<lambda>tip_root.
       Inr \<lparr>lh_masterchain = \<lparr>mb_height = height, mb_shard_anchors = anchors, mb_validity_proofs = proofs,
              mb_zone_proof_commitments = [], mb_global_state_root = gsr, mb_global_zk_root = zk,
              mb_forced_inclusion_queue_root = unwrap_or queue 0, mb_cross_shard_messages = messages\<rparr>,
            lh_plonky2 = plonky2, lh_execution_shard_id = shard, lh_execution_tip_height = tip,
            lh_execution_tip_state_root = tip_root\<rparr>)))))))))))"

section \<open>Fetching\<close>

definition rpc_post :: "(string \<Rightarrow> json \<Rightarrow> string + json) \<Rightarrow> string \<Rightarrow> string \<Rightarrow> json \<Rightarrow> light_client_error + json" where
  "rpc_post http url method_name params =
     (case http url (JObject [(''jsonrpc'', JString ''2.0''), (''id'', JInt 1), (''method'', JString method_name), (''params'', params)]) of
        Inl e \<Rightarrow> Inl (LcRpc e)
      | Inr resp \<Rightarrow>
          if j_get resp ''error'' \<noteq> None then Inl (LcRpc ''rpc error'')
          else (case j_get resp ''result'' of None \<Rightarrow> Inl (LcRpc ''missing result'') | Some r \<Rightarrow> Inr r))"

definition fetch_light_client_head :: "(string \<Rightarrow> json \<Rightarrow> string + json) \<Rightarrow> hex_decode \<Rightarrow> string \<Rightarrow> light_client_error + light_client_head" where
  "fetch_light_client_head http hx url =
     try_ok (rpc_post http url ''fractal_getLightClientHead'' (JArray [])) (parse_light_client_head_json hx)"

definition fetch_and_verify_light_client_head ::
    "'pf mc_ext \<Rightarrow> (string \<Rightarrow> json \<Rightarrow> string + json) \<Rightarrow> hex_decode \<Rightarrow> string \<Rightarrow> light_client_error + verified_light_client_head" where
  "fetch_and_verify_light_client_head M http hx url = try_ok (fetch_light_client_head http hx url) (verify_light_client_head M)"

section \<open>What a head stands for\<close>

lemma map_sum_Inr: "map_sum f id r = Inr y \<longleftrightarrow> r = Inr y"
  by (cases r) simp_all

lemma validate_all_Ok: "validate_all anchors ps = Inr () \<longleftrightarrow> list_all (\<lambda>p. validate_proof_submission p anchors = Inr ()) ps"
  by (induction ps) (auto split: sum.splits)

lemma verified_iff:
  "verify_masterchain_block M b pl = Inr h \<longleftrightarrow>
     global_state_root_from_anchors (mx_keccak256 M) (mb_shard_anchors b) = mb_global_state_root b
     \<and> dedupe_submissions (mb_validity_proofs b) = Inr (mb_validity_proofs b)
     \<and> list_all (\<lambda>p. validate_proof_submission p (mb_shard_anchors b) = Inr ()) (mb_validity_proofs b)
     \<and> verify_plonky2 (mx_plonky M) b (mb_validity_proofs b) pl = Inr ()
     \<and> h = \<lparr>vh_masterchain_height = mb_height b, vh_global_state_root = mb_global_state_root b,
             vh_global_zk_root = mb_global_zk_root b, vh_shard_anchors = mb_shard_anchors b\<rparr>"
  using dedupe_Inr [of "mb_validity_proofs b"]
  by (auto simp: verify_masterchain_block_def try_ok_Inr map_sum_Inr validate_all_Ok)

text \<open>The first anchor of a shard is the same in a list and in the list sorted by shards.\<close>

lemma find_filter: "find P xs = (case filter P xs of [] \<Rightarrow> None | x # _ \<Rightarrow> Some x)"
  by (induction xs) simp_all

lemma find_sort_key: "find (\<lambda>x. f x = k) (sort_key f xs) = find (\<lambda>x. f x = k) xs"
  unfolding find_filter by (simp add: filter_sort [of _ f] sort_key_stable)

definition anchor_fields :: "shard_anchor \<Rightarrow> u32 \<times> u64 \<times> hash256" where
  "anchor_fields a = (sa_shard_id a, sa_block_height a, sa_state_root a)"

lemma length_anchor_bytes [simp]: "length (anchor_bytes a) = 44"
  by (simp add: anchor_bytes_def)

lemma anchor_bytes_inject: "anchor_bytes a = anchor_bytes b \<Longrightarrow> anchor_fields a = anchor_fields b"
  by (auto simp: anchor_bytes_def anchor_fields_def append_eq_append_conv dest!: be_bytes_inject [rotated])

lemma concat_fixed_inject:
  assumes "\<And>x. length (f x) = n" "0 < n" and "concat (map f xs) = concat (map f ys)"
  shows "map f xs = map f ys"
  using assms(3)
proof (induction xs arbitrary: ys)
  case Nil
  then show ?case using assms(1,2) by (cases ys) (auto dest: arg_cong [of _ _ length])
next
  case (Cons x xs)
  then obtain y ys' where ys: "ys = y # ys'" using assms(1) [of x] assms(2) by (cases ys) auto
  then show ?case using Cons assms(1) by (simp add: append_eq_append_conv)
qed

lemma map_determined:
  assumes "\<And>a b. f a = f b \<Longrightarrow> g a = g b" and "map f xs = map f ys" shows "map g xs = map g ys"
  using assms(2)
proof (induction xs arbitrary: ys)
  case (Cons x xs)
  then obtain y ys' where "ys = y # ys'" by (cases ys) auto
  then show ?case using Cons assms(1) [of x y] by simp
qed simp

lemma anchors_determined:
  assumes "global_state_root_from_anchors kc as = global_state_root_from_anchors kc bs" and "as \<noteq> []" "bs \<noteq> []"
    and "inj_on kc {concat (map anchor_bytes (sort_key sa_shard_id as)), concat (map anchor_bytes (sort_key sa_shard_id bs))}"
  shows "map anchor_fields (sort_key sa_shard_id as) = map anchor_fields (sort_key sa_shard_id bs)"
proof -
  have "concat (map anchor_bytes (sort_key sa_shard_id as)) = concat (map anchor_bytes (sort_key sa_shard_id bs))"
    using assms by (intro inj_onD [OF assms(4)]) (simp_all add: global_state_root_from_anchors_def)
  then have "map anchor_bytes (sort_key sa_shard_id as) = map anchor_bytes (sort_key sa_shard_id bs)"
    by (intro concat_fixed_inject [of _ 44]) simp_all
  from map_determined [OF anchor_bytes_inject this] show ?thesis .
qed

lemma find_map_fields:
  assumes "map anchor_fields xs = map anchor_fields ys"
  shows "map_option anchor_fields (find (\<lambda>a. sa_shard_id a = k) xs) = map_option anchor_fields (find (\<lambda>a. sa_shard_id a = k) ys)"
  using assms
proof (induction xs arbitrary: ys)
  case (Cons x xs)
  then obtain y ys' where "ys = y # ys'" by (cases ys) auto
  then show ?case using Cons by (auto simp: anchor_fields_def)
qed simp

section \<open>Rounds and their bundles\<close>

definition statement_key :: "verified_stwo_statement \<Rightarrow> u32 \<times> u64 \<times> u64 \<times> hash256" where
  "statement_key st = (vs_shard_id st, vs_start_block st, vs_end_block st, vs_proof_digest st)"

definition pending_key :: "proof_submission \<Rightarrow> u32 \<times> u64 \<times> u64 \<times> hash256" where
  "pending_key p = (ps_shard_id p, ps_start_block p, ps_end_block p, ps_proof_digest p)"

definition statements_filed :: "masterchain_ledger \<Rightarrow> bool" where
  "statements_filed L \<longleftrightarrow> (\<forall>k st. mc_pending_verified_stwo_statements L k = Some st \<longrightarrow> statement_key st = k)"

lemma matches_key: "matches_submission st p \<longleftrightarrow> statement_key st = pending_key p"
  by (simp add: matches_submission_def statement_key_def pending_key_def)

lemma take_statements_filed:
  assumes "distinct (map pending_key ps)"
  shows "snd (take_statements L acc ps) = acc @ List.map_filter (\<lambda>p. mc_pending_verified_stwo_statements L (pending_key p)) ps"
  using assms
proof (induction L acc ps rule: take_statements.induct)
  case (2 L acc p ps)
  have same: "List.map_filter (\<lambda>q. ((mc_pending_verified_stwo_statements L)(pending_key p := None)) (pending_key q)) ps =
      List.map_filter (\<lambda>q. mc_pending_verified_stwo_statements L (pending_key q)) ps"
  proof -
    have ne: "pending_key q \<noteq> pending_key p" if "q \<in> set ps" for q
    proof -
      have "pending_key q \<in> set (map pending_key ps)" "pending_key p \<notin> set (map pending_key ps)" using "2.prems" that by simp_all
      then show ?thesis by metis
    qed
    show ?thesis using ne by (induction ps) (auto simp: List.map_filter_simps split: option.split)
  qed
  show ?case
  proof (cases "mc_pending_verified_stwo_statements L (pending_key p)")
    case None
    then show ?thesis using 2 by (simp add: pending_key_def Let_def)
  next
    case (Some st)
    then show ?thesis using "2.IH"(2) [OF refl] "2.prems" same by (simp add: pending_key_def Let_def)
  qed
qed simp

lemma all_matched_length:
  assumes filed: "statements_filed L" and d: "distinct (map pending_key ps)"
    and sts: "sts = List.map_filter (\<lambda>p. mc_pending_verified_stwo_statements L (pending_key p)) ps"
    and all: "find (\<lambda>p. \<not> list_ex (\<lambda>st. matches_submission st p) sts) ps = None"
  shows "length sts = length ps"
proof -
  have "mc_pending_verified_stwo_statements L (pending_key p) \<noteq> None" if p: "p \<in> set ps" for p
  proof -
    obtain st where st: "st \<in> set sts" "statement_key st = pending_key p"
      using all p by (auto simp: find_None_iff list_ex_iff matches_key)
    then obtain q where "mc_pending_verified_stwo_statements L (pending_key q) = Some st" by (auto simp: sts List.map_filter_def)
    moreover from this have "statement_key st = pending_key q" using filed unfolding statements_filed_def by blast
    ultimately show ?thesis using st(2) by simp
  qed
  then show ?thesis by (simp add: sts List.map_filter_def)
qed

text \<open>A batch that passes finishes with no verified statement or with one for every submission.\<close>

lemma seal_batch_statements:
  assumes "seal_batch M L anchors taken ms = (L', Inr r)" and filed: "statements_filed L"
  obtains ps m sts where "dedupe_submissions taken = Inr ps" and "first_invalid anchors ps = None"
    and "sts = [] \<or> length sts = length ps" and "finish_round M (with_statements L m) anchors ps ms sts = (L', Inr r)"
proof (cases "dedupe_submissions taken")
  case (Inr ps)
  then have none: "first_invalid anchors ps = None"
    using assms by (auto simp: seal_batch_def split: option.splits)
  have "distinct (map submission_range ps)" using dedupe_Inr [OF Inr] by simp
  then have "distinct (map (\<lambda>p. (ps_shard_id p, ps_start_block p, ps_end_block p)) ps)" by (simp add: submission_range_def [abs_def])
  then have d: "distinct (map pending_key ps)"
    by (auto simp: distinct_map pending_key_def intro!: inj_onI dest: inj_onD)
  obtain m sts where ts: "take_statements L [] ps = (with_statements L m, sts)" by (rule take_statementsE)
  have sts: "sts = List.map_filter (\<lambda>p. mc_pending_verified_stwo_statements L (pending_key p)) ps"
    using take_statements_filed [OF d, of L "[]"] ts by simp
  have "\<exists>sts'. (sts' = [] \<or> length sts' = length ps) \<and> finish_round M (with_statements L m) anchors ps ms sts' = (L', Inr r)"
    using assms(1) Inr none ts all_matched_length [OF filed d sts]
    by (auto simp: seal_batch_def Let_def split: if_splits option.splits)
  then show ?thesis using that Inr none by blast
qed (use assms in \<open>simp add: seal_batch_def\<close>)

lemma finish_round_verifies:
  assumes fin: "finish_round M L anchors ps ms sts = (L', Inr (Some b))" and sts: "sts = [] \<or> length sts = length ps"
    and codec: "\<And>n vals pf. px_prove (mx_plonky M) n vals = Inr pf \<Longrightarrow> px_from_bytes (mx_plonky M) n (px_to_bytes (mx_plonky M) pf) = Inr pf"
  shows "verify_plonky2 (mx_plonky M) b ps (mc_last_plonky2_bundle L') = Inr ()
    \<and> mb_validity_proofs b = ps \<and> mb_shard_anchors b = anchors
    \<and> mb_global_state_root b = global_state_root_from_anchors (mx_keccak256 M) anchors"
proof -
  let ?gsr = "global_state_root_from_anchors (mx_keccak256 M) anchors"
  obtain zk agg where ab: "aggregate_batch M (mc_height L) ?gsr ps sts = Inr (zk, agg)"
    and b: "b = round_block M L anchors ps ms zk"
    and bd: "mc_last_plonky2_bundle L' = map_option (bundle_from_aggregated (mc_height L)
        \<lparr>gs_global_state_root = ?gsr, gs_global_zk_root = zk, gs_validity_proofs = ps, gs_verified_stwo_statements = sts\<rparr>) agg"
    using fin credit_pays [of L ps]
    by (auto simp: finish_round_def Let_def round_block_def pays_def split: sum.splits prod.splits)
  have fields: "mb_validity_proofs b = ps" "mb_shard_anchors b = anchors" "mb_global_state_root b = ?gsr" "mb_global_zk_root b = zk"
      "mb_height b = mc_height L"
    by (simp_all add: b round_block_def masterchain_block_from_anchors_and_messages_def masterchain_block_from_anchors_def)
  have "verify_plonky2 (mx_plonky M) b ps (mc_last_plonky2_bundle L') = Inr ()"
  proof (cases "ps = []")
    case True
    then have "zk = 0" "agg = None" using ab by (simp_all add: aggregate_batch_def)
    then show ?thesis using True fields bd by (simp add: verify_plonky2_def verify_global_zk_root_def)
  next
    case False
    then obtain a where a: "agg = Some a" "zk = ag_global_zk_root a"
      and proved: "sts = [] \<and> prove_and_aggregate (mx_plonky M) (mc_height L) ?gsr ps = Inr a
        \<or> prove_and_aggregate_verified (mx_plonky M) (mc_height L) ?gsr ps sts = Inr a"
      using ab sts by (auto simp: aggregate_batch_def map_sum_def split: if_splits sum.splits)
    from aggregated_bundle_verifies [OF codec proved] show ?thesis
      by (simp add: verify_plonky2_def bd a fields bundle_from_aggregated_def)
  qed
  then show ?thesis using fields by simp
qed

lemma parse_plonky2_bundle_plain:
  "parse_plonky2_bundle hx v = Inr bd \<Longrightarrow> gs_verified_stwo_statements (pb_statement bd) = []"
  unfolding parse_plonky2_bundle_def Let_def by (erule try_okE) (auto split: if_splits elim!: try_okE)

lemma parsed_bundle_plain:
  assumes "parse_light_client_head_json hx v = Inr head" and "lh_plonky2 head = Some bd"
  shows "gs_verified_stwo_statements (pb_statement bd) = []"
proof -
  have "opt_field (j_get v ''plonky2'') (parse_plonky2_bundle hx) = Inr (lh_plonky2 head)"
    using assms(1) unfolding parse_light_client_head_json_def by (elim try_okE) (simp only: sum.inject, elim subst, simp)
  then show ?thesis
    using assms(2) parse_plonky2_bundle_plain by (auto simp: opt_field_def map_sum_def split: option.splits sum.splits)
qed

section \<open>Properties\<close>

text \<open>
  C10.  What the masterchain seals, a light client accepts: when a round of the masterchain seals a
  block, the block passes the verification of a light client together with the proof bundle that
  the ledger keeps for it, and the client then vouches for the height, the roots and the anchors of
  the block.
\<close>

theorem sealed_block_verifies_at_light_client:
  assumes seal: "seal_round M L prover = (L', Inr (Some b))" and filed: "statements_filed L"
    and codec: "\<And>n vals pf. px_prove (mx_plonky M) n vals = Inr pf \<Longrightarrow> px_from_bytes (mx_plonky M) n (px_to_bytes (mx_plonky M) pf) = Inr pf"
  shows "verify_masterchain_block M b (mc_last_plonky2_bundle L') =
    Inr \<lparr>vh_masterchain_height = mb_height b, vh_global_state_root = mb_global_state_root b,
         vh_global_zk_root = mb_global_zk_root b, vh_shard_anchors = bt_values (mc_latest_anchors L)\<rparr>"
proof -
  have busy: "mc_latest_anchors L \<noteq> []" "\<not> nothing_pending L" using seal seal_round_idle [of L M prover] by auto
  have "statements_filed (taken_round L prover)"
  proof (rule open_round_flushes [of L prover])
    fix L1 assume "flushes L L1"
      and "open_round L prover = mc_flush_due_forced_inclusions (L1\<lparr>mc_height := sat_add (mc_height L) 1\<rparr>)"
    then have "mc_pending_verified_stwo_statements (taken_round L prover) = mc_pending_verified_stwo_statements L"
      by (auto simp: taken_round_def flushes_def mc_flush_due_forced_inclusions_def split: prod.split)
    then show ?thesis using filed by (simp add: statements_filed_def)
  qed
  with seal [unfolded seal_round_batch [OF busy]]
  obtain ps m sts where dd: "dedupe_submissions (mc_pending_validity_proofs (open_round L prover)) = Inr ps"
    and valid: "first_invalid (bt_values (mc_latest_anchors L)) ps = None" and sts: "sts = [] \<or> length sts = length ps"
    and fin: "finish_round M (with_statements (taken_round L prover) m) (bt_values (mc_latest_anchors L)) ps
      (mc_pending_cross_shard_messages L) sts = (L', Inr (Some b))"
    by (rule seal_batch_statements)
  have "dedupe_submissions ps = Inr ps" using dd dedupe_Inr [OF dd] by simp
  then show ?thesis
    using finish_round_verifies [OF fin sts codec] valid by (auto simp: verified_iff first_invalid_None)
qed

text \<open>
  C11.  A state root determines the states: two heads that a light client has verified and that have
  the same global state root agree, for every shard, on whether they know it and on its height and
  state root, also when a head lists a shard twice, unless the hash collides on the two lists.
\<close>

theorem verified_heads_agree_on_shards:
  assumes ver: "verify_light_client_head M a = Inr ha" "verify_light_client_head M b = Inr hb"
    and root: "vh_global_state_root ha = vh_global_state_root hb"
    and ne: "vh_shard_anchors ha \<noteq> []" "vh_shard_anchors hb \<noteq> []"
    and hash: "inj_on (mx_keccak256 M) {concat (map anchor_bytes (sort_key sa_shard_id (vh_shard_anchors ha))),
      concat (map anchor_bytes (sort_key sa_shard_id (vh_shard_anchors hb)))}"
  shows "vh_shard_state_root ha shard = vh_shard_state_root hb shard
    \<and> map_option sa_block_height (vh_shard_anchor ha shard) = map_option sa_block_height (vh_shard_anchor hb shard)"
proof -
  have "global_state_root_from_anchors (mx_keccak256 M) (vh_shard_anchors h) = vh_global_state_root h"
    if "verify_light_client_head M c = Inr h" for c h
    using that by (auto simp: verify_light_client_head_def verified_iff)
  then have "map anchor_fields (sort_key sa_shard_id (vh_shard_anchors ha)) = map anchor_fields (sort_key sa_shard_id (vh_shard_anchors hb))"
    using ver root by (intro anchors_determined [OF _ ne hash]) simp
  from find_map_fields [OF this, of shard]
  have "map_option anchor_fields (vh_shard_anchor ha shard) = map_option anchor_fields (vh_shard_anchor hb shard)"
    by (simp add: vh_shard_anchor_def find_sort_key)
  then show ?thesis
    by (auto simp: vh_shard_state_root_def anchor_fields_def map_option_case split: option.splits)
qed

text \<open>
  A fetched head cannot carry a round of verified statements: the parser drops the verified
  statements of a bundle, so a head whose root was made from verified statements is rejected, unless
  the Poseidon hash collides on the two statements.
\<close>

theorem parsed_verified_round_rejected:
  assumes parsed: "parse_light_client_head_json hx v = Inr head"
    and ne: "mb_validity_proofs (lh_masterchain head) \<noteq> []"
    and root: "mb_global_zk_root (lh_masterchain head) = hash_out_to_global_zk_root (poseidon_verified_statement_digest (mx_plonky M)
      (mb_height (lh_masterchain head)) (mb_global_state_root (lh_masterchain head)) (mb_validity_proofs (lh_masterchain head)) sts)"
    and hash: "\<And>w. length (px_hash_no_pad (mx_plonky M) w) = 4"
      "inj_on (px_hash_no_pad (mx_plonky M))
        {u64s_to_fields (encode_statement_u64 PLONKY2_AGGREGATOR_VERSION (mb_height (lh_masterchain head)) (mb_global_state_root (lh_masterchain head)) (mb_validity_proofs (lh_masterchain head))),
         u64s_to_fields (encode_verified_statement_u64 PLONKY2_AGGREGATOR_VERSION (mb_height (lh_masterchain head)) (mb_global_state_root (lh_masterchain head)) (mb_validity_proofs (lh_masterchain head)) sts)}"
  shows "\<exists>e. verify_light_client_head M head = Inl e"
proof (rule ccontr)
  let ?b = "lh_masterchain head"
  let ?plain = "encode_statement_u64 PLONKY2_AGGREGATOR_VERSION (mb_height ?b) (mb_global_state_root ?b) (mb_validity_proofs ?b)"
  let ?full = "encode_verified_statement_u64 PLONKY2_AGGREGATOR_VERSION (mb_height ?b) (mb_global_state_root ?b) (mb_validity_proofs ?b) sts"
  assume "\<nexists>e. verify_light_client_head M head = Inl e"
  then obtain h where "verify_light_client_head M head = Inr h" by (cases "verify_light_client_head M head") auto
  then have ok: "verify_plonky2 (mx_plonky M) ?b (mb_validity_proofs ?b) (lh_plonky2 head) = Inr ()"
    by (simp add: verify_light_client_head_def verified_iff)
  then obtain bd where bd: "lh_plonky2 head = Some bd" using ne by (auto simp: verify_plonky2_def split: option.splits if_splits)
  then have plain: "gs_verified_stwo_statements (pb_statement bd) = []"
    by (rule parsed_bundle_plain [OF parsed])
  have st: "bundle_verify (mx_plonky M) bd = Inr ()" "pb_masterchain_height bd = mb_height ?b"
      "gs_global_state_root (pb_statement bd) = mb_global_state_root ?b" "gs_global_zk_root (pb_statement bd) = mb_global_zk_root ?b"
      "gs_validity_proofs (pb_statement bd) = mb_validity_proofs ?b"
    using ok by (auto simp: verify_plonky2_def bd map_sum_Inr split: if_splits)
  have "px_hash_no_pad (mx_plonky M) (u64s_to_fields ?plain) = px_hash_no_pad (mx_plonky M) (u64s_to_fields ?full)"
    using accepted_root(1) [OF st(1)] plain st(2-5) ne root hash(1)
    by (intro hash_out_inject) (simp_all add: bundle_statement_def poseidon_verified_statement_digest_def)
  then have "u64s_to_fields ?plain = u64s_to_fields ?full" by (rule inj_onD [OF hash(2)]) simp_all
  then have "length ?plain = length ?full" using length_fields by metis
  then show False by (simp add: statement_field_len_def verified_statement_field_len_def MAX_AGG_PROOFS_def)
qed

section \<open>Samples\<close>

theorem sealed_block_verifies_at_light_client_witness:
  "\<exists>L' b h. seal_round sample_mc (fst (submit_validity_proof sample_mc anchored (sample_submission 1))) 7 = (L', Inr (Some b))
     \<and> verify_masterchain_block sample_mc b (mc_last_plonky2_bundle L') = Inr h"
proof -
  obtain L' b where seal: "seal_round sample_mc (fst (submit_validity_proof sample_mc anchored (sample_submission 1))) 7 = (L', Inr (Some b))"
    using sample_round_sealed by blast
  have "statements_filed (fst (submit_validity_proof sample_mc anchored (sample_submission 1)))"
    unfolding sample_submitted by (simp add: statements_filed_def anchored_eq default_ledger_def)
  moreover have "mx_plonky sample_mc = sample_plonky" by (simp add: sample_mc_def)
  ultimately show ?thesis using seal sealed_block_verifies_at_light_client [OF seal] sample_codec_reads by fastforce
qed

definition lc_anchor :: "u32 \<Rightarrow> hash256 \<Rightarrow> shard_anchor" where
  "lc_anchor i root = \<lparr>sa_shard_id = i, sa_block_height = 9, sa_state_root = root, sa_witness_commitment = 6\<rparr>"

definition lc_head :: "shard_anchor list \<Rightarrow> light_client_head" where
  "lc_head as = \<lparr>lh_masterchain = masterchain_block_from_anchors (mx_keccak256 sample_mc) 4 as [] 0,
     lh_plonky2 = None, lh_execution_shard_id = None, lh_execution_tip_height = None, lh_execution_tip_state_root = None\<rparr>"

lemma lc_head_verifies:
  "verify_light_client_head sample_mc (lc_head as) = Inr \<lparr>vh_masterchain_height = 4,
     vh_global_state_root = global_state_root_from_anchors (mx_keccak256 sample_mc) as, vh_global_zk_root = 0, vh_shard_anchors = as\<rparr>"
  by (simp add: verify_light_client_head_def verified_iff lc_head_def masterchain_block_from_anchors_def dedupe_submissions_def
      verify_plonky2_def verify_global_zk_root_def)

theorem verified_heads_agree_on_shards_witness:
  "\<exists>ha hb. verify_light_client_head sample_mc (lc_head [lc_anchor 1 5, lc_anchor 2 6]) = Inr ha
     \<and> verify_light_client_head sample_mc (lc_head [lc_anchor 2 6, lc_anchor 1 5]) = Inr hb
     \<and> vh_shard_state_root ha 2 = vh_shard_state_root hb 2"
proof -
  let ?as = "[lc_anchor 1 5, lc_anchor 2 6]" and ?bs = "[lc_anchor 2 6, lc_anchor 1 5]"
  have same: "sort_key sa_shard_id ?as = sort_key sa_shard_id ?bs" by code_simp
  then show ?thesis
    using verified_heads_agree_on_shards [OF lc_head_verifies [of ?as] lc_head_verifies [of ?bs], of 2]
    by (simp add: lc_head_verifies global_state_root_from_anchors_def same)
qed

text \<open>A hash that tells statements of different lengths apart, a decoder of three texts, and a head in JSON.\<close>

definition lc_mc :: "bytes mc_ext" where
  "lc_mc = sample_mc\<lparr>mx_plonky := sample_plonky\<lparr>px_hash_no_pad := (\<lambda>v. [of_nat (length v), 0, 0, 0])\<rparr>\<rparr>"

definition lc_hex :: hex_decode where
  "lc_hex s = (if s = ''aa'' then Some (replicate 20 1) else if s = ''bb'' then Some (replicate 31 0 @ [8])
     else if s = ''cc'' then Some ([168, 1] @ replicate 30 0) else None)"

definition lc_row :: json where
  "lc_row = JObject [(''shardId'', JString ''0x1''), (''startBlock'', JString ''0x1''), (''endBlock'', JString ''0xA''),
     (''prover'', JString ''0xaa''), (''lagSeconds'', JInt 3), (''proofDigest'', JString ''0xbb'')]"

definition lc_json :: json where
  "lc_json = JObject [(''height'', JString ''0x4''), (''shardAnchors'', JArray []), (''validityProofs'', JArray [lc_row]),
     (''globalStateRoot'', JString ''0xbb''), (''globalZkRoot'', JString ''0xcc'')]"

definition lc_parsed :: light_client_head where
  "lc_parsed = \<lparr>lh_masterchain = \<lparr>mb_height = 4, mb_shard_anchors = [],
       mb_validity_proofs = [\<lparr>ps_shard_id = 1, ps_start_block = 1, ps_end_block = 10, ps_prover = le_word (replicate 20 1), ps_lag_seconds = 3,
         ps_proof_digest = 8\<rparr>],
       mb_zone_proof_commitments = [], mb_global_state_root = 8, mb_global_zk_root = hash_out_to_global_zk_root [424, 0, 0, 0],
       mb_forced_inclusion_queue_root = 0, mb_cross_shard_messages = []\<rparr>,
     lh_plonky2 = None, lh_execution_shard_id = None, lh_execution_tip_height = None, lh_execution_tip_state_root = None\<rparr>"

lemma lc_digits: "hex_digit (CHR ''1'') = Some 1" "hex_digit (CHR ''4'') = Some 4" "hex_digit (CHR ''A'') = Some 10"
  by code_simp+

lemma lc_words:
  "(le_word (8 # replicate 31 0) :: hash256) = 8"
  "(le_word (replicate 30 0 @ [1, 168]) :: hash256) = hash_out_to_global_zk_root [424, 0, 0, 0]"
  by code_simp+

lemmas lc_parsing = str_field_def or_json_def try_ok_def opt_field_def parse_u64_hex_def parse_u32_hex_def parse_hash32_def
  parse_address20_def parse_hex_bytes_def strip_0x_def from_str_radix16_def lc_digits lc_hex_def Let_def

lemma lc_row_parses: "parse_submission_row lc_hex lc_row = Inr \<lparr>ps_shard_id = 1, ps_start_block = 1, ps_end_block = 10,
    ps_prover = le_word (replicate 20 1), ps_lag_seconds = 3, ps_proof_digest = 8\<rparr>"
  by (simp add: parse_submission_row_def lc_row_def lc_parsing lc_words)

lemma lc_json_parses: "parse_light_client_head_json lc_hex lc_json = Inr lc_parsed"
  by (simp add: parse_light_client_head_json_def lc_json_def lc_parsing lc_words lc_parsed_def parse_shard_anchors_def
      parse_proof_submissions_def parse_cross_shard_messages_def lc_row_parses)

theorem parsed_verified_round_rejected_witness: "\<exists>e. verify_light_client_head lc_mc lc_parsed = Inl e"
  by (rule parsed_verified_round_rejected [OF lc_json_parses, where sts = "[]"])
    (simp_all add: lc_parsed_def lc_mc_def poseidon_verified_statement_digest_def verified_statement_field_len_def statement_field_len_def
      MAX_AGG_PROOFS_def inj_on_def)

end
