(* ===== verification/Agent_Life.thy ===== *)
theory Agent_Life
  imports BTree_Map Shard_Routing "HOL-Library.Char_ord" "HOL-Library.List_Lexorder"
begin

text \<open>
  The life cycle of agent souls (\<open>crates/agent-life/src/lib.rs\<close>): birth, rent, extensions, credit
  lines, wills, death, inheritance and the reaper that runs them once per epoch.

  Identifiers and states are strings, as in the code, and the maps are in the order of their keys,
  since the reaper walks them.  Hashes of JSON bodies are a parameter; the bodies are values of
  \<open>life_body\<close>.  The ladder weights of the parameters are floating-point data that no operation
  reads; they are left out.  The decimal digits in the name of an heir are those of \<open>Shard_Routing\<close>.

  Sums and products that the code leaves unchecked wrap, as in a release build.
\<close>

section \<open>Data\<close>

record rent_params =
  rt_base_rent_micro_credits :: u64
  rt_storage_rent_per_kb_micro_credits :: u64
  rt_sii_discount_bps_by_quartile :: "string \<rightharpoonup> int"

record life_extension_params =
  le_ext_base_micro_credits :: u64
  le_exponent :: u32
  le_epochs_granted :: u64
  le_will_lock_reopen_epochs :: "u64 option"

record spawn_params =
  sp_spawn_cost_micro_credits :: u64
  sp_child_grant_micro_credits :: u64
  sp_genome_byte_cost_micro_credits :: u64

record loan_params =
  lo_debt_ceiling_micro_credits :: u64
  lo_interest_bps_per_epoch :: u64
  lo_grace_epochs :: u64

record death_params =
  dp_burn_account_id :: string
  dp_natural_life_epochs :: u64
  dp_insolvency_grace_epochs :: u64

record life_genesis_params =
  lg_schema :: string
  lg_epoch_length_seconds :: u64
  lg_season_epochs :: u64
  lg_rent :: rent_params
  lg_life_extension :: life_extension_params
  lg_spawn :: spawn_params
  lg_loans :: loan_params
  lg_death :: death_params

record genome_manifest =
  gm_genome_id :: string
  gm_manifest_hash :: string
  gm_byte_size :: u64
  gm_parent_genome_hash :: "string option"

record agent_soul =
  so_soul_id :: string
  so_class :: string
  so_owner_account_id :: string
  so_status :: string
  so_balance :: u64
  so_debt :: u64
  so_born_epoch :: u64
  so_natural_death_epoch :: u64
  so_extensions_purchased :: u64
  so_child_soul_ids :: "string list"
  so_genome :: "genome_manifest option"
  so_parent_soul_id :: "string option"
  so_insolvent_since_epoch :: "u64 option"
  so_death_epoch :: "u64 option"
  so_death_reason :: "string option"

record credit_line =
  cl_loan_id :: string
  cl_lender_soul_id :: string
  cl_borrower_soul_id :: string
  cl_principal :: u64
  cl_outstanding :: u64
  cl_interest_bps_per_epoch :: u64
  cl_opened_epoch :: u64
  cl_accepted_epoch :: "u64 option"
  cl_repaid_epoch :: "u64 option"
  cl_defaulted_epoch :: "u64 option"
  cl_collateral_soul_id :: "string option"
  cl_status :: string

record will =
  wl_will_id :: string
  wl_soul_id :: string
  wl_heir_soul_ids :: "string list"
  wl_unborn_heirs :: "genome_manifest list"
  wl_created_epoch :: u64
  wl_updated_epoch :: u64

record inheritance_settlement_rec =
  is_settlement_id :: string
  is_dead_soul_id :: string
  is_epoch :: u64
  is_heirs :: "(string \<times> u64) list"
  is_burned_remainder :: u64
  is_settlement_hash :: string

record life_event =
  ev_event_id :: string
  ev_kind :: string
  ev_epoch :: u64
  ev_soul_id :: "string option"
  ev_payload_hash :: string

record reaper_report =
  rr_epoch :: u64
  rr_rent_events :: nat
  rr_interest_events :: nat
  rr_insolvency_events :: nat
  rr_death_events :: nat
  rr_spawned_heirs :: nat
  rr_settlement_events :: nat
  rr_report_hash :: string

record life_state =
  ls_epoch :: u64
  ls_souls :: "(string, agent_soul) btree"
  ls_lineage :: "(string, string list) btree"
  ls_loans :: "(string, credit_line) btree"
  ls_wills :: "(string, will) btree"
  ls_settlements :: "(string, inheritance_settlement_rec) btree"
  ls_reaper_reports :: "reaper_report list"
  ls_events :: "life_event list"

datatype life_error =
    InvalidParamsSchema
  | SoulNotFound string
  | SoulDead string
  | InsufficientBalance
  | LoanNotFound string
  | LifeIo string
  | LifeJson string

type_synonym 'a life_exec = "(life_state, life_error, 'a) exec"

text \<open>The values that are serialised to JSON and hashed.\<close>

datatype life_body =
    SoulBody agent_soul
  | RentBody u64 u64
  | LoanBody credit_line
  | RepayBody string u64 string
  | WillBody will
  | TopUpBody u64
  | ExtensionBody u64 u64
  | DeathBody string
  | PayoutsBody "(string \<times> u64) list"
  | InterestBody string u64
  | QuarantineBody u64
  | EventBody string u64 "string option" string nat
  | SettlementBody string u64 "(string \<times> u64) list" u64
  | ReportBody u64 "string list"

type_synonym hash_json = "life_body \<Rightarrow> string"

definition LIFE_GENESIS_PARAMS_SCHEMA_V1 :: string where
  "LIFE_GENESIS_PARAMS_SCHEMA_V1 = ''life.genesis_params.v1''"

text \<open>Reading and parsing the file are the standard library and \<open>serde\<close>; their result is the argument.\<close>

definition load_life_genesis_params :: "life_error + life_genesis_params \<Rightarrow> life_error + life_genesis_params" where
  "load_life_genesis_params parsed =
     (case parsed of
        Inl e \<Rightarrow> Inl e
      | Inr params \<Rightarrow> if lg_schema params \<noteq> LIFE_GENESIS_PARAMS_SCHEMA_V1 then Inl InvalidParamsSchema else Inr params)"

definition create_initial_life_state :: life_state where
  "create_initial_life_state = \<lparr>ls_epoch = 0, ls_souls = [], ls_lineage = [], ls_loans = [], ls_wills = [],
     ls_settlements = [], ls_reaper_reports = [], ls_events = []\<rparr>"

section \<open>Events, birth and rent\<close>

definition append_event :: "hash_json \<Rightarrow> life_state \<Rightarrow> string \<Rightarrow> u64 \<Rightarrow> string option \<Rightarrow> life_body \<Rightarrow> life_state" where
  "append_event H s kind epoch soul_id payload =
     (let payload_hash = H payload;
          event_id = ''life_evt_'' @ take 20 (H (EventBody kind epoch soul_id payload_hash (length (ls_events s))))
      in s\<lparr>ls_events := ls_events s @ [\<lparr>ev_event_id = event_id, ev_kind = kind, ev_epoch = epoch,
             ev_soul_id = soul_id, ev_payload_hash = payload_hash\<rparr>]\<rparr>)"

definition put_soul :: "string \<Rightarrow> agent_soul \<Rightarrow> life_state \<Rightarrow> life_state" where
  "put_soul soul_id soul s = s\<lparr>ls_souls := bt_insert soul_id soul (ls_souls s)\<rparr>"

definition put_loan :: "string \<Rightarrow> credit_line \<Rightarrow> life_state \<Rightarrow> life_state" where
  "put_loan loan_id loan s = s\<lparr>ls_loans := bt_insert loan_id loan (ls_loans s)\<rparr>"

definition create_soul ::
    "life_genesis_params \<Rightarrow> string \<Rightarrow> string \<Rightarrow> string \<Rightarrow> u64 \<Rightarrow> u64 \<Rightarrow> string option \<Rightarrow> agent_soul" where
  "create_soul p soul_id cls owner balance born_epoch parent =
     \<lparr>so_soul_id = soul_id, so_class = cls, so_owner_account_id = owner, so_status = ''alive'', so_balance = balance,
      so_debt = 0, so_born_epoch = born_epoch, so_natural_death_epoch = born_epoch + dp_natural_life_epochs (lg_death p),
      so_extensions_purchased = 0, so_child_soul_ids = [], so_genome = None, so_parent_soul_id = parent,
      so_insolvent_since_epoch = None, so_death_epoch = None, so_death_reason = None\<rparr>"

definition add_to_parent :: "life_state \<Rightarrow> string \<Rightarrow> string \<Rightarrow> life_state" where
  "add_to_parent s parent child =
     (let s1 = s\<lparr>ls_lineage := bt_insert parent (unwrap_or (bt_get (ls_lineage s) parent) [] @ [child]) (ls_lineage s)\<rparr>
      in case bt_get (ls_souls s1) parent of
          None \<Rightarrow> s1
        | Some ps \<Rightarrow> put_soul parent (ps\<lparr>so_child_soul_ids := sort (so_child_soul_ids ps @ [child])\<rparr>) s1)"

definition add_soul :: "hash_json \<Rightarrow> life_state \<Rightarrow> agent_soul \<Rightarrow> life_state" where
  "add_soul H s soul =
     (let s1 = (case so_parent_soul_id soul of None \<Rightarrow> s | Some parent \<Rightarrow> add_to_parent s parent (so_soul_id soul));
          s2 = append_event H s1 ''birth'' (so_born_epoch soul) (Some (so_soul_id soul)) (SoulBody soul)
      in put_soul (so_soul_id soul) soul s2)"

definition div_ceil :: "u64 \<Rightarrow> u64 \<Rightarrow> u64" where
  "div_ceil a b = a div b + (if a mod b = 0 then 0 else 1)"

text \<open>
  The discounted rent in 128-bit signed arithmetic, truncated to 64 bits; the division is by a
  positive number and rounds towards zero.
\<close>

definition wrap_i128 :: "int \<Rightarrow> int" where
  "wrap_i128 x = signed_take_bit 127 x"

definition discounted :: "u64 \<Rightarrow> int \<Rightarrow> u64" where
  "discounted subtotal bps =
     (let prod = wrap_i128 (uint subtotal * (10000 - bps));
          quot = (if 0 \<le> prod then prod div 10000 else - ((- prod) div 10000))
      in word_of_int (max quot 0))"

definition charge_rent :: "hash_json \<Rightarrow> life_state \<Rightarrow> life_genesis_params \<Rightarrow> string \<Rightarrow> u64 \<Rightarrow> u64 \<Rightarrow> string \<Rightarrow> u64 life_exec" where
  "charge_rent H s p soul_id epoch storage_bytes quartile =
     (case bt_get (ls_souls s) soul_id of
        None \<Rightarrow> (s, Inl (SoulNotFound soul_id))
      | Some soul \<Rightarrow>
          if so_status soul = ''dead'' then (s, Inl (SoulDead soul_id))
          else
            let storage = div_ceil storage_bytes 1024 * rt_storage_rent_per_kb_micro_credits (lg_rent p);
                subtotal = rt_base_rent_micro_credits (lg_rent p) + storage;
                bps = unwrap_or (rt_sii_discount_bps_by_quartile (lg_rent p) quartile) 0;
                charged = discounted subtotal bps;
                paid = min charged (so_balance soul);
                soul' = soul\<lparr>so_balance := so_balance soul - paid, so_debt := so_debt soul + (charged - paid)\<rparr>
            in (append_event H (put_soul soul_id soul' s) ''rent'' epoch (Some soul_id) (RentBody charged (charged - paid)),
                Inr charged))"

definition extension_price :: "life_genesis_params \<Rightarrow> u64 \<Rightarrow> u64" where
  "extension_price p extensions_purchased =
     le_ext_base_micro_credits (lg_life_extension p) * (extensions_purchased + 1) ^ unat (le_exponent (lg_life_extension p))"

definition spawn_cost :: "life_genesis_params \<Rightarrow> genome_manifest option \<Rightarrow> u64" where
  "spawn_cost p genome =
     sp_spawn_cost_micro_credits (lg_spawn p)
     + (case genome of None \<Rightarrow> 0 | Some g \<Rightarrow> gm_byte_size g * sp_genome_byte_cost_micro_credits (lg_spawn p))"

section \<open>Credit lines\<close>

definition open_credit_line ::
    "hash_json \<Rightarrow> life_state \<Rightarrow> life_genesis_params \<Rightarrow> string \<Rightarrow> string \<Rightarrow> string \<Rightarrow> u64 \<Rightarrow> u64 \<Rightarrow> string option \<Rightarrow> credit_line life_exec" where
  "open_credit_line H s p loan_id lender borrower amount epoch collateral =
     (if lo_debt_ceiling_micro_credits (lg_loans p) < amount then (s, Inl InsufficientBalance)
      else if bt_get (ls_souls s) lender = None then (s, Inl (SoulNotFound lender))
      else if bt_get (ls_souls s) borrower = None then (s, Inl (SoulNotFound borrower))
      else
        let loan = \<lparr>cl_loan_id = loan_id, cl_lender_soul_id = lender, cl_borrower_soul_id = borrower, cl_principal = amount,
              cl_outstanding = amount, cl_interest_bps_per_epoch = lo_interest_bps_per_epoch (lg_loans p), cl_opened_epoch = epoch,
              cl_accepted_epoch = None, cl_repaid_epoch = None, cl_defaulted_epoch = None, cl_collateral_soul_id = collateral,
              cl_status = ''open''\<rparr>
        in (append_event H (put_loan loan_id loan s) ''loan_open'' epoch (Some borrower) (LoanBody loan), Inr loan))"

definition credit_soul :: "string \<Rightarrow> u64 \<Rightarrow> life_state \<Rightarrow> life_state" where
  "credit_soul soul_id amount s =
     (case bt_get (ls_souls s) soul_id of
        None \<Rightarrow> s
      | Some soul \<Rightarrow> put_soul soul_id (soul\<lparr>so_balance := sat_add (so_balance soul) amount\<rparr>) s)"

definition accept_credit_line :: "hash_json \<Rightarrow> life_state \<Rightarrow> string \<Rightarrow> u64 \<Rightarrow> credit_line life_exec" where
  "accept_credit_line H s loan_id epoch =
     (case bt_get (ls_loans s) loan_id of
        None \<Rightarrow> (s, Inl (LoanNotFound loan_id))
      | Some loan \<Rightarrow>
          if cl_status loan \<noteq> ''open'' then (s, Inr loan)
          else
            let loan' = loan\<lparr>cl_status := ''accepted'', cl_accepted_epoch := Some epoch\<rparr>;
                s1 = credit_soul (cl_borrower_soul_id loan) (cl_principal loan) (put_loan loan_id loan' s)
            in (append_event H s1 ''loan_accept'' epoch (Some (cl_borrower_soul_id loan)) (LoanBody loan'), Inr loan'))"

definition repay_credit_line :: "hash_json \<Rightarrow> life_state \<Rightarrow> string \<Rightarrow> u64 \<Rightarrow> u64 \<Rightarrow> credit_line life_exec" where
  "repay_credit_line H s loan_id amount epoch =
     (case bt_get (ls_loans s) loan_id of
        None \<Rightarrow> (s, Inl (LoanNotFound loan_id))
      | Some loan \<Rightarrow>
          if cl_status loan \<noteq> ''accepted'' then (s, Inr loan)
          else
            let borrower_id = cl_borrower_soul_id loan; pay = min amount (cl_outstanding loan)
            in (case bt_get (ls_souls s) borrower_id of
                None \<Rightarrow> (s, Inl (SoulNotFound borrower_id))
              | Some b \<Rightarrow>
                  if so_balance b < pay then (s, Inl InsufficientBalance)
                  else
                    let b' = b\<lparr>so_balance := so_balance b - pay, so_debt := sat_sub (so_debt b) pay\<rparr>;
                        loan1 = loan\<lparr>cl_outstanding := cl_outstanding loan - pay\<rparr>;
                        loan' = (if cl_outstanding loan1 = 0 then loan1\<lparr>cl_status := ''repaid'', cl_repaid_epoch := Some epoch\<rparr> else loan1);
                        s1 = put_loan loan_id loan' (put_soul borrower_id b' s)
                    in (append_event H s1 ''loan_repay'' epoch (Some borrower_id) (RepayBody loan_id pay (cl_status loan')), Inr loan')))"

section \<open>Wills, extensions and death\<close>

definition register_will ::
    "hash_json \<Rightarrow> life_state \<Rightarrow> string \<Rightarrow> string \<Rightarrow> string list \<Rightarrow> genome_manifest list \<Rightarrow> u64 \<Rightarrow> will life_exec" where
  "register_will H s will_id soul_id heirs unborn epoch =
     (if bt_get (ls_souls s) soul_id = None then (s, Inl (SoulNotFound soul_id))
      else
        let created = (case bt_get (ls_wills s) will_id of None \<Rightarrow> epoch | Some w \<Rightarrow> wl_created_epoch w);
            w = \<lparr>wl_will_id = will_id, wl_soul_id = soul_id, wl_heir_soul_ids = dedup_by (\<lambda>x. x) (sort heirs),
                 wl_unborn_heirs = unborn, wl_created_epoch = created, wl_updated_epoch = epoch\<rparr>
        in (append_event H (s\<lparr>ls_wills := bt_insert will_id w (ls_wills s)\<rparr>) ''will'' epoch (Some soul_id) (WillBody w), Inr w))"

definition owner_top_up :: "hash_json \<Rightarrow> life_state \<Rightarrow> string \<Rightarrow> u64 \<Rightarrow> u64 \<Rightarrow> unit life_exec" where
  "owner_top_up H s soul_id amount epoch =
     (case bt_get (ls_souls s) soul_id of
        None \<Rightarrow> (s, Inl (SoulNotFound soul_id))
      | Some soul \<Rightarrow>
          (append_event H (put_soul soul_id (soul\<lparr>so_balance := sat_add (so_balance soul) amount\<rparr>) s)
             ''owner_topup'' epoch (Some soul_id) (TopUpBody amount), Inr ()))"

definition purchase_extension :: "hash_json \<Rightarrow> life_state \<Rightarrow> life_genesis_params \<Rightarrow> string \<Rightarrow> u64 \<Rightarrow> u64 life_exec" where
  "purchase_extension H s p soul_id epoch =
     (case bt_get (ls_souls s) soul_id of
        None \<Rightarrow> (s, Inl (SoulNotFound soul_id))
      | Some soul \<Rightarrow>
          if so_status soul = ''dead'' then (s, Inl (SoulDead soul_id))
          else
            let price = extension_price p (so_extensions_purchased soul)
            in if so_balance soul < price then (s, Inl InsufficientBalance)
               else
                 let soul' = soul\<lparr>so_balance := so_balance soul - price, so_extensions_purchased := so_extensions_purchased soul + 1,
                       so_natural_death_epoch := so_natural_death_epoch soul + le_epochs_granted (lg_life_extension p)\<rparr>
                 in (append_event H (put_soul soul_id soul' s) ''extension'' epoch (Some soul_id)
                       (ExtensionBody price (so_natural_death_epoch soul')), Inr price))"

definition mark_dead :: "hash_json \<Rightarrow> life_state \<Rightarrow> string \<Rightarrow> u64 \<Rightarrow> string \<Rightarrow> unit life_exec" where
  "mark_dead H s soul_id epoch reason =
     (case bt_get (ls_souls s) soul_id of
        None \<Rightarrow> (s, Inl (SoulNotFound soul_id))
      | Some soul \<Rightarrow>
          if so_status soul = ''dead'' then (s, Inr ())
          else
            (append_event H (put_soul soul_id (soul\<lparr>so_status := ''dead'', so_death_epoch := Some epoch, so_death_reason := Some reason\<rparr>) s)
               ''death'' epoch (Some soul_id) (DeathBody reason), Inr ()))"

section \<open>Inheritance\<close>

definition living :: "life_state \<Rightarrow> string \<Rightarrow> bool" where
  "living s soul_id \<longleftrightarrow> (case bt_get (ls_souls s) soul_id of None \<Rightarrow> False | Some soul \<Rightarrow> so_status soul \<noteq> ''dead'')"

definition will_of :: "life_state \<Rightarrow> string \<Rightarrow> will option" where
  "will_of s soul_id = find (\<lambda>w. wl_soul_id w = soul_id) (bt_values (ls_wills s))"

definition kin_set :: "life_state \<Rightarrow> string \<Rightarrow> string list" where
  "kin_set s soul_id =
     (case bt_get (ls_souls s) soul_id of
        None \<Rightarrow> []
      | Some soul \<Rightarrow>
          let explicit = filter (living s) (case will_of s soul_id of None \<Rightarrow> [] | Some w \<Rightarrow> wl_heir_soul_ids w)
          in if explicit \<noteq> [] then explicit
             else
               let children = filter (living s) (unwrap_or (bt_get (ls_lineage s) soul_id) [])
               in if children \<noteq> [] then children
                  else (case so_parent_soul_id soul of
                      None \<Rightarrow> []
                    | Some parent \<Rightarrow>
                        sort (filter (\<lambda>i. i \<noteq> soul_id \<and> living s i) (unwrap_or (bt_get (ls_lineage s) parent) []))))"

definition inheritance_settlement :: "hash_json \<Rightarrow> string \<Rightarrow> u64 \<Rightarrow> (string \<times> u64) list \<Rightarrow> u64 \<Rightarrow> inheritance_settlement_rec" where
  "inheritance_settlement H dead epoch heirs remainder =
     (let h = H (SettlementBody dead epoch heirs remainder)
      in \<lparr>is_settlement_id = ''inheritance_'' @ take 20 h, is_dead_soul_id = dead, is_epoch = epoch, is_heirs = heirs,
          is_burned_remainder = remainder, is_settlement_hash = h\<rparr>)"

definition clear_balance :: "string \<Rightarrow> life_state \<Rightarrow> life_state" where
  "clear_balance soul_id s =
     (case bt_get (ls_souls s) soul_id of None \<Rightarrow> s | Some soul \<Rightarrow> put_soul soul_id (soul\<lparr>so_balance := 0\<rparr>) s)"

definition put_settlement :: "inheritance_settlement_rec \<Rightarrow> life_state \<Rightarrow> life_state" where
  "put_settlement r s = s\<lparr>ls_settlements := bt_insert (is_settlement_id r) r (ls_settlements s)\<rparr>"

text \<open>The loop over the heirs: the dust goes to the first ones, and an heir that is not found gets nothing.\<close>

fun pay_heirs :: "life_state \<Rightarrow> u64 \<Rightarrow> u64 \<Rightarrow> string list \<Rightarrow> life_state \<times> (string \<times> u64) list" where
  "pay_heirs s base dust [] = (s, [])"
| "pay_heirs s base dust (heir # heirs) =
     (let extra = (if 0 < dust then 1 else 0); amount = base + extra
      in case bt_get (ls_souls s) heir of
          None \<Rightarrow> pay_heirs s base (sat_sub dust extra) heirs
        | Some _ \<Rightarrow>
            (case pay_heirs (credit_soul heir amount s) base (sat_sub dust extra) heirs of
               (s', payouts) \<Rightarrow> (s', (heir, amount) # payouts)))"

definition settle_inheritance :: "hash_json \<Rightarrow> life_state \<Rightarrow> string \<Rightarrow> u64 \<Rightarrow> (string \<times> u64) list life_exec" where
  "settle_inheritance H s dead epoch =
     (let heirs = kin_set s dead
      in case bt_get (ls_souls s) dead of
          None \<Rightarrow> (s, Inl (SoulNotFound dead))
        | Some soul \<Rightarrow>
            let estate = so_balance soul
            in if heirs = [] \<or> estate = 0
               then (put_settlement (inheritance_settlement H dead epoch [] estate) (clear_balance dead s), Inr [])
               else
                 let base = estate div of_nat (length heirs);
                     dust = estate - base * of_nat (length heirs);
                     (s1, payouts) = pay_heirs s base dust heirs;
                     s2 = put_settlement (inheritance_settlement H dead epoch payouts 0) (clear_balance dead s1)
                 in (append_event H s2 ''inheritance'' epoch (Some dead) (PayoutsBody payouts), Inr payouts))"

section \<open>The reaper\<close>

definition accrue_loan :: "hash_json \<Rightarrow> life_genesis_params \<Rightarrow> u64 \<Rightarrow> life_state \<Rightarrow> string \<Rightarrow> life_state" where
  "accrue_loan H p epoch s loan_id =
     (case bt_get (ls_loans s) loan_id of
        None \<Rightarrow> s
      | Some loan \<Rightarrow>
          if cl_status loan \<noteq> ''accepted'' then s
          else
            let rate = max (cl_interest_bps_per_epoch loan) (lo_interest_bps_per_epoch (lg_loans p));
                interest = div_ceil (sat_mul (cl_outstanding loan) rate) 10000
            in if interest = 0 then s
               else
                 let s1 = put_loan loan_id (loan\<lparr>cl_outstanding := sat_add (cl_outstanding loan) interest\<rparr>) s;
                     borrower_id = cl_borrower_soul_id loan;
                     s2 = (case bt_get (ls_souls s1) borrower_id of
                             None \<Rightarrow> s1
                           | Some b \<Rightarrow> put_soul borrower_id (b\<lparr>so_debt := sat_add (so_debt b) interest\<rparr>) s1)
                 in append_event H s2 ''loan_interest'' epoch (Some borrower_id) (InterestBody loan_id interest))"

definition accrue_interest :: "hash_json \<Rightarrow> life_state \<Rightarrow> life_genesis_params \<Rightarrow> u64 \<Rightarrow> unit life_exec" where
  "accrue_interest H s p epoch = (foldl (accrue_loan H p epoch) s (map fst (ls_loans s)), Inr ())"

definition judge_soul :: "hash_json \<Rightarrow> u64 \<Rightarrow> life_state \<Rightarrow> string \<Rightarrow> life_state" where
  "judge_soul H epoch s soul_id =
     (case bt_get (ls_souls s) soul_id of
        None \<Rightarrow> s
      | Some soul \<Rightarrow>
          if so_status soul = ''dead'' then s
          else if 0 < so_debt soul \<and> so_balance soul = 0
          then
            let soul1 = (if so_insolvent_since_epoch soul = None then soul\<lparr>so_insolvent_since_epoch := Some epoch\<rparr> else soul)
            in if so_status soul \<noteq> ''quarantined''
               then append_event H (put_soul soul_id (soul1\<lparr>so_status := ''quarantined''\<rparr>) s) ''quarantine'' epoch (Some soul_id)
                      (QuarantineBody (so_debt soul))
               else put_soul soul_id soul1 s
          else
            let soul1 = soul\<lparr>so_insolvent_since_epoch := None\<rparr>
            in put_soul soul_id (if so_status soul1 = ''quarantined'' then soul1\<lparr>so_status := ''alive''\<rparr> else soul1) s)"

definition mark_insolvent_souls :: "hash_json \<Rightarrow> life_state \<Rightarrow> u64 \<Rightarrow> unit life_exec" where
  "mark_insolvent_souls H s epoch = (foldl (judge_soul H epoch) s (map fst (ls_souls s)), Inr ())"

definition heir_id :: "string \<Rightarrow> u64 \<Rightarrow> nat \<Rightarrow> string" where
  "heir_id dead epoch index = dead @ ''-heir-'' @ decimal (unat epoch) @ ''-'' @ decimal index"

definition spawn_heir :: "hash_json \<Rightarrow> life_genesis_params \<Rightarrow> agent_soul \<Rightarrow> string \<Rightarrow> u64 \<Rightarrow> life_state \<Rightarrow> nat \<times> genome_manifest \<Rightarrow> life_state" where
  "spawn_heir H p dead dead_id epoch s ig =
     (case ig of (index, genome) \<Rightarrow>
        add_soul H s ((create_soul p (heir_id dead_id epoch index) (so_class dead) (so_owner_account_id dead)
          (sp_child_grant_micro_credits (lg_spawn p)) epoch (Some dead_id))\<lparr>so_genome := Some genome\<rparr>))"

definition spawn_unborn_heirs :: "hash_json \<Rightarrow> life_state \<Rightarrow> life_genesis_params \<Rightarrow> string \<Rightarrow> u64 \<Rightarrow> nat life_exec" where
  "spawn_unborn_heirs H s p dead_id epoch =
     (case bt_get (ls_souls s) dead_id of
        None \<Rightarrow> (s, Inl (SoulNotFound dead_id))
      | Some dead \<Rightarrow>
          let unborn = (case will_of s dead_id of None \<Rightarrow> [] | Some w \<Rightarrow> wl_unborn_heirs w)
          in (foldl (spawn_heir H p dead dead_id epoch) s (List.enumerate 0 unborn), Inr (length unborn)))"

definition bury :: "hash_json \<Rightarrow> life_genesis_params \<Rightarrow> u64 \<Rightarrow> life_state \<Rightarrow> string \<Rightarrow> string \<Rightarrow> nat life_exec" where
  "bury H p epoch s soul_id reason =
     and_then (mark_dead H s soul_id epoch reason) (\<lambda>s1 _.
     and_then (spawn_unborn_heirs H s1 p soul_id epoch) (\<lambda>s2 spawned.
     and_then (settle_inheritance H s2 soul_id epoch) (\<lambda>s3 _. (s3, Inr spawned))))"

definition reap_soul :: "hash_json \<Rightarrow> life_genesis_params \<Rightarrow> u64 \<Rightarrow> life_state \<times> nat \<Rightarrow> string \<Rightarrow> (life_state \<times> nat, life_error, unit) exec" where
  "reap_soul H p epoch sn soul_id =
     (case sn of (s, spawned) \<Rightarrow>
        (case bt_get (ls_souls s) soul_id of
          None \<Rightarrow> (sn, Inr ())
        | Some soul \<Rightarrow>
            let die = (\<lambda>reason. case bury H p epoch s soul_id reason of
                  (s', Inl e) \<Rightarrow> ((s', spawned), Inl e)
                | (s', Inr k) \<Rightarrow> ((s', spawned + k), Inr ()))
            in if so_status soul = ''dead'' then (sn, Inr ())
               else if so_natural_death_epoch soul \<le> epoch then die ''natural''
               else (case so_insolvent_since_epoch soul of
                   None \<Rightarrow> (sn, Inr ())
                 | Some since \<Rightarrow>
                     if dp_insolvency_grace_epochs (lg_death p) \<le> sat_sub epoch since then die ''insolvency'' else (sn, Inr ()))))"

definition count_kind :: "string \<Rightarrow> life_event list \<Rightarrow> nat" where
  "count_kind kind evs = length (filter (\<lambda>e. ev_kind e = kind) evs)"

definition make_report :: "hash_json \<Rightarrow> u64 \<Rightarrow> nat \<Rightarrow> life_event list \<Rightarrow> reaper_report" where
  "make_report H epoch spawned evs =
     \<lparr>rr_epoch = epoch, rr_rent_events = count_kind ''rent'' evs, rr_interest_events = count_kind ''loan_interest'' evs,
      rr_insolvency_events = count_kind ''quarantine'' evs, rr_death_events = count_kind ''death'' evs, rr_spawned_heirs = spawned,
      rr_settlement_events = count_kind ''inheritance'' evs, rr_report_hash = H (ReportBody epoch (map ev_event_id evs))\<rparr>"

definition rent_due :: "hash_json \<Rightarrow> life_genesis_params \<Rightarrow> u64 \<Rightarrow> life_state \<Rightarrow> string \<Rightarrow> life_state" where
  "rent_due H p epoch s soul_id =
     (let storage_bytes = (case bt_get (ls_souls s) soul_id of
            None \<Rightarrow> 0
          | Some soul \<Rightarrow> (case so_genome soul of None \<Rightarrow> 0 | Some g \<Rightarrow> gm_byte_size g))
      in fst (charge_rent H s p soul_id epoch storage_bytes ''q3''))"

definition reaper_epoch :: "hash_json \<Rightarrow> life_state \<Rightarrow> life_genesis_params \<Rightarrow> u64 \<Rightarrow> unit life_exec" where
  "reaper_epoch H s p epoch =
     (let s0 = s\<lparr>ls_epoch := epoch\<rparr>;
          before = length (ls_events s0);
          alive_ids = map fst (filter (\<lambda>(_, soul). so_status soul \<noteq> ''dead'') (ls_souls s0));
          s1 = foldl (rent_due H p epoch) s0 alive_ids
      in and_then (accrue_interest H s1 p epoch) (\<lambda>s2 _.
         and_then (mark_insolvent_souls H s2 epoch) (\<lambda>s3 _.
           (case run_all (reap_soul H p epoch) (s3, 0) (map fst (ls_souls s3)) of
              ((s4, spawned), Inl e) \<Rightarrow> (s4, Inl e)
            | ((s4, spawned), Inr _) \<Rightarrow>
                (s4\<lparr>ls_reaper_reports := ls_reaper_reports s4 @ [make_report H epoch spawned (drop before (ls_events s4))]\<rparr>, Inr ())))))"

end
