(* ===== verification/Agent_Life_Safety.thy ===== *)
theory Agent_Life_Safety
  imports Agent_Life
begin

text \<open>
  What the life cycle of \<open>Agent_Life\<close> keeps: the estate of the dead is divided without loss, the
  reaper never fails and leaves no soul behind whose time has come, and what credit lines do to the
  money in circulation.
\<close>

section \<open>Balances\<close>

lemma sum_bt_insert:
  fixes f :: "'v \<Rightarrow> nat"
  assumes "bt_ok m" and "bt_get m k = Some v"
  shows "sum_list (map f (bt_values (bt_insert k v' m))) + f v = sum_list (map f (bt_values m)) + f v'"
  using assms
proof (induction k v' m rule: bt_insert.induct)
  case (2 k v' k' w m)
  have "\<not> k < k'" using "2.prems" map_of_SomeD [of m k v] by (fastforce simp: bt_ok_def split: if_splits)
  then show ?case using 2 by (auto simp: bt_ok_def split: if_splits)
qed simp

lemma unat_min: "unat (min a b) = min (unat a) (unat b)" for a b :: "'a::len word"
  by (simp add: min_def word_le_nat_alt)

definition total_balance :: "life_state \<Rightarrow> nat" where
  "total_balance s = sum_list (map (unat \<circ> so_balance) (bt_values (ls_souls s)))"

definition balance_of :: "life_state \<Rightarrow> string \<Rightarrow> nat" where
  "balance_of s i = (case bt_get (ls_souls s) i of None \<Rightarrow> 0 | Some x \<Rightarrow> unat (so_balance x))"

lemma ls_souls_put [simp]:
  "ls_souls (put_soul i x s) = bt_insert i x (ls_souls s)"
  "ls_souls (put_loan l c s) = ls_souls s"
  "ls_souls (append_event H s kind e j b) = ls_souls s"
  "ls_souls (put_settlement r s) = ls_souls s"
  by (simp_all add: put_soul_def put_loan_def append_event_def put_settlement_def Let_def)

lemma total_balance_simps [simp]:
  "total_balance (put_loan l c s) = total_balance s"
  "total_balance (append_event H s kind e i b) = total_balance s"
  "total_balance (put_settlement r s) = total_balance s"
  "total_balance (s\<lparr>ls_epoch := e\<rparr>) = total_balance s"
  by (simp_all add: total_balance_def)

lemma total_put_soul:
  assumes "bt_ok (ls_souls s)" and "bt_get (ls_souls s) i = Some x"
  shows "total_balance (put_soul i x' s) + unat (so_balance x) = total_balance s + unat (so_balance x')"
  using sum_bt_insert [OF assms, of "unat \<circ> so_balance" x'] by (simp add: total_balance_def)

lemma balance_le_total:
  assumes "bt_get (ls_souls s) i = Some x" shows "unat (so_balance x) \<le> total_balance s"
proof -
  have "x \<in> set (bt_values (ls_souls s))" using map_of_SomeD [OF assms] by force
  then have "(unat \<circ> so_balance) x \<in> set (map (unat \<circ> so_balance) (bt_values (ls_souls s)))"
    unfolding set_map by (rule imageI)
  from member_le_sum_list [OF this] show ?thesis by (simp add: total_balance_def)
qed

lemma credit_soul_total:
  assumes "bt_ok (ls_souls s)" and "bt_get (ls_souls s) i = Some x" and "total_balance s + unat a < 2 ^ 64"
  shows "total_balance (credit_soul i a s) = total_balance s + unat a"
proof -
  have "unat (sat_add (so_balance x) a) = unat (so_balance x) + unat a"
    using balance_le_total [OF assms(2)] assms(3) by (simp add: unat_sat_add)
  then show ?thesis
    using total_put_soul [OF assms(1,2), of "x\<lparr>so_balance := sat_add (so_balance x) a\<rparr>"] assms(2) by (simp add: credit_soul_def)
qed

lemma credit_soul_get:
  assumes "bt_ok (ls_souls s)"
  shows "bt_get (ls_souls (credit_soul i a s)) =
    (case bt_get (ls_souls s) i of None \<Rightarrow> bt_get (ls_souls s)
       | Some x \<Rightarrow> (bt_get (ls_souls s))(i \<mapsto> x\<lparr>so_balance := sat_add (so_balance x) a\<rparr>))"
  using bt.get_put [OF assms] by (simp add: credit_soul_def split: option.splits)

lemma credit_soul_ok [simp]: "bt_ok (ls_souls s) \<Longrightarrow> bt_ok (ls_souls (credit_soul i a s))"
  by (simp add: credit_soul_def bt_insert_ok split: option.splits)

section \<open>Inheritance\<close>

lemma kin_living: "i \<in> set (kin_set s d) \<Longrightarrow> living s i"
  by (auto simp: kin_set_def Let_def split: option.splits if_splits)

text \<open>What the heirs at the positions of a list receive: one more for as long as there is dust.\<close>

definition shares :: "nat \<Rightarrow> nat \<Rightarrow> nat \<Rightarrow> nat list" where
  "shares base dust n = map (\<lambda>j. base + (if j < dust then 1 else 0)) [0..<n]"

lemma shares_Suc: "shares base dust (Suc n) = (base + (if 0 < dust then 1 else 0)) # shares base (dust - 1) n"
  by (auto simp: shares_def upt_conv_Cons map_Suc_upt [symmetric] simp del: upt_Suc)

lemma sum_shares: "sum_list (shares base dust n) = base * n + min dust n"
proof (induction n arbitrary: dust)
  case (Suc n)
  show ?case by (cases dust) (simp_all add: shares_Suc Suc.IH)
qed (simp add: shares_def)

lemma sum_shares_div: "0 < n \<Longrightarrow> sum_list (shares (e div n) (e mod n) n) = e"
  by (simp add: sum_shares min_absorb1 less_imp_le)

lemma pay_heirs_shares:
  assumes "bt_ok (ls_souls s)" and "\<forall>h \<in> set heirs. living s h" and "d \<notin> set heirs"
    and "unat base + 1 < 2 ^ 64" and "total_balance s + sum_list (shares (unat base) (unat dust) (length heirs)) < 2 ^ 64"
    and "pay_heirs s base dust heirs = (s', payouts)"
  shows "bt_ok (ls_souls s') \<and> map fst payouts = heirs \<and> map (unat \<circ> snd) payouts = shares (unat base) (unat dust) (length heirs)
    \<and> total_balance s' = total_balance s + sum_list (shares (unat base) (unat dust) (length heirs))
    \<and> bt_get (ls_souls s') d = bt_get (ls_souls s) d"
  using assms
proof (induction heirs arbitrary: s dust payouts)
  case Nil
  then show ?case by (simp add: shares_def)
next
  case (Cons h heirs)
  let ?extra = "if 0 < dust then 1 else 0 :: u64"
  let ?amount = "base + ?extra" and ?s1 = "credit_soul h (base + ?extra) s"
  obtain x where x: "bt_get (ls_souls s) h = Some x" "so_status x \<noteq> ''dead''"
    using Cons.prems(2) by (auto simp: living_def split: option.splits)
  have pos: "0 < dust \<longleftrightarrow> 0 < unat dust" by (simp add: word_less_nat_alt)
  have e: "unat ?extra = (if 0 < unat dust then 1 else 0)" using pos by auto
  have amt: "unat ?amount = unat base + (if 0 < unat dust then 1 else 0)"
    using Cons.prems(4) e by (subst unat_add_lem [THEN iffD1]) auto
  have rest: "unat (sat_sub dust ?extra) = unat dust - 1" using pos by (auto simp: unat_sat_sub)
  have sh: "shares (unat base) (unat dust) (length (h # heirs)) = unat ?amount # shares (unat base) (unat (sat_sub dust ?extra)) (length heirs)"
    by (simp add: shares_Suc amt rest)
  have tot: "total_balance ?s1 = total_balance s + unat ?amount"
    using Cons.prems(5) unfolding sh by (intro credit_soul_total [OF Cons.prems(1) x(1)]) simp
  have get: "bt_get (ls_souls ?s1) = (bt_get (ls_souls s))(h \<mapsto> x\<lparr>so_balance := sat_add (so_balance x) ?amount\<rparr>)"
    using credit_soul_get [OF Cons.prems(1)] x(1) by simp
  have liv: "\<forall>i \<in> set heirs. living ?s1 i" using Cons.prems(2) x(2) by (auto simp: living_def get)
  obtain ps where ps: "pay_heirs ?s1 base (sat_sub dust ?extra) heirs = (s', ps)" "payouts = (h, ?amount) # ps"
    using Cons.prems(6) x(1) by (auto simp: Let_def split: prod.splits)
  have "bt_ok (ls_souls ?s1)" using Cons.prems(1) by simp
  from Cons.IH [OF this liv _ Cons.prems(4) _ ps(1)] Cons.prems(3,5) tot sh get ps(2)
  show ?case by (simp add: fun_upd_def)
qed

lemma clear_balance_effect:
  assumes "bt_ok (ls_souls s)" and "bt_get (ls_souls s) d = Some x"
  shows "total_balance (clear_balance d s) + unat (so_balance x) = total_balance s"
    and "bt_get (ls_souls (clear_balance d s)) d = Some (x\<lparr>so_balance := 0\<rparr>)"
  using total_put_soul [OF assms, of "x\<lparr>so_balance := 0\<rparr>"] bt.get_put [OF assms(1)] assms(2)
  by (simp_all add: clear_balance_def)

text \<open>The division of an estate among \<open>n\<close> heirs.\<close>

lemma estate_parts:
  fixes estate :: u64
  assumes "0 < n" "n < 2 ^ 64"
  shows "unat (estate div of_nat n) = unat estate div n"
    and "unat (estate - estate div of_nat n * of_nat n) = unat estate mod n"
proof -
  have n: "unat (of_nat n :: u64) = n" using assms(2) by (simp add: unat_of_nat_small)
  then show "unat (estate div of_nat n) = unat estate div n" by (simp add: unat_div)
  have "estate - estate div of_nat n * of_nat n = estate mod of_nat n" by (simp add: minus_div_mult_eq_mod)
  then show "unat (estate - estate div of_nat n * of_nat n) = unat estate mod n" by (simp add: unat_mod n)
qed

lemma settle_with_heirs:
  assumes ok: "bt_ok (ls_souls s)" and x: "bt_get (ls_souls s) d = Some x" "so_status x = ''dead''" "so_balance x \<noteq> 0"
    and kin: "kin_set s d \<noteq> []" "length (kin_set s d) < 2 ^ 64" and fits: "total_balance s + unat (so_balance x) < 2 ^ 64"
    and run: "settle_inheritance H s d epoch = (s', r)"
  shows "\<exists>payouts. r = Inr payouts \<and> map fst payouts = kin_set s d
    \<and> map (unat \<circ> snd) payouts = shares (unat (so_balance x) div length (kin_set s d)) (unat (so_balance x) mod length (kin_set s d)) (length (kin_set s d))
    \<and> total_balance s' = total_balance s \<and> balance_of s' d = 0"
proof -
  let ?n = "length (kin_set s d)"
  let ?base = "so_balance x div of_nat ?n" and ?dust = "so_balance x - so_balance x div of_nat ?n * of_nat ?n"
  have n: "0 < ?n" using kin(1) by simp
  note parts = estate_parts [OF n kin(2), of "so_balance x"]
  obtain s1 ps where pay: "pay_heirs s ?base ?dust (kin_set s d) = (s1, ps)" by fastforce
  have sum: "sum_list (shares (unat ?base) (unat ?dust) ?n) = unat (so_balance x)"
    unfolding parts by (rule sum_shares_div [OF n])
  have "d \<notin> set (kin_set s d)" using kin_living [of d s d] x by (auto simp: living_def)
  moreover have "\<forall>h \<in> set (kin_set s d). living s h" using kin_living by blast
  moreover have "unat ?base + 1 < 2 ^ 64"
    using fits balance_le_total [OF x(1)] x(3) unat_eq_zero [of "so_balance x"] div_le_dividend [of "unat (so_balance x)" ?n]
    unfolding parts by linarith
  ultimately have paid: "bt_ok (ls_souls s1)" "map fst ps = kin_set s d" "map (unat \<circ> snd) ps = shares (unat ?base) (unat ?dust) ?n"
      "total_balance s1 = total_balance s + unat (so_balance x)" "bt_get (ls_souls s1) d = Some x"
    using pay_heirs_shares [OF ok _ _ _ _ pay] fits x(1) by (simp_all add: sum)
  have "r = Inr ps" "ls_souls s' = ls_souls (clear_balance d s1)" "total_balance s' = total_balance (clear_balance d s1)"
    using run x(1,3) kin(1) pay by (auto simp: settle_inheritance_def Let_def)
  then show ?thesis
    using paid clear_balance_effect [OF paid(1,5)] parts by (auto simp: balance_of_def)
qed

lemma repay_souls:
  assumes "bt_get (ls_loans s) l = Some c" "cl_status c = ''accepted''" "bt_get (ls_souls s) (cl_borrower_soul_id c) = Some x"
    and "repay_credit_line H s l a e = (s', Inr c')"
  shows "min a (cl_outstanding c) \<le> so_balance x"
    and "ls_souls s' = bt_insert (cl_borrower_soul_id c)
      (x\<lparr>so_balance := so_balance x - min a (cl_outstanding c), so_debt := sat_sub (so_debt x) (min a (cl_outstanding c))\<rparr>) (ls_souls s)"
proof -
  have enough: "\<not> so_balance x < min a (cl_outstanding c)"
    using assms by (auto simp: repay_credit_line_def Let_def simp del: min_less_iff_conj)
  then show "min a (cl_outstanding c) \<le> so_balance x" by (rule leI)
  show "ls_souls s' = bt_insert (cl_borrower_soul_id c)
      (x\<lparr>so_balance := so_balance x - min a (cl_outstanding c), so_debt := sat_sub (so_debt x) (min a (cl_outstanding c))\<rparr>) (ls_souls s)"
    using assms enough by (auto simp: repay_credit_line_def Let_def simp del: min_less_iff_conj not_less)
qed

section \<open>The reaper\<close>

text \<open>
  What the reaper judges a soul by, and what a step of an epoch keeps: a soul of the later state is
  born in this epoch, or was there before with the same judgement.
\<close>

definition vital :: "agent_soul \<Rightarrow> string \<times> u64 \<times> u64 option \<times> u64" where
  "vital x = (so_status x, so_natural_death_epoch x, so_insolvent_since_epoch x, so_born_epoch x)"

definition keeps_vitals :: "u64 \<Rightarrow> life_state \<Rightarrow> life_state \<Rightarrow> bool" where
  "keeps_vitals e s s' \<longleftrightarrow> bt_ok (ls_souls s) \<longrightarrow>
     bt_ok (ls_souls s') \<and> dom (bt_get (ls_souls s)) \<subseteq> dom (bt_get (ls_souls s')) \<and>
     (\<forall>i x'. bt_get (ls_souls s') i = Some x' \<longrightarrow>
        so_born_epoch x' = e \<or> (\<exists>x. bt_get (ls_souls s) i = Some x \<and> vital x' = vital x))"

lemma keeps_vitals_refl: "ls_souls s' = ls_souls s \<Longrightarrow> keeps_vitals e s s'"
  by (auto simp: keeps_vitals_def)

lemma keeps_vitals_bookkeeping [simp]:
  "keeps_vitals e s (append_event H s' kind ep j b) = keeps_vitals e s s'"
  "keeps_vitals e s (put_settlement r s') = keeps_vitals e s s'"
  by (simp_all add: keeps_vitals_def)

lemma keeps_vitals_trans:
  assumes "keeps_vitals e s s1" and "keeps_vitals e s1 s2" shows "keeps_vitals e s s2"
proof (cases "bt_ok (ls_souls s)")
  case True
  then have a: "bt_ok (ls_souls s1)" "dom (bt_get (ls_souls s)) \<subseteq> dom (bt_get (ls_souls s1))"
      "\<And>i x'. bt_get (ls_souls s1) i = Some x' \<Longrightarrow> so_born_epoch x' = e \<or> (\<exists>x. bt_get (ls_souls s) i = Some x \<and> vital x' = vital x)"
    using assms(1) by (auto simp: keeps_vitals_def)
  then have b: "bt_ok (ls_souls s2)" "dom (bt_get (ls_souls s1)) \<subseteq> dom (bt_get (ls_souls s2))"
      "\<And>i x'. bt_get (ls_souls s2) i = Some x' \<Longrightarrow> so_born_epoch x' = e \<or> (\<exists>x. bt_get (ls_souls s1) i = Some x \<and> vital x' = vital x)"
    using assms(2) by (auto simp: keeps_vitals_def)
  have "so_born_epoch x' = e \<or> (\<exists>x. bt_get (ls_souls s) i = Some x \<and> vital x' = vital x)" if x': "bt_get (ls_souls s2) i = Some x'" for i x'
    using b(3) [OF x']
  proof
    assume "\<exists>x1. bt_get (ls_souls s1) i = Some x1 \<and> vital x' = vital x1"
    then obtain x1 where "bt_get (ls_souls s1) i = Some x1" "vital x' = vital x1" by blast
    then show ?thesis using a(3) [of i x1] by (auto simp: vital_def)
  qed simp
  then show ?thesis using a(2) b(1,2) unfolding keeps_vitals_def by blast
qed (simp add: keeps_vitals_def)

lemma keeps_vitals_put:
  assumes "so_born_epoch x' = e \<or> (\<exists>x. bt_get (ls_souls s) i = Some x \<and> vital x' = vital x)"
    and "ls_souls s' = bt_insert i x' (ls_souls s)"
  shows "keeps_vitals e s s'"
  using assms bt.get_put [of "ls_souls s" i x'] bt_insert_ok [of "ls_souls s" i x'] by (auto simp: keeps_vitals_def)

lemma keeps_vitals_update:
  assumes "bt_get (ls_souls s) i = Some x" and "vital x' = vital x"
  shows "keeps_vitals e s (put_soul i x' s)"
  using assms by (intro keeps_vitals_put [of x' _ _ i]) auto

lemma keeps_vitals_foldl:
  assumes "\<And>s a. keeps_vitals e s (f s a)" shows "keeps_vitals e s (foldl f s as)"
  by (induction "as" arbitrary: s) (auto intro: keeps_vitals_refl keeps_vitals_trans [OF assms])

lemma add_soul_vitals: "so_born_epoch x = e \<Longrightarrow> keeps_vitals e s (add_soul H s x)"
proof -
  assume e: "so_born_epoch x = e"
  let ?s1 = "case so_parent_soul_id x of None \<Rightarrow> s | Some parent \<Rightarrow> add_to_parent s parent (so_soul_id x)"
  have "keeps_vitals e s ?s1"
  proof (cases "so_parent_soul_id x")
    case (Some par)
    let ?s1 = "s\<lparr>ls_lineage := bt_insert par (unwrap_or (bt_get (ls_lineage s) par) [] @ [so_soul_id x]) (ls_lineage s)\<rparr>"
    show ?thesis
    proof (cases "bt_get (ls_souls s) par")
      case None
      then show ?thesis using Some by (simp add: add_to_parent_def Let_def keeps_vitals_refl)
    next
      case (Some y)
      have "keeps_vitals e ?s1 (put_soul par (y\<lparr>so_child_soul_ids := sort (so_child_soul_ids y @ [so_soul_id x])\<rparr>) ?s1)"
        using Some by (intro keeps_vitals_update) (simp_all add: vital_def)
      then show ?thesis using Some \<open>so_parent_soul_id x = Some par\<close> by (simp add: add_to_parent_def Let_def keeps_vitals_def)
    qed
  qed (simp add: keeps_vitals_refl)
  moreover have "keeps_vitals e ?s1 (add_soul H s x)"
    using e by (intro keeps_vitals_put [of x]) (simp_all add: add_soul_def Let_def)
  ultimately show ?thesis by (rule keeps_vitals_trans)
qed

lemma credit_soul_vitals: "keeps_vitals e s (credit_soul i a s)"
  by (cases "bt_get (ls_souls s) i") (simp_all add: credit_soul_def vital_def keeps_vitals_refl keeps_vitals_update)

lemma clear_balance_vitals: "keeps_vitals e s (clear_balance i s)"
  by (cases "bt_get (ls_souls s) i") (simp_all add: clear_balance_def vital_def keeps_vitals_refl keeps_vitals_update)

lemma pay_heirs_vitals: "keeps_vitals e s (fst (pay_heirs s base dust heirs))"
proof (induction heirs arbitrary: s dust)
  case (Cons h heirs)
  let ?x = "if 0 < dust then 1 else 0"
  have "fst (pay_heirs s base dust (h # heirs)) =
      fst (pay_heirs (if bt_get (ls_souls s) h = None then s else credit_soul h (base + ?x) s) base (sat_sub dust ?x) heirs)"
    by (simp add: Let_def split: option.splits prod.splits)
  then show ?case
    using Cons.IH [of s "sat_sub dust ?x"] keeps_vitals_trans [OF credit_soul_vitals [of e s h "base + ?x"] Cons.IH [of "credit_soul h (base + ?x) s" "sat_sub dust ?x"]]
    by simp
qed (simp add: keeps_vitals_refl)

lemma settle_vitals: "keeps_vitals e s (fst (settle_inheritance H s d epoch))"
proof (cases "bt_get (ls_souls s) d")
  case (Some x)
  let ?base = "so_balance x div of_nat (length (kin_set s d))"
  obtain s1 ps where pay: "pay_heirs s ?base (so_balance x - ?base * of_nat (length (kin_set s d))) (kin_set s d) = (s1, ps)" by fastforce
  have "keeps_vitals e s s1" using pay_heirs_vitals [of e s ?base] pay by (metis fst_conv)
  from keeps_vitals_trans [OF this clear_balance_vitals [of e s1 d]] clear_balance_vitals [of e s d]
  show ?thesis using Some pay
    by (simp add: settle_inheritance_def Let_def)
qed (simp add: settle_inheritance_def keeps_vitals_refl Let_def)

lemma spawn_vitals: "keeps_vitals e s (fst (spawn_unborn_heirs H s p d e))"
proof (cases "bt_get (ls_souls s) d")
  case (Some x)
  have "keeps_vitals e s (spawn_heir H p x d e s ig)" for s ig
    by (cases ig) (simp add: spawn_heir_def create_soul_def add_soul_vitals)
  from keeps_vitals_foldl [of e "spawn_heir H p x d e", OF this] show ?thesis
    using Some by (simp add: spawn_unborn_heirs_def Let_def)
qed (simp add: spawn_unborn_heirs_def keeps_vitals_refl)

text \<open>A soul the reaper has nothing to do with in this epoch.\<close>

definition settled :: "life_genesis_params \<Rightarrow> u64 \<Rightarrow> agent_soul \<Rightarrow> bool" where
  "settled p e x \<longleftrightarrow> so_status x = ''dead'' \<or> so_born_epoch x = e \<or>
     (e < so_natural_death_epoch x \<and>
      (case so_insolvent_since_epoch x of None \<Rightarrow> True | Some since \<Rightarrow> sat_sub e since < dp_insolvency_grace_epochs (lg_death p)))"

lemma settled_vital: "vital x = vital y \<Longrightarrow> settled p e x = settled p e y"
  by (auto simp: settled_def vital_def)

lemma bury_effect:
  assumes "bt_ok (ls_souls s)" and x: "bt_get (ls_souls s) i = Some x" "so_status x \<noteq> ''dead''"
  shows "\<exists>s1 s' k. bury H p e s i reason = (s', Inr k) \<and> keeps_vitals e s1 s' \<and>
     ls_souls s1 = bt_insert i (x\<lparr>so_status := ''dead'', so_death_epoch := Some e, so_death_reason := Some reason\<rparr>) (ls_souls s)"
proof -
  define x1 where "x1 = x\<lparr>so_status := ''dead'', so_death_epoch := Some e, so_death_reason := Some reason\<rparr>"
  obtain s1 where dead: "mark_dead H s i e reason = (s1, Inr ())" "ls_souls s1 = bt_insert i x1 (ls_souls s)"
    using x by (simp add: mark_dead_def x1_def)
  have ok: "bt_ok (ls_souls s1)" "bt_get (ls_souls s1) i = Some x1"
    using assms(1) bt.get_put [OF assms(1)] by (simp_all add: dead(2) bt_insert_ok)
  obtain s2 k where spawn: "spawn_unborn_heirs H s1 p i e = (s2, Inr k)" using ok(2) by (simp add: spawn_unborn_heirs_def Let_def)
  have k12: "keeps_vitals e s1 s2" using spawn_vitals [of e s1 H p i] spawn by simp
  then obtain x2 where x2: "bt_get (ls_souls s2) i = Some x2" using ok by (fastforce simp: keeps_vitals_def)
  have "is_ok (snd (settle_inheritance H s2 i e))"
    using x2 by (simp add: settle_inheritance_def Let_def split: prod.splits)
  then obtain s3 ps where settle: "settle_inheritance H s2 i e = (s3, Inr ps)"
    by (cases "settle_inheritance H s2 i e"; cases "snd (settle_inheritance H s2 i e)") auto
  have "keeps_vitals e s2 s3" using settle_vitals [of e s2 H i e] settle by simp
  then show ?thesis using dead spawn settle keeps_vitals_trans [OF k12] by (auto simp: bury_def x1_def)
qed

definition all_settled_but :: "life_genesis_params \<Rightarrow> u64 \<Rightarrow> string set \<Rightarrow> life_state \<Rightarrow> bool" where
  "all_settled_but p e ids s \<longleftrightarrow> bt_ok (ls_souls s) \<and>
     (\<forall>i x. bt_get (ls_souls s) i = Some x \<longrightarrow> i \<in> ids \<or> settled p e x)"

lemma keeps_settled: "keeps_vitals e s s' \<Longrightarrow> all_settled_but p e ids s \<Longrightarrow> all_settled_but p e ids s'"
  unfolding keeps_vitals_def all_settled_but_def using settled_vital by (metis settled_def)

lemma reap_soul_settles:
  assumes inv: "all_settled_but p e (insert i ids) s"
  shows "\<exists>s' n'. reap_soul H p e (s, n) i = ((s', n'), Inr ()) \<and> all_settled_but p e ids s'"
proof -
  have ok: "bt_ok (ls_souls s)" using inv by (simp add: all_settled_but_def)
  have rest: "all_settled_but p e ids s" if "\<And>x. bt_get (ls_souls s) i = Some x \<Longrightarrow> settled p e x"
    using inv that unfolding all_settled_but_def by blast
  have dies: "\<exists>s' k. bury H p e s i reason = (s', Inr k) \<and> all_settled_but p e ids s'"
    if x: "bt_get (ls_souls s) i = Some x" "so_status x \<noteq> ''dead''" for x reason
  proof -
    obtain s1 s' k where b: "bury H p e s i reason = (s', Inr k)" "keeps_vitals e s1 s'"
        "ls_souls s1 = bt_insert i (x\<lparr>so_status := ''dead'', so_death_epoch := Some e, so_death_reason := Some reason\<rparr>) (ls_souls s)"
      using bury_effect [OF ok x] by blast
    have "all_settled_but p e ids s1"
      using inv bt_insert_ok [OF ok] bt.get_put [OF ok] unfolding all_settled_but_def b(3) by (auto simp: settled_def)
    then show ?thesis using b keeps_settled by blast
  qed
  show ?thesis
  proof (cases "\<exists>x. bt_get (ls_souls s) i = Some x \<and> \<not> settled p e x")
    case True
    then obtain x where x: "bt_get (ls_souls s) i = Some x" "\<not> settled p e x" by blast
    define reason where "reason = (if so_natural_death_epoch x \<le> e then ''natural'' else ''insolvency'')"
    have "reap_soul H p e (s, n) i = (case bury H p e s i reason of
          (s', Inl er) \<Rightarrow> ((s', n), Inl er) | (s', Inr k) \<Rightarrow> ((s', n + k), Inr ()))"
      using x by (auto simp: reap_soul_def settled_def reason_def Let_def not_less split: option.splits)
    moreover have "so_status x \<noteq> ''dead''" using x(2) by (auto simp: settled_def)
    then obtain s' k where "bury H p e s i reason = (s', Inr k)" "all_settled_but p e ids s'" using dies [OF x(1)] by blast
    ultimately show ?thesis by simp
  next
    case False
    show ?thesis
    proof (cases "bt_get (ls_souls s) i")
      case (Some x)
      then show ?thesis
        using rest False dies [OF Some, of "''natural''"] dies [OF Some, of "''insolvency''"]
        by (auto simp: reap_soul_def Let_def split: option.splits)
    qed (use rest in \<open>simp add: reap_soul_def\<close>)
  qed
qed

lemma reap_all_settles:
  "all_settled_but p e (set ids) s \<Longrightarrow>
     \<exists>s' n'. run_all (reap_soul H p e) (s, n) ids = ((s', n'), Inr ()) \<and> all_settled_but p e {} s'"
proof (induction ids arbitrary: s n)
  case (Cons i ids)
  then obtain s1 n1 where "reap_soul H p e (s, n) i = ((s1, n1), Inr ())" "all_settled_but p e (set ids) s1"
    using reap_soul_settles [of p e i "set ids" s H n] by auto
  then show ?case using Cons.IH by fastforce
qed simp

lemma bt_ok_steps:
  "bt_ok (ls_souls s) \<Longrightarrow> bt_ok (ls_souls (rent_due H p e s i))"
  "bt_ok (ls_souls s) \<Longrightarrow> bt_ok (ls_souls (accrue_loan H p e s l))"
  "bt_ok (ls_souls s) \<Longrightarrow> bt_ok (ls_souls (judge_soul H e s i))"
  by (simp_all add: rent_due_def charge_rent_def accrue_loan_def judge_soul_def Let_def bt_insert_ok split: option.splits)

lemma foldl_keeps: "(\<And>s a. P s \<Longrightarrow> P (f s a)) \<Longrightarrow> P s \<Longrightarrow> P (foldl f s as)"
  by (induction "as" arbitrary: s) auto

section \<open>Properties\<close>

text \<open>
  C20.  An estate is divided without loss: settling the inheritance of a dead soul leaves it nothing
  and, when it has living kin, pays every one of them an equal share, with one micro-credit more
  for the first ones as far as the remainder goes, so that the money of all souls together stays
  the same; without kin exactly the estate leaves circulation.
\<close>

theorem estate_divided_without_loss:
  assumes ok: "bt_ok (ls_souls s)" and x: "bt_get (ls_souls s) d = Some x" "so_status x = ''dead''"
    and fits: "total_balance s + unat (so_balance x) < 2 ^ 64" "length (kin_set s d) < 2 ^ 64"
    and run: "settle_inheritance H s d epoch = (s', r)"
  shows "balance_of s' d = 0
    \<and> (kin_set s d = [] \<longrightarrow> r = Inr [] \<and> total_balance s' + unat (so_balance x) = total_balance s)
    \<and> (kin_set s d \<noteq> [] \<longrightarrow> total_balance s' = total_balance s \<and>
         (\<exists>payouts. r = Inr payouts \<and> sum_list (map (unat \<circ> snd) payouts) = unat (so_balance x) \<and>
            (so_balance x \<noteq> 0 \<longrightarrow> map fst payouts = kin_set s d \<and>
              list_all (\<lambda>(_, a). unat a - unat (so_balance x) div length (kin_set s d) \<le> 1 \<and>
                unat (so_balance x) div length (kin_set s d) \<le> unat a) payouts)))"
proof (cases "kin_set s d = [] \<or> so_balance x = 0")
  case True
  then have "r = Inr []" "ls_souls s' = ls_souls (clear_balance d s)" "total_balance s' = total_balance (clear_balance d s)"
    using run x(1) by (auto simp: settle_inheritance_def Let_def)
  then show ?thesis using True clear_balance_effect [OF ok x(1)] by (auto simp: balance_of_def)
next
  case False
  let ?n = "length (kin_set s d)" and ?e = "unat (so_balance x)"
  obtain ps where ps: "r = Inr ps" "map fst ps = kin_set s d" "map (unat \<circ> snd) ps = shares (?e div ?n) (?e mod ?n) ?n"
      "total_balance s' = total_balance s" "balance_of s' d = 0"
    using settle_with_heirs [OF ok x _ _ fits(2,1) run] False by auto
  have "sum_list (map (unat \<circ> snd) ps) = ?e" using False unfolding ps(3) by (intro sum_shares_div) simp
  moreover have "\<forall>a \<in> set (map (unat \<circ> snd) ps). a - ?e div ?n \<le> 1 \<and> ?e div ?n \<le> a"
    unfolding ps(3) by (auto simp: shares_def)
  then have "list_all (\<lambda>(_, a). unat a - ?e div ?n \<le> 1 \<and> ?e div ?n \<le> unat a) ps"
    by (auto simp: list_all_iff)
  ultimately show ?thesis using ps False by simp
qed

text \<open>
  C21.  The reaper always completes an epoch, and leaves no soul behind whose time has come: every
  soul after it is dead, was born in this epoch, or has neither reached its natural death nor been
  insolvent for the grace period.
\<close>

theorem reaper_leaves_no_due_soul:
  assumes "bt_ok (ls_souls s)"
  shows "\<exists>s'. reaper_epoch H s p e = (s', Inr ()) \<and> bt_ok (ls_souls s') \<and> list_all (settled p e) (bt_values (ls_souls s'))"
proof -
  let ?P = "\<lambda>s. bt_ok (ls_souls s)"
  let ?s0 = "s\<lparr>ls_epoch := e\<rparr>"
  define s1 where "s1 = foldl (rent_due H p e) ?s0 (map fst (filter (\<lambda>(_, soul). so_status soul \<noteq> ''dead'') (ls_souls ?s0)))"
  define s2 where "s2 = foldl (accrue_loan H p e) s1 (map fst (ls_loans s1))"
  define s3 where "s3 = foldl (judge_soul H e) s2 (map fst (ls_souls s2))"
  have "?P s1" unfolding s1_def using assms by (intro foldl_keeps [of ?P] bt_ok_steps) simp_all
  then have "?P s2" unfolding s2_def by (intro foldl_keeps [of ?P] bt_ok_steps)
  then have ok: "?P s3" unfolding s3_def by (intro foldl_keeps [of ?P] bt_ok_steps)
  have "all_settled_but p e (set (map fst (ls_souls s3))) s3"
    using ok by (auto simp: all_settled_but_def dest!: map_of_SomeD intro: rev_image_eqI)
  then obtain s4 n where r: "run_all (reap_soul H p e) (s3, 0) (map fst (ls_souls s3)) = ((s4, n), Inr ())" "all_settled_but p e {} s4"
    using reap_all_settles [of p e "map fst (ls_souls s3)" s3 H 0] by auto
  have "list_all (settled p e) (bt_values (ls_souls s4))"
    using r(2) bt.entries_get [of "ls_souls s4"] by (fastforce simp: all_settled_but_def list_all_iff)
  moreover have "reaper_epoch H s p e =
      (s4\<lparr>ls_reaper_reports := ls_reaper_reports s4 @ [make_report H e n (drop (length (ls_events ?s0)) (ls_events s4))]\<rparr>, Inr ())"
    unfolding reaper_epoch_def Let_def accrue_interest_def mark_insolvent_souls_def s1_def [symmetric]
      and_then_Inr s2_def [symmetric] s3_def [symmetric] r(1) by simp
  ultimately show ?thesis using r(2) by (simp add: all_settled_but_def)
qed

text \<open>
  Credit lines bypass the lender: accepting one puts its principal into circulation and leaves
  the lender what it had, and repaying takes the money out of circulation, again without the
  lender; since the debt of the borrower never rose with the principal, the repayment cancels rent
  and interest debt of the same amount.
\<close>

theorem credit_line_bypasses_lender:
  assumes ok: "bt_ok (ls_souls s)" and loan: "bt_get (ls_loans s) l = Some c" "cl_lender_soul_id c \<noteq> cl_borrower_soul_id c"
    and b: "bt_get (ls_souls s) (cl_borrower_soul_id c) = Some x"
  shows "(cl_status c = ''open'' \<and> total_balance s + unat (cl_principal c) < 2 ^ 64 \<and> accept_credit_line H s l e = (s', r) \<longrightarrow>
      total_balance s' = total_balance s + unat (cl_principal c) \<and>
      bt_get (ls_souls s') (cl_lender_soul_id c) = bt_get (ls_souls s) (cl_lender_soul_id c) \<and>
      (\<exists>x'. bt_get (ls_souls s') (cl_borrower_soul_id c) = Some x' \<and> so_debt x' = so_debt x))
    \<and> (cl_status c = ''accepted'' \<and> repay_credit_line H s l a e = (s', Inr c') \<longrightarrow>
      total_balance s' + min (unat a) (unat (cl_outstanding c)) = total_balance s \<and>
      bt_get (ls_souls s') (cl_lender_soul_id c) = bt_get (ls_souls s) (cl_lender_soul_id c) \<and>
      (\<exists>x'. bt_get (ls_souls s') (cl_borrower_soul_id c) = Some x' \<and>
         unat (so_debt x') = unat (so_debt x) - min (unat a) (unat (cl_outstanding c))))"
proof (intro conjI impI, goal_cases)
  case 1
  then show ?case using credit_soul_total [of "put_loan l (c\<lparr>cl_status := ''accepted'', cl_accepted_epoch := Some e\<rparr>) s"] ok loan b
    by (auto simp: accept_credit_line_def Let_def)
next
  case 2
  then show ?case using credit_soul_get [of "put_loan l (c\<lparr>cl_status := ''accepted'', cl_accepted_epoch := Some e\<rparr>) s"] ok loan b
    by (auto simp: accept_credit_line_def Let_def)
next
  case 3
  then show ?case using credit_soul_get [of "put_loan l (c\<lparr>cl_status := ''accepted'', cl_accepted_epoch := Some e\<rparr>) s"] ok loan b
    by (auto simp: accept_credit_line_def Let_def)
next
  case 4
  let ?pay = "min a (cl_outstanding c)"
  let ?x' = "x\<lparr>so_balance := so_balance x - ?pay, so_debt := sat_sub (so_debt x) ?pay\<rparr>"
  have r: "?pay \<le> so_balance x" "total_balance s' = total_balance (put_soul (cl_borrower_soul_id c) ?x' s)"
    using repay_souls [OF loan(1) _ b, of H a e s' c'] 4 by (simp_all add: total_balance_def)
  have "total_balance s' + unat (so_balance x) = total_balance s + unat (so_balance x - ?pay)"
    using total_put_soul [OF ok b, of ?x'] by (simp add: r(2))
  moreover have "unat (so_balance x - ?pay) + unat ?pay = unat (so_balance x)" using r(1) by (simp add: unat_sub word_le_nat_alt)
  ultimately show ?case unfolding unat_min [symmetric] by linarith
next
  case 5
  then show ?case using repay_souls(2) [OF loan(1) _ b, of H a e s' c'] loan(2) bt.get_put [OF ok] by simp
next
  case 6
  then show ?case
    using repay_souls(2) [OF loan(1) _ b, of H a e s' c'] bt.get_put [OF ok] by (simp add: unat_sat_sub unat_min)
qed

section \<open>Samples\<close>

definition sample_life_params :: life_genesis_params where
  "sample_life_params = \<lparr>lg_schema = ''life.genesis_params.v1'', lg_epoch_length_seconds = 60, lg_season_epochs = 100,
     lg_rent = \<lparr>rt_base_rent_micro_credits = 2, rt_storage_rent_per_kb_micro_credits = 1,
       rt_sii_discount_bps_by_quartile = Map.empty\<rparr>,
     lg_life_extension = \<lparr>le_ext_base_micro_credits = 10, le_exponent = 2, le_epochs_granted = 5, le_will_lock_reopen_epochs = None\<rparr>,
     lg_spawn = \<lparr>sp_spawn_cost_micro_credits = 5, sp_child_grant_micro_credits = 3, sp_genome_byte_cost_micro_credits = 1\<rparr>,
     lg_loans = \<lparr>lo_debt_ceiling_micro_credits = 100, lo_interest_bps_per_epoch = 50, lo_grace_epochs = 2\<rparr>,
     lg_death = \<lparr>dp_burn_account_id = ''burn'', dp_natural_life_epochs = 10, dp_insolvency_grace_epochs = 2\<rparr>\<rparr>"

definition sample_hash :: hash_json where
  "sample_hash b = replicate 24 (CHR ''0'')"

definition sample_life :: life_state where
  "sample_life =
     (let p = sample_life_params; soul = (\<lambda>i bal par. create_soul p i ''worker'' ''owner'' bal 0 par);
          s1 = foldl (add_soul sample_hash) create_initial_life_state
            [soul ''a'' 11 None, soul ''b'' 4 (Some ''a''), soul ''c'' 0 (Some ''a''), soul ''d'' 6 (Some ''a'')];
          s2 = fst (open_credit_line sample_hash s1 p ''loan'' ''b'' ''c'' 9 1 None)
      in fst (mark_dead sample_hash s2 ''a'' 3 ''natural''))"

definition sample_soul :: "string \<Rightarrow> agent_soul" where
  "sample_soul i = the (bt_get (ls_souls sample_life) i)"

lemma sample_life_facts:
  "bt_ok (ls_souls sample_life)" "bt_get (ls_souls sample_life) ''a'' = Some (sample_soul ''a'')"
  "bt_get (ls_souls sample_life) ''c'' = Some (sample_soul ''c'')"
  "so_status (sample_soul ''a'') = ''dead''" "unat (so_balance (sample_soul ''a'')) = 11" "total_balance sample_life = 21"
  "kin_set sample_life ''a'' = [''b'', ''c'', ''d'']"
  by code_simp+

theorem estate_divided_without_loss_witness:
  "total_balance (fst (settle_inheritance sample_hash sample_life ''a'' 3)) = 21 \<and>
   balance_of (fst (settle_inheritance sample_hash sample_life ''a'' 3)) ''a'' = 0"
  using estate_divided_without_loss [OF sample_life_facts(1,2,4), of sample_hash 3
      "fst (settle_inheritance sample_hash sample_life ''a'' 3)" "snd (settle_inheritance sample_hash sample_life ''a'' 3)"]
  by (simp add: sample_life_facts)

theorem reaper_leaves_no_due_soul_witness:
  "\<exists>s'. reaper_epoch sample_hash sample_life sample_life_params 10 = (s', Inr ()) \<and> bt_ok (ls_souls s') \<and>
     list_all (settled sample_life_params 10) (bt_values (ls_souls s'))"
  by (rule reaper_leaves_no_due_soul [OF sample_life_facts(1)])

definition sample_loan :: credit_line where
  "sample_loan = the (bt_get (ls_loans sample_life) ''loan'')"

lemma sample_loan_facts:
  "bt_get (ls_loans sample_life) ''loan'' = Some sample_loan" "cl_lender_soul_id sample_loan = ''b''"
  "cl_borrower_soul_id sample_loan = ''c''" "cl_status sample_loan = ''open''" "unat (cl_principal sample_loan) = 9"
  by code_simp+

theorem credit_line_bypasses_lender_witness:
  "total_balance (fst (accept_credit_line sample_hash sample_life ''loan'' 2)) = 30 \<and>
   bt_get (ls_souls (fst (accept_credit_line sample_hash sample_life ''loan'' 2))) ''b'' = bt_get (ls_souls sample_life) ''b''"
  using credit_line_bypasses_lender [OF sample_life_facts(1) sample_loan_facts(1), of "sample_soul ''c''" sample_hash 2
      "fst (accept_credit_line sample_hash sample_life ''loan'' 2)" "snd (accept_credit_line sample_hash sample_life ''loan'' 2)"]
  by (simp add: sample_loan_facts sample_life_facts)

end
