(* ===== verification/Float64.thy ===== *)
theory Float64
  imports Complex_Main Fractal_Prelude
begin

text \<open>
  The \<open>f64\<close> of the language: IEEE 754 double precision with rounding to nearest, ties to even, and
  the signed 64-bit integers that the accounting code converts it to and from.

  A finite value is the rational number it stands for.  The sign of a zero is not kept: the sources
  compare floats, and divide only by values whose zero is positive, so it is never observed.
  The results show how far a rounding is from the exact value, and that a micro amount of at most
  2 to the 50 comes back unchanged from its float.
\<close>

section \<open>Definitions\<close>

datatype f64 = Fl rat | FInf bool | FNaN

text \<open>The position of the top bit of a positive number, and the binade of a positive rational.\<close>

fun top_bit :: "nat \<Rightarrow> nat" where
  "top_bit n = (if n < 2 then 0 else Suc (top_bit (n div 2)))"

definition binade :: "rat \<Rightarrow> int" where
  "binade x =
     (case quotient_of x of (a, b) \<Rightarrow>
        let e = int (top_bit (nat a)) - int (top_bit (nat b))
        in if 2 powi e \<le> x then e else e - 1)"

definition round_even :: "rat \<Rightarrow> int" where
  "round_even x =
     (let f = \<lfloor>x\<rfloor>; d = x - of_int f
      in if d < 1/2 then f else if 1/2 < d then f + 1 else if even f then f else f + 1)"

text \<open>The nearest value with 53 bits of precision, or with the exponent of the subnormal numbers.\<close>

definition grid :: "rat \<Rightarrow> int" where
  "grid x = max (binade \<bar>x\<bar> - 52) (- 1074)"

definition nearest :: "rat \<Rightarrow> rat" where
  "nearest x = (if x = 0 then 0 else of_int (round_even (x / 2 powi grid x)) * 2 powi grid x)"

definition fl :: "rat \<Rightarrow> f64" where
  "fl x = (if 2 powi 1024 \<le> \<bar>nearest x\<bar> then FInf (x < 0) else Fl (nearest x))"

definition f_is_finite :: "f64 \<Rightarrow> bool" where
  "f_is_finite v = (case v of Fl _ \<Rightarrow> True | _ \<Rightarrow> False)"

text \<open>The comparisons: every comparison with a NaN is false.\<close>

fun f_less :: "f64 \<Rightarrow> f64 \<Rightarrow> bool" where
  "f_less (Fl a) (Fl b) \<longleftrightarrow> a < b"
| "f_less (Fl a) (FInf neg) \<longleftrightarrow> \<not> neg"
| "f_less (FInf neg) (Fl b) \<longleftrightarrow> neg"
| "f_less (FInf n1) (FInf n2) \<longleftrightarrow> n1 \<and> \<not> n2"
| "f_less FNaN _ \<longleftrightarrow> False"
| "f_less _ FNaN \<longleftrightarrow> False"

definition f_eq :: "f64 \<Rightarrow> f64 \<Rightarrow> bool" where
  "f_eq a b \<longleftrightarrow> a = b \<and> a \<noteq> FNaN"

definition f_le :: "f64 \<Rightarrow> f64 \<Rightarrow> bool" where
  "f_le a b \<longleftrightarrow> f_less a b \<or> f_eq a b"

fun f_neg :: "f64 \<Rightarrow> f64" where
  "f_neg (Fl a) = Fl (- a)"
| "f_neg (FInf n) = FInf (\<not> n)"
| "f_neg FNaN = FNaN"

fun f_add :: "f64 \<Rightarrow> f64 \<Rightarrow> f64" where
  "f_add (Fl a) (Fl b) = fl (a + b)"
| "f_add (Fl a) (FInf n) = FInf n"
| "f_add (FInf n) (Fl b) = FInf n"
| "f_add (FInf n1) (FInf n2) = (if n1 = n2 then FInf n1 else FNaN)"
| "f_add FNaN _ = FNaN"
| "f_add _ FNaN = FNaN"

definition f_sub :: "f64 \<Rightarrow> f64 \<Rightarrow> f64" where
  "f_sub a b = f_add a (f_neg b)"

fun f_mul :: "f64 \<Rightarrow> f64 \<Rightarrow> f64" where
  "f_mul (Fl a) (Fl b) = fl (a * b)"
| "f_mul (Fl a) (FInf n) = (if a = 0 then FNaN else FInf ((a < 0) \<noteq> n))"
| "f_mul (FInf n) (Fl b) = (if b = 0 then FNaN else FInf ((b < 0) \<noteq> n))"
| "f_mul (FInf n1) (FInf n2) = FInf (n1 \<noteq> n2)"
| "f_mul FNaN _ = FNaN"
| "f_mul _ FNaN = FNaN"

text \<open>Division; a zero divisor is the positive zero.\<close>

fun f_div :: "f64 \<Rightarrow> f64 \<Rightarrow> f64" where
  "f_div (Fl a) (Fl b) = (if b = 0 then if a = 0 then FNaN else FInf (a < 0) else fl (a / b))"
| "f_div (Fl a) (FInf n) = Fl 0"
| "f_div (FInf n) (Fl b) = FInf ((b < 0) \<noteq> n)"
| "f_div (FInf n1) (FInf n2) = FNaN"
| "f_div FNaN _ = FNaN"
| "f_div _ FNaN = FNaN"

text \<open>\<open>f64::round\<close>: to the nearest integer, ties away from zero.\<close>

definition round_away :: "rat \<Rightarrow> int" where
  "round_away x = (if 0 \<le> x then \<lfloor>x + 1/2\<rfloor> else - \<lfloor>1/2 - x\<rfloor>)"

fun f_round :: "f64 \<Rightarrow> f64" where
  "f_round (Fl a) = Fl (of_int (round_away a))"
| "f_round v = v"

text \<open>Signed 64-bit integers: the wrap of a release build, division that truncates, and the casts.\<close>

definition I64_MAX :: int where "I64_MAX = 2 ^ 63 - 1"
definition I64_MIN :: int where "I64_MIN = - (2 ^ 63)"

definition wrap_i64 :: "int \<Rightarrow> int" where
  "wrap_i64 x = (x + 2 ^ 63) mod 2 ^ 64 - 2 ^ 63"

definition trunc_div :: "int \<Rightarrow> int \<Rightarrow> int" where
  "trunc_div a b = sgn a * sgn b * (\<bar>a\<bar> div \<bar>b\<bar>)"

definition f_of_i64 :: "int \<Rightarrow> f64" where
  "f_of_i64 n = fl (of_int n)"

fun f_as_i64 :: "f64 \<Rightarrow> int" where
  "f_as_i64 (Fl a) = max I64_MIN (min I64_MAX (if 0 \<le> a then \<lfloor>a\<rfloor> else \<lceil>a\<rceil>))"
| "f_as_i64 (FInf neg) = (if neg then I64_MIN else I64_MAX)"
| "f_as_i64 FNaN = 0"

section \<open>Rounding\<close>

declare top_bit.simps [simp del]

lemma top_bit_bounds: "0 < n \<Longrightarrow> 2 ^ top_bit n \<le> n \<and> n < 2 * 2 ^ top_bit n"
proof (induction n rule: top_bit.induct)
  case (1 n)
  show ?case
  proof (cases "n < 2")
    case True
    with 1 show ?thesis by (simp add: top_bit.simps [of n])
  next
    case False
    with 1 show ?thesis by (simp add: top_bit.simps [of n]) linarith
  qed
qed

lemma powi_diff: "(2::rat) powi (int m - int n) = 2 ^ m / 2 ^ n"
  by (simp add: power_int_diff)

lemma powi_less_exponent: "(2::rat) powi a < 2 powi b \<Longrightarrow> a < b"
  using power_int_increasing [of b a "2::rat"] by (meson less_le_not_le linorder_le_less_linear one_le_numeral)

lemma binade_bounds:
  assumes "0 < x"
  shows "2 powi binade x \<le> x" and "x < 2 * 2 powi binade x"
proof -
  obtain a b where q: "quotient_of x = (a, b)" by force
  have b: "0 < b" using q by (rule quotient_of_denom_pos)
  have x: "x = of_int a / of_int b" using q by (rule quotient_of_div)
  then have a: "0 < a" using assms b by (simp add: zero_less_divide_iff)
  define A :: rat where "A = 2 ^ top_bit (nat a)"
  define B :: rat where "B = 2 ^ top_bit (nat b)"
  have nat_bounds: "2 ^ top_bit (nat c) \<le> (of_int c :: rat) \<and> of_int c < (2 * 2 ^ top_bit (nat c) :: rat)" if "0 < c" for c
  proof -
    have "2 ^ top_bit (nat c) \<le> c" "c < 2 * 2 ^ top_bit (nat c)"
      using top_bit_bounds [of "nat c"] that by (simp_all add: le_nat_iff nat_less_iff)
    then have "of_int (2 ^ top_bit (nat c)) \<le> (of_int c :: rat)" "(of_int c :: rat) < of_int (2 * 2 ^ top_bit (nat c))"
      by (simp_all only: of_int_le_iff of_int_less_iff)
    then show ?thesis by simp
  qed
  have A: "0 < A" "A \<le> of_int a" "of_int a < 2 * A" and B: "0 < B" "B \<le> of_int b" "of_int b < 2 * B"
    using nat_bounds [OF a] nat_bounds [OF b] by (simp_all add: A_def B_def)
  have "x < 2 * A / B"
    unfolding x using A B b by (intro frac_less) (use a in auto)
  moreover have "A / (2 * B) < x"
    unfolding x using A B b by (intro frac_less2) auto
  moreover have "2 powi (int (top_bit (nat a)) - int (top_bit (nat b))) = A / B"
    by (simp add: powi_diff A_def B_def)
  moreover have "2 powi (int (top_bit (nat a)) - int (top_bit (nat b)) - 1) = A / (2 * B)"
    using powi_diff [of "top_bit (nat a)" "Suc (top_bit (nat b))"] by (simp add: A_def B_def algebra_simps)
  ultimately show "2 powi binade x \<le> x" and "x < 2 * 2 powi binade x"
    by (auto simp: binade_def q Let_def)
qed

lemma round_even_error: "\<bar>of_int (round_even x) - x\<bar> \<le> 1/2"
proof -
  have "of_int \<lfloor>x\<rfloor> \<le> x" "x < of_int \<lfloor>x\<rfloor> + 1" by linarith+
  then show ?thesis by (auto simp: round_even_def Let_def abs_le_iff)
qed

lemma round_even_int [simp]: "round_even (of_int n) = n"
  by (simp add: round_even_def)

text \<open>Half a unit of the last place for a normal number.\<close>

lemma nearest_error:
  assumes "2 powi (- 1022) \<le> \<bar>x\<bar>"
  shows "\<bar>nearest x - x\<bar> \<le> \<bar>x\<bar> / 2 ^ 53"
proof -
  let ?g = "grid x" and ?y = "x / 2 powi grid x"
  have "0 < \<bar>x\<bar>" using assms zero_less_power_int [of 2 "- 1022 :: int"] by (meson less_le_trans zero_less_numeral)
  note bin = binade_bounds [OF this]
  have "(2::rat) powi (- 1022) < 2 powi (binade \<bar>x\<bar> + 1)"
    using bin(2) assms by (simp add: power_int_add)
  then have "- 1022 \<le> binade \<bar>x\<bar>" using powi_less_exponent by fastforce
  then have g: "?g = binade \<bar>x\<bar> - 52" by (simp add: grid_def)
  have "nearest x - x = (of_int (round_even ?y) - ?y) * 2 powi ?g"
    using \<open>0 < \<bar>x\<bar>\<close> by (simp add: nearest_def algebra_simps)
  then have "\<bar>nearest x - x\<bar> = \<bar>of_int (round_even ?y) - ?y\<bar> * 2 powi ?g" by (simp add: abs_mult)
  also have "\<dots> \<le> 1/2 * 2 powi ?g" by (intro mult_right_mono round_even_error) simp
  also have "\<dots> = 2 powi binade \<bar>x\<bar> / 2 ^ 53" by (simp add: g power_int_diff)
  also have "\<dots> \<le> \<bar>x\<bar> / 2 ^ 53" using bin(1) by (intro divide_right_mono) auto
  finally show ?thesis .
qed

text \<open>An integer of at most 53 bits is a value.\<close>

lemma nearest_int:
  assumes "\<bar>n\<bar> < 2 ^ 53"
  shows "nearest (of_int n) = of_int n"
proof (cases "n = 0")
  case False
  let ?x = "of_int n :: rat"
  have pos: "0 < \<bar>?x\<bar>" using False by simp
  have "\<bar>?x\<bar> < 2 ^ 53" using assms by (metis of_int_abs of_int_less_iff of_int_numeral of_int_power)
  then have "(2::rat) powi binade \<bar>?x\<bar> < 2 powi 53" using binade_bounds(1) [OF pos] by simp
  then have "binade \<bar>?x\<bar> < 53" by (rule powi_less_exponent)
  then obtain k where k: "grid ?x = - int k" by (auto simp: grid_def max_def intro: that [of "nat (- grid ?x)"])
  have "?x / 2 powi grid ?x = of_int (n * 2 ^ k)" by (simp add: k power_int_minus field_simps)
  then have "round_even (?x / 2 powi grid ?x) = n * 2 ^ k" by (simp only: round_even_int)
  then have "nearest ?x = of_int (n * 2 ^ k) * 2 powi grid ?x" using False by (simp add: nearest_def)
  then show ?thesis by (simp add: k power_int_minus)
qed (simp add: nearest_def)

lemma fl_small: "\<bar>nearest x\<bar> < 2 ^ 1023 \<Longrightarrow> fl x = Fl (nearest x)"
proof -
  assume "\<bar>nearest x\<bar> < 2 ^ 1023"
  also have "(2::rat) ^ 1023 \<le> 2 ^ 1024" by (rule power_increasing) simp_all
  finally show ?thesis by (simp add: fl_def)
qed

lemma f_of_i64_exact: "\<bar>n\<bar> < 2 ^ 53 \<Longrightarrow> f_of_i64 n = Fl (of_int n)"
proof -
  assume n: "\<bar>n\<bar> < 2 ^ 53"
  then have "\<bar>of_int n :: rat\<bar> < 2 ^ 53" by (metis of_int_abs of_int_less_iff of_int_numeral of_int_power)
  also have "(2::rat) ^ 53 \<le> 2 ^ 1023" by (rule power_increasing) simp_all
  finally show ?thesis unfolding f_of_i64_def using nearest_int [OF n] by (simp add: fl_small)
qed

section \<open>Integers of 64 bits\<close>

lemma wrap_i64_id: "I64_MIN \<le> x \<Longrightarrow> x \<le> I64_MAX \<Longrightarrow> wrap_i64 x = x"
  by (simp add: wrap_i64_def I64_MIN_def I64_MAX_def)

lemma wrap_i64_range: "I64_MIN \<le> wrap_i64 x \<and> wrap_i64 x \<le> I64_MAX"
  by (simp add: wrap_i64_def I64_MIN_def I64_MAX_def)

lemma trunc_div_error: "0 < b \<Longrightarrow> \<bar>trunc_div a b * b - a\<bar> < b"
proof -
  assume b: "0 < b"
  have "\<bar>a\<bar> div b * b = \<bar>a\<bar> - \<bar>a\<bar> mod b" by (simp add: minus_mod_eq_div_mult)
  moreover have "0 \<le> \<bar>a\<bar> mod b" "\<bar>a\<bar> mod b < b" using b by simp_all
  moreover have "trunc_div a b * b = sgn a * (\<bar>a\<bar> div b * b)" using b by (simp add: trunc_div_def)
  ultimately show ?thesis by (cases "0 \<le> a") (simp_all add: sgn_if)
qed

lemma trunc_div_0 [simp]: "trunc_div 0 b = 0"
  by (simp add: trunc_div_def)

lemma round_away_near:
  assumes "\<bar>x - of_int n\<bar> < 1/2"
  shows "round_away x = n"
proof (cases "0 \<le> x")
  case True
  have "\<lfloor>x + 1/2\<rfloor> = n" using assms unfolding floor_eq_iff abs_less_iff by linarith
  with True show ?thesis by (simp add: round_away_def)
next
  case False
  have "\<lfloor>1/2 - x\<rfloor> = - n" using assms unfolding floor_eq_iff abs_less_iff by simp
  with False show ?thesis by (simp add: round_away_def)
qed

end
