(* ===== verification/Trading_Sim.thy ===== *)
theory Trading_Sim
  imports Float64 Rust_Result
begin

text \<open>
  The trading simulator of \<open>crates/fractal-society/src/adapters/trading\<close>: \<open>types.rs\<close>, the integer
  ledger of \<open>ledger.rs\<close>, the fill model and the adapter that validates actions and runs a step.

  Amounts are signed 64-bit integers of millionths, kept as \<open>int\<close> with the wrap of a release build
  written out; prices and quantities cross the boundary as \<open>f64\<close>.  A hash map over the two assets is
  a map.  The JSON of an observation or an outcome is left out.
\<close>

section \<open>Types\<close>

definition MICRO :: int where "MICRO = 1000000"

datatype asset = Btc | Eth

fun symbol :: "asset \<Rightarrow> string" where
  "symbol Btc = ''BTC''"
| "symbol Eth = ''ETH''"

datatype side = Buy | Sell

fun side_sign :: "side \<Rightarrow> int" where
  "side_sign Buy = 1"
| "side_sign Sell = - 1"

datatype order_type = MarketableIoc | LimitGtc

type_synonym order_id = u64

text \<open>The errors of the crate that the simulator raises.\<close>

datatype society_error = InvalidAction string | InvalidArtifact string

definition f_zero :: f64 where "f_zero = Fl 0"

definition normalize_zero :: "f64 \<Rightarrow> f64" where
  "normalize_zero v = (if f_eq v f_zero then f_zero else v)"

definition finite_positive :: "f64 \<Rightarrow> string \<Rightarrow> society_error + unit" where
  "finite_positive v name =
     (if \<not> f_is_finite v \<or> f_le v f_zero then Inl (InvalidAction (name @ '' must be finite and positive'')) else Inr ())"

definition finite_nonnegative :: "f64 \<Rightarrow> string \<Rightarrow> society_error + unit" where
  "finite_nonnegative v name =
     (if \<not> f_is_finite v \<or> f_less v f_zero then Inl (InvalidAction (name @ '' must be finite and nonnegative'')) else Inr ())"

definition price_to_micro :: "f64 \<Rightarrow> society_error + int" where
  "price_to_micro v =
     try_ok (finite_nonnegative v ''price'') (\<lambda>_.
       Inr (f_as_i64 (f_round (f_mul (normalize_zero v) (f_of_i64 MICRO)))))"

definition qty_to_micro :: "f64 \<Rightarrow> society_error + int" where
  "qty_to_micro v =
     try_ok (finite_positive v ''qty'') (\<lambda>_.
       Inr (f_as_i64 (f_round (f_mul (normalize_zero v) (f_of_i64 MICRO)))))"

definition micro_to_f64 :: "int \<Rightarrow> f64" where
  "micro_to_f64 n = normalize_zero (f_div (f_of_i64 n) (f_of_i64 MICRO))"

record market_bar =
  mb_ts :: int
  mb_asset :: asset
  mb_open :: f64
  mb_high :: f64
  mb_low :: f64
  mb_close :: f64
  mb_volume :: f64
  mb_stale :: bool
  mb_funding_rate :: f64

definition close_micro :: "market_bar \<Rightarrow> society_error + int" where
  "close_micro bar = price_to_micro (mb_close bar)"

definition high_micro :: "market_bar \<Rightarrow> society_error + int" where
  "high_micro bar = price_to_micro (mb_high bar)"

definition low_micro :: "market_bar \<Rightarrow> society_error + int" where
  "low_micro bar = price_to_micro (mb_low bar)"

record position_view =
  pv_asset :: asset
  pv_qty :: f64
  pv_avg_entry_price :: f64
  pv_mark_price :: f64
  pv_notional :: f64
  pv_unrealized_pnl :: f64

datatype trading_action =
    Hold
  | PlaceOrder asset side order_type f64 "f64 option" bool
  | CancelOrder order_id
  | ReducePosition asset f64

definition action_validate :: "trading_action \<Rightarrow> society_error + unit" where
  "action_validate action =
     (case action of
        PlaceOrder asset side order_type qty limit_price reduce_only \<Rightarrow>
          try_ok (finite_positive qty ''qty'') (\<lambda>_.
            case limit_price of Some price \<Rightarrow> finite_positive price ''limit_price'' | None \<Rightarrow> Inr ())
      | ReducePosition asset qty \<Rightarrow> finite_positive qty ''qty''
      | _ \<Rightarrow> Inr ())"

record fill_record =
  fr_order_id :: "order_id option"
  fr_asset :: asset
  fr_side :: side
  fr_qty :: f64
  fr_price :: f64
  fr_fee :: f64
  fr_liquidation :: bool

record trading_config =
  tc_initial_equity :: f64
  tc_max_initial_leverage :: f64
  tc_min_notional :: f64
  tc_fee_bps :: u32
  tc_daily_loss_stop_fraction :: f64
  tc_liquidation_equity_fraction :: f64
  tc_max_steps :: u64

definition default_trading_config :: trading_config where
  "default_trading_config =
     \<lparr>tc_initial_equity = fl 100000, tc_max_initial_leverage = fl 2, tc_min_notional = fl 10, tc_fee_bps = 5,
      tc_daily_loss_stop_fraction = fl (1/10), tc_liquidation_equity_fraction = fl (1/2), tc_max_steps = 100\<rparr>"

section \<open>The ledger\<close>

definition mul_micro :: "int \<Rightarrow> int \<Rightarrow> int" where
  "mul_micro a b = wrap_i64 (trunc_div (a * b) MICRO)"

record fill_request =
  fq_asset :: asset
  fq_side :: side
  fq_qty :: f64
  fq_price :: f64
  fq_fee_bps :: u32
  fq_order_id :: "order_id option"
  fq_liquidation :: bool

record trade_position =
  ps_qty_micro :: int
  ps_avg_entry_price_micro :: int

definition is_flat :: "trade_position \<Rightarrow> bool" where
  "is_flat p \<longleftrightarrow> ps_qty_micro p = 0"

record trading_ledger =
  tl_initial_equity_micro :: int
  tl_cash_micro :: int
  tl_realized_pnl_micro :: int
  tl_fees_micro :: int
  tl_funding_paid_micro :: int
  tl_positions :: "asset \<rightharpoonup> trade_position"

definition new_trading_ledger :: "trading_config \<Rightarrow> society_error + trading_ledger" where
  "new_trading_ledger config =
     try_ok (price_to_micro (tc_initial_equity config)) (\<lambda>equity.
       Inr \<lparr>tl_initial_equity_micro = equity, tl_cash_micro = equity, tl_realized_pnl_micro = 0, tl_fees_micro = 0,
            tl_funding_paid_micro = 0, tl_positions = Map.empty\<rparr>)"

definition flat_position :: trade_position where
  "flat_position = \<lparr>ps_qty_micro = 0, ps_avg_entry_price_micro = 0\<rparr>"

definition position_of :: "trading_ledger \<Rightarrow> asset \<Rightarrow> trade_position" where
  "position_of L asset = unwrap_or (tl_positions L asset) flat_position"

text \<open>The mark of a position: the quoted price, or the entry price when there is none.\<close>

definition mark_of :: "trading_ledger \<Rightarrow> (asset \<rightharpoonup> int) \<Rightarrow> asset \<Rightarrow> int" where
  "mark_of L marks asset = unwrap_or (marks asset) (ps_avg_entry_price_micro (position_of L asset))"

definition position_views :: "trading_ledger \<Rightarrow> (asset \<rightharpoonup> int) \<Rightarrow> position_view list" where
  "position_views L marks = List.map_filter (\<lambda>asset.
     let pos = position_of L asset
     in if is_flat pos then None
        else let mark = mark_of L marks asset;
                 notional = mul_micro (ps_qty_micro pos) mark;
                 unrealized = mul_micro (ps_qty_micro pos) (wrap_i64 (mark - ps_avg_entry_price_micro pos))
             in Some \<lparr>pv_asset = asset, pv_qty = micro_to_f64 (ps_qty_micro pos),
                      pv_avg_entry_price = micro_to_f64 (ps_avg_entry_price_micro pos),
                      pv_mark_price = micro_to_f64 mark, pv_notional = micro_to_f64 notional,
                      pv_unrealized_pnl = micro_to_f64 unrealized\<rparr>) [Btc, Eth]"

text \<open>The sum of a signed amount over the two assets.\<close>

definition sum_assets :: "(asset \<Rightarrow> int) \<Rightarrow> int" where
  "sum_assets f = wrap_i64 (wrap_i64 (0 + f Btc) + f Eth)"

definition notional_micro :: "trading_ledger \<Rightarrow> (asset \<rightharpoonup> int) \<Rightarrow> int" where
  "notional_micro L marks = sum_assets (\<lambda>asset. mul_micro (ps_qty_micro (position_of L asset)) (mark_of L marks asset))"

definition equity_micro :: "trading_ledger \<Rightarrow> (asset \<rightharpoonup> int) \<Rightarrow> int" where
  "equity_micro L marks = wrap_i64 (tl_cash_micro L + notional_micro L marks)"

definition abs_i64 :: "int \<Rightarrow> int" where
  "abs_i64 x = wrap_i64 \<bar>x\<bar>"

definition gross_exposure_micro :: "trading_ledger \<Rightarrow> (asset \<rightharpoonup> int) \<Rightarrow> int" where
  "gross_exposure_micro L marks =
     sum_assets (\<lambda>asset. mul_micro (abs_i64 (ps_qty_micro (position_of L asset))) (mark_of L marks asset))"

definition unrealized_pnl_micro :: "trading_ledger \<Rightarrow> (asset \<rightharpoonup> int) \<Rightarrow> int" where
  "unrealized_pnl_micro L marks =
     sum_assets (\<lambda>asset. let pos = position_of L asset in
       mul_micro (ps_qty_micro pos) (wrap_i64 (mark_of L marks asset - ps_avg_entry_price_micro pos)))"

definition total_pnl_micro :: "trading_ledger \<Rightarrow> (asset \<rightharpoonup> int) \<Rightarrow> int" where
  "total_pnl_micro L marks = wrap_i64 (equity_micro L marks - tl_initial_equity_micro L)"

definition entry_average :: "trade_position \<Rightarrow> int \<Rightarrow> int \<Rightarrow> int" where
  "entry_average pos delta price =
     (let old_abs = abs_i64 (ps_qty_micro pos); delta_abs = abs_i64 delta; total_abs = wrap_i64 (old_abs + delta_abs)
      in if total_abs = 0 then 0
         else wrap_i64 (trunc_div (ps_avg_entry_price_micro pos * old_abs + price * delta_abs) total_abs))"

definition put_position :: "asset \<Rightarrow> trade_position \<Rightarrow> trading_ledger \<Rightarrow> trading_ledger" where
  "put_position asset pos L =
     L\<lparr>tl_positions := (tl_positions L)(asset := (if ps_qty_micro pos = 0 then None else Some pos))\<rparr>"

definition update_position :: "asset \<Rightarrow> int \<Rightarrow> int \<Rightarrow> trading_ledger \<Rightarrow> trading_ledger" where
  "update_position asset delta price L =
     (let pos = position_of L asset; q = ps_qty_micro pos; q' = wrap_i64 (q + delta)
      in if q = 0 \<or> sgn q = sgn delta
         then put_position asset \<lparr>ps_qty_micro = q', ps_avg_entry_price_micro = entry_average pos delta price\<rparr> L
         else let close_qty = min (abs_i64 q) (abs_i64 delta);
                  gain = mul_micro (wrap_i64 (close_qty * sgn q)) (wrap_i64 (price - ps_avg_entry_price_micro pos));
                  avg = (if q' = 0 then 0 else if sgn q' \<noteq> sgn q then price else ps_avg_entry_price_micro pos)
              in put_position asset \<lparr>ps_qty_micro = q', ps_avg_entry_price_micro = avg\<rparr>
                   (L\<lparr>tl_realized_pnl_micro := wrap_i64 (tl_realized_pnl_micro L + gain)\<rparr>))"

definition fee_of :: "int \<Rightarrow> u32 \<Rightarrow> int" where
  "fee_of notional bps = trunc_div (wrap_i64 (notional * uint bps)) 10000"

text \<open>The accounting of a fill in micro units.\<close>

definition book_fill :: "asset \<Rightarrow> side \<Rightarrow> int \<Rightarrow> int \<Rightarrow> u32 \<Rightarrow> trading_ledger \<Rightarrow> trading_ledger" where
  "book_fill asset side qty price bps L =
     (let notional = mul_micro qty price; fee = fee_of notional bps
      in update_position asset (wrap_i64 (qty * side_sign side)) price
           (L\<lparr>tl_fees_micro := wrap_i64 (tl_fees_micro L + fee),
              tl_cash_micro := wrap_i64 (wrap_i64 (tl_cash_micro L - wrap_i64 (side_sign side * notional)) - fee)\<rparr>))"

definition apply_fill :: "trading_ledger \<Rightarrow> fill_request \<Rightarrow> (trading_ledger, society_error, fill_record) exec" where
  "apply_fill L r =
     (case qty_to_micro (fq_qty r) of Inl e \<Rightarrow> (L, Inl e)
      | Inr qty \<Rightarrow>
        (case price_to_micro (fq_price r) of Inl e \<Rightarrow> (L, Inl e)
         | Inr price \<Rightarrow>
           (book_fill (fq_asset r) (fq_side r) qty price (fq_fee_bps r) L,
            Inr \<lparr>fr_order_id = fq_order_id r, fr_asset = fq_asset r, fr_side = fq_side r, fr_qty = fq_qty r, fr_price = fq_price r,
                 fr_fee = micro_to_f64 (fee_of (mul_micro qty price) (fq_fee_bps r)), fr_liquidation = fq_liquidation r\<rparr>)))"

definition fund_asset :: "(asset \<rightharpoonup> int) \<Rightarrow> (asset \<rightharpoonup> f64) \<Rightarrow> trading_ledger \<Rightarrow> asset \<Rightarrow> trading_ledger" where
  "fund_asset marks funding_rates L asset =
     (let pos = position_of L asset
      in if ps_qty_micro pos = 0 then L
         else let notional = mul_micro (ps_qty_micro pos) (mark_of L marks asset);
                  rate = unwrap_or (funding_rates asset) f_zero;
                  payment = f_as_i64 (f_round (f_mul (f_of_i64 notional) rate))
              in L\<lparr>tl_cash_micro := wrap_i64 (tl_cash_micro L - payment),
                   tl_realized_pnl_micro := wrap_i64 (tl_realized_pnl_micro L - payment),
                   tl_funding_paid_micro := wrap_i64 (tl_funding_paid_micro L + payment)\<rparr>)"

definition apply_funding :: "trading_ledger \<Rightarrow> (asset \<rightharpoonup> int) \<Rightarrow> (asset \<rightharpoonup> f64) \<Rightarrow> trading_ledger" where
  "apply_funding L marks funding_rates = foldl (fund_asset marks funding_rates) L [Btc, Eth]"

fun liquidate_assets ::
    "(asset \<rightharpoonup> int) \<Rightarrow> u32 \<Rightarrow> trading_ledger \<Rightarrow> asset list \<Rightarrow> (trading_ledger, society_error, fill_record list) exec" where
  "liquidate_assets marks bps L [] = (L, Inr [])"
| "liquidate_assets marks bps L (asset # assets) =
     (let pos = position_of L asset
      in if ps_qty_micro pos = 0 then liquidate_assets marks bps L assets
         else (case marks asset of
            None \<Rightarrow> (L, Inl (InvalidAction (''missing mark for '' @ symbol asset)))
          | Some price \<Rightarrow>
              and_then (apply_fill L \<lparr>fq_asset = asset, fq_side = (if 0 < ps_qty_micro pos then Sell else Buy),
                  fq_qty = micro_to_f64 (abs_i64 (ps_qty_micro pos)), fq_price = micro_to_f64 price, fq_fee_bps = bps,
                  fq_order_id = None, fq_liquidation = True\<rparr>) (\<lambda>L' fill.
                and_then (liquidate_assets marks bps L' assets) (\<lambda>L'' fills. (L'', Inr (fill # fills))))))"

definition liquidate_all :: "trading_ledger \<Rightarrow> (asset \<rightharpoonup> int) \<Rightarrow> u32 \<Rightarrow> (trading_ledger, society_error, fill_record list) exec" where
  "liquidate_all L marks bps = liquidate_assets marks bps L [Btc, Eth]"

end
