(* ===== verification/Sim_Kernel.thy ===== *)
theory Sim_Kernel
  imports Float64 Rust_Result
begin

text \<open>
  The simulation kernel, \<open>crates/fractal-society/src/kernel.rs\<close>, with the run trace of
  \<open>simulation.rs\<close>: episodes of an agent against a domain adapter, and the evidence they leave.

  The kernel is generic.  The methods of the two traits it calls are the fields of a record, as are
  the JSON values, the canonical hash and the calendar of \<open>chrono\<close>.  A kernel run attaches no verifier
  reports, so the lists of them, empty in every trace, are left out.
\<close>

section \<open>Types\<close>

datatype 'j policy_decision = Approved | Rejected string | Modified 'j 'j

record kernel_config =
  kc_episodes :: u64
  kc_max_steps_per_episode :: u64

definition default_kernel_config :: kernel_config where
  "default_kernel_config = \<lparr>kc_episodes = 1, kc_max_steps_per_episode = 100\<rparr>"

record ('j, 't) evidence_step =
  es_step :: u64
  es_observation :: 'j
  es_action :: 'j
  es_outcome :: 'j
  es_timestamp :: 't

record ('m, 'j, 't) run_trace =
  rt_run_id :: string
  rt_agent :: "'m option"
  rt_steps :: "('j, 't) evidence_step list"
  rt_final_outcome :: "'j option"

definition new_run_trace :: "string \<Rightarrow> ('m, 'j, 't) run_trace" where
  "new_run_trace run_id = \<lparr>rt_run_id = run_id, rt_agent = None, rt_steps = [], rt_final_outcome = None\<rparr>"

definition record_step :: "u64 \<Rightarrow> 'j \<Rightarrow> 'j \<Rightarrow> 'j \<Rightarrow> 't \<Rightarrow> ('m, 'j, 't) run_trace \<Rightarrow> ('m, 'j, 't) run_trace" where
  "record_step n obs action outcome ts t =
     t\<lparr>rt_steps := rt_steps t @ [\<lparr>es_step = n, es_observation = obs, es_action = action, es_outcome = outcome, es_timestamp = ts\<rparr>]\<rparr>"

datatype 'j risk_decision = RiskApproved | RiskRejected string | RiskModified 'j 'j

datatype provenance_tag = Human | AiSuggested | AiExecuted | HumanRevised

record ('j, 't) decision_trace =
  dt_step :: u64
  dt_observation_hash :: hash256
  dt_action :: 'j
  dt_risk_decision :: "'j risk_decision"
  dt_outcome :: 'j
  dt_provenance :: "provenance_tag option"
  dt_timestamp :: 't

record metric_set =
  ms_primary_metric :: f64
  ms_metrics :: "string \<rightharpoonup> f64"

record ('j, 't) evidence_bundle =
  eb_id :: string
  eb_run_id :: string
  eb_decision_traces :: "('j, 't) decision_trace list"
  eb_metrics :: "string \<rightharpoonup> f64"
  eb_timestamp :: 't

record run_manifest =
  rm_run_id :: string
  rm_seed :: u64
  rm_adapter_id :: string
  rm_adapter_version :: string
  rm_agent_id :: string
  rm_episodes :: u64
  rm_max_steps_per_episode :: u64

record ('j, 't) run_outcome =
  ro_manifest :: run_manifest
  ro_evidence :: "('j, 't) evidence_bundle"
  ro_metrics :: metric_set
  ro_evidence_hash :: hash256

record runtime_state =
  rs_episode :: u64
  rs_step :: u64
  rs_reward :: f64

text \<open>The adapter and the agent of a run, and the libraries the kernel calls.\<close>

record ('a, 'g, 'o, 'c, 'u, 'm, 'j, 't, 'e) simulation =
  sm_adapter_id :: "'a \<Rightarrow> string \<times> string"
  sm_reset :: "'a \<Rightarrow> ('a, 'e, 'o) exec"
  sm_validate_action :: "'a \<Rightarrow> 'c \<Rightarrow> runtime_state \<Rightarrow> 'e + 'j policy_decision"
  sm_step :: "'a \<Rightarrow> 'c \<Rightarrow> ('a, 'e, 'o \<times> 'u \<times> bool) exec"
  sm_score :: "'a \<Rightarrow> ('m, 'j, 't) run_trace \<Rightarrow> 'e + metric_set"
  sm_agent_id :: "'g \<Rightarrow> string"
  sm_manifest :: "'g \<Rightarrow> 'm option"
  sm_act :: "'g \<Rightarrow> 'o \<Rightarrow> ('g, 'e, 'c) exec"
  sm_primary_score :: "'u \<Rightarrow> f64"
  sm_obs_json :: "'o \<Rightarrow> 'e + 'j"
  sm_act_json :: "'c \<Rightarrow> 'e + 'j"
  sm_out_json :: "'u \<Rightarrow> 'e + 'j"
  sm_rejected_json :: "string \<Rightarrow> 'j"
  sm_final_json :: "f64 \<Rightarrow> u64 \<Rightarrow> 'j"
  sm_hash_json :: "'j \<Rightarrow> 'e + hash256"
  sm_hash_evidence :: "('j, 't) evidence_bundle \<Rightarrow> 'e + hash256"
  sm_from_timestamp :: "int \<Rightarrow> 't option"
  sm_epoch :: 't
  sm_show_u64 :: "u64 \<Rightarrow> string"

section \<open>A run\<close>

definition logical_timestamp :: "('a, 'g, 'o, 'c, 'u, 'm, 'j, 't, 'e) simulation \<Rightarrow> u64 \<Rightarrow> 't" where
  "logical_timestamp S n = unwrap_or (sm_from_timestamp S (wrap_i64 (uint n))) (sm_epoch S)"

record ('a, 'g, 'm, 'j, 't) kernel_state =
  ks_adapter :: 'a
  ks_agent :: 'g
  ks_trace :: "('m, 'j, 't) run_trace"
  ks_total_reward :: f64
  ks_global_step :: u64

text \<open>One turn: the state it leaves, and the next observation unless the episode is over.\<close>

definition kernel_turn ::
    "('a, 'g, 'o, 'c, 'u, 'm, 'j, 't, 'e) simulation \<Rightarrow> u64 \<Rightarrow> 'o \<Rightarrow> ('a, 'g, 'm, 'j, 't) kernel_state
     \<Rightarrow> 'e + ('a, 'g, 'm, 'j, 't) kernel_state \<times> 'o option" where
  "kernel_turn S episode obs k =
     (let state = \<lparr>rs_episode = episode, rs_step = ks_global_step k, rs_reward = ks_total_reward k\<rparr>
      in case sm_act S (ks_agent k) obs of
        (agent, Inl e) \<Rightarrow> Inl e
      | (agent, Inr action) \<Rightarrow>
          try_ok (sm_validate_action S (ks_adapter k) action state) (\<lambda>policy.
            let ts = logical_timestamp S (ks_global_step k)
            in try_ok (sm_obs_json S obs) (\<lambda>obs_json.
              try_ok (sm_act_json S action) (\<lambda>action_json.
                case policy of
                  Rejected reason \<Rightarrow>
                    Inr (k\<lparr>ks_agent := agent,
                           ks_trace := record_step (ks_global_step k) obs_json action_json (sm_rejected_json S reason) ts (ks_trace k),
                           ks_global_step := ks_global_step k + 1\<rparr>, Some obs)
                | _ \<Rightarrow>
                    (case sm_step S (ks_adapter k) action of
                       (adapter, Inl e) \<Rightarrow> Inl e
                     | (adapter, Inr (obs', outcome, over)) \<Rightarrow>
                         try_ok (sm_out_json S outcome) (\<lambda>outcome_json.
                           Inr (k\<lparr>ks_adapter := adapter, ks_agent := agent,
                                  ks_trace := record_step (ks_global_step k) obs_json action_json outcome_json ts (ks_trace k),
                                  ks_total_reward := f_add (ks_total_reward k) (sm_primary_score S outcome),
                                  ks_global_step := ks_global_step k + 1\<rparr>,
                                if over then None else Some obs')))))))"

fun kernel_turns ::
    "('a, 'g, 'o, 'c, 'u, 'm, 'j, 't, 'e) simulation \<Rightarrow> u64 \<Rightarrow> nat \<Rightarrow> 'o \<Rightarrow> ('a, 'g, 'm, 'j, 't) kernel_state
     \<Rightarrow> 'e + ('a, 'g, 'm, 'j, 't) kernel_state" where
  "kernel_turns S episode 0 obs k = Inr k"
| "kernel_turns S episode (Suc n) obs k =
     (case kernel_turn S episode obs k of
        Inl e \<Rightarrow> Inl e
      | Inr (k', None) \<Rightarrow> Inr k'
      | Inr (k', Some obs') \<Rightarrow> kernel_turns S episode n obs' k')"

text \<open>One episode, from the reset on.\<close>

definition kernel_episode ::
    "('a, 'g, 'o, 'c, 'u, 'm, 'j, 't, 'e) simulation \<Rightarrow> kernel_config \<Rightarrow> u64 \<Rightarrow> ('a, 'g, 'm, 'j, 't) kernel_state
     \<Rightarrow> 'e + ('a, 'g, 'm, 'j, 't) kernel_state" where
  "kernel_episode S config episode k =
     (case sm_reset S (ks_adapter k) of
        (adapter, Inl e) \<Rightarrow> Inl e
      | (adapter, Inr obs) \<Rightarrow> kernel_turns S episode (unat (kc_max_steps_per_episode config)) obs (k\<lparr>ks_adapter := adapter\<rparr>))"

fun kernel_episodes ::
    "('a, 'g, 'o, 'c, 'u, 'm, 'j, 't, 'e) simulation \<Rightarrow> kernel_config \<Rightarrow> u64 list \<Rightarrow> ('a, 'g, 'm, 'j, 't) kernel_state
     \<Rightarrow> 'e + ('a, 'g, 'm, 'j, 't) kernel_state" where
  "kernel_episodes S config [] k = Inr k"
| "kernel_episodes S config (episode # rest) k =
     try_ok (kernel_episode S config episode k) (kernel_episodes S config rest)"

definition decision_of ::
    "('a, 'g, 'o, 'c, 'u, 'm, 'j, 't, 'e) simulation \<Rightarrow> ('j, 't) evidence_step \<Rightarrow> 'e + ('j, 't) decision_trace" where
  "decision_of S s =
     try_ok (sm_hash_json S (es_observation s)) (\<lambda>h.
       Inr \<lparr>dt_step = es_step s, dt_observation_hash = h, dt_action = es_action s, dt_risk_decision = RiskApproved,
            dt_outcome = es_outcome s, dt_provenance = Some Human, dt_timestamp = es_timestamp s\<rparr>)"

definition into_evidence ::
    "('a, 'g, 'o, 'c, 'u, 'm, 'j, 't, 'e) simulation \<Rightarrow> ('m, 'j, 't) run_trace \<Rightarrow> string \<Rightarrow> (string \<rightharpoonup> f64) \<Rightarrow> 't
     \<Rightarrow> 'e + ('j, 't) evidence_bundle" where
  "into_evidence S t ident metrics ts =
     try_ok (try_map (decision_of S) (rt_steps t)) (\<lambda>ds.
       Inr \<lparr>eb_id = ident, eb_run_id = rt_run_id t, eb_decision_traces = ds, eb_metrics = metrics, eb_timestamp = ts\<rparr>)"

definition start_state ::
    "('a, 'g, 'o, 'c, 'u, 'm, 'j, 't, 'e) simulation \<Rightarrow> 'a \<Rightarrow> 'g \<Rightarrow> string \<Rightarrow> ('a, 'g, 'm, 'j, 't) kernel_state" where
  "start_state S adapter agent run_id =
     \<lparr>ks_adapter = adapter, ks_agent = agent, ks_trace = (new_run_trace run_id)\<lparr>rt_agent := sm_manifest S agent\<rparr>,
      ks_total_reward = Fl 0, ks_global_step = 0\<rparr>"

definition kernel_run ::
    "('a, 'g, 'o, 'c, 'u, 'm, 'j, 't, 'e) simulation \<Rightarrow> 'a \<Rightarrow> 'g \<Rightarrow> u64 \<Rightarrow> kernel_config \<Rightarrow> 'e + ('j, 't) run_outcome" where
  "kernel_run S adapter agent seed config =
     (let run_id = ''run-'' @ sm_show_u64 S seed
      in try_ok (kernel_episodes S config (map of_nat [0..<unat (kc_episodes config)]) (start_state S adapter agent run_id)) (\<lambda>k.
        let trace = (ks_trace k)\<lparr>rt_final_outcome := Some (sm_final_json S (ks_total_reward k) (ks_global_step k))\<rparr>
        in try_ok (sm_score S (ks_adapter k) trace) (\<lambda>metrics.
          try_ok (into_evidence S trace run_id
                    ((ms_metrics metrics)(''total_reward'' \<mapsto> ks_total_reward k, ''steps'' \<mapsto> fl (of_nat (unat (ks_global_step k)))))
                    (logical_timestamp S 0)) (\<lambda>evidence.
            try_ok (sm_hash_evidence S evidence) (\<lambda>h.
              Inr \<lparr>ro_manifest = \<lparr>rm_run_id = run_id, rm_seed = seed, rm_adapter_id = fst (sm_adapter_id S adapter),
                      rm_adapter_version = snd (sm_adapter_id S adapter), rm_agent_id = sm_agent_id S agent,
                      rm_episodes = kc_episodes config, rm_max_steps_per_episode = kc_max_steps_per_episode config\<rparr>,
                   ro_evidence = evidence, ro_metrics = metrics, ro_evidence_hash = h\<rparr>)))))"

definition kernel_replay ::
    "('a, 'g, 'o, 'c, 'u, 'm, 'j, 't, 'e) simulation \<Rightarrow> 'a \<Rightarrow> 'g \<Rightarrow> run_manifest \<Rightarrow> 'e + ('j, 't) run_outcome" where
  "kernel_replay S adapter agent m =
     kernel_run S adapter agent (rm_seed m)
       \<lparr>kc_episodes = rm_episodes m, kc_max_steps_per_episode = rm_max_steps_per_episode m\<rparr>"

section \<open>The play of a run\<close>

text \<open>
  What happens between the agent and the adapter, told without a trace: the moves of the agent in
  their order, each refused by the adapter or taken, and the adapter, the agent, the reward and the
  number of turns they lead to.  A refused move leaves the adapter and the observation as they are
  and uses up a turn of the episode.
\<close>

datatype ('o, 'c, 'u) move = Refused 'o 'c string | Taken 'o 'c 'u

fun is_rejected :: "'j policy_decision \<Rightarrow> bool" where
  "is_rejected (Rejected why) \<longleftrightarrow> True"
| "is_rejected _ \<longleftrightarrow> False"

type_synonym ('a, 'g) world = "'a \<times> 'g \<times> f64 \<times> u64"

inductive episode_play ::
    "('a, 'g, 'o, 'c, 'u, 'm, 'j, 't, 'e) simulation \<Rightarrow> u64 \<Rightarrow> nat \<Rightarrow> 'o \<Rightarrow> ('a, 'g) world \<Rightarrow> ('o, 'c, 'u) move list
     \<Rightarrow> ('a, 'g) world \<Rightarrow> bool" for S episode where
  no_turns: "episode_play S episode 0 obs w [] w"
| refused: "sm_act S g obs = (g', Inr act) \<Longrightarrow>
     sm_validate_action S A act \<lparr>rs_episode = episode, rs_step = n, rs_reward = r\<rparr> = Inr (Rejected why) \<Longrightarrow>
     episode_play S episode m obs (A, g', r, n + 1) ms w \<Longrightarrow>
     episode_play S episode (Suc m) obs (A, g, r, n) (Refused obs act why # ms) w"
| taken: "sm_act S g obs = (g', Inr act) \<Longrightarrow>
     sm_validate_action S A act \<lparr>rs_episode = episode, rs_step = n, rs_reward = r\<rparr> = Inr d \<Longrightarrow> \<not> is_rejected d \<Longrightarrow>
     sm_step S A act = (A', Inr (obs', out, False)) \<Longrightarrow>
     episode_play S episode m obs' (A', g', f_add r (sm_primary_score S out), n + 1) ms w \<Longrightarrow>
     episode_play S episode (Suc m) obs (A, g, r, n) (Taken obs act out # ms) w"
| last: "sm_act S g obs = (g', Inr act) \<Longrightarrow>
     sm_validate_action S A act \<lparr>rs_episode = episode, rs_step = n, rs_reward = r\<rparr> = Inr d \<Longrightarrow> \<not> is_rejected d \<Longrightarrow>
     sm_step S A act = (A', Inr (obs', out, True)) \<Longrightarrow>
     episode_play S episode (Suc m) obs (A, g, r, n) [Taken obs act out] (A', g', f_add r (sm_primary_score S out), n + 1)"

inductive run_play ::
    "('a, 'g, 'o, 'c, 'u, 'm, 'j, 't, 'e) simulation \<Rightarrow> nat \<Rightarrow> u64 list \<Rightarrow> ('a, 'g) world \<Rightarrow> ('o, 'c, 'u) move list
     \<Rightarrow> ('a, 'g) world \<Rightarrow> bool" for S turns where
  no_episodes: "run_play S turns [] w [] w"
| episode: "sm_reset S A = (A', Inr obs) \<Longrightarrow> episode_play S e turns obs (A', g, r, n) ms w \<Longrightarrow>
     run_play S turns es w ms' w' \<Longrightarrow> run_play S turns (e # es) (A, g, r, n) (ms @ ms') w'"

inductive_cases episode_play_0E: "episode_play S episode 0 obs w ms w'"
inductive_cases episode_play_SucE: "episode_play S episode (Suc m) obs w ms w'"
inductive_cases run_play_NilE: "run_play S turns [] w ms w'"
inductive_cases run_play_ConsE: "run_play S turns (e # es) w ms w'"

lemma episode_play_bound:
  "episode_play S episode m obs w ms w' \<Longrightarrow>
     length ms \<le> m \<and> snd (snd (snd w')) = snd (snd (snd w)) + of_nat (length ms)"
  by (induction rule: episode_play.induct) auto

lemma run_play_bound:
  "run_play S turns es w ms w' \<Longrightarrow>
     length ms \<le> length es * turns \<and> snd (snd (snd w')) = snd (snd (snd w)) + of_nat (length ms)"
  by (induction rule: run_play.induct) (auto dest!: episode_play_bound)

text \<open>There is one play at most.\<close>

lemma episode_play_unique:
  "episode_play S episode m obs w ms w' \<Longrightarrow> episode_play S episode m obs w ms1 w1 \<Longrightarrow> ms1 = ms \<and> w1 = w'"
proof (induction arbitrary: ms1 w1 rule: episode_play.induct)
  case (no_turns obs w)
  then show ?case by (auto elim: episode_play_0E)
next
  case (refused g obs g' act A n r why m ms w)
  from refused.prems show ?case
    by (rule episode_play_SucE) (use refused.hyps in \<open>auto dest: refused.IH\<close>)
next
  case (taken g obs g' act A n r d A' obs' out m ms w)
  from taken.prems show ?case
    by (rule episode_play_SucE) (use taken.hyps in \<open>auto dest: taken.IH\<close>)
next
  case (last g obs g' act A n r d A' obs' out m)
  from last.prems show ?case
    by (rule episode_play_SucE) (use last.hyps in auto)
qed

lemma run_play_unique: "run_play S turns es w ms w' \<Longrightarrow> run_play S turns es w ms1 w1 \<Longrightarrow> ms1 = ms \<and> w1 = w'"
proof (induction arbitrary: ms1 w1 rule: run_play.induct)
  case (no_episodes w)
  then show ?case by (auto elim: run_play_NilE)
next
  case (episode A A' obs e g r n ms w es ms' w')
  from episode.prems show ?case
  proof (rule run_play_ConsE)
    fix A0 A1 obs1 g1 r1 n1 ms2 w2 ms3
    assume "(A, g, r, n) = (A0, g1, r1, n1)" and ms1: "ms1 = ms2 @ ms3" and "sm_reset S A0 = (A1, Inr obs1)"
      and "episode_play S e turns obs1 (A1, g1, r1, n1) ms2 w2" and rest: "run_play S turns es w2 ms3 w1"
    then have "episode_play S e turns obs (A', g, r, n) ms2 w2" using episode.hyps(1) by auto
    from episode_play_unique [OF episode.hyps(2) this] have "ms2 = ms" "w2 = w" by simp_all
    then show ?thesis using episode.IH rest ms1 by simp
  qed
qed

section \<open>What the evidence records\<close>

text \<open>The step that a move leaves in a trace, and the steps of the moves of a play.\<close>

fun move_step ::
    "('a, 'g, 'o, 'c, 'u, 'm, 'j, 't, 'e) simulation \<Rightarrow> u64 \<Rightarrow> ('o, 'c, 'u) move \<Rightarrow> ('j, 't) evidence_step \<Rightarrow> bool" where
  "move_step S n (Refused obs act why) s \<longleftrightarrow>
     es_step s = n \<and> sm_obs_json S obs = Inr (es_observation s) \<and> sm_act_json S act = Inr (es_action s)
     \<and> es_outcome s = sm_rejected_json S why \<and> es_timestamp s = logical_timestamp S n"
| "move_step S n (Taken obs act out) s \<longleftrightarrow>
     es_step s = n \<and> sm_obs_json S obs = Inr (es_observation s) \<and> sm_act_json S act = Inr (es_action s)
     \<and> sm_out_json S out = Inr (es_outcome s) \<and> es_timestamp s = logical_timestamp S n"

fun transcript ::
    "('a, 'g, 'o, 'c, 'u, 'm, 'j, 't, 'e) simulation \<Rightarrow> u64 \<Rightarrow> ('o, 'c, 'u) move list \<Rightarrow> ('j, 't) evidence_step list \<Rightarrow> bool" where
  "transcript S n [] ss \<longleftrightarrow> ss = []"
| "transcript S n (mv # ms) ss \<longleftrightarrow> (\<exists>s rest. ss = s # rest \<and> move_step S n mv s \<and> transcript S (n + 1) ms rest)"

lemma transcript_append:
  "transcript S n ms ss \<Longrightarrow> transcript S (n + of_nat (length ms)) ms' ss' \<Longrightarrow> transcript S n (ms @ ms') (ss @ ss')"
  by (induction ms arbitrary: n ss) (auto simp: algebra_simps)

lemma transcript_nth:
  "transcript S n ms ss \<Longrightarrow> length ss = length ms \<and> (\<forall>i < length ms. move_step S (n + of_nat i) (ms ! i) (ss ! i))"
proof (induction ms arbitrary: n ss)
  case (Cons mv ms)
  then obtain s rest where ss: "ss = s # rest" "move_step S n mv s" "transcript S (n + 1) ms rest" by auto
  from Cons.IH [OF ss(3)] ss(1,2) show ?case
    by (auto simp: nth_Cons algebra_simps split: nat.split)
qed simp

lemma record_step_steps [simp]:
  "rt_steps (record_step n obs action outcome ts t) =
     rt_steps t @ [\<lparr>es_step = n, es_observation = obs, es_action = action, es_outcome = outcome, es_timestamp = ts\<rparr>]"
  "rt_run_id (record_step n obs action outcome ts t) = rt_run_id t"
  by (simp_all add: record_step_def)

definition world_of :: "('a, 'g, 'm, 'j, 't) kernel_state \<Rightarrow> ('a, 'g) world" where
  "world_of k = (ks_adapter k, ks_agent k, ks_total_reward k, ks_global_step k)"

text \<open>A turn of the kernel makes one move and records it.\<close>

lemma kernel_turnE:
  assumes "kernel_turn S episode obs k = Inr (k', next')"
  obtains (refused) g' act why s where "sm_act S (ks_agent k) obs = (g', Inr act)"
      "sm_validate_action S (ks_adapter k) act \<lparr>rs_episode = episode, rs_step = ks_global_step k, rs_reward = ks_total_reward k\<rparr> = Inr (Rejected why)"
      "next' = Some obs" "world_of k' = (ks_adapter k, g', ks_total_reward k, ks_global_step k + 1)"
      "rt_steps (ks_trace k') = rt_steps (ks_trace k) @ [s]" "move_step S (ks_global_step k) (Refused obs act why) s"
  | (taken) g' act d A' obs' out over s where "sm_act S (ks_agent k) obs = (g', Inr act)"
      "sm_validate_action S (ks_adapter k) act \<lparr>rs_episode = episode, rs_step = ks_global_step k, rs_reward = ks_total_reward k\<rparr> = Inr d"
      "\<not> is_rejected d" "sm_step S (ks_adapter k) act = (A', Inr (obs', out, over))"
      "next' = (if over then None else Some obs')"
      "world_of k' = (A', g', f_add (ks_total_reward k) (sm_primary_score S out), ks_global_step k + 1)"
      "rt_steps (ks_trace k') = rt_steps (ks_trace k) @ [s]" "move_step S (ks_global_step k) (Taken obs act out) s"
proof -
  define st where "st = \<lparr>rs_episode = episode, rs_step = ks_global_step k, rs_reward = ks_total_reward k\<rparr>"
  obtain agent act where act: "sm_act S (ks_agent k) obs = (agent, Inr act)"
    using assms by (auto simp: kernel_turn_def Let_def split: prod.splits sum.splits)
  have "try_ok (sm_validate_action S (ks_adapter k) act st) (\<lambda>policy.
      kernel_turn S episode obs k) = Inr (k', next')"
    using assms act by (cases "sm_validate_action S (ks_adapter k) act st") (simp_all add: kernel_turn_def st_def Let_def)
  then obtain policy where policy: "sm_validate_action S (ks_adapter k) act st = Inr policy" by (auto elim: try_okE)
  obtain oj aj where json: "sm_obs_json S obs = Inr oj" "sm_act_json S act = Inr aj"
    using assms act policy by (auto simp: kernel_turn_def st_def Let_def elim!: try_okE)
  show thesis
  proof (cases "is_rejected policy")
    case True
    then obtain reason where reason: "policy = Rejected reason" by (cases policy) simp_all
    show thesis
      by (rule refused [OF act policy [unfolded reason st_def]])
         (use assms act policy json reason in \<open>auto simp: kernel_turn_def st_def Let_def world_of_def\<close>)
  next
    case False
    then have go: "(case policy of Rejected reason \<Rightarrow> f reason | _ \<Rightarrow> g) = g" for f g by (cases policy) simp_all
    have "(case sm_step S (ks_adapter k) act of
                       (adapter, Inl e) \<Rightarrow> Inl e
                     | (adapter, Inr (obs', outcome, over)) \<Rightarrow>
                         try_ok (sm_out_json S outcome) (\<lambda>outcome_json.
                           Inr (k\<lparr>ks_adapter := adapter, ks_agent := agent,
                                  ks_trace := record_step (ks_global_step k) oj aj outcome_json (logical_timestamp S (ks_global_step k)) (ks_trace k),
                                  ks_total_reward := f_add (ks_total_reward k) (sm_primary_score S outcome),
                                  ks_global_step := ks_global_step k + 1\<rparr>,
                                if over then None else Some obs'))) = Inr (k', next')"
      using assms unfolding kernel_turn_def Let_def act prod.case sum.case st_def [symmetric] policy json try_ok_simps go .
    then obtain A' o' out over uj where step: "sm_step S (ks_adapter k) act = (A', Inr (o', out, over))" "sm_out_json S out = Inr uj"
      and k': "k' = k\<lparr>ks_adapter := A', ks_agent := agent,
          ks_trace := record_step (ks_global_step k) oj aj uj (logical_timestamp S (ks_global_step k)) (ks_trace k),
          ks_total_reward := f_add (ks_total_reward k) (sm_primary_score S out), ks_global_step := ks_global_step k + 1\<rparr>"
        "next' = (if over then None else Some o')"
      by (auto split: prod.splits sum.splits elim!: try_okE)
    show thesis
      by (rule taken [OF act policy [unfolded st_def] _ step(1)]) (use False step(2) json k' in \<open>auto simp: world_of_def\<close>)
  qed
qed

lemma kernel_turns_play:
  "kernel_turns S episode m obs k = Inr k' \<Longrightarrow>
     \<exists>ms ss. episode_play S episode m obs (world_of k) ms (world_of k') \<and> rt_steps (ks_trace k') = rt_steps (ks_trace k) @ ss
       \<and> transcript S (ks_global_step k) ms ss"
proof (induction m arbitrary: obs k)
  case 0
  then show ?case by (auto intro: episode_play.no_turns)
next
  case (Suc m)
  then obtain k1 next' where turn: "kernel_turn S episode obs k = Inr (k1, next')" by (auto split: sum.splits)
  have w: "world_of k = (ks_adapter k, ks_agent k, ks_total_reward k, ks_global_step k)" by (simp add: world_of_def)
  from turn show ?case
  proof (cases rule: kernel_turnE)
    case (refused g' act why s)
    then have "kernel_turns S episode m obs k1 = Inr k'" using Suc.prems turn by simp
    from Suc.IH [OF this] obtain ms ss where play: "episode_play S episode m obs (world_of k1) ms (world_of k')"
      "rt_steps (ks_trace k') = rt_steps (ks_trace k1) @ ss" "transcript S (ks_global_step k1) ms ss" by blast
    have "ks_global_step k1 = ks_global_step k + 1" using refused(4) by (simp add: world_of_def)
    then show ?thesis
      using episode_play.refused [OF refused(1,2) play(1) [unfolded refused(4)]] play(2,3) refused(5,6)
      unfolding w by (intro exI [of _ "Refused obs act why # ms"] exI [of _ "s # ss"]) simp
  next
    case (taken g' act d A' obs' out over s)
    show ?thesis
    proof (cases over)
      case True
      then have k': "k' = k1" using Suc.prems turn taken(5) by simp
      have st: "sm_step S (ks_adapter k) act = (A', Inr (obs', out, True))" using taken(4) True by simp
      show ?thesis
        using episode_play.last [OF taken(1,2,3) st] taken(6-8)
        unfolding w k' by (intro exI [of _ "[Taken obs act out]"] exI [of _ "[s]"]) simp
    next
      case False
      then have "kernel_turns S episode m obs' k1 = Inr k'" using Suc.prems turn taken(5) by simp
      from Suc.IH [OF this] obtain ms ss where play: "episode_play S episode m obs' (world_of k1) ms (world_of k')"
        "rt_steps (ks_trace k') = rt_steps (ks_trace k1) @ ss" "transcript S (ks_global_step k1) ms ss" by blast
      have st: "sm_step S (ks_adapter k) act = (A', Inr (obs', out, False))" using taken(4) False by simp
      have "ks_global_step k1 = ks_global_step k + 1" using taken(6) by (simp add: world_of_def)
      then show ?thesis
        using episode_play.taken [OF taken(1,2,3) st play(1) [unfolded taken(6)]] play(2,3) taken(7,8)
        unfolding w by (intro exI [of _ "Taken obs act out # ms"] exI [of _ "s # ss"]) simp
    qed
  qed
qed

lemma kernel_episodes_play:
  "kernel_episodes S config es k = Inr k' \<Longrightarrow>
     \<exists>ms ss. run_play S (unat (kc_max_steps_per_episode config)) es (world_of k) ms (world_of k')
       \<and> rt_steps (ks_trace k') = rt_steps (ks_trace k) @ ss \<and> transcript S (ks_global_step k) ms ss"
proof (induction es arbitrary: k)
  case Nil
  then show ?case by (auto intro: run_play.no_episodes)
next
  case (Cons e es)
  let ?m = "unat (kc_max_steps_per_episode config)"
  from Cons.prems obtain k1 where k1: "kernel_episode S config e k = Inr k1" "kernel_episodes S config es k1 = Inr k'"
    by (auto elim: try_okE)
  obtain A obs where A: "sm_reset S (ks_adapter k) = (A, Inr obs)" "kernel_turns S e ?m obs (k\<lparr>ks_adapter := A\<rparr>) = Inr k1"
    using k1(1) by (auto simp: kernel_episode_def split: prod.splits sum.splits)
  from kernel_turns_play [OF A(2)] obtain ms ss
    where first: "episode_play S e ?m obs (A, ks_agent k, ks_total_reward k, ks_global_step k) ms (world_of k1)"
      "rt_steps (ks_trace k1) = rt_steps (ks_trace k) @ ss" "transcript S (ks_global_step k) ms ss"
    by (auto simp: world_of_def)
  from Cons.IH [OF k1(2)] obtain ms' ss' where rest: "run_play S ?m es (world_of k1) ms' (world_of k')"
    "rt_steps (ks_trace k') = rt_steps (ks_trace k1) @ ss'" "transcript S (ks_global_step k1) ms' ss'" by blast
  have "ks_global_step k1 = ks_global_step k + of_nat (length ms)"
    using episode_play_bound [OF first(1)] by (simp add: world_of_def)
  then have "transcript S (ks_global_step k) (ms @ ms') (ss @ ss')" using first(3) rest(3) by (simp add: transcript_append)
  moreover have "run_play S ?m (e # es) (world_of k) (ms @ ms') (world_of k')"
    using run_play.episode [OF A(1) first(1) rest(1)] by (simp add: world_of_def)
  ultimately show ?case using first(2) rest(2) by (intro exI [of _ "ms @ ms'"] exI [of _ "ss @ ss'"]) simp
qed

text \<open>The entry of the evidence that a move leaves: whatever the adapter decided, it says approved.\<close>

fun move_decision ::
    "('a, 'g, 'o, 'c, 'u, 'm, 'j, 't, 'e) simulation \<Rightarrow> u64 \<Rightarrow> ('o, 'c, 'u) move \<Rightarrow> ('j, 't) decision_trace \<Rightarrow> bool" where
  "move_decision S n (Refused obs act why) d \<longleftrightarrow>
     dt_step d = n \<and> try_ok (sm_obs_json S obs) (sm_hash_json S) = Inr (dt_observation_hash d)
     \<and> sm_act_json S act = Inr (dt_action d) \<and> dt_outcome d = sm_rejected_json S why
     \<and> dt_risk_decision d = RiskApproved \<and> dt_timestamp d = logical_timestamp S n"
| "move_decision S n (Taken obs act out) d \<longleftrightarrow>
     dt_step d = n \<and> try_ok (sm_obs_json S obs) (sm_hash_json S) = Inr (dt_observation_hash d)
     \<and> sm_act_json S act = Inr (dt_action d) \<and> sm_out_json S out = Inr (dt_outcome d)
     \<and> dt_risk_decision d = RiskApproved \<and> dt_timestamp d = logical_timestamp S n"

lemma move_decision_of: "move_step S n mv s \<Longrightarrow> decision_of S s = Inr d \<Longrightarrow> move_decision S n mv d"
  by (cases mv) (auto simp: decision_of_def elim!: try_okE)

lemma try_map_nth: "try_map f xs = Inr ys \<Longrightarrow> length ys = length xs \<and> (\<forall>i < length xs. f (xs ! i) = Inr (ys ! i))"
proof (induction xs arbitrary: ys)
  case (Cons x xs)
  then obtain y zs where y: "f x = Inr y" "try_map f xs = Inr zs" "ys = y # zs" by (auto elim!: try_okE)
  from Cons.IH [OF y(2)] y(1,3) show ?case by (auto simp: nth_Cons split: nat.split)
qed simp

section \<open>Invariants of an adapter\<close>

lemma kernel_turn_adapter:
  assumes "kernel_turn S episode obs k = Inr (k', obs')"
  shows "ks_adapter k' = ks_adapter k \<or> (\<exists>act r. sm_step S (ks_adapter k) act = (ks_adapter k', Inr r))"
  using assms by (fastforce simp: kernel_turn_def Let_def split: prod.splits sum.splits policy_decision.splits elim!: try_okE)

text \<open>What a reset and a step keep, a whole run keeps.\<close>

locale episode_invariant =
  fixes S :: "('a, 'g, 'o, 'c, 'u, 'm, 'j, 't, 'e) simulation" and ok :: "'a \<Rightarrow> bool"
  assumes reset_ok: "ok A \<Longrightarrow> sm_reset S A = (A', Inr obs) \<Longrightarrow> ok A'"
    and step_ok: "ok A \<Longrightarrow> sm_step S A act = (A', Inr r) \<Longrightarrow> ok A'"
begin

lemma turn_ok: "ok (ks_adapter k) \<Longrightarrow> kernel_turn S episode obs k = Inr (k', obs') \<Longrightarrow> ok (ks_adapter k')"
  using kernel_turn_adapter step_ok by metis

lemma turns_ok: "ok (ks_adapter k) \<Longrightarrow> kernel_turns S episode m obs k = Inr k' \<Longrightarrow> ok (ks_adapter k')"
proof (induction m arbitrary: obs k)
  case (Suc m)
  then obtain k1 next' where turn: "kernel_turn S episode obs k = Inr (k1, next')" by (auto split: sum.splits)
  then have "ok (ks_adapter k1)" using Suc.prems(1) by (rule turn_ok [rotated])
  then show ?case using Suc turn by (cases next') auto
qed simp

lemma episodes_ok: "ok (ks_adapter k) \<Longrightarrow> kernel_episodes S config es k = Inr k' \<Longrightarrow> ok (ks_adapter k')"
proof (induction es arbitrary: k)
  case (Cons e es)
  from Cons.prems(2) obtain k1 where k1: "kernel_episode S config e k = Inr k1" "kernel_episodes S config es k1 = Inr k'"
    by (auto elim: try_okE)
  obtain A obs where "sm_reset S (ks_adapter k) = (A, Inr obs)"
    "kernel_turns S e (unat (kc_max_steps_per_episode config)) obs (k\<lparr>ks_adapter := A\<rparr>) = Inr k1"
    using k1(1) by (auto simp: kernel_episode_def split: prod.splits sum.splits)
  with Cons.prems(1) have "ok (ks_adapter k1)" using turns_ok [of "k\<lparr>ks_adapter := A\<rparr>"] reset_ok by simp
  from Cons.IH [OF this k1(2)] show ?case .
qed simp

end

section \<open>Properties\<close>

text \<open>
  C40. The evidence of a run is complete.  There is exactly one play between the agent and the adapter over the
  episodes of the run (told without the trace), and the evidence has one entry for every move of it, in order and
  numbered from zero: the hash of the observation, the action, and the outcome of a move taken or the reason of a move
  refused.  There are at most as many as the episodes allow, and the total reward is that of the play.  All the
  entries say approved, those of refused moves too; the comment of \<open>into_evidence\<close> says that refused actions never
  enter the trace.
\<close>

theorem evidence_lists_every_turn:
  assumes "kernel_run S adapter agent seed config = Inr r"
  defines "ds \<equiv> eb_decision_traces (ro_evidence r)"
  shows "\<exists>ms A g reward n. run_play S (unat (kc_max_steps_per_episode config)) (map of_nat [0..<unat (kc_episodes config)])
        (adapter, agent, Fl 0, 0) ms (A, g, reward, n)
    \<and> (\<forall>ms' w. run_play S (unat (kc_max_steps_per_episode config)) (map of_nat [0..<unat (kc_episodes config)])
        (adapter, agent, Fl 0, 0) ms' w \<longrightarrow> ms' = ms \<and> w = (A, g, reward, n))
    \<and> length ds = length ms \<and> (\<forall>i < length ms. move_decision S (of_nat i) (ms ! i) (ds ! i))
    \<and> length ms \<le> unat (kc_episodes config) * unat (kc_max_steps_per_episode config)
    \<and> eb_metrics (ro_evidence r) ''total_reward'' = Some reward"
proof -
  let ?start = "start_state S adapter agent (''run-'' @ sm_show_u64 S seed)" and ?m = "unat (kc_max_steps_per_episode config)"
  let ?es = "map of_nat [0..<unat (kc_episodes config)] :: u64 list"
  obtain k where k: "kernel_episodes S config ?es ?start = Inr k"
    and ds: "try_map (decision_of S) (rt_steps (ks_trace k)) = Inr ds"
    and reward: "eb_metrics (ro_evidence r) ''total_reward'' = Some (ks_total_reward k)"
    using assms(1) unfolding kernel_run_def Let_def ds_def by (auto simp: into_evidence_def elim!: try_okE)
  have start: "world_of ?start = (adapter, agent, Fl 0, 0)" "rt_steps (ks_trace ?start) = []" "ks_global_step ?start = 0"
    by (simp_all add: world_of_def start_state_def new_run_trace_def)
  from kernel_episodes_play [OF k] obtain ms where play: "run_play S ?m ?es (adapter, agent, Fl 0, 0) ms (world_of k)"
    and trace: "transcript S 0 ms (rt_steps (ks_trace k))" unfolding start by auto
  have "length ds = length ms \<and> (\<forall>i < length ms. move_decision S (of_nat i) (ms ! i) (ds ! i))"
    using transcript_nth [OF trace] try_map_nth [OF ds] by (auto intro: move_decision_of)
  moreover have "length ms \<le> unat (kc_episodes config) * ?m" using run_play_bound [OF play] by simp
  ultimately show ?thesis
    using play run_play_unique [OF play] reward unfolding world_of_def
    by (intro exI [of _ ms] exI [of _ "ks_adapter k"] exI [of _ "ks_agent k"] exI [of _ "ks_total_reward k"]
        exI [of _ "ks_global_step k"]) (intro conjI; blast)
qed

section \<open>A sample\<close>

text \<open>An adapter that rejects the first action of a run and ends the episode at the next.\<close>

definition sample_simulation :: "(unit, unit, unit, unit, unit, unit, string, int, unit) simulation" where
  "sample_simulation =
     \<lparr>sm_adapter_id = (\<lambda>_. (''adapter'', ''1'')), sm_reset = (\<lambda>A. (A, Inr ())),
      sm_validate_action = (\<lambda>_ _ st. Inr (if rs_step st = 0 then Rejected ''flat'' else Approved)),
      sm_step = (\<lambda>A _. (A, Inr ((), (), True))), sm_score = (\<lambda>_ _. Inr \<lparr>ms_primary_metric = Fl 0, ms_metrics = Map.empty\<rparr>),
      sm_agent_id = (\<lambda>_. ''agent''), sm_manifest = (\<lambda>_. None), sm_act = (\<lambda>g _. (g, Inr ())), sm_primary_score = (\<lambda>_. Fl 0),
      sm_obs_json = (\<lambda>_. Inr ''obs''), sm_act_json = (\<lambda>_. Inr ''act''), sm_out_json = (\<lambda>_. Inr ''done''),
      sm_rejected_json = (\<lambda>r. ''rejected: '' @ r), sm_final_json = (\<lambda>_ _. ''final''), sm_hash_json = (\<lambda>_. Inr 0),
      sm_hash_evidence = (\<lambda>_. Inr 0), sm_from_timestamp = Some, sm_epoch = 0, sm_show_u64 = (\<lambda>_. ''0'')\<rparr>"

lemma sample_fields:
  "sm_reset sample_simulation A = (A, Inr ())"
  "sm_validate_action sample_simulation A act st = Inr (if rs_step st = 0 then Rejected ''flat'' else Approved)"
  "sm_step sample_simulation A act = (A, Inr ((), (), True))"
  "sm_score sample_simulation A t = Inr \<lparr>ms_primary_metric = Fl 0, ms_metrics = Map.empty\<rparr>"
  "sm_act sample_simulation g obs = (g, Inr ())" "sm_obs_json sample_simulation obs = Inr ''obs''" "sm_act_json sample_simulation act = Inr ''act''"
  "sm_out_json sample_simulation out = Inr ''done''" "sm_rejected_json sample_simulation r = ''rejected: '' @ r"
  "sm_hash_json sample_simulation j = Inr 0" "sm_hash_evidence sample_simulation b = Inr 0"
  by (simp_all add: sample_simulation_def)

lemma sample_kernel_run:
  "\<exists>r. kernel_run sample_simulation () () 0 \<lparr>kc_episodes = 1, kc_max_steps_per_episode = 2\<rparr> = Inr r
    \<and> map dt_outcome (eb_decision_traces (ro_evidence r)) = [''rejected: flat'', ''done'']"
proof -
  let ?c = "\<lparr>kc_episodes = 1, kc_max_steps_per_episode = 2\<rparr>" and ?run = "''run-'' @ sm_show_u64 sample_simulation 0"
  let ?k = "start_state sample_simulation () () ?run"
  have two: "unat (2 :: u64) = Suc (Suc 0)" by simp
  have "\<exists>k1. kernel_turn sample_simulation 0 () ?k = Inr (k1, Some ()) \<and> ks_global_step k1 = 1
      \<and> map es_outcome (rt_steps (ks_trace k1)) = [''rejected: flat'']"
    by (simp add: kernel_turn_def sample_fields start_state_def new_run_trace_def Let_def)
  then obtain k1 where "kernel_turn sample_simulation 0 () ?k = Inr (k1, Some ()) \<and> ks_global_step k1 = 1
    \<and> map es_outcome (rt_steps (ks_trace k1)) = [''rejected: flat'']" ..
  note k1 = this [THEN conjunct1] this [THEN conjunct2, THEN conjunct1] this [THEN conjunct2, THEN conjunct2]
  have "\<exists>k2. kernel_turn sample_simulation 0 () k1 = Inr (k2, None) \<and> map es_outcome (rt_steps (ks_trace k2)) = [''rejected: flat'', ''done'']"
    using k1(2,3) by (simp add: kernel_turn_def sample_fields Let_def)
  then obtain k2 where "kernel_turn sample_simulation 0 () k1 = Inr (k2, None)
    \<and> map es_outcome (rt_steps (ks_trace k2)) = [''rejected: flat'', ''done'']" ..
  note k2 = this [THEN conjunct1] this [THEN conjunct2]
  have run: "kernel_episodes sample_simulation ?c (map of_nat [0..<unat (kc_episodes ?c)]) ?k = Inr k2"
  proof -
    have "?k\<lparr>ks_adapter := ()\<rparr> = ?k" by (simp add: start_state_def)
    then have "kernel_turns sample_simulation 0 (unat (2 :: u64)) () (?k\<lparr>ks_adapter := ()\<rparr>) = Inr k2"
      unfolding two by (simp only: kernel_turns.simps k1(1) k2(1) sum.case prod.case option.case)
    then have "kernel_episode sample_simulation ?c 0 ?k = Inr k2"
      unfolding kernel_episode_def sample_fields prod.case sum.case kernel_config.simps by simp
    then show ?thesis by simp
  qed
  have "\<exists>ds. try_map (decision_of sample_simulation) ss = Inr ds \<and> map dt_outcome ds = map es_outcome ss" for ss
    by (induction ss) (auto simp: decision_of_def sample_fields)
  then obtain ds where ds: "try_map (decision_of sample_simulation) (rt_steps (ks_trace k2)) = Inr ds"
    "map dt_outcome ds = [''rejected: flat'', ''done'']" using k2(2) by metis
  show ?thesis unfolding kernel_run_def Let_def run by (simp add: sample_fields into_evidence_def ds)
qed

text \<open>The play of that run: a refused move and the last move.\<close>

lemma sample_play:
  "\<exists>w. run_play sample_simulation (Suc (Suc 0)) [0] ((), (), Fl 0, 0) [Refused () () ''flat'', Taken () () ()] w"
proof -
  note fields = sample_fields(1) [of "()"] sample_fields(5) [of "()" "()"] sample_fields(3) [of "()" "()"]
  have "sm_validate_action sample_simulation () () \<lparr>rs_episode = 0, rs_step = 0 + 1, rs_reward = Fl 0\<rparr> = Inr Approved"
    "sm_validate_action sample_simulation () () \<lparr>rs_episode = 0, rs_step = 0, rs_reward = Fl 0\<rparr> = Inr (Rejected ''flat'')"
    by (simp_all add: sample_fields)
  then have "\<exists>w. episode_play sample_simulation 0 (Suc (Suc 0)) () ((), (), Fl 0, 0) [Refused () () ''flat'', Taken () () ()] w"
    using episode_play.refused [OF fields(2) _ episode_play.last [OF fields(2) _ _ fields(3)]] by fastforce
  then obtain w where "episode_play sample_simulation 0 (Suc (Suc 0)) () ((), (), Fl 0, 0) [Refused () () ''flat'', Taken () () ()] w" ..
  from run_play.episode [OF fields(1) this run_play.no_episodes] show ?thesis by (intro exI) simp
qed

theorem evidence_lists_every_turn_witness:
  "\<exists>r. kernel_run sample_simulation () () 0 \<lparr>kc_episodes = 1, kc_max_steps_per_episode = 2\<rparr> = Inr r
    \<and> length (eb_decision_traces (ro_evidence r)) = 2
    \<and> move_decision sample_simulation 0 (Refused () () ''flat'') (eb_decision_traces (ro_evidence r) ! 0)"
proof -
  let ?c = "\<lparr>kc_episodes = 1, kc_max_steps_per_episode = 2\<rparr>"
  from sample_kernel_run obtain r where r: "kernel_run sample_simulation () () 0 ?c = Inr r" by blast
  have two: "unat (kc_max_steps_per_episode ?c) = Suc (Suc 0)" "map of_nat [0..<unat (kc_episodes ?c)] = [0 :: u64]" by simp_all
  obtain w where play: "run_play sample_simulation (Suc (Suc 0)) [0] ((), (), Fl 0, 0) [Refused () () ''flat'', Taken () () ()] w"
    using sample_play by blast
  from evidence_lists_every_turn [OF r, unfolded two] obtain ms
    where "\<forall>ms' w. run_play sample_simulation (Suc (Suc 0)) [0] ((), (), Fl 0, 0) ms' w \<longrightarrow> ms' = ms"
      and len: "length (eb_decision_traces (ro_evidence r)) = length ms"
      and entries: "\<forall>i < length ms. move_decision sample_simulation (of_nat i) (ms ! i) (eb_decision_traces (ro_evidence r) ! i)"
    by blast
  then have ms: "ms = [Refused () () ''flat'', Taken () () ()]" using play by blast
  have "move_decision sample_simulation 0 (Refused () () ''flat'') (eb_decision_traces (ro_evidence r) ! 0)"
    using entries [rule_format, of 0] ms by simp
  then show ?thesis using r len ms by (intro exI [of _ r]) simp
qed

end
