(* ===== verification/Trading_Adapter.thy ===== *)
theory Trading_Adapter
  imports Trading_Sim Sim_Kernel
begin

text \<open>
  The fill model (\<open>fill_model.rs\<close>) and the adapter (\<open>adapter.rs\<close>) of the trading simulator: resting
  orders and their fills, the validation of an action against the portfolio, and one step of an
  episode, from the orders that fill to funding, liquidation and the outcome.
\<close>

section \<open>The fill model\<close>

record resting_order =
  rq_id :: order_id
  rq_asset :: asset
  rq_side :: side
  rq_qty :: f64
  rq_limit_price :: f64
  rq_reduce_only :: bool

record fill_intent =
  fi_order_id :: "order_id option"
  fi_asset :: asset
  fi_side :: side
  fi_qty :: f64
  fi_price :: f64
  fi_reduce_only :: bool

definition crosses_limit :: "market_bar \<Rightarrow> side \<Rightarrow> f64 \<Rightarrow> society_error + bool" where
  "crosses_limit bar side limit_price =
     try_ok (price_to_micro limit_price) (\<lambda>limit.
       try_ok (high_micro bar) (\<lambda>high.
         try_ok (low_micro bar) (\<lambda>low. Inr (low \<le> limit \<and> limit \<le> high))))"

definition place_order ::
    "order_id \<Rightarrow> trading_action \<Rightarrow> market_bar \<Rightarrow> society_error + fill_intent option \<times> resting_order option" where
  "place_order ident action bar =
     (case action of
        PlaceOrder asset side order_type qty limit_price reduce_only \<Rightarrow>
          (case order_type of
             MarketableIoc \<Rightarrow>
               Inr (Some \<lparr>fi_order_id = Some ident, fi_asset = asset, fi_side = side, fi_qty = qty, fi_price = mb_close bar,
                          fi_reduce_only = reduce_only\<rparr>, None)
           | LimitGtc \<Rightarrow>
               (let price = unwrap_or limit_price (mb_close bar)
                in try_ok (crosses_limit bar side price) (\<lambda>crossed.
                  if crossed
                  then Inr (Some \<lparr>fi_order_id = Some ident, fi_asset = asset, fi_side = side, fi_qty = qty, fi_price = price,
                                  fi_reduce_only = reduce_only\<rparr>, None)
                  else Inr (None, Some \<lparr>rq_id = ident, rq_asset = asset, rq_side = side, rq_qty = qty, rq_limit_price = price,
                                        rq_reduce_only = reduce_only\<rparr>))))
      | _ \<Rightarrow> Inr (None, None))"

fun fill_loop :: "market_bar \<Rightarrow> resting_order list \<Rightarrow> society_error + fill_intent list \<times> resting_order list" where
  "fill_loop bar [] = Inr ([], [])"
| "fill_loop bar (order # orders) =
     try_ok (if rq_asset order = mb_asset bar then crosses_limit bar (rq_side order) (rq_limit_price order) else Inr False) (\<lambda>crossed.
       try_ok (fill_loop bar orders) (\<lambda>(fills, kept).
         if crossed
         then let fill_qty = f_div (rq_qty order) (Fl 2); remaining = f_sub (rq_qty order) fill_qty
              in Inr (\<lparr>fi_order_id = Some (rq_id order), fi_asset = rq_asset order, fi_side = rq_side order, fi_qty = fill_qty,
                       fi_price = rq_limit_price order, fi_reduce_only = rq_reduce_only order\<rparr> # fills,
                      if f_less (fl (1/1000000)) remaining then order\<lparr>rq_qty := remaining\<rparr> # kept else kept)
         else Inr (fills, order # kept)))"

text \<open>The orders are drained before the loop: an error inside it drops all of them.\<close>

definition fill_resting_orders :: "resting_order list \<Rightarrow> market_bar \<Rightarrow> (resting_order list, society_error, fill_intent list) exec" where
  "fill_resting_orders orders bar =
     (case fill_loop bar orders of Inl e \<Rightarrow> ([], Inl e) | Inr (fills, kept) \<Rightarrow> (kept, Inr fills))"

definition reduces :: "int \<Rightarrow> side \<Rightarrow> bool" where
  "reduces q side \<longleftrightarrow> (0 < q \<and> side = Sell) \<or> (q < 0 \<and> side = Buy)"

definition reduce_only_qty :: "f64 \<Rightarrow> side \<Rightarrow> int \<Rightarrow> society_error + f64" where
  "reduce_only_qty requested_qty side existing =
     try_ok (qty_to_micro requested_qty) (\<lambda>requested.
       if \<not> reduces existing side then Inr f_zero
       else Inr (micro_to_f64 (min requested (abs_i64 existing))))"

section \<open>The adapter\<close>

record bar_set =
  bs_step :: u64
  bs_btc :: market_bar
  bs_eth :: market_bar

fun bar_of :: "bar_set \<Rightarrow> asset \<Rightarrow> market_bar" where
  "bar_of bars Btc = bs_btc bars"
| "bar_of bars Eth = bs_eth bars"

definition marks_for :: "bar_set \<Rightarrow> society_error + (asset \<rightharpoonup> int)" where
  "marks_for bars =
     try_ok (close_micro (bs_btc bars)) (\<lambda>btc. try_ok (close_micro (bs_eth bars)) (\<lambda>eth. Inr [Btc \<mapsto> btc, Eth \<mapsto> eth]))"

definition funding_rates_for :: "bar_set \<Rightarrow> asset \<rightharpoonup> f64" where
  "funding_rates_for bars = [Btc \<mapsto> mb_funding_rate (bs_btc bars), Eth \<mapsto> mb_funding_rate (bs_eth bars)]"

record trading_adapter =
  ta_config :: trading_config
  ta_bars :: "bar_set list"
  ta_ledger :: trading_ledger
  ta_open_orders :: "resting_order list"
  ta_next_order_id :: u64
  ta_step :: u64
  ta_previous_equity_micro :: int
  ta_liquidated :: bool

definition with_bars :: "trading_config \<Rightarrow> bar_set list \<Rightarrow> society_error + trading_adapter" where
  "with_bars config bars =
     (case bars of
        [] \<Rightarrow> Inl (InvalidArtifact ''trading bars cannot be empty'')
      | first # _ \<Rightarrow>
          try_ok (new_trading_ledger config) (\<lambda>L.
            try_ok (marks_for first) (\<lambda>marks.
              Inr \<lparr>ta_config = config, ta_bars = bars, ta_ledger = L, ta_open_orders = [], ta_next_order_id = 1, ta_step = 0,
                   ta_previous_equity_micro = equity_micro L marks, ta_liquidated = False\<rparr>)))"

definition current_bars :: "trading_adapter \<Rightarrow> bar_set" where
  "current_bars A = ta_bars A ! min (unat (ta_step A)) (length (ta_bars A) - 1)"

definition current_marks :: "trading_adapter \<Rightarrow> society_error + (asset \<rightharpoonup> int)" where
  "current_marks A = marks_for (current_bars A)"

record trading_observation =
  to_step :: u64
  to_btc :: market_bar
  to_eth :: market_bar
  to_equity :: f64
  to_cash :: f64
  to_positions :: "position_view list"
  to_open_order_count :: u64

definition observation :: "trading_adapter \<Rightarrow> society_error + trading_observation" where
  "observation A =
     try_ok (current_marks A) (\<lambda>marks.
       Inr \<lparr>to_step = ta_step A, to_btc = bs_btc (current_bars A), to_eth = bs_eth (current_bars A),
            to_equity = micro_to_f64 (equity_micro (ta_ledger A) marks), to_cash = micro_to_f64 (tl_cash_micro (ta_ledger A)),
            to_positions = position_views (ta_ledger A) marks, to_open_order_count = of_nat (length (ta_open_orders A))\<rparr>)"

text \<open>A fraction of the initial equity, rounded to a micro amount.\<close>

definition equity_share :: "trading_adapter \<Rightarrow> f64 \<Rightarrow> int" where
  "equity_share A fraction = f_as_i64 (f_round (f_mul (f_of_i64 (tl_initial_equity_micro (ta_ledger A))) fraction))"

definition validate_order ::
    "trading_adapter \<Rightarrow> asset \<Rightarrow> side \<Rightarrow> f64 \<Rightarrow> f64 option \<Rightarrow> bool \<Rightarrow> society_error + 'j policy_decision" where
  "validate_order A asset side qty limit_price reduce_only =
     try_ok (finite_positive qty ''qty'') (\<lambda>_.
       try_ok (current_marks A) (\<lambda>marks.
         case marks asset of
           None \<Rightarrow> Inl (InvalidAction (''missing mark for '' @ symbol asset))
         | Some mark \<Rightarrow>
             try_ok (case limit_price of Some v \<Rightarrow> price_to_micro v | None \<Rightarrow> Inr mark) (\<lambda>price.
               try_ok (qty_to_micro qty) (\<lambda>qty_micro.
                 try_ok (price_to_micro (tc_min_notional (ta_config A))) (\<lambda>min_notional.
                   let L = ta_ledger A; pos = position_of L asset; q = ps_qty_micro pos;
                       loss_stop = wrap_i64 (tl_initial_equity_micro L - equity_share A (tc_daily_loss_stop_fraction (ta_config A)));
                       delta = wrap_i64 (qty_micro * side_sign side);
                       projected_gross = wrap_i64 (wrap_i64 (gross_exposure_micro L marks - mul_micro (abs_i64 q) mark)
                                                   + mul_micro (abs_i64 (wrap_i64 (q + delta))) mark)
                   in if mul_micro qty_micro price < min_notional then Inr (Rejected ''notional below minimum'')
                      else if equity_micro L marks \<le> loss_stop then Inr (Rejected ''daily loss stop active'')
                      else if reduce_only
                      then (if \<not> reduces q side then Inr (Rejected ''reduce-only order cannot open exposure'') else Inr Approved)
                      else if mb_stale (bar_of (current_bars A) asset) then Inr (Rejected ''data outage: market data is stale'')
                      else if q \<noteq> 0 \<and> sgn q \<noteq> sgn delta \<and> abs_i64 q < abs_i64 delta
                      then Inr (Rejected ''non-reduce-only order would flip position sign'')
                      else if equity_share A (tc_max_initial_leverage (ta_config A)) < projected_gross
                      then Inr (Rejected ''max initial leverage exceeded'')
                      else Inr Approved)))))"

definition validate_trading_action :: "trading_adapter \<Rightarrow> trading_action \<Rightarrow> society_error + 'j policy_decision" where
  "validate_trading_action A action =
     try_ok (action_validate action) (\<lambda>_.
       case action of
         ReducePosition asset qty \<Rightarrow>
           (let q = ps_qty_micro (position_of (ta_ledger A) asset)
            in if q = 0 then Inr (Rejected ''cannot reduce a flat position'')
               else try_ok (qty_to_micro qty) (\<lambda>requested.
                 if abs_i64 q < requested then Inr (Rejected ''reduce quantity exceeds current exposure'') else Inr Approved))
       | PlaceOrder asset side order_type qty limit_price reduce_only \<Rightarrow> validate_order A asset side qty limit_price reduce_only
       | _ \<Rightarrow> Inr Approved)"

fun execute_fill_intents :: "trading_adapter \<Rightarrow> fill_intent list \<Rightarrow> (trading_adapter, society_error, fill_record list) exec" where
  "execute_fill_intents A [] = (A, Inr [])"
| "execute_fill_intents A (intent # intents) =
     (case (if fi_reduce_only intent
            then reduce_only_qty (fi_qty intent) (fi_side intent) (ps_qty_micro (position_of (ta_ledger A) (fi_asset intent)))
            else Inr (fi_qty intent)) of
        Inl e \<Rightarrow> (A, Inl e)
      | Inr qty \<Rightarrow>
          if f_le qty f_zero then execute_fill_intents A intents
          else (case apply_fill (ta_ledger A)
                  \<lparr>fq_asset = fi_asset intent, fq_side = fi_side intent, fq_qty = qty, fq_price = fi_price intent,
                   fq_fee_bps = tc_fee_bps (ta_config A), fq_order_id = fi_order_id intent, fq_liquidation = False\<rparr> of
                  (L, Inl e) \<Rightarrow> (A\<lparr>ta_ledger := L\<rparr>, Inl e)
                | (L, Inr fill) \<Rightarrow>
                    and_then (execute_fill_intents (A\<lparr>ta_ledger := L\<rparr>) intents) (\<lambda>A' fills. (A', Inr (fill # fills)))))"

record trading_outcome =
  tt_reward :: f64
  tt_equity :: f64
  tt_cash :: f64
  tt_position_notional :: f64
  tt_total_pnl :: f64
  tt_realized_pnl :: f64
  tt_unrealized_pnl :: f64
  tt_fees :: f64
  tt_step :: u64
  tt_fills :: "fill_record list"
  tt_liquidated :: bool
  tt_terminal :: bool

definition outcome_from_marks :: "trading_adapter \<Rightarrow> (asset \<rightharpoonup> int) \<Rightarrow> f64 \<Rightarrow> fill_record list \<Rightarrow> bool \<Rightarrow> trading_outcome" where
  "outcome_from_marks A marks reward fills terminal =
     (let L = ta_ledger A
      in \<lparr>tt_reward = reward, tt_equity = micro_to_f64 (equity_micro L marks), tt_cash = micro_to_f64 (tl_cash_micro L),
          tt_position_notional = micro_to_f64 (notional_micro L marks), tt_total_pnl = micro_to_f64 (total_pnl_micro L marks),
          tt_realized_pnl = micro_to_f64 (tl_realized_pnl_micro L), tt_unrealized_pnl = micro_to_f64 (unrealized_pnl_micro L marks),
          tt_fees = micro_to_f64 (tl_fees_micro L), tt_step = ta_step A, tt_fills = fills, tt_liquidated = ta_liquidated A,
          tt_terminal = terminal\<rparr>)"

text \<open>The resting orders one bar fills.\<close>

definition settle_resting :: "trading_adapter \<Rightarrow> market_bar \<Rightarrow> (trading_adapter, society_error, fill_record list) exec" where
  "settle_resting A bar =
     (case fill_resting_orders (ta_open_orders A) bar of
        (orders, Inl e) \<Rightarrow> (A\<lparr>ta_open_orders := orders\<rparr>, Inl e)
      | (orders, Inr intents) \<Rightarrow> execute_fill_intents (A\<lparr>ta_open_orders := orders\<rparr>) intents)"

text \<open>The action itself.\<close>

definition act_on :: "trading_adapter \<Rightarrow> bar_set \<Rightarrow> trading_action \<Rightarrow> (trading_adapter, society_error, fill_record list) exec" where
  "act_on A bars action =
     (case action of
        Hold \<Rightarrow> (A, Inr [])
      | CancelOrder ident \<Rightarrow> (A\<lparr>ta_open_orders := filter (\<lambda>order. rq_id order \<noteq> ident) (ta_open_orders A)\<rparr>, Inr [])
      | ReducePosition asset qty \<Rightarrow>
          execute_fill_intents A [\<lparr>fi_order_id = None, fi_asset = asset,
            fi_side = (if 0 < ps_qty_micro (position_of (ta_ledger A) asset) then Sell else Buy), fi_qty = qty,
            fi_price = mb_close (bar_of bars asset), fi_reduce_only = True\<rparr>]
      | PlaceOrder asset side order_type qty limit_price reduce_only \<Rightarrow>
          (let A' = A\<lparr>ta_next_order_id := ta_next_order_id A + 1\<rparr>
           in case place_order (ta_next_order_id A) action (bar_of bars asset) of
                Inl e \<Rightarrow> (A', Inl e)
              | Inr (intent, resting) \<Rightarrow>
                  and_then (case intent of Some i \<Rightarrow> execute_fill_intents A' [i] | None \<Rightarrow> (A', Inr [])) (\<lambda>A'' fills.
                    (case resting of Some order \<Rightarrow> A''\<lparr>ta_open_orders := ta_open_orders A'' @ [order]\<rparr> | None \<Rightarrow> A'', Inr fills))))"

text \<open>Liquidation when the equity is at or below its threshold while positions are open.\<close>

definition check_liquidation :: "trading_adapter \<Rightarrow> (asset \<rightharpoonup> int) \<Rightarrow> (trading_adapter, society_error, fill_record list) exec" where
  "check_liquidation A marks =
     (if equity_micro (ta_ledger A) marks \<le> equity_share A (tc_liquidation_equity_fraction (ta_config A))
         \<and> 0 < gross_exposure_micro (ta_ledger A) marks
      then (case liquidate_all (ta_ledger A) marks (tc_fee_bps (ta_config A)) of
              (L, Inl e) \<Rightarrow> (A\<lparr>ta_ledger := L\<rparr>, Inl e)
            | (L, Inr fills) \<Rightarrow> (A\<lparr>ta_ledger := L, ta_open_orders := [], ta_liquidated := True\<rparr>, Inr fills))
      else (A, Inr []))"

text \<open>The reward, the next step and the outcome.\<close>

definition advance_step :: "trading_adapter \<Rightarrow> (asset \<rightharpoonup> int) \<Rightarrow> fill_record list \<Rightarrow> trading_adapter \<times> trading_outcome" where
  "advance_step A marks fills =
     (let equity = equity_micro (ta_ledger A) marks;
          reward = f_div (f_of_i64 (wrap_i64 (equity - ta_previous_equity_micro A))) (f_of_i64 (tl_initial_equity_micro (ta_ledger A)));
          A' = A\<lparr>ta_previous_equity_micro := equity, ta_step := ta_step A + 1\<rparr>;
          over = (ta_liquidated A' \<or> tc_max_steps (ta_config A') \<le> ta_step A' \<or> length (ta_bars A') \<le> unat (ta_step A'))
      in (A', outcome_from_marks A' marks reward fills over))"

definition finish_step :: "trading_adapter \<Rightarrow> bar_set \<Rightarrow> fill_record list \<Rightarrow> (trading_adapter, society_error, trading_outcome) exec" where
  "finish_step A bars fills =
     (case marks_for bars of
        Inl e \<Rightarrow> (A, Inl e)
      | Inr marks \<Rightarrow>
          and_then (check_liquidation (A\<lparr>ta_ledger := apply_funding (ta_ledger A) marks (funding_rates_for bars)\<rparr>) marks) (\<lambda>A' closing.
            map_prod id Inr (advance_step A' marks (fills @ closing))))"

definition step_once :: "trading_adapter \<Rightarrow> trading_action \<Rightarrow> (trading_adapter, society_error, trading_outcome) exec" where
  "step_once A action =
     (let bars = current_bars A
      in and_then (settle_resting A (bs_btc bars)) (\<lambda>A btc_fills.
        and_then (settle_resting A (bs_eth bars)) (\<lambda>A eth_fills.
          and_then (act_on A bars action) (\<lambda>A fills. finish_step A bars (btc_fills @ eth_fills @ fills)))))"

text \<open>The methods of the domain adapter.\<close>

definition adapter_reset :: "trading_adapter \<Rightarrow> (trading_adapter, society_error, trading_observation) exec" where
  "adapter_reset A = (case with_bars (ta_config A) (ta_bars A) of Inl e \<Rightarrow> (A, Inl e) | Inr A' \<Rightarrow> (A', observation A'))"

definition adapter_step ::
    "trading_adapter \<Rightarrow> trading_action \<Rightarrow> (trading_adapter, society_error, trading_observation \<times> trading_outcome \<times> bool) exec" where
  "adapter_step A action =
     and_then (step_once A action) (\<lambda>A' outcome. (A', try_ok (observation A') (\<lambda>obs. Inr (obs, outcome, tt_terminal outcome))))"

end
