(* ===== verification/Trading_Safety.thy ===== *)
theory Trading_Safety
  imports Trading_Adapter
begin

text \<open>
  What the trading simulator guarantees: micro amounts survive their conversion, liquidation closes
  every position, and an approved market order keeps the exposure within the leverage limit.
\<close>

section \<open>Micro amounts as floats\<close>

lemma nearest_normal:
  assumes "1/1000000 \<le> \<bar>x\<bar>"
  shows "\<bar>nearest x - x\<bar> \<le> \<bar>x\<bar> / 2 ^ 53"
proof (rule nearest_error)
  have "(2::rat) powi (- 1022) \<le> 2 powi (- 20)" by (rule power_int_increasing) simp_all
  also have "\<dots> \<le> 1/1000000" by (simp add: power_int_minus)
  finally show "2 powi (- 1022) \<le> \<bar>x\<bar>" using assms by (rule order_trans)
qed

lemma fl_normal:
  assumes "1/1000000 \<le> \<bar>x\<bar>" and "\<bar>x\<bar> \<le> 2 ^ 60"
  shows "fl x = Fl (nearest x)"
proof (rule fl_small)
  have "\<bar>nearest x\<bar> \<le> \<bar>x\<bar> + \<bar>x\<bar> / 2 ^ 53" using nearest_normal [OF assms(1)] by linarith
  also have "\<dots> < 2 ^ 61" using assms(2) by simp
  also have "(2::rat) ^ 61 \<le> 2 ^ 1023" by (rule power_increasing) simp_all
  finally show "\<bar>nearest x\<bar> < 2 ^ 1023" .
qed

lemma micro_float: "f_of_i64 MICRO = Fl 1000000"
  using f_of_i64_exact [of MICRO] by (simp add: MICRO_def)

lemma micro_conversion:
  assumes "0 < n" and "n \<le> 2 ^ 50"
  shows "\<exists>y > 0. micro_to_f64 n = Fl y \<and> f_as_i64 (f_round (f_mul (normalize_zero (Fl y)) (f_of_i64 MICRO))) = n"
proof -
  define x :: rat where "x = of_int n"
  define y where "y = nearest (x / 1000000)"
  have x: "1 \<le> x" "x \<le> 2 ^ 50"
    using assms unfolding x_def by (simp, metis of_int_le_iff of_int_numeral of_int_power)
  have y: "\<bar>y - x / 1000000\<bar> \<le> x / 1000000 / 2 ^ 53"
    unfolding y_def using nearest_normal [of "x / 1000000"] x by simp
  have low: "x / 1000000 / 2 \<le> y" using y x(1) unfolding abs_le_iff by simp
  have high: "y \<le> x / 1000000 * 2" using y x(1) unfolding abs_le_iff by simp
  have pos: "0 < y" using x low by simp
  have "1/1000000 \<le> \<bar>y * 1000000\<bar>" "\<bar>y * 1000000\<bar> \<le> 2 ^ 60" using low high x pos by simp_all
  note fl_y = fl_normal [OF this] and near = nearest_normal [OF this(1)]
  have "micro_to_f64 n = normalize_zero (fl (x / 1000000))"
    using assms f_of_i64_exact [of n] by (simp add: micro_to_f64_def micro_float x_def)
  also have "fl (x / 1000000) = Fl y" unfolding y_def using x by (intro fl_normal) simp_all
  finally have mf: "micro_to_f64 n = Fl y" using pos by (simp add: normalize_zero_def f_eq_def f_zero_def)
  have "\<bar>nearest (y * 1000000) - x\<bar> < 1/2"
    using y near x pos unfolding abs_le_iff abs_less_iff abs_of_pos [OF mult_pos_pos [OF pos, of 1000000, simplified]] by simp
  then have "round_away (nearest (y * 1000000)) = n" unfolding x_def by (rule round_away_near)
  then have "f_as_i64 (f_round (f_mul (normalize_zero (Fl y)) (f_of_i64 MICRO))) = n"
    using fl_y pos assms by (simp add: micro_float normalize_zero_def f_eq_def f_zero_def I64_MAX_def I64_MIN_def)
  with mf pos show ?thesis by blast
qed

lemma qty_round_trip: "0 < n \<Longrightarrow> n \<le> 2 ^ 50 \<Longrightarrow> qty_to_micro (micro_to_f64 n) = Inr n"
  using micro_conversion [of n]
  by (auto simp: qty_to_micro_def finite_positive_def f_is_finite_def f_le_def f_eq_def f_zero_def)

lemma price_round_trip:
  assumes "0 \<le> n" and "n \<le> 2 ^ 50"
  shows "price_to_micro (micro_to_f64 n) = Inr n"
proof (cases "n = 0")
  case True
  have z: "f_of_i64 0 = Fl 0" using f_of_i64_exact [of 0] by simp
  have "micro_to_f64 0 = Fl 0" by (simp add: micro_to_f64_def micro_float z normalize_zero_def f_zero_def f_eq_def fl_def nearest_def)
  moreover have "price_to_micro (Fl 0) = Inr 0"
    by (simp add: price_to_micro_def finite_nonnegative_def f_is_finite_def f_zero_def normalize_zero_def f_eq_def micro_float fl_def
        nearest_def round_away_def floor_eq_iff I64_MAX_def I64_MIN_def)
  ultimately show ?thesis using True by simp
next
  case False
  with micro_conversion [of n] assms show ?thesis
    by (auto simp: price_to_micro_def finite_nonnegative_def f_is_finite_def f_zero_def)
qed

section \<open>Fills and positions\<close>

lemma put_position_qty [simp]:
  "ps_qty_micro (position_of (put_position a pos L) b) = (if b = a then ps_qty_micro pos else ps_qty_micro (position_of L b))"
  by (simp add: put_position_def position_of_def unwrap_or_def flat_position_def)

lemma position_of_frame [simp]:
  "position_of (L\<lparr>tl_cash_micro := c\<rparr>) = position_of L" "position_of (L\<lparr>tl_fees_micro := c\<rparr>) = position_of L"
  "position_of (L\<lparr>tl_realized_pnl_micro := c\<rparr>) = position_of L" "position_of (L\<lparr>tl_funding_paid_micro := c\<rparr>) = position_of L"
  by (simp_all add: position_of_def fun_eq_iff)

lemma update_position_qty [simp]:
  "ps_qty_micro (position_of (update_position a delta price L) b) =
     (if b = a then wrap_i64 (ps_qty_micro (position_of L a) + delta) else ps_qty_micro (position_of L b))"
  by (simp add: update_position_def Let_def)

lemma book_fill_qty [simp]:
  "ps_qty_micro (position_of (book_fill a side qty price bps L) b) =
     (if b = a then wrap_i64 (ps_qty_micro (position_of L a) + wrap_i64 (qty * side_sign side)) else ps_qty_micro (position_of L b))"
  by (simp add: book_fill_def Let_def)

lemma wrap_small: "\<bar>x\<bar> \<le> 2 ^ 62 \<Longrightarrow> wrap_i64 x = x"
  by (rule wrap_i64_id) (auto simp: I64_MIN_def I64_MAX_def)

lemma wrap_wrap_add [simp]: "wrap_i64 (wrap_i64 x + y) = wrap_i64 (x + y)" "wrap_i64 (y + wrap_i64 x) = wrap_i64 (y + x)"
proof -
  have "wrap_i64 (wrap_i64 x + y) = wrap_i64 (x + y)" for x y
  proof -
    have "(wrap_i64 x + y + 2 ^ 63) mod 2 ^ 64 = ((x + 2 ^ 63) mod 2 ^ 64 + y) mod 2 ^ 64" by (simp add: wrap_i64_def)
    also have "\<dots> = (x + y + 2 ^ 63) mod 2 ^ 64" unfolding mod_add_left_eq by (simp add: algebra_simps)
    finally show ?thesis by (simp add: wrap_i64_def)
  qed
  then show "wrap_i64 (wrap_i64 x + y) = wrap_i64 (x + y)" "wrap_i64 (y + wrap_i64 x) = wrap_i64 (y + x)"
    by (simp_all add: add.commute)
qed

lemma wrap_wrap_diff [simp]: "wrap_i64 (wrap_i64 x - y) = wrap_i64 (x - y)"
  using wrap_wrap_add(1) [of x "- y"] by simp

section \<open>Liquidation\<close>

text \<open>The positions and marks for which a float holds every micro amount.\<close>

definition convertible :: "trading_ledger \<Rightarrow> (asset \<rightharpoonup> int) \<Rightarrow> bool" where
  "convertible L marks \<longleftrightarrow>
     (\<forall>a. \<bar>ps_qty_micro (position_of L a)\<bar> \<le> 2 ^ 50 \<and> (\<exists>m. marks a = Some m \<and> 0 \<le> m \<and> m \<le> 2 ^ 50))"

lemma liquidate_one:
  assumes conv: "convertible L marks" and open': "ps_qty_micro (position_of L a) \<noteq> 0" and mark: "marks a = Some m"
  shows "\<exists>L' fill. apply_fill L \<lparr>fq_asset = a, fq_side = (if 0 < ps_qty_micro (position_of L a) then Sell else Buy),
      fq_qty = micro_to_f64 (abs_i64 (ps_qty_micro (position_of L a))), fq_price = micro_to_f64 m, fq_fee_bps = bps,
      fq_order_id = None, fq_liquidation = True\<rparr> = (L', Inr fill)
    \<and> (\<forall>b. ps_qty_micro (position_of L' b) = (if b = a then 0 else ps_qty_micro (position_of L b)))"
proof -
  let ?q = "ps_qty_micro (position_of L a)"
  have q: "\<bar>?q\<bar> \<le> 2 ^ 50" and m: "0 \<le> m" "m \<le> 2 ^ 50" using conv [unfolded convertible_def, rule_format, of a] mark by auto
  have abs: "abs_i64 ?q = \<bar>?q\<bar>" unfolding abs_i64_def using q by (intro wrap_small) simp
  have side: "wrap_i64 (\<bar>?q\<bar> * side_sign (if 0 < ?q then Sell else Buy)) = - ?q"
    using q wrap_small [of "- ?q"] by simp
  have "qty_to_micro (micro_to_f64 \<bar>?q\<bar>) = Inr \<bar>?q\<bar>" "price_to_micro (micro_to_f64 m) = Inr m"
    using open' q m by (auto intro: qty_round_trip price_round_trip)
  then show ?thesis using side by (simp add: apply_fill_def abs wrap_small)
qed

lemma convertible_cong:
  "convertible L marks \<Longrightarrow> (\<And>b. ps_qty_micro (position_of L' b) \<in> {0, ps_qty_micro (position_of L b)}) \<Longrightarrow> convertible L' marks"
  unfolding convertible_def by (metis abs_zero empty_iff insert_iff zero_le_numeral zero_le_power)

lemma liquidate_assets_flat:
  "convertible L marks \<Longrightarrow>
   \<exists>L' fills. liquidate_assets marks bps L as = (L', Inr fills)
     \<and> (\<forall>b. ps_qty_micro (position_of L' b) = (if b \<in> set as then 0 else ps_qty_micro (position_of L b)))"
proof (induction "as" arbitrary: L)
  case (Cons a as')
  show ?case
  proof (cases "ps_qty_micro (position_of L a) = 0")
    case True
    with Cons.IH [OF Cons.prems] show ?thesis by auto
  next
    case False
    obtain m where m: "marks a = Some m" using Cons.prems by (auto simp: convertible_def)
    from liquidate_one [OF Cons.prems False m, of bps] obtain L' fill where L':
      "apply_fill L \<lparr>fq_asset = a, fq_side = (if 0 < ps_qty_micro (position_of L a) then Sell else Buy),
        fq_qty = micro_to_f64 (abs_i64 (ps_qty_micro (position_of L a))), fq_price = micro_to_f64 m, fq_fee_bps = bps,
        fq_order_id = None, fq_liquidation = True\<rparr> = (L', Inr fill)"
      "\<And>b. ps_qty_micro (position_of L' b) = (if b = a then 0 else ps_qty_micro (position_of L b))" by blast
    have "convertible L' marks" using Cons.prems by (rule convertible_cong) (simp add: L'(2))
    from Cons.IH [OF this] show ?thesis using False m L' by (auto simp: Let_def)
  qed
qed simp

lemma flat_exposure:
  assumes "\<And>a. ps_qty_micro (position_of L a) = 0"
  shows "gross_exposure_micro L marks = 0" and "equity_micro L marks = wrap_i64 (tl_cash_micro L)"
proof -
  have "mul_micro 0 m = 0" "abs_i64 0 = 0" "wrap_i64 0 = 0" for m
    by (simp_all add: mul_micro_def abs_i64_def wrap_i64_def)
  then show "gross_exposure_micro L marks = 0" and "equity_micro L marks = wrap_i64 (tl_cash_micro L)"
    by (simp_all add: gross_exposure_micro_def equity_micro_def notional_micro_def sum_assets_def assms)
qed

section \<open>Leverage\<close>

text \<open>An adapter without resting orders: the bars fill nothing.\<close>

lemma settle_nothing: "ta_open_orders A = [] \<Longrightarrow> settle_resting A bar = (A, Inr [])"
  by (cases A) (simp add: settle_resting_def fill_resting_orders_def)

lemma funding_positions [simp]: "position_of (apply_funding L marks rates) = position_of L"
  by (simp add: apply_funding_def fund_asset_def Let_def)

lemma gross_exposure_cong:
  "(\<And>a. ps_qty_micro (position_of L' a) = ps_qty_micro (position_of L a)) \<Longrightarrow> marks Btc \<noteq> None \<Longrightarrow> marks Eth \<noteq> None
   \<Longrightarrow> gross_exposure_micro L' marks = gross_exposure_micro L marks"
  by (auto simp: gross_exposure_micro_def sum_assets_def mark_of_def unwrap_or_def)

lemma marks_forE:
  assumes "marks_for bars = Inr marks"
  obtains btc eth where "marks = [Btc \<mapsto> btc, Eth \<mapsto> eth]"
  using assms by (auto simp: marks_for_def elim!: try_okE)

lemma order_approved:
  assumes "validate_order A a s qty lp False = Inr Approved" and "current_marks A = Inr marks"
  obtains q mark where "qty_to_micro qty = Inr q" "marks a = Some mark"
    "wrap_i64 (wrap_i64 (gross_exposure_micro (ta_ledger A) marks - mul_micro (abs_i64 (ps_qty_micro (position_of (ta_ledger A) a))) mark)
       + mul_micro (abs_i64 (wrap_i64 (ps_qty_micro (position_of (ta_ledger A) a) + wrap_i64 (q * side_sign s)))) mark)
     \<le> equity_share A (tc_max_initial_leverage (ta_config A))"
  using assms unfolding validate_order_def
  by (auto simp: Let_def elim!: try_okE split: option.splits if_splits)

text \<open>The exposure after a fill is the one that validation projects, also when the sums wrap.\<close>

lemma fill_exposure:
  assumes "marks = [Btc \<mapsto> btc, Eth \<mapsto> eth]" and "marks a = Some mark"
  shows "gross_exposure_micro (book_fill a s q price bps L) marks =
    wrap_i64 (wrap_i64 (gross_exposure_micro L marks - mul_micro (abs_i64 (ps_qty_micro (position_of L a))) mark)
       + mul_micro (abs_i64 (wrap_i64 (ps_qty_micro (position_of L a) + wrap_i64 (q * side_sign s)))) mark)"
  using assms by (cases a) (auto simp: gross_exposure_micro_def sum_assets_def mark_of_def unwrap_or_def algebra_simps)

lemma executed_exposure:
  assumes ok: "validate_order A a s qty lp False = Inr Approved" "current_marks A = Inr marks"
    and run: "execute_fill_intents B [\<lparr>fi_order_id = i, fi_asset = a, fi_side = s, fi_qty = qty, fi_price = p, fi_reduce_only = False\<rparr>]
        = (B', Inr fills)"
    and same: "ta_ledger B = ta_ledger A"
  shows "gross_exposure_micro (ta_ledger B') marks \<le> equity_share A (tc_max_initial_leverage (ta_config A))"
proof -
  obtain q mark where q: "qty_to_micro qty = Inr q" "marks a = Some mark"
    "wrap_i64 (wrap_i64 (gross_exposure_micro (ta_ledger A) marks - mul_micro (abs_i64 (ps_qty_micro (position_of (ta_ledger A) a))) mark)
       + mul_micro (abs_i64 (wrap_i64 (ps_qty_micro (position_of (ta_ledger A) a) + wrap_i64 (q * side_sign s)))) mark)
     \<le> equity_share A (tc_max_initial_leverage (ta_config A))"
    using ok by (rule order_approved)
  obtain btc eth where m: "marks = [Btc \<mapsto> btc, Eth \<mapsto> eth]"
    using ok(2) unfolding current_marks_def by (rule marks_forE)
  have "\<not> f_le qty f_zero" using q(1) by (auto simp: qty_to_micro_def finite_positive_def split: if_splits)
  then obtain price where "ta_ledger B' = book_fill a s q price (tc_fee_bps (ta_config B)) (ta_ledger A)"
    using run q(1) by (auto simp: apply_fill_def same and_then_def split: sum.splits)
  then show ?thesis using fill_exposure [OF m q(2)] q(3) by simp
qed

lemma and_then_return: "and_then r (\<lambda>s x. (s, Inr x)) = r"
  by (cases r, cases "snd r") (auto simp: and_then_def)

lemma and_thenE:
  assumes "and_then r f = (s, Inr y)"
  obtains s' x where "r = (s', Inr x)" and "f s' x = (s, Inr y)"
  using assms by (auto simp: and_then_def split: prod.splits sum.splits)

lemma act_exposure:
  assumes ok: "validate_order A a s qty lp False = Inr Approved" "current_marks A = Inr marks"
    and run: "act_on A bars (PlaceOrder a s ot qty lp False) = (B, Inr fills)"
  shows "gross_exposure_micro (ta_ledger B) marks
    \<le> max (equity_share A (tc_max_initial_leverage (ta_config A))) (gross_exposure_micro (ta_ledger A) marks)"
proof -
  let ?A = "A\<lparr>ta_next_order_id := ta_next_order_id A + 1\<rparr>"
  obtain intent resting where place: "place_order (ta_next_order_id A) (PlaceOrder a s ot qty lp False) (bar_of bars a) = Inr (intent, resting)"
    using run by (auto simp: act_on_def Let_def split: sum.splits)
  show ?thesis
  proof (cases intent)
    case None
    then show ?thesis using run place by (auto simp: act_on_def Let_def split: option.splits)
  next
    case (Some i)
    obtain p where i: "i = \<lparr>fi_order_id = Some (ta_next_order_id A), fi_asset = a, fi_side = s, fi_qty = qty, fi_price = p, fi_reduce_only = False\<rparr>"
      and r: "resting = None"
      using place Some by (auto simp: place_order_def Let_def split: order_type.splits if_splits elim!: try_okE)
    have "execute_fill_intents ?A [i] = (B, Inr fills)"
      using run place Some r by (simp add: act_on_def Let_def and_then_return del: execute_fill_intents.simps)
    from executed_exposure [OF ok this [unfolded i]] show ?thesis by simp
  qed
qed

lemma check_quiet:
  assumes check: "check_liquidation A marks = (A', Inr fs)" and quiet: "\<not> ta_liquidated A'"
  shows "A' = A"
proof -
  obtain L r where lq: "liquidate_all (ta_ledger A) marks (tc_fee_bps (ta_config A)) = (L, r)" by force
  show ?thesis
  proof (cases r)
    case (Inl e)
    then show ?thesis using check by (auto simp: check_liquidation_def lq split: if_splits)
  next
    case (Inr fills)
    have "A' = A\<lparr>ta_ledger := L, ta_open_orders := [], ta_liquidated := True\<rparr> \<or> A' = A"
      using check by (auto simp: check_liquidation_def lq Inr split: if_splits)
    then show ?thesis using quiet by auto
  qed
qed

lemma advance_step_frame:
  "ta_ledger (fst (advance_step A marks fills)) = ta_ledger A"
  "tt_liquidated (snd (advance_step A marks fills)) = ta_liquidated A"
  by (simp_all add: advance_step_def outcome_from_marks_def Let_def)

lemma finish_exposure:
  assumes run: "finish_step A bars fills = (B, Inr out)" and quiet: "\<not> tt_liquidated out" and m: "marks_for bars = Inr marks"
  shows "gross_exposure_micro (ta_ledger B) marks = gross_exposure_micro (ta_ledger A) marks"
proof -
  obtain btc eth where e: "marks = [Btc \<mapsto> btc, Eth \<mapsto> eth]" using m by (rule marks_forE)
  let ?F = "A\<lparr>ta_ledger := apply_funding (ta_ledger A) marks (funding_rates_for bars)\<rparr>"
  have "ta_ledger B = ta_ledger ?F"
    using run unfolding finish_step_def m sum.case
  proof (rule and_thenE)
    fix A' closing
    assume check: "check_liquidation ?F marks = (A', Inr closing)"
      and rest: "map_prod id Inr (advance_step A' marks (fills @ closing)) = (B, Inr out :: society_error + trading_outcome)"
    have "advance_step A' marks (fills @ closing) = (B, out)" using rest by (auto simp: map_prod_def split: prod.splits)
    then have B: "ta_ledger B = ta_ledger A'" "\<not> ta_liquidated A'"
      using advance_step_frame [of A' marks "fills @ closing"] quiet by simp_all
    with check_quiet [OF check] show ?thesis by simp
  qed
  then show ?thesis using e by (intro gross_exposure_cong) simp_all
qed

text \<open>Validation looks at the positions only: orders that still rest are not counted.\<close>

lemma current_bars_orders [simp]: "current_bars (A\<lparr>ta_open_orders := orders\<rparr>) = current_bars A"
  by (simp add: current_bars_def)

lemma equity_share_orders [simp]: "equity_share (A\<lparr>ta_open_orders := orders\<rparr>) f = equity_share A f"
  by (simp add: equity_share_def)

lemma adapter_orders:
  "ta_ledger (A\<lparr>ta_open_orders := orders\<rparr>) = ta_ledger A" "ta_config (A\<lparr>ta_open_orders := orders\<rparr>) = ta_config A"
  by simp_all

lemma validate_order_orders: "validate_order (A\<lparr>ta_open_orders := orders\<rparr>) a s qty lp ro = validate_order A a s qty lp ro"
  unfolding validate_order_def current_marks_def adapter_orders current_bars_orders equity_share_orders ..

lemma validation_ignores_resting_orders:
  "validate_trading_action (A\<lparr>ta_open_orders := orders\<rparr>) action = validate_trading_action A action"
  unfolding validate_trading_action_def validate_order_orders adapter_orders ..

section \<open>Properties\<close>

text \<open>
  C38. Liquidation closes everything: when the equity is at or below its threshold and a position is open, the
  liquidation succeeds for positions and marks up to 2 to the 50 micro units; no position, no exposure
  and no resting order is left, and the equity is the cash.
\<close>

theorem liquidation_closes_everything:
  assumes "convertible (ta_ledger A) marks"
    and "equity_micro (ta_ledger A) marks \<le> equity_share A (tc_liquidation_equity_fraction (ta_config A))"
    and "0 < gross_exposure_micro (ta_ledger A) marks"
  shows "\<exists>A' fills. check_liquidation A marks = (A', Inr fills) \<and> ta_liquidated A' \<and> ta_open_orders A' = []
    \<and> (\<forall>a. ps_qty_micro (position_of (ta_ledger A') a) = 0) \<and> gross_exposure_micro (ta_ledger A') marks = 0
    \<and> equity_micro (ta_ledger A') marks = wrap_i64 (tl_cash_micro (ta_ledger A'))"
proof -
  obtain L fills where L: "liquidate_all (ta_ledger A) marks (tc_fee_bps (ta_config A)) = (L, Inr fills)"
    and flat: "\<And>a. ps_qty_micro (position_of L a) = (if a \<in> set [Btc, Eth] then 0 else ps_qty_micro (position_of (ta_ledger A) a))"
    using liquidate_assets_flat [OF assms(1)] unfolding liquidate_all_def by blast
  have flat': "ps_qty_micro (position_of L a) = 0" for a using flat [of a] by (cases a) simp_all
  show ?thesis using assms(2,3) by (simp add: check_liquidation_def L flat' flat_exposure)
qed

text \<open>
  C37. Leverage at the fill: when no order rests, an approved order that is not reduce-only leaves the gross
  exposure within the leverage limit, or where it was.  The exposure of the step is the projected one
  also where the sums of the ledger wrap.
\<close>

theorem approved_order_within_leverage:
  assumes "ta_open_orders A = []"
    and "validate_trading_action A (PlaceOrder a s ot qty lp False) = Inr (Approved :: unit policy_decision)"
    and "current_marks A = Inr marks"
    and "step_once A (PlaceOrder a s ot qty lp False) = (A', Inr out)" and "\<not> tt_liquidated out"
  shows "gross_exposure_micro (ta_ledger A') marks
    \<le> max (equity_share A (tc_max_initial_leverage (ta_config A))) (gross_exposure_micro (ta_ledger A) marks)"
proof -
  have ok: "validate_order A a s qty lp False = Inr (Approved :: unit policy_decision)"
    using assms(2) by (auto simp: validate_trading_action_def elim: try_okE)
  obtain B fills where B: "act_on A (current_bars A) (PlaceOrder a s ot qty lp False) = (B, Inr fills)"
    "finish_step B (current_bars A) ([] @ [] @ fills) = (A', Inr out)"
    using assms(4) unfolding step_once_def Let_def settle_nothing [OF assms(1)] and_then_Inr by (rule and_thenE)
  show ?thesis
    using act_exposure [OF ok assms(3) B(1)] finish_exposure [OF B(2) assms(5)] assms(3)
    by (simp add: current_marks_def)
qed

section \<open>Samples\<close>

lemma fl_numeral: "(numeral k :: int) < 2 ^ 53 \<Longrightarrow> fl (numeral k) = Fl (numeral k)"
  using f_of_i64_exact [of "numeral k"] by (simp add: f_of_i64_def)

lemma round_away_numeral: "round_away (numeral k) = numeral k"
  using round_away_near [of "numeral k" "numeral k"] by simp

lemma f_of_i64_numeral: "(numeral k :: int) < 2 ^ 53 \<Longrightarrow> f_of_i64 (numeral k) = Fl (numeral k)"
  using f_of_i64_exact [of "numeral k"] by simp

lemmas float_eval = price_to_micro_def qty_to_micro_def finite_positive_def finite_nonnegative_def f_is_finite_def f_le_def f_eq_def
  f_zero_def normalize_zero_def micro_float fl_numeral round_away_numeral f_of_i64_numeral I64_MAX_def I64_MIN_def

text \<open>A bar at one price.\<close>

definition flat_bar :: "asset \<Rightarrow> f64 \<Rightarrow> market_bar" where
  "flat_bar a p = \<lparr>mb_ts = 0, mb_asset = a, mb_open = p, mb_high = p, mb_low = p, mb_close = p, mb_volume = Fl 0, mb_stale = False,
     mb_funding_rate = Fl 0\<rparr>"

definition sample_adapter :: "int \<Rightarrow> int \<Rightarrow> trading_adapter" where
  "sample_adapter cash btc =
     \<lparr>ta_config = \<lparr>tc_initial_equity = Fl 100, tc_max_initial_leverage = Fl 2, tc_min_notional = Fl 10, tc_fee_bps = 5,
        tc_daily_loss_stop_fraction = Fl (1/8), tc_liquidation_equity_fraction = Fl (1/2), tc_max_steps = 100\<rparr>,
      ta_bars = [\<lparr>bs_step = 0, bs_btc = flat_bar Btc (Fl 50), bs_eth = flat_bar Eth (Fl 10)\<rparr>],
      ta_ledger = put_position Btc \<lparr>ps_qty_micro = btc, ps_avg_entry_price_micro = 80000000\<rparr>
        \<lparr>tl_initial_equity_micro = 100000000, tl_cash_micro = cash, tl_realized_pnl_micro = 0, tl_fees_micro = 0,
         tl_funding_paid_micro = 0, tl_positions = Map.empty\<rparr>,
      ta_open_orders = [], ta_next_order_id = 1, ta_step = 0, ta_previous_equity_micro = 100000000, ta_liquidated = False\<rparr>"

definition sample_marks :: "asset \<rightharpoonup> int" where
  "sample_marks = [Btc \<mapsto> 50000000, Eth \<mapsto> 10000000]"

lemmas trading_eval = equity_micro_def notional_micro_def gross_exposure_micro_def sum_assets_def mark_of_def position_of_def
  put_position_def flat_position_def unwrap_or_def mul_micro_def trunc_div_def wrap_i64_def abs_i64_def MICRO_def

theorem liquidation_closes_everything_witness:
  "\<exists>A' fills. check_liquidation (sample_adapter (- 60000000) 2000000) sample_marks = (A', Inr fills) \<and> ta_liquidated A' \<and> ta_open_orders A' = []
    \<and> (\<forall>a. ps_qty_micro (position_of (ta_ledger A') a) = 0) \<and> gross_exposure_micro (ta_ledger A') sample_marks = 0
    \<and> equity_micro (ta_ledger A') sample_marks = wrap_i64 (tl_cash_micro (ta_ledger A'))"
proof (rule liquidation_closes_everything)
  let ?A = "sample_adapter (- 60000000) 2000000"
  have "\<bar>ps_qty_micro (position_of (ta_ledger ?A) a)\<bar> \<le> 2 ^ 50 \<and> (\<exists>m. sample_marks a = Some m \<and> 0 \<le> m \<and> m \<le> 2 ^ 50)" for a
    by (cases a) (simp_all add: sample_adapter_def sample_marks_def trading_eval)
  then show "convertible (ta_ledger ?A) sample_marks" by (simp add: convertible_def)
  show "equity_micro (ta_ledger ?A) sample_marks \<le> equity_share ?A (tc_liquidation_equity_fraction (ta_config ?A))"
    by (simp add: sample_adapter_def sample_marks_def trading_eval equity_share_def float_eval)
  show "0 < gross_exposure_micro (ta_ledger ?A) sample_marks"
    by (simp add: sample_adapter_def sample_marks_def trading_eval)
qed

definition sample_order :: trading_action where
  "sample_order = PlaceOrder Btc Buy MarketableIoc (Fl 1) None False"

lemma sample_marks_current: "current_marks (sample_adapter cash btc) = Inr sample_marks"
  by (simp add: current_marks_def current_bars_def sample_adapter_def marks_for_def close_micro_def flat_bar_def sample_marks_def float_eval)

lemma sample_conversions:
  "qty_to_micro (Fl 1) = Inr 1000000" "price_to_micro (Fl 10) = Inr 10000000" "price_to_micro (Fl 50) = Inr 50000000"
  by (simp_all add: float_eval)

lemma sample_flat:
  "ps_qty_micro (position_of (ta_ledger (sample_adapter cash 0)) a) = 0"
  "equity_micro (ta_ledger (sample_adapter cash 0)) sample_marks = wrap_i64 cash"
  "gross_exposure_micro (ta_ledger (sample_adapter cash 0)) sample_marks = 0"
proof -
  show flat: "ps_qty_micro (position_of (ta_ledger (sample_adapter cash 0)) a) = 0" for a
    by (simp add: sample_adapter_def) (simp add: position_of_def unwrap_or_def flat_position_def)
  show "equity_micro (ta_ledger (sample_adapter cash 0)) sample_marks = wrap_i64 cash"
    "gross_exposure_micro (ta_ledger (sample_adapter cash 0)) sample_marks = 0"
    by (simp_all add: flat_exposure flat) (simp add: sample_adapter_def put_position_def)
qed

lemma sample_shares:
  "equity_share (sample_adapter cash btc) (Fl 2) = 200000000" "equity_share (sample_adapter cash btc) (Fl (1/8)) = 12500000"
  "equity_share (sample_adapter cash btc) (Fl (1/2)) = 50000000"
  by (simp_all add: sample_adapter_def equity_share_def put_position_def float_eval)

lemma sample_config:
  "ta_config (sample_adapter cash btc) =
     \<lparr>tc_initial_equity = Fl 100, tc_max_initial_leverage = Fl 2, tc_min_notional = Fl 10, tc_fee_bps = 5,
      tc_daily_loss_stop_fraction = Fl (1/8), tc_liquidation_equity_fraction = Fl (1/2), tc_max_steps = 100\<rparr>"
  "tl_initial_equity_micro (ta_ledger (sample_adapter cash btc)) = 100000000"
  "\<not> mb_stale (bs_btc (current_bars (sample_adapter cash btc)))"
  by (simp_all add: sample_adapter_def put_position_def current_bars_def flat_bar_def)

lemma sample_order_approved:
  "validate_trading_action (sample_adapter 100000000 0) sample_order = Inr (Approved :: unit policy_decision)"
proof -
  have "finite_positive (Fl 1) ''qty'' = Inr ()" by (simp add: float_eval)
  moreover have "mul_micro 1000000 50000000 = 50000000" "wrap_i64 100000000 = 100000000" "wrap_i64 87500000 = 87500000" "mul_micro 0 50000000 = 0"
    "abs_i64 0 = 0" "abs_i64 1000000 = 1000000" "wrap_i64 0 = 0" "wrap_i64 1000000 = 1000000" "wrap_i64 50000000 = 50000000"
    by (simp_all add: mul_micro_def trunc_div_def MICRO_def wrap_i64_def abs_i64_def)
  ultimately show ?thesis
    unfolding validate_trading_action_def validate_order_def sample_marks_current sample_order_def action_validate_def
    by (simp add: sample_marks_def sample_conversions sample_flat [unfolded sample_marks_def] sample_shares sample_config)
qed

definition filled_ledger :: trading_ledger where
  "filled_ledger = \<lparr>tl_initial_equity_micro = 100000000, tl_cash_micro = 49975000, tl_realized_pnl_micro = 0, tl_fees_micro = 25000,
     tl_funding_paid_micro = 0, tl_positions = [Btc \<mapsto> \<lparr>ps_qty_micro = 1000000, ps_avg_entry_price_micro = 50000000\<rparr>]\<rparr>"

lemma sample_filled: "book_fill Btc Buy 1000000 50000000 5 (ta_ledger (sample_adapter 100000000 0)) = filled_ledger"
proof -
  have "mul_micro 1000000 50000000 = 50000000" "fee_of 50000000 5 = 25000" "wrap_i64 25000 = 25000" "wrap_i64 1000000 = 1000000"
    "wrap_i64 50000000 = 50000000" "wrap_i64 49975000 = 49975000" "abs_i64 0 = 0" "abs_i64 1000000 = 1000000"
    by (simp_all add: mul_micro_def trunc_div_def MICRO_def wrap_i64_def abs_i64_def fee_of_def)
  moreover have "trunc_div 50000000000000 1000000 = 50000000" by (simp add: trunc_div_def)
  moreover have "tl_positions (ta_ledger (sample_adapter 100000000 0)) = Map.empty" by (simp add: sample_adapter_def put_position_def)
  ultimately show ?thesis
    by (simp add: book_fill_def update_position_def put_position_def position_of_def unwrap_or_def flat_position_def entry_average_def
        filled_ledger_def sample_adapter_def)
qed

lemma sample_funded: "apply_funding filled_ledger sample_marks [Btc \<mapsto> Fl 0, Eth \<mapsto> Fl 0] = filled_ledger"
proof -
  have "mul_micro 1000000 50000000 = 50000000" "f_mul (f_of_i64 50000000) (Fl 0) = Fl 0" "round_away 0 = 0" "f_as_i64 (Fl 0) = 0"
    "wrap_i64 49975000 = 49975000" "wrap_i64 0 = 0"
    by (simp_all add: mul_micro_def trunc_div_def MICRO_def wrap_i64_def f_of_i64_numeral fl_def nearest_def round_away_def floor_eq_iff
        I64_MAX_def I64_MIN_def)
  then show ?thesis
    by (simp add: apply_funding_def fund_asset_def filled_ledger_def position_of_def mark_of_def unwrap_or_def sample_marks_def flat_position_def)
qed

lemma sample_step:
  "\<exists>A' out. step_once (sample_adapter 100000000 0) sample_order = (A', Inr out) \<and> \<not> tt_liquidated out"
proof -
  let ?A = "sample_adapter 100000000 0"
  let ?B = "?A\<lparr>ta_next_order_id := 2, ta_ledger := book_fill Btc Buy 1000000 50000000 5 (ta_ledger ?A)\<rparr>"
  have "\<exists>fills. act_on ?A (current_bars ?A) sample_order = (?B, Inr fills)"
    by (simp add: act_on_def place_order_def sample_order_def sample_adapter_def current_bars_def flat_bar_def apply_fill_def
        sample_conversions f_le_def f_eq_def f_zero_def)
  then obtain fills where act: "act_on ?A (current_bars ?A) sample_order = (?B, Inr fills)" by blast
  have marks: "marks_for (current_bars ?A) = Inr sample_marks" using sample_marks_current by (simp add: current_marks_def)
  have rates: "funding_rates_for (current_bars ?A) = [Btc \<mapsto> Fl 0, Eth \<mapsto> Fl 0]"
    by (simp add: funding_rates_for_def sample_adapter_def current_bars_def flat_bar_def)
  let ?F = "?A\<lparr>ta_next_order_id := 2, ta_ledger := filled_ledger\<rparr>"
  have "equity_micro filled_ledger sample_marks = 99975000"
    by (simp add: filled_ledger_def sample_marks_def trading_eval)
  moreover have "equity_share ?F (Fl (1/2)) = 50000000" by (simp add: equity_share_def filled_ledger_def float_eval)
  ultimately have "check_liquidation ?F sample_marks = (?F, Inr [])" by (simp add: check_liquidation_def sample_config)
  moreover have "ta_open_orders ?A = []" "\<not> ta_liquidated ?F" by (simp_all add: sample_adapter_def)
  ultimately show ?thesis
    using advance_step_frame(2) [of ?F sample_marks fills]
    by (cases "advance_step ?F sample_marks fills")
       (simp add: step_once_def settle_nothing act finish_step_def marks rates sample_filled sample_funded)
qed

theorem approved_order_within_leverage_witness:
  "gross_exposure_micro (ta_ledger (fst (step_once (sample_adapter 100000000 0) sample_order))) sample_marks \<le> 200000000"
proof -
  let ?A = "sample_adapter 100000000 0"
  obtain A' out where run: "step_once ?A sample_order = (A', Inr out)" "\<not> tt_liquidated out" using sample_step by blast
  have "ta_open_orders ?A = []" by (simp add: sample_adapter_def)
  from approved_order_within_leverage [OF this sample_order_approved [unfolded sample_order_def] sample_marks_current run(1) [unfolded sample_order_def] run(2)]
  have "gross_exposure_micro (ta_ledger A') sample_marks
    \<le> max (equity_share ?A (tc_max_initial_leverage (ta_config ?A))) (gross_exposure_micro (ta_ledger ?A) sample_marks)" .
  also have "\<dots> = 200000000"
    by (simp add: sample_adapter_def sample_marks_def equity_share_def trading_eval float_eval)
  finally show ?thesis using run by simp
qed

end
