(* ===== verification/Trading_Accounts.thy ===== *)
theory Trading_Accounts
  imports Trading_Safety
begin

text \<open>
  The accounts of the trading ledger.  The comment of \<open>apply_funding\<close> states the invariant that the
  total result is the realised and the unrealised result less the fees.  Every division truncates, so
  the code keeps it up to a drift: funding leaves the drift alone, a fill moves it by at most six micro
  units and one for every whole unit of the position, as long as positions, prices and amounts are
  small enough that no \<open>i64\<close> sum wraps.
\<close>

section \<open>Exact accounts\<close>

definition pnl_drift :: "trading_ledger \<Rightarrow> (asset \<rightharpoonup> int) \<Rightarrow> int" where
  "pnl_drift L marks = total_pnl_micro L marks - (tl_realized_pnl_micro L + unrealized_pnl_micro L marks - tl_fees_micro L)"

text \<open>Positions, prices and amounts within bounds: no sum wraps.\<close>

definition bounded :: "int \<Rightarrow> int \<Rightarrow> trading_ledger \<Rightarrow> (asset \<rightharpoonup> int) \<Rightarrow> bool" where
  "bounded Q C L marks \<longleftrightarrow>
     (\<forall>a. \<bar>ps_qty_micro (position_of L a)\<bar> \<le> Q \<and> 0 \<le> ps_avg_entry_price_micro (position_of L a)
        \<and> ps_avg_entry_price_micro (position_of L a) \<le> 2 ^ 39 \<and> (\<exists>m. marks a = Some m \<and> 0 \<le> m \<and> m \<le> 2 ^ 39))
     \<and> \<bar>tl_cash_micro L\<bar> \<le> C \<and> \<bar>tl_initial_equity_micro L\<bar> \<le> C \<and> \<bar>tl_realized_pnl_micro L\<bar> \<le> C \<and> \<bar>tl_fees_micro L\<bar> \<le> C"

lemma bounded_mono: "bounded Q C L marks \<Longrightarrow> Q \<le> Q' \<Longrightarrow> C \<le> C' \<Longrightarrow> bounded Q' C' L marks"
  unfolding bounded_def by (meson order_trans)

abbreviation scaled :: "int \<Rightarrow> int" where
  "scaled x \<equiv> trunc_div x MICRO"

lemma scaled_error: "\<bar>scaled x * MICRO - x\<bar> < MICRO"
  by (rule trunc_div_error) (simp add: MICRO_def)

lemma abs_trunc_div: "0 < b \<Longrightarrow> \<bar>trunc_div a b\<bar> = \<bar>a\<bar> div b"
  by (simp add: trunc_div_def abs_mult sgn_if pos_imp_zdiv_nonneg_iff)

lemma scaled_bound: "\<bar>x\<bar> \<le> B * MICRO \<Longrightarrow> \<bar>scaled x\<bar> \<le> B"
  using zdiv_mono1 [of "\<bar>x\<bar>" "B * MICRO" MICRO] by (simp add: abs_trunc_div MICRO_def)

lemma product_bound: "\<bar>q\<bar> \<le> 2 ^ 40 \<Longrightarrow> \<bar>p\<bar> \<le> 2 ^ 39 \<Longrightarrow> \<bar>q * p\<bar> \<le> (2 ^ 79 :: int)"
  using mult_mono [of "\<bar>q\<bar>" "2 ^ 40" "\<bar>p\<bar>" "2 ^ 39"] by (simp add: abs_mult)

lemma mul_micro_exact:
  assumes "\<bar>q\<bar> \<le> 2 ^ 40" and "\<bar>p\<bar> \<le> 2 ^ 39"
  shows "mul_micro q p = scaled (q * p) \<and> \<bar>scaled (q * p)\<bar> \<le> 2 ^ 60"
proof -
  have "\<bar>scaled (q * p)\<bar> \<le> 2 ^ 60" using product_bound [OF assms] by (intro scaled_bound) (simp add: MICRO_def)
  then show ?thesis by (simp add: mul_micro_def wrap_small)
qed

text \<open>The contribution of one position to the drift.\<close>

definition position_drift :: "trading_ledger \<Rightarrow> (asset \<rightharpoonup> int) \<Rightarrow> asset \<Rightarrow> int" where
  "position_drift L marks a =
     (let pos = position_of L a; m = mark_of L marks a
      in scaled (ps_qty_micro pos * m) - scaled (ps_qty_micro pos * (m - ps_avg_entry_price_micro pos)))"

lemma drift_exact:
  assumes "bounded (2 ^ 40) (2 ^ 60) L marks"
  shows "pnl_drift L marks = tl_cash_micro L - tl_initial_equity_micro L - tl_realized_pnl_micro L + tl_fees_micro L
    + position_drift L marks Btc + position_drift L marks Eth"
proof -
  have b: "\<bar>ps_qty_micro (position_of L a)\<bar> \<le> 2 ^ 40" "\<bar>mark_of L marks a\<bar> \<le> 2 ^ 39"
    "\<bar>mark_of L marks a - ps_avg_entry_price_micro (position_of L a)\<bar> \<le> 2 ^ 39" for a
    using assms [unfolded bounded_def, THEN conjunct1, rule_format, of a] by (auto simp: mark_of_def unwrap_or_def)
  have w: "wrap_i64 (mark_of L marks a - ps_avg_entry_price_micro (position_of L a))
      = mark_of L marks a - ps_avg_entry_price_micro (position_of L a)" for a
    using b(3) [of a] by (intro wrap_small) simp
  have n: "mul_micro (ps_qty_micro (position_of L a)) (mark_of L marks a) = scaled (ps_qty_micro (position_of L a) * mark_of L marks a)
      \<and> \<bar>scaled (ps_qty_micro (position_of L a) * mark_of L marks a)\<bar> \<le> 2 ^ 60" for a
    by (rule mul_micro_exact [OF b(1,2)])
  note u = mul_micro_exact [OF b(1,3)]
  have s: "sum_assets f = f Btc + f Eth" if "\<bar>f Btc\<bar> \<le> 2 ^ 60" "\<bar>f Eth\<bar> \<le> 2 ^ 60" for f
    unfolding sum_assets_def using that by (simp add: wrap_small)
  have amounts: "\<bar>tl_cash_micro L\<bar> \<le> 2 ^ 60" "\<bar>tl_initial_equity_micro L\<bar> \<le> 2 ^ 60" using assms by (simp_all add: bounded_def)
  have not: "notional_micro L marks = scaled (ps_qty_micro (position_of L Btc) * mark_of L marks Btc)
      + scaled (ps_qty_micro (position_of L Eth) * mark_of L marks Eth)"
    unfolding notional_micro_def using n [of Btc] n [of Eth] by (subst s) simp_all
  have unr: "unrealized_pnl_micro L marks =
      scaled (ps_qty_micro (position_of L Btc) * (mark_of L marks Btc - ps_avg_entry_price_micro (position_of L Btc)))
      + scaled (ps_qty_micro (position_of L Eth) * (mark_of L marks Eth - ps_avg_entry_price_micro (position_of L Eth)))"
    unfolding unrealized_pnl_micro_def Let_def w using u [of Btc] u [of Eth] by (subst s) simp_all
  have "equity_micro L marks = tl_cash_micro L + notional_micro L marks"
    unfolding equity_micro_def not using amounts n [of Btc, THEN conjunct2] n [of Eth, THEN conjunct2] by (intro wrap_small) simp
  then have "total_pnl_micro L marks = tl_cash_micro L + notional_micro L marks - tl_initial_equity_micro L"
    unfolding total_pnl_micro_def not using amounts n [of Btc, THEN conjunct2] n [of Eth, THEN conjunct2] by (subst wrap_small) simp_all
  then show ?thesis by (simp add: pnl_drift_def not unr position_drift_def Let_def)
qed

section \<open>The position after a fill\<close>

lemma put_position_at [simp]:
  "position_of (put_position a pos L) b = (if b = a then if ps_qty_micro pos = 0 then flat_position else pos else position_of L b)"
  by (simp add: put_position_def position_of_def unwrap_or_def)

lemma average_exact:
  fixes q d avg p :: int
  assumes "d \<noteq> 0" and "q = 0 \<or> sgn q = sgn d" and "0 \<le> avg" "avg \<le> P" "0 \<le> p" "p \<le> P"
  defines "avg' \<equiv> trunc_div (avg * \<bar>q\<bar> + p * \<bar>d\<bar>) (\<bar>q\<bar> + \<bar>d\<bar>)"
  shows "0 \<le> avg'" "avg' \<le> P" "\<bar>(q + d) * avg' - q * avg - d * p\<bar> \<le> \<bar>q + d\<bar>" "\<bar>q\<bar> + \<bar>d\<bar> = \<bar>q + d\<bar>"
proof -
  let ?n = "\<bar>q\<bar> + \<bar>d\<bar>" and ?x = "avg * \<bar>q\<bar> + p * \<bar>d\<bar>"
  have n: "0 < ?n" and x: "0 \<le> ?x" using assms(1-6) by simp_all
  have eq: "avg' = ?x div ?n" using n x by (simp add: avg'_def trunc_div_def sgn_if)
  then show "0 \<le> avg'" using n x by (simp add: pos_imp_zdiv_nonneg_iff)
  have "?x \<le> P * ?n" using assms(3-6) by (simp add: distrib_left add_mono mult_right_mono)
  then show "avg' \<le> P" using zdiv_mono1 [of ?x "P * ?n" ?n] n by (simp add: eq)
  show abs: "?n = \<bar>q + d\<bar>" using assms(1,2) by (auto simp: sgn_if split: if_splits)
  have err: "\<bar>avg' * ?n - ?x\<bar> < ?n" unfolding avg'_def using n by (rule trunc_div_error)
  show "\<bar>(q + d) * avg' - q * avg - d * p\<bar> \<le> \<bar>q + d\<bar>"
  proof (cases "0 < d")
    case True
    then have "\<bar>q\<bar> = q" "\<bar>d\<bar> = d" using assms(2) by (auto simp: sgn_if split: if_splits)
    with err abs show ?thesis by (simp add: algebra_simps)
  next
    case False
    then have "\<bar>q\<bar> = - q" "\<bar>d\<bar> = - d" using assms(1,2) by (auto simp: sgn_if split: if_splits)
    with err abs show ?thesis by (simp add: algebra_simps abs_minus_commute)
  qed
qed

text \<open>
  The exact effect of an update: the new position, the gain that is realised, and how far the entry value
  of the position moves from what was paid.
\<close>

definition exact_update :: "int \<Rightarrow> int \<Rightarrow> int \<Rightarrow> int \<Rightarrow> int \<Rightarrow> int \<Rightarrow> bool" where
  "exact_update q avg d p avg' gain \<longleftrightarrow> 0 \<le> avg' \<and> avg' \<le> 2 ^ 39 \<and> \<bar>gain\<bar> \<le> 2 ^ 59
     \<and> (\<exists>g. \<bar>gain * MICRO - g\<bar> < MICRO \<and> \<bar>(q + d) * avg' - q * avg - d * p - g\<bar> \<le> \<bar>q + d\<bar>)"

lemma update_position_exact:
  assumes q: "\<bar>ps_qty_micro (position_of L a)\<bar> \<le> 2 ^ 39" and d: "d \<noteq> 0" "\<bar>d\<bar> \<le> 2 ^ 39"
    and avg: "0 \<le> ps_avg_entry_price_micro (position_of L a)" "ps_avg_entry_price_micro (position_of L a) \<le> 2 ^ 39"
    and p: "0 \<le> p" "p \<le> 2 ^ 39" and r: "\<bar>tl_realized_pnl_micro L\<bar> \<le> 2 ^ 58"
  obtains avg' gain where
    "update_position a d p L = put_position a \<lparr>ps_qty_micro = ps_qty_micro (position_of L a) + d, ps_avg_entry_price_micro = avg'\<rparr>
       (L\<lparr>tl_realized_pnl_micro := tl_realized_pnl_micro L + gain\<rparr>)"
    "exact_update (ps_qty_micro (position_of L a)) (ps_avg_entry_price_micro (position_of L a)) d p avg' gain"
proof -
  define q0 where "q0 = ps_qty_micro (position_of L a)"
  define a0 where "a0 = ps_avg_entry_price_micro (position_of L a)"
  have b: "\<bar>q0\<bar> \<le> 2 ^ 39" "0 \<le> a0" "a0 \<le> 2 ^ 39" using q avg by (simp_all add: q0_def a0_def)
  have w: "wrap_i64 (q0 + d) = q0 + d" "abs_i64 q0 = \<bar>q0\<bar>" "abs_i64 d = \<bar>d\<bar>" "wrap_i64 (p - a0) = p - a0" "wrap_i64 (\<bar>q0\<bar> + \<bar>d\<bar>) = \<bar>q0\<bar> + \<bar>d\<bar>"
    unfolding abs_i64_def using b d(2) p by (auto intro!: wrap_small)
  show thesis
  proof (cases "q0 = 0 \<or> sgn q0 = sgn d")
    case True
    let ?avg = "trunc_div (a0 * \<bar>q0\<bar> + p * \<bar>d\<bar>) (\<bar>q0\<bar> + \<bar>d\<bar>)"
    note ave = average_exact [OF d(1) True b(2,3) p]
    have "\<bar>q0\<bar> + \<bar>d\<bar> \<noteq> 0" using d(1) by simp
    then have "entry_average (position_of L a) d p = ?avg"
      using ave(1,2) unfolding entry_average_def q0_def [symmetric] a0_def [symmetric] w Let_def by (simp add: wrap_small)
    then have "update_position a d p L = put_position a \<lparr>ps_qty_micro = q0 + d, ps_avg_entry_price_micro = ?avg\<rparr>
       (L\<lparr>tl_realized_pnl_micro := tl_realized_pnl_micro L + 0\<rparr>)"
      using True unfolding update_position_def q0_def [symmetric] Let_def w by simp
    moreover have "exact_update q0 a0 d p ?avg 0"
      unfolding exact_update_def using ave by (intro conjI exI [of _ 0]) (simp_all add: MICRO_def)
    ultimately show thesis unfolding q0_def a0_def by (rule that)
  next
    case False
    define c where "c = min \<bar>q0\<bar> \<bar>d\<bar> * sgn q0"
    have c: "c = (if \<bar>d\<bar> \<le> \<bar>q0\<bar> then - d else q0)" using False d(1) by (auto simp: c_def sgn_if min_def split: if_splits)
    then have cb: "\<bar>c\<bar> \<le> 2 ^ 39" using b d(2) by simp
    have pa: "\<bar>p - a0\<bar> \<le> 2 ^ 39" using b p by simp
    let ?avg = "if q0 + d = 0 then 0 else if sgn (q0 + d) \<noteq> sgn q0 then p else a0"
    have "\<bar>c * (p - a0)\<bar> \<le> 2 ^ 78" using mult_mono [OF cb pa] by (simp add: abs_mult)
    then have gb: "\<bar>scaled (c * (p - a0))\<bar> \<le> 2 ^ 59" by (intro scaled_bound) (simp add: MICRO_def)
    have "mul_micro c (p - a0) = scaled (c * (p - a0))" using mul_micro_exact [of c "p - a0"] cb pa by simp
    moreover have "wrap_i64 c = c" "wrap_i64 (tl_realized_pnl_micro L + scaled (c * (p - a0))) = tl_realized_pnl_micro L + scaled (c * (p - a0))"
      using cb gb r by (auto intro!: wrap_small)
    ultimately have "update_position a d p L = put_position a \<lparr>ps_qty_micro = q0 + d, ps_avg_entry_price_micro = ?avg\<rparr>
       (L\<lparr>tl_realized_pnl_micro := tl_realized_pnl_micro L + scaled (c * (p - a0))\<rparr>)"
      using False unfolding update_position_def q0_def [symmetric] a0_def [symmetric] Let_def w c_def by simp
    moreover have "(q0 + d) * ?avg - q0 * a0 - d * p - c * (p - a0) = 0"
    proof (cases "q0 + d = 0")
      case True
      then have "d = - q0" by simp
      then show ?thesis by (simp add: c algebra_simps)
    next
      case False
      then show ?thesis using \<open>\<not> (q0 = 0 \<or> sgn q0 = sgn d)\<close> d(1) by (auto simp: c sgn_if algebra_simps split: if_splits)
    qed
    then have "exact_update q0 a0 d p ?avg (scaled (c * (p - a0)))"
      unfolding exact_update_def using b p gb scaled_error [of "c * (p - a0)"] by (intro conjI exI [of _ "c * (p - a0)"]) simp_all
    ultimately show thesis unfolding q0_def a0_def by (rule that)
  qed
qed

section \<open>The drift of a fill\<close>

lemma abs_sum_bound: "\<bar>x\<bar> \<le> b \<Longrightarrow> \<bar>y\<bar> \<le> c \<Longrightarrow> b + c \<le> (d :: int) \<Longrightarrow> \<bar>x + y\<bar> \<le> d \<and> \<bar>x - y\<bar> \<le> d"
  by linarith

lemma fee_bound: "\<bar>fee_of x bps\<bar> \<le> 2 ^ 50"
proof -
  have "\<bar>wrap_i64 (x * uint bps)\<bar> \<le> 2 ^ 63" using wrap_i64_range [of "x * uint bps"] by (auto simp: I64_MIN_def I64_MAX_def)
  then have "\<bar>wrap_i64 (x * uint bps)\<bar> div 10000 \<le> 2 ^ 63 div 10000" by (intro zdiv_mono1) simp_all
  then show ?thesis by (simp add: fee_of_def abs_trunc_div)
qed

lemma div_bound: "k * b < c * b + x \<Longrightarrow> 0 < b \<Longrightarrow> k \<le> c + x div (b :: int)"
proof -
  assume "k * b < c * b + x" "0 < b"
  then have "(k - c) * b \<le> x" by (simp add: left_diff_distrib)
  then have "(k - c) * b div b \<le> x div b" using \<open>0 < b\<close> by (rule zdiv_mono1)
  then show ?thesis using \<open>0 < b\<close> by simp
qed

lemma six_errors:
  fixes M :: int
  assumes "\<bar>t1 * M - x1\<bar> < M" "\<bar>t2 * M - x2\<bar> < M" "\<bar>t3 * M - x3\<bar> < M" "\<bar>t4 * M - x4\<bar> < M" "\<bar>t5 * M - x5\<bar> < M" "\<bar>t6 * M - x6\<bar> < M"
    and "\<bar>- (s * x1) + x2 - x3 - x4 - x5 + x6\<bar> \<le> r" and "s = 1 \<or> s = - 1"
  shows "\<bar>- (s * t1) + t2 - t3 - t4 - t5 + t6\<bar> * M < 6 * M + r"
proof -
  have M: "0 < M" using assms(1) by linarith
  have "\<bar>- (s * (t1 * M)) + t2 * M - t3 * M - t4 * M - t5 * M + t6 * M\<bar> < 6 * M + r"
    using assms(8) assms(1-7) unfolding abs_less_iff abs_le_iff by (elim disjE conjE) (hypsubst, linarith)+
  moreover have "- (s * (t1 * M)) + t2 * M - t3 * M - t4 * M - t5 * M + t6 * M = (- (s * t1) + t2 - t3 - t4 - t5 + t6) * M"
    by (simp add: algebra_simps)
  ultimately show ?thesis using M by (simp add: abs_mult)
qed

text \<open>A fill in exact arithmetic: the amounts it moves, and the position it leaves.\<close>

lemma book_fill_exact:
  assumes L: "bounded (2 ^ 39) (2 ^ 58) L marks" and qty: "0 < qty" "qty \<le> 2 ^ 39" and p: "0 \<le> p" "p \<le> 2 ^ 39"
  obtains fee avg' gain where
    "book_fill a s qty p bps L = put_position a
       \<lparr>ps_qty_micro = ps_qty_micro (position_of L a) + qty * side_sign s, ps_avg_entry_price_micro = avg'\<rparr>
       (L\<lparr>tl_fees_micro := tl_fees_micro L + fee, tl_cash_micro := tl_cash_micro L - side_sign s * scaled (qty * p) - fee,
          tl_realized_pnl_micro := tl_realized_pnl_micro L + gain\<rparr>)"
    "exact_update (ps_qty_micro (position_of L a)) (ps_avg_entry_price_micro (position_of L a)) (qty * side_sign s) p avg' gain"
    "\<bar>fee\<bar> \<le> 2 ^ 50" "\<bar>scaled (qty * p)\<bar> \<le> 2 ^ 59"
proof -
  define d where "d = qty * side_sign s"
  define fee where "fee = fee_of (scaled (qty * p)) bps"
  have s: "side_sign s = 1 \<or> side_sign s = - 1" by (cases s) simp_all
  then have d: "d \<noteq> 0" "\<bar>d\<bar> \<le> 2 ^ 39" using qty by (auto simp: d_def)
  have pos: "\<bar>ps_qty_micro (position_of L a)\<bar> \<le> 2 ^ 39" "0 \<le> ps_avg_entry_price_micro (position_of L a)"
    "ps_avg_entry_price_micro (position_of L a) \<le> 2 ^ 39"
    using L [unfolded bounded_def, THEN conjunct1, rule_format, of a] by auto
  have amounts: "\<bar>tl_cash_micro L\<bar> \<le> 2 ^ 58" "\<bar>tl_realized_pnl_micro L\<bar> \<le> 2 ^ 58" "\<bar>tl_fees_micro L\<bar> \<le> 2 ^ 58"
    using L by (simp_all add: bounded_def)
  have fee: "\<bar>fee\<bar> \<le> 2 ^ 50" unfolding fee_def by (rule fee_bound)
  have "\<bar>qty * p\<bar> \<le> 2 ^ 78" using mult_mono [of qty "2 ^ 39" p "2 ^ 39"] qty p by (simp add: abs_mult)
  then have n: "\<bar>scaled (qty * p)\<bar> \<le> 2 ^ 59" by (intro scaled_bound) (simp add: MICRO_def)
  have mul: "mul_micro qty p = scaled (qty * p)" using mul_micro_exact [of qty p] qty p by simp
  define L1 where "L1 = L\<lparr>tl_fees_micro := tl_fees_micro L + fee, tl_cash_micro := tl_cash_micro L - side_sign s * scaled (qty * p) - fee\<rparr>"
  have w: "wrap_i64 d = d" "wrap_i64 (tl_fees_micro L + fee) = tl_fees_micro L + fee"
    "wrap_i64 (side_sign s * scaled (qty * p)) = side_sign s * scaled (qty * p)"
    "wrap_i64 (tl_cash_micro L - side_sign s * scaled (qty * p) - fee) = tl_cash_micro L - side_sign s * scaled (qty * p) - fee"
  proof -
    have sn: "\<bar>side_sign s * scaled (qty * p)\<bar> \<le> 2 ^ 59" using n s by auto
    have "\<bar>tl_cash_micro L - side_sign s * scaled (qty * p)\<bar> \<le> 2 ^ 60" "\<bar>tl_fees_micro L + fee\<bar> \<le> 2 ^ 59"
      using abs_sum_bound [OF amounts(1) sn, of "2 ^ 60"] abs_sum_bound [OF amounts(3) fee, of "2 ^ 59"] by simp_all
    then show "wrap_i64 d = d" "wrap_i64 (tl_fees_micro L + fee) = tl_fees_micro L + fee"
      "wrap_i64 (side_sign s * scaled (qty * p)) = side_sign s * scaled (qty * p)"
      "wrap_i64 (tl_cash_micro L - side_sign s * scaled (qty * p) - fee) = tl_cash_micro L - side_sign s * scaled (qty * p) - fee"
      using d(2) sn abs_sum_bound [OF _ fee, of "tl_cash_micro L - side_sign s * scaled (qty * p)" "2 ^ 60" "2 ^ 61"]
      by (simp_all add: wrap_small)
  qed
  have fill: "book_fill a s qty p bps L = update_position a d p L1"
    unfolding book_fill_def Let_def mul fee_def [symmetric] d_def [symmetric] w(1,2,3) wrap_wrap_diff w(4) L1_def ..
  obtain avg' gain where up: "update_position a d p L1 = put_position a \<lparr>ps_qty_micro = ps_qty_micro (position_of L1 a) + d, ps_avg_entry_price_micro = avg'\<rparr>
       (L1\<lparr>tl_realized_pnl_micro := tl_realized_pnl_micro L1 + gain\<rparr>)"
    and ex: "exact_update (ps_qty_micro (position_of L1 a)) (ps_avg_entry_price_micro (position_of L1 a)) d p avg' gain"
    by (rule update_position_exact [of L1 a d p]) (use pos d p amounts(2) in \<open>simp_all add: L1_def\<close>)
  show thesis
    by (rule that [where avg' = avg' and fee = fee and gain = gain]) (use fill up ex fee n in \<open>simp_all add: L1_def d_def\<close>)
qed

lemma bounded_fill:
  assumes L: "bounded (2 ^ 39) (2 ^ 58) L marks" and "\<bar>q\<bar> \<le> 2 ^ 40" "0 \<le> avg'" "avg' \<le> 2 ^ 39" "\<bar>fee\<bar> \<le> 2 ^ 50" "\<bar>n\<bar> \<le> 2 ^ 59" "\<bar>gain\<bar> \<le> 2 ^ 59"
  shows "bounded (2 ^ 40) (2 ^ 60) (put_position a \<lparr>ps_qty_micro = q, ps_avg_entry_price_micro = avg'\<rparr>
    (L\<lparr>tl_fees_micro := tl_fees_micro L + fee, tl_cash_micro := tl_cash_micro L - n - fee,
       tl_realized_pnl_micro := tl_realized_pnl_micro L + gain\<rparr>)) marks" (is "bounded _ _ ?L marks")
proof -
  have "\<bar>ps_qty_micro (position_of ?L b)\<bar> \<le> 2 ^ 40 \<and> 0 \<le> ps_avg_entry_price_micro (position_of ?L b)
      \<and> ps_avg_entry_price_micro (position_of ?L b) \<le> 2 ^ 39 \<and> (\<exists>m. marks b = Some m \<and> 0 \<le> m \<and> m \<le> 2 ^ 39)" for b
    using L [unfolded bounded_def, THEN conjunct1, rule_format, of b] assms(2-4) by (auto simp: flat_position_def)
  moreover have small: "\<bar>tl_cash_micro L\<bar> \<le> 2 ^ 58" "\<bar>tl_initial_equity_micro L\<bar> \<le> 2 ^ 58" "\<bar>tl_realized_pnl_micro L\<bar> \<le> 2 ^ 58"
    "\<bar>tl_fees_micro L\<bar> \<le> 2 ^ 58" using L by (simp_all add: bounded_def)
  moreover from this have "\<bar>tl_cash_micro L - n\<bar> \<le> 2 ^ 59 + 2 ^ 58" "\<bar>tl_realized_pnl_micro L + gain\<bar> \<le> 2 ^ 60" "\<bar>tl_fees_micro L + fee\<bar> \<le> 2 ^ 60"
    using abs_sum_bound [of "tl_cash_micro L" "2 ^ 58" n "2 ^ 59" "2 ^ 59 + 2 ^ 58"] abs_sum_bound [of "tl_realized_pnl_micro L" "2 ^ 58" gain "2 ^ 59" "2 ^ 60"]
      abs_sum_bound [of "tl_fees_micro L" "2 ^ 58" fee "2 ^ 50" "2 ^ 60"] assms(5-7) by simp_all
  moreover from this have "\<bar>tl_cash_micro L - n - fee\<bar> \<le> 2 ^ 60"
    using abs_sum_bound [of "tl_cash_micro L - n" "2 ^ 59 + 2 ^ 58" fee "2 ^ 50" "2 ^ 60"] assms(5) by simp
  ultimately show ?thesis unfolding bounded_def by (simp add: put_position_def)
qed

section \<open>Funding\<close>

lemma wrap_shift: "\<exists>k. wrap_i64 x = x + k * 2 ^ 64"
proof
  show "wrap_i64 x = x + (- ((x + 2 ^ 63) div 2 ^ 64)) * 2 ^ 64"
    using div_mult_mod_eq [of "x + 2 ^ 63" "2 ^ 64"] unfolding wrap_i64_def by linarith
qed

lemma fund_asset_shift:
  "\<exists>t j k. tl_cash_micro (fund_asset marks rates L a) = tl_cash_micro L - t + j * 2 ^ 64
     \<and> tl_realized_pnl_micro (fund_asset marks rates L a) = tl_realized_pnl_micro L - t + k * 2 ^ 64
     \<and> tl_initial_equity_micro (fund_asset marks rates L a) = tl_initial_equity_micro L \<and> tl_fees_micro (fund_asset marks rates L a) = tl_fees_micro L"
proof (cases "ps_qty_micro (position_of L a) = 0")
  case True
  then show ?thesis by (intro exI [of _ 0]) (simp add: fund_asset_def)
next
  case False
  let ?t = "f_as_i64 (f_round (f_mul (f_of_i64 (mul_micro (ps_qty_micro (position_of L a)) (mark_of L marks a))) (unwrap_or (rates a) f_zero)))"
  obtain j k where "wrap_i64 (tl_cash_micro L - ?t) = tl_cash_micro L - ?t + j * 2 ^ 64"
    "wrap_i64 (tl_realized_pnl_micro L - ?t) = tl_realized_pnl_micro L - ?t + k * 2 ^ 64" using wrap_shift by meson
  with False show ?thesis by (intro exI [of _ ?t] exI [of _ j] exI [of _ k]) (simp add: fund_asset_def Let_def)
qed

text \<open>Funding leaves the drift alone as long as the amounts stay within bounds.\<close>

lemma funding_keeps_drift:
  assumes "bounded (2 ^ 40) (2 ^ 60) L marks" and "bounded (2 ^ 40) (2 ^ 60) (apply_funding L marks rates) marks"
  shows "pnl_drift (apply_funding L marks rates) marks = pnl_drift L marks"
proof -
  let ?F = "apply_funding L marks rates"
  have "\<exists>t j k. tl_cash_micro ?F = tl_cash_micro L - t + j * 2 ^ 64 \<and> tl_realized_pnl_micro ?F = tl_realized_pnl_micro L - t + k * 2 ^ 64
      \<and> tl_initial_equity_micro ?F = tl_initial_equity_micro L \<and> tl_fees_micro ?F = tl_fees_micro L"
  proof -
    let ?B = "fund_asset marks rates L Btc"
    obtain t j k where b: "tl_cash_micro ?B = tl_cash_micro L - t + j * 2 ^ 64" "tl_realized_pnl_micro ?B = tl_realized_pnl_micro L - t + k * 2 ^ 64"
      "tl_initial_equity_micro ?B = tl_initial_equity_micro L" "tl_fees_micro ?B = tl_fees_micro L" using fund_asset_shift by blast
    obtain t' j' k' where e: "tl_cash_micro (fund_asset marks rates ?B Eth) = tl_cash_micro ?B - t' + j' * 2 ^ 64"
      "tl_realized_pnl_micro (fund_asset marks rates ?B Eth) = tl_realized_pnl_micro ?B - t' + k' * 2 ^ 64"
      "tl_initial_equity_micro (fund_asset marks rates ?B Eth) = tl_initial_equity_micro ?B" "tl_fees_micro (fund_asset marks rates ?B Eth) = tl_fees_micro ?B"
      using fund_asset_shift by blast
    show ?thesis unfolding apply_funding_def
      by (intro exI [of _ "t + t'"] exI [of _ "j + j'"] exI [of _ "k + k'"]) (simp add: b e algebra_simps)
  qed
  then obtain t j k where shift: "tl_cash_micro ?F = tl_cash_micro L - t + j * 2 ^ 64" "tl_realized_pnl_micro ?F = tl_realized_pnl_micro L - t + k * 2 ^ 64"
    "tl_initial_equity_micro ?F = tl_initial_equity_micro L" "tl_fees_micro ?F = tl_fees_micro L" by blast
  have "\<bar>tl_cash_micro L\<bar> \<le> 2 ^ 60" "\<bar>tl_realized_pnl_micro L\<bar> \<le> 2 ^ 60" "\<bar>tl_cash_micro ?F\<bar> \<le> 2 ^ 60" "\<bar>tl_realized_pnl_micro ?F\<bar> \<le> 2 ^ 60"
    using assms by (simp_all add: bounded_def)
  then have "\<bar>(j - k) * 2 ^ 64\<bar> < 2 ^ 64" using shift(1,2) by (simp add: left_diff_distrib)
  then have "j = k" by (simp add: abs_mult)
  then show ?thesis using shift by (simp add: drift_exact [OF assms(1)] drift_exact [OF assms(2)] position_drift_def mark_of_def)
qed

section \<open>Properties\<close>

text \<open>
  C39. The drift of the accounts: a fill changes the difference between the total result and the realised and
  unrealised result less fees by at most six micro units and one for every whole unit of the position it leaves.
  This holds where no \<open>i64\<close> sum wraps: the positions and the quantity of the fill are at most $2^{39}$ micro units, the
  entry prices, the marks and the price of the fill are between zero and $2^{39}$, there is a mark for every asset, and
  the cash, the initial equity, the realised result and the fees are at most $2^{58}$ micro units in absolute value.
\<close>

theorem fill_drift_bounded:
  assumes L: "bounded (2 ^ 39) (2 ^ 58) L marks" and qty: "0 < qty" "qty \<le> 2 ^ 39" and p: "0 \<le> p" "p \<le> 2 ^ 39"
  shows "\<bar>pnl_drift (book_fill a s qty p bps L) marks - pnl_drift L marks\<bar>
    \<le> 6 + \<bar>ps_qty_micro (position_of L a) + qty * side_sign s\<bar> div MICRO"
proof -
  define d where "d = qty * side_sign s"
  define q where "q = ps_qty_micro (position_of L a)"
  define avg where "avg = ps_avg_entry_price_micro (position_of L a)"
  let ?L = "book_fill a s qty p bps L"
  obtain m where m: "marks a = Some m" using L by (auto simp: bounded_def)
  obtain fee avg' gain where fill: "?L = put_position a \<lparr>ps_qty_micro = q + d, ps_avg_entry_price_micro = avg'\<rparr>
       (L\<lparr>tl_fees_micro := tl_fees_micro L + fee, tl_cash_micro := tl_cash_micro L - side_sign s * scaled (qty * p) - fee,
          tl_realized_pnl_micro := tl_realized_pnl_micro L + gain\<rparr>)"
    and ex: "exact_update q avg d p avg' gain" and fee: "\<bar>fee\<bar> \<le> 2 ^ 50" and n: "\<bar>scaled (qty * p)\<bar> \<le> 2 ^ 59"
    unfolding q_def avg_def d_def by (rule book_fill_exact [OF L qty p])
  have s: "side_sign s = 1 \<or> side_sign s = - 1" by (cases s) simp_all
  have "bounded (2 ^ 40) (2 ^ 60) L marks" using L by (rule bounded_mono) simp_all
  note old = drift_exact [OF this]
  have "bounded (2 ^ 40) (2 ^ 60) ?L marks"
  proof -
    have "\<bar>q\<bar> \<le> 2 ^ 39" using L by (simp add: bounded_def q_def)
    then have "\<bar>q + d\<bar> \<le> 2 ^ 40" "\<bar>side_sign s * scaled (qty * p)\<bar> \<le> 2 ^ 59" using s qty n by (auto simp: d_def)
    then show ?thesis unfolding fill using L ex fee by (intro bounded_fill) (simp_all add: exact_update_def)
  qed
  note new = drift_exact [OF this]
  have other: "position_drift ?L marks b = position_drift L marks b" if "b \<noteq> a" for b
    using that L [unfolded bounded_def, THEN conjunct1, rule_format, of b]
    by (auto simp: fill position_drift_def mark_of_def unwrap_or_def)
  have here: "position_drift L marks a = scaled (q * m) - scaled (q * (m - avg))"
    "position_drift ?L marks a = scaled ((q + d) * m) - scaled ((q + d) * (m - avg'))"
    using m by (simp_all add: fill position_drift_def mark_of_def unwrap_or_def q_def avg_def flat_position_def Let_def)
  have amounts: "tl_cash_micro ?L = tl_cash_micro L - side_sign s * scaled (qty * p) - fee" "tl_fees_micro ?L = tl_fees_micro L + fee"
    "tl_realized_pnl_micro ?L = tl_realized_pnl_micro L + gain" "tl_initial_equity_micro ?L = tl_initial_equity_micro L"
    by (simp_all add: fill put_position_def)
  have "position_drift ?L marks Btc + position_drift ?L marks Eth - position_drift L marks Btc - position_drift L marks Eth
      = position_drift ?L marks a - position_drift L marks a"
    using other [of Btc] other [of Eth] by (cases a) simp_all
  then have diff: "pnl_drift ?L marks - pnl_drift L marks =
      - (side_sign s * scaled (qty * p)) + scaled ((q + d) * m) - scaled (q * m) - gain - scaled ((q + d) * (m - avg')) + scaled (q * (m - avg))"
    unfolding old new here amounts by linarith
  obtain g where g: "\<bar>gain * MICRO - g\<bar> < MICRO" "\<bar>(q + d) * avg' - q * avg - d * p - g\<bar> \<le> \<bar>q + d\<bar>"
    using ex by (auto simp: exact_update_def)
  have "\<bar>- (side_sign s * (qty * p)) + (q + d) * m - q * m - g - (q + d) * (m - avg') + q * (m - avg)\<bar> \<le> \<bar>q + d\<bar>"
    using g(2) by (simp add: d_def algebra_simps)
  from six_errors [OF scaled_error scaled_error scaled_error g(1) scaled_error scaled_error this s]
  show ?thesis unfolding diff q_def [symmetric] d_def [symmetric] by (intro div_bound) (simp_all add: MICRO_def)
qed

section \<open>Samples\<close>

definition drift_ledger :: trading_ledger where
  "drift_ledger = \<lparr>tl_initial_equity_micro = 100000000, tl_cash_micro = 100000000, tl_realized_pnl_micro = 0, tl_fees_micro = 0,
     tl_funding_paid_micro = 0, tl_positions = Map.empty\<rparr>"

definition drift_marks :: "asset \<rightharpoonup> int" where
  "drift_marks = [Btc \<mapsto> 700000, Eth \<mapsto> 0]"

lemma drift_flat: "position_of drift_ledger a = flat_position"
  by (simp add: drift_ledger_def position_of_def unwrap_or_def)

text \<open>The identity of the comment fails after one fill: three micro units at half a dollar, marked at seventy cents.\<close>

lemma pnl_identity_fails: "pnl_drift (book_fill Btc Buy 3 500000 0 drift_ledger) drift_marks = 1"
proof -
  have v: "mul_micro 3 500000 = 1" "mul_micro 3 700000 = 2" "mul_micro 3 200000 = 0" "mul_micro 0 0 = 0" "fee_of 1 0 = 0"
    "wrap_i64 0 = 0" "wrap_i64 1 = 1" "wrap_i64 2 = 2" "wrap_i64 3 = 3" "wrap_i64 99999999 = 99999999" "wrap_i64 100000001 = 100000001"
    "wrap_i64 200000 = 200000" "abs_i64 0 = 0" "abs_i64 3 = 3" "trunc_div 1500000 3 = 500000" "wrap_i64 500000 = 500000"
    by (simp_all add: mul_micro_def trunc_div_def MICRO_def wrap_i64_def abs_i64_def fee_of_def)
  have "book_fill Btc Buy 3 500000 0 drift_ledger = drift_ledger\<lparr>tl_cash_micro := 99999999,
      tl_positions := [Btc \<mapsto> \<lparr>ps_qty_micro = 3, ps_avg_entry_price_micro = 500000\<rparr>]\<rparr>"
    by (simp add: book_fill_def update_position_def entry_average_def put_position_def drift_flat flat_position_def v)
       (simp add: drift_ledger_def v)
  then show ?thesis
    by (simp add: drift_ledger_def drift_marks_def pnl_drift_def total_pnl_micro_def unrealized_pnl_micro_def equity_micro_def
        notional_micro_def sum_assets_def mark_of_def position_of_def unwrap_or_def flat_position_def v)
qed

theorem fill_drift_bounded_witness:
  "\<bar>pnl_drift (book_fill Btc Buy 3 500000 0 drift_ledger) drift_marks - pnl_drift drift_ledger drift_marks\<bar> \<le> 6"
proof -
  have "\<exists>m. drift_marks a = Some m \<and> 0 \<le> m \<and> m \<le> 2 ^ 39" for a by (cases a) (simp_all add: drift_marks_def)
  then have "bounded (2 ^ 39) (2 ^ 58) drift_ledger drift_marks"
    unfolding bounded_def drift_flat by (simp add: drift_ledger_def flat_position_def)
  from fill_drift_bounded [OF this, of 3 500000 Btc Buy 0]
  show ?thesis by (simp add: drift_flat flat_position_def MICRO_def)
qed

end
