(* ===== verification/Trading_Runs.thy ===== *)
theory Trading_Runs
  imports Trading_Accounts
begin

text \<open>
  The trading adapter as a domain of the simulation kernel.  What every step keeps holds for the
  adapter a whole run leaves: it has bars, and it lists open positions only.
\<close>

section \<open>The adapter as a domain\<close>

definition TRADING_ADAPTER_ID :: string where "TRADING_ADAPTER_ID = ''trading-portfolio-sim''"
definition TRADING_ADAPTER_VERSION :: string where "TRADING_ADAPTER_VERSION = ''0.1.0''"

definition trading_simulation ::
    "(trading_adapter, 'g, trading_observation, trading_action, trading_outcome, 'm, 'j, 't, society_error) simulation
     \<Rightarrow> (trading_adapter, 'g, trading_observation, trading_action, trading_outcome, 'm, 'j, 't, society_error) simulation" where
  "trading_simulation X =
     X\<lparr>sm_adapter_id := \<lambda>_. (TRADING_ADAPTER_ID, TRADING_ADAPTER_VERSION), sm_reset := adapter_reset,
       sm_validate_action := \<lambda>A action _. validate_trading_action A action, sm_step := adapter_step, sm_primary_score := tt_reward\<rparr>"

section \<open>Open positions\<close>

definition ledger_ok :: "trading_ledger \<Rightarrow> bool" where
  "ledger_ok L \<longleftrightarrow> (\<forall>a p. tl_positions L a = Some p \<longrightarrow> ps_qty_micro p \<noteq> 0)"

definition adapter_ok :: "trading_adapter \<Rightarrow> bool" where
  "adapter_ok A \<longleftrightarrow> ta_bars A \<noteq> [] \<and> ledger_ok (ta_ledger A)"

lemma put_position_ok: "ledger_ok L \<Longrightarrow> ledger_ok (put_position a pos L)"
  by (simp add: ledger_ok_def put_position_def)

lemma ledger_ok_frame [simp]:
  "ledger_ok (L\<lparr>tl_cash_micro := c\<rparr>) = ledger_ok L" "ledger_ok (L\<lparr>tl_fees_micro := c\<rparr>) = ledger_ok L"
  "ledger_ok (L\<lparr>tl_realized_pnl_micro := c\<rparr>) = ledger_ok L" "ledger_ok (L\<lparr>tl_funding_paid_micro := c\<rparr>) = ledger_ok L"
  by (simp_all add: ledger_ok_def)

lemma book_fill_ok: "ledger_ok L \<Longrightarrow> ledger_ok (book_fill a s q p bps L)"
  by (simp add: book_fill_def update_position_def put_position_ok Let_def)

lemma apply_fill_ok: "ledger_ok L \<Longrightarrow> ledger_ok (fst (apply_fill L r))"
  by (simp add: apply_fill_def book_fill_ok split: sum.splits)

lemma apply_funding_ok: "ledger_ok L \<Longrightarrow> ledger_ok (apply_funding L marks rates)"
  by (simp add: apply_funding_def fund_asset_def Let_def)

lemma fst_and_then: "P (fst r) \<Longrightarrow> (\<And>s x. P s \<Longrightarrow> P (fst (f s x))) \<Longrightarrow> P (fst (and_then r f))"
  by (cases r, cases "snd r") (auto simp: and_then_def)

lemma liquidate_ok: "ledger_ok L \<Longrightarrow> ledger_ok (fst (liquidate_assets marks bps L as))"
proof (induction "as" arbitrary: L)
  case (Cons a as')
  have fill: "ledger_ok (fst (and_then (apply_fill L r) (\<lambda>L' fill. and_then (liquidate_assets marks bps L' as') (\<lambda>L'' fills. (L'', Inr (fill # fills))))))" for r
    by (rule fst_and_then [where P = ledger_ok, OF apply_fill_ok [OF Cons.prems]], rule fst_and_then [where P = ledger_ok, OF Cons.IH]) simp_all
  show ?case
    unfolding liquidate_assets.simps Let_def using fill Cons by (cases "marks a") simp_all
qed simp

text \<open>A step of the adapter keeps its bars and its configuration, and lists no closed position.\<close>

definition keeps_ok :: "trading_adapter \<Rightarrow> trading_adapter \<Rightarrow> bool" where
  "keeps_ok A B \<longleftrightarrow> ta_bars B = ta_bars A \<and> ta_config B = ta_config A \<and> (ledger_ok (ta_ledger A) \<longrightarrow> ledger_ok (ta_ledger B))"

lemma keeps_ok_refl [simp]: "keeps_ok A A"
  by (simp add: keeps_ok_def)

lemma keeps_ok_trans: "keeps_ok A B \<Longrightarrow> keeps_ok B C \<Longrightarrow> keeps_ok A C"
  by (simp add: keeps_ok_def)

lemma keeps_ok_orders [simp]: "keeps_ok (A\<lparr>ta_open_orders := os\<rparr>) B = keeps_ok A B" "keeps_ok A (B\<lparr>ta_open_orders := os\<rparr>) = keeps_ok A B"
  "keeps_ok A (B\<lparr>ta_next_order_id := i\<rparr>) = keeps_ok A B" "keeps_ok (A\<lparr>ta_next_order_id := i\<rparr>) B = keeps_ok A B"
  by (simp_all add: keeps_ok_def)

lemma execute_keeps: "keeps_ok A (fst (execute_fill_intents A intents))"
proof (induction intents arbitrary: A)
  case (Cons i intents)
  let ?qty = "if fi_reduce_only i
      then reduce_only_qty (fi_qty i) (fi_side i) (ps_qty_micro (position_of (ta_ledger A) (fi_asset i))) else Inr (fi_qty i)"
  show ?case
  proof (cases ?qty)
    case (Inl e)
    then show ?thesis by (simp only: execute_fill_intents.simps sum.case fst_conv keeps_ok_refl)
  next
    case (Inr qty)
    let ?r = "\<lparr>fq_asset = fi_asset i, fq_side = fi_side i, fq_qty = qty, fq_price = fi_price i,
                   fq_fee_bps = tc_fee_bps (ta_config A), fq_order_id = fi_order_id i, fq_liquidation = False\<rparr>"
    obtain L r where f: "apply_fill (ta_ledger A) ?r = (L, r)" by force
    then have step: "keeps_ok A (A\<lparr>ta_ledger := L\<rparr>)" using apply_fill_ok [of "ta_ledger A" ?r] by (simp add: keeps_ok_def)
    have rest: "keeps_ok A (fst (and_then (execute_fill_intents (A\<lparr>ta_ledger := L\<rparr>) intents) (\<lambda>A' fills. (A', Inr (fill # fills)))))" for fill
      by (rule fst_and_then [where P = "keeps_ok A", OF keeps_ok_trans [OF step Cons.IH]]) simp
    show ?thesis
    proof (cases "f_le qty f_zero")
      case True
      then show ?thesis unfolding execute_fill_intents.simps Inr sum.case using Cons.IH by simp
    next
      case False
      show ?thesis
        unfolding execute_fill_intents.simps Inr sum.case if_not_P [OF False] f prod.case
        using step rest by (cases r) simp_all
    qed
  qed
qed simp

lemma settle_keeps: "keeps_ok A (fst (settle_resting A bar))"
proof -
  obtain os r where f: "fill_resting_orders (ta_open_orders A) bar = (os, r)" by force
  show ?thesis unfolding settle_resting_def f prod.case
    using execute_keeps [of "A\<lparr>ta_open_orders := os\<rparr>"] by (cases r) simp_all
qed

lemma act_keeps: "keeps_ok A (fst (act_on A bars action))"
proof (cases action)
  case (PlaceOrder a s ot qty lp ro)
  let ?A = "A\<lparr>ta_next_order_id := ta_next_order_id A + 1\<rparr>"
  have first: "keeps_ok A (fst (case intent of Some i \<Rightarrow> execute_fill_intents ?A [i] | None \<Rightarrow> (?A, Inr [])))" for intent
    using execute_keeps [of ?A] by (cases intent) (simp_all del: execute_fill_intents.simps)
  have "keeps_ok A (fst (and_then (case intent of Some i \<Rightarrow> execute_fill_intents ?A [i] | None \<Rightarrow> (?A, Inr [])) (\<lambda>A'' fills.
      (case resting of Some order \<Rightarrow> A''\<lparr>ta_open_orders := ta_open_orders A'' @ [order]\<rparr> | None \<Rightarrow> A'', Inr fills))))" for intent resting
    by (rule fst_and_then [where P = "keeps_ok A", OF first]) (cases resting; simp)
  then show ?thesis unfolding PlaceOrder act_on_def trading_action.case Let_def
    by (cases "place_order (ta_next_order_id A) (PlaceOrder a s ot qty lp ro) (bar_of bars a)") auto
qed (use execute_keeps in \<open>simp_all add: act_on_def del: execute_fill_intents.simps\<close>)

lemma check_keeps: "keeps_ok A (fst (check_liquidation A marks))"
proof -
  obtain L r where lq: "liquidate_all (ta_ledger A) marks (tc_fee_bps (ta_config A)) = (L, r)" by force
  then have "ledger_ok (ta_ledger A) \<Longrightarrow> ledger_ok L"
    using liquidate_ok [of "ta_ledger A" marks "tc_fee_bps (ta_config A)" "[Btc, Eth]"] by (simp add: liquidate_all_def del: liquidate_assets.simps)
  then show ?thesis by (cases r) (simp_all add: check_liquidation_def lq keeps_ok_def)
qed

lemma finish_keeps: "keeps_ok A (fst (finish_step A bars fills))"
proof (cases "marks_for bars")
  case (Inr marks)
  let ?F = "A\<lparr>ta_ledger := apply_funding (ta_ledger A) marks (funding_rates_for bars)\<rparr>"
  have "keeps_ok A ?F" by (simp add: keeps_ok_def apply_funding_ok)
  then have check: "keeps_ok A (fst (check_liquidation ?F marks))" using check_keeps by (rule keeps_ok_trans)
  have advance: "keeps_ok A B \<Longrightarrow> keeps_ok A (fst (map_prod id Inr (advance_step B marks fs) :: _ \<times> (society_error + _)))" for B fs
    by (simp add: advance_step_def keeps_ok_def Let_def)
  show ?thesis unfolding finish_step_def Inr sum.case
    by (rule fst_and_then [where P = "keeps_ok A", OF check advance])
qed (simp add: finish_step_def)

lemma step_once_keeps: "keeps_ok A (fst (step_once A action))"
  unfolding step_once_def Let_def
proof (rule fst_and_then [where P = "keeps_ok A", OF settle_keeps])
  fix B btc_fills
  assume B: "keeps_ok A B"
  show "keeps_ok A (fst (and_then (settle_resting B (bs_eth (current_bars A))) (\<lambda>C eth_fills.
      and_then (act_on C (current_bars A) action) (\<lambda>D fills. finish_step D (current_bars A) (btc_fills @ eth_fills @ fills)))))"
  proof (rule fst_and_then [where P = "keeps_ok A", OF keeps_ok_trans [OF B settle_keeps]])
    fix C eth_fills
    assume C: "keeps_ok A C"
    show "keeps_ok A (fst (and_then (act_on C (current_bars A) action) (\<lambda>D fills. finish_step D (current_bars A) (btc_fills @ eth_fills @ fills))))"
      by (rule fst_and_then [where P = "keeps_ok A", OF keeps_ok_trans [OF C act_keeps] keeps_ok_trans [OF _ finish_keeps]])
  qed
qed

lemma adapter_step_ok:
  assumes "adapter_ok A" and "adapter_step A action = (B, r)"
  shows "adapter_ok B"
proof -
  have "fst (adapter_step A action) = fst (step_once A action)"
    by (cases "step_once A action", cases "snd (step_once A action)") (simp_all add: adapter_step_def)
  then show ?thesis using step_once_keeps [of A action] assms by (simp add: adapter_ok_def keeps_ok_def)
qed

lemma with_bars_ok: "with_bars config bars = Inr A \<Longrightarrow> adapter_ok A"
  by (auto simp: with_bars_def new_trading_ledger_def adapter_ok_def ledger_ok_def split: list.splits elim!: try_okE)

lemma adapter_reset_ok: "adapter_ok A \<Longrightarrow> adapter_reset A = (B, r) \<Longrightarrow> adapter_ok B"
  using with_bars_ok by (auto simp: adapter_reset_def split: sum.splits)

interpretation trading_run: episode_invariant "trading_simulation X" adapter_ok for X
proof
  show "adapter_ok A \<Longrightarrow> sm_reset (trading_simulation X) A = (A', Inr obs) \<Longrightarrow> adapter_ok A'" for A A' obs
    by (simp add: trading_simulation_def adapter_reset_ok)
  show "adapter_ok A \<Longrightarrow> sm_step (trading_simulation X) A act = (A', Inr r) \<Longrightarrow> adapter_ok A'" for A act A' r
    by (simp add: trading_simulation_def adapter_step_ok)
qed

text \<open>After every episode of a run the adapter has bars and no closed position is listed.\<close>

lemma trading_episodes_ok:
  "adapter_ok (ks_adapter k) \<Longrightarrow> kernel_episodes (trading_simulation X) config es k = Inr k' \<Longrightarrow> adapter_ok (ks_adapter k')"
  by (rule trading_run.episodes_ok)

end
