(* ===== verification/Spec2Isabelle.thy ===== *)
theory Spec2Isabelle
  imports Ledger_History Ledger_Policy Mempool Lane_Pools Consensus_Votes Validity_Proofs Zone_Registry
    Proof_Aggregation Masterchain_Safety Wallet_Market_Safety Wallet_Receipts Wallet_Policy Wallet_Reputation
    Bft_Wire Block_Payload Light_Client Agent_Life_Safety Trading_Runs
begin

text \<open>
  A verification library of the Fractal node.

  The program is a node of a BFT chain with a native ledger, an EVM lane, execution zones that are
  settled on a masterchain, light clients of the masterchain, an agent wallet, the life cycle of agents and a trading simulation for them.
  The parts modelled here are the crates that hold its
  state and its decisions; what only moves bytes (processes, sockets, files, command lines) is left
  out.  All paths below are relative to \<^verbatim>\<open>src/crates\<close>.

  \<^bold>\<open>How the code is represented.\<close>  A struct is a \<open>record\<close>, an enum a \<open>datatype\<close>, an unsigned integer of
  \<open>w\<close> bits a \<open>w word\<close>: \<open>+\<close> wraps as the unchecked operators do in a release build, and the saturating and
  checked operations are \<open>sat_add\<close>, \<open>checked_add\<close> and so on of \<open>Fractal_Prelude\<close>.  Hashes, keys and
  signatures are words of their width.  A text is the list of its UTF-8 bytes.  A method with \<open>&mut self\<close> takes the state and returns it with a
  result \<open>Inl\<close> error or \<open>Inr\<close> value (type \<open>exec\<close>), so the state that an early return leaves behind is
  explicit.  A hash map is a map or, where its size or order matters, an association list; a
  \<open>BTreeMap\<close> whose order is observed is the sorted association list of \<open>BTree_Map\<close>, behind the locale
  \<open>ordered_map\<close>.  Loops are recursive functions that terminate; no definition uses fuel.  The two
  walks of \<open>Wallet_Policy\<close> carry the bounds the code has, and a theorem shows that they never cut a
  walk short.

  \<^bold>\<open>Parameters.\<close>  Keccak, Blake3, SHA-256, Poseidon, BLS and Ed25519, Borsh and JSON encodings, the
  Reed-Solomon codec, the EVM engine and the STWO and Plonky2 provers are third-party code.  They are
  fields of records that the definitions take as arguments (\<open>zone_ext\<close>, \<open>wallet_crypto\<close>, \<open>receipt_ext\<close> and
  the like).  What a theorem needs of them is a hypothesis of that theorem, such as that a signature
  scheme accepts its own signatures, or that no two of the inputs hashed in this statement collide,
  and a witness instantiates it with a concrete function (\<open>Sample_Instances\<close> and the last section of
  each theory).

  \<^bold>\<open>Theories.\<close>

  \<^descr> \<open>Fractal_Prelude\<close>, \<open>BTree_Map\<close>, \<open>Merkle\<close>: machine integers, results, big-endian bytes, totals
    over maps, and what runs of a fallible operation keep (locale \<open>fallible_machine\<close>); the ordered map; the
    Merkle tree of \<open>core/src/merkle.rs\<close> with completeness and soundness of its paths, and what a root
    determines.  The trees of the other crates are instances of it with other node hashes.
  \<^descr> \<open>Chain_Economics\<close>: \<open>core/src/chain_economics.rs\<close>, parameters, genesis loader, emission schedule.
  \<^descr> \<open>Tx_Types\<close>, \<open>Ledger_State\<close>, \<open>Ledger_Ops\<close>: \<open>core/src/tx.rs\<close>, \<open>native_types.rs\<close>, \<open>native_gas.rs\<close> and
    \<open>state.rs\<close>; one definition for each native call and for \<open>apply_transaction\<close> with its checks.
    \<open>Ledger_Frames\<close> says which fields each operation leaves alone; \<open>Ledger_Funds\<close> that a transaction
    conserves funds up to what its call declares, and what a failed one does to them; \<open>Ledger_History\<close> that transactions and claims take effect
    at most once in every history; \<open>Ledger_Policy\<close> what is governed and that minting stays under the cap.
  \<^descr> \<open>Quorum\<close>, \<open>Certificates\<close>: \<open>core\<close> and \<open>consensus\<close> code for owned-object certificates, with the counting
    argument behind conflict evidence as the locales \<open>threshold_quorum\<close> and \<open>bft_quorum\<close>.
  \<^descr> \<open>Mempool\<close>, \<open>Lane_Pools\<close>: the transaction, certificate and proof pools of \<open>mempool\<close> and \<open>consensus\<close>:
    draining under a gas budget, base fee, exclusive object versions (locale \<open>exclusive_pool\<close>), permanence of
    finality.
  \<^descr> \<open>Consensus_Votes\<close>: validator sets, leaders, votes, quorum certificates; a verified certificate has
    an honest signer in common with every other, exactly for the set sizes where the threshold allows it.
  \<^descr> \<open>Bft_Wire\<close>: \<open>bft-wire/src\<close>, the same votes under stake weights, timeouts and evidence of misbehaviour.
    Among \<open>3 f + 1\<close> validators conflicting certificates cost a third of the stake (locale \<open>weighted_quorum\<close>), an honest validator is
    never slashed, and a view that a quorum has timed out of can be left.
  \<^descr> \<open>Block_Types\<close>, \<open>Block_Build\<close>, \<open>Data_Availability\<close>, \<open>DA_Correctness\<close>, \<open>State_Commitment\<close>, \<open>Exec_Witness\<close>,
    \<open>Block_Correctness\<close>: \<open>consensus/src/lib.rs\<close>, from the selection of transactions to the header, the
    erasure-coded sidecar, the state commitment with access rows, and replay.
  \<^descr> \<open>Block_Payload\<close>: \<open>consensus/src/payload.rs\<close>, the kinds of payload and what a payload root binds.
  \<^descr> \<open>Proof_System\<close>, \<open>Validity_Proofs\<close>: \<open>consensus\<close> code that checks a validity proof against a block;
    which blocks a proof is for, what its circuit lets in, and where a development digest passes.
  \<^descr> \<open>Shard_Routing\<close>, \<open>Zone_Types\<close>, \<open>Forced_Inclusion\<close>, \<open>Zone_Registry\<close>: \<open>shard/src/lib.rs\<close>.
    \<open>Forced_Inclusion\<close> is the abstract machine of a forced-inclusion queue (requests wait until their
    deadline, then they are events, then settled), with the locale \<open>forced_inclusion_component\<close> of what refines
    it; the registry does, so that no request is lost or late.  Cross-zone messages are consumed at most once and only if they were committed.
  \<^descr> \<open>Proof_Aggregation\<close>: \<open>proof-aggregator/src\<close>; what a global root binds, its values being read as elements
    of the Goldilocks field.
  \<^descr> \<open>Masterchain\<close>, \<open>Masterchain_Safety\<close>: \<open>masterchain/src/ledger.rs\<close>, prover bonds and credits, rounds and
    sealing.  Its zone operations refine the same queue machine; the money of provers is accounted for
    after every history; a sealed block lists what was pending.
  \<^descr> \<open>Light_Client\<close>: \<open>light-client/src\<close>; a sealed block verifies at a client, and verified heads with one
    root agree on every shard.
  \<^descr> \<open>Agent_Life\<close>, \<open>Agent_Life_Safety\<close>: \<open>agent-life/src\<close>; estates are divided without loss, and the reaper
    leaves no due soul behind.
  \<^descr> \<open>Wallet_Capabilities\<close>, \<open>Wallet_Market\<close>, \<open>Wallet_Market_Safety\<close>, \<open>Wallet_Receipts\<close>, \<open>Wallet_Policy\<close>,
    \<open>Wallet_Reputation\<close>: \<open>wallet/src\<close>.  Delegation never widens; budgets and stakes are two instances of
    the locale \<open>escrow\<close> and back the open intents of the market; revocation proofs are exact; receipts bind
    what they list; policy templates resolve; the best quote is chosen.

  \<^descr> \<open>Rust_Result\<close>, \<open>Float64\<close>: the question-mark operator on pure results, and the \<open>f64\<close> of the language with its
    rounding to nearest; how far a rounding errs, and which amounts survive the conversion.
  \<^descr> \<open>Sim_Kernel\<close>: \<open>fractal-society/src/kernel.rs\<close> with the trace of \<open>simulation.rs\<close>; the evidence of a run lists every
    move of the play between agent and adapter, and what a step keeps a run keeps (locale \<open>episode_invariant\<close>).
  \<^descr> \<open>Trading_Sim\<close>, \<open>Trading_Adapter\<close>, \<open>Trading_Safety\<close>, \<open>Trading_Accounts\<close>, \<open>Trading_Runs\<close>:
    \<open>fractal-society/src/adapters/trading\<close>; approved orders stay within the leverage limit, liquidation
    closes everything, the accounts drift by at most the truncations, and the adapter is a domain of the kernel.

  \<^bold>\<open>How the parts meet.\<close>  The pools hand transactions and certificates to block building, which runs the
  ledger over them and commits to its state; votes and certificates of validators make the block final;
  anchors, zone updates and proofs of blocks go to the zone registry inside the masterchain ledger, which
  seals them in rounds with an aggregated proof, which light clients verify.  Each theory imports those whose operations its code
  calls, and a theorem about a caller rests on the lemmas of the callee.

  \<^bold>\<open>What is not modelled.\<close>  The bodies of third-party cryptography, provers and the revm adapter; storage,
  networking, RPC, the node process and the masterchain service around its ledger (their logic is
  wiring of the modelled parts through tasks, timers and files); the off-chain
  training stack and the research services of the society crate; command lines, indexers, benchmarks.  Some files of \<open>core/src\<close>,
  \<open>consensus/src\<close> and \<open>wallet/src\<close> belong to no crate, as no module declares them; they are not compiled and not modelled.
  Concurrency does not occur inside the modelled parts: each is a state behind an exclusive reference, and
  interleaving is the order of operations in a history.
\<close>

end
